(* ===== verification/Prelude.thy ===== *)
theory Prelude
  imports Main "HOL-Library.List_Lexorder" "HOL-Library.Char_ord" "HOL-Library.Sublist"
begin

text \<open>
  The prelude of the development: results with an early return (\<open>bindE\<close>, \<open>foldE\<close>), 64-bit
  wrap-around, the byte strings of the Go program as lists of characters, the part of Go's
  \<open>strings\<close> and \<open>strconv\<close> packages the components use, and decimal numerals with the lemmas
  on reading and printing them that the pricing and the quota components share.
\<close>

section \<open>Hint collections\<close>

named_theorems resE "inversion of results that return normally"
named_theorems digit_simps "facts about decimal numerals"

section \<open>Results with an early return\<close>

text \<open>
  A Go function that returns \<open>(value, error)\<close> is a function into \<open>'e + 'a\<close>: \<open>Inl e\<close> is a
  return with a non-nil error, \<open>Inr x\<close> a return with a nil error.
\<close>

definition bindE :: "'e + 'a \<Rightarrow> ('a \<Rightarrow> 'e + 'b) \<Rightarrow> 'e + 'b" where
  "bindE m f = (case m of Inl e \<Rightarrow> Inl e | Inr x \<Rightarrow> f x)"

lemma bindE_simps [simp]:
  "bindE (Inl e) f = Inl e"
  "bindE (Inr x) f = f x"
  by (simp_all add: bindE_def)

lemma bindE_Inr_iff [resE]: "bindE m f = Inr y \<longleftrightarrow> (\<exists>x. m = Inr x \<and> f x = Inr y)"
  by (cases m) simp_all

lemma bindE_InrE:
  assumes "bindE m f = Inr y"
  obtains x where "m = Inr x" "f x = Inr y"
  using assms by (auto simp: bindE_Inr_iff)

lemma bindE_cong [fundef_cong]:
  assumes "m = m'" and "\<And>x. m' = Inr x \<Longrightarrow> f x = f' x"
  shows "bindE m f = bindE m' f'"
  using assms by (cases m') simp_all

lemma if_Inl_eq_Inr [resE, simp]: "(if b then Inl e else r) = Inr x \<longleftrightarrow> \<not> b \<and> r = Inr x"
  by simp

lemma if_Inr_eq_Inr_Inl [resE]: "(if b then r else Inl e) = Inr x \<longleftrightarrow> b \<and> r = Inr x"
  by simp

text \<open>A value that the standard library or the store may fail to give.\<close>

definition orE :: "'a option \<Rightarrow> 'e \<Rightarrow> 'e + 'a" where
  "orE x e = (case x of None \<Rightarrow> Inl e | Some y \<Rightarrow> Inr y)"

lemma orE_simps [simp]: "orE None e = Inl e" "orE (Some y) e = Inr y"
  by (simp_all add: orE_def)

lemma orE_Inr_iff [resE, simp]: "orE x e = Inr y \<longleftrightarrow> x = Some y"
  by (cases x) simp_all

text \<open>A \<open>for\<close> loop over a slice whose body may return an error.\<close>

fun foldE :: "('a \<Rightarrow> 's \<Rightarrow> 'e + 's) \<Rightarrow> 'a list \<Rightarrow> 's \<Rightarrow> 'e + 's" where
  "foldE f [] s = Inr s"
| "foldE f (x # xs) s = bindE (f x s) (foldE f xs)"

lemma foldE_append: "foldE f (xs @ ys) s = bindE (foldE f xs s) (foldE f ys)"
  by (induction xs arbitrary: s) (auto simp: bindE_def split: sum.splits)

lemma foldE_invariant:
  assumes "foldE f xs s = Inr s'" and "P s"
    and "\<And>x s s'. x \<in> set xs \<Longrightarrow> P s \<Longrightarrow> f x s = Inr s' \<Longrightarrow> P s'"
  shows "P s'"
  using assms
proof (induction xs arbitrary: s)
  case Nil
  then show ?case by simp
next
  case (Cons x xs)
  from Cons.prems(1) obtain t where t: "f x s = Inr t" "foldE f xs t = Inr s'"
    by (auto simp: bindE_Inr_iff)
  have "P t" using Cons.prems(2) Cons.prems(3)[of x s t] t(1) by simp
  then show ?case using Cons.IH[OF t(2)] Cons.prems(3) by (meson list.set_intros(2))
qed

text \<open>A map filled by a loop over entries that agree on their keys.\<close>

lemma fold_map_upd:
  assumes "\<forall>r \<in> set rs. \<forall>r' \<in> set rs. P r \<and> P r' \<and> k r = k r' \<longrightarrow> r = r'"
  shows "fold (\<lambda>r m. if P r then m(k r \<mapsto> r) else m) rs M x = Some r \<longleftrightarrow>
    (r \<in> set rs \<and> P r \<and> k r = x) \<or> (M x = Some r \<and> (\<forall>r' \<in> set rs. \<not> (P r' \<and> k r' = x)))"
  using assms
proof (induction rs arbitrary: M)
  case Nil
  then show ?case by simp
next
  case (Cons y ys)
  have IH: "fold (\<lambda>r m. if P r then m(k r \<mapsto> r) else m) ys N x = Some r \<longleftrightarrow>
    (r \<in> set ys \<and> P r \<and> k r = x) \<or> (N x = Some r \<and> (\<forall>r' \<in> set ys. \<not> (P r' \<and> k r' = x)))" for N
    using Cons.IH Cons.prems by simp
  show ?case
  proof (cases "P y \<and> k y = x")
    case True
    then show ?thesis using Cons.prems by (auto simp: IH)
  next
    case False
    then show ?thesis by (auto simp: IH)
  qed
qed

lemma sum_list_zeros: "\<forall>x \<in> set xs. x = 0 \<Longrightarrow> sum_list xs = (0::'a::comm_monoid_add)"
  by (induction xs) auto

lemma find_append: "find P (xs @ ys) = (case find P xs of None \<Rightarrow> find P ys | Some x \<Rightarrow> Some x)"
  by (induction xs) auto

text \<open>A guard that returns an error.\<close>

lemma if_Inl_Inr: "(if c then Inl e else x) = Inr y \<longleftrightarrow> \<not> c \<and> x = Inr y"
  by simp

section \<open>Machine integers\<close>

text \<open>Go's \<open>int64\<close> is modelled by \<open>int\<close>; where an addition can leave the range, the
  wrap-around is written out.\<close>

definition max_int64 :: int where
  "max_int64 = 9223372036854775807"

definition wrap64 :: "int \<Rightarrow> int" where
  "wrap64 x = (x + 9223372036854775808) mod 18446744073709551616 - 9223372036854775808"

definition int64_range :: "int \<Rightarrow> bool" where
  "int64_range x \<longleftrightarrow> - 9223372036854775808 \<le> x \<and> x \<le> 9223372036854775807"

lemma wrap64_id: "int64_range x \<Longrightarrow> wrap64 x = x"
  by (simp add: wrap64_def int64_range_def)

lemma wrap64_range: "int64_range (wrap64 x)"
proof -
  have "0 \<le> (x + 9223372036854775808) mod 18446744073709551616"
    and "(x + 9223372036854775808) mod 18446744073709551616 < 18446744073709551616"
    by simp_all
  then show ?thesis unfolding int64_range_def wrap64_def by linarith
qed

section \<open>Byte strings\<close>

definition is_digit :: "char \<Rightarrow> bool" where
  "is_digit c \<longleftrightarrow> 48 \<le> (of_char c :: nat) \<and> (of_char c :: nat) \<le> 57"

definition is_upper :: "char \<Rightarrow> bool" where
  "is_upper c \<longleftrightarrow> 65 \<le> (of_char c :: nat) \<and> (of_char c :: nat) \<le> 90"

definition is_lower :: "char \<Rightarrow> bool" where
  "is_lower c \<longleftrightarrow> 97 \<le> (of_char c :: nat) \<and> (of_char c :: nat) \<le> 122"

text \<open>\<open>strings.Cut\<close> at a single byte: what stands before, what stands after, found.\<close>

fun cut_at :: "char \<Rightarrow> string \<Rightarrow> string \<times> string \<times> bool" where
  "cut_at c [] = ([], [], False)"
| "cut_at c (x # xs) =
     (if x = c then ([], xs, True)
      else case cut_at c xs of (b, a, f) \<Rightarrow> (x # b, a, f))"

lemma cut_at_notin: "c \<notin> set xs \<Longrightarrow> cut_at c xs = (xs, [], False)"
  by (induction xs) auto

lemma cut_at_found: "c \<notin> set xs \<Longrightarrow> cut_at c (xs @ c # ys) = (xs, ys, True)"
  by (induction xs) auto

lemma cut_at_cases:
  obtains "c \<notin> set s" "cut_at c s = (s, [], False)"
  | b a where "c \<notin> set b" "s = b @ c # a" "cut_at c s = (b, a, True)"
proof (cases "c \<in> set s")
  case True
  then obtain b a where "s = b @ c # a" "c \<notin> set b"
    by (meson split_list_first)
  then show ?thesis using that(2) cut_at_found by metis
next
  case False
  then show ?thesis using that(1) cut_at_notin by metis
qed

text \<open>\<open>strings.TrimRight\<close> with a one-byte cutset.\<close>

definition trim_right :: "char \<Rightarrow> string \<Rightarrow> string" where
  "trim_right c s = rev (dropWhile (\<lambda>x. x = c) (rev s))"

lemma trim_right_decomp: "s = trim_right c s @ replicate (length s - length (trim_right c s)) c"
proof -
  let ?t = "takeWhile (\<lambda>x. x = c) (rev s)"
  have t: "?t = replicate (length ?t) c"
    by (rule replicate_eqI) (auto dest: set_takeWhileD)
  have "s = rev (?t @ dropWhile (\<lambda>x. x = c) (rev s))" by simp
  also have "\<dots> = trim_right c s @ rev ?t" by (simp only: rev_append trim_right_def)
  finally have s: "s = trim_right c s @ rev ?t" .
  have "length ?t = length s - length (trim_right c s)"
    using arg_cong[OF s, of length] by simp
  with t have "rev ?t = replicate (length s - length (trim_right c s)) c"
    by (metis rev_replicate)
  with s show ?thesis by simp
qed

lemma trim_right_snoc:
  "trim_right c (s @ [x]) = (if x = c then trim_right c s else s @ [x])"
  by (simp add: trim_right_def)

lemma trim_right_last: "trim_right c s \<noteq> [] \<Longrightarrow> last (trim_right c s) \<noteq> c"
  by (induction s rule: rev_induct) (auto simp: trim_right_snoc trim_right_def)

lemma trim_right_id: "s = [] \<or> last s \<noteq> c \<Longrightarrow> trim_right c s = s"
  by (cases s rule: rev_cases) (auto simp: trim_right_snoc trim_right_def)

lemma set_trim_right: "set (trim_right c s) \<subseteq> set s"
  by (metis Un_upper1 set_append trim_right_decomp)

section \<open>Decimal numerals\<close>

definition digit_val :: "char \<Rightarrow> nat" where
  "digit_val c = of_char c - 48"

definition digit_char :: "nat \<Rightarrow> char" where
  "digit_char d = char_of (d + 48)"

lemma digit_chars:
  "digit_char 0 = CHR ''0''" "digit_char (Suc 0) = CHR ''1''" "digit_char 1 = CHR ''1''" "digit_char 2 = CHR ''2''"
  "digit_char 3 = CHR ''3''" "digit_char 4 = CHR ''4''" "digit_char 5 = CHR ''5''"
  "digit_char 6 = CHR ''6''" "digit_char 7 = CHR ''7''" "digit_char 8 = CHR ''8''"
  "digit_char 9 = CHR ''9''"
  by code_simp+

lemma of_char_digit_char: "d < 10 \<Longrightarrow> (of_char (digit_char d) :: nat) = d + 48"
  by (simp add: digit_char_def)

lemma digit_val_char [simp, digit_simps]: "d < 10 \<Longrightarrow> digit_val (digit_char d) = d"
  by (simp add: digit_val_def of_char_digit_char)

lemma is_digit_char [simp, digit_simps]: "d < 10 \<Longrightarrow> is_digit (digit_char d)"
  by (simp add: is_digit_def of_char_digit_char)

lemma digit_char_val: "is_digit c \<Longrightarrow> digit_char (digit_val c) = c"
  by (simp add: is_digit_def digit_char_def digit_val_def)

lemma digit_val_less: "is_digit c \<Longrightarrow> digit_val c < 10"
  by (auto simp: is_digit_def digit_val_def)

lemma digit_val_zero [simp, digit_simps]: "digit_val CHR ''0'' = 0"
  by (simp add: digit_val_def)

lemma is_digit_zero [simp, digit_simps]: "is_digit CHR ''0''"
  by (simp add: is_digit_def)

lemma digit_not_dot [simp, digit_simps]: "\<not> is_digit CHR ''.''"
  by (simp add: is_digit_def)

lemma digit_val_eq_0_iff: "is_digit c \<Longrightarrow> digit_val c = 0 \<longleftrightarrow> c = CHR ''0''"
  using digit_char_val[of c] digit_char_val[of "CHR ''0''"] by auto

text \<open>The value of a string of digits, read from the left.\<close>

definition digits_val :: "string \<Rightarrow> nat" where
  "digits_val s = foldl (\<lambda>a c. 10 * a + digit_val c) 0 s"

lemma foldl_digits:
  "foldl (\<lambda>a c. 10 * a + digit_val c) n s = n * 10 ^ length s + digits_val s"
proof (induction s arbitrary: n)
  case Nil
  then show ?case by (simp add: digits_val_def)
next
  case (Cons c s)
  have "foldl (\<lambda>a c. 10 * a + digit_val c) n (c # s)
    = (10 * n + digit_val c) * 10 ^ length s + digits_val s" by (simp add: Cons.IH)
  moreover have "digits_val (c # s) = digit_val c * 10 ^ length s + digits_val s"
    by (simp add: digits_val_def Cons.IH[of "digit_val c", unfolded digits_val_def])
  ultimately show ?case by (simp add: algebra_simps)
qed

lemma digits_val_Nil [simp, digit_simps]: "digits_val [] = 0"
  by (simp add: digits_val_def)

lemma digits_val_Cons [digit_simps]:
  "digits_val (c # s) = digit_val c * 10 ^ length s + digits_val s"
  using foldl_digits[of "digit_val c" s] by (simp add: digits_val_def)

lemma digits_val_append [digit_simps]:
  "digits_val (s @ t) = digits_val s * 10 ^ length t + digits_val t"
  using foldl_digits[of "digits_val s" t] by (simp add: digits_val_def)

lemma digits_val_zeros [simp, digit_simps]: "digits_val (replicate n CHR ''0'') = 0"
  by (induction n) (simp_all add: digits_val_Cons)

lemma digits_val_less: "list_all is_digit s \<Longrightarrow> digits_val s < 10 ^ length s"
proof (induction s)
  case Nil
  then show ?case by simp
next
  case (Cons c s)
  then have "digit_val c \<le> 9" "digits_val s < 10 ^ length s"
    using digit_val_less[of c] by auto
  then have "digit_val c * 10 ^ length s + digits_val s < 9 * 10 ^ length s + 10 ^ length s"
    by (intro add_le_less_mono mult_right_mono) auto
  then show ?case by (simp add: digits_val_Cons)
qed

text \<open>\<open>big.Int.String\<close> and \<open>strconv.FormatInt\<close> in base ten.\<close>

fun nat_digits :: "nat \<Rightarrow> string" where
  "nat_digits n = (if n < 10 then [digit_char n] else nat_digits (n div 10) @ [digit_char (n mod 10)])"

declare nat_digits.simps [simp del]

lemma nat_digits_small: "n < 10 \<Longrightarrow> nat_digits n = [digit_char n]"
  by (subst nat_digits.simps) simp

lemma nat_digits_step: "\<not> n < 10 \<Longrightarrow> nat_digits n = nat_digits (n div 10) @ [digit_char (n mod 10)]"
  by (subst nat_digits.simps) simp

lemma nat_digits_nonempty [simp, digit_simps]: "nat_digits n \<noteq> []"
  by (subst nat_digits.simps) simp

lemma nat_digits_all [simp, digit_simps]: "list_all is_digit (nat_digits n)"
proof (induction n rule: nat_digits.induct)
  case (1 n)
  then show ?case by (cases "n < 10") (simp_all add: nat_digits_small nat_digits_step)
qed

lemma digits_val_nat_digits [simp, digit_simps]: "digits_val (nat_digits n) = n"
proof (induction n rule: nat_digits.induct)
  case (1 n)
  then show ?case
    by (cases "n < 10")
      (simp_all add: nat_digits_small nat_digits_step digits_val_append digits_val_Cons)
qed

lemma nat_digits_hd: "n \<noteq> 0 \<Longrightarrow> hd (nat_digits n) \<noteq> CHR ''0''"
proof (induction n rule: nat_digits.induct)
  case (1 n)
  show ?case
  proof (cases "n < 10")
    case True
    then have "digit_val (hd (nat_digits n)) = n" by (simp add: nat_digits_small)
    with "1.prems" show ?thesis by auto
  next
    case False
    with 1 have "hd (nat_digits (n div 10)) \<noteq> CHR ''0''" by simp
    with False show ?thesis by (simp add: nat_digits_step)
  qed
qed

lemma nat_digits_length: "0 < n \<Longrightarrow> n < 10 ^ k \<Longrightarrow> length (nat_digits n) \<le> k"
proof (induction n arbitrary: k rule: nat_digits.induct)
  case (1 n)
  show ?case
  proof (cases "n < 10")
    case True
    with "1.prems" have "k \<noteq> 0" by (intro notI) simp
    with True show ?thesis by (simp add: nat_digits_small)
  next
    case False
    with "1.prems" have "k \<noteq> 0" by (intro notI) simp
    then obtain j where k: "k = Suc j" by (cases k) auto
    have "n div 10 < 10 ^ j" using "1.prems"(2) k by (simp add: div_less_iff_less_mult mult.commute)
    moreover have "0 < n div 10" using False by (simp add: div_greater_zero_iff)
    ultimately have "length (nat_digits (n div 10)) \<le> j" using "1.IH" False by blast
    then show ?thesis using False k by (simp add: nat_digits_step)
  qed
qed

lemma dot_notin_digits: "list_all is_digit s \<Longrightarrow> CHR ''.'' \<notin> set s"
  by (auto simp: list_all_iff)

text \<open>\<open>big.Int.SetString(s, 10)\<close>: an optional sign and at least one digit.\<close>

definition parse_digits :: "string \<Rightarrow> nat option" where
  "parse_digits s = (if s \<noteq> [] \<and> list_all is_digit s then Some (digits_val s) else None)"

definition parse_int :: "string \<Rightarrow> int option" where
  "parse_int s =
     (case s of
        c # ds \<Rightarrow>
          if c = CHR ''-'' then map_option (\<lambda>n. - int n) (parse_digits ds)
          else if c = CHR ''+'' then map_option int (parse_digits ds)
          else map_option int (parse_digits s)
      | [] \<Rightarrow> None)"

definition int_digits :: "int \<Rightarrow> string" where
  "int_digits i = (if i < 0 then CHR ''-'' # nat_digits (nat (- i)) else nat_digits (nat i))"

lemma parse_digits_nat_digits [simp]: "parse_digits (nat_digits n) = Some n"
  by (simp add: parse_digits_def)

lemma parse_int_int_digits [simp]: "parse_int (int_digits i) = Some i"
proof (cases "i < 0")
  case True
  then show ?thesis by (simp add: parse_int_def int_digits_def)
next
  case False
  obtain c ds where cd: "nat_digits (nat i) = c # ds"
    by (meson list.exhaust nat_digits_nonempty)
  have "is_digit c" using nat_digits_all[of "nat i"] cd by simp
  then have "c \<noteq> CHR ''-''" "c \<noteq> CHR ''+''" by (auto simp: is_digit_def)
  moreover have "parse_digits (c # ds) = Some (nat i)" using cd by (metis parse_digits_nat_digits)
  ultimately show ?thesis using False cd by (simp add: parse_int_def int_digits_def)
qed

section \<open>strings.TrimSpace\<close>

text \<open>The UTF-8 texts of the characters \<open>unicode.IsSpace\<close> accepts.\<close>

definition bytes_text :: "nat list \<Rightarrow> string" where
  "bytes_text ns = map char_of ns"

definition space_texts :: "string list" where
  "space_texts =
     map (\<lambda>n. bytes_text [n]) [9, 10, 11, 12, 13, 32] @
     [bytes_text [194, 133], bytes_text [194, 160], bytes_text [225, 154, 128]] @
     map (\<lambda>n. bytes_text [226, 128, n]) ([128..<139] @ [168, 169, 175]) @
     [bytes_text [226, 129, 159], bytes_text [227, 128, 128]]"

definition text_at :: "string list \<Rightarrow> string \<Rightarrow> nat" where
  "text_at ws s = (case find (\<lambda>w. take (length w) s = w) ws of None \<Rightarrow> 0 | Some w \<Rightarrow> length w)"

function trim_with :: "string list \<Rightarrow> string \<Rightarrow> string" where
  "trim_with ws s = (if text_at ws s = 0 \<or> s = [] then s else trim_with ws (drop (text_at ws s) s))"
  by pat_completeness auto
termination by (relation "measure (\<lambda>(ws, s). length s)") auto

declare trim_with.simps [simp del]

definition trim_space :: "string \<Rightarrow> string" where
  "trim_space s = rev (trim_with (map rev space_texts) (rev (trim_with space_texts s)))"

end
