(* ===== verification/Decimals.thy ===== *)
theory Decimals
  imports Complex_Main Prelude
begin

text \<open>
  Exact decimal amounts: \<open>pkg/pricing/decimal.go\<close> (\<open>Decimal\<close>, \<open>rational\<close>, \<open>rounded\<close>,
  \<open>Currency\<close>) and the 18-digit units of \<open>pkg/eventqueue/quota_types.go\<close> (\<open>quotaUnits\<close>,
  \<open>quotaDecimalValue\<close>). \<open>math/big\<close> is modelled exactly: \<open>big.Int\<close> by \<open>int\<close>, \<open>big.Rat\<close> by
  \<open>rat\<close>, whose \<open>quotient_of\<close> is the normalised numerator and denominator. The lemmas relate
  the text of an amount to its value: trimming keeps it, printing and reading agree, and
  rounding moves it by at most half a unit of the eighteenth digit.
\<close>

section \<open>The code\<close>

datatype pricing_error = PricingInvalid | Unpriced

text \<open>The regular expressions \<open>^(0|[1-9][0-9]{0,k})(\.[0-9]{1,18})?$\<close>.\<close>

definition decimal_match :: "nat \<Rightarrow> string \<Rightarrow> bool" where
  "decimal_match k value =
     (case cut_at CHR ''.'' value of (whole, fraction, found) \<Rightarrow>
        (whole = ''0'' \<or>
         (whole \<noteq> [] \<and> hd whole \<noteq> CHR ''0'' \<and> list_all is_digit whole \<and> length whole \<le> Suc k)) \<and>
        (found \<longrightarrow> list_all is_digit fraction \<and> 1 \<le> length fraction \<and> length fraction \<le> 18))"

definition Decimal :: "string \<Rightarrow> pricing_error + string" where
  "Decimal value =
     (if \<not> decimal_match 17 value then Inl PricingInvalid
      else if CHR ''.'' \<in> set value
      then Inr (trim_right CHR ''.'' (trim_right CHR ''0'' value))
      else Inr value)"

text \<open>\<open>big.Rat.SetString\<close> on a plain decimal.\<close>

definition rat_of_decimal :: "string \<Rightarrow> rat" where
  "rat_of_decimal value =
     (case cut_at CHR ''.'' value of (whole, fraction, _) \<Rightarrow>
        rat_of_nat (digits_val (whole @ fraction)) / 10 ^ length fraction)"

definition rational :: "string \<Rightarrow> pricing_error + rat" where
  "rational value = bindE (Decimal value) (\<lambda>v. Inr (rat_of_decimal v))"

text \<open>\<open>big.Int.Quo\<close> truncates towards zero; \<open>QuoRem\<close> gives the matching remainder.\<close>

definition quo_trunc :: "int \<Rightarrow> int \<Rightarrow> int" where
  "quo_trunc a b = sgn a * sgn b * (\<bar>a\<bar> div \<bar>b\<bar>)"

text \<open>The text of an integer number of units of the eighteenth digit.\<close>

definition units_text :: "string \<Rightarrow> string" where
  "units_text digits =
     (let value = (if length digits \<le> 18
                   then replicate (19 - length digits) CHR ''0'' @ digits else digits);
          n = length value - 18
      in trim_right CHR ''.'' (trim_right CHR ''0'' (take n value @ ''.'' @ drop n value)))"

text \<open>The nearest integer to a quotient, ties to the even one: \<open>cmp\<close> compares twice the
  remainder with the denominator, \<open>q.Bit(0)\<close> is the parity of the quotient.\<close>

definition half_even :: "int \<Rightarrow> int \<Rightarrow> int" where
  "half_even num denom =
     (let q = quo_trunc num denom; rm = num - q * denom
      in if 2 * rm > denom \<or> 2 * rm = denom \<and> odd q then q + 1 else q)"

definition rounded :: "rat \<Rightarrow> string" where
  "rounded r =
     (case quotient_of r of (rnum, rdenom) \<Rightarrow> units_text (int_digits (half_even (rnum * 10 ^ 18) rdenom)))"

definition Currency :: "string \<Rightarrow> bool" where
  "Currency value \<longleftrightarrow> value \<in> set [''USD'', ''CNY'', ''EUR'', ''GBP'', ''JPY'', ''HKD'', ''SGD'']"

text \<open>Units of a quota amount, \<open>None\<close> for \<open>ErrInvalid\<close>.\<close>

definition quotaUnits :: "string \<Rightarrow> int option" where
  "quotaUnits value =
     (if \<not> decimal_match 59 value then None
      else case cut_at CHR ''.'' value of (whole, fraction, _) \<Rightarrow>
        parse_int (whole @ fraction @ replicate (18 - length fraction) CHR ''0''))"

definition quotaDecimalValue :: "int \<Rightarrow> string" where
  "quotaDecimalValue units = units_text (int_digits units)"

section \<open>Shape of a decimal text\<close>

lemma decimal_match_cases:
  assumes "decimal_match k s"
  obtains (whole) "list_all is_digit s" "s \<noteq> []" "length s \<le> Suc k" "cut_at CHR ''.'' s = (s, [], False)"
  | (frac) w f where "s = w @ CHR ''.'' # f" "list_all is_digit w" "w \<noteq> []" "length w \<le> Suc k"
      "list_all is_digit f" "f \<noteq> []" "length f \<le> 18" "cut_at CHR ''.'' s = (w, f, True)"
proof (cases rule: cut_at_cases[of "CHR ''.''" s])
  case 1
  have "list_all is_digit s \<and> s \<noteq> [] \<and> length s \<le> Suc k"
    using assms 1 by (auto simp: decimal_match_def)
  then show ?thesis using whole 1 by blast
next
  case (2 b a)
  have "list_all is_digit b \<and> b \<noteq> [] \<and> length b \<le> Suc k"
    and "list_all is_digit a \<and> a \<noteq> [] \<and> length a \<le> 18"
    using assms 2 by (auto simp: decimal_match_def)
  then show ?thesis using frac 2 by blast
qed

lemma trim_right_append:
  "trim_right c (xs @ ys) = (if trim_right c ys = [] then trim_right c xs else xs @ trim_right c ys)"
  by (induction ys rule: rev_induct) (auto simp: trim_right_snoc trim_right_def simp flip: append_assoc)

lemma trim_right_zero_dot:
  "trim_right CHR ''0'' (w @ CHR ''.'' # f) = w @ CHR ''.'' # trim_right CHR ''0'' f"
proof -
  have "trim_right CHR ''0'' ([CHR ''.''] @ f) = CHR ''.'' # trim_right CHR ''0'' f"
    by (subst trim_right_append) (auto simp: trim_right_def)
  then show ?thesis by (simp add: trim_right_append[of _ w])
qed

lemma trim_decimal:
  assumes "list_all is_digit w" "w \<noteq> []" "list_all is_digit f"
  shows "trim_right CHR ''.'' (trim_right CHR ''0'' (w @ CHR ''.'' # f))
    = (if trim_right CHR ''0'' f = [] then w else w @ CHR ''.'' # trim_right CHR ''0'' f)"
proof -
  let ?f = "trim_right CHR ''0'' f"
  have lw: "last w \<noteq> CHR ''.''"
    using assms(1,2) by (metis digit_not_dot last_in_set list_all_iff)
  have lf: "last ?f \<noteq> CHR ''.''" if "?f \<noteq> []"
    using that assms(3) set_trim_right[of "CHR ''0''" f]
    by (metis digit_not_dot last_in_set list_all_iff subsetD)
  show ?thesis
  proof (cases "?f = []")
    case True
    then have "trim_right CHR ''.'' (w @ [CHR ''.'']) = w"
      using lw by (simp add: trim_right_snoc trim_right_id)
    with True show ?thesis by (simp add: trim_right_zero_dot)
  next
    case False
    then have "trim_right CHR ''.'' (w @ CHR ''.'' # ?f) = w @ CHR ''.'' # ?f"
      using lf by (intro trim_right_id) simp
    with False show ?thesis by (simp add: trim_right_zero_dot)
  qed
qed

section \<open>Value of a decimal text\<close>

lemma rat_of_decimal_whole: "list_all is_digit w \<Longrightarrow> rat_of_decimal w = of_nat (digits_val w)"
  by (simp add: rat_of_decimal_def cut_at_notin dot_notin_digits)

lemma rat_of_decimal_frac:
  "list_all is_digit w \<Longrightarrow>
   rat_of_decimal (w @ CHR ''.'' # f) = of_nat (digits_val (w @ f)) / 10 ^ length f"
  by (simp add: rat_of_decimal_def cut_at_found dot_notin_digits)

lemma rat_of_decimal_nonneg: "0 \<le> rat_of_decimal s"
  by (simp add: rat_of_decimal_def split: prod.split)

lemma trim_decimal_value:
  assumes "list_all is_digit w" "w \<noteq> []" "list_all is_digit f"
  shows "rat_of_decimal (trim_right CHR ''.'' (trim_right CHR ''0'' (w @ CHR ''.'' # f)))
    = of_nat (digits_val (w @ f)) / 10 ^ length f"
proof -
  let ?f = "trim_right CHR ''0'' f"
  define z where "z = length f - length ?f"
  have f: "f = ?f @ replicate z CHR ''0''" unfolding z_def by (rule trim_right_decomp)
  then have lf: "length f = length ?f + z" by (metis length_append length_replicate)
  have "digits_val (w @ f) = digits_val ((w @ ?f) @ replicate z CHR ''0'')" using f by simp
  also have "\<dots> = digits_val (w @ ?f) * 10 ^ z" by (subst digits_val_append) simp
  finally have v: "of_nat (digits_val (w @ f)) / (10::rat) ^ length f
    = of_nat (digits_val (w @ ?f)) / 10 ^ length ?f"
    by (simp add: lf power_add)
  show ?thesis
  proof (cases "?f = []")
    case True
    then show ?thesis using v assms by (simp add: trim_decimal rat_of_decimal_whole)
  next
    case False
    then show ?thesis using v assms by (simp add: trim_decimal rat_of_decimal_frac)
  qed
qed

lemma Decimal_value: "Decimal s = Inr v \<Longrightarrow> rat_of_decimal v = rat_of_decimal s"
proof -
  assume d: "Decimal s = Inr v"
  then have "decimal_match 17 s" by (simp add: Decimal_def split: if_splits)
  then show ?thesis
  proof (cases rule: decimal_match_cases)
    case whole
    then have "CHR ''.'' \<notin> set s" by (simp add: dot_notin_digits)
    with d \<open>decimal_match 17 s\<close> show ?thesis by (simp add: Decimal_def)
  next
    case (frac w f)
    have "v = trim_right CHR ''.'' (trim_right CHR ''0'' s)"
      using d \<open>decimal_match 17 s\<close> frac(1) by (simp add: Decimal_def)
    then show ?thesis using frac by (simp add: trim_decimal_value rat_of_decimal_frac)
  qed
qed

lemma rational_Inr: "rational s = Inr r \<longleftrightarrow> decimal_match 17 s \<and> r = rat_of_decimal s"
proof -
  have "\<exists>v. Decimal s = Inr v" if "decimal_match 17 s" using that by (simp add: Decimal_def)
  moreover have "decimal_match 17 s" if "Decimal s = Inr v" for v
    using that by (simp add: Decimal_def split: if_splits)
  ultimately show ?thesis
    by (auto simp: rational_def bindE_Inr_iff Decimal_value)
qed

lemma rational_nonneg: "rational s = Inr r \<Longrightarrow> 0 \<le> r"
  by (simp add: rational_Inr rat_of_decimal_nonneg)

text \<open>Printing units: the text has the value, and it is a canonical decimal.\<close>

lemma units_text_split:
  assumes "list_all is_digit d" "d \<noteq> []"
  obtains w f where "list_all is_digit w" "w \<noteq> []" "list_all is_digit f" "length f = 18"
    "digits_val (w @ f) = digits_val d" "length w = max 1 (length d - 18)"
    "units_text d = trim_right CHR ''.'' (trim_right CHR ''0'' (w @ CHR ''.'' # f))"
    "length d > 18 \<Longrightarrow> w @ f = d" "length d \<le> 18 \<Longrightarrow> w = ''0''"
proof -
  define v where "v = (if length d \<le> 18 then replicate (19 - length d) CHR ''0'' @ d else d)"
  define n where "n = length v - 18"
  have lv: "length v = max 19 (length d)" by (simp add: v_def)
  have dv: "list_all is_digit v" using assms(1) by (auto simp: v_def list_all_iff)
  have val: "digits_val v = digits_val d" by (simp add: v_def digits_val_append)
  show ?thesis
  proof (rule that[of "take n v" "drop n v"])
    show "list_all is_digit (take n v)" "list_all is_digit (drop n v)"
      using dv by (metis append_take_drop_id list_all_append)+
    show "take n v \<noteq> []" using lv by (auto simp: n_def)
    show "length (drop n v) = 18" using lv by (simp add: n_def)
    show "digits_val (take n v @ drop n v) = digits_val d" by (simp add: val)
    show "length (take n v) = max 1 (length d - 18)" using lv by (simp add: n_def)
    show "units_text d
      = trim_right CHR ''.'' (trim_right CHR ''0'' (take n v @ CHR ''.'' # drop n v))"
      by (simp add: units_text_def v_def n_def Let_def)
    show "length d > 18 \<Longrightarrow> take n v @ drop n v = d" by (simp add: v_def)
    show "take n v = ''0''" if "length d \<le> 18"
    proof -
      have "n = 1" using that lv by (simp add: n_def)
      moreover have "19 - length d = Suc (18 - length d)" using that by arith
      ultimately show ?thesis using that by (simp add: v_def)
    qed
  qed
qed

lemma units_text_value:
  "rat_of_decimal (units_text (nat_digits n)) = of_nat n / 10 ^ 18"
proof -
  obtain w f where "list_all is_digit w" "w \<noteq> []" "list_all is_digit f" "length f = 18"
    "digits_val (w @ f) = n"
    "units_text (nat_digits n) = trim_right CHR ''.'' (trim_right CHR ''0'' (w @ CHR ''.'' # f))"
    using units_text_split[of "nat_digits n"] by (metis digits_val_nat_digits nat_digits_all nat_digits_nonempty)
  then show ?thesis using trim_decimal_value[of w f] by simp
qed


lemma units_text_match:
  assumes "n < 10 ^ (19 + k)"
  shows "decimal_match k (units_text (nat_digits n))"
proof -
  let ?d = "nat_digits n"
  obtain w f where wf: "list_all is_digit w" "w \<noteq> []" "list_all is_digit f" "length f = 18"
    "digits_val (w @ f) = n" "length w = max 1 (length ?d - 18)"
    "units_text ?d = trim_right CHR ''.'' (trim_right CHR ''0'' (w @ CHR ''.'' # f))"
    "length ?d > 18 \<Longrightarrow> w @ f = ?d" "length ?d \<le> 18 \<Longrightarrow> w = ''0''"
    using units_text_split[of ?d] by (metis digits_val_nat_digits nat_digits_all nat_digits_nonempty)
  have len: "length ?d \<le> 19 + k"
  proof (cases "n = 0")
    case True
    then show ?thesis by (simp add: nat_digits_small)
  next
    case False
    then show ?thesis using nat_digits_length[of n "19 + k"] assms by simp
  qed
  have whole: "w = ''0'' \<or> hd w \<noteq> CHR ''0'' \<and> length w \<le> Suc k"
  proof (cases "length ?d > 18")
    case True
    then have wfd: "w @ f = ?d" by (rule wf(8))
    have "n \<noteq> 0" using True by (intro notI) (simp add: nat_digits_small)
    then have "hd w \<noteq> CHR ''0''" using nat_digits_hd wfd wf(2) by (metis hd_append2)
    moreover have "length w \<le> Suc k" using wf(6) len by simp
    ultimately show ?thesis by blast
  next
    case False
    then show ?thesis using wf(9) by simp
  qed
  let ?f = "trim_right CHR ''0'' f"
  have f: "list_all is_digit ?f" "length ?f \<le> 18"
    using wf(3,4) set_trim_right[of "CHR ''0''" f] trim_right_decomp[of f "CHR ''0''"]
    by (auto simp: list_all_iff) (metis le_add1 length_append)
  show ?thesis
    using whole f wf(1,2) dot_notin_digits[OF wf(1)]
    by (cases "?f = []")
      (auto simp: wf(7) trim_decimal[OF wf(1-3)] decimal_match_def cut_at_notin cut_at_found Suc_leI)
qed

section \<open>Rounding\<close>

lemma quo_trunc_nonneg: "0 \<le> a \<Longrightarrow> 0 < b \<Longrightarrow> quo_trunc a b = a div b"
  by (cases "a = 0") (simp_all add: quo_trunc_def)

lemma half_even_nonneg: "0 \<le> a \<Longrightarrow> 0 < b \<Longrightarrow> 0 \<le> half_even a b"
  by (simp add: half_even_def quo_trunc_nonneg Let_def pos_imp_zdiv_nonneg_iff)

lemma half_even_near:
  assumes "0 \<le> a" "0 < b"
  shows "2 * (half_even a b * b) \<le> 2 * a + b" "2 * a \<le> 2 * (half_even a b * b) + b"
proof -
  define q m where "q = a div b" and "m = a mod b"
  have a: "a = q * b + m" by (simp add: q_def m_def)
  have m: "0 \<le> m" "m < b" using assms(2) by (simp_all add: m_def)
  have "half_even a b = (if 2 * m > b \<or> 2 * m = b \<and> odd q then q + 1 else q)"
    unfolding half_even_def quo_trunc_nonneg[OF assms] q_def[symmetric] Let_def
    using a by simp
  then have "half_even a b * b = q * b + b \<and> b \<le> 2 * m \<or> half_even a b * b = q * b \<and> 2 * m \<le> b"
    by (auto simp: distrib_right)
  then show "2 * (half_even a b * b) \<le> 2 * a + b" "2 * a \<le> 2 * (half_even a b * b) + b"
    using a m by linarith+
qed

lemma half_even_exact: "0 \<le> m \<Longrightarrow> 0 < b \<Longrightarrow> half_even (m * b) b = m"
  by (simp add: half_even_def quo_trunc_nonneg)

text \<open>What \<open>rounded\<close> returns for a non-negative amount: a text of \<open>q\<close> units, at most half a
  unit away, and exact when the amount is a whole number of units.\<close>

lemma rounded_units:
  assumes "0 \<le> r"
  obtains q :: nat where "rounded r = units_text (nat_digits q)"
    "rat_of_nat q \<le> r * 10 ^ 18 + 1 / 2" "r * 10 ^ 18 \<le> rat_of_nat q + 1 / 2"
    "\<And>m. r * 10 ^ 18 = rat_of_nat m \<Longrightarrow> q = m"
proof -
  obtain n d where nd: "quotient_of r = (n, d)" by fastforce
  have d: "0 < d" by (rule quotient_of_denom_pos[OF nd])
  have r: "r = of_int n / of_int d" by (rule quotient_of_div[OF nd])
  have n: "0 \<le> n" using assms r d by (simp add: zero_le_divide_iff)
  define a where "a = n * 10 ^ 18"
  have a: "0 \<le> a" using n by (simp add: a_def)
  define q where "q = nat (half_even a d)"
  have q: "half_even a d = int q" using half_even_nonneg[OF a d] by (simp add: q_def)
  have ra: "r * 10 ^ 18 = of_int a / of_int d" by (simp add: r a_def)
  have dpos: "(0::rat) < of_int d" using d by simp
  show ?thesis
  proof (rule that)
    show "rounded r = units_text (nat_digits q)"
      unfolding rounded_def nd prod.case a_def[symmetric] q int_digits_def by simp
    have "rat_of_int (2 * (int q * d)) \<le> rat_of_int (2 * a + d)"
      using half_even_near(1)[OF a d] unfolding q by (simp only: of_int_le_iff)
    then have "2 * (rat_of_nat q * of_int d) \<le> 2 * of_int a + of_int d" by simp
    then show "rat_of_nat q \<le> r * 10 ^ 18 + 1 / 2"
      unfolding ra using dpos by (simp add: field_simps)
    have "rat_of_int (2 * a) \<le> rat_of_int (2 * (int q * d) + d)"
      using half_even_near(2)[OF a d] unfolding q by (simp only: of_int_le_iff)
    then have "2 * of_int a \<le> 2 * (rat_of_nat q * of_int d) + of_int d" by simp
    then show "r * 10 ^ 18 \<le> rat_of_nat q + 1 / 2"
      unfolding ra using dpos by (simp add: field_simps)
    show "q = m" if "r * 10 ^ 18 = rat_of_nat m" for m
    proof -
      have "rat_of_int a = rat_of_int (int m * d)"
        using that[unfolded ra] dpos by (simp add: field_simps)
      then have "a = int m * d" using of_int_eq_iff by blast
      then have "half_even a d = int m" using half_even_exact[of "int m" d] d by simp
      then show ?thesis using q by simp
    qed
  qed
qed

lemma abs_diff_scaled:
  fixes c :: rat
  assumes "0 < c" "x \<le> r * c + 1 / 2" "r * c \<le> x + 1 / 2"
  shows "\<bar>x / c - r\<bar> \<le> 1 / (2 * c)"
proof -
  have "\<bar>x / c - r\<bar> = \<bar>(x - r * c) / c\<bar>" using assms(1) by (simp add: field_simps)
  also have "\<dots> = \<bar>x - r * c\<bar> / c" using assms(1) by simp
  also have "\<dots> \<le> (1 / 2) / c"
  proof (rule divide_right_mono)
    show "\<bar>x - r * c\<bar> \<le> 1 / 2" using assms(2,3) by (intro abs_leI) linarith+
  qed (use assms(1) in simp)
  finally show ?thesis by simp
qed

lemma rounded_error:
  assumes "0 \<le> r"
  shows "\<bar>rat_of_decimal (rounded r) - r\<bar> \<le> 1 / (2 * 10 ^ 18)"
proof -
  obtain q where q: "rounded r = units_text (nat_digits q)"
    "rat_of_nat q \<le> r * 10 ^ 18 + 1 / 2" "r * 10 ^ 18 \<le> rat_of_nat q + 1 / 2"
    using rounded_units[OF assms] by metis
  show ?thesis unfolding q(1) units_text_value
    using q(2,3) by (intro abs_diff_scaled) simp_all
qed

lemma rounded_exact:
  assumes "r = rat_of_nat m / 10 ^ 18"
  shows "rounded r = units_text (nat_digits m)" and "rat_of_decimal (rounded r) = r"
proof -
  have "0 \<le> r" "r * 10 ^ 18 = rat_of_nat m" using assms by simp_all
  then show r: "rounded r = units_text (nat_digits m)"
    using rounded_units[of r] by metis
  show "rat_of_decimal (rounded r) = r" unfolding r using assms by (simp only: units_text_value)
qed

section \<open>Quota units\<close>

lemma quotaUnits_value:
  assumes "quotaUnits s = Some u"
  shows "0 \<le> u" and "rat_of_decimal s = rat_of_int u / 10 ^ 18"
proof -
  have m: "decimal_match 59 s" using assms by (simp add: quotaUnits_def split: if_splits)
  have "\<exists>n. u = int n \<and> rat_of_decimal s = rat_of_nat n / 10 ^ 18"
    using m
  proof (cases rule: decimal_match_cases)
    case whole
    then obtain c ds where s: "s = c # ds" "is_digit c" by (cases s) auto
    then have "c \<noteq> CHR ''-''" "c \<noteq> CHR ''+''" by (auto simp: is_digit_def)
    with whole s assms m have "u = int (digits_val (s @ replicate 18 CHR ''0''))"
      by (auto simp: quotaUnits_def parse_int_def parse_digits_def list_all_iff split: if_splits)
    then show ?thesis using whole(1)
      by (intro exI[of _ "digits_val (s @ replicate 18 CHR ''0'')"])
        (simp add: digits_val_append rat_of_decimal_whole)
  next
    case (frac w f)
    let ?t = "w @ f @ replicate (18 - length f) CHR ''0''"
    obtain c ds where w: "w = c # ds" "is_digit c" using frac(2,3) by (cases w) auto
    then have "c \<noteq> CHR ''-''" "c \<noteq> CHR ''+''" by (auto simp: is_digit_def)
    with frac w assms m have u: "u = int (digits_val ?t)"
      by (auto simp: quotaUnits_def parse_int_def parse_digits_def list_all_iff split: if_splits)
    have "digits_val ?t = digits_val ((w @ f) @ replicate (18 - length f) CHR ''0'')" by simp
    also have "\<dots> = digits_val (w @ f) * 10 ^ (18 - length f)" by (subst digits_val_append) simp
    finally have v: "digits_val ?t = digits_val (w @ f) * 10 ^ (18 - length f)" .
    have ten: "(10::rat) ^ 18 = 10 ^ length f * 10 ^ (18 - length f)"
      using frac(7) by (simp flip: power_add)
    have "rat_of_decimal s = rat_of_nat (digits_val ?t) / 10 ^ 18"
      unfolding frac(1) rat_of_decimal_frac[OF frac(2)] v ten by simp
    with u show ?thesis by blast
  qed
  then show "0 \<le> u" and "rat_of_decimal s = rat_of_int u / 10 ^ 18" by auto
qed

lemma quotaUnits_defined: "(\<exists>u. quotaUnits s = Some u) \<longleftrightarrow> decimal_match 59 s"
proof
  assume m: "decimal_match 59 s"
  then show "\<exists>u. quotaUnits s = Some u"
  proof (cases rule: decimal_match_cases)
    case whole
    then show ?thesis using m
      by (cases s) (auto simp: quotaUnits_def parse_int_def parse_digits_def is_digit_def list_all_iff)
  next
    case (frac w f)
    then show ?thesis using m
      by (cases w) (auto simp: quotaUnits_def parse_int_def parse_digits_def is_digit_def list_all_iff)
  qed
qed (simp add: quotaUnits_def split: if_splits)

lemma quotaUnits_eq_iff:
  "quotaUnits s = Some u \<Longrightarrow> rat_of_decimal s = rat_of_int v / 10 ^ 18 \<Longrightarrow> u = v"
  using quotaUnits_value(2)[of s u] by simp

lemma quotaUnits_units_text:
  assumes "n < 10 ^ 78"
  shows "quotaUnits (units_text (nat_digits n)) = Some (int n)"
proof -
  have "decimal_match 59 (units_text (nat_digits n))" using assms by (intro units_text_match) simp
  then obtain u where u: "quotaUnits (units_text (nat_digits n)) = Some u"
    using quotaUnits_defined by blast
  moreover have "u = int n" by (rule quotaUnits_eq_iff[OF u]) (simp add: units_text_value)
  ultimately show ?thesis by simp
qed

end
