(* ===== verification/Pricing.thy ===== *)
theory Pricing
  imports Decimals
begin

text \<open>
  The finite pricing adapter of \<open>pkg/pricing/pricing.go\<close>: rates, schedules, exchange rates and
  normalised usage as records, the three validators, and \<open>Calculate\<close>. A Go map is the list of
  its entries, read with \<open>map_of\<close>. Token counts are \<open>int\<close>: the guards of \<open>Calculate\<close> keep
  every difference inside \<open>int64\<close>. The lemmas show what validation guarantees, that a quote is
  made of the charges of its components, and that its total is their exact sum.
\<close>

section \<open>The code\<close>

definition TextAdapter :: string where "TextAdapter = ''routex_text_v1''"
definition MultimodalAdapter :: string where "MultimodalAdapter = ''routex_multimodal_v1''"
definition Input :: string where "Input = ''INPUT_TOKEN''"
definition Output :: string where "Output = ''OUTPUT_TOKEN''"
definition CacheRead :: string where "CacheRead = ''CACHE_READ_TOKEN''"
definition CacheWrite :: string where "CacheWrite = ''CACHE_WRITE_TOKEN''"
definition ImageInput :: string where "ImageInput = ''IMAGE_INPUT''"
definition PDFInput :: string where "PDFInput = ''PDF_INPUT''"
definition TokenUnit :: string where "TokenUnit = ''1M_TOKEN''"
definition ImageUnit :: string where "ImageUnit = ''1_IMAGE''"
definition PDFUnit :: string where "PDFUnit = ''1_PDF''"
definition BaseTier :: string where "BaseTier = ''base''"
definition LongTier :: string where "LongTier = ''long_context''"

definition MaxRates :: nat where "MaxRates = 10"

record rate =
  rate_id :: string
  rate_metric :: string
  rate_tier :: string
  rate_unit :: string
  rate_currency :: string
  rate_amount :: string
  rate_enabled :: bool

record schedule =
  price_id :: string
  provider_model_id :: string
  protocol :: string
  context_threshold :: int
  schedule_rates :: "rate list"

record usage =
  input_tokens :: int
  output_tokens :: int
  cache_read_tokens :: int
  cache_write_tokens :: int
  image_inputs :: int
  pdf_inputs :: int

record fx =
  platform_currency :: string
  fx_rates :: "(string \<times> string) list"

record component =
  comp_rate :: rate
  comp_quantity :: int
  comp_exchange :: string
  comp_charge :: string

record quote =
  quote_adapter :: string
  quote_price_id :: string
  quote_provider_model_id :: string
  quote_usage :: usage
  quote_tier :: string
  quote_threshold :: int
  quote_currency :: string
  quote_components :: "component list"
  quote_total :: string

definition ValidateRate :: "rate \<Rightarrow> pricing_error + unit" where
  "ValidateRate r =
     bindE
       (if rate_metric r \<in> set [Input, Output, CacheRead, CacheWrite] then
          (if rate_unit r \<noteq> TokenUnit \<or> (rate_tier r \<noteq> BaseTier \<and> rate_tier r \<noteq> LongTier)
           then Inl PricingInvalid else Inr ())
        else if rate_metric r = ImageInput then
          (if rate_unit r \<noteq> ImageUnit \<or> rate_tier r \<noteq> BaseTier then Inl PricingInvalid else Inr ())
        else if rate_metric r = PDFInput then
          (if rate_unit r \<noteq> PDFUnit \<or> rate_tier r \<noteq> BaseTier then Inl PricingInvalid else Inr ())
        else Inl PricingInvalid)
       (\<lambda>_. if \<not> Currency (rate_currency r) then Inl PricingInvalid
            else bindE (Decimal (rate_amount r)) (\<lambda>_. Inr ()))"

definition ScheduleAdapter :: "schedule \<Rightarrow> string" where
  "ScheduleAdapter s =
     (if \<exists>r \<in> set (schedule_rates s). rate_metric r = ImageInput \<or> rate_metric r = PDFInput
      then MultimodalAdapter else TextAdapter)"

definition rate_key :: "rate \<Rightarrow> string" where
  "rate_key r = rate_metric r @ ''/'' @ rate_tier r"

definition schedule_step :: "schedule \<Rightarrow> rate \<Rightarrow> string list \<Rightarrow> pricing_error + string list" where
  "schedule_step s r seen =
     bindE (ValidateRate r) (\<lambda>_.
       if rate_key r \<in> set seen \<or> (rate_tier r = LongTier \<and> rate_enabled r \<and> context_threshold s = 0)
       then Inl PricingInvalid
       else Inr (rate_key r # seen))"

definition ValidateSchedule :: "schedule \<Rightarrow> pricing_error + unit" where
  "ValidateSchedule s =
     (if protocol s \<notin> set [''openai_chat'', ''openai_responses'', ''anthropic_messages'', ''gemini_generate_content''] \<or>
         (context_threshold s \<noteq> 0 \<and> context_threshold s \<noteq> 128000 \<and> context_threshold s \<noteq> 200000) \<or>
         length (schedule_rates s) > MaxRates
      then Inl PricingInvalid
      else bindE (foldE (schedule_step s) (schedule_rates s) []) (\<lambda>_. Inr ()))"

definition fx_step :: "fx \<Rightarrow> string \<times> string \<Rightarrow> unit \<Rightarrow> pricing_error + unit" where
  "fx_step f entry _ =
     (case entry of (currency, value) \<Rightarrow>
        if \<not> Currency currency then Inl PricingInvalid
        else case rational value of
            Inl _ \<Rightarrow> Inl PricingInvalid
          | Inr r \<Rightarrow>
              if r \<le> 0 then Inl PricingInvalid
              else if currency = platform_currency f \<and> r \<noteq> 1 then Inl PricingInvalid
              else Inr ())"

definition ValidateFX :: "fx \<Rightarrow> pricing_error + unit" where
  "ValidateFX f =
     (if \<not> Currency (platform_currency f) then Inl PricingInvalid
      else foldE (fx_step f) (fx_rates f) ())"

text \<open>The exchange rate of a rate's currency: \<open>"1"\<close> for the platform's own.\<close>

definition exchange_rate :: "fx \<Rightarrow> string \<Rightarrow> pricing_error + string" where
  "exchange_rate f currency =
     (if currency \<noteq> platform_currency f then orE (map_of (fx_rates f) currency) Unpriced else Inr ''1'')"

text \<open>\<open>v, _ = Decimal(v)\<close>: the empty string where \<open>Decimal\<close> fails.\<close>

definition canonical :: "string \<Rightarrow> string" where
  "canonical value = (case Decimal value of Inl _ \<Rightarrow> '''' | Inr v \<Rightarrow> v)"

definition usage_tier :: "schedule \<Rightarrow> usage \<Rightarrow> string" where
  "usage_tier s u =
     (if context_threshold s > 0 \<and> input_tokens u > context_threshold s then LongTier else BaseTier)"

definition tier_rates :: "schedule \<Rightarrow> string \<Rightarrow> string \<Rightarrow> rate option" where
  "tier_rates s tier =
     fold (\<lambda>r m.
        if rate_tier r = tier \<or> (rate_tier r = BaseTier \<and> (rate_metric r = ImageInput \<or> rate_metric r = PDFInput))
        then m(rate_metric r \<mapsto> r) else m) (schedule_rates s) (\<lambda>_. None)"

definition usage_items :: "usage \<Rightarrow> (string \<times> int \<times> int) list" where
  "usage_items u =
     [(Input, input_tokens u - cache_read_tokens u - cache_write_tokens u, 1000000),
      (Output, output_tokens u, 1000000),
      (CacheRead, cache_read_tokens u, 1000000),
      (CacheWrite, cache_write_tokens u, 1000000),
      (ImageInput, image_inputs u, 1),
      (PDFInput, pdf_inputs u, 1)]"

definition charge_step ::
  "fx \<Rightarrow> (string \<Rightarrow> rate option) \<Rightarrow> string \<times> int \<times> int \<Rightarrow> rat \<times> component list \<Rightarrow>
   pricing_error + rat \<times> component list" where
  "charge_step f rates item acc =
     (case item of (metric, quantity, divisor) \<Rightarrow> case acc of (tot, components) \<Rightarrow>
        if quantity = 0 then Inr (tot, components)
        else case rates metric of
            None \<Rightarrow> Inl Unpriced
          | Some r \<Rightarrow>
              if \<not> rate_enabled r then Inl Unpriced
              else bindE (exchange_rate f (rate_currency r)) (\<lambda>ex.
                   bindE (rational (rate_amount r)) (\<lambda>amount.
                   bindE (rational ex) (\<lambda>exchange.
                     let charge = amount * (of_int quantity / of_int divisor) * exchange;
                         value = rounded charge
                     in Inr (tot + rat_of_decimal value,
                          components @ [\<lparr>comp_rate = r\<lparr>rate_amount := canonical (rate_amount r)\<rparr>,
                            comp_quantity = quantity, comp_exchange = canonical ex,
                            comp_charge = value\<rparr>])))))"

definition valid_usage :: "usage \<Rightarrow> bool" where
  "valid_usage u \<longleftrightarrow>
     \<not> (input_tokens u < 0 \<or> output_tokens u < 0 \<or> cache_read_tokens u < 0 \<or> cache_write_tokens u < 0 \<or>
        image_inputs u < 0 \<or> pdf_inputs u < 0 \<or> cache_read_tokens u > input_tokens u \<or>
        cache_write_tokens u > input_tokens u - cache_read_tokens u)"

definition Calculate :: "schedule \<Rightarrow> fx \<Rightarrow> usage \<Rightarrow> pricing_error + quote" where
  "Calculate s f u =
     bindE (ValidateSchedule s) (\<lambda>_.
     bindE (ValidateFX f) (\<lambda>_.
       if \<not> valid_usage u then Inl PricingInvalid
       else let tier = usage_tier s u; rates = tier_rates s tier in
         if \<not> (\<exists>r \<in> set (schedule_rates s). rate_enabled r) then Inl Unpriced
         else bindE (foldE (charge_step f rates) (usage_items u) (0, [])) (\<lambda>(tot, components).
           Inr \<lparr>quote_adapter = ScheduleAdapter s, quote_price_id = price_id s,
             quote_provider_model_id = provider_model_id s, quote_usage = u, quote_tier = tier,
             quote_threshold = context_threshold s, quote_currency = platform_currency f,
             quote_components = components, quote_total = rounded tot\<rparr>)))"

text \<open>The price of one unit of a metric in the platform's currency, as the bound reads it.\<close>

definition unit_price :: "fx \<Rightarrow> rate \<Rightarrow> pricing_error + rat" where
  "unit_price f r =
     bindE (exchange_rate f (rate_currency r)) (\<lambda>ex.
     bindE (rational (rate_amount r)) (\<lambda>amount.
     bindE (rational ex) (\<lambda>exchange. Inr (amount * exchange))))"

lemmas metric_defs = Input_def Output_def CacheRead_def CacheWrite_def ImageInput_def PDFInput_def

lemma metric_distinct [simp]:
  "Input \<noteq> Output" "Input \<noteq> CacheRead" "Input \<noteq> CacheWrite" "Input \<noteq> ImageInput" "Input \<noteq> PDFInput"
  "Output \<noteq> Input" "Output \<noteq> CacheRead" "Output \<noteq> CacheWrite" "Output \<noteq> ImageInput" "Output \<noteq> PDFInput"
  "CacheRead \<noteq> Input" "CacheRead \<noteq> Output" "CacheRead \<noteq> CacheWrite" "CacheRead \<noteq> ImageInput" "CacheRead \<noteq> PDFInput"
  "CacheWrite \<noteq> Input" "CacheWrite \<noteq> Output" "CacheWrite \<noteq> CacheRead" "CacheWrite \<noteq> ImageInput" "CacheWrite \<noteq> PDFInput"
  "ImageInput \<noteq> Input" "ImageInput \<noteq> Output" "ImageInput \<noteq> CacheRead" "ImageInput \<noteq> CacheWrite" "ImageInput \<noteq> PDFInput"
  "PDFInput \<noteq> Input" "PDFInput \<noteq> Output" "PDFInput \<noteq> CacheRead" "PDFInput \<noteq> CacheWrite" "PDFInput \<noteq> ImageInput"
  by (simp_all add: metric_defs)

lemma tier_distinct [simp]: "BaseTier \<noteq> LongTier" "LongTier \<noteq> BaseTier"
  by (simp_all add: BaseTier_def LongTier_def)

section \<open>What validation guarantees\<close>

lemma schedule_step_Inr:
  "schedule_step s r seen = Inr seen' \<longleftrightarrow>
     ValidateRate r = Inr () \<and> rate_key r \<notin> set seen \<and>
     \<not> (rate_tier r = LongTier \<and> rate_enabled r \<and> context_threshold s = 0) \<and> seen' = rate_key r # seen"
  by (auto simp: schedule_step_def bindE_Inr_iff)

lemma schedule_fold_all:
  "foldE (schedule_step s) rs seen = Inr seen' \<Longrightarrow>
    distinct (map rate_key rs) \<and> set (map rate_key rs) \<inter> set seen = {} \<and>
    (\<forall>r \<in> set rs. ValidateRate r = Inr () \<and>
      \<not> (rate_tier r = LongTier \<and> rate_enabled r \<and> context_threshold s = 0))"
proof (induction rs arbitrary: seen)
  case Nil
  then show ?case by simp
next
  case (Cons r rs)
  then have step: "ValidateRate r = Inr ()" "rate_key r \<notin> set seen"
      "\<not> (rate_tier r = LongTier \<and> rate_enabled r \<and> context_threshold s = 0)"
      "foldE (schedule_step s) rs (rate_key r # seen) = Inr seen'"
    by (auto simp: bindE_Inr_iff schedule_step_Inr)
  show ?case using Cons.IH[OF step(4)] step(1-3) by simp
qed

lemmas schedule_fold =
  schedule_fold_all [THEN conjunct1] schedule_fold_all [THEN conjunct2, THEN conjunct1]
  schedule_fold_all [THEN conjunct2, THEN conjunct2]

lemma ValidateSchedule_rates:
  assumes "ValidateSchedule s = Inr ()"
  shows "distinct (map rate_key (schedule_rates s))"
    and "r \<in> set (schedule_rates s) \<Longrightarrow> ValidateRate r = Inr ()"
    and "r \<in> set (schedule_rates s) \<Longrightarrow> rate_tier r = LongTier \<Longrightarrow> rate_enabled r \<Longrightarrow> context_threshold s \<noteq> 0"
    and "context_threshold s \<in> {0, 128000, 200000}"
proof -
  have t: "context_threshold s \<in> {0, 128000, 200000}"
    and "\<exists>seen. foldE (schedule_step s) (schedule_rates s) [] = Inr seen"
    using assms by (auto simp: ValidateSchedule_def bindE_Inr_iff split: if_splits)
  then obtain seen where f: "foldE (schedule_step s) (schedule_rates s) [] = Inr seen" by blast
  show "distinct (map rate_key (schedule_rates s))" using schedule_fold(1)[OF f] .
  show "r \<in> set (schedule_rates s) \<Longrightarrow> ValidateRate r = Inr ()" using schedule_fold(3)[OF f] by blast
  show "r \<in> set (schedule_rates s) \<Longrightarrow> rate_tier r = LongTier \<Longrightarrow> rate_enabled r \<Longrightarrow> context_threshold s \<noteq> 0"
    using schedule_fold(3)[OF f] by blast
  show "context_threshold s \<in> {0, 128000, 200000}" by (rule t)
qed

text \<open>A rate is determined by its metric and its tier.\<close>

lemma rate_unique:
  assumes "ValidateSchedule s = Inr ()" "r \<in> set (schedule_rates s)" "r' \<in> set (schedule_rates s)"
    and "rate_metric r = rate_metric r'" "rate_tier r = rate_tier r'"
  shows "r = r'"
proof -
  have "rate_key r = rate_key r'" using assms(4,5) by (simp add: rate_key_def)
  then show ?thesis
    using ValidateSchedule_rates(1)[OF assms(1)] assms(2,3) by (meson distinct_map inj_on_def)
qed

lemma ValidateRate_media:
  "ValidateRate r = Inr () \<Longrightarrow> rate_metric r \<in> {ImageInput, PDFInput} \<Longrightarrow> rate_tier r = BaseTier"
  by (auto simp: ValidateRate_def bindE_Inr_iff split: if_splits)

lemma ValidateRate_amount: "ValidateRate r = Inr () \<Longrightarrow> \<exists>a. rational (rate_amount r) = Inr a"
  by (auto simp: ValidateRate_def rational_def bindE_Inr_iff)

lemma ValidateFX_entry:
  assumes "ValidateFX f = Inr ()" "(c, v) \<in> set (fx_rates f)"
  obtains r where "rational v = Inr r" "0 < r"
proof -
  have "foldE (fx_step f) es u = Inr w \<Longrightarrow> (c, v) \<in> set es \<Longrightarrow> \<exists>r. rational v = Inr r \<and> 0 < r" for es u w
  proof (induction es arbitrary: u)
    case (Cons e es)
    then show ?case by (auto simp: fx_step_def bindE_Inr_iff split: if_splits sum.splits)
  qed simp
  then show ?thesis using assms that by (auto simp: ValidateFX_def split: if_splits)
qed

text \<open>The rates of a tier, without the order of the updates.\<close>

lemma tier_rates_iff:
  assumes v: "ValidateSchedule s = Inr ()"
  shows "tier_rates s tier m = Some r \<longleftrightarrow>
    r \<in> set (schedule_rates s) \<and> rate_metric r = m \<and>
    rate_tier r = (if m \<in> {ImageInput, PDFInput} then BaseTier else tier)"
proof -
  let ?P = "\<lambda>r. rate_tier r = tier \<or> (rate_tier r = BaseTier \<and> (rate_metric r = ImageInput \<or> rate_metric r = PDFInput))"
  have media: "rate_tier r' = BaseTier" if "r' \<in> set (schedule_rates s)" "rate_metric r' \<in> {ImageInput, PDFInput}" for r'
    using ValidateRate_media ValidateSchedule_rates(2)[OF v] that by blast
  have uniq: "\<forall>r \<in> set (schedule_rates s). \<forall>r' \<in> set (schedule_rates s).
      ?P r \<and> ?P r' \<and> rate_metric r = rate_metric r' \<longrightarrow> r = r'"
  proof (intro ballI impI)
    fix r r' assume r: "r \<in> set (schedule_rates s)" "r' \<in> set (schedule_rates s)"
      and p: "?P r \<and> ?P r' \<and> rate_metric r = rate_metric r'"
    then have "rate_tier r = rate_tier r'"
      using media[OF r(1)] media[OF r(2)] by (metis insertCI)
    then show "r = r'" using rate_unique[OF v r] p by blast
  qed
  show ?thesis
    unfolding tier_rates_def fold_map_upd[where P = ?P and k = rate_metric, OF uniq] using media by auto
qed

section \<open>Charges\<close>

lemma unit_price_nonneg: "unit_price f r = Inr p \<Longrightarrow> 0 \<le> p"
  by (auto simp: unit_price_def bindE_Inr_iff dest!: rational_nonneg)

definition item_charge :: "rat \<Rightarrow> int \<Rightarrow> int \<Rightarrow> rat" where
  "item_charge p quantity divisor = p * (of_int quantity / of_int divisor)"

lemma charge_step_zero [simp]: "charge_step f rates (m, 0, d) acc = Inr acc"
  by (cases acc) (simp add: charge_step_def)

lemma charge_step_Inr:
  assumes "q \<noteq> 0"
  shows "(\<exists>acc'. charge_step f rates (m, q, d) (t, cs) = Inr acc') \<longleftrightarrow>
    (\<exists>r p. rates m = Some r \<and> rate_enabled r \<and> unit_price f r = Inr p)"
  using assms by (auto simp: charge_step_def unit_price_def bindE_Inr_iff Let_def split: option.splits)

lemma charge_step_price:
  assumes "q \<noteq> 0" "rates m = Some r" "rate_enabled r" "unit_price f r = Inr p"
  shows "\<exists>c. charge_step f rates (m, q, d) (t, cs) =
      Inr (t + rat_of_decimal (rounded (item_charge p q d)), cs @ [c]) \<and>
    comp_charge c = rounded (item_charge p q d)"
proof -
  obtain ex a e where x: "exchange_rate f (rate_currency r) = Inr ex" "rational (rate_amount r) = Inr a"
    "rational ex = Inr e" "p = a * e"
    using assms(4) by (auto simp: unit_price_def bindE_Inr_iff)
  have "a * (of_int q / of_int d) * e = item_charge p q d"
    by (simp add: item_charge_def x(4))
  then show ?thesis using assms x(1-3) by (simp add: charge_step_def Let_def)
qed

text \<open>The total of the loop is the exact sum of the charges it lists.\<close>

definition charges_value :: "component list \<Rightarrow> rat" where
  "charges_value cs = sum_list (map (\<lambda>c. rat_of_decimal (comp_charge c)) cs)"

lemma charge_fold_total:
  assumes "foldE (charge_step f rates) items (t, cs) = Inr (t', cs')" "t = charges_value cs"
  shows "t' = charges_value cs'"
proof -
  have "(\<lambda>(t, cs). t = charges_value cs) (t', cs')"
    by (rule foldE_invariant[OF assms(1)])
      (use assms(2) in \<open>auto simp: charge_step_def bindE_Inr_iff charges_value_def Let_def
        split: if_splits option.splits\<close>)
  then show ?thesis by simp
qed

text \<open>Every charge, and so every total, is a whole number of units of the last digit.\<close>

lemma rounded_is_units: "0 \<le> r \<Longrightarrow> \<exists>n. rat_of_decimal (rounded r) = rat_of_nat n / 10 ^ 18"
  by (metis rounded_units units_text_value)

lemma charge_fold_units:
  assumes "foldE (charge_step f rates) items (t, cs) = Inr (t', cs')" "t = rat_of_nat n / 10 ^ 18"
    and "\<forall>(m, q, d) \<in> set items. 0 \<le> q \<and> 0 < d"
  shows "\<exists>n. t' = rat_of_nat n / 10 ^ 18"
proof -
  have "(\<lambda>(t, cs). \<exists>n. t = rat_of_nat n / 10 ^ 18) (t', cs')"
  proof (rule foldE_invariant[OF assms(1)])
    show "case (t, cs) of (t, cs) \<Rightarrow> \<exists>n. t = rat_of_nat n / 10 ^ 18" using assms(2) by auto
    fix item acc acc' assume i: "item \<in> set items" and
      n: "case acc of (t, cs) \<Rightarrow> \<exists>n. t = rat_of_nat n / 10 ^ 18" and
      s: "charge_step f rates item acc = Inr acc'"
    obtain m q d where item: "item = (m, q, d)" by (cases item)
    obtain t0 cs0 n0 where acc: "acc = (t0, cs0)" "t0 = rat_of_nat n0 / 10 ^ 18" using n by auto
    show "case acc' of (t, cs) \<Rightarrow> \<exists>n. t = rat_of_nat n / 10 ^ 18"
    proof (cases "q = 0")
      case True
      then show ?thesis using s n by (simp add: item)
    next
      case False
      obtain r p where rp: "rates m = Some r" "rate_enabled r" "unit_price f r = Inr p"
        using charge_step_Inr[OF False] s unfolding item acc by blast
      have "0 \<le> item_charge p q d"
        using assms(3) i unit_price_nonneg[OF rp(3)] by (auto simp: item item_charge_def)
      then obtain k where k: "rat_of_decimal (rounded (item_charge p q d)) = rat_of_nat k / 10 ^ 18"
        using rounded_is_units by blast
      obtain c where "charge_step f rates (m, q, d) (t0, cs0) =
          Inr (t0 + rat_of_decimal (rounded (item_charge p q d)), cs0 @ [c])"
        using charge_step_price False rp by blast
      then have "fst acc' = t0 + rat_of_nat k / 10 ^ 18" using s k by (auto simp: item acc)
      then have "fst acc' = rat_of_nat (n0 + k) / 10 ^ 18" by (simp add: acc(2) add_divide_distrib)
      then show ?thesis by (cases acc') (auto simp only: fst_conv prod.case)
    qed
  qed
  then show ?thesis by simp
qed

end
