(* ===== verification/Pricing_Facts.thy ===== *)
theory Pricing_Facts
  imports Pricing
begin

text \<open>
  The properties of a quote: which usages \<open>Calculate\<close> prices, with which rates, and what the
  components and the total of the quote are.
\<close>

section \<open>The loop over the quantities of a usage\<close>

definition used_items :: "usage \<Rightarrow> (string \<times> int \<times> int) list" where
  "used_items u = filter (\<lambda>(m, q, d). q \<noteq> 0) (usage_items u)"

text \<open>The component a quote lists for a quantity: priced by an enabled rate of the metric in the
  one tier of the usage (the base tier for media), its charge rounded to the last digit.\<close>

definition charged :: "fx \<Rightarrow> (string \<Rightarrow> rate option) \<Rightarrow> string \<times> int \<times> int \<Rightarrow> component \<Rightarrow> bool" where
  "charged f rates item c \<longleftrightarrow>
     (case item of (m, q, d) \<Rightarrow>
        \<exists>r p. rates m = Some r \<and> rate_enabled r \<and> unit_price f r = Inr p \<and>
          comp_rate c = r\<lparr>rate_amount := canonical (rate_amount r)\<rparr> \<and> comp_quantity c = q \<and>
          comp_charge c = rounded (item_charge p q d))"

lemma charge_step_charged:
  assumes "charge_step f rates (m, q, d) (t, cs) = Inr (t', cs')" "q \<noteq> 0"
  obtains c where "cs' = cs @ [c]" "charged f rates (m, q, d) c"
proof -
  obtain r ex a e where x: "rates m = Some r" "rate_enabled r" "exchange_rate f (rate_currency r) = Inr ex"
    "rational (rate_amount r) = Inr a" "rational ex = Inr e"
    and cs: "cs' = cs @ [\<lparr>comp_rate = r\<lparr>rate_amount := canonical (rate_amount r)\<rparr>, comp_quantity = q,
      comp_exchange = canonical ex, comp_charge = rounded (a * (of_int q / of_int d) * e)\<rparr>]"
    using assms by (auto simp: charge_step_def bindE_Inr_iff Let_def split: if_splits option.splits)
  have "a * (of_int q / of_int d) * e = item_charge (a * e) q d" by (simp add: item_charge_def)
  moreover have "unit_price f r = Inr (a * e)" using x by (simp add: unit_price_def)
  ultimately show thesis using that[OF cs] x(1,2) by (simp add: charged_def)
qed

lemma charge_fold_charged:
  assumes "foldE (charge_step f rates) items (t, cs) = Inr (t', cs')"
  shows "\<exists>new. cs' = cs @ new \<and> list_all2 (charged f rates) (filter (\<lambda>(m, q, d). q \<noteq> 0) items) new"
  using assms
proof (induction items arbitrary: t cs)
  case Nil
  then show ?case by simp
next
  case (Cons item items)
  obtain m q d where item: "item = (m, q, d)" by (cases item)
  obtain t1 cs1 where s: "charge_step f rates item (t, cs) = Inr (t1, cs1)"
    and rest: "foldE (charge_step f rates) items (t1, cs1) = Inr (t', cs')"
    using Cons.prems by (auto simp: bindE_Inr_iff)
  obtain new where new: "cs' = cs1 @ new" "list_all2 (charged f rates) (filter (\<lambda>(m, q, d). q \<noteq> 0) items) new"
    using Cons.IH[OF rest] by blast
  show ?case
  proof (cases "q = 0")
    case True
    then show ?thesis using new s by (simp add: item)
  next
    case False
    obtain c where "cs1 = cs @ [c]" "charged f rates (m, q, d) c"
      by (rule charge_step_charged[OF s[unfolded item] False])
    then have "cs' = cs @ (c # new)" using new(1) by simp
    moreover have "list_all2 (charged f rates) (filter (\<lambda>(m, q, d). q \<noteq> 0) (item # items)) (c # new)"
      using new(2) False \<open>charged f rates (m, q, d) c\<close> by (simp add: item)
    ultimately show ?thesis by blast
  qed
qed

lemma charge_fold_ok:
  "(\<exists>acc. foldE (charge_step f rates) items acc0 = Inr acc) \<longleftrightarrow>
     (\<forall>(m, q, d) \<in> set items. q \<noteq> 0 \<longrightarrow> (\<exists>r p. rates m = Some r \<and> rate_enabled r \<and> unit_price f r = Inr p))"
proof (induction items arbitrary: acc0)
  case Nil
  then show ?case by simp
next
  case (Cons item items)
  obtain m q d where item: "item = (m, q, d)" by (cases item)
  obtain t cs where acc0: "acc0 = (t, cs)" by (cases acc0)
  show ?case
  proof (cases "q = 0")
    case True
    then show ?thesis using Cons.IH[of acc0] by (simp add: item)
  next
    case False
    have "(\<exists>acc. foldE (charge_step f rates) (item # items) acc0 = Inr acc) \<longleftrightarrow>
      (\<exists>acc1. charge_step f rates (m, q, d) (t, cs) = Inr acc1) \<and>
      (\<forall>acc1. charge_step f rates (m, q, d) (t, cs) = Inr acc1 \<longrightarrow>
        (\<exists>acc. foldE (charge_step f rates) items acc1 = Inr acc))"
      by (cases "charge_step f rates (m, q, d) (t, cs)") (simp_all add: item acc0)
    then show ?thesis using charge_step_Inr[OF False, of f rates m d t cs] False Cons.IH
      by (auto simp: item)
  qed
qed

lemma Calculate_Inr:
  "Calculate s f u = Inr q \<longleftrightarrow>
     ValidateSchedule s = Inr () \<and> ValidateFX f = Inr () \<and> valid_usage u \<and>
     (\<exists>r \<in> set (schedule_rates s). rate_enabled r) \<and>
     (\<exists>tot cs. foldE (charge_step f (tier_rates s (usage_tier s u))) (usage_items u) (0, []) = Inr (tot, cs) \<and>
        q = \<lparr>quote_adapter = ScheduleAdapter s, quote_price_id = price_id s,
             quote_provider_model_id = provider_model_id s, quote_usage = u, quote_tier = usage_tier s u,
             quote_threshold = context_threshold s, quote_currency = platform_currency f,
             quote_components = cs, quote_total = rounded tot\<rparr>)"
  by (auto simp: Calculate_def bindE_Inr_iff Let_def)

lemma usage_items_nonneg: "valid_usage u \<Longrightarrow> \<forall>(m, q, d) \<in> set (usage_items u). 0 \<le> q \<and> 0 < d"
  by (auto simp: usage_items_def valid_usage_def)

section \<open>Properties\<close>

text \<open>C20. A quote lists, in the fixed order of the metrics, exactly one component for every non-zero
  quantity of the usage. Each is priced by an enabled rate of the schedule for that metric in the
  tier of the whole request (the base tier for images and PDFs): there is no other tier to fall
  back to. Its charge is within half of the eighteenth digit of price times quantity times
  exchange rate, and the total of the quote is exactly the sum of the listed charges.\<close>
theorem Calculate_components:
  assumes "Calculate s f u = Inr q"
  shows "list_all2 (charged f (tier_rates s (quote_tier q))) (used_items u) (quote_components q) \<and>
    (\<forall>c \<in> set (quote_components q). \<exists>r \<in> set (schedule_rates s). rate_enabled r \<and>
       comp_rate c = r\<lparr>rate_amount := canonical (rate_amount r)\<rparr> \<and>
       rate_tier r = (if rate_metric r \<in> {ImageInput, PDFInput} then BaseTier else usage_tier s u)) \<and>
    (\<forall>c \<in> set (quote_components q). \<exists>p m d. (m, comp_quantity c, d) \<in> set (usage_items u) \<and>
       \<bar>rat_of_decimal (comp_charge c) - item_charge p (comp_quantity c) d\<bar> \<le> 1 / (2 * 10 ^ 18) \<and>
       (\<exists>r \<in> set (schedule_rates s). rate_metric r = m \<and> unit_price f r = Inr p)) \<and>
    rat_of_decimal (quote_total q) = sum_list (map (\<lambda>c. rat_of_decimal (comp_charge c)) (quote_components q))"
proof -
  let ?rates = "tier_rates s (usage_tier s u)"
  obtain tot cs where V: "ValidateSchedule s = Inr ()" "valid_usage u"
    and fold: "foldE (charge_step f ?rates) (usage_items u) (0, []) = Inr (tot, cs)"
    and q: "quote_tier q = usage_tier s u" "quote_components q = cs" "quote_total q = rounded tot"
    using assms by (auto simp: Calculate_Inr)
  have all: "list_all2 (charged f ?rates) (used_items u) cs"
    using charge_fold_charged[OF fold] by (simp add: used_items_def)
  have each: "\<exists>m d r p. (m, comp_quantity c, d) \<in> set (usage_items u) \<and> ?rates m = Some r \<and> rate_enabled r \<and>
      unit_price f r = Inr p \<and> comp_rate c = r\<lparr>rate_amount := canonical (rate_amount r)\<rparr> \<and>
      comp_charge c = rounded (item_charge p (comp_quantity c) d)" if c: "c \<in> set cs" for c
  proof -
    obtain i where i: "i < length cs" "c = cs ! i" using c by (metis in_set_conv_nth)
    then have "charged f ?rates (used_items u ! i) c" "used_items u ! i \<in> set (used_items u)"
      using all by (simp_all add: list_all2_conv_all_nth)
    then show ?thesis by (fastforce simp: charged_def used_items_def split: prod.splits)
  qed
  have rate: "r \<in> set (schedule_rates s) \<and> rate_metric r = m \<and>
      rate_tier r = (if m \<in> {ImageInput, PDFInput} then BaseTier else usage_tier s u)" if "?rates m = Some r" for m r
    using that tier_rates_iff[OF V(1)] by blast
  have near: "\<bar>rat_of_decimal (rounded (item_charge p q' d)) - item_charge p q' d\<bar> \<le> 1 / (2 * 10 ^ 18)"
    if "(m, q', d) \<in> set (usage_items u)" "unit_price f r = Inr p" for m q' d r p
    using usage_items_nonneg[OF V(2)] that(1) unit_price_nonneg[OF that(2)]
    by (intro rounded_error) (auto simp: item_charge_def)
  have "\<exists>n. tot = rat_of_nat n / 10 ^ 18"
    by (rule charge_fold_units[OF fold, of 0]) (use usage_items_nonneg[OF V(2)] in simp_all)
  then have "rat_of_decimal (quote_total q) = charges_value cs"
    using charge_fold_total[OF fold] rounded_exact(2) q(3) by (auto simp: charges_value_def)
  moreover have "\<forall>c \<in> set cs. \<exists>r \<in> set (schedule_rates s). rate_enabled r \<and>
       comp_rate c = r\<lparr>rate_amount := canonical (rate_amount r)\<rparr> \<and>
       rate_tier r = (if rate_metric r \<in> {ImageInput, PDFInput} then BaseTier else usage_tier s u)"
  proof
    fix c assume "c \<in> set cs"
    from each[OF this] obtain m r where x: "?rates m = Some r" "rate_enabled r"
      "comp_rate c = r\<lparr>rate_amount := canonical (rate_amount r)\<rparr>" by blast
    show "\<exists>r \<in> set (schedule_rates s). rate_enabled r \<and>
       comp_rate c = r\<lparr>rate_amount := canonical (rate_amount r)\<rparr> \<and>
       rate_tier r = (if rate_metric r \<in> {ImageInput, PDFInput} then BaseTier else usage_tier s u)"
      using rate[OF x(1)] x(2,3) by blast
  qed
  moreover have "\<forall>c \<in> set cs. \<exists>p m d. (m, comp_quantity c, d) \<in> set (usage_items u) \<and>
       \<bar>rat_of_decimal (comp_charge c) - item_charge p (comp_quantity c) d\<bar> \<le> 1 / (2 * 10 ^ 18) \<and>
       (\<exists>r \<in> set (schedule_rates s). rate_metric r = m \<and> unit_price f r = Inr p)"
  proof
    fix c assume "c \<in> set cs"
    from each[OF this] obtain m d r p where x: "(m, comp_quantity c, d) \<in> set (usage_items u)" "?rates m = Some r"
      "unit_price f r = Inr p" "comp_charge c = rounded (item_charge p (comp_quantity c) d)" by blast
    have "r \<in> set (schedule_rates s)" "rate_metric r = m" using rate[OF x(2)] by simp_all
    then show "\<exists>p m d. (m, comp_quantity c, d) \<in> set (usage_items u) \<and>
       \<bar>rat_of_decimal (comp_charge c) - item_charge p (comp_quantity c) d\<bar> \<le> 1 / (2 * 10 ^ 18) \<and>
       (\<exists>r \<in> set (schedule_rates s). rate_metric r = m \<and> unit_price f r = Inr p)"
      using x(1,3) near[OF x(1,3)] unfolding x(4) by blast
  qed
  ultimately show ?thesis using all by (simp add: q charges_value_def)
qed

definition demo_rate :: "string \<Rightarrow> string \<Rightarrow> string \<Rightarrow> rate" where
  "demo_rate metric tier amount = \<lparr>rate_id = ''r'', rate_metric = metric, rate_tier = tier,
     rate_unit = TokenUnit, rate_currency = ''CNY'', rate_amount = amount, rate_enabled = True\<rparr>"

definition demo_schedule :: schedule where
  "demo_schedule = \<lparr>price_id = ''p'', provider_model_id = ''m'', protocol = ''openai_chat'',
     context_threshold = 128000,
     schedule_rates = [demo_rate Input BaseTier ''2'', demo_rate Output BaseTier ''8.50'',
       demo_rate Input LongTier ''4'', demo_rate Output LongTier ''16'']\<rparr>"

definition demo_fx :: fx where
  "demo_fx = \<lparr>platform_currency = ''USD'', fx_rates = [(''CNY'', ''0.14'')]\<rparr>"

definition demo_usage :: usage where
  "demo_usage = \<lparr>input_tokens = 200000, output_tokens = 1000, cache_read_tokens = 0,
     cache_write_tokens = 0, image_inputs = 0, pdf_inputs = 0\<rparr>"

definition demo_quote :: quote where
  "demo_quote = \<lparr>quote_adapter = TextAdapter, quote_price_id = ''p'', quote_provider_model_id = ''m'',
     quote_usage = demo_usage, quote_tier = LongTier, quote_threshold = 128000, quote_currency = ''USD'',
     quote_components =
       [\<lparr>comp_rate = demo_rate Input LongTier ''4'', comp_quantity = 200000, comp_exchange = ''0.14'', comp_charge = ''0.112''\<rparr>,
        \<lparr>comp_rate = demo_rate Output LongTier ''16'', comp_quantity = 1000, comp_exchange = ''0.14'', comp_charge = ''0.00224''\<rparr>],
     quote_total = ''0.11424''\<rparr>"

lemma demo_rational: "rational ''4'' = Inr 4" "rational ''16'' = Inr 16" "rational ''0.14'' = Inr (7 / 50)"
    "rational ''2'' = Inr 2" "rational ''8.50'' = Inr (17 / 2)"
  by (simp_all add: rational_Inr decimal_match_def rat_of_decimal_def digits_val_def digit_val_def is_digit_def)

lemma demo_valid: "ValidateSchedule demo_schedule = Inr ()" "ValidateFX demo_fx = Inr ()"
proof -
  show "ValidateSchedule demo_schedule = Inr ()" by code_simp
  show "ValidateFX demo_fx = Inr ()"
    by (simp add: ValidateFX_def demo_fx_def fx_step_def Currency_def demo_rational)
qed

lemma units_text_reps:
  "replicate 2 c = [c, c]" "replicate 3 c = [c, c, c]" "replicate 4 c = [c, c, c, c]" for c :: char
  by (simp_all add: numeral_eq_Suc)

lemmas print_units = units_text_def nat_digits_step nat_digits_small digit_chars trim_right_def Let_def units_text_reps

lemma demo_Calculate: "Calculate demo_schedule demo_fx demo_usage = Inr demo_quote"
proof -
  have txt1: "rounded (14 / 125) = ''0.112''"
    by (subst rounded_exact(1)[of _ 112000000000000000])
      (simp_all add: print_units)
  have txt2: "rounded (7 / 3125) = ''0.00224''"
    by (subst rounded_exact(1)[of _ 2240000000000000])
      (simp_all add: print_units)
  have txt3: "rounded (357 / 3125) = ''0.11424''"
    by (subst rounded_exact(1)[of _ 114240000000000000])
      (simp_all add: print_units)
  have C: "canonical ''4'' = ''4''" "canonical ''16'' = ''16''" "canonical ''0.14'' = ''0.14''" by code_simp+
  have T: "tier_rates demo_schedule LongTier Input = Some (demo_rate Input LongTier ''4'')"
    "tier_rates demo_schedule LongTier Output = Some (demo_rate Output LongTier ''16'')"
    by (simp_all add: tier_rates_def demo_schedule_def demo_rate_def)
  have F: "foldE (charge_step demo_fx (tier_rates demo_schedule LongTier)) (usage_items demo_usage) (0, [])
    = Inr (357 / 3125, quote_components demo_quote)"
    by (simp add: usage_items_def demo_usage_def charge_step_def T C demo_rate_def exchange_rate_def
        demo_fx_def orE_def demo_rational Let_def txt1 txt2 demo_quote_def rat_of_decimal_def digits_val_def digit_val_def)
  show ?thesis
    using demo_valid F txt3
    by (simp add: Calculate_def valid_usage_def demo_usage_def demo_quote_def usage_tier_def demo_schedule_def
      Let_def demo_fx_def ScheduleAdapter_def demo_rate_def)
qed

lemma Calculate_components_witness:
  "rat_of_decimal ''0.11424'' = rat_of_decimal ''0.112'' + rat_of_decimal ''0.00224''"
  using Calculate_components[OF demo_Calculate] by (simp add: demo_quote_def)

text \<open>C21. \<open>Calculate\<close> prices a usage exactly when the schedule and the exchange rates are valid, the
  usage is (no negative count, the cached tokens within the input), some rate is enabled, and
  every non-zero quantity has an enabled rate in its tier whose currency can be exchanged. A valid
  usage that cannot be priced gives \<open>Unpriced\<close>, never a partial quote.\<close>
theorem Calculate_defined:
  "((\<exists>q. Calculate s f u = Inr q) \<longleftrightarrow>
     ValidateSchedule s = Inr () \<and> ValidateFX f = Inr () \<and> valid_usage u \<and>
     (\<exists>r \<in> set (schedule_rates s). rate_enabled r) \<and>
     (\<forall>(m, q, d) \<in> set (used_items u). \<exists>r p. tier_rates s (usage_tier s u) m = Some r \<and>
        rate_enabled r \<and> unit_price f r = Inr p)) \<and>
   (ValidateSchedule s = Inr () \<and> ValidateFX f = Inr () \<and> valid_usage u \<longrightarrow>
     (\<exists>q. Calculate s f u = Inr q) \<or> Calculate s f u = Inl Unpriced)"
proof
  let ?rates = "tier_rates s (usage_tier s u)"
  have used: "(\<forall>(m, q, d) \<in> set (used_items u). \<exists>r p. ?rates m = Some r \<and> rate_enabled r \<and> unit_price f r = Inr p)
    \<longleftrightarrow> (\<exists>acc. foldE (charge_step f ?rates) (usage_items u) (0, []) = Inr acc)"
    unfolding charge_fold_ok used_items_def by (auto; blast)
  show "(\<exists>q. Calculate s f u = Inr q) \<longleftrightarrow>
     ValidateSchedule s = Inr () \<and> ValidateFX f = Inr () \<and> valid_usage u \<and>
     (\<exists>r \<in> set (schedule_rates s). rate_enabled r) \<and>
     (\<forall>(m, q, d) \<in> set (used_items u). \<exists>r p. ?rates m = Some r \<and> rate_enabled r \<and> unit_price f r = Inr p)"
    unfolding Calculate_Inr used by auto
  show "ValidateSchedule s = Inr () \<and> ValidateFX f = Inr () \<and> valid_usage u \<longrightarrow>
     (\<exists>q. Calculate s f u = Inr q) \<or> Calculate s f u = Inl Unpriced"
  proof
    assume V: "ValidateSchedule s = Inr () \<and> ValidateFX f = Inr () \<and> valid_usage u"
    have step: "charge_step f ?rates item acc \<noteq> Inl PricingInvalid" for item acc
    proof -
      obtain m q d t cs where ia: "item = (m, q, d)" "acc = (t, cs)" by (cases item; cases acc)
      have amount: "\<exists>a. rational (rate_amount r) = Inr a" if "?rates m = Some r" for r
        using that tier_rates_iff[of s] V ValidateSchedule_rates(2) ValidateRate_amount by blast
      have ex: "\<exists>a. rational e = Inr a" if "exchange_rate f c = Inr e" for c e
      proof (cases "c = platform_currency f")
        case True
        then have e: "e = ''1''" using that by (simp add: exchange_rate_def)
        have "decimal_match 17 ''1''" by code_simp
        then show ?thesis unfolding e by (auto simp: rational_Inr)
      next
        case False
        then have "map_of (fx_rates f) c = Some e"
          using that by (auto simp: exchange_rate_def orE_def split: option.splits)
        then show ?thesis using ValidateFX_entry V map_of_SomeD by metis
      qed
      have unpriced: "exchange_rate f c \<noteq> Inl PricingInvalid" for c
        by (auto simp: exchange_rate_def orE_def split: option.splits)
      show ?thesis
        using amount ex unpriced
        by (auto simp: charge_step_def ia bindE_def Let_def split: option.splits sum.splits if_splits)
          (metis sum.distinct(1))+
    qed
    have "foldE (charge_step f ?rates) items acc \<noteq> Inl PricingInvalid" for items acc
      by (induction items arbitrary: acc) (use step in \<open>auto simp: bindE_def split: sum.splits\<close>)
    then have "e = Unpriced" if "foldE (charge_step f ?rates) items acc = Inl e" for items acc e
      using that by (cases e) auto
    then show "(\<exists>q. Calculate s f u = Inr q) \<or> Calculate s f u = Inl Unpriced"
      using V by (auto simp: Calculate_def Let_def bindE_def split: sum.splits)
  qed
qed

lemma Calculate_defined_witness:
  "\<exists>r p. tier_rates demo_schedule LongTier Output = Some r \<and> rate_enabled r \<and> unit_price demo_fx r = Inr p"
proof -
  have "(Output, 1000, 1000000) \<in> set (used_items demo_usage)" "usage_tier demo_schedule demo_usage = LongTier"
    by (simp_all add: used_items_def usage_items_def demo_usage_def usage_tier_def demo_schedule_def)
  then show ?thesis using Calculate_defined[of demo_schedule demo_fx demo_usage] demo_Calculate by fastforce
qed

end
