(* ===== verification/Pricing_Bound.thy ===== *)
theory Pricing_Bound
  imports Pricing_Facts
begin

text \<open>
  The reservation bound of \<open>pkg/pricing/bound.go\<close>: \<open>ReserveBound\<close> with its loop over the
  reachable tiers and metrics, its media loop and its final rounding up. The main result is the
  contract of its doc comment: a bound that is returned dominates the quote of every usage within
  the capacity, and that quote exists. The bound is moreover an amount the quota journal accepts.
\<close>

section \<open>The code\<close>

record capacity =
  cap_input :: int
  cap_output :: int
  cap_image_inputs :: int
  cap_pdf_inputs :: int
  cap_cache_read :: bool
  cap_cache_write :: bool

record bound_quote =
  bound_amount :: string
  bound_currency :: string
  bound_capacity :: capacity
  bound_components :: int

definition find_rate :: "schedule \<Rightarrow> string \<Rightarrow> string \<Rightarrow> rate option" where
  "find_rate s tier metric =
     find (\<lambda>r. rate_tier r = tier \<and> rate_metric r = metric \<and> rate_enabled r) (schedule_rates s)"

definition bound_tiers :: "schedule \<Rightarrow> capacity \<Rightarrow> string list" where
  "bound_tiers s cap =
     (if context_threshold s > 0 \<and> cap_input cap > context_threshold s
      then [BaseTier, LongTier] else [BaseTier])"

definition bound_metrics :: "capacity \<Rightarrow> string list" where
  "bound_metrics cap =
     [Input] @ (if cap_cache_read cap then [CacheRead] else []) @
     (if cap_cache_write cap then [CacheWrite] else [])"

definition skip_metric :: "capacity \<Rightarrow> string \<Rightarrow> bool" where
  "skip_metric cap metric \<longleftrightarrow>
     metric = Output \<and> cap_output cap = 0 \<or> metric \<noteq> Output \<and> cap_input cap = 0"

definition bound_step ::
  "schedule \<Rightarrow> fx \<Rightarrow> capacity \<Rightarrow> string \<times> string \<Rightarrow> rat \<times> rat \<Rightarrow> pricing_error + rat \<times> rat" where
  "bound_step s f cap tm maxima =
     (case tm of (tier, metric) \<Rightarrow> case maxima of (maxInput, maxOutput) \<Rightarrow>
        if skip_metric cap metric
        then Inr (maxInput, maxOutput)
        else case find_rate s tier metric of
            None \<Rightarrow> Inl Unpriced
          | Some selected \<Rightarrow>
              bindE (unit_price f selected) (\<lambda>rate.
                if metric = Output
                then Inr (maxInput, if rate > maxOutput then rate else maxOutput)
                else Inr (if rate > maxInput then rate else maxInput, maxOutput)))"

definition media_step ::
  "schedule \<Rightarrow> fx \<Rightarrow> string \<times> int \<Rightarrow> rat \<times> int \<Rightarrow> pricing_error + rat \<times> int" where
  "media_step s f item acc =
     (case item of (metric, quantity) \<Rightarrow> case acc of (exact, components) \<Rightarrow>
        if quantity = 0 then Inr (exact, components)
        else case find_rate s BaseTier metric of
            None \<Rightarrow> Inl Unpriced
          | Some selected \<Rightarrow>
              bindE (unit_price f selected) (\<lambda>rate.
                Inr (exact + rate * of_int quantity, components + 1)))"

definition bound_pairs :: "schedule \<Rightarrow> capacity \<Rightarrow> (string \<times> string) list" where
  "bound_pairs s cap =
     concat (map (\<lambda>tier. map (\<lambda>metric. (tier, metric)) (bound_metrics cap @ [Output])) (bound_tiers s cap))"

text \<open>\<open>QuoRem\<close> and one more unit where the remainder is not zero.\<close>

definition rounded_up :: "rat \<Rightarrow> int" where
  "rounded_up units =
     (case quotient_of units of (num, denom) \<Rightarrow>
        let q = quo_trunc num denom in if num - q * denom \<noteq> 0 then q + 1 else q)"

definition ReserveBound :: "schedule \<Rightarrow> fx \<Rightarrow> capacity \<Rightarrow> pricing_error + bound_quote" where
  "ReserveBound s f cap =
     (if cap_input cap < 0 \<or> cap_output cap < 0 \<or> cap_image_inputs cap < 0 \<or> cap_pdf_inputs cap < 0 \<or>
         ValidateSchedule s \<noteq> Inr () \<or> ValidateFX f \<noteq> Inr ()
      then Inl PricingInvalid
      else if \<not> (\<exists>r \<in> set (schedule_rates s). rate_enabled r) then Inl Unpriced
      else
        let metrics = bound_metrics cap;
            components = (if cap_input cap > 0 then int (length metrics) else 0) +
                         (if cap_output cap > 0 then 1 else 0)
        in bindE (foldE (bound_step s f cap)
               (bound_pairs s cap)
               (0, 0)) (\<lambda>(maxInput, maxOutput).
           let exact = maxInput * (of_int (cap_input cap) / 1000000) +
                       maxOutput * (of_int (cap_output cap) / 1000000)
           in bindE (foldE (media_step s f)
                 [(ImageInput, cap_image_inputs cap), (PDFInput, cap_pdf_inputs cap)]
                 (exact, components)) (\<lambda>(exact, components).
              if exact = 0
              then Inr \<lparr>bound_amount = ''0'', bound_currency = platform_currency f,
                        bound_capacity = cap, bound_components = components\<rparr>
              else let units = exact * 10 ^ 18 + of_int components / 2
                   in Inr \<lparr>bound_amount = rounded (of_int (rounded_up units) / 10 ^ 18),
                        bound_currency = platform_currency f,
                        bound_capacity = cap, bound_components = components\<rparr>)))"

text \<open>A usage that a capacity admits.\<close>

definition usage_within :: "usage \<Rightarrow> capacity \<Rightarrow> bool" where
  "usage_within u cap \<longleftrightarrow>
     valid_usage u \<and> input_tokens u \<le> cap_input cap \<and> output_tokens u \<le> cap_output cap \<and>
     image_inputs u \<le> cap_image_inputs cap \<and> pdf_inputs u \<le> cap_pdf_inputs cap \<and>
     (0 < cache_read_tokens u \<longrightarrow> cap_cache_read cap) \<and>
     (0 < cache_write_tokens u \<longrightarrow> cap_cache_write cap)"

section \<open>The loops of the bound\<close>

lemma find_rate_Some:
  "find_rate s tier metric = Some r \<Longrightarrow>
    r \<in> set (schedule_rates s) \<and> rate_tier r = tier \<and> rate_metric r = metric \<and> rate_enabled r"
  by (auto simp: find_rate_def find_Some_iff)

lemma find_rate_tier_rates:
  assumes "ValidateSchedule s = Inr ()" "find_rate s t m = Some r"
    and "t = (if m \<in> {ImageInput, PDFInput} then BaseTier else tier)"
  shows "tier_rates s tier m = Some r"
  using find_rate_Some[OF assms(2)] assms(3) tier_rates_iff[OF assms(1)] by auto

text \<open>The entry a loop leaves behind for a tier and a metric: a rate no dearer than the maximum.\<close>

definition priced_below :: "schedule \<Rightarrow> fx \<Rightarrow> rat \<Rightarrow> rat \<Rightarrow> string \<times> string \<Rightarrow> bool" where
  "priced_below s f mi mo tm \<longleftrightarrow>
     (\<exists>r p. find_rate s (fst tm) (snd tm) = Some r \<and> unit_price f r = Inr p \<and>
        p \<le> (if snd tm = Output then mo else mi))"

lemma priced_below_mono:
  "priced_below s f mi mo tm \<Longrightarrow> mi \<le> mi' \<Longrightarrow> mo \<le> mo' \<Longrightarrow> priced_below s f mi' mo' tm"
  by (cases "snd tm = Output") (fastforce simp: priced_below_def)+

lemma bound_step_Inr:
  assumes "bound_step s f cap tm (mi, mo) = Inr (mi', mo')"
  shows "mi \<le> mi' \<and> mo \<le> mo' \<and> (\<not> skip_metric cap (snd tm) \<longrightarrow> priced_below s f mi' mo' tm)"
proof (cases "skip_metric cap (snd tm)")
  case True
  then show ?thesis using assms by (auto simp: bound_step_def split: prod.splits)
next
  case False
  obtain r p where rp: "find_rate s (fst tm) (snd tm) = Some r" "unit_price f r = Inr p"
    "(mi', mo') = (if snd tm = Output then (mi, if p > mo then p else mo) else (if p > mi then p else mi, mo))"
    using assms False
    by (cases tm) (auto simp: bound_step_def bindE_Inr_iff split: option.splits if_splits)
  then show ?thesis unfolding priced_below_def
    by (cases "snd tm = Output") (simp_all split: if_splits)
qed

lemma bound_fold:
  assumes "foldE (bound_step s f cap) tms (mi, mo) = Inr (mi', mo')"
  shows "mi \<le> mi' \<and> mo \<le> mo' \<and>
    (\<forall>tm \<in> set tms. \<not> skip_metric cap (snd tm) \<longrightarrow> priced_below s f mi' mo' tm)"
  using assms
proof (induction tms arbitrary: mi mo)
  case Nil
  then show ?case by simp
next
  case (Cons tm tms)
  then obtain a b where ab: "bound_step s f cap tm (mi, mo) = Inr (a, b)"
    "foldE (bound_step s f cap) tms (a, b) = Inr (mi', mo')"
    by (auto simp: bindE_Inr_iff)
  show ?case using bound_step_Inr[OF ab(1)] Cons.IH[OF ab(2)]
    by (auto intro: priced_below_mono)
qed

lemma set_bound_pairs:
  "set (bound_pairs s cap) = set (bound_tiers s cap) \<times> set (bound_metrics cap @ [Output])"
  by (auto simp: bound_pairs_def)

lemma media_fold:
  assumes "foldE (media_step s f) [(m1, q1), (m2, q2)] (e, c) = Inr (e', c')"
  obtains p1 p2 where
    "e' = e + p1 * of_int q1 + p2 * of_int q2"
    "c' = c + (if q1 = 0 then 0 else 1) + (if q2 = 0 then 0 else 1)"
    "q1 \<noteq> 0 \<longrightarrow> (\<exists>r. find_rate s BaseTier m1 = Some r \<and> unit_price f r = Inr p1)"
    "q2 \<noteq> 0 \<longrightarrow> (\<exists>r. find_rate s BaseTier m2 = Some r \<and> unit_price f r = Inr p2)"
    "0 \<le> p1" "0 \<le> p2"
proof -
  have one: "\<exists>p. e' = e + p * of_int q \<and> c' = c + (if q = 0 then 0 else 1) \<and> 0 \<le> p \<and>
      (q \<noteq> 0 \<longrightarrow> (\<exists>r. find_rate s BaseTier m = Some r \<and> unit_price f r = Inr p))"
    if st: "media_step s f (m, q) (e, c) = Inr (e', c')" for m q e c e' c'
  proof (cases "q = 0")
    case True
    then show ?thesis using st by (intro exI[of _ 0]) (simp add: media_step_def)
  next
    case False
    then obtain r p where "find_rate s BaseTier m = Some r" "unit_price f r = Inr p"
      "e' = e + p * of_int q" "c' = c + 1"
      using st by (auto simp: media_step_def bindE_Inr_iff split: option.splits)
    then show ?thesis using False unit_price_nonneg by auto
  qed
  obtain e1 c1 where 1: "media_step s f (m1, q1) (e, c) = Inr (e1, c1)"
    and 2: "media_step s f (m2, q2) (e1, c1) = Inr (e', c')"
    using assms by (auto simp: bindE_Inr_iff)
  show ?thesis using one[OF 1] one[OF 2] that by auto
qed

section \<open>Rounding up\<close>

lemma rounded_up_ge:
  assumes "0 \<le> x"
  shows "0 \<le> rounded_up x" "x \<le> of_int (rounded_up x)" "of_int (rounded_up x) < x + 1"
proof -
  obtain n d where nd: "quotient_of x = (n, d)" by fastforce
  have d: "0 < d" by (rule quotient_of_denom_pos[OF nd])
  have x: "x = of_int n / of_int d" by (rule quotient_of_div[OF nd])
  have n: "0 \<le> n" using assms x d by (simp add: zero_le_divide_iff)
  have "rounded_up x = \<lceil>x\<rceil>"
  proof -
    have up: "rounded_up x = (if n mod d \<noteq> 0 then n div d + 1 else n div d)"
      unfolding rounded_up_def nd prod.case quo_trunc_nonneg[OF n d] Let_def minus_div_mult_eq_mod ..
    have "\<lceil>x\<rceil> = - ((- n) div d)" by (simp add: x ceiling_divide_eq_div)
    also have "\<dots> = (if n mod d \<noteq> 0 then n div d + 1 else n div d)"
      using zdiv_zminus1_eq_if[of d n] d by simp
    finally show ?thesis using up by simp
  qed
  then show "0 \<le> rounded_up x" "x \<le> of_int (rounded_up x)" "of_int (rounded_up x) < x + 1"
    using assms by (simp_all add: ceiling_less_iff) linarith+
qed


section \<open>The bound dominates every quote within the capacity\<close>

definition item_value :: "rat \<Rightarrow> int \<Rightarrow> int \<Rightarrow> rat" where
  "item_value p q d = (if q = 0 then 0 else rat_of_decimal (rounded (item_charge p q d)))"

definition half_unit :: rat where "half_unit = 1 / (2 * 10 ^ 18)"

lemma half_unit_pos: "0 < half_unit" by (simp add: half_unit_def)

lemma item_value_bounds:
  assumes "0 \<le> q" "0 < d" "q \<noteq> 0 \<Longrightarrow> 0 \<le> p \<and> p \<le> M" "0 \<le> M"
  shows "item_value p q d \<le> item_charge M q d + (if q = 0 then 0 else half_unit)"
    and "item_charge M q d = 0 \<Longrightarrow> item_value p q d = 0"
    and "0 \<le> item_value p q d" and "0 \<le> item_charge M q d"
proof -
  have r: "(0::rat) \<le> of_int q / of_int d" using assms(1,2) by simp
  show c: "0 \<le> item_charge M q d" unfolding item_charge_def using assms(4) r by (rule mult_nonneg_nonneg)
  have le: "0 \<le> item_charge p q d \<and> item_charge p q d \<le> item_charge M q d" if "q \<noteq> 0"
    using assms(3)[OF that] r unfolding item_charge_def
    by (meson mult_nonneg_nonneg mult_right_mono)
  show "item_value p q d \<le> item_charge M q d + (if q = 0 then 0 else half_unit)"
  proof (cases "q = 0")
    case True
    then show ?thesis using c by (simp add: item_value_def)
  next
    case False
    have "\<bar>rat_of_decimal (rounded (item_charge p q d)) - item_charge p q d\<bar> \<le> half_unit"
      unfolding half_unit_def using le[OF False] by (intro rounded_error) simp
    then have "rat_of_decimal (rounded (item_charge p q d)) \<le> item_charge p q d + half_unit"
      by (simp only: abs_le_iff) linarith
    then show ?thesis using le[OF False] False by (simp add: item_value_def)
  qed
  show "item_value p q d = 0" if "item_charge M q d = 0"
  proof (cases "q = 0")
    case False
    then have "item_charge p q d = rat_of_nat 0 / 10 ^ 18" using le that by simp
    then show ?thesis using rounded_exact(2) by (simp add: item_value_def)
  qed (simp add: item_value_def)
  show "0 \<le> item_value p q d" by (simp add: item_value_def rat_of_decimal_nonneg)
qed

lemma charge_fold_prices:
  assumes "\<forall>(m, q, d) \<in> set items. q \<noteq> 0 \<longrightarrow>
      (\<exists>r. rates m = Some r \<and> rate_enabled r \<and> unit_price f r = Inr (pr m))"
  shows "\<exists>cs'. foldE (charge_step f rates) items (t, cs) =
    Inr (t + (\<Sum>(m, q, d) \<leftarrow> items. item_value (pr m) q d), cs')"
  using assms
proof (induction items arbitrary: t cs)
  case Nil
  then show ?case by simp
next
  case (Cons i items)
  obtain m q d where i: "i = (m, q, d)" by (cases i)
  have IH: "\<exists>cs'. foldE (charge_step f rates) items (t, cs) =
      Inr (t + (\<Sum>(m, q, d) \<leftarrow> items. item_value (pr m) q d), cs')" for t cs
    using Cons.IH Cons.prems by simp
  show ?case
  proof (cases "q = 0")
    case True
    then show ?thesis using IH[of t cs] by (simp add: i item_value_def)
  next
    case False
    then obtain r where "rates m = Some r" "rate_enabled r" "unit_price f r = Inr (pr m)"
      using Cons.prems i by auto
    then obtain c where "charge_step f rates (m, q, d) (t, cs) =
        Inr (t + rat_of_decimal (rounded (item_charge (pr m) q d)), cs @ [c])"
      using charge_step_price False by blast
    then show ?thesis
      using IH[of "t + rat_of_decimal (rounded (item_charge (pr m) q d))" "cs @ [c]"] False
      by (simp add: i item_value_def add.assoc)
  qed
qed

lemma ReserveBound_Inr:
  assumes "ReserveBound s f cap = Inr b"
  obtains mi mo exact comps where
    "ValidateSchedule s = Inr ()" "ValidateFX f = Inr ()" "\<exists>r \<in> set (schedule_rates s). rate_enabled r"
    "0 \<le> cap_input cap" "0 \<le> cap_output cap" "0 \<le> cap_image_inputs cap" "0 \<le> cap_pdf_inputs cap"
    "foldE (bound_step s f cap) (bound_pairs s cap) (0, 0) = Inr (mi, mo)"
    "foldE (media_step s f) [(ImageInput, cap_image_inputs cap), (PDFInput, cap_pdf_inputs cap)]
       (item_charge mi (cap_input cap) 1000000 + item_charge mo (cap_output cap) 1000000,
        (if cap_input cap > 0 then int (length (bound_metrics cap)) else 0) + (if cap_output cap > 0 then 1 else 0))
     = Inr (exact, comps)"
    "b = \<lparr>bound_amount = (if exact = 0 then ''0''
         else rounded (of_int (rounded_up (exact * 10 ^ 18 + of_int comps / 2)) / 10 ^ 18)),
       bound_currency = platform_currency f, bound_capacity = cap, bound_components = comps\<rparr>"
proof -
  have g: "0 \<le> cap_input cap" "0 \<le> cap_output cap" "0 \<le> cap_image_inputs cap" "0 \<le> cap_pdf_inputs cap"
    "ValidateSchedule s = Inr ()" "ValidateFX f = Inr ()" "\<exists>r \<in> set (schedule_rates s). rate_enabled r"
    using assms by (auto simp: ReserveBound_def not_less split: if_splits)
  obtain mi mo where m: "foldE (bound_step s f cap) (bound_pairs s cap) (0, 0) = Inr (mi, mo)"
    using assms g by (auto simp: ReserveBound_def bindE_Inr_iff Let_def simp del: foldE.simps)
  obtain exact comps where e: "foldE (media_step s f) [(ImageInput, cap_image_inputs cap), (PDFInput, cap_pdf_inputs cap)]
       (item_charge mi (cap_input cap) 1000000 + item_charge mo (cap_output cap) 1000000,
        (if cap_input cap > 0 then int (length (bound_metrics cap)) else 0) + (if cap_output cap > 0 then 1 else 0))
     = Inr (exact, comps)"
    using assms g m by (auto simp: ReserveBound_def item_charge_def bindE_Inr_iff Let_def simp del: foldE.simps)
  show ?thesis
  proof (rule that[OF g(5,6,7,1,2,3,4) m e])
    show "b = \<lparr>bound_amount = (if exact = 0 then ''0''
         else rounded (of_int (rounded_up (exact * 10 ^ 18 + of_int comps / 2)) / 10 ^ 18)),
       bound_currency = platform_currency f, bound_capacity = cap, bound_components = comps\<rparr>"
      using assms g m e
      by (simp add: ReserveBound_def item_charge_def Let_def not_less del: foldE.simps split: if_splits)
  qed
qed


text \<open>The metrics a usage can be charged for, the tier it is charged at, and the prices there.\<close>

definition used_price :: "fx \<Rightarrow> (string \<Rightarrow> rate option) \<Rightarrow> string \<Rightarrow> rat" where
  "used_price f rates m =
     (case rates m of None \<Rightarrow> 0
      | Some r \<Rightarrow> (case unit_price f r of Inl _ \<Rightarrow> 0 | Inr p \<Rightarrow> p))"

lemma used_price_Some: "rates m = Some r \<Longrightarrow> unit_price f r = Inr p \<Longrightarrow> used_price f rates m = p"
  by (simp add: used_price_def)

lemma usage_tier_in_bound: "usage_within u cap \<Longrightarrow> usage_tier s u \<in> set (bound_tiers s cap)"
  by (auto simp: usage_tier_def bound_tiers_def usage_within_def)

lemma token_price:
  assumes v: "ValidateSchedule s = Inr ()"
    and fold: "foldE (bound_step s f cap) (bound_pairs s cap) (0, 0) = Inr (mi, mo)"
    and w: "usage_within u cap"
    and m: "m \<in> set (bound_metrics cap @ [Output])" "\<not> skip_metric cap m"
  defines "rates \<equiv> tier_rates s (usage_tier s u)"
  shows "\<exists>r. rates m = Some r \<and> rate_enabled r \<and> unit_price f r = Inr (used_price f rates m)"
    and "0 \<le> used_price f rates m" and "used_price f rates m \<le> (if m = Output then mo else mi)"
proof -
  have "(usage_tier s u, m) \<in> set (bound_pairs s cap)"
    using usage_tier_in_bound[OF w] m(1) by (simp add: set_bound_pairs)
  then have "priced_below s f mi mo (usage_tier s u, m)"
    using bound_fold[OF fold] m(2) by auto
  then obtain r p where rp: "find_rate s (usage_tier s u) m = Some r" "unit_price f r = Inr p"
    "p \<le> (if m = Output then mo else mi)" by (auto simp: priced_below_def)
  have tok: "m \<notin> {ImageInput, PDFInput}" using m(1) by (auto simp: bound_metrics_def)
  have r: "rates m = Some r" unfolding rates_def
    using find_rate_tier_rates[OF v rp(1)] tok by simp
  have p: "used_price f rates m = p" using r rp(2) by (simp add: used_price_def)
  show "\<exists>r. rates m = Some r \<and> rate_enabled r \<and> unit_price f r = Inr (used_price f rates m)"
    using r rp(2) find_rate_Some[OF rp(1)] p by blast
  show "0 \<le> used_price f rates m" unfolding p by (rule unit_price_nonneg[OF rp(2)])
  show "used_price f rates m \<le> (if m = Output then mo else mi)" unfolding p by (rule rp(3))
qed

lemma media_price:
  fixes tier :: string
  assumes v: "ValidateSchedule s = Inr ()" and m: "m \<in> {ImageInput, PDFInput}"
    and r: "\<exists>r. find_rate s BaseTier m = Some r \<and> unit_price f r = Inr p"
  defines "rates \<equiv> tier_rates s tier"
  shows "\<exists>r. rates m = Some r \<and> rate_enabled r \<and> unit_price f r = Inr (used_price f rates m)"
    and "used_price f rates m = p"
proof -
  obtain r where r: "find_rate s BaseTier m = Some r" "unit_price f r = Inr p" using r by blast
  have "rates m = Some r" unfolding rates_def using find_rate_tier_rates[OF v r(1)] m by simp
  then show "used_price f rates m = p"
    and "\<exists>r. rates m = Some r \<and> rate_enabled r \<and> unit_price f r = Inr (used_price f rates m)"
    using r used_price_Some find_rate_Some by blast+
qed

lemma item_charge_mono:
  assumes "q \<le> q'" "0 < d" "0 \<le> M"
  shows "item_charge M q d \<le> item_charge M q' d"
  unfolding item_charge_def using assms
  by (intro mult_left_mono divide_right_mono) simp_all

lemma item_charge_add3:
  "item_charge M a d + item_charge M b d + item_charge M c d = item_charge M (a + b + c) d"
  by (simp add: item_charge_def add_divide_distrib distrib_left)

lemma item_charge_1: "item_charge p q 1 = p * of_int q"
  by (simp add: item_charge_def)

text \<open>The amount of a bound, with the rounding slack of its components.\<close>

lemma bound_amount_value:
  assumes "0 \<le> exact" "0 \<le> comps"
    and "a = (if exact = 0 then ''0''
      else rounded (of_int (rounded_up (exact * 10 ^ 18 + of_int comps / 2)) / 10 ^ 18))"
  shows "exact \<noteq> 0 \<Longrightarrow> exact + of_int comps * half_unit \<le> rat_of_decimal a"
    and "exact = 0 \<Longrightarrow> rat_of_decimal a = 0"
proof -
  show "rat_of_decimal a = 0" if "exact = 0"
    using that by (simp add: assms(3) rat_of_decimal_whole digits_val_Cons)
  show "exact + of_int comps * half_unit \<le> rat_of_decimal a" if "exact \<noteq> 0"
  proof -
    define x :: rat where "x = exact * 10 ^ 18 + of_int comps / 2"
    have x: "0 \<le> x" using assms(1,2) by (simp add: x_def)
    define n where "n = nat (rounded_up x)"
    have n: "rounded_up x = int n" using rounded_up_ge(1)[OF x] by (simp add: n_def)
    have "rat_of_decimal a = rat_of_nat n / 10 ^ 18"
      unfolding assms(3) x_def[symmetric] n using that rounded_exact(2)[of "rat_of_nat n / 10 ^ 18" n] by simp
    moreover have "x \<le> rat_of_nat n" using rounded_up_ge(2)[OF x] by (simp add: n)
    ultimately show ?thesis unfolding x_def half_unit_def by (simp add: field_simps)
  qed
qed


lemma six_terms:
  fixes x1 x2 x3 x4 x5 x6 :: rat
  assumes "x1 \<le> a1 + e1" "x2 \<le> a2 + e2" "x3 \<le> a3 + e3" "x4 \<le> a4 + e4" "x5 \<le> a5 + e5" "x6 \<le> a6 + e6"
    and "a1 + a3 + a4 \<le> A" "a2 \<le> B" "a5 \<le> C" "a6 \<le> D"
    and "e1 + e2 + e3 + e4 + e5 + e6 \<le> E"
  shows "x1 + (x2 + (x3 + (x4 + (x5 + x6)))) \<le> A + B + C + D + E"
  using assms by linarith

text \<open>The dearest price the bound has seen for a metric, and the items of a usage below it.\<close>

definition cap_price :: "rat \<Rightarrow> rat \<Rightarrow> rat \<Rightarrow> rat \<Rightarrow> string \<Rightarrow> rat" where
  "cap_price mi mo p1 p2 m =
     (if m = Output then mo else if m = ImageInput then p1 else if m = PDFInput then p2 else mi)"

definition item_priced :: "fx \<Rightarrow> (string \<Rightarrow> rate option) \<Rightarrow> rat \<Rightarrow> string \<Rightarrow> bool" where
  "item_priced f rates M m \<longleftrightarrow>
     (\<exists>r. rates m = Some r \<and> rate_enabled r \<and> unit_price f r = Inr (used_price f rates m)) \<and>
     0 \<le> used_price f rates m \<and> used_price f rates m \<le> M"

definition usage_priced :: "fx \<Rightarrow> (string \<Rightarrow> rate option) \<Rightarrow> (string \<Rightarrow> rat) \<Rightarrow> usage \<Rightarrow> bool" where
  "usage_priced f rates P u \<longleftrightarrow>
     (\<forall>(m, q, d) \<in> set (usage_items u). q \<noteq> 0 \<longrightarrow> item_priced f rates (P m) m)"

definition capped_quantity :: "capacity \<Rightarrow> string \<Rightarrow> int" where
  "capped_quantity cap m =
     (if m = Output then cap_output cap else if m = ImageInput then cap_image_inputs cap
      else if m = PDFInput then cap_pdf_inputs cap else cap_input cap)"

lemma usage_items_cases:
  assumes "usage_within u cap" "(m, q, d) \<in> set (usage_items u)"
  shows "0 \<le> q" "0 < d" "q \<le> capped_quantity cap m"
    and "m \<in> {ImageInput, PDFInput} \<or> m \<in> set (bound_metrics cap @ [Output]) \<or> q = 0"
proof -
  have u: "0 \<le> input_tokens u - cache_read_tokens u - cache_write_tokens u" "0 \<le> output_tokens u"
    "0 \<le> cache_read_tokens u" "0 \<le> cache_write_tokens u" "0 \<le> image_inputs u" "0 \<le> pdf_inputs u"
    "input_tokens u \<le> cap_input cap" "output_tokens u \<le> cap_output cap"
    "image_inputs u \<le> cap_image_inputs cap" "pdf_inputs u \<le> cap_pdf_inputs cap"
    "0 < cache_read_tokens u \<Longrightarrow> cap_cache_read cap" "0 < cache_write_tokens u \<Longrightarrow> cap_cache_write cap"
    using assms(1) by (auto simp: usage_within_def valid_usage_def)
  show "0 \<le> q" "0 < d" using assms(2) u by (auto simp: usage_items_def)
  show "q \<le> capped_quantity cap m" using assms(2) u by (auto simp: usage_items_def capped_quantity_def)
  show "m \<in> {ImageInput, PDFInput} \<or> m \<in> set (bound_metrics cap @ [Output]) \<or> q = 0"
    using assms(2) u by (auto simp: usage_items_def bound_metrics_def)
qed

lemma items_priced:
  assumes "ValidateSchedule s = Inr ()"
    and "foldE (bound_step s f cap) (bound_pairs s cap) (0, 0) = Inr (mi, mo)"
    and media: "cap_image_inputs cap \<noteq> 0 \<longrightarrow> (\<exists>r. find_rate s BaseTier ImageInput = Some r \<and> unit_price f r = Inr p1)"
      "cap_pdf_inputs cap \<noteq> 0 \<longrightarrow> (\<exists>r. find_rate s BaseTier PDFInput = Some r \<and> unit_price f r = Inr p2)"
    and "0 \<le> p1" "0 \<le> p2" and w: "usage_within u cap"
    and i: "(m, q, d) \<in> set (usage_items u)" "q \<noteq> 0"
  shows "item_priced f (tier_rates s (usage_tier s u)) (cap_price mi mo p1 p2 m) m"
proof -
  note c = usage_items_cases[OF w i(1)]
  consider (img) "m = ImageInput" | (pdf) "m = PDFInput"
    | (tok) "m \<in> set (bound_metrics cap @ [Output])" using c(4) i(2) by auto
  then show ?thesis
  proof cases
    case img
    then have "cap_image_inputs cap \<noteq> 0" using c(1,3) i(2) by (simp add: capped_quantity_def)
    then have "\<exists>r. find_rate s BaseTier m = Some r \<and> unit_price f r = Inr p1" using media(1) img by simp
    note media_price[OF assms(1) _ this, of "usage_tier s u"]
    then show ?thesis using img \<open>0 \<le> p1\<close> by (simp add: item_priced_def cap_price_def)
  next
    case pdf
    then have "cap_pdf_inputs cap \<noteq> 0" using c(1,3) i(2) by (simp add: capped_quantity_def)
    then have "\<exists>r. find_rate s BaseTier m = Some r \<and> unit_price f r = Inr p2" using media(2) pdf by simp
    note media_price[OF assms(1) _ this, of "usage_tier s u"]
    then show ?thesis using pdf \<open>0 \<le> p2\<close> by (simp add: item_priced_def cap_price_def)
  next
    case tok
    then have m: "m \<noteq> ImageInput" "m \<noteq> PDFInput" by (auto simp: bound_metrics_def)
    then have "\<not> skip_metric cap m" using c(1,3) i(2) by (auto simp: capped_quantity_def skip_metric_def)
    from token_price[OF assms(1,2) w tok this] show ?thesis
      using m by (simp add: item_priced_def cap_price_def split: if_splits)
  qed
qed

definition charge_sum :: "fx \<Rightarrow> (string \<Rightarrow> rate option) \<Rightarrow> usage \<Rightarrow> rat" where
  "charge_sum f rates u = (\<Sum>(m, q, d) \<leftarrow> usage_items u. item_value (used_price f rates m) q d)"

lemma charge_sum_fold:
  assumes "usage_priced f rates P u"
  shows "\<exists>cs. foldE (charge_step f rates) (usage_items u) (0, []) = Inr (charge_sum f rates u, cs)"
proof -
  have "\<exists>cs. foldE (charge_step f rates) (usage_items u) (0, []) =
      Inr (0 + (\<Sum>(m, q, d) \<leftarrow> usage_items u. item_value (used_price f rates m) q d), cs)"
    by (rule charge_fold_prices) (use assms in \<open>auto simp: usage_priced_def item_priced_def\<close>)
  then show ?thesis by (simp add: charge_sum_def)
qed

text \<open>At most one rounded component for each metric the capacity admits.\<close>

definition slack :: "int \<Rightarrow> rat" where "slack q = (if q = 0 then 0 else half_unit)"

definition cap_components :: "capacity \<Rightarrow> int" where
  "cap_components cap =
     (if cap_input cap > 0 then int (length (bound_metrics cap)) else 0) + (if cap_output cap > 0 then 1 else 0) +
     (if cap_image_inputs cap = 0 then 0 else 1) + (if cap_pdf_inputs cap = 0 then 0 else 1)"

lemma slack_components:
  assumes "usage_within u cap"
  shows "(\<Sum>(m, q, d) \<leftarrow> usage_items u. slack q) \<le> of_int (cap_components cap) * half_unit"
proof -
  define c :: "int \<Rightarrow> int" where "c = (\<lambda>q. if q = 0 then 0 else 1)"
  have "(\<Sum>(m, q, d) \<leftarrow> usage_items u. slack q) = of_int (\<Sum>(m, q, d) \<leftarrow> usage_items u. c q) * half_unit"
    by (simp add: usage_items_def slack_def c_def)
  moreover have "(\<Sum>(m, q, d) \<leftarrow> usage_items u. c q) \<le> cap_components cap"
    using assms by (auto simp: usage_items_def c_def cap_components_def bound_metrics_def usage_within_def valid_usage_def)
  then have "rat_of_int (\<Sum>(m, q, d) \<leftarrow> usage_items u. c q) * half_unit \<le> of_int (cap_components cap) * half_unit"
    using half_unit_pos by (intro mult_right_mono) (simp_all only: of_int_le_iff less_imp_le)
  ultimately show ?thesis by simp
qed

text \<open>The exact part of the bound covers the exact charges.\<close>

definition cap_exact :: "rat \<Rightarrow> rat \<Rightarrow> rat \<Rightarrow> rat \<Rightarrow> capacity \<Rightarrow> rat" where
  "cap_exact mi mo p1 p2 cap =
     item_charge mi (cap_input cap) 1000000 + item_charge mo (cap_output cap) 1000000 +
     p1 * of_int (cap_image_inputs cap) + p2 * of_int (cap_pdf_inputs cap)"

lemma cap_exact_covers:
  assumes w: "usage_within u cap" and "0 \<le> mi" "0 \<le> mo" "0 \<le> p1" "0 \<le> p2"
  shows "(\<Sum>(m, q, d) \<leftarrow> usage_items u. item_charge (cap_price mi mo p1 p2 m) q d) \<le> cap_exact mi mo p1 p2 cap"
proof -
  have "item_charge mi (input_tokens u - cache_read_tokens u - cache_write_tokens u) 1000000 +
      item_charge mi (cache_read_tokens u) 1000000 + item_charge mi (cache_write_tokens u) 1000000
      \<le> item_charge mi (cap_input cap) 1000000"
    unfolding item_charge_add3 using assms(2) w
    by (intro item_charge_mono) (simp_all add: usage_within_def)
  moreover have "item_charge mo (output_tokens u) 1000000 \<le> item_charge mo (cap_output cap) 1000000"
    using assms(3) w by (intro item_charge_mono) (simp_all add: usage_within_def)
  moreover have "p1 * of_int (image_inputs u) \<le> p1 * of_int (cap_image_inputs cap)"
    "p2 * of_int (pdf_inputs u) \<le> p2 * of_int (cap_pdf_inputs cap)"
    using assms(4,5) w by (auto simp: usage_within_def intro!: mult_left_mono)
  ultimately show ?thesis
    unfolding usage_items_def cap_exact_def
    by (simp add: cap_price_def item_charge_1)
qed

lemma charge_sum_le:
  assumes w: "usage_within u cap" and nn: "0 \<le> mi" "0 \<le> mo" "0 \<le> p1" "0 \<le> p2"
    and p: "usage_priced f rates (cap_price mi mo p1 p2) u"
  shows "charge_sum f rates u \<le> cap_exact mi mo p1 p2 cap + of_int (cap_components cap) * half_unit"
    and "cap_exact mi mo p1 p2 cap = 0 \<Longrightarrow> charge_sum f rates u = 0"
    and "0 \<le> cap_exact mi mo p1 p2 cap"
proof -
  let ?P = "cap_price mi mo p1 p2"
  have P: "0 \<le> ?P m" for m using nn by (simp add: cap_price_def)
  have b: "item_value (used_price f rates m) q d \<le> item_charge (?P m) q d + slack q"
      "item_charge (?P m) q d = 0 \<Longrightarrow> item_value (used_price f rates m) q d = 0"
      "0 \<le> item_charge (?P m) q d"
    if i: "(m, q, d) \<in> set (usage_items u)" for m q d
  proof -
    have pr: "q \<noteq> 0 \<Longrightarrow> 0 \<le> used_price f rates m \<and> used_price f rates m \<le> ?P m"
      using p i by (auto simp: usage_priced_def item_priced_def)
    note item_value_bounds[OF usage_items_cases(1,2)[OF w i] pr P]
    then show "item_value (used_price f rates m) q d \<le> item_charge (?P m) q d + slack q"
      "item_charge (?P m) q d = 0 \<Longrightarrow> item_value (used_price f rates m) q d = 0"
      "0 \<le> item_charge (?P m) q d" by (simp_all add: slack_def)
  qed
  let ?C = "\<Sum>(m, q, d) \<leftarrow> usage_items u. item_charge (?P m) q d"
  have C: "?C \<le> cap_exact mi mo p1 p2 cap" by (rule cap_exact_covers[OF w nn])
  have C0: "0 \<le> ?C" using b(3) by (auto intro!: sum_list_nonneg)
  have "charge_sum f rates u \<le> (\<Sum>(m, q, d) \<leftarrow> usage_items u. item_charge (?P m) q d + slack q)"
    unfolding charge_sum_def using b(1) by (intro sum_list_mono) auto
  also have "\<dots> = ?C + (\<Sum>(m, q, d) \<leftarrow> usage_items u. slack q)"
    by (simp add: usage_items_def)
  finally show "charge_sum f rates u \<le> cap_exact mi mo p1 p2 cap + of_int (cap_components cap) * half_unit"
    using C slack_components[OF w] by linarith
  show "0 \<le> cap_exact mi mo p1 p2 cap" using C C0 by linarith
  show "charge_sum f rates u = 0" if z: "cap_exact mi mo p1 p2 cap = 0"
  proof -
    have "?C = 0" using C C0 z by linarith
    then have "\<forall>x \<in> set (map (\<lambda>(m, q, d). item_charge (?P m) q d) (usage_items u)). x = 0"
      using b(3) by (subst sum_list_nonneg_eq_0_iff[symmetric]) auto
    then have "\<forall>x \<in> set (map (\<lambda>(m, q, d). item_value (used_price f rates m) q d) (usage_items u)). x = 0"
      using b(2) by auto
    then show ?thesis unfolding charge_sum_def by (rule sum_list_zeros)
  qed
qed

lemma charge_sum_units:
  assumes "usage_within u cap"
    and "foldE (charge_step f rates) (usage_items u) (0, []) = Inr (charge_sum f rates u, cs)"
  shows "rat_of_decimal (rounded (charge_sum f rates u)) = charge_sum f rates u"
proof -
  have "\<forall>(m, q, d) \<in> set (usage_items u). 0 \<le> q \<and> 0 < d" using usage_items_cases(1,2)[OF assms(1)] by auto
  then obtain n where "charge_sum f rates u = rat_of_nat n / 10 ^ 18"
    using charge_fold_units[OF assms(2), of 0] by auto
  then show ?thesis by (rule rounded_exact(2))
qed

text \<open>The whole of a successful bound: its maxima, its exact part and its amount.\<close>

lemma ReserveBound_parts:
  assumes "ReserveBound s f cap = Inr b"
  obtains mi mo p1 p2 where
    "foldE (bound_step s f cap) (bound_pairs s cap) (0, 0) = Inr (mi, mo)"
    "cap_image_inputs cap \<noteq> 0 \<longrightarrow> (\<exists>r. find_rate s BaseTier ImageInput = Some r \<and> unit_price f r = Inr p1)"
    "cap_pdf_inputs cap \<noteq> 0 \<longrightarrow> (\<exists>r. find_rate s BaseTier PDFInput = Some r \<and> unit_price f r = Inr p2)"
    "0 \<le> mi" "0 \<le> mo" "0 \<le> p1" "0 \<le> p2" "bound_currency b = platform_currency f"
    "bound_amount b = (if cap_exact mi mo p1 p2 cap = 0 then ''0''
       else rounded (of_int (rounded_up (cap_exact mi mo p1 p2 cap * 10 ^ 18 + of_int (cap_components cap) / 2)) / 10 ^ 18))"
proof (rule ReserveBound_Inr[OF assms])
  fix mi mo exact comps
  assume R: "foldE (bound_step s f cap) (bound_pairs s cap) (0, 0) = Inr (mi, mo)"
    "foldE (media_step s f) [(ImageInput, cap_image_inputs cap), (PDFInput, cap_pdf_inputs cap)]
       (item_charge mi (cap_input cap) 1000000 + item_charge mo (cap_output cap) 1000000,
        (if cap_input cap > 0 then int (length (bound_metrics cap)) else 0) + (if cap_output cap > 0 then 1 else 0))
     = Inr (exact, comps)"
    "b = \<lparr>bound_amount = (if exact = 0 then ''0''
         else rounded (of_int (rounded_up (exact * 10 ^ 18 + of_int comps / 2)) / 10 ^ 18)),
       bound_currency = platform_currency f, bound_capacity = cap, bound_components = comps\<rparr>"
  have mm: "0 \<le> mi" "0 \<le> mo" using bound_fold[OF R(1)] by auto
  show thesis
  proof (rule media_fold[OF R(2)])
    fix p1 p2
    assume e: "exact = item_charge mi (cap_input cap) 1000000 + item_charge mo (cap_output cap) 1000000 +
        p1 * of_int (cap_image_inputs cap) + p2 * of_int (cap_pdf_inputs cap)"
      and c: "comps = (if cap_input cap > 0 then int (length (bound_metrics cap)) else 0) +
        (if cap_output cap > 0 then 1 else 0) + (if cap_image_inputs cap = 0 then 0 else 1) +
        (if cap_pdf_inputs cap = 0 then 0 else 1)"
      and p: "cap_image_inputs cap \<noteq> 0 \<longrightarrow> (\<exists>r. find_rate s BaseTier ImageInput = Some r \<and> unit_price f r = Inr p1)"
        "cap_pdf_inputs cap \<noteq> 0 \<longrightarrow> (\<exists>r. find_rate s BaseTier PDFInput = Some r \<and> unit_price f r = Inr p2)"
        "0 \<le> p1" "0 \<le> p2"
    show thesis
    proof (rule that[OF R(1) p(1,2) mm p(3,4)])
      have "exact = cap_exact mi mo p1 p2 cap" "comps = cap_components cap"
        unfolding e c cap_exact_def cap_components_def by (rule refl)+
      then show "bound_amount b = (if cap_exact mi mo p1 p2 cap = 0 then ''0''
          else rounded (of_int (rounded_up (cap_exact mi mo p1 p2 cap * 10 ^ 18 + of_int (cap_components cap) / 2)) / 10 ^ 18))"
        using R(3) by simp
    qed (simp add: R(3))
  qed
qed

section \<open>Magnitudes\<close>

lemma rational_less:
  assumes "rational v = Inr r"
  shows "r < 10 ^ 18"
proof -
  have m: "decimal_match 17 v" and r: "r = rat_of_decimal v" using assms by (auto simp: rational_Inr)
  have nat: "rat_of_nat n < 10 ^ k" if "n < 10 ^ k" for n k
    using that by (metis of_nat_less_iff of_nat_numeral of_nat_power)
  have pow: "(10::rat) ^ k \<le> 10 ^ 18" if "k \<le> Suc 17" for k
    using that by (intro power_increasing) simp_all
  show ?thesis using m
  proof (cases rule: decimal_match_cases)
    case whole
    have "r < 10 ^ length v"
      unfolding r rat_of_decimal_whole[OF whole(1)] by (rule nat[OF digits_val_less[OF whole(1)]])
    then show ?thesis using pow[OF whole(3)] by (rule less_le_trans)
  next
    case (frac w f)
    have "digits_val (w @ f) < 10 ^ (length w + length f)"
      using digits_val_less[of "w @ f"] frac(2,5) by simp
    then have "rat_of_nat (digits_val (w @ f)) < 10 ^ length w * 10 ^ length f"
      using nat by (metis power_add)
    then have "r < 10 ^ length w"
      unfolding r frac(1) rat_of_decimal_frac[OF frac(2)] by (simp add: divide_less_eq)
    then show ?thesis using pow[OF frac(4)] by (rule less_le_trans)
  qed
qed

lemma unit_price_less: "unit_price f r = Inr p \<Longrightarrow> p \<le> 10 ^ 36"
proof -
  assume "unit_price f r = Inr p"
  then obtain ex a e where r: "rational (rate_amount r) = Inr a" "rational ex = Inr e" and p: "p = a * e"
    by (auto simp: unit_price_def bindE_Inr_iff)
  have "a * e \<le> 10 ^ 18 * 10 ^ 18"
    by (rule mult_mono) (use rational_less[OF r(1)] rational_less[OF r(2)] rational_nonneg[OF r(2)] in simp_all)
  then show ?thesis by (simp add: p)
qed

lemma bound_fold_less:
  assumes "foldE (bound_step s f cap) tms (0, 0) = Inr (mi, mo)"
  shows "mi \<le> 10 ^ 36" "mo \<le> 10 ^ 36"
proof -
  have "(\<lambda>(mi, mo). mi \<le> 10 ^ 36 \<and> mo \<le> (10::rat) ^ 36) (mi, mo)"
    by (rule foldE_invariant[OF assms])
      (auto simp: bound_step_def bindE_Inr_iff dest!: unit_price_less split: if_splits option.splits prod.splits)
  then show "mi \<le> 10 ^ 36" "mo \<le> 10 ^ 36" by simp_all
qed

definition int64_capacity :: "capacity \<Rightarrow> bool" where
  "int64_capacity cap \<longleftrightarrow> cap_input cap \<le> max_int64 \<and> cap_output cap \<le> max_int64 \<and>
     cap_image_inputs cap \<le> max_int64 \<and> cap_pdf_inputs cap \<le> max_int64"

lemma capped_product:
  fixes p :: rat
  assumes "0 \<le> p" "p \<le> 10 ^ 36" "0 \<le> q" "q \<le> max_int64"
  shows "p * of_int q \<le> 10 ^ 55"
proof -
  have "rat_of_int q \<le> of_int max_int64" using assms(4) by (simp only: of_int_le_iff)
  then have "rat_of_int q \<le> 10 ^ 19" by (simp add: max_int64_def)
  then have "p * of_int q \<le> 10 ^ 36 * 10 ^ 19" using assms by (intro mult_mono) simp_all
  then show ?thesis by simp
qed

lemma cap_exact_less:
  assumes "int64_capacity cap" "0 \<le> cap_input cap" "0 \<le> cap_output cap" "0 \<le> cap_image_inputs cap" "0 \<le> cap_pdf_inputs cap"
    and "0 \<le> mi" "mi \<le> 10 ^ 36" "0 \<le> mo" "mo \<le> 10 ^ 36"
    and "cap_image_inputs cap \<noteq> 0 \<longrightarrow> 0 \<le> p1 \<and> p1 \<le> 10 ^ 36" "cap_pdf_inputs cap \<noteq> 0 \<longrightarrow> 0 \<le> p2 \<and> p2 \<le> 10 ^ 36"
  shows "cap_exact mi mo p1 p2 cap \<le> 4 * 10 ^ 55"
proof -
  have q: "cap_input cap \<le> max_int64" "cap_output cap \<le> max_int64" "cap_image_inputs cap \<le> max_int64" "cap_pdf_inputs cap \<le> max_int64"
    using assms(1) by (auto simp: int64_capacity_def)
  have mil: "p * (of_int q / 1000000) \<le> p * of_int q" if "0 \<le> p" "0 \<le> q" for p :: rat and q
    using that by (intro mult_left_mono) (simp_all add: divide_le_eq)
  have "item_charge mi (cap_input cap) 1000000 \<le> 10 ^ 55" "item_charge mo (cap_output cap) 1000000 \<le> 10 ^ 55"
    unfolding item_charge_def of_int_numeral
    using mil[of mi "cap_input cap"] capped_product[of mi "cap_input cap"]
      mil[of mo "cap_output cap"] capped_product[of mo "cap_output cap"] assms q by auto
  moreover have "p1 * of_int (cap_image_inputs cap) \<le> 10 ^ 55" "p2 * of_int (cap_pdf_inputs cap) \<le> 10 ^ 55"
    using capped_product[of p1 "cap_image_inputs cap"] capped_product[of p2 "cap_pdf_inputs cap"] assms q
    by (cases "cap_image_inputs cap = 0"; cases "cap_pdf_inputs cap = 0"; simp)+
  ultimately show ?thesis unfolding cap_exact_def by linarith
qed

lemma cap_components_le: "cap_components cap \<le> 6"
  by (simp add: cap_components_def bound_metrics_def)

section \<open>The contract of the bound\<close>

text \<open>C3. The contract of \<open>ReserveBound\<close>: when it returns a bound for a capacity, every usage within
  that capacity is priced by \<open>Calculate\<close>, in the same currency, and the total of its quote,
  rounding included, is at most the amount of the bound. So a reservation of the bound covers
  whatever the call turns out to cost, in whichever tier it lands.\<close>
theorem ReserveBound_dominates_usage:
  assumes bound: "ReserveBound s f cap = Inr b" and w: "usage_within u cap"
  shows "\<exists>q. Calculate s f u = Inr q \<and> quote_currency q = bound_currency b \<and>
    rat_of_decimal (quote_total q) \<le> rat_of_decimal (bound_amount b)"
proof -
  obtain mi mo p1 p2 where P:
    "foldE (bound_step s f cap) (bound_pairs s cap) (0, 0) = Inr (mi, mo)"
    "cap_image_inputs cap \<noteq> 0 \<longrightarrow> (\<exists>r. find_rate s BaseTier ImageInput = Some r \<and> unit_price f r = Inr p1)"
    "cap_pdf_inputs cap \<noteq> 0 \<longrightarrow> (\<exists>r. find_rate s BaseTier PDFInput = Some r \<and> unit_price f r = Inr p2)"
    and nn: "0 \<le> mi" "0 \<le> mo" "0 \<le> p1" "0 \<le> p2" and cur: "bound_currency b = platform_currency f"
    and amount: "bound_amount b = (if cap_exact mi mo p1 p2 cap = 0 then ''0''
       else rounded (of_int (rounded_up (cap_exact mi mo p1 p2 cap * 10 ^ 18 + of_int (cap_components cap) / 2)) / 10 ^ 18))"
    by (rule ReserveBound_parts[OF bound])
  have V: "ValidateSchedule s = Inr ()" "ValidateFX f = Inr ()" "\<exists>r \<in> set (schedule_rates s). rate_enabled r"
    using bound by (auto simp: ReserveBound_def split: if_splits)
  define rates where "rates = tier_rates s (usage_tier s u)"
  let ?V = "charge_sum f rates u"
  have priced: "usage_priced f rates (cap_price mi mo p1 p2) u"
    unfolding rates_def usage_priced_def using items_priced[OF V(1) P nn(3,4) w] by auto
  obtain cs where fold: "foldE (charge_step f rates) (usage_items u) (0, []) = Inr (?V, cs)"
    using charge_sum_fold[OF priced] by blast
  have "\<exists>q. Calculate s f u = Inr q \<and> quote_total q = rounded ?V \<and> quote_currency q = platform_currency f"
    using V w fold by (simp add: Calculate_def usage_within_def rates_def Let_def)
  moreover have "rat_of_decimal (rounded ?V) = ?V" by (rule charge_sum_units[OF w fold])
  moreover have "?V \<le> rat_of_decimal (bound_amount b)"
  proof -
    have "0 \<le> cap_components cap" by (simp add: cap_components_def)
    note bound_amount_value[OF charge_sum_le(3)[OF w nn priced] this amount]
    then show ?thesis using charge_sum_le(1,2)[OF w nn priced]
      by (cases "cap_exact mi mo p1 p2 cap = 0") auto
  qed
  ultimately show ?thesis using cur by auto
qed


definition demo_capacity :: capacity where
  "demo_capacity = \<lparr>cap_input = 250000, cap_output = 2000, cap_image_inputs = 0, cap_pdf_inputs = 0,
     cap_cache_read = False, cap_cache_write = False\<rparr>"

definition demo_bound :: bound_quote where
  "demo_bound = \<lparr>bound_amount = ''0.144480000000000001'', bound_currency = ''USD'',
     bound_capacity = demo_capacity, bound_components = 2\<rparr>"

lemma demo_ReserveBound: "ReserveBound demo_schedule demo_fx demo_capacity = Inr demo_bound"
proof -
  have find: "find_rate demo_schedule BaseTier Input = Some (demo_rate Input BaseTier ''2'')"
    "find_rate demo_schedule BaseTier Output = Some (demo_rate Output BaseTier ''8.50'')"
    "find_rate demo_schedule LongTier Input = Some (demo_rate Input LongTier ''4'')"
    "find_rate demo_schedule LongTier Output = Some (demo_rate Output LongTier ''16'')"
    by (simp_all add: find_rate_def demo_schedule_def demo_rate_def)
  have price: "unit_price demo_fx (demo_rate m t a) = bindE (rational a) (\<lambda>x. Inr (x * (7 / 50)))" for m t a
    by (simp add: unit_price_def exchange_rate_def demo_rate_def demo_fx_def orE_def demo_rational)
  have pairs: "bound_pairs demo_schedule demo_capacity =
      [(BaseTier, Input), (BaseTier, Output), (LongTier, Input), (LongTier, Output)]"
    by (simp add: bound_pairs_def bound_tiers_def bound_metrics_def demo_schedule_def demo_capacity_def)
  have fold: "foldE (bound_step demo_schedule demo_fx demo_capacity) (bound_pairs demo_schedule demo_capacity) (0, 0)
      = Inr (14 / 25, 56 / 25)"
    unfolding pairs by (simp add: bound_step_def skip_metric_def find price demo_rational demo_capacity_def)
  have media: "foldE (media_step demo_schedule demo_fx) [(ImageInput, 0), (PDFInput, 0)] acc = Inr acc" for acc
    by (cases acc) (simp add: media_step_def)
  have up: "rounded_up 144480000000000001 = 144480000000000001"
    by (simp add: rounded_up_def quo_trunc_def)
  have printed: "rounded (144480000000000001 / 10 ^ 18) = ''0.144480000000000001''"
    by (subst rounded_exact(1)[of _ 144480000000000001]) (simp_all add: print_units)
  have some: "\<exists>r \<in> set (schedule_rates demo_schedule). rate_enabled r"
    by (simp add: demo_schedule_def demo_rate_def)
  show ?thesis
    using demo_valid fold media up printed some
    by (simp add: ReserveBound_def demo_capacity_def bound_metrics_def demo_bound_def demo_fx_def)
qed

lemma ReserveBound_dominates_usage_witness:
  "usage_within demo_usage demo_capacity \<and>
   (\<exists>q. Calculate demo_schedule demo_fx demo_usage = Inr q \<and> quote_currency q = ''USD'' \<and>
     rat_of_decimal (quote_total q) \<le> rat_of_decimal ''0.144480000000000001'')"
proof -
  have w: "usage_within demo_usage demo_capacity" by code_simp
  from ReserveBound_dominates_usage[OF demo_ReserveBound w] w show ?thesis by (simp add: demo_bound_def)
qed

text \<open>A bound for a capacity of \<open>int64\<close> counts is an amount the quota journal accepts: it reads as a
  whole number of units of the eighteenth digit, below \<open>10\<^sup>7\<^sup>8\<close>, so a reservation is never refused
  for the shape of its amount.\<close>
theorem ReserveBound_amount_accepted:
  assumes bound: "ReserveBound s f cap = Inr b" and cap: "int64_capacity cap"
  shows "\<exists>u. quotaUnits (bound_amount b) = Some u \<and> 0 \<le> u \<and> u < 10 ^ 78"
proof -
  obtain mi mo p1 p2 where P:
    "foldE (bound_step s f cap) (bound_pairs s cap) (0, 0) = Inr (mi, mo)"
    "cap_image_inputs cap \<noteq> 0 \<longrightarrow> (\<exists>r. find_rate s BaseTier ImageInput = Some r \<and> unit_price f r = Inr p1)"
    "cap_pdf_inputs cap \<noteq> 0 \<longrightarrow> (\<exists>r. find_rate s BaseTier PDFInput = Some r \<and> unit_price f r = Inr p2)"
    and nn: "0 \<le> mi" "0 \<le> mo" "0 \<le> p1" "0 \<le> p2"
    and amount: "bound_amount b = (if cap_exact mi mo p1 p2 cap = 0 then ''0''
       else rounded (of_int (rounded_up (cap_exact mi mo p1 p2 cap * 10 ^ 18 + of_int (cap_components cap) / 2)) / 10 ^ 18))"
    by (rule ReserveBound_parts[OF bound])
  have c: "0 \<le> cap_input cap" "0 \<le> cap_output cap" "0 \<le> cap_image_inputs cap" "0 \<le> cap_pdf_inputs cap"
    using bound by (auto simp: ReserveBound_def not_less split: if_splits)
  define x where "x = cap_exact mi mo p1 p2 cap * 10 ^ 18 + of_int (cap_components cap) / 2"
  have ex: "cap_exact mi mo p1 p2 cap \<le> 4 * 10 ^ 55"
    using cap_exact_less[OF cap c nn(1) bound_fold_less(1)[OF P(1)] nn(2) bound_fold_less(2)[OF P(1)]]
      P(2,3) unit_price_less nn(3,4) by blast
  have "0 \<le> cap_exact mi mo p1 p2 cap"
    using nn c by (auto simp: cap_exact_def item_charge_def)
  then have x0: "0 \<le> x" by (simp add: x_def cap_components_def)
  have "rat_of_int (cap_components cap) \<le> 6" using cap_components_le[of cap] by simp
  then have x1: "x \<le> 4 * 10 ^ 73 + 3" using ex by (simp add: x_def)
  define n where "n = nat (rounded_up x)"
  have n: "rounded_up x = int n" using rounded_up_ge(1)[OF x0] by (simp add: n_def)
  have "rat_of_int (rounded_up x) < 10 ^ 78"
    using rounded_up_ge(3)[OF x0] x1 by simp
  then have "rounded_up x < 10 ^ 78" by (metis of_int_less_iff of_int_numeral of_int_power)
  then have lt: "n < 10 ^ 78" unfolding n by (metis of_nat_less_iff of_nat_numeral of_nat_power)
  show ?thesis
  proof (cases "cap_exact mi mo p1 p2 cap = 0")
    case True
    then have "bound_amount b = ''0''" by (simp add: amount)
    moreover have "quotaUnits ''0'' = Some 0" by code_simp
    ultimately show ?thesis by simp
  next
    case False
    have "bound_amount b = units_text (nat_digits n)"
      unfolding amount x_def[symmetric] n using False rounded_exact(1)[of "rat_of_nat n / 10 ^ 18" n] by simp
    then show ?thesis using quotaUnits_units_text[OF lt] lt by (simp add: of_nat_less_numeral_power_cancel_iff)
  qed
qed


lemma ReserveBound_amount_accepted_witness:
  "\<exists>u. quotaUnits ''0.144480000000000001'' = Some u \<and> 0 \<le> u \<and> u < 10 ^ 78"
proof -
  have "int64_capacity demo_capacity" by code_simp
  from ReserveBound_amount_accepted[OF demo_ReserveBound this] show ?thesis by (simp add: demo_bound_def)
qed

end
