(* ===== verification/Decimal_Facts.thy ===== *)
theory Decimal_Facts
  imports Decimals
begin

text \<open>
  The properties of the decimal texts of \<open>pkg/pricing/decimal.go\<close>: canonical form, rounding and
  the exchange of amounts with the quota journal.
\<close>

section \<open>Canonical texts\<close>

lemma digits_val_inj:
  assumes "length s = length t" "list_all is_digit s" "list_all is_digit t" "digits_val s = digits_val t"
  shows "s = t"
  using assms
proof (induction s t rule: list_induct2)
  case Nil
  then show ?case by simp
next
  case (Cons x xs y ys)
  have d: "is_digit x" "is_digit y" "list_all is_digit xs" "list_all is_digit ys" using Cons.prems by simp_all
  have eq: "digit_val x * 10 ^ length ys + digits_val xs = digit_val y * 10 ^ length ys + digits_val ys"
    using Cons.prems(3) Cons.hyps by (simp add: digits_val_Cons)
  have less: "digits_val xs < 10 ^ length ys" "digits_val ys < 10 ^ length ys"
    using digits_val_less[OF d(3)] digits_val_less[OF d(4)] Cons.hyps by simp_all
  have "(digit_val x * 10 ^ length ys + digits_val xs) div 10 ^ length ys = digit_val x"
    "(digit_val y * 10 ^ length ys + digits_val ys) div 10 ^ length ys = digit_val y"
    using less by simp_all
  then have "digit_val x = digit_val y" using eq by metis
  then show ?case using eq Cons.IH d digit_char_val by (metis add_left_cancel)
qed

lemma nat_digits_digits_val:
  assumes "list_all is_digit s" "s \<noteq> []" "hd s \<noteq> CHR ''0''"
  shows "nat_digits (digits_val s) = s"
  using assms
proof (induction s rule: rev_induct)
  case Nil
  then show ?case by simp
next
  case (snoc c s)
  have c: "digit_val c < 10" "is_digit c" using snoc.prems digit_val_less by simp_all
  show ?case
  proof (cases "s = []")
    case True
    then show ?thesis using c by (simp add: digits_val_Cons nat_digits_small digit_char_val)
  next
    case False
    have s: "list_all is_digit s" "hd s \<noteq> CHR ''0''" using snoc.prems False by simp_all
    have pos: "0 < digits_val s"
    proof (cases s)
      case (Cons x xs)
      then have "is_digit x" "x \<noteq> CHR ''0''" using s by simp_all
      then have "0 < digit_val x" using digit_val_eq_0_iff by auto
      then show ?thesis by (simp add: Cons digits_val_Cons)
    qed (use False in simp)
    have v: "digits_val (s @ [c]) = 10 * digits_val s + digit_val c"
      by (simp add: digits_val_append digits_val_Cons)
    have "\<not> digits_val (s @ [c]) < 10" using pos v by simp
    moreover have "digits_val (s @ [c]) div 10 = digits_val s" "digits_val (s @ [c]) mod 10 = digit_val c"
      using v c(1) by simp_all
    ultimately show ?thesis
      using snoc.IH[OF s(1) False s(2)] c(2) by (simp add: nat_digits_step digit_char_val)
  qed
qed

lemma trim_right_zeros: "trim_right c (s @ replicate n c) = trim_right c s"
proof (induction n)
  case (Suc n)
  then show ?case by (simp add: replicate_append_same[symmetric] trim_right_snoc flip: append_assoc)
qed simp

text \<open>A whole part without leading zeros and a fraction of 18 digits are the text of their units.\<close>

lemma units_text_join:
  assumes w: "list_all is_digit w" "w \<noteq> []" "w = ''0'' \<or> hd w \<noteq> CHR ''0''"
    and f: "list_all is_digit f" "length f = 18"
  shows "units_text (nat_digits (digits_val (w @ f)))
    = trim_right CHR ''.'' (trim_right CHR ''0'' (w @ CHR ''.'' # f))"
proof -
  let ?d = "nat_digits (digits_val (w @ f))"
  obtain w' f' where wf: "list_all is_digit w'" "w' \<noteq> []" "list_all is_digit f'" "length f' = 18"
    "digits_val (w' @ f') = digits_val (w @ f)" "length w' = max 1 (length ?d - 18)"
    "units_text ?d = trim_right CHR ''.'' (trim_right CHR ''0'' (w' @ CHR ''.'' # f'))"
    "length ?d > 18 \<Longrightarrow> w' @ f' = ?d" "length ?d \<le> 18 \<Longrightarrow> w' = ''0''"
    using units_text_split[of ?d] by (metis digits_val_nat_digits nat_digits_all nat_digits_nonempty)
  have "length w' = length w"
  proof (cases "w = ''0''")
    case True
    then have "digits_val (w @ f) < 10 ^ 18"
      using digits_val_less[OF f(1)] f(2) by (simp add: digits_val_Cons)
    then have "length ?d \<le> 18"
      using nat_digits_length[of "digits_val (w @ f)" 18]
      by (cases "digits_val (w @ f) = 0") (simp_all add: nat_digits_small)
    then show ?thesis using wf(6) True by simp
  next
    case False
    then have "hd (w @ f) \<noteq> CHR ''0''" using w by simp
    then have d: "?d = w @ f" using nat_digits_digits_val[of "w @ f"] w f by simp
    then show ?thesis using wf(6) f(2) w(2) by (cases w) simp_all
  qed
  then have "w' @ f' = w @ f"
    using wf(1-5) w f by (intro digits_val_inj) simp_all
  then have "w' = w" "f' = f" using \<open>length w' = length w\<close> by simp_all
  then show ?thesis using wf(7) by simp
qed

lemma Decimal_units_text:
  assumes "Decimal s = Inr v"
  obtains n where "v = units_text (nat_digits n)" "n < 10 ^ 36"
proof -
  have m: "decimal_match 17 s" using assms by (simp add: Decimal_def split: if_splits)
  have bound: "digits_val (w @ f) < 10 ^ 36"
    if "list_all is_digit w" "list_all is_digit f" "length w \<le> 18" "length f = 18" for w f
  proof -
    have "digits_val (w @ f) < 10 ^ length (w @ f)" using that by (intro digits_val_less) simp
    also have "\<dots> \<le> 10 ^ 36" using that by (intro power_increasing) simp_all
    finally show ?thesis .
  qed
  show thesis
    using m
  proof (cases rule: decimal_match_cases)
    case whole
    then have lead: "s = ''0'' \<or> hd s \<noteq> CHR ''0''" using m by (auto simp: decimal_match_def)
    let ?f = "replicate 18 CHR ''0''"
    have "trim_right CHR ''0'' ?f = []" using trim_right_zeros[of "CHR ''0''" "[]" 18] by (simp add: trim_right_def)
    then have "units_text (nat_digits (digits_val (s @ ?f))) = s"
      using units_text_join[of s ?f] trim_decimal[of s ?f] whole lead by (simp add: list_all_iff)
    moreover have "v = s" using assms m dot_notin_digits[OF whole(1)] by (simp add: Decimal_def)
    ultimately show thesis using that[of "digits_val (s @ ?f)"] bound[of s ?f] whole by (simp add: list_all_iff)
  next
    case (frac w f)
    then have lead: "w = ''0'' \<or> hd w \<noteq> CHR ''0''" using m by (auto simp: decimal_match_def)
    let ?f = "f @ replicate (18 - length f) CHR ''0''"
    have f: "list_all is_digit ?f" "length ?f = 18" using frac by (auto simp: list_all_iff)
    have "v = trim_right CHR ''.'' (trim_right CHR ''0'' s)" using assms m frac(1) by (simp add: Decimal_def)
    also have "\<dots> = trim_right CHR ''.'' (trim_right CHR ''0'' (w @ CHR ''.'' # ?f))"
      using trim_right_zeros[of "CHR ''0''" s "18 - length f"] frac(1) by simp
    also have "\<dots> = units_text (nat_digits (digits_val (w @ ?f)))"
      using units_text_join[OF frac(2,3) lead f] by simp
    finally show thesis using that[of "digits_val (w @ ?f)"] bound[of w ?f] frac f by simp
  qed
qed

lemma Decimal_unique:
  assumes "Decimal s = Inr v" "Decimal s' = Inr v'" "rat_of_decimal s' = rat_of_decimal s"
  shows "v' = v"
proof -
  obtain n where n: "v = units_text (nat_digits n)" by (rule Decimal_units_text[OF assms(1)])
  obtain n' where n': "v' = units_text (nat_digits n')" by (rule Decimal_units_text[OF assms(2)])
  have "rat_of_decimal v' = rat_of_decimal v" using Decimal_value[OF assms(2)] Decimal_value[OF assms(1)] assms(3) by simp
  then have "n' = n" by (simp add: n n' units_text_value)
  then show ?thesis by (simp add: n n')
qed

lemma Decimal_idem:
  assumes "Decimal s = Inr v"
  shows "Decimal v = Inr v" "decimal_match 17 v"
proof -
  obtain n where n: "v = units_text (nat_digits n)" "n < 10 ^ 36" by (rule Decimal_units_text[OF assms])
  show m: "decimal_match 17 v" unfolding n(1) by (rule units_text_match) (use n(2) in simp)
  then have "\<exists>v2. Decimal v = Inr v2" by (simp add: Decimal_def)
  then obtain v2 where v2: "Decimal v = Inr v2" by blast
  then show "Decimal v = Inr v" using Decimal_unique[OF assms v2] Decimal_value[OF assms] by simp
qed

section \<open>Properties\<close>

text \<open>C24. \<open>Decimal\<close> returns the canonical text of the value: the value is kept, the result is a
  fixed point, and two texts of the same value get the same result.\<close>
theorem Decimal_canonical:
  assumes "Decimal s = Inr v"
  shows "rat_of_decimal v = rat_of_decimal s \<and> Decimal v = Inr v \<and>
    (\<forall>s' v'. Decimal s' = Inr v' \<longrightarrow> (v' = v \<longleftrightarrow> rat_of_decimal s' = rat_of_decimal s))"
  using Decimal_value[OF assms] Decimal_idem(1)[OF assms] Decimal_unique[OF assms] Decimal_value by metis

lemma Decimal_canonical_witness:
  "Decimal ''1.5'' = Inr ''1.5'' \<and> rat_of_decimal ''1.5'' = rat_of_decimal ''1.500''"
proof -
  have "Decimal ''1.500'' = Inr ''1.5''" by code_simp
  from Decimal_canonical[OF this] show ?thesis by simp
qed

text \<open>\<open>rounded\<close> rounds a non-negative amount to the eighteenth digit: the text is a canonical
  decimal whose value is at most half a unit away, the even one of two equally near, and exactly
  the amount when that is a whole number of units.\<close>
theorem rounded_half_even:
  assumes "0 \<le> r"
  shows "\<bar>rat_of_decimal (rounded r) - r\<bar> \<le> 1 / (2 * 10 ^ 18) \<and>
    (\<exists>q. rounded r = units_text (nat_digits q) \<and> (r * 10 ^ 18 = rat_of_nat q + 1 / 2 \<or> r * 10 ^ 18 = rat_of_nat q - 1 / 2 \<longrightarrow> even q)) \<and>
    (\<forall>m. r = rat_of_nat m / 10 ^ 18 \<longrightarrow> rat_of_decimal (rounded r) = r)"
proof -
  obtain n d where nd: "quotient_of r = (n, d)" by fastforce
  have r: "r = of_int n / of_int d" and d: "0 < d" using quotient_of_div[OF nd] quotient_of_denom_pos[OF nd] by simp_all
  have n: "0 \<le> n" using assms d r by (simp add: zero_le_divide_iff)
  define a where "a = n * 10 ^ 18"
  define h where "h = half_even a d"
  have a0: "0 \<le> a" using n by (simp add: a_def)
  have h0: "0 \<le> h" using half_even_nonneg[OF a0 d] by (simp add: h_def)
  have printed: "rounded r = units_text (nat_digits (nat h))"
    using h0 by (simp add: rounded_def nd a_def h_def int_digits_def)
  have scl: "r * 10 ^ 18 = of_int a / of_int d" by (simp add: r a_def)
  have even_tie: "even h" if "2 * a = 2 * h * d + d \<or> 2 * a = 2 * h * d - d"
  proof -
    define q m where "q = a div d" and "m = a mod d"
    have am: "a = q * d + m" "0 \<le> m" "m < d" using d by (simp_all add: q_def m_def)
    have hq: "h = (if 2 * m > d \<or> 2 * m = d \<and> odd q then q + 1 else q)"
    proof -
      have "a - quo_trunc a d * d = m" by (simp add: quo_trunc_nonneg[OF a0 d] m_def minus_div_mult_eq_mod)
      then show ?thesis unfolding h_def half_even_def Let_def by (simp add: quo_trunc_nonneg[OF a0 d] q_def)
    qed
    show ?thesis
    proof (cases "h = q")
      case True
      have "2 * m = d \<or> 2 * m = - d" using that am(1) unfolding True by (simp add: algebra_simps) linarith
      then show ?thesis using am d hq by (auto split: if_splits)
    next
      case False
      then have h1: "h = q + 1" using hq by (simp split: if_splits)
      have "2 * m = 3 * d \<or> 2 * m = d" using that am(1) unfolding h1 by (simp add: algebra_simps)
      then show ?thesis using am d hq h1 by (auto split: if_splits)
    qed
  qed
  have "even (nat h)" if "r * 10 ^ 18 = rat_of_nat (nat h) + 1 / 2 \<or> r * 10 ^ 18 = rat_of_nat (nat h) - 1 / 2"
  proof -
    have "rat_of_int (2 * a) = rat_of_int (2 * h * d + d) \<or> rat_of_int (2 * a) = rat_of_int (2 * h * d - d)"
      using that h0 d unfolding scl by (simp add: field_simps)
    then have "2 * a = 2 * h * d + d \<or> 2 * a = 2 * h * d - d" by (simp only: of_int_eq_iff)
    then show ?thesis using even_tie h0 by (simp add: even_nat_iff)
  qed
  then show ?thesis using rounded_error[OF assms] rounded_exact(2)[of r] printed by blast
qed

lemma rounded_half_even_witness:
  "\<bar>rat_of_decimal (rounded (1 / 3)) - 1 / 3\<bar> \<le> 1 / (2 * 10 ^ 18)"
  using rounded_half_even[of "1 / 3"] by simp

text \<open>C25. Amounts survive the exchange with the quota journal: every number of units below \<open>10\<^sup>7\<^sup>8\<close>
  that \<open>QuotaDecimalValue\<close> prints is read back by \<open>QuotaUnits\<close>, and a text is accepted by
  \<open>QuotaUnits\<close> exactly when it matches the grammar, with its value in units.\<close>
theorem quotaUnits_roundtrip:
  "(\<forall>n < 10 ^ 78. quotaUnits (quotaDecimalValue (int n)) = Some (int n)) \<and>
   ((\<exists>u. quotaUnits s = Some u) \<longleftrightarrow> decimal_match 59 s) \<and>
   (\<forall>u. quotaUnits s = Some u \<longrightarrow> 0 \<le> u \<and> rat_of_decimal s = rat_of_int u / 10 ^ 18)"
  using quotaUnits_units_text quotaUnits_defined quotaUnits_value
  by (simp add: quotaDecimalValue_def int_digits_def)

lemma quotaUnits_roundtrip_witness:
  "quotaUnits (quotaDecimalValue (int 1500000000000000000)) = Some 1500000000000000000 \<and>
   (\<exists>u. quotaUnits ''1.5'' = Some u)"
proof -
  have "decimal_match 59 ''1.5''" by code_simp
  then show ?thesis
    using quotaUnits_roundtrip[of "''1.5''"] quotaUnits_roundtrip[of "''1.5''", THEN conjunct1, rule_format, of 1500000000000000000]
    by simp
qed

end
