(* ===== verification/Route_Plan.thy ===== *)
theory Route_Plan
  imports Prelude "HOL-Library.Product_Lexorder" "HOL-Library.Multiset"
begin

text \<open>
  Attempt plans, \<open>pkg/routeattempt/plan.go\<close>: \<open>New\<close> validates and copies the targets of one
  protocol, \<open>selectAttempt\<close> picks the next target/credential pair of a request. What a hook or
  the random source does to the rest of the process is the type variable \<open>'w\<close>: every call takes
  the world and returns the next one. Reading \<open>ctx.Err()\<close> is such a call too, because a context
  is cancelled from another goroutine; a poll that is followed by a return of \<open>ctx.Err()\<close> is one
  poll, since the error of a cancelled context does not change. The lemmas show what \<open>New\<close>
  accepts, that a selection obeys the exclusions, and that a draw hits a candidate as often as
  its weight says.
\<close>

section \<open>The code\<close>

definition MaxAttempts :: int where "MaxAttempts = 4"
definition maxTargets :: nat where "maxTargets = 128"
definition maxCredentials :: nat where "maxCredentials = 32"

datatype context_error = ContextCanceled | DeadlineExceeded

datatype route_error =
  ErrConfig | ErrEligibility | ErrPrepare | ErrAdmission | ErrExecution | ErrRandom
  | ErrContext context_error

record credential =
  cred_ID :: string
  cred_Priority :: int

record target =
  tgt_ID :: string
  tgt_ConnectionID :: string
  tgt_Protocol :: string
  tgt_Weight :: int
  tgt_Credentials :: "credential list"

text \<open>A draw returns a value or fails; \<open>None\<close> is the non-nil error.\<close>

type_synonym 'w draw = "int \<Rightarrow> 'w \<Rightarrow> int option \<times> 'w"

record 'w options =
  opt_MaxAttempts :: int
  opt_Draw :: "'w draw option"

record 'w plan =
  plan_protocol :: string
  plan_targets :: "target list"
  plan_maxAttempts :: int
  plan_draw :: "'w draw"

definition validID :: "string \<Rightarrow> bool" where
  "validID value \<longleftrightarrow>
     value \<noteq> '''' \<and> length value \<le> 128 \<and> list_all (\<lambda>c. c \<notin> {CHR 0x00, CHR 0x0D, CHR 0x0A}) value"

type_synonym owners = "(string \<times> string) list"

definition credential_step ::
  "string \<Rightarrow> credential \<Rightarrow> string list \<times> owners \<Rightarrow> route_error + string list \<times> owners" where
  "credential_step connection c acc =
     (case acc of (seen, owners) \<Rightarrow>
        if \<not> validID (cred_ID c) \<or> cred_Priority c < 0 \<or> cred_ID c \<in> set seen then Inl ErrConfig
        else if (case map_of owners (cred_ID c) of None \<Rightarrow> False | Some owner \<Rightarrow> owner \<noteq> connection)
        then Inl ErrConfig
        else Inr (cred_ID c # seen, (cred_ID c, connection) # owners))"

definition sort_credentials :: "credential list \<Rightarrow> credential list" where
  "sort_credentials cs = sort_key (\<lambda>c. (cred_Priority c, cred_ID c)) cs"

definition target_step ::
  "string \<Rightarrow> target \<Rightarrow> string list \<times> owners \<times> target list \<Rightarrow>
   route_error + string list \<times> owners \<times> target list" where
  "target_step proto t acc =
     (case acc of (targetIDs, owners, targets) \<Rightarrow>
        if \<not> validID (tgt_ID t) \<or> \<not> validID (tgt_ConnectionID t) \<or> tgt_Protocol t \<noteq> proto \<or>
           tgt_Weight t < 0 \<or> tgt_Weight t > 100 \<or> tgt_ID t \<in> set targetIDs \<or>
           length (tgt_Credentials t) > maxCredentials
        then Inl ErrConfig
        else bindE (foldE (credential_step (tgt_ConnectionID t)) (tgt_Credentials t) ([], owners))
          (\<lambda>(_, owners').
             Inr (tgt_ID t # targetIDs, owners',
                  targets @ [t\<lparr>tgt_Credentials := sort_credentials (tgt_Credentials t)\<rparr>])))"

text \<open>\<open>New\<close>; \<open>crypto\<close> is the default draw from \<open>crypto/rand\<close>.\<close>

definition New :: "'w draw \<Rightarrow> string \<Rightarrow> target list \<Rightarrow> 'w options \<Rightarrow> route_error + 'w plan" where
  "New crypto proto targets options =
     (if proto = '''' \<or> opt_MaxAttempts options < 1 \<or> opt_MaxAttempts options > MaxAttempts \<or>
         length targets > maxTargets
      then Inl ErrConfig
      else bindE (foldE (target_step proto) targets ([], [], []))
        (\<lambda>(_, _, kept).
           Inr \<lparr>plan_protocol = proto, plan_targets = kept, plan_maxAttempts = opt_MaxAttempts options,
                plan_draw = (case opt_Draw options of None \<Rightarrow> crypto | Some d \<Rightarrow> d)\<rparr>))"

record attempt =
  att_Number :: int
  att_TargetID :: string
  att_ConnectionID :: string
  att_CredentialID :: string
  att_Protocol :: string

record progress =
  attempted :: "string set"
  credentials :: "string set"
  connections :: "string set"
  preferred :: string

definition attemptKey :: "attempt \<Rightarrow> string" where
  "attemptKey a = att_TargetID a @ [CHR 0x00] @ att_CredentialID a"

type_synonym 'w poll = "'w \<Rightarrow> context_error option \<times> 'w"
type_synonym 'w eligibility = "attempt \<Rightarrow> 'w \<Rightarrow> (unit + bool) \<times> 'w"

definition candidate_attempt :: "'w plan \<Rightarrow> int \<Rightarrow> target \<Rightarrow> credential \<Rightarrow> attempt" where
  "candidate_attempt p number t c =
     \<lparr>att_Number = number, att_TargetID = tgt_ID t, att_ConnectionID = tgt_ConnectionID t,
      att_CredentialID = cred_ID c, att_Protocol = plan_protocol p\<rparr>"

text \<open>The inner loop: the first eligible credential of a target, if any.\<close>

fun first_eligible ::
  "'w plan \<Rightarrow> 'w poll \<Rightarrow> 'w eligibility \<Rightarrow> progress \<Rightarrow> int \<Rightarrow> target \<Rightarrow> credential list \<Rightarrow> 'w \<Rightarrow>
   (route_error + attempt option) \<times> 'w" where
  "first_eligible p poll eligible st number t [] w = (Inr None, w)"
| "first_eligible p poll eligible st number t (c # cs) w =
     (let a = candidate_attempt p number t c in
      if cred_ID c \<in> credentials st \<or> attemptKey a \<in> attempted st
      then first_eligible p poll eligible st number t cs w
      else case poll w of
          (Some e, w1) \<Rightarrow> (Inl (ErrContext e), w1)
        | (None, w1) \<Rightarrow>
            (case eligible a w1 of
               (Inl _, w2) \<Rightarrow>
                 (case poll w2 of
                    (Some e, w3) \<Rightarrow> (Inl (ErrContext e), w3)
                  | (None, w3) \<Rightarrow> (Inl ErrEligibility, w3))
             | (Inr ok, w2) \<Rightarrow>
                 if ok then (Inr (Some a), w2)
                 else first_eligible p poll eligible st number t cs w2))"

text \<open>The outer loop: \<open>Inl a\<close> is the return of the preferred target's attempt.\<close>

fun scan_targets ::
  "'w plan \<Rightarrow> 'w poll \<Rightarrow> 'w eligibility \<Rightarrow> progress \<Rightarrow> int \<Rightarrow> target list \<Rightarrow> (attempt \<times> int) list \<Rightarrow> 'w \<Rightarrow>
   (route_error + (attempt + (attempt \<times> int) list)) \<times> 'w" where
  "scan_targets p poll eligible st number [] candidates w = (Inr (Inr candidates), w)"
| "scan_targets p poll eligible st number (t # ts) candidates w =
     (if tgt_Weight t = 0 \<or> tgt_ConnectionID t \<in> connections st
      then scan_targets p poll eligible st number ts candidates w
      else case first_eligible p poll eligible st number t (tgt_Credentials t) w of
          (Inl e, w1) \<Rightarrow> (Inl e, w1)
        | (Inr None, w1) \<Rightarrow> scan_targets p poll eligible st number ts candidates w1
        | (Inr (Some a), w1) \<Rightarrow>
            if att_TargetID a = '''' then scan_targets p poll eligible st number ts candidates w1
            else if att_TargetID a = preferred st then (Inr (Inl a), w1)
            else scan_targets p poll eligible st number ts (candidates @ [(a, tgt_Weight t)]) w1)"

fun weighted_pick :: "(attempt \<times> int) list \<Rightarrow> int \<Rightarrow> attempt option" where
  "weighted_pick [] pick = None"
| "weighted_pick ((a, weight) # rest) pick =
     (if pick < weight then Some a else weighted_pick rest (pick - weight))"

definition selectAttempt ::
  "'w plan \<Rightarrow> 'w poll \<Rightarrow> 'w eligibility \<Rightarrow> progress \<Rightarrow> int \<Rightarrow> 'w \<Rightarrow>
   (route_error + attempt option) \<times> 'w" where
  "selectAttempt p poll eligible st number w =
     (case scan_targets p poll eligible st number (plan_targets p) [] w of
        (Inl e, w1) \<Rightarrow> (Inl e, w1)
      | (Inr (Inl a), w1) \<Rightarrow> (Inr (Some a), w1)
      | (Inr (Inr candidates), w1) \<Rightarrow>
          if candidates = [] then (Inr None, w1)
          else case poll w1 of
              (Some e, w2) \<Rightarrow> (Inl (ErrContext e), w2)
            | (None, w2) \<Rightarrow>
                let tot = sum_list (map snd candidates) in
                (case plan_draw p tot w2 of
                   (None, w3) \<Rightarrow> (Inl ErrRandom, w3)
                 | (Some pick, w3) \<Rightarrow>
                     if pick < 0 \<or> pick \<ge> tot then (Inl ErrRandom, w3)
                     else case weighted_pick candidates pick of
                         None \<Rightarrow> (Inl ErrRandom, w3)
                       | Some a \<Rightarrow> (Inr (Some a), w3)))"

section \<open>What \<open>New\<close> accepts\<close>

text \<open>The well-formedness of a plan.\<close>

definition target_ok :: "string \<Rightarrow> target \<Rightarrow> bool" where
  "target_ok proto t \<longleftrightarrow>
     validID (tgt_ID t) \<and> validID (tgt_ConnectionID t) \<and> tgt_Protocol t = proto \<and>
     0 \<le> tgt_Weight t \<and> tgt_Weight t \<le> 100 \<and> length (tgt_Credentials t) \<le> maxCredentials \<and>
     distinct (map cred_ID (tgt_Credentials t)) \<and>
     (\<forall>c \<in> set (tgt_Credentials t). validID (cred_ID c) \<and> 0 \<le> cred_Priority c)"

text \<open>A credential belongs to one connection.\<close>

definition owners_ok :: "target list \<Rightarrow> bool" where
  "owners_ok ts \<longleftrightarrow>
     (\<forall>t \<in> set ts. \<forall>t' \<in> set ts. \<forall>c \<in> set (tgt_Credentials t). \<forall>c' \<in> set (tgt_Credentials t').
        cred_ID c = cred_ID c' \<longrightarrow> tgt_ConnectionID t = tgt_ConnectionID t')"

definition plan_ok :: "'w plan \<Rightarrow> bool" where
  "plan_ok p \<longleftrightarrow>
     plan_protocol p \<noteq> '''' \<and> 1 \<le> plan_maxAttempts p \<and> plan_maxAttempts p \<le> MaxAttempts \<and>
     length (plan_targets p) \<le> maxTargets \<and>
     distinct (map tgt_ID (plan_targets p)) \<and>
     (\<forall>t \<in> set (plan_targets p). target_ok (plan_protocol p) t \<and>
        sorted (map (\<lambda>c. (cred_Priority c, cred_ID c)) (tgt_Credentials t))) \<and>
     owners_ok (plan_targets p)"

lemma sort_credentials_props:
  "set (sort_credentials cs) = set cs" "length (sort_credentials cs) = length cs"
  "sorted (map (\<lambda>c. (cred_Priority c, cred_ID c)) (sort_credentials cs))"
  "distinct (map cred_ID (sort_credentials cs)) = distinct (map cred_ID cs)"
proof -
  have m: "mset (sort_credentials cs) = mset cs" by (simp add: sort_credentials_def)
  then have "mset (map cred_ID (sort_credentials cs)) = mset (map cred_ID cs)" by simp
  then show "distinct (map cred_ID (sort_credentials cs)) = distinct (map cred_ID cs)"
    by (rule mset_eq_imp_distinct_iff)
qed (simp_all add: sort_credentials_def)

lemma credential_step_Inr:
  "credential_step conn c (seen, owners) = Inr acc \<longleftrightarrow>
     validID (cred_ID c) \<and> 0 \<le> cred_Priority c \<and> cred_ID c \<notin> set seen \<and>
     (\<forall>owner. map_of owners (cred_ID c) = Some owner \<longrightarrow> owner = conn) \<and>
     acc = (cred_ID c # seen, (cred_ID c, conn) # owners)"
  by (auto simp: credential_step_def split: option.splits)

lemma target_step_Inr:
  assumes "target_step proto t (ids, owners, kept) = Inr acc"
  obtains seen own where
    "validID (tgt_ID t)" "validID (tgt_ConnectionID t)" "tgt_Protocol t = proto"
    "0 \<le> tgt_Weight t" "tgt_Weight t \<le> 100" "tgt_ID t \<notin> set ids" "length (tgt_Credentials t) \<le> maxCredentials"
    "foldE (credential_step (tgt_ConnectionID t)) (tgt_Credentials t) ([], owners) = Inr (seen, own)"
    "acc = (tgt_ID t # ids, own, kept @ [t\<lparr>tgt_Credentials := sort_credentials (tgt_Credentials t)\<rparr>])"
  using assms by (auto simp: target_step_def bindE_Inr_iff not_less split: if_splits)

lemma credential_fold:
  assumes "foldE (credential_step conn) cs (seen, owners) = Inr (seen', owners')"
  shows "distinct (map cred_ID cs) \<and> set (map cred_ID cs) \<inter> set seen = {} \<and>
    (\<forall>c \<in> set cs. validID (cred_ID c) \<and> 0 \<le> cred_Priority c \<and>
       (\<forall>owner. map_of owners (cred_ID c) = Some owner \<longrightarrow> owner = conn)) \<and>
    (\<forall>k. map_of owners' k = (if k \<in> set (map cred_ID cs) then Some conn else map_of owners k))"
  using assms
proof (induction cs arbitrary: seen owners)
  case Nil
  then show ?case by simp
next
  case (Cons c cs)
  have step: "validID (cred_ID c)" "0 \<le> cred_Priority c" "cred_ID c \<notin> set seen"
    "\<forall>owner. map_of owners (cred_ID c) = Some owner \<longrightarrow> owner = conn"
    "foldE (credential_step conn) cs (cred_ID c # seen, (cred_ID c, conn) # owners) = Inr (seen', owners')"
    using Cons.prems by (auto simp: bindE_Inr_iff credential_step_Inr)
  show ?case using Cons.IH[OF step(5)] step(1-4) by (auto split: if_splits)
qed

lemma target_fold:
  assumes "foldE (target_step proto) ts (ids, owners, kept) = Inr (ids', owners', kept')"
    and "\<forall>t \<in> set kept. \<forall>c \<in> set (tgt_Credentials t). map_of owners (cred_ID c) = Some (tgt_ConnectionID t)"
    and "set ids = tgt_ID ` set kept"
  shows "\<exists>new. kept' = kept @ new \<and> map tgt_ID new = map tgt_ID ts \<and>
    distinct (map tgt_ID new) \<and> set (map tgt_ID new) \<inter> set ids = {} \<and>
    (\<forall>t \<in> set new. target_ok proto t \<and> sorted (map (\<lambda>c. (cred_Priority c, cred_ID c)) (tgt_Credentials t))) \<and>
    (\<forall>t \<in> set kept'. \<forall>c \<in> set (tgt_Credentials t). map_of owners' (cred_ID c) = Some (tgt_ConnectionID t))"
  using assms
proof (induction ts arbitrary: ids owners kept)
  case Nil
  then show ?case by simp
next
  case (Cons t ts)
  let ?t = "t\<lparr>tgt_Credentials := sort_credentials (tgt_Credentials t)\<rparr>"
  obtain seen own where step: "validID (tgt_ID t)" "validID (tgt_ConnectionID t)" "tgt_Protocol t = proto"
      "0 \<le> tgt_Weight t" "tgt_Weight t \<le> 100" "tgt_ID t \<notin> set ids" "length (tgt_Credentials t) \<le> maxCredentials"
    and cf: "foldE (credential_step (tgt_ConnectionID t)) (tgt_Credentials t) ([], owners) = Inr (seen, own)"
    and rest: "foldE (target_step proto) ts (tgt_ID t # ids, own, kept @ [?t]) = Inr (ids', owners', kept')"
    using Cons.prems(1) by (auto simp: bindE_Inr_iff elim!: target_step_Inr)
  note c = credential_fold[OF cf]
  have ok: "target_ok proto ?t" "sorted (map (\<lambda>c. (cred_Priority c, cred_ID c)) (tgt_Credentials ?t))"
    using step c by (simp_all add: target_ok_def sort_credentials_props)
  have "\<forall>t' \<in> set (kept @ [?t]). \<forall>c \<in> set (tgt_Credentials t'). map_of own (cred_ID c) = Some (tgt_ConnectionID t')"
    using c Cons.prems(2) by (auto simp: sort_credentials_props) metis
  moreover have "set (tgt_ID t # ids) = tgt_ID ` set (kept @ [?t])" using Cons.prems(3) by auto
  ultimately obtain new where new: "kept' = (kept @ [?t]) @ new" "map tgt_ID new = map tgt_ID ts"
    "distinct (map tgt_ID new)" "set (map tgt_ID new) \<inter> set (tgt_ID t # ids) = {}"
    "\<forall>t \<in> set new. target_ok proto t \<and> sorted (map (\<lambda>c. (cred_Priority c, cred_ID c)) (tgt_Credentials t))"
    "\<forall>t \<in> set kept'. \<forall>c \<in> set (tgt_Credentials t). map_of owners' (cred_ID c) = Some (tgt_ConnectionID t)"
    using Cons.IH[OF rest] by blast
  show ?case
  proof (intro exI[of _ "?t # new"] conjI)
    show "kept' = kept @ ?t # new" using new(1) by simp
    show "distinct (map tgt_ID (?t # new))" using new(3,4) by auto
    show "set (map tgt_ID (?t # new)) \<inter> set ids = {}" using new(4) step(6) by auto
    show "\<forall>t \<in> set (?t # new). target_ok proto t \<and> sorted (map (\<lambda>c. (cred_Priority c, cred_ID c)) (tgt_Credentials t))"
      using ok new(5) by simp
  qed (use new(2,6) in simp_all)
qed

lemma New_plan_ok:
  assumes "New crypto proto ts opts = Inr p"
  shows "plan_ok p" and "map tgt_ID (plan_targets p) = map tgt_ID ts"
    and "plan_maxAttempts p = opt_MaxAttempts opts" and "plan_protocol p = proto"
proof -
  obtain ids own kept where f: "foldE (target_step proto) ts ([], [], []) = Inr (ids, own, kept)"
    and g: "proto \<noteq> ''''" "1 \<le> opt_MaxAttempts opts" "opt_MaxAttempts opts \<le> MaxAttempts" "length ts \<le> maxTargets"
    and p: "plan_protocol p = proto" "plan_targets p = kept" "plan_maxAttempts p = opt_MaxAttempts opts"
    using assms by (auto simp: New_def bindE_Inr_iff not_less split: if_splits)
  from target_fold[OF f] obtain new where new: "kept = new" "map tgt_ID new = map tgt_ID ts"
    "distinct (map tgt_ID new)"
    "\<forall>t \<in> set new. target_ok proto t \<and> sorted (map (\<lambda>c. (cred_Priority c, cred_ID c)) (tgt_Credentials t))"
    "\<forall>t \<in> set kept. \<forall>c \<in> set (tgt_Credentials t). map_of own (cred_ID c) = Some (tgt_ConnectionID t)"
    by auto
  have "owners_ok kept" using new(5) unfolding owners_ok_def by (metis option.inject)
  moreover have "length kept = length ts" using new(1,2) by (metis length_map)
  ultimately show "plan_ok p" using new g by (simp add: plan_ok_def p)
  show "map tgt_ID (plan_targets p) = map tgt_ID ts" using new p by simp
  show "plan_maxAttempts p = opt_MaxAttempts opts" "plan_protocol p = proto" using p by simp_all
qed


section \<open>What a selection returns\<close>

text \<open>An attempt the exclusions of a request still allow.\<close>

definition selectable :: "'w plan \<Rightarrow> progress \<Rightarrow> int \<Rightarrow> attempt \<Rightarrow> int \<Rightarrow> bool" where
  "selectable p st number a weight \<longleftrightarrow>
     (\<exists>t \<in> set (plan_targets p). \<exists>c \<in> set (tgt_Credentials t).
        a = candidate_attempt p number t c \<and> weight = tgt_Weight t \<and> tgt_Weight t \<noteq> 0 \<and>
        tgt_ConnectionID t \<notin> connections st \<and> cred_ID c \<notin> credentials st \<and>
        attemptKey a \<notin> attempted st)"

lemma first_eligible_Some:
  "first_eligible p poll eligible st number t cs w = (Inr (Some a), w') \<Longrightarrow>
    \<exists>c \<in> set cs. a = candidate_attempt p number t c \<and> cred_ID c \<notin> credentials st \<and> attemptKey a \<notin> attempted st"
proof (induction cs arbitrary: w)
  case Nil
  then show ?case by simp
next
  case (Cons c cs)
  then show ?case
    by (fastforce simp: Let_def split: if_splits prod.splits option.splits sum.splits)
qed

lemma scan_targets_selectable:
  assumes "scan_targets p poll eligible st number ts candidates w = (Inr r, w')"
    and "set ts \<subseteq> set (plan_targets p)"
    and "\<forall>(a, weight) \<in> set candidates. selectable p st number a weight"
  shows "case r of Inl a \<Rightarrow> (\<exists>weight. selectable p st number a weight)
    | Inr cs \<Rightarrow> (\<forall>(a, weight) \<in> set cs. selectable p st number a weight)"
  using assms
proof (induction ts arbitrary: candidates w)
  case Nil
  then show ?case by auto
next
  case (Cons t ts)
  note IH = Cons.IH[OF _ _ Cons.prems(3)]
  have ts: "set ts \<subseteq> set (plan_targets p)" and t: "t \<in> set (plan_targets p)" using Cons.prems(2) by auto
  show ?case
  proof (cases "tgt_Weight t = 0 \<or> tgt_ConnectionID t \<in> connections st")
    case True
    then show ?thesis using Cons.prems(1) IH ts by simp
  next
    case False
    obtain res w1 where f: "first_eligible p poll eligible st number t (tgt_Credentials t) w = (res, w1)"
      by fastforce
    consider (none) "res = Inr None" | (some) a where "res = Inr (Some a)"
      using Cons.prems(1) False f by (cases res) (auto split: option.splits)
    then show ?thesis
    proof cases
      case none
      then show ?thesis using Cons.prems(1) False f IH ts by simp
    next
      case some
      have sel: "selectable p st number a (tgt_Weight t)"
        using first_eligible_Some[OF f[unfolded some]] t False unfolding selectable_def by blast
      then have "\<forall>(a, weight) \<in> set (candidates @ [(a, tgt_Weight t)]). selectable p st number a weight"
        using Cons.prems(3) by auto
      note IH2 = Cons.IH[OF _ ts this]
      show ?thesis using Cons.prems(1) False f some sel IH IH2 ts
        by (auto split: if_splits)
    qed
  qed
qed

lemma weighted_pick_in: "weighted_pick cs pick = Some a \<Longrightarrow> \<exists>weight. (a, weight) \<in> set cs"
  by (induction cs pick rule: weighted_pick.induct) (auto split: if_splits)

lemma selectAttempt_selectable:
  assumes "selectAttempt p poll eligible st number w = (Inr (Some a), w')"
  shows "\<exists>weight. selectable p st number a weight"
proof -
  obtain res w1 where s: "scan_targets p poll eligible st number (plan_targets p) [] w = (res, w1)" by fastforce
  consider (pref) "res = Inr (Inl a)" | (cands) cs pick where "res = Inr (Inr cs)" "weighted_pick cs pick = Some a"
    using assms s by (auto simp: selectAttempt_def Let_def split: sum.splits if_splits prod.splits option.splits)
  then show ?thesis
  proof cases
    case pref
    then show ?thesis using scan_targets_selectable[OF s[unfolded pref]] by simp
  next
    case cands
    then show ?thesis
      using scan_targets_selectable[OF s[unfolded cands(1)]] weighted_pick_in[OF cands(2)] by auto
  qed
qed

section \<open>The weighted draw\<close>

lemma weighted_pick_total:
  "0 \<le> pick \<Longrightarrow> pick < sum_list (map snd cs) \<Longrightarrow> \<exists>a. weighted_pick cs pick = Some a"
  by (induction cs pick rule: weighted_pick.induct) auto

text \<open>Of the values a draw can take, as many select a candidate as its weight says.\<close>

definition weight_of :: "attempt \<Rightarrow> (attempt \<times> int) list \<Rightarrow> int" where
  "weight_of a cs = sum_list (map snd (filter (\<lambda>x. fst x = a) cs))"

lemma weighted_pick_neg: "\<forall>x \<in> set cs. 0 \<le> snd x \<Longrightarrow> pick < 0 \<Longrightarrow> cs \<noteq> [] \<Longrightarrow> weighted_pick cs pick = Some (fst (hd cs))"
  by (cases cs) (auto)

lemma weighted_pick_count:
  assumes "\<forall>x \<in> set cs. 0 \<le> snd x"
  shows "int (card {pick. 0 \<le> pick \<and> pick < sum_list (map snd cs) \<and> weighted_pick cs pick = Some a}) = weight_of a cs"
  using assms
proof (induction cs)
  case Nil
  then show ?case by (simp add: weight_of_def)
next
  case (Cons x cs)
  obtain b v where x: "x = (b, v)" by fastforce
  have v: "0 \<le> v" and cs: "\<forall>x \<in> set cs. 0 \<le> snd x" using Cons.prems x by auto
  let ?S = "sum_list (map snd cs)"
  have S: "0 \<le> ?S" using cs by (auto intro!: sum_list_nonneg)
  let ?R = "{pick. 0 \<le> pick \<and> pick < ?S \<and> weighted_pick cs pick = Some a}"
  have split: "{pick. 0 \<le> pick \<and> pick < v + ?S \<and> weighted_pick ((b, v) # cs) pick = Some a}
      = (if b = a then {0..<v} else {}) \<union> (\<lambda>d. v + d) ` ?R" (is "?L = ?A \<union> ?B")
  proof (rule set_eqI, rule iffI)
    fix d assume d: "d \<in> ?L"
    show "d \<in> ?A \<union> ?B"
    proof (cases "d < v")
      case True
      then show ?thesis using d by auto
    next
      case False
      then have "d - v \<in> ?R" using d by auto
      then have "v + (d - v) \<in> ?B" by blast
      then show ?thesis by simp
    qed
  next
    fix d assume "d \<in> ?A \<union> ?B"
    then show "d \<in> ?L" using v S by (auto split: if_splits)
  qed
  have "finite ?R" by (rule finite_subset[of _ "{0..<?S}"]) auto
  moreover have "?A \<inter> ?B = {}" by auto
  moreover have "card ?B = card ?R" by (rule card_image) simp
  moreover have "int (card ?A) = (if b = a then v else 0)" using v by simp
  ultimately have "int (card (?A \<union> ?B)) = (if b = a then v else 0) + int (card ?R)"
    by (simp add: card_Un_disjoint)
  then show ?case using Cons.IH[OF cs] split by (simp add: x weight_of_def)
qed

end
