(* ===== verification/Route_Run.thy ===== *)
theory Route_Run
  imports Route_Plan
begin

text \<open>
  The retry loop of \<open>pkg/routeattempt/execute.go\<close>: \<open>Run\<close> with its hooks, one iteration as
  \<open>run_step\<close> and the loop as a recursion whose termination is the attempt budget. The lemmas give
  the history a run leaves: bounded, numbered, without repeats, every attempt but the last safe to
  replay, nothing retried on a credential or a connection that was excluded; and the order of the
  calls to \<open>Prepare\<close>, \<open>Admit\<close> and \<open>Execute\<close>.
\<close>

section \<open>The code\<close>

definition Success :: string where "Success = ''success''"
definition CredentialRejected :: string where "CredentialRejected = ''credential_rejected''"
definition ConnectionFailure :: string where "ConnectionFailure = ''connection_failure''"
definition RateLimited :: string where "RateLimited = ''rate_limited''"
definition PermanentFailure :: string where "PermanentFailure = ''permanent_failure''"

definition Unknown :: string where "Unknown = ''unknown''"
definition NotSent :: string where "NotSent = ''not_sent''"
definition RejectedWithoutWork :: string where "RejectedWithoutWork = ''rejected_without_work''"
definition Completed :: string where "Completed = ''completed''"

record outcome =
  out_Failure :: string
  out_Work :: string
  out_OutputStarted :: bool
  out_FinalUsageKnown :: bool

datatype stop_reason =
  NotStopped | Succeeded | UnsafeToReplay | Permanent | Exhausted | NoCandidates | Canceled | Blocked

record attempt_result =
  res_Attempt :: attempt
  res_Outcome :: outcome

record run_result =
  run_Admitted :: bool
  run_Attempts :: "attempt_result list"
  run_Stop :: stop_reason

text \<open>\<open>Prepare\<close> and \<open>Admit\<close> return an error or nil (\<open>True\<close>); \<open>Execute\<close> returns an outcome and
  whether its error is non-nil.\<close>

record 'w calls =
  c_poll :: "'w poll"
  c_eligible :: "'w eligibility"
  c_prepare :: "attempt \<Rightarrow> 'w \<Rightarrow> bool \<times> 'w"
  c_admit :: "attempt \<Rightarrow> 'w \<Rightarrow> bool \<times> 'w"
  c_execute :: "attempt \<Rightarrow> 'w \<Rightarrow> (outcome \<times> bool) \<times> 'w"

definition validOutcome :: "outcome \<Rightarrow> bool" where
  "validOutcome oc \<longleftrightarrow>
     out_Failure oc \<in> set [Success, CredentialRejected, ConnectionFailure, RateLimited, PermanentFailure] \<and>
     out_Work oc \<in> set [Unknown, NotSent, RejectedWithoutWork, Completed]"

type_synonym run_end = "run_result \<times> route_error option"

definition blockedResult :: "'w calls \<Rightarrow> run_result \<Rightarrow> route_error \<Rightarrow> 'w \<Rightarrow> run_end \<times> 'w" where
  "blockedResult h result err w =
     (case c_poll h w of
        (Some e, w') \<Rightarrow> ((result\<lparr>run_Stop := Canceled\<rparr>, Some (ErrContext e)), w')
      | (None, w') \<Rightarrow> ((result\<lparr>run_Stop := Blocked\<rparr>, Some err), w'))"

text \<open>What one outcome means for the loop: stop, or go on with more exclusions.\<close>

definition within_budget :: "'w plan \<Rightarrow> run_result \<Rightarrow> progress \<Rightarrow> run_end + progress \<times> run_result" where
  "within_budget p result st =
     (if int (length (run_Attempts result)) \<ge> plan_maxAttempts p
      then Inl (result\<lparr>run_Stop := Exhausted\<rparr>, None)
      else Inr (st, result))"

definition judge ::
  "'w plan \<Rightarrow> progress \<Rightarrow> run_result \<Rightarrow> attempt \<Rightarrow> outcome \<Rightarrow> bool \<Rightarrow> run_end + progress \<times> run_result" where
  "judge p st result a oc failed =
     (if failed then Inl (result\<lparr>run_Stop := UnsafeToReplay\<rparr>, Some ErrExecution)
      else if out_Failure oc = Success then Inl (result\<lparr>run_Stop := Succeeded\<rparr>, None)
      else if out_OutputStarted oc \<or> out_FinalUsageKnown oc \<or>
              (out_Work oc \<noteq> NotSent \<and> out_Work oc \<noteq> RejectedWithoutWork)
      then Inl (result\<lparr>run_Stop := UnsafeToReplay\<rparr>, None)
      else let st0 = st\<lparr>preferred := ''''\<rparr> in
        if out_Failure oc = CredentialRejected then
          (if out_Work oc \<noteq> RejectedWithoutWork
           then Inl (result\<lparr>run_Stop := UnsafeToReplay\<rparr>, None)
           else within_budget p result
                  (st0\<lparr>credentials := insert (att_CredentialID a) (credentials st0),
                       preferred := att_TargetID a\<rparr>))
        else if out_Failure oc = ConnectionFailure \<or> out_Failure oc = RateLimited then
          within_budget p result (st0\<lparr>connections := insert (att_ConnectionID a) (connections st0)\<rparr>)
        else Inl (result\<lparr>run_Stop := Permanent\<rparr>, None))"

definition run_execute ::
  "'w plan \<Rightarrow> 'w calls \<Rightarrow> progress \<Rightarrow> run_result \<Rightarrow> attempt \<Rightarrow> 'w \<Rightarrow>
   (run_end + progress \<times> run_result) \<times> 'w" where
  "run_execute p h st result a w =
     (let st1 = st\<lparr>attempted := insert (attemptKey a) (attempted st)\<rparr> in
      case c_execute h a w of
        ((oc, err), w1) \<Rightarrow>
          let oc1 = (if validOutcome oc then oc
                     else \<lparr>out_Failure = PermanentFailure, out_Work = Unknown,
                           out_OutputStarted = out_OutputStarted oc,
                           out_FinalUsageKnown = out_FinalUsageKnown oc\<rparr>);
              failed = (if validOutcome oc then err else True);
              result1 = result\<lparr>run_Attempts := run_Attempts result @ [\<lparr>res_Attempt = a, res_Outcome = oc1\<rparr>]\<rparr>
          in (case c_poll h w1 of
                (Some e, w2) \<Rightarrow> (Inl (result1\<lparr>run_Stop := Canceled\<rparr>, Some (ErrContext e)), w2)
              | (None, w2) \<Rightarrow> (judge p st1 result1 a oc1 failed, w2)))"

definition run_admit ::
  "'w plan \<Rightarrow> 'w calls \<Rightarrow> progress \<Rightarrow> run_result \<Rightarrow> attempt \<Rightarrow> 'w \<Rightarrow>
   (run_end + progress \<times> run_result) \<times> 'w" where
  "run_admit p h st result a w =
     (let finish = (\<lambda>result1 w1.
        case c_poll h w1 of
          (Some e, w2) \<Rightarrow> (Inl (result1\<lparr>run_Stop := Canceled\<rparr>, Some (ErrContext e)), w2)
        | (None, w2) \<Rightarrow> run_execute p h st result1 a w2)
      in if run_Admitted result then finish result w
         else case c_admit h a w of
             (False, w1) \<Rightarrow> (case blockedResult h result ErrAdmission w1 of (e, w2) \<Rightarrow> (Inl e, w2))
           | (True, w1) \<Rightarrow> finish (result\<lparr>run_Admitted := True\<rparr>) w1)"

definition run_prepare ::
  "'w plan \<Rightarrow> 'w calls \<Rightarrow> progress \<Rightarrow> run_result \<Rightarrow> attempt \<Rightarrow> 'w \<Rightarrow>
   (run_end + progress \<times> run_result) \<times> 'w" where
  "run_prepare p h st result a w =
     (case c_prepare h a w of
        (False, w1) \<Rightarrow> (case blockedResult h result ErrPrepare w1 of (e, w2) \<Rightarrow> (Inl e, w2))
      | (True, w1) \<Rightarrow>
          (case c_poll h w1 of
             (Some e, w2) \<Rightarrow> (Inl (result\<lparr>run_Stop := Canceled\<rparr>, Some (ErrContext e)), w2)
           | (None, w2) \<Rightarrow> run_admit p h st result a w2))"

definition run_step ::
  "'w plan \<Rightarrow> 'w calls \<Rightarrow> progress \<Rightarrow> run_result \<Rightarrow> 'w \<Rightarrow> (run_end + progress \<times> run_result) \<times> 'w" where
  "run_step p h st result w =
     (case c_poll h w of
        (Some e, w1) \<Rightarrow> (Inl (result\<lparr>run_Stop := Canceled\<rparr>, Some (ErrContext e)), w1)
      | (None, w1) \<Rightarrow>
          (case selectAttempt p (c_poll h) (c_eligible h) st (int (length (run_Attempts result)) + 1) w1 of
             (Inl err, w2) \<Rightarrow>
               (case c_poll h w2 of
                  (Some _, w3) \<Rightarrow> (Inl (result\<lparr>run_Stop := Canceled\<rparr>, Some err), w3)
                | (None, w3) \<Rightarrow> (Inl (result\<lparr>run_Stop := Blocked\<rparr>, Some err), w3))
           | (Inr None, w2) \<Rightarrow> (Inl (result\<lparr>run_Stop := NoCandidates\<rparr>, None), w2)
           | (Inr (Some a), w2) \<Rightarrow> run_prepare p h st result a w2))"

section \<open>One iteration\<close>

lemma failure_distinct [simp]:
  "Success \<noteq> CredentialRejected" "Success \<noteq> ConnectionFailure" "Success \<noteq> RateLimited"
  "CredentialRejected \<noteq> Success" "ConnectionFailure \<noteq> Success" "RateLimited \<noteq> Success"
  "CredentialRejected \<noteq> ConnectionFailure" "CredentialRejected \<noteq> RateLimited"
  "ConnectionFailure \<noteq> CredentialRejected" "RateLimited \<noteq> CredentialRejected"
  "ConnectionFailure \<noteq> RateLimited" "RateLimited \<noteq> ConnectionFailure"
  by (simp_all add: Success_def CredentialRejected_def ConnectionFailure_def RateLimited_def)

lemma work_distinct [simp]:
  "NotSent \<noteq> RejectedWithoutWork" "RejectedWithoutWork \<noteq> NotSent"
  by (simp_all add: NotSent_def RejectedWithoutWork_def)

text \<open>An outcome after which another attempt cannot repeat work or output.\<close>

definition replay_safe :: "outcome \<Rightarrow> bool" where
  "replay_safe oc \<longleftrightarrow>
     \<not> out_OutputStarted oc \<and> \<not> out_FinalUsageKnown oc \<and>
     (out_Work oc = NotSent \<or> out_Work oc = RejectedWithoutWork) \<and>
     (out_Failure oc = CredentialRejected \<and> out_Work oc = RejectedWithoutWork \<or>
      out_Failure oc = ConnectionFailure \<or> out_Failure oc = RateLimited)"

lemma judge_Inr:
  assumes "judge p st r a oc failed = Inr (st', r')"
  shows "replay_safe oc" "r' = r" "int (length (run_Attempts r)) < plan_maxAttempts p"
    "attempted st' = attempted st"
    "credentials st' = (if out_Failure oc = CredentialRejected then insert (att_CredentialID a) (credentials st) else credentials st)"
    "connections st' = (if out_Failure oc = CredentialRejected then connections st else insert (att_ConnectionID a) (connections st))"
  using assms by (auto simp: judge_def within_budget_def replay_safe_def Let_def split: if_splits)

lemma judge_Inl:
  assumes "judge p st r a oc failed = Inl (r', err)"
  shows "run_Attempts r' = run_Attempts r" "run_Admitted r' = run_Admitted r"
    "run_Stop r' \<in> {Succeeded, UnsafeToReplay, Permanent, Exhausted}"
    "run_Stop r' = Succeeded \<longleftrightarrow> \<not> failed \<and> out_Failure oc = Success"
    "run_Stop r' = Exhausted \<Longrightarrow> plan_maxAttempts p \<le> int (length (run_Attempts r))"
  using assms by (auto simp: judge_def within_budget_def Let_def split: if_splits)

text \<open>What an iteration does, in one place: it ends without a new attempt, or executes the
  attempt it selected.\<close>

definition add_attempt :: "run_result \<Rightarrow> attempt \<Rightarrow> outcome \<Rightarrow> run_result" where
  "add_attempt r a oc =
     r\<lparr>run_Admitted := True, run_Attempts := run_Attempts r @ [\<lparr>res_Attempt = a, res_Outcome = oc\<rparr>]\<rparr>"

lemma add_attempt_simps [simp]:
  "run_Attempts (add_attempt r a oc) = run_Attempts r @ [\<lparr>res_Attempt = a, res_Outcome = oc\<rparr>]"
  "run_Admitted (add_attempt r a oc)"
  by (simp_all add: add_attempt_def)

lemma add_attempt_admitted:
  "run_Admitted r \<Longrightarrow> r\<lparr>run_Attempts := run_Attempts r @ [\<lparr>res_Attempt = a, res_Outcome = oc\<rparr>]\<rparr> = add_attempt r a oc"
  by (cases r) (simp add: add_attempt_def)

lemma run_execute_cases:
  assumes "run_execute p h st r a w = (res, w')" "run_Admitted r"
  obtains (cancel) oc e where "res = Inl ((add_attempt r a oc)\<lparr>run_Stop := Canceled\<rparr>, Some (ErrContext e))"
  | (judged) oc failed where
      "res = judge p (st\<lparr>attempted := insert (attemptKey a) (attempted st)\<rparr>) (add_attempt r a oc) a oc failed"
  using assms
  by (auto simp: run_execute_def Let_def add_attempt_admitted split: prod.splits option.splits if_splits)

definition ended_same :: "run_result \<Rightarrow> run_end + progress \<times> run_result \<Rightarrow> bool" where
  "ended_same r res \<longleftrightarrow>
     (\<exists>r1 err. res = Inl (r1, err) \<and> run_Attempts r1 = run_Attempts r \<and> (run_Admitted r \<longrightarrow> run_Admitted r1) \<and>
        run_Stop r1 \<in> {Canceled, Blocked, NoCandidates} \<and> (run_Stop r1 = NoCandidates \<longleftrightarrow> err = None))"

lemma ended_same_simps [simp]:
  "ended_same r (Inl (r\<lparr>run_Stop := Canceled\<rparr>, Some e))"
  "ended_same r (Inl (r\<lparr>run_Admitted := True, run_Stop := Canceled\<rparr>, Some e))"
  "ended_same r (Inl (r\<lparr>run_Stop := Blocked\<rparr>, Some e))"
  "ended_same r (Inl (r\<lparr>run_Stop := NoCandidates\<rparr>, None))"
  by (simp_all add: ended_same_def)

lemma blockedResult_ended: "blockedResult h r err w = (e, w') \<Longrightarrow> ended_same r (Inl e)"
  by (auto simp: blockedResult_def ended_same_def split: prod.splits option.splits)

lemma run_admit_cases:
  assumes "run_admit p h st r a w = (res, w')"
  obtains (ended) "ended_same r res"
  | (executed) r1 w1 where "run_execute p h st r1 a w1 = (res, w')" "run_Admitted r1"
      "r1 = r \<or> r1 = r\<lparr>run_Admitted := True\<rparr>"
proof (cases "run_Admitted r")
  case True
  then show ?thesis using assms that
    by (auto simp: run_admit_def Let_def split: prod.splits option.splits)
next
  case False
  obtain b w1 where b: "c_admit h a w = (b, w1)" by fastforce
  show ?thesis
  proof (cases b)
    case True
    then show ?thesis using assms False b that
      by (auto simp: run_admit_def Let_def split: prod.splits option.splits)
  next
    case False2: False
    then show ?thesis using assms False b that
      by (auto simp: run_admit_def Let_def dest: blockedResult_ended split: prod.splits)
  qed
qed

lemma run_prepare_cases:
  assumes "run_prepare p h st r a w = (res, w')"
  obtains (ended) "ended_same r res"
  | (admit) w1 where "run_admit p h st r a w1 = (res, w')"
proof (cases "fst (c_prepare h a w)")
  case True
  then show ?thesis using assms that
    by (cases "c_prepare h a w")
      (auto simp: run_prepare_def split: prod.splits option.splits)
next
  case False
  then show ?thesis using assms that
    by (cases "c_prepare h a w") (auto simp: run_prepare_def dest: blockedResult_ended split: prod.splits)
qed

lemma run_step_prepare:
  assumes "run_step p h st r w = (res, w')"
  obtains (ended) "ended_same r res"
  | (prepare) a w1 w2 where
      "selectAttempt p (c_poll h) (c_eligible h) st (int (length (run_Attempts r)) + 1) w1 = (Inr (Some a), w2)"
      "run_prepare p h st r a w2 = (res, w')"
proof (cases "fst (c_poll h w)")
  case (Some e)
  then show ?thesis using assms that(1)
    by (cases "c_poll h w") (auto simp: run_step_def)
next
  case None
  then obtain w1 where w1: "c_poll h w = (None, w1)" by (cases "c_poll h w") auto
  obtain s w2 where s: "selectAttempt p (c_poll h) (c_eligible h) st (int (length (run_Attempts r)) + 1) w1 = (s, w2)"
    by fastforce
  consider err where "s = Inl err" | "s = Inr None" | a where "s = Inr (Some a)"
    by (metis old.sum.exhaust option.exhaust)
  then show ?thesis
  proof cases
    case 1
    then show ?thesis using assms w1 s that(1)
      by (auto simp: run_step_def split: prod.splits option.splits)
  next
    case 2
    then show ?thesis using assms w1 s that(1) by (auto simp: run_step_def)
  next
    case 3
    then show ?thesis using assms w1 s that(2) by (auto simp: run_step_def)
  qed
qed

lemma run_step_cases:
  assumes "run_step p h st r w = (res, w')"
  obtains (ended) "ended_same r res"
  | (cancel) a weight oc e where "selectable p st (int (length (run_Attempts r)) + 1) a weight"
      "res = Inl ((add_attempt r a oc)\<lparr>run_Stop := Canceled\<rparr>, Some (ErrContext e))"
  | (judged) a weight oc failed where "selectable p st (int (length (run_Attempts r)) + 1) a weight"
      "res = judge p (st\<lparr>attempted := insert (attemptKey a) (attempted st)\<rparr>) (add_attempt r a oc) a oc failed"
proof (cases rule: run_step_prepare[OF assms])
  case 1
  then show ?thesis by (rule ended)
next
  case (2 a w1 w2)
  obtain weight where sel: "selectable p st (int (length (run_Attempts r)) + 1) a weight"
    using selectAttempt_selectable[OF 2(1)] by blast
  have adm: "add_attempt (r\<lparr>run_Admitted := True\<rparr>) a oc = add_attempt r a oc" for oc
    by (simp add: add_attempt_def)
  show ?thesis
  proof (cases rule: run_prepare_cases[OF 2(2)])
    case 1
    then show ?thesis by (rule ended)
  next
    case (2 w3)
    show ?thesis
    proof (cases rule: run_admit_cases[OF 2])
      case 1
      then show ?thesis by (rule ended)
    next
      case (2 r1 w4)
      show ?thesis
      proof (cases rule: run_execute_cases[OF 2(1,2)])
        case (1 oc e)
        then show ?thesis using cancel[OF sel] 2(3) adm by auto
      next
        case (2 oc failed)
        then show ?thesis using judged[OF sel] \<open>r1 = r \<or> r1 = r\<lparr>run_Admitted := True\<rparr>\<close> adm by auto
      qed
    qed
  qed
qed

lemma run_step_Inr_length:
  assumes "run_step p h st r w = (Inr (st', r'), w')"
  shows "length (run_Attempts r') = Suc (length (run_Attempts r))"
    and "int (length (run_Attempts r')) < plan_maxAttempts p"
proof -
  obtain a oc failed where "judge p (st\<lparr>attempted := insert (attemptKey a) (attempted st)\<rparr>) (add_attempt r a oc) a oc failed = Inr (st', r')"
    by (cases rule: run_step_cases[OF assms]) (auto simp: ended_same_def)
  from judge_Inr(2,3)[OF this]
  show "length (run_Attempts r') = Suc (length (run_Attempts r))"
    and "int (length (run_Attempts r')) < plan_maxAttempts p" by simp_all
qed

section \<open>The loop\<close>

function run_loop :: "'w plan \<Rightarrow> 'w calls \<Rightarrow> progress \<Rightarrow> run_result \<Rightarrow> 'w \<Rightarrow> run_end \<times> 'w" where
  "run_loop p h st result w =
     (case run_step p h st result w of
        (Inl e, w1) \<Rightarrow> (e, w1)
      | (Inr (st1, result1), w1) \<Rightarrow> run_loop p h st1 result1 w1)"
  by pat_completeness auto
termination
proof (relation "measure (\<lambda>(p, h, st, r, w). nat (plan_maxAttempts p - int (length (run_Attempts r))))", goal_cases)
  case 1
  show ?case by simp
next
  case (2 p h st result w x y b xa ya)
  then have "run_step p h st result w = (Inr (xa, ya), y)" by simp
  from run_step_Inr_length[OF this] show ?case by simp
qed

declare run_loop.simps [simp del]

text \<open>\<open>Run\<close>: a nil plan, context or hook is an absent argument.\<close>

record 'w hooks =
  hook_Eligible :: "'w eligibility option"
  hook_Prepare :: "(attempt \<Rightarrow> 'w \<Rightarrow> bool \<times> 'w) option"
  hook_Admit :: "(attempt \<Rightarrow> 'w \<Rightarrow> bool \<times> 'w) option"
  hook_Execute :: "(attempt \<Rightarrow> 'w \<Rightarrow> (outcome \<times> bool) \<times> 'w) option"

definition no_progress :: progress where
  "no_progress = \<lparr>attempted = {}, credentials = {}, connections = {}, preferred = ''''\<rparr>"

definition no_result :: run_result where
  "no_result = \<lparr>run_Admitted = False, run_Attempts = [], run_Stop = NotStopped\<rparr>"

definition Run :: "'w plan option \<Rightarrow> 'w poll option \<Rightarrow> 'w hooks \<Rightarrow> 'w \<Rightarrow> run_end \<times> 'w" where
  "Run p ctx h w =
     (case (p, ctx, hook_Eligible h, hook_Prepare h, hook_Admit h, hook_Execute h) of
        (Some plan, Some poll, Some el, Some pr, Some ad, Some ex) \<Rightarrow>
          run_loop plan \<lparr>c_poll = poll, c_eligible = el, c_prepare = pr, c_admit = ad, c_execute = ex\<rparr>
            no_progress no_result w
      | _ \<Rightarrow> ((no_result, Some ErrConfig), w))"

section \<open>The history of a run\<close>

text \<open>What holds of attempt \<open>x\<close> after an earlier attempt \<open>y\<close>.\<close>

definition may_follow :: "attempt_result \<Rightarrow> attempt_result \<Rightarrow> bool" where
  "may_follow y x \<longleftrightarrow>
     replay_safe (res_Outcome y) \<and> attemptKey (res_Attempt x) \<noteq> attemptKey (res_Attempt y) \<and>
     (if out_Failure (res_Outcome y) = CredentialRejected
      then att_CredentialID (res_Attempt x) \<noteq> att_CredentialID (res_Attempt y)
      else att_ConnectionID (res_Attempt x) \<noteq> att_ConnectionID (res_Attempt y))"

definition history :: "'w plan \<Rightarrow> attempt_result list \<Rightarrow> bool" where
  "history p xs \<longleftrightarrow>
     (\<forall>i < length xs.
        (\<exists>t \<in> set (plan_targets p). \<exists>c \<in> set (tgt_Credentials t). tgt_Weight t \<noteq> 0 \<and>
           res_Attempt (xs ! i) = candidate_attempt p (int i + 1) t c) \<and>
        (\<forall>j < i. may_follow (xs ! j) (xs ! i)))"

lemma history_Nil [simp]: "history p []" by (simp add: history_def)

lemma history_snoc:
  "history p (xs @ [x]) \<longleftrightarrow> history p xs \<and>
     (\<exists>t \<in> set (plan_targets p). \<exists>c \<in> set (tgt_Credentials t). tgt_Weight t \<noteq> 0 \<and>
        res_Attempt x = candidate_attempt p (int (length xs) + 1) t c) \<and>
     (\<forall>y \<in> set xs. may_follow y x)"
  by (auto simp: history_def nth_append less_Suc_eq all_set_conv_all_nth)

definition loop_inv :: "'w plan \<Rightarrow> progress \<Rightarrow> run_result \<Rightarrow> bool" where
  "loop_inv p st r \<longleftrightarrow>
     history p (run_Attempts r) \<and> int (length (run_Attempts r)) < plan_maxAttempts p \<and>
     (run_Admitted r \<longleftrightarrow> run_Attempts r \<noteq> []) \<and>
     (\<forall>y \<in> set (run_Attempts r). replay_safe (res_Outcome y) \<and>
        attemptKey (res_Attempt y) \<in> attempted st \<and>
        (if out_Failure (res_Outcome y) = CredentialRejected
         then att_CredentialID (res_Attempt y) \<in> credentials st
         else att_ConnectionID (res_Attempt y) \<in> connections st))"

text \<open>What a finished run returns.\<close>

definition run_facts :: "'w plan \<Rightarrow> run_result \<Rightarrow> route_error option \<Rightarrow> bool" where
  "run_facts p r err \<longleftrightarrow>
     history p (run_Attempts r) \<and> int (length (run_Attempts r)) \<le> plan_maxAttempts p \<and>
     (run_Attempts r \<noteq> [] \<longrightarrow> run_Admitted r) \<and>
     run_Stop r \<noteq> NotStopped \<and>
     (run_Stop r = Succeeded \<longrightarrow>
        err = None \<and> run_Attempts r \<noteq> [] \<and> out_Failure (res_Outcome (last (run_Attempts r))) = Success) \<and>
     (run_Stop r = Exhausted \<longrightarrow> err = None \<and> int (length (run_Attempts r)) = plan_maxAttempts p) \<and>
     (run_Stop r \<in> {Canceled, Blocked} \<longrightarrow> err \<noteq> None)"

lemma loop_inv_extend:
  assumes "loop_inv p st r" "selectable p st (int (length (run_Attempts r)) + 1) a weight"
  shows "history p (run_Attempts (add_attempt r a oc))"
proof -
  obtain t c where tc: "t \<in> set (plan_targets p)" "c \<in> set (tgt_Credentials t)" "tgt_Weight t \<noteq> 0"
    "a = candidate_attempt p (int (length (run_Attempts r)) + 1) t c"
    "tgt_ConnectionID t \<notin> connections st" "cred_ID c \<notin> credentials st" "attemptKey a \<notin> attempted st"
    using assms(2) by (auto simp: selectable_def)
  have "att_ConnectionID a \<notin> connections st" "att_CredentialID a \<notin> credentials st"
    using tc by (simp_all add: candidate_attempt_def)
  then have "\<forall>y \<in> set (run_Attempts r). may_follow y \<lparr>res_Attempt = a, res_Outcome = oc\<rparr>"
    using assms(1) tc(7) unfolding loop_inv_def may_follow_def by (auto split: if_splits)
  then show ?thesis using assms(1) tc(1-4) by (auto simp: history_snoc loop_inv_def)
qed

lemma run_step_inv:
  assumes "run_step p h st r w = (res, w')" "loop_inv p st r"
  shows "case res of Inl (r', err) \<Rightarrow> run_facts p r' err | Inr (st', r') \<Rightarrow> loop_inv p st' r'"
proof (cases rule: run_step_cases[OF assms(1)])
  case 1
  then show ?thesis using assms(2) by (auto simp: ended_same_def run_facts_def loop_inv_def)
next
  case (2 a weight oc e)
  then show ?thesis using loop_inv_extend[OF assms(2) 2(1), of oc] assms(2)
    by (auto simp: run_facts_def loop_inv_def)
next
  case (3 a weight oc failed)
  note hist = loop_inv_extend[OF assms(2) 3(1), of oc]
  show ?thesis
  proof (cases res)
    case (Inl e)
    obtain r' err where e: "e = (r', err)" by fastforce
    note j = judge_Inl[OF 3(2)[symmetric, unfolded Inl e]]
    have err: "run_Stop r' \<in> {Succeeded, Exhausted} \<Longrightarrow> err = None"
      using 3(2) unfolding Inl e by (auto simp: judge_def within_budget_def Let_def split: if_splits)
    show ?thesis using assms(2) hist j err by (auto simp: Inl e run_facts_def loop_inv_def)
  next
    case (Inr b)
    obtain st' r' where b: "b = (st', r')" by fastforce
    note j = judge_Inr[OF 3(2)[symmetric, unfolded Inr b]]
    show ?thesis using assms(2) hist j by (auto simp: Inr b loop_inv_def)
  qed
qed

lemma run_loop_facts:
  assumes "run_loop p h st r w = ((r', err), w')" "loop_inv p st r"
  shows "run_facts p r' err"
  using assms
proof (induction p h st r w rule: run_loop.induct)
  case (1 p h st r w)
  obtain res w1 where s: "run_step p h st r w = (res, w1)" by fastforce
  note step = run_step_inv[OF s 1(3)]
  show ?case
  proof (cases res)
    case (Inl e)
    then show ?thesis using 1(2) s step by (auto simp: run_loop.simps)
  next
    case (Inr b)
    obtain st1 r1 where b: "b = (st1, r1)" by fastforce
    have "run_loop p h st1 r1 w1 = ((r', err), w')" using 1(2) s by (simp add: run_loop.simps[of p h st r] Inr b)
    then show ?thesis using 1(1)[OF s[symmetric] Inr b[symmetric]] step by (simp add: Inr b)
  qed
qed

lemma loop_inv_start: "plan_ok p \<Longrightarrow> loop_inv p no_progress no_result"
  by (simp add: loop_inv_def no_progress_def no_result_def plan_ok_def)

definition all_hooks :: "'w calls \<Rightarrow> 'w hooks" where
  "all_hooks c = \<lparr>hook_Eligible = Some (c_eligible c), hook_Prepare = Some (c_prepare c),
     hook_Admit = Some (c_admit c), hook_Execute = Some (c_execute c)\<rparr>"

lemma Run_all_hooks:
  "Run (Some p) (Some (c_poll c)) (all_hooks c) w = run_loop p c no_progress no_result w"
  by (cases c) (simp add: Run_def all_hooks_def)

lemma Run_facts:
  "Run (Some p) (Some (c_poll c)) (all_hooks c) w = ((r, err), w') \<Longrightarrow> plan_ok p \<Longrightarrow> run_facts p r err"
  unfolding Run_all_hooks by (blast intro: run_loop_facts loop_inv_start)

text \<open>Identifiers hold no NUL byte, so distinct keys are distinct pairs.\<close>

lemma attemptKey_inj:
  assumes "attemptKey a = attemptKey b" "CHR 0x00 \<notin> set (att_TargetID a)" "CHR 0x00 \<notin> set (att_TargetID b)"
  shows "att_TargetID a = att_TargetID b \<and> att_CredentialID a = att_CredentialID b"
proof -
  have "takeWhile (\<lambda>c. c \<noteq> CHR 0x00) (attemptKey x) = att_TargetID x" if "CHR 0x00 \<notin> set (att_TargetID x)" for x
    using that unfolding attemptKey_def by (subst takeWhile_append2) auto
  from this[OF assms(2)] this[OF assms(3)] assms(1) show ?thesis by (auto simp: attemptKey_def)
qed

end
