(* ===== verification/Route_Order.thy ===== *)
theory Route_Order
  imports Route_Run
begin

text \<open>
  The order in which \<open>Run\<close> calls its hooks. A plan and its hooks are wrapped so that every call to
  \<open>Prepare\<close>, \<open>Admit\<close> and \<open>Execute\<close> appends an event to a trace beside the world; the wrapping
  leaves the code of \<open>Run\<close> as it is. The lemmas show the trace: each executed attempt right after
  its own successful \<open>Prepare\<close>, one successful \<open>Admit\<close> in between for the first, and at most one
  unfinished permission at the end. The properties of the routing core close the theory.
\<close>

section \<open>Traced hooks\<close>

datatype event = PrepareEv attempt bool | AdmitEv attempt bool | ExecuteEv attempt

type_synonym 'w traced = "'w \<times> event list"

definition quiet :: "('w \<Rightarrow> 'a \<times> 'w) \<Rightarrow> 'w traced \<Rightarrow> 'a \<times> 'w traced" where
  "quiet f = (\<lambda>(w, es). case f w of (x, w') \<Rightarrow> (x, (w', es)))"

definition noted :: "('a \<Rightarrow> event) \<Rightarrow> ('w \<Rightarrow> 'a \<times> 'w) \<Rightarrow> 'w traced \<Rightarrow> 'a \<times> 'w traced" where
  "noted ev f = (\<lambda>(w, es). case f w of (x, w') \<Rightarrow> (x, (w', es @ [ev x])))"

definition traced_plan :: "'w plan \<Rightarrow> 'w traced plan" where
  "traced_plan p = \<lparr>plan_protocol = plan_protocol p, plan_targets = plan_targets p,
     plan_maxAttempts = plan_maxAttempts p, plan_draw = (\<lambda>n. quiet (plan_draw p n))\<rparr>"

definition traced_calls :: "'w calls \<Rightarrow> 'w traced calls" where
  "traced_calls c = \<lparr>c_poll = quiet (c_poll c), c_eligible = (\<lambda>a. quiet (c_eligible c a)),
     c_prepare = (\<lambda>a. noted (PrepareEv a) (c_prepare c a)),
     c_admit = (\<lambda>a. noted (AdmitEv a) (c_admit c a)),
     c_execute = (\<lambda>a. noted (\<lambda>_. ExecuteEv a) (c_execute c a))\<rparr>"

text \<open>The trace of the attempts that were executed; the flag says that admission is still to come.\<close>

fun dispatch_log :: "bool \<Rightarrow> attempt list \<Rightarrow> event list" where
  "dispatch_log admit [] = []"
| "dispatch_log admit (a # as) =
     PrepareEv a True # (if admit then [AdmitEv a True] else []) @ ExecuteEv a # dispatch_log False as"

lemma dispatch_log_snoc:
  "dispatch_log b (as @ [a]) =
     dispatch_log b as @ PrepareEv a True # (if b \<and> as = [] then [AdmitEv a True] else []) @ [ExecuteEv a]"
  by (induction b as rule: dispatch_log.induct) auto

text \<open>What may stand behind the executed attempts: nothing, or one permission that led to none.\<close>

definition open_end :: "attempt_result list \<Rightarrow> event list \<Rightarrow> bool" where
  "open_end xs tail \<longleftrightarrow> tail = [] \<or> (\<exists>a ok. tail = [PrepareEv a ok]) \<or>
     (xs = [] \<and> (\<exists>a ok. tail = [PrepareEv a True, AdmitEv a ok]))"

section \<open>The order of the calls\<close>

lemma quiet_out: "quiet f (w, es) = (x, w') \<longleftrightarrow> (\<exists>v. f w = (x, v) \<and> w' = (v, es))"
  by (auto simp: quiet_def split: prod.splits)

lemma noted_out: "noted ev f (w, es) = (x, w') \<longleftrightarrow> (\<exists>v. f w = (x, v) \<and> w' = (v, es @ [ev x]))"
  by (auto simp: noted_def split: prod.splits)

lemma quiet_keeps: "quiet f w = (x, w') \<Longrightarrow> snd w' = snd w"
  by (cases w) (auto simp: quiet_out)

lemma first_eligible_keeps:
  assumes "first_eligible p (quiet poll) (\<lambda>a. quiet (el a)) st n t cs w = (res, w')"
  shows "snd w' = snd w"
  using assms
proof (induction cs arbitrary: w)
  case Nil
  then show ?case by simp
next
  case (Cons c cs)
  show ?case using Cons.prems Cons.IH
    by (auto simp: Let_def dest!: quiet_keeps split: if_splits prod.splits option.splits sum.splits)
qed

lemma scan_targets_keeps:
  assumes "scan_targets p (quiet poll) (\<lambda>a. quiet (el a)) st n ts cands w = (res, w')"
  shows "snd w' = snd w"
  using assms
proof (induction ts arbitrary: cands w)
  case Nil
  then show ?case by simp
next
  case (Cons t ts)
  obtain r w1 where f: "first_eligible p (quiet poll) (\<lambda>a. quiet (el a)) st n t (tgt_Credentials t) w = (r, w1)"
    by (meson surj_pair)
  show ?case
    using Cons.prems Cons.IH[of cands w] Cons.IH[of _ w1] f first_eligible_keeps[OF f]
    by (auto split: if_splits sum.splits option.splits)
qed

lemma selectAttempt_keeps:
  assumes "selectAttempt (traced_plan p) (quiet poll) (\<lambda>a. quiet (el a)) st n w = (res, w')"
  shows "snd w' = snd w"
proof -
  obtain r w1 where s: "scan_targets (traced_plan p) (quiet poll) (\<lambda>a. quiet (el a)) st n (plan_targets p) [] w = (r, w1)"
    by (meson surj_pair)
  have "plan_draw (traced_plan p) m w2 = (d, w3) \<Longrightarrow> snd w3 = snd w2" for m w2 d w3
    by (auto simp: traced_plan_def dest: quiet_keeps)
  then show ?thesis using assms s scan_targets_keeps[OF s]
    by (auto simp: selectAttempt_def Let_def traced_plan_def dest!: quiet_keeps
        split: sum.splits if_splits prod.splits option.splits)
qed

definition in_order :: "event list \<Rightarrow> run_result \<Rightarrow> event list \<Rightarrow> bool" where
  "in_order es r tail \<longleftrightarrow> es = dispatch_log True (map res_Attempt (run_Attempts r)) @ tail"

definition order_ok :: "run_end + progress \<times> run_result \<Rightarrow> event list \<Rightarrow> bool" where
  "order_ok res es \<longleftrightarrow>
     (case res of
        Inl (r', _) \<Rightarrow> (\<exists>tail. in_order es r' tail \<and> open_end (run_Attempts r') tail)
      | Inr (_, r') \<Rightarrow> in_order es r' [] \<and> run_Admitted r' \<and> run_Attempts r' \<noteq> [])"

lemma order_ok_Inl:
  "in_order es r tail \<Longrightarrow> open_end (run_Attempts r) tail \<Longrightarrow> run_Attempts r' = run_Attempts r \<Longrightarrow>
   order_ok (Inl (r', err)) es"
  by (auto simp: order_ok_def in_order_def)

lemma run_execute_order:
  assumes "run_execute (traced_plan p) (traced_calls c) st r a w = (res, w')" "run_Admitted r"
    and "in_order (snd w) r (PrepareEv a True # (if run_Attempts r = [] then [AdmitEv a True] else []))"
  shows "order_ok res (snd w')"
proof -
  obtain v es where w: "w = (v, es)" by fastforce
  obtain oc err v1 where ex: "c_execute c a v = ((oc, err), v1)" by (metis prod.exhaust)
  have log: "in_order (es @ [ExecuteEv a]) (add_attempt r a oc') []" for oc'
    using assms(3) by (simp add: in_order_def dispatch_log_snoc w)
  have end_ok: "order_ok (judge (traced_plan p) st1 (add_attempt r a oc') a oc' failed) (es @ [ExecuteEv a])" for st1 oc' failed
  proof (cases "judge (traced_plan p) st1 (add_attempt r a oc') a oc' failed")
    case (Inl e)
    obtain r' err' where e: "e = (r', err')" by fastforce
    show ?thesis unfolding Inl e
      by (rule order_ok_Inl[OF log[of oc']]) (simp_all add: open_end_def judge_Inl(1)[OF Inl[unfolded e]])
  next
    case (Inr b)
    obtain st' r' where b: "b = (st', r')" by fastforce
    show ?thesis unfolding Inr b order_ok_def using judge_Inr(2)[OF Inr[unfolded b]] log[of oc'] by simp
  qed
  have stop_ok: "order_ok (Inl ((add_attempt r a oc')\<lparr>run_Stop := s\<rparr>, err')) (es @ [ExecuteEv a])" for oc' s err'
    by (rule order_ok_Inl[OF log[of oc']]) (simp_all add: open_end_def)
  show ?thesis using assms(1,2) ex end_ok stop_ok
    by (auto simp: run_execute_def Let_def traced_calls_def w noted_out quiet_out add_attempt_admitted
        noted_def quiet_def split: prod.splits option.splits if_splits)
qed


lemma blockedResult_keeps:
  assumes "blockedResult (traced_calls c) r err w = ((r', e), w')"
  shows "snd w' = snd w" "run_Attempts r' = run_Attempts r"
  using assms
  by (auto simp: blockedResult_def traced_calls_def dest!: quiet_keeps split: prod.splits option.splits)

lemma run_admit_order:
  assumes "run_admit (traced_plan p) (traced_calls c) st r a w = (res, w')"
    and "run_Admitted r \<longleftrightarrow> run_Attempts r \<noteq> []" "in_order (snd w) r [PrepareEv a True]"
  shows "order_ok res (snd w')"
proof -
  have ready: "order_ok res (snd w')"
    if fin: "(case c_poll (traced_calls c) w1 of
          (Some e, w2) \<Rightarrow> (Inl (r1\<lparr>run_Stop := Canceled\<rparr>, Some (ErrContext e)), w2)
        | (None, w2) \<Rightarrow> run_execute (traced_plan p) (traced_calls c) st r1 a w2) = (res, w')"
      and r1: "run_Admitted r1" "run_Attempts r1 = run_Attempts r"
      and ord: "in_order (snd w1) r1 (PrepareEv a True # (if run_Attempts r1 = [] then [AdmitEv a True] else []))"
    for w1 r1
  proof -
    obtain x w2 where q: "c_poll (traced_calls c) w1 = (x, w2)" by (meson surj_pair)
    have same: "snd w2 = snd w1" using q by (auto simp: traced_calls_def dest: quiet_keeps)
    show ?thesis
    proof (cases x)
      case None
      show ?thesis
        by (rule run_execute_order[of p c st r1 a w2]) (use fin q None r1 ord same in auto)
    next
      case (Some e)
      have eq: "res = Inl (r1\<lparr>run_Stop := Canceled\<rparr>, Some (ErrContext e))" "w' = w2"
        using fin q Some by auto
      show ?thesis unfolding eq same by (rule order_ok_Inl[OF ord]) (auto simp: open_end_def)
    qed
  qed
  show ?thesis
  proof (cases "run_Admitted r")
    case True
    show ?thesis
      by (rule ready[where ?w1.0 = w and ?r1.0 = r]) (use assms True in \<open>auto simp: run_admit_def Let_def\<close>)
  next
    case False
    obtain b w1 where ad: "c_admit (traced_calls c) a w = (b, w1)" by (meson surj_pair)
    have s1: "snd w1 = snd w @ [AdmitEv a b]"
      using ad by (cases w) (auto simp: traced_calls_def noted_out)
    show ?thesis
    proof (cases b)
      case True
      show ?thesis
        by (rule ready[where ?w1.0 = w1 and ?r1.0 = "r\<lparr>run_Admitted := True\<rparr>"])
          (use assms False ad True s1 in \<open>auto simp: run_admit_def Let_def in_order_def\<close>)
    next
      case b: False
      obtain r' e w2 where bl: "blockedResult (traced_calls c) r ErrAdmission w1 = ((r', e), w2)"
        by (metis surj_pair)
      have eq: "res = Inl (r', e)" "w' = w2" using assms(1) False ad b bl by (auto simp: run_admit_def)
      have "in_order (snd w') r [PrepareEv a True, AdmitEv a b]"
        using assms(3) s1 blockedResult_keeps(1)[OF bl] eq(2) by (simp add: in_order_def)
      then show ?thesis unfolding eq(1)
        by (rule order_ok_Inl) (use False assms(2) blockedResult_keeps(2)[OF bl] in \<open>auto simp: open_end_def\<close>)
    qed
  qed
qed

lemma run_prepare_order:
  assumes "run_prepare (traced_plan p) (traced_calls c) st r a w = (res, w')"
    and "run_Admitted r \<longleftrightarrow> run_Attempts r \<noteq> []" "in_order (snd w) r []"
  shows "order_ok res (snd w')"
proof -
  obtain b w1 where pr: "c_prepare (traced_calls c) a w = (b, w1)" by (meson surj_pair)
  have s1: "in_order (snd w1) r [PrepareEv a b]"
    using pr assms(3) by (cases w) (auto simp: traced_calls_def noted_out in_order_def)
  show ?thesis
  proof (cases b)
    case False
    obtain r' e w2 where bl: "blockedResult (traced_calls c) r ErrPrepare w1 = ((r', e), w2)"
      by (metis surj_pair)
    have eq: "res = Inl (r', e)" "w' = w2" using assms(1) pr False bl by (auto simp: run_prepare_def)
    show ?thesis unfolding eq blockedResult_keeps(1)[OF bl]
      by (rule order_ok_Inl[OF s1]) (auto simp: open_end_def blockedResult_keeps(2)[OF bl])
  next
    case True
    obtain x w2 where q: "c_poll (traced_calls c) w1 = (x, w2)" by (meson surj_pair)
    have same: "snd w2 = snd w1" using q by (auto simp: traced_calls_def dest: quiet_keeps)
    show ?thesis
    proof (cases x)
      case None
      show ?thesis
        by (rule run_admit_order[of p c st r a w2]) (use assms pr True q None s1 same in \<open>auto simp: run_prepare_def\<close>)
    next
      case (Some e)
      have eq: "res = Inl (r\<lparr>run_Stop := Canceled\<rparr>, Some (ErrContext e))" "w' = w2"
        using assms(1) pr True q Some by (auto simp: run_prepare_def)
      show ?thesis unfolding eq same by (rule order_ok_Inl[OF s1]) (auto simp: open_end_def)
    qed
  qed
qed


lemma run_step_order:
  assumes "run_step (traced_plan p) (traced_calls c) st r w = (res, w')"
    and "run_Admitted r \<longleftrightarrow> run_Attempts r \<noteq> []" "in_order (snd w) r []"
  shows "order_ok res (snd w')"
proof -
  obtain x w1 where q: "c_poll (traced_calls c) w = (x, w1)" by (meson surj_pair)
  have s1: "snd w1 = snd w" using q by (auto simp: traced_calls_def dest: quiet_keeps)
  have stop: "order_ok (Inl (r\<lparr>run_Stop := s\<rparr>, e)) (snd w)" for s e
    by (rule order_ok_Inl[OF assms(3)]) (auto simp: open_end_def)
  show ?thesis
  proof (cases x)
    case (Some e)
    have "res = Inl (r\<lparr>run_Stop := Canceled\<rparr>, Some (ErrContext e))" "w' = w1"
      using assms(1) q Some by (auto simp: run_step_def)
    then show ?thesis using stop s1 by simp
  next
    case None
    obtain sel w2 where sl: "selectAttempt (traced_plan p) (c_poll (traced_calls c)) (c_eligible (traced_calls c)) st
        (int (length (run_Attempts r)) + 1) w1 = (sel, w2)" by (meson surj_pair)
    have s2: "snd w2 = snd w"
      using selectAttempt_keeps[of p "c_poll c" "c_eligible c"] sl s1 by (simp add: traced_calls_def)
    consider (err) e where "sel = Inl e" | (none) "sel = Inr None" | (some) a where "sel = Inr (Some a)"
      by (metis old.sum.exhaust option.exhaust)
    then show ?thesis
    proof cases
      case err
      obtain y w3 where q2: "c_poll (traced_calls c) w2 = (y, w3)" by (meson surj_pair)
      have "snd w3 = snd w2" using q2 by (auto simp: traced_calls_def dest: quiet_keeps)
      then show ?thesis using assms(1) q None sl err q2 s2 stop
        by (auto simp: run_step_def split: option.splits)
    next
      case none
      then show ?thesis using assms(1) q None sl s2 stop by (auto simp: run_step_def)
    next
      case some
      show ?thesis
        by (rule run_prepare_order[of p c st r a w2])
          (use assms q None sl some s2 in \<open>auto simp: run_step_def\<close>)
    qed
  qed
qed

lemma run_loop_order:
  assumes "run_loop (traced_plan p) (traced_calls c) st r w = ((r', err), w')"
    and "run_Admitted r \<longleftrightarrow> run_Attempts r \<noteq> []" "in_order (snd w) r []"
  shows "\<exists>tail. in_order (snd w') r' tail \<and> open_end (run_Attempts r') tail"
  using assms
proof (induction "traced_plan p" "traced_calls c" st r w rule: run_loop.induct)
  case (1 st r w)
  obtain res w1 where s: "run_step (traced_plan p) (traced_calls c) st r w = (res, w1)" by (meson surj_pair)
  note step = run_step_order[OF s 1(3,4)]
  show ?case
  proof (cases res)
    case (Inl e)
    then show ?thesis using 1(2) s step
      by (auto simp: run_loop.simps[of "traced_plan p"] order_ok_def)
  next
    case (Inr b)
    obtain st1 r1 where b: "b = (st1, r1)" by fastforce
    have next_run: "run_loop (traced_plan p) (traced_calls c) st1 r1 w1 = ((r', err), w')"
      using 1(2) s by (simp add: run_loop.simps[of "traced_plan p" _ st r] Inr b)
    show ?thesis
      by (rule 1(1)[OF s[symmetric] Inr b[symmetric] next_run]) (use step in \<open>auto simp: Inr b order_ok_def\<close>)
  qed
qed


section \<open>The draw of a selection\<close>

abbreviation with_draw :: "'w plan \<Rightarrow> 'w draw \<Rightarrow> 'w plan" where
  "with_draw p d \<equiv> p\<lparr>plan_draw := d\<rparr>"

lemma first_eligible_draw:
  "first_eligible (with_draw p d) poll el st n t cs w = first_eligible p poll el st n t cs w"
proof (induction cs arbitrary: w)
  case Nil
  then show ?case by simp
next
  case (Cons c cs)
  have "candidate_attempt (with_draw p d) n t c = candidate_attempt p n t c"
    by (simp add: candidate_attempt_def)
  then show ?case by (simp only: first_eligible.simps Cons.IH)
qed

lemma scan_targets_draw:
  "scan_targets (with_draw p d) poll el st n ts cands w = scan_targets p poll el st n ts cands w"
  by (induction p poll el st n ts cands w rule: scan_targets.induct)
    (simp_all add: first_eligible_draw split: sum.splits option.splits prod.splits)

lemma scan_targets_weights:
  assumes "scan_targets p poll el st n ts cands w = (Inr (Inr cs), w')"
    "\<forall>t \<in> set ts. 0 \<le> tgt_Weight t" "\<forall>x \<in> set cands. 0 \<le> snd x"
  shows "\<forall>x \<in> set cs. 0 \<le> snd x"
  using assms
proof (induction ts arbitrary: cands w)
  case Nil
  then show ?case by simp
next
  case (Cons t ts)
  obtain r w1 where f: "first_eligible p poll el st n t (tgt_Credentials t) w = (r, w1)"
    by (meson surj_pair)
  show ?case using Cons.prems f Cons.IH[of cands w] Cons.IH[of cands w1]
      Cons.IH[of "cands @ [(the (projr r), tgt_Weight t)]" w1]
    by (auto split: if_splits sum.splits option.splits)
qed

section \<open>Properties\<close>

text \<open>C23. Every plan \<open>New\<close> returns is well-formed: the protocol is set, the budget is between one
  and four attempts, the targets are the given ones in their order, with pairwise different
  identifiers, weights of at most 100 and credentials sorted by priority and identifier, and a
  credential belongs to one connection only.\<close>
theorem New_well_formed:
  assumes "New crypto proto targets opts = Inr p"
  shows "plan_ok p \<and> map tgt_ID (plan_targets p) = map tgt_ID targets \<and>
    plan_maxAttempts p = opt_MaxAttempts opts \<and> plan_protocol p = proto"
  using New_plan_ok[OF assms] by blast

definition demo_draw :: "unit draw" where "demo_draw = (\<lambda>n w. (Some (n - 1), w))"

definition demo_targets :: "target list" where
  "demo_targets =
     [\<lparr>tgt_ID = ''t1'', tgt_ConnectionID = ''c1'', tgt_Protocol = ''openai'', tgt_Weight = 3,
       tgt_Credentials = [\<lparr>cred_ID = ''k2'', cred_Priority = 1\<rparr>, \<lparr>cred_ID = ''k1'', cred_Priority = 0\<rparr>]\<rparr>,
      \<lparr>tgt_ID = ''t2'', tgt_ConnectionID = ''c2'', tgt_Protocol = ''openai'', tgt_Weight = 1,
       tgt_Credentials = [\<lparr>cred_ID = ''k3'', cred_Priority = 0\<rparr>]\<rparr>]"

definition demo_plan :: "unit plan" where
  "demo_plan = \<lparr>plan_protocol = ''openai'',
     plan_targets = map (\<lambda>t. t\<lparr>tgt_Credentials := sort_credentials (tgt_Credentials t)\<rparr>) demo_targets,
     plan_maxAttempts = 3, plan_draw = demo_draw\<rparr>"

lemma demo_New: "New demo_draw ''openai'' demo_targets \<lparr>opt_MaxAttempts = 3, opt_Draw = None\<rparr> = Inr demo_plan"
  by (simp add: New_def demo_plan_def demo_targets_def target_step_def credential_step_def validID_def
      MaxAttempts_def maxTargets_def maxCredentials_def)

lemma New_well_formed_witness: "plan_ok demo_plan \<and> plan_maxAttempts demo_plan = 3"
  using New_well_formed[OF demo_New] by simp

text \<open>C4. A run over a plan from \<open>New\<close> with all hooks present ends, with a stop reason, at most as
  many attempts as the plan allows (never more than four), numbered from one in their order, each
  on a target of the plan with a positive weight and one of its credentials, no target and
  credential twice. An attempt is followed by another only if its outcome is safe to replay (no
  output, no final usage, not sent or rejected without work), and then on another credential after
  a rejected one, on another connection otherwise. \<open>Succeeded\<close> means the last attempt reported
  success, \<open>Exhausted\<close> that the budget is used up, a cancelled or blocked run has an error, and
  whatever was executed was admitted.\<close>
theorem Run_history:
  assumes "New crypto proto targets opts = Inr p"
    and "Run (Some p) (Some (c_poll c)) (all_hooks c) w = ((r, err), w')"
  shows "int (length (run_Attempts r)) \<le> opt_MaxAttempts opts \<and> length (run_Attempts r) \<le> 4 \<and>
    history p (run_Attempts r) \<and>
    distinct (map (\<lambda>x. (att_TargetID (res_Attempt x), att_CredentialID (res_Attempt x))) (run_Attempts r)) \<and>
    run_Stop r \<noteq> NotStopped \<and> (run_Attempts r \<noteq> [] \<longrightarrow> run_Admitted r) \<and>
    (run_Stop r = Succeeded \<longrightarrow>
       err = None \<and> run_Attempts r \<noteq> [] \<and> out_Failure (res_Outcome (last (run_Attempts r))) = Success) \<and>
    (run_Stop r = Exhausted \<longrightarrow> err = None \<and> int (length (run_Attempts r)) = opt_MaxAttempts opts) \<and>
    (run_Stop r \<in> {Canceled, Blocked} \<longrightarrow> err \<noteq> None)"
proof -
  note p = New_plan_ok[OF assms(1)]
  have facts: "run_facts p r err" by (rule Run_facts[OF assms(2) p(1)])
  then have hist: "history p (run_Attempts r)" by (simp add: run_facts_def)
  let ?xs = "run_Attempts r"
  have "distinct (map (attemptKey \<circ> res_Attempt) ?xs)"
    unfolding distinct_conv_nth
  proof (intro allI impI)
    fix i j assume ij: "i < length (map (attemptKey \<circ> res_Attempt) ?xs)"
      "j < length (map (attemptKey \<circ> res_Attempt) ?xs)" "i \<noteq> j"
    then have "may_follow (?xs ! i) (?xs ! j) \<or> may_follow (?xs ! j) (?xs ! i)"
      using hist unfolding history_def by (metis length_map linorder_neqE_nat)
    then show "map (attemptKey \<circ> res_Attempt) ?xs ! i \<noteq> map (attemptKey \<circ> res_Attempt) ?xs ! j"
      using ij by (auto simp: may_follow_def)
  qed
  then have "distinct (map (\<lambda>x. (att_TargetID (res_Attempt x), att_CredentialID (res_Attempt x))) ?xs)"
    unfolding distinct_map by (auto simp: inj_on_def attemptKey_def)
  moreover have "plan_maxAttempts p \<le> 4" using p(1) by (simp add: plan_ok_def MaxAttempts_def)
  ultimately show ?thesis using facts p(3) by (auto simp: run_facts_def)
qed

definition demo_oc :: "string \<Rightarrow> string \<Rightarrow> outcome" where
  "demo_oc f w = \<lparr>out_Failure = f, out_Work = w, out_OutputStarted = False, out_FinalUsageKnown = False\<rparr>"

definition demo_calls :: "unit calls" where
  "demo_calls = \<lparr>c_poll = (\<lambda>w. (None, w)), c_eligible = (\<lambda>a w. (Inr True, w)),
     c_prepare = (\<lambda>a w. (True, w)), c_admit = (\<lambda>a w. (True, w)),
     c_execute = (\<lambda>a w.
       ((if att_CredentialID a = ''k3'' then demo_oc RateLimited NotSent
         else if att_CredentialID a = ''k1'' then demo_oc CredentialRejected RejectedWithoutWork
         else demo_oc Success Completed, False), w))\<rparr>"

definition demo_attempt :: "int \<Rightarrow> string \<Rightarrow> string \<Rightarrow> string \<Rightarrow> attempt" where
  "demo_attempt n t c k =
     \<lparr>att_Number = n, att_TargetID = t, att_ConnectionID = c, att_CredentialID = k, att_Protocol = ''openai''\<rparr>"

definition demo_result :: run_result where
  "demo_result = \<lparr>run_Admitted = True, run_Attempts =
     [\<lparr>res_Attempt = demo_attempt 1 ''t2'' ''c2'' ''k3'', res_Outcome = demo_oc RateLimited NotSent\<rparr>,
      \<lparr>res_Attempt = demo_attempt 2 ''t1'' ''c1'' ''k1'', res_Outcome = demo_oc CredentialRejected RejectedWithoutWork\<rparr>,
      \<lparr>res_Attempt = demo_attempt 3 ''t1'' ''c1'' ''k2'', res_Outcome = demo_oc Success Completed\<rparr>],
     run_Stop = Succeeded\<rparr>"

lemma demo_Run: "Run (Some demo_plan) (Some (c_poll demo_calls)) (all_hooks demo_calls) () = ((demo_result, None), ())"
  by code_simp

lemma Run_history_witness:
  "length (run_Attempts demo_result) = 3 \<and> history demo_plan (run_Attempts demo_result) \<and>
   run_Admitted demo_result"
  using Run_history[OF demo_New demo_Run] by (auto simp: demo_result_def)

text \<open>C5. The hooks of a run are called in one order only: the trace of \<open>Prepare\<close>, \<open>Admit\<close> and
  \<open>Execute\<close> is the executed attempts of the result, each directly after its own successful
  \<open>Prepare\<close>, the first with the one successful \<open>Admit\<close> between, and after them at most one
  permission that was not used. So no attempt is sent without a permission of its own, and a
  request is admitted at most once.\<close>
theorem Run_call_order:
  assumes "Run (Some (traced_plan p)) (Some (c_poll (traced_calls c))) (all_hooks (traced_calls c)) (w, [])
    = ((r, err), (w', trace))"
  shows "\<exists>tail. trace = dispatch_log True (map res_Attempt (run_Attempts r)) @ tail \<and>
    open_end (run_Attempts r) tail"
proof -
  have "run_loop (traced_plan p) (traced_calls c) no_progress no_result (w, []) = ((r, err), (w', trace))"
    using assms by (simp only: Run_all_hooks)
  from run_loop_order[OF this] show ?thesis by (simp add: no_result_def in_order_def)
qed

lemma Run_call_order_witness:
  "\<exists>tail. [PrepareEv (demo_attempt 1 ''t2'' ''c2'' ''k3'') True, AdmitEv (demo_attempt 1 ''t2'' ''c2'' ''k3'') True,
      ExecuteEv (demo_attempt 1 ''t2'' ''c2'' ''k3''),
      PrepareEv (demo_attempt 2 ''t1'' ''c1'' ''k1'') True, ExecuteEv (demo_attempt 2 ''t1'' ''c1'' ''k1''),
      PrepareEv (demo_attempt 3 ''t1'' ''c1'' ''k2'') True, ExecuteEv (demo_attempt 3 ''t1'' ''c1'' ''k2'')]
    = dispatch_log True (map res_Attempt (run_Attempts demo_result)) @ tail \<and>
    open_end (run_Attempts demo_result) tail"
  by (rule Run_call_order[of demo_plan demo_calls "()" demo_result None "()"]) code_simp

text \<open>C22. The draw is fair: when the scan of the targets leaves the candidates \<open>cs\<close>, then of the
  values a draw can return exactly as many select an attempt as its candidate's weight; and a draw
  in range always selects one.\<close>
theorem selectAttempt_weighted:
  assumes "scan_targets p poll eligible st number (plan_targets p) [] w = (Inr (Inr cs), w1)"
    and "cs \<noteq> []" "poll w1 = (None, w2)" "plan_ok p"
  shows "int (card {v. fst (selectAttempt (with_draw p (\<lambda>_ w. (Some v, w))) poll eligible st number w) = Inr (Some a)})
      = weight_of a cs \<and>
    (\<forall>v. 0 \<le> v \<and> v < sum_list (map snd cs) \<longrightarrow>
      (\<exists>a. fst (selectAttempt (with_draw p (\<lambda>_ w. (Some v, w))) poll eligible st number w) = Inr (Some a)))"
proof -
  define drawn where
    "drawn = (\<lambda>v. fst (selectAttempt (with_draw p (\<lambda>_ w. (Some v, w))) poll eligible st number w))"
  have drawn: "drawn v = (if v < 0 \<or> v \<ge> sum_list (map snd cs) then Inl ErrRandom
      else case weighted_pick cs v of None \<Rightarrow> Inl ErrRandom | Some a \<Rightarrow> Inr (Some a))" for v
    using assms(1-3) by (simp add: drawn_def selectAttempt_def scan_targets_draw Let_def split: option.splits)
  have ok: "\<forall>x \<in> set cs. 0 \<le> snd x"
    by (rule scan_targets_weights[OF assms(1)]) (use assms(4) in \<open>auto simp: plan_ok_def target_ok_def\<close>)
  have "{v. drawn v = Inr (Some a)} = {v. 0 \<le> v \<and> v < sum_list (map snd cs) \<and> weighted_pick cs v = Some a}"
    by (auto simp: drawn split: option.splits if_splits)
  then have "int (card {v. drawn v = Inr (Some a)}) = weight_of a cs"
    using weighted_pick_count[OF ok] by simp
  moreover have "\<exists>a. drawn v = Inr (Some a)" if "0 \<le> v" "v < sum_list (map snd cs)" for v
    using weighted_pick_total that by (fastforce simp: drawn)
  ultimately show ?thesis by (simp add: drawn_def)
qed

lemma demo_scan:
  "scan_targets demo_plan (c_poll demo_calls) (c_eligible demo_calls) no_progress 1 (plan_targets demo_plan) [] ()
   = (Inr (Inr [(demo_attempt 1 ''t1'' ''c1'' ''k1'', 3), (demo_attempt 1 ''t2'' ''c2'' ''k3'', 1)]), ())"
  by code_simp

lemma selectAttempt_weighted_witness:
  "card {v. fst (selectAttempt (with_draw demo_plan (\<lambda>_ w. (Some v, w))) (c_poll demo_calls)
       (c_eligible demo_calls) no_progress 1 ()) = Inr (Some (demo_attempt 1 ''t1'' ''c1'' ''k1''))} = 3"
proof -
  have "plan_ok demo_plan" by (rule New_plan_ok[OF demo_New])
  moreover have "weight_of (demo_attempt 1 ''t1'' ''c1'' ''k1'')
      [(demo_attempt 1 ''t1'' ''c1'' ''k1'', 3), (demo_attempt 1 ''t2'' ''c2'' ''k3'', 1)] = 3"
    by (simp add: weight_of_def demo_attempt_def)
  ultimately show ?thesis
    using selectAttempt_weighted[OF demo_scan, of "()" "demo_attempt 1 ''t1'' ''c1'' ''k1''"]
    by (simp add: demo_calls_def)
qed

end
