(* ===== verification/Limits_Policy.thy ===== *)
theory Limits_Policy
  imports Decimals "HOL-Library.Word"
begin

text \<open>
  Admission policies, \<open>pkg/limits\<close>: normalisation and comparison of policies
  (\<open>policy.go\<close>, \<open>quota.go\<close>) and the trusted client address (\<open>client_ip.go\<close>). Addresses and prefixes of
  \<open>net/netip\<close> are words with their operations written out; reading and printing their texts,
  \<open>net.SplitHostPort\<close> and the general number syntax of \<open>big.Rat.SetString\<close> are the record
  \<open>texts\<close>, with what the package relies on as the locale \<open>texts_ok\<close>.
\<close>

section \<open>Addresses\<close>

datatype addr = NoAddr | V4 "32 word" | V6 "128 word" string

fun addr_zone :: "addr \<Rightarrow> string" where
  "addr_zone (V6 _ z) = z"
| "addr_zone _ = ''''"

fun addr_bits :: "addr \<Rightarrow> nat" where
  "addr_bits NoAddr = 0"
| "addr_bits (V4 _) = 32"
| "addr_bits (V6 _ _) = 128"

text \<open>\<open>::ffff:0:0/96\<close>.\<close>

fun is4in6 :: "addr \<Rightarrow> bool" where
  "is4in6 (V6 a _) = (drop_bit 32 a = 65535)"
| "is4in6 _ = False"

fun unmap :: "addr \<Rightarrow> addr" where
  "unmap (V6 a z) = (if is4in6 (V6 a z) then V4 (ucast a) else V6 a z)"
| "unmap a = a"

record prefix =
  px_addr :: addr
  px_bits :: nat

definition top_bits :: "nat \<Rightarrow> 'a::len word \<Rightarrow> 'a word" where
  "top_bits b a = push_bit (LENGTH('a) - b) (drop_bit (LENGTH('a) - b) a)"

fun masked_addr :: "nat \<Rightarrow> addr \<Rightarrow> addr" where
  "masked_addr b NoAddr = NoAddr"
| "masked_addr b (V4 a) = V4 (top_bits b a)"
| "masked_addr b (V6 a z) = V6 (top_bits b a) z"

definition masked :: "prefix \<Rightarrow> prefix" where
  "masked p = p\<lparr>px_addr := masked_addr (px_bits p) (px_addr p)\<rparr>"

text \<open>\<open>Prefix.Contains\<close>: same family, no zone, the same leading bits.\<close>

fun contains_addr :: "prefix \<Rightarrow> addr \<Rightarrow> bool" where
  "contains_addr p (V4 x) =
     (case px_addr p of V4 a \<Rightarrow> px_bits p \<le> 32 \<and> top_bits (px_bits p) a = top_bits (px_bits p) x | _ \<Rightarrow> False)"
| "contains_addr p (V6 x z) =
     (z = '''' \<and> (case px_addr p of V6 a _ \<Rightarrow> px_bits p \<le> 128 \<and> top_bits (px_bits p) a = top_bits (px_bits p) x | _ \<Rightarrow> False))"
| "contains_addr p NoAddr = False"

record texts =
  t_addr :: "string \<Rightarrow> addr option"
  t_prefix :: "string \<Rightarrow> prefix option"
  t_show :: "prefix \<Rightarrow> string"
  t_host :: "string \<Rightarrow> string option"
  t_rat :: "string \<Rightarrow> rat option"

section \<open>Policies\<close>

definition MaxInteger :: int where "MaxInteger = 9007199254740991"
definition MonthlyBehaviorStop :: string where "MonthlyBehaviorStop = ''stop''"
definition MonthlyBehaviorAlertOnly :: string where "MonthlyBehaviorAlertOnly = ''alert_only''"

datatype policy_error = PolicyInvalid

definition CanonicalMonthlyBehavior :: "string \<Rightarrow> policy_error + string" where
  "CanonicalMonthlyBehavior value =
     (if value = '''' \<or> value = MonthlyBehaviorStop then Inr ''''
      else if value = MonthlyBehaviorAlertOnly then Inr value
      else Inl PolicyInvalid)"

definition StoredMonthlyBehavior :: "string \<Rightarrow> string" where
  "StoredMonthlyBehavior value = (if value = '''' then MonthlyBehaviorStop else value)"

record policy =
  p_Tokens5H :: "int option"
  p_Tokens7D :: "int option"
  p_TokensMonthBehavior :: string
  p_MoneyMonthBehavior :: string
  p_TokensMonth :: "int option"
  p_TPM :: "int option"
  p_MoneyMonth :: "string option"
  p_Currency :: string
  p_RPM :: "int option"
  p_Concurrency :: "int option"
  p_IPMode :: string
  p_IPRanges :: "string list"

definition in_range :: "int option \<Rightarrow> bool" where
  "in_range v = (case v of None \<Rightarrow> True | Some n \<Rightarrow> 0 \<le> n \<and> n \<le> MaxInteger)"

definition ParseNetwork :: "texts \<Rightarrow> string \<Rightarrow> policy_error + prefix" where
  "ParseNetwork T raw =
     (case t_addr T raw of
        Some a \<Rightarrow>
          if addr_zone a \<noteq> '''' then Inl PolicyInvalid
          else let a' = unmap a in Inr \<lparr>px_addr = a', px_bits = addr_bits a'\<rparr>
      | None \<Rightarrow>
          (case t_prefix T raw of
             None \<Rightarrow> Inl PolicyInvalid
           | Some p \<Rightarrow>
               if addr_zone (px_addr p) \<noteq> '''' \<or> is4in6 (px_addr p) then Inl PolicyInvalid
               else Inr (masked p)))"

definition normalizeQuota :: "policy \<Rightarrow> policy_error + policy" where
  "normalizeQuota p =
     (if \<not> (in_range (p_Tokens5H p) \<and> in_range (p_Tokens7D p) \<and> in_range (p_TokensMonth p) \<and> in_range (p_TPM p))
      then Inl PolicyInvalid
      else case p_MoneyMonth p of
          None \<Rightarrow> Inr (p\<lparr>p_Currency := ''''\<rparr>)
        | Some money \<Rightarrow>
            (case Decimal money of
               Inl _ \<Rightarrow> Inl PolicyInvalid
             | Inr amount \<Rightarrow>
                 if \<not> Currency (p_Currency p) then Inl PolicyInvalid
                 else Inr (p\<lparr>p_MoneyMonth := Some amount\<rparr>)))"

definition range_step :: "texts \<Rightarrow> string \<Rightarrow> string list \<Rightarrow> policy_error + string list" where
  "range_step T raw unique =
     bindE (ParseNetwork T raw) (\<lambda>p. Inr (List.insert (t_show T p) unique))"

definition Normalize :: "texts \<Rightarrow> policy \<Rightarrow> policy_error + policy" where
  "Normalize T p =
     bindE (CanonicalMonthlyBehavior (p_TokensMonthBehavior p)) (\<lambda>tb.
     bindE (CanonicalMonthlyBehavior (p_MoneyMonthBehavior p)) (\<lambda>mb.
       if \<not> (in_range (p_RPM p) \<and> in_range (p_Concurrency p)) then Inl PolicyInvalid
       else let mode = (if p_IPMode p = '''' then ''none'' else p_IPMode p) in
         if mode \<noteq> ''none'' \<and> mode \<noteq> ''allowlist'' \<and> mode \<noteq> ''denylist'' then Inl PolicyInvalid
         else if length (p_IPRanges p) > 128 \<or> (mode = ''none'' \<and> p_IPRanges p \<noteq> []) \<or>
             (mode \<noteq> ''none'' \<and> p_IPRanges p = []) then Inl PolicyInvalid
         else bindE (foldE (range_step T) (p_IPRanges p) []) (\<lambda>unique.
           normalizeQuota (p\<lparr>p_TokensMonthBehavior := tb, p_MoneyMonthBehavior := mb,
             p_IPMode := mode, p_IPRanges := sort unique\<rparr>))))"

fun match_ranges :: "texts \<Rightarrow> addr \<Rightarrow> string list \<Rightarrow> bool \<Rightarrow> bool option" where
  "match_ranges T a [] matched = Some matched"
| "match_ranges T a (raw # rest) matched =
     (case t_prefix T raw of
        None \<Rightarrow> None
      | Some p \<Rightarrow> match_ranges T a rest (matched \<or> contains_addr p (unmap a)))"

definition Allows :: "texts \<Rightarrow> policy \<Rightarrow> addr \<Rightarrow> bool" where
  "Allows T p a =
     (if p_IPMode p = ''none'' \<or> p_IPMode p = '''' then True
      else if a = NoAddr \<or> addr_zone a \<noteq> '''' then False
      else case match_ranges T a (p_IPRanges p) False of
          None \<Rightarrow> False
        | Some matched \<Rightarrow> (p_IPMode p = ''allowlist'' \<and> matched) \<or> (p_IPMode p = ''denylist'' \<and> \<not> matched))"

definition Minimum :: "int option \<Rightarrow> int option \<Rightarrow> int option" where
  "Minimum a b =
     (case a of
        None \<Rightarrow> b
      | Some x \<Rightarrow> (case b of None \<Rightarrow> a | Some y \<Rightarrow> if x < y then a else b))"

definition MoneyMinimum :: "texts \<Rightarrow> string option \<Rightarrow> string option \<Rightarrow> string option" where
  "MoneyMinimum T a b =
     (case a of
        None \<Rightarrow> b
      | Some x \<Rightarrow>
          (case b of
             None \<Rightarrow> a
           | Some y \<Rightarrow>
               (case t_rat T x of
                  None \<Rightarrow> None
                | Some left \<Rightarrow>
                    (case t_rat T y of
                       None \<Rightarrow> None
                     | Some right \<Rightarrow> if left < right then a else b))))"

definition exceeds :: "int option \<Rightarrow> int option \<Rightarrow> bool" where
  "exceeds parent child \<longleftrightarrow> (\<exists>p c. parent = Some p \<and> child = Some c \<and> c > p)"

lemma exceeds_code [code]:
  "exceeds parent child = (case (parent, child) of (Some p, Some c) \<Rightarrow> c > p | _ \<Rightarrow> False)"
  by (auto simp: exceeds_def split: option.splits)

definition narrowerQuota :: "texts \<Rightarrow> policy \<Rightarrow> policy \<Rightarrow> bool" where
  "narrowerQuota T parent child =
     (let monthly = (if p_TokensMonthBehavior parent = MonthlyBehaviorAlertOnly then None else p_TokensMonth parent) in
      if exceeds (p_Tokens5H parent) (p_Tokens5H child) \<or> exceeds (p_Tokens7D parent) (p_Tokens7D child) \<or>
         exceeds monthly (p_TokensMonth child) \<or> exceeds (p_TPM parent) (p_TPM child)
      then False
      else case (p_MoneyMonth parent, p_MoneyMonth child) of
          (Some pm, Some cm) \<Rightarrow>
            if p_Currency parent \<noteq> p_Currency child then False
            else (case t_rat T pm of
                None \<Rightarrow> False
              | Some left \<Rightarrow>
                  (case t_rat T cm of
                     None \<Rightarrow> False
                   | Some right \<Rightarrow>
                       \<not> (p_MoneyMonthBehavior parent \<noteq> MonthlyBehaviorAlertOnly \<and> right > left)))
        | _ \<Rightarrow> True)"

definition Narrower :: "texts \<Rightarrow> policy \<Rightarrow> policy \<Rightarrow> bool" where
  "Narrower T parent child =
     (if exceeds (p_RPM parent) (p_RPM child) \<or> exceeds (p_Concurrency parent) (p_Concurrency child)
      then False else narrowerQuota T parent child)"

definition HasTokenQuota :: "policy \<Rightarrow> bool" where
  "HasTokenQuota p \<longleftrightarrow>
     p_Tokens5H p \<noteq> None \<or> p_Tokens7D p \<noteq> None \<or> p_TokensMonth p \<noteq> None \<or> p_TPM p \<noteq> None"

definition HasQuota :: "policy \<Rightarrow> bool" where
  "HasQuota p \<longleftrightarrow> HasTokenQuota p \<or> p_MoneyMonth p \<noteq> None"

section \<open>The client address\<close>

record request =
  r_RemoteAddr :: string
  r_ForwardedFor :: "string list"

definition ParseTrustedProxies :: "texts \<Rightarrow> string list \<Rightarrow> policy_error + prefix list" where
  "ParseTrustedProxies T raw =
     (if length raw > 128 then Inl PolicyInvalid
      else foldE (\<lambda>entry result. bindE (ParseNetwork T entry) (\<lambda>p. Inr (result @ [p]))) raw [])"

definition isTrusted :: "prefix list \<Rightarrow> addr \<Rightarrow> bool" where
  "isTrusted trusted a \<longleftrightarrow> (\<exists>p \<in> set trusted. contains_addr p a)"

text \<open>\<open>strings.Split\<close> at a comma, \<open>strings.TrimSpace\<close> on ASCII texts.\<close>

fun split_at :: "char \<Rightarrow> string \<Rightarrow> string list" where
  "split_at c [] = [[]]"
| "split_at c (x # xs) =
     (if x = c then [] # split_at c xs
      else case split_at c xs of [] \<Rightarrow> [[x]] | w # ws \<Rightarrow> (x # w) # ws)"

definition chain_step :: "texts \<Rightarrow> string \<Rightarrow> addr list \<Rightarrow> policy_error + addr list" where
  "chain_step T entry chain =
     (case t_addr T (trim_space entry) of
        None \<Rightarrow> Inl PolicyInvalid
      | Some a \<Rightarrow> if addr_zone a \<noteq> '''' then Inl PolicyInvalid else Inr (chain @ [unmap a]))"

definition ClientIP :: "texts \<Rightarrow> request \<Rightarrow> prefix list \<Rightarrow> policy_error + addr" where
  "ClientIP T request trusted =
     (case t_host T (r_RemoteAddr request) of
        None \<Rightarrow> Inl PolicyInvalid
      | Some host \<Rightarrow>
          (case t_addr T host of
             None \<Rightarrow> Inl PolicyInvalid
           | Some a \<Rightarrow>
               if addr_zone a \<noteq> '''' then Inl PolicyInvalid
               else let peer = unmap a in
                 if \<not> isTrusted trusted peer then Inr peer
                 else (case r_ForwardedFor request of
                     [value] \<Rightarrow>
                       if length value > 1024 then Inl PolicyInvalid
                       else let entries = split_at CHR '','' value in
                         if length entries > 16 then Inl PolicyInvalid
                         else bindE (foldE (chain_step T) entries []) (\<lambda>chain.
                           case find (\<lambda>x. \<not> isTrusted trusted x) (rev chain) of
                             None \<Rightarrow> Inl PolicyInvalid
                           | Some x \<Rightarrow> Inr x)
                   | _ \<Rightarrow> Inl PolicyInvalid)))"

section \<open>What the texts promise\<close>

text \<open>Printing a prefix without a zone and without host bits and reading it gives it back; a decimal
  text reads as its value.\<close>

definition plain_prefix :: "prefix \<Rightarrow> bool" where
  "plain_prefix p \<longleftrightarrow> px_addr p \<noteq> NoAddr \<and> addr_zone (px_addr p) = '''' \<and> \<not> is4in6 (px_addr p) \<and>
     px_bits p \<le> addr_bits (px_addr p) \<and> masked p = p"

locale texts_ok =
  fixes T :: texts
  assumes show_prefix: "plain_prefix p \<Longrightarrow> t_prefix T (t_show T p) = Some p"
    and show_not_addr: "plain_prefix p \<Longrightarrow> t_addr T (t_show T p) = None"
    and prefix_bits: "t_prefix T s = Some p \<Longrightarrow> px_addr p \<noteq> NoAddr \<and> px_bits p \<le> addr_bits (px_addr p)"
    and addr_valid: "t_addr T s = Some a \<Longrightarrow> a \<noteq> NoAddr"
    and rat_decimal: "decimal_match 17 s \<Longrightarrow> t_rat T s = Some (rat_of_decimal s)"

end
