(* ===== verification/Limits_Policy_Facts.thy ===== *)
theory Limits_Policy_Facts
  imports Limits_Policy Decimal_Facts
begin

text \<open>
  The properties of \<open>pkg/limits\<close>: normal forms, the meaning of the network lists, narrowing against
  the effective minimum, and the client address that a forged header cannot move.
\<close>

section \<open>Masks\<close>

lemma top_bits_idem: "top_bits b (top_bits b a) = top_bits b (a :: 'a::len word)"
  by (rule bit_word_eqI) (auto simp: top_bits_def bit_push_bit_iff bit_drop_bit_eq)

lemma masked_idem: "masked (masked p) = masked p"
  by (cases "px_addr p") (simp_all add: masked_def top_bits_idem)

lemma top_bits_bit: "bit (top_bits b a) n \<longleftrightarrow> LENGTH('a) - b \<le> n \<and> bit a n" for a :: "'a::len word"
  using bit_imp_le_length[of a n] by (auto simp: top_bits_def bit_push_bit_iff bit_drop_bit_eq)

lemma top_bits_32 [simp]: "top_bits 32 (a :: 32 word) = a"
  and top_bits_128 [simp]: "top_bits 128 (b :: 128 word) = b"
  by (simp_all add: top_bits_def)

lemma masked_4in6:
  assumes "drop_bit 32 (top_bits b a) = (65535 :: 128 word)"
  shows "drop_bit 32 a = 65535"
proof -
  have "bit (drop_bit 32 (top_bits b a)) 0" unfolding assms by simp
  then have "128 - b \<le> 32" by (simp add: bit_drop_bit_eq top_bits_bit)
  then have "drop_bit 32 (top_bits b a) = drop_bit 32 a"
    by (intro bit_word_eqI) (auto simp: bit_drop_bit_eq top_bits_bit)
  then show ?thesis using assms by simp
qed

lemma unmap_plain: "addr_zone a = '''' \<Longrightarrow> addr_zone (unmap a) = '''' \<and> \<not> is4in6 (unmap a)"
  by (cases a) auto

lemma unmap_valid: "unmap a = NoAddr \<longleftrightarrow> a = NoAddr"
  by (cases a) auto

lemma unmap_idem [simp]: "unmap (unmap a) = unmap a"
  by (cases a) auto

context texts_ok
begin

lemma ParseNetwork_plain:
  assumes "ParseNetwork T s = Inr p"
  shows "plain_prefix p"
proof (cases "t_addr T s")
  case (Some a)
  then have z: "addr_zone a = ''''" and p: "p = \<lparr>px_addr = unmap a, px_bits = addr_bits (unmap a)\<rparr>"
    using assms by (auto simp: ParseNetwork_def Let_def split: if_splits)
  have "masked p = p" unfolding p masked_def by (cases "unmap a") simp_all
  then show ?thesis
    using unmap_plain[OF z] addr_valid[OF Some] unmap_valid[of a] by (simp add: plain_prefix_def p)
next
  case None
  then obtain r where r: "t_prefix T s = Some r" "addr_zone (px_addr r) = ''''" "\<not> is4in6 (px_addr r)" "p = masked r"
    using assms by (auto simp: ParseNetwork_def split: option.splits if_splits)
  have "\<not> is4in6 (px_addr (masked r))"
    using r(3) masked_4in6 by (cases "px_addr r") (auto simp: masked_def)
  moreover have "px_addr p \<noteq> NoAddr \<and> addr_zone (px_addr p) = '''' \<and> px_bits p \<le> addr_bits (px_addr p)"
    using prefix_bits[OF r(1)] r(2) unfolding r(4) by (cases "px_addr r") (auto simp: masked_def)
  ultimately show ?thesis by (simp add: plain_prefix_def r(4) masked_idem)
qed

lemma ParseNetwork_show: "plain_prefix p \<Longrightarrow> ParseNetwork T (t_show T p) = Inr p"
  using show_prefix show_not_addr by (simp add: ParseNetwork_def plain_prefix_def)

lemma range_fold:
  assumes "foldE (range_step T) raw acc = Inr unique"
  shows "\<exists>ps. list_all2 (\<lambda>s p. ParseNetwork T s = Inr p) raw ps \<and> set unique = set acc \<union> t_show T ` set ps \<and>
    (distinct acc \<longrightarrow> distinct unique) \<and> length unique \<le> length acc + length raw"
  using assms
proof (induction raw arbitrary: acc)
  case Nil
  then show ?case by simp
next
  case (Cons r raw)
  obtain acc1 where one: "range_step T r acc = Inr acc1" and two: "foldE (range_step T) raw acc1 = Inr unique"
    using Cons.prems by (auto simp: bindE_Inr_iff)
  obtain p where p: "ParseNetwork T r = Inr p" and rest: "foldE (range_step T) raw (List.insert (t_show T p) acc) = Inr unique"
    using one two by (auto simp: bindE_Inr_iff range_step_def)
  obtain ps where ps: "list_all2 (\<lambda>s p. ParseNetwork T s = Inr p) raw ps"
    "set unique = set (List.insert (t_show T p) acc) \<union> t_show T ` set ps"
    "distinct (List.insert (t_show T p) acc) \<longrightarrow> distinct unique"
    "length unique \<le> length (List.insert (t_show T p) acc) + length raw"
    using Cons.IH[OF rest] by blast
  have "length (List.insert (t_show T p) acc) \<le> Suc (length acc)" by (simp add: List.insert_def)
  then show ?case using p ps by (intro exI[of _ "p # ps"]) (auto simp: distinct_insert)
qed

lemma range_fold_shown:
  assumes "\<forall>s \<in> set raw. \<exists>p. plain_prefix p \<and> s = t_show T p"
  shows "\<exists>unique. foldE (range_step T) raw acc = Inr unique \<and> set unique = set acc \<union> set raw \<and>
    (distinct acc \<longrightarrow> distinct unique)"
  using assms
proof (induction raw arbitrary: acc)
  case Nil
  then show ?case by simp
next
  case (Cons r raw)
  obtain p where "plain_prefix p" "r = t_show T p" using Cons.prems by auto
  then have "range_step T r acc = Inr (List.insert r acc)" using ParseNetwork_show by (simp add: range_step_def)
  then show ?case using Cons.IH[of "List.insert r acc"] Cons.prems by (auto simp: distinct_insert)
qed

end

lemma canonical_behavior: "CanonicalMonthlyBehavior v = Inr b \<Longrightarrow> CanonicalMonthlyBehavior b = Inr b"
  by (auto simp: CanonicalMonthlyBehavior_def split: if_splits)

lemma normalizeQuota_Inr:
  assumes "normalizeQuota p = Inr n"
  shows "normalizeQuota n = Inr n"
    and "n = p\<lparr>p_MoneyMonth := p_MoneyMonth n, p_Currency := p_Currency n\<rparr>"
    and "in_range (p_Tokens5H n) \<and> in_range (p_Tokens7D n) \<and> in_range (p_TokensMonth n) \<and> in_range (p_TPM n)"
    and "p_MoneyMonth n = Some m \<Longrightarrow> Decimal m = Inr m \<and> Currency (p_Currency n)"
    and "p_MoneyMonth n = None \<Longrightarrow> p_Currency n = ''''"
  using assms Decimal_idem(1)
  by (auto simp: normalizeQuota_def split: option.splits sum.splits if_splits)

text \<open>What \<open>Normalize\<close> has checked.\<close>

definition normal :: "texts \<Rightarrow> policy \<Rightarrow> bool" where
  "normal T n \<longleftrightarrow>
     in_range (p_RPM n) \<and> in_range (p_Concurrency n) \<and> in_range (p_Tokens5H n) \<and> in_range (p_Tokens7D n) \<and>
     in_range (p_TokensMonth n) \<and> in_range (p_TPM n) \<and>
     p_TokensMonthBehavior n \<in> {'''', MonthlyBehaviorAlertOnly} \<and>
     p_MoneyMonthBehavior n \<in> {'''', MonthlyBehaviorAlertOnly} \<and>
     p_IPMode n \<in> {''none'', ''allowlist'', ''denylist''} \<and> (p_IPMode n = ''none'' \<longleftrightarrow> p_IPRanges n = []) \<and>
     length (p_IPRanges n) \<le> 128 \<and> sorted (p_IPRanges n) \<and> distinct (p_IPRanges n) \<and>
     (\<forall>s \<in> set (p_IPRanges n). \<exists>p. plain_prefix p \<and> s = t_show T p) \<and>
     (case p_MoneyMonth n of None \<Rightarrow> p_Currency n = '''' | Some m \<Rightarrow> Decimal m = Inr m \<and> Currency (p_Currency n))"

context texts_ok
begin

lemma Normalize_Inr:
  assumes "Normalize T p = Inr n"
  obtains ps where "list_all2 (\<lambda>s q. ParseNetwork T s = Inr q) (p_IPRanges p) ps"
    "set (p_IPRanges n) = t_show T ` set ps" "\<forall>q \<in> set ps. plain_prefix q" "normal T n"
    "p_RPM n = p_RPM p" "p_Concurrency n = p_Concurrency p"
    "p_IPMode n = (if p_IPMode p = '''' then ''none'' else p_IPMode p)"
proof -
  define mode where "mode = (if p_IPMode p = '''' then ''none'' else p_IPMode p)"
  obtain tb mb where b: "CanonicalMonthlyBehavior (p_TokensMonthBehavior p) = Inr tb"
    "CanonicalMonthlyBehavior (p_MoneyMonthBehavior p) = Inr mb"
    and rng: "in_range (p_RPM p) \<and> in_range (p_Concurrency p)"
    and mode: "\<not> (mode \<noteq> ''none'' \<and> mode \<noteq> ''allowlist'' \<and> mode \<noteq> ''denylist'')"
    and len: "\<not> (length (p_IPRanges p) > 128 \<or> (mode = ''none'' \<and> p_IPRanges p \<noteq> []) \<or>
             (mode \<noteq> ''none'' \<and> p_IPRanges p = []))"
    and rest: "bindE (foldE (range_step T) (p_IPRanges p) []) (\<lambda>unique.
           normalizeQuota (p\<lparr>p_TokensMonthBehavior := tb, p_MoneyMonthBehavior := mb,
             p_IPMode := mode, p_IPRanges := sort unique\<rparr>)) = Inr n"
    using assms unfolding Normalize_def mode_def[symmetric] Let_def bindE_Inr_iff if_Inl_Inr by blast
  obtain unique where fold: "foldE (range_step T) (p_IPRanges p) [] = Inr unique"
    and nq: "normalizeQuota (p\<lparr>p_TokensMonthBehavior := tb, p_MoneyMonthBehavior := mb,
             p_IPMode := mode, p_IPRanges := sort unique\<rparr>) = Inr n"
    using rest unfolding bindE_Inr_iff by blast
  have none: "mode = ''none'' \<longleftrightarrow> p_IPRanges p = []" and len: "length (p_IPRanges p) \<le> 128" using len by auto
  obtain ps where ps: "list_all2 (\<lambda>s q. ParseNetwork T s = Inr q) (p_IPRanges p) ps"
    "set unique = t_show T ` set ps" "distinct unique" "length unique \<le> length (p_IPRanges p)"
    using range_fold[OF fold] by auto
  have plain: "\<forall>q \<in> set ps. plain_prefix q"
    using ps(1) by (induction rule: list_all2_induct) (auto intro: ParseNetwork_plain)
  note N = normalizeQuota_Inr[OF nq]
  have fields: "p_RPM n = p_RPM p" "p_Concurrency n = p_Concurrency p" "p_IPRanges n = sort unique"
    "p_IPMode n = mode"
    "p_TokensMonthBehavior n = tb" "p_MoneyMonthBehavior n = mb"
    by (subst N(2), simp)+
  have beh: "tb \<in> {'''', MonthlyBehaviorAlertOnly}" "mb \<in> {'''', MonthlyBehaviorAlertOnly}"
    using b by (auto simp: CanonicalMonthlyBehavior_def split: if_splits)
  have empty: "unique = [] \<longleftrightarrow> p_IPRanges p = []"
    using ps(1,2) by (cases ps) (auto simp: list_all2_Nil2)
  have money: "case p_MoneyMonth n of None \<Rightarrow> p_Currency n = '''' | Some m \<Rightarrow> Decimal m = Inr m \<and> Currency (p_Currency n)"
    using N(4,5) by (auto split: option.splits)
  have "normal T n"
    unfolding normal_def fields
  proof (intro conjI)
    show "mode \<in> {''none'', ''allowlist'', ''denylist''}" using mode by blast
    show "mode = ''none'' \<longleftrightarrow> sort unique = []"
      using none empty by (metis length_0_conv length_sort)
  qed (use N(3) rng beh len ps plain money in auto)
  then show thesis using that[OF ps(1)] ps(2) plain fields(1,2,3,4) unfolding mode_def by simp
qed

lemma normal_fixed:
  assumes "normal T n"
  shows "Normalize T n = Inr n"
proof -
  obtain unique where u: "foldE (range_step T) (p_IPRanges n) [] = Inr unique" "set unique = set (p_IPRanges n)" "distinct unique"
    using range_fold_shown[of "p_IPRanges n" "[]"] assms unfolding normal_def by auto
  have srt: "sort unique = p_IPRanges n"
    by (rule sorted_distinct_set_unique) (use u assms in \<open>simp_all add: normal_def\<close>)
  have b: "CanonicalMonthlyBehavior (p_TokensMonthBehavior n) = Inr (p_TokensMonthBehavior n)"
    "CanonicalMonthlyBehavior (p_MoneyMonthBehavior n) = Inr (p_MoneyMonthBehavior n)"
    using assms unfolding normal_def CanonicalMonthlyBehavior_def MonthlyBehaviorStop_def MonthlyBehaviorAlertOnly_def
    by (auto split: if_splits)
  have mode: "p_IPMode n \<noteq> ''''" "(if p_IPMode n = '''' then ''none'' else p_IPMode n) = p_IPMode n"
    using assms unfolding normal_def by auto
  have nq: "normalizeQuota n = Inr n"
    using assms unfolding normal_def normalizeQuota_def by (cases n) (auto split: option.splits)
  have ok: "\<not> (p_IPMode n \<noteq> ''none'' \<and> p_IPMode n \<noteq> ''allowlist'' \<and> p_IPMode n \<noteq> ''denylist'')"
    "\<not> (length (p_IPRanges n) > 128 \<or> (p_IPMode n = ''none'' \<and> p_IPRanges n \<noteq> []) \<or>
       (p_IPMode n \<noteq> ''none'' \<and> p_IPRanges n = []))"
    "in_range (p_RPM n) \<and> in_range (p_Concurrency n)"
    using assms unfolding normal_def by auto
  have same: "n\<lparr>p_TokensMonthBehavior := p_TokensMonthBehavior n, p_MoneyMonthBehavior := p_MoneyMonthBehavior n,
      p_IPMode := p_IPMode n, p_IPRanges := p_IPRanges n\<rparr> = n" by simp
  show ?thesis
    unfolding Normalize_def mode(2) Let_def by (simp only: b bindE_simps u(1) ok if_False if_True not_True_eq_False srt same nq simp_thms)
qed

lemma match_ranges_Some:
  assumes "\<forall>s \<in> set raw. \<exists>p. plain_prefix p \<and> s = t_show T p"
  shows "match_ranges T a raw matched =
    Some (matched \<or> (\<exists>s \<in> set raw. \<exists>p. plain_prefix p \<and> s = t_show T p \<and> contains_addr p (unmap a)))"
  using assms
proof (induction raw arbitrary: matched)
  case Nil
  then show ?case by simp
next
  case (Cons r raw)
  obtain p where p: "plain_prefix p" "r = t_show T p" using Cons.prems by auto
  have one: "(\<exists>q. plain_prefix q \<and> r = t_show T q \<and> contains_addr q (unmap a)) \<longleftrightarrow> contains_addr p (unmap a)"
    using p show_prefix by (metis option.inject)
  show ?case using Cons.IH[of "matched \<or> contains_addr p (unmap a)"] Cons.prems p show_prefix[OF p(1)] one by auto
qed

end

section \<open>The rightmost untrusted hop\<close>

lemma split_at_append: "split_at c (xs @ c # ys) = split_at c xs @ split_at c ys"
proof (induction xs)
  case Nil
  then show ?case by simp
next
  case (Cons x xs)
  have "split_at c xs \<noteq> []" for xs by (induction xs) (auto split: list.splits)
  then show ?case using Cons.IH by (cases "split_at c xs") auto
qed

lemma chain_fold_from:
  "foldE (chain_step T) es acc = bindE (foldE (chain_step T) es []) (\<lambda>new. Inr (acc @ new))"
proof (induction es arbitrary: acc)
  case Nil
  then show ?case by simp
next
  case (Cons e es)
  have e: "chain_step T e a = bindE (chain_step T e []) (\<lambda>new. Inr (a @ new))" for a
    by (simp add: chain_step_def split: option.splits)
  show ?case
  proof (cases "chain_step T e []")
    case (Inl x)
    then show ?thesis using e[of acc] by simp
  next
    case (Inr x)
    have "foldE (chain_step T) (e # es) acc = foldE (chain_step T) es (acc @ x)" using e[of acc] Inr by simp
    also have "\<dots> = bindE (foldE (chain_step T) es []) (\<lambda>new. Inr (acc @ x @ new))" by (simp add: Cons.IH[of "acc @ x"])
    also have "\<dots> = bindE (foldE (chain_step T) es x) (\<lambda>new. Inr (acc @ new))"
      by (cases "foldE (chain_step T) es []") (simp_all add: Cons.IH[of x])
    finally show ?thesis using Inr by simp
  qed
qed

lemma chain_fold_append:
  assumes "foldE (chain_step T) (es @ fs) [] = Inr chain"
  obtains front rear where "foldE (chain_step T) fs [] = Inr rear" "chain = front @ rear"
proof -
  obtain front where "foldE (chain_step T) es [] = Inr front" "foldE (chain_step T) fs front = Inr chain"
    using assms by (auto simp: foldE_append bindE_Inr_iff)
  then show thesis using that chain_fold_from[of T fs front] by (auto simp: bindE_Inr_iff)
qed

text \<open>How \<open>ClientIP\<close> returns an address.\<close>

lemma ClientIP_Inr:
  assumes "ClientIP T r trusted = Inr a"
  obtains (direct) host peer where "t_host T (r_RemoteAddr r) = Some host" "t_addr T host = Some peer"
    "a = unmap peer" "\<not> isTrusted trusted a"
  | (forwarded) host peer hdr chain where "t_host T (r_RemoteAddr r) = Some host" "t_addr T host = Some peer"
    "isTrusted trusted (unmap peer)" "r_ForwardedFor r = [hdr]"
    "foldE (chain_step T) (split_at CHR '','' hdr) [] = Inr chain"
    "find (\<lambda>x. \<not> isTrusted trusted x) (rev chain) = Some a"
  using assms
  by (auto simp: ClientIP_def Let_def bindE_Inr_iff split: option.splits if_splits list.splits)

section \<open>Properties\<close>

text \<open>C26. \<open>Normalize\<close> returns a normal form: normalising it again changes nothing, the numeric limits
  are between 0 and \<open>2\<^sup>5\<^sup>3 - 1\<close>, the behaviours are canonical, the network list is present exactly
  when the mode uses it, sorted, without repeats and of plain masked prefixes, and an amount is a
  canonical decimal in a known currency.\<close>
theorem Normalize_normal_form:
  assumes "texts_ok T" "Normalize T p = Inr n"
  shows "normal T n \<and> Normalize T n = Inr n"
proof -
  obtain ps where "normal T n" by (rule texts_ok.Normalize_Inr[OF assms])
  then show ?thesis using texts_ok.normal_fixed[OF assms(1)] by blast
qed

text \<open>The network list of a normalised policy means what it says: without a mode every address is
  admitted, otherwise an address with a zone or without a value is refused, and an allow list
  admits exactly the addresses inside one of the networks the caller wrote, a deny list exactly
  the others; an IPv4 address mapped into IPv6 is treated as the IPv4 address.\<close>
theorem Allows_networks:
  assumes "texts_ok T" "Normalize T p = Inr n"
  shows "Allows T n a \<longleftrightarrow>
    p_IPMode n = ''none'' \<or>
    a \<noteq> NoAddr \<and> addr_zone a = '''' \<and>
    ((p_IPMode n = ''allowlist'') = (\<exists>raw \<in> set (p_IPRanges p). \<exists>q. ParseNetwork T raw = Inr q \<and> contains_addr q (unmap a)))"
proof -
  obtain ps where ps: "list_all2 (\<lambda>s q. ParseNetwork T s = Inr q) (p_IPRanges p) ps"
    "set (p_IPRanges n) = t_show T ` set ps" "\<forall>q \<in> set ps. plain_prefix q" and nf: "normal T n"
    by (rule texts_ok.Normalize_Inr[OF assms]) blast
  have shown: "\<forall>s \<in> set (p_IPRanges n). \<exists>p. plain_prefix p \<and> s = t_show T p" using nf by (simp add: normal_def)
  have inj: "plain_prefix q \<Longrightarrow> plain_prefix q' \<Longrightarrow> t_show T q = t_show T q' \<Longrightarrow> q = q'" for q q'
    using texts_ok.show_prefix[OF assms(1)] by (metis option.inject)
  have "(\<exists>s \<in> set (p_IPRanges n). \<exists>q. plain_prefix q \<and> s = t_show T q \<and> contains_addr q (unmap a)) \<longleftrightarrow>
      (\<exists>q \<in> set ps. contains_addr q (unmap a))"
    unfolding ps(2) using ps(3) inj by blast
  also have "\<dots> \<longleftrightarrow> (\<exists>raw \<in> set (p_IPRanges p). \<exists>q. ParseNetwork T raw = Inr q \<and> contains_addr q (unmap a))"
    using ps(1) by (induction rule: list_all2_induct) auto
  finally have matched: "match_ranges T a (p_IPRanges n) False =
      Some (\<exists>raw \<in> set (p_IPRanges p). \<exists>q. ParseNetwork T raw = Inr q \<and> contains_addr q (unmap a))"
    using texts_ok.match_ranges_Some[OF assms(1) shown, of a False] by simp
  have mode: "p_IPMode n \<in> {''none'', ''allowlist'', ''denylist''}" using nf unfolding normal_def by blast
  show ?thesis using mode unfolding Allows_def matched by auto
qed



text \<open>A child policy that is narrower than its parent sets its own effective limits: wherever it
  has a limit of its own, the minimum of parent and child that admission enforces is the child's,
  for requests, concurrency, the token windows (the monthly one unless the parent only alerts) and,
  in the same currency, for money.\<close>
theorem Narrower_effective:
  assumes "texts_ok T" "Narrower T parent child" "Normalize T p = Inr parent" "Normalize T c = Inr child"
  shows "(\<forall>f \<in> {p_RPM, p_Concurrency, p_Tokens5H, p_Tokens7D, p_TPM}. f child \<noteq> None \<longrightarrow> Minimum (f parent) (f child) = f child) \<and>
    (p_TokensMonthBehavior parent = '''' \<and> p_TokensMonth child \<noteq> None \<longrightarrow>
       Minimum (p_TokensMonth parent) (p_TokensMonth child) = p_TokensMonth child) \<and>
    (p_MoneyMonthBehavior parent = '''' \<and> p_MoneyMonth child \<noteq> None \<longrightarrow>
       MoneyMinimum T (p_MoneyMonth parent) (p_MoneyMonth child) = p_MoneyMonth child) \<and>
    (p_MoneyMonth parent \<noteq> None \<and> p_MoneyMonth child \<noteq> None \<longrightarrow> p_Currency parent = p_Currency child)"
proof -
  have nf: "normal T parent" "normal T child"
    using texts_ok.Normalize_Inr[OF assms(1,3)] texts_ok.Normalize_Inr[OF assms(1,4)] by metis+
  have min: "Minimum a b = b" if "\<not> exceeds a b" "b \<noteq> None" for a b
    using that by (auto simp: exceeds_def Minimum_def split: option.splits)
  have rat: "t_rat T m = Some (rat_of_decimal m)" if "p_MoneyMonth n = Some m" "normal T n" for n m
  proof -
    have "Decimal m = Inr m" using that unfolding normal_def by simp
    then show ?thesis using texts_ok.rat_decimal[OF assms(1)] Decimal_idem(2) by blast
  qed
  have alert: "MonthlyBehaviorAlertOnly \<noteq> ''''" by (simp add: MonthlyBehaviorAlertOnly_def)
  have N: "\<not> exceeds (p_RPM parent) (p_RPM child)" "\<not> exceeds (p_Concurrency parent) (p_Concurrency child)"
    and Q: "narrowerQuota T parent child"
    using assms(2) by (auto simp: Narrower_def split: if_splits)
  have W: "\<not> exceeds (p_Tokens5H parent) (p_Tokens5H child)" "\<not> exceeds (p_Tokens7D parent) (p_Tokens7D child)"
    "\<not> exceeds (p_TPM parent) (p_TPM child)"
    "p_TokensMonthBehavior parent = '''' \<Longrightarrow> \<not> exceeds (p_TokensMonth parent) (p_TokensMonth child)"
    using Q alert by (auto simp: narrowerQuota_def Let_def split: if_splits)
  have cur: "p_Currency parent = p_Currency child" if "p_MoneyMonth parent = Some pm" "p_MoneyMonth child = Some cm" for pm cm
    using Q that by (auto simp: narrowerQuota_def Let_def split: if_splits)
  have money: "\<not> rat_of_decimal cm > rat_of_decimal pm"
    if "p_MoneyMonth parent = Some pm" "p_MoneyMonth child = Some cm" "p_MoneyMonthBehavior parent = ''''" for pm cm
    using Q that rat[OF that(1) nf(1)] rat[OF that(2) nf(2)] alert
    by (auto simp: narrowerQuota_def Let_def split: if_splits)
  have "MoneyMinimum T (p_MoneyMonth parent) (p_MoneyMonth child) = p_MoneyMonth child"
    if stop: "p_MoneyMonthBehavior parent = ''''" and own: "p_MoneyMonth child \<noteq> None"
  proof (cases "p_MoneyMonth parent")
    case (Some pm)
    obtain cm where cm: "p_MoneyMonth child = Some cm" using own by blast
    have "rat_of_decimal pm < rat_of_decimal cm \<Longrightarrow> False" using money[OF Some cm stop] by simp
    then show ?thesis using rat[OF Some nf(1)] rat[OF cm nf(2)] by (auto simp: MoneyMinimum_def Some cm)
  qed (simp add: MoneyMinimum_def)
  then show ?thesis using min N W cur by auto
qed

section \<open>Texts for the witnesses\<close>

text \<open>An address is written in decimal after its family, a prefix with a slash and its length.\<close>

definition plain_addr :: "string \<Rightarrow> addr option" where
  "plain_addr s =
     (case s of
        f # c # ds \<Rightarrow>
          if c \<noteq> CHR '':'' then None
          else (case parse_digits ds of
              None \<Rightarrow> None
            | Some n \<Rightarrow> if f = CHR ''4'' then Some (V4 (of_nat n)) else if f = CHR ''6'' then Some (V6 (of_nat n) '''') else None)
      | _ \<Rightarrow> None)"

definition plain_show :: "prefix \<Rightarrow> string" where
  "plain_show p =
     (case px_addr p of
        V4 a \<Rightarrow> ''4:'' @ nat_digits (unat a)
      | V6 a _ \<Rightarrow> ''6:'' @ nat_digits (unat a)
      | NoAddr \<Rightarrow> '''') @ ''/'' @ nat_digits (px_bits p)"

definition plain_parse :: "string \<Rightarrow> prefix option" where
  "plain_parse s =
     (case cut_at CHR ''/'' s of (a, b, found) \<Rightarrow>
        (case (plain_addr a, parse_digits b) of
           (Some x, Some n) \<Rightarrow> if found \<and> n \<le> addr_bits x then Some \<lparr>px_addr = x, px_bits = n\<rparr> else None
         | _ \<Rightarrow> None))"

definition plain_texts :: texts where
  "plain_texts = \<lparr>t_addr = plain_addr, t_prefix = plain_parse, t_show = plain_show, t_host = Some,
     t_rat = (\<lambda>s. if decimal_match 17 s then Some (rat_of_decimal s) else None)\<rparr>"

lemma slash_notin_digits: "list_all is_digit ds \<Longrightarrow> CHR ''/'' \<notin> set ds"
  by (auto simp: list_all_iff is_digit_def)

lemma plain_addr_text:
  "plain_addr (CHR ''4'' # CHR '':'' # nat_digits n) = Some (V4 (of_nat n))"
  "plain_addr (CHR ''6'' # CHR '':'' # nat_digits n) = Some (V6 (of_nat n) '''')"
  by (simp_all add: plain_addr_def)

lemma plain_cut: "cut_at CHR ''/'' (nat_digits n @ CHR ''/'' # ds) = (nat_digits n, ds, True)"
  by (rule cut_at_found) (rule slash_notin_digits[OF nat_digits_all])

interpretation plain: texts_ok plain_texts
proof unfold_locales
  fix p assume p: "plain_prefix p"
  show "t_prefix plain_texts (t_show plain_texts p) = Some p"
    using p by (cases "px_addr p"; cases p)
      (auto simp: plain_texts_def plain_prefix_def plain_show_def plain_parse_def plain_cut plain_addr_text)
  show "t_addr plain_texts (t_show plain_texts p) = None"
    using p by (cases "px_addr p")
      (auto simp: plain_texts_def plain_prefix_def plain_show_def plain_addr_def parse_digits_def is_digit_def)
next
  fix s p assume "t_prefix plain_texts s = Some p"
  then show "px_addr p \<noteq> NoAddr \<and> px_bits p \<le> addr_bits (px_addr p)"
    by (auto simp: plain_texts_def plain_parse_def plain_addr_def split: option.splits prod.splits if_splits list.splits)
next
  fix s a assume "t_addr plain_texts s = Some a"
  then show "a \<noteq> NoAddr"
    by (auto simp: plain_texts_def plain_addr_def split: option.splits if_splits list.splits)
qed (simp add: plain_texts_def)


definition demo_policy :: policy where
  "demo_policy = \<lparr>p_Tokens5H = Some 1000, p_Tokens7D = None, p_TokensMonthBehavior = ''stop'',
     p_MoneyMonthBehavior = '''', p_TokensMonth = None, p_TPM = None, p_MoneyMonth = Some ''10.50'',
     p_Currency = ''USD'', p_RPM = Some 60, p_Concurrency = None, p_IPMode = ''allowlist'',
     p_IPRanges = [''4:9/31'', ''4:7'']\<rparr>"

definition demo_normal :: policy where
  "demo_normal = demo_policy\<lparr>p_TokensMonthBehavior := '''', p_MoneyMonth := Some ''10.5'',
     p_IPRanges := [''4:7/32'', ''4:8/31'']\<rparr>"

definition demo_child :: policy where
  "demo_child = demo_normal\<lparr>p_RPM := Some 30, p_MoneyMonth := Some ''7''\<rparr>"

lemma demo_Normalize: "Normalize plain_texts demo_policy = Inr demo_normal"
  by code_simp

lemma Normalize_normal_form_witness: "Normalize plain_texts demo_normal = Inr demo_normal"
  using Normalize_normal_form[OF plain.texts_ok_axioms demo_Normalize] by blast

lemma Allows_networks_witness: "Allows plain_texts demo_normal (V4 9)"
proof -
  have "ParseNetwork plain_texts ''4:9/31'' = Inr \<lparr>px_addr = V4 8, px_bits = 31\<rparr>" by code_simp
  moreover have "contains_addr \<lparr>px_addr = V4 8, px_bits = 31\<rparr> (unmap (V4 9))" by code_simp
  ultimately show ?thesis
    unfolding Allows_networks[OF plain.texts_ok_axioms demo_Normalize]
    by (auto simp: demo_normal_def demo_policy_def)
qed

definition demo_request :: request where
  "demo_request = \<lparr>r_RemoteAddr = ''4:1'', r_ForwardedFor = [''4:5, 4:1'']\<rparr>"


lemma Narrower_effective_witness:
  "Minimum (p_RPM demo_normal) (p_RPM demo_child) = Some 30 \<and>
   MoneyMinimum plain_texts (p_MoneyMonth demo_normal) (p_MoneyMonth demo_child) = Some ''7''"
proof -
  have "Narrower plain_texts demo_normal demo_child" "Normalize plain_texts demo_child = Inr demo_child" by code_simp+
  from Narrower_effective[OF plain.texts_ok_axioms this(1) demo_Normalize this(2)]
  show ?thesis by (auto simp: demo_child_def demo_normal_def demo_policy_def)
qed

end
