(* ===== verification/Attempt_Health.thy ===== *)
theory Attempt_Health
  imports Prelude "HOL-Library.AList"
begin

text \<open>
  The cooldowns of connections and credentials, \<open>internal/routex/service/gateway_attempt_health.go\<close>:
  two maps from an identifier to the end of its cooldown, as association lists with distinct keys.
  The clock is read by the caller; an instant is in nanoseconds.
\<close>

section \<open>The code\<close>

definition gatewayConnectionCooldown :: int where "gatewayConnectionCooldown = 15000000000"
definition gatewayCredentialCooldown :: int where "gatewayCredentialCooldown = 30000000000"
definition maxGatewayHealthEntries :: nat where "maxGatewayHealthEntries = 1024"

type_synonym cooldowns = "(string \<times> int) list"

record attempt_health =
  h_connections :: cooldowns
  h_credentials :: cooldowns

definition prune_cooldowns :: "int \<Rightarrow> cooldowns \<Rightarrow> cooldowns" where
  "prune_cooldowns now es = filter (\<lambda>(_, until). now < until) es"

definition pruneGatewayAttemptHealth :: "attempt_health \<Rightarrow> int \<Rightarrow> attempt_health" where
  "pruneGatewayAttemptHealth h now =
     \<lparr>h_connections = prune_cooldowns now (h_connections h), h_credentials = prune_cooldowns now (h_credentials h)\<rparr>"

text \<open>The scan for the oldest entry; the empty identifier stands for none found yet.\<close>

fun oldest_entry :: "cooldowns \<Rightarrow> string \<Rightarrow> int \<Rightarrow> string" where
  "oldest_entry [] oldestID oldest = oldestID"
| "oldest_entry ((eid, until) # es) oldestID oldest =
     (if oldestID = '''' \<or> until < oldest \<or> (until = oldest \<and> eid < oldestID)
      then oldest_entry es eid until else oldest_entry es oldestID oldest)"

definition boundGatewayAttemptHealth :: "cooldowns \<Rightarrow> cooldowns" where
  "boundGatewayAttemptHealth es =
     (if length es < maxGatewayHealthEntries then es else AList.delete (oldest_entry es '''' 0) es)"

definition gatewayAttemptHealthy :: "string \<Rightarrow> string \<Rightarrow> int \<Rightarrow> attempt_health \<Rightarrow> bool \<times> attempt_health" where
  "gatewayAttemptHealthy connection credential now h =
     (let h1 = pruneGatewayAttemptHealth h now in
      (map_of (h_connections h1) connection = None \<and> map_of (h_credentials h1) credential = None, h1))"

definition markGatewayConnectionFailure :: "string \<Rightarrow> int \<Rightarrow> attempt_health \<Rightarrow> attempt_health" where
  "markGatewayConnectionFailure connection now h =
     (if connection = '''' then h
      else let h1 = pruneGatewayAttemptHealth h now in
        h1\<lparr>h_connections := AList.update connection (now + gatewayConnectionCooldown)
             (boundGatewayAttemptHealth (h_connections h1))\<rparr>)"

definition markGatewayCredentialRejected :: "string \<Rightarrow> int \<Rightarrow> attempt_health \<Rightarrow> attempt_health" where
  "markGatewayCredentialRejected credential now h =
     (if credential = '''' then h
      else let h1 = pruneGatewayAttemptHealth h now in
        h1\<lparr>h_credentials := AList.update credential (now + gatewayCredentialCooldown)
             (boundGatewayAttemptHealth (h_credentials h1))\<rparr>)"

definition markGatewayAttemptSuccess :: "string \<Rightarrow> string \<Rightarrow> int \<Rightarrow> attempt_health \<Rightarrow> attempt_health" where
  "markGatewayAttemptSuccess connection credential now h =
     pruneGatewayAttemptHealth
       (h\<lparr>h_connections := AList.delete connection (h_connections h),
          h_credentials := AList.delete credential (h_credentials h)\<rparr>) now"

end
