(* ===== verification/Queue_Types.thy ===== *)
theory Queue_Types
  imports Decimals "HOL-Library.AList"
begin

text \<open>
  The data of \<open>pkg/eventqueue\<close>: the errors, the limits and quota policies a caller passes in, the
  bounds, settlements, receipts and counters the journal stores. A pointer that may be nil is an
  option, a Go map of totals the list of its entries, an instant the nanoseconds since the epoch
  with \<open>None\<close> for the zero \<open>time.Time\<close>.
\<close>

datatype queue_error =
  ErrFull | ErrInvalid | ErrMissing | ErrRateLimit | ErrConcurrency
  | ErrQuotaInactive | ErrQuotaRequired | ErrQuotaCoverage | ErrQuotaUnknown | ErrQuotaBound
  | ErrQuotaTokens | ErrQuotaMoney | ErrQuotaCurrency | ErrQuotaConflict
  | ErrStore \<comment> \<open>an error of the database, passed on\<close>
  | NilBucket \<comment> \<open>a method call on a bucket that does not exist: a panic, which rolls back\<close>

record limit =
  lim_Account :: string
  lim_RPM :: "int option"
  lim_Concurrency :: "int option"

record quota_limit =
  ql_Limit :: limit
  ql_Revision :: string
  ql_PersonalKey :: bool
  ql_ProjectKey :: bool
  ql_TeamMember :: bool
  ql_CreatedAt :: "int option"
  ql_Tokens5H :: "int option"
  ql_Tokens7D :: "int option"
  ql_TokensMonth :: "int option"
  ql_TPM :: "int option"
  ql_MoneyMonth :: "string option"
  ql_Currency :: string
  ql_TokensMonthBehavior :: string
  ql_MoneyMonthBehavior :: string

record quota_bound =
  qb_Tokens :: "int option"
  qb_Money :: "string option"
  qb_Currency :: string
  qb_Revision :: string
  qb_PriceRevision :: string
  qb_BasisDigest :: string

record quota_settlement =
  qs_Tokens :: "int option"
  qs_Money :: "string option"
  qs_Currency :: string

record quota_account =
  qa_Account :: string
  qa_Revision :: string

record quota_receipt =
  qr_RequestID :: string
  qr_AdmittedAt :: int
  qr_MonthStart :: int
  qr_MonthEnd :: int
  qr_Accounts :: "quota_account list"
  qr_Bound :: quota_bound
  qr_State :: string
  qr_Actual :: quota_settlement
  qr_Recovery :: quota_settlement
  qr_SettlementDigest :: string
  qr_Overrun :: bool

record quota_metadata =
  qm_TimeZone :: string
  qm_CoverageStart :: int

type_synonym totals = "(string \<times> string) list"

record quota_counter =
  qc_TokensUsed :: int
  qc_TokensHeld :: int
  qc_TokensUnknown :: int
  qc_MoneyUsed :: totals
  qc_MoneyHeld :: totals
  qc_MoneyUnknown :: int

record quota_usage =
  qu_TokensUsed :: int
  qu_TokensHeld :: int
  qu_TokensUnknown :: int
  qu_MoneyUsed :: totals
  qu_MoneyHeld :: totals
  qu_MoneyUnknown :: int

record account_quota_usage =
  au_AsOf :: int
  au_CoverageStart :: int
  au_TimeZone :: string
  au_Active :: quota_usage
  au_Minute :: quota_usage
  au_FiveHours :: quota_usage
  au_SevenDays :: quota_usage
  au_Month :: quota_usage

definition quotaHistoryCapacity :: int where "quotaHistoryCapacity = 1000000"
definition limitHistoryCapacity :: int where "limitHistoryCapacity = 200000"

definition no_settlement :: quota_settlement where
  "no_settlement = \<lparr>qs_Tokens = None, qs_Money = None, qs_Currency = ''''\<rparr>"

definition empty_counter :: quota_counter where
  "empty_counter = \<lparr>qc_TokensUsed = 0, qc_TokensHeld = 0, qc_TokensUnknown = 0,
     qc_MoneyUsed = [], qc_MoneyHeld = [], qc_MoneyUnknown = 0\<rparr>"

text \<open>The regular expressions of the package: \<open>[A-Za-z0-9_-]{1,64}\<close>, \<open>[A-Z]{3}\<close>, \<open>[a-f0-9]{64}\<close>.\<close>

definition key_char :: "char \<Rightarrow> bool" where
  "key_char c \<longleftrightarrow> is_digit c \<or> is_upper c \<or> is_lower c \<or> c = CHR ''_'' \<or> c = CHR ''-''"

definition validKey :: "string \<Rightarrow> bool" where
  "validKey k \<longleftrightarrow> k \<noteq> [] \<and> length k \<le> 64 \<and> list_all key_char k"

definition quotaCurrency :: "string \<Rightarrow> bool" where
  "quotaCurrency c \<longleftrightarrow> length c = 3 \<and> list_all is_upper c"

definition hex_char :: "char \<Rightarrow> bool" where
  "hex_char c \<longleftrightarrow> is_digit c \<or> (97 \<le> (of_char c :: nat) \<and> (of_char c :: nat) \<le> 102)"

definition quotaDigest :: "string \<Rightarrow> bool" where
  "quotaDigest d \<longleftrightarrow> length d = 64 \<and> list_all hex_char d"

section \<open>Windows and instants\<close>

definition minute_ns :: int where "minute_ns = 60000000000"
definition five_hours_ns :: int where "five_hours_ns = 18000000000000"
definition seven_days_ns :: int where "seven_days_ns = 604800000000000"

text \<open>\<open>binary.BigEndian\<close>, 64 bits: the bytes of an instant or a count, and back.\<close>

fun be_bytes :: "nat \<Rightarrow> int \<Rightarrow> string" where
  "be_bytes 0 x = []"
| "be_bytes (Suc n) x = be_bytes n (x div 256) @ [char_of (nat (x mod 256))]"

definition be_val :: "string \<Rightarrow> int" where
  "be_val s = foldl (\<lambda>a c. 256 * a + int (of_char c)) 0 s"

definition be64 :: "int \<Rightarrow> string" where
  "be64 x = be_bytes 8 x"

definition be64_val :: "string \<Rightarrow> int" where
  "be64_val s = wrap64 (be_val (take 8 s))"

text \<open>What the journal uses of time zones and of SHA-256: whether \<open>time.LoadLocation\<close> knows a zone,
  the first instants of the month of an instant and of the next month in a zone, and the hex
  digest of a settlement and a payload.\<close>

record env =
  e_zone :: "string \<Rightarrow> bool"
  e_month :: "string \<Rightarrow> int \<Rightarrow> int \<times> int"
  e_digest :: "quota_settlement \<Rightarrow> string \<Rightarrow> string"

definition quotaMonth :: "env \<Rightarrow> int \<Rightarrow> string \<Rightarrow> queue_error + int \<times> int" where
  "quotaMonth E instant zone =
     (if \<not> e_zone E zone then Inl ErrInvalid
      else case e_month E zone instant of (start, end') \<Rightarrow>
        if start < 0 \<or> end' \<le> instant then Inl ErrInvalid else Inr (start, end'))"

section \<open>Big-endian order\<close>

lemma be_bytes_length [simp]: "length (be_bytes n x) = n"
  by (induction n arbitrary: x) simp_all

lemma be64_length [simp]: "length (be64 x) = 8"
  by (simp add: be64_def)

lemma be_val_snoc: "be_val (s @ [c]) = 256 * be_val s + int (of_char c)"
  by (simp add: be_val_def)

lemma be_val_bytes: "be_val (be_bytes n x) = x mod 256 ^ n"
proof (induction n arbitrary: x)
  case 0
  then show ?case by (simp add: be_val_def)
next
  case (Suc n)
  have "int (of_char (char_of (nat (x mod 256)) :: char)) = x mod 256" by simp
  moreover have "x mod 256 ^ Suc n = 256 * (x div 256 mod 256 ^ n) + x mod 256"
    using zmod_zmult2_eq[of "256 ^ n" x 256] by simp
  ultimately show ?case by (simp only: be_bytes.simps be_val_snoc Suc.IH)
qed

lemma be64_val_be64: "int64_range x \<Longrightarrow> be64_val (be64 x @ s) = x"
proof -
  assume x: "int64_range x"
  have "be64_val (be64 x @ s) = wrap64 (x mod 18446744073709551616)"
    by (simp add: be64_val_def be64_def be_val_bytes)
  also have "\<dots> = wrap64 x" by (simp add: wrap64_def mod_add_left_eq)
  finally show ?thesis using x by (simp add: wrap64_id)
qed

lemma list_less_snoc:
  fixes xs ys :: string
  assumes "length xs = length ys"
  shows "xs @ [a] < ys @ [b] \<longleftrightarrow> xs < ys \<or> (xs = ys \<and> a < b)"
  using assms by (induction xs ys rule: list_induct2) auto

lemma digit_order:
  fixes a b c d :: int
  assumes "0 \<le> c" "c < 256" "0 \<le> d" "d < 256"
  shows "256 * a + c < 256 * b + d \<longleftrightarrow> a < b \<or> (a = b \<and> c < d)"
  using assms by (cases "a < b"; cases "a = b"; linarith)

lemma be_bytes_less:
  "0 \<le> x \<Longrightarrow> 0 \<le> y \<Longrightarrow> x < 256 ^ n \<Longrightarrow> y < 256 ^ n \<Longrightarrow> be_bytes n x < be_bytes n y \<longleftrightarrow> x < y"
proof (induction n arbitrary: x y)
  case 0
  then show ?case by simp
next
  case (Suc n)
  have d: "x div 256 < 256 ^ n" "y div 256 < 256 ^ n" "0 \<le> x div 256" "0 \<le> y div 256"
    using Suc.prems by (simp_all add: div_less_iff_less_mult)
  have eq: "be_bytes n (x div 256) = be_bytes n (y div 256) \<longleftrightarrow> x div 256 = y div 256"
    using Suc.IH[OF d(3,4,1,2)] Suc.IH[OF d(4,3,2,1)] by (metis linorder_neq_iff)
  have c: "(char_of (nat (x mod 256)) :: char) < char_of (nat (y mod 256)) \<longleftrightarrow> x mod 256 < y mod 256"
    using pos_mod_sign[of 256 x] pos_mod_sign[of 256 y] by (auto simp: less_char_def nat_less_iff)
  have "x < y \<longleftrightarrow> x div 256 < y div 256 \<or> (x div 256 = y div 256 \<and> x mod 256 < y mod 256)"
    using digit_order[of "x mod 256" "y mod 256" "x div 256" "y div 256"] by simp
  then show ?case using Suc.IH[OF d(3,4,1,2)] by (simp add: list_less_snoc eq c)
qed

lemma be64_less:
  "0 \<le> x \<Longrightarrow> 0 \<le> y \<Longrightarrow> int64_range x \<Longrightarrow> int64_range y \<Longrightarrow> be64 x < be64 y \<longleftrightarrow> x < y"
  unfolding be64_def by (rule be_bytes_less) (simp_all add: int64_range_def)

lemma list_less_append:
  fixes xs ys :: string
  assumes "length xs = length ys" "xs \<noteq> ys"
  shows "xs @ s < ys @ t \<longleftrightarrow> xs < ys"
  using assms by (induction xs ys rule: list_induct2) auto

text \<open>Keys that start with an instant are ordered by it.\<close>

lemma be64_prefix_less:
  assumes "0 \<le> x" "0 \<le> y" "int64_range x" "int64_range y" "x < y"
  shows "be64 x @ s < be64 y @ t"
  using be64_less[OF assms(1-4)] assms(5) by (subst list_less_append) auto

end
