(* ===== verification/Queue_Store.thy ===== *)
theory Queue_Store
  imports Queue_Types
begin

text \<open>
  The transactions of the journal. The database is bbolt, which is not part of this repository: its
  operations are the record \<open>'s bolt\<close>, a parameter of every definition, and its documented
  behaviour (buckets, get after put, key order, sequences, atomic update) is the locale \<open>bolt\<close>. A
  transaction is a function from a database state to an error or a result and a new state;
  \<open>update\<close> is \<open>db.Update\<close>, which keeps the old state on an error. A stored value is what the reader
  of its bucket decodes from the bytes: \<open>Bytes\<close> in the buckets of byte strings (and, in the JSON
  buckets, for bytes that do not decode), \<open>JNull\<close> for the JSON text \<open>null\<close>.
\<close>

section \<open>Buckets and values\<close>

datatype bucket =
  PendingBucket | ReadyBucket | RpmBucket | LeaseBucket | RpmCountBucket | ActiveCountBucket
  | LimitMetaBucket | QuotaEntryBucket | QuotaCounterBucket | QuotaExpiryBucket
  | QuotaAccountBucket | QuotaInvalidBoundBucket

fun bucket_name :: "bucket \<Rightarrow> string" where
  "bucket_name PendingBucket = ''pending-v1''"
| "bucket_name ReadyBucket = ''ready-v1''"
| "bucket_name RpmBucket = ''rpm-v1''"
| "bucket_name LeaseBucket = ''leases-v1''"
| "bucket_name RpmCountBucket = ''rpm-counts-v1''"
| "bucket_name ActiveCountBucket = ''active-counts-v1''"
| "bucket_name LimitMetaBucket = ''limit-meta-v1''"
| "bucket_name QuotaEntryBucket = ''quota-entries-v2''"
| "bucket_name QuotaCounterBucket = ''quota-counters-v2''"
| "bucket_name QuotaExpiryBucket = ''quota-expiry-v2''"
| "bucket_name QuotaAccountBucket = ''quota-accounts-v2''"
| "bucket_name QuotaInvalidBoundBucket = ''quota-invalid-bounds-v2''"

definition quotaBuckets :: "bucket list" where
  "quotaBuckets = [QuotaEntryBucket, QuotaCounterBucket, QuotaExpiryBucket, QuotaAccountBucket, QuotaInvalidBoundBucket]"

lemma bucket_name_inj [simp]: "bucket_name a = bucket_name b \<longleftrightarrow> a = b"
  by (cases a; cases b; simp)

declare bucket_name.simps [simp del]

datatype stored =
  Bytes string | Accounts "string list" | Metadata quota_metadata | Counter quota_counter
  | Receipt quota_receipt | Created int | JNull

fun bytes_of :: "stored \<Rightarrow> string" where
  "bytes_of (Bytes b) = b"
| "bytes_of _ = []"

text \<open>\<open>json.Unmarshal\<close> into the type a bucket holds; \<open>None\<close> is its error, \<open>null\<close> leaves the zero
  value of the target.\<close>

fun as_accounts :: "stored \<Rightarrow> string list option" where
  "as_accounts (Accounts xs) = Some xs"
| "as_accounts JNull = Some []"
| "as_accounts _ = None"

fun as_metadata :: "stored \<Rightarrow> quota_metadata option" where
  "as_metadata (Metadata m) = Some m"
| "as_metadata JNull = Some \<lparr>qm_TimeZone = [], qm_CoverageStart = 0\<rparr>"
| "as_metadata _ = None"

fun as_counter :: "stored \<Rightarrow> quota_counter option" where
  "as_counter (Counter c) = Some c"
| "as_counter JNull = Some empty_counter"
| "as_counter _ = None"

fun as_receipt :: "stored \<Rightarrow> quota_receipt option" where
  "as_receipt (Receipt r) = Some r"
| "as_receipt _ = None"

text \<open>Into a pointer: \<open>Some None\<close> is \<open>null\<close>.\<close>

fun as_created :: "stored \<Rightarrow> int option option" where
  "as_created (Created i) = Some (Some i)"
| "as_created JNull = Some None"
| "as_created _ = None"

section \<open>The database\<close>

text \<open>Operations that can fail return \<open>None\<close> then. Reads see the state of the transaction.\<close>

record 's bolt =
  b_has :: "'s \<Rightarrow> string \<Rightarrow> bool"
  b_get :: "'s \<Rightarrow> string \<Rightarrow> string \<Rightarrow> stored option"
  b_list :: "'s \<Rightarrow> string \<Rightarrow> (string \<times> stored) list"
  b_seq :: "'s \<Rightarrow> string \<Rightarrow> int"
  b_create :: "'s \<Rightarrow> string \<Rightarrow> 's option"
  b_drop :: "'s \<Rightarrow> string \<Rightarrow> 's option"
  b_put :: "'s \<Rightarrow> string \<Rightarrow> string \<Rightarrow> stored \<Rightarrow> 's option"
  b_delete :: "'s \<Rightarrow> string \<Rightarrow> string \<Rightarrow> 's option"
  b_setseq :: "'s \<Rightarrow> string \<Rightarrow> int \<Rightarrow> 's option"
  b_commit :: "'s \<Rightarrow> 's option"

type_synonym ('s, 'a) tx = "'s \<Rightarrow> queue_error + 'a \<times> 's"

definition okT :: "'a \<Rightarrow> ('s, 'a) tx" where
  "okT a s = Inr (a, s)"

definition failT :: "queue_error \<Rightarrow> ('s, 'a) tx" where
  "failT e s = Inl e"

definition bindT :: "('s, 'a) tx \<Rightarrow> ('a \<Rightarrow> ('s, 'b) tx) \<Rightarrow> ('s, 'b) tx" where
  "bindT m f s = (case m s of Inl e \<Rightarrow> Inl e | Inr (a, t) \<Rightarrow> f a t)"

definition thenT :: "('s, unit) tx \<Rightarrow> ('s, 'b) tx \<Rightarrow> ('s, 'b) tx" where
  "thenT m n = bindT m (\<lambda>_. n)"

definition checkT :: "bool \<Rightarrow> queue_error \<Rightarrow> ('s, unit) tx" where
  "checkT ok e = (if ok then okT () else failT e)"

definition liftT :: "queue_error + 'a \<Rightarrow> ('s, 'a) tx" where
  "liftT r = (case r of Inl e \<Rightarrow> failT e | Inr a \<Rightarrow> okT a)"

primrec forT :: "'a list \<Rightarrow> ('a \<Rightarrow> ('s, unit) tx) \<Rightarrow> ('s, unit) tx" where
  "forT [] f = okT ()"
| "forT (x # xs) f = thenT (f x) (forT xs f)"

primrec foldT :: "('a \<Rightarrow> 'b \<Rightarrow> ('s, 'b) tx) \<Rightarrow> 'a list \<Rightarrow> 'b \<Rightarrow> ('s, 'b) tx" where
  "foldT f [] acc = okT acc"
| "foldT f (x # xs) acc = bindT (f x acc) (foldT f xs)"

definition storeT :: "'s option \<Rightarrow> queue_error + unit \<times> 's" where
  "storeT r = (case r of None \<Rightarrow> Inl ErrStore | Some t \<Rightarrow> Inr ((), t))"

definition hasB :: "'s bolt \<Rightarrow> bucket \<Rightarrow> ('s, bool) tx" where
  "hasB B b s = Inr (b_has B s (bucket_name b), s)"

definition onB :: "'s bolt \<Rightarrow> bucket \<Rightarrow> ('s, 'a) tx \<Rightarrow> ('s, 'a) tx" where
  "onB B b m s = (if b_has B s (bucket_name b) then m s else Inl NilBucket)"

definition getB :: "'s bolt \<Rightarrow> bucket \<Rightarrow> string \<Rightarrow> ('s, stored option) tx" where
  "getB B b k = onB B b (\<lambda>s. Inr (b_get B s (bucket_name b) k, s))"

definition putB :: "'s bolt \<Rightarrow> bucket \<Rightarrow> string \<Rightarrow> stored \<Rightarrow> ('s, unit) tx" where
  "putB B b k v = onB B b (\<lambda>s. storeT (b_put B s (bucket_name b) k v))"

definition deleteB :: "'s bolt \<Rightarrow> bucket \<Rightarrow> string \<Rightarrow> ('s, unit) tx" where
  "deleteB B b k = onB B b (\<lambda>s. storeT (b_delete B s (bucket_name b) k))"

definition listB :: "'s bolt \<Rightarrow> bucket \<Rightarrow> ('s, (string \<times> stored) list) tx" where
  "listB B b = onB B b (\<lambda>s. Inr (b_list B s (bucket_name b), s))"

text \<open>\<open>Stats().KeyN\<close>.\<close>

definition countB :: "'s bolt \<Rightarrow> bucket \<Rightarrow> ('s, nat) tx" where
  "countB B b = onB B b (\<lambda>s. Inr (length (b_list B s (bucket_name b)), s))"

definition seqB :: "'s bolt \<Rightarrow> bucket \<Rightarrow> ('s, int) tx" where
  "seqB B b = onB B b (\<lambda>s. Inr (b_seq B s (bucket_name b), s))"

definition setseqB :: "'s bolt \<Rightarrow> bucket \<Rightarrow> int \<Rightarrow> ('s, unit) tx" where
  "setseqB B b n = onB B b (\<lambda>s. storeT (b_setseq B s (bucket_name b) n))"

definition createB :: "'s bolt \<Rightarrow> bucket \<Rightarrow> ('s, unit) tx" where
  "createB B b s = (if b_has B s (bucket_name b) then Inl ErrStore else storeT (b_create B s (bucket_name b)))"

definition ensureB :: "'s bolt \<Rightarrow> bucket \<Rightarrow> ('s, unit) tx" where
  "ensureB B b s = (if b_has B s (bucket_name b) then Inr ((), s) else storeT (b_create B s (bucket_name b)))"

definition dropB :: "'s bolt \<Rightarrow> bucket \<Rightarrow> ('s, unit) tx" where
  "dropB B b s = (if b_has B s (bucket_name b) then storeT (b_drop B s (bucket_name b)) else Inl ErrStore)"

text \<open>\<open>db.Update\<close>: the transaction is committed, or nothing changes; \<open>db.View\<close>.\<close>

definition update :: "'s bolt \<Rightarrow> ('s, 'a) tx \<Rightarrow> 's \<Rightarrow> (queue_error + 'a) \<times> 's" where
  "update B f s =
     (case f s of
        Inl e \<Rightarrow> (Inl e, s)
      | Inr (a, t) \<Rightarrow> (case b_commit B t of None \<Rightarrow> (Inl ErrStore, s) | Some u \<Rightarrow> (Inr a, u)))"

definition view :: "('s, 'a) tx \<Rightarrow> 's \<Rightarrow> (queue_error + 'a) \<times> 's" where
  "view f s = (case f s of Inl e \<Rightarrow> (Inl e, s) | Inr (a, _) \<Rightarrow> (Inr a, s))"

text \<open>The guards before \<open>db.Update\<close>.\<close>

definition guarded :: "bool \<Rightarrow> queue_error \<Rightarrow> ('s \<Rightarrow> (queue_error + 'a) \<times> 's) \<Rightarrow> 's \<Rightarrow> (queue_error + 'a) \<times> 's" where
  "guarded ok e f s = (if ok then f s else (Inl e, s))"

section \<open>Reading a transaction backwards\<close>

lemma okT_Inr [simp]: "okT a s = Inr (b, t) \<longleftrightarrow> b = a \<and> t = s"
  by (auto simp: okT_def)

lemma failT_Inr [simp]: "failT e s = Inr x \<longleftrightarrow> False"
  by (simp add: failT_def)

lemma bindT_Inr: "bindT m f s = Inr (b, u) \<longleftrightarrow> (\<exists>a t. m s = Inr (a, t) \<and> f a t = Inr (b, u))"
  by (auto simp: bindT_def split: sum.splits)

lemma thenT_Inr: "thenT m n s = Inr (b, u) \<longleftrightarrow> (\<exists>t. m s = Inr ((), t) \<and> n t = Inr (b, u))"
  by (auto simp: thenT_def bindT_Inr)

lemma checkT_Inr [simp]: "checkT ok e s = Inr (b, t) \<longleftrightarrow> ok \<and> t = s"
  by (auto simp: checkT_def)

lemma liftT_Inr [simp]: "liftT r s = Inr (a, t) \<longleftrightarrow> r = Inr a \<and> t = s"
  by (auto simp: liftT_def split: sum.splits)

lemma storeT_Inr [simp]: "storeT r = Inr ((), t) \<longleftrightarrow> r = Some t"
  by (auto simp: storeT_def split: option.splits)

lemma getB_Inr: "getB B b k s = Inr (v, t) \<longleftrightarrow>
    b_has B s (bucket_name b) \<and> v = b_get B s (bucket_name b) k \<and> t = s"
  by (auto simp: getB_def onB_def)

lemma hasB_Inr: "hasB B b s = Inr (v, t) \<longleftrightarrow> v = b_has B s (bucket_name b) \<and> t = s"
  by (auto simp: hasB_def)

lemma putB_Inr: "putB B b k v s = Inr (u, t) \<longleftrightarrow>
    b_has B s (bucket_name b) \<and> b_put B s (bucket_name b) k v = Some t"
  by (auto simp: putB_def onB_def)

lemma deleteB_Inr: "deleteB B b k s = Inr (u, t) \<longleftrightarrow>
    b_has B s (bucket_name b) \<and> b_delete B s (bucket_name b) k = Some t"
  by (auto simp: deleteB_def onB_def)

lemma listB_Inr: "listB B b s = Inr (xs, t) \<longleftrightarrow>
    b_has B s (bucket_name b) \<and> xs = b_list B s (bucket_name b) \<and> t = s"
  by (auto simp: listB_def onB_def)

lemma countB_Inr: "countB B b s = Inr (n, t) \<longleftrightarrow>
    b_has B s (bucket_name b) \<and> n = length (b_list B s (bucket_name b)) \<and> t = s"
  by (auto simp: countB_def onB_def)

lemma seqB_Inr: "seqB B b s = Inr (n, t) \<longleftrightarrow>
    b_has B s (bucket_name b) \<and> n = b_seq B s (bucket_name b) \<and> t = s"
  by (auto simp: seqB_def onB_def)

lemma setseqB_Inr: "setseqB B b n s = Inr (u, t) \<longleftrightarrow>
    b_has B s (bucket_name b) \<and> b_setseq B s (bucket_name b) n = Some t"
  by (auto simp: setseqB_def onB_def)

lemma createB_Inr: "createB B b s = Inr (u, t) \<longleftrightarrow>
    \<not> b_has B s (bucket_name b) \<and> b_create B s (bucket_name b) = Some t"
  by (auto simp: createB_def)

lemma dropB_Inr: "dropB B b s = Inr (u, t) \<longleftrightarrow>
    b_has B s (bucket_name b) \<and> b_drop B s (bucket_name b) = Some t"
  by (auto simp: dropB_def)

lemma ensureB_Inr: "ensureB B b s = Inr (u, t) \<longleftrightarrow>
    (if b_has B s (bucket_name b) then t = s else b_create B s (bucket_name b) = Some t)"
  by (auto simp: ensureB_def)

lemmas tx_Inr = bindT_Inr thenT_Inr getB_Inr hasB_Inr putB_Inr deleteB_Inr listB_Inr countB_Inr
  seqB_Inr setseqB_Inr createB_Inr dropB_Inr ensureB_Inr


section \<open>The documented behaviour of the database\<close>

locale bolt =
  fixes B :: "'s bolt"
  assumes put: "b_has B s n \<Longrightarrow> b_put B s n k v = Some t \<Longrightarrow>
      b_get B t = (b_get B s)(n := (b_get B s n)(k \<mapsto> v)) \<and> b_has B t = b_has B s \<and> b_seq B t = b_seq B s"
    and delete: "b_has B s n \<Longrightarrow> b_delete B s n k = Some t \<Longrightarrow>
      b_get B t = (b_get B s)(n := (b_get B s n)(k := None)) \<and> b_has B t = b_has B s \<and> b_seq B t = b_seq B s"
    and setseq: "b_has B s n \<Longrightarrow> 0 \<le> q \<Longrightarrow> b_setseq B s n q = Some t \<Longrightarrow>
      b_get B t = b_get B s \<and> b_has B t = b_has B s \<and> b_seq B t = (b_seq B s)(n := q)"
    and create: "\<not> b_has B s n \<Longrightarrow> b_create B s n = Some t \<Longrightarrow>
      b_get B t = (b_get B s)(n := Map.empty) \<and> b_has B t = (b_has B s)(n := True) \<and> b_seq B t = (b_seq B s)(n := 0)"
    and drop: "b_has B s n \<Longrightarrow> b_drop B s n = Some t \<Longrightarrow>
      b_get B t = (b_get B s)(n := Map.empty) \<and> b_has B t = (b_has B s)(n := False) \<and> b_seq B t = (b_seq B s)(n := 0)"
    and commit: "b_commit B s = Some t \<Longrightarrow> b_get B t = b_get B s \<and> b_has B t = b_has B s \<and> b_seq B t = b_seq B s"
    and list_sorted: "b_has B s n \<Longrightarrow> sorted_wrt (<) (map fst (b_list B s n))"
    and list_map: "b_has B s n \<Longrightarrow> map_of (b_list B s n) = b_get B s n"
    and seq_nonneg: "0 \<le> b_seq B s n"

text \<open>A database whose writes succeed.\<close>

locale bolt_live = bolt +
  assumes put_live: "b_has B s n \<Longrightarrow> b_put B s n k v \<noteq> None"
    and delete_live: "b_has B s n \<Longrightarrow> b_delete B s n k \<noteq> None"
    and setseq_live: "b_has B s n \<Longrightarrow> b_setseq B s n q \<noteq> None"
    and create_live: "\<not> b_has B s n \<Longrightarrow> b_create B s n \<noteq> None"
    and drop_live: "b_has B s n \<Longrightarrow> b_drop B s n \<noteq> None"
    and commit_live: "b_commit B s \<noteq> None"

text \<open>The entries, the existence and the sequence of a bucket.\<close>

abbreviation ent :: "'s bolt \<Rightarrow> 's \<Rightarrow> bucket \<Rightarrow> string \<Rightarrow> stored option" where
  "ent B s b \<equiv> b_get B s (bucket_name b)"

abbreviation has :: "'s bolt \<Rightarrow> 's \<Rightarrow> bucket \<Rightarrow> bool" where
  "has B s b \<equiv> b_has B s (bucket_name b)"

abbreviation sqn :: "'s bolt \<Rightarrow> 's \<Rightarrow> bucket \<Rightarrow> int" where
  "sqn B s b \<equiv> b_seq B s (bucket_name b)"

context bolt
begin

lemma list_distinct: "b_has B s n \<Longrightarrow> distinct (map fst (b_list B s n))"
  using list_sorted strict_sorted_iff[of "map fst (b_list B s n)"] by blast

lemma list_mem: "b_has B s n \<Longrightarrow> (k, v) \<in> set (b_list B s n) \<longleftrightarrow> b_get B s n k = Some v"
  using list_map[of s n] list_distinct[of s n] map_of_eq_Some_iff by metis

lemma list_dom: "b_has B s n \<Longrightarrow> fst ` set (b_list B s n) = dom (b_get B s n)"
  using list_map[of s n] dom_map_of_conv_image_fst by metis

lemma finite_ent: "b_has B s n \<Longrightarrow> finite (dom (b_get B s n))"
  using list_map[of s n] finite_dom_map_of by metis

lemma list_length: "b_has B s n \<Longrightarrow> length (b_list B s n) = card (dom (b_get B s n))"
  using list_dom[of s n] list_distinct[of s n] distinct_card[of "map fst (b_list B s n)"] by simp

lemma update_Inr:
  assumes "update B f s = (Inr a, u)"
  obtains t where "f s = Inr (a, t)" "b_get B u = b_get B t" "b_has B u = b_has B t" "b_seq B u = b_seq B t"
  using assms commit by (auto simp: update_def split: sum.splits option.splits)

end

lemma update_Inl: "update B f s = (Inl e, u) \<Longrightarrow> u = s"
  by (auto simp: update_def split: sum.splits option.splits)

lemma update_error: "f s = Inl e \<Longrightarrow> update B f s = (Inl e, s)"
  by (simp add: update_def)

lemma view_state [simp]: "snd (view f s) = s"
  by (auto simp: view_def split: sum.splits)

lemma guarded_Inr [simp]: "guarded ok e f s = (Inr a, u) \<longleftrightarrow> ok \<and> f s = (Inr a, u)"
  by (simp add: guarded_def)

lemma guarded_Inl: "guarded ok e f s = (Inl e', u) \<Longrightarrow> (\<not> ok \<and> u = s \<and> e' = e) \<or> (ok \<and> f s = (Inl e', u))"
  by (simp add: guarded_def split: if_splits)

section \<open>A database in memory\<close>

text \<open>A database that has the documented behaviour: association lists, listed in key order.\<close>

type_synonym mem = "(string \<times> (string \<times> stored) list \<times> int) list"

definition mem_get :: "mem \<Rightarrow> string \<Rightarrow> string \<Rightarrow> stored option" where
  "mem_get s n k = (case map_of s n of None \<Rightarrow> None | Some (es, _) \<Rightarrow> map_of es k)"

definition mem_list :: "mem \<Rightarrow> string \<Rightarrow> (string \<times> stored) list" where
  "mem_list s n =
     (case map_of s n of
        None \<Rightarrow> []
      | Some (es, _) \<Rightarrow> map (\<lambda>k. (k, the (map_of es k))) (sort (remdups (map fst es))))"

definition mem_bolt :: "mem bolt" where
  "mem_bolt = \<lparr>
     b_has = (\<lambda>s n. map_of s n \<noteq> None),
     b_get = mem_get,
     b_list = mem_list,
     b_seq = (\<lambda>s n. case map_of s n of None \<Rightarrow> 0 | Some (_, q) \<Rightarrow> max 0 q),
     b_create = (\<lambda>s n. Some (AList.update n ([], 0) s)),
     b_drop = (\<lambda>s n. Some (AList.delete n s)),
     b_put = (\<lambda>s n k v. map_option (\<lambda>(es, q). AList.update n (AList.update k v es, q) s) (map_of s n)),
     b_delete = (\<lambda>s n k. map_option (\<lambda>(es, q). AList.update n (AList.delete k es, q) s) (map_of s n)),
     b_setseq = (\<lambda>s n x. map_option (\<lambda>(es, q). AList.update n (es, x) s) (map_of s n)),
     b_commit = Some\<rparr>"

lemma map_of_restricted: "map_of (map (\<lambda>k. (k, the (map_of es k))) ks) k = (if k \<in> set ks then Some (the (map_of es k)) else None)"
  by (induction ks) auto

lemma mem_list_map:
  assumes "map_of s n = Some (es, q)"
  shows "map_of (mem_list s n) = map_of es"
proof
  fix k
  show "map_of (mem_list s n) k = map_of es k"
    using assms map_of_eq_None_iff[of es k]
    by (auto simp: mem_list_def map_of_restricted split: option.splits)
qed

lemma mem_list_sorted: "sorted_wrt (<) (map fst (mem_list s n))"
proof -
  have "sorted_wrt (<) (sort (remdups ks))" for ks :: "string list"
    by (simp add: strict_sorted_iff)
  then show ?thesis by (auto simp: mem_list_def comp_def split: option.splits)
qed

interpretation mem: bolt_live mem_bolt
proof unfold_locales
  fix s n k v t
  assume "b_has mem_bolt s n" "b_put mem_bolt s n k v = Some t"
  then show "b_get mem_bolt t = (b_get mem_bolt s)(n := (b_get mem_bolt s n)(k \<mapsto> v)) \<and>
      b_has mem_bolt t = b_has mem_bolt s \<and> b_seq mem_bolt t = b_seq mem_bolt s"
    by (auto simp: mem_bolt_def mem_get_def update_conv fun_eq_iff split: option.splits if_splits)
next
  fix s n k t
  assume "b_has mem_bolt s n" "b_delete mem_bolt s n k = Some t"
  then show "b_get mem_bolt t = (b_get mem_bolt s)(n := (b_get mem_bolt s n)(k := None)) \<and>
      b_has mem_bolt t = b_has mem_bolt s \<and> b_seq mem_bolt t = b_seq mem_bolt s"
    by (auto simp: mem_bolt_def mem_get_def update_conv delete_conv fun_eq_iff split: option.splits if_splits)
next
  fix s n q t
  assume "b_has mem_bolt s n" "0 \<le> q" "b_setseq mem_bolt s n q = Some t"
  then show "b_get mem_bolt t = b_get mem_bolt s \<and> b_has mem_bolt t = b_has mem_bolt s \<and>
      b_seq mem_bolt t = (b_seq mem_bolt s)(n := q)"
    by (auto simp: mem_bolt_def mem_get_def update_conv fun_eq_iff split: option.splits if_splits)
next
  fix s n t
  assume "\<not> b_has mem_bolt s n" "b_create mem_bolt s n = Some t"
  then show "b_get mem_bolt t = (b_get mem_bolt s)(n := Map.empty) \<and>
      b_has mem_bolt t = (b_has mem_bolt s)(n := True) \<and> b_seq mem_bolt t = (b_seq mem_bolt s)(n := 0)"
    by (auto simp: mem_bolt_def mem_get_def update_conv fun_eq_iff split: option.splits if_splits)
next
  fix s n t
  assume "b_has mem_bolt s n" "b_drop mem_bolt s n = Some t"
  then show "b_get mem_bolt t = (b_get mem_bolt s)(n := Map.empty) \<and>
      b_has mem_bolt t = (b_has mem_bolt s)(n := False) \<and> b_seq mem_bolt t = (b_seq mem_bolt s)(n := 0)"
    by (auto simp: mem_bolt_def mem_get_def delete_conv fun_eq_iff split: option.splits if_splits)
next
  fix s n
  assume "b_has mem_bolt s n"
  then show "map_of (b_list mem_bolt s n) = b_get mem_bolt s n"
    by (auto simp: mem_bolt_def mem_get_def mem_list_map fun_eq_iff split: option.splits if_splits)
  show "sorted_wrt (<) (map fst (b_list mem_bolt s n))"
    by (simp add: mem_bolt_def mem_list_sorted)
qed (auto simp: mem_bolt_def split: option.splits)

end
