(* ===== verification/Rate_Limits.thy ===== *)
theory Rate_Limits
  imports Queue_Store
begin

text \<open>
  Admission counters of the journal, \<open>pkg/eventqueue/limits.go\<close>: the logical clock, the rolling
  minute of admissions per account, the concurrency leases, and the check and the commit of an
  admission. Counts and clock are eight big-endian bytes; an admission event has the key instant,
  request, colon, account, so that a scan in key order meets the oldest first.
\<close>

section \<open>The code\<close>

record queue =
  q_capacity :: int
  q_maxPayload :: int
  q_quotaCapacity :: int

definition valid_entry :: "queue \<Rightarrow> string \<Rightarrow> string \<Rightarrow> bool" where
  "valid_entry q rid payload \<longleftrightarrow>
     validKey rid \<and> length payload > 0 \<and> int (length payload) \<le> q_maxPayload q"

text \<open>\<open>tx.Bucket(limitMetaBucket).Get(k)\<close> as a string: empty where the key is absent.\<close>

definition metaText :: "'s bolt \<Rightarrow> string \<Rightarrow> ('s, string) tx" where
  "metaText B k = bindT (getB B LimitMetaBucket k) (\<lambda>v. okT (case v of None \<Rightarrow> [] | Some x \<Rightarrow> bytes_of x))"

definition BindInstallation :: "'s bolt \<Rightarrow> string \<Rightarrow> bool \<Rightarrow> 's \<Rightarrow> (queue_error + unit) \<times> 's" where
  "BindInstallation B identity established =
     guarded (validKey identity) ErrInvalid (update B
       (bindT (metaText B ''installation'') (\<lambda>old.
          if old = [] then
            (if established then failT ErrInvalid
             else putB B LimitMetaBucket ''installation'' (Bytes identity))
          else checkT (old = identity) ErrInvalid)))"

definition countValue :: "'s bolt \<Rightarrow> bucket \<Rightarrow> string \<Rightarrow> ('s, int) tx" where
  "countValue B b key =
     bindT (getB B b key) (\<lambda>raw.
       case raw of
         None \<Rightarrow> okT 0
       | Some v \<Rightarrow>
           if length (bytes_of v) \<noteq> 8 then failT ErrInvalid
           else let value = be64_val (bytes_of v) in if value < 0 then failT ErrInvalid else okT value)"

definition changeCount :: "'s bolt \<Rightarrow> bucket \<Rightarrow> string \<Rightarrow> int \<Rightarrow> ('s, unit) tx" where
  "changeCount B b key delta =
     bindT (countValue B b key) (\<lambda>old.
       let value = wrap64 (old + delta) in
       if value < 0 then failT ErrInvalid
       else if value = 0 then deleteB B b key
       else putB B b key (Bytes (be64 value)))"

text \<open>The scan of \<open>pruneLimits\<close> over the events in key order.\<close>

fun prune_events :: "'s bolt \<Rightarrow> int \<Rightarrow> (string \<times> stored) list \<Rightarrow> int \<Rightarrow> ('s, int) tx" where
  "prune_events B cutoff [] removed = okT removed"
| "prune_events B cutoff ((key, value) # events) removed =
     (if length key < 9 \<or> \<not> validKey (bytes_of value) then failT ErrInvalid
      else if be64_val key > cutoff then okT removed
      else thenT (changeCount B RpmCountBucket (bytes_of value) (-1))
          (thenT (deleteB B RpmBucket key)
             (prune_events B cutoff events (removed + 1))))"

definition pruneLimits :: "'s bolt \<Rightarrow> int \<Rightarrow> ('s, unit) tx" where
  "pruneLimits B instant =
     bindT (listB B RpmBucket) (\<lambda>events.
     bindT (prune_events B (instant - minute_ns) events 0) (\<lambda>removed.
     bindT (seqB B RpmBucket) (\<lambda>n.
       if removed > n then failT ErrInvalid else setseqB B RpmBucket (n - removed))))"

definition releaseLimits :: "'s bolt \<Rightarrow> string \<Rightarrow> ('s, unit) tx" where
  "releaseLimits B rid =
     bindT (getB B LeaseBucket rid) (\<lambda>raw.
       case raw of
         None \<Rightarrow> okT ()
       | Some v \<Rightarrow>
           (case as_accounts v of
              None \<Rightarrow> failT ErrInvalid
            | Some accounts \<Rightarrow>
                thenT (forT accounts (\<lambda>account. changeCount B ActiveCountBucket account (-1)))
                  (deleteB B LeaseBucket rid)))"

definition logicalLimitTime :: "'s bolt \<Rightarrow> int \<Rightarrow> ('s, int) tx" where
  "logicalLimitTime B now =
     (if now \<le> 0 then failT ErrInvalid
      else bindT (metaText B ''clock'') (\<lambda>previous.
        if previous \<noteq> [] \<and> length previous \<noteq> 8 then failT ErrInvalid
        else let old = be64_val previous;
                 value = (if previous \<noteq> [] \<and> now < old then old else now)
             in thenT (putB B LimitMetaBucket ''clock'' (Bytes (be64 value))) (okT value)))"

definition limit_step :: "'s bolt \<Rightarrow> limit \<Rightarrow> string list \<Rightarrow> ('s, string list) tx" where
  "limit_step B l accounts =
     thenT (checkT (validKey (lim_Account l) \<and> lim_Account l \<notin> set accounts) ErrInvalid)
     (bindT (countValue B RpmCountBucket (lim_Account l)) (\<lambda>rpm.
      bindT (countValue B ActiveCountBucket (lim_Account l)) (\<lambda>active.
        if (case lim_RPM l of None \<Rightarrow> False | Some r \<Rightarrow> r < 0 \<or> rpm \<ge> r) then failT ErrRateLimit
        else if (case lim_Concurrency l of None \<Rightarrow> False | Some c \<Rightarrow> c < 0 \<or> active \<ge> c) then failT ErrConcurrency
        else okT (accounts @ [lim_Account l]))))"

definition checkLimitAdmission :: "queue \<Rightarrow> 's bolt \<Rightarrow> string \<Rightarrow> limit list \<Rightarrow> int \<Rightarrow> ('s, int \<times> string list) tx" where
  "checkLimitAdmission q B rid limits now =
     bindT (getB B PendingBucket rid) (\<lambda>p.
     bindT (getB B ReadyBucket rid) (\<lambda>r.
     thenT (checkT (p = None \<and> r = None) ErrInvalid)
     (bindT (countB B PendingBucket) (\<lambda>np.
      bindT (countB B ReadyBucket) (\<lambda>nr.
      thenT (checkT (int (np + nr) < q_capacity q) ErrFull)
      (bindT (logicalLimitTime B now) (\<lambda>instant.
       thenT (pruneLimits B instant)
       (bindT (seqB B RpmBucket) (\<lambda>n.
        thenT (checkT (n + int (length limits) \<le> limitHistoryCapacity) ErrFull)
        (bindT (foldT (limit_step B) limits []) (\<lambda>accounts.
           okT (instant, accounts))))))))))))"

definition admit_account :: "'s bolt \<Rightarrow> string \<Rightarrow> int \<Rightarrow> string \<Rightarrow> ('s, unit) tx" where
  "admit_account B rid instant account =
     thenT (changeCount B RpmCountBucket account 1)
     (thenT (changeCount B ActiveCountBucket account 1)
        (putB B RpmBucket (be64 instant @ rid @ '':'' @ account) (Bytes account)))"

definition applyLimitAdmission :: "'s bolt \<Rightarrow> string \<Rightarrow> string \<Rightarrow> int \<Rightarrow> string list \<Rightarrow> ('s, unit) tx" where
  "applyLimitAdmission B rid payload instant accounts =
     thenT (forT accounts (admit_account B rid instant))
     (bindT (seqB B RpmBucket) (\<lambda>n.
      thenT (setseqB B RpmBucket (n + int (length accounts)))
      (thenT (putB B LeaseBucket rid (Accounts accounts))
         (putB B PendingBucket rid (Bytes payload)))))"

definition reserveWithLimits :: "queue \<Rightarrow> 's bolt \<Rightarrow> string \<Rightarrow> string \<Rightarrow> limit list \<Rightarrow> int \<Rightarrow> ('s, unit) tx" where
  "reserveWithLimits q B rid payload limits now =
     bindT (checkLimitAdmission q B rid limits now) (\<lambda>(instant, accounts).
       applyLimitAdmission B rid payload instant accounts)"

definition ReserveWithLimits ::
  "queue \<Rightarrow> 's bolt \<Rightarrow> string \<Rightarrow> string \<Rightarrow> limit list \<Rightarrow> int \<Rightarrow> 's \<Rightarrow> (queue_error + unit) \<times> 's" where
  "ReserveWithLimits q B rid payload limits now =
     guarded (valid_entry q rid payload \<and> length limits \<le> 8) ErrInvalid (update B
       (bindT (metaText B ''version'') (\<lambda>version.
          if version = ''2'' then failT ErrQuotaRequired
          else reserveWithLimits q B rid payload limits now)))"

definition AccountUsage :: "'s bolt \<Rightarrow> string \<Rightarrow> int \<Rightarrow> 's \<Rightarrow> (queue_error + int \<times> int) \<times> 's" where
  "AccountUsage B account now =
     update B
       (bindT (logicalLimitTime B now) (\<lambda>instant.
        thenT (pruneLimits B instant)
        (bindT (countValue B RpmCountBucket account) (\<lambda>rpm.
         bindT (countValue B ActiveCountBucket account) (\<lambda>active.
           okT (rpm, active))))))"

text \<open>\<open>initLimits\<close>: the checks of an existing ledger, the buckets, and the indexes built anew.\<close>

definition check_ledger :: "'s bolt \<Rightarrow> ('s, unit) tx" where
  "check_ledger B =
     bindT (hasB B LimitMetaBucket) (\<lambda>known.
       if \<not> known then okT ()
       else bindT (metaText B ''version'') (\<lambda>version.
         thenT (checkT (version = ''1'' \<or> version = ''2'') ErrInvalid)
         (bindT (getB B LimitMetaBucket ''clock'') (\<lambda>clock.
          thenT (checkT (case clock of None \<Rightarrow> True | Some v \<Rightarrow> length (bytes_of v) = 8) ErrInvalid)
            (forT [RpmBucket, LeaseBucket, PendingBucket, ReadyBucket]
               (\<lambda>b. bindT (hasB B b) (\<lambda>h. checkT h ErrInvalid)))))))"

definition count_event :: "'s bolt \<Rightarrow> string \<times> stored \<Rightarrow> int \<Rightarrow> ('s, int) tx" where
  "count_event B event tot =
     (case event of (key, value) \<Rightarrow>
        thenT (checkT (length key \<ge> 9 \<and> validKey (bytes_of value)) ErrInvalid)
        (thenT (changeCount B RpmCountBucket (bytes_of value) 1) (okT (tot + 1))))"

definition initLimits :: "'s bolt \<Rightarrow> ('s, unit) tx" where
  "initLimits B =
     thenT (check_ledger B)
     (thenT (forT [RpmBucket, LeaseBucket, LimitMetaBucket, RpmCountBucket, ActiveCountBucket] (ensureB B))
     (bindT (getB B LimitMetaBucket ''version'') (\<lambda>version.
      thenT (if version = None then putB B LimitMetaBucket ''version'' (Bytes ''1'') else okT ())
      (thenT (forT [LeaseBucket, RpmCountBucket, ActiveCountBucket] (\<lambda>b. thenT (dropB B b) (createB B b)))
      (bindT (listB B RpmBucket) (\<lambda>events.
       bindT (foldT (count_event B) events 0) (\<lambda>tot.
       thenT (checkT (tot \<le> limitHistoryCapacity) ErrInvalid)
         (setseqB B RpmBucket tot))))))))"

section \<open>Frames\<close>

text \<open>What a transaction leaves alone: every bucket outside the set, and which buckets exist.\<close>

definition frame :: "'s bolt \<Rightarrow> bucket set \<Rightarrow> 's \<Rightarrow> 's \<Rightarrow> bool" where
  "frame B bs s t \<longleftrightarrow>
     (\<forall>b. has B t b = has B s b) \<and> (\<forall>b. b \<notin> bs \<longrightarrow> ent B t b = ent B s b \<and> sqn B t b = sqn B s b)"

lemma frame_refl [simp]: "frame B bs s s"
  by (simp add: frame_def)

lemma frame_trans: "frame B bs s t \<Longrightarrow> frame B bs' t u \<Longrightarrow> bs \<subseteq> cs \<Longrightarrow> bs' \<subseteq> cs \<Longrightarrow> frame B cs s u"
  unfolding frame_def by (metis subsetD)

lemma frame_mono: "frame B bs s t \<Longrightarrow> bs \<subseteq> cs \<Longrightarrow> frame B cs s t"
  unfolding frame_def by blast

lemma frame_has: "frame B bs s t \<Longrightarrow> has B t b = has B s b"
  by (simp add: frame_def)

lemma frame_ent: "frame B bs s t \<Longrightarrow> b \<notin> bs \<Longrightarrow> ent B t b = ent B s b"
  by (simp add: frame_def)

lemma frame_sqn: "frame B bs s t \<Longrightarrow> b \<notin> bs \<Longrightarrow> sqn B t b = sqn B s b"
  by (simp add: frame_def)

text \<open>The number a count reads as; \<open>None\<close> where the bytes are not a count.\<close>

definition count_at :: "stored option \<Rightarrow> int option" where
  "count_at raw =
     (case raw of
        None \<Rightarrow> Some 0
      | Some v \<Rightarrow> if length (bytes_of v) = 8 \<and> 0 \<le> be64_val (bytes_of v) then Some (be64_val (bytes_of v)) else None)"

lemma count_at_None [simp]: "count_at None = Some 0"
  by (simp add: count_at_def)

lemma count_at_be64: "0 \<le> n \<Longrightarrow> int64_range n \<Longrightarrow> count_at (Some (Bytes (be64 n))) = Some n"
  using be64_val_be64[of n "[]"] by (simp add: count_at_def)

lemma be64_val_range: "int64_range (be64_val s)"
  by (simp add: be64_val_def wrap64_range)

lemma count_at_bounds: "count_at raw = Some n \<Longrightarrow> 0 \<le> n \<and> int64_range n"
  using be64_val_range by (auto simp: count_at_def int64_range_def split: option.splits if_splits)

lemma countValue_Inr: "countValue B b key s = Inr (n, t) \<longleftrightarrow>
    has B s b \<and> count_at (ent B s b key) = Some n \<and> t = s"
  by (auto simp: countValue_def tx_Inr count_at_def Let_def not_less split: option.splits if_splits)

context bolt
begin

lemma putB_frame: "putB B b k v s = Inr (u, t) \<Longrightarrow>
    frame B {b} s t \<and> has B s b \<and> ent B t b = (ent B s b)(k \<mapsto> v) \<and> sqn B t b = sqn B s b"
  using put by (fastforce simp: putB_Inr frame_def)

lemma deleteB_frame: "deleteB B b k s = Inr (u, t) \<Longrightarrow>
    frame B {b} s t \<and> has B s b \<and> ent B t b = (ent B s b)(k := None) \<and> sqn B t b = sqn B s b"
  using delete by (fastforce simp: deleteB_Inr frame_def)

lemma setseqB_frame: "setseqB B b n s = Inr (u, t) \<Longrightarrow> 0 \<le> n \<Longrightarrow>
    frame B {b} s t \<and> has B s b \<and> ent B t b = ent B s b \<and> sqn B t b = n"
  using setseq by (fastforce simp: setseqB_Inr frame_def)

lemma changeCount_Inr:
  assumes "changeCount B b key delta s = Inr (u, t)" "delta = 1 \<or> delta = -1"
  obtains n where "frame B {b} s t" "has B s b" "sqn B t b = sqn B s b"
    "count_at (ent B s b key) = Some n" "0 \<le> n + delta" "count_at (ent B t b key) = Some (n + delta)"
    "\<And>k. k \<noteq> key \<Longrightarrow> ent B t b k = ent B s b k"
proof -
  obtain n where n: "has B s b" "count_at (ent B s b key) = Some n" and w: "0 \<le> wrap64 (n + delta)"
    and step: "(if wrap64 (n + delta) = 0 then deleteB B b key else putB B b key (Bytes (be64 (wrap64 (n + delta))))) s = Inr (u, t)"
    using assms(1)
    by (auto simp: changeCount_def bindT_Inr countValue_Inr Let_def not_less split: if_splits)
  have b: "0 \<le> n" "int64_range n" using count_at_bounds[OF n(2)] by auto
  have nd: "wrap64 (n + delta) = n + delta"
  proof (cases "int64_range (n + delta)")
    case False
    then have "n + delta = 9223372036854775808" using b assms(2) by (auto simp: int64_range_def)
    then show ?thesis using w by (simp add: wrap64_def)
  qed (simp add: wrap64_id)
  show thesis
  proof (cases "n + delta = 0")
    case True
    then have d: "deleteB B b key s = Inr (u, t)" using step nd by simp
    show thesis by (rule that) (use deleteB_frame[OF d] n True in auto)
  next
    case False
    then have d: "putB B b key (Bytes (be64 (n + delta))) s = Inr (u, t)" using step nd by simp
    have "int64_range (n + delta)" using nd wrap64_range by metis
    then have "count_at (Some (Bytes (be64 (n + delta)))) = Some (n + delta)"
      using w nd by (intro count_at_be64) simp_all
    then show thesis by (intro that[of n]) (use putB_frame[OF d] n w nd in auto)
  qed
qed

end

end
