(* ===== verification/Quota_Counters.thy ===== *)
theory Quota_Counters
  imports Rate_Limits
begin

text \<open>
  The counters of the quota journal, \<open>pkg/eventqueue/quota_counters.go\<close>, with the reading and
  checking of receipts from \<open>quota.go\<close> they depend on: one counter per account and window, changed
  by the whole of a receipt at once; the projection of a settled receipt on its windows with an
  expiry entry for each; and the pruning that takes expired projections back.
\<close>

section \<open>Counters\<close>

definition counterKey :: "string \<Rightarrow> string \<Rightarrow> string" where
  "counterKey account window = account @ [CHR 0x00] @ window"

definition monthWindow :: "int \<Rightarrow> string" where
  "monthWindow start = ''month_'' @ int_digits start"

definition valid_total :: "string \<times> string \<Rightarrow> bool" where
  "valid_total t \<longleftrightarrow>
     (case t of (currency, raw) \<Rightarrow>
        quotaCurrency currency \<and>
        (case parse_int raw of None \<Rightarrow> False | Some amount \<Rightarrow> 0 \<le> amount \<and> int_digits amount = raw))"

definition valid_counter :: "quota_counter \<Rightarrow> bool" where
  "valid_counter c \<longleftrightarrow>
     0 \<le> qc_TokensUsed c \<and> 0 \<le> qc_TokensHeld c \<and> 0 \<le> qc_TokensUnknown c \<and> 0 \<le> qc_MoneyUnknown c \<and>
     list_all valid_total (qc_MoneyUsed c) \<and> list_all valid_total (qc_MoneyHeld c)"

definition readQuotaCounter :: "'s bolt \<Rightarrow> string \<Rightarrow> string \<Rightarrow> ('s, quota_counter) tx" where
  "readQuotaCounter B account window =
     bindT (getB B QuotaCounterBucket (counterKey account window)) (\<lambda>raw.
       case (case raw of None \<Rightarrow> Some empty_counter | Some v \<Rightarrow> as_counter v) of
         None \<Rightarrow> failT ErrInvalid
       | Some counter \<Rightarrow> if valid_counter counter then okT counter else failT ErrInvalid)"

definition addToken :: "int \<Rightarrow> int \<Rightarrow> int \<Rightarrow> queue_error + int" where
  "addToken tot value sign =
     (if value < 0 \<or> (sign \<noteq> 1 \<and> sign \<noteq> -1) then Inl ErrInvalid
      else if sign = 1 then
        (if tot > max_int64 - value then Inl ErrInvalid else Inr (tot + value))
      else if tot < value then Inl ErrInvalid else Inr (tot - value))"

definition addMoney :: "totals \<Rightarrow> string \<Rightarrow> string \<Rightarrow> int \<Rightarrow> queue_error + totals" where
  "addMoney totals currency value sign =
     (case quotaUnits value of
        None \<Rightarrow> Inl ErrInvalid
      | Some units \<Rightarrow>
          (case (case map_of totals currency of None \<Rightarrow> Some 0 | Some raw \<Rightarrow> parse_int raw) of
             None \<Rightarrow> Inl ErrInvalid
           | Some previous \<Rightarrow>
               if previous < 0 then Inl ErrInvalid
               else let next' = (if sign = 1 then previous + units else previous - units) in
                 if next' < 0 then Inl ErrInvalid
                 else if next' = 0 then Inr (AList.delete currency totals)
                 else Inr (AList.update currency (int_digits next') totals)))"

text \<open>What a receipt weighs in a counter: its bound while it is active, afterwards what was settled,
  dimension by dimension.\<close>

definition weight_tokens :: "quota_receipt \<Rightarrow> int option \<times> bool" where
  "weight_tokens e =
     (if qr_State e \<noteq> ''active'' \<and> qs_Tokens (qr_Actual e) \<noteq> None then (qs_Tokens (qr_Actual e), True)
      else (qb_Tokens (qr_Bound e), False))"

definition weight_money :: "quota_receipt \<Rightarrow> string option \<times> string \<times> bool" where
  "weight_money e =
     (if qr_State e \<noteq> ''active'' \<and> qs_Money (qr_Actual e) \<noteq> None
      then (qs_Money (qr_Actual e), qs_Currency (qr_Actual e), True)
      else (qb_Money (qr_Bound e), qb_Currency (qr_Bound e), False))"

definition change_tokens :: "quota_receipt \<Rightarrow> int \<Rightarrow> quota_counter \<Rightarrow> queue_error + quota_counter" where
  "change_tokens e sign c =
     (case weight_tokens e of
        (None, _) \<Rightarrow> bindE (addToken (qc_TokensUnknown c) 1 sign) (\<lambda>n. Inr (c\<lparr>qc_TokensUnknown := n\<rparr>))
      | (Some tokens, True) \<Rightarrow> bindE (addToken (qc_TokensUsed c) tokens sign) (\<lambda>n. Inr (c\<lparr>qc_TokensUsed := n\<rparr>))
      | (Some tokens, False) \<Rightarrow> bindE (addToken (qc_TokensHeld c) tokens sign) (\<lambda>n. Inr (c\<lparr>qc_TokensHeld := n\<rparr>)))"

definition change_money :: "quota_receipt \<Rightarrow> int \<Rightarrow> quota_counter \<Rightarrow> queue_error + quota_counter" where
  "change_money e sign c =
     (case weight_money e of
        (None, _, _) \<Rightarrow> bindE (addToken (qc_MoneyUnknown c) 1 sign) (\<lambda>n. Inr (c\<lparr>qc_MoneyUnknown := n\<rparr>))
      | (Some money, currency, True) \<Rightarrow>
          bindE (addMoney (qc_MoneyUsed c) currency money sign) (\<lambda>m. Inr (c\<lparr>qc_MoneyUsed := m\<rparr>))
      | (Some money, currency, False) \<Rightarrow>
          bindE (addMoney (qc_MoneyHeld c) currency money sign) (\<lambda>m. Inr (c\<lparr>qc_MoneyHeld := m\<rparr>)))"

definition zero_counter :: "quota_counter \<Rightarrow> bool" where
  "zero_counter c \<longleftrightarrow>
     qc_TokensUsed c = 0 \<and> qc_TokensHeld c = 0 \<and> qc_TokensUnknown c = 0 \<and> qc_MoneyUnknown c = 0 \<and>
     qc_MoneyUsed c = [] \<and> qc_MoneyHeld c = []"

definition applyQuotaCounter :: "'s bolt \<Rightarrow> string \<Rightarrow> string \<Rightarrow> quota_receipt \<Rightarrow> int \<Rightarrow> ('s, unit) tx" where
  "applyQuotaCounter B account window e sign =
     bindT (readQuotaCounter B account window) (\<lambda>c0.
     bindT (liftT (change_tokens e sign c0)) (\<lambda>c1.
     bindT (liftT (change_money e sign c1)) (\<lambda>c2.
       if zero_counter c2 then deleteB B QuotaCounterBucket (counterKey account window)
       else putB B QuotaCounterBucket (counterKey account window) (Counter c2))))"

definition money_view :: "totals \<Rightarrow> totals" where
  "money_view totals =
     map (\<lambda>(currency, raw). (currency, quotaDecimalValue (case parse_int raw of None \<Rightarrow> 0 | Some u \<Rightarrow> u))) totals"

definition quotaCounterView :: "quota_counter \<Rightarrow> quota_usage" where
  "quotaCounterView c = \<lparr>qu_TokensUsed = qc_TokensUsed c, qu_TokensHeld = qc_TokensHeld c,
     qu_TokensUnknown = qc_TokensUnknown c, qu_MoneyUsed = money_view (qc_MoneyUsed c),
     qu_MoneyHeld = money_view (qc_MoneyHeld c), qu_MoneyUnknown = qc_MoneyUnknown c\<rparr>"

section \<open>Receipts\<close>

definition validQuotaBound :: "quota_bound \<Rightarrow> queue_error + unit" where
  "validQuotaBound b =
     (if (case qb_Tokens b of None \<Rightarrow> False | Some n \<Rightarrow> n < 0) then Inl ErrInvalid
      else if (case qb_Money b of None \<Rightarrow> False | Some m \<Rightarrow> quotaUnits m = None \<or> \<not> quotaCurrency (qb_Currency b))
      then Inl ErrInvalid
      else if (qb_Revision b \<noteq> '''' \<and> \<not> validKey (qb_Revision b)) \<or> length (qb_PriceRevision b) > 64 \<or>
          (qb_BasisDigest b \<noteq> '''' \<and> \<not> quotaDigest (qb_BasisDigest b))
      then Inl ErrInvalid else Inr ())"

definition validQuotaSettlement :: "quota_settlement \<Rightarrow> queue_error + unit" where
  "validQuotaSettlement a =
     (if (case qs_Tokens a of None \<Rightarrow> False | Some n \<Rightarrow> n < 0) then Inl ErrInvalid
      else if (case qs_Money a of None \<Rightarrow> False | Some m \<Rightarrow> quotaUnits m = None \<or> \<not> quotaCurrency (qs_Currency a))
      then Inl ErrInvalid else Inr ())"

text \<open>\<open>quotaUnits\<close> of a text that was checked before; \<open>0\<close> stands for the nil result of an error.\<close>

definition checked_units :: "string \<Rightarrow> int" where
  "checked_units m = (case quotaUnits m of None \<Rightarrow> 0 | Some u \<Rightarrow> u)"

definition validQuotaRecovery :: "quota_bound \<Rightarrow> quota_settlement \<Rightarrow> queue_error + unit" where
  "validQuotaRecovery b r =
     (if (case (qs_Tokens r, qb_Tokens b) of (Some x, Some y) \<Rightarrow> x > y | _ \<Rightarrow> False) then Inl ErrQuotaBound
      else case (qs_Money r, qb_Money b) of
          (Some x, Some y) \<Rightarrow>
            if qs_Currency r \<noteq> qb_Currency b then Inl ErrQuotaCurrency
            else if checked_units x > checked_units y then Inl ErrQuotaBound else Inr ()
        | _ \<Rightarrow> Inr ())"

definition account_step :: "quota_account \<Rightarrow> string list \<Rightarrow> queue_error + string list" where
  "account_step a seen =
     (if \<not> validKey (qa_Account a) \<or> \<not> validKey (qa_Revision a) \<or> qa_Account a \<in> set seen then Inl ErrInvalid
      else Inr (qa_Account a # seen))"

definition check_receipt :: "string \<Rightarrow> quota_receipt \<Rightarrow> queue_error + unit" where
  "check_receipt rid e =
     (if qr_RequestID e \<noteq> rid \<or> \<not> validKey rid \<or> qr_AdmittedAt e \<le> 0 \<or> qr_AdmittedAt e > max_int64 - seven_days_ns \<or>
         qr_MonthStart e < 0 \<or> qr_MonthEnd e \<le> qr_AdmittedAt e \<or> qr_Accounts e = [] \<or> length (qr_Accounts e) > 8
      then Inl ErrInvalid
      else bindE (validQuotaBound (qr_Bound e)) (\<lambda>_.
        bindE (validQuotaSettlement (qr_Actual e)) (\<lambda>_.
        bindE (validQuotaSettlement (qr_Recovery e)) (\<lambda>_.
        bindE (validQuotaRecovery (qr_Bound e) (qr_Recovery e)) (\<lambda>_.
        bindE (foldE account_step (qr_Accounts e) []) (\<lambda>_.
          if qr_State e = ''active'' then
            (if qr_SettlementDigest e \<noteq> '''' \<or> qs_Tokens (qr_Actual e) \<noteq> None \<or> qs_Money (qr_Actual e) \<noteq> None
             then Inl ErrInvalid else Inr ())
          else if qr_State e = ''complete'' \<or> qr_State e = ''interrupted'' then
            (if qs_Tokens (qr_Recovery e) \<noteq> None \<or> qs_Money (qr_Recovery e) \<noteq> None \<or> qs_Currency (qr_Recovery e) \<noteq> '''' \<or>
                \<not> quotaDigest (qr_SettlementDigest e)
             then Inl ErrInvalid else Inr ())
          else Inl ErrInvalid))))))"

definition readQuotaReceipt :: "'s bolt \<Rightarrow> string \<Rightarrow> ('s, quota_receipt) tx" where
  "readQuotaReceipt B rid =
     bindT (getB B QuotaEntryBucket rid) (\<lambda>raw.
       case raw of
         None \<Rightarrow> failT ErrMissing
       | Some v \<Rightarrow>
           (case as_receipt v of
              None \<Rightarrow> failT ErrInvalid
            | Some e \<Rightarrow> bindT (liftT (check_receipt rid e)) (\<lambda>_. okT e)))"

definition storeQuotaReceipt :: "'s bolt \<Rightarrow> quota_receipt \<Rightarrow> ('s, unit) tx" where
  "storeQuotaReceipt B e = putB B QuotaEntryBucket (qr_RequestID e) (Receipt e)"

section \<open>Projection and pruning\<close>

definition expiryKey :: "int \<Rightarrow> char \<Rightarrow> string \<Rightarrow> string" where
  "expiryKey instant kind identity = be64 instant @ [kind] @ identity"

definition quotaWindowEnds :: "quota_receipt \<Rightarrow> (string \<times> int) list" where
  "quotaWindowEnds e =
     [(''minute'', wrap64 (qr_AdmittedAt e + minute_ns)),
      (''five_hours'', wrap64 (qr_AdmittedAt e + five_hours_ns)),
      (''seven_days'', wrap64 (qr_AdmittedAt e + seven_days_ns)),
      (monthWindow (qr_MonthStart e), qr_MonthEnd e)]"

definition project_account :: "'s bolt \<Rightarrow> quota_receipt \<Rightarrow> string \<Rightarrow> int \<Rightarrow> quota_account \<Rightarrow> ('s, unit) tx" where
  "project_account B e window end' account =
     thenT (applyQuotaCounter B (qa_Account account) window e 1)
       (putB B QuotaExpiryBucket
          (expiryKey end' CHR ''c'' (qa_Account account @ [CHR 0x00] @ window @ [CHR 0x00] @ qr_RequestID e)) (Bytes []))"

definition project_window :: "'s bolt \<Rightarrow> quota_receipt \<Rightarrow> int \<Rightarrow> string \<times> int \<Rightarrow> int \<Rightarrow> ('s, int) tx" where
  "project_window B e instant w latest =
     (case w of (window, end') \<Rightarrow>
        if end' < qr_AdmittedAt e then failT ErrInvalid
        else let latest' = (if end' > latest then end' else latest) in
          if end' \<le> instant then okT latest'
          else thenT (forT (qr_Accounts e) (project_account B e window end')) (okT latest'))"

definition projectTerminalQuota :: "'s bolt \<Rightarrow> quota_receipt \<Rightarrow> int \<Rightarrow> ('s, unit) tx" where
  "projectTerminalQuota B e instant =
     bindT (foldT (project_window B e instant) (quotaWindowEnds e) (qr_MonthEnd e)) (\<lambda>latest.
       putB B QuotaExpiryBucket (expiryKey latest CHR ''r'' (qr_RequestID e)) (Bytes []))"

text \<open>\<open>strings.Split\<close> at NUL.\<close>

fun split_nul :: "string \<Rightarrow> string list" where
  "split_nul [] = [[]]"
| "split_nul (x # xs) =
     (if x = CHR 0x00 then [] # split_nul xs
      else case split_nul xs of [] \<Rightarrow> [[x]] | w # ws \<Rightarrow> (x # w) # ws)"

text \<open>One due entry; the result says whether it is deleted.\<close>

definition expire_counter :: "'s bolt \<Rightarrow> string \<Rightarrow> ('s, bool) tx" where
  "expire_counter B identity =
     (case split_nul identity of
        [account, window, rid] \<Rightarrow>
          bindT (readQuotaReceipt B rid) (\<lambda>e.
          thenT (applyQuotaCounter B account window e (-1)) (okT True))
      | _ \<Rightarrow> failT ErrInvalid)"

definition expire_receipt :: "'s bolt \<Rightarrow> string \<Rightarrow> ('s, bool) tx" where
  "expire_receipt B rid =
     bindT (getB B ReadyBucket rid) (\<lambda>r.
     bindT (if r \<noteq> None then okT r else getB B PendingBucket rid) (\<lambda>p.
       if p \<noteq> None then okT False
       else bindT (getB B QuotaEntryBucket rid) (\<lambda>e.
         bindT (seqB B QuotaEntryBucket) (\<lambda>n.
         thenT (checkT (e \<noteq> None \<and> n \<noteq> 0) ErrInvalid)
         (thenT (deleteB B QuotaEntryBucket rid)
         (thenT (setseqB B QuotaEntryBucket (n - 1)) (okT True)))))))"

fun prune_expiry :: "'s bolt \<Rightarrow> int \<Rightarrow> (string \<times> stored) list \<Rightarrow> ('s, unit) tx" where
  "prune_expiry B instant [] = okT ()"
| "prune_expiry B instant ((key, _) # entries) =
     (if length key < 10 then failT ErrInvalid
      else if be64_val key > instant then okT ()
      else bindT
          (if key ! 8 = CHR ''c'' then expire_counter B (drop 9 key)
           else if key ! 8 = CHR ''r'' then expire_receipt B (drop 9 key)
           else failT ErrInvalid)
        (\<lambda>remove.
           thenT (if remove then deleteB B QuotaExpiryBucket key else okT ())
             (prune_expiry B instant entries)))"

definition pruneQuota :: "'s bolt \<Rightarrow> int \<Rightarrow> ('s, unit) tx" where
  "pruneQuota B instant = bindT (listB B QuotaExpiryBucket) (prune_expiry B instant)"

end
