(* ===== verification/Journal.thy ===== *)
theory Journal
  imports Quota_Counters
begin

text \<open>
  The journal of request facts, \<open>pkg/eventqueue/queue.go\<close>: a reservation with its fallback fact is
  pending until its completion makes the final fact ready for delivery; an acknowledgement removes
  a delivered fact. \<open>Open\<close>, which recovers the journal of a stopped process, is in
  \<open>Quota_Recovery\<close>.
\<close>

definition Reserve :: "queue \<Rightarrow> 's bolt \<Rightarrow> string \<Rightarrow> string \<Rightarrow> 's \<Rightarrow> (queue_error + unit) \<times> 's" where
  "Reserve q B rid fallback =
     guarded (valid_entry q rid fallback) ErrInvalid (update B
       (bindT (hasB B QuotaEntryBucket) (\<lambda>quota.
        bindT (if quota then getB B QuotaEntryBucket rid else okT None) (\<lambda>entry.
        thenT (checkT (entry = None) ErrQuotaConflict)
        (bindT (getB B PendingBucket rid) (\<lambda>p.
         bindT (if p \<noteq> None then okT p else getB B ReadyBucket rid) (\<lambda>r.
         thenT (checkT (r = None) ErrInvalid)
         (bindT (countB B PendingBucket) (\<lambda>np.
          bindT (countB B ReadyBucket) (\<lambda>nr.
          thenT (checkT (int (np + nr) < q_capacity q) ErrFull)
            (putB B PendingBucket rid (Bytes fallback))))))))))))"

definition UpdatePending :: "queue \<Rightarrow> 's bolt \<Rightarrow> string \<Rightarrow> string \<Rightarrow> 's \<Rightarrow> (queue_error + unit) \<times> 's" where
  "UpdatePending q B rid fallback =
     guarded (valid_entry q rid fallback) ErrInvalid (update B
       (bindT (getB B ReadyBucket rid) (\<lambda>r.
        bindT (getB B PendingBucket rid) (\<lambda>p.
        thenT (checkT (r = None \<and> p \<noteq> None) ErrMissing)
          (putB B PendingBucket rid (Bytes fallback))))))"

definition complete_entry :: "'s bolt \<Rightarrow> string \<Rightarrow> string \<Rightarrow> ('s, unit) tx" where
  "complete_entry B rid payload =
     bindT (getB B ReadyBucket rid) (\<lambda>r.
       if r \<noteq> None then okT ()
       else bindT (getB B PendingBucket rid) (\<lambda>p.
         thenT (checkT (p \<noteq> None) ErrMissing)
         (thenT (putB B ReadyBucket rid (Bytes payload))
         (thenT (releaseLimits B rid)
            (deleteB B PendingBucket rid)))))"

definition Complete :: "queue \<Rightarrow> 's bolt \<Rightarrow> string \<Rightarrow> string \<Rightarrow> 's \<Rightarrow> (queue_error + unit) \<times> 's" where
  "Complete q B rid payload =
     guarded (valid_entry q rid payload) ErrInvalid (update B
       (bindT (hasB B QuotaEntryBucket) (\<lambda>quota.
        bindT (if quota then getB B QuotaEntryBucket rid else okT None) (\<lambda>entry.
        thenT (checkT (entry = None) ErrQuotaRequired)
          (complete_entry B rid payload)))))"

text \<open>\<open>Entry\<close>: a ready identifier with its payload.\<close>

type_synonym entry = "string \<times> string"

definition Read :: "queue \<Rightarrow> 's bolt \<Rightarrow> int \<Rightarrow> 's \<Rightarrow> (queue_error + entry list) \<times> 's" where
  "Read q B l =
     guarded (1 \<le> l \<and> l \<le> q_capacity q) ErrInvalid (view
       (bindT (listB B ReadyBucket) (\<lambda>entries.
          okT (map (\<lambda>(k, v). (k, bytes_of v)) (take (nat l) entries)))))"

definition Ack :: "'s bolt \<Rightarrow> string \<Rightarrow> 's \<Rightarrow> (queue_error + unit) \<times> 's" where
  "Ack B rid = guarded (validKey rid) ErrInvalid (update B (deleteB B ReadyBucket rid))"

definition Depth :: "'s bolt \<Rightarrow> 's \<Rightarrow> (queue_error + int) \<times> 's" where
  "Depth B =
     view (bindT (countB B PendingBucket) (\<lambda>np.
           bindT (countB B ReadyBucket) (\<lambda>nr. okT (int (np + nr)))))"

end
