(* ===== verification/Quota.thy ===== *)
theory Quota
  imports Journal Limits_Policy
begin

text \<open>
  The quota journal, \<open>pkg/eventqueue/quota.go\<close>: activation, the check of an admission against every
  account's ceilings, the atomic admission with its economic holds, the checkpoint of a recovery
  settlement, the settlement, and the reading of usage. The clock, the counters and the journal
  are those of the theories below; the months of a time zone and the digest come from the
  environment.
\<close>

section \<open>Activation\<close>

definition readQuotaMetadata :: "env \<Rightarrow> 's bolt \<Rightarrow> ('s, quota_metadata) tx" where
  "readQuotaMetadata E B =
     bindT (metaText B ''version'') (\<lambda>version.
     thenT (checkT (version = ''2'') ErrQuotaInactive)
     (bindT (getB B LimitMetaBucket ''quota'') (\<lambda>raw.
        case (case raw of None \<Rightarrow> None | Some v \<Rightarrow> as_metadata v) of
          None \<Rightarrow> failT ErrInvalid
        | Some m \<Rightarrow>
            if qm_CoverageStart m \<le> 0 \<or> qm_TimeZone m = '''' \<or> \<not> e_zone E (qm_TimeZone m) then failT ErrInvalid
            else okT m)))"

definition create_absent :: "'s bolt \<Rightarrow> bucket \<Rightarrow> ('s, unit) tx" where
  "create_absent B b = bindT (hasB B b) (\<lambda>h. thenT (checkT (\<not> h) ErrInvalid) (createB B b))"

definition EnableQuota :: "env \<Rightarrow> 's bolt \<Rightarrow> string \<Rightarrow> int \<Rightarrow> 's \<Rightarrow> (queue_error + unit) \<times> 's" where
  "EnableQuota E B zone now =
     guarded (zone \<noteq> '''' \<and> e_zone E zone) ErrInvalid (update B
       (bindT (metaText B ''version'') (\<lambda>version.
          if version = ''2'' then
            bindT (readQuotaMetadata E B) (\<lambda>m. checkT (qm_TimeZone m = zone) ErrQuotaConflict)
          else
            bindT (logicalLimitTime B now) (\<lambda>instant.
            thenT (forT quotaBuckets (create_absent B))
            (thenT (putB B LimitMetaBucket ''quota'' (Metadata \<lparr>qm_TimeZone = zone, qm_CoverageStart = instant\<rparr>))
              (putB B LimitMetaBucket ''version'' (Bytes ''2'')))))))"

section \<open>The check of an admission\<close>

text \<open>\<open>strings.CutPrefix\<close>.\<close>

definition cut_prefix :: "string \<Rightarrow> string \<Rightarrow> string option" where
  "cut_prefix p s = (if take (length p) s = p then Some (drop (length p) s) else None)"

definition has_prefix :: "string \<Rightarrow> string \<Rightarrow> bool" where
  "has_prefix p s \<longleftrightarrow> take (length p) s = p"

definition monthlyBehaviorAccount :: "string \<Rightarrow> bool" where
  "monthlyBehaviorAccount account =
     (case cut_prefix ''project_'' account of
        Some rest \<Rightarrow> has_prefix ''prj_'' rest \<and> length rest > 4 \<and> length rest \<le> 30 \<and> validKey rest
      | None \<Rightarrow>
          if has_prefix ''user_'' account \<and> length account > 5 then True
          else (case cut_prefix ''team_'' account of
              None \<Rightarrow> False
            | Some rest \<Rightarrow>
                \<not> has_prefix ''team_member_'' account \<and> length rest > 0 \<and> length rest \<le> 30 \<and> validKey rest))"

definition projectKeyBehaviorAccount :: "string \<Rightarrow> bool" where
  "projectKeyBehaviorAccount account =
     (case cut_prefix ''key_'' account of
        None \<Rightarrow> False
      | Some rest \<Rightarrow> has_prefix ''pky_'' rest \<and> length rest > 4 \<and> length rest \<le> 30 \<and> validKey rest)"

definition personalKeyBehaviorAccount :: "string \<Rightarrow> bool" where
  "personalKeyBehaviorAccount account =
     (case cut_prefix ''key_'' account of
        None \<Rightarrow> False
      | Some rest \<Rightarrow> length rest > 0 \<and> length rest \<le> 30 \<and> validKey rest)"

text \<open>\<open>encoding/base32\<close> without padding: five bits a character, line breaks skipped, of the last
  group whole bytes only.\<close>

definition b32_val :: "char \<Rightarrow> nat option" where
  "b32_val c =
     (let n = of_char c in
      if is_upper c then Some (n - 65) else if 50 \<le> n \<and> n \<le> 55 then Some (n - 24) else None)"

definition b32_char :: "nat \<Rightarrow> char" where
  "b32_char n = (if n < 26 then char_of (n + 65) else char_of (n + 24))"

definition bits5 :: "nat \<Rightarrow> bool list" where
  "bits5 n = map (\<lambda>i. odd (n div 2 ^ i)) [4, 3, 2, 1, 0]"

definition of_bits :: "bool list \<Rightarrow> nat" where
  "of_bits bs = foldl (\<lambda>a b. 2 * a + (if b then 1 else 0)) 0 bs"

fun b32_bits :: "string \<Rightarrow> bool list option" where
  "b32_bits [] = Some []"
| "b32_bits (c # cs) =
     (case b32_val c of
        None \<Rightarrow> None
      | Some n \<Rightarrow> (case b32_bits cs of None \<Rightarrow> None | Some bs \<Rightarrow> Some (bits5 n @ bs)))"

definition b32_decode :: "string \<Rightarrow> bool list option" where
  "b32_decode s =
     (let t = filter (\<lambda>c. c \<noteq> CHR 0x0A \<and> c \<noteq> CHR 0x0D) s; rest = length t mod 8;
          n = 5 * (length t div 8) + (if rest = 7 then 4 else if rest = 5 then 3 else if rest = 4 then 2 else if rest = 2 then 1 else 0)
      in map_option (\<lambda>bs. take (8 * n) bs) (b32_bits t))"

fun b32_encode :: "bool list \<Rightarrow> string" where
  "b32_encode bs =
     (if bs = [] then []
      else b32_char (of_bits (take 5 (bs @ replicate 4 False))) # b32_encode (drop 5 bs))"

declare b32_encode.simps [simp del]

definition teamMemberBehaviorAccount :: "string \<Rightarrow> bool" where
  "teamMemberBehaviorAccount account =
     (case cut_prefix ''team_member_'' account of
        None \<Rightarrow> False
      | Some value \<Rightarrow>
          (case b32_decode value of
             None \<Rightarrow> False
           | Some raw \<Rightarrow> length raw = 256 \<and> b32_encode raw = value))"

text \<open>A counter of an active journal; an inactive one has none.\<close>

definition read_if :: "bool \<Rightarrow> 's bolt \<Rightarrow> string \<Rightarrow> string \<Rightarrow> ('s, quota_counter) tx" where
  "read_if activeJournal B account window =
     (if activeJournal then readQuotaCounter B account window else okT empty_counter)"

fun fits :: "int list \<Rightarrow> int \<Rightarrow> bool" where
  "fits [] remaining = True"
| "fits (amount # amounts) remaining = (if amount > remaining then False else fits amounts (remaining - amount))"

definition check_behavior :: "quota_limit \<Rightarrow> queue_error + bool \<times> bool" where
  "check_behavior policy =
     (case (CanonicalMonthlyBehavior (ql_TokensMonthBehavior policy), CanonicalMonthlyBehavior (ql_MoneyMonthBehavior policy)) of
        (Inr tb, Inr mb) \<Rightarrow>
          let account = lim_Account (ql_Limit policy) in
          if (ql_PersonalKey policy \<and> ql_ProjectKey policy) \<or>
             (ql_TeamMember policy \<and> (ql_PersonalKey policy \<or> ql_ProjectKey policy)) \<or>
             ((tb \<noteq> '''' \<or> mb \<noteq> '''') \<and> \<not> monthlyBehaviorAccount account \<and>
              (\<not> ql_PersonalKey policy \<or> \<not> personalKeyBehaviorAccount account) \<and>
              (\<not> ql_ProjectKey policy \<or> \<not> projectKeyBehaviorAccount account) \<and>
              (\<not> ql_TeamMember policy \<or> \<not> teamMemberBehaviorAccount account))
          then Inl ErrInvalid
          else Inr (tb = MonthlyBehaviorAlertOnly, mb = MonthlyBehaviorAlertOnly)
      | _ \<Rightarrow> Inl ErrInvalid)"

definition created_of :: "quota_limit \<Rightarrow> int \<Rightarrow> queue_error + int" where
  "created_of policy instant =
     (case ql_CreatedAt policy of
        None \<Rightarrow> Inr 0
      | Some c \<Rightarrow> if c \<le> 0 \<or> c > instant then Inl ErrInvalid else Inr c)"

definition check_account :: "'s bolt \<Rightarrow> string \<Rightarrow> int \<Rightarrow> bool \<Rightarrow> ('s, unit) tx" where
  "check_account B account created establish =
     bindT (getB B QuotaAccountBucket account) (\<lambda>raw.
       case raw of
         Some v \<Rightarrow>
           (case as_created v of
              None \<Rightarrow> failT ErrQuotaConflict
            | Some prior \<Rightarrow> checkT ((case prior of None \<Rightarrow> 0 | Some p \<Rightarrow> p) = created) ErrQuotaConflict)
       | None \<Rightarrow> if establish then putB B QuotaAccountBucket account (Created created) else okT ())"

definition check_window ::
  "'s bolt \<Rightarrow> string \<Rightarrow> quota_bound \<Rightarrow> int \<Rightarrow> int \<Rightarrow> bool \<Rightarrow> bool \<Rightarrow> quota_counter \<Rightarrow>
   string \<times> int \<times> int option \<times> bool \<Rightarrow> bool \<Rightarrow> ('s, bool) tx" where
  "check_window B account bound coverage created activeJournal tokenSoft active w constrained =
     (case w of (name, start, maxTokens, monthly) \<Rightarrow>
        case maxTokens of
          None \<Rightarrow> okT constrained
        | Some limit \<Rightarrow>
            let soft = monthly \<and> tokenSoft in
            thenT (checkT (limit \<ge> 0) ErrInvalid)
            (thenT (checkT (limit \<noteq> 0 \<or> soft) ErrQuotaTokens)
            (thenT (checkT (\<not> (start < coverage \<and> created < coverage)) ErrQuotaCoverage)
            (case qb_Tokens bound of
               None \<Rightarrow> failT ErrQuotaBound
             | Some tokens \<Rightarrow>
                 bindT (read_if activeJournal B account name) (\<lambda>used.
                 thenT (checkT (\<not> (qc_TokensUnknown used > 0 \<or> qc_TokensUnknown active > 0)) ErrQuotaUnknown)
                 (thenT (checkT (soft \<or> fits [qc_TokensUsed used, qc_TokensHeld used, qc_TokensUsed active,
                                              qc_TokensHeld active, tokens] limit) ErrQuotaTokens)
                   (okT True)))))))"

fun spend_totals :: "string \<Rightarrow> totals \<Rightarrow> int \<Rightarrow> queue_error + int" where
  "spend_totals currency [] maximum = Inr maximum"
| "spend_totals currency ((c, raw) # totals) maximum =
     (if c \<noteq> currency then Inl ErrQuotaCurrency
      else case parse_int raw of
          None \<Rightarrow> Inl ErrInvalid
        | Some amount \<Rightarrow> spend_totals currency totals (maximum - amount))"

definition check_money ::
  "'s bolt \<Rightarrow> quota_limit \<Rightarrow> quota_bound \<Rightarrow> int \<Rightarrow> int \<Rightarrow> int \<Rightarrow> bool \<Rightarrow> bool \<Rightarrow> quota_counter \<Rightarrow> bool \<Rightarrow> ('s, bool) tx" where
  "check_money B policy bound coverage created monthStart activeJournal soft active constrained =
     (case ql_MoneyMonth policy of
        None \<Rightarrow> okT constrained
      | Some money \<Rightarrow>
          (case quotaUnits money of
             None \<Rightarrow> failT ErrInvalid
           | Some maximum \<Rightarrow>
               thenT (checkT (maximum \<noteq> 0 \<or> soft) ErrQuotaMoney)
               (thenT (checkT (quotaCurrency (ql_Currency policy)) ErrInvalid)
               (thenT (checkT (\<not> (monthStart < coverage \<and> created < coverage)) ErrQuotaCoverage)
               (case qb_Money bound of
                  None \<Rightarrow> failT ErrQuotaBound
                | Some reserve \<Rightarrow>
                    thenT (checkT (qb_Currency bound = ql_Currency policy) ErrQuotaCurrency)
                    (bindT (read_if activeJournal B (lim_Account (ql_Limit policy)) (monthWindow monthStart)) (\<lambda>used.
                     thenT (checkT (\<not> (qc_MoneyUnknown used > 0 \<or> qc_MoneyUnknown active > 0)) ErrQuotaUnknown)
                     (bindT (liftT (spend_totals (ql_Currency policy)
                         (qc_MoneyUsed used @ qc_MoneyHeld used @ qc_MoneyUsed active @ qc_MoneyHeld active) maximum)) (\<lambda>left.
                      thenT (checkT (\<not> (left < checked_units reserve \<and> \<not> soft)) ErrQuotaMoney)
                        (okT True))))))))))"

definition token_windows :: "quota_limit \<Rightarrow> int \<Rightarrow> int \<Rightarrow> (string \<times> int \<times> int option \<times> bool) list" where
  "token_windows policy instant monthStart =
     [(''minute'', instant - minute_ns, ql_TPM policy, False),
      (''five_hours'', instant - five_hours_ns, ql_Tokens5H policy, False),
      (''seven_days'', instant - seven_days_ns, ql_Tokens7D policy, False),
      (monthWindow monthStart, monthStart, ql_TokensMonth policy, True)]"

definition checkQuota ::
  "'s bolt \<Rightarrow> quota_limit \<Rightarrow> quota_bound \<Rightarrow> quota_metadata \<Rightarrow> int \<Rightarrow> int \<Rightarrow> bool \<Rightarrow> bool \<Rightarrow> ('s, unit) tx" where
  "checkQuota B policy bound metadata instant monthStart activeJournal establish =
     bindT (liftT (check_behavior policy)) (\<lambda>(tokenSoft, moneySoft).
     thenT (checkT (validKey (ql_Revision policy)) ErrInvalid)
     (bindT (liftT (created_of policy instant)) (\<lambda>created.
      let account = lim_Account (ql_Limit policy); coverage = qm_CoverageStart metadata in
      thenT (if activeJournal then check_account B account created establish else okT ())
      (bindT (read_if activeJournal B account ''active'') (\<lambda>active.
       bindT (foldT (check_window B account bound coverage created activeJournal tokenSoft active)
                (token_windows policy instant monthStart) False) (\<lambda>constrained.
       bindT (check_money B policy bound coverage created monthStart activeJournal moneySoft active constrained) (\<lambda>constrained'.
         if \<not> constrained' then okT ()
         else bindT (if activeJournal then getB B QuotaInvalidBoundBucket (qb_Revision bound) else okT None) (\<lambda>invalid.
           checkT (qb_Revision bound \<noteq> '''' \<and> invalid = None) ErrQuotaBound))))))))"

definition checkQuotaAdmission ::
  "env \<Rightarrow> queue \<Rightarrow> 's bolt \<Rightarrow> string \<Rightarrow> quota_limit list \<Rightarrow> quota_bound \<Rightarrow> string \<Rightarrow> int \<Rightarrow> bool \<Rightarrow>
   ('s, quota_receipt \<times> string list) tx" where
  "checkQuotaAdmission E q B rid policies bound previewZone now establish =
     bindT (metaText B ''version'') (\<lambda>version.
     thenT (checkT (version = ''1'' \<or> version = ''2'') ErrInvalid)
     (let active = (version = ''2'') in
      bindT (if active then
               bindT (readQuotaMetadata E B) (\<lambda>m.
                 thenT (checkT (previewZone = '''' \<or> qm_TimeZone m = previewZone) ErrQuotaConflict) (okT m))
             else thenT (checkT (previewZone \<noteq> '''') ErrQuotaInactive)
                    (okT \<lparr>qm_TimeZone = '''', qm_CoverageStart = 0\<rparr>)) (\<lambda>metadata0.
      bindT (hasB B QuotaEntryBucket) (\<lambda>h.
      bindT (if h then getB B QuotaEntryBucket rid else okT None) (\<lambda>known.
      thenT (checkT (known = None) ErrQuotaConflict)
      (bindT (checkLimitAdmission q B rid (map ql_Limit policies) now) (\<lambda>(instant, limitAccounts).
       bindT (if active then
                thenT (pruneQuota B instant)
                (bindT (seqB B QuotaEntryBucket) (\<lambda>n.
                 thenT (checkT (n < q_quotaCapacity q) ErrFull) (okT metadata0)))
              else okT \<lparr>qm_TimeZone = previewZone, qm_CoverageStart = instant\<rparr>) (\<lambda>metadata.
       bindT (liftT (quotaMonth E instant (qm_TimeZone metadata))) (\<lambda>(start, end').
       thenT (checkT (instant \<le> max_int64 - seven_days_ns) ErrInvalid)
       (thenT (forT policies (\<lambda>policy. checkQuota B policy bound metadata instant start active establish))
         (okT (\<lparr>qr_RequestID = rid, qr_AdmittedAt = instant, qr_MonthStart = start, qr_MonthEnd = end',
                qr_Accounts = map (\<lambda>p. \<lparr>qa_Account = lim_Account (ql_Limit p), qa_Revision = ql_Revision p\<rparr>) policies,
                qr_Bound = bound, qr_State = ''active'', qr_Actual = no_settlement, qr_Recovery = no_settlement,
                qr_SettlementDigest = '''', qr_Overrun = False\<rparr>, limitAccounts))))))))))))"

section \<open>Admission\<close>

definition admit_quota ::
  "env \<Rightarrow> queue \<Rightarrow> 's bolt \<Rightarrow> string \<Rightarrow> string \<Rightarrow> quota_limit list \<Rightarrow> quota_bound \<Rightarrow> quota_settlement \<Rightarrow> int \<Rightarrow> ('s, unit) tx" where
  "admit_quota E q B rid payload policies bound recovery now =
     bindT (checkQuotaAdmission E q B rid policies bound '''' now True) (\<lambda>(entry, limitAccounts).
     thenT (applyLimitAdmission B rid payload (qr_AdmittedAt entry) limitAccounts)
     (thenT (forT (qr_Accounts entry) (\<lambda>a. applyQuotaCounter B (qa_Account a) ''active'' entry 1))
     (thenT (storeQuotaReceipt B (entry\<lparr>qr_Recovery := recovery\<rparr>))
     (bindT (seqB B QuotaEntryBucket) (\<lambda>n. setseqB B QuotaEntryBucket (n + 1))))))"

definition ReserveWithQuotaRecovery ::
  "env \<Rightarrow> queue \<Rightarrow> 's bolt \<Rightarrow> string \<Rightarrow> string \<Rightarrow> quota_limit list \<Rightarrow> quota_bound \<Rightarrow> quota_settlement \<Rightarrow> int \<Rightarrow> 's \<Rightarrow>
   (queue_error + unit) \<times> 's" where
  "ReserveWithQuotaRecovery E q B rid payload policies bound recovery now s =
     (if \<not> valid_entry q rid payload \<or> policies = [] \<or> length policies > 8 then (Inl ErrInvalid, s)
      else case bindE (validQuotaBound bound) (\<lambda>_. bindE (validQuotaSettlement recovery) (\<lambda>_. validQuotaRecovery bound recovery)) of
          Inl e \<Rightarrow> (Inl e, s)
        | Inr _ \<Rightarrow> update B (admit_quota E q B rid payload policies bound recovery now) s)"

definition ReserveWithQuota ::
  "env \<Rightarrow> queue \<Rightarrow> 's bolt \<Rightarrow> string \<Rightarrow> string \<Rightarrow> quota_limit list \<Rightarrow> quota_bound \<Rightarrow> int \<Rightarrow> 's \<Rightarrow>
   (queue_error + unit) \<times> 's" where
  "ReserveWithQuota E q B rid payload policies bound now =
     ReserveWithQuotaRecovery E q B rid payload policies bound no_settlement now"

definition UpdatePendingQuota ::
  "queue \<Rightarrow> 's bolt \<Rightarrow> string \<Rightarrow> string \<Rightarrow> quota_settlement \<Rightarrow> 's \<Rightarrow> (queue_error + unit) \<times> 's" where
  "UpdatePendingQuota q B rid fallback interrupted s =
     (if \<not> valid_entry q rid fallback then (Inl ErrInvalid, s)
      else case validQuotaSettlement interrupted of
          Inl e \<Rightarrow> (Inl e, s)
        | Inr _ \<Rightarrow> update B
            (bindT (getB B ReadyBucket rid) (\<lambda>r.
             bindT (getB B PendingBucket rid) (\<lambda>p.
             thenT (checkT (r = None \<and> p \<noteq> None) ErrMissing)
             (bindT (readQuotaReceipt B rid) (\<lambda>entry.
              thenT (checkT (qr_State entry = ''active'') ErrQuotaConflict)
              (bindT (liftT (validQuotaRecovery (qr_Bound entry) interrupted)) (\<lambda>_.
               thenT (storeQuotaReceipt B (entry\<lparr>qr_Recovery := interrupted\<rparr>))
                 (putB B PendingBucket rid (Bytes fallback))))))))) s)"

definition PreflightWithQuota ::
  "env \<Rightarrow> queue \<Rightarrow> 's bolt \<Rightarrow> string \<Rightarrow> quota_limit list \<Rightarrow> quota_bound \<Rightarrow> string \<Rightarrow> int \<Rightarrow> 's \<Rightarrow>
   (queue_error + unit) \<times> 's" where
  "PreflightWithQuota E q B rid policies bound zone now s =
     (if \<not> validKey rid \<or> policies = [] \<or> length policies > 8 \<or> zone = '''' \<or> \<not> e_zone E zone then (Inl ErrInvalid, s)
      else case validQuotaBound bound of
          Inl e \<Rightarrow> (Inl e, s)
        | Inr _ \<Rightarrow> update B (bindT (checkQuotaAdmission E q B rid policies bound zone now False) (\<lambda>_. okT ())) s)"

section \<open>Settlement\<close>

definition overrun :: "quota_bound \<Rightarrow> quota_settlement \<Rightarrow> bool" where
  "overrun b a \<longleftrightarrow>
     (case (qs_Tokens a, qb_Tokens b) of (Some x, Some y) \<Rightarrow> x > y | _ \<Rightarrow> False) \<or>
     (case (qs_Money a, qb_Money b) of (Some x, Some y) \<Rightarrow> checked_units x > checked_units y | _ \<Rightarrow> False)"

definition settle_receipt :: "quota_receipt \<Rightarrow> quota_settlement \<Rightarrow> string \<Rightarrow> quota_receipt" where
  "settle_receipt entry actual digest =
     entry\<lparr>qr_State := ''complete'', qr_Actual := actual, qr_Recovery := no_settlement,
           qr_SettlementDigest := digest, qr_Overrun := qr_Overrun entry \<or> overrun (qr_Bound entry) actual\<rparr>"

definition settle_quota ::
  "env \<Rightarrow> 's bolt \<Rightarrow> string \<Rightarrow> string \<Rightarrow> quota_settlement \<Rightarrow> int \<Rightarrow> ('s, quota_receipt) tx" where
  "settle_quota E B rid payload actual now =
     bindT (readQuotaMetadata E B) (\<lambda>_.
     bindT (readQuotaReceipt B rid) (\<lambda>entry.
       if qr_State entry \<noteq> ''active'' then
         thenT (checkT (qr_SettlementDigest entry = e_digest E actual payload) ErrQuotaConflict) (okT entry)
       else
         thenT (checkT (\<not> (qs_Money actual \<noteq> None \<and> qb_Money (qr_Bound entry) \<noteq> None \<and>
                           qs_Currency actual \<noteq> qb_Currency (qr_Bound entry))) ErrQuotaCurrency)
         (bindT (logicalLimitTime B now) (\<lambda>instant.
          thenT (forT (qr_Accounts entry) (\<lambda>a. applyQuotaCounter B (qa_Account a) ''active'' entry (-1)))
          (let settled = settle_receipt entry actual (e_digest E actual payload) in
           thenT (if qr_Overrun settled \<and> qb_Revision (qr_Bound settled) \<noteq> ''''
                  then putB B QuotaInvalidBoundBucket (qb_Revision (qr_Bound settled)) (Bytes rid) else okT ())
           (thenT (storeQuotaReceipt B settled)
           (thenT (projectTerminalQuota B settled instant)
           (thenT (complete_entry B rid payload)
             (okT settled)))))))))"

definition CompleteQuota ::
  "env \<Rightarrow> queue \<Rightarrow> 's bolt \<Rightarrow> string \<Rightarrow> string \<Rightarrow> quota_settlement \<Rightarrow> int \<Rightarrow> 's \<Rightarrow> (queue_error + quota_receipt) \<times> 's" where
  "CompleteQuota E q B rid payload actual now s =
     (if \<not> valid_entry q rid payload then (Inl ErrInvalid, s)
      else case validQuotaSettlement actual of
          Inl e \<Rightarrow> (Inl e, s)
        | Inr _ \<Rightarrow> update B (settle_quota E B rid payload actual now) s)"

definition QuotaReceipt :: "env \<Rightarrow> 's bolt \<Rightarrow> string \<Rightarrow> 's \<Rightarrow> (queue_error + quota_receipt) \<times> 's" where
  "QuotaReceipt E B rid =
     view (bindT (readQuotaMetadata E B) (\<lambda>_. readQuotaReceipt B rid))"

section \<open>Usage\<close>

definition read_usage :: "'s bolt \<Rightarrow> string \<Rightarrow> string \<Rightarrow> ('s, quota_usage) tx" where
  "read_usage B account window =
     bindT (readQuotaCounter B account window) (\<lambda>c. okT (quotaCounterView c))"

definition read_windows :: "'s bolt \<Rightarrow> string \<Rightarrow> int \<Rightarrow> int \<Rightarrow> string \<Rightarrow> int \<Rightarrow> ('s, account_quota_usage) tx" where
  "read_windows B account asOf coverage zone start =
     bindT (read_usage B account ''active'') (\<lambda>active.
     bindT (read_usage B account ''minute'') (\<lambda>minute.
     bindT (read_usage B account ''five_hours'') (\<lambda>hours.
     bindT (read_usage B account ''seven_days'') (\<lambda>days.
     bindT (read_usage B account (monthWindow start)) (\<lambda>month.
       okT \<lparr>au_AsOf = asOf, au_CoverageStart = coverage, au_TimeZone = zone, au_Active = active,
            au_Minute = minute, au_FiveHours = hours, au_SevenDays = days, au_Month = month\<rparr>)))))"

definition AccountQuotaUsage :: "env \<Rightarrow> 's bolt \<Rightarrow> string \<Rightarrow> int \<Rightarrow> 's \<Rightarrow> (queue_error + account_quota_usage) \<times> 's" where
  "AccountQuotaUsage E B account now =
     guarded (validKey account) ErrInvalid (update B
       (bindT (readQuotaMetadata E B) (\<lambda>m.
        bindT (logicalLimitTime B now) (\<lambda>instant.
        thenT (pruneQuota B instant)
        (bindT (liftT (quotaMonth E instant (qm_TimeZone m))) (\<lambda>(start, _).
           read_windows B account instant (qm_CoverageStart m) (qm_TimeZone m) start))))))"

end
