(* ===== verification/Call_Facts.thy ===== *)
theory Call_Facts
  imports Pricing_Bound Quota Route_Run
begin

text \<open>
  The fact of one gateway call, \<open>internal/routex/service\<close>: \<open>pricing_call.go\<close> gives it a price
  receipt, \<open>call.go\<close> validates it, \<open>quota_admission.go\<close> reads the settlement of its quota from it.
  The JSON texts and digests of these records are the parameter \<open>codec\<close>. A pointer that may be nil
  is an option, a time is an instant or \<open>None\<close> for the zero time.
\<close>

section \<open>Records\<close>

record price_basis =
  basis_Adapter :: string
  basis_ETag :: string
  basis_Schedule :: schedule
  basis_Currency :: fx

record call_pricing =
  cp_Status :: string
  cp_ETag :: string
  cp_Amount :: "string option"
  cp_Currency :: "string option"
  cp_SnapshotJSON :: "string option"

record pricing_snapshot =
  sn_Basis :: "price_basis option"
  sn_UnsupportedDimensions :: "string list"
  sn_Quote :: "quote option"

record call_attempt =
  ca_CredentialID :: string
  ca_SnapshotID :: string
  ca_ID :: string
  ca_ProviderID :: string
  ca_ProviderName :: string
  ca_ProviderModelID :: string
  ca_ConnectionID :: string
  ca_ConnectionName :: string
  ca_UpstreamModelName :: string
  ca_AttemptNumber :: int
  ca_Status :: string
  ca_FailureClass :: string
  ca_WorkEvidence :: string
  ca_OutputStarted :: bool
  ca_FinalUsageKnown :: bool
  ca_NativeCompletionEvidence :: string
  ca_EvidenceCode :: string
  ca_StartedAt :: "int option"
  ca_CompletedAt :: "int option"
  ca_HTTPStatus :: int
  ca_ErrorCode :: string

record call_fact =
  cf_CacheReadTokens :: "int option"
  cf_CacheWriteTokens :: "int option"
  cf_ImageInputs :: "int option"
  cf_PDFInputs :: "int option"
  cf_UsageComplete :: bool
  cf_NoWork :: bool
  cf_PricingUnsupported :: bool
  cf_PricingDimensions :: "string list"
  cf_PriceBasis :: "price_basis option"
  cf_Pricing :: "call_pricing option"
  cf_SnapshotID :: string
  cf_RequestID :: string
  cf_ProjectID :: string
  cf_TeamID :: string
  cf_TeamMembershipID :: string
  cf_UserID :: string
  cf_KeyID :: string
  cf_ModelID :: string
  cf_ModelName :: string
  cf_ProviderID :: string
  cf_ProviderName :: string
  cf_ProviderModelID :: string
  cf_ConnectionID :: string
  cf_ConnectionName :: string
  cf_UpstreamModelName :: string
  cf_RouteStopReason :: string
  cf_Protocol :: string
  cf_Status :: string
  cf_Stream :: bool
  cf_StartedAt :: "int option"
  cf_CompletedAt :: "int option"
  cf_InputTokens :: "int option"
  cf_OutputTokens :: "int option"
  cf_ErrorCode :: string
  cf_Attempts :: "call_attempt list"

text \<open>What the service uses of \<open>encoding/json\<close> and \<open>crypto/sha256\<close>: the encodings of a pricing
  snapshot, of a price basis and of a fact (\<open>None\<close> is the error), the decoding of a fact, whether a
  text is JSON, and the hex digest of a text.\<close>

record codec =
  cd_snapshot :: "pricing_snapshot \<Rightarrow> string option"
  cd_basis :: "price_basis \<Rightarrow> string option"
  cd_fact :: "call_fact \<Rightarrow> string option"
  cd_read :: "string \<Rightarrow> call_fact option"
  cd_valid :: "string \<Rightarrow> bool"
  cd_sha :: "string \<Rightarrow> string"

section \<open>The price receipt\<close>

definition callPricingSnapshotLimit :: nat where "callPricingSnapshotLimit = 16384"

definition pricingCountValue :: "int option \<Rightarrow> int" where
  "pricingCountValue v = (case v of None \<Rightarrow> 0 | Some n \<Rightarrow> n)"

definition clonePriceBasis :: "price_basis option \<Rightarrow> price_basis option" where
  "clonePriceBasis basis = basis"

text \<open>The \<open>switch\<close>: the status and, where the call is priced, the quote.\<close>

definition price_call :: "call_fact \<Rightarrow> price_basis \<Rightarrow> string \<times> quote option" where
  "price_call cf basis =
     (if cf_PricingUnsupported cf \<or> (basis_Adapter basis \<noteq> TextAdapter \<and> basis_Adapter basis \<noteq> MultimodalAdapter)
      then (''unsupported'', None)
      else if basis_Adapter basis \<noteq> ScheduleAdapter (basis_Schedule basis) then (''invalid_configuration'', None)
      else if basis_Adapter basis = TextAdapter \<and>
          (pricingCountValue (cf_ImageInputs cf) \<noteq> 0 \<or> pricingCountValue (cf_PDFInputs cf) \<noteq> 0)
      then (''unsupported'', None)
      else if \<not> cf_UsageComplete cf then (''not_final'', None)
      else case (cf_InputTokens cf, cf_OutputTokens cf, cf_CacheReadTokens cf, cf_CacheWriteTokens cf) of
          (Some inp, Some out, Some read, Some write) \<Rightarrow>
            if basis_Adapter basis = MultimodalAdapter \<and> (cf_ImageInputs cf = None \<or> cf_PDFInputs cf = None)
            then (''unknown_usage'', None)
            else if read > inp \<or> write > wrap64 (inp - read) then (''invalid_usage'', None)
            else (case Calculate (basis_Schedule basis) (basis_Currency basis)
                    \<lparr>input_tokens = inp, output_tokens = out, cache_read_tokens = read, cache_write_tokens = write,
                     image_inputs = pricingCountValue (cf_ImageInputs cf), pdf_inputs = pricingCountValue (cf_PDFInputs cf)\<rparr> of
                Inl Unpriced \<Rightarrow> (''missing_price'', None)
              | Inl PricingInvalid \<Rightarrow> (''invalid_configuration'', None)
              | Inr q \<Rightarrow> (''priced'', Some q))
        | _ \<Rightarrow> (''unknown_usage'', None))"

text \<open>\<open>json.Marshal\<close> of a snapshot within its limit.\<close>

definition encode_snapshot :: "codec \<Rightarrow> pricing_snapshot \<Rightarrow> string option" where
  "encode_snapshot C sn =
     (case cd_snapshot C sn of
        None \<Rightarrow> None
      | Some raw \<Rightarrow> if length raw > callPricingSnapshotLimit then None else Some raw)"

definition finalizeCallPricing :: "codec \<Rightarrow> call_fact \<Rightarrow> call_fact" where
  "finalizeCallPricing C cf =
     (if cf_Pricing cf \<noteq> None then cf
      else
        let etag = (case cf_PriceBasis cf of None \<Rightarrow> '''' | Some b \<Rightarrow> basis_ETag b);
            receipt = (\<lambda>status amount currency snapshot.
              \<lparr>cp_Status = status, cp_ETag = etag, cp_Amount = amount, cp_Currency = currency, cp_SnapshotJSON = snapshot\<rparr>);
            snapshot = (\<lambda>q. \<lparr>sn_Basis = clonePriceBasis (cf_PriceBasis cf),
              sn_UnsupportedDimensions = cf_PricingDimensions cf, sn_Quote = q\<rparr>)
        in
        if cf_NoWork cf then
          cf\<lparr>cf_InputTokens := Some 0, cf_OutputTokens := Some 0, cf_CacheReadTokens := Some 0,
               cf_CacheWriteTokens := Some 0, cf_UsageComplete := True,
               cf_Pricing := Some (case encode_snapshot C (snapshot None) of
                   None \<Rightarrow> receipt ''invalid_configuration'' None None None
                 | Some raw \<Rightarrow> receipt ''no_work'' None None (Some raw))\<rparr>
        else case cf_PriceBasis cf of
            None \<Rightarrow> cf\<lparr>cf_Pricing := Some (receipt ''not_captured'' None None None)\<rparr>
          | Some basis \<Rightarrow>
              (case price_call cf basis of (status, q) \<Rightarrow>
                 cf\<lparr>cf_Pricing := Some (case encode_snapshot C (snapshot q) of
                     None \<Rightarrow> receipt ''invalid_configuration'' None None None
                   | Some raw \<Rightarrow> receipt status (map_option quote_total q) (map_option quote_currency q) (Some raw))\<rparr>))"

section \<open>Validation\<close>

text \<open>The service's errors: \<open>apperrors.ErrBadRequest\<close>, \<open>apperrors.ErrInternal\<close>,
  \<open>runtimeUnavailable\<close>, the errors of a context that has ended, and a \<open>GatewayError\<close> with its status
  and code.\<close>

datatype service_error =
  ErrBadRequest | ErrInternal | RuntimeUnavailable | ErrCanceled | ErrDeadline | GatewayError int string

definition pricing_statuses :: "string list" where
  "pricing_statuses = [''not_captured'', ''no_work'', ''unsupported'', ''not_final'', ''unknown_usage'', ''invalid_usage'',
     ''missing_price'', ''invalid_configuration'', ''priced'']"

definition pricing_dimensions :: "string list" where
  "pricing_dimensions = [''request_non_text'', ''response_non_text'', ''request_service_tier'', ''response_service_tier'',
     ''cache_retention'', ''external_tool'', ''request_condition'']"

text \<open>\<open>chargeAmountPattern\<close> is the grammar of \<open>quotaDecimal\<close>.\<close>

definition chargeAmount :: "string \<Rightarrow> bool" where
  "chargeAmount value \<longleftrightarrow> quotaUnits value \<noteq> None"

definition negative :: "int option \<Rightarrow> bool" where
  "negative v \<longleftrightarrow> (case v of None \<Rightarrow> False | Some n \<Rightarrow> n < 0)"

definition pricingBasisSize :: "codec \<Rightarrow> price_basis \<Rightarrow> int" where
  "pricingBasisSize C basis = (case cd_basis C basis of None \<Rightarrow> -1 | Some raw \<Rightarrow> int (length raw))"

definition valid_receipt :: "codec \<Rightarrow> call_pricing \<Rightarrow> bool" where
  "valid_receipt C r \<longleftrightarrow>
     cp_Status r \<in> set pricing_statuses \<and> length (cp_ETag r) \<le> 64 \<and>
     (if cp_Status r = ''priced'' then
        (case (cp_Amount r, cp_Currency r) of
           (Some amount, Some currency) \<Rightarrow> chargeAmount amount \<and> Currency currency \<and> cp_SnapshotJSON r \<noteq> None
         | _ \<Rightarrow> False)
      else cp_Amount r = None \<and> cp_Currency r = None) \<and>
     (case cp_SnapshotJSON r of None \<Rightarrow> True | Some raw \<Rightarrow> length raw \<le> callPricingSnapshotLimit \<and> cd_valid C raw)"

definition validateCallPricing :: "codec \<Rightarrow> call_fact \<Rightarrow> service_error + unit" where
  "validateCallPricing C cf =
     (if length (cf_PricingDimensions cf) > 7 \<or> \<not> set (cf_PricingDimensions cf) \<subseteq> set pricing_dimensions then Inl ErrBadRequest
      else if negative (cf_CacheReadTokens cf) \<or> negative (cf_CacheWriteTokens cf) \<or>
          negative (cf_ImageInputs cf) \<or> negative (cf_PDFInputs cf)
      then Inl ErrBadRequest
      else if (case cf_PriceBasis cf of
          None \<Rightarrow> False
        | Some b \<Rightarrow>
            (provider_model_id (basis_Schedule b) \<noteq> cf_ProviderModelID cf \<and>
               (\<not> cf_NoWork cf \<or> cf_ProviderModelID cf \<noteq> '''')) \<or>
            length (basis_ETag b) > 64 \<or> length (schedule_rates (basis_Schedule b)) > 10 \<or>
            length (fx_rates (basis_Currency b)) > 7 \<or>
            pricingBasisSize C b < 0 \<or> pricingBasisSize C b > int callPricingSnapshotLimit)
      then Inl ErrBadRequest
      else if (case cf_Pricing cf of None \<Rightarrow> True | Some r \<Rightarrow> valid_receipt C r) then Inr () else Inl ErrBadRequest)"

section \<open>Facts\<close>

definition cont_byte :: "char \<Rightarrow> bool" where
  "cont_byte c \<longleftrightarrow> 128 \<le> (of_char c :: nat) \<and> (of_char c :: nat) \<le> 191"

definition cont_val :: "char \<Rightarrow> nat" where
  "cont_val c = of_char c mod 64"

text \<open>The characters of a UTF-8 text, \<open>None\<close> where it is not valid.\<close>

fun utf8_runes :: "string \<Rightarrow> nat list option" where
  "utf8_runes [] = Some []"
| "utf8_runes (a # s) =
     (let x = of_char a :: nat in
      if x < 128 then map_option (\<lambda>rs. x # rs) (utf8_runes s)
      else case s of
          [] \<Rightarrow> None
        | b # s1 \<Rightarrow>
            let y = of_char b :: nat in
            if 194 \<le> x \<and> x \<le> 223 then
              (if cont_byte b then map_option (\<lambda>rs. ((x - 192) * 64 + cont_val b) # rs) (utf8_runes s1) else None)
            else (case s1 of
                [] \<Rightarrow> None
              | c # s2 \<Rightarrow>
                  if 224 \<le> x \<and> x \<le> 239 then
                    (if cont_byte b \<and> cont_byte c \<and> (x \<noteq> 224 \<or> 160 \<le> y) \<and> (x \<noteq> 237 \<or> y \<le> 159)
                     then map_option (\<lambda>rs. ((x - 224) * 4096 + cont_val b * 64 + cont_val c) # rs) (utf8_runes s2) else None)
                  else (case s2 of
                      [] \<Rightarrow> None
                    | d # s3 \<Rightarrow>
                        if 240 \<le> x \<and> x \<le> 244 \<and> cont_byte b \<and> cont_byte c \<and> cont_byte d \<and>
                           (x \<noteq> 240 \<or> 144 \<le> y) \<and> (x \<noteq> 244 \<or> y \<le> 143)
                        then map_option (\<lambda>rs. ((x - 240) * 262144 + cont_val b * 4096 + cont_val c * 64 + cont_val d) # rs)
                               (utf8_runes s3)
                        else None)))"

declare utf8_runes.simps [simp del]

definition control_rune :: "nat \<Rightarrow> bool" where
  "control_rune r \<longleftrightarrow> r < 32 \<or> (127 \<le> r \<and> r < 160)"

definition valid_label :: "nat \<Rightarrow> string \<Rightarrow> bool" where
  "valid_label limit value \<longleftrightarrow>
     value \<noteq> '''' \<and> trim_space value = value \<and>
     (case utf8_runes value of None \<Rightarrow> False | Some rs \<Rightarrow> length rs \<le> limit \<and> \<not> list_ex control_rune rs)"

definition validCatalogLabel :: "string \<Rightarrow> bool" where
  "validCatalogLabel value = valid_label 100 value"

definition validUpstreamName :: "string \<Rightarrow> bool" where
  "validUpstreamName value = valid_label 255 value"

definition safeCallID :: "string \<Rightarrow> bool" where
  "safeCallID = validKey"

definition validMemberCatalogID :: "string \<Rightarrow> bool" where
  "validMemberCatalogID value \<longleftrightarrow> value \<noteq> '''' \<and> length value \<le> 30 \<and> list_all key_char value"

definition SupportedNativeProtocol :: "string \<Rightarrow> bool" where
  "SupportedNativeProtocol p \<longleftrightarrow>
     p \<in> set [''openai_chat'', ''openai_responses'', ''anthropic_messages'', ''gemini_generate_content'']"

definition callRouteStopReasons :: "string list" where
  "callRouteStopReasons = ['''', ''succeeded'', ''unsafe_to_replay'', ''permanent_failure'', ''attempt_budget_exhausted'',
     ''no_candidates'', ''canceled'', ''blocked'']"

definition callAttemptFailures :: "string list" where
  "callAttemptFailures = [''success'', ''credential_rejected'', ''connection_failure'', ''rate_limited'', ''permanent_failure'']"

definition callAttemptWorkEvidence :: "string list" where
  "callAttemptWorkEvidence = [''not_sent'', ''rejected_without_work'', ''unknown'', ''completed'']"

definition callAttemptNativeCompletionEvidence :: "string list" where
  "callAttemptNativeCompletionEvidence = [''unknown'', ''completed'', ''handoff'', ''blocked'', ''incomplete'']"

definition callAttemptEvidenceCodes :: "string list" where
  "callAttemptEvidenceCodes = ['''', ''pre_request_connection'', ''native_auth_rejection'', ''native_rate_rejection'',
     ''upstream_response'', ''transport_ambiguous'']"

definition validCallStatus :: "string \<Rightarrow> bool" where
  "validCallStatus s \<longleftrightarrow> s = ''success'' \<or> s = ''error'' \<or> s = ''canceled''"

text \<open>\<open>Time.Before\<close>; the zero time is before every instant.\<close>

fun time_before :: "int option \<Rightarrow> int option \<Rightarrow> bool" where
  "time_before None b = (b \<noteq> None)"
| "time_before (Some a) None = False"
| "time_before (Some a) (Some b) = (a < b)"

definition validCallTeamAttribution :: "call_fact \<Rightarrow> bool" where
  "validCallTeamAttribution cf =
     (if cf_TeamID cf = '''' then cf_TeamMembershipID cf = ''''
      else validMemberCatalogID (cf_TeamID cf) \<and> validMemberCatalogID (cf_TeamMembershipID cf) \<and>
           validMemberCatalogID (cf_UserID cf) \<and> cf_ProjectID cf = '''' \<and> cf_KeyID cf = '''')"

definition validOptionalAttemptAttributionID :: "string \<Rightarrow> bool" where
  "validOptionalAttemptAttributionID v \<longleftrightarrow> v = '''' \<or> (length v \<le> 30 \<and> safeCallID v)"

definition validCallAttemptSnapshot :: "call_attempt \<Rightarrow> bool" where
  "validCallAttemptSnapshot a =
     (if \<not> validOptionalAttemptAttributionID (ca_CredentialID a) \<or> \<not> validOptionalAttemptAttributionID (ca_SnapshotID a) \<or>
         length (ca_ProviderModelID a) > 30 \<or> length (ca_ConnectionID a) > 30
      then False
      else if ca_ProviderID a = '''' then ca_ProviderName a = '''' \<and> ca_ConnectionName a = '''' \<and> ca_UpstreamModelName a = ''''
      else safeCallID (ca_ProviderID a) \<and> safeCallID (ca_ProviderModelID a) \<and> safeCallID (ca_ConnectionID a) \<and>
           validCatalogLabel (ca_ProviderName a) \<and> validCatalogLabel (ca_ConnectionName a) \<and>
           validUpstreamName (ca_UpstreamModelName a))"

definition zeroCounter :: "int option \<Rightarrow> bool" where
  "zeroCounter v \<longleftrightarrow> v = Some 0"

definition callAttemptsProveNoWork :: "call_attempt list \<Rightarrow> bool" where
  "callAttemptsProveNoWork attempts \<longleftrightarrow>
     list_all (\<lambda>a. ca_WorkEvidence a = NotSent \<or> ca_WorkEvidence a = RejectedWithoutWork) attempts"

definition normalize_attempt :: "nat \<Rightarrow> call_attempt \<Rightarrow> call_attempt" where
  "normalize_attempt index a =
     a\<lparr>ca_NativeCompletionEvidence := (if ca_NativeCompletionEvidence a = '''' then ''unknown'' else ca_NativeCompletionEvidence a),
       ca_AttemptNumber := (if ca_AttemptNumber a = 0 then int index + 1 else ca_AttemptNumber a),
       ca_FailureClass := (if ca_FailureClass a = '''' then (if ca_Status a = ''success'' then ''success'' else ''permanent_failure'')
                           else ca_FailureClass a),
       ca_WorkEvidence := (if ca_WorkEvidence a = '''' then (if ca_Status a = ''success'' then ''completed'' else ''unknown'')
                           else ca_WorkEvidence a)\<rparr>"

definition normalizeCallAttemptEvidence :: "call_fact \<Rightarrow> call_fact" where
  "normalizeCallAttemptEvidence cf =
     cf\<lparr>cf_Attempts := map (\<lambda>(i, a). normalize_attempt i a) (List.enumerate 0 (cf_Attempts cf))\<rparr>"

text \<open>The loop over the attempts: the identifiers and the numbers met so far.\<close>

definition attempt_step ::
  "call_attempt \<Rightarrow> string list \<times> int list \<Rightarrow> service_error + string list \<times> int list" where
  "attempt_step a acc =
     (case acc of (seen, numbers) \<Rightarrow>
        if \<not> safeCallID (ca_ID a) \<or> ca_ID a \<in> set seen \<or> ca_AttemptNumber a < 1 \<or> ca_AttemptNumber a > 32 \<or>
           ca_AttemptNumber a \<in> set numbers \<or> \<not> validCallAttemptSnapshot a \<or> \<not> validCallStatus (ca_Status a) \<or>
           ca_FailureClass a \<notin> set callAttemptFailures \<or> ca_WorkEvidence a \<notin> set callAttemptWorkEvidence \<or>
           ca_EvidenceCode a \<notin> set callAttemptEvidenceCodes \<or>
           ca_NativeCompletionEvidence a \<notin> set callAttemptNativeCompletionEvidence \<or>
           ca_StartedAt a = None \<or> time_before (ca_CompletedAt a) (ca_StartedAt a) \<or>
           ca_HTTPStatus a < 0 \<or> ca_HTTPStatus a > 599
        then Inl ErrBadRequest
        else if (ca_FailureClass a = ''success'') \<noteq> (ca_Status a = ''success'') \<or>
            (ca_Status a = ''success'' \<and> ca_WorkEvidence a \<noteq> ''completed'') \<or>
            ((ca_OutputStarted a \<or> ca_FinalUsageKnown a) \<and>
             (ca_WorkEvidence a = ''not_sent'' \<or> ca_WorkEvidence a = ''rejected_without_work''))
        then Inl ErrBadRequest
        else Inr (ca_ID a # seen, ca_AttemptNumber a # numbers))"

definition validateCallFact :: "codec \<Rightarrow> call_fact \<Rightarrow> service_error + unit" where
  "validateCallFact C original =
     (let cf = normalizeCallAttemptEvidence original in
      bindE (validateCallPricing C cf) (\<lambda>_.
        if \<not> validCallTeamAttribution cf \<or> \<not> safeCallID (cf_RequestID cf) \<or> length (cf_SnapshotID cf) > 30 \<or>
           (cf_UserID cf = '''') = (cf_ProjectID cf = '''') \<or> length (cf_ProjectID cf) > 30 \<or> length (cf_UserID cf) > 30 \<or>
           length (cf_KeyID cf) > 30 \<or> length (cf_ModelID cf) > 30 \<or> length (cf_ModelName cf) > 128 \<or>
           length (cf_ProviderID cf) > 30 \<or> length (cf_ProviderName cf) > 100 \<or> length (cf_ProviderModelID cf) > 30 \<or>
           length (cf_ConnectionID cf) > 30 \<or> length (cf_ConnectionName cf) > 100 \<or>
           length (cf_UpstreamModelName cf) > 255 \<or> cf_RouteStopReason cf \<notin> set callRouteStopReasons \<or>
           \<not> SupportedNativeProtocol (cf_Protocol cf) \<or> \<not> validCallStatus (cf_Status cf) \<or> cf_StartedAt cf = None \<or>
           time_before (cf_CompletedAt cf) (cf_StartedAt cf) \<or> length (cf_Attempts cf) > 32
        then Inl ErrBadRequest
        else if negative (cf_InputTokens cf) \<or> negative (cf_OutputTokens cf) \<or> negative (cf_ImageInputs cf) \<or>
            negative (cf_PDFInputs cf)
        then Inl ErrBadRequest
        else if cf_NoWork cf \<and>
            (\<not> cf_UsageComplete cf \<or> \<not> zeroCounter (cf_InputTokens cf) \<or> \<not> zeroCounter (cf_OutputTokens cf) \<or>
             \<not> zeroCounter (cf_CacheReadTokens cf) \<or> \<not> zeroCounter (cf_CacheWriteTokens cf) \<or>
             \<not> callAttemptsProveNoWork (cf_Attempts cf))
        then Inl ErrBadRequest
        else bindE (foldE attempt_step (cf_Attempts cf) ([], [])) (\<lambda>_. Inr ())))"

section \<open>The settlement of a fact\<close>

definition no_work_settlement :: "call_fact \<Rightarrow> quota_settlement" where
  "no_work_settlement cf =
     (case cf_PriceBasis cf of
        Some b \<Rightarrow>
          if platform_currency (basis_Currency b) \<noteq> ''''
          then \<lparr>qs_Tokens = Some 0, qs_Money = Some ''0'', qs_Currency = platform_currency (basis_Currency b)\<rparr>
          else no_settlement\<lparr>qs_Tokens := Some 0\<rparr>
      | None \<Rightarrow> no_settlement\<lparr>qs_Tokens := Some 0\<rparr>)"

definition settled_tokens :: "call_fact \<Rightarrow> int option" where
  "settled_tokens cf =
     (case (cf_InputTokens cf, cf_OutputTokens cf) of
        (Some i, Some out) \<Rightarrow>
          if cf_UsageComplete cf \<and> 0 \<le> i \<and> 0 \<le> out \<and> i \<le> max_int64 - out then Some (i + out) else None
      | _ \<Rightarrow> None)"

definition settled_money :: "call_fact \<Rightarrow> (string \<times> string) option" where
  "settled_money cf =
     (case cf_Pricing cf of
        None \<Rightarrow> None
      | Some r \<Rightarrow>
          if cp_Status r = ''priced'' then
            (case (cp_Amount r, cp_Currency r) of (Some a, Some c) \<Rightarrow> Some (a, c) | _ \<Rightarrow> None)
          else None)"

definition quotaCallSettlement :: "call_fact \<Rightarrow> quota_settlement" where
  "quotaCallSettlement cf =
     (if cf_NoWork cf \<or> (cf_Attempts cf \<noteq> [] \<and> callAttemptsProveNoWork (cf_Attempts cf)) then no_work_settlement cf
      else \<lparr>qs_Tokens = settled_tokens cf, qs_Money = map_option fst (settled_money cf),
            qs_Currency = (case settled_money cf of None \<Rightarrow> '''' | Some (_, c) \<Rightarrow> c)\<rparr>)"

end
