(* ===== verification/Gateway_Quota.thy ===== *)
theory Gateway_Quota
  imports Call_Facts
begin

text \<open>
  The quota bound of a gateway request, \<open>internal/routex/service/quota_admission.go\<close>, with the parts
  of \<open>gateway_attempt_plan.go\<close> and \<open>gateway_attempt_execute.go\<close> it works on: the candidates of an
  attempt plan, the evidence of each candidate under the active quota dimensions, and the one bound
  that is admitted for the whole request. Whether a candidate is eligible now
  (\<open>gatewayAttemptEligible\<close>, which reads the runtime snapshots and the database) is a parameter.
\<close>

section \<open>Records\<close>

record reservation_bound =
  rb_Protocol :: string
  rb_MaxInputTokens :: int
  rb_MaxOutputTokens :: int
  rb_ETag :: string

record quota_data =
  qd_TimeZone :: string
  qd_Bounds :: "(string \<times> reservation_bound) list"
  qd_Currency :: string

record quota_request =
  rq_Supported :: bool
  rq_MaxOutput :: int
  rq_CacheRead :: bool
  rq_CacheWrite :: bool

record bound_evidence =
  ev_TargetID :: string
  ev_ProviderModel :: string
  ev_BoundRevision :: string
  ev_InputTokens :: int
  ev_OutputTokens :: int
  ev_PriceRevision :: string
  ev_PriceDigest :: string
  ev_ReservedAmount :: string
  ev_PriceCurrency :: string

record gateway_result =
  gr_Protocol :: string
  gr_TeamID :: string
  gr_TeamMembershipID :: string
  gr_personal :: bool \<comment> \<open>\<open>identity.personal\<close> is not nil\<close>
  gr_team :: bool \<comment> \<open>\<open>identity.team\<close> is not nil\<close>
  gr_key :: bool \<comment> \<open>\<open>identity.key\<close> is not nil\<close>
  gr_selectedModelID :: string
  gr_personalGrantRevision :: string
  gr_admissionQuota :: "quota_limit list"
  gr_quotaBound :: quota_bound
  gr_quotaTimeZone :: string
  gr_quotaRequest :: quota_request
  gr_admissionLimits :: "limit list"
  gr_attemptEvidence :: "(string \<times> bound_evidence) list"
  gr_admissionAllowed :: "string list"
  gr_PriceBasis :: "price_basis option"
  gr_PricingUnsupported :: bool
  gr_PricingDimensions :: "string list"
  gr_ImageInputs :: int
  gr_PDFInputs :: int
  gr_SnapshotID :: string
  gr_ProjectID :: string
  gr_UserID :: string
  gr_KeyID :: string
  gr_ModelID :: string
  gr_ModelName :: string
  gr_ProviderID :: string
  gr_ProviderName :: string
  gr_ProviderModelID :: string
  gr_ConnectionID :: string
  gr_ConnectionName :: string
  gr_UpstreamModelName :: string
  gr_CredentialID :: string
  gr_Stream :: bool
  gr_AttemptID :: string
  gr_AttemptStartedAt :: "int option"
  gr_Attempts :: "call_attempt list"
  gr_RouteStopReason :: string
  gr_Admitted :: bool

record gateway_route =
  rt_ProviderModelBirth :: "int option"
  rt_CapabilityTransportGeneration :: string
  rt_ProviderModelRevision :: string
  rt_ConnectionTransportGeneration :: string
  rt_CapabilitiesTransportCurrent :: bool
  rt_Adapter :: string
  rt_APIVersion :: "string option"
  rt_Client :: bool \<comment> \<open>\<open>Client\<close> is not nil\<close>
  rt_EgressGeneration :: nat
  rt_EgressRevision :: string
  rt_Protocol :: string
  rt_Disabled :: bool
  rt_PriceBasis :: "price_basis option"
  rt_SnapshotID :: string
  rt_BindingID :: string
  rt_Weight :: int
  rt_ProviderID :: string
  rt_ProviderBirth :: "int option"
  rt_ProviderEnabled :: bool
  rt_ProviderRevision :: string
  rt_ProviderName :: string
  rt_ProviderModelID :: string
  rt_ConnectionBirth :: "int option"
  rt_ConnectionEnabled :: bool
  rt_ConnectionID :: string
  rt_ConnectionName :: string
  rt_CredentialID :: string
  rt_UpstreamName :: string
  rt_BaseURL :: string
  rt_SupportsImageInput :: bool
  rt_SupportsPDFInput :: bool

record gateway_candidate =
  gc_attempt :: attempt
  gc_route :: gateway_route
  gc_credential :: string
  gc_priority :: int
  gc_holder :: "nat option"

record 'w gateway_plan =
  gp_personalGrantRevision :: string
  gp_Plan :: "'w plan"
  gp_modelID :: string
  gp_protocol :: string
  gp_snapshotID :: string
  gp_userID :: string
  gp_projectID :: string
  gp_keyID :: string
  gp_team :: bool \<comment> \<open>\<open>team\<close> is not nil\<close>
  gp_personal :: bool
  gp_candidates :: "gateway_candidate list"
  gp_draw :: "'w draw option"
  gp_allowed :: "string list option"

definition NativeProtocol :: "gateway_result \<Rightarrow> string" where
  "NativeProtocol r = (if gr_Protocol r = '''' then ''openai_chat'' else gr_Protocol r)"

definition gatewayAttemptKey :: "attempt \<Rightarrow> string" where
  "gatewayAttemptKey a = att_TargetID a @ [CHR 0x00] @ att_CredentialID a"

section \<open>Errors\<close>

definition gatewayLimitError :: "queue_error \<Rightarrow> service_error" where
  "gatewayLimitError e =
     (if e = ErrRateLimit then GatewayError 429 ''rate_limit_exceeded''
      else if e = ErrConcurrency then GatewayError 429 ''concurrency_limit_exceeded''
      else GatewayError 503 ''event_buffer_unavailable'')"

definition quotaGatewayError :: "queue_error \<Rightarrow> service_error" where
  "quotaGatewayError e =
     (if e = ErrQuotaTokens \<or> e = ErrQuotaMoney then GatewayError 429 ''quota_exceeded''
      else if e = ErrQuotaCoverage then GatewayError 503 ''quota_history_incomplete''
      else if e = ErrQuotaUnknown then GatewayError 503 ''quota_usage_unknown''
      else if e = ErrQuotaCurrency then GatewayError 503 ''quota_currency_mismatch''
      else if e = ErrQuotaBound then GatewayError 503 ''quota_bound_unavailable''
      else gatewayLimitError e)"

definition RequestUnsupported :: service_error where
  "RequestUnsupported = GatewayError 400 ''quota_request_unsupported''"

definition PriceUnavailable :: service_error where
  "PriceUnavailable = GatewayError 503 ''quota_price_unavailable''"

definition BoundUnavailable :: service_error where
  "BoundUnavailable = GatewayError 503 ''quota_bound_unavailable''"

section \<open>The bound of one route\<close>

definition no_bound :: quota_bound where
  "no_bound = \<lparr>qb_Tokens = None, qb_Money = None, qb_Currency = '''', qb_Revision = '''', qb_PriceRevision = '''',
     qb_BasisDigest = ''''\<rparr>"

definition has_token_quota :: "quota_limit \<Rightarrow> bool" where
  "has_token_quota p \<longleftrightarrow> ql_Tokens5H p \<noteq> None \<or> ql_Tokens7D p \<noteq> None \<or> ql_TokensMonth p \<noteq> None \<or> ql_TPM p \<noteq> None"

definition gatewayQuotaDimensions :: "quota_limit list \<Rightarrow> bool \<times> bool" where
  "gatewayQuotaDimensions policies =
     (list_ex has_token_quota policies, list_ex (\<lambda>p. ql_MoneyMonth p \<noteq> None) policies)"

definition request_capacity :: "reservation_bound \<Rightarrow> gateway_result \<Rightarrow> capacity" where
  "request_capacity c r =
     \<lparr>cap_input = rb_MaxInputTokens c, cap_output = rq_MaxOutput (gr_quotaRequest r),
      cap_image_inputs = gr_ImageInputs r, cap_pdf_inputs = gr_PDFInputs r,
      cap_cache_read = rq_CacheRead (gr_quotaRequest r), cap_cache_write = rq_CacheWrite (gr_quotaRequest r)\<rparr>"

definition priced_adapter :: "price_basis \<Rightarrow> bool" where
  "priced_adapter b \<longleftrightarrow> basis_Adapter b = TextAdapter \<or> basis_Adapter b = MultimodalAdapter"

definition verified_capacity :: "reservation_bound \<Rightarrow> gateway_result \<Rightarrow> bool" where
  "verified_capacity c r \<longleftrightarrow>
     rb_Protocol c = NativeProtocol r \<and> rb_ETag c \<noteq> '''' \<and> rb_MaxInputTokens c > 0 \<and> rb_MaxOutputTokens c > 0"

definition output_fits :: "reservation_bound \<Rightarrow> gateway_result \<Rightarrow> bool" where
  "output_fits c r \<longleftrightarrow>
     \<not> (rq_MaxOutput (gr_quotaRequest r) > rb_MaxOutputTokens c \<or>
        rq_MaxOutput (gr_quotaRequest r) > max_int64 - rb_MaxInputTokens c)"

definition basis_digest :: "codec \<Rightarrow> price_basis \<Rightarrow> string" where
  "basis_digest C b = cd_sha C (case cd_basis C b of None \<Rightarrow> [] | Some raw \<Rightarrow> raw)"

text \<open>The money of the bound, where the price basis of the route gives one.\<close>

definition money_bound :: "codec \<Rightarrow> gateway_result \<Rightarrow> reservation_bound \<Rightarrow> quota_bound \<Rightarrow> quota_bound" where
  "money_bound C r c b =
     (case gr_PriceBasis r of
        None \<Rightarrow> b
      | Some basis \<Rightarrow>
          if \<not> gr_PricingUnsupported r \<and> priced_adapter basis \<and>
             provider_model_id (basis_Schedule basis) = gr_ProviderModelID r \<and>
             protocol (basis_Schedule basis) = NativeProtocol r
          then (case ReserveBound (basis_Schedule basis) (basis_Currency basis) (request_capacity c r) of
              Inl _ \<Rightarrow> b
            | Inr q \<Rightarrow> b\<lparr>qb_Money := Some (bound_amount q), qb_Currency := bound_currency q,
                          qb_PriceRevision := basis_ETag basis, qb_BasisDigest := basis_digest C basis\<rparr>)
          else b)"

definition prepareQuotaBound ::
  "codec \<Rightarrow> gateway_result \<Rightarrow> quota_limit list \<Rightarrow> quota_data \<Rightarrow> service_error + quota_bound" where
  "prepareQuotaBound C r policies data =
     (case gatewayQuotaDimensions policies of (tokenC, moneyC) \<Rightarrow>
      let constrained = tokenC \<or> moneyC in
      if \<not> rq_Supported (gr_quotaRequest r) then (if constrained then Inl RequestUnsupported else Inr no_bound)
      else if gr_PricingUnsupported r \<and> moneyC then Inl PriceUnavailable
      else case map_of (qd_Bounds data) (gr_ProviderModelID r) of
          None \<Rightarrow> if constrained then Inl BoundUnavailable else Inr no_bound
        | Some c \<Rightarrow>
            if \<not> verified_capacity c r then (if constrained then Inl BoundUnavailable else Inr no_bound)
            else if \<not> output_fits c r then (if constrained then Inl RequestUnsupported else Inr no_bound)
            else
              let b = money_bound C r c (no_bound\<lparr>qb_Tokens := Some (rb_MaxInputTokens c + rq_MaxOutput (gr_quotaRequest r)),
                                                  qb_Revision := rb_ETag c\<rparr>)
              in if moneyC \<and> qb_Money b = None then Inl PriceUnavailable else Inr b)"

section \<open>The evidence of a candidate\<close>

definition no_evidence :: "gateway_candidate \<Rightarrow> bound_evidence" where
  "no_evidence g = \<lparr>ev_TargetID = att_TargetID (gc_attempt g), ev_ProviderModel = rt_ProviderModelID (gc_route g),
     ev_BoundRevision = '''', ev_InputTokens = 0, ev_OutputTokens = 0, ev_PriceRevision = '''', ev_PriceDigest = '''',
     ev_ReservedAmount = '''', ev_PriceCurrency = ''''\<rparr>"

definition money_evidence ::
  "codec \<Rightarrow> gateway_candidate \<Rightarrow> gateway_result \<Rightarrow> reservation_bound \<Rightarrow> bound_evidence \<Rightarrow> bound_evidence \<times> bool" where
  "money_evidence C g r c ev =
     (case rt_PriceBasis (gc_route g) of
        None \<Rightarrow> (ev, False)
      | Some basis \<Rightarrow>
          if basis_ETag basis = '''' \<or> \<not> priced_adapter basis \<or>
             provider_model_id (basis_Schedule basis) \<noteq> rt_ProviderModelID (gc_route g) \<or>
             protocol (basis_Schedule basis) \<noteq> NativeProtocol r
          then (ev, False)
          else (case ReserveBound (basis_Schedule basis) (basis_Currency basis) (request_capacity c r) of
              Inl _ \<Rightarrow> (ev, False)
            | Inr q \<Rightarrow>
                (case cd_basis C basis of
                   None \<Rightarrow> (ev, False)
                 | Some raw \<Rightarrow>
                     (ev\<lparr>ev_PriceRevision := basis_ETag basis, ev_PriceDigest := cd_sha C raw,
                         ev_ReservedAmount := bound_amount q, ev_PriceCurrency := bound_currency q\<rparr>, True))))"

definition gatewayCandidateBoundEvidence ::
  "codec \<Rightarrow> gateway_candidate \<Rightarrow> gateway_result \<Rightarrow> quota_data \<Rightarrow> bool \<Rightarrow> bool \<Rightarrow> bound_evidence \<times> bool" where
  "gatewayCandidateBoundEvidence C g r data tokenC moneyC =
     (if \<not> tokenC \<and> \<not> moneyC then (no_evidence g, True)
      else case map_of (qd_Bounds data) (rt_ProviderModelID (gc_route g)) of
          None \<Rightarrow> (no_evidence g, False)
        | Some c \<Rightarrow>
            if \<not> verified_capacity c r \<or> \<not> output_fits c r then (no_evidence g, False)
            else
              let ev = (no_evidence g)\<lparr>ev_BoundRevision := rb_ETag c, ev_InputTokens := rb_MaxInputTokens c,
                                       ev_OutputTokens := rq_MaxOutput (gr_quotaRequest r)\<rparr>
              in if \<not> moneyC then (ev, True) else money_evidence C g r c ev)"

text \<open>The rows whose JSON text is digested, by kind.\<close>

record digest_row =
  dr_TargetID :: string
  dr_ProviderModel :: string
  dr_Revision :: string
  dr_Digest :: string
  dr_Amount :: string
  dr_Currency :: string
  dr_InputTokens :: int
  dr_OutputTokens :: int

definition digest_of :: "string \<Rightarrow> bound_evidence \<Rightarrow> digest_row" where
  "digest_of kind e =
     (let row = \<lparr>dr_TargetID = ev_TargetID e, dr_ProviderModel = ev_ProviderModel e, dr_Revision = '''', dr_Digest = '''',
                 dr_Amount = '''', dr_Currency = '''', dr_InputTokens = 0, dr_OutputTokens = 0\<rparr>
      in if kind = ''bound'' then row\<lparr>dr_Revision := ev_BoundRevision e, dr_InputTokens := ev_InputTokens e,
                                      dr_OutputTokens := ev_OutputTokens e\<rparr>
         else if kind = ''price'' then row\<lparr>dr_Revision := ev_PriceRevision e, dr_Amount := ev_ReservedAmount e,
                                          dr_Currency := ev_PriceCurrency e\<rparr>
         else if kind = ''basis'' then row\<lparr>dr_Digest := ev_PriceDigest e\<rparr>
         else row)"

text \<open>\<open>rows\<close> is \<open>json.Marshal\<close> of the rows.\<close>

definition gatewayAttemptEvidenceDigest ::
  "codec \<Rightarrow> (digest_row list \<Rightarrow> string) \<Rightarrow> bound_evidence list \<Rightarrow> string \<Rightarrow> string" where
  "gatewayAttemptEvidenceDigest C rows evidence kind = cd_sha C (rows (map (digest_of kind) evidence))"

section \<open>Plans\<close>

text \<open>Grouping the candidates by target, in the order they come.\<close>

definition group_step :: "gateway_candidate \<Rightarrow> target list \<Rightarrow> target list" where
  "group_step g targets =
     (let a = gc_attempt g;
          c = \<lparr>cred_ID = att_CredentialID a, cred_Priority = gc_priority g\<rparr>
      in if att_TargetID a \<in> set (map tgt_ID targets)
         then map (\<lambda>t. if tgt_ID t = att_TargetID a then t\<lparr>tgt_Credentials := tgt_Credentials t @ [c]\<rparr> else t) targets
         else targets @ [\<lparr>tgt_ID = att_TargetID a, tgt_ConnectionID = att_ConnectionID a, tgt_Protocol = att_Protocol a,
                          tgt_Weight = rt_Weight (gc_route g), tgt_Credentials = [c]\<rparr>])"

definition filtered ::
  "'w draw \<Rightarrow> 'w gateway_plan \<Rightarrow> gateway_candidate list \<Rightarrow> route_error + 'w gateway_plan" where
  "filtered crypto p candidates =
     bindE (New crypto (gp_protocol p) (fold group_step candidates [])
              \<lparr>opt_MaxAttempts = MaxAttempts, opt_Draw = gp_draw p\<rparr>)
       (\<lambda>plan. Inr (p\<lparr>gp_Plan := plan, gp_candidates := candidates,
                      gp_allowed := Some (map (\<lambda>g. gatewayAttemptKey (gc_attempt g)) candidates)\<rparr>))"

section \<open>The bound of a plan\<close>

text \<open>\<open>big.Rat.SetString\<close> of a plain decimal.\<close>

definition rat_text :: "string \<Rightarrow> rat option" where
  "rat_text value =
     (case cut_at CHR ''.'' value of (whole, fraction, found) \<Rightarrow>
        if whole @ fraction \<noteq> [] \<and> list_all is_digit (whole @ fraction) then Some (rat_of_decimal value) else None)"

record bound_scan =
  bs_retained :: "gateway_candidate list"
  bs_evidence :: "(string \<times> bound_evidence) list"
  bs_maxTokens :: int
  bs_maxMoney :: rat
  bs_maxMoneyText :: string
  bs_currency :: string
  bs_eligible :: nat

definition scan_start :: bound_scan where
  "scan_start = \<lparr>bs_retained = [], bs_evidence = [], bs_maxTokens = 0, bs_maxMoney = 0, bs_maxMoneyText = '''',
     bs_currency = '''', bs_eligible = 0\<rparr>"

definition retain :: "gateway_candidate \<Rightarrow> bound_scan \<Rightarrow> bound_scan" where
  "retain g st = st\<lparr>bs_retained := bs_retained st @ [g]\<rparr>"

definition scan_tokens :: "bool \<Rightarrow> bound_evidence \<Rightarrow> bound_scan \<Rightarrow> bound_scan" where
  "scan_tokens tokenC ev st =
     (if tokenC \<and> ev_InputTokens ev + ev_OutputTokens ev > bs_maxTokens st
      then st\<lparr>bs_maxTokens := ev_InputTokens ev + ev_OutputTokens ev\<rparr> else st)"

text \<open>The money of a new target: its currency is the first one met, or the target is dropped.\<close>

definition scan_money ::
  "quota_data \<Rightarrow> gateway_candidate \<Rightarrow> bound_evidence \<Rightarrow> bound_scan \<Rightarrow> service_error + bound_scan" where
  "scan_money data g ev st =
     (case rat_text (ev_ReservedAmount ev) of
        None \<Rightarrow> Inl PriceUnavailable
      | Some amount \<Rightarrow>
          let currency = (if bs_currency st = '''' then (if qd_Currency data = '''' then ev_PriceCurrency ev else qd_Currency data)
                          else bs_currency st);
              st1 = st\<lparr>bs_currency := currency\<rparr>
          in if ev_PriceCurrency ev \<noteq> currency
             then Inr (st1\<lparr>bs_evidence := AList.delete (att_TargetID (gc_attempt g)) (bs_evidence st1)\<rparr>)
             else Inr (retain g (if bs_maxMoneyText st1 = '''' \<or> amount > bs_maxMoney st1
                                 then st1\<lparr>bs_maxMoney := amount, bs_maxMoneyText := ev_ReservedAmount ev\<rparr> else st1)))"

definition scan_candidate ::
  "codec \<Rightarrow> gateway_result \<Rightarrow> quota_data \<Rightarrow> (attempt \<Rightarrow> service_error + bool) \<Rightarrow> bool \<Rightarrow> bool \<Rightarrow>
   gateway_candidate \<Rightarrow> bound_scan \<Rightarrow> service_error + bound_scan" where
  "scan_candidate C r data eligible tokenC moneyC g st =
     bindE (eligible (gc_attempt g)) (\<lambda>ok.
       if \<not> ok then Inr st
       else
         let st1 = st\<lparr>bs_eligible := bs_eligible st + 1\<rparr>; key = att_TargetID (gc_attempt g) in
         case map_of (bs_evidence st1) key of
             Some _ \<Rightarrow> Inr (retain g st1)
           | None \<Rightarrow>
               (case gatewayCandidateBoundEvidence C g r data tokenC moneyC of (ev, usable) \<Rightarrow>
                  if \<not> usable then Inr st1
                  else
                    let st2 = scan_tokens tokenC ev (st1\<lparr>bs_evidence := AList.update key ev (bs_evidence st1)\<rparr>)
                    in if moneyC then scan_money data g ev st2 else Inr (retain g st2)))"

definition plan_bound ::
  "codec \<Rightarrow> (digest_row list \<Rightarrow> string) \<Rightarrow> bool \<Rightarrow> bool \<Rightarrow> bound_scan \<Rightarrow> quota_bound" where
  "plan_bound C rows tokenC moneyC st =
     (let evidence = sort_key ev_TargetID (map snd (bs_evidence st));
          digest = gatewayAttemptEvidenceDigest C rows evidence
      in \<lparr>qb_Tokens = (if tokenC then Some (bs_maxTokens st) else None),
          qb_Money = (if moneyC then Some (bs_maxMoneyText st) else None),
          qb_Currency = (if moneyC then bs_currency st else ''''),
          qb_Revision = (if tokenC \<or> moneyC then digest ''bound'' else ''''),
          qb_PriceRevision = (if moneyC then digest ''price'' else ''''),
          qb_BasisDigest = (if moneyC then digest ''basis'' else '''')\<rparr>)"

definition prepareGatewayAttemptQuotaBound ::
  "codec \<Rightarrow> (digest_row list \<Rightarrow> string) \<Rightarrow> 'w draw \<Rightarrow> (attempt \<Rightarrow> service_error + bool) \<Rightarrow> 'w gateway_plan \<Rightarrow>
   gateway_result \<Rightarrow> quota_limit list \<Rightarrow> quota_data \<Rightarrow> service_error + 'w gateway_plan \<times> quota_bound" where
  "prepareGatewayAttemptQuotaBound C rows crypto eligible p r policies data =
     (case gatewayQuotaDimensions policies of (tokenC, moneyC) \<Rightarrow>
      if (tokenC \<or> moneyC) \<and> \<not> rq_Supported (gr_quotaRequest r) then Inl RequestUnsupported
      else if moneyC \<and> gr_PricingUnsupported r then Inl PriceUnavailable
      else bindE (foldE (scan_candidate C r data eligible tokenC moneyC) (gp_candidates p) scan_start) (\<lambda>st.
        if bs_retained st = [] then
          (if bs_eligible st = 0 then Inl (GatewayError 503 ''upstream_unavailable'')
           else if moneyC then Inl PriceUnavailable else Inl BoundUnavailable)
        else case filtered crypto p (bs_retained st) of
            Inl _ \<Rightarrow> Inl RuntimeUnavailable
          | Inr plan \<Rightarrow> Inr (plan, plan_bound C rows tokenC moneyC st)))"

section \<open>Candidates of a plan\<close>

definition gatewayAttemptCandidateFor :: "'w gateway_plan \<Rightarrow> attempt \<Rightarrow> gateway_candidate option" where
  "gatewayAttemptCandidateFor p a =
     find (\<lambda>g. gatewayAttemptKey (gc_attempt g) = gatewayAttemptKey a \<and>
               att_ConnectionID (gc_attempt g) = att_ConnectionID a) (gp_candidates p)"

definition Candidate :: "'w gateway_plan \<Rightarrow> attempt \<Rightarrow> (gateway_route \<times> string) option" where
  "Candidate p a =
     (if att_Protocol a \<noteq> gp_protocol p then None
      else map_option (\<lambda>g. (gc_route g, gc_credential g)) (gatewayAttemptCandidateFor p a))"

definition evidence_step ::
  "codec \<Rightarrow> gateway_result \<Rightarrow> quota_data \<Rightarrow> bool \<Rightarrow> bool \<Rightarrow> gateway_candidate \<Rightarrow>
   (string \<times> bound_evidence) list \<Rightarrow> (string \<times> bound_evidence) list" where
  "evidence_step C r data tokenC moneyC g evs =
     (case gatewayCandidateBoundEvidence C g r data tokenC moneyC of (ev, usable) \<Rightarrow>
        if usable then AList.update (gatewayAttemptKey (gc_attempt g)) ev evs else evs)"

definition gatewayAttemptEvidence ::
  "codec \<Rightarrow> 'w gateway_plan \<Rightarrow> gateway_result \<Rightarrow> quota_limit list \<Rightarrow> quota_data \<Rightarrow> (string \<times> bound_evidence) list" where
  "gatewayAttemptEvidence C p r policies data =
     (case gatewayQuotaDimensions policies of (tokenC, moneyC) \<Rightarrow>
        fold (evidence_step C r data tokenC moneyC) (gp_candidates p) [])"

end
