(* ===== verification/Quota_Usage.thy ===== *)
theory Quota_Usage
  imports Quota
begin

text \<open>
  The reads of the quota journal beside a single account: its status and the live money holds
  (\<open>quota_status.go\<close>), a batch of accounts at one instant (\<open>quota_usage_batch.go\<close>), and the same batch
  with the registration of each account (\<open>quota_usage_proof.go\<close>).
\<close>

section \<open>Status\<close>

text \<open>Active, the time zone, and the start of coverage (\<open>None\<close> where inactive).\<close>

record quota_status =
  st_Active :: bool
  st_TimeZone :: string
  st_CoverageStart :: "int option"

text \<open>\<open>errors.Is(err, ErrQuotaInactive)\<close>: inactive accounting is a value here, not an error.\<close>

definition metadata_if_active :: "env \<Rightarrow> 's bolt \<Rightarrow> ('s, quota_metadata option) tx" where
  "metadata_if_active E B s =
     (case readQuotaMetadata E B s of
        Inl ErrQuotaInactive \<Rightarrow> Inr (None, s)
      | Inl e \<Rightarrow> Inl e
      | Inr (m, t) \<Rightarrow> Inr (Some m, t))"

definition QuotaStatus :: "env \<Rightarrow> 's bolt \<Rightarrow> 's \<Rightarrow> (queue_error + quota_status) \<times> 's" where
  "QuotaStatus E B =
     view (bindT (metadata_if_active E B) (\<lambda>m.
       case m of
         None \<Rightarrow> okT \<lparr>st_Active = False, st_TimeZone = '''', st_CoverageStart = None\<rparr>
       | Some d \<Rightarrow> okT \<lparr>st_Active = True, st_TimeZone = qm_TimeZone d, st_CoverageStart = Some (qm_CoverageStart d)\<rparr>))"

definition held_step :: "'s bolt \<Rightarrow> string \<times> stored \<Rightarrow> bool \<Rightarrow> ('s, bool) tx" where
  "held_step B kv held =
     (case cut_at CHR 0x00 (fst kv) of (account, window, found) \<Rightarrow>
        if \<not> found then failT ErrInvalid
        else if window \<noteq> ''active'' \<and> \<not> has_prefix ''month_'' window then okT held
        else bindT (readQuotaCounter B account window) (\<lambda>c.
          okT (held \<or> qc_MoneyUnknown c > 0 \<or> qc_MoneyHeld c \<noteq> [])))"

definition HasLiveMoneyHolds :: "env \<Rightarrow> 's bolt \<Rightarrow> int \<Rightarrow> 's \<Rightarrow> (queue_error + bool) \<times> 's" where
  "HasLiveMoneyHolds E B now =
     update B (bindT (metadata_if_active E B) (\<lambda>m.
       case m of
         None \<Rightarrow> okT False
       | Some _ \<Rightarrow>
           bindT (logicalLimitTime B now) (\<lambda>instant.
           thenT (pruneQuota B instant)
           (bindT (listB B QuotaCounterBucket) (\<lambda>entries.
              foldT (held_step B) entries False)))))"

section \<open>Batches\<close>

definition MaxQuotaUsageBatchAccounts :: nat where "MaxQuotaUsageBatchAccounts = 101"

record quota_usage_batch =
  ub_Active :: bool
  ub_AsOf :: int
  ub_CoverageStart :: int
  ub_TimeZone :: string
  ub_Accounts :: "(string \<times> account_quota_usage) list"

record quota_usage_frame =
  uf_active :: bool
  uf_asOf :: int
  uf_coverageStart :: int
  uf_timeZone :: string
  uf_monthStart :: int

definition batch_step :: "string \<Rightarrow> string list \<Rightarrow> queue_error + string list" where
  "batch_step account seen =
     (if \<not> validKey account \<or> account \<in> set seen then Inl ErrInvalid else Inr (account # seen))"

definition validateQuotaUsageBatchAccounts :: "string list \<Rightarrow> queue_error + unit" where
  "validateQuotaUsageBatchAccounts accounts =
     (if accounts = [] \<or> length accounts > MaxQuotaUsageBatchAccounts then Inl ErrInvalid
      else bindE (foldE batch_step accounts []) (\<lambda>_. Inr ()))"

definition sampleQuotaUsageFrame :: "env \<Rightarrow> 's bolt \<Rightarrow> int \<Rightarrow> ('s, quota_usage_frame option) tx" where
  "sampleQuotaUsageFrame E B now =
     bindT (metadata_if_active E B) (\<lambda>m.
       case m of
         None \<Rightarrow> okT None
       | Some d \<Rightarrow>
           bindT (logicalLimitTime B now) (\<lambda>instant.
           thenT (pruneQuota B instant)
           (bindT (liftT (quotaMonth E instant (qm_TimeZone d))) (\<lambda>(start, _).
              okT (Some \<lparr>uf_active = True, uf_asOf = instant, uf_coverageStart = qm_CoverageStart d,
                         uf_timeZone = qm_TimeZone d, uf_monthStart = start\<rparr>)))))"

definition sampleAccountQuotaUsage :: "'s bolt \<Rightarrow> string \<Rightarrow> quota_usage_frame \<Rightarrow> ('s, account_quota_usage) tx" where
  "sampleAccountQuotaUsage B account f =
     read_windows B account (uf_asOf f) (uf_coverageStart f) (uf_timeZone f) (uf_monthStart f)"

definition batch_account ::
  "'s bolt \<Rightarrow> quota_usage_frame \<Rightarrow> string \<Rightarrow> (string \<times> account_quota_usage) list \<Rightarrow>
   ('s, (string \<times> account_quota_usage) list) tx" where
  "batch_account B f account sofar =
     bindT (sampleAccountQuotaUsage B account f) (\<lambda>u. okT (sofar @ [(account, u)]))"

definition AccountQuotaUsageBatch ::
  "env \<Rightarrow> 's bolt \<Rightarrow> string list \<Rightarrow> int \<Rightarrow> 's \<Rightarrow> (queue_error + quota_usage_batch) \<times> 's" where
  "AccountQuotaUsageBatch E B accounts now s =
     (case validateQuotaUsageBatchAccounts accounts of
        Inl e \<Rightarrow> (Inl e, s)
      | Inr _ \<Rightarrow> update B
          (bindT (sampleQuotaUsageFrame E B now) (\<lambda>frame.
             case frame of
               None \<Rightarrow> okT \<lparr>ub_Active = False, ub_AsOf = 0, ub_CoverageStart = 0, ub_TimeZone = '''', ub_Accounts = []\<rparr>
             | Some f \<Rightarrow>
                 bindT (foldT (batch_account B f) accounts []) (\<lambda>us.
                   okT \<lparr>ub_Active = True, ub_AsOf = uf_asOf f, ub_CoverageStart = uf_coverageStart f,
                        ub_TimeZone = uf_timeZone f, ub_Accounts = us\<rparr>))) s)"

section \<open>Batches with registration\<close>

text \<open>The creation date is \<open>None\<close> where it is the zero time.\<close>

record quota_usage_proof =
  up_Usage :: account_quota_usage
  up_Registered :: bool
  up_CreatedAt :: "int option"

record quota_usage_proof_batch =
  pb_Active :: bool
  pb_AsOf :: int
  pb_CoverageStart :: int
  pb_TimeZone :: string
  pb_Accounts :: "(string \<times> quota_usage_proof) list"

definition read_registration :: "'s bolt \<Rightarrow> string \<Rightarrow> int \<Rightarrow> ('s, bool \<times> int option) tx" where
  "read_registration B account asOf =
     bindT (getB B QuotaAccountBucket account) (\<lambda>raw.
       case raw of
         None \<Rightarrow> okT (False, None)
       | Some v \<Rightarrow>
           (case as_created v of
              Some (Some created) \<Rightarrow>
                if created < 0 \<or> created > asOf then failT ErrInvalid
                else okT (True, if created \<noteq> 0 then Some created else None)
            | _ \<Rightarrow> failT ErrInvalid))"

definition proof_account ::
  "'s bolt \<Rightarrow> quota_usage_frame \<Rightarrow> string \<Rightarrow> (string \<times> quota_usage_proof) list \<Rightarrow>
   ('s, (string \<times> quota_usage_proof) list) tx" where
  "proof_account B f account sofar =
     bindT (read_registration B account (uf_asOf f)) (\<lambda>(registered, created).
     bindT (sampleAccountQuotaUsage B account f) (\<lambda>u.
       okT (sofar @ [(account, \<lparr>up_Usage = u, up_Registered = registered, up_CreatedAt = created\<rparr>)])))"

definition AccountQuotaUsageProofBatch ::
  "env \<Rightarrow> 's bolt \<Rightarrow> string list \<Rightarrow> int \<Rightarrow> 's \<Rightarrow> (queue_error + quota_usage_proof_batch) \<times> 's" where
  "AccountQuotaUsageProofBatch E B accounts now s =
     (case validateQuotaUsageBatchAccounts accounts of
        Inl e \<Rightarrow> (Inl e, s)
      | Inr _ \<Rightarrow> update B
          (bindT (sampleQuotaUsageFrame E B now) (\<lambda>frame.
             case frame of
               None \<Rightarrow> okT \<lparr>pb_Active = False, pb_AsOf = 0, pb_CoverageStart = 0, pb_TimeZone = '''', pb_Accounts = []\<rparr>
             | Some f \<Rightarrow>
                 bindT (hasB B QuotaAccountBucket) (\<lambda>h.
                 thenT (checkT h ErrInvalid)
                 (bindT (foldT (proof_account B f) accounts []) (\<lambda>us.
                   okT \<lparr>pb_Active = True, pb_AsOf = uf_asOf f, pb_CoverageStart = uf_coverageStart f,
                        pb_TimeZone = uf_timeZone f, pb_Accounts = us\<rparr>))))) s)"

end
