(* ===== verification/Call_Recorder.thy ===== *)
theory Call_Recorder
  imports Gateway_Quota Quota_Usage
begin

text \<open>
  The durable recording of calls, \<open>internal/routex/service/call_recorder.go\<close> over the journal:
  admission with the fallback fact, checkpoints before and after each dispatch, the final fact, and
  the delivery loop that acknowledges what the primary database has accepted. The journal is the
  database of \<open>pkg/eventqueue\<close>; the primary database is a state \<open>'d\<close> with the outcome of
  \<open>RecordCall\<close> as a parameter. \<open>recorder\<close> is whether \<open>s.recorder\<close> is set.
\<close>

section \<open>Settlements of an interrupted call\<close>

definition zeroQuotaSettlement :: "quota_bound \<Rightarrow> quota_settlement" where
  "zeroQuotaSettlement b =
     \<lparr>qs_Tokens = (if qb_Tokens b = None then None else Some 0),
      qs_Money = (if qb_Money b = None then None else Some ''0''),
      qs_Currency = (if qb_Money b = None then '''' else qb_Currency b)\<rparr>"

definition gatewayInterruptedSettlement :: "gateway_result \<Rightarrow> quota_settlement" where
  "gatewayInterruptedSettlement r =
     (if gr_AttemptID r \<noteq> '''' \<or> \<not> callAttemptsProveNoWork (gr_Attempts r) then no_settlement
      else \<lparr>qs_Tokens = (if qb_Tokens (gr_quotaBound r) = None then None else Some 0),
            qs_Money = (if qb_Money (gr_quotaBound r) = None then None else Some ''0''),
            qs_Currency = (if qb_Money (gr_quotaBound r) = None then '''' else qb_Currency (gr_quotaBound r))\<rparr>)"

section \<open>The fallback fact\<close>

record provider_attribution =
  pa_ProviderID :: string
  pa_ProviderName :: string
  pa_ProviderModelID :: string
  pa_ConnectionID :: string
  pa_ConnectionName :: string
  pa_UpstreamModelName :: string

definition ProviderAttribution :: "gateway_result \<Rightarrow> provider_attribution" where
  "ProviderAttribution r =
     (if gr_AttemptID r = '''' \<and> gr_Attempts r = []
      then \<lparr>pa_ProviderID = '''', pa_ProviderName = '''', pa_ProviderModelID = '''', pa_ConnectionID = '''',
            pa_ConnectionName = '''', pa_UpstreamModelName = ''''\<rparr>
      else \<lparr>pa_ProviderID = gr_ProviderID r, pa_ProviderName = gr_ProviderName r, pa_ProviderModelID = gr_ProviderModelID r,
            pa_ConnectionID = gr_ConnectionID r, pa_ConnectionName = gr_ConnectionName r,
            pa_UpstreamModelName = gr_UpstreamModelName r\<rparr>)"

text \<open>The attempt in flight, as the fallback records it: the process was interrupted, work unknown.\<close>

definition interrupted_attempt :: "gateway_result \<Rightarrow> int \<Rightarrow> int option \<Rightarrow> call_attempt" where
  "interrupted_attempt r number now =
     \<lparr>ca_CredentialID = gr_CredentialID r, ca_SnapshotID = gr_SnapshotID r, ca_ID = gr_AttemptID r,
      ca_ProviderID = gr_ProviderID r, ca_ProviderName = gr_ProviderName r, ca_ProviderModelID = gr_ProviderModelID r,
      ca_ConnectionID = gr_ConnectionID r, ca_ConnectionName = gr_ConnectionName r,
      ca_UpstreamModelName = gr_UpstreamModelName r, ca_AttemptNumber = number, ca_Status = ''error'',
      ca_FailureClass = ''permanent_failure'', ca_WorkEvidence = ''unknown'', ca_OutputStarted = False,
      ca_FinalUsageKnown = False, ca_NativeCompletionEvidence = '''', ca_EvidenceCode = '''',
      ca_StartedAt = gr_AttemptStartedAt r, ca_CompletedAt = now, ca_HTTPStatus = 0, ca_ErrorCode = ''process_interrupted''\<rparr>"

definition fallback_attempts :: "gateway_result \<Rightarrow> int option \<Rightarrow> call_attempt list" where
  "fallback_attempts r now =
     (if gr_AttemptID r = '''' then gr_Attempts r
      else gr_Attempts r @ [interrupted_attempt r (int (length (gr_Attempts r)) + 1) now])"

definition fallback_fact :: "string \<Rightarrow> gateway_result \<Rightarrow> int option \<Rightarrow> call_fact" where
  "fallback_fact rid r now =
     (let attempts = fallback_attempts r now; pa = ProviderAttribution r in
      \<lparr>cf_CacheReadTokens = None, cf_CacheWriteTokens = None, cf_ImageInputs = Some (gr_ImageInputs r),
       cf_PDFInputs = Some (gr_PDFInputs r), cf_UsageComplete = False,
       cf_NoWork = (gr_AttemptID r = '''' \<and> callAttemptsProveNoWork attempts),
       cf_PricingUnsupported = gr_PricingUnsupported r, cf_PricingDimensions = gr_PricingDimensions r,
       cf_PriceBasis = clonePriceBasis (gr_PriceBasis r), cf_Pricing = None, cf_SnapshotID = gr_SnapshotID r,
       cf_RequestID = rid, cf_ProjectID = gr_ProjectID r, cf_TeamID = gr_TeamID r,
       cf_TeamMembershipID = gr_TeamMembershipID r, cf_UserID = gr_UserID r, cf_KeyID = gr_KeyID r,
       cf_ModelID = gr_ModelID r, cf_ModelName = gr_ModelName r, cf_ProviderID = pa_ProviderID pa,
       cf_ProviderName = pa_ProviderName pa, cf_ProviderModelID = pa_ProviderModelID pa,
       cf_ConnectionID = pa_ConnectionID pa, cf_ConnectionName = pa_ConnectionName pa,
       cf_UpstreamModelName = pa_UpstreamModelName pa, cf_RouteStopReason = gr_RouteStopReason r,
       cf_Protocol = NativeProtocol r, cf_Status = ''error'', cf_Stream = gr_Stream r,
       cf_StartedAt = (case attempts of [] \<Rightarrow> now | a # _ \<Rightarrow> ca_StartedAt a), cf_CompletedAt = now,
       cf_InputTokens = None, cf_OutputTokens = None, cf_ErrorCode = ''process_interrupted'', cf_Attempts = attempts\<rparr>)"

definition gatewayFallbackPayload ::
  "codec \<Rightarrow> string \<Rightarrow> gateway_result \<Rightarrow> int option \<Rightarrow> service_error + string" where
  "gatewayFallbackPayload C rid r now =
     (let cf = finalizeCallPricing C (fallback_fact rid r now) in
      bindE (validateCallFact C cf) (\<lambda>_. orE (cd_fact C cf) ErrInternal))"

section \<open>Admission and checkpoints\<close>

definition callQueueCapacity :: int where "callQueueCapacity = 4096"
definition callQueuePayloadLimit :: int where "callQueuePayloadLimit = 65536"

definition callQueueUnavailable :: service_error where
  "callQueueUnavailable = GatewayError 503 ''event_buffer_unavailable''"

text \<open>An error of the journal or of the service; \<open>quotaGatewayError\<close> maps the latter to its default.\<close>

datatype call_error = FromQueue queue_error | FromService service_error

fun call_gateway_error :: "call_error \<Rightarrow> service_error" where
  "call_gateway_error (FromQueue e) = quotaGatewayError e"
| "call_gateway_error (FromService e) = callQueueUnavailable"

text \<open>\<open>ensureQuotaActive\<close>: \<open>intent zone\<close> is whether the transaction that freezes the setting in the
  primary database commits (or there is no primary database).\<close>

definition ensureQuotaActive ::
  "env \<Rightarrow> 's bolt \<Rightarrow> (string \<Rightarrow> bool) \<Rightarrow> string \<Rightarrow> int \<Rightarrow> 's \<Rightarrow> (call_error + unit) \<times> 's" where
  "ensureQuotaActive E B intent zone now s =
     (case QuotaStatus E B s of
        (Inl e, s1) \<Rightarrow> (Inl (FromQueue e), s1)
      | (Inr status, s1) \<Rightarrow>
          if st_Active status then
            (if st_TimeZone status \<noteq> zone then (Inl (FromQueue ErrQuotaConflict), s1) else (Inr (), s1))
          else if \<not> intent zone then (Inl (FromService RuntimeUnavailable), s1)
          else (case EnableQuota E B zone now s1 of
              (Inl e, s2) \<Rightarrow> (Inl (FromQueue e), s2)
            | (Inr _, s2) \<Rightarrow> (Inr (), s2)))"

definition needs_recorder :: "gateway_result \<Rightarrow> bool" where
  "needs_recorder r \<longleftrightarrow>
     list_ex (\<lambda>p. has_token_quota p \<or> ql_MoneyMonth p \<noteq> None) (gr_admissionQuota r) \<or>
     list_ex (\<lambda>l. lim_RPM l \<noteq> None \<or> lim_Concurrency l \<noteq> None) (gr_admissionLimits r)"

definition AdmitGatewayCall ::
  "env \<Rightarrow> queue \<Rightarrow> 's bolt \<Rightarrow> codec \<Rightarrow> (string \<Rightarrow> bool) \<Rightarrow> bool \<Rightarrow> string \<Rightarrow> gateway_result option \<Rightarrow> int \<Rightarrow> 's \<Rightarrow>
   (service_error + unit) \<times> 's" where
  "AdmitGatewayCall E q B C intent recorder rid result now s =
     (if \<not> recorder then
        (case result of
           None \<Rightarrow> (Inr (), s)
         | Some r \<Rightarrow>
             if gr_TeamID r \<noteq> '''' \<or> gr_personal r \<or> needs_recorder r then (Inl callQueueUnavailable, s) else (Inr (), s))
      else case result of
          None \<Rightarrow> (Inl callQueueUnavailable, s)
        | Some r \<Rightarrow>
            (case gatewayFallbackPayload C rid r (Some now) of
               Inl _ \<Rightarrow> (Inl callQueueUnavailable, s)
             | Inr payload \<Rightarrow>
                 if gr_admissionQuota r = [] then
                   (case ReserveWithLimits q B rid payload (gr_admissionLimits r) now s of
                      (Inl e, s1) \<Rightarrow> (Inl (quotaGatewayError e), s1)
                    | (Inr _, s1) \<Rightarrow> (Inr (), s1))
                 else if gr_quotaTimeZone r = '''' then (Inl callQueueUnavailable, s)
                 else (case ensureQuotaActive E B intent (gr_quotaTimeZone r) now s of
                     (Inl e, s1) \<Rightarrow> (Inl (call_gateway_error e), s1)
                   | (Inr _, s1) \<Rightarrow>
                       (case ReserveWithQuotaRecovery E q B rid payload (gr_admissionQuota r) (gr_quotaBound r)
                               (zeroQuotaSettlement (gr_quotaBound r)) now s1 of
                          (Inl e, s2) \<Rightarrow> (Inl (quotaGatewayError e), s2)
                        | (Inr _, s2) \<Rightarrow> (Inr (), s2)))))"

definition CheckpointGatewayCall ::
  "queue \<Rightarrow> 's bolt \<Rightarrow> codec \<Rightarrow> bool \<Rightarrow> string \<Rightarrow> gateway_result \<Rightarrow> int \<Rightarrow> 's \<Rightarrow> (service_error + unit) \<times> 's" where
  "CheckpointGatewayCall q B C recorder rid r now s =
     (if \<not> recorder then (Inr (), s)
      else case gatewayFallbackPayload C rid r (Some now) of
          Inl _ \<Rightarrow> (Inl callQueueUnavailable, s)
        | Inr payload \<Rightarrow>
            (case (if gr_admissionQuota r \<noteq> []
                   then UpdatePendingQuota q B rid payload (gatewayInterruptedSettlement r) s
                   else UpdatePending q B rid payload s) of
               (Inl _, s1) \<Rightarrow> (Inl callQueueUnavailable, s1)
             | (Inr _, s1) \<Rightarrow> (Inr (), s1)))"

section \<open>The final fact\<close>

text \<open>The journal's part of \<open>PersistGatewayCall\<close>: complete, else complete without quota, else queue the
  fact of a request that was never admitted.\<close>

definition finish_call ::
  "env \<Rightarrow> queue \<Rightarrow> 's bolt \<Rightarrow> bool \<Rightarrow> string \<Rightarrow> string \<Rightarrow> quota_settlement \<Rightarrow> int \<Rightarrow> 's \<Rightarrow> (queue_error + unit) \<times> 's" where
  "finish_call E q B active rid payload settlement now s =
     (case (if active
            then (case CompleteQuota E q B rid payload settlement now s of
                    (Inl e, s1) \<Rightarrow> (Inl e, s1) | (Inr _, s1) \<Rightarrow> (Inr (), s1))
            else Complete q B rid payload s) of
        (Inr _, s1) \<Rightarrow> (Inr (), s1)
      | (Inl e1, s1) \<Rightarrow>
          if e1 \<noteq> ErrMissing then (Inl e1, s1)
          else (case Complete q B rid payload s1 of
              (Inr _, s2) \<Rightarrow> (Inr (), s2)
            | (Inl e2, s2) \<Rightarrow>
                if e2 \<noteq> ErrMissing then (Inl e2, s2)
                else (case Reserve q B rid payload s2 of
                    (Inl e3, s3) \<Rightarrow> (Inl e3, s3)
                  | (Inr _, s3) \<Rightarrow> Complete q B rid payload s3)))"

text \<open>\<open>RecordCall\<close> of the primary database: whether it succeeds and the state it leaves.\<close>

type_synonym 'd record_call = "call_fact \<Rightarrow> 'd \<Rightarrow> (service_error + unit) \<times> 'd"

definition PersistGatewayCall ::
  "env \<Rightarrow> queue \<Rightarrow> 's bolt \<Rightarrow> codec \<Rightarrow> 'd record_call \<Rightarrow> bool \<Rightarrow> call_fact \<Rightarrow> int \<Rightarrow> 's \<times> 'd \<Rightarrow>
   (service_error + unit) \<times> 's \<times> 'd" where
  "PersistGatewayCall E q B C recordCall recorder original now st =
     (case st of (s, d) \<Rightarrow>
      let cf = finalizeCallPricing C original in
      if \<not> recorder then (case recordCall cf d of (r, d1) \<Rightarrow> (r, s, d1))
      else case bindE (validateCallFact C cf) (\<lambda>_. orE (cd_fact C cf) ErrInternal) of
          Inl e \<Rightarrow> (Inl e, s, d)
        | Inr payload \<Rightarrow>
            (case QuotaStatus E B s of
               (Inl _, s1) \<Rightarrow> (Inl callQueueUnavailable, s1, d)
             | (Inr status, s1) \<Rightarrow>
                 (case finish_call E q B (st_Active status) (cf_RequestID cf) payload (quotaCallSettlement cf) now s1 of
                    (Inl _, s2) \<Rightarrow> (Inl callQueueUnavailable, s2, d)
                  | (Inr _, s2) \<Rightarrow> (Inr (), s2, d))))"

section \<open>Delivery\<close>

datatype delivery =
  Delivered | BufferReadFailed | Canceled | InvalidFact | IdentityMismatch | PersistenceFailed | AcknowledgeFailed

text \<open>\<open>cancelled\<close> lists what \<open>ctx.Err()\<close> says before each entry; the result is the outcome and the
  number of entries delivered.\<close>

fun deliver ::
  "'s bolt \<Rightarrow> codec \<Rightarrow> 'd record_call \<Rightarrow> (nat \<Rightarrow> bool) \<Rightarrow> entry list \<Rightarrow> nat \<Rightarrow> 's \<times> 'd \<Rightarrow> delivery \<times> nat \<times> 's \<times> 'd" where
  "deliver B C recordCall cancelled [] n st = (Delivered, n, st)"
| "deliver B C recordCall cancelled ((rid, payload) # entries) n (s, d) =
     (if cancelled n then (Canceled, n, s, d)
      else case cd_read C payload of
          None \<Rightarrow> (InvalidFact, n, s, d)
        | Some cf \<Rightarrow>
            if cf_RequestID cf \<noteq> rid then (IdentityMismatch, n, s, d)
            else (case recordCall cf d of
                (Inl _, d1) \<Rightarrow> (PersistenceFailed, n, s, d1)
              | (Inr _, d1) \<Rightarrow>
                  (case Ack B rid s of
                     (Inl _, s1) \<Rightarrow> (AcknowledgeFailed, n, s1, d1)
                   | (Inr _, s1) \<Rightarrow> deliver B C recordCall cancelled entries (Suc n) (s1, d1))))"

definition FlushCallRecorder ::
  "queue \<Rightarrow> 's bolt \<Rightarrow> codec \<Rightarrow> 'd record_call \<Rightarrow> (nat \<Rightarrow> bool) \<Rightarrow> bool \<Rightarrow> 's \<times> 'd \<Rightarrow> delivery \<times> nat \<times> 's \<times> 'd" where
  "FlushCallRecorder q B C recordCall cancelled recorder st =
     (if \<not> recorder then (Delivered, 0, st)
      else case Read q B 64 (fst st) of
          (Inl _, s1) \<Rightarrow> (BufferReadFailed, 0, s1, snd st)
        | (Inr entries, s1) \<Rightarrow> deliver B C recordCall cancelled entries 0 (s1, snd st))"

end
