(* ===== verification/Limits_Inv.thy ===== *)
theory Limits_Inv
  imports Rate_Limits
begin

text \<open>
  The invariants of the admission counters: an account's count of the last minute is at least the
  number of its events, the sequence at least the number of all events, the count of active calls
  exactly the number of leases that name the account. Every step of an admission, a release and a
  read keeps them; the events that survive a pruning are those of the last minute.
\<close>

section \<open>Invariants\<close>

definition cnt :: "'s bolt \<Rightarrow> 's \<Rightarrow> bucket \<Rightarrow> string \<Rightarrow> int option" where
  "cnt B s b a = count_at (ent B s b a)"

text \<open>The events of an account.\<close>

definition rpm_of :: "'s bolt \<Rightarrow> 's \<Rightarrow> string \<Rightarrow> string set" where
  "rpm_of B s a = {k. \<exists>v. ent B s RpmBucket k = Some v \<and> bytes_of v = a}"

definition event_key :: "string \<Rightarrow> bool" where
  "event_key k \<longleftrightarrow> (\<exists>x r. 0 < x \<and> int64_range x \<and> k = be64 x @ r \<and> r \<noteq> [])"

definition rpm_ok :: "'s bolt \<Rightarrow> 's \<Rightarrow> bool" where
  "rpm_ok B s \<longleftrightarrow>
     has B s RpmBucket \<and> has B s RpmCountBucket \<and>
     (\<forall>k v. ent B s RpmBucket k = Some v \<longrightarrow> event_key k \<and> validKey (bytes_of v)) \<and>
     (\<forall>a. \<exists>n. cnt B s RpmCountBucket a = Some n \<and> int (card (rpm_of B s a)) \<le> n) \<and>
     int (card (dom (ent B s RpmBucket))) \<le> sqn B s RpmBucket"

text \<open>The leases that name an account.\<close>

definition leases_of :: "'s bolt \<Rightarrow> 's \<Rightarrow> string \<Rightarrow> string set" where
  "leases_of B s a = {rid. \<exists>accounts. ent B s LeaseBucket rid = Some (Accounts accounts) \<and> a \<in> set accounts}"

definition lease_ok :: "'s bolt \<Rightarrow> 's \<Rightarrow> bool" where
  "lease_ok B s \<longleftrightarrow>
     has B s LeaseBucket \<and> has B s ActiveCountBucket \<and>
     (\<forall>rid v. ent B s LeaseBucket rid = Some v \<longrightarrow> (\<exists>accounts. v = Accounts accounts \<and> distinct accounts)) \<and>
     (\<forall>a. cnt B s ActiveCountBucket a = Some (int (card (leases_of B s a))))"

definition clock_of :: "'s bolt \<Rightarrow> 's \<Rightarrow> int" where
  "clock_of B s = (case ent B s LimitMetaBucket ''clock'' of None \<Rightarrow> 0 | Some v \<Rightarrow> be64_val (bytes_of v))"

definition clock_ok :: "'s bolt \<Rightarrow> 's \<Rightarrow> bool" where
  "clock_ok B s \<longleftrightarrow>
     has B s LimitMetaBucket \<and>
     (case ent B s LimitMetaBucket ''clock'' of
        None \<Rightarrow> True
      | Some v \<Rightarrow> length (bytes_of v) = 8 \<and> 0 < be64_val (bytes_of v)) \<and>
     (\<forall>k \<in> dom (ent B s RpmBucket). be64_val k \<le> clock_of B s)"

definition counts_cover :: "'s bolt \<Rightarrow> 's \<Rightarrow> bool" where
  "counts_cover B s \<longleftrightarrow> (\<forall>a. \<exists>n. cnt B s RpmCountBucket a = Some n \<and> int (card (rpm_of B s a)) \<le> n)"

text \<open>What a passed check says of one limit.\<close>

definition admits :: "'s bolt \<Rightarrow> 's \<Rightarrow> limit \<Rightarrow> bool" where
  "admits B s l \<longleftrightarrow> validKey (lim_Account l) \<and>
     (\<exists>n. cnt B s RpmCountBucket (lim_Account l) = Some n \<and> (\<forall>r. lim_RPM l = Some r \<longrightarrow> n < r)) \<and>
     (\<exists>n. cnt B s ActiveCountBucket (lim_Account l) = Some n \<and> (\<forall>c. lim_Concurrency l = Some c \<longrightarrow> n < c))"

text \<open>The key of the event an admission leaves for an account.\<close>

definition event_of :: "string \<Rightarrow> int \<Rightarrow> string \<Rightarrow> string" where
  "event_of rid instant account = be64 instant @ rid @ '':'' @ account"

lemma event_key_val: "event_key k \<Longrightarrow> 0 < be64_val k"
  using be64_val_be64 by (auto simp: event_key_def)

lemma event_key_less: "event_key k \<Longrightarrow> event_key k' \<Longrightarrow> k < k' \<Longrightarrow> be64_val k \<le> be64_val k'"
proof -
  assume "event_key k" "event_key k'" and less: "k < k'"
  then obtain x r x' r' where k: "0 < x" "int64_range x" "k = be64 x @ r"
    "0 < x'" "int64_range x'" "k' = be64 x' @ r'" by (auto simp: event_key_def)
  have "\<not> x' < x"
  proof
    assume "x' < x"
    then have "k' < k" using be64_prefix_less[of x' x r' r] k by simp
    then show False using less by simp
  qed
  then show ?thesis using be64_val_be64 k by simp
qed

lemma cnt_frame: "frame B bs s t \<Longrightarrow> b \<notin> bs \<Longrightarrow> cnt B t b = cnt B s b"
  by (simp add: cnt_def frame_ent fun_eq_iff)

lemma rpm_of_frame: "frame B bs s t \<Longrightarrow> RpmBucket \<notin> bs \<Longrightarrow> rpm_of B t = rpm_of B s"
  by (simp add: rpm_of_def frame_ent fun_eq_iff)

lemma rpm_ok_frame: "rpm_ok B s \<Longrightarrow> frame B bs s t \<Longrightarrow> RpmBucket \<notin> bs \<Longrightarrow> RpmCountBucket \<notin> bs \<Longrightarrow> rpm_ok B t"
  by (simp add: rpm_ok_def cnt_frame[of B bs s t] rpm_of_frame[of B bs s t] frame_ent[of B bs s t]
      frame_sqn[of B bs s t] frame_has[of B bs s t])

lemma leases_of_frame: "frame B bs s t \<Longrightarrow> LeaseBucket \<notin> bs \<Longrightarrow> leases_of B t = leases_of B s"
  by (simp add: leases_of_def frame_ent fun_eq_iff)

lemma lease_ok_frame: "lease_ok B s \<Longrightarrow> frame B bs s t \<Longrightarrow> LeaseBucket \<notin> bs \<Longrightarrow> ActiveCountBucket \<notin> bs \<Longrightarrow> lease_ok B t"
  by (simp add: lease_ok_def cnt_frame[of B bs s t] leases_of_frame[of B bs s t] frame_ent[of B bs s t]
      frame_has[of B bs s t])

lemma clock_of_frame: "frame B bs s t \<Longrightarrow> LimitMetaBucket \<notin> bs \<Longrightarrow> clock_of B t = clock_of B s"
  by (simp add: clock_of_def frame_ent)

lemma clock_ok_frame:
  "clock_ok B s \<Longrightarrow> frame B bs s t \<Longrightarrow> LimitMetaBucket \<notin> bs \<Longrightarrow>
    dom (ent B t RpmBucket) \<subseteq> dom (ent B s RpmBucket) \<Longrightarrow> clock_ok B t"
  by (auto simp: clock_ok_def clock_of_frame[of B bs s t] frame_ent[of B bs s t] frame_has[of B bs s t])

lemma metaText_Inr: "metaText B k s = Inr (x, t) \<longleftrightarrow> has B s LimitMetaBucket \<and> t = s \<and>
    x = (case ent B s LimitMetaBucket k of None \<Rightarrow> [] | Some v \<Rightarrow> bytes_of v)"
  by (auto simp: metaText_def tx_Inr)

context bolt
begin

lemma changeCount_cnt:
  assumes "changeCount B b key delta s = Inr (u, t)" "delta = 1 \<or> delta = -1"
  obtains n where "frame B {b} s t" "sqn B t b = sqn B s b" "cnt B s b key = Some n" "0 \<le> n + delta"
    "cnt B t b = (cnt B s b)(key := Some (n + delta))"
  by (rule changeCount_Inr[OF assms]) (rule that, auto simp: cnt_def fun_eq_iff)

lemma finite_rpm: "has B s RpmBucket \<Longrightarrow> finite (rpm_of B s a)"
  by (rule finite_subset[OF _ finite_ent[of s "bucket_name RpmBucket"]]) (auto simp: rpm_of_def)

lemma finite_leases: "has B s LeaseBucket \<Longrightarrow> finite (leases_of B s a)"
  by (rule finite_subset[OF _ finite_ent[of s "bucket_name LeaseBucket"]]) (auto simp: leases_of_def)

section \<open>Pruning\<close>

lemma prune_events_Inr:
  assumes "prune_events B cutoff es r s = Inr (m, t)"
    and "has B s RpmBucket" "counts_cover B s"
    and "distinct (map fst es)" "\<forall>(k, v) \<in> set es. ent B s RpmBucket k = Some v"
  shows "\<exists>pre post. es = pre @ post \<and> m = r + int (length pre) \<and> frame B {RpmBucket, RpmCountBucket} s t \<and>
    sqn B t RpmBucket = sqn B s RpmBucket \<and> counts_cover B t \<and>
    ent B t RpmBucket = ent B s RpmBucket |` (- fst ` set pre) \<and>
    (\<forall>k \<in> fst ` set pre. be64_val k \<le> cutoff) \<and> (post \<noteq> [] \<longrightarrow> cutoff < be64_val (fst (hd post)))"
  using assms
proof (induction es arbitrary: r s)
  case Nil
  then show ?case by (auto simp: restrict_map_def)
next
  case (Cons e es)
  obtain k v where e: "e = (k, v)" by fastforce
  let ?a = "bytes_of v"
  have kv: "ent B s RpmBucket k = Some v" using Cons.prems(5) by (simp add: e)
  show ?case
  proof (cases "be64_val k > cutoff")
    case True
    then have "m = r \<and> t = s" using Cons.prems(1) by (auto simp: e split: if_splits)
    then show ?thesis using True Cons.prems(3) by (intro exI[of _ "[]"] exI[of _ "e # es"]) (auto simp: e restrict_map_def)
  next
    case False
    obtain s1 s2 where ch: "changeCount B RpmCountBucket ?a (-1) s = Inr ((), s1)"
      and de: "deleteB B RpmBucket k s1 = Inr ((), s2)"
      and rest: "prune_events B cutoff es (r + 1) s2 = Inr (m, t)"
      using Cons.prems(1) False by (auto simp: e thenT_Inr split: if_splits)
    obtain n where n: "frame B {RpmCountBucket} s s1" "cnt B s RpmCountBucket ?a = Some n"
      "cnt B s1 RpmCountBucket = (cnt B s RpmCountBucket)(?a := Some (n - 1))"
      by (rule changeCount_cnt[OF ch]) auto
    note d = deleteB_frame[OF de]
    have e2: "ent B s2 RpmBucket = (ent B s RpmBucket)(k := None)"
      using d frame_ent[OF n(1), of RpmBucket] by simp
    have f2: "frame B {RpmBucket, RpmCountBucket} s s2" using n(1) d by (blast intro: frame_trans)
    have sq2: "sqn B s2 RpmBucket = sqn B s RpmBucket" using d frame_sqn[OF n(1), of RpmBucket] by simp
    have c2: "cnt B s2 RpmCountBucket = (cnt B s RpmCountBucket)(?a := Some (n - 1))"
      using n(3) d cnt_frame[of B "{RpmBucket}" s1 s2 RpmCountBucket] by simp
    have r2: "rpm_of B s2 a = (if a = ?a then rpm_of B s a - {k} else rpm_of B s a)" for a
      using kv by (auto simp: rpm_of_def e2)
    have cover2: "counts_cover B s2"
      unfolding counts_cover_def
    proof
      fix a
      obtain n' where n': "cnt B s RpmCountBucket a = Some n'" "int (card (rpm_of B s a)) \<le> n'"
        using Cons.prems(3) by (auto simp: counts_cover_def)
      show "\<exists>n. cnt B s2 RpmCountBucket a = Some n \<and> int (card (rpm_of B s2 a)) \<le> n"
      proof (cases "a = ?a")
        case True
        have kin: "k \<in> rpm_of B s a" using kv True by (auto simp: rpm_of_def)
        have "card (rpm_of B s a - {k}) = card (rpm_of B s a) - 1" using kin by simp
        moreover have "card (rpm_of B s a) > 0" using kin finite_rpm[OF Cons.prems(2)] by (auto simp: card_gt_0_iff)
        ultimately show ?thesis using n' n(2) True by (simp add: c2 r2)
      qed (use n' in \<open>simp add: c2 r2\<close>)
    qed
    have still: "\<forall>(k', v') \<in> set es. ent B s2 RpmBucket k' = Some v'"
    proof (rule ballI, clarify)
      fix k' v' assume i: "(k', v') \<in> set es"
      then have "k' \<noteq> k" using Cons.prems(4) by (force simp: e)
      then show "ent B s2 RpmBucket k' = Some v'" using i Cons.prems(5) by (auto simp: e2)
    qed
    have has2: "has B s2 RpmBucket" using frame_has[OF f2] Cons.prems(2) by simp
    obtain pre post where IH: "es = pre @ post" "m = r + 1 + int (length pre)"
      "frame B {RpmBucket, RpmCountBucket} s2 t" "sqn B t RpmBucket = sqn B s2 RpmBucket" "counts_cover B t"
      "ent B t RpmBucket = ent B s2 RpmBucket |` (- fst ` set pre)"
      "\<forall>k \<in> fst ` set pre. be64_val k \<le> cutoff" "post \<noteq> [] \<longrightarrow> cutoff < be64_val (fst (hd post))"
      using Cons.IH[OF rest has2 cover2 _ still] Cons.prems(4) by auto
    have "ent B t RpmBucket = ent B s RpmBucket |` (- fst ` set ((k, v) # pre))"
      using IH(6) e2 by (auto simp: fun_eq_iff restrict_map_def)
    then show ?thesis using IH f2 sq2 False
      by (intro exI[of _ "e # pre"] exI[of _ post]) (auto simp: e intro: frame_trans)
  qed
qed

text \<open>Pruning at an instant leaves exactly the events of the last minute.\<close>

lemma pruneLimits_Inr:
  assumes "pruneLimits B instant s = Inr (u, t)" "rpm_ok B s"
  shows "rpm_ok B t" and "frame B {RpmBucket, RpmCountBucket} s t"
    and "ent B t RpmBucket = ent B s RpmBucket |` {k. instant - minute_ns < be64_val k}"
proof -
  let ?es = "b_list B s (bucket_name RpmBucket)"
  have h: "has B s RpmBucket" "has B s RpmCountBucket" using assms(2) by (simp_all add: rpm_ok_def)
  obtain removed s1 where pr: "prune_events B (instant - minute_ns) ?es 0 s = Inr (removed, s1)"
    and le: "removed \<le> sqn B s1 RpmBucket"
    and sq: "setseqB B RpmBucket (sqn B s1 RpmBucket - removed) s1 = Inr (u, t)"
    using assms(1) by (auto simp: pruneLimits_def bindT_Inr listB_Inr seqB_Inr split: if_splits)
  have cover: "counts_cover B s" using assms(2) by (simp add: rpm_ok_def counts_cover_def)
  have mem: "\<forall>(k, v) \<in> set ?es. ent B s RpmBucket k = Some v" using list_mem[OF h(1)] by auto
  obtain pre post where p: "?es = pre @ post" "removed = int (length pre)"
    "frame B {RpmBucket, RpmCountBucket} s s1" "sqn B s1 RpmBucket = sqn B s RpmBucket" "counts_cover B s1"
    "ent B s1 RpmBucket = ent B s RpmBucket |` (- fst ` set pre)"
    "\<forall>k \<in> fst ` set pre. be64_val k \<le> instant - minute_ns"
    "post \<noteq> [] \<longrightarrow> instant - minute_ns < be64_val (fst (hd post))"
    using prune_events_Inr[OF pr h(1) cover list_distinct[OF h(1)] mem] by auto
  note q = setseqB_frame[OF sq]
  have q': "frame B {RpmBucket} s1 t" "ent B t RpmBucket = ent B s1 RpmBucket"
    "sqn B t RpmBucket = sqn B s RpmBucket - int (length pre)" using q le p(2,4) by auto
  show fr: "frame B {RpmBucket, RpmCountBucket} s t" using p(3) q'(1) by (blast intro: frame_trans)
  have keys: "event_key k" if "k \<in> fst ` set ?es" for k
    using that assms(2) list_dom[OF h(1)] by (auto simp: rpm_ok_def)
  have late: "instant - minute_ns < be64_val k" if k: "k \<in> fst ` set post" for k
  proof -
    have ne: "post \<noteq> []" using k by auto
    have "sorted_wrt (<) (map fst pre @ map fst post)" using list_sorted[OF h(1)] p(1) by simp
    then have srt: "sorted_wrt (<) (map fst post)" by (simp add: sorted_wrt_append)
    have hd: "fst (hd post) = k \<or> fst (hd post) < k" using srt k ne by (cases post) auto
    have "event_key (fst (hd post))" "event_key k" using keys k ne by (auto simp: p(1))
    then have "be64_val (fst (hd post)) \<le> be64_val k" using hd event_key_less by auto
    then show ?thesis using p(8) ne by simp
  qed
  show et: "ent B t RpmBucket = ent B s RpmBucket |` {k. instant - minute_ns < be64_val k}"
  proof
    fix k
    have "ent B s RpmBucket k \<noteq> None \<Longrightarrow> k \<in> fst ` set pre \<or> k \<in> fst ` set post"
      using list_dom[OF h(1)] p(1) by (metis domIff image_Un set_append Un_iff)
    moreover have "k \<in> fst ` set pre \<Longrightarrow> \<not> instant - minute_ns < be64_val k" using p(7) by fastforce
    ultimately show "ent B t RpmBucket k = (ent B s RpmBucket |` {k. instant - minute_ns < be64_val k}) k"
      using late[of k] q'(2) p(6) by (cases "ent B s RpmBucket k") (auto simp: restrict_map_def)
  qed
  have dj: "dom (ent B t RpmBucket) = dom (ent B s RpmBucket) - fst ` set pre"
    using q'(2) p(6) by (simp add: Diff_eq)
  have sub: "fst ` set pre \<subseteq> dom (ent B s RpmBucket)" using list_dom[OF h(1)] p(1) by auto
  have "card (fst ` set pre) = length pre"
    using list_distinct[OF h(1)] p(1) distinct_card[of "map fst pre"] by simp
  then have "card (dom (ent B t RpmBucket)) = card (dom (ent B s RpmBucket)) - length pre"
    using dj sub by (simp add: card_Diff_subset)
  moreover have "length pre \<le> card (dom (ent B s RpmBucket))"
    using \<open>card (fst ` set pre) = length pre\<close> sub finite_ent[OF h(1)] by (metis card_mono)
  ultimately have card: "int (card (dom (ent B t RpmBucket))) \<le> sqn B t RpmBucket"
    using q'(3) assms(2) by (simp add: rpm_ok_def)
  have "rpm_of B t = rpm_of B s1" using q'(2) by (simp add: rpm_of_def fun_eq_iff)
  moreover have "cnt B t RpmCountBucket = cnt B s1 RpmCountBucket" by (rule cnt_frame[OF q'(1)]) simp
  ultimately have "counts_cover B t" using p(5) by (simp add: counts_cover_def)
  then show "rpm_ok B t"
    using card assms(2) frame_has[OF fr] et unfolding rpm_ok_def counts_cover_def
    by (auto simp: restrict_map_def split: if_splits)
qed

section \<open>The clock\<close>

lemma logicalLimitTime_Inr:
  assumes "logicalLimitTime B now s = Inr (instant, t)" "clock_ok B s" "int64_range now"
  shows "0 < instant" "int64_range instant" "now \<le> instant" "clock_of B s \<le> instant"
    and "instant = now \<or> instant = clock_of B s"
    and "frame B {LimitMetaBucket} s t" "clock_of B t = instant" "clock_ok B t"
    and "ent B t LimitMetaBucket = (ent B s LimitMetaBucket)(''clock'' \<mapsto> Bytes (be64 instant))"
proof -
  define prev where "prev = (case ent B s LimitMetaBucket ''clock'' of None \<Rightarrow> [] | Some v \<Rightarrow> bytes_of v)"
  have now: "0 < now" and pr: "prev \<noteq> [] \<longrightarrow> length prev = 8"
    and put: "putB B LimitMetaBucket ''clock'' (Bytes (be64 instant)) s = Inr ((), t)"
    and inst: "instant = (if prev \<noteq> [] \<and> now < be64_val prev then be64_val prev else now)"
    using assms(1) by (auto simp: logicalLimitTime_def tx_Inr metaText_Inr Let_def prev_def split: if_splits)
  have c: "clock_of B s = (if prev = [] then 0 else be64_val prev)" "prev \<noteq> [] \<Longrightarrow> 0 < be64_val prev"
    using assms(2) by (auto simp: clock_of_def clock_ok_def prev_def split: option.splits)
  show i: "0 < instant" "int64_range instant" "now \<le> instant" "clock_of B s \<le> instant"
    "instant = now \<or> instant = clock_of B s"
    using inst c now assms(3) be64_val_range by (auto split: if_splits)
  note p = putB_frame[OF put]
  show fr: "frame B {LimitMetaBucket} s t" using p by simp
  show e: "ent B t LimitMetaBucket = (ent B s LimitMetaBucket)(''clock'' \<mapsto> Bytes (be64 instant))" using p by simp
  have v: "be64_val (be64 instant) = instant" using be64_val_be64[OF i(2), of "[]"] by simp
  show co: "clock_of B t = instant" by (simp add: clock_of_def e v)
  show "clock_ok B t"
    using assms(2) i(1,4) unfolding clock_ok_def
    by (auto simp: e v co frame_has[OF fr] frame_ent[OF fr]) (meson domI order_trans)
qed

lemma frame_clock: "frame B bs s t \<Longrightarrow> LimitMetaBucket \<in> bs \<Longrightarrow> rpm_ok B s \<Longrightarrow> RpmBucket \<notin> bs \<Longrightarrow> RpmCountBucket \<notin> bs \<Longrightarrow> rpm_ok B t"
  by (rule rpm_ok_frame)

section \<open>The check\<close>

lemma limit_step_Inr:
  "limit_step B l accounts s = Inr (accounts', t) \<Longrightarrow>
    t = s \<and> accounts' = accounts @ [lim_Account l] \<and> lim_Account l \<notin> set accounts \<and> admits B s l"
  by (auto simp: limit_step_def tx_Inr countValue_Inr admits_def cnt_def split: if_splits option.splits)

lemma limit_fold_Inr:
  "foldT (limit_step B) limits accounts s = Inr (accounts', t) \<Longrightarrow> distinct accounts \<Longrightarrow>
    t = s \<and> accounts' = accounts @ map lim_Account limits \<and> distinct accounts' \<and> (\<forall>l \<in> set limits. admits B s l)"
proof (induction limits arbitrary: accounts)
  case Nil
  then show ?case by simp
next
  case (Cons l limits)
  obtain accounts1 t1 where st: "limit_step B l accounts s = Inr (accounts1, t1)"
    and rest: "foldT (limit_step B) limits accounts1 t1 = Inr (accounts', t)"
    using Cons.prems(1) by (auto simp: bindT_Inr)
  note l = limit_step_Inr[OF st]
  have "distinct accounts1" using l Cons.prems(2) by simp
  from Cons.IH[OF _ this] rest l have r: "t = s" "accounts' = accounts1 @ map lim_Account limits"
    "distinct accounts'" "\<forall>l \<in> set limits. admits B s l" by blast+
  then show ?case using l by (intro conjI) simp_all
qed

text \<open>A passed check: the instant, the accounts, and the state after pruning.\<close>

lemma checkLimitAdmission_Inr:
  assumes "checkLimitAdmission q B rid limits now s = Inr ((instant, accounts), t)"
    and "rpm_ok B s" "clock_ok B s" "int64_range now"
  shows "ent B s PendingBucket rid = None" "ent B s ReadyBucket rid = None"
    and "has B s PendingBucket" "has B s ReadyBucket"
    and "int (card (dom (ent B s PendingBucket)) + card (dom (ent B s ReadyBucket))) < q_capacity q"
    and "accounts = map lim_Account limits" "distinct accounts" "\<forall>l \<in> set limits. admits B t l"
    and "0 < instant" "int64_range instant" "now \<le> instant" "clock_of B s \<le> instant"
    and "frame B {LimitMetaBucket, RpmBucket, RpmCountBucket} s t" "rpm_ok B t" "clock_ok B t" "clock_of B t = instant"
    and "ent B t RpmBucket = ent B s RpmBucket |` {k. instant - minute_ns < be64_val k}"
    and "sqn B t RpmBucket + int (length limits) \<le> limitHistoryCapacity"
proof -
  obtain s1 s2 where p: "ent B s PendingBucket rid = None" "ent B s ReadyBucket rid = None"
    "has B s PendingBucket" "has B s ReadyBucket"
    and cap: "int (length (b_list B s (bucket_name PendingBucket)) + length (b_list B s (bucket_name ReadyBucket))) < q_capacity q"
    and lt: "logicalLimitTime B now s = Inr (instant, s1)" and pr: "pruneLimits B instant s1 = Inr ((), s2)"
    and sq: "sqn B s2 RpmBucket + int (length limits) \<le> limitHistoryCapacity"
    and fo: "foldT (limit_step B) limits [] s2 = Inr (accounts, t)"
    using assms(1) by (auto simp: checkLimitAdmission_def tx_Inr)
  note l = logicalLimitTime_Inr[OF lt assms(3,4)]
  have ok1: "rpm_ok B s1" by (rule rpm_ok_frame[OF assms(2) l(6)]) simp_all
  note q = pruneLimits_Inr[OF pr ok1]
  note f = limit_fold_Inr[OF fo]
  show "ent B s PendingBucket rid = None" "ent B s ReadyBucket rid = None" "has B s PendingBucket" "has B s ReadyBucket"
    by (fact p)+
  show "int (card (dom (ent B s PendingBucket)) + card (dom (ent B s ReadyBucket))) < q_capacity q"
    using cap by (simp add: list_length p(3,4))
  show "accounts = map lim_Account limits" "distinct accounts" "\<forall>l \<in> set limits. admits B t l"
    "rpm_ok B t" "sqn B t RpmBucket + int (length limits) \<le> limitHistoryCapacity"
    using f q(1) sq by auto
  show "0 < instant" "int64_range instant" "now \<le> instant" "clock_of B s \<le> instant" by (fact l)+
  have ts: "t = s2" using f by simp
  show "frame B {LimitMetaBucket, RpmBucket, RpmCountBucket} s t"
    unfolding ts by (rule frame_trans[OF l(6) q(2)]) auto
  show et: "ent B t RpmBucket = ent B s RpmBucket |` {k. instant - minute_ns < be64_val k}"
    unfolding ts by (simp add: q(3) frame_ent[OF l(6)])
  show "clock_ok B t" unfolding ts
    by (rule clock_ok_frame[OF l(8) q(2)]) (auto simp: q(3))
  show "clock_of B t = instant" unfolding ts using clock_of_frame[OF q(2)] l(7) by simp
qed

section \<open>The commit of an admission\<close>

lemma event_of_inj: "event_of rid instant a = event_of rid instant b \<longleftrightarrow> a = b"
  by (simp add: event_of_def)

lemma event_of_key: "0 < instant \<Longrightarrow> int64_range instant \<Longrightarrow> event_key (event_of rid instant a)"
  unfolding event_key_def event_of_def by (intro exI[of _ instant] exI[of _ "rid @ '':'' @ a"]) auto

lemma event_of_val: "int64_range instant \<Longrightarrow> be64_val (event_of rid instant a) = instant"
  unfolding event_of_def by (rule be64_val_be64)

text \<open>The accounts of an admission: one more event and one more active call each.\<close>

lemma admit_accounts_Inr:
  assumes "forT accounts (admit_account B rid instant) s = Inr (u, t)" "distinct accounts"
  shows "frame B {RpmCountBucket, ActiveCountBucket, RpmBucket} s t \<and> sqn B t RpmBucket = sqn B s RpmBucket \<and>
    (\<forall>a. cnt B t RpmCountBucket a =
      (if a \<in> set accounts then map_option (\<lambda>n. n + 1) (cnt B s RpmCountBucket a) else cnt B s RpmCountBucket a)) \<and>
    (\<forall>a. cnt B t ActiveCountBucket a =
      (if a \<in> set accounts then map_option (\<lambda>n. n + 1) (cnt B s ActiveCountBucket a) else cnt B s ActiveCountBucket a)) \<and>
    ent B t RpmBucket = (\<lambda>k. if \<exists>a \<in> set accounts. k = event_of rid instant a
      then Some (Bytes (THE a. k = event_of rid instant a)) else ent B s RpmBucket k)"
  using assms
proof (induction accounts arbitrary: s)
  case Nil
  then show ?case by simp
next
  case (Cons a accounts)
  obtain s3 where one: "admit_account B rid instant a s = Inr ((), s3)"
    and rest: "forT accounts (admit_account B rid instant) s3 = Inr (u, t)"
    using Cons.prems(1) by (auto simp: thenT_Inr)
  obtain s1 s2 where c1: "changeCount B RpmCountBucket a 1 s = Inr ((), s1)"
    and c2: "changeCount B ActiveCountBucket a 1 s1 = Inr ((), s2)"
    and pe: "putB B RpmBucket (event_of rid instant a) (Bytes a) s2 = Inr ((), s3)"
    using one by (auto simp: thenT_Inr admit_account_def event_of_def)
  obtain n1 where n1: "frame B {RpmCountBucket} s s1" "cnt B s RpmCountBucket a = Some n1"
    "cnt B s1 RpmCountBucket = (cnt B s RpmCountBucket)(a := Some (n1 + 1))" by (rule changeCount_cnt[OF c1]) auto
  obtain n2 where n2: "frame B {ActiveCountBucket} s1 s2" "cnt B s1 ActiveCountBucket a = Some n2"
    "cnt B s2 ActiveCountBucket = (cnt B s1 ActiveCountBucket)(a := Some (n2 + 1))" by (rule changeCount_cnt[OF c2]) auto
  note p = putB_frame[OF pe]
  have f3: "frame B {RpmBucket} s2 s3" using p by simp
  have f12: "frame B {RpmCountBucket, ActiveCountBucket} s s2" by (rule frame_trans[OF n1(1) n2(1)]) auto
  have f: "frame B {RpmCountBucket, ActiveCountBucket, RpmBucket} s s3" by (rule frame_trans[OF f12 f3]) auto
  have r3: "cnt B s3 RpmCountBucket = (cnt B s RpmCountBucket)(a := Some (n1 + 1))"
    using cnt_frame[OF f3, of RpmCountBucket] cnt_frame[OF n2(1), of RpmCountBucket] n1(3) by simp
  have a3: "cnt B s3 ActiveCountBucket = (cnt B s ActiveCountBucket)(a := Some (n2 + 1))"
    using cnt_frame[OF f3, of ActiveCountBucket] cnt_frame[OF n1(1), of ActiveCountBucket] n2(3) by simp
  have n2s: "cnt B s ActiveCountBucket a = Some n2" using cnt_frame[OF n1(1), of ActiveCountBucket] n2(2) by simp
  have e3: "ent B s3 RpmBucket = (ent B s RpmBucket)(event_of rid instant a \<mapsto> Bytes a)"
    using p frame_ent[OF f12, of RpmBucket] by simp
  have q3: "sqn B s3 RpmBucket = sqn B s RpmBucket" using p frame_sqn[OF f12, of RpmBucket] by simp
  have d: "distinct accounts" "a \<notin> set accounts" using Cons.prems(2) by simp_all
  note IH = Cons.IH[OF rest d(1)]
  have the: "(THE b. event_of rid instant a = event_of rid instant b) = a" for a
    by (simp add: event_of_inj)
  have "ent B t RpmBucket = (\<lambda>k. if \<exists>b \<in> set (a # accounts). k = event_of rid instant b
      then Some (Bytes (THE b. k = event_of rid instant b)) else ent B s RpmBucket k)"
  proof
    fix k
    show "ent B t RpmBucket k = (if \<exists>b \<in> set (a # accounts). k = event_of rid instant b
      then Some (Bytes (THE b. k = event_of rid instant b)) else ent B s RpmBucket k)"
      using IH by (auto simp: e3 the)
  qed
  then show ?case
    using IH f d(2) by (auto simp: r3 a3 n1(2) n2s q3 intro: frame_trans)
qed

lemma leases_of_insert:
  assumes "ent B s LeaseBucket rid = None" "ent B t LeaseBucket = (ent B s LeaseBucket)(rid \<mapsto> Accounts accounts)"
  shows "leases_of B t a = (if a \<in> set accounts then insert rid (leases_of B s a) else leases_of B s a)"
    and "rid \<notin> leases_of B s a"
  using assms by (auto simp: leases_of_def)

lemma applyLimitAdmission_Inr:
  assumes "applyLimitAdmission B rid payload instant accounts s = Inr (u, t)" "distinct accounts"
    and "\<forall>a \<in> set accounts. validKey a" "rpm_ok B s" "lease_ok B s" "ent B s LeaseBucket rid = None"
    and "0 < instant" "int64_range instant" "clock_ok B s" "clock_of B s = instant"
  shows "frame B {RpmCountBucket, ActiveCountBucket, RpmBucket, LeaseBucket, PendingBucket} s t"
    and "rpm_ok B t" "lease_ok B t" "clock_ok B t"
    and "ent B t PendingBucket = (ent B s PendingBucket)(rid \<mapsto> Bytes payload)"
    and "ent B t LeaseBucket = (ent B s LeaseBucket)(rid \<mapsto> Accounts accounts)"
    and "card (rpm_of B t a) \<le> card (rpm_of B s a) + (if a \<in> set accounts then 1 else 0)"
    and "cnt B t ActiveCountBucket a = map_option (\<lambda>n. n + (if a \<in> set accounts then 1 else 0)) (cnt B s ActiveCountBucket a)"
proof -
  obtain s1 s2 s3 where ad: "forT accounts (admit_account B rid instant) s = Inr ((), s1)"
    and sq: "setseqB B RpmBucket (sqn B s1 RpmBucket + int (length accounts)) s1 = Inr ((), s2)"
    and le: "putB B LeaseBucket rid (Accounts accounts) s2 = Inr ((), s3)"
    and pe: "putB B PendingBucket rid (Bytes payload) s3 = Inr (u, t)"
    using assms(1) by (auto simp: applyLimitAdmission_def tx_Inr)
  note A = admit_accounts_Inr[OF ad assms(2)]
  have f1: "frame B {RpmCountBucket, ActiveCountBucket, RpmBucket} s s1" using A by blast
  have q: "frame B {RpmBucket} s1 s2 \<and> ent B s2 RpmBucket = ent B s1 RpmBucket \<and>
      sqn B s2 RpmBucket = sqn B s1 RpmBucket + int (length accounts)"
    using setseqB_frame[OF sq] seq_nonneg[of s1 "bucket_name RpmBucket"] by auto
  note l = putB_frame[OF le] and p = putB_frame[OF pe]
  have f12: "frame B {RpmCountBucket, ActiveCountBucket, RpmBucket} s s2"
    using f1 q by (blast intro: frame_trans)
  have f23: "frame B {LeaseBucket, PendingBucket} s2 t" using l p by (blast intro: frame_trans)
  show fr: "frame B {RpmCountBucket, ActiveCountBucket, RpmBucket, LeaseBucket, PendingBucket} s t"
    by (rule frame_trans[OF f12 f23]) auto
  show pend: "ent B t PendingBucket = (ent B s PendingBucket)(rid \<mapsto> Bytes payload)"
    using p l frame_ent[OF f12, of PendingBucket] frame_ent[of B "{LeaseBucket}" s2 s3 PendingBucket] by simp
  show lease: "ent B t LeaseBucket = (ent B s LeaseBucket)(rid \<mapsto> Accounts accounts)"
    using p l frame_ent[OF f12, of LeaseBucket] frame_ent[of B "{PendingBucket}" s3 t LeaseBucket] by simp
  have rpm: "ent B t RpmBucket = ent B s1 RpmBucket"
    using q frame_ent[OF f23, of RpmBucket] by simp
  have cr: "cnt B t RpmCountBucket = cnt B s1 RpmCountBucket" "cnt B t ActiveCountBucket = cnt B s1 ActiveCountBucket"
    using cnt_frame[OF f23] cnt_frame[of B "{RpmBucket}" s1 s2] q by simp_all
  have the: "(THE b. event_of rid instant a = event_of rid instant b) = a" for a
    by (simp add: event_of_inj)
  have ev: "ent B t RpmBucket k = (if k \<in> event_of rid instant ` set accounts
      then Some (Bytes (THE a. k = event_of rid instant a)) else ent B s RpmBucket k)" for k
    unfolding rpm using A by (auto simp: image_iff)
  have sub: "rpm_of B t a \<subseteq> rpm_of B s a \<union> (if a \<in> set accounts then {event_of rid instant a} else {})" for a
    by (auto simp: rpm_of_def ev the split: if_splits)
  have hasr: "has B s RpmBucket" "has B s LeaseBucket" using assms(4,5) by (simp_all add: rpm_ok_def lease_ok_def)
  have cardle: "card (rpm_of B t a) \<le> card (rpm_of B s a) + (if a \<in> set accounts then 1 else 0)" for a
  proof -
    have "card (rpm_of B t a) \<le> card (rpm_of B s a \<union> (if a \<in> set accounts then {event_of rid instant a} else {}))"
      by (rule card_mono) (use sub[of a] finite_rpm[OF hasr(1)] in auto)
    also have "\<dots> \<le> card (rpm_of B s a) + card (if a \<in> set accounts then {event_of rid instant a} else {})"
      by (rule card_Un_le)
    also have "card (if a \<in> set accounts then {event_of rid instant a} else {}) = (if a \<in> set accounts then 1 else 0)"
      by simp
    finally show ?thesis .
  qed
  then show "card (rpm_of B t a) \<le> card (rpm_of B s a) + (if a \<in> set accounts then 1 else 0)" .
  show act: "cnt B t ActiveCountBucket a = map_option (\<lambda>n. n + (if a \<in> set accounts then 1 else 0)) (cnt B s ActiveCountBucket a)" for a
    using A cr(2) by (cases "cnt B s ActiveCountBucket a") auto
  have domsub: "dom (ent B t RpmBucket) \<subseteq> dom (ent B s RpmBucket) \<union> event_of rid instant ` set accounts"
    by (auto simp: ev split: if_splits)
  have "card (dom (ent B t RpmBucket)) \<le> card (dom (ent B s RpmBucket)) + length accounts"
  proof -
    have "card (dom (ent B t RpmBucket)) \<le> card (dom (ent B s RpmBucket) \<union> event_of rid instant ` set accounts)"
      by (rule card_mono) (use domsub finite_ent[OF hasr(1)] in auto)
    also have "\<dots> \<le> card (dom (ent B s RpmBucket)) + card (event_of rid instant ` set accounts)"
      by (rule card_Un_le)
    also have "card (event_of rid instant ` set accounts) \<le> length accounts"
      using card_image_le[of "set accounts" "event_of rid instant"] card_length[of accounts] by simp
    finally show ?thesis by simp
  qed
  moreover have "sqn B t RpmBucket = sqn B s RpmBucket + int (length accounts)"
    using q A frame_sqn[OF f23, of RpmBucket] by simp
  ultimately have seqok: "int (card (dom (ent B t RpmBucket))) \<le> sqn B t RpmBucket"
    using assms(4) unfolding rpm_ok_def by linarith
  have keys: "event_key k \<and> validKey (bytes_of v)" if "ent B t RpmBucket k = Some v" for k v
    using that assms(3,4) event_of_key[OF assms(7,8)] by (auto simp: ev the rpm_ok_def split: if_splits)
  have cover: "\<exists>n. cnt B t RpmCountBucket a = Some n \<and> int (card (rpm_of B t a)) \<le> n" for a
  proof -
    obtain n where n: "cnt B s RpmCountBucket a = Some n" "int (card (rpm_of B s a)) \<le> n"
      using assms(4) unfolding rpm_ok_def by blast
    have "cnt B t RpmCountBucket a = Some (n + (if a \<in> set accounts then 1 else 0))"
      using A cr(1) n(1) by auto
    then show ?thesis using cardle[of a] n(2) by auto
  qed
  show "rpm_ok B t"
    using assms(4) frame_has[OF fr] keys cover seqok unfolding rpm_ok_def by simp
  show "clock_ok B t"
    using assms(9,10) event_of_val[OF assms(8)] unfolding clock_ok_def
    by (auto simp: frame_has[OF fr] frame_ent[OF fr] clock_of_frame[OF fr] ev split: if_splits) (meson domI)
  show "lease_ok B t"
    unfolding lease_ok_def
  proof (intro conjI allI impI)
    show "has B t LeaseBucket" "has B t ActiveCountBucket"
      using assms(5) frame_has[OF fr] by (simp_all add: lease_ok_def)
  next
    fix k v assume "ent B t LeaseBucket k = Some v"
    then show "\<exists>accounts. v = Accounts accounts \<and> distinct accounts"
      using assms(2,5) by (auto simp: lease lease_ok_def split: if_splits)
  next
    fix a
    note li = leases_of_insert[OF assms(6) lease, of a]
    have "cnt B s ActiveCountBucket a = Some (int (card (leases_of B s a)))"
      using assms(5) by (simp add: lease_ok_def)
    then show "cnt B t ActiveCountBucket a = Some (int (card (leases_of B t a)))"
      using li finite_leases[OF hasr(2)] act[of a] by simp
  qed
qed

lemma applyLimitAdmission_events:
  assumes "applyLimitAdmission B rid payload instant accounts s = Inr (u, t)" "distinct accounts"
    and "int64_range instant" "k \<in> dom (ent B t RpmBucket)"
  shows "be64_val k = instant \<or> k \<in> dom (ent B s RpmBucket)"
proof -
  obtain s1 s2 s3 where ad: "forT accounts (admit_account B rid instant) s = Inr ((), s1)"
    and sq: "setseqB B RpmBucket (sqn B s1 RpmBucket + int (length accounts)) s1 = Inr ((), s2)"
    and le: "putB B LeaseBucket rid (Accounts accounts) s2 = Inr ((), s3)"
    and pe: "putB B PendingBucket rid (Bytes payload) s3 = Inr (u, t)"
    using assms(1) by (auto simp: applyLimitAdmission_def tx_Inr)
  have q: "ent B s2 RpmBucket = ent B s1 RpmBucket"
    using setseqB_frame[OF sq] seq_nonneg[of s1 "bucket_name RpmBucket"] by auto
  have "ent B t RpmBucket = ent B s1 RpmBucket"
    using putB_frame[OF pe] putB_frame[OF le] q frame_ent[of B "{PendingBucket}" s3 t RpmBucket]
      frame_ent[of B "{LeaseBucket}" s2 s3 RpmBucket] by simp
  then show ?thesis
    using assms(4) admit_accounts_Inr[OF ad assms(2)] event_of_val[OF assms(3)] by (auto split: if_splits)
qed

section \<open>The release of a lease\<close>

lemma release_accounts_Inr:
  assumes "forT accounts (\<lambda>a. changeCount B ActiveCountBucket a (-1)) s = Inr (u, t)" "distinct accounts"
  shows "frame B {ActiveCountBucket} s t \<and>
    (\<forall>a. cnt B t ActiveCountBucket a =
      (if a \<in> set accounts then map_option (\<lambda>n. n - 1) (cnt B s ActiveCountBucket a) else cnt B s ActiveCountBucket a))"
  using assms
proof (induction accounts arbitrary: s)
  case Nil
  then show ?case by simp
next
  case (Cons a accounts)
  obtain s1 where ch: "changeCount B ActiveCountBucket a (-1) s = Inr ((), s1)"
    and rest: "forT accounts (\<lambda>a. changeCount B ActiveCountBucket a (-1)) s1 = Inr (u, t)"
    using Cons.prems(1) by (auto simp: thenT_Inr)
  obtain n where n: "frame B {ActiveCountBucket} s s1" "cnt B s ActiveCountBucket a = Some n"
    "cnt B s1 ActiveCountBucket = (cnt B s ActiveCountBucket)(a := Some (n - 1))"
    by (rule changeCount_cnt[OF ch]) auto
  have "distinct accounts" "a \<notin> set accounts" using Cons.prems(2) by simp_all
  then show ?case using Cons.IH[OF rest] n by (auto intro: frame_trans)
qed

lemma releaseLimits_Inr:
  assumes "releaseLimits B rid s = Inr (u, t)" "lease_ok B s"
  shows "frame B {LeaseBucket, ActiveCountBucket} s t" "lease_ok B t"
    and "ent B t LeaseBucket = (ent B s LeaseBucket)(rid := None)"
proof -
  have h: "has B s LeaseBucket" using assms(2) by (simp add: lease_ok_def)
  have "frame B {LeaseBucket, ActiveCountBucket} s t \<and> lease_ok B t \<and>
    ent B t LeaseBucket = (ent B s LeaseBucket)(rid := None)"
  proof (cases "ent B s LeaseBucket rid")
    case None
    then have "t = s" using assms(1) by (auto simp: releaseLimits_def tx_Inr)
    then show ?thesis using assms(2) None by (auto simp: fun_eq_iff)
  next
    case (Some v)
    obtain accounts where v: "v = Accounts accounts" "distinct accounts"
      using assms(2) Some by (auto simp: lease_ok_def)
    obtain s1 where ch: "forT accounts (\<lambda>a. changeCount B ActiveCountBucket a (-1)) s = Inr ((), s1)"
      and de: "deleteB B LeaseBucket rid s1 = Inr (u, t)"
      using assms(1) Some v by (auto simp: releaseLimits_def tx_Inr)
    note R = release_accounts_Inr[OF ch v(2)]
    have f1: "frame B {ActiveCountBucket} s s1" using R by blast
    note d = deleteB_frame[OF de]
    have fr: "frame B {LeaseBucket, ActiveCountBucket} s t" using f1 d by (blast intro: frame_trans)
    have e: "ent B t LeaseBucket = (ent B s LeaseBucket)(rid := None)"
      using d frame_ent[OF f1, of LeaseBucket] by simp
    have le: "leases_of B t a = leases_of B s a - {rid}" for a by (auto simp: leases_of_def e)
    have rin: "rid \<in> leases_of B s a \<longleftrightarrow> a \<in> set accounts" for a using Some v by (auto simp: leases_of_def)
    have "cnt B t ActiveCountBucket a = Some (int (card (leases_of B t a)))" for a
    proof -
      have c: "cnt B s ActiveCountBucket a = Some (int (card (leases_of B s a)))"
        using assms(2) by (simp add: lease_ok_def)
      have "cnt B t ActiveCountBucket a = cnt B s1 ActiveCountBucket a"
        using cnt_frame[of B "{LeaseBucket}" s1 t ActiveCountBucket] d by simp
      also have "\<dots> = Some (int (card (leases_of B s a)) - (if a \<in> set accounts then 1 else 0))"
        using R c by simp
      also have "int (card (leases_of B s a)) - (if a \<in> set accounts then 1 else 0) = int (card (leases_of B t a))"
      proof (cases "a \<in> set accounts")
        case True
        then have "rid \<in> leases_of B s a" using rin by blast
        moreover from this have "card (leases_of B s a) > 0" using finite_leases[OF h] by (auto simp: card_gt_0_iff)
        ultimately show ?thesis using True by (simp add: le)
      next
        case False
        then show ?thesis using rin by (simp add: le)
      qed
      finally show ?thesis .
    qed
    then have "lease_ok B t"
      using assms(2) frame_has[OF fr] by (auto simp: lease_ok_def e split: if_splits)
    then show ?thesis using fr e by blast
  qed
  then show "frame B {LeaseBucket, ActiveCountBucket} s t" "lease_ok B t"
    "ent B t LeaseBucket = (ent B s LeaseBucket)(rid := None)" by blast+
qed

end

end
