(* ===== verification/Quota_Recovery.thy ===== *)
theory Quota_Recovery
  imports Quota
begin

text \<open>
  Opening the journal: \<open>Open\<close> of \<open>queue.go\<close> and \<open>recoverQuota\<close> of \<open>quota_recovery.go\<close>. The counters and
  expiry entries are built anew from the receipts, a receipt that was active becomes interrupted
  with its recovery settlement, and the facts that were pending become ready.
\<close>

section \<open>Receipts of a stopped process\<close>

definition check_registered :: "int \<Rightarrow> string \<times> stored \<Rightarrow> ('s, unit) tx" where
  "check_registered instant kv =
     checkT (validKey (fst kv) \<and>
       (case as_created (snd kv) of
          None \<Rightarrow> False
        | Some c \<Rightarrow> (let created = (case c of None \<Rightarrow> 0 | Some n \<Rightarrow> n) in 0 \<le> created \<and> created \<le> instant))) ErrInvalid"

definition check_invalid_bound :: "string \<times> stored \<Rightarrow> ('s, unit) tx" where
  "check_invalid_bound kv = checkT (validKey (fst kv) \<and> validKey (bytes_of (snd kv))) ErrInvalid"

definition interrupt_receipt :: "env \<Rightarrow> quota_receipt \<Rightarrow> string \<Rightarrow> quota_receipt" where
  "interrupt_receipt E entry fallback =
     entry\<lparr>qr_State := ''interrupted'', qr_Actual := qr_Recovery entry, qr_Recovery := no_settlement,
           qr_SettlementDigest := e_digest E (qr_Recovery entry) fallback\<rparr>"

text \<open>One receipt: its checks, its new form, its projection. The accumulator is the number of
  receipts and the interrupted ones.\<close>

definition recover_receipt ::
  "env \<Rightarrow> queue \<Rightarrow> 's bolt \<Rightarrow> quota_metadata \<Rightarrow> int \<Rightarrow> string \<times> stored \<Rightarrow> int \<times> quota_receipt list \<Rightarrow>
   ('s, int \<times> quota_receipt list) tx" where
  "recover_receipt E q B m instant kv acc =
     (let key = fst kv in
      bindT (readQuotaReceipt B key) (\<lambda>entry.
      thenT (checkT (case quotaMonth E (qr_AdmittedAt entry) (qm_TimeZone m) of
               Inl _ \<Rightarrow> False
             | Inr (start, end') \<Rightarrow>
                 \<not> (qr_AdmittedAt entry < qm_CoverageStart m \<or> qr_AdmittedAt entry > instant \<or>
                    qr_MonthStart entry \<noteq> start \<or> qr_MonthEnd entry \<noteq> end')) ErrInvalid)
      (thenT (forT (qr_Accounts entry) (\<lambda>a.
               bindT (getB B QuotaAccountBucket (qa_Account a)) (\<lambda>r. checkT (r \<noteq> None) ErrInvalid)))
      (bindT (getB B PendingBucket key) (\<lambda>pending.
       bindT (getB B ReadyBucket key) (\<lambda>ready.
       let active = (qr_State entry = ''active'');
           fallback = (case pending of None \<Rightarrow> [] | Some v \<Rightarrow> bytes_of v);
           entry' = (if active then interrupt_receipt E entry fallback else entry)
       in
       thenT (if active then checkT (fallback \<noteq> [] \<and> ready = None) ErrInvalid
              else checkT (pending = None \<and>
                     (case ready of
                        None \<Rightarrow> True
                      | Some payload \<Rightarrow> e_digest E (qr_Actual entry) (bytes_of payload) = qr_SettlementDigest entry)) ErrInvalid)
       (case acc of (count, interrupted) \<Rightarrow>
          thenT (checkT (count + 1 \<le> q_quotaCapacity q) ErrInvalid)
          (thenT (projectTerminalQuota B entry' instant)
             (okT (count + 1, if active then interrupted @ [entry'] else interrupted))))))))))"

definition recoverQuota :: "env \<Rightarrow> queue \<Rightarrow> 's bolt \<Rightarrow> ('s, unit) tx" where
  "recoverQuota E q B =
     bindT (metaText B ''version'') (\<lambda>version.
       if version = ''1'' then
         forT quotaBuckets (\<lambda>b. bindT (hasB B b) (\<lambda>h. checkT (\<not> h) ErrInvalid))
       else
         bindT (readQuotaMetadata E B) (\<lambda>m.
         thenT (forT quotaBuckets (\<lambda>b. bindT (hasB B b) (\<lambda>h. checkT h ErrInvalid)))
         (bindT (metaText B ''clock'') (\<lambda>clock.
          thenT (checkT (length clock = 8) ErrInvalid)
          (let instant = be64_val clock in
           thenT (checkT (instant \<ge> qm_CoverageStart m) ErrInvalid)
           (thenT (forT [QuotaCounterBucket, QuotaExpiryBucket] (\<lambda>b. thenT (dropB B b) (createB B b)))
           (bindT (listB B QuotaAccountBucket) (\<lambda>accounts.
            thenT (forT accounts (check_registered instant))
            (bindT (listB B QuotaInvalidBoundBucket) (\<lambda>bounds.
             thenT (forT bounds check_invalid_bound)
             (bindT (listB B QuotaEntryBucket) (\<lambda>entries.
              bindT (foldT (recover_receipt E q B m instant) entries (0, [])) (\<lambda>(count, interrupted).
              thenT (forT interrupted (storeQuotaReceipt B))
              (thenT (setseqB B QuotaEntryBucket count)
                 (pruneQuota B instant)))))))))))))))"

section \<open>Open\<close>

text \<open>The file system is not modelled: \<open>path\<close> is whether it is named, \<open>file\<close> the state of the database
  once \<open>bolt.Open\<close> has returned it, \<open>None\<close> where that failed. An error closes it unchanged.\<close>

definition move_pending :: "queue \<Rightarrow> 's bolt \<Rightarrow> string \<times> stored \<Rightarrow> ('s, unit) tx" where
  "move_pending q B kv =
     (case kv of (k, v) \<Rightarrow>
        thenT (checkT (validKey k \<and> \<not> int (length (bytes_of v)) > q_maxPayload q) ErrInvalid)
        (bindT (getB B ReadyBucket k) (\<lambda>r.
           if r = None then putB B ReadyBucket k v else okT ())))"

definition open_tx :: "env \<Rightarrow> queue \<Rightarrow> 's bolt \<Rightarrow> ('s, unit) tx" where
  "open_tx E q B =
     thenT (initLimits B)
     (thenT (ensureB B PendingBucket)
     (thenT (ensureB B ReadyBucket)
     (thenT (recoverQuota E q B)
     (bindT (listB B PendingBucket) (\<lambda>entries.
      thenT (forT entries (move_pending q B))
        (forT (map fst entries) (deleteB B PendingBucket)))))))"

definition Open :: "env \<Rightarrow> 's bolt \<Rightarrow> bool \<Rightarrow> int \<Rightarrow> int \<Rightarrow> 's option \<Rightarrow> (queue_error + queue) \<times> 's option" where
  "Open E B path capacity maxPayload file =
     (if \<not> path \<or> capacity < 1 \<or> maxPayload < 1 then (Inl ErrInvalid, file)
      else case file of
          None \<Rightarrow> (Inl ErrStore, None)
        | Some s \<Rightarrow>
            let q = \<lparr>q_capacity = capacity, q_maxPayload = maxPayload, q_quotaCapacity = quotaHistoryCapacity\<rparr> in
            (case update B (open_tx E q B) s of
               (Inl e, t) \<Rightarrow> (Inl e, Some t)
             | (Inr _, t) \<Rightarrow> (Inr q, Some t)))"

end
