(* ===== verification/Tx_Frames.thy ===== *)
theory Tx_Frames
  imports Limits_Inv Quota_Usage Quota_Recovery
begin

text \<open>
  Which buckets a transaction may touch. \<open>apart B bs s t\<close> says that two states agree on every bucket
  outside \<open>bs\<close>; \<open>keeps B bs m\<close> that a transaction which succeeds goes between such states. The rules
  \<open>keeps_rules\<close> follow the combinators, so that the frame of an operation is found by applying them;
  the frames of the quota operations are proved here once.
\<close>

section \<open>Agreement outside a set of buckets\<close>

definition apart :: "'s bolt \<Rightarrow> bucket set \<Rightarrow> 's \<Rightarrow> 's \<Rightarrow> bool" where
  "apart B bs s t \<longleftrightarrow> (\<forall>b. b \<notin> bs \<longrightarrow> has B t b = has B s b \<and> ent B t b = ent B s b \<and> sqn B t b = sqn B s b)"

lemma apart_refl [simp]: "apart B bs s s"
  by (simp add: apart_def)

lemma apart_trans: "apart B bs s t \<Longrightarrow> apart B cs t u \<Longrightarrow> apart B (bs \<union> cs) s u"
  by (simp add: apart_def)

lemma apart_trans_same: "apart B bs s t \<Longrightarrow> apart B bs t u \<Longrightarrow> apart B bs s u"
  by (simp add: apart_def)

lemma apart_mono: "apart B bs s t \<Longrightarrow> bs \<subseteq> cs \<Longrightarrow> apart B cs s t"
  unfolding apart_def by blast

lemma frame_apart: "frame B bs s t \<Longrightarrow> bs \<subseteq> cs \<Longrightarrow> apart B cs s t"
  unfolding apart_def frame_def by blast

lemma apart_frame: "frame B bs s t \<Longrightarrow> apart B bs s t"
  by (rule frame_apart[OF _ subset_refl])

lemma apart_same:
  "apart B bs s t \<Longrightarrow> b \<notin> bs \<Longrightarrow> has B t b = has B s b"
  "apart B bs s t \<Longrightarrow> b \<notin> bs \<Longrightarrow> ent B t b = ent B s b"
  "apart B bs s t \<Longrightarrow> b \<notin> bs \<Longrightarrow> sqn B t b = sqn B s b"
  by (simp_all add: apart_def)

definition keeps :: "'s bolt \<Rightarrow> bucket set \<Rightarrow> ('s, 'a) tx \<Rightarrow> bool" where
  "keeps B bs m \<longleftrightarrow> (\<forall>s a t. m s = Inr (a, t) \<longrightarrow> apart B bs s t)"

lemma keepsD: "keeps B bs m \<Longrightarrow> m s = Inr (a, t) \<Longrightarrow> apart B bs s t"
  by (simp add: keeps_def)

named_theorems keeps_rules

lemma keeps_bind [keeps_rules]: "keeps B bs m \<Longrightarrow> (\<And>a. keeps B bs (f a)) \<Longrightarrow> keeps B bs (bindT m f)"
  unfolding keeps_def bindT_Inr by (meson apart_trans_same)

lemma keeps_then [keeps_rules]: "keeps B bs m \<Longrightarrow> keeps B bs n \<Longrightarrow> keeps B bs (thenT m n)"
  unfolding thenT_def by (rule keeps_bind)

lemma keeps_pure [keeps_rules]:
  "keeps B bs (okT a)" "keeps B bs (failT e)" "keeps B bs (checkT ok e)" "keeps B bs (liftT r)"
  by (auto simp: keeps_def)

lemma keeps_read [keeps_rules]:
  "keeps B bs (getB B b k)" "keeps B bs (hasB B b)" "keeps B bs (listB B b)" "keeps B bs (countB B b)" "keeps B bs (seqB B b)"
  by (auto simp: keeps_def tx_Inr)

lemma keeps_for [keeps_rules]: "(\<And>x. keeps B bs (f x)) \<Longrightarrow> keeps B bs (forT xs f)"
  by (induction xs) (simp_all add: keeps_rules)

lemma keeps_fold [keeps_rules]: "(\<And>x y. keeps B bs (f x y)) \<Longrightarrow> keeps B bs (foldT f xs y)"
  by (induction xs arbitrary: y) (simp_all add: keeps_rules)

lemma keeps_if [keeps_rules]: "(c \<Longrightarrow> keeps B bs m) \<Longrightarrow> (\<not> c \<Longrightarrow> keeps B bs n) \<Longrightarrow> keeps B bs (if c then m else n)"
  by simp

lemma keeps_option [keeps_rules]:
  "keeps B bs m \<Longrightarrow> (\<And>x. keeps B bs (f x)) \<Longrightarrow> keeps B bs (case v of None \<Rightarrow> m | Some x \<Rightarrow> f x)"
  by (cases v) simp_all

lemma keeps_prod [keeps_rules]: "(\<And>x y. keeps B bs (f x y)) \<Longrightarrow> keeps B bs (case p of (x, y) \<Rightarrow> f x y)"
  by (cases p) simp

lemma keeps_let [keeps_rules]: "(\<And>x. keeps B bs (f x)) \<Longrightarrow> keeps B bs (let x = v in f x)"
  by simp

context bolt
begin

lemma keeps_put [keeps_rules]: "b \<in> bs \<Longrightarrow> keeps B bs (putB B b k v)"
  unfolding keeps_def using putB_frame frame_apart by (metis bot.extremum insert_subset)

lemma keeps_delete [keeps_rules]: "b \<in> bs \<Longrightarrow> keeps B bs (deleteB B b k)"
  unfolding keeps_def using deleteB_frame frame_apart by (metis bot.extremum insert_subset)

lemma keeps_setseq: "b \<in> bs \<Longrightarrow> 0 \<le> n \<Longrightarrow> keeps B bs (setseqB B b n)"
  unfolding keeps_def using setseqB_frame frame_apart by (metis bot.extremum insert_subset)

lemma keeps_create [keeps_rules]:
  assumes "b \<in> bs"
  shows "keeps B bs (createB B b)"
  unfolding keeps_def
proof (intro allI impI)
  fix s u t
  assume "createB B b s = Inr (u, t)"
  then have "\<not> has B s b" "b_create B s (bucket_name b) = Some t" by (simp_all add: createB_Inr)
  from create[OF this] show "apart B bs s t" using assms by (auto simp: apart_def)
qed

lemma keeps_drop [keeps_rules]:
  assumes "b \<in> bs"
  shows "keeps B bs (dropB B b)"
  unfolding keeps_def
proof (intro allI impI)
  fix s u t
  assume "dropB B b s = Inr (u, t)"
  then have "has B s b" "b_drop B s (bucket_name b) = Some t" by (simp_all add: dropB_Inr)
  from drop[OF this] show "apart B bs s t" using assms by (auto simp: apart_def)
qed

lemma keeps_ensure [keeps_rules]:
  assumes "b \<in> bs"
  shows "keeps B bs (ensureB B b)"
proof -
  have "keeps B bs (createB B b)" using assms by (rule keeps_create)
  then show ?thesis by (auto simp: keeps_def ensureB_def createB_def split: if_splits)
qed

lemma keeps_for_set: "(\<And>x. x \<in> set xs \<Longrightarrow> keeps B bs (f x)) \<Longrightarrow> keeps B bs (forT xs f)"
  by (induction xs) (simp_all add: keeps_rules)

lemma keeps_seq_change:
  assumes "b \<in> bs" "\<And>n. 0 \<le> n \<Longrightarrow> keeps B bs (f n)"
  shows "keeps B bs (bindT (seqB B b) f)"
  unfolding keeps_def bindT_Inr seqB_Inr using keepsD[OF assms(2)[OF seq_nonneg]] by auto

section \<open>The quota buckets\<close>

abbreviation QB :: "bucket set" where "QB \<equiv> set quotaBuckets"

lemmas QB_mem = quotaBuckets_def

lemma keeps_applyQuotaCounter [keeps_rules]: "keeps B QB (applyQuotaCounter B account window e sign)"
  unfolding applyQuotaCounter_def readQuotaCounter_def by (intro keeps_rules) (simp_all add: QB_mem)

lemma keeps_readQuotaCounter [keeps_rules]: "keeps B bs (readQuotaCounter B account window)"
  unfolding readQuotaCounter_def by (intro keeps_rules)

lemma keeps_readQuotaReceipt [keeps_rules]: "keeps B bs (readQuotaReceipt B rid)"
  unfolding readQuotaReceipt_def by (intro keeps_rules)

lemma keeps_metaText [keeps_rules]: "keeps B bs (metaText B k)"
  unfolding metaText_def by (intro keeps_rules)

lemma keeps_readQuotaMetadata [keeps_rules]: "keeps B bs (readQuotaMetadata E B)"
  unfolding readQuotaMetadata_def by (intro keeps_rules)

lemma keeps_storeQuotaReceipt [keeps_rules]: "keeps B QB (storeQuotaReceipt B e)"
  unfolding storeQuotaReceipt_def by (intro keeps_rules) (simp add: QB_mem)

lemma keeps_projectTerminalQuota [keeps_rules]: "keeps B QB (projectTerminalQuota B e instant)"
  unfolding projectTerminalQuota_def project_window_def project_account_def
  by (intro keeps_rules) (simp_all add: QB_mem)

lemma keeps_expire_receipt [keeps_rules]: "keeps B QB (expire_receipt B rid)"
proof -
  have "keeps B QB (thenT (checkT (e \<noteq> None \<and> n \<noteq> 0) ErrInvalid)
         (thenT (deleteB B QuotaEntryBucket rid) (thenT (setseqB B QuotaEntryBucket (n - 1)) (okT True))))" if "0 \<le> n" for e and n :: int
  proof (cases "n = 0")
    case False
    then show ?thesis using that by (intro keeps_rules keeps_setseq) (simp_all add: QB_mem)
  qed (simp add: keeps_def thenT_Inr)
  then have seq: "keeps B QB (bindT (seqB B QuotaEntryBucket) (\<lambda>n.
      thenT (checkT (e \<noteq> None \<and> n \<noteq> 0) ErrInvalid)
         (thenT (deleteB B QuotaEntryBucket rid) (thenT (setseqB B QuotaEntryBucket (n - 1)) (okT True)))))" for e
    by (intro keeps_seq_change) (simp_all add: QB_mem)
  show ?thesis unfolding expire_receipt_def by (intro seq keeps_rules)
qed

lemma keeps_expire_counter [keeps_rules]: "keeps B QB (expire_counter B identity)"
  unfolding expire_counter_def by (auto split: list.split intro!: keeps_rules)

lemma QB_in:
  "QuotaEntryBucket \<in> QB" "QuotaCounterBucket \<in> QB" "QuotaExpiryBucket \<in> QB" "QuotaAccountBucket \<in> QB"
  "QuotaInvalidBoundBucket \<in> QB"
  by (simp_all add: QB_mem)

lemma keeps_prune_expiry [keeps_rules]: "keeps B QB (prune_expiry B instant es)"
proof (induction es)
  case Nil
  show ?case unfolding prune_expiry.simps by (intro keeps_rules)
next
  case (Cons e es)
  obtain key v where e: "e = (key, v)" by fastforce
  show ?case unfolding e prune_expiry.simps by (intro keeps_rules Cons QB_in)
qed

lemma keeps_pruneQuota [keeps_rules]: "keeps B QB (pruneQuota B instant)"
  unfolding pruneQuota_def by (intro keeps_rules)

lemma keeps_read_if [keeps_rules]: "keeps B bs (read_if a B account window)"
  unfolding read_if_def by (intro keeps_rules)

lemma keeps_check_window [keeps_rules]: "keeps B bs (check_window B account bound coverage created a tokenSoft active w c)"
  unfolding check_window_def by (intro keeps_rules)

lemma keeps_check_money [keeps_rules]:
  "keeps B bs (check_money B policy bound coverage created monthStart a soft active c)"
  unfolding check_money_def by (intro keeps_rules)

lemma keeps_check_account [keeps_rules]: "QuotaAccountBucket \<in> bs \<Longrightarrow> keeps B bs (check_account B account created establish)"
  unfolding check_account_def by (intro keeps_rules)

lemma keeps_checkQuota [keeps_rules]:
  "QuotaAccountBucket \<in> bs \<Longrightarrow> keeps B bs (checkQuota B policy bound metadata instant monthStart a establish)"
  unfolding checkQuota_def by (intro keeps_rules)

text \<open>A check that establishes nothing writes nothing.\<close>

lemma keeps_checkQuota_preview: "keeps B bs (checkQuota B policy bound metadata instant monthStart a False)"
  unfolding checkQuota_def check_account_def by (intro keeps_rules) simp_all

lemma keeps_limits [keeps_rules]:
  "keeps B bs (countValue B b key)" "b \<in> bs \<Longrightarrow> keeps B bs (changeCount B b key delta)"
  unfolding changeCount_def countValue_def by (intro keeps_rules | assumption)+

lemma keeps_releaseLimits [keeps_rules]: "LeaseBucket \<in> bs \<Longrightarrow> ActiveCountBucket \<in> bs \<Longrightarrow> keeps B bs (releaseLimits B rid)"
  unfolding releaseLimits_def by (intro keeps_rules)

lemma keeps_logicalLimitTime [keeps_rules]: "LimitMetaBucket \<in> bs \<Longrightarrow> keeps B bs (logicalLimitTime B now)"
  unfolding logicalLimitTime_def by (intro keeps_rules)

section \<open>Admissions and completions\<close>

lemma keeps_prune_events [keeps_rules]:
  "RpmBucket \<in> bs \<Longrightarrow> RpmCountBucket \<in> bs \<Longrightarrow> keeps B bs (prune_events B cutoff es r)"
proof (induction es arbitrary: r)
  case Nil
  show ?case unfolding prune_events.simps by (intro keeps_rules)
next
  case (Cons e es)
  obtain key v where e: "e = (key, v)" by fastforce
  show ?case unfolding e prune_events.simps by (intro keeps_rules Cons)
qed

lemma keeps_pruneLimits [keeps_rules]:
  assumes "RpmBucket \<in> bs" "RpmCountBucket \<in> bs"
  shows "keeps B bs (pruneLimits B instant)"
proof -
  have step: "keeps B bs (if removed > n then failT ErrInvalid else setseqB B RpmBucket (n - removed))" for removed n
    using assms(1) by (cases "removed > n") (auto intro: keeps_rules keeps_setseq)
  show ?thesis unfolding pruneLimits_def by (intro step keeps_rules assms)
qed

lemma keeps_limit_step [keeps_rules]: "keeps B bs (limit_step B l accounts)"
  unfolding limit_step_def by (intro keeps_rules)

lemma keeps_checkLimitAdmission [keeps_rules]:
  "LimitMetaBucket \<in> bs \<Longrightarrow> RpmBucket \<in> bs \<Longrightarrow> RpmCountBucket \<in> bs \<Longrightarrow> keeps B bs (checkLimitAdmission q B rid limits now)"
  unfolding checkLimitAdmission_def by (intro keeps_rules)

lemma keeps_applyLimitAdmission [keeps_rules]:
  assumes "RpmBucket \<in> bs" "RpmCountBucket \<in> bs" "ActiveCountBucket \<in> bs" "LeaseBucket \<in> bs" "PendingBucket \<in> bs"
  shows "keeps B bs (applyLimitAdmission B rid payload instant accounts)"
proof -
  have step: "keeps B bs (bindT (seqB B RpmBucket) (\<lambda>n.
      thenT (setseqB B RpmBucket (n + int (length accounts)))
      (thenT (putB B LeaseBucket rid (Accounts accounts)) (putB B PendingBucket rid (Bytes payload)))))"
    by (rule keeps_seq_change[OF assms(1)]) (use assms in \<open>intro keeps_rules keeps_setseq; simp\<close>)
  show ?thesis unfolding applyLimitAdmission_def admit_account_def by (intro step keeps_rules assms)
qed

lemma keeps_complete_entry [keeps_rules]:
  "PendingBucket \<in> bs \<Longrightarrow> ReadyBucket \<in> bs \<Longrightarrow> LeaseBucket \<in> bs \<Longrightarrow> ActiveCountBucket \<in> bs \<Longrightarrow>
    keeps B bs (complete_entry B rid payload)"
  unfolding complete_entry_def by (intro keeps_rules)

end

end
