(* ===== verification/Quota_Sums.thy ===== *)
theory Quota_Sums
  imports Tx_Frames
begin

text \<open>
  The counters of the quota journal as sums. A counter has one amount in each dimension (\<open>dim\<close>) and a
  receipt one weight in each; applying a receipt adds or takes its weight, dimension by dimension,
  and touches no other counter. Projecting a settled receipt adds its weight to the counters of its
  unexpired windows and leaves one expiry entry for each.
\<close>

section \<open>Dimensions\<close>

datatype dim = TokensUsed | TokensHeld | TokensUnknown | MoneyUsed string | MoneyHeld string | MoneyUnknown

definition money_amount :: "totals \<Rightarrow> string \<Rightarrow> int" where
  "money_amount ts c =
     (case map_of ts c of None \<Rightarrow> 0 | Some raw \<Rightarrow> (case parse_int raw of None \<Rightarrow> 0 | Some n \<Rightarrow> n))"

fun amount :: "dim \<Rightarrow> quota_counter \<Rightarrow> int" where
  "amount TokensUsed k = qc_TokensUsed k"
| "amount TokensHeld k = qc_TokensHeld k"
| "amount TokensUnknown k = qc_TokensUnknown k"
| "amount (MoneyUsed c) k = money_amount (qc_MoneyUsed k) c"
| "amount (MoneyHeld c) k = money_amount (qc_MoneyHeld k) c"
| "amount MoneyUnknown k = qc_MoneyUnknown k"

fun weigh :: "dim \<Rightarrow> quota_receipt \<Rightarrow> int" where
  "weigh TokensUsed e = (case weight_tokens e of (Some n, True) \<Rightarrow> n | _ \<Rightarrow> 0)"
| "weigh TokensHeld e = (case weight_tokens e of (Some n, False) \<Rightarrow> n | _ \<Rightarrow> 0)"
| "weigh TokensUnknown e = (case weight_tokens e of (None, _) \<Rightarrow> 1 | _ \<Rightarrow> 0)"
| "weigh (MoneyUsed c) e = (case weight_money e of (Some m, c', True) \<Rightarrow> if c' = c then checked_units m else 0 | _ \<Rightarrow> 0)"
| "weigh (MoneyHeld c) e = (case weight_money e of (Some m, c', False) \<Rightarrow> if c' = c then checked_units m else 0 | _ \<Rightarrow> 0)"
| "weigh MoneyUnknown e = (case weight_money e of (None, _) \<Rightarrow> 1 | _ \<Rightarrow> 0)"

definition unit_sign :: "int \<Rightarrow> bool" where
  "unit_sign sign \<longleftrightarrow> sign = 1 \<or> sign = -1"

lemma unit_sign_simps [simp]: "unit_sign 1" "unit_sign (-1)"
  by (simp_all add: unit_sign_def)

lemma addToken_Inr: "addToken n x sign = Inr m \<Longrightarrow> unit_sign sign \<Longrightarrow> m = n + sign * x \<and> 0 \<le> x"
  by (auto simp: addToken_def unit_sign_def split: if_splits)

lemma money_amount_change:
  "money_amount (AList.update c (int_digits n) ts) c' = (if c' = c then n else money_amount ts c')"
  "money_amount (AList.delete c ts) c' = (if c' = c then 0 else money_amount ts c')"
  by (simp_all add: money_amount_def update_conv delete_conv)

lemma addMoney_Inr:
  assumes "addMoney ts c x sign = Inr ts'" "unit_sign sign"
  shows "money_amount ts' c' = money_amount ts c' + (if c' = c then sign * checked_units x else 0)"
proof -
  obtain units where u: "quotaUnits x = Some units" using assms(1) by (auto simp: addMoney_def split: option.splits)
  define prev where "prev = (case map_of ts c of None \<Rightarrow> Some 0 | Some raw \<Rightarrow> parse_int raw)"
  obtain p where p: "prev = Some p" and st: "ts' = (if p + sign * units = 0 then AList.delete c ts else AList.update c (int_digits (p + sign * units)) ts)"
    using assms u unfolding addMoney_def prev_def[symmetric] unit_sign_def Let_def
    by (cases prev) (elim disjE, auto split: if_splits)
  have m: "money_amount ts c = p" using p by (auto simp: prev_def money_amount_def split: option.splits)
  have un: "checked_units x = units" by (simp add: checked_units_def u)
  show ?thesis
    unfolding st un by (cases "c' = c") (simp_all add: money_amount_change m)
qed

lemma change_amount:
  assumes "change_tokens e sign k = Inr k1" "change_money e sign k1 = Inr k2" "unit_sign sign"
  shows "amount d k2 = amount d k + sign * weigh d e"
proof -
  obtain n f where n: "weight_tokens e = (n, f)" by fastforce
  obtain m c g where m: "weight_money e = (m, c, g)" using prod_cases3 by blast
  have t: "amount d k1 = amount d k + (case d of MoneyUsed _ \<Rightarrow> 0 | MoneyHeld _ \<Rightarrow> 0 | MoneyUnknown \<Rightarrow> 0 | _ \<Rightarrow> sign * weigh d e)"
    using assms(1,3) n
    by (cases n; cases f; cases d) (auto simp: change_tokens_def bindE_Inr_iff dest: addToken_Inr)
  have "amount d k2 = amount d k1 + (case d of TokensUsed \<Rightarrow> 0 | TokensHeld \<Rightarrow> 0 | TokensUnknown \<Rightarrow> 0 | _ \<Rightarrow> sign * weigh d e)"
    using assms(2,3) m
    by (cases m; cases g; cases d) (auto simp: change_money_def bindE_Inr_iff addMoney_Inr dest: addToken_Inr)
  then show ?thesis using t by (cases d) simp_all
qed

lemma zero_amount: "zero_counter k \<Longrightarrow> amount d k = 0"
  by (cases d) (simp_all add: zero_counter_def money_amount_def)

text \<open>The amount a stored counter has in a dimension; no counter is zero.\<close>

definition amount_at :: "dim \<Rightarrow> stored option \<Rightarrow> int" where
  "amount_at d raw =
     (case raw of None \<Rightarrow> 0 | Some v \<Rightarrow> (case as_counter v of None \<Rightarrow> 0 | Some k \<Rightarrow> amount d k))"

definition amt :: "'s bolt \<Rightarrow> 's \<Rightarrow> dim \<Rightarrow> string \<Rightarrow> int" where
  "amt B s d key = amount_at d (ent B s QuotaCounterBucket key)"

lemma amt_apart: "apart B bs s t \<Longrightarrow> QuotaCounterBucket \<notin> bs \<Longrightarrow> amt B t d key = amt B s d key"
  by (simp add: amt_def apart_same)

lemma empty_amount: "amount d empty_counter = 0"
  by (cases d) (simp_all add: empty_counter_def money_amount_def)

lemma readQuotaCounter_Inr:
  assumes "readQuotaCounter B a w s = Inr (k, t)"
  shows "t = s" "valid_counter k" "amount d k = amt B s d (counterKey a w)" "has B s QuotaCounterBucket"
  using assms by (auto simp: readQuotaCounter_def tx_Inr amt_def amount_at_def empty_amount split: option.splits if_splits)

context bolt
begin

lemma applyQuotaCounter_Inr:
  assumes "applyQuotaCounter B a w e sign s = Inr (u, t)" "unit_sign sign"
  shows "frame B {QuotaCounterBucket} s t"
    "amt B t d key = amt B s d key + (if key = counterKey a w then sign * weigh d e else 0)"
proof -
  obtain k0 k1 k2 where rd: "readQuotaCounter B a w s = Inr (k0, s)"
    and ch: "change_tokens e sign k0 = Inr k1" "change_money e sign k1 = Inr k2"
    and st: "(if zero_counter k2 then deleteB B QuotaCounterBucket (counterKey a w)
        else putB B QuotaCounterBucket (counterKey a w) (Counter k2)) s = Inr (u, t)"
    using assms(1) readQuotaCounter_Inr(1) by (fastforce simp: applyQuotaCounter_def bindT_Inr)
  have am: "amount d k2 = amt B s d (counterKey a w) + sign * weigh d e"
    using change_amount[OF ch assms(2)] readQuotaCounter_Inr(3)[OF rd] by simp
  show "frame B {QuotaCounterBucket} s t"
    using st deleteB_frame putB_frame by (auto split: if_splits)
  show "amt B t d key = amt B s d key + (if key = counterKey a w then sign * weigh d e else 0)"
  proof (cases "zero_counter k2")
    case True
    then have de: "deleteB B QuotaCounterBucket (counterKey a w) s = Inr (u, t)" using st by simp
    show ?thesis using deleteB_frame[OF de] am zero_amount[OF True] by (simp add: amt_def amount_at_def)
  next
    case False
    then have pu: "putB B QuotaCounterBucket (counterKey a w) (Counter k2) s = Inr (u, t)" using st by simp
    show ?thesis using putB_frame[OF pu] am by (simp add: amt_def amount_at_def)
  qed
qed

text \<open>A receipt applied to one window of each of its accounts.\<close>

lemma apply_accounts_Inr:
  assumes "forT as (\<lambda>a. applyQuotaCounter B (qa_Account a) w e sign) s = Inr (u, t)" "unit_sign sign"
    and "distinct (map qa_Account as)"
  shows "frame B {QuotaCounterBucket} s t \<and> (\<forall>d key. amt B t d key = amt B s d key +
      (if \<exists>a \<in> set as. key = counterKey (qa_Account a) w then sign * weigh d e else 0))"
  using assms
proof (induction as arbitrary: s)
  case Nil
  then show ?case by simp
next
  case (Cons a as)
  obtain s1 where one: "applyQuotaCounter B (qa_Account a) w e sign s = Inr ((), s1)"
    and rest: "forT as (\<lambda>a. applyQuotaCounter B (qa_Account a) w e sign) s1 = Inr (u, t)"
    using Cons.prems(1) by (auto simp: thenT_Inr)
  note o = applyQuotaCounter_Inr[OF one Cons.prems(2)]
  have d: "distinct (map qa_Account as)" using Cons.prems(3) by simp
  note IH = Cons.IH[OF rest Cons.prems(2) d]
  have ex: "(\<exists>b \<in> set (a # as). key = counterKey (qa_Account b) w) \<longleftrightarrow>
      key = counterKey (qa_Account a) w \<or> (\<exists>b \<in> set as. key = counterKey (qa_Account b) w)" for key by auto
  have no: "\<not> (\<exists>b \<in> set as. counterKey (qa_Account a) w = counterKey (qa_Account b) w)"
    using Cons.prems(3) by (auto simp: counterKey_def)
  have fr: "frame B {QuotaCounterBucket} s t" using o(1) IH by (blast intro: frame_trans)
  have "amt B t d key = amt B s d key + (if \<exists>b \<in> set (a # as). key = counterKey (qa_Account b) w then sign * weigh d e else 0)" for d key
    unfolding ex using IH o(2)[of d key] no by auto
  then show ?case using fr by blast
qed

end

section \<open>Keys\<close>

text \<open>Names without a NUL: the keys of accounts and requests, and the windows.\<close>

definition plain :: "string \<Rightarrow> bool" where
  "plain k \<longleftrightarrow> CHR 0x00 \<notin> set k"

lemma validKey_plain: "validKey k \<Longrightarrow> plain k"
  by (auto simp: validKey_def plain_def list_all_iff key_char_def is_digit_def is_upper_def is_lower_def)

lemma split_nul_plain: "plain k \<Longrightarrow> split_nul k = [k]"
  by (induction k) (auto simp: plain_def)

lemma split_nul_cut: "plain k \<Longrightarrow> split_nul (k @ CHR 0x00 # r) = k # split_nul r"
  by (induction k) (auto simp: plain_def)

definition ckey :: "int \<Rightarrow> string \<Rightarrow> string \<Rightarrow> string" where
  "ckey end' key rid = be64 end' @ CHR ''c'' # key @ CHR 0x00 # rid"

definition rkey :: "int \<Rightarrow> string \<Rightarrow> string" where
  "rkey end' rid = be64 end' @ CHR ''r'' # rid"

lemma expiryKey_c: "expiryKey end' CHR ''c'' (a @ [CHR 0x00] @ w @ [CHR 0x00] @ rid) = ckey end' (counterKey a w) rid"
  by (simp add: expiryKey_def ckey_def counterKey_def)

lemma expiryKey_r: "expiryKey end' CHR ''r'' rid = rkey end' rid"
  by (simp add: expiryKey_def rkey_def)

lemma plain_cut_inj:
  assumes "plain x" "plain y" "x @ CHR 0x00 # r = y @ CHR 0x00 # r'"
  shows "x = y \<and> r = r'"
  using assms
proof (induction x arbitrary: y)
  case Nil
  then show ?case by (cases y) (auto simp: plain_def)
next
  case (Cons c x)
  then show ?case by (cases y) (auto simp: plain_def)
qed

lemma counterKey_inj: "plain a \<Longrightarrow> plain a' \<Longrightarrow> counterKey a w = counterKey a' w' \<longleftrightarrow> a = a' \<and> w = w'"
  using plain_cut_inj[of a a' w w'] by (auto simp: counterKey_def)

lemma be64_inj: "int64_range x \<Longrightarrow> int64_range y \<Longrightarrow> be64 x = be64 y \<Longrightarrow> x = y"
  using be64_val_be64[of x "[]"] be64_val_be64[of y "[]"] by simp

lemma ckey_tail_inj:
  assumes "plain rid" "plain rid'" "key @ CHR 0x00 # rid = key' @ CHR 0x00 # rid'"
  shows "key = key' \<and> rid = rid'"
proof -
  have "rev rid @ CHR 0x00 # rev key = rev rid' @ CHR 0x00 # rev key'"
    using arg_cong[OF assms(3), of rev] by simp
  moreover have "plain (rev rid)" "plain (rev rid')" using assms(1,2) by (simp_all add: plain_def)
  ultimately have "rev rid = rev rid' \<and> rev key = rev key'" by (rule plain_cut_inj[rotated 2])
  then show ?thesis by simp
qed

lemma ckey_inj:
  assumes "plain rid" "plain rid'" "ckey x key rid = ckey x' key' rid'"
  shows "be64 x = be64 x'" "key = key'" "rid = rid'"
proof -
  have l: "length (be64 x) = length (be64 x')" by simp
  have e: "be64 x = be64 x'" "key @ CHR 0x00 # rid = key' @ CHR 0x00 # rid'"
    using assms(3) l unfolding ckey_def by (simp_all add: append_eq_append_conv)
  show "be64 x = be64 x'" by (rule e(1))
  show "key = key'" "rid = rid'" using ckey_tail_inj[OF assms(1,2) e(2)] by simp_all
qed

lemma ckey_rkey [simp]: "ckey x key rid \<noteq> rkey y rid'" "rkey y rid' \<noteq> ckey x key rid"
proof -
  have l: "length (be64 x) = length (be64 y)" by simp
  show "ckey x key rid \<noteq> rkey y rid'" unfolding ckey_def rkey_def using l by (simp add: append_eq_append_conv)
  then show "rkey y rid' \<noteq> ckey x key rid" by simp
qed

lemma ckey_parts: "ckey x key rid ! 8 = CHR ''c''" "drop 9 (ckey x key rid) = key @ CHR 0x00 # rid"
  "int64_range x \<Longrightarrow> be64_val (ckey x key rid) = x" "length (ckey x key rid) \<ge> 10"
proof -
  show "ckey x key rid ! 8 = CHR ''c''" by (simp add: ckey_def nth_append)
  show "drop 9 (ckey x key rid) = key @ CHR 0x00 # rid" by (simp add: ckey_def)
  show "int64_range x \<Longrightarrow> be64_val (ckey x key rid) = x" unfolding ckey_def by (rule be64_val_be64)
  show "length (ckey x key rid) \<ge> 10" by (simp add: ckey_def)
qed

lemma rkey_parts: "rkey x rid ! 8 = CHR ''r''" "drop 9 (rkey x rid) = rid"
  "int64_range x \<Longrightarrow> be64_val (rkey x rid) = x"
proof -
  show "rkey x rid ! 8 = CHR ''r''" by (simp add: rkey_def nth_append)
  show "drop 9 (rkey x rid) = rid" by (simp add: rkey_def)
  show "int64_range x \<Longrightarrow> be64_val (rkey x rid) = x" unfolding rkey_def by (rule be64_val_be64)
qed

lemma list_less_same: "(xs::string) @ ys < xs @ zs \<longleftrightarrow> ys < zs"
  by (induction xs) auto

text \<open>The entries of the counters of a request come before the entry of its receipt.\<close>

lemma ckey_before_rkey:
  assumes "0 \<le> x" "x \<le> y" "int64_range x" "int64_range y"
  shows "ckey x key rid < rkey y rid'"
proof (cases "x = y")
  case True
  then show ?thesis by (simp add: ckey_def rkey_def list_less_same)
next
  case False
  then show ?thesis unfolding ckey_def rkey_def using assms by (intro be64_prefix_less) auto
qed

section \<open>The projection of a settled receipt\<close>

text \<open>The counters a receipt has in a list of windows at an instant, and their expiry entries.\<close>

definition live_keys :: "quota_receipt \<Rightarrow> int \<Rightarrow> (string \<times> int) list \<Rightarrow> string set" where
  "live_keys e instant ws =
     {counterKey (qa_Account a) w |a w end'. a \<in> set (qr_Accounts e) \<and> (w, end') \<in> set ws \<and> instant < end'}"

definition live_entries :: "quota_receipt \<Rightarrow> int \<Rightarrow> (string \<times> int) list \<Rightarrow> string set" where
  "live_entries e instant ws =
     {ckey end' (counterKey (qa_Account a) w) (qr_RequestID e) |a w end'.
        a \<in> set (qr_Accounts e) \<and> (w, end') \<in> set ws \<and> instant < end'}"

definition latest_end :: "quota_receipt \<Rightarrow> int" where
  "latest_end e = foldl max (qr_MonthEnd e) (map snd (quotaWindowEnds e))"

lemma latest_end_ge: "(w, end') \<in> set (quotaWindowEnds e) \<Longrightarrow> end' \<le> latest_end e" "qr_MonthEnd e \<le> latest_end e"
  by (auto simp: quotaWindowEnds_def latest_end_def)

lemma window_names: "w \<in> {''minute'', ''five_hours'', ''seven_days''} \<Longrightarrow> w \<noteq> monthWindow x \<and> w \<noteq> ''active'' \<and> plain w"
  by (auto simp: monthWindow_def plain_def)

lemma month_name: "monthWindow x \<noteq> ''active''" "plain (monthWindow x)"
proof -
  have "list_all (\<lambda>c. is_digit c \<or> c = CHR ''-'') (int_digits x)"
    using nat_digits_all by (auto simp: int_digits_def list_all_iff)
  then have "CHR 0x00 \<notin> set (int_digits x)" by (auto simp: list_all_iff is_digit_def)
  then show "plain (monthWindow x)" by (simp add: monthWindow_def plain_def)
  show "monthWindow x \<noteq> ''active''" by (simp add: monthWindow_def)
qed

lemma windows_distinct: "distinct (map fst (quotaWindowEnds e))"
  by (simp add: quotaWindowEnds_def monthWindow_def)

lemma window_plain: "(w, end') \<in> set (quotaWindowEnds e) \<Longrightarrow> plain w \<and> w \<noteq> ''active''"
  using month_name window_names by (auto simp: quotaWindowEnds_def)

definition accounts_plain :: "quota_receipt \<Rightarrow> bool" where
  "accounts_plain e \<longleftrightarrow> distinct (map qa_Account (qr_Accounts e)) \<and> (\<forall>a \<in> set (qr_Accounts e). plain (qa_Account a))"

context bolt
begin

lemma project_account_ckey:
  "project_account B e w end' a = thenT (applyQuotaCounter B (qa_Account a) w e 1)
     (putB B QuotaExpiryBucket (ckey end' (counterKey (qa_Account a) w) (qr_RequestID e)) (Bytes []))"
  unfolding project_account_def expiryKey_c ..

lemma project_accounts_Inr:
  assumes "forT as (project_account B e w end') s = Inr (u, t)" "distinct (map qa_Account as)"
  shows "frame B {QuotaCounterBucket, QuotaExpiryBucket} s t \<and>
    (\<forall>d key. amt B t d key = amt B s d key + (if \<exists>a \<in> set as. key = counterKey (qa_Account a) w then weigh d e else 0)) \<and>
    dom (ent B t QuotaExpiryBucket) = dom (ent B s QuotaExpiryBucket) \<union>
      {ckey end' (counterKey (qa_Account a) w) (qr_RequestID e) |a. a \<in> set as}"
  using assms
proof (induction as arbitrary: s)
  case Nil
  then show ?case by simp
next
  case (Cons a as)
  obtain s2 where one: "project_account B e w end' a s = Inr ((), s2)"
    and rest: "forT as (project_account B e w end') s2 = Inr (u, t)"
    using Cons.prems(1) by (auto simp: thenT_Inr)
  obtain s1 where ap: "applyQuotaCounter B (qa_Account a) w e 1 s = Inr ((), s1)"
    and pu: "putB B QuotaExpiryBucket (ckey end' (counterKey (qa_Account a) w) (qr_RequestID e)) (Bytes []) s1 = Inr ((), s2)"
    using one unfolding project_account_ckey by (auto simp: thenT_Inr)
  note o = applyQuotaCounter_Inr[OF ap] and p = putB_frame[OF pu]
  have d: "distinct (map qa_Account as)" using Cons.prems(2) by simp
  note IH = Cons.IH[OF rest d]
  have f1: "frame B {QuotaCounterBucket, QuotaExpiryBucket} s s2" using o(1) p by (auto intro: frame_trans)
  have fr: "frame B {QuotaCounterBucket, QuotaExpiryBucket} s t" using f1 IH by (blast intro: frame_trans)
  have am: "amt B s2 d key = amt B s d key + (if key = counterKey (qa_Account a) w then weigh d e else 0)" for d key
    using o(2)[of d key] p amt_apart[OF apart_frame, of B "{QuotaExpiryBucket}" s1 s2 d key] by simp
  have no: "\<not> (\<exists>b \<in> set as. counterKey (qa_Account a) w = counterKey (qa_Account b) w)"
    using Cons.prems(2) by (auto simp: counterKey_def)
  have "amt B t d key = amt B s d key + (if \<exists>b \<in> set (a # as). key = counterKey (qa_Account b) w then weigh d e else 0)" for d key
    using IH am[of d key] no by auto
  moreover have "dom (ent B s2 QuotaExpiryBucket) =
      insert (ckey end' (counterKey (qa_Account a) w) (qr_RequestID e)) (dom (ent B s QuotaExpiryBucket))"
    using p frame_ent[OF o(1), of QuotaExpiryBucket] by simp
  ultimately show ?case using fr IH by auto
qed

lemma project_windows_Inr:
  assumes "foldT (project_window B e instant) ws latest s = Inr (m, t)" "distinct (map fst ws)" "accounts_plain e"
  shows "frame B {QuotaCounterBucket, QuotaExpiryBucket} s t \<and>
    (\<forall>d key. amt B t d key = amt B s d key + (if key \<in> live_keys e instant ws then weigh d e else 0)) \<and>
    dom (ent B t QuotaExpiryBucket) = dom (ent B s QuotaExpiryBucket) \<union> live_entries e instant ws \<and>
    m = foldl max latest (map snd ws)"
  using assms
proof (induction ws arbitrary: s latest)
  case Nil
  then show ?case by (simp add: live_keys_def live_entries_def)
next
  case (Cons x ws)
  obtain w end' where x: "x = (w, end')" by fastforce
  let ?as = "qr_Accounts e"
  obtain m1 s1 where one: "project_window B e instant x latest s = Inr (m1, s1)"
    and rest: "foldT (project_window B e instant) ws m1 s1 = Inr (m, t)"
    using Cons.prems(1) by (auto simp: bindT_Inr)
  have dw: "distinct (map fst ws)" "w \<notin> fst ` set ws" using Cons.prems(2) by (simp_all add: x)
  note IH = Cons.IH[OF rest dw(1) Cons.prems(3)]
  have m1: "m1 = max latest end'"
    using one by (auto simp: project_window_def x thenT_Inr split: if_splits)
  show ?case
  proof (cases "end' \<le> instant")
    case True
    then have "s1 = s" using one by (auto simp: project_window_def x split: if_splits)
    moreover have "live_keys e instant (x # ws) = live_keys e instant ws" "live_entries e instant (x # ws) = live_entries e instant ws"
      using True unfolding live_keys_def live_entries_def x by auto
    ultimately show ?thesis using IH m1 by (simp add: x)
  next
    case False
    then have fo: "forT ?as (project_account B e w end') s = Inr ((), s1)"
      using one by (auto simp: project_window_def x thenT_Inr split: if_splits)
    have "distinct (map qa_Account ?as)" using Cons.prems(3) by (simp add: accounts_plain_def)
    note P = project_accounts_Inr[OF fo this]
    have lk: "live_keys e instant (x # ws) = {counterKey (qa_Account a) w |a. a \<in> set ?as} \<union> live_keys e instant ws"
      using False unfolding live_keys_def x by auto (metis not_le)+
    have le: "live_entries e instant (x # ws) = {ckey end' (counterKey (qa_Account a) w) (qr_RequestID e) |a. a \<in> set ?as} \<union> live_entries e instant ws"
      using False unfolding live_entries_def x by auto (metis not_le)+
    have dis: "counterKey (qa_Account a) w \<notin> live_keys e instant ws" if a: "a \<in> set ?as" for a
      using Cons.prems(3) a dw(2) unfolding live_keys_def accounts_plain_def by (auto simp: counterKey_inj) (metis fst_conv imageI)
    have fr: "frame B {QuotaCounterBucket, QuotaExpiryBucket} s t" using P IH by (blast intro: frame_trans)
    have "amt B t d key = amt B s d key + (if key \<in> live_keys e instant (x # ws) then weigh d e else 0)" for d key
      unfolding lk using P IH dis by auto
    moreover have "dom (ent B t QuotaExpiryBucket) = dom (ent B s QuotaExpiryBucket) \<union> live_entries e instant (x # ws)"
      unfolding le using P IH by auto
    ultimately show ?thesis using fr IH m1 by (simp add: x)
  qed
qed

lemma projectTerminalQuota_Inr:
  assumes "projectTerminalQuota B e instant s = Inr (u, t)" "accounts_plain e"
  shows "frame B {QuotaCounterBucket, QuotaExpiryBucket} s t"
    "amt B t d key = amt B s d key + (if key \<in> live_keys e instant (quotaWindowEnds e) then weigh d e else 0)"
    "dom (ent B t QuotaExpiryBucket) = insert (rkey (latest_end e) (qr_RequestID e))
       (dom (ent B s QuotaExpiryBucket) \<union> live_entries e instant (quotaWindowEnds e))"
proof -
  obtain m s1 where fo: "foldT (project_window B e instant) (quotaWindowEnds e) (qr_MonthEnd e) s = Inr (m, s1)"
    and pu: "putB B QuotaExpiryBucket (rkey m (qr_RequestID e)) (Bytes []) s1 = Inr (u, t)"
    using assms(1) by (auto simp: projectTerminalQuota_def bindT_Inr expiryKey_r)
  note P = project_windows_Inr[OF fo windows_distinct assms(2)] and p = putB_frame[OF pu]
  have m: "m = latest_end e" using P by (simp add: latest_end_def)
  show "frame B {QuotaCounterBucket, QuotaExpiryBucket} s t" using P p by (auto intro: frame_trans)
  show "amt B t d key = amt B s d key + (if key \<in> live_keys e instant (quotaWindowEnds e) then weigh d e else 0)"
    using P p amt_apart[OF apart_frame, of B "{QuotaExpiryBucket}" s1 t d key] by simp
  show "dom (ent B t QuotaExpiryBucket) = insert (rkey (latest_end e) (qr_RequestID e))
       (dom (ent B s QuotaExpiryBucket) \<union> live_entries e instant (quotaWindowEnds e))"
    using P p m by auto
qed

end

end
