(* ===== verification/Journal_Inv.thy ===== *)
theory Journal_Inv
  imports Tx_Frames
begin

text \<open>
  The journal of facts, seen from outside and its invariant. \<open>facts B s\<close> is the abstract journal: a
  map from identifiers to facts that are held (pending) or final (ready). \<open>journal_ok\<close> is the
  invariant of a journal opened with the configuration \<open>q\<close>; every operation of \<open>queue.go\<close>,
  \<open>limits.go\<close> and the quota files keeps it, and acts on the abstract journal as one simple step.
\<close>

section \<open>The abstract journal\<close>

datatype fact_state = Held string | Final string

definition facts :: "'s bolt \<Rightarrow> 's \<Rightarrow> string \<Rightarrow> fact_state option" where
  "facts B s k =
     (case ent B s ReadyBucket k of
        Some v \<Rightarrow> Some (Final (bytes_of v))
      | None \<Rightarrow> map_option (\<lambda>v. Held (bytes_of v)) (ent B s PendingBucket k))"

definition stored_ok :: "queue \<Rightarrow> string \<Rightarrow> stored \<Rightarrow> bool" where
  "stored_ok q k v \<longleftrightarrow> validKey k \<and> (\<exists>p. v = Bytes p \<and> p \<noteq> [] \<and> int (length p) \<le> q_maxPayload q)"

definition facts_ok :: "queue \<Rightarrow> 's bolt \<Rightarrow> 's \<Rightarrow> bool" where
  "facts_ok q B s \<longleftrightarrow>
     has B s PendingBucket \<and> has B s ReadyBucket \<and>
     dom (ent B s PendingBucket) \<inter> dom (ent B s ReadyBucket) = {} \<and>
     dom (ent B s LeaseBucket) \<subseteq> dom (ent B s PendingBucket) \<and>
     int (card (dom (ent B s PendingBucket)) + card (dom (ent B s ReadyBucket))) \<le> q_capacity q \<and>
     (\<forall>k v. ent B s PendingBucket k = Some v \<longrightarrow> stored_ok q k v) \<and>
     (\<forall>k v. ent B s ReadyBucket k = Some v \<longrightarrow> stored_ok q k v)"

definition journal_ok :: "queue \<Rightarrow> 's bolt \<Rightarrow> 's \<Rightarrow> bool" where
  "journal_ok q B s \<longleftrightarrow> rpm_ok B s \<and> lease_ok B s \<and> clock_ok B s \<and> facts_ok q B s"

text \<open>What an admission guarantees of a limit: the events and the leases of its account stay within it;
  and \<open>recent\<close>: the events are those of the last minute.\<close>

definition stays_within :: "'s bolt \<Rightarrow> 's \<Rightarrow> limit \<Rightarrow> bool" where
  "stays_within B s l \<longleftrightarrow>
     (\<forall>r. lim_RPM l = Some r \<longrightarrow> int (card (rpm_of B s (lim_Account l))) \<le> r) \<and>
     (\<forall>c. lim_Concurrency l = Some c \<longrightarrow> int (card (leases_of B s (lim_Account l))) \<le> c)"

definition recent :: "'s bolt \<Rightarrow> 's \<Rightarrow> bool" where
  "recent B s \<longleftrightarrow>
     (\<forall>k \<in> dom (ent B s RpmBucket). clock_of B s - minute_ns < be64_val k \<and> be64_val k \<le> clock_of B s)"

section \<open>Frames of the invariants\<close>

lemma cnt_apart: "apart B bs s t \<Longrightarrow> b \<notin> bs \<Longrightarrow> cnt B t b = cnt B s b"
  by (simp add: cnt_def apart_same fun_eq_iff)

lemma rpm_ok_apart: "rpm_ok B s \<Longrightarrow> apart B bs s t \<Longrightarrow> RpmBucket \<notin> bs \<Longrightarrow> RpmCountBucket \<notin> bs \<Longrightarrow> rpm_ok B t"
  by (simp add: rpm_ok_def rpm_of_def cnt_apart[of B bs s t] apart_same[of B bs s t])

lemma lease_ok_apart: "lease_ok B s \<Longrightarrow> apart B bs s t \<Longrightarrow> LeaseBucket \<notin> bs \<Longrightarrow> ActiveCountBucket \<notin> bs \<Longrightarrow> lease_ok B t"
  by (simp add: lease_ok_def leases_of_def cnt_apart[of B bs s t] apart_same[of B bs s t])

lemma clock_of_apart: "apart B bs s t \<Longrightarrow> LimitMetaBucket \<notin> bs \<Longrightarrow> clock_of B t = clock_of B s"
  by (simp add: clock_of_def apart_same)

lemma clock_ok_apart: "clock_ok B s \<Longrightarrow> apart B bs s t \<Longrightarrow> LimitMetaBucket \<notin> bs \<Longrightarrow> RpmBucket \<notin> bs \<Longrightarrow> clock_ok B t"
  by (simp add: clock_ok_def clock_of_apart[of B bs s t] apart_same[of B bs s t])

lemma facts_ok_apart:
  "facts_ok q B s \<Longrightarrow> apart B bs s t \<Longrightarrow> PendingBucket \<notin> bs \<Longrightarrow> ReadyBucket \<notin> bs \<Longrightarrow> LeaseBucket \<notin> bs \<Longrightarrow> facts_ok q B t"
  by (simp add: facts_ok_def apart_same[of B bs s t])

lemma stays_within_apart: "apart B bs s t \<Longrightarrow> RpmBucket \<notin> bs \<Longrightarrow> LeaseBucket \<notin> bs \<Longrightarrow> stays_within B t l = stays_within B s l"
  by (simp add: stays_within_def rpm_of_def leases_of_def apart_same[of B bs s t])

lemma recent_apart: "apart B bs s t \<Longrightarrow> RpmBucket \<notin> bs \<Longrightarrow> LimitMetaBucket \<notin> bs \<Longrightarrow> recent B t = recent B s"
  by (simp add: recent_def clock_of_apart[of B bs s t] apart_same[of B bs s t])

lemma admits_apart:
  "apart B bs s t \<Longrightarrow> RpmCountBucket \<notin> bs \<Longrightarrow> ActiveCountBucket \<notin> bs \<Longrightarrow> admits B t l = admits B s l"
  by (simp add: admits_def cnt_apart[of B bs s t])

lemma facts_cong:
  "ent B t ReadyBucket = ent B s ReadyBucket \<Longrightarrow> ent B t PendingBucket = ent B s PendingBucket \<Longrightarrow> facts B t = facts B s"
  by (auto simp: facts_def split: option.splits)

lemma facts_apart: "apart B bs s t \<Longrightarrow> PendingBucket \<notin> bs \<Longrightarrow> ReadyBucket \<notin> bs \<Longrightarrow> facts B t = facts B s"
  using apart_same(2)[of B bs s t ReadyBucket] apart_same(2)[of B bs s t PendingBucket]
  by (auto simp: facts_def split: option.splits)

text \<open>The buckets the invariant reads.\<close>

definition core :: "bucket set" where
  "core = {PendingBucket, ReadyBucket, RpmBucket, LeaseBucket, RpmCountBucket, ActiveCountBucket, LimitMetaBucket}"

lemma QB_core: "set quotaBuckets \<inter> core = {}"
  by (simp add: quotaBuckets_def core_def)

lemma journal_ok_apart: "journal_ok q B s \<Longrightarrow> apart B bs s t \<Longrightarrow> bs \<inter> core = {} \<Longrightarrow> journal_ok q B t"
  unfolding journal_ok_def
  by (intro conjI; elim conjE)
     (rule rpm_ok_apart lease_ok_apart clock_ok_apart facts_ok_apart, assumption, assumption, (auto simp: core_def)[1], (auto simp: core_def)[1], (auto simp: core_def)?)+

lemma facts_apart_core: "apart B bs s t \<Longrightarrow> bs \<inter> core = {} \<Longrightarrow> facts B t = facts B s"
  by (rule facts_apart) (auto simp: core_def)

context bolt
begin

lemma update_apart: "update B f s = (Inr a, u) \<Longrightarrow> \<exists>t. f s = Inr (a, t) \<and> apart B {} t u"
  by (erule update_Inr) (auto simp: apart_def)

section \<open>The clock\<close>

lemma logicalLimitTime_ok:
  assumes "logicalLimitTime B now s = Inr (instant, t)" "journal_ok q B s" "int64_range now"
  shows "journal_ok q B t" "facts B t = facts B s" "clock_of B t = instant" "clock_of B s \<le> clock_of B t"
    "0 < instant" "now \<le> instant" "int64_range instant" "frame B {LimitMetaBucket} s t"
proof -
  have c: "clock_ok B s" using assms(2) by (simp add: journal_ok_def)
  note l = logicalLimitTime_Inr[OF assms(1) c assms(3)]
  note a = apart_frame[OF l(6)]
  show "journal_ok q B t" using assms(2) l(8)
    by (auto simp: journal_ok_def intro: rpm_ok_apart[OF _ a] lease_ok_apart[OF _ a] facts_ok_apart[OF _ a])
  show "facts B t = facts B s" by (rule facts_apart[OF a]) simp_all
  show "clock_of B t = instant" "clock_of B s \<le> clock_of B t" "0 < instant" "now \<le> instant"
    "int64_range instant" "frame B {LimitMetaBucket} s t" using l by simp_all
qed

lemma put_meta_ok:
  assumes "putB B LimitMetaBucket k v s = Inr (u, t)" "k \<noteq> ''clock''" "journal_ok q B s"
  shows "journal_ok q B t" "facts B t = facts B s" "clock_of B t = clock_of B s"
proof -
  note p = putB_frame[OF assms(1)]
  have a: "apart B {LimitMetaBucket} s t" using p by (intro apart_frame) simp
  have c: "clock_of B t = clock_of B s" using p assms(2) by (simp add: clock_of_def)
  have "clock_ok B t" using assms(3) p assms(2) apart_same[OF a, of RpmBucket] frame_has[of B "{LimitMetaBucket}" s t]
    by (simp add: journal_ok_def clock_ok_def c)
  then show "journal_ok q B t" using assms(3)
    by (auto simp: journal_ok_def intro: rpm_ok_apart[OF _ a] lease_ok_apart[OF _ a] facts_ok_apart[OF _ a])
  show "facts B t = facts B s" by (rule facts_apart[OF a]) simp_all
  show "clock_of B t = clock_of B s" by (rule c)
qed

text \<open>An operation either fails and changes nothing, or its transaction is committed.\<close>

lemma op_cases:
  assumes "update B f s = (r, u)"
  obtains (fails) e where "r = Inl e" "u = s"
    | (commits) a t where "r = Inr a" "f s = Inr (a, t)" "apart B {} t u"
proof (cases r)
  case (Inl e)
  then show thesis using fails update_Inl assms by metis
next
  case (Inr a)
  then obtain t where "f s = Inr (a, t)" "apart B {} t u" using update_apart assms by metis
  then show thesis using commits Inr by blast
qed

lemma guarded_cases:
  assumes "guarded ok err (update B f) s = (r, u)"
  obtains (fails) e where "r = Inl e" "u = s"
    | (commits) a t where "ok" "r = Inr a" "f s = Inr (a, t)" "apart B {} t u"
  using assms by (cases ok) (auto simp: guarded_def elim: op_cases)

lemma commit_ok: "apart B {} t u \<Longrightarrow> journal_ok q B u \<longleftrightarrow> journal_ok q B t"
  using journal_ok_apart[of q B t "{}" u] journal_ok_apart[of q B u "{}" t] by (auto simp: apart_def)

lemma commit_same: "apart B {} t u \<Longrightarrow> facts B u = facts B t \<and> clock_of B u = clock_of B t"
  by (simp add: facts_apart clock_of_apart)

section \<open>The facts\<close>

lemma facts_dom: "dom (facts B s) = dom (ent B s PendingBucket) \<union> dom (ent B s ReadyBucket)"
  by (auto simp: facts_def split: option.splits)

lemma facts_card:
  assumes "facts_ok q B s"
  shows "card (dom (facts B s)) = card (dom (ent B s PendingBucket)) + card (dom (ent B s ReadyBucket))"
  unfolding facts_dom using assms finite_ent by (intro card_Un_disjoint) (auto simp: facts_ok_def)

lemma facts_held: "facts_ok q B s \<Longrightarrow> facts B s k = Some (Held p) \<longleftrightarrow> ent B s PendingBucket k = Some (Bytes p)"
  unfolding facts_ok_def facts_def stored_ok_def
  by (elim conjE, cases "ent B s ReadyBucket k"; cases "ent B s PendingBucket k") (auto, fastforce+)

lemma facts_final: "facts_ok q B s \<Longrightarrow> facts B s k = Some (Final p) \<longleftrightarrow> ent B s ReadyBucket k = Some (Bytes p)"
  unfolding facts_ok_def facts_def stored_ok_def
  by (elim conjE, cases "ent B s ReadyBucket k"; cases "ent B s PendingBucket k") (auto, fastforce+)

text \<open>A pending fact is written: a new one within the capacity, or the fallback of a held one.\<close>

lemma put_pending_ok:
  assumes "putB B PendingBucket rid (Bytes payload) s = Inr (u, t)" "valid_entry q rid payload"
    and "facts_ok q B s" "ent B s ReadyBucket rid = None"
    and "ent B s PendingBucket rid = None \<Longrightarrow>
      int (card (dom (ent B s PendingBucket)) + card (dom (ent B s ReadyBucket))) < q_capacity q"
  shows "facts_ok q B t" "facts B t = (facts B s)(rid \<mapsto> Held payload)" "apart B {PendingBucket} s t"
proof -
  note p = putB_frame[OF assms(1)]
  show a: "apart B {PendingBucket} s t" using p by (intro apart_frame) simp
  have pe: "ent B t PendingBucket = (ent B s PendingBucket)(rid \<mapsto> Bytes payload)" using p by simp
  have re: "ent B t ReadyBucket = ent B s ReadyBucket" "ent B t LeaseBucket = ent B s LeaseBucket"
    using apart_same(2)[OF a] by simp_all
  have h: "has B t b = has B s b" for b using p frame_has[of B "{PendingBucket}" s t] by simp
  have fin: "finite (dom (ent B s PendingBucket))" using assms(3) finite_ent by (simp add: facts_ok_def)
  have card: "int (card (dom (ent B t PendingBucket)) + card (dom (ent B s ReadyBucket))) \<le> q_capacity q"
  proof (cases "ent B s PendingBucket rid")
    case None
    then have "card (dom (ent B t PendingBucket)) = Suc (card (dom (ent B s PendingBucket)))"
      using fin by (simp add: pe domIff)
    then show ?thesis using assms(5)[OF None] by simp
  next
    case (Some v)
    then have "dom (ent B t PendingBucket) = dom (ent B s PendingBucket)" by (auto simp: pe)
    then show ?thesis using assms(3) by (simp add: facts_ok_def)
  qed
  have new: "stored_ok q rid (Bytes payload)" using assms(2) by (auto simp: valid_entry_def stored_ok_def)
  show "facts_ok q B t"
    using assms(3,4) card new unfolding facts_ok_def re h by (auto simp: pe split: if_splits)
  show "facts B t = (facts B s)(rid \<mapsto> Held payload)"
    using assms(4) by (auto simp: facts_def re pe fun_eq_iff split: option.splits)
qed

lemma put_pending_journal:
  assumes "putB B PendingBucket rid (Bytes payload) s = Inr (u, t)" "valid_entry q rid payload"
    and "journal_ok q B s" "ent B s ReadyBucket rid = None"
    and "ent B s PendingBucket rid = None \<Longrightarrow>
      int (card (dom (ent B s PendingBucket)) + card (dom (ent B s ReadyBucket))) < q_capacity q"
  shows "journal_ok q B t" "facts B t = (facts B s)(rid \<mapsto> Held payload)" "clock_of B t = clock_of B s"
proof -
  have f: "facts_ok q B s" using assms(3) by (simp add: journal_ok_def)
  have p: "facts_ok q B t" "facts B t = (facts B s)(rid \<mapsto> Held payload)" "apart B {PendingBucket} s t"
    using put_pending_ok[OF assms(1,2) f assms(4)] assms(5) by blast+
  show "journal_ok q B t" using assms(3) p(1)
    by (auto simp: journal_ok_def intro: rpm_ok_apart[OF _ p(3)] lease_ok_apart[OF _ p(3)] clock_ok_apart[OF _ p(3)])
  show "facts B t = (facts B s)(rid \<mapsto> Held payload)" by (fact p(2))
  show "clock_of B t = clock_of B s" by (rule clock_of_apart[OF p(3)]) simp
qed

lemma Reserve_ok:
  assumes "Reserve q B rid fallback s = (r, t)" "journal_ok q B s"
  shows "journal_ok q B t \<and> (case r of Inl e \<Rightarrow> t = s | Inr _ \<Rightarrow>
      rid \<notin> dom (facts B s) \<and> int (card (dom (facts B s))) < q_capacity q \<and>
      facts B t = (facts B s)(rid \<mapsto> Held fallback) \<and> clock_of B t = clock_of B s)"
proof -
  have f: "facts_ok q B s" using assms(2) by (simp add: journal_ok_def)
  from assms(1) show ?thesis unfolding Reserve_def
  proof (cases rule: guarded_cases)
    case (commits a t')
    then have pu: "putB B PendingBucket rid (Bytes fallback) s = Inr (a, t')"
      and n: "ent B s PendingBucket rid = None" "ent B s ReadyBucket rid = None"
      and c: "int (card (dom (ent B s PendingBucket)) + card (dom (ent B s ReadyBucket))) < q_capacity q"
      by (auto simp: tx_Inr list_length split: if_splits)
    note p = put_pending_journal[OF pu commits(1) assms(2) n(2) c]
    have "rid \<notin> dom (facts B s)" using n by (simp add: facts_dom domIff)
    then show ?thesis
      using c p commits(2,4) by (simp add: facts_card[OF f] commit_ok commit_same)
  qed (use assms(2) in simp)
qed

lemma UpdatePending_ok:
  assumes "UpdatePending q B rid fallback s = (r, t)" "journal_ok q B s"
  shows "journal_ok q B t \<and> (case r of Inl e \<Rightarrow> t = s | Inr _ \<Rightarrow>
      (\<exists>old. facts B s rid = Some (Held old)) \<and>
      facts B t = (facts B s)(rid \<mapsto> Held fallback) \<and> clock_of B t = clock_of B s)"
proof -
  have f: "facts_ok q B s" using assms(2) by (simp add: journal_ok_def)
  from assms(1) show ?thesis unfolding UpdatePending_def
  proof (cases rule: guarded_cases)
    case (commits a t')
    then have pu: "putB B PendingBucket rid (Bytes fallback) s = Inr (a, t')"
      and n: "ent B s PendingBucket rid \<noteq> None" "ent B s ReadyBucket rid = None"
      by (auto simp: tx_Inr)
    note p = put_pending_journal[OF pu commits(1) assms(2) n(2)]
    have "\<exists>old. facts B s rid = Some (Held old)" using n by (auto simp: facts_def)
    then show ?thesis using p n(1) commits(2,4) by (simp add: commit_ok commit_same)
  qed (use assms(2) in simp)
qed

text \<open>The completion of a fact, alone and inside a settlement.\<close>

lemma complete_entry_ok:
  assumes "complete_entry B rid payload s = Inr (u, t)" "valid_entry q rid payload" "journal_ok q B s"
  shows "journal_ok q B t" "clock_of B t = clock_of B s" "facts B s rid \<noteq> None"
    and "facts B t = (case facts B s rid of Some (Held _) \<Rightarrow> (facts B s)(rid \<mapsto> Final payload) | _ \<Rightarrow> facts B s)"
    and "apart B {PendingBucket, ReadyBucket, LeaseBucket, ActiveCountBucket} s t"
    and "ent B t PendingBucket = (ent B s PendingBucket)(rid := None)"
    and "ent B t ReadyBucket = (ent B s ReadyBucket)(rid \<mapsto> (case ent B s ReadyBucket rid of None \<Rightarrow> Bytes payload | Some v \<Rightarrow> v))"
proof -
  have f: "facts_ok q B s" using assms(3) by (simp add: journal_ok_def)
  have "journal_ok q B t \<and> clock_of B t = clock_of B s \<and> facts B s rid \<noteq> None \<and>
    facts B t = (case facts B s rid of Some (Held _) \<Rightarrow> (facts B s)(rid \<mapsto> Final payload) | _ \<Rightarrow> facts B s) \<and>
    apart B {PendingBucket, ReadyBucket, LeaseBucket, ActiveCountBucket} s t \<and>
    ent B t PendingBucket = (ent B s PendingBucket)(rid := None) \<and>
    ent B t ReadyBucket = (ent B s ReadyBucket)(rid \<mapsto> (case ent B s ReadyBucket rid of None \<Rightarrow> Bytes payload | Some v \<Rightarrow> v))"
  proof (cases "ent B s ReadyBucket rid")
    case (Some v)
    then have "t = s" using assms(1) by (auto simp: complete_entry_def tx_Inr)
    moreover have "facts B s rid = Some (Final (bytes_of v))" using Some by (simp add: facts_def)
    moreover have "ent B s PendingBucket rid = None" using f Some unfolding facts_ok_def by blast
    ultimately show ?thesis using assms(3) Some by (auto simp: fun_eq_iff)
  next
    case None
    obtain s1 s2 where pend: "ent B s PendingBucket rid \<noteq> None"
      and pu: "putB B ReadyBucket rid (Bytes payload) s = Inr ((), s1)"
      and rl: "releaseLimits B rid s1 = Inr ((), s2)" and de: "deleteB B PendingBucket rid s2 = Inr (u, t)"
      using assms(1) None by (auto simp: complete_entry_def tx_Inr)
    note p = putB_frame[OF pu] and d = deleteB_frame[OF de]
    have a1: "apart B {ReadyBucket} s s1" using p by (intro apart_frame) simp
    have "lease_ok B s1" using assms(3) by (auto simp: journal_ok_def intro: lease_ok_apart[OF _ a1])
    note r = releaseLimits_Inr[OF rl this]
    note a2 = apart_frame[OF r(1)]
    have a3: "apart B {PendingBucket} s2 t" using d by (intro apart_frame) simp
    have lease: "lease_ok B t" by (rule lease_ok_apart[OF r(2) a3]) simp_all
    have re: "ent B t ReadyBucket = (ent B s ReadyBucket)(rid \<mapsto> Bytes payload)"
      using p apart_same(2)[OF a2, of ReadyBucket] apart_same(2)[OF a3, of ReadyBucket] by simp
    have le: "ent B t LeaseBucket = (ent B s LeaseBucket)(rid := None)"
      using r(3) apart_same(2)[OF a1, of LeaseBucket] apart_same(2)[OF a3, of LeaseBucket] by simp
    have pe: "ent B t PendingBucket = (ent B s PendingBucket)(rid := None)"
      using d apart_same(2)[OF a1, of PendingBucket] apart_same(2)[OF a2, of PendingBucket] by simp
    have a: "apart B {PendingBucket, ReadyBucket, LeaseBucket, ActiveCountBucket} s t"
      using apart_trans[OF apart_trans[OF a1 a2] a3] by (rule apart_mono) auto
    have h: "has B t b = has B s b" for b
      using p r(1) d frame_has[of B "{ReadyBucket}" s s1] frame_has[of B "{LeaseBucket, ActiveCountBucket}" s1 s2]
        frame_has[of B "{PendingBucket}" s2 t] by simp
    have fin: "finite (dom (ent B s PendingBucket))" "finite (dom (ent B s ReadyBucket))"
      using f finite_ent by (simp_all add: facts_ok_def)
    have pos: "card (dom (ent B s PendingBucket)) > 0" using pend fin(1) by (auto simp: card_gt_0_iff)
    have "card (dom (ent B t PendingBucket)) = card (dom (ent B s PendingBucket)) - 1"
      using pend by (simp add: pe domIff)
    moreover have "card (dom (ent B t ReadyBucket)) = card (dom (ent B s ReadyBucket)) + 1"
      using None fin(2) by (simp add: re domIff)
    ultimately have card: "card (dom (ent B t PendingBucket)) + card (dom (ent B t ReadyBucket)) =
        card (dom (ent B s PendingBucket)) + card (dom (ent B s ReadyBucket))" using pos by simp
    have new: "stored_ok q rid (Bytes payload)" using assms(2) by (auto simp: valid_entry_def stored_ok_def)
    have "facts_ok q B t"
      using f new unfolding facts_ok_def card h by (auto simp: re le pe split: if_splits)
    moreover have "rpm_ok B t" "clock_ok B t"
      using assms(3) by (auto simp: journal_ok_def intro: rpm_ok_apart[OF _ a] clock_ok_apart[OF _ a])
    moreover have held: "\<exists>o'. facts B s rid = Some (Held o')" using None pend by (auto simp: facts_def)
    moreover have "facts B t = (facts B s)(rid \<mapsto> Final payload)"
      using None by (auto simp: facts_def re pe fun_eq_iff split: option.splits)
    ultimately show ?thesis using lease a None re pe by (auto simp: journal_ok_def clock_of_apart[OF a])
  qed
  then show "journal_ok q B t" "clock_of B t = clock_of B s" "facts B s rid \<noteq> None"
    "facts B t = (case facts B s rid of Some (Held _) \<Rightarrow> (facts B s)(rid \<mapsto> Final payload) | _ \<Rightarrow> facts B s)"
    "apart B {PendingBucket, ReadyBucket, LeaseBucket, ActiveCountBucket} s t"
    "ent B t PendingBucket = (ent B s PendingBucket)(rid := None)"
    "ent B t ReadyBucket = (ent B s ReadyBucket)(rid \<mapsto> (case ent B s ReadyBucket rid of None \<Rightarrow> Bytes payload | Some v \<Rightarrow> v))"
    by blast+
qed

lemma Complete_ok:
  assumes "Complete q B rid payload s = (r, t)" "journal_ok q B s"
  shows "journal_ok q B t \<and> (case r of Inl e \<Rightarrow> t = s | Inr _ \<Rightarrow>
      facts B s rid \<noteq> None \<and> clock_of B t = clock_of B s \<and>
      facts B t = (case facts B s rid of Some (Held _) \<Rightarrow> (facts B s)(rid \<mapsto> Final payload) | _ \<Rightarrow> facts B s))"
  using assms(1) unfolding Complete_def
proof (cases rule: guarded_cases)
  case (commits a t')
  then have co: "complete_entry B rid payload s = Inr (a, t')"
    by (auto simp: tx_Inr split: if_splits)
  note c = complete_entry_ok[OF co commits(1) assms(2)]
  show ?thesis using c(1-4) commits(2,4) by (simp add: commit_ok commit_same)
qed (use assms(2) in simp)

lemma Ack_ok:
  assumes "Ack B rid s = (r, t)" "journal_ok q B s"
  shows "journal_ok q B t \<and> (case r of Inl e \<Rightarrow> t = s | Inr _ \<Rightarrow> clock_of B t = clock_of B s \<and>
      facts B t = (case facts B s rid of Some (Final _) \<Rightarrow> (facts B s)(rid := None) | _ \<Rightarrow> facts B s))"
  using assms(1) unfolding Ack_def
proof (cases rule: guarded_cases)
  case (commits u t')
  have f: "facts_ok q B s" using assms(2) by (simp add: journal_ok_def)
  note d = deleteB_frame[OF commits(3)]
  have a: "apart B {ReadyBucket} s t'" using d by (intro apart_frame) simp
  have re: "ent B t' ReadyBucket = (ent B s ReadyBucket)(rid := None)" using d by simp
  have pe: "ent B t' PendingBucket = ent B s PendingBucket" "ent B t' LeaseBucket = ent B s LeaseBucket"
    using apart_same(2)[OF a] by simp_all
  have h: "has B t' b = has B s b" for b using d frame_has[of B "{ReadyBucket}" s t'] by simp
  have "card (dom (ent B t' ReadyBucket)) \<le> card (dom (ent B s ReadyBucket))"
    using f finite_ent[of s "bucket_name ReadyBucket"] unfolding re facts_ok_def by (intro card_mono) auto
  then have "facts_ok q B t'" using f unfolding facts_ok_def h pe by (auto simp: re split: if_splits)
  moreover have "rpm_ok B t'" "lease_ok B t'" "clock_ok B t'"
    using assms(2) by (auto simp: journal_ok_def intro: rpm_ok_apart[OF _ a] lease_ok_apart[OF _ a] clock_ok_apart[OF _ a])
  moreover have "facts B t' = (case facts B s rid of Some (Final _) \<Rightarrow> (facts B s)(rid := None) | _ \<Rightarrow> facts B s)"
  proof (cases "ent B s ReadyBucket rid")
    case None
    then have "ent B t' ReadyBucket = ent B s ReadyBucket" by (auto simp: re)
    then have "facts B t' = facts B s" using pe(1) by (rule facts_cong)
    then show ?thesis using None by (auto simp: facts_def split: option.splits)
  next
    case (Some v)
    then have "ent B s PendingBucket rid = None" using f unfolding facts_ok_def by blast
    then show ?thesis using Some by (auto simp: facts_def re pe fun_eq_iff split: option.splits)
  qed
  ultimately show ?thesis using commits(2) commit_ok[OF commits(4), of q] commit_same[OF commits(4)]
    by (simp add: journal_ok_def clock_of_apart[OF a])
qed (use assms(2) in simp)

section \<open>Admissions\<close>

lemma pruneLimits_ok:
  assumes "pruneLimits B instant s = Inr (u, t)" "journal_ok q B s" "clock_of B s = instant"
  shows "journal_ok q B t" "facts B t = facts B s" "clock_of B t = instant" "recent B t"
    "frame B {RpmBucket, RpmCountBucket} s t"
proof -
  have ok: "rpm_ok B s" "lease_ok B s" "clock_ok B s" "facts_ok q B s" using assms(2) by (simp_all add: journal_ok_def)
  note p = pruneLimits_Inr[OF assms(1) ok(1)]
  note a = apart_frame[OF p(2)]
  have "clock_ok B t" by (rule clock_ok_frame[OF ok(3) p(2)]) (auto simp: p(3))
  then show "journal_ok q B t" using p(1) lease_ok_apart[OF ok(2) a] facts_ok_apart[OF ok(4) a]
    by (simp add: journal_ok_def)
  show c: "clock_of B t = instant" using clock_of_apart[OF a] assms(3) by simp
  show "facts B t = facts B s" by (rule facts_apart[OF a]) simp_all
  show "recent B t"
    using \<open>clock_ok B t\<close> unfolding recent_def clock_ok_def c by (auto simp: p(3) restrict_map_def split: if_splits)
  show "frame B {RpmBucket, RpmCountBucket} s t" by (rule p(2))
qed

lemma checkLimitAdmission_ok:
  assumes "checkLimitAdmission q B rid limits now s = Inr ((instant, accounts), t)" "journal_ok q B s" "int64_range now"
  shows "journal_ok q B t" "facts B t = facts B s" "clock_of B t = instant" "recent B t"
    "rid \<notin> dom (facts B s)" "int (card (dom (facts B s))) < q_capacity q"
    "accounts = map lim_Account limits" "distinct accounts" "\<forall>l \<in> set limits. admits B t l"
    "0 < instant" "int64_range instant" "now \<le> instant" "clock_of B s \<le> instant"
    "frame B {LimitMetaBucket, RpmBucket, RpmCountBucket} s t"
    "ent B t RpmBucket = ent B s RpmBucket |` {k. instant - minute_ns < be64_val k}"
proof -
  have ok: "rpm_ok B s" "lease_ok B s" "clock_ok B s" "facts_ok q B s" using assms(2) by (simp_all add: journal_ok_def)
  note c = checkLimitAdmission_Inr[OF assms(1) ok(1,3) assms(3)]
  note a = apart_frame[OF c(13)]
  show "journal_ok q B t" using c(14,15) lease_ok_apart[OF ok(2) a] facts_ok_apart[OF ok(4) a]
    by (simp add: journal_ok_def)
  show "facts B t = facts B s" by (rule facts_apart[OF a]) simp_all
  show "clock_of B t = instant" by (rule c(16))
  show "recent B t"
    using c(15) unfolding recent_def clock_ok_def c(16) by (auto simp: c(17) restrict_map_def split: if_splits)
  show "rid \<notin> dom (facts B s)" using c(1,2) by (simp add: facts_dom domIff)
  show "int (card (dom (facts B s))) < q_capacity q" using c(5) by (simp add: facts_card[OF ok(4)])
  show "accounts = map lim_Account limits" "distinct accounts" "\<forall>l \<in> set limits. admits B t l"
    "0 < instant" "int64_range instant" "now \<le> instant" "clock_of B s \<le> instant"
    "frame B {LimitMetaBucket, RpmBucket, RpmCountBucket} s t"
    "ent B t RpmBucket = ent B s RpmBucket |` {k. instant - minute_ns < be64_val k}" by (fact c)+
qed

lemma applyLimitAdmission_ok:
  assumes "applyLimitAdmission B rid payload instant (map lim_Account limits) s = Inr (u, t)"
    and "journal_ok q B s" "clock_of B s = instant" "0 < instant" "int64_range instant" "recent B s"
    and "distinct (map lim_Account limits)" "\<forall>l \<in> set limits. admits B s l"
    and "rid \<notin> dom (facts B s)" "int (card (dom (facts B s))) < q_capacity q" "valid_entry q rid payload"
  shows "journal_ok q B t" "facts B t = (facts B s)(rid \<mapsto> Held payload)" "clock_of B t = clock_of B s"
    "recent B t" "\<forall>l \<in> set limits. stays_within B t l"
    "ent B t LeaseBucket = (ent B s LeaseBucket)(rid \<mapsto> Accounts (map lim_Account limits))"
    "frame B {RpmCountBucket, ActiveCountBucket, RpmBucket, LeaseBucket, PendingBucket} s t"
    "ent B t PendingBucket = (ent B s PendingBucket)(rid \<mapsto> Bytes payload)"
proof -
  let ?as = "map lim_Account limits"
  have ok: "rpm_ok B s" "lease_ok B s" "clock_ok B s" "facts_ok q B s" using assms(2) by (simp_all add: journal_ok_def)
  have none: "ent B s PendingBucket rid = None" "ent B s ReadyBucket rid = None"
    using assms(9) by (auto simp: facts_dom)
  then have lease: "ent B s LeaseBucket rid = None" using ok(4) unfolding facts_ok_def by blast
  have keys: "\<forall>a \<in> set ?as. validKey a" using assms(8) by (auto simp: admits_def)
  note p = applyLimitAdmission_Inr[OF assms(1,7) keys ok(1,2) lease assms(4,5) ok(3) assms(3)]
  note a = apart_frame[OF p(1)]
  have re: "ent B t ReadyBucket = ent B s ReadyBucket" by (rule apart_same(2)[OF a]) simp
  have h: "has B t b = has B s b" for b using frame_has[OF p(1)] .
  have "card (dom (ent B t PendingBucket)) = Suc (card (dom (ent B s PendingBucket)))"
    using ok(4) none(1) finite_ent[of s "bucket_name PendingBucket"] by (simp add: p(5) facts_ok_def domIff)
  then have cap: "int (card (dom (ent B t PendingBucket)) + card (dom (ent B s ReadyBucket))) \<le> q_capacity q"
    using assms(10) by (simp add: facts_card[OF ok(4)])
  have new: "stored_ok q rid (Bytes payload)" using assms(11) by (auto simp: valid_entry_def stored_ok_def)
  have "facts_ok q B t"
    using ok(4) none cap new unfolding facts_ok_def h re by (auto simp: p(5,6) split: if_splits)
  then show "journal_ok q B t" using p(2-4) by (simp add: journal_ok_def)
  show "facts B t = (facts B s)(rid \<mapsto> Held payload)"
    using none by (auto simp: facts_def re p(5) fun_eq_iff split: option.splits)
  show c: "clock_of B t = clock_of B s" by (rule clock_of_apart[OF a]) simp
  show "ent B t LeaseBucket = (ent B s LeaseBucket)(rid \<mapsto> Accounts ?as)" by (rule p(6))
  show "frame B {RpmCountBucket, ActiveCountBucket, RpmBucket, LeaseBucket, PendingBucket} s t" by (rule p(1))
  show "ent B t PendingBucket = (ent B s PendingBucket)(rid \<mapsto> Bytes payload)" by (rule p(5))
  show "\<forall>l \<in> set limits. stays_within B t l"
  proof
    fix l assume l: "l \<in> set limits"
    let ?a = "lim_Account l"
    have inA: "?a \<in> set ?as" using l by simp
    obtain n m where n: "cnt B s RpmCountBucket ?a = Some n" "\<forall>r. lim_RPM l = Some r \<longrightarrow> n < r"
      and m: "cnt B s ActiveCountBucket ?a = Some m" "\<forall>c. lim_Concurrency l = Some c \<longrightarrow> m < c"
      using assms(8) l by (auto simp: admits_def)
    have "int (card (rpm_of B s ?a)) \<le> n" using ok(1) n(1) unfolding rpm_ok_def by (metis option.inject)
    then have "int (card (rpm_of B t ?a)) \<le> n + 1" using p(7)[of ?a] inA by simp
    moreover have "cnt B t ActiveCountBucket ?a = Some (m + 1)" using p(8)[of ?a] inA m(1) by simp
    then have "int (card (leases_of B t ?a)) = m + 1" using p(3) by (simp add: lease_ok_def)
    ultimately show "stays_within B t l" using n(2) m(2) by (fastforce simp: stays_within_def)
  qed
  have "be64_val k = instant \<or> k \<in> dom (ent B s RpmBucket)" if "k \<in> dom (ent B t RpmBucket)" for k
    using that applyLimitAdmission_events[OF assms(1,7)] assms(5) by auto
  then show "recent B t" using assms(3,6) unfolding recent_def c by (fastforce simp: minute_ns_def)
qed

lemma ReserveWithLimits_ok:
  assumes "ReserveWithLimits q B rid payload limits now s = (r, t)" "journal_ok q B s" "int64_range now"
  shows "journal_ok q B t \<and> (case r of Inl e \<Rightarrow> t = s | Inr _ \<Rightarrow>
      rid \<notin> dom (facts B s) \<and> int (card (dom (facts B s))) < q_capacity q \<and>
      facts B t = (facts B s)(rid \<mapsto> Held payload) \<and>
      clock_of B s \<le> clock_of B t \<and> now \<le> clock_of B t \<and> recent B t \<and> (\<forall>l \<in> set limits. stays_within B t l) \<and>
      ent B t LeaseBucket = (ent B s LeaseBucket)(rid \<mapsto> Accounts (map lim_Account limits)))"
  using assms(1) unfolding ReserveWithLimits_def
proof (cases rule: guarded_cases)
  case (commits u t')
  then obtain instant accounts t1 where ch: "checkLimitAdmission q B rid limits now s = Inr ((instant, accounts), t1)"
    and ap: "applyLimitAdmission B rid payload instant accounts t1 = Inr (u, t')"
    by (auto simp: tx_Inr metaText_Inr reserveWithLimits_def split: if_splits)
  note c = checkLimitAdmission_ok[OF ch assms(2,3)]
  have v: "valid_entry q rid payload" using commits(1) by simp
  note ap' = ap[unfolded c(7)]
  note d = c(8)[unfolded c(7)]
  note f = c(5,6)[folded c(2)]
  note p = applyLimitAdmission_ok[OF ap' c(1,3,10,11,4) d c(9) f v]
  have le: "ent B t1 LeaseBucket = ent B s LeaseBucket" by (rule frame_ent[OF c(14)]) simp
  show ?thesis
    using p c commits(2) commit_ok[OF commits(4), of q] commit_same[OF commits(4)]
      recent_apart[OF commits(4)] stays_within_apart[OF commits(4)] apart_same(2)[OF commits(4), of LeaseBucket]
    by (simp add: le)
qed (use assms(2) in simp)

text \<open>The usage of an account counts at least its events of the last minute and exactly its leases.\<close>

lemma AccountUsage_ok:
  assumes "AccountUsage B account now s = (r, t)" "journal_ok q B s" "int64_range now"
  shows "journal_ok q B t \<and> (case r of Inl e \<Rightarrow> t = s | Inr (rpm, active) \<Rightarrow>
      facts B t = facts B s \<and> clock_of B s \<le> clock_of B t \<and> recent B t \<and>
      int (card (rpm_of B t account)) \<le> rpm \<and> active = int (card (leases_of B t account)))"
  using assms(1) unfolding AccountUsage_def
proof (cases rule: op_cases)
  case (commits u t')
  then obtain instant s1 where lt: "logicalLimitTime B now s = Inr (instant, s1)"
    and pr: "pruneLimits B instant s1 = Inr ((), t')" and u: "u = (fst u, snd u)"
    and n: "count_at (ent B t' RpmCountBucket account) = Some (fst u)"
    and m: "count_at (ent B t' ActiveCountBucket account) = Some (snd u)"
    by (auto simp: tx_Inr countValue_Inr)
  note l = logicalLimitTime_ok[OF lt assms(2,3)]
  note p = pruneLimits_ok[OF pr l(1,3)]
  have rl: "rpm_ok B t'" "lease_ok B t'" using p(1) by (simp_all add: journal_ok_def)
  have "int (card (rpm_of B t' account)) \<le> fst u"
    using rl(1) n unfolding rpm_ok_def cnt_def by (metis option.inject)
  moreover have "snd u = int (card (leases_of B t' account))" using rl(2) m by (simp add: lease_ok_def cnt_def)
  moreover have "rpm_of B t account = rpm_of B t' account" "leases_of B t account = leases_of B t' account"
    using apart_same(2)[OF commits(3)] by (simp_all add: rpm_of_def leases_of_def)
  ultimately show ?thesis
    using p l commits(1) commit_ok[OF commits(3), of q] commit_same[OF commits(3)] recent_apart[OF commits(3)]
    by (cases u) simp
qed (use assms(2) in simp)

lemma BindInstallation_ok:
  assumes "BindInstallation B identity established s = (r, t)" "journal_ok q B s"
  shows "journal_ok q B t \<and> (case r of Inl e \<Rightarrow> t = s | Inr _ \<Rightarrow> facts B t = facts B s \<and> clock_of B t = clock_of B s)"
  using assms(1) unfolding BindInstallation_def
proof (cases rule: guarded_cases)
  case (commits u t')
  have k: "''installation'' \<noteq> ''clock''" by simp
  have "t' = s \<or> putB B LimitMetaBucket ''installation'' (Bytes identity) s = Inr (u, t')"
    using commits(3) by (auto simp: tx_Inr metaText_Inr split: if_splits)
  then have "journal_ok q B t' \<and> facts B t' = facts B s \<and> clock_of B t' = clock_of B s"
    using assms(2) put_meta_ok[OF _ k, of _ s u t' q] by blast
  then show ?thesis using commits(2) commit_ok[OF commits(4), of q] commit_same[OF commits(4)] by simp
qed (use assms(2) in simp)

end

end
