(* ===== verification/Quota_Ledger.thy ===== *)
theory Quota_Ledger
  imports Quota_Sums Journal_Inv
begin

text \<open>
  The ledger: every counter is the sum of the weights of the receipts that have a share in it. A
  receipt has a share in the ''active'' counter of its accounts while it is active, and in the
  counter of a window as long as the expiry entry of that window exists. The steps the quota
  operations are made of keep the ledger balanced: activating a receipt, retiring it, projecting it
  on its windows, and pruning what has expired.
\<close>

section \<open>Receipts\<close>

definition receipts :: "'s bolt \<Rightarrow> 's \<Rightarrow> string \<Rightarrow> quota_receipt option" where
  "receipts B s rid = (case ent B s QuotaEntryBucket rid of None \<Rightarrow> None | Some v \<Rightarrow> as_receipt v)"

text \<open>A receipt that passes the check on reading, with its month in the range of the clock.\<close>

definition good_receipt :: "string \<Rightarrow> quota_receipt \<Rightarrow> bool" where
  "good_receipt rid e \<longleftrightarrow> check_receipt rid e = Inr () \<and> int64_range (qr_MonthEnd e)"

lemma account_step_Inr: "account_step a seen = Inr seen' \<longleftrightarrow>
    validKey (qa_Account a) \<and> validKey (qa_Revision a) \<and> qa_Account a \<notin> set seen \<and> seen' = qa_Account a # seen"
  by (auto simp: account_step_def)

lemma account_steps:
  "foldE account_step as seen = Inr seen' \<Longrightarrow> distinct (map qa_Account as) \<and> set (map qa_Account as) \<inter> set seen = {} \<and>
    (\<forall>a \<in> set as. validKey (qa_Account a) \<and> validKey (qa_Revision a))"
proof (induction as arbitrary: seen)
  case Nil
  then show ?case by simp
next
  case (Cons a as)
  have a: "validKey (qa_Account a)" "validKey (qa_Revision a)" "qa_Account a \<notin> set seen"
    and rest: "foldE account_step as (qa_Account a # seen) = Inr seen'"
    using Cons.prems by (auto simp: account_step_Inr bindE_Inr_iff)
  show ?case using Cons.IH[OF rest] a by auto
qed

lemma check_receipt_Inr:
  assumes "check_receipt rid e = Inr ()"
  shows "qr_RequestID e = rid" "validKey rid" "0 < qr_AdmittedAt e" "qr_AdmittedAt e \<le> max_int64 - seven_days_ns"
    "qr_AdmittedAt e < qr_MonthEnd e" "accounts_plain e" "\<forall>a \<in> set (qr_Accounts e). validKey (qa_Account a)"
    "qr_State e = ''active'' \<or> qr_State e = ''complete'' \<or> qr_State e = ''interrupted''"
proof -
  have st: "\<not> (qr_RequestID e \<noteq> rid \<or> \<not> validKey rid \<or> qr_AdmittedAt e \<le> 0 \<or> qr_AdmittedAt e > max_int64 - seven_days_ns \<or>
         qr_MonthStart e < 0 \<or> qr_MonthEnd e \<le> qr_AdmittedAt e \<or> qr_Accounts e = [] \<or> length (qr_Accounts e) > 8)"
    using assms by (auto simp: check_receipt_def split: if_splits)
  then show "qr_RequestID e = rid" "validKey rid" "0 < qr_AdmittedAt e" "qr_AdmittedAt e \<le> max_int64 - seven_days_ns"
    "qr_AdmittedAt e < qr_MonthEnd e" by auto
  obtain seen where ac: "foldE account_step (qr_Accounts e) [] = Inr seen"
    using assms st by (auto simp: check_receipt_def bindE_Inr_iff split: if_splits)
  show "accounts_plain e" "\<forall>a \<in> set (qr_Accounts e). validKey (qa_Account a)"
    using account_steps[OF ac] validKey_plain by (auto simp: accounts_plain_def)
  show "qr_State e = ''active'' \<or> qr_State e = ''complete'' \<or> qr_State e = ''interrupted''"
    using assms st unfolding check_receipt_def by (auto simp only: bindE_Inr_iff if_Inl_Inr split: if_splits)
qed

lemma good_receipt:
  assumes "good_receipt rid e"
  shows "qr_RequestID e = rid" "plain rid" "accounts_plain e"
    "(w, x) \<in> set (quotaWindowEnds e) \<Longrightarrow> 0 < x \<and> int64_range x" "int64_range (latest_end e)"
proof -
  note c = check_receipt_Inr[OF assms[unfolded good_receipt_def, THEN conjunct1]]
  have m: "int64_range (qr_MonthEnd e)" using assms by (simp add: good_receipt_def)
  show "qr_RequestID e = rid" "plain rid" "accounts_plain e" using c(1,2,6) validKey_plain by auto
  have w: "wrap64 (qr_AdmittedAt e + n) = qr_AdmittedAt e + n" if "0 < n" "n \<le> seven_days_ns" for n
    using that c(3,4) by (intro wrap64_id) (auto simp: int64_range_def max_int64_def seven_days_ns_def)
  have n: "0 < minute_ns" "minute_ns \<le> seven_days_ns" "0 < five_hours_ns" "five_hours_ns \<le> seven_days_ns" "0 < seven_days_ns"
    by (simp_all add: minute_ns_def five_hours_ns_def seven_days_ns_def)
  have a: "0 < qr_AdmittedAt e + k \<and> int64_range (qr_AdmittedAt e + k)" if "0 < k" "k \<le> seven_days_ns" for k
    using that c(3,4) by (auto simp: int64_range_def max_int64_def seven_days_ns_def)
  have ends: "0 < x \<and> int64_range x" if "(w, x) \<in> set (quotaWindowEnds e)" for w x
    using that m c(3,5) a[OF n(1,2)] a[OF n(3,4)] a[OF n(5)] by (auto simp: quotaWindowEnds_def w n)
  then show "(w, x) \<in> set (quotaWindowEnds e) \<Longrightarrow> 0 < x \<and> int64_range x" .
  show "int64_range (latest_end e)"
    using m a[OF n(1,2)] a[OF n(3,4)] a[OF n(5)] by (simp add: latest_end_def quotaWindowEnds_def w n max_def)
qed

section \<open>Shares and the balance\<close>

definition active_keys :: "quota_receipt \<Rightarrow> string set" where
  "active_keys e = (if qr_State e = ''active'' then {counterKey (qa_Account a) ''active'' |a. a \<in> set (qr_Accounts e)} else {})"

definition shares :: "'s bolt \<Rightarrow> (string \<Rightarrow> quota_receipt option) \<Rightarrow> 's \<Rightarrow> string \<Rightarrow> string set" where
  "shares B R s key =
     {rid. \<exists>e. R rid = Some e \<and> (key \<in> active_keys e \<or> (\<exists>x. ckey x key rid \<in> dom (ent B s QuotaExpiryBucket)))}"

definition sum_of :: "'s bolt \<Rightarrow> (string \<Rightarrow> quota_receipt option) \<Rightarrow> 's \<Rightarrow> dim \<Rightarrow> string \<Rightarrow> int" where
  "sum_of B R s d key = (\<Sum>rid \<in> shares B R s key. weigh d (the (R rid)))"

definition balanced :: "'s bolt \<Rightarrow> (string \<Rightarrow> quota_receipt option) \<Rightarrow> 's \<Rightarrow> bool" where
  "balanced B R s \<longleftrightarrow> (\<forall>d key. amt B s d key = sum_of B R s d key)"

text \<open>The entries a settled receipt may have.\<close>

definition entries_of :: "quota_receipt \<Rightarrow> string set" where
  "entries_of e = insert (rkey (latest_end e) (qr_RequestID e)) (live_entries e 0 (quotaWindowEnds e))"

definition expiry_ok :: "'s bolt \<Rightarrow> (string \<Rightarrow> quota_receipt option) \<Rightarrow> 's \<Rightarrow> bool" where
  "expiry_ok B R s \<longleftrightarrow>
     (\<forall>k \<in> dom (ent B s QuotaExpiryBucket). \<exists>rid e. R rid = Some e \<and> qr_State e \<noteq> ''active'' \<and> k \<in> entries_of e)"

definition ledger :: "'s bolt \<Rightarrow> (string \<Rightarrow> quota_receipt option) \<Rightarrow> 's \<Rightarrow> bool" where
  "ledger B R s \<longleftrightarrow> finite (dom R) \<and> (\<forall>rid e. R rid = Some e \<longrightarrow> good_receipt rid e) \<and> expiry_ok B R s \<and> balanced B R s"

lemma live_mono: "0 \<le> instant \<Longrightarrow> live_entries e instant ws \<subseteq> live_entries e 0 ws"
  unfolding live_entries_def by (blast intro: order_le_less_trans)

lemma ledger_entry:
  assumes "ledger B R s" "ckey x key rid \<in> dom (ent B s QuotaExpiryBucket)" "plain rid"
  obtains e a w end' where "R rid = Some e" "qr_State e \<noteq> ''active''" "a \<in> set (qr_Accounts e)"
    "(w, end') \<in> set (quotaWindowEnds e)" "key = counterKey (qa_Account a) w" "be64 x = be64 end'"
proof -
  obtain rid' e where e: "R rid' = Some e" "qr_State e \<noteq> ''active''" "ckey x key rid \<in> entries_of e"
    using assms(1,2) unfolding ledger_def expiry_ok_def by blast
  have g: "good_receipt rid' e" using assms(1) e(1) by (simp add: ledger_def)
  obtain a w end' where a: "ckey x key rid = ckey end' (counterKey (qa_Account a) w) (qr_RequestID e)"
    "a \<in> set (qr_Accounts e)" "(w, end') \<in> set (quotaWindowEnds e)"
    using e(3) by (auto simp: entries_of_def live_entries_def)
  have p: "plain (qr_RequestID e)" using good_receipt[OF g] by simp
  note i = ckey_inj[OF assms(3) p a(1)]
  have "rid' = rid" using i(3) good_receipt(1)[OF g] by simp
  then show thesis using that e(1,2) a(2,3) i(1,2) by blast
qed

lemma ledger_receipt:
  assumes "ledger B R s" "rkey x rid \<in> dom (ent B s QuotaExpiryBucket)"
  obtains e where "R rid = Some e" "qr_State e \<noteq> ''active''" "rkey x rid = rkey (latest_end e) rid"
proof -
  obtain rid' e where e: "R rid' = Some e" "qr_State e \<noteq> ''active''" "rkey x rid \<in> entries_of e"
    using assms(1,2) unfolding ledger_def expiry_ok_def by blast
  have g: "good_receipt rid' e" using assms(1) e(1) by (simp add: ledger_def)
  have k: "rkey x rid = rkey (latest_end e) rid'"
    using e(3) good_receipt(1)[OF g] by (auto simp: entries_of_def live_entries_def)
  then have "rid = rid'" by (metis rkey_parts(2))
  then show thesis using that e(1,2) k by blast
qed

lemma shares_finite: "ledger B R s \<Longrightarrow> finite (shares B R s key)"
  by (rule finite_subset[of _ "dom R"]) (auto simp: shares_def ledger_def)

text \<open>The sum without one receipt.\<close>

lemma sum_split:
  assumes "finite (shares B R s key)"
  shows "sum_of B R s d key = (\<Sum>r \<in> shares B R s key - {rid}. weigh d (the (R r))) +
    (if rid \<in> shares B R s key then weigh d (the (R rid)) else 0)"
  using assms by (auto simp: sum_of_def sum.remove)

text \<open>One receipt is replaced, added or removed; the amounts follow its shares.\<close>

lemma balanced_change:
  assumes "balanced B R s" "finite (shares B R s key)" "finite (shares B R' t key)"
    and "shares B R' t key - {rid} = shares B R s key - {rid}" "\<And>r. r \<noteq> rid \<Longrightarrow> R' r = R r"
    and "amt B t d key = amt B s d key - (if rid \<in> shares B R s key then weigh d (the (R rid)) else 0)
      + (if rid \<in> shares B R' t key then weigh d (the (R' rid)) else 0)"
  shows "amt B t d key = sum_of B R' t d key"
proof -
  have "(\<Sum>r \<in> shares B R' t key - {rid}. weigh d (the (R' r))) = (\<Sum>r \<in> shares B R s key - {rid}. weigh d (the (R r)))"
    using assms(4,5) by (intro sum.cong) auto
  then show ?thesis
    using assms(1,6) sum_split[OF assms(2), of d rid] sum_split[OF assms(3), of d rid] by (simp add: balanced_def)
qed

lemma shares_other:
  assumes "\<And>r. r \<noteq> rid \<Longrightarrow> R' r = R r"
    and "\<And>x r. r \<noteq> rid \<Longrightarrow> R r \<noteq> None \<Longrightarrow>
      ckey x key r \<in> dom (ent B t QuotaExpiryBucket) \<longleftrightarrow> ckey x key r \<in> dom (ent B s QuotaExpiryBucket)"
  shows "shares B R' t key - {rid} = shares B R s key - {rid}"
proof -
  have "(r \<noteq> rid \<and> (\<exists>e. R' r = Some e \<and> (key \<in> active_keys e \<or> (\<exists>x. ckey x key r \<in> dom (ent B t QuotaExpiryBucket))))) \<longleftrightarrow>
      (r \<noteq> rid \<and> (\<exists>e. R r = Some e \<and> (key \<in> active_keys e \<or> (\<exists>x. ckey x key r \<in> dom (ent B s QuotaExpiryBucket)))))" for r
    using assms(1)[of r] assms(2)[of r] by (cases "r = rid"; cases "R r") simp_all
  then show ?thesis unfolding shares_def by (intro set_eqI) (simp add: conj_commute)
qed

text \<open>An active receipt has no entries, nor has an unknown one.\<close>

lemma no_entries:
  assumes "ledger B R s" "plain rid" "\<And>e. R rid = Some e \<Longrightarrow> qr_State e = ''active''"
  shows "ckey x key rid \<notin> dom (ent B s QuotaExpiryBucket)"
proof
  assume "ckey x key rid \<in> dom (ent B s QuotaExpiryBucket)"
  then obtain e where "R rid = Some e" "qr_State e \<noteq> ''active''" by (rule ledger_entry[OF assms(1) _ assms(2)]) blast
  then show False using assms(3) by simp
qed

lemma share_of:
  assumes "\<And>x. ckey x key rid \<notin> dom (ent B s QuotaExpiryBucket)"
  shows "rid \<in> shares B R s key \<longleftrightarrow> (\<exists>e. R rid = Some e \<and> key \<in> active_keys e)"
  using assms by (simp add: shares_def)

lemma shares_finite': "finite (dom R) \<Longrightarrow> finite (shares B R s key)"
  by (rule finite_subset[of _ "dom R"]) (auto simp: shares_def)

lemma ledger_good: "ledger B R s \<Longrightarrow> R rid = Some e \<Longrightarrow> good_receipt rid e"
  by (simp add: ledger_def)

text \<open>A change of one receipt that leaves the entries alone.\<close>

lemma ledger_replace:
  assumes l: "ledger B R s" and g: "\<And>e'. v = Some e' \<Longrightarrow> good_receipt rid e'" and pl: "plain rid"
    and old: "\<And>e. R rid = Some e \<Longrightarrow> qr_State e = ''active''"
    and ex: "ent B t QuotaExpiryBucket = ent B s QuotaExpiryBucket"
    and am: "\<And>d key. amt B t d key = amt B s d key
        - (case R rid of None \<Rightarrow> 0 | Some e \<Rightarrow> if key \<in> active_keys e then weigh d e else 0)
        + (case v of None \<Rightarrow> 0 | Some e \<Rightarrow> if key \<in> active_keys e then weigh d e else 0)"
  shows "ledger B (R(rid := v)) t"
proof -
  let ?R = "R(rid := v)"
  have fin: "finite (dom R)" using l by (simp add: ledger_def)
  have "dom ?R \<subseteq> insert rid (dom R)" by (cases v) auto
  then have fin': "finite (dom ?R)" using fin finite_subset finite_insert by metis
  have ns: "ckey x key rid \<notin> dom (ent B s QuotaExpiryBucket)" for x key by (rule no_entries[OF l pl old])
  have e: "expiry_ok B ?R t"
    unfolding expiry_ok_def
  proof
    fix k assume "k \<in> dom (ent B t QuotaExpiryBucket)"
    then obtain r e where r: "R r = Some e" "qr_State e \<noteq> ''active''" "k \<in> entries_of e"
      using l unfolding ledger_def expiry_ok_def ex by blast
    then have "r \<noteq> rid" using old by auto
    then show "\<exists>rid e. ?R rid = Some e \<and> qr_State e \<noteq> ''active'' \<and> k \<in> entries_of e"
      using r by (intro exI[of _ r] exI[of _ e]) simp
  qed
  have b: "balanced B ?R t"
    unfolding balanced_def
  proof (intro allI)
    fix d key
    show "amt B t d key = sum_of B ?R t d key"
    proof (rule balanced_change[of B R s key _ _ rid])
      show "balanced B R s" using l by (simp add: ledger_def)
      show "shares B ?R t key - {rid} = shares B R s key - {rid}" by (rule shares_other) (simp_all add: ex)
      have "rid \<in> shares B R s key \<longleftrightarrow> (\<exists>e. R rid = Some e \<and> key \<in> active_keys e)" by (rule share_of) (rule ns)
      moreover have "rid \<in> shares B ?R t key \<longleftrightarrow> (\<exists>e. ?R rid = Some e \<and> key \<in> active_keys e)"
        by (rule share_of) (use ns in \<open>simp add: ex\<close>)
      ultimately show "amt B t d key = amt B s d key - (if rid \<in> shares B R s key then weigh d (the (R rid)) else 0)
          + (if rid \<in> shares B ?R t key then weigh d (the (?R rid)) else 0)"
        using am[of d key] by (cases "R rid"; cases v) auto
    qed (use fin fin' in \<open>auto intro: shares_finite'\<close>)
  qed
  show ?thesis using fin' e b l g by (auto simp: ledger_def)
qed

lemma active_keys_iff: "qr_State e = ''active'' \<Longrightarrow>
    (\<exists>a \<in> set (qr_Accounts e). key = counterKey (qa_Account a) ''active'') \<longleftrightarrow> key \<in> active_keys e"
  by (auto simp: active_keys_def)

context bolt
begin

lemma activate_ledger:
  assumes "forT (qr_Accounts e) (\<lambda>a. applyQuotaCounter B (qa_Account a) ''active'' e 1) s = Inr (u, t)"
    and "ledger B R s" "R rid = None" "good_receipt rid e" "qr_State e = ''active''"
  shows "ledger B (R(rid \<mapsto> e)) t" "frame B {QuotaCounterBucket} s t"
proof -
  have ac: "distinct (map qa_Account (qr_Accounts e))" using good_receipt(3)[OF assms(4)] by (simp add: accounts_plain_def)
  note a = apply_accounts_Inr[OF assms(1) unit_sign_simps(1) ac]
  show fr: "frame B {QuotaCounterBucket} s t" using a by blast
  show "ledger B (R(rid \<mapsto> e)) t"
  proof (rule ledger_replace[OF assms(2)])
    show "ent B t QuotaExpiryBucket = ent B s QuotaExpiryBucket" by (rule frame_ent[OF fr]) simp
  qed (use assms(3-5) a good_receipt(2)[OF assms(4)] in \<open>auto simp: active_keys_iff\<close>)
qed

lemma retire_ledger:
  assumes "forT (qr_Accounts e) (\<lambda>a. applyQuotaCounter B (qa_Account a) ''active'' e (-1)) s = Inr (u, t)"
    and "ledger B R s" "R rid = Some e" "qr_State e = ''active''" "good_receipt rid e'" "qr_State e' \<noteq> ''active''"
  shows "ledger B (R(rid \<mapsto> e')) t" "frame B {QuotaCounterBucket} s t"
    "ckey x key rid \<notin> dom (ent B t QuotaExpiryBucket)"
proof -
  have g: "good_receipt rid e" using assms(2,3) by (rule ledger_good)
  have ac: "distinct (map qa_Account (qr_Accounts e))" using good_receipt(3)[OF g] by (simp add: accounts_plain_def)
  note a = apply_accounts_Inr[OF assms(1) unit_sign_simps(2) ac]
  show fr: "frame B {QuotaCounterBucket} s t" using a by blast
  have ex: "ent B t QuotaExpiryBucket = ent B s QuotaExpiryBucket" by (rule frame_ent[OF fr]) simp
  have none: "active_keys e' = {}" using assms(6) by (simp add: active_keys_def)
  show "ledger B (R(rid \<mapsto> e')) t"
    by (rule ledger_replace[OF assms(2)])
      (use assms(3-5) a good_receipt(2)[OF g] none ex in \<open>auto simp: active_keys_iff\<close>)
  show "ckey x key rid \<notin> dom (ent B t QuotaExpiryBucket)"
    unfolding ex using no_entries[OF assms(2) good_receipt(2)[OF g]] assms(3,4) by simp
qed

lemma same_ledger:
  assumes "ledger B R s" "R rid = Some e" "qr_State e = ''active''" "good_receipt rid e'" "qr_State e' = ''active''"
    and "qr_Accounts e' = qr_Accounts e" "\<And>d. weigh d e' = weigh d e"
  shows "ledger B (R(rid \<mapsto> e')) s"
  by (rule ledger_replace[OF assms(1)])
    (use assms(2-7) good_receipt(2)[OF assms(4)] in \<open>auto simp: active_keys_def\<close>)

lemma project_ledger:
  assumes "projectTerminalQuota B e instant s = Inr (u, t)" "0 \<le> instant"
    and "ledger B R s" "R rid = Some e" "qr_State e \<noteq> ''active''"
    and ns: "\<And>x key. ckey x key rid \<notin> dom (ent B s QuotaExpiryBucket)"
  shows "ledger B R t" "frame B {QuotaCounterBucket, QuotaExpiryBucket} s t"
    "plain r \<Longrightarrow> r \<noteq> rid \<Longrightarrow> ckey x key r \<in> dom (ent B t QuotaExpiryBucket) \<longleftrightarrow> ckey x key r \<in> dom (ent B s QuotaExpiryBucket)"
proof -
  let ?ws = "quotaWindowEnds e"
  have g: "good_receipt rid e" using assms(3,4) by (rule ledger_good)
  note G = good_receipt[OF g]
  note P = projectTerminalQuota_Inr[OF assms(1) G(3)]
  show "frame B {QuotaCounterBucket, QuotaExpiryBucket} s t" by (rule P(1))
  have mine: "ckey x key rid \<in> dom (ent B t QuotaExpiryBucket) \<longleftrightarrow> ckey x key rid \<in> live_entries e instant ?ws" for x key
    unfolding P(3) using ns by simp
  have key: "(\<exists>x. ckey x key rid \<in> dom (ent B t QuotaExpiryBucket)) \<longleftrightarrow> key \<in> live_keys e instant ?ws" for key
  proof
    assume "\<exists>x. ckey x key rid \<in> dom (ent B t QuotaExpiryBucket)"
    then obtain x a w end' where "ckey x key rid = ckey end' (counterKey (qa_Account a) w) rid"
      "a \<in> set (qr_Accounts e)" "(w, end') \<in> set ?ws" "instant < end'"
      unfolding mine live_entries_def G(1) by blast
    then show "key \<in> live_keys e instant ?ws" using ckey_inj(2)[OF G(2,2)] unfolding live_keys_def by blast
  next
    assume "key \<in> live_keys e instant ?ws"
    then show "\<exists>x. ckey x key rid \<in> dom (ent B t QuotaExpiryBucket)"
      unfolding mine live_entries_def live_keys_def G(1) by blast
  qed
  show other: "ckey x key r \<in> dom (ent B t QuotaExpiryBucket) \<longleftrightarrow> ckey x key r \<in> dom (ent B s QuotaExpiryBucket)"
    if "plain r" "r \<noteq> rid" for x key r
  proof -
    have "ckey x key r \<notin> live_entries e instant ?ws"
      unfolding live_entries_def G(1) using ckey_inj(3)[OF that(1) G(2)] that(2) by blast
    then show ?thesis unfolding P(3) by simp
  qed
  have "expiry_ok B R t"
    unfolding expiry_ok_def P(3)
  proof
    fix k assume "k \<in> insert (rkey (latest_end e) (qr_RequestID e)) (dom (ent B s QuotaExpiryBucket) \<union> live_entries e instant ?ws)"
    then consider "k \<in> entries_of e" | "k \<in> dom (ent B s QuotaExpiryBucket)"
      using live_mono[OF assms(2), of e ?ws] by (auto simp: entries_of_def)
    then show "\<exists>rid e. R rid = Some e \<and> qr_State e \<noteq> ''active'' \<and> k \<in> entries_of e"
      using assms(3-5) by cases (auto simp: ledger_def expiry_ok_def)
  qed
  moreover have "balanced B R t"
    unfolding balanced_def
  proof (intro allI)
    fix d key'
    have na: "active_keys e = {}" using assms(5) by (simp add: active_keys_def)
    show "amt B t d key' = sum_of B R t d key'"
    proof (rule balanced_change[of B R s key' _ _ rid])
      show "balanced B R s" using assms(3) by (simp add: ledger_def)
      show "shares B R t key' - {rid} = shares B R s key' - {rid}"
      proof (rule shares_other)
        fix x r assume r: "r \<noteq> rid" "R r \<noteq> None"
        then have "plain r" using assms(3) by (auto dest: ledger_good good_receipt(2))
        then show "ckey x key' r \<in> dom (ent B t QuotaExpiryBucket) \<longleftrightarrow> ckey x key' r \<in> dom (ent B s QuotaExpiryBucket)"
          using r(1) by (rule other)
      qed simp
      have "rid \<notin> shares B R s key'" using ns na assms(4) by (simp add: shares_def)
      moreover have "rid \<in> shares B R t key' \<longleftrightarrow> key' \<in> live_keys e instant ?ws"
        using key[of key'] na assms(4) by (simp add: shares_def)
      ultimately show "amt B t d key' = amt B s d key' - (if rid \<in> shares B R s key' then weigh d (the (R rid)) else 0)
          + (if rid \<in> shares B R t key' then weigh d (the (R rid)) else 0)"
        using P(2)[of d key'] assms(4) by simp
    qed (use assms(3) in \<open>auto intro: shares_finite\<close>, use assms(3) in \<open>auto simp: ledger_def intro: shares_finite'\<close>)
  qed
  ultimately show "ledger B R t" using assms(3) by (simp add: ledger_def)
qed

end

section \<open>Pruning\<close>

text \<open>What pruning keeps of the receipts: none is changed, and only those go that are neither pending
  nor ready; the sequence counts them.\<close>

definition receipts_kept :: "'s bolt \<Rightarrow> 's \<Rightarrow> 's \<Rightarrow> bool" where
  "receipts_kept B s t \<longleftrightarrow>
     (\<forall>rid. ent B t QuotaEntryBucket rid = ent B s QuotaEntryBucket rid \<or>
        ent B t QuotaEntryBucket rid = None \<and> ent B s PendingBucket rid = None \<and> ent B s ReadyBucket rid = None)"

lemma receipts_kept_trans:
  assumes "receipts_kept B s u" "receipts_kept B u t"
    and "ent B u PendingBucket = ent B s PendingBucket" "ent B u ReadyBucket = ent B s ReadyBucket"
  shows "receipts_kept B s t"
  using assms unfolding receipts_kept_def by (metis (no_types, lifting))

definition counted :: "'s bolt \<Rightarrow> 's \<Rightarrow> bool" where
  "counted B s \<longleftrightarrow> sqn B s QuotaEntryBucket = int (card (dom (receipts B s)))"

lemma receipts_cong: "ent B t QuotaEntryBucket = ent B s QuotaEntryBucket \<Longrightarrow> receipts B t = receipts B s"
  by (simp add: receipts_def fun_eq_iff)

lemma readQuotaReceipt_Inr: "readQuotaReceipt B rid s = Inr (e, t) \<longleftrightarrow>
    has B s QuotaEntryBucket \<and> receipts B s rid = Some e \<and> check_receipt rid e = Inr () \<and> t = s"
  by (auto simp: readQuotaReceipt_def tx_Inr receipts_def split: option.splits)

lemma entry_unique:
  assumes "ledger B R s" "ckey x key rid \<in> dom (ent B s QuotaExpiryBucket)"
    "ckey y key rid \<in> dom (ent B s QuotaExpiryBucket)" "plain rid"
  shows "ckey y key rid = ckey x key rid"
proof -
  obtain e a w end' where 1: "R rid = Some e" "a \<in> set (qr_Accounts e)" "(w, end') \<in> set (quotaWindowEnds e)"
    "key = counterKey (qa_Account a) w" "be64 x = be64 end'" by (rule ledger_entry[OF assms(1,2,4)]) blast
  obtain e' a' w' end'' where 2: "R rid = Some e'" "a' \<in> set (qr_Accounts e')" "(w', end'') \<in> set (quotaWindowEnds e')"
    "key = counterKey (qa_Account a') w'" "be64 y = be64 end''" by (rule ledger_entry[OF assms(1,3,4)]) blast
  have e: "e' = e" using 1(1) 2(1) by simp
  have "plain (qa_Account a)" "plain (qa_Account a')"
    using good_receipt(3)[OF ledger_good[OF assms(1) 1(1)]] 1(2) 2(2) e by (auto simp: accounts_plain_def)
  then have "w' = w" using 1(4) 2(4) counterKey_inj by metis
  then have "end'' = end'" using windows_distinct[of e] 1(3) 2(3) e by (metis eq_key_imp_eq_value)
  then show ?thesis using 1(5) 2(5) by (simp add: ckey_def)
qed

context bolt
begin

lemma expire_counter_ledger:
  assumes "expire_counter B (drop 9 k) s = Inr (rm, s1)" "deleteB B QuotaExpiryBucket k s1 = Inr (u, t)"
    and k: "k = ckey x key rid" "k \<in> dom (ent B s QuotaExpiryBucket)" "plain rid"
    and l: "ledger B (receipts B s) s"
  shows "rm" "ledger B (receipts B t) t" "receipts B t = receipts B s"
    "ent B t QuotaExpiryBucket = (ent B s QuotaExpiryBucket)(k := None)"
    "frame B {QuotaCounterBucket, QuotaExpiryBucket} s t"
proof -
  let ?R = "receipts B s"
  obtain e a w end' where e: "?R rid = Some e" "qr_State e \<noteq> ''active''" "a \<in> set (qr_Accounts e)"
    "(w, end') \<in> set (quotaWindowEnds e)" "key = counterKey (qa_Account a) w"
    by (rule ledger_entry[OF l k(2)[unfolded k(1)] k(3)]) blast
  note g = ledger_good[OF l e(1)]
  have pa: "plain (qa_Account a)" using good_receipt(3)[OF g] e(3) by (simp add: accounts_plain_def)
  have pw: "plain w" using window_plain[OF e(4)] by simp
  have "drop 9 k = qa_Account a @ CHR 0x00 # w @ CHR 0x00 # rid"
    unfolding k(1) ckey_parts(2) e(5) counterKey_def by simp
  then have sp: "split_nul (drop 9 k) = [qa_Account a, w, rid]"
    by (simp add: split_nul_cut[OF pa] split_nul_cut[OF pw] split_nul_plain[OF k(3)])
  have rm: "rm" and ap: "applyQuotaCounter B (qa_Account a) w e (-1) s = Inr ((), s1)"
    using assms(1) e(1) by (auto simp: expire_counter_def sp tx_Inr readQuotaReceipt_Inr)
  show "rm" by (rule rm)
  note o = applyQuotaCounter_Inr[OF ap unit_sign_simps(2)] and d = deleteB_frame[OF assms(2)]
  show fr: "frame B {QuotaCounterBucket, QuotaExpiryBucket} s t" using o(1) d by (auto intro: frame_trans)
  show ex: "ent B t QuotaExpiryBucket = (ent B s QuotaExpiryBucket)(k := None)"
    using d frame_ent[OF o(1), of QuotaExpiryBucket] by simp
  show R: "receipts B t = ?R" by (rule receipts_cong) (rule frame_ent[OF fr], simp)
  have am: "amt B t d key' = amt B s d key' - (if key' = key then weigh d e else 0)" for d key'
    using o(2)[of d key'] d amt_apart[OF apart_frame, of B "{QuotaExpiryBucket}" s1 t d key'] e(5) by simp
  have na: "active_keys e = {}" using e(2) by (simp add: active_keys_def)
  have "expiry_ok B ?R t" using l by (auto simp: ledger_def expiry_ok_def ex)
  moreover have "balanced B ?R t"
    unfolding balanced_def
  proof (intro allI)
    fix d key'
    show "amt B t d key' = sum_of B ?R t d key'"
    proof (rule balanced_change[of B ?R s key' _ _ rid])
      show "balanced B ?R s" using l by (simp add: ledger_def)
      show "shares B ?R t key' - {rid} = shares B ?R s key' - {rid}"
      proof (rule shares_other)
        fix y r assume r: "r \<noteq> rid" "?R r \<noteq> None"
        then have "plain r" using l by (auto dest: ledger_good good_receipt(2))
        then have "ckey y key' r \<noteq> k" unfolding k(1) using ckey_inj(3)[of r rid] r(1) k(3) by blast
        then show "ckey y key' r \<in> dom (ent B t QuotaExpiryBucket) \<longleftrightarrow> ckey y key' r \<in> dom (ent B s QuotaExpiryBucket)"
          by (simp add: ex domIff)
      qed simp
      have mine: "(\<exists>y. ckey y key' rid \<in> dom (ent B t QuotaExpiryBucket)) \<longleftrightarrow>
          key' \<noteq> key \<and> (\<exists>y. ckey y key' rid \<in> dom (ent B s QuotaExpiryBucket))"
      proof (cases "key' = key")
        case True
        have "ckey y key rid \<notin> dom (ent B t QuotaExpiryBucket)" for y
          using entry_unique[OF l k(2)[unfolded k(1)] _ k(3), of y] by (auto simp: ex k(1))
        then show ?thesis using True by blast
      next
        case False
        then have "ckey y key' rid \<noteq> k" for y unfolding k(1) using ckey_inj(2)[OF k(3,3)] by blast
        then show ?thesis using False by (simp add: ex domIff)
      qed
      have "rid \<in> shares B ?R s key" using e(1) k(1,2) by (auto simp: shares_def)
      moreover have "rid \<in> shares B ?R t key' \<longleftrightarrow> key' \<noteq> key \<and> rid \<in> shares B ?R s key'"
        using mine e(1) na by (simp add: shares_def)
      ultimately show "amt B t d key' = amt B s d key' - (if rid \<in> shares B ?R s key' then weigh d (the (?R rid)) else 0)
          + (if rid \<in> shares B ?R t key' then weigh d (the (?R rid)) else 0)"
        using am[of d key'] e(1) by auto
    qed (use l in \<open>auto simp: ledger_def intro: shares_finite'\<close>)
  qed
  ultimately show "ledger B (receipts B t) t" using l by (simp add: ledger_def R)
qed

text \<open>A receipt is removed together with its entry, once it has no share left.\<close>

lemma expire_receipt_ledger:
  assumes "expire_receipt B rid s = Inr (True, s1)" "deleteB B QuotaExpiryBucket (rkey x rid) s1 = Inr (u, t)"
    and k: "rkey x rid \<in> dom (ent B s QuotaExpiryBucket)"
    and l: "ledger B (receipts B s) s"
    and ns: "\<And>x key. ckey x key rid \<notin> dom (ent B s QuotaExpiryBucket)"
  shows "ledger B (receipts B t) t" "receipts B t = (receipts B s)(rid := None)"
    "ent B t QuotaExpiryBucket = (ent B s QuotaExpiryBucket)(rkey x rid := None)"
    "frame B {QuotaEntryBucket, QuotaExpiryBucket} s t" "ent B t QuotaEntryBucket = (ent B s QuotaEntryBucket)(rid := None)"
    "sqn B t QuotaEntryBucket = sqn B s QuotaEntryBucket - 1"
    "rid \<notin> dom (ent B s PendingBucket)" "rid \<notin> dom (ent B s ReadyBucket)"
proof -
  let ?R = "receipts B s"
  obtain e where e: "?R rid = Some e" "qr_State e \<noteq> ''active''" "rkey x rid = rkey (latest_end e) rid"
    by (rule ledger_receipt[OF l k])
  obtain s2 where no: "ent B s PendingBucket rid = None" "ent B s ReadyBucket rid = None"
    and n: "sqn B s QuotaEntryBucket \<noteq> 0" and de: "deleteB B QuotaEntryBucket rid s = Inr ((), s2)"
    and sq: "setseqB B QuotaEntryBucket (sqn B s QuotaEntryBucket - 1) s2 = Inr ((), s1)"
    using assms(1) by (auto simp: expire_receipt_def tx_Inr split: if_splits)
  show "rid \<notin> dom (ent B s PendingBucket)" "rid \<notin> dom (ent B s ReadyBucket)" using no by (simp_all add: domIff)
  have nn: "0 \<le> sqn B s QuotaEntryBucket - 1" using n seq_nonneg[of s "bucket_name QuotaEntryBucket"] by simp
  note d1 = deleteB_frame[OF de] and q = setseqB_frame[OF sq nn] and d2 = deleteB_frame[OF assms(2)]
  have f1: "frame B {QuotaEntryBucket} s s1" using d1 q by (blast intro: frame_trans)
  show fr: "frame B {QuotaEntryBucket, QuotaExpiryBucket} s t" using f1 d2 by (auto intro: frame_trans)
  show ex: "ent B t QuotaExpiryBucket = (ent B s QuotaExpiryBucket)(rkey x rid := None)"
    using d2 frame_ent[OF f1, of QuotaExpiryBucket] by simp
  show en: "ent B t QuotaEntryBucket = (ent B s QuotaEntryBucket)(rid := None)"
    using d1 q d2 frame_ent[of B "{QuotaExpiryBucket}" s1 t QuotaEntryBucket] by simp
  show "sqn B t QuotaEntryBucket = sqn B s QuotaEntryBucket - 1"
    using d1 q d2 frame_sqn[of B "{QuotaExpiryBucket}" s1 t QuotaEntryBucket] by simp
  show R: "receipts B t = ?R(rid := None)" by (auto simp: receipts_def en fun_eq_iff)
  have am: "amt B t d key = amt B s d key" for d key by (rule amt_apart[OF apart_frame[OF fr]]) simp
  have na: "active_keys e = {}" using e(2) by (simp add: active_keys_def)
  have "finite (dom (receipts B t))" using l by (simp add: ledger_def R)
  moreover have "expiry_ok B (receipts B t) t"
    unfolding expiry_ok_def
  proof
    fix k' assume k': "k' \<in> dom (ent B t QuotaExpiryBucket)"
    then have "k' \<in> dom (ent B s QuotaExpiryBucket)" by (simp add: ex domIff split: if_splits)
    then obtain r e' where r: "?R r = Some e'" "qr_State e' \<noteq> ''active''" "k' \<in> entries_of e'"
      using l unfolding ledger_def expiry_ok_def by blast
    have "r \<noteq> rid"
    proof
      assume "r = rid"
      then have "e' = e" using r(1) e(1) by simp
      then have "k' = rkey (latest_end e) rid \<or> (\<exists>y key. k' = ckey y key rid)"
        using r(3) good_receipt(1)[OF ledger_good[OF l e(1)]] by (auto simp: entries_of_def live_entries_def)
      then show False using k' ns e(3) by (auto simp: ex)
    qed
    then show "\<exists>rid e. receipts B t rid = Some e \<and> qr_State e \<noteq> ''active'' \<and> k' \<in> entries_of e"
      using r by (intro exI[of _ r] exI[of _ e']) (simp add: R)
  qed
  moreover have "balanced B (receipts B t) t"
  proof -
    have "shares B (receipts B t) t key = shares B ?R s key" for key
      using e(1) na ns by (auto simp: shares_def R ex split: if_splits)
    moreover have "rid \<notin> shares B ?R s key" for key using e(1) na ns by (auto simp: shares_def)
    then have "(\<Sum>r \<in> shares B ?R s key. weigh d (the (receipts B t r))) = sum_of B ?R s d key" for d key
      unfolding sum_of_def R by (intro sum.cong) auto
    ultimately show ?thesis using l by (simp add: balanced_def ledger_def am sum_of_def)
  qed
  ultimately show "ledger B (receipts B t) t" using l by (auto simp: ledger_def R split: if_splits)
qed

lemma prune_expiry_ledger:
  assumes "prune_expiry B instant es s = Inr (u, t)"
    and "ledger B (receipts B s) s" "counted B s"
    and "sorted_wrt (<) (map fst es)" "\<forall>k \<in> fst ` set es. k \<in> dom (ent B s QuotaExpiryBucket)"
    and "\<forall>x key rid. ckey x key rid \<in> dom (ent B s QuotaExpiryBucket) \<longrightarrow> ckey x key rid \<in> fst ` set es"
  shows "ledger B (receipts B t) t \<and> counted B t \<and> receipts_kept B s t \<and>
    frame B {QuotaCounterBucket, QuotaExpiryBucket, QuotaEntryBucket} s t"
  using assms
proof (induction es arbitrary: s)
  case Nil
  then show ?case by (simp add: receipts_kept_def)
next
  case (Cons p es)
  obtain k v where p: "p = (k, v)" by fastforce
  note l = Cons.prems(2)
  have kin: "k \<in> dom (ent B s QuotaExpiryBucket)" using Cons.prems(5) by (simp add: p)
  obtain r e where e: "receipts B s r = Some e" "qr_State e \<noteq> ''active''" "k \<in> entries_of e"
    using l kin unfolding ledger_def expiry_ok_def by blast
  note g = good_receipt[OF ledger_good[OF l e(1)]]
  have srt: "sorted_wrt (<) (map fst es)" "\<forall>k' \<in> fst ` set es. k < k'" using Cons.prems(4) by (auto simp: p)
  have tl: "\<forall>k' \<in> fst ` set es. k' \<in> dom (ent B t' QuotaExpiryBucket)"
    if t': "ent B t' QuotaExpiryBucket = (ent B s QuotaExpiryBucket)(k := None) \<or> ent B t' QuotaExpiryBucket = ent B s QuotaExpiryBucket" for t'
  proof
    fix k' assume k': "k' \<in> fst ` set es"
    then have "k' \<noteq> k" using srt(2) by fastforce
    moreover have "k' \<in> dom (ent B s QuotaExpiryBucket)" using Cons.prems(5) k' by (auto simp: p)
    ultimately show "k' \<in> dom (ent B t' QuotaExpiryBucket)" using t' by (elim disjE) (simp_all add: domIff)
  qed
  show ?case
  proof (cases "be64_val k > instant")
    case True
    then have "t = s" using Cons.prems(1) by (auto simp: p split: if_splits)
    then show ?thesis using Cons.prems(2,3) by (simp add: receipts_kept_def)
  next
    case False
    consider (counter) x key where "k = ckey x key r" | (receipt) "k = rkey (latest_end e) r"
      using e(3) g(1) by (auto simp: entries_of_def live_entries_def)
    then show ?thesis
    proof cases
      case counter
      obtain rm s1 s2 where ex: "expire_counter B (drop 9 k) s = Inr (rm, s1)"
        and de: "(if rm then deleteB B QuotaExpiryBucket k else okT ()) s1 = Inr ((), s2)"
        and rest: "prune_expiry B instant es s2 = Inr (u, t)"
        using Cons.prems(1) False ckey_parts(1)[of x key r] ckey_parts(4)[of x key r]
        by (auto simp: p counter tx_Inr split: if_splits)
      have "rm"
      proof (rule ccontr)
        assume "\<not> rm"
        then show False using ex by (auto simp: expire_counter_def tx_Inr split: list.splits)
      qed
      then have de': "deleteB B QuotaExpiryBucket k s1 = Inr ((), s2)" using de by simp
      note E = expire_counter_ledger[OF ex de' counter kin g(2) l]
      have c2: "counted B s2" using Cons.prems(3) frame_sqn[OF E(5), of QuotaEntryBucket] by (simp add: counted_def E(3))
      have all: "\<forall>x' key' rid'. ckey x' key' rid' \<in> dom (ent B s2 QuotaExpiryBucket) \<longrightarrow> ckey x' key' rid' \<in> fst ` set es"
      proof (intro allI impI)
        fix x' key' rid' assume i: "ckey x' key' rid' \<in> dom (ent B s2 QuotaExpiryBucket)"
        then have "ckey x' key' rid' \<noteq> k" "ckey x' key' rid' \<in> dom (ent B s QuotaExpiryBucket)"
          by (auto simp: E(4) domIff split: if_splits)
        then show "ckey x' key' rid' \<in> fst ` set es" using Cons.prems(6) by (fastforce simp: p)
      qed
      have t2: "\<forall>k' \<in> fst ` set es. k' \<in> dom (ent B s2 QuotaExpiryBucket)" by (rule tl) (simp add: E(4))
      note IH = Cons.IH[OF rest E(2) c2 srt(1) t2 all]
      have "frame B {QuotaCounterBucket, QuotaExpiryBucket, QuotaEntryBucket} s t"
        using E(5) IH by (blast intro: frame_trans)
      moreover have "receipts_kept B s t"
        using IH frame_ent[OF E(5)] by (simp add: receipts_kept_def)
      ultimately show ?thesis using IH by blast
    next
      case receipt
      obtain rm s1 s2 where ex: "expire_receipt B r s = Inr (rm, s1)"
        and de: "(if rm then deleteB B QuotaExpiryBucket k else okT ()) s1 = Inr ((), s2)"
        and rest: "prune_expiry B instant es s2 = Inr (u, t)"
        using Cons.prems(1) False rkey_parts(1,2)[of "latest_end e" r]
        by (auto simp: p receipt tx_Inr split: if_splits)
      have ns: "ckey x key r \<notin> dom (ent B s QuotaExpiryBucket)" for x key
      proof
        assume c: "ckey x key r \<in> dom (ent B s QuotaExpiryBucket)"
        obtain e' a w end' where e': "receipts B s r = Some e'" "(w, end') \<in> set (quotaWindowEnds e')" "be64 x = be64 end'"
          by (rule ledger_entry[OF l c g(2)]) blast
        have w: "0 < end'" "int64_range end'" "end' \<le> latest_end e"
          using e'(1,2) e(1) g(4) latest_end_ge(1) by auto
        have "ckey x key r = ckey end' key r" using e'(3) by (simp add: ckey_def)
        also have "\<dots> < k" unfolding receipt using w g(5) by (intro ckey_before_rkey) auto
        finally have lt: "ckey x key r < k" .
        have "ckey x key r \<in> insert k (fst ` set es)" using Cons.prems(6) c by (fastforce simp: p)
        then show False using lt srt(2) by auto
      qed
      show ?thesis
      proof (cases rm)
        case True
        have ex': "expire_receipt B r s = Inr (True, s1)" and de': "deleteB B QuotaExpiryBucket (rkey (latest_end e) r) s1 = Inr ((), s2)"
          using ex de True receipt by simp_all
        note E = expire_receipt_ledger[OF ex' de' kin[unfolded receipt] l ns]
        have "card (dom (receipts B s2)) = card (dom (receipts B s)) - 1"
          using e(1) by (simp add: E(2) domIff)
        moreover have "card (dom (receipts B s)) > 0" using l e(1) by (auto simp: ledger_def card_gt_0_iff)
        ultimately have c2: "counted B s2" using Cons.prems(3) by (simp add: counted_def E(6))
        have all: "\<forall>x' key' rid'. ckey x' key' rid' \<in> dom (ent B s2 QuotaExpiryBucket) \<longrightarrow> ckey x' key' rid' \<in> fst ` set es"
          using Cons.prems(6) unfolding E(3) by (fastforce simp: p receipt)
        have t2: "\<forall>k' \<in> fst ` set es. k' \<in> dom (ent B s2 QuotaExpiryBucket)" by (rule tl) (simp add: E(3) receipt)
        note IH = Cons.IH[OF rest E(1) c2 srt(1) t2 all]
        have fr: "frame B {QuotaCounterBucket, QuotaExpiryBucket, QuotaEntryBucket} s t"
          using E(4) IH by (blast intro: frame_trans)
        have "receipts_kept B s s2" using E(5,7,8) by (simp add: receipts_kept_def domIff)
        then have "receipts_kept B s t"
          by (rule receipts_kept_trans) (use IH frame_ent[OF E(4)] in simp_all)
        then show ?thesis using IH fr by blast
      next
        case False
        then have "s1 = s" using ex by (auto simp: expire_receipt_def tx_Inr split: if_splits)
        then have s2: "s2 = s" using de False by simp
        have all: "\<forall>x' key' rid'. ckey x' key' rid' \<in> dom (ent B s QuotaExpiryBucket) \<longrightarrow> ckey x' key' rid' \<in> fst ` set es"
          using Cons.prems(6) by (fastforce simp: p receipt)
        have t2: "\<forall>k' \<in> fst ` set es. k' \<in> dom (ent B s QuotaExpiryBucket)" by (rule tl) simp
        show ?thesis by (rule Cons.IH[OF rest[unfolded s2] l Cons.prems(3) srt(1) t2 all])
      qed
    qed
  qed
qed

lemma pruneQuota_ledger:
  assumes "pruneQuota B instant s = Inr (u, t)" "ledger B (receipts B s) s" "counted B s"
  shows "ledger B (receipts B t) t" "counted B t" "receipts_kept B s t"
    "frame B {QuotaCounterBucket, QuotaExpiryBucket, QuotaEntryBucket} s t"
proof -
  let ?es = "b_list B s (bucket_name QuotaExpiryBucket)"
  have h: "has B s QuotaExpiryBucket" and pr: "prune_expiry B instant ?es s = Inr (u, t)"
    using assms(1) by (auto simp: pruneQuota_def tx_Inr)
  have d: "fst ` set ?es = dom (ent B s QuotaExpiryBucket)" by (rule list_dom[OF h])
  have "ledger B (receipts B t) t \<and> counted B t \<and> receipts_kept B s t \<and>
    frame B {QuotaCounterBucket, QuotaExpiryBucket, QuotaEntryBucket} s t"
    by (rule prune_expiry_ledger[OF pr assms(2,3) list_sorted[OF h]]) (simp_all add: d)
  then show "ledger B (receipts B t) t" "counted B t" "receipts_kept B s t"
    "frame B {QuotaCounterBucket, QuotaExpiryBucket, QuotaEntryBucket} s t" by blast+
qed

end

end
