(* ===== verification/Quota_Inv.thy ===== *)
theory Quota_Inv
  imports Quota_Ledger
begin

text \<open>
  The invariant of the whole journal: the journal of facts (\<open>journal_ok\<close>), the ledger of the quota
  buckets where accounting is active, and the link between the two, that a receipt is active exactly
  while its fact is pending. Every operation of the quota files keeps it.
\<close>

section \<open>The invariant\<close>

definition version_of :: "'s bolt \<Rightarrow> 's \<Rightarrow> string" where
  "version_of B s = (case ent B s LimitMetaBucket ''version'' of None \<Rightarrow> [] | Some v \<Rightarrow> bytes_of v)"

definition linked :: "'s bolt \<Rightarrow> 's \<Rightarrow> bool" where
  "linked B s \<longleftrightarrow>
     (\<forall>rid e. receipts B s rid = Some e \<longrightarrow> (qr_State e = ''active'' \<longleftrightarrow> (\<exists>p. facts B s rid = Some (Held p))))"

definition quota_ok :: "queue \<Rightarrow> 's bolt \<Rightarrow> 's \<Rightarrow> bool" where
  "quota_ok q B s \<longleftrightarrow>
     (\<forall>b \<in> set quotaBuckets. has B s b) \<and>
     (\<forall>rid v. ent B s QuotaEntryBucket rid = Some v \<longrightarrow> as_receipt v \<noteq> None) \<and>
     ledger B (receipts B s) s \<and> counted B s \<and> sqn B s QuotaEntryBucket \<le> q_quotaCapacity q \<and> linked B s"

definition system_ok :: "queue \<Rightarrow> 's bolt \<Rightarrow> 's \<Rightarrow> bool" where
  "system_ok q B s \<longleftrightarrow>
     journal_ok q B s \<and> version_of B s \<in> {''1'', ''2''} \<and>
     (version_of B s = ''2'' \<longrightarrow> quota_ok q B s) \<and>
     (version_of B s \<noteq> ''2'' \<longrightarrow> (\<forall>b \<in> set quotaBuckets. \<not> has B s b))"

text \<open>The documented range of the environment: instants are 64 bits, a digest is 64 hex digits.\<close>

definition env_ok :: "env \<Rightarrow> bool" where
  "env_ok E \<longleftrightarrow>
     (\<forall>z x. int64_range (fst (e_month E z x)) \<and> int64_range (snd (e_month E z x))) \<and>
     (\<forall>a p. quotaDigest (e_digest E a p))"

lemma system_active: "system_ok q B s \<Longrightarrow> has B s QuotaEntryBucket \<longleftrightarrow> version_of B s = ''2''"
  unfolding system_ok_def quota_ok_def by (cases "version_of B s = ''2''") (auto simp: quotaBuckets_def)

lemma system_quota: "system_ok q B s \<Longrightarrow> has B s QuotaEntryBucket \<Longrightarrow> quota_ok q B s"
  using system_active[of q B s] by (simp add: system_ok_def)

section \<open>Receipts that pass their check\<close>

lemma check_receipt_iff: "check_receipt rid e = Inr () \<longleftrightarrow>
    \<not> (qr_RequestID e \<noteq> rid \<or> \<not> validKey rid \<or> qr_AdmittedAt e \<le> 0 \<or> qr_AdmittedAt e > max_int64 - seven_days_ns \<or>
       qr_MonthStart e < 0 \<or> qr_MonthEnd e \<le> qr_AdmittedAt e \<or> qr_Accounts e = [] \<or> length (qr_Accounts e) > 8) \<and>
    validQuotaBound (qr_Bound e) = Inr () \<and> validQuotaSettlement (qr_Actual e) = Inr () \<and>
    validQuotaSettlement (qr_Recovery e) = Inr () \<and> validQuotaRecovery (qr_Bound e) (qr_Recovery e) = Inr () \<and>
    (\<exists>seen. foldE account_step (qr_Accounts e) [] = Inr seen) \<and>
    (if qr_State e = ''active''
     then qr_SettlementDigest e = '''' \<and> qs_Tokens (qr_Actual e) = None \<and> qs_Money (qr_Actual e) = None
     else (qr_State e = ''complete'' \<or> qr_State e = ''interrupted'') \<and> qs_Tokens (qr_Recovery e) = None \<and>
       qs_Money (qr_Recovery e) = None \<and> qs_Currency (qr_Recovery e) = '''' \<and> quotaDigest (qr_SettlementDigest e))"
  unfolding check_receipt_def if_Inl_Inr bindE_Inr_iff by (simp add: if_Inl_Inr) blast

lemma no_settlement_valid:
  "validQuotaSettlement no_settlement = Inr ()" "validQuotaRecovery b no_settlement = Inr ()"
  by (simp_all add: validQuotaSettlement_def validQuotaRecovery_def no_settlement_def)

lemma good_settled:
  assumes "good_receipt rid e" "validQuotaSettlement actual = Inr ()" "quotaDigest d"
  shows "good_receipt rid (settle_receipt e actual d)"
  using assms no_settlement_valid unfolding good_receipt_def check_receipt_iff
  by (simp add: settle_receipt_def no_settlement_def)

lemma good_interrupted:
  assumes "good_receipt rid e" "quotaDigest (e_digest E (qr_Recovery e) p)"
  shows "good_receipt rid (interrupt_receipt E e p)"
  using assms no_settlement_valid unfolding good_receipt_def check_receipt_iff
  by (simp add: interrupt_receipt_def no_settlement_def)

lemma good_recovery:
  assumes "good_receipt rid e" "qr_State e = ''active''" "validQuotaSettlement r = Inr ()" "validQuotaRecovery (qr_Bound e) r = Inr ()"
  shows "good_receipt rid (e\<lparr>qr_Recovery := r\<rparr>)"
  using assms unfolding good_receipt_def check_receipt_iff by simp

lemma weigh_recovery: "weigh d (e\<lparr>qr_Recovery := r\<rparr>) = weigh d e"
  by (cases d) (simp_all add: weight_tokens_def weight_money_def)

section \<open>Frames\<close>

lemma version_of_apart: "apart B bs s t \<Longrightarrow> LimitMetaBucket \<notin> bs \<Longrightarrow> version_of B t = version_of B s"
  by (simp add: version_of_def apart_same)

lemma receipts_apart: "apart B bs s t \<Longrightarrow> QuotaEntryBucket \<notin> bs \<Longrightarrow> receipts B t = receipts B s"
  by (rule receipts_cong) (rule apart_same(2))

lemma shares_cong: "ent B t QuotaExpiryBucket = ent B s QuotaExpiryBucket \<Longrightarrow> shares B R t = shares B R s"
  unfolding shares_def[abs_def] by (simp only:)

lemma ledger_apart:
  assumes "ledger B R s" "apart B bs s t" "QuotaExpiryBucket \<notin> bs" "QuotaCounterBucket \<notin> bs"
  shows "ledger B R t"
proof -
  have e: "ent B t QuotaExpiryBucket = ent B s QuotaExpiryBucket" by (rule apart_same(2)[OF assms(2,3)])
  have a: "amt B t d key = amt B s d key" for d key by (rule amt_apart[OF assms(2,4)])
  have "sum_of B R t d key = sum_of B R s d key" for d key by (simp add: sum_of_def shares_cong[OF e])
  then show ?thesis using assms(1) by (simp add: ledger_def expiry_ok_def balanced_def e a)
qed

lemma counted_apart: "counted B s \<Longrightarrow> apart B bs s t \<Longrightarrow> QuotaEntryBucket \<notin> bs \<Longrightarrow> counted B t"
  by (simp add: counted_def receipts_apart[of B bs s t] apart_same[of B bs s t])

lemma linked_same: "linked B s \<Longrightarrow> receipts B t = receipts B s \<Longrightarrow>
    (\<And>rid. receipts B s rid \<noteq> None \<Longrightarrow> (\<exists>p. facts B t rid = Some (Held p)) \<longleftrightarrow> (\<exists>p. facts B s rid = Some (Held p))) \<Longrightarrow> linked B t"
  by (simp add: linked_def)

text \<open>An operation on the facts leaves the quota buckets alone.\<close>

lemma quota_ok_facts:
  assumes "quota_ok q B s" "apart B bs s t" "bs \<inter> set quotaBuckets = {}"
    and "\<And>rid. receipts B s rid \<noteq> None \<Longrightarrow> (\<exists>p. facts B t rid = Some (Held p)) \<longleftrightarrow> (\<exists>p. facts B s rid = Some (Held p))"
  shows "quota_ok q B t"
proof -
  have n: "QuotaEntryBucket \<notin> bs" "QuotaExpiryBucket \<notin> bs" "QuotaCounterBucket \<notin> bs"
    using assms(3) by (auto simp: quotaBuckets_def)
  have h: "has B t b = has B s b" if "b \<in> set quotaBuckets" for b
    using apart_same(1)[OF assms(2)] assms(3) that by blast
  have r: "receipts B t = receipts B s" by (rule receipts_apart[OF assms(2) n(1)])
  have "ledger B (receipts B s) t" using ledger_apart[OF _ assms(2) n(2,3)] assms(1) by (simp add: quota_ok_def)
  moreover have "counted B t" using counted_apart[OF _ assms(2) n(1)] assms(1) by (simp add: quota_ok_def)
  moreover have "linked B t" using linked_same[OF _ r assms(4)] assms(1) by (simp add: quota_ok_def)
  ultimately show ?thesis
    using assms(1) h r unfolding quota_ok_def apart_same[OF assms(2) n(1)] by simp
qed

lemma system_ok_facts:
  assumes "system_ok q B s" "journal_ok q B t" "apart B bs s t" "bs \<inter> set quotaBuckets = {}" "version_of B t = version_of B s"
    and "\<And>rid. receipts B s rid \<noteq> None \<Longrightarrow> has B s QuotaEntryBucket \<Longrightarrow>
      (\<exists>p. facts B t rid = Some (Held p)) \<longleftrightarrow> (\<exists>p. facts B s rid = Some (Held p))"
  shows "system_ok q B t"
proof -
  have h: "has B t b = has B s b" if "b \<in> set quotaBuckets" for b
    using apart_same(1)[OF assms(3)] assms(4) that by blast
  have "quota_ok q B t" if "version_of B s = ''2''"
  proof (rule quota_ok_facts[OF _ assms(3,4)])
    show "quota_ok q B s" using that assms(1) by (simp add: system_ok_def)
    then have "has B s QuotaEntryBucket" by (simp add: quota_ok_def quotaBuckets_def)
    then show "receipts B s rid \<noteq> None \<Longrightarrow> (\<exists>p. facts B t rid = Some (Held p)) \<longleftrightarrow> (\<exists>p. facts B s rid = Some (Held p))" for rid
      using assms(6) by blast
  qed
  then show ?thesis using assms(1,2,5) h unfolding system_ok_def by simp
qed

lemma system_ok_apart:
  assumes "system_ok q B s" "apart B bs s t" "bs \<inter> (core \<union> set quotaBuckets) = {}"
  shows "system_ok q B t"
proof (rule system_ok_facts[OF assms(1) _ assms(2)])
  have c: "bs \<inter> core = {}" and m: "LimitMetaBucket \<notin> bs" using assms(3) by (auto simp: core_def)
  show "journal_ok q B t" using assms(1) c by (auto simp: system_ok_def intro: journal_ok_apart[OF _ assms(2)])
  show "bs \<inter> set quotaBuckets = {}" using assms(3) by blast
  show "version_of B t = version_of B s" by (rule version_of_apart[OF assms(2) m])
  show "(\<exists>p. facts B t rid = Some (Held p)) \<longleftrightarrow> (\<exists>p. facts B s rid = Some (Held p))" for rid
    by (simp add: facts_apart_core[OF assms(2) c])
qed

lemma commit_system: "apart B {} t u \<Longrightarrow> system_ok q B u \<longleftrightarrow> system_ok q B t"
  using system_ok_apart[of q B t "{}" u] system_ok_apart[of q B u "{}" t] by (auto simp: apart_def)

lemma metaText_version: "metaText B ''version'' s = Inr (x, t) \<longleftrightarrow> has B s LimitMetaBucket \<and> t = s \<and> x = version_of B s"
  by (auto simp: metaText_Inr version_of_def)

lemma readQuotaMetadata_Inr:
  "readQuotaMetadata E B s = Inr (m, t) \<Longrightarrow> t = s \<and> version_of B s = ''2'' \<and> e_zone E (qm_TimeZone m)"
  by (auto simp: readQuotaMetadata_def tx_Inr metaText_version split: option.splits if_splits)

context bolt
begin

section \<open>The operations on facts\<close>

lemma guarded_keeps:
  assumes "guarded ok err (update B f) s = (r, t)" "keeps B bs f"
  shows "apart B bs s t"
  using assms(1)
proof (cases rule: guarded_cases)
  case (commits a t')
  from apart_trans[OF keepsD[OF assms(2) commits(3)] commits(4)] show ?thesis by simp
qed simp

lemma clock_version: "logicalLimitTime B now s = Inr (instant, t) \<Longrightarrow> version_of B t = version_of B s"
proof -
  assume "logicalLimitTime B now s = Inr (instant, t)"
  then obtain v where "putB B LimitMetaBucket ''clock'' v s = Inr ((), t)"
    by (auto simp: logicalLimitTime_def bindT_Inr thenT_Inr metaText_Inr Let_def split: if_splits)
  from putB_frame[OF this] show ?thesis by (simp add: version_of_def)
qed

lemma checkLimitAdmission_version:
  assumes "checkLimitAdmission q B rid limits now s = Inr (x, t)"
  shows "version_of B t = version_of B s"
proof -
  obtain instant s1 s2 accounts where lt: "logicalLimitTime B now s = Inr (instant, s1)"
    and pr: "pruneLimits B instant s1 = Inr ((), s2)" and fo: "foldT (limit_step B) limits [] s2 = Inr (accounts, t)"
    using assms by (auto simp: checkLimitAdmission_def tx_Inr)
  have p: "apart B {RpmBucket, RpmCountBucket} s1 s2" by (rule keepsD[of B _ "pruneLimits B instant", OF _ pr]) (intro keeps_rules; simp)
  have f: "apart B {} s2 t" by (rule keepsD[of B _ "foldT (limit_step B) limits []", OF _ fo]) (intro keeps_rules)
  show ?thesis using clock_version[OF lt] version_of_apart[OF p] version_of_apart[OF f] by simp
qed

text \<open>A committed operation on the facts, and one that changes none.\<close>

lemma facts_system:
  assumes "system_ok q B s" "journal_ok q B t" "apart B bs s t" "bs \<inter> set quotaBuckets = {}" "version_of B t = version_of B s"
    and "\<And>k. k \<noteq> rid \<Longrightarrow> facts B t k = facts B s k"
    and "has B s QuotaEntryBucket \<Longrightarrow> receipts B s rid = None \<or>
      ((\<exists>p. facts B t rid = Some (Held p)) \<longleftrightarrow> (\<exists>p. facts B s rid = Some (Held p)))"
  shows "system_ok q B t"
proof (rule system_ok_facts[OF assms(1-5)])
  fix k assume k: "receipts B s k \<noteq> None" "has B s QuotaEntryBucket"
  show "(\<exists>p. facts B t k = Some (Held p)) \<longleftrightarrow> (\<exists>p. facts B s k = Some (Held p))"
    using assms(6)[of k] assms(7)[OF k(2)] k(1) by (cases "k = rid") auto
qed

lemma Reserve_system:
  assumes "Reserve q B rid fallback s = (r, t)" "system_ok q B s"
  shows "system_ok q B t"
proof -
  have j: "journal_ok q B s" using assms(2) by (simp add: system_ok_def)
  have a: "apart B {PendingBucket} s t"
    by (rule guarded_keeps[OF assms(1)[unfolded Reserve_def]]) (intro keeps_rules, simp)
  note ok = Reserve_ok[OF assms(1) j]
  show ?thesis
  proof (cases r)
    case (Inr u)
    have "receipts B s rid = None" if "has B s QuotaEntryBucket"
      using assms(1) that unfolding Reserve_def Inr
      by (cases rule: guarded_cases) (auto simp: tx_Inr receipts_def)
    then show ?thesis
      using assms(2) ok Inr
      by (intro facts_system[OF _ _ a, of q rid]) (auto simp: quotaBuckets_def version_of_apart[OF a])
  qed (use ok assms(2) in simp)
qed

lemma UpdatePending_system:
  assumes "UpdatePending q B rid fallback s = (r, t)" "system_ok q B s"
  shows "system_ok q B t"
proof -
  have j: "journal_ok q B s" using assms(2) by (simp add: system_ok_def)
  have a: "apart B {PendingBucket} s t"
    by (rule guarded_keeps[OF assms(1)[unfolded UpdatePending_def]]) (intro keeps_rules, simp)
  note ok = UpdatePending_ok[OF assms(1) j]
  show ?thesis
  proof (cases r)
    case (Inr u)
    then show ?thesis
      using assms(2) ok
      by (intro facts_system[OF _ _ a, of q rid]) (auto simp: quotaBuckets_def version_of_apart[OF a])
  qed (use ok assms(2) in simp)
qed

lemma Complete_system:
  assumes "Complete q B rid payload s = (r, t)" "system_ok q B s"
  shows "system_ok q B t"
proof -
  have j: "journal_ok q B s" using assms(2) by (simp add: system_ok_def)
  have a: "apart B {PendingBucket, ReadyBucket, LeaseBucket, ActiveCountBucket} s t"
    by (rule guarded_keeps[OF assms(1)[unfolded Complete_def]]) (intro keeps_rules; simp)
  note ok = Complete_ok[OF assms(1) j]
  show ?thesis
  proof (cases r)
    case (Inr u)
    have "receipts B s rid = None" if "has B s QuotaEntryBucket"
      using assms(1) that unfolding Complete_def Inr
      by (cases rule: guarded_cases) (auto simp: tx_Inr receipts_def)
    then show ?thesis
      using assms(2) ok Inr
      by (intro facts_system[OF _ _ a, of q rid])
        (auto simp: quotaBuckets_def version_of_apart[OF a] split: option.splits fact_state.splits)
  qed (use ok assms(2) in simp)
qed

lemma Ack_system:
  assumes "Ack B rid s = (r, t)" "system_ok q B s"
  shows "system_ok q B t"
proof -
  have j: "journal_ok q B s" using assms(2) by (simp add: system_ok_def)
  have a: "apart B {ReadyBucket} s t"
    by (rule guarded_keeps[OF assms(1)[unfolded Ack_def]]) (intro keeps_rules, simp)
  note ok = Ack_ok[OF assms(1) j]
  show ?thesis
  proof (cases r)
    case (Inr u)
    then show ?thesis
      using assms(2) ok
      by (intro facts_system[OF _ _ a, of q rid])
        (auto simp: quotaBuckets_def version_of_apart[OF a] split: option.splits fact_state.splits)
  qed (use ok assms(2) in simp)
qed

lemma ReserveWithLimits_system:
  assumes "ReserveWithLimits q B rid payload limits now s = (r, t)" "system_ok q B s" "int64_range now"
  shows "system_ok q B t"
proof -
  have j: "journal_ok q B s" using assms(2) by (simp add: system_ok_def)
  let ?bs = "core - {ReadyBucket}"
  have a: "apart B ?bs s t"
    by (rule guarded_keeps[OF assms(1)[unfolded ReserveWithLimits_def reserveWithLimits_def]])
      (intro keeps_rules; simp add: core_def)
  note ok = ReserveWithLimits_ok[OF assms(1) j assms(3)]
  show ?thesis
  proof (cases r)
    case (Inr u)
    have "version_of B s \<noteq> ''2'' \<and> version_of B t = version_of B s"
      using assms(1) unfolding ReserveWithLimits_def
    proof (cases rule: guarded_cases)
      case (commits v t')
      then obtain x t1 where v: "version_of B s \<noteq> ''2''" and ch: "checkLimitAdmission q B rid limits now s = Inr (x, t1)"
        and ap: "applyLimitAdmission B rid payload (fst x) (snd x) t1 = Inr (v, t')"
        by (auto simp: tx_Inr metaText_version reserveWithLimits_def split: if_splits)
      have a1: "apart B {RpmCountBucket, ActiveCountBucket, RpmBucket, LeaseBucket, PendingBucket} t1 t'" by (rule keepsD[of B _ "applyLimitAdmission B rid payload (fst x) (snd x)", OF _ ap]) (intro keeps_rules; simp)
      show ?thesis
        using v checkLimitAdmission_version[OF ch] version_of_apart[OF a1] version_of_apart[OF commits(4)] by simp
    qed (use Inr in simp)
    then have "\<not> has B s QuotaEntryBucket" "version_of B t = version_of B s"
      using system_active[OF assms(2)] by simp_all
    then show ?thesis
      using assms(2) ok Inr by (intro facts_system[OF _ _ a, of q rid]) (auto simp: quotaBuckets_def core_def)
  qed (use ok assms(2) in simp)
qed

lemma AccountUsage_system:
  assumes "AccountUsage B account now s = (r, t)" "system_ok q B s" "int64_range now"
  shows "system_ok q B t"
proof -
  have j: "journal_ok q B s" using assms(2) by (simp add: system_ok_def)
  note ok = AccountUsage_ok[OF assms(1) j assms(3)]
  show ?thesis
    using assms(1) unfolding AccountUsage_def
  proof (cases rule: op_cases)
    case (commits u t')
    then obtain instant s1 where lt: "logicalLimitTime B now s = Inr (instant, s1)"
      and pr: "pruneLimits B instant s1 = Inr ((), t')"
      by (auto simp: tx_Inr countValue_Inr)
    have a1: "apart B {LimitMetaBucket} s s1" by (rule keepsD[of B _ "logicalLimitTime B now", OF _ lt]) (intro keeps_rules; simp)
    have a2: "apart B {RpmBucket, RpmCountBucket} s1 t'" by (rule keepsD[of B _ "pruneLimits B instant", OF _ pr]) (intro keeps_rules; simp)
    note a = apart_trans[OF apart_trans[OF a1 a2] commits(3)]
    have "version_of B t = version_of B s"
      using clock_version[OF lt] version_of_apart[OF a2] version_of_apart[OF commits(3)] by simp
    then show ?thesis
      using assms(2) ok commits(1) by (intro facts_system[OF _ _ a]) (auto simp: quotaBuckets_def)
  qed (use ok assms(2) in simp)
qed

lemma put_version:
  "putB B LimitMetaBucket k v s = Inr (u, t) \<Longrightarrow> k \<noteq> ''version'' \<Longrightarrow> version_of B t = version_of B s"
  using putB_frame[of LimitMetaBucket k v s u t] by (simp add: version_of_def)

lemma BindInstallation_system:
  assumes "BindInstallation B identity established s = (r, t)" "system_ok q B s"
  shows "system_ok q B t"
proof -
  have j: "journal_ok q B s" using assms(2) by (simp add: system_ok_def)
  note ok = BindInstallation_ok[OF assms(1) j]
  show ?thesis
    using assms(1) unfolding BindInstallation_def
  proof (cases rule: guarded_cases)
    case (commits u t')
    have "t' = s \<or> putB B LimitMetaBucket ''installation'' (Bytes identity) s = Inr (u, t')"
      using commits(3) by (auto simp: tx_Inr metaText_Inr split: if_splits)
    then have v: "version_of B t' = version_of B s" "apart B {LimitMetaBucket} s t'"
      using put_version[of "''installation''"] keepsD[OF keeps_put] by auto
    note a = apart_trans[OF v(2) commits(4)]
    show ?thesis
      using assms(2) ok commits(2) v(1) version_of_apart[OF commits(4)]
      by (intro facts_system[OF _ _ a]) (auto simp: quotaBuckets_def)
  qed (use ok assms(2) in simp)
qed

section \<open>The clock and pruning\<close>

lemma clock_system:
  assumes "logicalLimitTime B now s = Inr (instant, t)" "system_ok q B s" "int64_range now"
  shows "system_ok q B t" "facts B t = facts B s" "receipts B t = receipts B s" "clock_of B t = instant"
    "clock_of B s \<le> clock_of B t" "0 < instant" "int64_range instant" "frame B {LimitMetaBucket} s t" "version_of B t = version_of B s"
proof -
  have j: "journal_ok q B s" using assms(2) by (simp add: system_ok_def)
  note l = logicalLimitTime_ok[OF assms(1) j assms(3)]
  note a = apart_frame[OF l(8)]
  show "system_ok q B t"
    by (rule facts_system[OF assms(2) l(1) a]) (simp_all add: quotaBuckets_def clock_version[OF assms(1)] l(2))
  show "facts B t = facts B s" "clock_of B t = instant" "clock_of B s \<le> clock_of B t" "0 < instant"
    "int64_range instant" "frame B {LimitMetaBucket} s t" by (fact l)+
  show "receipts B t = receipts B s" by (rule receipts_apart[OF a]) simp
  show "version_of B t = version_of B s" by (rule clock_version[OF assms(1)])
qed

lemma receipts_kept_le: "receipts_kept B s t \<Longrightarrow> receipts B t \<subseteq>\<^sub>m receipts B s"
  unfolding map_le_def
proof (intro ballI)
  fix rid assume k: "receipts_kept B s t" "rid \<in> dom (receipts B t)"
  then have "ent B t QuotaEntryBucket rid = ent B s QuotaEntryBucket rid"
    unfolding receipts_kept_def by (auto simp: receipts_def split: option.splits)
  then show "receipts B t rid = receipts B s rid" by (simp add: receipts_def)
qed

lemma pruneQuota_system:
  assumes "pruneQuota B instant s = Inr (u, t)" "system_ok q B s"
  shows "system_ok q B t" "facts B t = facts B s" "clock_of B t = clock_of B s" "receipts B t \<subseteq>\<^sub>m receipts B s"
    "frame B {QuotaCounterBucket, QuotaExpiryBucket, QuotaEntryBucket} s t" "version_of B t = version_of B s"
    "version_of B s = ''2''"
proof -
  have "has B s QuotaExpiryBucket" using assms(1) by (auto simp: pruneQuota_def tx_Inr)
  then show v: "version_of B s = ''2''"
    using assms(2) unfolding system_ok_def by (auto simp: quotaBuckets_def)
  then have qo: "quota_ok q B s" using assms(2) by (simp add: system_ok_def)
  then have l: "ledger B (receipts B s) s" "counted B s" by (simp_all add: quota_ok_def)
  note p = pruneQuota_ledger[OF assms(1) l]
  note a = apart_frame[OF p(4)]
  note le = receipts_kept_le[OF p(3)]
  show "receipts B t \<subseteq>\<^sub>m receipts B s" by (rule le)
  show "frame B {QuotaCounterBucket, QuotaExpiryBucket, QuotaEntryBucket} s t" by (rule p(4))
  show f: "facts B t = facts B s" by (rule facts_apart[OF a]) simp_all
  show "clock_of B t = clock_of B s" by (rule clock_of_apart[OF a]) simp
  show vt: "version_of B t = version_of B s" by (rule version_of_apart[OF a]) simp
  have "card (dom (receipts B t)) \<le> card (dom (receipts B s))"
    using l(1) map_le_implies_dom_le[OF le] by (intro card_mono) (simp_all add: ledger_def)
  then have cap: "sqn B t QuotaEntryBucket \<le> q_quotaCapacity q"
    using p(2) l(2) qo by (simp add: counted_def quota_ok_def)
  have dec: "as_receipt v \<noteq> None" if "ent B t QuotaEntryBucket rid = Some v" for rid v
    using that p(3) qo unfolding receipts_kept_def quota_ok_def by (metis option.distinct(1))
  have "receipts B s rid = Some e" if "receipts B t rid = Some e" for rid e
    using that le by (auto simp: map_le_def dom_def)
  then have "linked B t" using qo unfolding quota_ok_def linked_def f by blast
  then have "quota_ok q B t"
    using qo p(1,2) cap dec frame_has[OF p(4)] unfolding quota_ok_def by simp
  moreover have "journal_ok q B t"
    using assms(2) by (auto simp: system_ok_def core_def intro: journal_ok_apart[OF _ a])
  ultimately show "system_ok q B t" using v vt by (simp add: system_ok_def)
qed

text \<open>What samples the usage: the clock, then pruning.\<close>

lemma sample_system:
  assumes "logicalLimitTime B now s = Inr (instant, s1)" "pruneQuota B instant s1 = Inr (u, t)"
    and "system_ok q B s" "int64_range now"
  shows "system_ok q B t" "facts B t = facts B s" "clock_of B t = instant" "clock_of B s \<le> instant" "receipts B t \<subseteq>\<^sub>m receipts B s"
proof -
  note c = clock_system[OF assms(1,3,4)]
  note p = pruneQuota_system[OF assms(2) c(1)]
  show "system_ok q B t" "facts B t = facts B s" "clock_of B t = instant" "clock_of B s \<le> instant" "receipts B t \<subseteq>\<^sub>m receipts B s"
    using p c by simp_all
qed

end

end
