(* ===== verification/Quota_Ops.thy ===== *)
theory Quota_Ops
  imports Quota_Inv
begin

text \<open>
  The quota operations keep the invariant of the whole journal, and what each does to the facts and
  the receipts: the settlement, the checkpoint of a pending call, the check of an admission, the
  admission, the activation, and the reads of usage.
\<close>

lemma store_receipts:
  assumes "ent B t QuotaEntryBucket = (ent B s QuotaEntryBucket)(rid \<mapsto> Receipt e)"
  shows "receipts B t = (receipts B s)(rid \<mapsto> e)"
  using assms by (auto simp: receipts_def fun_eq_iff)

lemma quota_ok_parts:
  assumes "quota_ok q B s"
  shows "\<And>b. b \<in> set quotaBuckets \<Longrightarrow> has B s b" "\<And>rid v. ent B s QuotaEntryBucket rid = Some v \<Longrightarrow> as_receipt v \<noteq> None"
    "ledger B (receipts B s) s" "counted B s" "sqn B s QuotaEntryBucket \<le> q_quotaCapacity q" "linked B s"
  using assms by (simp_all add: quota_ok_def)

lemma linkedD: "linked B s \<Longrightarrow> receipts B s rid = Some e \<Longrightarrow> qr_State e = ''active'' \<longleftrightarrow> (\<exists>p. facts B s rid = Some (Held p))"
  by (simp add: linked_def)

lemma settled_state: "qr_State (settle_receipt e actual d) \<noteq> ''active''"
  by (simp add: settle_receipt_def)

context bolt
begin

section \<open>Settlement\<close>

lemma settle_active:
  assumes "readQuotaMetadata E B s = Inr (m, s)" "receipts B s rid = Some entry" "qr_State entry = ''active''"
    and lt: "logicalLimitTime B now s = Inr (instant, s1)"
    and ap: "forT (qr_Accounts entry) (\<lambda>a. applyQuotaCounter B (qa_Account a) ''active'' entry (-1)) s1 = Inr ((), s2)"
    and iv: "(if c then putB B QuotaInvalidBoundBucket rv (Bytes rid) else okT ()) s2 = Inr ((), s3)"
    and st: "putB B QuotaEntryBucket rid (Receipt settled) s3 = Inr ((), s4)"
    and pr: "projectTerminalQuota B settled instant s4 = Inr ((), s5)"
    and co: "complete_entry B rid payload s5 = Inr ((), t)"
    and settled: "settled = settle_receipt entry actual d" "quotaDigest d" "validQuotaSettlement actual = Inr ()"
    and "valid_entry q rid payload" "system_ok q B s" "int64_range now"
  shows "system_ok q B t" "facts B t = (facts B s)(rid \<mapsto> Final payload)" "receipts B t = (receipts B s)(rid \<mapsto> settled)"
    "clock_of B s \<le> clock_of B t" "ent B t QuotaInvalidBoundBucket = ent B s3 QuotaInvalidBoundBucket"
proof -
  let ?R = "receipts B s" let ?R' = "(receipts B s)(rid \<mapsto> settled)"
  note c1 = clock_system[OF lt assms(14,15)]
  have v2: "version_of B s = ''2''" using readQuotaMetadata_Inr[OF assms(1)] by simp
  then have q1: "quota_ok q B s1" using c1(1,9) by (simp add: system_ok_def)
  note Q = quota_ok_parts[OF q1]
  have l1: "ledger B ?R s1" using Q(3) c1(3) by simp
  note g = ledger_good[OF l1 assms(2)]
  have g': "good_receipt rid settled" unfolding settled(1) by (rule good_settled[OF g settled(3,2)])
  have ns: "qr_State settled \<noteq> ''active''" unfolding settled(1) by (rule settled_state)
  note r = retire_ledger[OF ap l1 assms(2,3) g' ns]
  have a2: "apart B {QuotaCounterBucket} s1 s2" by (rule apart_frame[OF r(2)])
  have f3: "frame B {QuotaInvalidBoundBucket} s2 s3" using iv putB_frame by (auto split: if_splits)
  note a3 = apart_frame[OF f3]
  note p4 = putB_frame[OF st]
  have a4: "apart B {QuotaEntryBucket} s3 s4" using p4 by (intro apart_frame) simp
  have a14: "apart B {QuotaCounterBucket, QuotaInvalidBoundBucket, QuotaEntryBucket} s1 s4"
    using apart_trans[OF apart_trans[OF a2 a3] a4] by (rule apart_mono) auto
  have e3: "ent B s3 QuotaEntryBucket = ent B s1 QuotaEntryBucket"
    using apart_same(2)[OF a2, of QuotaEntryBucket] apart_same(2)[OF a3, of QuotaEntryBucket] by simp
  have e1: "ent B s1 QuotaEntryBucket = ent B s QuotaEntryBucket" by (rule frame_ent[OF c1(8)]) simp
  have e4: "ent B s4 QuotaEntryBucket = (ent B s QuotaEntryBucket)(rid \<mapsto> Receipt settled)" using p4 e3 e1 by simp
  have R4: "receipts B s4 = ?R'" by (rule store_receipts[OF e4])
  have l4: "ledger B ?R' s4" by (rule ledger_apart[OF ledger_apart[OF r(1) a3] a4]) simp_all
  have x4: "ent B s4 QuotaExpiryBucket = ent B s2 QuotaExpiryBucket"
    using apart_same(2)[OF a3, of QuotaExpiryBucket] apart_same(2)[OF a4, of QuotaExpiryBucket] by simp
  have i0: "0 \<le> instant" using c1(6) by simp
  have m4: "?R' rid = Some settled" by simp
  have n4: "ckey x key rid \<notin> dom (ent B s4 QuotaExpiryBucket)" for x key unfolding x4 by (rule r(3))
  note p = project_ledger[OF pr i0 l4 m4 ns n4]
  note a5 = apart_frame[OF p(2)]
  have j5: "journal_ok q B s5"
    using c1(1) by (auto simp: system_ok_def core_def intro!: journal_ok_apart[OF journal_ok_apart[OF _ a14] a5])
  note cc = complete_entry_ok[OF co assms(13) j5]
  have R5: "receipts B s5 = ?R'" using receipts_apart[OF a5] R4 by simp
  show R: "receipts B t = ?R'" using receipts_apart[OF cc(5)] R5 by simp
  have f5: "facts B s5 = facts B s"
    using facts_apart_core[OF a5] facts_apart_core[OF a14] c1(2) by (simp add: core_def)
  obtain o' where held: "facts B s rid = Some (Held o')"
    using linkedD[OF Q(6), of rid entry] assms(2,3) c1(2,3) by auto
  show ft: "facts B t = (facts B s)(rid \<mapsto> Final payload)" using cc(4) f5 held by simp
  show "clock_of B s \<le> clock_of B t"
    using cc(2) clock_of_apart[OF a5] clock_of_apart[OF a14] c1(5) by simp
  show "ent B t QuotaInvalidBoundBucket = ent B s3 QuotaInvalidBoundBucket"
    using apart_same(2)[OF cc(5), of QuotaInvalidBoundBucket] apart_same(2)[OF a5, of QuotaInvalidBoundBucket]
      apart_same(2)[OF a4, of QuotaInvalidBoundBucket] by simp
  have ver: "version_of B t = version_of B s"
    using version_of_apart[OF cc(5)] version_of_apart[OF a5] version_of_apart[OF a14] c1(9) by simp
  have h: "has B t b" if b: "b \<in> set quotaBuckets" for b
  proof -
    have "b \<notin> {PendingBucket, ReadyBucket, LeaseBucket, ActiveCountBucket}" using b by (auto simp: quotaBuckets_def)
    then show ?thesis
      using Q(1)[OF b] frame_has[OF r(2)] frame_has[OF f3] p4 frame_has[of B "{QuotaEntryBucket}" s3 s4 b] frame_has[OF p(2)]
        apart_same(1)[OF cc(5), of b] by simp
  qed
  have et: "ent B t QuotaEntryBucket = (ent B s QuotaEntryBucket)(rid \<mapsto> Receipt settled)"
    using apart_same(2)[OF cc(5), of QuotaEntryBucket] apart_same(2)[OF a5, of QuotaEntryBucket] e4 by simp
  have sq: "sqn B t QuotaEntryBucket = sqn B s1 QuotaEntryBucket"
    using apart_same(3)[OF cc(5), of QuotaEntryBucket] apart_same(3)[OF a5, of QuotaEntryBucket] p4
      apart_same(3)[OF a2, of QuotaEntryBucket] apart_same(3)[OF a3, of QuotaEntryBucket] by simp
  have lt': "ledger B (receipts B t) t" unfolding R by (rule ledger_apart[OF p(1) cc(5)]) simp_all
  have "dom ?R' = dom ?R" using assms(2) by auto
  then have cnt: "counted B t" using Q(4) sq c1(3) unfolding counted_def R by simp
  have li: "linked B t"
    unfolding linked_def R ft using Q(6) ns c1(2,3) by (auto simp: linked_def)
  have dec: "as_receipt v \<noteq> None" if "ent B t QuotaEntryBucket k = Some v" for k v
    using that Q(2)[of k v] e1 by (auto simp: et split: if_splits)
  have "quota_ok q B t" unfolding quota_ok_def using h dec lt' cnt li sq Q(5) by auto
  then show "system_ok q B t" using cc(1) ver v2 by (simp add: system_ok_def)
qed

text \<open>A settlement, the first or a repeated one.\<close>

lemma settle_quota_system:
  assumes "settle_quota E B rid payload actual now s = Inr (e, t)" "valid_entry q rid payload"
    and "validQuotaSettlement actual = Inr ()" "system_ok q B s" "env_ok E" "int64_range now"
  shows "system_ok q B t" "clock_of B s \<le> clock_of B t"
    "facts B t = (case facts B s rid of Some (Held _) \<Rightarrow> (facts B s)(rid \<mapsto> Final payload) | _ \<Rightarrow> facts B s)"
    "receipts B t = (receipts B s)(rid \<mapsto> e)"
    "\<exists>e0. receipts B s rid = Some e0 \<and>
      (if qr_State e0 = ''active'' then e = settle_receipt e0 actual (e_digest E actual payload)
       else e = e0 \<and> qr_SettlementDigest e0 = e_digest E actual payload \<and> t = s)"
    "qr_Overrun e \<Longrightarrow> qb_Revision (qr_Bound e) \<noteq> '''' \<Longrightarrow> \<exists>e0. receipts B s rid = Some e0 \<and> qr_State e0 = ''active'' \<Longrightarrow>
      ent B t QuotaInvalidBoundBucket (qb_Revision (qr_Bound e)) = Some (Bytes rid)"
proof -
  obtain m entry where m: "readQuotaMetadata E B s = Inr (m, s)" and en: "receipts B s rid = Some entry" "check_receipt rid entry = Inr ()"
    and rest: "(if qr_State entry \<noteq> ''active'' then
         thenT (checkT (qr_SettlementDigest entry = e_digest E actual payload) ErrQuotaConflict) (okT entry)
       else
         thenT (checkT (\<not> (qs_Money actual \<noteq> None \<and> qb_Money (qr_Bound entry) \<noteq> None \<and>
                           qs_Currency actual \<noteq> qb_Currency (qr_Bound entry))) ErrQuotaCurrency)
         (bindT (logicalLimitTime B now) (\<lambda>instant.
          thenT (forT (qr_Accounts entry) (\<lambda>a. applyQuotaCounter B (qa_Account a) ''active'' entry (-1)))
          (let settled = settle_receipt entry actual (e_digest E actual payload) in
           thenT (if qr_Overrun settled \<and> qb_Revision (qr_Bound settled) \<noteq> ''''
                  then putB B QuotaInvalidBoundBucket (qb_Revision (qr_Bound settled)) (Bytes rid) else okT ())
           (thenT (storeQuotaReceipt B settled)
           (thenT (projectTerminalQuota B settled instant)
           (thenT (complete_entry B rid payload)
             (okT settled)))))))) s = Inr (e, t)"
    using assms(1) readQuotaMetadata_Inr by (fastforce simp: settle_quota_def bindT_Inr readQuotaReceipt_Inr)
  let ?settled = "settle_receipt entry actual (e_digest E actual payload)"
  have "system_ok q B t \<and> clock_of B s \<le> clock_of B t \<and>
    facts B t = (case facts B s rid of Some (Held _) \<Rightarrow> (facts B s)(rid \<mapsto> Final payload) | _ \<Rightarrow> facts B s) \<and>
    receipts B t = (receipts B s)(rid \<mapsto> e) \<and>
      (if qr_State entry = ''active'' then e = ?settled
       else e = entry \<and> qr_SettlementDigest entry = e_digest E actual payload \<and> t = s) \<and>
    (qr_Overrun e \<and> qb_Revision (qr_Bound e) \<noteq> '''' \<and> qr_State entry = ''active'' \<longrightarrow>
      ent B t QuotaInvalidBoundBucket (qb_Revision (qr_Bound e)) = Some (Bytes rid))"
  proof (cases "qr_State entry = ''active''")
    case False
    have t: "t = s" "e = entry" "qr_SettlementDigest entry = e_digest E actual payload"
      using rest False by (auto simp: thenT_Inr)
    have "quota_ok q B s" using assms(4) readQuotaMetadata_Inr[OF m] by (simp add: system_ok_def)
    then have "\<not> (\<exists>p. facts B s rid = Some (Held p))" using quota_ok_parts(6) linkedD en(1) False by metis
    then show ?thesis using t False assms(4) en(1)
      by (auto simp: fun_eq_iff split: option.splits fact_state.splits)
  next
    case True
    have rq: "qr_RequestID ?settled = rid" using check_receipt_Inr(1)[OF en(2)] by (simp add: settle_receipt_def)
    obtain instant s1 s2 s3 s4 s5 where lt: "logicalLimitTime B now s = Inr (instant, s1)"
      and ap: "forT (qr_Accounts entry) (\<lambda>a. applyQuotaCounter B (qa_Account a) ''active'' entry (-1)) s1 = Inr ((), s2)"
      and iv: "(if qr_Overrun ?settled \<and> qb_Revision (qr_Bound ?settled) \<noteq> ''''
                then putB B QuotaInvalidBoundBucket (qb_Revision (qr_Bound ?settled)) (Bytes rid) else okT ()) s2 = Inr ((), s3)"
      and st: "putB B QuotaEntryBucket rid (Receipt ?settled) s3 = Inr ((), s4)"
      and pr: "projectTerminalQuota B ?settled instant s4 = Inr ((), s5)"
      and co: "complete_entry B rid payload s5 = Inr ((), t)" and e: "e = ?settled"
      using rest True rq unfolding storeQuotaReceipt_def Let_def by (auto simp: bindT_Inr thenT_Inr)
    have dg: "quotaDigest (e_digest E actual payload)" using assms(5) by (simp add: env_ok_def)
    note S = settle_active[OF m en(1) True lt ap iv st pr co refl dg assms(3,2,4,6)]
    obtain p where "facts B s rid = Some (Held p)"
      using assms(4) readQuotaMetadata_Inr[OF m] en(1) True linkedD[OF quota_ok_parts(6), of q B s rid entry]
      by (auto simp: system_ok_def)
    moreover have "ent B t QuotaInvalidBoundBucket (qb_Revision (qr_Bound e)) = Some (Bytes rid)"
      if "qr_Overrun e" "qb_Revision (qr_Bound e) \<noteq> ''''"
    proof -
      have pi: "putB B QuotaInvalidBoundBucket (qb_Revision (qr_Bound ?settled)) (Bytes rid) s2 = Inr ((), s3)"
        using iv that e by simp
      show ?thesis using S(5) putB_frame[OF pi] e by simp
    qed
    ultimately show ?thesis using S True e by auto
  qed
  then show "system_ok q B t" "clock_of B s \<le> clock_of B t"
    "facts B t = (case facts B s rid of Some (Held _) \<Rightarrow> (facts B s)(rid \<mapsto> Final payload) | _ \<Rightarrow> facts B s)"
    "receipts B t = (receipts B s)(rid \<mapsto> e)"
    "\<exists>e0. receipts B s rid = Some e0 \<and>
      (if qr_State e0 = ''active'' then e = settle_receipt e0 actual (e_digest E actual payload)
       else e = e0 \<and> qr_SettlementDigest e0 = e_digest E actual payload \<and> t = s)"
    "qr_Overrun e \<Longrightarrow> qb_Revision (qr_Bound e) \<noteq> '''' \<Longrightarrow> \<exists>e0. receipts B s rid = Some e0 \<and> qr_State e0 = ''active'' \<Longrightarrow>
      ent B t QuotaInvalidBoundBucket (qb_Revision (qr_Bound e)) = Some (Bytes rid)"
    using en(1) by auto
qed

lemma CompleteQuota_ok:
  assumes "CompleteQuota E q B rid payload actual now s = (r, t)" "system_ok q B s" "env_ok E" "int64_range now"
  shows "system_ok q B t \<and> (case r of Inl e \<Rightarrow> t = s | Inr e \<Rightarrow>
      clock_of B s \<le> clock_of B t \<and>
      facts B t = (case facts B s rid of Some (Held _) \<Rightarrow> (facts B s)(rid \<mapsto> Final payload) | _ \<Rightarrow> facts B s) \<and>
      receipts B t = (receipts B s)(rid \<mapsto> e) \<and>
      (\<exists>e0. receipts B s rid = Some e0 \<and>
        (if qr_State e0 = ''active'' then e = settle_receipt e0 actual (e_digest E actual payload)
         else e = e0 \<and> qr_SettlementDigest e0 = e_digest E actual payload)))"
proof (cases "valid_entry q rid payload \<and> validQuotaSettlement actual = Inr ()")
  case False
  then have "t = s \<and> (\<exists>e. r = Inl e)"
    using assms(1) by (cases "validQuotaSettlement actual") (auto simp: CompleteQuota_def split: if_splits)
  then show ?thesis using assms(2) by auto
next
  case True
  then have "update B (settle_quota E B rid payload actual now) s = (r, t)"
    using assms(1) by (simp add: CompleteQuota_def)
  then show ?thesis
  proof (cases rule: op_cases)
    case (commits e t')
    have v: "valid_entry q rid payload" "validQuotaSettlement actual = Inr ()" using True by simp_all
    note S = settle_quota_system[OF commits(2) v assms(2-4)]
    have "receipts B t = receipts B t'" by (rule receipts_apart[OF commits(3)]) simp
    then show ?thesis
      using S(1-4) S(5) commits(1) commit_system[OF commits(3), of q] commit_same[OF commits(3)] by auto
  qed (use assms(2) in simp)
qed

section \<open>The checkpoint of a pending call\<close>

lemma UpdatePendingQuota_ok:
  assumes "UpdatePendingQuota q B rid fallback interrupted s = (r, t)" "system_ok q B s"
  shows "system_ok q B t \<and> (case r of Inl e \<Rightarrow> t = s | Inr _ \<Rightarrow>
      (\<exists>old. facts B s rid = Some (Held old)) \<and> facts B t = (facts B s)(rid \<mapsto> Held fallback) \<and>
      clock_of B t = clock_of B s \<and>
      (\<exists>e. receipts B s rid = Some e \<and> receipts B t = (receipts B s)(rid \<mapsto> e\<lparr>qr_Recovery := interrupted\<rparr>)) \<and>
      (\<forall>d key. amt B t d key = amt B s d key))"
proof (cases "valid_entry q rid fallback \<and> validQuotaSettlement interrupted = Inr ()")
  case False
  then have "t = s \<and> (\<exists>e. r = Inl e)"
    using assms(1) by (cases "validQuotaSettlement interrupted") (auto simp: UpdatePendingQuota_def split: if_splits, metis+)
  then show ?thesis using assms(2) by auto
next
  case True
  then have "update B
            (bindT (getB B ReadyBucket rid) (\<lambda>r.
             bindT (getB B PendingBucket rid) (\<lambda>p.
             thenT (checkT (r = None \<and> p \<noteq> None) ErrMissing)
             (bindT (readQuotaReceipt B rid) (\<lambda>entry.
              thenT (checkT (qr_State entry = ''active'') ErrQuotaConflict)
              (bindT (liftT (validQuotaRecovery (qr_Bound entry) interrupted)) (\<lambda>_.
               thenT (storeQuotaReceipt B (entry\<lparr>qr_Recovery := interrupted\<rparr>))
                 (putB B PendingBucket rid (Bytes fallback))))))))) s = (r, t)"
    using assms(1) by (simp add: UpdatePendingQuota_def)
  then show ?thesis
  proof (cases rule: op_cases)
    case (commits u t')
    obtain e s1 where n: "ent B s ReadyBucket rid = None" "ent B s PendingBucket rid \<noteq> None"
      and e: "receipts B s rid = Some e" "check_receipt rid e = Inr ()" "qr_State e = ''active''"
      and he: "has B s QuotaEntryBucket" and vr: "validQuotaRecovery (qr_Bound e) interrupted = Inr ()"
      and so: "storeQuotaReceipt B (e\<lparr>qr_Recovery := interrupted\<rparr>) s = Inr ((), s1)"
      and pu: "putB B PendingBucket rid (Bytes fallback) s1 = Inr (u, t')"
      using commits(2) by (auto simp: bindT_Inr thenT_Inr getB_Inr readQuotaReceipt_Inr)
    let ?e = "e\<lparr>qr_Recovery := interrupted\<rparr>"
    have st: "putB B QuotaEntryBucket rid (Receipt ?e) s = Inr ((), s1)"
      using so check_receipt_Inr(1)[OF e(2)] by (simp add: storeQuotaReceipt_def)
    note p = putB_frame[OF st]
    have a1: "apart B {QuotaEntryBucket} s s1" using p by (intro apart_frame) simp
    have qo: "quota_ok q B s" using assms(2) he by (rule system_quota)
    note Q = quota_ok_parts[OF qo]
    have v: "version_of B s = ''2''" using system_active[OF assms(2)] he by simp
    have j1: "journal_ok q B s1" using assms(2) by (auto simp: system_ok_def core_def intro: journal_ok_apart[OF _ a1])
    have n1: "ent B s1 ReadyBucket rid = None" "ent B s1 PendingBucket rid \<noteq> None"
      using n apart_same(2)[OF a1] by simp_all
    have ve: "valid_entry q rid fallback" using True by simp
    have P: "journal_ok q B t'" "facts B t' = (facts B s1)(rid \<mapsto> Held fallback)" "clock_of B t' = clock_of B s1"
      using put_pending_journal[OF pu ve j1 n1(1)] n1(2) by blast+
    have a2: "apart B {PendingBucket} s1 t'" using putB_frame[OF pu] by (intro apart_frame) simp
    have f1: "facts B s1 = facts B s" by (rule facts_apart[OF a1]) simp_all
    have R: "receipts B t' = (receipts B s)(rid \<mapsto> ?e)"
      using receipts_apart[OF a2] store_receipts[of B s1 s rid ?e] p by simp
    have g: "good_receipt rid ?e" using ledger_good[OF Q(3) e(1)] e(3) True vr by (intro good_recovery) simp_all
    have "ledger B ((receipts B s)(rid \<mapsto> ?e)) s"
      by (rule same_ledger[OF Q(3) e(1,3) g]) (simp_all add: e(3) weigh_recovery)
    then have "ledger B ((receipts B s)(rid \<mapsto> ?e)) s1" by (rule ledger_apart[OF _ a1]) simp_all
    then have lt: "ledger B (receipts B t') t'" unfolding R by (rule ledger_apart[OF _ a2]) simp_all
    have held: "\<exists>old. facts B s rid = Some (Held old)" using n by (auto simp: facts_def)
    have dm: "dom (receipts B t') = dom (receipts B s)" using e(1) by (auto simp: R)
    have sq: "sqn B t' QuotaEntryBucket = sqn B s QuotaEntryBucket"
      using apart_same(3)[OF a2, of QuotaEntryBucket] p by simp
    have et: "ent B t' QuotaEntryBucket = (ent B s QuotaEntryBucket)(rid \<mapsto> Receipt ?e)"
      using apart_same(2)[OF a2, of QuotaEntryBucket] p by simp
    have h: "has B t' b = has B s b" for b
      using p putB_frame[OF pu] frame_has[of B "{QuotaEntryBucket}" s s1 b] frame_has[of B "{PendingBucket}" s1 t' b] by simp
    have dec: "as_receipt v \<noteq> None" if "ent B t' QuotaEntryBucket k = Some v" for k v
      using that Q(2)[of k v] by (auto simp: et split: if_splits)
    have "linked B t'" using Q(6) e(3) by (auto simp: linked_def R P(2) f1)
    then have "quota_ok q B t'"
      unfolding quota_ok_def using Q(1,4,5) h dec lt sq dm by (auto simp: counted_def)
    then have "system_ok q B t'"
      using P(1) v version_of_apart[OF a1] version_of_apart[OF a2] by (simp add: system_ok_def)
    moreover have "amt B t d key = amt B s d key" for d key
      using amt_apart[OF a1] amt_apart[OF a2] amt_apart[OF commits(3)] by simp
    moreover have "receipts B t = receipts B t'" by (rule receipts_apart[OF commits(3)]) simp
    ultimately show ?thesis
      using held e(1) R P(2,3) f1 clock_of_apart[OF a1] commits(1) commit_system[OF commits(3), of q] commit_same[OF commits(3)]
      by auto
  qed (use assms(2) in simp)
qed

end

end
