(* ===== verification/Quota_Check.thy ===== *)
theory Quota_Check
  imports Quota_Ops
begin

text \<open>
  The check of an admission against the ceilings of its accounts. \<open>quota_fits\<close> says that the bound of
  a call fits under every ceiling of a policy that is enforced, counting what the account has used
  and holds in the window and what its active calls hold; \<open>quota_holds\<close> the same of a state once
  the call is admitted. \<open>checkQuota\<close> passes only where it fits.
\<close>

section \<open>What a ceiling asks\<close>

definition alert_only :: "string \<Rightarrow> bool" where
  "alert_only b \<longleftrightarrow> CanonicalMonthlyBehavior b = Inr MonthlyBehaviorAlertOnly"

definition tokens_in :: "'s bolt \<Rightarrow> 's \<Rightarrow> string \<Rightarrow> string \<Rightarrow> int" where
  "tokens_in B s a w = amt B s TokensUsed (counterKey a w) + amt B s TokensHeld (counterKey a w)"

definition money_in :: "'s bolt \<Rightarrow> 's \<Rightarrow> string \<Rightarrow> string \<Rightarrow> string \<Rightarrow> int" where
  "money_in B s c a w = amt B s (MoneyUsed c) (counterKey a w) + amt B s (MoneyHeld c) (counterKey a w)"

text \<open>The windows a policy enforces, with their ceilings.\<close>

definition enforced_windows :: "quota_limit \<Rightarrow> int \<Rightarrow> (string \<times> int) set" where
  "enforced_windows p monthStart =
     {(''minute'', L) |L. ql_TPM p = Some L} \<union> {(''five_hours'', L) |L. ql_Tokens5H p = Some L} \<union>
     {(''seven_days'', L) |L. ql_Tokens7D p = Some L} \<union>
     {(monthWindow monthStart, L) |L. ql_TokensMonth p = Some L \<and> \<not> alert_only (ql_TokensMonthBehavior p)}"

definition quota_holds :: "'s bolt \<Rightarrow> 's \<Rightarrow> quota_limit \<Rightarrow> int \<Rightarrow> int \<Rightarrow> int \<Rightarrow> bool" where
  "quota_holds B s p monthStart tokens money \<longleftrightarrow>
     (\<forall>(w, L) \<in> enforced_windows p monthStart.
        tokens_in B s (lim_Account (ql_Limit p)) w + tokens_in B s (lim_Account (ql_Limit p)) ''active'' + tokens \<le> L \<and>
        amt B s TokensUnknown (counterKey (lim_Account (ql_Limit p)) w) \<le> 0) \<and>
     (\<forall>m M. ql_MoneyMonth p = Some m \<and> quotaUnits m = Some M \<and> \<not> alert_only (ql_MoneyMonthBehavior p) \<longrightarrow>
        money_in B s (ql_Currency p) (lim_Account (ql_Limit p)) (monthWindow monthStart) +
        money_in B s (ql_Currency p) (lim_Account (ql_Limit p)) ''active'' + money \<le> M \<and>
        amt B s MoneyUnknown (counterKey (lim_Account (ql_Limit p)) (monthWindow monthStart)) \<le> 0)"

text \<open>The bound of a call as numbers: what it reserves of tokens and of money in a currency.\<close>

definition bound_tokens :: "quota_bound \<Rightarrow> int" where
  "bound_tokens b = (case qb_Tokens b of None \<Rightarrow> 0 | Some n \<Rightarrow> n)"

definition bound_money :: "quota_bound \<Rightarrow> int" where
  "bound_money b = (case qb_Money b of None \<Rightarrow> 0 | Some m \<Rightarrow> checked_units m)"

text \<open>Every enforced ceiling has a bound in its dimension, and its currency.\<close>

definition bounded_for :: "quota_limit \<Rightarrow> quota_bound \<Rightarrow> int \<Rightarrow> bool" where
  "bounded_for p b monthStart \<longleftrightarrow>
     (enforced_windows p monthStart \<noteq> {} \<longrightarrow> qb_Tokens b \<noteq> None) \<and>
     (ql_MoneyMonth p \<noteq> None \<longrightarrow> qb_Money b \<noteq> None \<and> qb_Currency b = ql_Currency p)"

definition quota_fits :: "'s bolt \<Rightarrow> 's \<Rightarrow> quota_limit \<Rightarrow> quota_bound \<Rightarrow> int \<Rightarrow> bool" where
  "quota_fits B s p b monthStart \<longleftrightarrow>
     quota_holds B s p monthStart (bound_tokens b) (bound_money b) \<and> bounded_for p b monthStart"

lemma fits_sum: "fits xs r \<Longrightarrow> xs \<noteq> [] \<Longrightarrow> sum_list xs \<le> r"
proof (induction xs arbitrary: r)
  case (Cons x xs)
  then show ?case by (cases xs) (fastforce split: if_splits)+
qed simp

lemma spend_sum:
  assumes "spend_totals c ts M = Inr left" "list_all valid_total ts"
  shows "left + sum_list (map (\<lambda>(_, raw). the (parse_int raw)) ts) = M"
    "\<forall>(c', raw) \<in> set ts. c' = c \<and> parse_int raw \<noteq> None \<and> 0 \<le> the (parse_int raw)"
proof -
  have "left + sum_list (map (\<lambda>(_, raw). the (parse_int raw)) ts) = M \<and>
    (\<forall>(c', raw) \<in> set ts. c' = c \<and> parse_int raw \<noteq> None \<and> 0 \<le> the (parse_int raw))"
    using assms
  proof (induction ts arbitrary: M)
    case (Cons t ts)
    obtain c' raw where t: "t = (c', raw)" by fastforce
    obtain n where n: "c' = c" "parse_int raw = Some n" "spend_totals c ts (M - n) = Inr left"
      using Cons.prems(1) by (auto simp: t split: if_splits option.splits)
    have v: "list_all valid_total ts" "valid_total t" using Cons.prems(2) by simp_all
    have "0 \<le> n" using v(2) n(2) by (simp add: t valid_total_def)
    have ih: "left + sum_list (map (\<lambda>(_, raw). the (parse_int raw)) ts) = M - n"
      "\<forall>(c', raw) \<in> set ts. c' = c \<and> parse_int raw \<noteq> None \<and> 0 \<le> the (parse_int raw)"
      using Cons.IH[OF n(3) v(1)] by (rule conjunct1, rule conjunct2)
    have "left + (n + sum_list (map (\<lambda>(_, raw). the (parse_int raw)) ts)) = M" using ih(1) by linarith
    moreover have "case t of (c', raw) \<Rightarrow> c' = c \<and> parse_int raw \<noteq> None \<and> 0 \<le> the (parse_int raw)"
      using n(1,2) \<open>0 \<le> n\<close> by (simp add: t)
    ultimately show ?case using ih(2) n(2) by (simp add: t)
  qed simp
  then show "left + sum_list (map (\<lambda>(_, raw). the (parse_int raw)) ts) = M"
    "\<forall>(c', raw) \<in> set ts. c' = c \<and> parse_int raw \<noteq> None \<and> 0 \<le> the (parse_int raw)" by (rule conjunct1, rule conjunct2)
qed

lemma money_amount_le_sum:
  assumes "\<forall>(c', raw) \<in> set ts. parse_int raw \<noteq> None \<and> 0 \<le> the (parse_int raw)"
  shows "money_amount ts c \<le> sum_list (map (\<lambda>(_, raw). the (parse_int raw)) ts)"
proof -
  have nonneg: "0 \<le> sum_list (map (\<lambda>(_, raw). the (parse_int raw)) us)" if "set us \<subseteq> set ts" for us
    using assms that by (intro sum_list_nonneg) auto
  show ?thesis
    using assms nonneg
  proof (induction ts)
    case Nil
    then show ?case by (simp add: money_amount_def)
  next
    case (Cons t ts)
    obtain c' raw where t: "t = (c', raw)" by fastforce
    have p: "parse_int raw = Some (the (parse_int raw))" "0 \<le> the (parse_int raw)" using Cons.prems(1) by (auto simp: t)
    have tl: "0 \<le> sum_list (map (\<lambda>(_, raw). the (parse_int raw)) ts)" by (rule Cons.prems(2)) auto
    show ?case
    proof (cases "c' = c")
      case True
      then have "money_amount (t # ts) c = the (parse_int raw)" using p(1) by (auto simp: t money_amount_def split: option.splits)
      then show ?thesis using tl by (simp add: t)
    next
      case False
      then have "money_amount (t # ts) c = money_amount ts c" by (simp add: t money_amount_def)
      moreover have "money_amount ts c \<le> sum_list (map (\<lambda>(_, raw). the (parse_int raw)) ts)"
        using Cons.IH Cons.prems by auto
      ultimately show ?thesis using p(2) by (simp add: t)
    qed
  qed
qed

section \<open>The steps of the check\<close>

lemma read_if_Inr:
  assumes "read_if True B a w s = Inr (k, t)"
  shows "t = s" "valid_counter k" "amount d k = amt B s d (counterKey a w)"
  using assms readQuotaCounter_Inr unfolding read_if_def by (metis (full_types))+

text \<open>One window: where it is enforced, the bound fits.\<close>

definition window_fits :: "'s bolt \<Rightarrow> 's \<Rightarrow> string \<Rightarrow> quota_bound \<Rightarrow> bool \<Rightarrow> string \<times> int \<times> int option \<times> bool \<Rightarrow> bool" where
  "window_fits B s a b tokenSoft w \<longleftrightarrow>
     (case w of (name, _, maxTokens, monthly) \<Rightarrow>
        \<forall>L. maxTokens = Some L \<and> \<not> (monthly \<and> tokenSoft) \<longrightarrow>
          (\<exists>n. qb_Tokens b = Some n \<and> tokens_in B s a name + tokens_in B s a ''active'' + n \<le> L) \<and>
          amt B s TokensUnknown (counterKey a name) \<le> 0)"

lemma check_window_Inr:
  assumes "check_window B a b coverage created True tokenSoft active w constrained s = Inr (c, t)"
    and "\<And>d. amount d active = amt B s d (counterKey a ''active'')"
  shows "t = s" "window_fits B s a b tokenSoft w"
proof -
  obtain name start mx monthly where w: "w = (name, start, mx, monthly)" using prod_cases4 by blast
  have "t = s \<and> window_fits B s a b tokenSoft w"
  proof (cases mx)
    case None
    then show ?thesis using assms(1) by (simp add: check_window_def w window_fits_def)
  next
    case (Some L)
    obtain n used where n: "qb_Tokens b = Some n" and rd: "read_if True B a name s = Inr (used, t)"
      and unk: "\<not> (qc_TokensUnknown used > 0 \<or> qc_TokensUnknown active > 0)"
      and ft: "(monthly \<and> tokenSoft) \<or> fits [qc_TokensUsed used, qc_TokensHeld used, qc_TokensUsed active, qc_TokensHeld active, n] L"
      using assms(1) Some unfolding check_window_def w
      by (auto simp: Let_def bindT_Inr thenT_Inr split: option.splits)
    note r = read_if_Inr[OF rd]
    have am: "qc_TokensUsed used = amt B s TokensUsed (counterKey a name)" "qc_TokensHeld used = amt B s TokensHeld (counterKey a name)"
      "qc_TokensUnknown used = amt B s TokensUnknown (counterKey a name)"
      "qc_TokensUsed active = amt B s TokensUsed (counterKey a ''active'')" "qc_TokensHeld active = amt B s TokensHeld (counterKey a ''active'')"
      using r(3)[of TokensUsed] r(3)[of TokensHeld] r(3)[of TokensUnknown] assms(2)[of TokensUsed] assms(2)[of TokensHeld] by simp_all
    have "(monthly \<and> tokenSoft) \<or> tokens_in B s a name + tokens_in B s a ''active'' + n \<le> L"
      using ft fits_sum[of "[qc_TokensUsed used, qc_TokensHeld used, qc_TokensUsed active, qc_TokensHeld active, n]" L]
      by (auto simp del: fits.simps simp: am tokens_in_def)
    then show ?thesis using r(1) n unk by (auto simp: window_fits_def w Some am)
  qed
  then show "t = s" "window_fits B s a b tokenSoft w" by blast+
qed

lemma check_windows_Inr:
  assumes "foldT (check_window B a b coverage created True tokenSoft active) ws constrained s = Inr (c, t)"
    and "\<And>d. amount d active = amt B s d (counterKey a ''active'')"
  shows "t = s \<and> (\<forall>w \<in> set ws. window_fits B s a b tokenSoft w)"
  using assms
proof (induction ws arbitrary: constrained)
  case Nil
  then show ?case by simp
next
  case (Cons w ws)
  obtain c1 s1 where one: "check_window B a b coverage created True tokenSoft active w constrained s = Inr (c1, s1)"
    and rest: "foldT (check_window B a b coverage created True tokenSoft active) ws c1 s1 = Inr (c, t)"
    using Cons.prems(1) by (auto simp: bindT_Inr)
  note o = check_window_Inr[OF one Cons.prems(2)]
  show ?case using Cons.IH[OF rest[unfolded o(1)] Cons.prems(2)] o(2) by simp
qed

lemma check_money_Inr:
  assumes "check_money B p b coverage created monthStart True soft active constrained s = Inr (c, t)"
    and "\<And>d. amount d active = amt B s d (counterKey (lim_Account (ql_Limit p)) ''active'')" "valid_counter active"
    and m: "ql_MoneyMonth p = Some m"
  shows "t = s" "qb_Money b \<noteq> None" "qb_Currency b = ql_Currency p"
    "quotaUnits m = Some M \<Longrightarrow> \<not> soft \<Longrightarrow>
      money_in B s (ql_Currency p) (lim_Account (ql_Limit p)) (monthWindow monthStart) +
      money_in B s (ql_Currency p) (lim_Account (ql_Limit p)) ''active'' + bound_money b \<le> M"
    "amt B s MoneyUnknown (counterKey (lim_Account (ql_Limit p)) (monthWindow monthStart)) \<le> 0"
proof -
  let ?a = "lim_Account (ql_Limit p)" let ?c = "ql_Currency p"
  obtain M' reserve used left where M': "quotaUnits m = Some M'" and rs: "qb_Money b = Some reserve" "qb_Currency b = ?c"
    and rd: "read_if True B ?a (monthWindow monthStart) s = Inr (used, t)"
    and unk: "\<not> (qc_MoneyUnknown used > 0 \<or> qc_MoneyUnknown active > 0)"
    and sp: "spend_totals ?c (qc_MoneyUsed used @ qc_MoneyHeld used @ qc_MoneyUsed active @ qc_MoneyHeld active) M' = Inr left"
    and ok: "\<not> (left < checked_units reserve \<and> \<not> soft)"
    using assms(1) m unfolding check_money_def
    by (auto simp: bindT_Inr thenT_Inr split: option.splits)
  note r = read_if_Inr[OF rd]
  show "t = s" "qb_Money b \<noteq> None" "qb_Currency b = ?c" using r(1) rs by simp_all
  have "qc_MoneyUnknown used = amt B s MoneyUnknown (counterKey ?a (monthWindow monthStart))" using r(3)[of MoneyUnknown] by simp
  then show "amt B s MoneyUnknown (counterKey ?a (monthWindow monthStart)) \<le> 0" using unk by simp
  let ?ts = "qc_MoneyUsed used @ qc_MoneyHeld used @ qc_MoneyUsed active @ qc_MoneyHeld active"
  have va: "list_all valid_total ?ts" using r(2) assms(3) by (simp add: valid_counter_def)
  note S = spend_sum[OF sp va]
  have le: "money_amount ts ?c \<le> sum_list (map (\<lambda>(_, raw). the (parse_int raw)) ts)" if "set ts \<subseteq> set ?ts" for ts
    by (rule money_amount_le_sum) (use S(2) that in blast)
  have "money_amount (qc_MoneyUsed used) ?c + money_amount (qc_MoneyHeld used) ?c +
      money_amount (qc_MoneyUsed active) ?c + money_amount (qc_MoneyHeld active) ?c \<le> sum_list (map (\<lambda>(_, raw). the (parse_int raw)) ?ts)"
  proof -
    have "money_amount (qc_MoneyUsed used) ?c \<le> sum_list (map (\<lambda>(_, raw). the (parse_int raw)) (qc_MoneyUsed used))"
      "money_amount (qc_MoneyHeld used) ?c \<le> sum_list (map (\<lambda>(_, raw). the (parse_int raw)) (qc_MoneyHeld used))"
      "money_amount (qc_MoneyUsed active) ?c \<le> sum_list (map (\<lambda>(_, raw). the (parse_int raw)) (qc_MoneyUsed active))"
      "money_amount (qc_MoneyHeld active) ?c \<le> sum_list (map (\<lambda>(_, raw). the (parse_int raw)) (qc_MoneyHeld active))"
      by (rule le, simp, blast?)+
    then show ?thesis by simp
  qed
  then show "money_in B s ?c ?a (monthWindow monthStart) + money_in B s ?c ?a ''active'' + bound_money b \<le> M"
    if "quotaUnits m = Some M" "\<not> soft"
    using that M' S(1) ok rs(1) r(3)[of "MoneyUsed ?c"] r(3)[of "MoneyHeld ?c"] assms(2)[of "MoneyUsed ?c"] assms(2)[of "MoneyHeld ?c"]
    by (simp add: money_in_def bound_money_def)
qed

text \<open>A policy that passes: its revision and creation are valid, its bound fits.\<close>

lemma check_behavior_Inr: "check_behavior p = Inr (tokenSoft, moneySoft) \<Longrightarrow>
    tokenSoft = alert_only (ql_TokensMonthBehavior p) \<and> moneySoft = alert_only (ql_MoneyMonthBehavior p)"
proof -
  assume c: "check_behavior p = Inr (tokenSoft, moneySoft)"
  obtain tb mb where b: "CanonicalMonthlyBehavior (ql_TokensMonthBehavior p) = Inr tb"
    "CanonicalMonthlyBehavior (ql_MoneyMonthBehavior p) = Inr mb"
    using c unfolding check_behavior_def by (simp split: sum.splits)
  have "tokenSoft = (tb = MonthlyBehaviorAlertOnly) \<and> moneySoft = (mb = MonthlyBehaviorAlertOnly)"
    using c unfolding check_behavior_def b by (simp add: Let_def if_Inl_Inr)
  then show ?thesis by (simp add: alert_only_def b)
qed

lemma windows_of:
  "(name, L) \<in> {(a, L) |L. x = Some L} \<union> {(b, L) |L. y = Some L} \<union> {(c, L) |L. z = Some L} \<union>
     {(d, L) |L. m = Some L \<and> \<not> soft} \<Longrightarrow>
   \<exists>start monthly. (name, start, Some L, monthly) \<in> set [(a, sa, x, False), (b, sb, y, False), (c, sc, z, False), (d, sd, m, True)] \<and>
     \<not> (monthly \<and> soft)"
  by auto

lemma holds_windows:
  assumes "\<forall>w \<in> set (token_windows p instant monthStart). window_fits B s (lim_Account (ql_Limit p)) b (alert_only (ql_TokensMonthBehavior p)) w"
    and "(name, L) \<in> enforced_windows p monthStart"
  shows "tokens_in B s (lim_Account (ql_Limit p)) name + tokens_in B s (lim_Account (ql_Limit p)) ''active'' + bound_tokens b \<le> L"
    "amt B s TokensUnknown (counterKey (lim_Account (ql_Limit p)) name) \<le> 0" "qb_Tokens b \<noteq> None"
proof -
  obtain start monthly where w: "(name, start, Some L, monthly) \<in> set (token_windows p instant monthStart)"
    "\<not> (monthly \<and> alert_only (ql_TokensMonthBehavior p))"
    using windows_of[OF assms(2)[unfolded enforced_windows_def]] unfolding token_windows_def by metis
  have "window_fits B s (lim_Account (ql_Limit p)) b (alert_only (ql_TokensMonthBehavior p)) (name, start, Some L, monthly)"
    using assms(1) w(1) by blast
  then obtain n where "qb_Tokens b = Some n"
    "tokens_in B s (lim_Account (ql_Limit p)) name + tokens_in B s (lim_Account (ql_Limit p)) ''active'' + n \<le> L"
    "amt B s TokensUnknown (counterKey (lim_Account (ql_Limit p)) name) \<le> 0"
    using w(2) by (auto simp: window_fits_def)
  then show "tokens_in B s (lim_Account (ql_Limit p)) name + tokens_in B s (lim_Account (ql_Limit p)) ''active'' + bound_tokens b \<le> L"
    "amt B s TokensUnknown (counterKey (lim_Account (ql_Limit p)) name) \<le> 0" "qb_Tokens b \<noteq> None"
    by (simp_all add: bound_tokens_def)
qed

lemma quota_fits_frame: "frame B bs s t \<Longrightarrow> QuotaCounterBucket \<notin> bs \<Longrightarrow> quota_fits B t p b x = quota_fits B s p b x"
  by (simp add: quota_fits_def quota_holds_def tokens_in_def money_in_def amt_apart[OF apart_frame, of B bs s t])

context bolt
begin

lemma checkQuota_Inr:
  assumes "checkQuota B p b metadata instant monthStart True establish s = Inr (u, t)"
  shows "frame B {QuotaAccountBucket} s t" "quota_fits B s p b monthStart" "validKey (ql_Revision p)"
    "\<not> establish \<Longrightarrow> t = s"
proof -
  let ?a = "lim_Account (ql_Limit p)"
  let ?soft = "alert_only (ql_TokensMonthBehavior p)" let ?msoft = "alert_only (ql_MoneyMonthBehavior p)"
  obtain created s1 active c1 s2 c2 s3 where be: "check_behavior p = Inr (?soft, ?msoft)"
    and rv: "validKey (ql_Revision p)"
    and ca: "check_account B ?a created establish s = Inr ((), s1)"
    and rd: "read_if True B ?a ''active'' s1 = Inr (active, s1)"
    and ws: "foldT (check_window B ?a b (qm_CoverageStart metadata) created True ?soft active) (token_windows p instant monthStart) False s1 = Inr (c1, s2)"
    and mo: "check_money B p b (qm_CoverageStart metadata) created monthStart True ?msoft active c1 s2 = Inr (c2, s3)"
    and en: "(if \<not> c2 then okT () else bindT (if True then getB B QuotaInvalidBoundBucket (qb_Revision b) else okT None) (\<lambda>invalid.
           checkT (qb_Revision b \<noteq> '''' \<and> invalid = None) ErrQuotaBound)) s3 = Inr (u, t)"
    using assms unfolding checkQuota_def Let_def
    by (fastforce simp: bindT_Inr thenT_Inr dest: check_behavior_Inr read_if_Inr(1))
  note A = read_if_Inr[OF rd]
  have am: "amount d active = amt B s1 d (counterKey ?a ''active'')" for d by (rule A(3))
  note W = check_windows_Inr[OF ws am]
  have s2: "s2 = s1" using W by simp
  have s3: "s3 = s2" using mo check_money_Inr(1)[OF mo[unfolded s2] am A(2)] s2
    by (cases "ql_MoneyMonth p") (auto simp: check_money_def)
  have t: "t = s1" using en s2 s3 by (auto simp: bindT_Inr getB_Inr split: if_splits)
  have f: "frame B {QuotaAccountBucket} s s1 \<and> (\<not> establish \<longrightarrow> s1 = s)"
    using ca putB_frame unfolding check_account_def by (auto simp: bindT_Inr getB_Inr split: option.splits if_splits)
  then show "frame B {QuotaAccountBucket} s t" "\<not> establish \<Longrightarrow> t = s" by (simp_all add: t)
  show "validKey (ql_Revision p)" by (rule rv)
  have H: "tokens_in B s1 ?a name + tokens_in B s1 ?a ''active'' + bound_tokens b \<le> L"
    "amt B s1 TokensUnknown (counterKey ?a name) \<le> 0" "qb_Tokens b \<noteq> None"
    if "(name, L) \<in> enforced_windows p monthStart" for name L
    using holds_windows[OF conjunct2[OF W] that] by simp_all
  have M: "money_in B s1 (ql_Currency p) ?a (monthWindow monthStart) + money_in B s1 (ql_Currency p) ?a ''active'' + bound_money b \<le> M \<and>
      amt B s1 MoneyUnknown (counterKey ?a (monthWindow monthStart)) \<le> 0"
    if "ql_MoneyMonth p = Some m" "quotaUnits m = Some M" "\<not> ?msoft" for m M
    using check_money_Inr(4,5)[OF mo[unfolded s2] am A(2) that(1)] that(2,3) by blast
  have bd: "bounded_for p b monthStart"
    unfolding bounded_for_def
  proof (intro conjI impI)
    show "enforced_windows p monthStart \<noteq> {} \<Longrightarrow> qb_Tokens b \<noteq> None" using H(3) by fast
  next
    assume "ql_MoneyMonth p \<noteq> None"
    then obtain m where "ql_MoneyMonth p = Some m" by blast
    from check_money_Inr(2,3)[OF mo[unfolded s2] am A(2) this]
    show "qb_Money b \<noteq> None" "qb_Currency b = ql_Currency p" by simp_all
  qed
  have "quota_fits B s1 p b monthStart"
    unfolding quota_fits_def quota_holds_def using H(1,2) M bd by blast
  then show "quota_fits B s p b monthStart" using quota_fits_frame[OF conjunct1[OF f]] by simp
qed

lemma check_policies_Inr:
  assumes "forT ps (\<lambda>p. checkQuota B p b metadata instant monthStart True establish) s = Inr (u, t)"
  shows "frame B {QuotaAccountBucket} s t \<and> (\<forall>p \<in> set ps. quota_fits B s p b monthStart \<and> validKey (ql_Revision p)) \<and>
    (\<not> establish \<longrightarrow> t = s)"
  using assms
proof (induction ps arbitrary: s)
  case Nil
  then show ?case by simp
next
  case (Cons p ps)
  obtain s1 where one: "checkQuota B p b metadata instant monthStart True establish s = Inr ((), s1)"
    and rest: "forT ps (\<lambda>p. checkQuota B p b metadata instant monthStart True establish) s1 = Inr (u, t)"
    using Cons.prems by (auto simp: thenT_Inr)
  note c = checkQuota_Inr[OF one]
  note IH = Cons.IH[OF rest]
  show ?case using IH c quota_fits_frame[OF c(1)] by (auto intro: frame_trans)
qed

end

section \<open>The check of an admission\<close>

lemma system_ok_account:
  assumes "system_ok q B s" "frame B {QuotaAccountBucket} s t"
  shows "system_ok q B t"
proof -
  note a = apart_frame[OF assms(2)]
  have h: "has B t b = has B s b" for b by (rule frame_has[OF assms(2)])
  have r: "receipts B t = receipts B s" by (rule receipts_apart[OF a]) simp
  have f: "facts B t = facts B s" by (rule facts_apart[OF a]) simp_all
  have j: "journal_ok q B t" using assms(1) by (auto simp: system_ok_def core_def intro: journal_ok_apart[OF _ a])
  have v: "version_of B t = version_of B s" by (rule version_of_apart[OF a]) simp
  have "quota_ok q B t" if "quota_ok q B s"
  proof -
    have "ledger B (receipts B s) t" using that ledger_apart[OF _ a] by (simp add: quota_ok_def)
    moreover have "counted B t" using that counted_apart[OF _ a] by (simp add: quota_ok_def)
    moreover have "linked B t" using that by (simp add: quota_ok_def linked_def r f)
    ultimately show ?thesis
      using that frame_ent[OF assms(2), of QuotaEntryBucket] frame_sqn[OF assms(2), of QuotaEntryBucket]
      by (simp add: quota_ok_def r h)
  qed
  then show ?thesis using assms(1) j v h by (simp add: system_ok_def)
qed

lemma quotaMonth_Inr: "quotaMonth E instant zone = Inr (a, b) \<Longrightarrow> 0 \<le> a \<and> instant < b \<and> e_zone E zone \<and> (a, b) = e_month E zone instant"
  by (auto simp: quotaMonth_def split: if_splits prod.splits)

context bolt
begin

lemma keeps_checkQuota_inactive: "keeps B bs (checkQuota B p b metadata instant monthStart False establish)"
proof -
  have "keeps B bs (if False then check_account B account created establish else okT ())" for account created
    by (simp add: keeps_rules)
  note step = this
  show ?thesis unfolding checkQuota_def by (intro step keeps_rules)
qed

lemma checkLimitAdmission_system:
  assumes "checkLimitAdmission q B rid limits now s = Inr ((instant, accounts), t)" "system_ok q B s" "int64_range now"
  shows "system_ok q B t" "receipts B t = receipts B s" "version_of B t = version_of B s"
proof -
  have j: "journal_ok q B s" using assms(2) by (simp add: system_ok_def)
  note c = checkLimitAdmission_ok[OF assms(1) j assms(3)]
  note a = apart_frame[OF c(14)]
  show v: "version_of B t = version_of B s" by (rule checkLimitAdmission_version[OF assms(1)])
  show "receipts B t = receipts B s" by (rule receipts_apart[OF a]) simp
  show "system_ok q B t" by (rule facts_system[OF assms(2) c(1) a _ v]) (simp_all add: quotaBuckets_def c(2))
qed

lemma checkQuotaAdmission_split:
  assumes "checkQuotaAdmission E q B rid policies b zone now establish s = Inr ((entry, accounts), t)"
  shows "\<exists>instant s1 s2 metadata zone' start end'. (zone = [] \<longrightarrow> version_of B s = ''2'') \<and>
    (has B s QuotaEntryBucket \<longrightarrow> ent B s QuotaEntryBucket rid = None) \<and>
    checkLimitAdmission q B rid (map ql_Limit policies) now s = Inr ((instant, accounts), s1) \<and>
    (version_of B s = ''2'' \<longrightarrow> pruneQuota B instant s1 = Inr ((), s2) \<and> sqn B s2 QuotaEntryBucket < q_quotaCapacity q) \<and>
    (version_of B s \<noteq> ''2'' \<longrightarrow> s2 = s1) \<and>
    quotaMonth E instant zone' = Inr (start, end') \<and> instant \<le> max_int64 - seven_days_ns \<and>
    forT policies (\<lambda>p. checkQuota B p b metadata instant start (version_of B s = ''2'') establish) s2 = Inr ((), t) \<and>
    entry = \<lparr>qr_RequestID = rid, qr_AdmittedAt = instant, qr_MonthStart = start, qr_MonthEnd = end',
                qr_Accounts = map (\<lambda>p. \<lparr>qa_Account = lim_Account (ql_Limit p), qa_Revision = ql_Revision p\<rparr>) policies,
                qr_Bound = b, qr_State = ''active'', qr_Actual = no_settlement, qr_Recovery = no_settlement,
                qr_SettlementDigest = [], qr_Overrun = False\<rparr>"
  using assms unfolding checkQuotaAdmission_def Let_def
  by (cases "version_of B s = ''2''")
    (auto simp: bindT_Inr thenT_Inr metaText_version hasB_Inr getB_Inr seqB_Inr dest!: readQuotaMetadata_Inr split: if_splits)

lemma policies_check:
  assumes "forT ps (\<lambda>p. checkQuota B p b metadata instant monthStart active establish) s = Inr (u, t)" "system_ok q B s"
  shows "system_ok q B t" "apart B {QuotaAccountBucket} s t"
    "active \<Longrightarrow> \<forall>p \<in> set ps. quota_fits B t p b monthStart \<and> validKey (ql_Revision p)"
    "active \<Longrightarrow> frame B {QuotaAccountBucket} s t"
    "\<not> establish \<Longrightarrow> apart B {} s t"
proof -
  have "system_ok q B t \<and> apart B {QuotaAccountBucket} s t \<and>
      (active \<longrightarrow> (\<forall>p \<in> set ps. quota_fits B t p b monthStart \<and> validKey (ql_Revision p))) \<and>
      (active \<longrightarrow> frame B {QuotaAccountBucket} s t) \<and> (\<not> establish \<longrightarrow> apart B {} s t)"
  proof (cases active)
    case True
    then have "forT ps (\<lambda>p. checkQuota B p b metadata instant monthStart True establish) s = Inr (u, t)"
      using assms(1) by simp
    note c = check_policies_Inr[OF this]
    have f: "frame B {QuotaAccountBucket} s t" using c by simp
    then show ?thesis
      using c True system_ok_account[OF assms(2) f] quota_fits_frame[OF f] apart_frame[OF f] by simp
  next
    case False
    then have po: "forT ps (\<lambda>p. checkQuota B p b metadata instant monthStart False establish) s = Inr (u, t)"
      using assms(1) by simp
    have "keeps B {} (forT ps (\<lambda>p. checkQuota B p b metadata instant monthStart False establish))"
      by (intro keeps_for keeps_checkQuota_inactive)
    from keepsD[OF this po] have a: "apart B {} s t" .
    then show ?thesis using False commit_system[OF a] assms(2) apart_mono[OF a] by simp
  qed
  then show "system_ok q B t" "apart B {QuotaAccountBucket} s t"
    "active \<Longrightarrow> \<forall>p \<in> set ps. quota_fits B t p b monthStart \<and> validKey (ql_Revision p)"
    "active \<Longrightarrow> frame B {QuotaAccountBucket} s t" "\<not> establish \<Longrightarrow> apart B {} s t" by simp_all
qed

lemma checkQuotaAdmission_Inr:
  assumes "checkQuotaAdmission E q B rid policies b zone now establish s = Inr ((entry, accounts), t)"
    and "system_ok q B s" "int64_range now"
  shows "system_ok q B t" "facts B t = facts B s" "clock_of B t = qr_AdmittedAt entry" "clock_of B s \<le> clock_of B t"
    "recent B t" "rid \<notin> dom (facts B s)" "int (card (dom (facts B s))) < q_capacity q"
    "accounts = map lim_Account (map ql_Limit policies)" "distinct accounts" "\<forall>l \<in> set (map ql_Limit policies). admits B t l"
    "0 < qr_AdmittedAt entry" "int64_range (qr_AdmittedAt entry)" "qr_AdmittedAt entry \<le> max_int64 - seven_days_ns"
    "receipts B t \<subseteq>\<^sub>m receipts B s" "version_of B t = version_of B s"
    "\<exists>start end' zone'. quotaMonth E (qr_AdmittedAt entry) zone' = Inr (start, end') \<and>
       entry = \<lparr>qr_RequestID = rid, qr_AdmittedAt = qr_AdmittedAt entry, qr_MonthStart = start, qr_MonthEnd = end',
                qr_Accounts = map (\<lambda>p. \<lparr>qa_Account = lim_Account (ql_Limit p), qa_Revision = ql_Revision p\<rparr>) policies,
                qr_Bound = b, qr_State = ''active'', qr_Actual = no_settlement, qr_Recovery = no_settlement,
                qr_SettlementDigest = [], qr_Overrun = False\<rparr>"
    "zone = [] \<Longrightarrow> version_of B s = ''2''"
    "version_of B s = ''2'' \<Longrightarrow> sqn B t QuotaEntryBucket < q_quotaCapacity q"
    "version_of B s = ''2'' \<Longrightarrow> receipts B t rid = None"
    "version_of B s = ''2'' \<Longrightarrow> \<forall>p \<in> set policies. quota_fits B t p b (qr_MonthStart entry) \<and> validKey (ql_Revision p)"
    "ent B t PendingBucket = ent B s PendingBucket" "ent B t LeaseBucket = ent B s LeaseBucket"
proof -
  let ?active = "version_of B s = ''2''"
  let ?entry = "\<lambda>instant start end'. \<lparr>qr_RequestID = rid, qr_AdmittedAt = instant, qr_MonthStart = start, qr_MonthEnd = end',
                qr_Accounts = map (\<lambda>p. \<lparr>qa_Account = lim_Account (ql_Limit p), qa_Revision = ql_Revision p\<rparr>) policies,
                qr_Bound = b, qr_State = ''active'', qr_Actual = no_settlement, qr_Recovery = no_settlement,
                qr_SettlementDigest = [], qr_Overrun = False\<rparr>"
  obtain instant s1 s2 metadata zone' start end' where z: "zone = [] \<longrightarrow> ?active"
    and kn: "has B s QuotaEntryBucket \<longrightarrow> ent B s QuotaEntryBucket rid = None"
    and ch: "checkLimitAdmission q B rid (map ql_Limit policies) now s = Inr ((instant, accounts), s1)"
    and pr: "?active \<longrightarrow> pruneQuota B instant s1 = Inr ((), s2) \<and> sqn B s2 QuotaEntryBucket < q_quotaCapacity q"
    and np: "\<not> ?active \<longrightarrow> s2 = s1"
    and mo: "quotaMonth E instant zone' = Inr (start, end')" and mx: "instant \<le> max_int64 - seven_days_ns"
    and po: "forT policies (\<lambda>p. checkQuota B p b metadata instant start ?active establish) s2 = Inr ((), t)"
    and en: "entry = ?entry instant start end'"
    using checkQuotaAdmission_split[OF assms(1)] by (elim exE conjE)
  have j: "journal_ok q B s" using assms(2) by (simp add: system_ok_def)
  note c = checkLimitAdmission_ok[OF ch j assms(3)] and cs = checkLimitAdmission_system[OF ch assms(2,3)]
  have P: "system_ok q B s2 \<and> facts B s2 = facts B s1 \<and> clock_of B s2 = clock_of B s1 \<and> receipts B s2 \<subseteq>\<^sub>m receipts B s1 \<and>
      apart B {QuotaCounterBucket, QuotaExpiryBucket, QuotaEntryBucket} s1 s2"
  proof (cases ?active)
    case True
    then have p: "pruneQuota B instant s1 = Inr ((), s2)" using pr by blast
    from pruneQuota_system[OF p cs(1)] show ?thesis by (simp add: apart_frame)
  qed (use cs(1) np in simp)
  then have P': "system_ok q B s2" "apart B {QuotaCounterBucket, QuotaExpiryBucket, QuotaEntryBucket} s1 s2" by simp_all
  note k = policies_check[OF po P'(1)]
  note a2 = P'(2)
  note a = apart_trans[OF a2 k(2)]
  show "system_ok q B t" by (rule k(1))
  show "facts B t = facts B s" using P c(2) facts_apart[OF k(2)] by simp
  show ct: "clock_of B t = qr_AdmittedAt entry" using P c(3) clock_of_apart[OF k(2)] en by simp
  then show "clock_of B s \<le> clock_of B t" using c(13) en by simp
  show "recent B t" using c(4) recent_apart[OF a] by simp
  show "rid \<notin> dom (facts B s)" "int (card (dom (facts B s))) < q_capacity q" by (fact c)+
  show "accounts = map lim_Account (map ql_Limit policies)" "distinct accounts" by (fact c)+
  show "\<forall>l \<in> set (map ql_Limit policies). admits B t l" using c(9) admits_apart[OF a] by simp
  show "0 < qr_AdmittedAt entry" "int64_range (qr_AdmittedAt entry)" "qr_AdmittedAt entry \<le> max_int64 - seven_days_ns"
    using c(10,11) mx en by simp_all
  have rt: "receipts B t = receipts B s2" by (rule receipts_apart[OF k(2)]) simp
  show le: "receipts B t \<subseteq>\<^sub>m receipts B s" using P cs(2) rt by simp
  show "receipts B t rid = None" if ?active
  proof -
    have "receipts B s rid = None" using kn that system_active[OF assms(2)] by (simp add: receipts_def)
    then show ?thesis using le by (metis domIff map_le_def)
  qed
  show vt: "version_of B t = version_of B s"
    using cs(3) version_of_apart[OF a2] version_of_apart[OF k(2)] by simp
  show "\<exists>start end' zone'. quotaMonth E (qr_AdmittedAt entry) zone' = Inr (start, end') \<and>
       entry = ?entry (qr_AdmittedAt entry) start end'"
    using mo en by (intro exI[of _ start] exI[of _ end'] exI[of _ zone']) simp
  show "zone = [] \<Longrightarrow> ?active" using z by simp
  show "?active \<Longrightarrow> sqn B t QuotaEntryBucket < q_quotaCapacity q"
    using pr apart_same(3)[OF k(2), of QuotaEntryBucket] by simp
  show "?active \<Longrightarrow> \<forall>p \<in> set policies. quota_fits B t p b (qr_MonthStart entry) \<and> validKey (ql_Revision p)"
    using k(3) en by simp
  show "ent B t PendingBucket = ent B s PendingBucket" "ent B t LeaseBucket = ent B s LeaseBucket"
    using apart_same(2)[OF a] frame_ent[OF c(14)] by simp_all
qed

end

end
