(* ===== verification/Quota_Admit.thy ===== *)
theory Quota_Admit
  imports Quota_Check
begin

text \<open>
  The admission of a call: a passed check is committed with its facts, its leases and its economic
  holds, the invariant of the whole journal is kept, and afterwards every ceiling of every account
  holds with the call counted in. A preflight check has no such effect.
\<close>

lemma account_steps_ok:
  assumes "distinct (map qa_Account as)" "set (map qa_Account as) \<inter> set seen = {}"
    and "\<forall>a \<in> set as. validKey (qa_Account a) \<and> validKey (qa_Revision a)"
  shows "\<exists>seen'. foldE account_step as seen = Inr seen'"
  using assms
proof (induction as arbitrary: seen)
  case (Cons a as)
  have "account_step a seen = Inr (qa_Account a # seen)" using Cons.prems by (simp add: account_step_Inr)
  moreover have "\<exists>seen'. foldE account_step as (qa_Account a # seen) = Inr seen'"
    by (rule Cons.IH) (use Cons.prems in auto)
  ultimately show ?case by (auto simp: bindE_Inr_iff)
qed simp

text \<open>The receipt of an admission passes its check.\<close>

lemma admitted_good:
  assumes "validKey rid" "0 < instant" "instant \<le> max_int64 - seven_days_ns" "quotaMonth E instant zone = Inr (start, end')"
    and "env_ok E" "policies \<noteq> []" "length policies \<le> 8" "validQuotaBound b = Inr ()"
    and "validQuotaSettlement r = Inr ()" "validQuotaRecovery b r = Inr ()"
    and "distinct (map lim_Account (map ql_Limit policies))"
    and "\<forall>p \<in> set policies. validKey (lim_Account (ql_Limit p)) \<and> validKey (ql_Revision p)"
  shows "good_receipt rid \<lparr>qr_RequestID = rid, qr_AdmittedAt = instant, qr_MonthStart = start, qr_MonthEnd = end',
                qr_Accounts = map (\<lambda>p. \<lparr>qa_Account = lim_Account (ql_Limit p), qa_Revision = ql_Revision p\<rparr>) policies,
                qr_Bound = b, qr_State = ''active'', qr_Actual = no_settlement, qr_Recovery = r,
                qr_SettlementDigest = [], qr_Overrun = False\<rparr>"
proof -
  let ?as = "map (\<lambda>p. \<lparr>qa_Account = lim_Account (ql_Limit p), qa_Revision = ql_Revision p\<rparr>) policies"
  have "\<exists>seen. foldE account_step ?as [] = Inr seen"
    by (rule account_steps_ok) (use assms(11,12) in \<open>auto simp: comp_def\<close>)
  moreover note q = quotaMonth_Inr[OF assms(4)]
  have "int64_range end'" using q assms(5) unfolding env_ok_def by (metis snd_conv)
  ultimately show ?thesis
    using assms q no_settlement_valid unfolding good_receipt_def check_receipt_iff
    by (simp add: no_settlement_def)
qed

lemma weigh_active:
  assumes "qr_State e = ''active''"
  shows "weigh TokensUsed e = 0" "weigh TokensHeld e = bound_tokens (qr_Bound e)" "weigh (MoneyUsed c) e = 0"
    "qb_Money (qr_Bound e) \<noteq> None \<Longrightarrow> weigh (MoneyHeld c) e = (if qb_Currency (qr_Bound e) = c then bound_money (qr_Bound e) else 0)"
  using assms by (auto simp: weight_tokens_def weight_money_def bound_tokens_def bound_money_def split: option.splits)

lemma four_names:
  "(w, L) \<in> {(a, L) |L. x = Some L} \<union> {(b, L) |L. y = Some L} \<union> {(c, L) |L. z = Some L} \<union> {(d, L) |L. m = Some L \<and> \<not> soft} \<Longrightarrow>
    w = a \<or> w = b \<or> w = c \<or> w = d"
  by auto

lemma enforced_name: "(w, L) \<in> enforced_windows p monthStart \<Longrightarrow> w \<noteq> ''active''"
proof -
  assume "(w, L) \<in> enforced_windows p monthStart"
  from four_names[OF this[unfolded enforced_windows_def]] show ?thesis
    by (elim disjE) (simp_all add: month_name)
qed

lemma applied_amounts:
  assumes am: "\<And>d key. amt B t d key = amt B s d key + (if \<exists>a \<in> set as. key = counterKey (qa_Account a) w0 then f d else 0)"
    and mem: "\<exists>a \<in> set as. qa_Account a = acct" and pl: "\<forall>a \<in> set as. plain (qa_Account a)"
  shows "w \<noteq> w0 \<Longrightarrow> amt B t d (counterKey acct w) = amt B s d (counterKey acct w)"
    "amt B t d (counterKey acct w0) = amt B s d (counterKey acct w0) + f d"
proof -
  have pa: "plain acct" using mem pl by auto
  show "amt B t d (counterKey acct w) = amt B s d (counterKey acct w)" if "w \<noteq> w0"
  proof -
    have "\<not> (\<exists>a \<in> set as. counterKey acct w = counterKey (qa_Account a) w0)"
      using that pa pl counterKey_inj by blast
    then show ?thesis using am[of d "counterKey acct w"] by simp
  qed
  have "\<exists>a \<in> set as. counterKey acct w0 = counterKey (qa_Account a) w0" using mem by blast
  then show "amt B t d (counterKey acct w0) = amt B s d (counterKey acct w0) + f d"
    using am[of d "counterKey acct w0"] by simp
qed

text \<open>A ceiling that the bound fits under holds once the bound is counted as held.\<close>

lemma fits_then_holds:
  assumes "quota_fits B s p b monthStart" "qr_State e = ''active''" "qr_Bound e = b"
    and am: "\<And>d key. amt B t d key = amt B s d key + (if \<exists>a \<in> set (qr_Accounts e). key = counterKey (qa_Account a) ''active'' then weigh d e else 0)"
    and mem: "\<exists>a \<in> set (qr_Accounts e). qa_Account a = lim_Account (ql_Limit p)" and pl: "\<forall>a \<in> set (qr_Accounts e). plain (qa_Account a)"
  shows "quota_holds B t p monthStart 0 0"
proof -
  let ?a = "lim_Account (ql_Limit p)"
  note out = applied_amounts(1)[OF am mem pl] and act = applied_amounts(2)[OF am mem pl]
  have nm: "w \<noteq> ''active''" if "(w, L) \<in> enforced_windows p monthStart" for w L
    by (rule enforced_name[OF that])
  have F: "quota_holds B s p monthStart (bound_tokens b) (bound_money b)" "bounded_for p b monthStart"
    using assms(1) by (simp_all add: quota_fits_def)
  have tok: "tokens_in B t ?a ''active'' = tokens_in B s ?a ''active'' + bound_tokens b"
    using act weigh_active(1,2)[OF assms(2)] assms(3) by (simp add: tokens_in_def)
  show ?thesis
    unfolding quota_holds_def
  proof (intro conjI ballI allI impI, clarify)
    fix w L assume w: "(w, L) \<in> enforced_windows p monthStart"
    have "tokens_in B t ?a w = tokens_in B s ?a w" using out[OF nm[OF w]] by (simp add: tokens_in_def)
    then show "tokens_in B t ?a w + tokens_in B t ?a ''active'' + 0 \<le> L \<and> amt B t TokensUnknown (counterKey ?a w) \<le> 0"
      using F(1) w tok out[OF nm[OF w], of TokensUnknown] by (fastforce simp: quota_holds_def)
  next
    fix m M assume m: "ql_MoneyMonth p = Some m \<and> quotaUnits m = Some M \<and> \<not> alert_only (ql_MoneyMonthBehavior p)"
    have cur: "qb_Money b \<noteq> None" "qb_Currency b = ql_Currency p" using F(2) m by (auto simp: bounded_for_def)
    have "money_in B t (ql_Currency p) ?a ''active'' = money_in B s (ql_Currency p) ?a ''active'' + bound_money b"
      using act weigh_active(3,4)[OF assms(2)] assms(3) cur by (simp add: money_in_def)
    moreover have "money_in B t (ql_Currency p) ?a (monthWindow monthStart) = money_in B s (ql_Currency p) ?a (monthWindow monthStart)"
      using out[OF month_name(1)] by (simp add: money_in_def)
    moreover have "money_in B s (ql_Currency p) ?a (monthWindow monthStart) + money_in B s (ql_Currency p) ?a ''active'' + bound_money b \<le> M \<and>
        amt B s MoneyUnknown (counterKey ?a (monthWindow monthStart)) \<le> 0"
      using F(1) m unfolding quota_holds_def by blast
    ultimately show "money_in B t (ql_Currency p) ?a (monthWindow monthStart) + money_in B t (ql_Currency p) ?a ''active'' + 0 \<le> M"
      "amt B t MoneyUnknown (counterKey ?a (monthWindow monthStart)) \<le> 0"
      using out[OF month_name(1), of MoneyUnknown] by simp_all
  qed
qed

context bolt
begin

lemma admit_quota_system:
  assumes "admit_quota E q B rid payload policies b recovery now s = Inr (u, t)" "system_ok q B s" "int64_range now" "env_ok E"
    and v: "valid_entry q rid payload" "policies \<noteq> []" "length policies \<le> 8" "validQuotaBound b = Inr ()"
      "validQuotaSettlement recovery = Inr ()" "validQuotaRecovery b recovery = Inr ()"
  shows "system_ok q B t" "rid \<notin> dom (facts B s)" "int (card (dom (facts B s))) < q_capacity q"
    "facts B t = (facts B s)(rid \<mapsto> Held payload)" "clock_of B s \<le> clock_of B t" "recent B t"
    "\<forall>p \<in> set policies. stays_within B t (ql_Limit p)"
    "\<exists>e. receipts B t rid = Some e \<and> qr_State e = ''active'' \<and> qr_Bound e = b \<and> qr_Recovery e = recovery \<and>
       qr_AdmittedAt e = clock_of B t \<and>
       (\<forall>p \<in> set policies. quota_holds B t p (qr_MonthStart e) 0 0)"
    "int (card (dom (receipts B t))) \<le> q_quotaCapacity q"
    "\<forall>k e. k \<noteq> rid \<longrightarrow> receipts B t k = Some e \<longrightarrow> receipts B s k = Some e"
    "\<forall>p \<in> set policies. rid \<in> leases_of B t (lim_Account (ql_Limit p))"
proof -
  obtain entry accounts s1 s2 s3 s4 where
    ck: "checkQuotaAdmission E q B rid policies b [] now True s = Inr ((entry, accounts), s1)"
    and ap: "applyLimitAdmission B rid payload (qr_AdmittedAt entry) accounts s1 = Inr ((), s2)"
    and ac: "forT (qr_Accounts entry) (\<lambda>a. applyQuotaCounter B (qa_Account a) ''active'' entry 1) s2 = Inr ((), s3)"
    and so: "storeQuotaReceipt B (entry\<lparr>qr_Recovery := recovery\<rparr>) s3 = Inr ((), s4)"
    and sq: "setseqB B QuotaEntryBucket (sqn B s4 QuotaEntryBucket + 1) s4 = Inr (u, t)"
    using assms(1) by (auto simp: admit_quota_def bindT_Inr thenT_Inr seqB_Inr)
  note c = checkQuotaAdmission_Inr[OF ck assms(2,3)]
  let ?entry = "entry\<lparr>qr_Recovery := recovery\<rparr>"
  have v2: "version_of B s = ''2''" using c(17) by simp
  then have vs1: "version_of B s1 = ''2''" using c(15) by simp
  have q1: "quota_ok q B s1" using c(1) vs1 by (simp add: system_ok_def)
  note Q = quota_ok_parts[OF q1]
  have j1: "journal_ok q B s1" using c(1) by (simp add: system_ok_def)
  have nr: "receipts B s1 rid = None" by (rule c(19)[OF v2])
  have fits: "\<forall>p \<in> set policies. quota_fits B s1 p b (qr_MonthStart entry) \<and> validKey (ql_Revision p)" by (rule c(20)[OF v2])
  obtain start end' zone' where mo: "quotaMonth E (qr_AdmittedAt entry) zone' = Inr (start, end')"
    and en: "entry = \<lparr>qr_RequestID = rid, qr_AdmittedAt = qr_AdmittedAt entry, qr_MonthStart = start, qr_MonthEnd = end',
                qr_Accounts = map (\<lambda>p. \<lparr>qa_Account = lim_Account (ql_Limit p), qa_Revision = ql_Revision p\<rparr>) policies,
                qr_Bound = b, qr_State = ''active'', qr_Actual = no_settlement, qr_Recovery = no_settlement,
                qr_SettlementDigest = [], qr_Overrun = False\<rparr>"
    using c(16) by blast
  define instant where "instant = qr_AdmittedAt entry"
  have en': "entry = \<lparr>qr_RequestID = rid, qr_AdmittedAt = instant, qr_MonthStart = start, qr_MonthEnd = end',
                qr_Accounts = map (\<lambda>p. \<lparr>qa_Account = lim_Account (ql_Limit p), qa_Revision = ql_Revision p\<rparr>) policies,
                qr_Bound = b, qr_State = ''active'', qr_Actual = no_settlement, qr_Recovery = no_settlement,
                qr_SettlementDigest = [], qr_Overrun = False\<rparr>" using en by (simp add: instant_def)
  have acc: "accounts = map lim_Account (map ql_Limit policies)" by (rule c(8))
  have dis: "distinct (map lim_Account (map ql_Limit policies))" using c(9) acc by simp
  have keys: "\<forall>p \<in> set policies. validKey (lim_Account (ql_Limit p)) \<and> validKey (ql_Revision p)"
    using c(10) fits by (auto simp: admits_def)
  have vk: "validKey rid" using v(1) by (simp add: valid_entry_def)
  note G = admitted_good[OF vk c(11,13) mo assms(4) v(2-4) _ _ dis keys, folded instant_def]
  have g0: "good_receipt rid entry" unfolding en' by (rule G) (simp_all add: no_settlement_valid)
  have g1: "good_receipt rid ?entry" using G[OF v(5,6)] by (simp add: en')
  have st: "qr_State entry = ''active''" "qr_Bound entry = b" "qr_RequestID entry = rid" "qr_MonthStart entry = start" by (simp_all add: en')
  have rid1: "rid \<notin> dom (facts B s1)" "int (card (dom (facts B s1))) < q_capacity q" using c(2,6,7) by simp_all
  note A = applyLimitAdmission_ok[OF ap[unfolded acc] j1 c(3) c(11,12,5) dis c(10) rid1 v(1)]
  note a2 = apart_frame[OF A(7)]
  have R2: "receipts B s2 = receipts B s1" by (rule receipts_apart[OF a2]) simp
  have l2: "ledger B (receipts B s1) s2" by (rule ledger_apart[OF Q(3) a2]) simp_all
  note L = activate_ledger[OF ac l2 nr g0 st(1)]
  note a3 = apart_frame[OF L(2)]
  have so': "putB B QuotaEntryBucket rid (Receipt ?entry) s3 = Inr ((), s4)" using so st(3) by (simp add: storeQuotaReceipt_def)
  note p4 = putB_frame[OF so']
  have a4: "apart B {QuotaEntryBucket} s3 s4" using p4 by (intro apart_frame) simp
  have nn: "0 \<le> sqn B s4 QuotaEntryBucket + 1" using seq_nonneg[of s4 "bucket_name QuotaEntryBucket"] by simp
  note p5 = setseqB_frame[OF sq nn]
  have a5: "apart B {QuotaEntryBucket} s4 t" using p5 by (intro apart_frame) simp
  have a35: "apart B {QuotaCounterBucket, QuotaEntryBucket} s2 t"
    using apart_trans[OF apart_trans[OF a3 a4] a5] by (rule apart_mono) auto
  have e3: "ent B s3 QuotaEntryBucket = ent B s1 QuotaEntryBucket"
    using apart_same(2)[OF a2, of QuotaEntryBucket] apart_same(2)[OF a3, of QuotaEntryBucket] by simp
  have et: "ent B t QuotaEntryBucket = (ent B s1 QuotaEntryBucket)(rid \<mapsto> Receipt ?entry)" using p4 p5 e3 by simp
  have Rt: "receipts B t = (receipts B s1)(rid \<mapsto> ?entry)" by (rule store_receipts[OF et])
  have sqt: "sqn B t QuotaEntryBucket = sqn B s1 QuotaEntryBucket + 1"
    using p4 p5 apart_same(3)[OF a2, of QuotaEntryBucket] apart_same(3)[OF a3, of QuotaEntryBucket] by simp
  have me: "((receipts B s1)(rid \<mapsto> entry)) rid = Some entry" by simp
  have l3: "ledger B ((receipts B s1)(rid \<mapsto> entry, rid \<mapsto> ?entry)) s3"
    by (rule same_ledger[OF L(1) me st(1) g1]) (simp_all add: st weigh_recovery)
  have lt: "ledger B (receipts B t) t"
    unfolding Rt by (rule ledger_apart[OF ledger_apart[OF l3[unfolded fun_upd_upd] a4] a5]) simp_all
  have ft: "facts B t = facts B s2" by (rule facts_apart[OF a35]) simp_all
  have jt: "journal_ok q B t" using A(1) by (rule journal_ok_apart[OF _ a35]) (simp add: core_def)
  have vt: "version_of B t = ''2''" using version_of_apart[OF a35] version_of_apart[OF a2] vs1 by simp
  have h: "has B t x = has B s1 x" for x
    using frame_has[OF A(7)] frame_has[OF L(2)] p4 p5 frame_has[of B "{QuotaEntryBucket}" s3 s4 x]
      frame_has[of B "{QuotaEntryBucket}" s4 t x] by simp
  have ct: "card (dom (receipts B t)) = Suc (card (dom (receipts B s1)))"
    using nr Q(3) by (simp add: Rt ledger_def domIff)
  have cn: "counted B t" using Q(4) ct sqt by (simp add: counted_def)
  have cap: "sqn B t QuotaEntryBucket \<le> q_quotaCapacity q" using c(18)[OF v2] sqt by simp
  have dec: "as_receipt x \<noteq> None" if "ent B t QuotaEntryBucket k = Some x" for k x
    using that Q(2)[of k x] by (auto simp: et split: if_splits)
  have li: "linked B t"
    using Q(6) st(1) by (auto simp: linked_def Rt ft A(2))
  have "quota_ok q B t" unfolding quota_ok_def using h Q(1) dec lt cn cap li by auto
  then show "system_ok q B t" using jt vt by (simp add: system_ok_def)
  show "rid \<notin> dom (facts B s)" "int (card (dom (facts B s))) < q_capacity q" by (fact c)+
  show "facts B t = (facts B s)(rid \<mapsto> Held payload)" using ft A(2) c(2) by simp
  have ck': "clock_of B t = clock_of B s1" using clock_of_apart[OF a35] A(3) by simp
  then show "clock_of B s \<le> clock_of B t" using c(4) by simp
  show "recent B t" using recent_apart[OF a35] A(4) by simp
  show "\<forall>p \<in> set policies. stays_within B t (ql_Limit p)" using stays_within_apart[OF a35] A(5) by simp
  have "distinct (map qa_Account (qr_Accounts entry))" using good_receipt(3)[OF g0] by (simp add: accounts_plain_def)
  note X = apply_accounts_Inr[OF ac unit_sign_simps(1) this]
  have am: "amt B t d key = amt B s1 d key + (if \<exists>a \<in> set (qr_Accounts entry). key = counterKey (qa_Account a) ''active'' then weigh d entry else 0)" for d key
    using X amt_apart[OF a2, of d key] amt_apart[OF a4, of d key] amt_apart[OF a5, of d key] by simp
  have "quota_holds B t p (qr_MonthStart entry) 0 0" if p: "p \<in> set policies" for p
  proof (rule fits_then_holds[OF _ st(1,2) am])
    show "quota_fits B s1 p b (qr_MonthStart entry)" using fits p by blast
    show "\<exists>a \<in> set (qr_Accounts entry). qa_Account a = lim_Account (ql_Limit p)" using p by (auto simp: en')
    show "\<forall>a \<in> set (qr_Accounts entry). plain (qa_Account a)" using good_receipt(3)[OF g0] by (simp add: accounts_plain_def)
  qed
  then show "\<exists>e. receipts B t rid = Some e \<and> qr_State e = ''active'' \<and> qr_Bound e = b \<and> qr_Recovery e = recovery \<and>
       qr_AdmittedAt e = clock_of B t \<and> (\<forall>p \<in> set policies. quota_holds B t p (qr_MonthStart e) 0 0)"
    using Rt st ck' c(3) by (intro exI[of _ ?entry]) simp
  show "\<forall>p \<in> set policies. rid \<in> leases_of B t (lim_Account (ql_Limit p))"
    using apart_same(2)[OF a35, of LeaseBucket] A(6) by (auto simp: leases_of_def)
  show "int (card (dom (receipts B t))) \<le> q_quotaCapacity q" using cn cap by (simp add: counted_def)
  show "\<forall>k e. k \<noteq> rid \<longrightarrow> receipts B t k = Some e \<longrightarrow> receipts B s k = Some e"
    using c(14) by (auto simp: Rt map_le_def dom_def)
qed

lemma ReserveWithQuotaRecovery_ok:
  assumes "ReserveWithQuotaRecovery E q B rid payload policies b recovery now s = (r, t)" "system_ok q B s" "env_ok E" "int64_range now"
  shows "system_ok q B t \<and> (case r of Inl e \<Rightarrow> t = s | Inr _ \<Rightarrow>
      rid \<notin> dom (facts B s) \<and> int (card (dom (facts B s))) < q_capacity q \<and>
      facts B t = (facts B s)(rid \<mapsto> Held payload) \<and> clock_of B s \<le> clock_of B t \<and> recent B t \<and>
      (\<forall>p \<in> set policies. stays_within B t (ql_Limit p)) \<and>
      (\<exists>e. receipts B t rid = Some e \<and> qr_State e = ''active'' \<and> qr_Bound e = b \<and> qr_Recovery e = recovery \<and>
         qr_AdmittedAt e = clock_of B t \<and> (\<forall>p \<in> set policies. quota_holds B t p (qr_MonthStart e) 0 0)) \<and>
      int (card (dom (receipts B t))) \<le> q_quotaCapacity q \<and>
      (\<forall>k e. k \<noteq> rid \<longrightarrow> receipts B t k = Some e \<longrightarrow> receipts B s k = Some e))"
proof (cases "valid_entry q rid payload \<and> policies \<noteq> [] \<and> length policies \<le> 8 \<and> validQuotaBound b = Inr () \<and>
    validQuotaSettlement recovery = Inr () \<and> validQuotaRecovery b recovery = Inr ()")
  case False
  then have "t = s \<and> (\<exists>e. r = Inl e)"
    using assms(1)
    by (cases "validQuotaBound b"; cases "validQuotaSettlement recovery"; cases "validQuotaRecovery b recovery")
      (auto simp: ReserveWithQuotaRecovery_def split: if_splits, metis+)
  then show ?thesis using assms(2) by auto
next
  case True
  then have "update B (admit_quota E q B rid payload policies b recovery now) s = (r, t)"
    using assms(1) by (simp add: ReserveWithQuotaRecovery_def not_less)
  then show ?thesis
  proof (cases rule: op_cases)
    case (commits u t')
    have g: "valid_entry q rid payload" "policies \<noteq> []" "length policies \<le> 8" "validQuotaBound b = Inr ()"
      "validQuotaSettlement recovery = Inr ()" "validQuotaRecovery b recovery = Inr ()" using True by simp_all
    note A = admit_quota_system[OF commits(2) assms(2,4,3) g]
    note c = commits(3)
    have R: "receipts B t = receipts B t'" by (rule receipts_apart[OF c]) simp
    have H: "quota_holds B t p x y z = quota_holds B t' p x y z" for p x y z
      by (simp add: quota_holds_def tokens_in_def money_in_def amt_apart[OF c])
    obtain e where "receipts B t rid = Some e \<and> qr_State e = ''active'' \<and> qr_Bound e = b \<and> qr_Recovery e = recovery \<and>
         qr_AdmittedAt e = clock_of B t \<and> (\<forall>p \<in> set policies. quota_holds B t p (qr_MonthStart e) 0 0)"
      using A(8) commit_same[OF c] by (auto simp: R H)
    then have E: "\<exists>e. receipts B t rid = Some e \<and> qr_State e = ''active'' \<and> qr_Bound e = b \<and> qr_Recovery e = recovery \<and>
         qr_AdmittedAt e = clock_of B t \<and> (\<forall>p \<in> set policies. quota_holds B t p (qr_MonthStart e) 0 0)" by blast
    have S: "system_ok q B t" "recent B t" "\<forall>p \<in> set policies. stays_within B t (ql_Limit p)"
      "facts B t = (facts B s)(rid \<mapsto> Held payload)" "clock_of B s \<le> clock_of B t" "int (card (dom (receipts B t))) \<le> q_quotaCapacity q"
      using A commit_system[OF c, of q] commit_same[OF c] recent_apart[OF c] stays_within_apart[OF c] R by simp_all
    have K: "\<forall>k e. k \<noteq> rid \<longrightarrow> receipts B t k = Some e \<longrightarrow> receipts B s k = Some e" using A(10) R by simp
    show ?thesis unfolding commits(1) sum.case using S A(2,3) E K by blast
  qed (use assms(2) in simp)
qed

text \<open>The admission holds a lease on every account it is charged to.\<close>

lemma ReserveWithQuotaRecovery_leases:
  assumes "ReserveWithQuotaRecovery E q B rid payload policies b recovery now s = (Inr u, t)" "system_ok q B s"
    "env_ok E" "int64_range now" "p \<in> set policies"
  shows "rid \<in> leases_of B t (lim_Account (ql_Limit p))"
proof -
  let ?valid = "valid_entry q rid payload \<and> policies \<noteq> [] \<and> length policies \<le> 8 \<and> validQuotaBound b = Inr () \<and>
    validQuotaSettlement recovery = Inr () \<and> validQuotaRecovery b recovery = Inr ()"
  have g: ?valid
  proof (rule ccontr)
    assume "\<not> ?valid"
    then have "\<exists>e. Inr u = Inl e"
      using assms(1)
      by (cases "validQuotaBound b"; cases "validQuotaSettlement recovery"; cases "validQuotaRecovery b recovery")
        (auto simp: ReserveWithQuotaRecovery_def split: if_splits)
    then show False by simp
  qed
  then have upd: "update B (admit_quota E q B rid payload policies b recovery now) s = (Inr u, t)"
    using assms(1) by (simp add: ReserveWithQuotaRecovery_def not_less)
  show ?thesis using upd
  proof (cases rule: op_cases)
    case (commits u' t')
    show ?thesis
      using admit_quota_system(11)[OF commits(2) assms(2,4,3)] g assms(5) apart_same(2)[OF commits(3), of LeaseBucket]
      by (simp add: leases_of_def)
  qed simp
qed

text \<open>A preflight check leaves the facts and creates no receipt.\<close>

lemma PreflightWithQuota_ok:
  assumes "PreflightWithQuota E q B rid policies b zone now s = (r, t)" "system_ok q B s" "int64_range now"
  shows "system_ok q B t \<and> (case r of Inl e \<Rightarrow> t = s | Inr _ \<Rightarrow>
      facts B t = facts B s \<and> clock_of B s \<le> clock_of B t \<and> receipts B t \<subseteq>\<^sub>m receipts B s \<and>
      ent B t LeaseBucket = ent B s LeaseBucket)"
proof (cases "\<not> validKey rid \<or> policies = [] \<or> length policies > 8 \<or> zone = '''' \<or> \<not> e_zone E zone \<or> validQuotaBound b \<noteq> Inr ()")
  case True
  then have "t = s \<and> (\<exists>e. r = Inl e)"
    using assms(1) by (cases "validQuotaBound b") (auto simp: PreflightWithQuota_def split: if_splits, metis+)
  then show ?thesis using assms(2) by auto
next
  case False
  then have "update B (bindT (checkQuotaAdmission E q B rid policies b zone now False) (\<lambda>_. okT ())) s = (r, t)"
    using assms(1) by (simp add: PreflightWithQuota_def)
  then show ?thesis
  proof (cases rule: op_cases)
    case (commits u t')
    then obtain entry accounts where ck: "checkQuotaAdmission E q B rid policies b zone now False s = Inr ((entry, accounts), t')"
      by (auto simp: bindT_Inr)
    note c = checkQuotaAdmission_Inr[OF ck assms(2,3)]
    note f = commits(3)
    have "receipts B t = receipts B t'" "ent B t LeaseBucket = ent B t' LeaseBucket"
      using receipts_apart[OF f] apart_same(2)[OF f] by simp_all
    then show ?thesis using c commits(1) commit_system[OF f, of q] commit_same[OF f] by simp
  qed (use assms(2) in simp)
qed

end

end
