(* ===== verification/Journal_Open.thy ===== *)
theory Journal_Open
  imports Quota_Admit
begin

text \<open>
  Opening a journal, new or left behind by a stopped process: the invariant of the whole journal
  holds afterwards, every pending fact has become final with its fallback payload, no final fact is
  lost, no lease survives, and no receipt is active any more.
\<close>

section \<open>Buckets made anew\<close>

definition blank :: "'s bolt \<Rightarrow> 's \<Rightarrow> bucket \<Rightarrow> bool" where
  "blank B s b \<longleftrightarrow> has B s b \<and> ent B s b = Map.empty \<and> sqn B s b = 0"

context bolt
begin

lemma createB_blank: "createB B b s = Inr (u, t) \<Longrightarrow> blank B t b \<and> apart B {b} s t"
  using create[of s "bucket_name b" t] by (auto simp: createB_Inr blank_def apart_def)

lemma dropB_apart: "dropB B b s = Inr (u, t) \<Longrightarrow> apart B {b} s t"
  using drop[of s "bucket_name b" t] by (auto simp: dropB_Inr apart_def)

lemma ensureB_cases: "ensureB B b s = Inr (u, t) \<Longrightarrow> (has B s b \<and> t = s) \<or> (\<not> has B s b \<and> blank B t b \<and> apart B {b} s t)"
  using create[of s "bucket_name b" t] by (auto simp: ensureB_Inr blank_def apart_def split: if_splits)

lemma blank_apart: "blank B s b \<Longrightarrow> apart B bs s t \<Longrightarrow> b \<notin> bs \<Longrightarrow> blank B t b"
  by (simp add: blank_def apart_same)

text \<open>A list of buckets, each made anew by \<open>f\<close>.\<close>

lemma for_blank:
  assumes "forT bs f s = Inr (u, t)" "distinct bs"
    and "\<And>b s t. b \<in> set bs \<Longrightarrow> f b s = Inr ((), t) \<Longrightarrow> blank B t b \<and> apart B {b} s t"
  shows "(\<forall>b \<in> set bs. blank B t b) \<and> apart B (set bs) s t"
  using assms
proof (induction bs arbitrary: s)
  case Nil
  then show ?case by simp
next
  case (Cons b bs)
  obtain s1 where one: "f b s = Inr ((), s1)" and rest: "forT bs f s1 = Inr (u, t)"
    using Cons.prems(1) by (auto simp: thenT_Inr)
  have o: "blank B s1 b" "apart B {b} s s1" using Cons.prems(3)[OF _ one] by simp_all
  have IH: "(\<forall>b \<in> set bs. blank B t b) \<and> apart B (set bs) s1 t"
    by (rule Cons.IH[OF rest]) (use Cons.prems(2,3) in auto)
  have nb: "b \<notin> set bs" using Cons.prems(2) by simp
  have "blank B t b" by (rule blank_apart[OF o(1) conjunct2[OF IH] nb])
  moreover have "apart B (set (b # bs)) s t" using apart_trans[OF o(2)] IH by simp
  ultimately show ?case using IH by simp
qed

lemma drop_create_blank: "thenT (dropB B b) (createB B b) s = Inr (u, t) \<Longrightarrow> blank B t b \<and> apart B {b} s t"
proof -
  assume "thenT (dropB B b) (createB B b) s = Inr (u, t)"
  then obtain s1 where "dropB B b s = Inr ((), s1)" "createB B b s1 = Inr (u, t)" by (auto simp: thenT_Inr)
  from dropB_apart[OF this(1)] createB_blank[OF this(2)] apart_trans_same[of B "{b}" s s1 t]
  show ?thesis by blast
qed

section \<open>Activation\<close>

text \<open>Empty quota buckets are a balanced ledger.\<close>

lemma blank_ledger:
  assumes "\<forall>b \<in> set quotaBuckets. blank B s b"
  shows "receipts B s = Map.empty" "ledger B Map.empty s" "counted B s" "linked B s"
proof -
  have e: "ent B s QuotaEntryBucket = Map.empty" "ent B s QuotaExpiryBucket = Map.empty" "ent B s QuotaCounterBucket = Map.empty"
    "sqn B s QuotaEntryBucket = 0" using assms by (simp_all add: blank_def quotaBuckets_def)
  show r: "receipts B s = Map.empty" by (simp add: receipts_def e fun_eq_iff)
  have "amt B s d key = 0" for d key by (simp add: amt_def amount_at_def e)
  then show "ledger B Map.empty s" by (simp add: ledger_def expiry_ok_def balanced_def sum_of_def shares_def e)
  show "counted B s" by (simp add: counted_def r e)
  show "linked B s" by (simp add: linked_def r)
qed

lemma EnableQuota_ok:
  assumes "EnableQuota E B zone now s = (r, t)" "system_ok q B s" "int64_range now" "0 \<le> q_quotaCapacity q"
  shows "system_ok q B t \<and> (case r of Inl e \<Rightarrow> t = s | Inr _ \<Rightarrow>
      facts B t = facts B s \<and> clock_of B s \<le> clock_of B t \<and> version_of B t = ''2'' \<and>
      receipts B t = (if version_of B s = ''2'' then receipts B s else Map.empty))"
  using assms(1) unfolding EnableQuota_def
proof (cases rule: guarded_cases)
  case (commits u t')
  show ?thesis
  proof (cases "version_of B s = ''2''")
    case True
    then have "t' = s" using commits(3) by (auto simp: bindT_Inr metaText_version dest: readQuotaMetadata_Inr)
    then show ?thesis
      using assms(2) True commits(2) commit_system[OF commits(4), of q] commit_same[OF commits(4)] version_of_apart[OF commits(4)]
        receipts_apart[OF commits(4)] by simp
  next
    case False
    obtain instant s1 s2 s3 where lt: "logicalLimitTime B now s = Inr (instant, s1)"
      and cr: "forT quotaBuckets (create_absent B) s1 = Inr ((), s2)"
      and p1: "putB B LimitMetaBucket ''quota'' (Metadata \<lparr>qm_TimeZone = zone, qm_CoverageStart = instant\<rparr>) s2 = Inr ((), s3)"
      and p2: "putB B LimitMetaBucket ''version'' (Bytes ''2'') s3 = Inr (u, t')"
      using commits(3) False by (auto simp: bindT_Inr thenT_Inr metaText_version split: if_splits)
    note c = clock_system[OF lt assms(2,3)]
    have cb: "blank B y b \<and> apart B {b} x y" if "create_absent B b x = Inr ((), y)" for b x y
    proof -
      from that have "createB B b x = Inr ((), y)" by (auto simp: create_absent_def bindT_Inr thenT_Inr hasB_Inr)
      then show ?thesis by (rule createB_blank)
    qed
    have "(\<forall>b \<in> set quotaBuckets. blank B s2 b) \<and> apart B (set quotaBuckets) s1 s2"
      by (rule for_blank[OF cr]) (simp_all add: cb, simp add: quotaBuckets_def)
    then have bl: "\<forall>b \<in> set quotaBuckets. blank B s2 b" and a2: "apart B (set quotaBuckets) s1 s2" by simp_all
    have j1: "journal_ok q B s1" using c(1) by (simp add: system_ok_def)
    have j2: "journal_ok q B s2" by (rule journal_ok_apart[OF j1 a2 QB_core])
    have k: "''quota'' \<noteq> ''clock''" "''version'' \<noteq> ''clock''" by simp_all
    note m1 = put_meta_ok[OF p1 k(1) j2] and m2 = put_meta_ok[OF p2 k(2)]
    note m2 = m2[OF m1(1)]
    have x1: "apart B {LimitMetaBucket} s2 s3" using putB_frame[OF p1] by (intro apart_frame) simp
    have x2: "apart B {LimitMetaBucket} s3 t'" using putB_frame[OF p2] by (intro apart_frame) simp
    note a3 = apart_trans_same[OF x1 x2]
    have f: "facts B t' = facts B s" using m1(2) m2(2) facts_apart_core[OF a2 QB_core] c(2) by simp
    have "LimitMetaBucket \<notin> set quotaBuckets" by (simp add: quotaBuckets_def)
    then have cl: "clock_of B s \<le> clock_of B t'" using m1(3) m2(3) clock_of_apart[OF a2] c(5) by simp
    have v: "version_of B t' = ''2''" using putB_frame[OF p2] by (simp add: version_of_def)
    have bl3: "\<forall>b \<in> set quotaBuckets. blank B t' b"
    proof
      fix b assume "b \<in> set quotaBuckets"
      then show "blank B t' b" using bl blank_apart[OF _ a3, of b] by (auto simp: quotaBuckets_def)
    qed
    note L = blank_ledger[OF bl3]
    have "quota_ok q B t'"
      using bl3 L assms(4) unfolding quota_ok_def by (simp add: blank_def quotaBuckets_def)
    then have "system_ok q B t'" using m2(1) v by (simp add: system_ok_def)
    moreover have "receipts B t = receipts B t'" by (rule receipts_apart[OF commits(4)]) simp
    ultimately show ?thesis
      using False f cl v L(1) commits(2) commit_system[OF commits(4), of q] commit_same[OF commits(4)] version_of_apart[OF commits(4)]
      by simp
  qed
qed (use assms(2) in simp)

section \<open>The admission counters of a reopened journal\<close>

lemma count_events_Inr:
  assumes "foldT (count_event B) es n s = Inr (m, t)"
  shows "frame B {RpmCountBucket} s t \<and> m = n + int (length es) \<and>
    (\<forall>kv \<in> set es. validKey (bytes_of (snd kv))) \<and>
    (\<forall>a. cnt B t RpmCountBucket a =
       map_option (\<lambda>x. x + int (length (filter (\<lambda>kv. bytes_of (snd kv) = a) es))) (cnt B s RpmCountBucket a))"
  using assms
proof (induction es arbitrary: n s)
  case Nil
  then show ?case by (simp add: option.map_ident)
next
  case (Cons kv es)
  obtain k v where kv: "kv = (k, v)" by fastforce
  obtain n1 s1 where one: "count_event B kv n s = Inr (n1, s1)" and rest1: "foldT (count_event B) es n1 s1 = Inr (m, t)"
    using Cons.prems by (auto simp: bindT_Inr)
  have ok: "validKey (bytes_of v)" and n1: "n1 = n + 1" and ch: "changeCount B RpmCountBucket (bytes_of v) 1 s = Inr ((), s1)"
    using one by (auto simp: thenT_Inr count_event_def kv)
  note rest = rest1[unfolded n1]
  obtain x where x: "frame B {RpmCountBucket} s s1" "cnt B s RpmCountBucket (bytes_of v) = Some x"
    "cnt B s1 RpmCountBucket = (cnt B s RpmCountBucket)(bytes_of v := Some (x + 1))"
    by (rule changeCount_cnt[OF ch]) auto
  note IH = Cons.IH[OF rest]
  have "cnt B t RpmCountBucket a =
       map_option (\<lambda>x. x + int (length (filter (\<lambda>kv. bytes_of (snd kv) = a) (kv # es)))) (cnt B s RpmCountBucket a)" for a
    using IH x by (cases "a = bytes_of v") (auto simp: kv)
  moreover have "frame B {RpmCountBucket} s t" using x(1) IH by (blast intro: frame_trans)
  ultimately show ?case using IH ok by (simp add: kv)
qed

lemma ensure_same:
  "forT bs (ensureB B) s = Inr (u, t) \<Longrightarrow> \<forall>b \<in> set bs. has B s b \<Longrightarrow> t = s"
  by (induction bs) (auto simp: thenT_Inr dest: ensureB_cases)

lemma ensure_blank:
  assumes "forT bs (ensureB B) s = Inr (u, t)" "distinct bs" "\<forall>b \<in> set bs. \<not> has B s b"
  shows "(\<forall>b \<in> set bs. blank B t b) \<and> apart B (set bs) s t"
  using assms
proof (induction bs arbitrary: s)
  case Nil
  then show ?case by simp
next
  case (Cons b bs)
  obtain s1 where one: "ensureB B b s = Inr ((), s1)" and rest: "forT bs (ensureB B) s1 = Inr (u, t)"
    using Cons.prems(1) by (auto simp: thenT_Inr)
  have o: "blank B s1 b" "apart B {b} s s1" using ensureB_cases[OF one] Cons.prems(3) by simp_all
  have nb: "b \<notin> set bs" "distinct bs" using Cons.prems(2) by simp_all
  have "\<forall>c \<in> set bs. \<not> has B s1 c" using Cons.prems(3) nb(1) apart_same(1)[OF o(2)] by force
  note IH = Cons.IH[OF rest nb(2) this]
  have "blank B t b" by (rule blank_apart[OF o(1) conjunct2[OF IH] nb(1)])
  moreover have "apart B (set (b # bs)) s t" using apart_trans[OF o(2)] IH by simp
  ultimately show ?case using IH by simp
qed

text \<open>The indexes built anew from the events.\<close>

lemma rebuild_limits:
  assumes "forT [LeaseBucket, RpmCountBucket, ActiveCountBucket] (\<lambda>b. thenT (dropB B b) (createB B b)) s = Inr ((), s1)"
    and "listB B RpmBucket s1 = Inr (events, s1)" "foldT (count_event B) events 0 s1 = Inr (tot, s2)"
    and "setseqB B RpmBucket tot s2 = Inr (u, t)"
    and keys: "\<forall>k v. ent B s RpmBucket k = Some v \<longrightarrow> event_key k" and "clock_ok B s"
  shows "rpm_ok B t" "lease_ok B t" "clock_ok B t" "clock_of B t = clock_of B s" "ent B t LeaseBucket = Map.empty"
    "ent B t RpmBucket = ent B s RpmBucket" "apart B {LeaseBucket, RpmCountBucket, ActiveCountBucket, RpmBucket} s t"
proof -
  have "(\<forall>b \<in> set [LeaseBucket, RpmCountBucket, ActiveCountBucket]. blank B s1 b) \<and>
      apart B (set [LeaseBucket, RpmCountBucket, ActiveCountBucket]) s s1"
    by (rule for_blank[OF assms(1)]) (auto dest: drop_create_blank)
  then have b1: "blank B s1 LeaseBucket" "blank B s1 RpmCountBucket" "blank B s1 ActiveCountBucket"
    and a1: "apart B {LeaseBucket, RpmCountBucket, ActiveCountBucket} s s1" by simp_all
  have h1: "has B s1 RpmBucket" and ev: "events = b_list B s1 (bucket_name RpmBucket)" using assms(2) by (simp_all add: listB_Inr)
  note C = count_events_Inr[OF assms(3)]
  have f2: "frame B {RpmCountBucket} s1 s2" using C by blast
  have t0: "0 \<le> tot" using C by simp
  note p = setseqB_frame[OF assms(4) t0]
  have f3: "frame B {RpmBucket} s2 t" using p by simp
  have f: "frame B {RpmCountBucket, RpmBucket} s1 t" using f2 f3 by (auto intro: frame_trans)
  show a: "apart B {LeaseBucket, RpmCountBucket, ActiveCountBucket, RpmBucket} s t"
    using apart_trans[OF a1 apart_frame[OF f]] by (rule apart_mono) auto
  have er: "ent B t RpmBucket = ent B s1 RpmBucket" using p frame_ent[OF f2, of RpmBucket] by simp
  have er0: "ent B s1 RpmBucket = ent B s RpmBucket" by (rule apart_same(2)[OF a1]) simp
  show "ent B t RpmBucket = ent B s RpmBucket" using er er0 by simp
  show el: "ent B t LeaseBucket = Map.empty" using b1(1) frame_ent[OF f, of LeaseBucket] by (simp add: blank_def)
  have dist: "distinct (map fst events)" unfolding ev by (rule list_distinct[OF h1])
  have mem: "(k, v) \<in> set events \<longleftrightarrow> ent B s1 RpmBucket k = Some v" for k v unfolding ev by (rule list_mem[OF h1])
  have rpm: "int (card (rpm_of B t a)) = int (length (filter (\<lambda>kv. bytes_of (snd kv) = a) events))" for a
  proof -
    have "rpm_of B t a = fst ` set (filter (\<lambda>kv. bytes_of (snd kv) = a) events)"
      by (force simp: rpm_of_def er mem[symmetric])
    moreover have "distinct (map fst (filter (\<lambda>kv. bytes_of (snd kv) = a) events))" using dist by (rule distinct_map_filter)
    ultimately show ?thesis using distinct_card by (metis length_map set_map)
  qed
  have "cnt B s1 RpmCountBucket a = Some 0" "cnt B s1 ActiveCountBucket a = Some 0" for a
    using b1 by (simp_all add: cnt_def blank_def)
  moreover have "cnt B t RpmCountBucket = cnt B s2 RpmCountBucket" by (rule cnt_frame[OF f3]) simp
  moreover have "cnt B t ActiveCountBucket = cnt B s1 ActiveCountBucket" by (rule cnt_frame[OF f]) simp
  ultimately have cr: "cnt B t RpmCountBucket a = Some (int (card (rpm_of B t a)))" and ca: "cnt B t ActiveCountBucket a = Some 0" for a
    using C rpm by simp_all
  have seq: "sqn B t RpmBucket = int (card (dom (ent B t RpmBucket)))"
    using p C list_length[OF h1] er by (simp add: ev)
  have vk: "validKey (bytes_of v)" if "ent B t RpmBucket k = Some v" for k v
    using that C mem[of k v] by (auto simp: er)
  have h: "has B t LeaseBucket" "has B t RpmCountBucket" "has B t ActiveCountBucket" "has B t RpmBucket"
    using b1 h1 frame_has[OF f] by (simp_all add: blank_def)
  show "rpm_ok B t"
    unfolding rpm_ok_def using h vk keys cr seq by (auto simp: er er0)
  have "leases_of B t a = {}" for a by (simp add: leases_of_def el)
  then show "lease_ok B t" unfolding lease_ok_def using h ca by (simp add: el)
  show cl: "clock_of B t = clock_of B s" by (rule clock_of_apart[OF a]) simp
  show "clock_ok B t"
    using assms(6) apart_same[OF a, of LimitMetaBucket] unfolding clock_ok_def cl er er0 by simp
qed

lemma initLimits_parts:
  assumes "initLimits B s = Inr (u, t)"
  obtains s1 s2 s3 s4 events tot where
    "forT [RpmBucket, LeaseBucket, LimitMetaBucket, RpmCountBucket, ActiveCountBucket] (ensureB B) s = Inr ((), s1)"
    "(if ent B s1 LimitMetaBucket ''version'' = None then putB B LimitMetaBucket ''version'' (Bytes ''1'') else okT ()) s1 = Inr ((), s2)"
    "forT [LeaseBucket, RpmCountBucket, ActiveCountBucket] (\<lambda>b. thenT (dropB B b) (createB B b)) s2 = Inr ((), s3)"
    "listB B RpmBucket s3 = Inr (events, s3)" "foldT (count_event B) events 0 s3 = Inr (tot, s4)" "setseqB B RpmBucket tot s4 = Inr (u, t)"
proof -
  obtain s0 where ck: "check_ledger B s = Inr ((), s0)"
    and rest: "thenT (forT [RpmBucket, LeaseBucket, LimitMetaBucket, RpmCountBucket, ActiveCountBucket] (ensureB B))
     (bindT (getB B LimitMetaBucket ''version'') (\<lambda>version.
      thenT (if version = None then putB B LimitMetaBucket ''version'' (Bytes ''1'') else okT ())
      (thenT (forT [LeaseBucket, RpmCountBucket, ActiveCountBucket] (\<lambda>b. thenT (dropB B b) (createB B b)))
      (bindT (listB B RpmBucket) (\<lambda>events.
       bindT (foldT (count_event B) events 0) (\<lambda>tot.
       thenT (checkT (tot \<le> limitHistoryCapacity) ErrInvalid)
         (setseqB B RpmBucket tot))))))) s0 = Inr (u, t)"
    using assms unfolding initLimits_def thenT_Inr by blast
  have "s0 = s"
    using ck unfolding check_ledger_def
    by (auto simp: bindT_Inr thenT_Inr hasB_Inr getB_Inr metaText_Inr split: if_splits)
  then show thesis using rest that
    unfolding thenT_Inr bindT_Inr getB_Inr listB_Inr checkT_Inr by blast
qed

text \<open>The first part of \<open>Open\<close>, on the journal of a stopped process and on a new file.\<close>

lemma init_system:
  assumes "initLimits B s = Inr ((), s1)" "ensureB B PendingBucket s1 = Inr ((), s2)" "ensureB B ReadyBucket s2 = Inr ((), t)"
    and "system_ok q B s"
  shows "journal_ok q B t" "facts B t = facts B s" "clock_of B t = clock_of B s" "ent B t LeaseBucket = Map.empty"
    "apart B {LeaseBucket, RpmCountBucket, ActiveCountBucket, RpmBucket} s t"
proof -
  have j: "rpm_ok B s" "lease_ok B s" "clock_ok B s" "facts_ok q B s" using assms(4) by (simp_all add: system_ok_def journal_ok_def)
  have has: "\<forall>b \<in> set [RpmBucket, LeaseBucket, LimitMetaBucket, RpmCountBucket, ActiveCountBucket]. has B s b"
    using j by (simp add: rpm_ok_def lease_ok_def clock_ok_def)
  obtain x1 x2 x3 x4 events tot where
    i1: "forT [RpmBucket, LeaseBucket, LimitMetaBucket, RpmCountBucket, ActiveCountBucket] (ensureB B) s = Inr ((), x1)"
    and i2: "(if ent B x1 LimitMetaBucket ''version'' = None then putB B LimitMetaBucket ''version'' (Bytes ''1'') else okT ()) x1 = Inr ((), x2)"
    and i3: "forT [LeaseBucket, RpmCountBucket, ActiveCountBucket] (\<lambda>b. thenT (dropB B b) (createB B b)) x2 = Inr ((), x3)"
    and i4: "listB B RpmBucket x3 = Inr (events, x3)" "foldT (count_event B) events 0 x3 = Inr (tot, x4)" "setseqB B RpmBucket tot x4 = Inr ((), s1)"
    by (rule initLimits_parts[OF assms(1)])
  have x1: "x1 = s" by (rule ensure_same[OF i1 has])
  have "ent B s LimitMetaBucket ''version'' \<noteq> None" using assms(4) by (auto simp: system_ok_def version_of_def split: option.splits)
  then have x2: "x2 = s" using i2 x1 by (auto split: if_splits)
  have keys: "\<forall>k v. ent B s RpmBucket k = Some v \<longrightarrow> event_key k" using j(1) by (auto simp: rpm_ok_def)
  note r = rebuild_limits[OF i3[unfolded x2] i4 keys j(3)]
  have p: "has B s1 PendingBucket" "has B s1 ReadyBucket"
    using j(4) apart_same(1)[OF r(7)] by (simp_all add: facts_ok_def)
  have "s2 = s1" using ensureB_cases[OF assms(2)] p(1) by simp
  then have t: "t = s1" using ensureB_cases[OF assms(3)] p(2) by simp
  have pe: "ent B s1 PendingBucket = ent B s PendingBucket" "ent B s1 ReadyBucket = ent B s ReadyBucket"
    using apart_same(2)[OF r(7)] by simp_all
  have "facts_ok q B s1" using j(4) p unfolding facts_ok_def pe by (simp add: r(5))
  then show "journal_ok q B t" using r(1-3) by (simp add: journal_ok_def t)
  show "facts B t = facts B s" unfolding t by (rule facts_cong[OF pe(2,1)])
  show "clock_of B t = clock_of B s" "ent B t LeaseBucket = Map.empty"
    "apart B {LeaseBucket, RpmCountBucket, ActiveCountBucket, RpmBucket} s t" using r by (simp_all add: t)
qed

lemma init_fresh:
  assumes "initLimits B s = Inr ((), s1)" "ensureB B PendingBucket s1 = Inr ((), s2)" "ensureB B ReadyBucket s2 = Inr ((), t)"
    and "\<forall>b. \<not> has B s b" "0 \<le> q_capacity q"
  shows "journal_ok q B t" "facts B t = Map.empty" "version_of B t = ''1''" "\<forall>b \<in> set quotaBuckets. \<not> has B t b"
proof -
  obtain x1 x2 x3 x4 events tot where
    i1: "forT [RpmBucket, LeaseBucket, LimitMetaBucket, RpmCountBucket, ActiveCountBucket] (ensureB B) s = Inr ((), x1)"
    and i2: "(if ent B x1 LimitMetaBucket ''version'' = None then putB B LimitMetaBucket ''version'' (Bytes ''1'') else okT ()) x1 = Inr ((), x2)"
    and i3: "forT [LeaseBucket, RpmCountBucket, ActiveCountBucket] (\<lambda>b. thenT (dropB B b) (createB B b)) x2 = Inr ((), x3)"
    and i4: "listB B RpmBucket x3 = Inr (events, x3)" "foldT (count_event B) events 0 x3 = Inr (tot, x4)" "setseqB B RpmBucket tot x4 = Inr ((), s1)"
    by (rule initLimits_parts[OF assms(1)])
  have "(\<forall>b \<in> set [RpmBucket, LeaseBucket, LimitMetaBucket, RpmCountBucket, ActiveCountBucket]. blank B x1 b) \<and>
      apart B (set [RpmBucket, LeaseBucket, LimitMetaBucket, RpmCountBucket, ActiveCountBucket]) s x1"
    by (rule ensure_blank[OF i1]) (use assms(4) in simp_all)
  then have b1: "blank B x1 RpmBucket" "blank B x1 LimitMetaBucket"
    and a1: "apart B {RpmBucket, LeaseBucket, LimitMetaBucket, RpmCountBucket, ActiveCountBucket} s x1" by simp_all
  have pu: "putB B LimitMetaBucket ''version'' (Bytes ''1'') x1 = Inr ((), x2)" using i2 b1(2) by (simp add: blank_def)
  note p = putB_frame[OF pu]
  have a2: "apart B {LimitMetaBucket} x1 x2" using p by (intro apart_frame) simp
  have er: "ent B x2 RpmBucket = Map.empty" using b1(1) apart_same(2)[OF a2, of RpmBucket] by (simp add: blank_def)
  have em: "ent B x2 LimitMetaBucket = [''version'' \<mapsto> Bytes ''1'']" using p b1(2) by (simp add: blank_def)
  have "has B x2 LimitMetaBucket" using p frame_has[of B "{LimitMetaBucket}" x1 x2] by simp
  then have ck: "clock_ok B x2" by (simp add: clock_ok_def em er)
  have keys: "\<forall>k v. ent B x2 RpmBucket k = Some v \<longrightarrow> event_key k" by (simp add: er)
  note r = rebuild_limits[OF i3 i4 keys ck]
  have a: "apart B {RpmBucket, LeaseBucket, LimitMetaBucket, RpmCountBucket, ActiveCountBucket} s s1"
    using apart_trans[OF apart_trans[OF a1 a2] r(7)] by (rule apart_mono) auto
  have np: "\<not> has B s1 PendingBucket" "\<not> has B s1 ReadyBucket" using assms(4) apart_same(1)[OF a] by simp_all
  have e2: "blank B s2 PendingBucket" "apart B {PendingBucket} s1 s2" using ensureB_cases[OF assms(2)] np(1) by simp_all
  have "\<not> has B s2 ReadyBucket" using np(2) apart_same(1)[OF e2(2)] by simp
  then have e3: "blank B t ReadyBucket" "apart B {ReadyBucket} s2 t" using ensureB_cases[OF assms(3)] by simp_all
  have at: "apart B {PendingBucket, ReadyBucket} s1 t" using apart_trans[OF e2(2) e3(2)] by (rule apart_mono) auto
  have bp: "blank B t PendingBucket" by (rule blank_apart[OF e2(1) e3(2)]) simp
  have le: "ent B t LeaseBucket = Map.empty" using r(5) apart_same(2)[OF at, of LeaseBucket] by simp
  have "facts_ok q B t" using bp e3(1) assms(5) by (simp add: facts_ok_def blank_def le)
  then show "journal_ok q B t"
    using rpm_ok_apart[OF r(1) at] lease_ok_apart[OF r(2) at] clock_ok_apart[OF r(3) at] by (simp add: journal_ok_def)
  show "facts B t = Map.empty" using bp e3(1) by (simp add: facts_def blank_def fun_eq_iff)
  have "version_of B s1 = version_of B x2" by (rule version_of_apart[OF r(7)]) simp
  then show "version_of B t = ''1''" using version_of_apart[OF at] by (simp add: version_of_def em)
  show "\<forall>b \<in> set quotaBuckets. \<not> has B t b"
  proof
    fix b assume "b \<in> set quotaBuckets"
    then have "b \<notin> {PendingBucket, ReadyBucket}" "b \<notin> {RpmBucket, LeaseBucket, LimitMetaBucket, RpmCountBucket, ActiveCountBucket}"
      by (auto simp: quotaBuckets_def)
    then show "\<not> has B t b" using apart_same(1)[OF at] apart_same(1)[OF a] assms(4) by simp
  qed
qed

end

section \<open>The receipts of a stopped process\<close>

text \<open>The receipts once recovered.\<close>

definition recovered :: "env \<Rightarrow> 's bolt \<Rightarrow> 's \<Rightarrow> string \<Rightarrow> quota_receipt option" where
  "recovered E B s rid =
     map_option (\<lambda>e. if qr_State e = ''active''
         then interrupt_receipt E e (case ent B s PendingBucket rid of None \<Rightarrow> [] | Some v \<Rightarrow> bytes_of v) else e)
       (receipts B s rid)"

lemma interrupted_state: "qr_State (interrupt_receipt E e p) = ''interrupted''" "qr_RequestID (interrupt_receipt E e p) = qr_RequestID e"
  by (simp_all add: interrupt_receipt_def)

lemma recovered_inactive: "recovered E B s rid = Some e \<Longrightarrow> qr_State e \<noteq> ''active''"
proof -
  assume "recovered E B s rid = Some e"
  then obtain z where "e = (if qr_State z = ''active'' then interrupt_receipt E z (case ent B s PendingBucket rid of None \<Rightarrow> [] | Some v \<Rightarrow> bytes_of v) else z)"
    by (auto simp: recovered_def)
  then show ?thesis by (cases "qr_State z = ''active''") (simp_all add: interrupted_state)
qed

lemma recovered_dom: "dom (recovered E B s) = dom (receipts B s)"
  by (auto simp: recovered_def dom_def)

context bolt
begin

lemma recover_receipt_Inr:
  assumes "recover_receipt E q B m instant kv (n, is) s = Inr ((n', is'), t)" "fst kv = rid"
  shows "\<exists>e. recovered E B s rid = Some e \<and> projectTerminalQuota B e instant s = Inr ((), t) \<and> n' = n + 1 \<and>
    n' \<le> q_quotaCapacity q \<and>
    is' = (if (\<exists>e0. receipts B s rid = Some e0 \<and> qr_State e0 = ''active'') then is @ [e] else is)"
proof -
  obtain entry s1 where rd: "receipts B s rid = Some entry" and ac: "forT (qr_Accounts entry) (\<lambda>a.
               bindT (getB B QuotaAccountBucket (qa_Account a)) (\<lambda>r. checkT (r \<noteq> None) ErrInvalid)) s = Inr ((), s1)"
    and rest: "bindT (getB B PendingBucket rid) (\<lambda>pending.
       bindT (getB B ReadyBucket rid) (\<lambda>ready.
       let active = (qr_State entry = ''active'');
           fallback = (case pending of None \<Rightarrow> [] | Some v \<Rightarrow> bytes_of v);
           entry' = (if active then interrupt_receipt E entry fallback else entry)
       in
       thenT (if active then checkT (fallback \<noteq> [] \<and> ready = None) ErrInvalid
              else checkT (pending = None \<and>
                     (case ready of
                        None \<Rightarrow> True
                      | Some payload \<Rightarrow> e_digest E (qr_Actual entry) (bytes_of payload) = qr_SettlementDigest entry)) ErrInvalid)
         (thenT (checkT (n + 1 \<le> q_quotaCapacity q) ErrInvalid)
          (thenT (projectTerminalQuota B entry' instant)
             (okT (n + 1, if active then is @ [entry'] else is)))))) s1 = Inr ((n', is'), t)"
    using assms(1) unfolding recover_receipt_def assms(2) Let_def prod.case bindT_Inr thenT_Inr readQuotaReceipt_Inr checkT_Inr by blast
  have "forT as (\<lambda>a. bindT (getB B QuotaAccountBucket (qa_Account a)) (\<lambda>r. checkT (r \<noteq> None) ErrInvalid)) x = Inr (u, y) \<Longrightarrow> y = x" for as x u y
    by (induction as arbitrary: x) (auto simp: thenT_Inr bindT_Inr getB_Inr)
  from this[OF ac] have s1: "s1 = s" .
  show ?thesis
  proof (cases "qr_State entry = ''active''")
    case True
    let ?e = "interrupt_receipt E entry (case ent B s PendingBucket rid of None \<Rightarrow> [] | Some v \<Rightarrow> bytes_of v)"
    have "projectTerminalQuota B ?e instant s = Inr ((), t) \<and> n' = n + 1 \<and> n' \<le> q_quotaCapacity q \<and> is' = is @ [?e]"
      using rest True unfolding s1 Let_def by (auto simp: bindT_Inr thenT_Inr getB_Inr)
    then show ?thesis using rd True by (intro exI[of _ ?e]) (simp add: recovered_def)
  next
    case False
    then have "projectTerminalQuota B entry instant s = Inr ((), t) \<and> n' = n + 1 \<and> n' \<le> q_quotaCapacity q \<and> is' = is"
      using rest unfolding s1 Let_def by (auto simp: bindT_Inr thenT_Inr getB_Inr)
    then show ?thesis using rd False by (intro exI[of _ entry]) (simp add: recovered_def)
  qed
qed

lemma recover_known:
  "foldT (recover_receipt E q B m instant) es acc s = Inr (acc', t) \<Longrightarrow> k \<in> fst ` set es \<Longrightarrow> receipts B s k \<noteq> None"
proof (induction es arbitrary: acc s)
  case Nil
  then show ?case by simp
next
  case (Cons kv es)
  obtain n "is" where acc: "acc = (n, is)" by fastforce
  obtain n1 is1 s1 where one: "recover_receipt E q B m instant kv (n, is) s = Inr ((n1, is1), s1)"
    and rest: "foldT (recover_receipt E q B m instant) es (n1, is1) s1 = Inr (acc', t)"
    using Cons.prems(1) by (auto simp: bindT_Inr acc)
  obtain e where e: "recovered E B s (fst kv) = Some e" "projectTerminalQuota B e instant s = Inr ((), s1)"
    using recover_receipt_Inr[OF one refl] by blast
  have "keeps B {QuotaCounterBucket, QuotaExpiryBucket} (projectTerminalQuota B e instant)"
    unfolding projectTerminalQuota_def project_window_def project_account_def applyQuotaCounter_def readQuotaCounter_def
    by (intro keeps_rules) simp_all
  from keepsD[OF this e(2)] have "receipts B s1 = receipts B s" by (rule receipts_apart) simp
  then show ?case using Cons.IH[OF rest] Cons.prems(2) e(1) by (auto simp: recovered_def)
qed

text \<open>The fold over the receipts: the ledger of the recovered receipts is built up.\<close>

lemma recover_fold:
  assumes "foldT (recover_receipt E q B m instant) es (n, is) s = Inr ((n', is'), t)" "0 \<le> instant"
    and R: "R = recovered E B s" and l: "ledger B R s"
    and d: "distinct (map fst es)" and ns: "\<forall>k \<in> fst ` set es. \<forall>x key. ckey x key k \<notin> dom (ent B s QuotaExpiryBucket)"
  shows "ledger B R t \<and> frame B {QuotaCounterBucket, QuotaExpiryBucket} s t \<and> n' = n + int (length es) \<and>
    (es \<noteq> [] \<longrightarrow> n' \<le> q_quotaCapacity q) \<and>
    (\<forall>k \<in> fst ` set es. receipts B s k \<noteq> None) \<and>
    set is' = set is \<union> {e. \<exists>k \<in> fst ` set es. R k = Some e \<and> (\<exists>e0. receipts B s k = Some e0 \<and> qr_State e0 = ''active'')}"
  using assms
proof (induction es arbitrary: n "is" s)
  case Nil
  then show ?case by simp
next
  case (Cons kv es)
  obtain n1 is1 s1 where one: "recover_receipt E q B m instant kv (n, is) s = Inr ((n1, is1), s1)"
    and rest: "foldT (recover_receipt E q B m instant) es (n1, is1) s1 = Inr ((n', is'), t)"
    using Cons.prems(1) by (auto simp: bindT_Inr)
  let ?k = "fst kv"
  obtain e where e: "recovered E B s ?k = Some e" "projectTerminalQuota B e instant s = Inr ((), s1)" "n1 = n + 1" "n1 \<le> q_quotaCapacity q"
    and is1: "is1 = (if (\<exists>e0. receipts B s ?k = Some e0 \<and> qr_State e0 = ''active'') then is @ [e] else is)"
    using recover_receipt_Inr[OF one refl] by blast
  have Rk: "R ?k = Some e" using e(1) Cons.prems(3) by simp
  have na: "qr_State e \<noteq> ''active''" by (rule recovered_inactive[OF e(1)])
  have nk: "ckey x key ?k \<notin> dom (ent B s QuotaExpiryBucket)" for x key using Cons.prems(6) by simp
  note p = project_ledger[OF e(2) Cons.prems(2) Cons.prems(4) Rk na nk]
  have same: "receipts B s1 = receipts B s" "ent B s1 PendingBucket = ent B s PendingBucket"
    using receipts_apart[OF apart_frame[OF p(2)]] frame_ent[OF p(2)] by simp_all
  have R1: "R = recovered E B s1" unfolding Cons.prems(3) recovered_def[abs_def] same ..
  have d1: "distinct (map fst es)" "?k \<notin> fst ` set es" using Cons.prems(5) by simp_all
  have rk: "receipts B s ?k \<noteq> None" using e(1) by (auto simp: recovered_def)
  have ns1: "\<forall>k \<in> fst ` set es. \<forall>x key. ckey x key k \<notin> dom (ent B s1 QuotaExpiryBucket)"
  proof (intro ballI allI)
    fix k x key assume k: "k \<in> fst ` set es"
    then have "k \<noteq> ?k" using d1(2) by metis
    show "ckey x key k \<notin> dom (ent B s1 QuotaExpiryBucket)"
    proof (cases "plain k")
      case True
      then show ?thesis using p(3)[OF True \<open>k \<noteq> ?k\<close>, of x key] Cons.prems(6) k by simp
    next
      case False
      have "receipts B s k \<noteq> None" using recover_known[OF rest k] same(1) by simp
      then obtain e' where "R k = Some e'" using Cons.prems(3) by (auto simp: recovered_def)
      then have "plain k" using Cons.prems(4) by (auto dest: ledger_good good_receipt(2))
      then show ?thesis using False by simp
    qed
  qed
  note IH = Cons.IH[OF rest Cons.prems(2) R1 p(1) d1(1) ns1]
  have fr: "frame B {QuotaCounterBucket, QuotaExpiryBucket} s t" using p(2) IH by (blast intro: frame_trans)
  have cap: "n' \<le> q_quotaCapacity q" using IH e(4) rest by (cases es) auto
  have "set is1 = set is \<union> {x. R ?k = Some x \<and> (\<exists>e0. receipts B s ?k = Some e0 \<and> qr_State e0 = ''active'')}"
    using is1 Rk by auto
  then have "set is' = set is \<union> {e. \<exists>k \<in> fst ` set (kv # es). R k = Some e \<and> (\<exists>e0. receipts B s k = Some e0 \<and> qr_State e0 = ''active'')}"
    using IH same(1) by auto
  then show ?case using IH fr cap e(3) rk same(1) by simp
qed

text \<open>The receipts that were active are stored in their new form.\<close>

lemma store_all:
  assumes "forT es (storeQuotaReceipt B) s = Inr (u, t)"
  shows "frame B {QuotaEntryBucket} s t \<and>
    (\<forall>k. k \<notin> qr_RequestID ` set es \<longrightarrow> ent B t QuotaEntryBucket k = ent B s QuotaEntryBucket k) \<and>
    (\<forall>k \<in> qr_RequestID ` set es. \<exists>e \<in> set es. qr_RequestID e = k \<and> ent B t QuotaEntryBucket k = Some (Receipt e)) \<and>
    sqn B t QuotaEntryBucket = sqn B s QuotaEntryBucket"
  using assms
proof (induction es arbitrary: s)
  case Nil
  then show ?case by simp
next
  case (Cons e es)
  obtain s1 where one: "putB B QuotaEntryBucket (qr_RequestID e) (Receipt e) s = Inr ((), s1)"
    and rest: "forT es (storeQuotaReceipt B) s1 = Inr (u, t)"
    using Cons.prems by (auto simp: thenT_Inr storeQuotaReceipt_def[of B e])
  note p = putB_frame[OF one] and IH = Cons.IH[OF rest]
  have fr: "frame B {QuotaEntryBucket} s t" using p IH by (blast intro: frame_trans)
  have "\<exists>x \<in> set (e # es). qr_RequestID x = k \<and> ent B t QuotaEntryBucket k = Some (Receipt x)"
    if "k \<in> qr_RequestID ` set (e # es)" for k
  proof (cases "k \<in> qr_RequestID ` set es")
    case True
    then show ?thesis using IH by auto
  next
    case False
    then have "k = qr_RequestID e" using that by simp
    then show ?thesis using IH False p by auto
  qed
  then show ?case using fr IH p by auto
qed

lemma readQuotaMetadata_pos: "readQuotaMetadata E B s = Inr (m, t) \<Longrightarrow> t = s \<and> 0 \<le> qm_CoverageStart m \<and> version_of B s = ''2''"
  by (auto simp: readQuotaMetadata_def tx_Inr metaText_version split: option.splits if_splits)

lemma for_pure:
  "forT xs f s = Inr (u, t) \<Longrightarrow> (\<And>x y z. f x y = Inr ((), z) \<Longrightarrow> z = y) \<Longrightarrow> t = s"
proof (induction xs arbitrary: s)
  case Nil
  then show ?case by simp
next
  case (Cons x xs)
  from Cons.prems(1) obtain s1 where one: "f x s = Inr ((), s1)" and rest: "forT xs f s1 = Inr (u, t)" by (auto simp: thenT_Inr)
  have "s1 = s" by (rule Cons.prems(2)[OF one])
  have "t = s1" by (rule Cons.IH[OF rest Cons.prems(2)])
  then show ?case using \<open>s1 = s\<close> by simp
qed

lemma metaText_pure: "metaText B k s = Inr (x, t) \<Longrightarrow> t = s"
  by (simp add: metaText_Inr)

lemma check_pure: "checkT ok e y = Inr ((), z) \<Longrightarrow> z = y"
  by simp

lemma empty_ledger:
  assumes "ent B s QuotaCounterBucket = Map.empty" "ent B s QuotaExpiryBucket = Map.empty" "finite (dom R)"
    and "\<And>rid e. R rid = Some e \<Longrightarrow> good_receipt rid e \<and> qr_State e \<noteq> ''active''"
  shows "ledger B R s"
proof -
  have na: "key \<notin> active_keys e" if "R rid = Some e" for rid e key
    using assms(4)[OF that] by (simp add: active_keys_def)
  have sh: "shares B R s key = {}" for key by (auto simp: shares_def assms(2) na)
  have "amt B s d key = 0" for d key by (simp add: amt_def amount_at_def assms(1))
  then show ?thesis using assms(2-4) by (simp add: ledger_def expiry_ok_def balanced_def sum_of_def sh)
qed

lemma recovered_good:
  assumes "\<And>rid e. receipts B s rid = Some e \<Longrightarrow> good_receipt rid e" "env_ok E" "recovered E B s rid = Some e"
  shows "good_receipt rid e"
proof -
  obtain e0 where e0: "receipts B s rid = Some e0" and e: "e = (if qr_State e0 = ''active''
      then interrupt_receipt E e0 (case ent B s PendingBucket rid of None \<Rightarrow> [] | Some v \<Rightarrow> bytes_of v) else e0)"
    using assms(3) by (auto simp: recovered_def)
  have g: "good_receipt rid e0" by (rule assms(1)[OF e0])
  have "quotaDigest (e_digest E a p)" for a p using assms(2) by (simp add: env_ok_def)
  then show ?thesis using g good_interrupted[OF g] by (simp add: e)
qed

lemma recoverQuota_parts:
  assumes "recoverQuota E q B s = Inr (u, t)" "version_of B s \<noteq> ''1''"
  obtains m instant s1 count "is" s2 s3 s4 where "version_of B s = ''2''"
    "0 \<le> instant" "\<forall>b \<in> set quotaBuckets. has B s b"
    "forT [QuotaCounterBucket, QuotaExpiryBucket] (\<lambda>b. thenT (dropB B b) (createB B b)) s = Inr ((), s1)"
    "foldT (recover_receipt E q B m instant) (b_list B s1 (bucket_name QuotaEntryBucket)) (0, []) s1 = Inr ((count, is), s2)"
    "has B s1 QuotaEntryBucket"
    "forT is (storeQuotaReceipt B) s2 = Inr ((), s3)" "setseqB B QuotaEntryBucket count s3 = Inr ((), s4)"
    "pruneQuota B instant s4 = Inr (u, t)"
proof -
  obtain m s0 clock s1 accounts s1' bounds s1'' entries count "is" s2 s3 s4 where
    md: "version_of B s = ''2''" "0 \<le> qm_CoverageStart m" and hs: "forT quotaBuckets (\<lambda>b. bindT (hasB B b) (\<lambda>h. checkT h ErrInvalid)) s = Inr ((), s0)"
    and ge: "be64_val clock \<ge> qm_CoverageStart m"
    and dc: "forT [QuotaCounterBucket, QuotaExpiryBucket] (\<lambda>b. thenT (dropB B b) (createB B b)) s0 = Inr ((), s1)"
    and a1: "forT accounts (check_registered (be64_val clock)) s1 = Inr ((), s1')"
    and a2: "forT bounds check_invalid_bound s1' = Inr ((), s1'')"
    and en: "listB B QuotaEntryBucket s1'' = Inr (entries, s1'')"
    and fo: "foldT (recover_receipt E q B m (be64_val clock)) entries (0, []) s1'' = Inr ((count, is), s2)"
    and st: "forT is (storeQuotaReceipt B) s2 = Inr ((), s3)" and sq: "setseqB B QuotaEntryBucket count s3 = Inr ((), s4)"
    and pr: "pruneQuota B (be64_val clock) s4 = Inr (u, t)"
    using assms unfolding recoverQuota_def Let_def
    by (auto simp: bindT_Inr thenT_Inr metaText_version listB_Inr simp del: forT.simps dest!: readQuotaMetadata_pos metaText_pure)
  have s0: "s0 = s" by (rule for_pure[OF hs]) (auto simp: bindT_Inr hasB_Inr)
  have x1: "s1' = s1" by (rule for_pure[OF a1]) (simp add: check_registered_def)
  have x2: "s1'' = s1'" by (rule for_pure[OF a2]) (simp add: check_invalid_bound_def)
  have hb: "\<forall>b \<in> set quotaBuckets. has B s b" using hs by (simp add: quotaBuckets_def thenT_Inr bindT_Inr hasB_Inr)
  show thesis
  proof (rule that[OF _ _ hb])
    show "version_of B s = ''2''" by (rule md(1))
    show "0 \<le> be64_val clock" using md(2) ge by simp
    show "forT [QuotaCounterBucket, QuotaExpiryBucket] (\<lambda>b. thenT (dropB B b) (createB B b)) s = Inr ((), s1)" using dc s0 by simp
    show "foldT (recover_receipt E q B m (be64_val clock)) (b_list B s1 (bucket_name QuotaEntryBucket)) (0, []) s1 = Inr ((count, is), s2)"
      using fo en x1 x2 by (simp add: listB_Inr)
    show "has B s1 QuotaEntryBucket" using en x1 x2 by (simp add: listB_Inr)
    show "forT is (storeQuotaReceipt B) s2 = Inr ((), s3)" "setseqB B QuotaEntryBucket count s3 = Inr ((), s4)"
      "pruneQuota B (be64_val clock) s4 = Inr (u, t)" by (fact st sq pr)+
  qed
qed

end

text \<open>The quota buckets after a recovery: a balanced ledger without active receipts.\<close>

definition recovered_ok :: "queue \<Rightarrow> 's bolt \<Rightarrow> 's \<Rightarrow> bool" where
  "recovered_ok q B s \<longleftrightarrow>
     (\<forall>b \<in> set quotaBuckets. has B s b) \<and>
     (\<forall>rid v. ent B s QuotaEntryBucket rid = Some v \<longrightarrow> as_receipt v \<noteq> None) \<and>
     ledger B (receipts B s) s \<and> counted B s \<and> sqn B s QuotaEntryBucket \<le> q_quotaCapacity q \<and>
     (\<forall>rid e. receipts B s rid = Some e \<longrightarrow> qr_State e \<noteq> ''active'')"

context bolt
begin

lemma recoverQuota_active:
  assumes "recoverQuota E q B s = Inr (u, t)" "version_of B s \<noteq> ''1''" "env_ok E" "0 \<le> q_quotaCapacity q"
    and dec: "\<And>rid v. ent B s QuotaEntryBucket rid = Some v \<Longrightarrow> as_receipt v \<noteq> None"
    and good: "\<And>rid e. receipts B s rid = Some e \<Longrightarrow> good_receipt rid e"
  shows "apart B (set quotaBuckets) s t" "recovered_ok q B t" "receipts B t \<subseteq>\<^sub>m recovered E B s" "version_of B s = ''2''"
proof -
  obtain m instant s1 count "is" s2 s3 s4 where v2: "version_of B s = ''2''"
    and i0: "0 \<le> instant" and hb: "\<forall>b \<in> set quotaBuckets. has B s b"
    and dc: "forT [QuotaCounterBucket, QuotaExpiryBucket] (\<lambda>b. thenT (dropB B b) (createB B b)) s = Inr ((), s1)"
    and fo: "foldT (recover_receipt E q B m instant) (b_list B s1 (bucket_name QuotaEntryBucket)) (0, []) s1 = Inr ((count, is), s2)"
    and he: "has B s1 QuotaEntryBucket"
    and st: "forT is (storeQuotaReceipt B) s2 = Inr ((), s3)" and sq: "setseqB B QuotaEntryBucket count s3 = Inr ((), s4)"
    and pr: "pruneQuota B instant s4 = Inr (u, t)"
    by (rule recoverQuota_parts[OF assms(1,2)])
  show "version_of B s = ''2''" by (rule v2)
  let ?R = "recovered E B s" let ?es = "b_list B s1 (bucket_name QuotaEntryBucket)"
  have "(\<forall>b \<in> set [QuotaCounterBucket, QuotaExpiryBucket]. blank B s1 b) \<and> apart B (set [QuotaCounterBucket, QuotaExpiryBucket]) s s1"
    by (rule for_blank[OF dc]) (auto dest: drop_create_blank)
  then have bl: "blank B s1 QuotaCounterBucket" "blank B s1 QuotaExpiryBucket" and a1: "apart B {QuotaCounterBucket, QuotaExpiryBucket} s s1"
    by simp_all
  have r1: "receipts B s1 = receipts B s" by (rule receipts_apart[OF a1]) simp
  have p1: "ent B s1 PendingBucket = ent B s PendingBucket" by (rule apart_same(2)[OF a1]) simp
  have R1: "?R = recovered E B s1" unfolding recovered_def[abs_def] r1 p1 ..
  have e1: "ent B s1 QuotaEntryBucket = ent B s QuotaEntryBucket" by (rule apart_same(2)[OF a1]) simp
  have dom_es: "fst ` set ?es = dom (ent B s QuotaEntryBucket)" using list_dom[OF he] e1 by simp
  have dr: "dom (receipts B s) = dom (ent B s QuotaEntryBucket)"
    using dec by (auto simp: receipts_def dom_def split: option.splits)
  have fin: "finite (dom ?R)" unfolding recovered_dom dr using finite_ent[OF he] e1 by simp
  have ec: "ent B s1 QuotaCounterBucket = Map.empty" "ent B s1 QuotaExpiryBucket = Map.empty" using bl by (simp_all add: blank_def)
  have l1: "ledger B ?R s1"
  proof (rule empty_ledger[OF ec fin])
    fix rid e assume e: "?R rid = Some e"
    show "good_receipt rid e \<and> qr_State e \<noteq> ''active''"
      using recovered_good[OF good assms(3) e] recovered_inactive[OF e] by simp
  qed
  have ns: "\<forall>k \<in> fst ` set ?es. \<forall>x key. ckey x key k \<notin> dom (ent B s1 QuotaExpiryBucket)" by (simp add: ec)
  note F = recover_fold[OF fo i0 R1 l1 list_distinct[OF he] ns]
  have fr2: "frame B {QuotaCounterBucket, QuotaExpiryBucket} s1 s2" and l2: "ledger B ?R s2" using F by blast+
  have cnt2: "count = int (length ?es)" using F by simp
  have cap: "?es \<noteq> [] \<longrightarrow> count \<le> q_quotaCapacity q" using F by blast
  have iset: "set is = {e. \<exists>k \<in> fst ` set ?es. ?R k = Some e \<and> (\<exists>e0. receipts B s k = Some e0 \<and> qr_State e0 = ''active'')}"
    using F unfolding r1 by simp
  have rid: "qr_RequestID e = k" if "?R k = Some e" for k e
    using good_receipt(1)[OF recovered_good[OF good assms(3) that]] .
  have ids: "qr_RequestID ` set is = {k. \<exists>e0. receipts B s k = Some e0 \<and> qr_State e0 = ''active''}" (is "_ = ?act")
  proof
    show "qr_RequestID ` set is \<subseteq> ?act" unfolding iset using rid by auto
    show "?act \<subseteq> qr_RequestID ` set is"
    proof
      fix k assume "k \<in> ?act"
      then obtain e0 where e0: "receipts B s k = Some e0" "qr_State e0 = ''active''" by blast
      then obtain e where "?R k = Some e" by (auto simp: recovered_def)
      moreover have "k \<in> fst ` set ?es" using e0(1) dr dom_es by auto
      ultimately have "e \<in> set is" "qr_RequestID e = k" using e0 rid unfolding iset by blast+
      then show "k \<in> qr_RequestID ` set is" by blast
    qed
  qed
  note S = store_all[OF st]
  have fr3: "frame B {QuotaEntryBucket} s2 s3" using S by blast
  have e2: "ent B s2 QuotaEntryBucket = ent B s QuotaEntryBucket" using frame_ent[OF fr2, of QuotaEntryBucket] e1 by simp
  have r3: "receipts B s3 k = ?R k" for k
  proof (cases "k \<in> qr_RequestID ` set is")
    case True
    then obtain e where e: "e \<in> set is" "qr_RequestID e = k" "ent B s3 QuotaEntryBucket k = Some (Receipt e)" using S by blast
    obtain k' where k': "?R k' = Some e" using e(1) iset by blast
    have "k' = k" using rid[OF k'] e(2) by simp
    then show ?thesis using e(3) k' by (simp add: receipts_def)
  next
    case False
    then have "ent B s3 QuotaEntryBucket k = ent B s QuotaEntryBucket k" using S e2 by simp
    then have "receipts B s3 k = receipts B s k" by (simp add: receipts_def)
    moreover have "?R k = receipts B s k" using False ids by (cases "receipts B s k") (auto simp: recovered_def)
    ultimately show ?thesis by simp
  qed
  have c0: "0 \<le> count" by (simp add: cnt2)
  note p4 = setseqB_frame[OF sq c0]
  have a3: "apart B {QuotaEntryBucket} s2 s3" by (rule apart_frame[OF fr3])
  have a4: "apart B {QuotaEntryBucket} s3 s4" using p4 by (intro apart_frame) simp
  have r4: "receipts B s4 = ?R" using p4 r3 by (auto simp: receipts_def fun_eq_iff)
  have l4: "ledger B (receipts B s4) s4" unfolding r4 by (rule ledger_apart[OF ledger_apart[OF l2 a3] a4]) simp_all
  have "count = int (card (dom ?R))" unfolding cnt2 recovered_dom dr using list_length[OF he] e1 by simp
  then have c4: "counted B s4" using p4 by (simp add: counted_def r4)
  note P = pruneQuota_ledger[OF pr l4 c4]
  note le = receipts_kept_le[OF P(3)]
  show "receipts B t \<subseteq>\<^sub>m ?R" using le r4 by simp
  have a14: "apart B {QuotaCounterBucket, QuotaExpiryBucket, QuotaEntryBucket} s t"
    using apart_trans[OF apart_trans[OF apart_trans[OF apart_trans[OF a1 apart_frame[OF fr2]] a3] a4] apart_frame[OF P(4)]]
    by (rule apart_mono) auto
  then show "apart B (set quotaBuckets) s t" by (rule apart_mono) (simp add: quotaBuckets_def)
  have h: "has B t b" if "b \<in> set quotaBuckets" for b
  proof (cases "b \<in> {QuotaCounterBucket, QuotaExpiryBucket, QuotaEntryBucket}")
    case True
    have "has B s1 b" using True bl he by (auto simp: blank_def)
    then show ?thesis using frame_has[OF fr2] frame_has[OF fr3] p4 frame_has[of B "{QuotaEntryBucket}" s3 s4 b] frame_has[OF P(4)] by simp
  next
    case False
    then show ?thesis using apart_same(1)[OF a14 False] hb that by simp
  qed
  have d3: "as_receipt v \<noteq> None" if "ent B s4 QuotaEntryBucket k = Some v" for k v
  proof -
    have v: "ent B s3 QuotaEntryBucket k = Some v" using that p4 by simp
    show ?thesis
    proof (cases "k \<in> qr_RequestID ` set is")
      case True
      then obtain e where "ent B s3 QuotaEntryBucket k = Some (Receipt e)" using S by blast
      then have "v = Receipt e" using v by simp
      then show ?thesis by simp
    next
      case False
      then have "ent B s QuotaEntryBucket k = Some v" using S e2 v by simp
      then show ?thesis by (rule dec)
    qed
  qed
  have dect: "as_receipt v \<noteq> None" if "ent B t QuotaEntryBucket k = Some v" for k v
    using that P(3) d3[of k v] unfolding receipts_kept_def by (metis option.distinct(1))
  have "count \<le> q_quotaCapacity q" using cap assms(4) cnt2 by (cases "?es = []") auto
  moreover have "card (dom (receipts B t)) \<le> card (dom (receipts B s4))"
    using l4 map_le_implies_dom_le[OF le] by (intro card_mono) (simp_all add: ledger_def)
  ultimately have capt: "sqn B t QuotaEntryBucket \<le> q_quotaCapacity q"
    using P(2) c4 p4 by (simp add: counted_def)
  have ina: "qr_State e \<noteq> ''active''" if "receipts B t k = Some e" for k e
  proof -
    have "?R k = Some e" using that le r4 by (auto simp: map_le_def dom_def)
    then show ?thesis by (rule recovered_inactive)
  qed
  show "recovered_ok q B t" unfolding recovered_ok_def using h dect P(1,2) capt ina by blast
qed

end

end
