(* ===== verification/Journal_Restart.thy ===== *)
theory Journal_Restart
  imports Journal_Open
begin

text \<open>
  What \<open>Open\<close> does as a whole: on the journal of a stopped process it keeps the invariant and makes
  every pending fact final; a new file becomes an empty journal.
\<close>

section \<open>Pending facts become ready\<close>

definition finalised :: "fact_state \<Rightarrow> fact_state" where
  "finalised f = (case f of Held p \<Rightarrow> Final p | Final p \<Rightarrow> Final p)"

lemma finalised_simps [simp]: "finalised (Held p) = Final p" "finalised (Final p) = Final p"
  by (simp_all add: finalised_def)

context bolt
begin

lemma move_fold:
  assumes "forT es (move_pending q B) s = Inr (u, t)"
  shows "frame B {ReadyBucket} s t \<and>
    ent B t ReadyBucket = map_of es ++ ent B s ReadyBucket"
  using assms
proof (induction es arbitrary: s)
  case Nil
  then show ?case by simp
next
  case (Cons kv es)
  obtain k v where kv: "kv = (k, v)" by fastforce
  obtain s1 where one: "move_pending q B kv s = Inr ((), s1)" and rest: "forT es (move_pending q B) s1 = Inr (u, t)"
    using Cons.prems by (auto simp: thenT_Inr)
  have "frame B {ReadyBucket} s s1 \<and>
      ent B s1 ReadyBucket = (case ent B s ReadyBucket k of None \<Rightarrow> (ent B s ReadyBucket)(k \<mapsto> v) | Some _ \<Rightarrow> ent B s ReadyBucket)"
  proof (cases "ent B s ReadyBucket k")
    case None
    then have "putB B ReadyBucket k v s = Inr ((), s1)"
      using one by (auto simp: move_pending_def kv bindT_Inr thenT_Inr getB_Inr)
    from putB_frame[OF this] None show ?thesis by simp
  next
    case (Some w)
    then have "s1 = s" using one by (auto simp: move_pending_def kv bindT_Inr thenT_Inr getB_Inr)
    then show ?thesis using Some by simp
  qed
  note s1 = this
  note IH = Cons.IH[OF rest]
  have "frame B {ReadyBucket} s t" using s1 IH by (blast intro: frame_trans)
  moreover have "map_of es ++ ent B s1 ReadyBucket = map_of (kv # es) ++ ent B s ReadyBucket"
    using s1 by (auto simp: kv map_add_def fun_eq_iff split: option.splits)
  then have "ent B t ReadyBucket = map_of (kv # es) ++ ent B s ReadyBucket" using IH by (simp only:)
  ultimately show ?case by blast
qed

lemma delete_fold:
  assumes "forT ks (deleteB B b) s = Inr (u, t)"
  shows "frame B {b} s t \<and> ent B t b = (\<lambda>k. if k \<in> set ks then None else ent B s b k)"
  using assms
proof (induction ks arbitrary: s)
  case Nil
  then show ?case by simp
next
  case (Cons k ks)
  obtain s1 where one: "deleteB B b k s = Inr ((), s1)" and rest: "forT ks (deleteB B b) s1 = Inr (u, t)"
    using Cons.prems by (auto simp: thenT_Inr)
  note d = deleteB_frame[OF one] and IH = Cons.IH[OF rest]
  have "frame B {b} s t" using d IH by (blast intro: frame_trans)
  then show ?case using d IH by auto
qed

text \<open>The end of \<open>Open\<close>.\<close>

lemma settle_pending:
  assumes "listB B PendingBucket s = Inr (entries, s)" "forT entries (move_pending q B) s = Inr ((), s1)"
    and "forT (map fst entries) (deleteB B PendingBucket) s1 = Inr (u, t)"
    and j: "journal_ok q B s" and lease: "ent B s LeaseBucket = Map.empty"
  shows "journal_ok q B t" "facts B t = (\<lambda>k. map_option finalised (facts B s k))"
    "apart B {PendingBucket, ReadyBucket} s t" "ent B t LeaseBucket = Map.empty"
proof -
  have h: "has B s PendingBucket" and en: "entries = b_list B s (bucket_name PendingBucket)" using assms(1) by (simp_all add: listB_Inr)
  have mo: "map_of entries = ent B s PendingBucket" unfolding en using list_map[OF h] by simp
  have ks: "set (map fst entries) = dom (ent B s PendingBucket)" unfolding en using list_dom[OF h] by simp
  note M = move_fold[OF assms(2), unfolded mo] and D = delete_fold[OF assms(3)]
  have fm: "frame B {ReadyBucket} s s1" and fd: "frame B {PendingBucket} s1 t" using M D by blast+
  have f: "frame B {PendingBucket, ReadyBucket} s t" using fm fd by (auto intro: frame_trans)
  show a: "apart B {PendingBucket, ReadyBucket} s t" by (rule apart_frame[OF f])
  have p1: "ent B s1 PendingBucket = ent B s PendingBucket" using frame_ent[OF fm, of PendingBucket] by simp
  have pe: "ent B t PendingBucket = Map.empty"
    using D unfolding ks p1 by (auto simp: fun_eq_iff)
  have re: "ent B t ReadyBucket = ent B s PendingBucket ++ ent B s ReadyBucket" using M frame_ent[OF fd, of ReadyBucket] by simp
  have le: "ent B t LeaseBucket = Map.empty" using lease frame_ent[OF f, of LeaseBucket] by simp
  then show "ent B t LeaseBucket = Map.empty" .
  have fo: "facts_ok q B s" using j by (simp add: journal_ok_def)
  then have disj: "dom (ent B s PendingBucket) \<inter> dom (ent B s ReadyBucket) = {}" by (simp add: facts_ok_def)
  show "facts B t = (\<lambda>k. map_option finalised (facts B s k))"
    by (auto simp: facts_def re pe fun_eq_iff map_add_def split: option.splits)
  have hr: "has B s ReadyBucket" using fo by (simp add: facts_ok_def)
  have "card (dom (ent B t ReadyBucket)) = card (dom (ent B s PendingBucket)) + card (dom (ent B s ReadyBucket))"
    unfolding re dom_map_add using disj by (subst card_Un_disjoint) (auto simp: finite_ent[OF h] finite_ent[OF hr])
  moreover have "stored_ok q k v" if "ent B t ReadyBucket k = Some v" for k v
    using that fo by (auto simp: re facts_ok_def map_add_def split: option.splits)
  ultimately have "facts_ok q B t"
    using fo le frame_has[OF f] by (simp add: facts_ok_def pe)
  then show "journal_ok q B t"
    using j by (auto simp: journal_ok_def intro: rpm_ok_apart[OF _ a] lease_ok_apart[OF _ a] clock_ok_apart[OF _ a])
qed

section \<open>Open on the journal of a stopped process\<close>

lemma open_parts:
  assumes "open_tx E q B s = Inr (u, t)"
  obtains s1 s2 s3 s4 entries s5 where "initLimits B s = Inr ((), s1)" "ensureB B PendingBucket s1 = Inr ((), s2)"
    "ensureB B ReadyBucket s2 = Inr ((), s3)" "recoverQuota E q B s3 = Inr ((), s4)"
    "listB B PendingBucket s4 = Inr (entries, s4)" "forT entries (move_pending q B) s4 = Inr ((), s5)"
    "forT (map fst entries) (deleteB B PendingBucket) s5 = Inr (u, t)"
  using assms unfolding open_tx_def thenT_Inr bindT_Inr listB_Inr by blast

lemma recoverQuota_inactive:
  assumes "recoverQuota E q B s = Inr (u, t)" "version_of B s = ''1''"
  shows "t = s"
proof -
  have "forT quotaBuckets (\<lambda>b. bindT (hasB B b) (\<lambda>h. checkT (\<not> h) ErrInvalid)) s = Inr (u, t)"
    using assms unfolding recoverQuota_def bindT_Inr metaText_version by auto
  then show ?thesis by (rule for_pure) (auto simp: bindT_Inr hasB_Inr)
qed

lemma open_system:
  assumes "open_tx E q B s = Inr (u, t)" "system_ok q B s" "env_ok E" "0 \<le> q_quotaCapacity q"
  shows "system_ok q B t" "facts B t = (\<lambda>k. map_option finalised (facts B s k))" "clock_of B t = clock_of B s"
    "version_of B t = version_of B s" "ent B t LeaseBucket = Map.empty" "version_of B s = ''2'' \<longrightarrow> receipts B t \<subseteq>\<^sub>m recovered E B s"
proof -
  obtain s1 s2 s3 s4 entries s5 where i: "initLimits B s = Inr ((), s1)" "ensureB B PendingBucket s1 = Inr ((), s2)"
    "ensureB B ReadyBucket s2 = Inr ((), s3)" and rq: "recoverQuota E q B s3 = Inr ((), s4)"
    and mv: "listB B PendingBucket s4 = Inr (entries, s4)" "forT entries (move_pending q B) s4 = Inr ((), s5)"
    "forT (map fst entries) (deleteB B PendingBucket) s5 = Inr (u, t)"
    by (rule open_parts[OF assms(1)])
  note I = init_system[OF i assms(2)]
  have v3: "version_of B s3 = version_of B s" by (rule version_of_apart[OF I(5)]) simp
  have r3: "receipts B s3 = receipts B s" by (rule receipts_apart[OF I(5)]) simp
  have p3: "ent B s3 PendingBucket = ent B s PendingBucket" by (rule apart_same(2)[OF I(5)]) simp
  have R3: "recovered E B s3 = recovered E B s" unfolding recovered_def[abs_def] r3 p3 ..
  have q3: "has B s3 b = has B s b" if "b \<in> set quotaBuckets" for b
    using that by (intro apart_same(1)[OF I(5)]) (auto simp: quotaBuckets_def)
  have a34: "apart B (set quotaBuckets) s3 s4"
    and act: "version_of B s = ''2'' \<longrightarrow> recovered_ok q B s4 \<and> receipts B s4 \<subseteq>\<^sub>m recovered E B s"
    and ina: "version_of B s \<noteq> ''2'' \<longrightarrow> s4 = s3"
  proof -
    have "apart B (set quotaBuckets) s3 s4 \<and> (version_of B s = ''2'' \<longrightarrow> recovered_ok q B s4 \<and> receipts B s4 \<subseteq>\<^sub>m recovered E B s) \<and>
        (version_of B s \<noteq> ''2'' \<longrightarrow> s4 = s3)"
    proof (cases "version_of B s = ''2''")
      case True
      then have qo: "quota_ok q B s" using assms(2) by (simp add: system_ok_def)
      have e3: "ent B s3 QuotaEntryBucket = ent B s QuotaEntryBucket" by (rule apart_same(2)[OF I(5)]) simp
      have n1: "version_of B s3 \<noteq> ''1''" using v3 True by simp
      have dec: "as_receipt v \<noteq> None" if "ent B s3 QuotaEntryBucket rid = Some v" for rid v
        using that qo unfolding e3 quota_ok_def by blast
      have good: "good_receipt rid e" if "receipts B s3 rid = Some e" for rid e
        using that qo unfolding r3 quota_ok_def by (blast dest: ledger_good)
      have hb: "has B s3 b" if "b \<in> set quotaBuckets" for b using qo q3[OF that] that by (simp add: quota_ok_def)
      note A = recoverQuota_active[OF rq n1 assms(3,4) dec good]
      show ?thesis using A True by (simp add: R3)
    next
      case False
      then have "version_of B s3 = ''1''" using v3 assms(2) by (auto simp: system_ok_def)
      then show ?thesis using recoverQuota_inactive[OF rq] False by simp
    qed
    then show "apart B (set quotaBuckets) s3 s4" "version_of B s = ''2'' \<longrightarrow> recovered_ok q B s4 \<and> receipts B s4 \<subseteq>\<^sub>m recovered E B s"
      "version_of B s \<noteq> ''2'' \<longrightarrow> s4 = s3" by blast+
  qed
  have j4: "journal_ok q B s4" by (rule journal_ok_apart[OF I(1) a34 QB_core])
  have f4: "facts B s4 = facts B s" using facts_apart_core[OF a34 QB_core] I(2) by simp
  have c4: "clock_of B s4 = clock_of B s" "version_of B s4 = version_of B s"
    using clock_of_apart[OF a34] version_of_apart[OF a34] I(3) v3 by (simp_all add: quotaBuckets_def)
  have le4: "ent B s4 LeaseBucket = Map.empty" using apart_same(2)[OF a34, of LeaseBucket] I(4) by (simp add: quotaBuckets_def)
  note S = settle_pending[OF mv j4 le4]
  show ft: "facts B t = (\<lambda>k. map_option finalised (facts B s k))" using S(2) f4 by simp
  show "ent B t LeaseBucket = Map.empty" by (rule S(4))
  show "clock_of B t = clock_of B s" using clock_of_apart[OF S(3)] c4(1) by simp
  show vt: "version_of B t = version_of B s" using version_of_apart[OF S(3)] c4(2) by simp
  have rt: "receipts B t = receipts B s4" by (rule receipts_apart[OF S(3)]) simp
  have hq: "has B t b = has B s4 b" if "b \<in> set quotaBuckets" for b
    using that by (intro apart_same(1)[OF S(3)]) (auto simp: quotaBuckets_def)
  have et: "ent B t QuotaEntryBucket = ent B s4 QuotaEntryBucket" "sqn B t QuotaEntryBucket = sqn B s4 QuotaEntryBucket"
    by (rule apart_same[OF S(3)], simp)+
  have nh: "\<not> (\<exists>p. facts B t k = Some (Held p))" for k
    by (auto simp: ft finalised_def split: fact_state.splits)
  have "quota_ok q B t" if "version_of B s = ''2''"
  proof -
    have r: "recovered_ok q B s4" using act that by blast
    have "ledger B (receipts B s4) t"
      by (rule ledger_apart[OF _ S(3)]) (use r in \<open>simp_all add: recovered_ok_def\<close>)
    moreover have "counted B t" by (rule counted_apart[OF _ S(3)]) (use r in \<open>simp_all add: recovered_ok_def\<close>)
    moreover have "linked B t" using r nh unfolding linked_def rt recovered_ok_def by blast
    ultimately show ?thesis using r hq unfolding quota_ok_def rt et recovered_ok_def by blast
  qed
  moreover have "\<forall>b \<in> set quotaBuckets. \<not> has B t b" if "version_of B s \<noteq> ''2''"
    using that ina hq q3 assms(2) by (simp add: system_ok_def)
  ultimately show "system_ok q B t" using S(1) vt assms(2) by (simp add: system_ok_def)
  show "version_of B s = ''2'' \<longrightarrow> receipts B t \<subseteq>\<^sub>m recovered E B s" using act rt by simp
qed

section \<open>Open on a new file\<close>

lemma fresh_facts: "journal_ok q B s \<Longrightarrow> facts B s = Map.empty \<Longrightarrow> ent B s LeaseBucket = Map.empty"
proof -
  assume j: "journal_ok q B s" and f: "facts B s = Map.empty"
  have "facts B s k = None" for k using f by simp
  then have "ent B s PendingBucket k = None" for k
    using j by (force simp: journal_ok_def facts_ok_def facts_def dom_def split: option.splits)
  then have "dom (ent B s PendingBucket) = {}" by auto
  then show ?thesis using j by (simp add: journal_ok_def facts_ok_def)
qed

lemma open_fresh:
  assumes "open_tx E q B s = Inr (u, t)" "\<forall>b. \<not> has B s b" "0 \<le> q_capacity q"
  shows "system_ok q B t" "facts B t = Map.empty" "version_of B t = ''1''" "ent B t LeaseBucket = Map.empty"
proof -
  obtain s1 s2 s3 s4 entries s5 where i: "initLimits B s = Inr ((), s1)" "ensureB B PendingBucket s1 = Inr ((), s2)"
    "ensureB B ReadyBucket s2 = Inr ((), s3)" and rq: "recoverQuota E q B s3 = Inr ((), s4)"
    and mv: "listB B PendingBucket s4 = Inr (entries, s4)" "forT entries (move_pending q B) s4 = Inr ((), s5)"
    "forT (map fst entries) (deleteB B PendingBucket) s5 = Inr (u, t)"
    by (rule open_parts[OF assms(1)])
  note I = init_fresh[OF i assms(2,3)]
  have s4: "s4 = s3" by (rule recoverQuota_inactive[OF rq I(3)])
  have le: "ent B s4 LeaseBucket = Map.empty" unfolding s4 by (rule fresh_facts[OF I(1,2)])
  have j4: "journal_ok q B s4" using I(1) s4 by simp
  note S = settle_pending[OF mv j4 le]
  show "facts B t = Map.empty" using S(2) I(2) s4 by simp
  show "ent B t LeaseBucket = Map.empty" by (rule S(4))
  show v: "version_of B t = ''1''" using version_of_apart[OF S(3)] I(3) s4 by simp
  have "\<not> has B t b" if "b \<in> set quotaBuckets" for b
  proof -
    have "b \<notin> {PendingBucket, ReadyBucket}" using that by (auto simp: quotaBuckets_def)
    then show ?thesis using apart_same(1)[OF S(3)] I(4) s4 that by simp
  qed
  then show "system_ok q B t" using S(1) v by (simp add: system_ok_def)
qed

end

section \<open>Open\<close>

definition configured :: "int \<Rightarrow> int \<Rightarrow> queue" where
  "configured capacity maxPayload =
     \<lparr>q_capacity = capacity, q_maxPayload = maxPayload, q_quotaCapacity = quotaHistoryCapacity\<rparr>"

lemma configured_capacity: "0 \<le> q_quotaCapacity (configured capacity maxPayload)"
  by (simp add: configured_def quotaHistoryCapacity_def)

context bolt
begin

lemma Open_cases:
  assumes "Open E B path capacity maxPayload (Some s) = (r, f)"
  obtains (fails) e where "r = Inl e" "f = Some s"
    | (opens) u t' t where "r = Inr (configured capacity maxPayload)" "f = Some t" "1 \<le> capacity" "1 \<le> maxPayload"
        "open_tx E (configured capacity maxPayload) B s = Inr (u, t')" "apart B {} t' t"
proof (cases "fst (update B (open_tx E (configured capacity maxPayload) B) s)")
  case (Inl e)
  then obtain t where "update B (open_tx E (configured capacity maxPayload) B) s = (Inl e, t)" by (metis prod.collapse)
  moreover from update_Inl[OF this] have "t = s" .
  ultimately show ?thesis using assms fails unfolding Open_def configured_def by (auto simp: Let_def split: if_splits)
next
  case (Inr u)
  then obtain t where up: "update B (open_tx E (configured capacity maxPayload) B) s = (Inr u, t)" by (metis prod.collapse)
  from update_apart[OF up] obtain t' where t': "open_tx E (configured capacity maxPayload) B s = Inr (u, t')" "apart B {} t' t" by blast
  show ?thesis
  proof (cases "path \<and> 1 \<le> capacity \<and> 1 \<le> maxPayload")
    case True
    then have "r = Inr (configured capacity maxPayload)" "f = Some t"
      using assms up by (simp_all add: Open_def Let_def configured_def)
    then show ?thesis using opens True t' by blast
  next
    case False
    then have "(r, f) = (Inl ErrInvalid, Some s)" using assms by (auto simp: Open_def not_le)
    then show ?thesis using fails by simp
  qed
qed

lemma Open_ok:
  assumes "Open E B path capacity maxPayload (Some s) = (r, f)" "env_ok E"
    and "system_ok (configured capacity maxPayload) B s"
  shows "case r of
      Inl e \<Rightarrow> f = Some s
    | Inr q \<Rightarrow> q = configured capacity maxPayload \<and> (\<exists>t. f = Some t \<and> system_ok q B t \<and>
        facts B t = (\<lambda>k. map_option finalised (facts B s k)) \<and> clock_of B t = clock_of B s \<and>
        version_of B t = version_of B s \<and> ent B t LeaseBucket = Map.empty \<and>
        (version_of B s = ''2'' \<longrightarrow> receipts B t \<subseteq>\<^sub>m recovered E B s))"
  using assms(1)
proof (cases rule: Open_cases)
  case (fails e)
  then show ?thesis by simp
next
  case (opens u t' t)
  note O = open_system[OF opens(5) assms(3,2) configured_capacity]
  note a = opens(6)
  show ?thesis
    using opens(1,2) O commit_system[OF a] facts_apart[OF a] clock_of_apart[OF a] version_of_apart[OF a]
      apart_same(2)[OF a, of LeaseBucket] receipts_apart[OF a] by simp
qed

lemma Open_fresh_ok:
  assumes "Open E B path capacity maxPayload (Some s) = (r, f)" "\<forall>b. \<not> has B s b"
  shows "case r of
      Inl e \<Rightarrow> f = Some s
    | Inr q \<Rightarrow> q = configured capacity maxPayload \<and> (\<exists>t. f = Some t \<and> system_ok q B t \<and> facts B t = Map.empty \<and> version_of B t = ''1'')"
  using assms(1)
proof (cases rule: Open_cases)
  case (fails e)
  then show ?thesis by simp
next
  case (opens u t' t)
  have c: "0 \<le> q_capacity (configured capacity maxPayload)" using opens(3) by (simp add: configured_def)
  note O = open_fresh[OF opens(5) assms(2) c]
  note a = opens(6)
  show ?thesis
    using opens(1,2) O commit_system[OF a] facts_apart[OF a] version_of_apart[OF a] by simp
qed

end

end
