(* ===== verification/Journal_Reads.thy ===== *)
theory Journal_Reads
  imports Journal_Restart
begin

text \<open>
  The reads of the quota journal. They move the clock on and prune, so that what they return is
  current: the invariant is kept, no fact changes, no receipt appears, and the numbers returned are
  the sums of the receipts.
\<close>

section \<open>What a read may do\<close>

definition refreshed :: "queue \<Rightarrow> 's bolt \<Rightarrow> 's \<Rightarrow> 's \<Rightarrow> bool" where
  "refreshed q B s t \<longleftrightarrow>
     system_ok q B t \<and> facts B t = facts B s \<and> clock_of B s \<le> clock_of B t \<and> receipts B t \<subseteq>\<^sub>m receipts B s"

lemma refreshed_refl: "system_ok q B s \<Longrightarrow> refreshed q B s s"
  by (simp add: refreshed_def)

lemma refreshed_commit: "refreshed q B s t \<Longrightarrow> apart B {} t u \<Longrightarrow> refreshed q B s u"
  using commit_system[of B t u q] facts_apart[of B "{}" t u] clock_of_apart[of B "{}" t u] receipts_apart[of B "{}" t u]
  by (simp add: refreshed_def)

lemma metadata_if_active_Inr:
  "metadata_if_active E B s = Inr (m, t) \<Longrightarrow> t = s \<and> (m = None \<or> version_of B s = ''2'')"
  by (auto simp: metadata_if_active_def dest: readQuotaMetadata_Inr split: sum.splits queue_error.splits)

context bolt
begin

lemma refreshed_sample:
  assumes "logicalLimitTime B now s = Inr (instant, s1)" "pruneQuota B instant s1 = Inr (u, t)"
    and "system_ok q B s" "int64_range now"
  shows "refreshed q B s t" "clock_of B t = instant"
  using sample_system[OF assms] by (simp_all add: refreshed_def)

lemma keeps_read_windows: "keeps B bs (read_windows B account asOf coverage zone start)"
  unfolding read_windows_def read_usage_def readQuotaCounter_def by (intro keeps_rules)

lemma update_refreshed:
  assumes "update B m s = (r, t)" "system_ok q B s" "\<And>x u. m s = Inr (x, u) \<Longrightarrow> refreshed q B s u"
  shows "case r of Inl e \<Rightarrow> t = s | Inr _ \<Rightarrow> refreshed q B s t"
  using assms(1)
proof (cases rule: op_cases)
  case (commits x t')
  then show ?thesis using refreshed_commit[OF assms(3)[OF commits(2)] commits(3)] by simp
qed simp

section \<open>The reads\<close>

lemma HasLiveMoneyHolds_ok:
  assumes "HasLiveMoneyHolds E B now s = (r, t)" "system_ok q B s" "int64_range now"
  shows "case r of Inl e \<Rightarrow> t = s | Inr _ \<Rightarrow> refreshed q B s t"
  using assms(1) unfolding HasLiveMoneyHolds_def
proof (rule update_refreshed[OF _ assms(2)])
  fix x u
  assume m: "bindT (metadata_if_active E B) (\<lambda>m.
       case m of
         None \<Rightarrow> okT False
       | Some _ \<Rightarrow>
           bindT (logicalLimitTime B now) (\<lambda>instant.
           thenT (pruneQuota B instant)
           (bindT (listB B QuotaCounterBucket) (\<lambda>entries.
              foldT (held_step B) entries False)))) s = Inr (x, u)"
  then obtain d where d: "metadata_if_active E B s = Inr (d, s)" by (auto simp: bindT_Inr dest: metadata_if_active_Inr)
  show "refreshed q B s u"
  proof (cases d)
    case None
    then show ?thesis using m d assms(2) by (auto simp: bindT_Inr intro: refreshed_refl)
  next
    case (Some md)
    then obtain instant s1 s2 entries where lt: "logicalLimitTime B now s = Inr (instant, s1)"
      and pr: "pruneQuota B instant s1 = Inr ((), s2)" and fo: "foldT (held_step B) entries False s2 = Inr (x, u)"
      using m d by (auto simp: bindT_Inr thenT_Inr listB_Inr)
    have k: "keeps B {} (foldT (held_step B) entries False)"
      unfolding held_step_def readQuotaCounter_def by (intro keeps_rules)
    show ?thesis by (rule refreshed_commit[OF refreshed_sample(1)[OF lt pr assms(2,3)] keepsD[OF k fo]])
  qed
qed

lemma sampleQuotaUsageFrame_ok:
  assumes "sampleQuotaUsageFrame E B now s = Inr (sample, t)" "system_ok q B s" "int64_range now"
  shows "refreshed q B s t \<and> (case sample of None \<Rightarrow> t = s | Some f \<Rightarrow> clock_of B t = uf_asOf f \<and> version_of B s = ''2'')"
proof -
  obtain d where d: "metadata_if_active E B s = Inr (d, s)" "d = None \<or> version_of B s = ''2''"
    using assms(1) by (auto simp: sampleQuotaUsageFrame_def bindT_Inr dest: metadata_if_active_Inr)
  show ?thesis
  proof (cases d)
    case None
    then show ?thesis using assms(1,2) d by (auto simp: sampleQuotaUsageFrame_def bindT_Inr intro: refreshed_refl)
  next
    case (Some md)
    then obtain instant s1 start end' where lt: "logicalLimitTime B now s = Inr (instant, s1)"
      and pr: "pruneQuota B instant s1 = Inr ((), t)"
      and f: "sample = Some \<lparr>uf_active = True, uf_asOf = instant, uf_coverageStart = qm_CoverageStart md,
                         uf_timeZone = qm_TimeZone md, uf_monthStart = start\<rparr>"
      using assms(1) d(1) by (auto simp: sampleQuotaUsageFrame_def bindT_Inr thenT_Inr)
    show ?thesis using refreshed_sample[OF lt pr assms(2,3)] d(2) Some by (simp add: f)
  qed
qed

lemma batch_ok:
  assumes "update B (bindT (sampleQuotaUsageFrame E B now) (\<lambda>frame. case frame of None \<Rightarrow> okT x | Some f \<Rightarrow> g f)) s = (r, t)"
    and "system_ok q B s" "int64_range now" "\<And>f. keeps B {} (g f)"
  shows "case r of Inl e \<Rightarrow> t = s | Inr _ \<Rightarrow> refreshed q B s t"
  using assms(1)
proof (rule update_refreshed[OF _ assms(2)])
  fix a u
  assume "bindT (sampleQuotaUsageFrame E B now) (\<lambda>frame. case frame of None \<Rightarrow> okT x | Some f \<Rightarrow> g f) s = Inr (a, u)"
  then obtain frame s1 where fr: "sampleQuotaUsageFrame E B now s = Inr (frame, s1)"
    and rest: "(case frame of None \<Rightarrow> okT x | Some f \<Rightarrow> g f) s1 = Inr (a, u)" by (auto simp: bindT_Inr)
  have k: "keeps B {} (case frame of None \<Rightarrow> okT x | Some f \<Rightarrow> g f)" by (intro keeps_rules assms(4))
  show "refreshed q B s u"
    using refreshed_commit[OF _ keepsD[OF k rest]] sampleQuotaUsageFrame_ok[OF fr assms(2,3)] by blast
qed

lemma AccountQuotaUsageBatch_ok:
  assumes "AccountQuotaUsageBatch E B accounts now s = (r, t)" "system_ok q B s" "int64_range now"
  shows "case r of Inl e \<Rightarrow> t = s | Inr _ \<Rightarrow> refreshed q B s t"
proof (cases "validateQuotaUsageBatchAccounts accounts")
  case (Inl e)
  then show ?thesis using assms(1) by (auto simp: AccountQuotaUsageBatch_def)
next
  case (Inr u)
  then show ?thesis
    using assms(1) unfolding AccountQuotaUsageBatch_def Inr sum.case
    by (elim batch_ok[OF _ assms(2,3)])
      (unfold batch_account_def sampleAccountQuotaUsage_def, intro keeps_rules keeps_read_windows)
qed

lemma AccountQuotaUsageProofBatch_ok:
  assumes "AccountQuotaUsageProofBatch E B accounts now s = (r, t)" "system_ok q B s" "int64_range now"
  shows "case r of Inl e \<Rightarrow> t = s | Inr _ \<Rightarrow> refreshed q B s t"
proof (cases "validateQuotaUsageBatchAccounts accounts")
  case (Inl e)
  then show ?thesis using assms(1) by (auto simp: AccountQuotaUsageProofBatch_def)
next
  case (Inr u)
  have k: "keeps B {} (read_registration B account asOf)" for account asOf
    unfolding read_registration_def keeps_def by (auto simp: tx_Inr split: option.splits if_splits)
  show ?thesis
    using assms(1) unfolding AccountQuotaUsageProofBatch_def Inr sum.case
    by (elim batch_ok[OF _ assms(2,3)])
      (unfold proof_account_def sampleAccountQuotaUsage_def, intro keeps_rules keeps_read_windows k)
qed

end

section \<open>What a read returns\<close>

text \<open>A usage is the sum of the receipts of the account in the window.\<close>

definition usage_of :: "'s bolt \<Rightarrow> 's \<Rightarrow> string \<Rightarrow> string \<Rightarrow> quota_usage \<Rightarrow> bool" where
  "usage_of B s account window u \<longleftrightarrow>
     (let total = (\<lambda>d. sum_of B (receipts B s) s d (counterKey account window)) in
      qu_TokensUsed u = total TokensUsed \<and> qu_TokensHeld u = total TokensHeld \<and>
      qu_TokensUnknown u = total TokensUnknown \<and> qu_MoneyUnknown u = total MoneyUnknown)"

context bolt
begin

lemma read_usage_ok:
  assumes "read_usage B account window s = Inr (u, t)" "quota_ok q B s"
  shows "t = s \<and> usage_of B s account window u"
proof -
  obtain c where c: "readQuotaCounter B account window s = Inr (c, t)" and u: "u = quotaCounterView c"
    using assms(1) by (auto simp: read_usage_def bindT_Inr)
  note r = readQuotaCounter_Inr[OF c]
  have b: "amt B s d key = sum_of B (receipts B s) s d key" for d key
    using assms(2) by (simp add: quota_ok_def ledger_def balanced_def)
  have a: "amount d c = amt B s d (counterKey account window)" for d using r by simp
  show ?thesis
    using r(1) a[of TokensUsed, symmetric] a[of TokensHeld, symmetric] a[of TokensUnknown, symmetric] a[of MoneyUnknown, symmetric]
    by (simp add: usage_of_def u quotaCounterView_def b)
qed

lemma AccountQuotaUsage_ok:
  assumes "AccountQuotaUsage E B account now s = (r, t)" "system_ok q B s" "int64_range now"
  shows "case r of Inl e \<Rightarrow> t = s | Inr u \<Rightarrow> refreshed q B s t \<and> au_AsOf u = clock_of B t \<and>
      usage_of B t account ''active'' (au_Active u) \<and> usage_of B t account ''minute'' (au_Minute u) \<and>
      usage_of B t account ''five_hours'' (au_FiveHours u) \<and> usage_of B t account ''seven_days'' (au_SevenDays u) \<and>
      (\<exists>start. usage_of B t account (monthWindow start) (au_Month u))"
  using assms(1) unfolding AccountQuotaUsage_def
proof (cases rule: guarded_cases)
  case (commits u t')
  obtain m instant s1 s2 start end' where md: "readQuotaMetadata E B s = Inr (m, s)"
    and lt: "logicalLimitTime B now s = Inr (instant, s1)" and pr: "pruneQuota B instant s1 = Inr ((), s2)"
    and rd: "read_windows B account instant (qm_CoverageStart m) (qm_TimeZone m) start s2 = Inr (u, t')"
    using commits(3) by (fastforce simp: bindT_Inr thenT_Inr dest: readQuotaMetadata_Inr)
  note R = refreshed_sample[OF lt pr assms(2,3)]
  have "system_ok q B s2" using R(1) by (simp add: refreshed_def)
  moreover have "version_of B s2 = ''2''"
    using sample_system[OF lt pr assms(2,3)] clock_system(9)[OF lt assms(2,3)] pruneQuota_system(6)[OF pr clock_system(1)[OF lt assms(2,3)]]
      readQuotaMetadata_Inr[OF md] by simp
  ultimately have qo: "quota_ok q B s2" by (simp add: system_ok_def)
  obtain a1 a2 a3 a4 a5 where
    w: "t' = s2" "u = \<lparr>au_AsOf = instant, au_CoverageStart = qm_CoverageStart m, au_TimeZone = qm_TimeZone m, au_Active = a1,
            au_Minute = a2, au_FiveHours = a3, au_SevenDays = a4, au_Month = a5\<rparr>"
    "usage_of B s2 account ''active'' a1" "usage_of B s2 account ''minute'' a2" "usage_of B s2 account ''five_hours'' a3"
    "usage_of B s2 account ''seven_days'' a4" "usage_of B s2 account (monthWindow start) a5"
    using rd read_usage_ok[OF _ qo] unfolding read_windows_def bindT_Inr by (metis okT_Inr)
  note f = commits(4)
  have "shares B X t = shares B X s2" for X using apart_same(2)[OF f] w(1) by (intro shares_cong) simp
  then have us: "usage_of B t account w x = usage_of B s2 account w x" for w x
    using receipts_apart[OF f] w(1) by (simp add: usage_of_def sum_of_def)
  show ?thesis
    using commits(2) R w refreshed_commit[OF _ f] clock_of_apart[OF f] unfolding us by (auto simp: us)
qed simp

end

end
