(* ===== verification/Fact_Log.thy ===== *)
theory Fact_Log
  imports Journal_Restart
begin

text \<open>
  The contract of the journal: an abstract log of facts. A fact is reserved with a fallback, revised
  while it is held, finished once, and acknowledged; a restart finishes what is held. The locale
  \<open>fact_log\<close> is the interface: any system whose steps act on its log in this way loses no fact,
  delivers nothing that was not reserved, and never changes a fact that is final.
\<close>

section \<open>The abstract log\<close>

type_synonym log = "string \<Rightarrow> fact_state option"

datatype fact_event =
  Reserved string string | Revised string string | Finished string string | Settled string string
  | Acked string | Restarted | Quiet

text \<open>\<open>None\<close> where the event is not allowed.\<close>

fun fact_step :: "fact_event \<Rightarrow> log \<Rightarrow> log option" where
  "fact_step (Reserved rid p) F = (if F rid = None then Some (F(rid \<mapsto> Held p)) else None)"
| "fact_step (Revised rid p) F = (case F rid of Some (Held _) \<Rightarrow> Some (F(rid \<mapsto> Held p)) | _ \<Rightarrow> None)"
| "fact_step (Finished rid p) F =
     (case F rid of Some (Held _) \<Rightarrow> Some (F(rid \<mapsto> Final p)) | Some (Final _) \<Rightarrow> Some F | None \<Rightarrow> None)"
| "fact_step (Settled rid p) F = Some (case F rid of Some (Held _) \<Rightarrow> F(rid \<mapsto> Final p) | _ \<Rightarrow> F)"
| "fact_step (Acked rid) F = Some (case F rid of Some (Final _) \<Rightarrow> F(rid := None) | _ \<Rightarrow> F)"
| "fact_step Restarted F = Some (\<lambda>k. map_option finalised (F k))"
| "fact_step Quiet F = Some F"

text \<open>The events that may change a fact that is held.\<close>

fun touches :: "string \<Rightarrow> fact_event \<Rightarrow> bool" where
  "touches rid (Revised r _) \<longleftrightarrow> r = rid"
| "touches rid (Finished r _) \<longleftrightarrow> r = rid"
| "touches rid (Settled r _) \<longleftrightarrow> r = rid"
| "touches rid (Acked r) \<longleftrightarrow> r = rid"
| "touches rid _ \<longleftrightarrow> False"

lemma step_final: "fact_step e F = Some G \<Longrightarrow> F rid = Some (Final p) \<Longrightarrow> e \<noteq> Acked rid \<Longrightarrow> G rid = Some (Final p)"
  by (cases e) (auto split: option.splits fact_state.splits if_splits)

lemma step_known: "fact_step e F = Some G \<Longrightarrow> F rid \<noteq> None \<Longrightarrow> e \<noteq> Acked rid \<Longrightarrow> G rid \<noteq> None"
  by (cases e) (auto split: option.splits fact_state.splits if_splits)

lemma step_held: "fact_step e F = Some G \<Longrightarrow> F rid = Some (Held p) \<Longrightarrow> \<not> touches rid e \<Longrightarrow>
    G rid = Some (if e = Restarted then Final p else Held p)"
  by (cases e) (auto split: option.splits fact_state.splits if_splits)

lemma step_new: "fact_step e F = Some G \<Longrightarrow> F rid = None \<Longrightarrow> G rid \<noteq> None \<Longrightarrow> \<exists>p. e = Reserved rid p"
  by (cases e) (auto split: option.splits fact_state.splits if_splits)

section \<open>Histories\<close>

inductive runs :: "('s \<Rightarrow> 'op \<Rightarrow> 's \<Rightarrow> bool) \<Rightarrow> 's \<Rightarrow> 'op list \<Rightarrow> 's \<Rightarrow> bool" for step where
  runs_none: "runs step s [] s"
| runs_more: "step s op t \<Longrightarrow> runs step t ops u \<Longrightarrow> runs step s (op # ops) u"

inductive_simps runs_Nil [simp]: "runs step s [] t"
inductive_simps runs_Cons: "runs step s (op # ops) t"

lemma runs_append: "runs step s (xs @ ys) u \<longleftrightarrow> (\<exists>t. runs step s xs t \<and> runs step t ys u)"
  by (induction xs arbitrary: s) (auto simp: runs_Cons)

section \<open>The contract\<close>

locale fact_log =
  fixes good :: "'s \<Rightarrow> bool" and facts_in :: "'s \<Rightarrow> log" and step :: "'s \<Rightarrow> 'op \<Rightarrow> 's \<Rightarrow> bool" and event :: "'op \<Rightarrow> fact_event"
  assumes good_step: "good s \<Longrightarrow> step s op t \<Longrightarrow> good t"
    and acts: "good s \<Longrightarrow> step s op t \<Longrightarrow> facts_in t = facts_in s \<or> fact_step (event op) (facts_in s) = Some (facts_in t)"
begin

lemma good_runs: "runs step s ops t \<Longrightarrow> good s \<Longrightarrow> good t"
  by (induction rule: runs.induct) (auto dest: good_step)

lemma final_stays:
  "runs step s ops t \<Longrightarrow> good s \<Longrightarrow> facts_in s rid = Some (Final p) \<Longrightarrow> Acked rid \<notin> event ` set ops \<Longrightarrow>
    facts_in t rid = Some (Final p)"
proof (induction rule: runs.induct)
  case (runs_more s op t ops u)
  have n: "event op \<noteq> Acked rid" "Acked rid \<notin> event ` set ops" using runs_more.prems(3) by auto
  have "facts_in t rid = Some (Final p)"
    using acts[OF runs_more.prems(1) runs_more.hyps(1)] step_final n(1) runs_more.prems(2) by metis
  then show ?case using runs_more.IH good_step[OF runs_more.prems(1) runs_more.hyps(1)] n(2) by blast
qed simp

lemma known_stays:
  "runs step s ops t \<Longrightarrow> good s \<Longrightarrow> facts_in s rid \<noteq> None \<Longrightarrow> Acked rid \<notin> event ` set ops \<Longrightarrow> facts_in t rid \<noteq> None"
proof (induction rule: runs.induct)
  case (runs_more s op t ops u)
  have n: "event op \<noteq> Acked rid" "Acked rid \<notin> event ` set ops" using runs_more.prems(3) by auto
  have "facts_in t rid \<noteq> None"
    using acts[OF runs_more.prems(1) runs_more.hyps(1)] step_known n(1) runs_more.prems(2) by metis
  then show ?case using runs_more.IH good_step[OF runs_more.prems(1) runs_more.hyps(1)] n(2) by blast
qed simp

lemma held_stays:
  "runs step s ops t \<Longrightarrow> good s \<Longrightarrow> facts_in s rid = Some (Held p) \<Longrightarrow> \<forall>op \<in> set ops. \<not> touches rid (event op) \<Longrightarrow>
    facts_in t rid \<in> {Some (Held p), Some (Final p)}"
proof (induction rule: runs.induct)
  case (runs_more s op t ops u)
  have n: "\<not> touches rid (event op)" "\<forall>op \<in> set ops. \<not> touches rid (event op)" using runs_more.prems(3) by auto
  have g: "good t" by (rule good_step[OF runs_more.prems(1) runs_more.hyps(1)])
  have "facts_in t rid = Some (Held p) \<or> facts_in t rid = Some (Final p)"
    using acts[OF runs_more.prems(1) runs_more.hyps(1)] step_held[of "event op" "facts_in s" "facts_in t" rid p] n(1) runs_more.prems(2) by metis
  then show ?case
  proof
    assume "facts_in t rid = Some (Held p)"
    then show ?thesis using runs_more.IH g n(2) by blast
  next
    assume f: "facts_in t rid = Some (Final p)"
    have "Acked rid \<notin> event ` set ops" using n(2) by (metis imageE touches.simps(4))
    then show ?thesis using final_stays[OF runs_more.hyps(2) g f] by blast
  qed
qed simp

lemma only_reserved:
  "runs step s ops t \<Longrightarrow> good s \<Longrightarrow> facts_in s rid = None \<Longrightarrow> facts_in t rid \<noteq> None \<Longrightarrow> \<exists>p. Reserved rid p \<in> event ` set ops"
proof (induction rule: runs.induct)
  case (runs_more s op t ops u)
  show ?case
  proof (cases "facts_in t rid")
    case None
    then show ?thesis
      using runs_more.IH[OF good_step[OF runs_more.prems(1) runs_more.hyps(1)]] runs_more.prems(3) by auto
  next
    case (Some f)
    have "\<exists>p. event op = Reserved rid p"
      using acts[OF runs_more.prems(1) runs_more.hyps(1)] step_new runs_more.prems(2) Some by (metis option.distinct(1))
    then show ?thesis by force
  qed
qed simp

end

end
