(* ===== verification/Journal_Steps.thy ===== *)
theory Journal_Steps
  imports Journal_Reads Fact_Log
begin

text \<open>
  The journal as a whole: its operations as one step relation, the abstract journal they implement,
  and what every history of operations, with restarts in between, keeps.
\<close>

section \<open>The version of a journal\<close>

text \<open>A transaction that leaves the version alone, found by rules as \<open>keeps\<close> is.\<close>

definition same_version :: "'s bolt \<Rightarrow> ('s, 'a) tx \<Rightarrow> bool" where
  "same_version B m \<longleftrightarrow> (\<forall>s a t. m s = Inr (a, t) \<longrightarrow> version_of B t = version_of B s)"

lemma same_versionD: "same_version B m \<Longrightarrow> m s = Inr (a, t) \<Longrightarrow> version_of B t = version_of B s"
  by (simp add: same_version_def)

lemma same_version_keeps: "keeps B bs m \<Longrightarrow> LimitMetaBucket \<notin> bs \<Longrightarrow> same_version B m"
  unfolding same_version_def keeps_def using version_of_apart by metis

named_theorems version_rules

lemma same_version_bind [version_rules]: "same_version B m \<Longrightarrow> (\<And>a. same_version B (f a)) \<Longrightarrow> same_version B (bindT m f)"
  unfolding same_version_def bindT_Inr by metis

lemma same_version_then [version_rules]: "same_version B m \<Longrightarrow> same_version B n \<Longrightarrow> same_version B (thenT m n)"
  unfolding thenT_def by (rule same_version_bind)

lemma same_version_pure [version_rules]:
  "same_version B (okT a)" "same_version B (failT e)" "same_version B (checkT ok e)" "same_version B (liftT r)"
  by (rule same_version_keeps[of B "{}"], (intro keeps_rules), simp)+

lemma same_version_read [version_rules]:
  "same_version B (getB B b k)" "same_version B (hasB B b)" "same_version B (listB B b)" "same_version B (countB B b)"
  "same_version B (seqB B b)" "same_version B (metaText B k)"
  by (auto simp: same_version_def tx_Inr metaText_Inr)

lemma same_version_if [version_rules]: "(c \<Longrightarrow> same_version B m) \<Longrightarrow> (\<not> c \<Longrightarrow> same_version B n) \<Longrightarrow> same_version B (if c then m else n)"
  by simp

lemma same_version_option [version_rules]:
  "same_version B m \<Longrightarrow> (\<And>x. same_version B (f x)) \<Longrightarrow> same_version B (case v of None \<Rightarrow> m | Some x \<Rightarrow> f x)"
  by (cases v) simp_all

lemma same_version_prod [version_rules]: "(\<And>x y. same_version B (f x y)) \<Longrightarrow> same_version B (case p of (x, y) \<Rightarrow> f x y)"
  by (cases p) simp

lemma same_version_let [version_rules]: "(\<And>x. same_version B (f x)) \<Longrightarrow> same_version B (let x = v in f x)"
  by simp

context bolt
begin

lemma version_clock [version_rules]: "same_version B (logicalLimitTime B now)"
  unfolding same_version_def using clock_version by blast

lemma version_metadata [version_rules]: "same_version B (readQuotaMetadata E B)" "same_version B (readQuotaReceipt B rid)"
  by (rule same_version_keeps[of B "{}"], (intro keeps_rules), simp)+

lemma version_pruneQuota [version_rules]: "same_version B (pruneQuota B instant)"
  by (rule same_version_keeps[OF keeps_pruneQuota]) (simp add: quotaBuckets_def)

lemma version_admission [version_rules]:
  "same_version B (checkLimitAdmission q B rid limits now)" "same_version B (applyLimitAdmission B rid payload instant accounts)"
  unfolding same_version_def using checkLimitAdmission_version
    same_versionD[OF same_version_keeps[OF keeps_applyLimitAdmission[of "core - {LimitMetaBucket}"]]]
  by (metis, simp add: core_def)

lemma version_checkQuota [version_rules]: "same_version B (checkQuota B p b m instant start a establish)"
  by (rule same_version_keeps[of B "{QuotaAccountBucket}"]) ((intro keeps_rules; simp), simp)

lemma version_for [version_rules]: "(\<And>x. same_version B (f x)) \<Longrightarrow> same_version B (forT xs f)"
  by (induction xs) (simp_all add: version_rules)

lemma version_fold [version_rules]: "(\<And>x y. same_version B (f x y)) \<Longrightarrow> same_version B (foldT f xs y)"
  by (induction xs arbitrary: y) (simp_all add: version_rules)

lemma version_quota [version_rules]:
  "same_version B (applyQuotaCounter B account window e sign)" "same_version B (storeQuotaReceipt B e)"
  "same_version B (projectTerminalQuota B e instant)"
  by (rule same_version_keeps[of B QB], (intro keeps_rules), simp add: quotaBuckets_def)+

lemma version_write [version_rules]:
  "b \<noteq> LimitMetaBucket \<Longrightarrow> same_version B (putB B b k v)" "b \<noteq> LimitMetaBucket \<Longrightarrow> same_version B (deleteB B b k)"
  by (rule same_version_keeps[of B "{b}"], (intro keeps_rules; simp), simp)+

lemma version_complete [version_rules]: "same_version B (complete_entry B rid payload)"
  by (rule same_version_keeps[of B "core - {LimitMetaBucket}"]) ((intro keeps_rules; simp add: core_def), simp)

lemma version_setseq [version_rules]: "same_version B (bindT (seqB B QuotaEntryBucket) (\<lambda>n. setseqB B QuotaEntryBucket (n + 1)))"
proof (rule same_version_keeps[of B "{QuotaEntryBucket}"])
  show "keeps B {QuotaEntryBucket} (bindT (seqB B QuotaEntryBucket) (\<lambda>n. setseqB B QuotaEntryBucket (n + 1)))"
    by (rule keeps_seq_change) (simp, (intro keeps_setseq; simp))
qed simp

lemma update_version:
  assumes "update B m s = (r, t)" "same_version B m"
  shows "version_of B t = version_of B s"
  using assms(1)
proof (cases rule: op_cases)
  case (commits a t')
  have "version_of B t = version_of B t'" by (rule version_of_apart[OF commits(3)]) simp
  then show ?thesis using same_versionD[OF assms(2) commits(2)] by simp
qed simp

lemma guarded_version: "guarded ok err (update B m) s = (r, t) \<Longrightarrow> same_version B m \<Longrightarrow> version_of B t = version_of B s"
  using update_version by (auto simp: guarded_def split: if_splits)

end

section \<open>The operations\<close>

datatype journal_op =
  OpReserve string string
| OpUpdatePending string string
| OpComplete string string
| OpAck string
| OpBindInstallation string bool
| OpReserveWithLimits string string "limit list" int
| OpAccountUsage string int
| OpEnableQuota string int
| OpReserveWithQuota string string "quota_limit list" quota_bound quota_settlement int
| OpUpdatePendingQuota string string quota_settlement
| OpCompleteQuota string string quota_settlement int
| OpPreflight string "quota_limit list" quota_bound string int
| OpQuotaUsage string int
| OpUsageBatch "string list" int
| OpProofBatch "string list" int
| OpMoneyHolds int
| OpRestart

definition reported :: "(queue_error + 'a) \<times> 's \<Rightarrow> queue_error option \<times> 's" where
  "reported r = (case r of (Inl e, t) \<Rightarrow> (Some e, t) | (Inr _, t) \<Rightarrow> (None, t))"

text \<open>A restart closes the journal and opens it again with the same configuration.\<close>

definition restart :: "env \<Rightarrow> queue \<Rightarrow> 's bolt \<Rightarrow> 's \<Rightarrow> queue_error option \<times> 's" where
  "restart E q B s =
     (case Open E B True (q_capacity q) (q_maxPayload q) (Some s) of
        (r, f) \<Rightarrow> ((case r of Inl e \<Rightarrow> Some e | Inr _ \<Rightarrow> None), (case f of None \<Rightarrow> s | Some t \<Rightarrow> t)))"

fun run_op :: "env \<Rightarrow> queue \<Rightarrow> 's bolt \<Rightarrow> journal_op \<Rightarrow> 's \<Rightarrow> queue_error option \<times> 's" where
  "run_op E q B (OpReserve rid p) s = reported (Reserve q B rid p s)"
| "run_op E q B (OpUpdatePending rid p) s = reported (UpdatePending q B rid p s)"
| "run_op E q B (OpComplete rid p) s = reported (Complete q B rid p s)"
| "run_op E q B (OpAck rid) s = reported (Ack B rid s)"
| "run_op E q B (OpBindInstallation i e) s = reported (BindInstallation B i e s)"
| "run_op E q B (OpReserveWithLimits rid p ls now) s = reported (ReserveWithLimits q B rid p ls now s)"
| "run_op E q B (OpAccountUsage a now) s = reported (AccountUsage B a now s)"
| "run_op E q B (OpEnableQuota z now) s = reported (EnableQuota E B z now s)"
| "run_op E q B (OpReserveWithQuota rid p ps b r now) s = reported (ReserveWithQuotaRecovery E q B rid p ps b r now s)"
| "run_op E q B (OpUpdatePendingQuota rid p a) s = reported (UpdatePendingQuota q B rid p a s)"
| "run_op E q B (OpCompleteQuota rid p a now) s = reported (CompleteQuota E q B rid p a now s)"
| "run_op E q B (OpPreflight rid ps b z now) s = reported (PreflightWithQuota E q B rid ps b z now s)"
| "run_op E q B (OpQuotaUsage a now) s = reported (AccountQuotaUsage E B a now s)"
| "run_op E q B (OpUsageBatch as now) s = reported (AccountQuotaUsageBatch E B as now s)"
| "run_op E q B (OpProofBatch as now) s = reported (AccountQuotaUsageProofBatch E B as now s)"
| "run_op E q B (OpMoneyHolds now) s = reported (HasLiveMoneyHolds E B now s)"
| "run_op E q B OpRestart s = restart E q B s"

text \<open>The wall clock an operation is given is a 64-bit instant.\<close>

fun op_time :: "journal_op \<Rightarrow> int" where
  "op_time (OpReserveWithLimits _ _ _ now) = now"
| "op_time (OpAccountUsage _ now) = now"
| "op_time (OpEnableQuota _ now) = now"
| "op_time (OpReserveWithQuota _ _ _ _ _ now) = now"
| "op_time (OpCompleteQuota _ _ _ now) = now"
| "op_time (OpPreflight _ _ _ _ now) = now"
| "op_time (OpQuotaUsage _ now) = now"
| "op_time (OpUsageBatch _ now) = now"
| "op_time (OpProofBatch _ now) = now"
| "op_time (OpMoneyHolds now) = now"
| "op_time _ = 0"

text \<open>What an operation does to the abstract log.\<close>

fun log_event :: "journal_op \<Rightarrow> fact_event" where
  "log_event (OpReserve rid p) = Reserved rid p"
| "log_event (OpUpdatePending rid p) = Revised rid p"
| "log_event (OpComplete rid p) = Finished rid p"
| "log_event (OpAck rid) = Acked rid"
| "log_event (OpReserveWithLimits rid p _ _) = Reserved rid p"
| "log_event (OpReserveWithQuota rid p _ _ _ _) = Reserved rid p"
| "log_event (OpUpdatePendingQuota rid p _) = Revised rid p"
| "log_event (OpCompleteQuota rid p _ _) = Settled rid p"
| "log_event OpRestart = Restarted"
| "log_event _ = Quiet"

text \<open>What an operation may do to the receipts: it keeps those that are settled, or drops them once expired.\<close>

definition receipts_stay :: "'s bolt \<Rightarrow> 's \<Rightarrow> 's \<Rightarrow> bool" where
  "receipts_stay B s t \<longleftrightarrow>
     (\<forall>rid e. receipts B s rid = Some e \<longrightarrow> qr_State e \<noteq> ''active'' \<longrightarrow> receipts B t rid \<in> {None, Some e})"

definition op_good :: "env \<Rightarrow> queue \<Rightarrow> 's bolt \<Rightarrow> journal_op \<Rightarrow> 's \<Rightarrow> 's \<Rightarrow> queue_error option \<Rightarrow> bool" where
  "op_good E q B op s t r \<longleftrightarrow> system_ok q B t \<and>
     (case r of
        Some e \<Rightarrow> t = s
      | None \<Rightarrow> fact_step (log_event op) (facts B s) = Some (facts B t) \<and> clock_of B s \<le> clock_of B t \<and>
          (version_of B s = ''2'' \<longrightarrow> version_of B t = ''2'' \<and> receipts_stay B s t))"

lemma reported_cases:
  assumes "reported x = (r, t)"
  obtains (fails) e where "x = (Inl e, t)" "r = Some e" | (works) a where "x = (Inr a, t)" "r = None"
  using assms by (cases x; cases "fst x") (auto simp: reported_def)

lemma receipts_stay_same: "receipts B t = receipts B s \<Longrightarrow> receipts_stay B s t"
  by (auto simp: receipts_stay_def split: option.splits)

lemma receipts_stay_le: "receipts B t \<subseteq>\<^sub>m receipts B s \<Longrightarrow> receipts_stay B s t"
proof -
  assume le: "receipts B t \<subseteq>\<^sub>m receipts B s"
  have "receipts B s rid = Some e" if "receipts B t rid = Some e" for rid e
    using that le by (auto simp: map_le_def dom_def)
  then show ?thesis unfolding receipts_stay_def by (metis insert_iff not_Some_eq option.inject)
qed


context bolt
begin

lemma op_goodI:
  assumes "system_ok q B t"
    and "r \<noteq> None \<Longrightarrow> t = s"
    and "r = None \<Longrightarrow> fact_step (log_event op) (facts B s) = Some (facts B t) \<and> clock_of B s \<le> clock_of B t"
    and "r = None \<Longrightarrow> version_of B s = ''2'' \<Longrightarrow> version_of B t = ''2'' \<and> receipts_stay B s t"
  shows "op_good E q B op s t r"
  using assms by (cases r) (simp_all add: op_good_def)

lemma apart_stay: "apart B bs s t \<Longrightarrow> QuotaEntryBucket \<notin> bs \<Longrightarrow> receipts_stay B s t"
  by (rule receipts_stay_same) (rule receipts_apart)

lemma good_Reserve:
  assumes "reported (Reserve q B rid p s) = (r, t)" "system_ok q B s"
  shows "op_good E q B (OpReserve rid p) s t r"
  using assms(1)
proof (cases rule: reported_cases)
  case (fails e)
  then show ?thesis using Reserve_ok[OF fails(1)] assms(2) by (auto simp: op_good_def system_ok_def)
next
  case (works a)
  have j: "journal_ok q B s" using assms(2) by (simp add: system_ok_def)
  have a: "apart B {PendingBucket} s t"
    by (rule guarded_keeps[OF works(1)[unfolded Reserve_def]]) (intro keeps_rules, simp)
  show ?thesis
    using Reserve_ok[OF works(1) j] Reserve_system[OF works(1) assms(2)] version_of_apart[OF a] apart_stay[OF a]
    by (intro op_goodI) (auto simp: works(2))
qed

lemma good_UpdatePending:
  assumes "reported (UpdatePending q B rid p s) = (r, t)" "system_ok q B s"
  shows "op_good E q B (OpUpdatePending rid p) s t r"
  using assms(1)
proof (cases rule: reported_cases)
  case (fails e)
  then show ?thesis using UpdatePending_ok[OF fails(1)] assms(2) by (auto simp: op_good_def system_ok_def)
next
  case (works a)
  have j: "journal_ok q B s" using assms(2) by (simp add: system_ok_def)
  have a: "apart B {PendingBucket} s t"
    by (rule guarded_keeps[OF works(1)[unfolded UpdatePending_def]]) (intro keeps_rules, simp)
  show ?thesis
    using UpdatePending_ok[OF works(1) j] UpdatePending_system[OF works(1) assms(2)] version_of_apart[OF a] apart_stay[OF a]
    by (intro op_goodI) (auto simp: works(2))
qed

lemma good_Complete:
  assumes "reported (Complete q B rid p s) = (r, t)" "system_ok q B s"
  shows "op_good E q B (OpComplete rid p) s t r"
  using assms(1)
proof (cases rule: reported_cases)
  case (fails e)
  then show ?thesis using Complete_ok[OF fails(1)] assms(2) by (auto simp: op_good_def system_ok_def)
next
  case (works a)
  have j: "journal_ok q B s" using assms(2) by (simp add: system_ok_def)
  have a: "apart B {PendingBucket, ReadyBucket, LeaseBucket, ActiveCountBucket} s t"
    by (rule guarded_keeps[OF works(1)[unfolded Complete_def]]) (intro keeps_rules; simp)
  show ?thesis
    using Complete_ok[OF works(1) j] Complete_system[OF works(1) assms(2)] version_of_apart[OF a] apart_stay[OF a]
    by (intro op_goodI) (auto simp: works(2) split: option.splits fact_state.splits)
qed

lemma good_Ack:
  assumes "reported (Ack B rid s) = (r, t)" "system_ok q B s"
  shows "op_good E q B (OpAck rid) s t r"
  using assms(1)
proof (cases rule: reported_cases)
  case (fails e)
  then show ?thesis using Ack_ok[OF fails(1)] assms(2) by (auto simp: op_good_def system_ok_def)
next
  case (works a)
  have j: "journal_ok q B s" using assms(2) by (simp add: system_ok_def)
  have a: "apart B {ReadyBucket} s t"
    by (rule guarded_keeps[OF works(1)[unfolded Ack_def]]) (intro keeps_rules, simp)
  show ?thesis
    using Ack_ok[OF works(1) j] Ack_system[OF works(1) assms(2)] version_of_apart[OF a] apart_stay[OF a]
    by (intro op_goodI) (auto simp: works(2) split: option.splits fact_state.splits)
qed

lemma good_BindInstallation:
  assumes "reported (BindInstallation B i x s) = (r, t)" "system_ok q B s"
  shows "op_good E q B (OpBindInstallation i x) s t r"
  using assms(1)
proof (cases rule: reported_cases)
  case (fails e)
  then show ?thesis using BindInstallation_ok[OF fails(1)] assms(2) by (auto simp: op_good_def system_ok_def)
next
  case (works a)
  have j: "journal_ok q B s" using assms(2) by (simp add: system_ok_def)
  have a: "apart B {LimitMetaBucket} s t"
    by (rule guarded_keeps[OF works(1)[unfolded BindInstallation_def]]) (intro keeps_rules; simp)
  have "version_of B t = version_of B s"
    using works(1) unfolding BindInstallation_def
  proof (cases rule: guarded_cases)
    case (commits u t')
    have "t' = s \<or> putB B LimitMetaBucket ''installation'' (Bytes i) s = Inr (u, t')"
      using commits(3) by (auto simp: tx_Inr metaText_Inr split: if_splits)
    then have "version_of B t' = version_of B s" using put_version[of "''installation''"] by auto
    then show ?thesis using version_of_apart[OF commits(4)] by simp
  qed simp
  then show ?thesis
    using BindInstallation_ok[OF works(1) j] BindInstallation_system[OF works(1) assms(2)] apart_stay[OF a]
    by (intro op_goodI) (auto simp: works(2))
qed

lemma good_ReserveWithLimits:
  assumes "reported (ReserveWithLimits q B rid p ls now s) = (r, t)" "system_ok q B s" "int64_range now"
  shows "op_good E q B (OpReserveWithLimits rid p ls now) s t r"
  using assms(1)
proof (cases rule: reported_cases)
  case (fails e)
  then show ?thesis using ReserveWithLimits_ok[OF fails(1) _ assms(3)] assms(2) by (auto simp: op_good_def system_ok_def)
next
  case (works a)
  have j: "journal_ok q B s" using assms(2) by (simp add: system_ok_def)
  have a: "apart B (core - {ReadyBucket}) s t"
    by (rule guarded_keeps[OF works(1)[unfolded ReserveWithLimits_def reserveWithLimits_def]])
      (intro keeps_rules; simp add: core_def)
  have "version_of B t = version_of B s"
    using works(1) unfolding ReserveWithLimits_def
    by (rule guarded_version) (unfold reserveWithLimits_def, intro version_rules)
  moreover have "receipts_stay B s t" by (rule apart_stay[OF a]) (simp add: core_def)
  ultimately show ?thesis
    using ReserveWithLimits_ok[OF works(1) j assms(3)] ReserveWithLimits_system[OF works(1) assms(2,3)]
    by (intro op_goodI) (auto simp: works(2))
qed

lemma good_AccountUsage:
  assumes "reported (AccountUsage B x now s) = (r, t)" "system_ok q B s" "int64_range now"
  shows "op_good E q B (OpAccountUsage x now) s t r"
  using assms(1)
proof (cases rule: reported_cases)
  case (fails e)
  then show ?thesis using AccountUsage_ok[OF fails(1) _ assms(3)] assms(2) by (auto simp: op_good_def system_ok_def)
next
  case (works a)
  have j: "journal_ok q B s" using assms(2) by (simp add: system_ok_def)
  have k: "keeps B {LimitMetaBucket, RpmBucket, RpmCountBucket} (bindT (logicalLimitTime B now) (\<lambda>instant.
       thenT (pruneLimits B instant)
       (bindT (countValue B RpmCountBucket x) (\<lambda>rpm.
        bindT (countValue B ActiveCountBucket x) (\<lambda>active. okT (rpm, active))))))"
    by (intro keeps_rules; simp)
  have v: "same_version B (pruneLimits B instant)" "same_version B (countValue B b key)" for instant b key
    by (rule same_version_keeps[of B "{RpmBucket, RpmCountBucket}"], (intro keeps_rules; simp), simp)+
  show ?thesis
    using works(1) unfolding AccountUsage_def
  proof (cases rule: op_cases)
    case (commits u t')
    have a: "apart B {LimitMetaBucket, RpmBucket, RpmCountBucket} s t"
      using apart_trans[OF keepsD[OF k commits(2)] commits(3)] by simp
    have "version_of B t = version_of B s"
      using works(1) unfolding AccountUsage_def by (rule update_version) (intro v version_rules)
    moreover have "receipts_stay B s t" by (rule apart_stay[OF a]) simp
    ultimately show ?thesis
      using AccountUsage_ok[OF works(1) j assms(3)] AccountUsage_system[OF works(1) assms(2,3)]
      by (intro op_goodI) (auto simp: works(2) split: prod.splits)
  qed simp
qed

section \<open>The quota operations\<close>

lemma version_metadata_if_active [version_rules]: "same_version B (metadata_if_active E B)"
  unfolding same_version_def by (intro allI impI) (drule metadata_if_active_Inr, simp)

lemma version_read_windows [version_rules]: "same_version B (read_windows B account asOf coverage zone start)"
  by (rule same_version_keeps[of B "{}"]) (rule keeps_read_windows, simp)

lemma version_checkQuotaAdmission [version_rules]: "same_version B (checkQuotaAdmission E q B rid ps b zone now establish)"
  unfolding checkQuotaAdmission_def by (intro version_rules)

lemma good_EnableQuota:
  assumes "reported (EnableQuota E B z now s) = (r, t)" "system_ok q B s" "int64_range now" "0 \<le> q_quotaCapacity q"
  shows "op_good E q B (OpEnableQuota z now) s t r"
  using assms(1)
proof (cases rule: reported_cases)
  case (fails e)
  then show ?thesis using EnableQuota_ok[OF fails(1) assms(2-4)] by (auto simp: op_good_def)
next
  case (works a)
  show ?thesis
    using EnableQuota_ok[OF works(1) assms(2-4)] receipts_stay_same[of B t s] by (intro op_goodI) (auto simp: works(2))
qed

lemma good_ReserveWithQuota:
  assumes "reported (ReserveWithQuotaRecovery E q B rid p ps b rec now s) = (r, t)" "system_ok q B s" "int64_range now" "env_ok E"
  shows "op_good E q B (OpReserveWithQuota rid p ps b rec now) s t r"
  using assms(1)
proof (cases rule: reported_cases)
  case (fails e)
  then show ?thesis using ReserveWithQuotaRecovery_ok[OF fails(1) assms(2,4,3)] by (auto simp: op_good_def)
next
  case (works a)
  note ok = ReserveWithQuotaRecovery_ok[OF works(1) assms(2,4,3)]
  have up: "update B (admit_quota E q B rid p ps b rec now) s = (Inr a, t)"
    using works(1) by (auto simp: ReserveWithQuotaRecovery_def split: if_splits sum.splits)
  have v: "same_version B (admit_quota E q B rid p ps b rec now)"
    unfolding admit_quota_def by (intro version_rules)
  have rn: "receipts B s rid = None"
    using up
  proof (cases rule: op_cases)
    case (commits u t')
    then obtain entry accounts s1 where ck: "checkQuotaAdmission E q B rid ps b [] now True s = Inr ((entry, accounts), s1)"
      by (auto simp: admit_quota_def bindT_Inr)
    have "version_of B s = ''2''" "has B s QuotaEntryBucket \<longrightarrow> ent B s QuotaEntryBucket rid = None"
      using checkQuotaAdmission_split[OF ck] by (elim exE, elim conjE, simp)+
    then show ?thesis using system_active[OF assms(2)] by (simp add: receipts_def)
  qed simp
  have "receipts_stay B s t"
    unfolding receipts_stay_def
  proof (intro allI impI)
    fix k e assume e: "receipts B s k = Some e" "qr_State e \<noteq> ''active''"
    then have "k \<noteq> rid" using rn by auto
    then show "receipts B t k \<in> {None, Some e}" using ok e(1) by (cases "receipts B t k") auto
  qed
  then show ?thesis
    using ok update_version[OF up v] by (intro op_goodI) (auto simp: works(2))
qed

lemma good_UpdatePendingQuota:
  assumes "reported (UpdatePendingQuota q B rid p a s) = (r, t)" "system_ok q B s"
  shows "op_good E q B (OpUpdatePendingQuota rid p a) s t r"
  using assms(1)
proof (cases rule: reported_cases)
  case (fails e)
  then show ?thesis using UpdatePendingQuota_ok[OF fails(1) assms(2)] by (auto simp: op_good_def)
next
  case (works x)
  note ok = UpdatePendingQuota_ok[OF works(1) assms(2)]
  have "version_of B t = version_of B s"
  proof -
    have up: "\<exists>m. update B m s = (Inr x, t) \<and> same_version B m"
      using works(1) unfolding UpdatePendingQuota_def
      by (auto split: if_splits sum.splits intro!: exI conjI version_rules; simp)
    then show ?thesis using update_version by blast
  qed
  moreover have "receipts_stay B s t" if v: "version_of B s = ''2''"
  proof -
    obtain e where e: "receipts B s rid = Some e" "receipts B t = (receipts B s)(rid \<mapsto> e\<lparr>qr_Recovery := a\<rparr>)"
      and h: "\<exists>old. facts B s rid = Some (Held old)" using ok by auto
    have "linked B s" using assms(2) v by (simp add: system_ok_def quota_ok_def)
    then have "qr_State e = ''active''" using linkedD[OF _ e(1)] h by blast
    then show ?thesis using e by (auto simp: receipts_stay_def split: option.splits)
  qed
  ultimately show ?thesis using ok by (intro op_goodI) (auto simp: works(2))
qed

lemma good_CompleteQuota:
  assumes "reported (CompleteQuota E q B rid p a now s) = (r, t)" "system_ok q B s" "int64_range now" "env_ok E"
  shows "op_good E q B (OpCompleteQuota rid p a now) s t r"
  using assms(1)
proof (cases rule: reported_cases)
  case (fails e)
  then show ?thesis using CompleteQuota_ok[OF fails(1) assms(2,4,3)] by (auto simp: op_good_def)
next
  case (works x)
  note ok = CompleteQuota_ok[OF works(1) assms(2,4,3)]
  have up: "update B (settle_quota E B rid p a now) s = (Inr x, t)"
    using works(1) by (auto simp: CompleteQuota_def split: if_splits sum.splits)
  have "same_version B (settle_quota E B rid p a now)"
    unfolding settle_quota_def by (intro version_rules; simp)
  from update_version[OF up this] have v: "version_of B t = version_of B s" .
  have "receipts_stay B s t" using ok by (auto simp: receipts_stay_def split: if_splits option.splits)
  then show ?thesis using ok v
    by (intro op_goodI) (auto simp: works(2) split: option.splits fact_state.splits)
qed

lemma good_Preflight:
  assumes "reported (PreflightWithQuota E q B rid ps b z now s) = (r, t)" "system_ok q B s" "int64_range now"
  shows "op_good E q B (OpPreflight rid ps b z now) s t r"
  using assms(1)
proof (cases rule: reported_cases)
  case (fails e)
  then show ?thesis using PreflightWithQuota_ok[OF fails(1) assms(2,3)] by (auto simp: op_good_def)
next
  case (works x)
  note ok = PreflightWithQuota_ok[OF works(1) assms(2,3)]
  have up: "update B (bindT (checkQuotaAdmission E q B rid ps b z now False) (\<lambda>_. okT ())) s = (Inr x, t)"
    using works(1) by (auto simp: PreflightWithQuota_def split: if_splits sum.splits)
  have "same_version B (bindT (checkQuotaAdmission E q B rid ps b z now False) (\<lambda>_. okT ()))" by (intro version_rules)
  from update_version[OF up this] have "version_of B t = version_of B s" .
  then show ?thesis using ok receipts_stay_le[of B t s] by (intro op_goodI) (auto simp: works(2))
qed

text \<open>The reads.\<close>

lemma good_read:
  assumes "case x of Inl e \<Rightarrow> t = s | Inr _ \<Rightarrow> refreshed q B s t" "reported (x, t) = (r, t)" "system_ok q B s"
    and "log_event op = Quiet" "version_of B t = version_of B s"
  shows "op_good E q B op s t r"
proof (cases x)
  case (Inl e)
  then show ?thesis using assms(1-3) by (auto simp: op_good_def reported_def)
next
  case (Inr a)
  then have "refreshed q B s t" "r = None" using assms(1,2) by (simp_all add: reported_def)
  then show ?thesis using assms(4,5) receipts_stay_le[of B t s] by (intro op_goodI) (auto simp: refreshed_def)
qed

lemma good_QuotaUsage:
  assumes "reported (AccountQuotaUsage E B a now s) = (r, t)" "system_ok q B s" "int64_range now"
  shows "op_good E q B (OpQuotaUsage a now) s t r"
proof -
  obtain x where x: "AccountQuotaUsage E B a now s = (x, t)" using assms(1) by (auto simp: reported_def split: prod.splits sum.splits)
  have "version_of B t = version_of B s"
    using x unfolding AccountQuotaUsage_def by (rule guarded_version) (intro version_rules)
  then show ?thesis using AccountQuotaUsage_ok[OF x assms(2,3)] assms(1,2) x by (intro good_read[where x = x]) (auto split: sum.splits)
qed

lemma version_batch [version_rules]: "same_version B (sampleQuotaUsageFrame E B now)"
  unfolding sampleQuotaUsageFrame_def by (intro version_rules)

lemma good_UsageBatch:
  assumes "reported (AccountQuotaUsageBatch E B as now s) = (r, t)" "system_ok q B s" "int64_range now"
  shows "op_good E q B (OpUsageBatch as now) s t r"
proof -
  obtain x where x: "AccountQuotaUsageBatch E B as now s = (x, t)" using assms(1) by (auto simp: reported_def split: prod.splits sum.splits)
  have "version_of B t = version_of B s"
  proof (cases "validateQuotaUsageBatchAccounts as")
    case (Inl e)
    then show ?thesis using x by (auto simp: AccountQuotaUsageBatch_def)
  next
    case (Inr u)
    show ?thesis using x unfolding AccountQuotaUsageBatch_def Inr sum.case
      by (rule update_version) (unfold batch_account_def sampleAccountQuotaUsage_def, intro version_rules)
  qed
  then show ?thesis using AccountQuotaUsageBatch_ok[OF x assms(2,3)] assms(1,2) x by (intro good_read[where x = x]) auto
qed

lemma good_ProofBatch:
  assumes "reported (AccountQuotaUsageProofBatch E B as now s) = (r, t)" "system_ok q B s" "int64_range now"
  shows "op_good E q B (OpProofBatch as now) s t r"
proof -
  obtain x where x: "AccountQuotaUsageProofBatch E B as now s = (x, t)" using assms(1) by (auto simp: reported_def split: prod.splits sum.splits)
  have k: "same_version B (read_registration B account asOf)" for account asOf
    unfolding read_registration_def same_version_def by (auto simp: tx_Inr split: option.splits if_splits)
  have "version_of B t = version_of B s"
  proof (cases "validateQuotaUsageBatchAccounts as")
    case (Inl e)
    then show ?thesis using x by (auto simp: AccountQuotaUsageProofBatch_def)
  next
    case (Inr u)
    show ?thesis using x unfolding AccountQuotaUsageProofBatch_def Inr sum.case
      by (rule update_version) (unfold proof_account_def sampleAccountQuotaUsage_def, intro version_rules k)
  qed
  then show ?thesis using AccountQuotaUsageProofBatch_ok[OF x assms(2,3)] assms(1,2) x by (intro good_read[where x = x]) auto
qed

lemma good_MoneyHolds:
  assumes "reported (HasLiveMoneyHolds E B now s) = (r, t)" "system_ok q B s" "int64_range now"
  shows "op_good E q B (OpMoneyHolds now) s t r"
proof -
  obtain x where x: "HasLiveMoneyHolds E B now s = (x, t)" using assms(1) by (auto simp: reported_def split: prod.splits sum.splits)
  have k: "same_version B (readQuotaCounter B account w)" for account w
    unfolding readQuotaCounter_def by (intro version_rules)
  have "version_of B t = version_of B s"
    using x unfolding HasLiveMoneyHolds_def
    by (rule update_version) (unfold held_step_def, intro version_rules k)
  then show ?thesis using HasLiveMoneyHolds_ok[OF x assms(2,3)] assms(1,2) x by (intro good_read[where x = x]) auto
qed

section \<open>A restart\<close>

lemma good_restart:
  assumes "restart E (configured c m) B s = (r, t)" "system_ok (configured c m) B s" "env_ok E"
  shows "op_good E (configured c m) B OpRestart s t r"
proof -
  obtain x f where o: "Open E B True c m (Some s) = (x, f)" by fastforce
  have r: "r = (case x of Inl e \<Rightarrow> Some e | Inr _ \<Rightarrow> None)" "t = (case f of None \<Rightarrow> s | Some t \<Rightarrow> t)"
    using assms(1) o by (simp_all add: restart_def configured_def)
  note ok = Open_ok[OF o assms(3,2)]
  show ?thesis
  proof (cases x)
    case (Inl e)
    then show ?thesis using ok r assms(2) by (simp add: op_good_def)
  next
    case (Inr y)
    have v: "version_of B t = version_of B s" using ok r Inr by auto
    have "receipts_stay B s t" if "version_of B s = ''2''"
    proof -
      have le: "receipts B t \<subseteq>\<^sub>m recovered E B s" using ok r Inr that by auto
      show ?thesis
        unfolding receipts_stay_def
      proof (intro allI impI)
        fix k e assume e: "receipts B s k = Some e" "qr_State e \<noteq> ''active''"
        then have "recovered E B s k = Some e" by (simp add: recovered_def)
        moreover have "receipts B t k = None \<or> receipts B t k = recovered E B s k"
          using le by (auto simp: map_le_def dom_def)
        ultimately show "receipts B t k \<in> {None, Some e}" by auto
      qed
    qed
    then show ?thesis using ok r Inr v by (intro op_goodI) auto
  qed
qed

end

section \<open>The step relation\<close>

inductive journal_step :: "env \<Rightarrow> queue \<Rightarrow> 's bolt \<Rightarrow> 's \<Rightarrow> journal_op \<Rightarrow> 's \<Rightarrow> bool" for E q B where
  step_done: "run_op E q B op s = (None, t) \<Longrightarrow> int64_range (op_time op) \<Longrightarrow> journal_step E q B s op t"
| step_failed: "run_op E q B op s = (Some e, t) \<Longrightarrow> int64_range (op_time op) \<Longrightarrow> journal_step E q B s op t"

inductive_cases journal_stepE: "journal_step E q B s op t"

text \<open>The journals of a process that opened a new file, with restarts.\<close>

inductive reachable :: "env \<Rightarrow> queue \<Rightarrow> 's bolt \<Rightarrow> 's \<Rightarrow> bool" for E q B where
  reach_new: "\<forall>b. \<not> has B s b \<Longrightarrow> Open E B True c m (Some s) = (Inr q, Some t) \<Longrightarrow> reachable E q B t"
| reach_step: "reachable E q B s \<Longrightarrow> journal_step E q B s op t \<Longrightarrow> reachable E q B t"

definition is_configured :: "queue \<Rightarrow> bool" where
  "is_configured q \<longleftrightarrow> (\<exists>c m. q = configured c m)"

lemma configured_nonneg: "is_configured q \<Longrightarrow> 0 \<le> q_quotaCapacity q"
  unfolding is_configured_def using configured_capacity by auto

context bolt
begin

lemma run_op_good:
  assumes "run_op E q B op s = (r, t)" "system_ok q B s" "env_ok E" "int64_range (op_time op)" "is_configured q"
  shows "op_good E q B op s t r"
  using assms configured_nonneg[OF assms(5)]
  by (cases op)
    (auto simp only: run_op.simps op_time.simps is_configured_def
      intro: good_Reserve good_UpdatePending good_Complete good_Ack good_BindInstallation good_ReserveWithLimits
        good_AccountUsage good_EnableQuota good_ReserveWithQuota good_UpdatePendingQuota good_CompleteQuota
        good_Preflight good_QuotaUsage good_UsageBatch good_ProofBatch good_MoneyHolds good_restart)

lemma step_good:
  assumes "journal_step E q B s op t" "env_ok E \<and> is_configured q \<and> system_ok q B s"
  shows "system_ok q B t" "clock_of B s \<le> clock_of B t"
    "facts B t = facts B s \<or> fact_step (log_event op) (facts B s) = Some (facts B t)"
    "version_of B s = ''2'' \<Longrightarrow> version_of B t = ''2'' \<and> receipts_stay B s t"
proof -
  from assms(1) obtain r where r: "run_op E q B op s = (r, t)" "int64_range (op_time op)"
    by (rule journal_stepE) blast+
  have g: "op_good E q B op s t r" using run_op_good[OF r(1) _ _ r(2)] assms(2) by blast
  show "system_ok q B t" "clock_of B s \<le> clock_of B t"
    "facts B t = facts B s \<or> fact_step (log_event op) (facts B s) = Some (facts B t)"
    "version_of B s = ''2'' \<Longrightarrow> version_of B t = ''2'' \<and> receipts_stay B s t"
    using g receipts_stay_same[of B s s] by (auto simp: op_good_def split: option.splits)
qed

end

text \<open>The journal keeps the contract of the abstract log.\<close>

sublocale bolt \<subseteq> log: fact_log "\<lambda>s. env_ok E \<and> is_configured q \<and> system_ok q B s" "facts B" "journal_step E q B" log_event for E q
  by unfold_locales (use step_good in blast)+

context bolt
begin

lemma reachable_ok: "reachable E q B s \<Longrightarrow> env_ok E \<Longrightarrow> is_configured q \<and> system_ok q B s"
proof (induction rule: reachable.induct)
  case (reach_new s c m t)
  show ?case using Open_fresh_ok[OF reach_new.hyps(2,1)] by (auto simp: is_configured_def)
next
  case (reach_step s op t)
  then show ?case using step_good(1)[OF reach_step.hyps(2)] by blast
qed

lemma runs_reachable: "runs (journal_step E q B) s ops t \<Longrightarrow> reachable E q B s \<Longrightarrow> reachable E q B t"
  by (induction rule: runs.induct) (auto intro: reach_step)

lemmas log_facts = log.good_runs log.final_stays log.known_stays log.held_stays log.only_reserved

end

end
