(* ===== verification/Journal_Live.thy ===== *)
theory Journal_Live
  imports Journal_Steps
begin

text \<open>
  On a database whose writes succeed (\<open>bolt_live\<close>), the journal does not refuse what it has promised:
  a held fact can always be completed, and a reservation is refused only for its key or payload, for a
  fact that is known, or for a full journal.
\<close>

context bolt_live
begin

lemma put_works: "has B s b \<Longrightarrow> \<exists>t. putB B b k v s = Inr ((), t)"
  using put_live[of s "bucket_name b" k v] by (auto simp: putB_Inr)

lemma delete_works: "has B s b \<Longrightarrow> \<exists>t. deleteB B b k s = Inr ((), t)"
  using delete_live[of s "bucket_name b" k] by (auto simp: deleteB_Inr)

lemma fst_update: "m s = Inr (a, t) \<Longrightarrow> fst (update B m s) = Inr a" "m s = Inl e \<Longrightarrow> fst (update B m s) = Inl e"
  using commit_live[of t] by (auto simp: update_def)

lemma decrement_works:
  assumes "has B s b" "cnt B s b a = Some n" "1 \<le> n"
  shows "\<exists>t. changeCount B b a (-1) s = Inr ((), t)"
proof -
  have c: "countValue B b a s = Inr (n, s)" using assms(1,2) by (simp add: countValue_Inr cnt_def)
  have "int64_range n" using assms(2) count_at_bounds by (simp add: cnt_def)
  then have w: "wrap64 (n - 1) = n - 1" using assms(3) by (intro wrap64_id) (simp add: int64_range_def)
  have "\<exists>t. (let value = wrap64 (n + - 1) in
       if value < 0 then failT ErrInvalid
       else if value = 0 then deleteB B b a
       else putB B b a (Bytes (be64 value))) s = Inr ((), t)"
    using assms(1,3) w put_works[of s b a] delete_works[of s b a] by (auto simp: Let_def)
  then show ?thesis unfolding changeCount_def bindT_Inr using c by blast
qed

lemma release_works:
  assumes "\<forall>a \<in> set accounts. \<exists>n. cnt B s ActiveCountBucket a = Some n \<and> 1 \<le> n" "distinct accounts" "has B s ActiveCountBucket"
  shows "\<exists>t. forT accounts (\<lambda>a. changeCount B ActiveCountBucket a (-1)) s = Inr ((), t)"
  using assms
proof (induction accounts arbitrary: s)
  case Nil
  then show ?case by simp
next
  case (Cons a accounts)
  obtain n where n: "cnt B s ActiveCountBucket a = Some n" "1 \<le> n" using Cons.prems(1) by auto
  obtain s1 where one: "changeCount B ActiveCountBucket a (-1) s = Inr ((), s1)"
    using decrement_works[OF Cons.prems(3) n] by blast
  obtain m where m: "frame B {ActiveCountBucket} s s1" "cnt B s1 ActiveCountBucket = (cnt B s ActiveCountBucket)(a := Some (m - 1))"
    by (rule changeCount_cnt[OF one]) auto
  have "\<exists>t. forT accounts (\<lambda>a. changeCount B ActiveCountBucket a (-1)) s1 = Inr ((), t)"
  proof (rule Cons.IH)
    show "\<forall>x \<in> set accounts. \<exists>n. cnt B s1 ActiveCountBucket x = Some n \<and> 1 \<le> n"
      using Cons.prems(1,2) m(2) by auto
    show "distinct accounts" using Cons.prems(2) by simp
    show "has B s1 ActiveCountBucket" using Cons.prems(3) frame_has[OF m(1)] by simp
  qed
  then show ?case using one by (auto simp: thenT_Inr)
qed

lemma releaseLimits_works:
  assumes "lease_ok B s" "finite (dom (ent B s LeaseBucket))"
  shows "\<exists>t. releaseLimits B rid s = Inr ((), t)"
proof -
  have h: "has B s LeaseBucket" "has B s ActiveCountBucket" using assms(1) by (simp_all add: lease_ok_def)
  show ?thesis
  proof (cases "ent B s LeaseBucket rid")
    case None
    then show ?thesis using h by (simp add: releaseLimits_def bindT_Inr getB_Inr)
  next
    case (Some v)
    obtain accounts where v: "v = Accounts accounts" "distinct accounts" using assms(1) Some by (auto simp: lease_ok_def)
    have pos: "\<forall>a \<in> set accounts. \<exists>n. cnt B s ActiveCountBucket a = Some n \<and> 1 \<le> n"
    proof
      fix a assume "a \<in> set accounts"
      then have "rid \<in> leases_of B s a" using Some v by (auto simp: leases_of_def)
      moreover have "finite (leases_of B s a)"
        by (rule finite_subset[OF _ assms(2)]) (auto simp: leases_of_def)
      ultimately have "1 \<le> int (card (leases_of B s a))" using card_gt_0_iff[of "leases_of B s a"] by auto
      then show "\<exists>n. cnt B s ActiveCountBucket a = Some n \<and> 1 \<le> n" using assms(1) by (simp add: lease_ok_def)
    qed
    obtain s1 where one: "forT accounts (\<lambda>a. changeCount B ActiveCountBucket a (-1)) s = Inr ((), s1)"
      using release_works[OF pos v(2) h(2)] by blast
    have fr: "frame B {ActiveCountBucket} s s1" by (rule conjunct1[OF release_accounts_Inr[OF one v(2)]])
    have "has B s1 LeaseBucket" using h(1) frame_has[OF fr] by simp
    then obtain t where t: "deleteB B LeaseBucket rid s1 = Inr ((), t)" using delete_works by blast
    have "releaseLimits B rid s = Inr ((), t)"
      using h Some v by (simp add: releaseLimits_def bindT_def thenT_def getB_def onB_def one t)
    then show ?thesis by blast
  qed
qed

lemma complete_entry_works:
  assumes "journal_ok q B s" "facts B s rid \<noteq> None"
  shows "\<exists>t. complete_entry B rid payload s = Inr ((), t)"
proof -
  have h: "has B s ReadyBucket" "has B s PendingBucket" using assms(1) by (simp_all add: journal_ok_def facts_ok_def)
  show ?thesis
  proof (cases "ent B s ReadyBucket rid")
    case (Some v)
    then show ?thesis using h by (simp add: complete_entry_def bindT_Inr getB_Inr)
  next
    case None
    then have p: "ent B s PendingBucket rid \<noteq> None" using assms(2) by (auto simp: facts_def)
    obtain s1 where s1: "putB B ReadyBucket rid (Bytes payload) s = Inr ((), s1)" using put_works[OF h(1)] by blast
    have f1: "frame B {ReadyBucket} s s1" using putB_frame[OF s1] by blast
    have l1: "lease_ok B s1" using assms(1) by (intro lease_ok_frame[OF _ f1]) (simp_all add: journal_ok_def)
    then have "finite (dom (ent B s1 LeaseBucket))" by (intro finite_ent) (simp add: lease_ok_def)
    then obtain s2 where s2: "releaseLimits B rid s1 = Inr ((), s2)" using releaseLimits_works[OF l1] by blast
    have "has B s2 PendingBucket" using h(2) frame_has[OF f1] frame_has[OF releaseLimits_Inr(1)[OF s2 l1]] by simp
    then obtain t where t: "deleteB B PendingBucket rid s2 = Inr ((), t)" using delete_works by blast
    have "complete_entry B rid payload s = Inr ((), t)"
      using None p h by (simp add: complete_entry_def bindT_def thenT_def getB_def onB_def okT_def checkT_def s1 s2 t)
    then show ?thesis by blast
  qed
qed

lemma Complete_works:
  assumes "system_ok q B s" "version_of B s = ''1''" "facts B s rid \<noteq> None" "valid_entry q rid payload"
  shows "\<exists>t. Complete q B rid payload s = (Inr (), t)"
proof -
  have j: "journal_ok q B s" using assms(1) by (simp add: system_ok_def)
  have n: "\<not> has B s QuotaEntryBucket" using system_active[OF assms(1)] assms(2) by simp
  obtain t where "complete_entry B rid payload s = Inr ((), t)" using complete_entry_works[OF j assms(3)] by blast
  then have c: "bindT (hasB B QuotaEntryBucket) (\<lambda>quota.
        bindT (if quota then getB B QuotaEntryBucket rid else okT None) (\<lambda>entry.
        thenT (checkT (entry = None) ErrQuotaRequired)
          (complete_entry B rid payload))) s = Inr ((), t)"
    using n by (simp add: bindT_def thenT_def hasB_def okT_def checkT_def)
  show ?thesis using assms(4) commit_live[of t] by (auto simp: Complete_def guarded_def update_def c)
qed

text \<open>The answer of \<open>Reserve\<close>, in every case.\<close>

lemma Reserve_answer:
  assumes "system_ok q B s" "version_of B s = ''1''"
  shows "fst (Reserve q B rid payload s) =
    (if \<not> valid_entry q rid payload \<or> facts B s rid \<noteq> None then Inl ErrInvalid
     else if q_capacity q \<le> int (card (dom (facts B s))) then Inl ErrFull else Inr ())"
proof (cases "valid_entry q rid payload")
  case False
  then show ?thesis by (simp add: Reserve_def guarded_def)
next
  case True
  have f: "facts_ok q B s" using assms(1) by (simp add: system_ok_def journal_ok_def)
  have h: "has B s ReadyBucket" "has B s PendingBucket" using f by (simp_all add: facts_ok_def)
  have n: "\<not> has B s QuotaEntryBucket" using system_active[OF assms(1)] assms(2) by simp
  define m where "m = bindT (hasB B QuotaEntryBucket) (\<lambda>quota.
        bindT (if quota then getB B QuotaEntryBucket rid else okT None) (\<lambda>entry.
        thenT (checkT (entry = None) ErrQuotaConflict)
        (bindT (getB B PendingBucket rid) (\<lambda>p.
         bindT (if p \<noteq> None then okT p else getB B ReadyBucket rid) (\<lambda>r.
         thenT (checkT (r = None) ErrInvalid)
         (bindT (countB B PendingBucket) (\<lambda>np.
          bindT (countB B ReadyBucket) (\<lambda>nr.
          thenT (checkT (int (np + nr) < q_capacity q) ErrFull)
            (putB B PendingBucket rid (Bytes payload))))))))))"
  have R: "Reserve q B rid payload s = update B m s" using True by (simp add: Reserve_def guarded_def m_def)
  have cd: "int (length (b_list B s (bucket_name PendingBucket)) + length (b_list B s (bucket_name ReadyBucket))) =
      int (card (dom (facts B s)))"
    using facts_card[OF f] by (simp add: list_length[OF h(1)] list_length[OF h(2)])
  note step = m_def bindT_def thenT_def hasB_def getB_def countB_def onB_def okT_def checkT_def failT_def
  consider (known) "facts B s rid \<noteq> None" | (full) "facts B s rid = None" "q_capacity q \<le> int (card (dom (facts B s)))"
    | (free) "facts B s rid = None" "\<not> q_capacity q \<le> int (card (dom (facts B s)))" by blast
  then show ?thesis
  proof cases
    case known
    then have "m s = Inl ErrInvalid"
      using n h by (cases "ent B s PendingBucket rid"; cases "ent B s ReadyBucket rid") (simp_all add: step facts_def)
    then show ?thesis using fst_update(2) known R by simp
  next
    case full
    then have e: "ent B s PendingBucket rid = None" "ent B s ReadyBucket rid = None" by (auto simp: facts_def split: option.splits)
    have "m s = Inl ErrFull" using n h e full(2) unfolding cd[symmetric] by (simp add: step)
    then show ?thesis using fst_update(2) full True R by simp
  next
    case free
    then have e: "ent B s PendingBucket rid = None" "ent B s ReadyBucket rid = None" by (auto simp: facts_def split: option.splits)
    obtain t where t: "putB B PendingBucket rid (Bytes payload) s = Inr ((), t)" using put_works[OF h(2)] by blast
    have "m s = putB B PendingBucket rid (Bytes payload) s" using n h e free(2) unfolding cd[symmetric] by (simp add: step)
    then have "m s = Inr ((), t)" using t by simp
    then show ?thesis using fst_update(1)[of m s "()" t] free True R by simp
  qed
qed

end

end
