(* ===== verification/Journal_Claims.thy ===== *)
theory Journal_Claims
  imports Journal_Live
begin

text \<open>
  The properties of the journal, each over an arbitrary database that behaves as documented
  (\<open>bolt B\<close>), every environment in range, and every journal that a process can reach. The witnesses
  run short histories on the database in memory.
\<close>

section \<open>Short histories\<close>

definition exec :: "env \<Rightarrow> queue \<Rightarrow> 's bolt \<Rightarrow> journal_op list \<Rightarrow> 's \<Rightarrow> 's" where
  "exec E q B ops s = foldl (\<lambda>s op. snd (run_op E q B op s)) s ops"

lemma run_op_step: "int64_range (op_time op) \<Longrightarrow> journal_step E q B s op (snd (run_op E q B op s))"
  by (cases "run_op E q B op s"; cases "fst (run_op E q B op s)") (auto intro: step_done step_failed)

lemma exec_runs: "list_all (\<lambda>op. int64_range (op_time op)) ops \<Longrightarrow> runs (journal_step E q B) s ops (exec E q B ops s)"
  by (induction ops arbitrary: s) (auto simp: exec_def runs_Cons intro: run_op_step)

definition demo_env :: env where
  "demo_env = \<lparr>e_zone = (\<lambda>z. z = ''UTC''), e_month = (\<lambda>z x. (0, 2000000000000000000)),
     e_digest = (\<lambda>a p. replicate 64 (if qs_Tokens a = None then CHR ''0'' else CHR ''a''))\<rparr>"

lemma demo_env_ok: "env_ok demo_env"
  by (auto simp: env_ok_def demo_env_def int64_range_def quotaDigest_def list_all_iff hex_char_def)

definition demo_queue :: queue where "demo_queue = configured 64 100"

definition demo_start :: mem where
  "demo_start = the (snd (Open demo_env mem_bolt True 64 100 (Some [])))"

definition demo :: "journal_op list \<Rightarrow> mem" where
  "demo ops = exec demo_env demo_queue mem_bolt ops demo_start"

lemma demo_opens: "fst (Open demo_env mem_bolt True 64 100 (Some [])) = Inr demo_queue \<and>
    snd (Open demo_env mem_bolt True 64 100 (Some [])) \<noteq> None"
  by code_simp

lemma demo_reachable:
  assumes "list_all (\<lambda>op. int64_range (op_time op)) ops"
  shows "reachable demo_env demo_queue mem_bolt (demo ops)"
proof -
  have new: "\<forall>b. \<not> has mem_bolt [] b" by (simp add: mem_bolt_def)
  have "Open demo_env mem_bolt True 64 100 (Some []) = (Inr demo_queue, Some demo_start)"
    using demo_opens by (simp add: demo_start_def prod_eq_iff)
  from reach_new[OF new this] have "reachable demo_env demo_queue mem_bolt demo_start" .
  from mem.runs_reachable[OF exec_runs[OF assms] this] show ?thesis unfolding demo_def .
qed

text \<open>The outcomes of some operations in a state, and a fact of it.\<close>

definition probe :: "journal_op list \<Rightarrow> string \<Rightarrow> mem \<Rightarrow> queue_error option list \<times> fact_state option" where
  "probe ops rid s = (map (\<lambda>op. fst (run_op demo_env demo_queue mem_bolt op s)) ops, facts mem_bolt s rid)"

lemma probe_outcome: "probe (op # ops) rid s = (x # xs, f) \<Longrightarrow>
    run_op demo_env demo_queue mem_bolt op s = (x, snd (run_op demo_env demo_queue mem_bolt op s)) \<and> facts mem_bolt s rid = f"
  by (cases "run_op demo_env demo_queue mem_bolt op s") (auto simp: probe_def simp del: run_op.simps)

definition demo_policy :: quota_limit where
  "demo_policy = \<lparr>ql_Limit = \<lparr>lim_Account = ''acc'', lim_RPM = Some 10, lim_Concurrency = Some 2\<rparr>, ql_Revision = ''p1'',
     ql_PersonalKey = False, ql_ProjectKey = False, ql_TeamMember = False, ql_CreatedAt = None,
     ql_Tokens5H = None, ql_Tokens7D = None, ql_TokensMonth = None, ql_TPM = Some 1000, ql_MoneyMonth = None,
     ql_Currency = [], ql_TokensMonthBehavior = [], ql_MoneyMonthBehavior = []\<rparr>"

definition demo_bound :: quota_bound where
  "demo_bound = \<lparr>qb_Tokens = Some 400, qb_Money = None, qb_Currency = [], qb_Revision = ''b1'',
     qb_PriceRevision = [], qb_BasisDigest = []\<rparr>"

definition demo_actual :: quota_settlement where
  "demo_actual = \<lparr>qs_Tokens = Some 300, qs_Money = None, qs_Currency = []\<rparr>"

definition now0 :: int where "now0 = 1600000000000000000"

definition enable_op :: journal_op where "enable_op = OpEnableQuota ''UTC'' 1000000000000"
definition admit_op :: "string \<Rightarrow> journal_op" where
  "admit_op rid = OpReserveWithQuota rid ''fallback'' [demo_policy] demo_bound no_settlement now0"
definition settle_op :: "string \<Rightarrow> journal_op" where
  "settle_op rid = OpCompleteQuota rid ''done'' demo_actual now0"

lemma demo_times: "int64_range (op_time enable_op)" "int64_range (op_time (admit_op rid))" "int64_range (op_time (settle_op rid))"
  "int64_range (op_time (OpReserve rid p))" "int64_range (op_time (OpComplete rid p))" "int64_range (op_time OpRestart)"
  "int64_range (op_time (OpUpdatePending rid p))" "int64_range now0" "int64_range 0"
  by (simp_all add: enable_op_def admit_op_def settle_op_def now0_def int64_range_def)

section \<open>The invariant\<close>

text \<open>C6. Every journal a process can reach, through any sequence of operations, failed operations
  and restarts from a new file, satisfies the whole invariant: facts are held or final but not both
  and within the capacity, every lease belongs to a held fact and every count of active calls is the
  number of its leases, every event is counted and none is later than the clock, and where quota
  accounting is active every counter is the sum of its receipts, every receipt passes its check, and
  a receipt is active exactly while its fact is held.\<close>

theorem journal_invariant:
  assumes "bolt B" "env_ok E" "reachable E q B s"
  shows "system_ok q B s"
  using bolt.reachable_ok[OF assms(1,3,2)] by blast

theorem journal_invariant_witness:
  "system_ok demo_queue mem_bolt (demo [OpReserve ''a'' ''fallback'', enable_op, admit_op ''b'', settle_op ''b'', OpRestart])"
  by (rule journal_invariant[OF mem.bolt_axioms demo_env_ok demo_reachable]) (simp add: demo_times)

section \<open>The refinement\<close>

text \<open>C12. The journal implements the abstract log: an operation that fails leaves the journal
  exactly as it was, and one that succeeds takes the step of its event on the map of facts, which
  the event allowed (a reservation only of an unknown fact, an update only of a held one, a
  completion only of a known one, and never a change of a final payload); the clock never goes back.\<close>

theorem journal_refines_log:
  assumes "bolt B" "env_ok E" "reachable E q B s" "int64_range (op_time op)" "run_op E q B op s = (r, t)"
  shows "(\<forall>e. r = Some e \<longrightarrow> t = s) \<and>
    (r = None \<longrightarrow> fact_step (log_event op) (facts B s) = Some (facts B t)) \<and> clock_of B s \<le> clock_of B t"
proof -
  have "op_good E q B op s t r"
    using bolt.run_op_good[OF assms(1,5) _ assms(2,4)] bolt.reachable_ok[OF assms(1,3,2)] by blast
  then show ?thesis by (auto simp: op_good_def split: option.splits)
qed

lemma demo_completes:
  "probe [OpComplete ''a'' ''done''] ''a'' (demo [OpReserve ''a'' ''fallback'']) = ([None], Some (Held ''fallback''))"
  by code_simp

theorem journal_refines_log_witness:
  "let s = demo [OpReserve ''a'' ''fallback'']; t = snd (run_op demo_env demo_queue mem_bolt (OpComplete ''a'' ''done'') s) in
   facts mem_bolt t = (facts mem_bolt s)(''a'' \<mapsto> Final ''done'')"
proof -
  let ?s = "demo [OpReserve ''a'' ''fallback'']"
  have r: "reachable demo_env demo_queue mem_bolt ?s" by (rule demo_reachable) (simp add: demo_times)
  note c = probe_outcome[OF demo_completes]
  have t: "int64_range (op_time (OpComplete ''a'' ''done''))" by (simp add: demo_times)
  show ?thesis
    using journal_refines_log[OF mem.bolt_axioms demo_env_ok r t conjunct1[OF c]] c by (simp add: Let_def del: run_op.simps)
qed

section \<open>Facts are kept\<close>

text \<open>C13. Over any history, restarts included: a final fact keeps its payload until it is
  acknowledged; a held fact that nothing updates, completes or acknowledges stays, held or made final
  by a restart with the fallback it was reserved with; a known fact that is not acknowledged is never
  lost; and a fact that was unknown before was reserved in between.\<close>

theorem facts_kept:
  assumes "bolt B" "env_ok E" "reachable E q B s" "runs (journal_step E q B) s ops t"
  shows "(facts B s rid = Some (Final p) \<and> Acked rid \<notin> log_event ` set ops \<longrightarrow> facts B t rid = Some (Final p)) \<and>
    (facts B s rid = Some (Held p) \<and> (\<forall>op \<in> set ops. \<not> touches rid (log_event op)) \<longrightarrow>
       facts B t rid \<in> {Some (Held p), Some (Final p)}) \<and>
    (facts B s rid \<noteq> None \<and> Acked rid \<notin> log_event ` set ops \<longrightarrow> facts B t rid \<noteq> None) \<and>
    (facts B s rid = None \<and> facts B t rid \<noteq> None \<longrightarrow> (\<exists>p'. Reserved rid p' \<in> log_event ` set ops))"
proof -
  have g: "env_ok E \<and> is_configured q \<and> system_ok q B s" using bolt.reachable_ok[OF assms(1,3,2)] assms(2) by blast
  note f = bolt.log_facts[OF assms(1,4) g]
  show ?thesis using f(2)[of rid p] f(3)[of rid] f(4)[of rid p] f(5)[of rid] by blast
qed

theorem facts_kept_witness:
  "facts mem_bolt (demo [OpReserve ''a'' ''fallback'', OpReserve ''b'' ''x'', OpRestart]) ''a'' \<in> {Some (Held ''fallback''), Some (Final ''fallback'')}"
proof -
  let ?s = "demo [OpReserve ''a'' ''fallback'']" and ?ops = "[OpReserve ''b'' ''x'', OpRestart]"
  have r: "reachable demo_env demo_queue mem_bolt ?s" by (rule demo_reachable) (simp add: demo_times)
  have "exec demo_env demo_queue mem_bolt ?ops ?s = demo [OpReserve ''a'' ''fallback'', OpReserve ''b'' ''x'', OpRestart]"
    by (simp add: demo_def exec_def del: run_op.simps)
  moreover have "runs (journal_step demo_env demo_queue mem_bolt) ?s ?ops (exec demo_env demo_queue mem_bolt ?ops ?s)"
    by (rule exec_runs) (simp add: demo_times)
  ultimately have h: "runs (journal_step demo_env demo_queue mem_bolt) ?s ?ops
      (demo [OpReserve ''a'' ''fallback'', OpReserve ''b'' ''x'', OpRestart])" by simp
  show ?thesis
    using facts_kept[OF mem.bolt_axioms demo_env_ok r h, of "''a''" "''fallback''"] probe_outcome[OF demo_completes]
    by (simp del: run_op.simps)
qed


lemma demo_crash:
  "probe [OpRestart] ''b'' (demo [enable_op, admit_op ''b'']) = ([None], Some (Held ''fallback''))"
  by code_simp


section \<open>Admissions\<close>


definition demo_limit :: limit where "demo_limit = \<lparr>lim_Account = ''acc'', lim_RPM = Some 10, lim_Concurrency = Some 2\<rparr>"

lemma demo_limited: "fst (ReserveWithLimits demo_queue mem_bolt ''a'' ''fallback'' [demo_limit] now0 (demo [])) = Inr ()"
  by code_simp


text \<open>C14. What an admission under quotas guarantees: right after it, for every policy of the call and
  every window with an enforced ceiling, what the account has used in the window, what is held for
  it there and what all its calls in flight, the new one included, hold is within the ceiling, in
  tokens and in money of the policy's currency; no unknown amount is counted as nothing; and the
  account stays within its request and concurrency limits.\<close>

theorem admission_within_quotas:
  assumes "bolt B" "env_ok E" "reachable E q B s" "int64_range now"
    and "ReserveWithQuotaRecovery E q B rid p policies b recovery now s = (Inr u, t)"
  shows "\<exists>e. receipts B t rid = Some e \<and> qr_State e = ''active'' \<and> qr_Bound e = b \<and> qr_AdmittedAt e = clock_of B t \<and>
    facts B t rid = Some (Held p) \<and>
    (\<forall>pol \<in> set policies. stays_within B t (ql_Limit pol) \<and> quota_holds B t pol (qr_MonthStart e) 0 0)"
proof -
  have "system_ok q B s" using bolt.reachable_ok[OF assms(1,3,2)] by blast
  from bolt.ReserveWithQuotaRecovery_ok[OF assms(1,5) this assms(2,4)]
  show ?thesis unfolding sum.case by (elim conjE exE) (intro exI conjI, assumption+, simp, blast)
qed

lemma demo_admits: "fst (ReserveWithQuotaRecovery demo_env demo_queue mem_bolt ''b'' ''fallback'' [demo_policy] demo_bound no_settlement now0
    (demo [enable_op])) = Inr ()"
  by code_simp

theorem admission_within_quotas_witness:
  "\<exists>e. receipts mem_bolt (snd (ReserveWithQuotaRecovery demo_env demo_queue mem_bolt ''b'' ''fallback'' [demo_policy] demo_bound
      no_settlement now0 (demo [enable_op]))) ''b'' = Some e \<and> qr_Bound e = demo_bound"
proof -
  let ?s = "demo [enable_op]"
  have r: "reachable demo_env demo_queue mem_bolt ?s" by (rule demo_reachable) (simp add: demo_times)
  have c: "ReserveWithQuotaRecovery demo_env demo_queue mem_bolt ''b'' ''fallback'' [demo_policy] demo_bound no_settlement now0 ?s =
      (Inr (), snd (ReserveWithQuotaRecovery demo_env demo_queue mem_bolt ''b'' ''fallback'' [demo_policy] demo_bound no_settlement now0 ?s))"
    using demo_admits by (metis prod.collapse)
  show ?thesis using admission_within_quotas[OF mem.bolt_axioms demo_env_ok r demo_times(8) c] by blast
qed

section \<open>Settlements\<close>


definition settle_probe :: "mem \<Rightarrow> bool \<times> (int option \<times> string) option" where
  "settle_probe s =
     (case CompleteQuota demo_env demo_queue mem_bolt ''b'' ''done'' demo_actual now0 s of
        (Inl _, _) \<Rightarrow> (False, None)
      | (Inr e, _) \<Rightarrow> (True, map_option (\<lambda>e. (qb_Tokens (qr_Bound e), qr_State e)) (receipts mem_bolt s ''b'')))"

lemma demo_settles: "settle_probe (demo [enable_op, admit_op ''b'']) = (True, Some (Some 400, ''active''))"
  by code_simp


section \<open>Reads\<close>


definition usage_probe :: "mem \<Rightarrow> (int \<times> int) option" where
  "usage_probe s = (case AccountQuotaUsage demo_env mem_bolt ''acc'' now0 s of
     (Inl _, _) \<Rightarrow> None | (Inr u, _) \<Rightarrow> Some (qu_TokensUsed (au_Minute u), qu_TokensHeld (au_Active u)))"

lemma demo_usage: "usage_probe (demo [enable_op, admit_op ''a'', settle_op ''a'', admit_op ''b'']) = Some (300, 400)"
  by code_simp


text \<open>A preflight check decides without effect: no fact, no lease and no receipt of the journal is
  added or changed by it, and a refused one leaves the journal as it was.\<close>

theorem preflight_without_effect:
  assumes "bolt B" "env_ok E" "reachable E q B s" "int64_range now"
    and "PreflightWithQuota E q B rid policies b zone now s = (r, t)"
  shows "facts B t = facts B s \<and> ent B t LeaseBucket = ent B s LeaseBucket \<and>
    (\<forall>k e. receipts B t k = Some e \<longrightarrow> receipts B s k = Some e) \<and> ((\<exists>x. r = Inl x) \<longrightarrow> t = s)"
proof -
  have "system_ok q B s" using bolt.reachable_ok[OF assms(1,3,2)] by blast
  note ok = bolt.PreflightWithQuota_ok[OF assms(1,5) this assms(4)]
  show ?thesis
  proof (cases r)
    case (Inl x)
    then show ?thesis using ok by simp
  next
    case (Inr x)
    then show ?thesis using ok by (auto simp: map_le_def dom_def)
  qed
qed

theorem preflight_without_effect_witness:
  "facts mem_bolt (snd (PreflightWithQuota demo_env demo_queue mem_bolt ''b'' [demo_policy] demo_bound ''UTC'' now0
     (demo [OpReserve ''a'' ''fallback'']))) ''b'' = None"
proof -
  let ?s = "demo [OpReserve ''a'' ''fallback'']"
  have r: "reachable demo_env demo_queue mem_bolt ?s" by (rule demo_reachable) (simp add: demo_times)
  have "probe [] ''b'' ?s = ([], None)" by code_simp
  then have f: "facts mem_bolt ?s ''b'' = None" by (simp add: probe_def)
  show ?thesis
    using preflight_without_effect[OF mem.bolt_axioms demo_env_ok r demo_times(8), of "''b''" "[demo_policy]" demo_bound "''UTC''"
        "fst (PreflightWithQuota demo_env demo_queue mem_bolt ''b'' [demo_policy] demo_bound ''UTC'' now0 ?s)"
        "snd (PreflightWithQuota demo_env demo_queue mem_bolt ''b'' [demo_policy] demo_bound ''UTC'' now0 ?s)"] f
    by simp
qed

section \<open>Bounds and progress\<close>

text \<open>The journal stays within what it was opened with: at most its capacity of facts, at most a
  million receipts, and every stored fact has a valid key and a payload that is not empty and within
  the configured size.\<close>

theorem journal_bounds:
  assumes "bolt B" "env_ok E" "reachable E q B s"
  shows "int (card (dom (facts B s))) \<le> q_capacity q \<and>
    (version_of B s = ''2'' \<longrightarrow> int (card (dom (receipts B s))) \<le> q_quotaCapacity q) \<and>
    (\<forall>rid p. facts B s rid = Some (Held p) \<or> facts B s rid = Some (Final p) \<longrightarrow>
       validKey rid \<and> p \<noteq> [] \<and> int (length p) \<le> q_maxPayload q)"
proof -
  have ok: "system_ok q B s" using bolt.reachable_ok[OF assms(1,3,2)] by blast
  then have f: "facts_ok q B s" by (simp add: system_ok_def journal_ok_def)
  have "int (card (dom (facts B s))) \<le> q_capacity q"
    using f bolt.facts_card[OF assms(1) f] by (simp add: facts_ok_def)
  moreover have "int (card (dom (receipts B s))) \<le> q_quotaCapacity q" if "version_of B s = ''2''"
    using ok that by (simp add: system_ok_def quota_ok_def counted_def)
  moreover have "stored_ok q rid (Bytes p)" if "facts B s rid = Some (Held p) \<or> facts B s rid = Some (Final p)" for rid p
    using that bolt.facts_held[OF assms(1) f] bolt.facts_final[OF assms(1) f] f unfolding facts_ok_def by blast
  ultimately show ?thesis by (auto simp: stored_ok_def)
qed

theorem journal_bounds_witness:
  "int (card (dom (facts mem_bolt (demo [OpReserve ''a'' ''fallback''])))) \<le> 64 \<and> validKey ''a''"
proof -
  have r: "reachable demo_env demo_queue mem_bolt (demo [OpReserve ''a'' ''fallback''])"
    by (rule demo_reachable) (simp add: demo_times)
  have f: "facts mem_bolt (demo [OpReserve ''a'' ''fallback'']) ''a'' = Some (Held ''fallback'')"
    using probe_outcome[OF demo_completes] by blast
  show ?thesis
    using journal_bounds[OF mem.bolt_axioms demo_env_ok r] f by (auto simp: demo_queue_def configured_def)
qed



text \<open>\<open>Reserve\<close> refuses for the reasons it names and for no other, on a database whose writes
  succeed and without quota accounting: an invalid key or payload or a fact that is known already is
  \<open>ErrInvalid\<close>, otherwise a journal at its capacity is \<open>ErrFull\<close>, and otherwise it succeeds.\<close>

theorem reserve_answer:
  assumes "bolt_live B" "env_ok E" "reachable E q B s" "version_of B s = ''1''"
  shows "fst (Reserve q B rid payload s) =
    (if \<not> valid_entry q rid payload \<or> facts B s rid \<noteq> None then Inl ErrInvalid
     else if q_capacity q \<le> int (card (dom (facts B s))) then Inl ErrFull else Inr ())"
proof -
  have "bolt B" using assms(1) by (simp add: bolt_live_def)
  from bolt.reachable_ok[OF this assms(3,2)] have "system_ok q B s" by blast
  from bolt_live.Reserve_answer[OF assms(1) this assms(4)] show ?thesis .
qed

theorem reserve_answer_witness:
  "fst (Reserve demo_queue mem_bolt ''a'' ''again'' (demo [OpReserve ''a'' ''fallback''])) = Inl ErrInvalid"
proof -
  let ?s = "demo [OpReserve ''a'' ''fallback'']"
  have r: "reachable demo_env demo_queue mem_bolt ?s" by (rule demo_reachable) (simp add: demo_times)
  have v: "version_of mem_bolt ?s = ''1''" by code_simp
  have "facts mem_bolt ?s ''a'' \<noteq> None" using probe_outcome[OF demo_completes] by simp
  then show ?thesis using reserve_answer[OF mem.bolt_live_axioms demo_env_ok r v] by simp
qed

end
