(* ===== verification/Gateway_Claims.thy ===== *)
theory Gateway_Claims
  imports Call_Recorder Journal_Claims
begin

text \<open>
  What the service builds on the journal: the admission of a gateway call, its final fact, the
  delivery of facts to the primary database, and the settlement of a call that was interrupted. The
  journal is reached only through its operations, so the service keeps it reachable, and the effects
  on the log of facts follow from the refinement.
\<close>

section \<open>Operations called by the service\<close>

context bolt
begin

lemma op_effect:
  assumes "reachable E q B s" "env_ok E" "int64_range (op_time op)" "run_op E q B op s = reported (r, t)"
  shows "reachable E q B t" "r = Inl e \<Longrightarrow> t = s"
    "r = Inr a \<Longrightarrow> fact_step (log_event op) (facts B s) = Some (facts B t)"
proof -
  obtain x where x: "run_op E q B op s = (x, t)" "x = (case r of Inl e \<Rightarrow> Some e | Inr _ \<Rightarrow> None)"
    using assms(4) by (cases r) (auto simp: reported_def)
  have "journal_step E q B s op t" using x assms(3) by (cases r) (auto intro: step_done step_failed)
  then show "reachable E q B t" by (rule reach_step[OF assms(1)])
  have g: "op_good E q B op s t x"
    using run_op_good[OF x(1) _ assms(2,3)] reachable_ok[OF assms(1,2)] by blast
  show "r = Inl e \<Longrightarrow> t = s" using g x(2) by (simp add: op_good_def)
  show "r = Inr a \<Longrightarrow> fact_step (log_event op) (facts B s) = Some (facts B t)" using g x(2) by (simp add: op_good_def)
qed

lemma op_effectE:
  assumes "reachable E q B s" "env_ok E" "int64_range (op_time op)" "run_op E q B op s = reported (r, t)"
  obtains (fails) e where "r = Inl e" "t = s"
    | (works) a where "r = Inr a" "reachable E q B t" "fact_step (log_event op) (facts B s) = Some (facts B t)"
  using op_effect[OF assms] by (cases r) auto

lemma QuotaStatus_pure: "QuotaStatus E B s = (r, t) \<Longrightarrow> t = s"
  by (metis QuotaStatus_def snd_conv view_state)

lemma ensureQuotaActive_effect:
  assumes "ensureQuotaActive E B intent zone now s = (r, t)" "reachable E q B s" "env_ok E" "int64_range now"
  shows "reachable E q B t \<and> facts B t = facts B s"
proof -
  obtain r1 t1 where e: "EnableQuota E B zone now s = (r1, t1)" by fastforce
  have op: "run_op E q B (OpEnableQuota zone now) s = reported (r1, t1)" using e by simp
  have i: "int64_range (op_time (OpEnableQuota zone now))" using assms(4) by simp
  have "t = s \<or> t = t1"
    using assms(1) e QuotaStatus_pure[of E s]
    by (auto simp: ensureQuotaActive_def split: prod.splits sum.splits if_splits)
  moreover have "reachable E q B t1 \<and> facts B t1 = facts B s"
    by (rule op_effectE[OF assms(2,3) i op]) (use assms(2) in auto)
  ultimately show ?thesis using assms(2) by auto
qed

end

section \<open>Admission\<close>

lemma AdmitGatewayCall_effect:
  assumes "bolt B" "env_ok E" "reachable E q B s" "int64_range now"
    and "AdmitGatewayCall E q B C intent True rid result now s = (res, t)"
  shows "reachable E q B t \<and>
    (case res of
       Inl _ \<Rightarrow> facts B t = facts B s
     | Inr _ \<Rightarrow> \<exists>r payload. result = Some r \<and> gatewayFallbackPayload C rid r (Some now) = Inr payload \<and>
         facts B s rid = None \<and> facts B t = (facts B s)(rid \<mapsto> Held payload))"
proof (cases "\<exists>r payload. result = Some r \<and> gatewayFallbackPayload C rid r (Some now) = Inr payload")
  case False
  then have "t = s \<and> (\<exists>e. res = Inl e)"
    using assms(5) by (cases result; cases "gatewayFallbackPayload C rid (the result) (Some now)") (auto simp: AdmitGatewayCall_def)
  then show ?thesis using assms(3) by auto
next
  case True
  then obtain r payload where r: "result = Some r" "gatewayFallbackPayload C rid r (Some now) = Inr payload" by blast
  show ?thesis
  proof (cases "gr_admissionQuota r = []")
    case True
    obtain x t1 where x: "ReserveWithLimits q B rid payload (gr_admissionLimits r) now s = (x, t1)" by fastforce
    let ?op = "OpReserveWithLimits rid payload (gr_admissionLimits r) now"
    have res: "t = t1" "res = (case x of Inl e \<Rightarrow> Inl (quotaGatewayError e) | Inr _ \<Rightarrow> Inr ())"
      using assms(5) r True x by (auto simp: AdmitGatewayCall_def split: sum.splits)
    have op: "run_op E q B ?op s = reported (x, t1)" "int64_range (op_time ?op)" using x assms(4) by simp_all
    show ?thesis
      by (rule bolt.op_effectE[OF assms(1,3,2) op(2,1)]) (use res r assms(3) in \<open>auto split: if_splits\<close>)
  next
    case quota: False
    obtain y s1 where y: "ensureQuotaActive E B intent (gr_quotaTimeZone r) now s = (y, s1)" by fastforce
    have en: "reachable E q B s1" "facts B s1 = facts B s"
      using bolt.ensureQuotaActive_effect[OF assms(1) y assms(3,2,4)] by simp_all
    let ?op = "OpReserveWithQuota rid payload (gr_admissionQuota r) (gr_quotaBound r) (zeroQuotaSettlement (gr_quotaBound r)) now"
    obtain x t1 where x: "ReserveWithQuotaRecovery E q B rid payload (gr_admissionQuota r) (gr_quotaBound r)
        (zeroQuotaSettlement (gr_quotaBound r)) now s1 = (x, t1)" by fastforce
    have "(t = s \<or> t = s1) \<and> (\<exists>e. res = Inl e) \<or> t = t1 \<and> res = (case x of Inl e \<Rightarrow> Inl (quotaGatewayError e) | Inr _ \<Rightarrow> Inr ())"
      using assms(5) r quota y x by (auto simp: AdmitGatewayCall_def split: sum.splits if_splits)
    then show ?thesis
    proof
      assume "(t = s \<or> t = s1) \<and> (\<exists>e. res = Inl e)"
      then show ?thesis using en assms(3) by auto
    next
      assume res: "t = t1 \<and> res = (case x of Inl e \<Rightarrow> Inl (quotaGatewayError e) | Inr _ \<Rightarrow> Inr ())"
      have op: "run_op E q B ?op s1 = reported (x, t1)" "int64_range (op_time ?op)" using x assms(4) by simp_all
      show ?thesis
        by (rule bolt.op_effectE[OF assms(1) en(1) assms(2) op(2,1)]) (use res r en in \<open>auto split: if_splits\<close>)
    qed
  qed
qed

text \<open>C28. The admission of a gateway call through the recorder is all or nothing. Where it succeeds,
  the call was unknown to the journal, and now its fallback fact, which says that the process was
  interrupted, is held there and no other fact has changed. Where it is refused, for whatever reason,
  no fact has changed.\<close>

theorem admission_all_or_nothing:
  assumes "bolt B" "env_ok E" "reachable E q B s" "int64_range now"
    and "AdmitGatewayCall E q B C intent True rid result now s = (res, t)"
  shows "reachable E q B t \<and>
    (case res of
       Inl _ \<Rightarrow> facts B t = facts B s
     | Inr _ \<Rightarrow> \<exists>r payload. result = Some r \<and> gatewayFallbackPayload C rid r (Some now) = Inr payload \<and>
         facts B s rid = None \<and> facts B t = (facts B s)(rid \<mapsto> Held payload))"
  by (rule AdmitGatewayCall_effect[OF assms])

section \<open>The final fact\<close>

text \<open>What the end of a call may do to the log: it acts on the fact of the call only, does not change a
  final payload, and loses nothing.\<close>

definition only_finishes :: "string \<Rightarrow> log \<Rightarrow> log \<Rightarrow> bool" where
  "only_finishes rid F G \<longleftrightarrow>
     (\<forall>k. k \<noteq> rid \<longrightarrow> G k = F k) \<and> (\<forall>p. F rid = Some (Final p) \<longrightarrow> G rid = Some (Final p)) \<and> (F rid \<noteq> None \<longrightarrow> G rid \<noteq> None)"

lemma only_finishes_refl [simp]: "only_finishes rid F F"
  by (simp add: only_finishes_def)

lemma only_finishes_trans: "only_finishes rid F G \<Longrightarrow> only_finishes rid G H \<Longrightarrow> only_finishes rid F H"
  by (simp add: only_finishes_def)

lemma only_finishes_step:
  "fact_step (Settled rid p) F = Some G \<Longrightarrow> only_finishes rid F G"
  "fact_step (Finished rid p) F = Some G \<Longrightarrow> only_finishes rid F G"
  "fact_step (Reserved rid p) F = Some G \<Longrightarrow> only_finishes rid F G"
  by (auto simp: only_finishes_def split: option.splits fact_state.splits if_splits)

lemma finishes_held:
  "fact_step (Settled rid p) F = Some G \<Longrightarrow> F rid = Some (Held x) \<Longrightarrow> G rid = Some (Final p)"
  "fact_step (Finished rid p) F = Some G \<Longrightarrow> F rid = Some (Held x) \<Longrightarrow> G rid = Some (Final p)"
  by (auto split: option.splits fact_state.splits)

context bolt
begin

lemma Complete_effect:
  assumes "Complete q B rid payload s = (r, t)" "reachable E q B s" "env_ok E"
  shows "reachable E q B t \<and> only_finishes rid (facts B s) (facts B t) \<and>
    (case r of Inl _ \<Rightarrow> t = s | Inr _ \<Rightarrow> \<forall>x. facts B s rid = Some (Held x) \<longrightarrow> facts B t rid = Some (Final payload))"
proof -
  have op: "run_op E q B (OpComplete rid payload) s = reported (r, t)" using assms(1) by simp
  have i: "int64_range (op_time (OpComplete rid payload))" by (simp add: demo_times)
  show ?thesis
  proof (rule op_effectE[OF assms(2,3) i op])
    fix a
    assume r: "r = Inr a" "reachable E q B t" "fact_step (log_event (OpComplete rid payload)) (facts B s) = Some (facts B t)"
    then have f: "fact_step (Finished rid payload) (facts B s) = Some (facts B t)" by simp
    show ?thesis using r only_finishes_step(2)[OF f] finishes_held(2)[OF f] by simp
  qed (use assms(2) in simp)
qed

lemma Reserve_effect:
  assumes "Reserve q B rid payload s = (r, t)" "reachable E q B s" "env_ok E"
  shows "reachable E q B t \<and> only_finishes rid (facts B s) (facts B t) \<and>
    (case r of Inl _ \<Rightarrow> t = s | Inr _ \<Rightarrow> facts B s rid = None)"
proof -
  have op: "run_op E q B (OpReserve rid payload) s = reported (r, t)" using assms(1) by simp
  have i: "int64_range (op_time (OpReserve rid payload))" by (simp add: demo_times)
  show ?thesis
  proof (rule op_effectE[OF assms(2,3) i op])
    fix a
    assume r: "r = Inr a" "reachable E q B t" "fact_step (log_event (OpReserve rid payload)) (facts B s) = Some (facts B t)"
    then have f: "fact_step (Reserved rid payload) (facts B s) = Some (facts B t)" by simp
    show ?thesis using r only_finishes_step(3)[OF f] f by (auto split: if_splits)
  qed (use assms(2) in simp)
qed

text \<open>The first stage of \<open>finish_call\<close>.\<close>

lemma first_effect:
  assumes "(if active
      then (case CompleteQuota E q B rid payload a now s of (Inl e, s1) \<Rightarrow> (Inl e, s1) | (Inr _, s1) \<Rightarrow> (Inr (), s1))
      else Complete q B rid payload s) = (r, t)" "reachable E q B s" "env_ok E" "int64_range now"
  shows "reachable E q B t \<and> only_finishes rid (facts B s) (facts B t) \<and>
    (case r of Inl _ \<Rightarrow> t = s | Inr _ \<Rightarrow> \<forall>x. facts B s rid = Some (Held x) \<longrightarrow> facts B t rid = Some (Final payload))"
proof (cases active)
  case True
  obtain y t1 where y: "CompleteQuota E q B rid payload a now s = (y, t1)" by fastforce
  have res: "t = t1" "(\<exists>e. r = Inl e) \<longleftrightarrow> (\<exists>e. y = Inl e)" using assms(1) True y by (auto split: sum.splits)
  have op: "run_op E q B (OpCompleteQuota rid payload a now) s = reported (y, t1)" using y by simp
  have i: "int64_range (op_time (OpCompleteQuota rid payload a now))" using assms(4) by simp
  show ?thesis
  proof (rule op_effectE[OF assms(2,3) i op])
    fix e assume "y = Inl e" "t1 = s"
    then show ?thesis using res assms(2) by auto
  next
    fix b
    assume r: "y = Inr b" "reachable E q B t1" "fact_step (log_event (OpCompleteQuota rid payload a now)) (facts B s) = Some (facts B t1)"
    then have f: "fact_step (Settled rid payload) (facts B s) = Some (facts B t1)" by simp
    show ?thesis using r res only_finishes_step(1)[OF f] finishes_held(1)[OF f] by (cases r) auto
  qed
next
  case False
  then show ?thesis using Complete_effect[OF _ assms(2,3)] assms(1) by simp
qed

lemma finish_call_effect:
  assumes "finish_call E q B active rid payload a now s = (r, t)" "reachable E q B s" "env_ok E" "int64_range now"
  shows "reachable E q B t \<and> only_finishes rid (facts B s) (facts B t) \<and>
    (r = Inr () \<longrightarrow> (\<forall>x. facts B s rid = Some (Held x) \<longrightarrow> facts B t rid = Some (Final payload)))"
proof -
  obtain r1 s1 where one: "(if active
      then (case CompleteQuota E q B rid payload a now s of (Inl e, s1) \<Rightarrow> (Inl e, s1) | (Inr _, s1) \<Rightarrow> (Inr (), s1))
      else Complete q B rid payload s) = (r1, s1)" by fastforce
  obtain r2 s2 where two: "Complete q B rid payload s1 = (r2, s2)" by fastforce
  obtain r3 s3 where three: "Reserve q B rid payload s2 = (r3, s3)" by fastforce
  obtain r4 s4 where four: "Complete q B rid payload s3 = (r4, s4)" by fastforce
  note e1 = first_effect[OF one assms(2-4)]
  have e2: "reachable E q B s2 \<and> only_finishes rid (facts B s1) (facts B s2) \<and>
    (case r2 of Inl _ \<Rightarrow> s2 = s1 | Inr _ \<Rightarrow> \<forall>x. facts B s1 rid = Some (Held x) \<longrightarrow> facts B s2 rid = Some (Final payload))"
    using Complete_effect[OF two _ assms(3)] e1 by blast
  have e3: "reachable E q B s3 \<and> only_finishes rid (facts B s2) (facts B s3) \<and>
    (case r3 of Inl _ \<Rightarrow> s3 = s2 | Inr _ \<Rightarrow> facts B s2 rid = None)"
    using Reserve_effect[OF three _ assms(3)] e2 by blast
  have e4: "reachable E q B s4 \<and> only_finishes rid (facts B s3) (facts B s4)"
    using Complete_effect[OF four _ assms(3)] e3 by blast
  show ?thesis
  proof (cases r1)
    case (Inr u)
    then show ?thesis using assms(1) one e1 by (auto simp: finish_call_def)
  next
    case l1: (Inl x1)
    then have s1: "s1 = s" using e1 by simp
    show ?thesis
    proof (cases "x1 = ErrMissing")
      case False
      then show ?thesis using assms(1) one l1 e1 by (auto simp: finish_call_def)
    next
      case m1: True
      show ?thesis
      proof (cases r2)
        case (Inr u)
        then show ?thesis using assms(1) one two l1 m1 e2 s1 by (auto simp: finish_call_def)
      next
        case l2: (Inl x2)
        then have s2: "s2 = s" using e2 s1 by simp
        show ?thesis
        proof (cases "x2 = ErrMissing")
          case False
          then show ?thesis using assms(1) one two l1 m1 l2 e2 s1 by (auto simp: finish_call_def)
        next
          case m2: True
          show ?thesis
          proof (cases r3)
            case (Inl x3)
            then show ?thesis using assms(1) one two three l1 m1 l2 m2 e3 s2 by (auto simp: finish_call_def)
          next
            case (Inr u)
            then have "t = s4" "facts B s rid = None"
              using assms(1) one two three four l1 m1 l2 m2 e3 s2 by (auto simp: finish_call_def)
            then show ?thesis using e4 e3 s2 only_finishes_trans by auto
          qed
        qed
      qed
    qed
  qed
qed

end

text \<open>C29. The final fact of a gateway call. Where \<open>PersistGatewayCall\<close> reports success through the
  recorder, a fact of the call that was held has become final with the encoded fact as its payload.
  In every case, success or error, no fact of another call changes, a final payload does not change,
  and no known fact is lost.\<close>

theorem final_fact_recorded:
  assumes "bolt B" "env_ok E" "reachable E q B s" "int64_range now"
    and "PersistGatewayCall E q B C recordCall True cf now (s, d) = (res, t, d')"
  shows "reachable E q B t \<and> (\<forall>k. k \<noteq> cf_RequestID cf \<longrightarrow> facts B t k = facts B s k) \<and>
    (\<forall>p. facts B s (cf_RequestID cf) = Some (Final p) \<longrightarrow> facts B t (cf_RequestID cf) = Some (Final p)) \<and>
    (facts B s (cf_RequestID cf) \<noteq> None \<longrightarrow> facts B t (cf_RequestID cf) \<noteq> None) \<and>
    (res = Inr () \<longrightarrow> (\<exists>payload. cd_fact C (finalizeCallPricing C cf) = Some payload \<and>
      (\<forall>p. facts B s (cf_RequestID cf) = Some (Held p) \<longrightarrow> facts B t (cf_RequestID cf) = Some (Final payload))))"
proof -
  let ?cf = "finalizeCallPricing C cf"
  have rid: "cf_RequestID ?cf = cf_RequestID cf"
    by (simp add: finalizeCallPricing_def Let_def split: option.splits prod.splits)
  obtain x s1 where qs: "QuotaStatus E B s = (x, s1)" by fastforce
  have s1: "s1 = s" by (rule bolt.QuotaStatus_pure[OF assms(1) qs])
  have "(t = s \<and> res \<noteq> Inr ()) \<or> (\<exists>payload active r2. cd_fact C ?cf = Some payload \<and>
      finish_call E q B active (cf_RequestID cf) payload (quotaCallSettlement ?cf) now s = (r2, t) \<and> (res = Inr () \<longrightarrow> r2 = Inr ()))"
    using assms(5) qs s1 unfolding PersistGatewayCall_def Let_def
    by (auto simp: rid orE_def bindE_def split: sum.splits prod.splits option.splits)
  then show ?thesis
  proof
    assume "t = s \<and> res \<noteq> Inr ()"
    then show ?thesis using assms(3) by simp
  next
    assume "\<exists>payload active r2. cd_fact C ?cf = Some payload \<and>
      finish_call E q B active (cf_RequestID cf) payload (quotaCallSettlement ?cf) now s = (r2, t) \<and> (res = Inr () \<longrightarrow> r2 = Inr ())"
    then obtain payload active r2 where p: "cd_fact C ?cf = Some payload" "res = Inr () \<longrightarrow> r2 = Inr ()"
      and f: "finish_call E q B active (cf_RequestID cf) payload (quotaCallSettlement ?cf) now s = (r2, t)" by blast
    from bolt.finish_call_effect[OF assms(1) f assms(3,2,4)] p show ?thesis by (simp add: only_finishes_def)
  qed
qed

section \<open>Delivery\<close>

context bolt
begin

lemma Ack_effect:
  assumes "Ack B rid s = (r, t)" "reachable E q B s" "env_ok E"
  shows "reachable E q B t \<and> (case r of Inl _ \<Rightarrow> t = s | Inr _ \<Rightarrow>
    facts B t = (case facts B s rid of Some (Final _) \<Rightarrow> (facts B s)(rid := None) | _ \<Rightarrow> facts B s))"
proof -
  have op: "run_op E q B (OpAck rid) s = reported (r, t)" using assms(1) by simp
  have i: "int64_range (op_time (OpAck rid))" using demo_times by simp
  show ?thesis by (rule op_effectE[OF assms(2,3) i op]) (use assms(2) in auto)
qed

lemma Read_entries:
  assumes "Read q B n s = (Inr entries, t)" "journal_ok q B s"
  shows "t = s" "(rid, payload) \<in> set entries \<Longrightarrow> facts B s rid = Some (Final payload)" "distinct (map fst entries)"
proof -
  have f: "facts_ok q B s" using assms(2) by (simp add: journal_ok_def)
  then have h: "has B s ReadyBucket" by (simp add: facts_ok_def)
  have e: "t = s" "entries = map (\<lambda>(k, v). (k, bytes_of v)) (take (nat n) (b_list B s (bucket_name ReadyBucket)))"
    using assms(1) by (auto simp: Read_def guarded_def view_def bindT_def listB_def onB_def okT_def split: if_splits)
  show "t = s" by (rule e(1))
  show "(rid, payload) \<in> set entries \<Longrightarrow> facts B s rid = Some (Final payload)"
  proof -
    assume "(rid, payload) \<in> set entries"
    then obtain v where "(rid, v) \<in> set (b_list B s (bucket_name ReadyBucket))" "payload = bytes_of v"
      unfolding e(2) by (auto dest: in_set_takeD)
    then show ?thesis using list_mem[OF h] by (simp add: facts_def)
  qed
  have "map fst entries = take (nat n) (map fst (b_list B s (bucket_name ReadyBucket)))"
    unfolding e(2) by (simp add: take_map split_def)
  then show "distinct (map fst entries)" using list_distinct[OF h] distinct_take by metis
qed

text \<open>The delivery loop: what is gone from the log was recorded.\<close>

lemma deliver_recorded:
  assumes "deliver B C recordCall cancelled entries n (s, d) = (outcome, m, t, d')" "reachable E q B s" "env_ok E"
    and "\<forall>(rid, payload) \<in> set entries. facts B s rid = Some (Final payload)" "distinct (map fst entries)"
  shows "reachable E q B t \<and> n \<le> m \<and> m \<le> n + length entries \<and> (outcome = Delivered \<longrightarrow> m = n + length entries) \<and>
    facts B t = (\<lambda>k. if k \<in> set (map fst (take (m - n) entries)) then None else facts B s k) \<and>
    (\<forall>(rid, payload) \<in> set (take (m - n) entries).
       \<exists>cf d1 d2. cd_read C payload = Some cf \<and> cf_RequestID cf = rid \<and> recordCall cf d1 = (Inr (), d2))"
  using assms
proof (induction entries arbitrary: n s d)
  case Nil
  then show ?case by simp
next
  case (Cons e entries)
  obtain rid payload where e: "e = (rid, payload)" by fastforce
  show ?case
  proof (cases "\<not> cancelled n \<and> (\<exists>cf d1 s1. cd_read C payload = Some cf \<and> cf_RequestID cf = rid \<and>
      recordCall cf d = (Inr (), d1) \<and> Ack B rid s = (Inr (), s1))")
    case False
    have "m = n \<and> outcome \<noteq> Delivered \<and> (t = s \<or> (\<exists>x. Ack B rid s = (Inl x, t)))"
      using Cons.prems(1) False unfolding e by (auto split: if_splits option.splits prod.splits sum.splits)
    moreover have "t = s" if "Ack B rid s = (Inl x, t)" for x using Ack_effect[OF that Cons.prems(2,3)] by simp
    ultimately show ?thesis using Cons.prems(2) by auto
  next
    case True
    then obtain cf d1 s1 where c: "\<not> cancelled n" "cd_read C payload = Some cf" "cf_RequestID cf = rid"
      "recordCall cf d = (Inr (), d1)" and a: "Ack B rid s = (Inr (), s1)" by blast
    have rest: "deliver B C recordCall cancelled entries (Suc n) (s1, d1) = (outcome, m, t, d')"
      using Cons.prems(1) c a unfolding e by simp
    have f: "facts B s rid = Some (Final payload)" using Cons.prems(4) by (simp add: e)
    have s1: "reachable E q B s1" "facts B s1 = (facts B s)(rid := None)"
      using Ack_effect[OF a Cons.prems(2,3)] f by simp_all
    have nd: "rid \<notin> fst ` set entries" "distinct (map fst entries)" using Cons.prems(5) by (simp_all add: e)
    have "\<forall>(k, p) \<in> set entries. facts B s1 k = Some (Final p)"
      using Cons.prems(4) nd(1) s1(2) by (force simp: e)
    note IH = Cons.IH[OF rest s1(1) Cons.prems(3) this nd(2)]
    then have "m - n = Suc (m - Suc n)" by auto
    then show ?thesis using IH c s1(2) by (auto simp: e fun_eq_iff)
  qed
qed

end


section \<open>A gateway call on the database in memory\<close>

text \<open>The encoding of a fact is its request, its decoding a fixed fact of that request.\<close>

definition demo_result :: gateway_result where
  "demo_result = \<lparr>gr_Protocol = [], gr_TeamID = [], gr_TeamMembershipID = [], gr_personal = False,
     gr_team = False, gr_key = True, gr_selectedModelID = [], gr_personalGrantRevision = [],
     gr_admissionQuota = [demo_policy], gr_quotaBound = demo_bound, gr_quotaTimeZone = ''UTC'',
     gr_quotaRequest = \<lparr>rq_Supported = True, rq_MaxOutput = 100, rq_CacheRead = False, rq_CacheWrite = False\<rparr>,
     gr_admissionLimits = [], gr_attemptEvidence = [], gr_admissionAllowed = [], gr_PriceBasis = None, gr_PricingUnsupported = False, gr_PricingDimensions = [],
     gr_ImageInputs = 0, gr_PDFInputs = 0, gr_SnapshotID = ''snap'', gr_ProjectID = ''proj'', gr_UserID = [], gr_KeyID = ''key'',
     gr_ModelID = ''model'', gr_ModelName = ''model'', gr_ProviderID = [], gr_ProviderName = [], gr_ProviderModelID = [],
     gr_ConnectionID = [], gr_ConnectionName = [], gr_UpstreamModelName = [], gr_CredentialID = [], gr_Stream = False,
     gr_AttemptID = [], gr_AttemptStartedAt = None, gr_Attempts = [], gr_RouteStopReason = [], gr_Admitted = False\<rparr>"

definition demo_fact :: "string \<Rightarrow> call_fact" where
  "demo_fact rid = (fallback_fact rid demo_result (Some now0))\<lparr>cf_Status := ''success'', cf_ErrorCode := []\<rparr>"

definition demo_codec :: codec where
  "demo_codec = \<lparr>cd_snapshot = (\<lambda>_. Some ''snapshot''), cd_basis = (\<lambda>_. Some ''basis''), cd_fact = (\<lambda>cf. Some (cf_RequestID cf)),
     cd_read = (\<lambda>p. Some (demo_fact p)), cd_valid = (\<lambda>_. True), cd_sha = (\<lambda>_. replicate 64 (CHR ''a''))\<rparr>"

definition admit_demo :: "mem \<Rightarrow> (service_error + unit) \<times> mem" where
  "admit_demo s = AdmitGatewayCall demo_env demo_queue mem_bolt demo_codec (\<lambda>_. True) True ''g1'' (Some demo_result) now0 s"

definition record_demo :: "nat record_call" where
  "record_demo cf d = (if d < 1 then (Inr (), Suc d) else (Inl ErrInternal, d))"

definition persist_demo :: "mem \<Rightarrow> (service_error + unit) \<times> mem \<times> nat" where
  "persist_demo s = PersistGatewayCall demo_env demo_queue mem_bolt demo_codec record_demo True (demo_fact ''g1'') now0 (s, 0)"

definition flush_demo :: "mem \<Rightarrow> delivery \<times> nat \<times> mem \<times> nat" where
  "flush_demo s = FlushCallRecorder demo_queue mem_bolt demo_codec record_demo (\<lambda>_. False) True (s, 0)"

definition gateway_probe :: "mem \<Rightarrow> (service_error + unit) \<times> fact_state option" where
  "gateway_probe s = (case admit_demo s of (r, t) \<Rightarrow> (r, facts mem_bolt t ''g1''))"

definition persist_probe :: "mem \<Rightarrow> (service_error + unit) \<times> fact_state option" where
  "persist_probe s = (fst (persist_demo s), facts mem_bolt s ''g1'')"

definition flush_probe :: "mem \<Rightarrow> delivery \<times> nat" where
  "flush_probe s = (case flush_demo s of (r, n, _) \<Rightarrow> (r, n))"

lemma demo_admission: "gateway_probe (demo [enable_op]) = (Inr (), Some (Held ''g1''))"
  by code_simp

lemma demo_persists:
  "persist_probe (demo [enable_op, OpReserve ''g1'' ''fallback'']) = (Inr (), Some (Held ''fallback''))"
  by code_simp

lemma demo_flush: "flush_probe (demo [OpReserve ''a'' ''f'', OpComplete ''a'' ''a'', OpReserve ''b'' ''f'', OpComplete ''b'' ''b''])
   = (PersistenceFailed, 1)"
  by code_simp

theorem admission_all_or_nothing_witness:
  "facts mem_bolt (snd (admit_demo (demo [enable_op]))) ''g1'' \<noteq> None \<and> facts mem_bolt (demo [enable_op]) ''g1'' = None"
proof -
  let ?s = "demo [enable_op]"
  have r: "reachable demo_env demo_queue mem_bolt ?s" by (rule demo_reachable) (simp add: demo_times)
  have c: "AdmitGatewayCall demo_env demo_queue mem_bolt demo_codec (\<lambda>_. True) True ''g1'' (Some demo_result) now0 ?s =
      (Inr (), snd (admit_demo ?s))"
    using demo_admission unfolding gateway_probe_def admit_demo_def by (auto split: prod.splits)
  show ?thesis using admission_all_or_nothing[OF mem.bolt_axioms demo_env_ok r demo_times(8) c] by auto
qed

theorem final_fact_recorded_witness:
  "facts mem_bolt (fst (snd (persist_demo (demo [enable_op, OpReserve ''g1'' ''fallback''])))) ''g1'' = Some (Final ''g1'')"
proof -
  let ?s = "demo [enable_op, OpReserve ''g1'' ''fallback'']"
  have r: "reachable demo_env demo_queue mem_bolt ?s" by (rule demo_reachable) (simp add: demo_times)
  have g: "cf_RequestID (demo_fact ''g1'') = ''g1''" by (simp add: demo_fact_def fallback_fact_def Let_def)
  have f: "facts mem_bolt ?s ''g1'' = Some (Held ''fallback'')" using demo_persists by (simp add: persist_probe_def)
  have c: "PersistGatewayCall demo_env demo_queue mem_bolt demo_codec record_demo True (demo_fact ''g1'') now0 (?s, 0) =
      (Inr (), fst (snd (persist_demo ?s)), snd (snd (persist_demo ?s)))"
    using demo_persists by (simp add: persist_probe_def persist_demo_def prod_eq_iff)
  have "cf_RequestID (finalizeCallPricing demo_codec (demo_fact ''g1'')) = ''g1''"
    by (simp add: finalizeCallPricing_def Let_def g split: option.splits prod.splits)
  then have p: "cd_fact demo_codec (finalizeCallPricing demo_codec (demo_fact ''g1'')) = Some ''g1''"
    by (simp add: demo_codec_def)
  show ?thesis
    using final_fact_recorded[OF mem.bolt_axioms demo_env_ok r demo_times(8) c] f p by (simp add: g)
qed


end
