(* ===== verification/Json_Text.thy ===== *)
theory Json_Text
  imports Call_Facts
begin

text \<open>
  What the gateway uses of Go's \<open>encoding/json\<close>: the texts \<open>json.Unmarshal\<close> accepts with the values
  they denote, and the decoding of a value into the types the gateway decodes into. A
  \<open>json.RawMessage\<close> is the value it denotes, or \<open>None\<close> where it is nil. An object keeps its members
  in order; decoded into a map, the last member of a name counts, and a nil map is \<open>None\<close>.
\<close>

section \<open>Values\<close>

datatype json = JNull | JBool bool | JNum string | JStr string | JArr "json list" | JObj "(string \<times> json) list"

type_synonym raw = "json option"
type_synonym object = "(string \<times> json) list option"

definition json_field :: "object \<Rightarrow> string \<Rightarrow> raw" where
  "json_field ob name = (case ob of None \<Rightarrow> None | Some ms \<Rightarrow> map_of (rev ms) name)"

definition json_keys :: "object \<Rightarrow> string list" where
  "json_keys ob = (case ob of None \<Rightarrow> [] | Some ms \<Rightarrow> remdups (map fst ms))"

definition json_delete :: "string list \<Rightarrow> object \<Rightarrow> object" where
  "json_delete names ob = map_option (filter (\<lambda>m. fst m \<notin> set names)) ob"

lemma json_field_None [simp]: "json_field None name = None"
  by (simp add: json_field_def)

lemma json_field_mem: "json_field (Some ms) name = Some v \<Longrightarrow> (name, v) \<in> set ms"
  by (auto simp: json_field_def dest: map_of_SomeD)

lemma json_keys_iff: "name \<in> set (json_keys ob) \<longleftrightarrow> json_field ob name \<noteq> None"
  by (cases ob) (simp_all add: json_keys_def json_field_def map_of_eq_None_iff)

lemma map_of_filter_fst: "map_of (filter (\<lambda>m. P (fst m)) ms) k = (if P k then map_of ms k else None)"
  by (induction ms) auto

lemma json_field_delete:
  "json_field (json_delete names ob) name = (if name \<in> set names then None else json_field ob name)"
  by (cases ob) (auto simp: json_delete_def json_field_def rev_filter map_of_filter_fst[where P = "\<lambda>k. k \<notin> set names"])

text \<open>Members and elements are smaller than what holds them.\<close>

lemma json_field_size: "json_field (Some ms) name = Some v \<Longrightarrow> size v < size (JObj ms)"
proof -
  assume "json_field (Some ms) name = Some v"
  then have "(name, v) \<in> set ms" by (rule json_field_mem)
  then have "size_prod (\<lambda>_. 0) size (name, v) \<le> size_list (size_prod (\<lambda>_. 0) size) ms"
    by (rule size_list_estimation') simp
  then show ?thesis by simp
qed

lemma json_element_size: "x \<in> set xs \<Longrightarrow> size x < size (JArr xs)"
  using size_list_estimation'[of x xs "size x" size] by simp

section \<open>Texts\<close>

definition json_space :: "char \<Rightarrow> bool" where
  "json_space c \<longleftrightarrow> c \<in> set [CHR '' '', CHR 0x09, CHR 0x0A, CHR 0x0D]"

definition skip_space :: "string \<Rightarrow> string" where
  "skip_space s = dropWhile json_space s"

definition strip_text :: "string \<Rightarrow> string \<Rightarrow> string option" where
  "strip_text w s = (if take (length w) s = w then Some (drop (length w) s) else None)"

text \<open>A number: its text and the rest.\<close>

definition digit_run :: "string \<Rightarrow> (string \<times> string) option" where
  "digit_run s = (if takeWhile is_digit s = [] then None else Some (takeWhile is_digit s, dropWhile is_digit s))"

definition json_integer :: "string \<Rightarrow> (string \<times> string) option" where
  "json_integer s =
     (case s of
        c # s1 \<Rightarrow> if c = CHR ''0'' then Some ([c], s1) else digit_run s
      | [] \<Rightarrow> None)"

definition json_fraction :: "string \<Rightarrow> (string \<times> string) option" where
  "json_fraction s =
     (case s of
        c # s1 \<Rightarrow> if c = CHR ''.'' then map_option (\<lambda>(ds, r). (c # ds, r)) (digit_run s1) else Some ([], s)
      | [] \<Rightarrow> Some ([], []))"

definition json_exponent :: "string \<Rightarrow> (string \<times> string) option" where
  "json_exponent s =
     (case s of
        c # s1 \<Rightarrow>
          if c = CHR ''e'' \<or> c = CHR ''E'' then
            (case s1 of
               d # s2 \<Rightarrow>
                 if d = CHR ''+'' \<or> d = CHR ''-'' then map_option (\<lambda>(ds, r). (c # d # ds, r)) (digit_run s2)
                 else map_option (\<lambda>(ds, r). (c # ds, r)) (digit_run s1)
             | [] \<Rightarrow> None)
          else Some ([], s)
      | [] \<Rightarrow> Some ([], []))"

definition json_number :: "string \<Rightarrow> (string \<times> string) option" where
  "json_number s =
     (let (sign, s0) = (case s of c # s1 \<Rightarrow> if c = CHR ''-'' then ([c], s1) else ([], s) | [] \<Rightarrow> ([], [])) in
      case json_integer s0 of
        None \<Rightarrow> None
      | Some (i, s1) \<Rightarrow>
          (case json_fraction s1 of
             None \<Rightarrow> None
           | Some (f, s2) \<Rightarrow>
               (case json_exponent s2 of
                  None \<Rightarrow> None
                | Some (e, s3) \<Rightarrow> Some (sign @ i @ f @ e, s3))))"

subsection \<open>Strings\<close>

text \<open>The length of the UTF-8 character at the start of a text, 0 where there is none.\<close>

definition rune_length :: "string \<Rightarrow> nat" where
  "rune_length s =
     (case find (\<lambda>n. n \<le> length s \<and> (case utf8_runes (take n s) of Some [_] \<Rightarrow> True | _ \<Rightarrow> False)) [1, 2, 3, 4] of
        None \<Rightarrow> 0 | Some n \<Rightarrow> n)"

definition rune_text :: "nat \<Rightarrow> string" where
  "rune_text r =
     bytes_text
      (if r < 128 then [r]
       else if r < 2048 then [192 + r div 64, 128 + r mod 64]
       else if r < 65536 then [224 + r div 4096, 128 + r div 64 mod 64, 128 + r mod 64]
       else [240 + r div 262144, 128 + r div 4096 mod 64, 128 + r div 64 mod 64, 128 + r mod 64])"

definition replacement :: string where "replacement = rune_text 65533"

definition hex_val :: "char \<Rightarrow> nat option" where
  "hex_val c =
     (let n = of_char c :: nat in
      if 48 \<le> n \<and> n \<le> 57 then Some (n - 48)
      else if 97 \<le> n \<and> n \<le> 102 then Some (n - 87)
      else if 65 \<le> n \<and> n \<le> 70 then Some (n - 55) else None)"

fun hex4 :: "string \<Rightarrow> (nat \<times> string) option" where
  "hex4 (a # b # c # d # s) =
     (case (hex_val a, hex_val b, hex_val c, hex_val d) of
        (Some w, Some x, Some y, Some z) \<Rightarrow> Some (((w * 16 + x) * 16 + y) * 16 + z, s)
      | _ \<Rightarrow> None)"
| "hex4 _ = None"

text \<open>A \<open>\u\<close> escape after its digits: a surrogate pair is one character, a lone surrogate is replaced.\<close>

definition unicode_escape :: "nat \<Rightarrow> string \<Rightarrow> string \<times> string" where
  "unicode_escape r s =
     (if 55296 \<le> r \<and> r < 57344 then
        (case strip_text [CHR 0x5C, CHR ''u''] s of
           None \<Rightarrow> (replacement, s)
         | Some s1 \<Rightarrow>
             (case hex4 s1 of
                None \<Rightarrow> (replacement, s)
              | Some (r2, s2) \<Rightarrow>
                  if r < 56320 \<and> 56320 \<le> r2 \<and> r2 < 57344
                  then (rune_text (65536 + (r - 55296) * 1024 + (r2 - 56320)), s2)
                  else (replacement, s)))
      else (rune_text r, s))"

definition simple_escape :: "char \<Rightarrow> char option" where
  "simple_escape c =
     map_of [(CHR 0x22, CHR 0x22), (CHR 0x5C, CHR 0x5C), (CHR ''/'', CHR ''/''), (CHR ''b'', CHR 0x08), (CHR ''f'', CHR 0x0C),
       (CHR ''n'', CHR 0x0A), (CHR ''r'', CHR 0x0D), (CHR ''t'', CHR 0x09)] c"

lemma hex4_length: "hex4 s = Some (r, s1) \<Longrightarrow> length s1 < length s"
  by (cases s rule: hex4.cases) (auto split: option.splits)

lemma unicode_escape_length: "unicode_escape r s = (t, s1) \<Longrightarrow> length s1 \<le> length s"
  by (auto simp: unicode_escape_def strip_text_def split: if_splits option.splits dest!: hex4_length)

text \<open>The rest of a string after its opening quote: the decoded text and what follows.\<close>

function json_string :: "string \<Rightarrow> (string \<times> string) option" where
  "json_string s =
     (case s of
        [] \<Rightarrow> None
      | c # s1 \<Rightarrow>
          if c = CHR 0x22 then Some ([], s1)
          else if c = CHR 0x5C then
            (case s1 of
               [] \<Rightarrow> None
             | e # s2 \<Rightarrow>
                 if e = CHR ''u'' then
                   (case hex4 s2 of
                      None \<Rightarrow> None
                    | Some (r, s3) \<Rightarrow>
                        let out = unicode_escape r s3
                        in map_option (\<lambda>(u, rest). (fst out @ u, rest)) (json_string (snd out)))
                 else (case simple_escape e of
                     None \<Rightarrow> None
                   | Some x \<Rightarrow> map_option (\<lambda>(u, rest). (x # u, rest)) (json_string s2)))
          else if (of_char c :: nat) < 32 then None
          else if rune_length s = 0 then map_option (\<lambda>(u, rest). (replacement @ u, rest)) (json_string s1)
          else map_option (\<lambda>(u, rest). (take (rune_length s) s @ u, rest)) (json_string (drop (rune_length s) s)))"
  by pat_completeness auto
termination
proof (relation "measure length", goal_cases)
  case (2 s c s1 e s2 x r s3 out)
  then show ?case using hex4_length[of s2 r s3] unicode_escape_length[of r s3 "fst out" "snd out"] by auto
qed auto

declare json_string.simps [simp del]

subsection \<open>Nested values\<close>

text \<open>The nesting Go accepts. The first argument of the functions below is fuel; every call uses one and
  every second call consumes a character.\<close>

definition json_depth :: nat where "json_depth = 10000"

fun json_value :: "nat \<Rightarrow> nat \<Rightarrow> string \<Rightarrow> (json \<times> string) option"
  and json_elements :: "nat \<Rightarrow> nat \<Rightarrow> string \<Rightarrow> (json list \<times> string) option"
  and json_members :: "nat \<Rightarrow> nat \<Rightarrow> string \<Rightarrow> ((string \<times> json) list \<times> string) option" where
  "json_value 0 depth s = None"
| "json_value (Suc fuel) depth s =
     (case skip_space s of
        [] \<Rightarrow> None
      | c # s1 \<Rightarrow>
          if c = CHR 0x22 then map_option (\<lambda>(t, r). (JStr t, r)) (json_string s1)
          else if c = CHR ''['' then
            (if depth = 0 then None
             else case strip_text '']'' (skip_space s1) of
                 Some r \<Rightarrow> Some (JArr [], r)
               | None \<Rightarrow> map_option (\<lambda>(xs, r). (JArr xs, r)) (json_elements fuel (depth - 1) s1))
          else if c = CHR ''{'' then
            (if depth = 0 then None
             else case strip_text ''}'' (skip_space s1) of
                 Some r \<Rightarrow> Some (JObj [], r)
               | None \<Rightarrow> map_option (\<lambda>(ms, r). (JObj ms, r)) (json_members fuel (depth - 1) s1))
          else if c = CHR ''t'' then map_option (\<lambda>r. (JBool True, r)) (strip_text ''rue'' s1)
          else if c = CHR ''f'' then map_option (\<lambda>r. (JBool False, r)) (strip_text ''alse'' s1)
          else if c = CHR ''n'' then map_option (\<lambda>r. (JNull, r)) (strip_text ''ull'' s1)
          else map_option (\<lambda>(t, r). (JNum t, r)) (json_number (c # s1)))"
| "json_elements 0 depth s = None"
| "json_elements (Suc fuel) depth s =
     (case json_value fuel depth s of
        None \<Rightarrow> None
      | Some (v, s1) \<Rightarrow>
          (case strip_text '']'' (skip_space s1) of
             Some r \<Rightarrow> Some ([v], r)
           | None \<Rightarrow>
               (case strip_text '','' (skip_space s1) of
                  None \<Rightarrow> None
                | Some s2 \<Rightarrow> map_option (\<lambda>(vs, r). (v # vs, r)) (json_elements fuel depth s2))))"
| "json_members 0 depth s = None"
| "json_members (Suc fuel) depth s =
     (case strip_text [CHR 0x22] (skip_space s) of
        None \<Rightarrow> None
      | Some s1 \<Rightarrow>
          (case json_string s1 of
             None \<Rightarrow> None
           | Some (name, s2) \<Rightarrow>
               (case strip_text '':'' (skip_space s2) of
                  None \<Rightarrow> None
                | Some s3 \<Rightarrow>
                    (case json_value fuel depth s3 of
                       None \<Rightarrow> None
                     | Some (v, s4) \<Rightarrow>
                         (case strip_text ''}'' (skip_space s4) of
                            Some r \<Rightarrow> Some ([(name, v)], r)
                          | None \<Rightarrow>
                              (case strip_text '','' (skip_space s4) of
                                 None \<Rightarrow> None
                               | Some s5 \<Rightarrow> map_option (\<lambda>(ms, r). ((name, v) # ms, r)) (json_members fuel depth s5)))))))"

definition parse_json :: "string \<Rightarrow> raw" where
  "parse_json s =
     (case json_value (2 * length s + 2) json_depth s of
        None \<Rightarrow> None
      | Some (v, rest) \<Rightarrow> if skip_space rest = [] then Some v else None)"

section \<open>Decoding into Go types\<close>

text \<open>\<open>json.Unmarshal\<close> into a zero \<open>string\<close>, \<open>int64\<close> and \<open>map[string]json.RawMessage\<close>: \<open>None\<close> is an
  error; null leaves the zero value.\<close>

definition to_string :: "raw \<Rightarrow> string option" where
  "to_string r = (case r of Some (JStr t) \<Rightarrow> Some t | Some JNull \<Rightarrow> Some [] | _ \<Rightarrow> None)"

definition string_or_empty :: "raw \<Rightarrow> string" where
  "string_or_empty r = (case to_string r of None \<Rightarrow> [] | Some t \<Rightarrow> t)"

definition integer_text :: "string \<Rightarrow> int option" where
  "integer_text t =
     (case parse_int t of None \<Rightarrow> None | Some i \<Rightarrow> if - max_int64 - 1 \<le> i \<and> i \<le> max_int64 then Some i else None)"

definition to_int64 :: "raw \<Rightarrow> int option" where
  "to_int64 r = (case r of Some (JNum t) \<Rightarrow> integer_text t | Some JNull \<Rightarrow> Some 0 | _ \<Rightarrow> None)"

definition to_map :: "raw \<Rightarrow> object option" where
  "to_map r = (case r of Some (JObj ms) \<Rightarrow> Some (Some ms) | Some JNull \<Rightarrow> Some None | _ \<Rightarrow> None)"

text \<open>Into slices: whether it succeeds, and the slice, which keeps a zero element for each element that
  does not decode; a nil slice is empty.\<close>

definition elements_of :: "raw \<Rightarrow> json list" where
  "elements_of r = (case r of Some (JArr xs) \<Rightarrow> xs | _ \<Rightarrow> [])"

definition is_array :: "raw \<Rightarrow> bool" where
  "is_array r \<longleftrightarrow> (case r of Some (JArr xs) \<Rightarrow> True | _ \<Rightarrow> False)"

definition is_slice :: "raw \<Rightarrow> bool" where
  "is_slice r \<longleftrightarrow> is_array r \<or> r = Some JNull"

definition to_maps :: "raw \<Rightarrow> bool \<times> object list" where
  "to_maps r =
     (is_slice r \<and> list_all (\<lambda>x. to_map (Some x) \<noteq> None) (elements_of r),
      map (\<lambda>x. case to_map (Some x) of None \<Rightarrow> None | Some m \<Rightarrow> m) (elements_of r))"

definition to_strings :: "raw \<Rightarrow> string list option" where
  "to_strings r =
     (if is_slice r \<and> list_all (\<lambda>x. to_string (Some x) \<noteq> None) (elements_of r)
      then Some (map (\<lambda>x. string_or_empty (Some x)) (elements_of r)) else None)"

text \<open>A field of a struct is the last member whose name is equal to the field's under case folding. For
  an ASCII name that is equality of the folded texts: beside the ASCII letters only the long s and the
  Kelvin sign fold to one.\<close>

definition lower_char :: "char \<Rightarrow> char" where
  "lower_char c = (if is_upper c then char_of (of_char c + 32 :: nat) else c)"

function fold_text :: "string \<Rightarrow> string" where
  "fold_text s =
     (case s of
        [] \<Rightarrow> []
      | c # s1 \<Rightarrow>
          (case strip_text (bytes_text [197, 191]) s of
             Some r \<Rightarrow> CHR ''s'' # fold_text r
           | None \<Rightarrow>
               (case strip_text (bytes_text [226, 132, 170]) s of
                  Some r \<Rightarrow> CHR ''k'' # fold_text r
                | None \<Rightarrow> lower_char c # fold_text s1)))"
  by pat_completeness auto
termination
  by (relation "measure length") (auto simp: strip_text_def bytes_text_def split: if_splits)

declare fold_text.simps [simp del]

definition equal_fold :: "string \<Rightarrow> string \<Rightarrow> bool" where
  "equal_fold a b \<longleftrightarrow> fold_text a = fold_text b"

text \<open>A string field: whether every member of the name decodes, and the last that does.\<close>

fun struct_string :: "string \<Rightarrow> (string \<times> json) list \<Rightarrow> bool \<times> string \<Rightarrow> bool \<times> string" where
  "struct_string name [] acc = acc"
| "struct_string name ((k, v) # ms) (ok, old) =
     struct_string name ms
      (if \<not> equal_fold k name then (ok, old)
       else case v of JStr t \<Rightarrow> (ok, t) | JNull \<Rightarrow> (ok, old) | _ \<Rightarrow> (False, old))"

definition to_struct_string :: "string \<Rightarrow> raw \<Rightarrow> bool \<times> string" where
  "to_struct_string name r =
     (case r of Some (JObj ms) \<Rightarrow> struct_string name ms (True, []) | Some JNull \<Rightarrow> (True, []) | _ \<Rightarrow> (False, []))"

text \<open>A slice of structs with one string field.\<close>

definition to_struct_strings :: "string \<Rightarrow> raw \<Rightarrow> bool \<times> string list" where
  "to_struct_strings name r =
     (is_slice r \<and> list_all (\<lambda>x. fst (to_struct_string name (Some x))) (elements_of r),
      map (\<lambda>x. snd (to_struct_string name (Some x))) (elements_of r))"

end
