(* ===== verification/Native_Usage.thy ===== *)
theory Native_Usage
  imports Json_Text
begin

text \<open>
  The usage an upstream reports, \<open>internal/routex/service\<close>: \<open>pricing_usage.go\<close> (Chat Completions),
  \<open>pricing_responses.go\<close>, \<open>pricing_messages.go\<close> with its stream state, and \<open>pricing_gemini.go\<close>.
  A counter that is absent, null, negative or not an integer is unknown, never zero; a dimension that
  the text rates do not cover is recorded once, in the order it is met.
\<close>

section \<open>Counters and dimensions\<close>

record gateway_usage =
  gu_Input :: "int option"
  gu_Output :: "int option"
  gu_CacheRead :: "int option"
  gu_CacheWrite :: "int option"
  gu_Present :: bool
  gu_Complete :: bool
  gu_Unsupported :: bool
  gu_OutputStarted :: bool
  gu_UnsupportedDimensions :: "string list"

definition no_usage :: gateway_usage where
  "no_usage = \<lparr>gu_Input = None, gu_Output = None, gu_CacheRead = None, gu_CacheWrite = None, gu_Present = False,
     gu_Complete = False, gu_Unsupported = False, gu_OutputStarted = False, gu_UnsupportedDimensions = []\<rparr>"

definition inputMediaPricingDimension :: string where "inputMediaPricingDimension = ''input_media''"

definition appendDimension :: "string list \<Rightarrow> string \<Rightarrow> string list" where
  "appendDimension values item = (if item \<in> set values then values else values @ [item])"

definition add_when :: "bool \<Rightarrow> string \<Rightarrow> string list \<Rightarrow> string list" where
  "add_when b item values = (if b then appendDimension values item else values)"

text \<open>A loop that adds dimensions.\<close>

definition add_each :: "('a \<Rightarrow> string list) \<Rightarrow> 'a list \<Rightarrow> string list \<Rightarrow> string list" where
  "add_each f xs values = fold (\<lambda>x vs. fold (\<lambda>d ws. appendDimension ws d) (f x) vs) xs values"

definition usageCounter :: "raw \<Rightarrow> int option" where
  "usageCounter r =
     (if r = None \<or> r = Some JNull then None
      else case to_int64 r of None \<Rightarrow> None | Some n \<Rightarrow> if n < 0 then None else Some n)"

definition usageObject :: "raw \<Rightarrow> object" where
  "usageObject r = (case to_map r of None \<Rightarrow> None | Some ob \<Rightarrow> ob)"

definition nativePresent :: "raw \<Rightarrow> bool" where
  "nativePresent r \<longleftrightarrow> r \<noteq> None \<and> r \<noteq> Some JNull"

definition nonzeroUsageCounter :: "raw \<Rightarrow> bool" where
  "nonzeroUsageCounter r \<longleftrightarrow> nativePresent r \<and> usageCounter r \<noteq> Some 0"

text \<open>A present text that does not decode to one of the given values.\<close>

definition text_outside :: "string list \<Rightarrow> raw \<Rightarrow> bool" where
  "text_outside allowed r \<longleftrightarrow> (case to_string r of None \<Rightarrow> True | Some t \<Rightarrow> t \<notin> set allowed)"

definition default_tiers :: "string list" where "default_tiers = [''default'', ''auto'']"

definition WithExpectedInputMedia :: "gateway_usage \<Rightarrow> bool \<Rightarrow> gateway_usage" where
  "WithExpectedInputMedia u expected =
     (let dims = gu_UnsupportedDimensions u;
          resolved = inputMediaPricingDimension \<in> set dims;
          kept = add_each (\<lambda>d. if d = inputMediaPricingDimension then (if expected then [] else [''response_non_text'']) else [d]) dims []
      in if \<not> resolved then u
         else u\<lparr>gu_UnsupportedDimensions := kept, gu_Unsupported := (kept \<noteq> [])\<rparr>)"

section \<open>Chat Completions\<close>

definition set_dimensions :: "string list \<Rightarrow> gateway_usage \<Rightarrow> gateway_usage" where
  "set_dimensions dims u = u\<lparr>gu_UnsupportedDimensions := dims, gu_Unsupported := (dims \<noteq> [])\<rparr>"

text \<open>The finish reason of a choice: \<open>None\<close> where it is absent, null or empty. The first component says
  whether the choice decodes.\<close>

fun finish_reason :: "(string \<times> json) list \<Rightarrow> bool \<times> string option \<Rightarrow> bool \<times> string option" where
  "finish_reason [] acc = acc"
| "finish_reason ((k, v) # ms) (ok, old) =
     finish_reason ms
      (if \<not> equal_fold k ''finish_reason'' then (ok, old)
       else case v of JStr t \<Rightarrow> (ok, Some t) | JNull \<Rightarrow> (ok, None) | _ \<Rightarrow> (False, old))"

definition choice_reason :: "json \<Rightarrow> bool \<times> string option" where
  "choice_reason x = (case x of JObj ms \<Rightarrow> finish_reason ms (True, None) | JNull \<Rightarrow> (True, None) | _ \<Rightarrow> (False, None))"

definition chat_complete :: "object \<Rightarrow> bool \<Rightarrow> bool" where
  "chat_complete envelope stream \<longleftrightarrow>
     (let kind = string_or_empty (json_field envelope ''object'');
          r = json_field envelope ''choices'';
          choices = map choice_reason (elements_of r)
      in nativePresent r \<and> is_array r \<and> list_all fst choices \<and>
         (if stream \<and> kind = ''chat.completion.chunk'' \<and> choices = [] then True
          else \<not> stream \<and> kind = ''chat.completion'' \<and> choices \<noteq> [] \<and>
               list_all (\<lambda>c. snd c \<noteq> None \<and> snd c \<noteq> Some []) choices))"

definition chat_dimensions :: "object \<Rightarrow> object \<Rightarrow> string list \<Rightarrow> string list" where
  "chat_dimensions prompt completion dims =
     add_each (\<lambda>name. if nonzeroUsageCounter (json_field completion name) then [''response_non_text''] else [])
       [''audio_tokens'', ''image_tokens'', ''video_tokens'']
      (add_each (\<lambda>name. if nonzeroUsageCounter (json_field prompt name) then [''response_non_text''] else [])
         [''audio_tokens'', ''video_tokens'']
        (add_when (nonzeroUsageCounter (json_field prompt ''image_tokens'')) inputMediaPricingDimension dims))"

definition ParseOpenAIUsage :: "string \<Rightarrow> bool \<Rightarrow> gateway_usage" where
  "ParseOpenAIUsage text stream =
     (let envelope = usageObject (parse_json text);
          tier = json_field envelope ''service_tier'';
          dims = add_when (nativePresent tier \<and> text_outside default_tiers tier) ''response_service_tier'' [];
          start = set_dimensions dims no_usage;
          raw_usage = json_field envelope ''usage''
      in if \<not> nativePresent raw_usage then start
         else case usageObject raw_usage of
             None \<Rightarrow> start\<lparr>gu_Present := True\<rparr>
           | Some ms \<Rightarrow>
               let usage = Some ms;
                   prompt = usageObject (json_field usage ''prompt_tokens_details'');
                   completion = usageObject (json_field usage ''completion_tokens_details'')
               in set_dimensions (chat_dimensions prompt completion dims)
                    (start\<lparr>gu_Present := True,
                       gu_Input := usageCounter (json_field usage ''prompt_tokens''),
                       gu_Output := usageCounter (json_field usage ''completion_tokens''),
                       gu_CacheRead := usageCounter (json_field prompt ''cached_tokens''),
                       gu_CacheWrite := usageCounter (json_field prompt ''cache_write_tokens''),
                       gu_Complete := chat_complete envelope stream\<rparr>))"

section \<open>Responses\<close>

definition responsesTextContent :: "raw \<Rightarrow> bool" where
  "responsesTextContent r \<longleftrightarrow>
     nativePresent r \<and>
     (to_string r \<noteq> None \<or>
      (fst (to_maps r) \<and> is_array r \<and>
       list_all (\<lambda>part. string_or_empty (json_field part ''type'') \<in> set [''input_text'', ''output_text'', ''refusal''] \<and>
                        \<not> nativePresent (json_field part ''prompt_cache_breakpoint'')) (snd (to_maps r))))"

definition responses_item :: "object \<Rightarrow> string list" where
  "responses_item item =
     (let typ = string_or_empty (json_field item ''type'') in
      (if typ \<notin> set [''message'', ''reasoning'', ''function_call'', ''custom_tool_call''] then [''external_tool''] else []) @
      (if typ = ''message'' \<and> \<not> responsesTextContent (json_field item ''content'') then [''response_non_text''] else []))"

definition responses_output :: "raw \<Rightarrow> string list \<Rightarrow> string list" where
  "responses_output r dims =
     (if \<not> nativePresent r then dims
      else add_each responses_item (snd (to_maps r)) (add_when (\<not> fst (to_maps r)) ''response_non_text'' dims))"

definition ParseResponsesUsage :: "string \<Rightarrow> gateway_usage" where
  "ParseResponsesUsage text =
     (let envelope = usageObject (parse_json text);
          kind = string_or_empty (json_field envelope ''object'');
          status = string_or_empty (json_field envelope ''status'');
          tier = json_field envelope ''service_tier'';
          dims = responses_output (json_field envelope ''output'')
                   (add_when (nativePresent tier \<and> text_outside default_tiers tier) ''response_service_tier'' []);
          start = set_dimensions dims no_usage;
          raw_usage = json_field envelope ''usage''
      in if \<not> nativePresent raw_usage then start
         else case usageObject raw_usage of
             None \<Rightarrow> start\<lparr>gu_Present := True\<rparr>
           | Some ms \<Rightarrow>
               let usage = Some ms;
                   details = usageObject (json_field usage ''input_tokens_details'');
                   out_details = usageObject (json_field usage ''output_tokens_details'')
               in set_dimensions (chat_dimensions details out_details dims)
                    (start\<lparr>gu_Present := True,
                       gu_Input := usageCounter (json_field usage ''input_tokens''),
                       gu_Output := usageCounter (json_field usage ''output_tokens''),
                       gu_CacheRead := usageCounter (json_field details ''cached_tokens''),
                       gu_CacheWrite := usageCounter (json_field details ''cache_write_tokens''),
                       gu_Complete := (kind = ''response'' \<and> status \<in> set [''completed'', ''failed'', ''incomplete'', ''cancelled''])\<rparr>))"

section \<open>Messages\<close>

text \<open>The native input categories are disjoint; their sum is the input, where all are known and it is an
  \<open>int64\<close>.\<close>

definition messages_input :: "int option \<Rightarrow> int option \<Rightarrow> int option \<Rightarrow> int option" where
  "messages_input input read write =
     (case (input, read, write) of
        (Some i, Some r, Some w) \<Rightarrow> if i \<le> max_int64 - r \<and> i + r \<le> max_int64 - w then Some (i + r + w) else None
      | _ \<Rightarrow> None)"

definition cache_split :: "object \<Rightarrow> int \<Rightarrow> bool" where
  "cache_split split write \<longleftrightarrow>
     usageCounter (json_field split ''ephemeral_1h_input_tokens'') = Some 0 \<and>
     usageCounter (json_field split ''ephemeral_5m_input_tokens'') = Some write"

definition messages_dimensions :: "object \<Rightarrow> int option \<Rightarrow> string list" where
  "messages_dimensions ob write =
     (let tier = json_field ob ''service_tier'';
          geo = json_field ob ''inference_geo'';
          speed = json_field ob ''speed'';
          tools = usageObject (json_field ob ''server_tool_use'');
          iterations = json_field ob ''iterations'';
          items = snd (to_maps iterations)
      in add_when (nativePresent iterations \<and>
             (\<not> fst (to_maps iterations) \<or> length items \<noteq> 1 \<or> text_outside [''message''] (json_field (hd items) ''type'')))
           ''request_condition''
         (add_each (\<lambda>k. if usageCounter (json_field tools k) \<noteq> Some 0 then [''external_tool''] else []) (json_keys tools)
         (add_when (nativePresent speed \<and> text_outside [''standard''] speed) ''request_condition''
         (add_when (nativePresent geo \<and> text_outside [''global''] geo) ''request_condition''
         (add_when (nativePresent tier \<and> text_outside [''standard''] tier) ''response_service_tier''
         (add_when (case write of None \<Rightarrow> False | Some w \<Rightarrow> w > 0 \<and> \<not> cache_split (usageObject (json_field ob ''cache_creation'')) w)
           ''cache_retention'' []))))))"

definition messagesUsage :: "raw \<Rightarrow> bool \<Rightarrow> gateway_usage" where
  "messagesUsage r whole =
     (case usageObject r of
        None \<Rightarrow> no_usage\<lparr>gu_Present := nativePresent r\<rparr>
      | Some ms \<Rightarrow>
          let ob = Some ms;
              read = usageCounter (json_field ob ''cache_read_input_tokens'');
              write = usageCounter (json_field ob ''cache_creation_input_tokens'')
          in set_dimensions (messages_dimensions ob write)
               (no_usage\<lparr>gu_Present := True,
                  gu_Input := messages_input (usageCounter (json_field ob ''input_tokens'')) read write,
                  gu_Output := usageCounter (json_field ob ''output_tokens''),
                  gu_CacheRead := read, gu_CacheWrite := write, gu_Complete := whole\<rparr>))"

definition ParseMessagesUsage :: "string \<Rightarrow> bool \<Rightarrow> gateway_usage" where
  "ParseMessagesUsage text whole =
     (let envelope = usageObject (parse_json text);
          result = messagesUsage (json_field envelope ''usage'') whole;
          content = to_maps (json_field envelope ''content'')
      in if \<not> fst content then result
         else set_dimensions
                (add_each (\<lambda>block. if string_or_empty (json_field block ''type'') \<notin>
                      set [''text'', ''thinking'', ''redacted_thinking'', ''tool_use''] then [''external_tool''] else [])
                   (snd content) (gu_UnsupportedDimensions result)) result)"

subsection \<open>The stream\<close>

text \<open>The snapshot the stream started with, updated by its deltas; nil before the start.\<close>

record stream_usage =
  su_raw :: object
  su_started :: bool
  su_finalDelta :: bool
  su_previousOutput :: "int option"

definition stream_start :: stream_usage where
  "stream_start = \<lparr>su_raw = None, su_started = False, su_finalDelta = False, su_previousOutput = None\<rparr>"

definition set_members :: "(string \<times> json) list \<Rightarrow> object \<Rightarrow> object" where
  "set_members ms ob = map_option (\<lambda>old. old @ ms) ob"

definition Start :: "raw \<Rightarrow> stream_usage \<Rightarrow> bool \<times> stream_usage" where
  "Start r st =
     (if su_started st then (False, st)
      else (True, st\<lparr>su_started := True,
              su_raw := (case usageObject r of None \<Rightarrow> Some [] | Some ms \<Rightarrow> Some ms),
              su_previousOutput := usageCounter (json_field (usageObject r) ''output_tokens'')\<rparr>))"

definition Delta :: "raw \<Rightarrow> bool \<Rightarrow> stream_usage \<Rightarrow> bool \<times> stream_usage" where
  "Delta r final st =
     (if \<not> su_started st \<or> su_finalDelta st then (False, st)
      else case usageObject r of
          None \<Rightarrow> (True, st\<lparr>su_raw := Some [], su_finalDelta := final\<rparr>)
        | Some ms \<Rightarrow>
            (case json_field (Some ms) ''output_tokens'' of
               Some x \<Rightarrow>
                 let current = usageCounter (Some x) in
                 if (case (current, su_previousOutput st) of (Some c, Some p) \<Rightarrow> c < p | _ \<Rightarrow> False) then (False, st)
                 else (True, st\<lparr>su_previousOutput := current, su_raw := set_members ms (su_raw st), su_finalDelta := final\<rparr>)
             | None \<Rightarrow>
                 (True, st\<lparr>su_raw := set_members ((if final then [(''output_tokens'', JNull)] else []) @ ms) (su_raw st),
                           su_finalDelta := final\<rparr>)))"

definition Usage :: "bool \<Rightarrow> stream_usage \<Rightarrow> gateway_usage" where
  "Usage terminal st =
     messagesUsage (Some (case su_raw st of None \<Rightarrow> JNull | Some ms \<Rightarrow> JObj ms)) (terminal \<and> su_started st \<and> su_finalDelta st)"

section \<open>Gemini\<close>

definition geminiField :: "object \<Rightarrow> string \<Rightarrow> string \<Rightarrow> raw" where
  "geminiField ob camel snake = (case json_field ob camel of Some v \<Rightarrow> Some v | None \<Rightarrow> json_field ob snake)"

definition nativeAliasCollision :: "object \<Rightarrow> string \<Rightarrow> string \<Rightarrow> bool" where
  "nativeAliasCollision ob a b \<longleftrightarrow> json_field ob a \<noteq> None \<and> json_field ob b \<noteq> None"

definition gemini_aliases :: "(string \<times> string) list" where
  "gemini_aliases = [(''promptTokenCount'', ''prompt_token_count''), (''cachedContentTokenCount'', ''cached_content_token_count''),
     (''candidatesTokenCount'', ''candidates_token_count''), (''thoughtsTokenCount'', ''thoughts_token_count''),
     (''totalTokenCount'', ''total_token_count''), (''serviceTier'', ''service_tier'')]"

definition gemini_details :: "(string \<times> string) list" where
  "gemini_details = [(''promptTokensDetails'', ''prompt_tokens_details''), (''cacheTokensDetails'', ''cache_tokens_details''),
     (''candidatesTokensDetails'', ''candidates_tokens_details''),
     (''toolUsePromptTokensDetails'', ''tool_use_prompt_tokens_details'')]"

definition gemini_usage_keys :: "string list" where
  "gemini_usage_keys = concat (map (\<lambda>(a, b). [a, b])
     (gemini_aliases @ gemini_details @ [(''toolUsePromptTokenCount'', ''tool_use_prompt_token_count'')]))"

definition sum_int64 :: "int option \<Rightarrow> int option \<Rightarrow> int option" where
  "sum_int64 a b = (case (a, b) of (Some x, Some y) \<Rightarrow> if x \<le> max_int64 - y then Some (x + y) else None | _ \<Rightarrow> None)"

text \<open>The all_tokens contradicts the known input and output.\<close>

definition total_mismatch :: "int option \<Rightarrow> int option \<Rightarrow> int option \<Rightarrow> bool" where
  "total_mismatch all_tokens input out =
     (case (all_tokens, input, out) of (Some t, Some i, Some x) \<Rightarrow> i > max_int64 - x \<or> t \<noteq> i + x | _ \<Rightarrow> False)"

definition geminiContentDimensions :: "raw \<Rightarrow> string list" where
  "geminiContentDimensions r =
     (if \<not> nativePresent r then []
      else let parts = to_maps (json_field (usageObject r) ''parts'') in
        if \<not> fst parts then [''response_non_text'']
        else add_each (\<lambda>part.
               (if nativePresent (json_field (usageObject (geminiField part ''functionResponse'' ''function_response'')) ''parts'')
                then [''response_non_text''] else []) @
               (if list_all (\<lambda>key. key \<in> set [''text'', ''thought'', ''thoughtSignature'', ''thought_signature'', ''functionCall'',
                      ''function_call'', ''functionResponse'', ''function_response'']) (json_keys part)
                then [] else [''response_non_text''])) (snd parts) [])"

definition modality_dimension :: "bool \<Rightarrow> object \<Rightarrow> string list" where
  "modality_dimension input_side detail =
     (case to_string (json_field detail ''modality'') of
        None \<Rightarrow> [''response_non_text'']
      | Some m \<Rightarrow>
          if m = ''TEXT'' then []
          else if input_side \<and> (m = ''IMAGE'' \<or> m = ''DOCUMENT'') then [inputMediaPricingDimension]
          else [''response_non_text''])"

definition gemini_detail :: "object \<Rightarrow> nat \<times> string \<times> string \<Rightarrow> string list" where
  "gemini_detail ob entry =
     (case entry of (index, camel, snake) \<Rightarrow>
      let r = geminiField ob camel snake in
      if \<not> nativePresent r then []
      else if \<not> fst (to_maps r) then [''response_non_text'']
      else concat (map (modality_dimension (index < 2)) (snd (to_maps r))))"

definition gemini_candidate :: "object \<Rightarrow> string list" where
  "gemini_candidate candidate =
     concat (map (\<lambda>key. if nativePresent (json_field candidate key) then [''external_tool''] else [])
       [''groundingMetadata'', ''grounding_metadata'', ''urlContextMetadata'', ''url_context_metadata'']) @
     geminiContentDimensions (json_field candidate ''content'')"

definition gemini_dimensions :: "object \<Rightarrow> object \<Rightarrow> string list" where
  "gemini_dimensions envelope ob =
     (let tool = geminiField ob ''toolUsePromptTokenCount'' ''tool_use_prompt_token_count'';
          tier = geminiField ob ''serviceTier'' ''service_tier'';
          candidates = to_maps (json_field envelope ''candidates'')
      in add_each gemini_candidate (if fst candidates then snd candidates else [])
         (add_each (gemini_detail ob) (List.enumerate 0 gemini_details)
         (add_when (nativePresent tier \<and> text_outside [''STANDARD''] tier) ''response_service_tier''
         (add_when (nativePresent tool \<and> usageCounter tool \<noteq> Some 0) ''external_tool''
         (add_when (\<not> list_all (\<lambda>key. key \<in> set gemini_usage_keys) (json_keys ob)) ''request_condition'' [])))))"

definition ParseGeminiUsage :: "string \<Rightarrow> bool \<Rightarrow> gateway_usage" where
  "ParseGeminiUsage text whole =
     (let envelope = usageObject (parse_json text);
          native = geminiField envelope ''usageMetadata'' ''usage_metadata'';
          ob = usageObject native;
          start = no_usage\<lparr>gu_Present := nativePresent native, gu_Complete := whole\<rparr>
      in if list_ex (\<lambda>(a, b). nativeAliasCollision ob a b) gemini_aliases then start
         else
           let input = usageCounter (geminiField ob ''promptTokenCount'' ''prompt_token_count'');
               out = sum_int64 (usageCounter (geminiField ob ''candidatesTokenCount'' ''candidates_token_count''))
                               (usageCounter (geminiField ob ''thoughtsTokenCount'' ''thoughts_token_count''));
               all_tokens = usageCounter (geminiField ob ''totalTokenCount'' ''total_token_count'');
               clash = total_mismatch all_tokens input out
           in set_dimensions (gemini_dimensions envelope ob)
                (start\<lparr>gu_Input := (if clash then None else input), gu_Output := (if clash then None else out),
                   gu_CacheRead := usageCounter (geminiField ob ''cachedContentTokenCount'' ''cached_content_token_count''),
                   gu_CacheWrite := Some 0\<rparr>))"

end
