(* ===== verification/Native_Requests.thy ===== *)
theory Native_Requests
  imports Native_Usage Gateway_Quota
begin

text \<open>
  The requests the gateway accepts, \<open>internal/routex/service\<close>: the parsers of the four native
  protocols (\<open>parseGatewayChat\<close> in \<open>gateway.go\<close>, \<open>gateway_responses.go\<close>, \<open>gateway_messages.go\<close>,
  \<open>gateway_gemini.go\<close>), the pricing dimensions of a request (\<open>pricing_*.go\<close>) and the inspection for
  quotas (\<open>quota_admission.go\<close>, \<open>quota_native.go\<close>). A payload is the map of the top-level members.
\<close>

section \<open>Chat Completions\<close>

definition plain_part :: "object \<Rightarrow> bool" where
  "plain_part part \<longleftrightarrow>
     to_string (json_field part ''type'') = Some ''text'' \<and> json_field part ''prompt_cache_breakpoint'' = None"

definition plain_message :: "object \<Rightarrow> bool" where
  "plain_message message \<longleftrightarrow>
     \<not> nativePresent (json_field message ''audio'') \<and>
     (let content = json_field message ''content'' in
      \<not> nativePresent content \<or> to_string content \<noteq> None \<or>
      (fst (to_maps content) \<and> list_all plain_part (snd (to_maps content))))"

definition plain_tools :: "raw \<Rightarrow> bool" where
  "plain_tools r \<longleftrightarrow> fst (to_struct_strings ''type'' r) \<and> list_all (\<lambda>t. t = ''function'') (snd (to_struct_strings ''type'' r))"

definition supportsTextPricing :: "object \<Rightarrow> bool" where
  "supportsTextPricing payload \<longleftrightarrow>
     (let tier = json_field payload ''service_tier'';
          modalities = json_field payload ''modalities'';
          messages = to_maps (json_field payload ''messages'');
          tools = json_field payload ''tools''
      in list_all (\<lambda>key. \<not> nativePresent (json_field payload key))
           [''audio'', ''web_search_options'', ''prompt_cache_options'', ''prompt_cache_retention''] \<and>
         (tier = None \<or> \<not> text_outside default_tiers tier) \<and>
         (modalities = None \<or> to_strings modalities = Some [''text'']) \<and>
         fst messages \<and> list_all plain_message (snd messages) \<and>
         (tools = None \<or> plain_tools tools))"

definition pricingRequestDimensions :: "object \<Rightarrow> string list" where
  "pricingRequestDimensions payload =
     (if supportsTextPricing payload then []
      else
        let tier = json_field payload ''service_tier'';
            search = json_field payload ''web_search_options'';
            tools = json_field payload ''tools'';
            caches = [''prompt_cache_options'', ''prompt_cache_retention'']
        in add_when (\<not> supportsTextPricing (json_delete (caches @ [''service_tier'', ''web_search_options'', ''tools'']) payload))
             ''request_non_text''
           (add_when (tools \<noteq> None \<and> \<not> plain_tools tools) ''external_tool''
           (add_when (nativePresent search) ''external_tool''
           (add_when (tier \<noteq> None \<and> text_outside default_tiers tier) ''request_service_tier''
           (add_each (\<lambda>key. if nativePresent (json_field payload key) then [''cache_retention''] else []) caches [])))))"

section \<open>Responses\<close>

definition responses_input :: "object \<Rightarrow> string list" where
  "responses_input item =
     (let kind = string_or_empty (json_field item ''type'') in
      if kind = [] \<or> kind = ''message'' then
        (if responsesTextContent (json_field item ''content'') then [] else [''request_non_text''])
      else if kind = ''function_call_output'' \<or> kind = ''custom_tool_call_output'' then
        (if responsesTextContent (json_field item ''output'') then [] else [''request_non_text''])
      else if kind = ''reasoning'' \<or> kind = ''function_call'' \<or> kind = ''custom_tool_call'' then []
      else [''request_non_text''])"

definition responsesPricingDimensions :: "object \<Rightarrow> string list" where
  "responsesPricingDimensions payload =
     (let tier = json_field payload ''service_tier'';
          input = json_field payload ''input'';
          tools = json_field payload ''tools'';
          names = to_struct_strings ''type'' tools
      in add_when (nativePresent (json_field payload ''audio'')) ''request_non_text''
         (add_when (nativePresent tools \<and> (\<not> fst names \<or> list_ex (\<lambda>t. t \<noteq> ''function'' \<and> t \<noteq> ''custom'') (snd names)))
           ''external_tool''
         ((\<lambda>dims. if to_string input \<noteq> None then dims
             else add_each responses_input (snd (to_maps input)) (add_when (\<not> fst (to_maps input)) ''request_non_text'' dims))
         (add_when (nativePresent tier \<and> text_outside default_tiers tier) ''request_service_tier''
         (add_each (\<lambda>key. if nativePresent (json_field payload key) then [''cache_retention''] else [])
           [''prompt_cache_options'', ''prompt_cache_retention''] [])))))"

section \<open>Messages\<close>

definition cache_dimension :: "raw \<Rightarrow> string list" where
  "cache_dimension r =
     (if \<not> nativePresent r then []
      else let ob = usageObject r in
        if ob = None \<or> to_string (json_field ob ''type'') \<noteq> Some ''ephemeral'' then [''cache_retention'']
        else if nativePresent (json_field ob ''ttl'') \<and> to_string (json_field ob ''ttl'') \<noteq> Some ''5m'' then [''cache_retention'']
        else [])"

definition map_of_element :: "json \<Rightarrow> object" where
  "map_of_element x = (case x of JObj ms \<Rightarrow> Some ms | _ \<Rightarrow> None)"

text \<open>The closure \<open>content\<close>, which descends into the results of tools.\<close>

function content_dimensions :: "json \<Rightarrow> string list" where
  "content_dimensions v =
     (case v of
        JStr _ \<Rightarrow> []
      | JNull \<Rightarrow> []
      | JArr xs \<Rightarrow>
          if \<not> fst (to_maps (Some v)) then [''request_non_text'']
          else concat (map (\<lambda>x.
            case x of
              JObj ms \<Rightarrow>
                (let kind = string_or_empty (json_field (Some ms) ''type'') in
                 cache_dimension (json_field (Some ms) ''cache_control'') @
                 (if kind \<in> set [''text'', ''thinking'', ''redacted_thinking'', ''tool_use''] then []
                  else if kind = ''tool_result'' then
                    (case json_field (Some ms) ''content'' of
                       None \<Rightarrow> []
                     | Some c \<Rightarrow> if c = JNull then [] else content_dimensions c)
                  else [''request_non_text'']))
            | _ \<Rightarrow> [''request_non_text'']) xs)
      | _ \<Rightarrow> [''request_non_text''])"
  by pat_completeness auto
termination
  by (relation "measure size") (auto dest!: json_field_size json_element_size)

declare content_dimensions.simps [simp del]

definition content_of :: "raw \<Rightarrow> string list" where
  "content_of r = (case r of None \<Rightarrow> [''request_non_text''] | Some v \<Rightarrow> content_dimensions v)"

definition messages_tool :: "object \<Rightarrow> string list" where
  "messages_tool tool =
     (let kind = string_or_empty (json_field tool ''type'') in
      cache_dimension (json_field tool ''cache_control'') @
      (if kind \<noteq> [] \<and> kind \<noteq> ''custom'' then [''external_tool''] else []))"

definition messagesPricingDimensions :: "object \<Rightarrow> string list" where
  "messagesPricingDimensions payload =
     (let system = json_field payload ''system''; tier = json_field payload ''service_tier'' in
      add_each (\<lambda>d. [d])
       (cache_dimension (json_field payload ''cache_control'') @
        concat (map (\<lambda>m. content_of (json_field m ''content'')) (snd (to_maps (json_field payload ''messages'')))) @
        (if nativePresent system then content_of system else []) @
        concat (map messages_tool (snd (to_maps (json_field payload ''tools'')))) @
        concat (map (\<lambda>key. if nativePresent (json_field payload key) then [''external_tool''] else []) [''mcp_servers'', ''container'']) @
        concat (map (\<lambda>key. if nativePresent (json_field payload key) then [''request_condition''] else [])
          [''context_management'', ''inference_geo'', ''speed'']) @
        (if nativePresent tier \<and> text_outside [''auto'', ''standard_only''] tier then [''request_service_tier''] else [])) [])"

section \<open>Gemini\<close>

definition gemini_payload_keys :: "string list" where
  "gemini_payload_keys = [''contents'', ''tools'', ''toolConfig'', ''tool_config'', ''safetySettings'', ''safety_settings'',
     ''systemInstruction'', ''system_instruction'', ''generationConfig'', ''generation_config'', ''serviceTier'', ''service_tier'',
     ''store'']"

definition gemini_config_keys :: "string list" where
  "gemini_config_keys = [''stopSequences'', ''stop_sequences'', ''responseMimeType'', ''response_mime_type'', ''responseSchema'',
     ''response_schema'', ''responseJsonSchema'', ''response_json_schema'', ''responseModalities'', ''response_modalities'',
     ''candidateCount'', ''candidate_count'', ''maxOutputTokens'', ''max_output_tokens'', ''temperature'', ''topP'', ''top_p'',
     ''topK'', ''top_k'', ''seed'', ''presencePenalty'', ''presence_penalty'', ''frequencyPenalty'', ''frequency_penalty'',
     ''responseLogprobs'', ''response_logprobs'', ''logprobs'', ''thinkingConfig'', ''thinking_config'']"

text \<open>\<open>[]json.RawMessage\<close>: the elements, where the value is a slice.\<close>

definition to_raws :: "raw \<Rightarrow> raw list" where
  "to_raws r = map Some (elements_of r)"

definition gemini_tool :: "object \<Rightarrow> string list" where
  "gemini_tool tool =
     (if list_all (\<lambda>key. key = ''functionDeclarations'' \<or> key = ''function_declarations'') (json_keys tool)
      then [] else [''external_tool''])"

definition geminiPricingDimensions :: "object \<Rightarrow> string list" where
  "geminiPricingDimensions payload =
     (let contents = to_raws (json_field payload ''contents'') @ [geminiField payload ''systemInstruction'' ''system_instruction''];
          config = usageObject (geminiField payload ''generationConfig'' ''generation_config'');
          modalities = geminiField config ''responseModalities'' ''response_modalities'';
          tier = geminiField payload ''serviceTier'' ''service_tier''
      in add_when (nativePresent tier \<and> text_outside [''STANDARD''] tier) ''request_service_tier''
         (add_when (nativePresent modalities \<and>
             (case to_strings modalities of None \<Rightarrow> True | Some ms \<Rightarrow> list_ex (\<lambda>m. m \<noteq> ''TEXT'') ms)) ''request_non_text''
         (add_when (\<not> list_all (\<lambda>key. key \<in> set gemini_config_keys) (json_keys config)) ''request_condition''
         (add_each gemini_tool (snd (to_maps (json_field payload ''tools'')))
         (add_each (\<lambda>c. if geminiContentDimensions c \<noteq> [] then [''request_non_text''] else []) contents
         (add_when (\<not> list_all (\<lambda>key. key \<in> set gemini_payload_keys) (json_keys payload)) ''request_condition'' []))))))"

definition gatewayPricingDimensions :: "string \<Rightarrow> object \<Rightarrow> string list" where
  "gatewayPricingDimensions proto payload =
     (if proto = ''openai_responses'' then responsesPricingDimensions payload
      else if proto = ''anthropic_messages'' then messagesPricingDimensions payload
      else if proto = ''gemini_generate_content'' then geminiPricingDimensions payload
      else pricingRequestDimensions payload)"

section \<open>The inspection for quotas\<close>

definition no_quota_request :: quota_request where
  "no_quota_request = \<lparr>rq_Supported = False, rq_MaxOutput = 0, rq_CacheRead = False, rq_CacheWrite = False\<rparr>"

definition bounded_request :: "raw \<Rightarrow> bool \<Rightarrow> quota_request" where
  "bounded_request maximum write =
     (case usageCounter maximum of
        None \<Rightarrow> no_quota_request
      | Some n \<Rightarrow> if n \<le> 0 then no_quota_request
                  else \<lparr>rq_Supported = True, rq_MaxOutput = n, rq_CacheRead = True, rq_CacheWrite = write\<rparr>)"

definition quotaOnlyFields :: "object \<Rightarrow> string list \<Rightarrow> bool" where
  "quotaOnlyFields payload names \<longleftrightarrow> list_all (\<lambda>key. key \<in> set names) (json_keys payload)"

definition chat_fields :: "string list" where
  "chat_fields = [''model'', ''messages'', ''max_completion_tokens'', ''stream'', ''stream_options'', ''temperature'', ''top_p'',
     ''stop'', ''presence_penalty'', ''frequency_penalty'', ''seed'', ''logprobs'', ''top_logprobs'', ''metadata'', ''user'',
     ''safety_identifier'', ''prompt_cache_key'', ''service_tier'', ''n'', ''response_format'', ''reasoning_effort'', ''tools'',
     ''tool_choice'', ''parallel_tool_calls'']"

definition inspectChatQuotaRequest :: "object \<Rightarrow> quota_request" where
  "inspectChatQuotaRequest payload =
     (if \<not> supportsTextPricing payload \<or> \<not> quotaOnlyFields payload chat_fields then no_quota_request
      else if json_field payload ''n'' \<noteq> None \<and> to_int64 (json_field payload ''n'') \<noteq> Some 1 then no_quota_request
      else bounded_request (json_field payload ''max_completion_tokens'') True)"

definition responses_fields :: "string list" where
  "responses_fields = [''model'', ''input'', ''instructions'', ''max_output_tokens'', ''stream'', ''stream_options'',
     ''temperature'', ''top_p'', ''top_logprobs'', ''metadata'', ''user'', ''safety_identifier'', ''prompt_cache_key'',
     ''service_tier'', ''text'', ''reasoning'', ''tools'', ''tool_choice'', ''parallel_tool_calls'', ''include'', ''truncation'',
     ''store'', ''background'']"

definition inspectResponsesQuotaRequest :: "object \<Rightarrow> quota_request" where
  "inspectResponsesQuotaRequest payload =
     (if responsesPricingDimensions payload \<noteq> [] \<or> \<not> quotaOnlyFields payload responses_fields then no_quota_request
      else bounded_request (json_field payload ''max_output_tokens'') True)"

definition messages_fields :: "string list" where
  "messages_fields = [''model'', ''messages'', ''system'', ''max_tokens'', ''stream'', ''temperature'', ''top_p'', ''top_k'',
     ''stop_sequences'', ''metadata'', ''service_tier'', ''thinking'', ''tools'', ''tool_choice'', ''cache_control'', ''output_config'']"

definition short_cache :: "raw \<Rightarrow> bool" where
  "short_cache r \<longleftrightarrow>
     (\<not> nativePresent r \<or>
      (case to_map r of
         None \<Rightarrow> False
       | Some control \<Rightarrow>
           quotaOnlyFields control [''type'', ''ttl''] \<and> to_string (json_field control ''type'') = Some ''ephemeral'' \<and>
           (\<not> nativePresent (json_field control ''ttl'') \<or> to_string (json_field control ''ttl'') = Some ''5m'')))"

definition inspectMessagesQuotaRequest :: "object \<Rightarrow> quota_request" where
  "inspectMessagesQuotaRequest payload =
     (if messagesPricingDimensions payload \<noteq> [] \<or> \<not> quotaOnlyFields payload messages_fields \<or>
         \<not> short_cache (json_field payload ''cache_control'')
      then no_quota_request
      else bounded_request (json_field payload ''max_tokens'') True)"

definition inspectGeminiQuotaRequest :: "object \<Rightarrow> quota_request" where
  "inspectGeminiQuotaRequest payload =
     (if geminiPricingDimensions payload \<noteq> [] \<or> nativeAliasCollision payload ''generationConfig'' ''generation_config''
      then no_quota_request
      else
        let config = usageObject (geminiField payload ''generationConfig'' ''generation_config'');
            count = geminiField config ''candidateCount'' ''candidate_count'';
            thinking = geminiField config ''thinkingConfig'' ''thinking_config''
        in if config = None then no_quota_request
        else if list_ex (\<lambda>(a, b). nativeAliasCollision config a b) [(''maxOutputTokens'', ''max_output_tokens''),
             (''candidateCount'', ''candidate_count''), (''thinkingConfig'', ''thinking_config'')]
        then no_quota_request
        else if nativePresent count \<and> to_int64 count \<noteq> Some 1 then no_quota_request
        else if nativePresent thinking \<and>
            (usageObject thinking = None \<or>
             \<not> quotaOnlyFields (usageObject thinking) [''includeThoughts'', ''include_thoughts'', ''thinkingBudget'',
                  ''thinking_budget'', ''thinkingLevel'', ''thinking_level''])
        then no_quota_request
        else bounded_request (geminiField config ''maxOutputTokens'' ''max_output_tokens'') False)"

text \<open>\<open>detached\<close> is the payload without its attachments, where the request has some and they allow it.\<close>

definition inspectQuotaRequest :: "string \<Rightarrow> object \<Rightarrow> object option \<Rightarrow> quota_request" where
  "inspectQuotaRequest proto original detached =
     (let payload = (case detached of None \<Rightarrow> original | Some d \<Rightarrow> d) in
      if proto = ''openai_chat'' then inspectChatQuotaRequest payload
      else if proto = ''openai_responses'' then inspectResponsesQuotaRequest payload
      else if proto = ''anthropic_messages'' then inspectMessagesQuotaRequest payload
      else if proto = ''gemini_generate_content'' then inspectGeminiQuotaRequest payload
      else no_quota_request)"

end
