(* ===== verification/Native_Parsers.thy ===== *)
theory Native_Parsers
  imports Native_Requests Limits_Policy
begin

text \<open>
  The parsers of native requests, \<open>internal/routex/service\<close>: \<open>parseGatewayChat\<close> (\<open>gateway.go\<close>),
  \<open>gateway_responses.go\<close>, \<open>gateway_messages.go\<close> and \<open>gateway_gemini.go\<close>. A request is refused where
  it refers to state that a provider keeps (files, containers, conversations), since the gateway does
  not know who owns it. A parser returns the public model and whether the answer is a stream also
  where it fails; the other component is the payload or the error.
\<close>

type_synonym parsed_request = "(string \<times> bool) \<times> (service_error + object)"

section \<open>Names and flags\<close>

definition is_alnum :: "char \<Rightarrow> bool" where
  "is_alnum c \<longleftrightarrow> is_upper c \<or> is_lower c \<or> is_digit c"

definition public_model_name :: "string \<Rightarrow> bool" where
  "public_model_name s \<longleftrightarrow>
     s \<noteq> [] \<and> is_alnum (hd s) \<and> length s \<le> 128 \<and>
     list_all (\<lambda>c. is_alnum c \<or> c \<in> set ''._:/-'') (tl s)"

definition geminiModelSegment :: "string \<Rightarrow> bool" where
  "geminiModelSegment s \<longleftrightarrow>
     s \<noteq> [] \<and> is_alnum (hd s) \<and> length s \<le> 128 \<and> list_all (\<lambda>c. is_alnum c \<or> c \<in> set ''._-'') (tl s)"

definition requested_model :: "object \<Rightarrow> string option" where
  "requested_model payload =
     (case to_string (json_field payload ''model'') of
        None \<Rightarrow> None | Some m \<Rightarrow> if public_model_name m then Some m else None)"

text \<open>A flag that must be a literal true or false where it is given.\<close>

definition flag :: "raw \<Rightarrow> bool option" where
  "flag r = (case r of None \<Rightarrow> Some False | Some (JBool b) \<Rightarrow> Some b | _ \<Rightarrow> None)"

definition InvalidRequest :: service_error where "InvalidRequest = GatewayError 400 ''invalid_request_error''"
definition unsupportedResponsesState :: service_error where
  "unsupportedResponsesState = GatewayError 400 ''unsupported_parameter''"
definition unsupportedMessagesResource :: service_error where
  "unsupportedMessagesResource = GatewayError 400 ''invalid_request_error''"

definition none_present :: "object \<Rightarrow> string list \<Rightarrow> bool" where
  "none_present ob keys \<longleftrightarrow> list_all (\<lambda>key. \<not> nativePresent (json_field ob key)) keys"

text \<open>The common start of a parser: an object with a public model.\<close>

definition with_model :: "string \<Rightarrow> (object \<Rightarrow> string \<Rightarrow> parsed_request) \<Rightarrow> parsed_request" where
  "with_model body next_step =
     (case parse_json body of
        Some (JObj ms) \<Rightarrow>
          (case requested_model (Some ms) of
             None \<Rightarrow> (([], False), Inl InvalidRequest)
           | Some m \<Rightarrow> next_step (Some ms) m)
      | _ \<Rightarrow> (([], False), Inl InvalidRequest))"

section \<open>Chat Completions\<close>

definition usage_options :: "raw \<Rightarrow> object option" where
  "usage_options r =
     (case (if nativePresent r then to_map r else Some (Some [])) of
        Some (Some ms) \<Rightarrow> Some (Some (ms @ [(''include_usage'', JBool True)]))
      | _ \<Rightarrow> None)"

definition parseGatewayChat :: "string \<Rightarrow> parsed_request" where
  "parseGatewayChat body =
     with_model body (\<lambda>payload m.
       let messages = json_field payload ''messages'' in
       if \<not> is_slice messages \<or> elements_of messages = [] then ((m, False), Inl InvalidRequest)
       else case flag (json_field payload ''stream'') of
           None \<Rightarrow> ((m, False), Inl InvalidRequest)
         | Some False \<Rightarrow> ((m, False), Inr payload)
         | Some True \<Rightarrow>
             (case usage_options (json_field payload ''stream_options'') of
                Some (Some opts) \<Rightarrow> ((m, True), Inr (set_members [(''stream_options'', JObj opts)] payload))
              | _ \<Rightarrow> ((m, True), Inl InvalidRequest)))"

section \<open>Responses\<close>

definition safeResponsesContent :: "raw \<Rightarrow> bool" where
  "safeResponsesContent r \<longleftrightarrow>
     nativePresent r \<and>
     (to_string r \<noteq> None \<or>
      (fst (to_maps r) \<and>
       list_all (\<lambda>part.
         to_string (json_field part ''type'') \<in>
           Some ` set [''input_text'', ''output_text'', ''refusal'', ''input_image'', ''input_file''] \<and>
         none_present part [''file_id'', ''container_id'', ''vector_store_id'', ''item_id'']) (snd (to_maps r))))"

definition safeResponsesInputItem :: "raw \<Rightarrow> bool" where
  "safeResponsesInputItem r \<longleftrightarrow>
     (let item = usageObject r; kind = json_field item ''type''; k = string_or_empty kind in
      item \<noteq> None \<and> (kind = None \<or> to_string kind \<noteq> None) \<and>
      (if k = [] \<or> k = ''message'' then safeResponsesContent (json_field item ''content'')
       else if k \<in> set [''function_call'', ''custom_tool_call'', ''reasoning'', ''computer_call''] then True
       else if k = ''function_call_output'' \<or> k = ''custom_tool_call_output'' then safeResponsesContent (json_field item ''output'')
       else k = ''computer_call_output'' \<and> usageObject (json_field item ''output'') \<noteq> None \<and>
            none_present (usageObject (json_field item ''output'')) [''file_id'', ''container_id'']))"

definition safeResponsesTool :: "raw \<Rightarrow> bool" where
  "safeResponsesTool r \<longleftrightarrow>
     (let tool = usageObject r; kind = to_string (json_field tool ''type'');
          container = json_field tool ''container''; ob = usageObject container in
      tool \<noteq> None \<and>
      (if kind \<in> Some ` set [''function'', ''custom''] then True
       else if kind \<in> Some ` set [''web_search'', ''web_search_preview'', ''computer'', ''computer_use_preview'', ''image_generation'']
       then \<not> nativePresent (json_field (usageObject (json_field tool ''input_image_mask'')) ''file_id'') \<and>
            none_present tool [''file_ids'', ''vector_store_ids'', ''container_id'', ''connector_id'']
       else if kind = Some ''code_interpreter'' then
         (if to_string container \<noteq> None then to_string container = Some ''auto''
          else ob \<noteq> None \<and> none_present ob [''file_ids'', ''id''] \<and> to_string (json_field ob ''type'') = Some ''auto'')
       else kind = Some ''mcp'' \<and> none_present tool [''connector_id'', ''server_id''] \<and>
            nativePresent (json_field tool ''server_url'')))"

definition parseGatewayResponses :: "string \<Rightarrow> parsed_request" where
  "parseGatewayResponses body =
     with_model body (\<lambda>payload m.
       case flag (json_field payload ''stream'') of
         None \<Rightarrow> ((m, False), Inl InvalidRequest)
       | Some stream \<Rightarrow> ((m, stream),
           let background = json_field payload ''background''; store = json_field payload ''store'';
               input = json_field payload ''input''; tools = json_field payload ''tools'' in
           if background \<noteq> None \<and> background \<noteq> Some (JBool False) \<and> background \<noteq> Some JNull then Inl unsupportedResponsesState
           else if \<not> none_present payload [''previous_response_id'', ''conversation'', ''prompt'', ''multi_agent'', ''betas'']
           then Inl unsupportedResponsesState
           else if flag store = None then Inl InvalidRequest
           else if \<not> nativePresent input then Inl InvalidRequest
           else if to_string input = None \<and> \<not> is_array input then Inl InvalidRequest
           else if to_string input = None \<and> \<not> list_all safeResponsesInputItem (to_raws input) then Inl unsupportedResponsesState
           else if tools \<noteq> None \<and> \<not> is_array tools then Inl InvalidRequest
           else if tools \<noteq> None \<and> \<not> list_all safeResponsesTool (to_raws tools) then Inl unsupportedResponsesState
           else if nativePresent (json_field (usageObject (json_field payload ''prompt_cache_options'')) ''comparison_response_id'')
           then Inl unsupportedResponsesState
           else Inr payload))"

section \<open>Messages\<close>

record messages_headers =
  mh_Version :: string
  mh_Beta :: string

definition messages_version :: "string \<Rightarrow> bool" where
  "messages_version s \<longleftrightarrow>
     length s = 10 \<and> s ! 4 = CHR ''-'' \<and> s ! 7 = CHR ''-'' \<and>
     list_all (\<lambda>i. is_digit (s ! i)) [0, 1, 2, 3, 5, 6, 8, 9]"

definition messages_beta :: "string \<Rightarrow> bool" where
  "messages_beta s \<longleftrightarrow> s \<noteq> [] \<and> length s \<le> 128 \<and> list_all (\<lambda>c. is_alnum c \<or> c \<in> set ''_-'') s"

definition ValidateMessagesHeaders :: "messages_headers \<Rightarrow> service_error + unit" where
  "ValidateMessagesHeaders h =
     (if \<not> messages_version (mh_Version h) \<or> length (mh_Beta h) > 4096 \<or>
         list_ex (\<lambda>c. c = CHR 0x0D \<or> c = CHR 0x0A) (mh_Beta h)
      then Inl InvalidRequest
      else if mh_Beta h = [] then Inr ()
      else let parts = split_at (CHR '','') (mh_Beta h) in
        if length parts > 32 \<or> \<not> list_all (\<lambda>p. messages_beta (trim_space p)) parts then Inl InvalidRequest else Inr ())"

text \<open>Blocks of content, which may hold blocks themselves; the answers of client tools are opaque.\<close>

function safe_content :: "json \<Rightarrow> bool" where
  "safe_content v =
     (case v of
        JStr _ \<Rightarrow> True
      | JArr xs \<Rightarrow>
          list_all (\<lambda>x.
            case x of
              JObj ms \<Rightarrow>
                (let kind = to_string (json_field (Some ms) ''type'');
                     source = json_field (Some ms) ''source'';
                     citations = json_field (Some ms) ''citations'' in
                 (if kind \<in> Some ` set [''text'', ''thinking'', ''redacted_thinking'', ''tool_use''] then True
                  else if kind = Some ''tool_result'' then
                    (case json_field (Some ms) ''content'' of None \<Rightarrow> True | Some c \<Rightarrow> c = JNull \<or> safe_content c)
                  else if kind = Some ''image'' \<or> kind = Some ''document'' then
                    (case source of
                       Some (JObj ss) \<Rightarrow>
                         (let source_type = to_string (json_field (Some ss) ''type'') in
                          \<not> nativePresent (json_field (Some ss) ''file_id'') \<and>
                          (if source_type \<in> Some ` set [''base64'', ''url'', ''text''] then True
                           else source_type = Some ''content'' \<and>
                             (case json_field (Some ss) ''content'' of None \<Rightarrow> False | Some c \<Rightarrow> safe_content c)))
                     | _ \<Rightarrow> False)
                  else kind = Some ''search_result'' \<and>
                    (case json_field (Some ms) ''content'' of None \<Rightarrow> False | Some c \<Rightarrow> safe_content c)) \<and>
                 (\<not> nativePresent citations \<or>
                  (fst (to_maps citations) \<and>
                   list_all (\<lambda>c. \<not> nativePresent (json_field c ''file_id'')) (snd (to_maps citations)))))
            | _ \<Rightarrow> False) xs
      | _ \<Rightarrow> False)"
  by pat_completeness auto
termination
  by (relation "measure size") (auto dest!: json_field_size json_field_size[OF sym] json_element_size)

declare safe_content.simps [simp del]

definition safeMessagesContent :: "raw \<Rightarrow> bool" where
  "safeMessagesContent r \<longleftrightarrow> (case r of None \<Rightarrow> False | Some v \<Rightarrow> safe_content v)"

definition message_role :: "object \<Rightarrow> bool" where
  "message_role message \<longleftrightarrow> to_string (json_field message ''role'') \<in> Some ` set [''user'', ''assistant'']"

text \<open>The loop over the messages, which stops at the first that is refused.\<close>

fun check_messages :: "object list \<Rightarrow> service_error + unit" where
  "check_messages [] = Inr ()"
| "check_messages (message # rest) =
     (if \<not> message_role message then Inl InvalidRequest
      else if \<not> safeMessagesContent (json_field message ''content'') then Inl unsupportedMessagesResource
      else check_messages rest)"

definition parseGatewayMessages :: "string \<Rightarrow> parsed_request" where
  "parseGatewayMessages body =
     with_model body (\<lambda>payload m.
       case flag (json_field payload ''stream'') of
         None \<Rightarrow> ((m, False), Inl InvalidRequest)
       | Some stream \<Rightarrow> ((m, stream),
           let messages = to_maps (json_field payload ''messages''); system = json_field payload ''system'';
               tools = json_field payload ''tools''; servers = json_field payload ''mcp_servers'' in
           if usageCounter (json_field payload ''max_tokens'') = None then Inl InvalidRequest
           else if \<not> fst messages \<or> snd messages = [] then Inl InvalidRequest
           else bindE (check_messages (snd messages)) (\<lambda>_.
             if \<not> none_present payload [''container'', ''skills'', ''session_id'', ''conversation_id'']
             then Inl unsupportedMessagesResource
             else if nativePresent system \<and> \<not> safeMessagesContent system then Inl unsupportedMessagesResource
             else if nativePresent tools \<and> \<not> fst (to_maps tools) then Inl InvalidRequest
             else if nativePresent tools \<and>
                \<not> list_all (\<lambda>t. none_present t [''container_id'', ''file_id'', ''skill_id'', ''connector_id'', ''server_id''])
                    (snd (to_maps tools))
             then Inl unsupportedMessagesResource
             else if nativePresent servers \<and> \<not> fst (to_maps servers) then Inl InvalidRequest
             else if nativePresent servers \<and>
                \<not> list_all (\<lambda>sv. nativePresent (json_field sv ''url'') \<and> none_present sv [''id'', ''connector_id''])
                    (snd (to_maps servers))
             then Inl unsupportedMessagesResource
             else Inr payload)))"

section \<open>Gemini\<close>

definition GeminiAction :: "string \<Rightarrow> service_error + string \<times> bool" where
  "GeminiAction segment =
     (case cut_at (CHR '':'') segment of (m, action, found) \<Rightarrow>
        if \<not> found \<or> \<not> geminiModelSegment m \<or> (action \<noteq> ''generateContent'' \<and> action \<noteq> ''streamGenerateContent'')
        then Inl (GatewayError 404 ''model_not_found'')
        else Inr (m, action = ''streamGenerateContent''))"

definition gemini_part :: "object \<Rightarrow> bool" where
  "gemini_part part \<longleftrightarrow>
     none_present part [''fileData'', ''file_data'', ''fileUri'', ''file_uri''] \<and>
     \<not> list_ex (\<lambda>(a, b). nativeAliasCollision part a b) [(''inlineData'', ''inline_data''), (''functionCall'', ''function_call''),
         (''functionResponse'', ''function_response''), (''thoughtSignature'', ''thought_signature'')]"

text \<open>The multimedia parts of a function response are contents again, to a depth of eight.\<close>

definition response_parts :: "object \<Rightarrow> raw" where
  "response_parts part = json_field (usageObject (geminiField part ''functionResponse'' ''function_response'')) ''parts''"

function safeGeminiContentDepth :: "raw \<Rightarrow> nat \<Rightarrow> bool" where
  "safeGeminiContentDepth r depth =
     (if depth \<ge> 8 then False
      else let parts = to_maps (json_field (usageObject r) ''parts'') in
        usageObject r \<noteq> None \<and> fst parts \<and> snd parts \<noteq> [] \<and>
        list_all (\<lambda>part. gemini_part part \<and>
          (case response_parts part of
             None \<Rightarrow> True
           | Some v \<Rightarrow> v = JNull \<or> safeGeminiContentDepth (Some (JObj [(''parts'', v)])) (depth + 1))) (snd parts))"
  by pat_completeness auto
termination
  by (relation "measure (\<lambda>(r, depth). 8 - depth)") auto

declare safeGeminiContentDepth.simps [simp del]

definition safeGeminiContent :: "raw \<Rightarrow> bool" where
  "safeGeminiContent r = safeGeminiContentDepth r 0"

definition candidate_count :: "object \<Rightarrow> int option" where
  "candidate_count payload =
     (let config = usageObject (geminiField payload ''generationConfig'' ''generation_config'');
          r = geminiField config ''candidateCount'' ''candidate_count'' in
      if nativeAliasCollision config ''candidateCount'' ''candidate_count'' then None
      else if r = None then Some 1
      else case usageCounter r of None \<Rightarrow> None | Some n \<Rightarrow> if n < 1 \<or> n > 8 then None else Some n)"

definition GeminiCandidateCount :: "string \<Rightarrow> int option" where
  "GeminiCandidateCount body = candidate_count (usageObject (parse_json body))"

definition parseGatewayGemini :: "string \<Rightarrow> string \<Rightarrow> bool \<Rightarrow> parsed_request" where
  "parseGatewayGemini body m stream =
     ((m, stream),
      let payload = usageObject (parse_json body);
          contents = json_field payload ''contents'';
          system = geminiField payload ''systemInstruction'' ''system_instruction'';
          tools = json_field payload ''tools'' in
      if payload = None \<or> \<not> geminiModelSegment m then Inl InvalidRequest
      else if list_ex (\<lambda>(a, b). nativeAliasCollision payload a b) [(''systemInstruction'', ''system_instruction''),
          (''generationConfig'', ''generation_config''), (''cachedContent'', ''cached_content''), (''toolConfig'', ''tool_config''),
          (''serviceTier'', ''service_tier'')]
      then Inl InvalidRequest
      else if \<not> none_present payload [''cachedContent'', ''cached_content'', ''model'', ''stream'', ''session'', ''sessionId'', ''session_id'']
      then Inl InvalidRequest
      else if \<not> is_array contents \<or> elements_of contents = [] \<or> \<not> list_all safeGeminiContent (to_raws contents)
      then Inl InvalidRequest
      else if nativePresent system \<and> \<not> safeGeminiContent system then Inl InvalidRequest
      else if nativePresent tools \<and>
          (\<not> fst (to_maps tools) \<or>
           \<not> list_all (\<lambda>t. none_present t [''retrieval'', ''fileSearch'', ''file_search'', ''enterpriseWebSearch'',
                 ''enterprise_web_search'', ''computerUse'', ''computer_use'']) (snd (to_maps tools)))
      then Inl InvalidRequest
      else if GeminiCandidateCount body = None then Inl InvalidRequest
      else Inr payload)"

end
