(* ===== verification/Native_Facts.thy ===== *)
theory Native_Facts
  imports Native_Parsers
begin

text \<open>
  Facts on the native protocols: the reader of JSON texts has enough fuel, the usage the four parsers
  report is sound (known counters in range, dimensions that a call fact may carry), the stream of a
  Messages answer reports what one answer with the latest fields would, and the content of an accepted
  Messages request refers to no stored file at any depth.
\<close>

section \<open>The reader\<close>

lemma skip_space_length: "length (skip_space s) \<le> length s"
  by (simp add: skip_space_def length_dropWhile_le)

lemma strip_text_length: "strip_text w s = Some r \<Longrightarrow> length r \<le> length s"
  by (auto simp: strip_text_def split: if_splits)

lemma strip_text_shorter: "strip_text w s = Some r \<Longrightarrow> w \<noteq> [] \<Longrightarrow> length r < length s"
  by (cases s; cases w) (auto simp: strip_text_def split: if_splits)

lemma json_string_length: "json_string s = Some (t, r) \<Longrightarrow> length r < length s"
proof (induction s arbitrary: t r rule: json_string.induct)
  case (1 s)
  show ?case
  proof (cases s)
    case Nil
    then show ?thesis using 1(5) by (simp add: json_string.simps)
  next
    case (Cons c s1)
    have unfolded: "(if c = CHR 0x22 then Some ([], s1)
       else if c = CHR 0x5C then
         (case s1 of
            [] \<Rightarrow> None
          | e # s2 \<Rightarrow>
              if e = CHR ''u'' then
                (case hex4 s2 of
                   None \<Rightarrow> None
                 | Some (r, s3) \<Rightarrow>
                     let out = unicode_escape r s3 in map_option (\<lambda>(u, rest). (fst out @ u, rest)) (json_string (snd out)))
              else (case simple_escape e of
                  None \<Rightarrow> None
                | Some x \<Rightarrow> map_option (\<lambda>(u, rest). (x # u, rest)) (json_string s2)))
       else if (of_char c :: nat) < 32 then None
       else if rune_length s = 0 then map_option (\<lambda>(u, rest). (replacement @ u, rest)) (json_string s1)
       else map_option (\<lambda>(u, rest). (take (rune_length s) s @ u, rest)) (json_string (drop (rune_length s) s))) = Some (t, r)"
      using 1(5) by (subst (asm) json_string.simps) (simp only: Cons list.case)
    show ?thesis
    proof (cases "c = CHR 0x22")
      case True
      then show ?thesis using unfolded Cons by simp
    next
      case q: False
      show ?thesis
      proof (cases "c = CHR 0x5C")
        case True
        show ?thesis
        proof (cases s1)
          case Nil
          then show ?thesis using unfolded q True by simp
        next
          case s1: (Cons e s2)
          show ?thesis
          proof (cases "e = CHR ''u''")
            case u: True
            then obtain x s3 where h: "hex4 s2 = Some (x, s3)" using unfolded q True s1 by (auto split: option.splits)
            then obtain v where v: "json_string (snd (unicode_escape x s3)) = Some (v, r)"
              using unfolded q True s1 u by (auto simp: Let_def)
            have "length r < length (snd (unicode_escape x s3))"
              by (rule 1(1)[OF Cons q True s1 u h refl refl v])
            then show ?thesis
              using hex4_length[OF h] unicode_escape_length[of x s3 "fst (unicode_escape x s3)" "snd (unicode_escape x s3)"]
                Cons s1 by simp
          next
            case u: False
            then obtain x v where x: "simple_escape e = Some x" "json_string s2 = Some (v, r)"
              using unfolded q True s1 by (auto split: option.splits)
            have "length r < length s2" by (rule 1(2)[OF Cons q True s1 u x])
            then show ?thesis using Cons s1 by simp
          qed
        qed
      next
        case b: False
        have ctl: "\<not> (of_char c :: nat) < 32" using unfolded q b by auto
        show ?thesis
        proof (cases "rune_length s = 0")
          case True
          then obtain v where v: "json_string s1 = Some (v, r)" using unfolded q b ctl Cons by auto
          have "length r < length s1" by (rule 1(3)[OF Cons q b ctl True v])
          then show ?thesis using Cons by simp
        next
          case False
          then obtain v where v: "json_string (drop (rune_length s) s) = Some (v, r)" using unfolded q b ctl Cons by auto
          have "length r < length (drop (rune_length s) s)" by (rule 1(4)[OF Cons q b ctl False v])
          then show ?thesis by simp
        qed
      qed
    qed
  qed
qed

lemma digit_run_length: "digit_run s = Some (t, r) \<Longrightarrow> length r < length s"
  by (cases s) (auto simp: digit_run_def length_dropWhile_le le_imp_less_Suc split: if_splits)

lemma json_integer_length: "json_integer s = Some (t, r) \<Longrightarrow> length r < length s"
  by (auto simp: json_integer_def split: list.splits if_splits dest: digit_run_length)

lemma json_fraction_length: "json_fraction s = Some (t, r) \<Longrightarrow> length r \<le> length s"
  by (auto simp: json_fraction_def split: list.splits if_splits dest: digit_run_length)

lemma json_exponent_length: "json_exponent s = Some (t, r) \<Longrightarrow> length r \<le> length s"
  by (auto simp: json_exponent_def split: list.splits if_splits dest!: digit_run_length)

lemma json_number_length: "json_number s = Some (t, r) \<Longrightarrow> length r < length s"
  by (auto simp: json_number_def Let_def split: list.splits if_splits option.splits prod.splits
      dest!: json_integer_length json_fraction_length json_exponent_length)

text \<open>Every reader consumes a character.\<close>

lemma json_consumes_all:
  "(\<forall>d s v r. json_value n d s = Some (v, r) \<longrightarrow> length r < length s) \<and>
   (\<forall>d s vs r. json_elements n d s = Some (vs, r) \<longrightarrow> length r < length s) \<and>
   (\<forall>d s ms r. json_members n d s = Some (ms, r) \<longrightarrow> length r < length s)"
proof (induction n)
  case 0
  show ?case by simp
next
  case (Suc n)
  then have V: "\<And>d s v r. json_value n d s = Some (v, r) \<Longrightarrow> length r < length s"
    and E: "\<And>d s vs r. json_elements n d s = Some (vs, r) \<Longrightarrow> length r < length s"
    and M: "\<And>d s ms r. json_members n d s = Some (ms, r) \<Longrightarrow> length r < length s" by blast+
  have "length r < length s" if a: "json_value (Suc n) d s = Some (v, r)" for d s v r
  proof -
    obtain c s1 where c: "skip_space s = c # s1" using a by (cases "skip_space s") auto
    then have "length s1 < length s" using skip_space_length[of s] by simp
    then show ?thesis
      using a c skip_space_length[of s1] json_number_length[of "c # s1"]
      by (auto split: if_splits option.splits dest!: E M json_string_length strip_text_length)
  qed
  moreover have "length r < length s" if a: "json_elements (Suc n) d s = Some (vs, r)" for d s vs r
  proof -
    obtain x s1 where x: "json_value n d s = Some (x, s1)" using a by (cases "json_value n d s") auto
    show ?thesis using a x V[OF x] skip_space_length[of s1]
      by (auto split: option.splits dest!: E strip_text_length)
  qed
  moreover have "length r < length s" if a: "json_members (Suc n) d s = Some (ms, r)" for d s ms r
  proof -
    obtain s1 where s1: "strip_text [CHR 0x22] (skip_space s) = Some s1" using a by (cases "strip_text [CHR 0x22] (skip_space s)") auto
    obtain name s2 where s2: "json_string s1 = Some (name, s2)" using a s1 by (cases "json_string s1") auto
    obtain s3 where s3: "strip_text '':'' (skip_space s2) = Some s3" using a s1 s2 by (cases "strip_text '':'' (skip_space s2)") auto
    obtain x s4 where s4: "json_value n d s3 = Some (x, s4)" using a s1 s2 s3 by (cases "json_value n d s3") auto
    have l: "length s4 < length s"
      using strip_text_length[OF s1] skip_space_length[of s] json_string_length[OF s2] strip_text_length[OF s3]
        skip_space_length[of s2] V[OF s4] by simp
    show ?thesis using a s1 s2 s3 s4 l skip_space_length[of s4]
      by (auto split: option.splits dest!: M strip_text_length)
  qed
  ultimately show ?case by blast
qed

lemmas json_consumes = json_consumes_all[THEN conjunct1, rule_format]

lemma json_fuel_all:
  "(\<forall>d s. 2 * length s + 1 \<le> n \<longrightarrow> json_value (Suc n) d s = json_value n d s) \<and>
   (\<forall>d s. 2 * length s + 2 \<le> n \<longrightarrow> json_elements (Suc n) d s = json_elements n d s) \<and>
   (\<forall>d s. 2 * length s + 2 \<le> n \<longrightarrow> json_members (Suc n) d s = json_members n d s)"
proof (induction n)
  case 0
  show ?case by simp
next
  case (Suc n)
  then have V: "\<And>d s. 2 * length s + 1 \<le> n \<Longrightarrow> json_value (Suc n) d s = json_value n d s"
    and E: "\<And>d s. 2 * length s + 2 \<le> n \<Longrightarrow> json_elements (Suc n) d s = json_elements n d s"
    and M: "\<And>d s. 2 * length s + 2 \<le> n \<Longrightarrow> json_members (Suc n) d s = json_members n d s" by blast+
  have "json_value (Suc (Suc n)) d s = json_value (Suc n) d s" if a: "2 * length s + 1 \<le> Suc n" for d s
  proof (cases "skip_space s")
    case Nil
    then show ?thesis by simp
  next
    case (Cons c s1)
    then have "length s1 < length s" using skip_space_length[of s] by simp
    then have f: "2 * length s1 + 2 \<le> n" using a by simp
    show ?thesis by (subst (1 2) json_value.simps) (simp only: Cons list.case E[OF f] M[OF f])
  qed
  moreover have "json_elements (Suc (Suc n)) d s = json_elements (Suc n) d s" if a: "2 * length s + 2 \<le> Suc n" for d s
  proof -
    have f: "2 * length s + 1 \<le> n" using a by simp
    have "json_elements (Suc n) d s2 = json_elements n d s2"
      if "json_value n d s = Some (x, s1)" "strip_text '','' (skip_space s1) = Some s2" for x s1 s2
      using E[of s2] json_consumes[OF that(1)] strip_text_length[OF that(2)] skip_space_length[of s1] a by simp
    then show ?thesis
      by (subst (1 2) json_elements.simps) (auto simp only: V[OF f] split: option.split prod.split)
  qed
  moreover have "json_members (Suc (Suc n)) d s = json_members (Suc n) d s" if a: "2 * length s + 2 \<le> Suc n" for d s
  proof -
    have l: "length s3 < length s" if "strip_text [CHR 0x22] (skip_space s) = Some s1" "json_string s1 = Some (name, s2)"
      "strip_text '':'' (skip_space s2) = Some s3" for s1 name s2 s3
      using strip_text_length[OF that(1)] skip_space_length[of s] json_string_length[OF that(2)] strip_text_length[OF that(3)]
        skip_space_length[of s2] by simp
    have v: "json_value (Suc n) d s3 = json_value n d s3" if "length s3 < length s" for s3
      using V[of s3] that a by simp
    have m: "json_members (Suc n) d s5 = json_members n d s5"
      if "length s3 < length s" "json_value n d s3 = Some (x, s4)" "strip_text '','' (skip_space s4) = Some s5" for s3 x s4 s5
      using M[of s5] json_consumes[OF that(2)] strip_text_length[OF that(3)] skip_space_length[of s4] that(1) a by simp
    show ?thesis
    proof (cases "strip_text [CHR 0x22] (skip_space s)")
      case s1: (Some s1)
      show ?thesis
      proof (cases "json_string s1")
        case (Some y)
        then obtain name s2 where s2: "json_string s1 = Some (name, s2)" by (cases y) auto
        show ?thesis
        proof (cases "strip_text '':'' (skip_space s2)")
          case s3: (Some s3)
          note w = l[OF s1 s2 s3]
          show ?thesis
            by (subst (1 2) json_members.simps)
              (auto simp only: s1 s2 s3 option.case prod.case v[OF w] split: option.split prod.split; metis m[OF w])
        qed (simp add: s1 s2)
      qed (simp add: s1)
    qed simp
  qed
  ultimately show ?case by blast
qed

lemmas json_fuel_step = json_fuel_all[THEN conjunct1, rule_format]

lemma json_fuel: "2 * length s + 1 \<le> n \<Longrightarrow> json_value (n + k) d s = json_value n d s"
proof (induction k)
  case (Suc k)
  then have "2 * length s + 1 \<le> n + k" by simp
  from json_fuel_step[OF this] show ?case using Suc by (simp only: add_Suc_right)
qed simp

section \<open>Dimensions\<close>

definition known_dimension :: "string \<Rightarrow> bool" where
  "known_dimension d \<longleftrightarrow> d = inputMediaPricingDimension \<or> d \<in> set pricing_dimensions"

definition dims_ok :: "string list \<Rightarrow> bool" where
  "dims_ok ds \<longleftrightarrow> distinct ds \<and> list_all known_dimension ds"

lemma known_dimensions [simp]:
  "known_dimension inputMediaPricingDimension" "known_dimension ''request_non_text''" "known_dimension ''response_non_text''"
  "known_dimension ''request_service_tier''" "known_dimension ''response_service_tier''" "known_dimension ''cache_retention''"
  "known_dimension ''external_tool''" "known_dimension ''request_condition''"
  by (simp_all add: known_dimension_def pricing_dimensions_def)

lemma dims_ok_Nil [simp, intro!]: "dims_ok []"
  by (simp add: dims_ok_def)

lemma appendDimension_set [simp]: "set (appendDimension ds d) = insert d (set ds)"
  by (auto simp: appendDimension_def)

lemma appendDimension_ok: "dims_ok ds \<Longrightarrow> known_dimension d \<Longrightarrow> dims_ok (appendDimension ds d)"
  by (simp add: dims_ok_def appendDimension_def)

lemma add_when_ok [simp]: "dims_ok ds \<Longrightarrow> known_dimension d \<Longrightarrow> dims_ok (add_when b d ds)"
  by (simp add: add_when_def appendDimension_ok)

lemma append_all_ok: "dims_ok ds \<Longrightarrow> list_all known_dimension xs \<Longrightarrow> dims_ok (fold (\<lambda>d ws. appendDimension ws d) xs ds)"
  by (induction xs arbitrary: ds) (simp_all add: appendDimension_ok)

lemma add_each_ok [simp]:
  "dims_ok ds \<Longrightarrow> (\<And>x. x \<in> set xs \<Longrightarrow> list_all known_dimension (f x)) \<Longrightarrow> dims_ok (add_each f xs ds)"
  unfolding add_each_def by (induction xs arbitrary: ds) (simp_all add: append_all_ok)

lemma append_all_set: "set (fold (\<lambda>d ws. appendDimension ws d) xs ds) = set ds \<union> set xs"
  by (induction xs arbitrary: ds) auto

lemma add_each_set: "set (add_each f xs ds) = set ds \<union> (\<Union>x \<in> set xs. set (f x))"
  unfolding add_each_def by (induction xs arbitrary: ds) (auto simp: append_all_set)

lemma list_all_concat_map: "list_all P (concat (map f xs)) \<longleftrightarrow> list_all (\<lambda>x. list_all P (f x)) xs"
  by (induction xs) auto

lemma append_all_distinct: "distinct ds \<Longrightarrow> distinct (fold (\<lambda>d ws. appendDimension ws d) xs ds)"
  by (induction xs arbitrary: ds) (simp_all add: appendDimension_def)

lemma add_each_distinct: "distinct ds \<Longrightarrow> distinct (add_each f xs ds)"
  unfolding add_each_def by (induction xs arbitrary: ds) (simp_all add: append_all_distinct)

section \<open>Sound usage\<close>

definition counter_ok :: "int option \<Rightarrow> bool" where
  "counter_ok c \<longleftrightarrow> (case c of None \<Rightarrow> True | Some n \<Rightarrow> 0 \<le> n \<and> n \<le> max_int64)"

definition usage_ok :: "gateway_usage \<Rightarrow> bool" where
  "usage_ok u \<longleftrightarrow> counter_ok (gu_Input u) \<and> counter_ok (gu_Output u) \<and> counter_ok (gu_CacheRead u) \<and>
     counter_ok (gu_CacheWrite u) \<and> dims_ok (gu_UnsupportedDimensions u) \<and>
     (gu_Unsupported u \<longleftrightarrow> gu_UnsupportedDimensions u \<noteq> [])"

lemma counter_ok_simps [simp]: "counter_ok None" "counter_ok (Some 0)"
  by (simp_all add: counter_ok_def max_int64_def)

lemma usageCounter_ok [simp]: "counter_ok (usageCounter r)"
  by (auto simp: usageCounter_def to_int64_def integer_text_def counter_ok_def max_int64_def
      split: option.splits json.splits if_splits)

lemma usageCounter_number: "usageCounter r = Some n \<Longrightarrow> \<exists>t. r = Some (JNum t) \<and> parse_int t = Some n \<and> 0 \<le> n \<and> n \<le> max_int64"
  by (auto simp: usageCounter_def to_int64_def integer_text_def split: option.splits json.splits if_splits)

lemma no_usage_ok [simp]: "usage_ok no_usage"
  by (simp add: usage_ok_def no_usage_def)

lemma set_dimensions_ok: "usage_ok u \<Longrightarrow> dims_ok ds \<Longrightarrow> usage_ok (set_dimensions ds u)"
  by (simp add: usage_ok_def set_dimensions_def)

lemma chat_dimensions_ok [simp]: "dims_ok ds \<Longrightarrow> dims_ok (chat_dimensions p c ds)"
  by (simp add: chat_dimensions_def)

lemma ParseOpenAIUsage_ok: "usage_ok (ParseOpenAIUsage t st)"
  unfolding ParseOpenAIUsage_def Let_def
  by (auto simp: usage_ok_def set_dimensions_def no_usage_def split: option.split)

lemma responses_output_ok [simp]: "dims_ok ds \<Longrightarrow> dims_ok (responses_output r ds)"
  by (simp add: responses_output_def responses_item_def Let_def)

lemma ParseResponsesUsage_ok: "usage_ok (ParseResponsesUsage t)"
  unfolding ParseResponsesUsage_def Let_def
  by (auto simp: usage_ok_def set_dimensions_def no_usage_def split: option.split)

lemma messages_input_ok: "counter_ok a \<Longrightarrow> counter_ok b \<Longrightarrow> counter_ok c \<Longrightarrow> counter_ok (messages_input a b c)"
  by (auto simp: messages_input_def counter_ok_def split: option.splits)

lemma messages_dimensions_ok [simp]: "dims_ok (messages_dimensions ob w)"
  by (simp add: messages_dimensions_def Let_def)

lemma messagesUsage_ok: "usage_ok (messagesUsage r w)"
  by (auto simp: messagesUsage_def usage_ok_def set_dimensions_def no_usage_def Let_def messages_input_ok split: option.split)

lemma ParseMessagesUsage_ok: "usage_ok (ParseMessagesUsage t w)"
  unfolding ParseMessagesUsage_def Let_def
  using messagesUsage_ok[of "json_field (usageObject (parse_json t)) ''usage''" w]
  by (auto simp: usage_ok_def set_dimensions_def)

lemma geminiContentDimensions_known [simp]: "list_all known_dimension (geminiContentDimensions r)"
proof -
  have "dims_ok (geminiContentDimensions r)"
    by (auto simp: geminiContentDimensions_def Let_def intro!: add_each_ok) (simp add: dims_ok_def)
  then show ?thesis by (simp add: dims_ok_def)
qed

lemma gemini_candidate_known [simp]: "list_all known_dimension (gemini_candidate c)"
  by (simp add: gemini_candidate_def)

lemma modality_dimension_known [simp]: "list_all known_dimension (modality_dimension b d)"
  by (simp add: modality_dimension_def split: option.split)

lemma gemini_detail_known [simp]: "list_all known_dimension (gemini_detail ob entry)"
  by (simp add: gemini_detail_def Let_def list_all_concat_map list.pred_True split: prod.split)

lemma gemini_dimensions_ok [simp]: "dims_ok (gemini_dimensions e ob)"
  by (simp add: gemini_dimensions_def Let_def)

lemma sum_int64_ok: "counter_ok a \<Longrightarrow> counter_ok b \<Longrightarrow> counter_ok (sum_int64 a b)"
  by (auto simp: sum_int64_def counter_ok_def split: option.splits)

lemma ParseGeminiUsage_ok: "usage_ok (ParseGeminiUsage t w)"
  unfolding ParseGeminiUsage_def Let_def
  by (auto simp: usage_ok_def set_dimensions_def no_usage_def sum_int64_ok)

lemma Usage_ok: "usage_ok (Usage terminal st)"
  by (simp add: Usage_def messagesUsage_ok)

text \<open>The resolved dimensions are those a call fact may carry.\<close>

lemma WithExpectedInputMedia_dimensions:
  assumes "usage_ok u"
  shows "distinct (gu_UnsupportedDimensions (WithExpectedInputMedia u e))"
    "set (gu_UnsupportedDimensions (WithExpectedInputMedia u e)) \<subseteq> set pricing_dimensions"
    "usage_ok (WithExpectedInputMedia u e)"
proof -
  let ?ds = "gu_UnsupportedDimensions u"
  have d: "distinct ?ds" "\<And>x. x \<in> set ?ds \<Longrightarrow> known_dimension x"
    using assms by (auto simp: usage_ok_def dims_ok_def list_all_iff)
  have r: "''response_non_text'' \<in> set pricing_dimensions" by (simp add: pricing_dimensions_def)
  define f where "f = (\<lambda>d. if d = inputMediaPricingDimension then (if e then [] else [''response_non_text'']) else [d])"
  define kept where "kept = add_each f ?ds []"
  have w: "WithExpectedInputMedia u e =
      (if inputMediaPricingDimension \<notin> set ?ds then u else u\<lparr>gu_UnsupportedDimensions := kept, gu_Unsupported := (kept \<noteq> [])\<rparr>)"
    by (simp add: WithExpectedInputMedia_def Let_def kept_def f_def)
  have k: "distinct kept" by (simp add: kept_def add_each_distinct)
  have ks: "set kept \<subseteq> set pricing_dimensions"
  proof
    fix x assume "x \<in> set kept"
    then obtain y where y: "y \<in> set ?ds" "x \<in> set (f y)" by (auto simp: kept_def add_each_set)
    then show "x \<in> set pricing_dimensions" using d(2)[OF y(1)] r by (auto simp: f_def known_dimension_def split: if_splits)
  qed
  have s: "set ?ds \<subseteq> set pricing_dimensions" if "inputMediaPricingDimension \<notin> set ?ds"
    using d(2) that unfolding known_dimension_def by (metis subsetI)
  show "distinct (gu_UnsupportedDimensions (WithExpectedInputMedia u e))" using d(1) k by (simp add: w)
  show "set (gu_UnsupportedDimensions (WithExpectedInputMedia u e)) \<subseteq> set pricing_dimensions" using s ks by (simp add: w)
  have "dims_ok kept" using k ks by (auto simp: dims_ok_def list_all_iff known_dimension_def)
  then show "usage_ok (WithExpectedInputMedia u e)" using assms by (simp add: w usage_ok_def)
qed

section \<open>Streams\<close>

text \<open>A field after an event: the event's own, else null for the output count of a final delta without
  one, else the field before; an event that is not an object clears all.\<close>

definition field_after :: "string \<Rightarrow> raw \<Rightarrow> raw \<times> bool \<Rightarrow> raw" where
  "field_after name old event =
     (case usageObject (fst event) of
        None \<Rightarrow> None
      | Some ms \<Rightarrow>
          (case json_field (Some ms) name of
             Some v \<Rightarrow> Some v
           | None \<Rightarrow> if snd event \<and> name = ''output_tokens'' then Some JNull else old))"

definition latest_field :: "raw \<Rightarrow> (raw \<times> bool) list \<Rightarrow> string \<Rightarrow> raw" where
  "latest_field r0 events name = foldl (field_after name) (json_field (usageObject r0) name) events"

text \<open>The state after a start and deltas that are all accepted.\<close>

fun accept_deltas :: "(raw \<times> bool) list \<Rightarrow> stream_usage \<Rightarrow> stream_usage option" where
  "accept_deltas [] st = Some st"
| "accept_deltas ((r, final) # events) st =
     (case Delta r final st of (ok, st1) \<Rightarrow> if ok then accept_deltas events st1 else None)"

lemma json_field_set_members:
  "json_field (set_members ms (Some old)) name =
     (case json_field (Some ms) name of Some v \<Rightarrow> Some v | None \<Rightarrow> json_field (Some old) name)"
  by (simp add: set_members_def json_field_def map_add_def split: option.split)

lemma Delta_accepted:
  assumes "Delta r final st = (True, st1)" "su_raw st = Some old"
  shows "su_started st" "\<not> su_finalDelta st" "su_started st1" "su_finalDelta st1 = final"
    "\<exists>new. su_raw st1 = Some new \<and> (\<forall>name. json_field (Some new) name = field_after name (json_field (Some old) name) (r, final))"
proof -
  have g: "su_started st \<and> \<not> su_finalDelta st" using assms(1) by (auto simp: Delta_def split: if_splits)
  then show "su_started st" "\<not> su_finalDelta st" by simp_all
  have "su_started st1 \<and> su_finalDelta st1 = final \<and> (\<exists>new. su_raw st1 = Some new \<and>
      (\<forall>name. json_field (Some new) name = field_after name (json_field (Some old) name) (r, final)))"
  proof (cases "usageObject r")
    case None
    then have "st1 = st\<lparr>su_raw := Some [], su_finalDelta := final\<rparr>" using assms(1) g by (simp add: Delta_def)
    then show ?thesis using None g by (simp add: field_after_def json_field_def)
  next
    case (Some ms)
    show ?thesis
    proof (cases "json_field (Some ms) ''output_tokens''")
      case None
      let ?new = "(if final then [(''output_tokens'', JNull)] else []) @ ms"
      have st1: "st1 = st\<lparr>su_raw := set_members ?new (su_raw st), su_finalDelta := final\<rparr>"
        using assms(1) g Some None by (simp add: Delta_def)
      have "json_field (Some ?new) name = (case json_field (Some ms) name of Some v \<Rightarrow> Some v
          | None \<Rightarrow> if final \<and> name = ''output_tokens'' then Some JNull else None)" for name
        by (simp add: json_field_def map_add_def split: option.split)
      then have "json_field (set_members ?new (Some old)) name = field_after name (json_field (Some old) name) (r, final)" for name
        by (auto simp: json_field_set_members field_after_def Some split: option.split)
      moreover obtain new where "set_members ?new (Some old) = Some new" by (simp add: set_members_def)
      ultimately show ?thesis using st1 assms(2) g by auto
    next
      case (Some x)
      then have "st1 = st\<lparr>su_previousOutput := usageCounter (Some x), su_raw := set_members ms (su_raw st), su_finalDelta := final\<rparr>"
        using assms(1) g \<open>usageObject r = Some ms\<close> by (auto simp: Delta_def Let_def split: if_splits)
      moreover have "json_field (set_members ms (Some old)) name = field_after name (json_field (Some old) name) (r, final)" for name
        using Some by (auto simp: json_field_set_members field_after_def \<open>usageObject r = Some ms\<close> split: option.split)
      moreover obtain new where "set_members ms (Some old) = Some new" by (simp add: set_members_def)
      ultimately show ?thesis using assms(2) g by auto
    qed
  qed
  then show "su_started st1" "su_finalDelta st1 = final"
    "\<exists>new. su_raw st1 = Some new \<and> (\<forall>name. json_field (Some new) name = field_after name (json_field (Some old) name) (r, final))"
    by simp_all
qed

lemma accept_deltas_fields:
  assumes "accept_deltas events st = Some st1" "su_raw st = Some old" "su_started st"
  shows "su_started st1 \<and> su_finalDelta st1 = (if events = [] then su_finalDelta st else snd (last events)) \<and>
    list_all (\<lambda>e. \<not> snd e) (butlast events) \<and> (events \<noteq> [] \<longrightarrow> \<not> su_finalDelta st) \<and>
    (\<exists>new. su_raw st1 = Some new \<and> (\<forall>name. json_field (Some new) name = foldl (field_after name) (json_field (Some old) name) events))"
  using assms
proof (induction events arbitrary: st old)
  case Nil
  then show ?case by simp
next
  case (Cons e events)
  obtain r final where e: "e = (r, final)" by fastforce
  obtain st2 where d: "Delta r final st = (True, st2)" and rest: "accept_deltas events st2 = Some st1"
    using Cons.prems(1) by (auto simp: e split: prod.splits if_splits)
  note D = Delta_accepted[OF d Cons.prems(2)]
  obtain new where new: "su_raw st2 = Some new"
    "\<And>name. json_field (Some new) name = field_after name (json_field (Some old) name) (r, final)" using D(5) by blast
  note IH = Cons.IH[OF rest new(1) D(3)]
  have "events \<noteq> [] \<longrightarrow> \<not> final" using IH D(4) by simp
  moreover have "\<exists>n. su_raw st1 = Some n \<and> (\<forall>name. json_field (Some n) name = foldl (field_after name) (json_field (Some old) name) (e # events))"
    using IH new(2) by (simp add: e)
  moreover have "su_started st1" "list_all (\<lambda>e. \<not> snd e) (butlast events)" using IH by simp_all
  moreover have "su_finalDelta st1 = snd (last (e # events))" using IH D(4) by (simp add: e)
  ultimately show ?case using D(2) by (simp add: e)
qed

text \<open>The counts of the output, of the events that give one.\<close>

definition output_count :: "raw \<Rightarrow> int option list" where
  "output_count r = (case json_field (usageObject r) ''output_tokens'' of None \<Rightarrow> [] | Some x \<Rightarrow> [usageCounter (Some x)])"

definition outputs :: "(raw \<times> bool) list \<Rightarrow> int option list" where
  "outputs events = concat (map (\<lambda>e. output_count (fst e)) events)"

lemma outputs_simps [simp]: "outputs [] = []" "outputs (e # events) = output_count (fst e) @ outputs events"
  by (simp_all add: outputs_def)

lemma Delta_output:
  assumes "Delta r final st = (True, st1)"
  shows "output_count r = [] \<and> su_previousOutput st1 = su_previousOutput st \<or>
    (\<exists>c. output_count r = [c] \<and> su_previousOutput st1 = c \<and>
       (\<forall>n p. c = Some n \<longrightarrow> su_previousOutput st = Some p \<longrightarrow> p \<le> n))"
  using assms by (auto simp: Delta_def output_count_def Let_def split: if_splits option.splits)

lemma accept_deltas_sorted:
  assumes "accept_deltas events st = Some st1" "list_all (\<lambda>c. c \<noteq> None) (outputs events)"
  shows "sorted (map the ((case su_previousOutput st of None \<Rightarrow> [] | Some p \<Rightarrow> [Some p]) @ outputs events))"
  using assms
proof (induction events arbitrary: st)
  case Nil
  then show ?case by (simp split: option.split)
next
  case (Cons e events)
  obtain r final where e: "e = (r, final)" by fastforce
  obtain st2 where d: "Delta r final st = (True, st2)" and rest: "accept_deltas events st2 = Some st1"
    using Cons.prems(1) by (auto simp: e split: prod.splits if_splits)
  have k: "list_all (\<lambda>c. c \<noteq> None) (outputs events)"
    using Cons.prems(2) by simp
  note IH = Cons.IH[OF rest k]
  from Delta_output[OF d] show ?case
  proof (elim disjE exE conjE)
    assume "output_count r = []" "su_previousOutput st2 = su_previousOutput st"
    then show ?thesis using IH by (simp add: e)
  next
    fix c
    assume c: "output_count r = [c]" "su_previousOutput st2 = c"
      "\<forall>n p. c = Some n \<longrightarrow> su_previousOutput st = Some p \<longrightarrow> p \<le> n"
    then obtain n where n: "c = Some n" using Cons.prems(2) by (auto simp: e)
    have s: "sorted (n # map the (outputs events))" using IH c(2) n by simp
    show ?thesis using s c n by (cases "su_previousOutput st") (auto simp: e)
  qed
qed

text \<open>The usage of an object depends on its fields only.\<close>

lemma messagesUsage_fields:
  assumes "\<And>name. json_field (Some ms) name = json_field (Some ms') name"
  shows "messagesUsage (Some (JObj ms)) w = messagesUsage (Some (JObj ms')) w"
proof -
  have e: "json_field (Some ms) = json_field (Some ms')" using assms by (rule ext)
  have d: "messages_dimensions (Some ms) x = messages_dimensions (Some ms') x" for x
    unfolding messages_dimensions_def e by (rule refl)
  show ?thesis unfolding messagesUsage_def usageObject_def to_map_def option.case json.case Let_def e d by (rule refl)
qed

section \<open>Stateless requests\<close>

text \<open>The blocks of a Messages request, in its messages and its system prompt, at any depth: the results
  of tools and of searches hold blocks, and so do documents of type content.\<close>

inductive native_block :: "object \<Rightarrow> (string \<times> json) list \<Rightarrow> bool" for payload where
  in_message: "message \<in> set (snd (to_maps (json_field payload ''messages''))) \<Longrightarrow>
     JObj ms \<in> set (elements_of (json_field message ''content'')) \<Longrightarrow> native_block payload ms"
| in_system: "JObj ms \<in> set (elements_of (json_field payload ''system'')) \<Longrightarrow> native_block payload ms"
| in_result: "native_block payload bs \<Longrightarrow> to_string (json_field (Some bs) ''type'') \<in> {Some ''tool_result'', Some ''search_result''} \<Longrightarrow>
     JObj ms \<in> set (elements_of (json_field (Some bs) ''content'')) \<Longrightarrow> native_block payload ms"
| in_source: "native_block payload bs \<Longrightarrow> to_string (json_field (Some bs) ''type'') \<in> {Some ''image'', Some ''document''} \<Longrightarrow>
     json_field (Some bs) ''source'' = Some (JObj ss) \<Longrightarrow> to_string (json_field (Some ss) ''type'') = Some ''content'' \<Longrightarrow>
     JObj ms \<in> set (elements_of (json_field (Some ss) ''content'')) \<Longrightarrow> native_block payload ms"

inductive_cases native_blockE: "native_block payload ms"

text \<open>What \<open>safe_content\<close> checks of one block.\<close>

definition safe_block :: "(string \<times> json) list \<Rightarrow> bool" where
  "safe_block ms \<longleftrightarrow>
     (let kind = to_string (json_field (Some ms) ''type'');
          source = json_field (Some ms) ''source'';
          citations = json_field (Some ms) ''citations'' in
      (if kind \<in> Some ` set [''text'', ''thinking'', ''redacted_thinking'', ''tool_use''] then True
       else if kind = Some ''tool_result'' then
         (case json_field (Some ms) ''content'' of None \<Rightarrow> True | Some c \<Rightarrow> c = JNull \<or> safe_content c)
       else if kind = Some ''image'' \<or> kind = Some ''document'' then
         (case source of
            Some (JObj ss) \<Rightarrow>
              (let source_type = to_string (json_field (Some ss) ''type'') in
               \<not> nativePresent (json_field (Some ss) ''file_id'') \<and>
               (if source_type \<in> Some ` set [''base64'', ''url'', ''text''] then True
                else source_type = Some ''content'' \<and>
                  (case json_field (Some ss) ''content'' of None \<Rightarrow> False | Some c \<Rightarrow> safe_content c)))
          | _ \<Rightarrow> False)
       else kind = Some ''search_result'' \<and>
         (case json_field (Some ms) ''content'' of None \<Rightarrow> False | Some c \<Rightarrow> safe_content c)) \<and>
      (\<not> nativePresent citations \<or>
       (fst (to_maps citations) \<and>
        list_all (\<lambda>c. \<not> nativePresent (json_field c ''file_id'')) (snd (to_maps citations)))))"

lemma safe_content_block:
  assumes "safe_content (JArr xs)" "JObj ms \<in> set xs"
  shows "safe_block ms"
  unfolding safe_block_def
  by (rule assms(1)[unfolded safe_content.simps[of "JArr xs"] json.case list_all_iff[of _ xs], rule_format, OF assms(2), unfolded json.case])

lemma safe_content_elements: "safe_content v \<Longrightarrow> JObj ms \<in> set (elements_of (Some v)) \<Longrightarrow> safe_block ms"
  by (cases v) (auto simp: elements_of_def dest: safe_content_block)

lemma safe_block_inside:
  assumes "safe_block bs" "json_field (Some bs) ''content'' = Some c" "JObj ms \<in> set (elements_of (Some c))"
    "to_string (json_field (Some bs) ''type'') = Some k" "k = ''tool_result'' \<or> k = ''search_result''"
  shows "safe_block ms"
proof -
  have "c = JNull \<or> safe_content c"
    using assms(5) by (rule disjE) (use assms(1,2,4) in \<open>simp_all add: safe_block_def Let_def image_iff\<close>)
  then show ?thesis using assms(3) safe_content_elements by (auto simp: elements_of_def)
qed

lemma safe_block_source:
  assumes "safe_block bs" "json_field (Some bs) ''source'' = Some (JObj ss)" "json_field (Some ss) ''content'' = Some c"
    "to_string (json_field (Some ss) ''type'') = Some ''content''" "JObj ms \<in> set (elements_of (Some c))"
    "to_string (json_field (Some bs) ''type'') = Some k" "k = ''image'' \<or> k = ''document''"
  shows "safe_block ms"
proof -
  have "safe_content c"
    using assms(7) by (rule disjE) (use assms(1-4,6) in \<open>simp_all add: safe_block_def Let_def image_iff\<close>)
  then show ?thesis using assms(5) by (rule safe_content_elements)
qed

lemma elements_of_mem: "x \<in> set (elements_of r) \<Longrightarrow> \<exists>v. r = Some v"
  by (cases r) (auto simp: elements_of_def)

lemma native_block_safe:
  assumes "native_block payload ms"
    and "\<And>message. message \<in> set (snd (to_maps (json_field payload ''messages''))) \<Longrightarrow> safeMessagesContent (json_field message ''content'')"
    and "\<not> nativePresent (json_field payload ''system'') \<or> safeMessagesContent (json_field payload ''system'')"
  shows "safe_block ms"
  using assms(1)
proof induction
  case (in_message message ms)
  then obtain v where v: "json_field message ''content'' = Some v" using elements_of_mem by blast
  then have "safe_content v" using assms(2)[OF in_message(1)] by (simp add: safeMessagesContent_def)
  then show ?case using in_message(2) v safe_content_elements by simp
next
  case (in_system ms)
  then obtain v where v: "json_field payload ''system'' = Some v" using elements_of_mem by blast
  have "v \<noteq> JNull" using in_system v by (auto simp: elements_of_def)
  then have "safe_content v" using assms(3) v by (simp add: nativePresent_def safeMessagesContent_def)
  then show ?case using in_system v safe_content_elements by simp
next
  case (in_result bs ms)
  obtain c where c: "json_field (Some bs) ''content'' = Some c" using elements_of_mem[OF in_result(3)] by blast
  obtain k where k: "to_string (json_field (Some bs) ''type'') = Some k" "k = ''tool_result'' \<or> k = ''search_result''"
    using in_result(2) by blast
  show ?case by (rule safe_block_inside[OF in_result(4) c _ k]) (use in_result(3) c in simp)
next
  case (in_source bs ss ms)
  obtain c where c: "json_field (Some ss) ''content'' = Some c" using elements_of_mem[OF in_source(5)] by blast
  obtain k where k: "to_string (json_field (Some bs) ''type'') = Some k" "k = ''image'' \<or> k = ''document''"
    using in_source(2) by blast
  show ?case by (rule safe_block_source[OF in_source(6,3) c in_source(4) _ k]) (use in_source(5) c in simp)
qed

lemma check_messages_safe:
  "check_messages messages = Inr () \<Longrightarrow> message \<in> set messages \<Longrightarrow> message_role message \<and> safeMessagesContent (json_field message ''content'')"
  by (induction messages) (auto split: if_splits)

end
