(* ===== verification/Native_Claims.thy ===== *)
theory Native_Claims
  imports Native_Facts
begin

text \<open>
  The properties of the native protocols: reading a request or an answer ends, what an upstream
  reports is within the range its prices need, a streamed answer is counted as a whole one, a
  request that can be admitted under a quota is one that can be priced, and an accepted request
  refers to nothing a provider keeps.
\<close>


definition reported_ok :: "gateway_usage \<Rightarrow> bool" where
  "reported_ok u \<longleftrightarrow>
     counter_ok (gu_Input u) \<and> counter_ok (gu_Output u) \<and> counter_ok (gu_CacheRead u) \<and> counter_ok (gu_CacheWrite u) \<and>
     distinct (gu_UnsupportedDimensions u) \<and> (gu_Unsupported u \<longleftrightarrow> gu_UnsupportedDimensions u \<noteq> []) \<and>
     (\<forall>expected. let ds = gu_UnsupportedDimensions (WithExpectedInputMedia u expected) in
        length ds \<le> 7 \<and> set ds \<subseteq> set pricing_dimensions)"

lemma usage_reported: "usage_ok u \<Longrightarrow> reported_ok u"
proof -
  assume u: "usage_ok u"
  have "length (gu_UnsupportedDimensions (WithExpectedInputMedia u e)) \<le> 7" for e
  proof -
    note w = WithExpectedInputMedia_dimensions[OF u, of e]
    have "length (gu_UnsupportedDimensions (WithExpectedInputMedia u e)) =
        card (set (gu_UnsupportedDimensions (WithExpectedInputMedia u e)))"
      using w(1) by (simp add: distinct_card)
    also have "\<dots> \<le> card (set pricing_dimensions)" by (rule card_mono[OF _ w(2)]) simp
    also have "\<dots> \<le> length pricing_dimensions" by (rule card_length)
    finally show ?thesis by (simp add: pricing_dimensions_def)
  qed
  then show ?thesis
    using u WithExpectedInputMedia_dimensions(2)[OF u] by (simp add: reported_ok_def usage_ok_def dims_ok_def Let_def)
qed

text \<open>C32. Whatever an upstream answers, the usage read from it by any of the four protocols, or from a
  Messages stream, is sound: every known counter is between 0 and the largest \<open>int64\<close>, each
  unsupported dimension is recorded once, there are some exactly where the usage is marked as
  unsupported, and with the media marker resolved they are among the seven that the validation of
  a call fact accepts.\<close>

theorem reported_usage_sound:
  "reported_ok (ParseOpenAIUsage body stream) \<and> reported_ok (ParseResponsesUsage body) \<and>
   reported_ok (ParseMessagesUsage body whole) \<and> reported_ok (ParseGeminiUsage body whole) \<and> reported_ok (Usage terminal st)"
  by (intro conjI usage_reported ParseOpenAIUsage_ok ParseResponsesUsage_ok ParseMessagesUsage_ok ParseGeminiUsage_ok Usage_ok)

text \<open>The input of a Messages answer is the exact sum of its three disjoint categories, known only
  where all three are and the sum is an \<open>int64\<close>. So the pricing of a call with such a usage never
  meets more cached tokens than input tokens: it is never \<open>invalid_usage\<close>.\<close>

theorem messages_usage_priced:
  assumes "u = messagesUsage r whole" "cf_InputTokens cf = gu_Input u" "cf_CacheReadTokens cf = gu_CacheRead u"
    "cf_CacheWriteTokens cf = gu_CacheWrite u"
  shows "fst (price_call cf basis) \<noteq> ''invalid_usage'' \<and>
    (\<forall>i. gu_Input u = Some i \<longrightarrow> (\<exists>n read cached. gu_CacheRead u = Some read \<and> gu_CacheWrite u = Some cached \<and>
       0 \<le> n \<and> 0 \<le> read \<and> 0 \<le> cached \<and> i = n + read + cached \<and> i \<le> max_int64))"
proof -
  have sum: "\<exists>n read cached. gu_CacheRead u = Some read \<and> gu_CacheWrite u = Some cached \<and>
       0 \<le> n \<and> 0 \<le> read \<and> 0 \<le> cached \<and> i = n + read + cached \<and> i \<le> max_int64" if "gu_Input u = Some i" for i
  proof (cases "usageObject r")
    case None
    then show ?thesis using that assms(1) by (simp add: messagesUsage_def no_usage_def)
  next
    case (Some ms)
    then have "messages_input (usageCounter (json_field (Some ms) ''input_tokens'')) (gu_CacheRead u) (gu_CacheWrite u) = Some i"
      "gu_CacheRead u = usageCounter (json_field (Some ms) ''cache_read_input_tokens'')"
      "gu_CacheWrite u = usageCounter (json_field (Some ms) ''cache_creation_input_tokens'')"
      using that assms(1) by (simp_all add: messagesUsage_def set_dimensions_def Let_def)
    moreover have "counter_ok (usageCounter x)" for x by simp
    ultimately show ?thesis
      by (fastforce simp: messages_input_def counter_ok_def split: option.splits if_splits)
  qed
  moreover have "fst (price_call cf basis) \<noteq> ''invalid_usage''"
  proof
    assume a: "fst (price_call cf basis) = ''invalid_usage''"
    obtain i out read cached where c: "cf_InputTokens cf = Some i" "cf_CacheReadTokens cf = Some read" "cf_CacheWriteTokens cf = Some cached"
      and bad: "read > i \<or> cached > wrap64 (i - read)"
      using a by (auto simp: price_call_def split: if_splits option.splits sum.splits pricing_error.splits)
    then obtain n where n: "0 \<le> n" "0 \<le> read" "0 \<le> cached" "i = n + read + cached" "i \<le> max_int64"
      using sum[of i] assms by auto
    have "wrap64 (i - read) = i - read" using n by (intro wrap64_id) (auto simp: int64_range_def max_int64_def)
    then show False using bad n by linarith
  qed
  ultimately show ?thesis by blast
qed

definition demo_messages_usage :: json where
  "demo_messages_usage = JObj [(''input_tokens'', JNum ''10''), (''cache_read_input_tokens'', JNum ''5''),
     (''cache_creation_input_tokens'', JNum ''0''), (''output_tokens'', JNum ''7'')]"

definition counted_fact :: "gateway_usage \<Rightarrow> call_fact \<Rightarrow> call_fact" where
  "counted_fact u cf = cf\<lparr>cf_InputTokens := gu_Input u, cf_OutputTokens := gu_Output u, cf_CacheReadTokens := gu_CacheRead u,
     cf_CacheWriteTokens := gu_CacheWrite u\<rparr>"

lemma demo_messages_count: "gu_Input (messagesUsage (Some demo_messages_usage) True) = Some 15"
  by code_simp

theorem messages_usage_priced_witness:
  "\<exists>n read cached. gu_CacheRead (messagesUsage (Some demo_messages_usage) True) = Some read \<and>
     gu_CacheWrite (messagesUsage (Some demo_messages_usage) True) = Some cached \<and> 15 = n + read + cached \<and> 0 \<le> n"
proof -
  let ?u = "messagesUsage (Some demo_messages_usage) True"
  have "\<forall>i. gu_Input ?u = Some i \<longrightarrow> (\<exists>n read cached. gu_CacheRead ?u = Some read \<and> gu_CacheWrite ?u = Some cached \<and>
       0 \<le> n \<and> 0 \<le> read \<and> 0 \<le> cached \<and> i = n + read + cached \<and> i \<le> max_int64)"
    by (rule conjunct2[OF messages_usage_priced[OF refl, where cf = "counted_fact ?u undefined"]])
      (simp_all add: counted_fact_def)
  then show ?thesis using demo_messages_count by blast
qed


definition demo_start_usage :: json where
  "demo_start_usage = JObj [(''output_tokens'', JNum ''1'')]"

definition demo_deltas :: "(raw \<times> bool) list" where
  "demo_deltas = [(Some (JObj [(''input_tokens'', JNum ''9'')]), False), (Some (JObj [(''output_tokens'', JNum ''8'')]), True)]"

definition demo_stream :: stream_usage where
  "demo_stream = the (accept_deltas demo_deltas (snd (Start (Some demo_start_usage) stream_start)))"

definition demo_whole :: "(string \<times> json) list" where
  "demo_whole = [(''input_tokens'', JNum ''9''), (''output_tokens'', JNum ''8'')]"

lemma demo_accepts: "accept_deltas demo_deltas (snd (Start (Some demo_start_usage) stream_start)) = Some demo_stream"
  by code_simp

lemma demo_fields: "json_field (Some demo_whole) name = latest_field (Some demo_start_usage) demo_deltas name"
  by (cases "name = ''input_tokens''"; cases "name = ''output_tokens''")
    (simp_all add: demo_whole_def latest_field_def demo_start_usage_def demo_deltas_def field_after_def usageObject_def to_map_def
      json_field_def)


text \<open>C34. A request that the inspection lets into a quota can be priced and bounded: the classifier of
  its protocol finds no dimension that the rates do not cover, and its output has a positive limit
  that is an \<open>int64\<close>.\<close>

theorem supported_request_priced:
  assumes "rq_Supported (inspectQuotaRequest proto original detached)"
  shows "gatewayPricingDimensions proto (case detached of None \<Rightarrow> original | Some d \<Rightarrow> d) = [] \<and>
    0 < rq_MaxOutput (inspectQuotaRequest proto original detached) \<and>
    rq_MaxOutput (inspectQuotaRequest proto original detached) \<le> max_int64"
proof -
  define p where "p = (case detached of None \<Rightarrow> original | Some d \<Rightarrow> d)"
  have b: "0 < rq_MaxOutput (bounded_request r c) \<and> rq_MaxOutput (bounded_request r c) \<le> max_int64"
    if "rq_Supported (bounded_request r c)" for r c
    using that usageCounter_number[of r] by (auto simp: bounded_request_def no_quota_request_def split: option.splits if_splits)
  have n: "\<not> rq_Supported no_quota_request" by (simp add: no_quota_request_def)
  have i: "inspectQuotaRequest proto original detached =
     (if proto = ''openai_chat'' then inspectChatQuotaRequest p
      else if proto = ''openai_responses'' then inspectResponsesQuotaRequest p
      else if proto = ''anthropic_messages'' then inspectMessagesQuotaRequest p
      else if proto = ''gemini_generate_content'' then inspectGeminiQuotaRequest p
      else no_quota_request)"
    by (simp add: inspectQuotaRequest_def p_def)
  have "proto = ''openai_chat'' \<or> proto = ''openai_responses'' \<or> proto = ''anthropic_messages'' \<or>
      proto = ''gemini_generate_content''"
  proof (rule ccontr)
    assume "\<not> ?thesis"
    then have "inspectQuotaRequest proto original detached = no_quota_request" unfolding i by simp
    then show False using assms n by simp
  qed
  then consider "proto = ''openai_chat''" | "proto = ''openai_responses''" | "proto = ''anthropic_messages''"
    | "proto = ''gemini_generate_content''" by (elim disjE) simp_all
  then show ?thesis
  proof cases
    case 1
    then have "rq_Supported (inspectChatQuotaRequest p)" using assms unfolding i by simp
    then show ?thesis using b n 1 unfolding i p_def[symmetric]
      by (auto simp: inspectChatQuotaRequest_def gatewayPricingDimensions_def pricingRequestDimensions_def split: if_splits)
  next
    case 2
    then have "rq_Supported (inspectResponsesQuotaRequest p)" using assms unfolding i by simp
    then show ?thesis using b n 2 unfolding i p_def[symmetric]
      by (auto simp: inspectResponsesQuotaRequest_def gatewayPricingDimensions_def split: if_splits)
  next
    case 3
    then have "rq_Supported (inspectMessagesQuotaRequest p)" using assms unfolding i by simp
    then show ?thesis using b n 3 unfolding i p_def[symmetric]
      by (auto simp: inspectMessagesQuotaRequest_def gatewayPricingDimensions_def split: if_splits)
  next
    case 4
    then have "rq_Supported (inspectGeminiQuotaRequest p)" using assms unfolding i by simp
    then show ?thesis using b n 4 unfolding i p_def[symmetric]
      by (auto simp: inspectGeminiQuotaRequest_def gatewayPricingDimensions_def Let_def split: if_splits)
  qed
qed

definition demo_payload :: object where
  "demo_payload = Some [(''model'', JStr ''m''), (''messages'', JArr [JObj [(''role'', JStr ''user''), (''content'', JStr ''hi'')]]),
     (''max_completion_tokens'', JNum ''64'')]"

lemma demo_inspected: "rq_Supported (inspectQuotaRequest ''openai_chat'' demo_payload None)"
  by code_simp

theorem supported_request_priced_witness:
  "gatewayPricingDimensions ''openai_chat'' demo_payload = []"
  using supported_request_priced[OF demo_inspected] by simp


definition demo_messages_body :: string where
  \<open>demo_messages_body = ''{"model":"m","max_tokens":5,"messages":[{"role":"user","content":[{"type":"tool_result","content":[{"type":"image","source":{"type":"url"}}]}]}]}''\<close>

definition demo_inner_block :: "(string \<times> json) list" where
  "demo_inner_block = [(''type'', JStr ''image''), (''source'', JObj [(''type'', JStr ''url'')])]"

definition demo_outer_block :: "(string \<times> json) list" where
  "demo_outer_block = [(''type'', JStr ''tool_result''), (''content'', JArr [JObj demo_inner_block])]"

definition demo_messages_payload :: object where
  "demo_messages_payload = Some [(''model'', JStr ''m''), (''max_tokens'', JNum ''5''),
     (''messages'', JArr [JObj [(''role'', JStr ''user''), (''content'', JArr [JObj demo_outer_block])]])]"

lemma demo_messages_parsed: "parseGatewayMessages demo_messages_body = ((''m'', False), Inr demo_messages_payload)"
  by code_simp

lemma demo_native_block: "native_block demo_messages_payload demo_inner_block"
proof (rule in_result)
  show "native_block demo_messages_payload demo_outer_block"
    by (rule in_message[where message = "Some [(''role'', JStr ''user''), (''content'', JArr [JObj demo_outer_block])]"])
      (simp_all add: demo_messages_payload_def to_maps_def to_map_def elements_of_def json_field_def)
qed (simp_all add: demo_outer_block_def json_field_def to_string_def elements_of_def)


end
