(* ===== verification/Rejection.thy ===== *)
theory Rejection
  imports Native_Usage Route_Run
begin

text \<open>
  What a failed upstream answer proves about the work done for it:
  \<open>internal/routex/service/gateway_attempt_classification.go\<close> and \<open>gateway_rejection_evidence.go\<close>, with
  the public errors of the protocols (\<open>gateway_responses_errors.go\<close>, \<open>gateway_messages_errors.go\<close>,
  \<open>gateway_gemini_errors.go\<close>). A body is the text an upstream sends and whether reading it then fails.
\<close>

definition ProtocolOpenAIChat :: string where "ProtocolOpenAIChat = ''openai_chat''"
definition ProtocolOpenAIResponses :: string where "ProtocolOpenAIResponses = ''openai_responses''"
definition ProtocolAnthropicMessages :: string where "ProtocolAnthropicMessages = ''anthropic_messages''"
definition ProtocolGeminiGenerateContent :: string where "ProtocolGeminiGenerateContent = ''gemini_generate_content''"

section \<open>The envelope\<close>

definition gatewayRetryBodyLimit :: nat where "gatewayRetryBodyLimit = 1048576"

text \<open>An object whose names occur once, read token by token: every value is read on its own, so each
  may nest as deep as a whole text.\<close>

definition gatewayRejectionObject :: "string \<Rightarrow> object" where
  "gatewayRejectionObject s =
     (if utf8_runes s = None then None
      else case strip_text ''{'' (skip_space s) of
          None \<Rightarrow> None
        | Some s1 \<Rightarrow>
            (case (case strip_text ''}'' (skip_space s1) of
                     Some r \<Rightarrow> Some ([], r)
                   | None \<Rightarrow> json_members (2 * length s + 2) json_depth s1) of
               None \<Rightarrow> None
             | Some (ms, rest) \<Rightarrow> if distinct (map fst ms) \<and> skip_space rest = [] then Some ms else None))"

text \<open>The same for a value that has been read already.\<close>

definition rejection_object :: "raw \<Rightarrow> object" where
  "rejection_object r = (case r of Some (JObj ms) \<Rightarrow> if distinct (map fst ms) then Some ms else None | _ \<Rightarrow> None)"

definition gatewayRejectionOptionalString :: "raw \<Rightarrow> string option" where
  "gatewayRejectionOptionalString r = (if r = None then Some [] else to_string r)"

definition optional_text :: "raw \<Rightarrow> (string \<Rightarrow> bool) \<Rightarrow> bool" where
  "optional_text r ok \<longleftrightarrow>
     (case gatewayRejectionOptionalString r of None \<Rightarrow> False | Some t \<Rightarrow> t = '''' \<or> ok t)"

definition gatewayRejectionDiscriminatorsAgree :: "string \<Rightarrow> int \<Rightarrow> object \<Rightarrow> bool" where
  "gatewayRejectionDiscriminatorsAgree proto status names \<longleftrightarrow>
     (let auth = (status = 401);
          expectedCode = (if auth then ''invalid_api_key'' else ''rate_limit_exceeded'');
          expectedType = (if auth then ''authentication_error'' else ''rate_limit_error'');
          expectedStatus = (if auth then ''UNAUTHENTICATED'' else ''RESOURCE_EXHAUSTED'');
          code = json_field names ''code''
      in (if proto = ProtocolGeminiGenerateContent
          then code = None \<or> code \<noteq> Some JNull \<and> to_int64 code = Some status
          else optional_text code (\<lambda>t. t = expectedCode)) \<and>
         optional_text (json_field names ''type'')
           (\<lambda>t. t = expectedType \<or>
                (proto = ProtocolOpenAIChat \<or> proto = ProtocolOpenAIResponses) \<and> t = ''invalid_request_error'') \<and>
         optional_text (json_field names ''status'') (\<lambda>t. t = expectedStatus))"

definition work_fields :: "string \<Rightarrow> string list option" where
  "work_fields proto =
     map_of
      [(ProtocolOpenAIChat, [''choices'', ''usage'', ''id'', ''object'', ''created'', ''model'']),
       (ProtocolOpenAIResponses, [''response'', ''output'', ''output_text'', ''usage'', ''status'', ''incomplete_details'',
          ''id'', ''object'', ''model'', ''created_at'', ''completed_at'']),
       (ProtocolAnthropicMessages, [''content'', ''usage'', ''stop_reason'', ''stop_sequence'', ''id'', ''model'', ''role'']),
       (ProtocolGeminiGenerateContent, [''candidates'', ''usageMetadata'', ''promptFeedback'', ''modelVersion'', ''responseId''])]
      proto"

definition kind_allowed :: "string \<Rightarrow> object \<Rightarrow> bool" where
  "kind_allowed proto envelope \<longleftrightarrow>
     (let kind = json_field envelope ''type'' in
      if kind = None then True
      else if proto = ProtocolOpenAIResponses then
        (case gatewayRejectionOptionalString kind of
           None \<Rightarrow> False | Some t \<Rightarrow> take 9 (map lower_char t) \<noteq> ''response.'')
      else if proto = ProtocolAnthropicMessages then to_string kind = Some ''error''
      else True)"

definition envelope_key :: "string \<Rightarrow> string list \<Rightarrow> string \<Rightarrow> bool" where
  "envelope_key proto names key \<longleftrightarrow>
     \<not> list_ex (equal_fold key) names \<and>
     \<not> (key \<noteq> ''error'' \<and> equal_fold key ''error'' \<or>
        (proto = ProtocolAnthropicMessages \<or> proto = ProtocolOpenAIResponses) \<and> key \<noteq> ''type'' \<and> equal_fold key ''type'')"

definition error_key :: "string \<Rightarrow> bool" where
  "error_key key \<longleftrightarrow> \<not> list_ex (\<lambda>field. key \<noteq> field \<and> equal_fold key field) [''code'', ''type'', ''status'']"

definition gatewayNativeRejectionError :: "string \<Rightarrow> int \<Rightarrow> string \<Rightarrow> object" where
  "gatewayNativeRejectionError proto status body =
     (let envelope = gatewayRejectionObject body in
      if envelope = None then None
      else case work_fields proto of
          None \<Rightarrow> None
        | Some names \<Rightarrow>
            if \<not> kind_allowed proto envelope \<or> \<not> list_all (envelope_key proto names) (json_keys envelope) then None
            else (let members = rejection_object (json_field envelope ''error'') in
                  if members \<noteq> None \<and> list_all error_key (json_keys members) \<and>
                     gatewayRejectionDiscriminatorsAgree proto status members
                  then members else None))"

section \<open>Classification\<close>

record classification =
  cl_Outcome :: outcome
  cl_EvidenceCode :: string

definition plain_outcome :: "string \<Rightarrow> string \<Rightarrow> outcome" where
  "plain_outcome failure work =
     \<lparr>out_Failure = failure, out_Work = work, out_OutputStarted = False, out_FinalUsageKnown = False\<rparr>"

definition retryableGatewayRejection :: "string \<Rightarrow> string \<Rightarrow> classification" where
  "retryableGatewayRejection failure evidence =
     \<lparr>cl_Outcome = plain_outcome failure RejectedWithoutWork, cl_EvidenceCode = evidence\<rparr>"

definition unclassified :: classification where
  "unclassified = \<lparr>cl_Outcome = plain_outcome PermanentFailure Unknown, cl_EvidenceCode = ''upstream_response''\<rparr>"

text \<open>The fields each protocol classifies by, with the values that stand for the two rejections.\<close>

definition rejection_fields :: "string \<Rightarrow> (string \<times> string \<times> string) list" where
  "rejection_fields proto =
     (if proto = ProtocolOpenAIChat \<or> proto = ProtocolOpenAIResponses
      then [(''code'', ''invalid_api_key'', ''rate_limit_exceeded''), (''type'', ''authentication_error'', ''rate_limit_error'')]
      else if proto = ProtocolAnthropicMessages then [(''type'', ''authentication_error'', ''rate_limit_error'')]
      else if proto = ProtocolGeminiGenerateContent then [(''status'', ''UNAUTHENTICATED'', ''RESOURCE_EXHAUSTED'')]
      else [])"

definition classifyGatewayHTTPFailure :: "string \<Rightarrow> int \<Rightarrow> string \<Rightarrow> classification" where
  "classifyGatewayHTTPFailure proto status body =
     (if body = [] \<or> length body > gatewayRetryBodyLimit \<or> status \<noteq> 401 \<and> status \<noteq> 429 then unclassified
      else case gatewayNativeRejectionError proto status body of
          None \<Rightarrow> unclassified
        | Some ms \<Rightarrow>
            (let read = (\<lambda>name. to_struct_string name (Some (JObj ms))); names = rejection_fields proto in
             if \<not> list_all (\<lambda>(name, _). fst (read name)) names then unclassified
             else if status = 401 \<and> list_ex (\<lambda>(name, auth, _). snd (read name) = auth) names
             then retryableGatewayRejection CredentialRejected ''native_auth_rejection''
             else if status = 429 \<and> list_ex (\<lambda>(name, _, rate). snd (read name) = rate) names
             then retryableGatewayRejection RateLimited ''native_rate_rejection''
             else unclassified))"

section \<open>Public errors\<close>

text \<open>A public error with the native error object it carries, where the protocol has one.\<close>

type_synonym public_error = "service_error \<times> raw"

definition upstream_message :: json where
  "upstream_message = JStr ''The upstream could not complete the request.''"

definition responses_codes :: "string list" where
  "responses_codes =
     [''server_error'', ''rate_limit_exceeded'', ''invalid_api_key'', ''insufficient_quota'', ''model_not_found'',
      ''context_length_exceeded'', ''invalid_value'', ''unsupported_parameter'', ''missing_required_parameter'',
      ''content_policy_violation'', ''invalid_prompt'', ''invalid_image'', ''invalid_image_format'', ''image_too_large'',
      ''image_too_small'', ''invalid_base64_image'', ''invalid_image_url'', ''invalid_file'', ''vector_store_timeout'']"

definition responses_kinds :: "string list" where
  "responses_kinds =
     [''invalid_request_error'', ''rate_limit_error'', ''server_error'', ''api_error'', ''authentication_error'',
      ''permission_error'', ''not_found_error'']"

definition responses_params :: "string list" where
  "responses_params =
     [''model'', ''input'', ''tools'', ''tool_choice'', ''reasoning'', ''text'', ''stream'', ''stream_options'', ''store'',
      ''background'', ''max_output_tokens'', ''temperature'', ''top_p'', ''service_tier'', ''previous_response_id'',
      ''conversation'']"

definition messages_kinds :: "string list" where
  "messages_kinds =
     [''invalid_request_error'', ''authentication_error'', ''permission_error'', ''not_found_error'', ''conflict_error'',
      ''request_too_large'', ''rate_limit_error'', ''api_error'', ''timeout_error'', ''overloaded_error'']"

definition gemini_kinds :: "string list" where
  "gemini_kinds =
     [''INVALID_ARGUMENT'', ''FAILED_PRECONDITION'', ''UNAUTHENTICATED'', ''PERMISSION_DENIED'', ''NOT_FOUND'',
      ''RESOURCE_EXHAUSTED'', ''INTERNAL'', ''UNAVAILABLE'', ''DEADLINE_EXCEEDED'', ''CANCELLED'', ''OUT_OF_RANGE'',
      ''UNIMPLEMENTED'']"

definition SanitizeResponsesError :: "raw \<Rightarrow> (string \<times> json) list" where
  "SanitizeResponsesError r =
     (let ob = usageObject r; text = (\<lambda>name. string_or_empty (json_field ob name)) in
      [(''message'', upstream_message),
       (''code'', JStr (if text ''code'' \<in> set responses_codes then text ''code'' else ''upstream_error''))] @
      (if text ''type'' \<in> set responses_kinds then [(''type'', JStr (text ''type''))] else []) @
      (if json_field ob ''param'' = None then []
       else [(''param'', if text ''param'' \<in> set responses_params then JStr (text ''param'') else JNull)]))"

definition SanitizeMessagesError :: "raw \<Rightarrow> (string \<times> json) list" where
  "SanitizeMessagesError r =
     (let kind = string_or_empty (json_field (usageObject r) ''type'') in
      [(''type'', JStr (if kind \<in> set messages_kinds then kind else ''api_error'')), (''message'', upstream_message)])"

definition SanitizeGeminiError :: "raw \<Rightarrow> int \<Rightarrow> (string \<times> json) list" where
  "SanitizeGeminiError r status =
     (let kind = string_or_empty (json_field (usageObject r) ''status'') in
      [(''code'', JNum (nat_digits (nat status))), (''status'', JStr (if kind \<in> set gemini_kinds then kind else ''INTERNAL'')),
       (''message'', upstream_message)])"

definition native_status :: "int \<Rightarrow> int" where
  "native_status status = (if status < 400 \<or> status > 599 then 502 else status)"

definition native_code :: "int \<Rightarrow> string" where
  "native_code status =
     (if status = 408 \<or> status = 504 then ''upstream_timeout''
      else if status = 429 then ''rate_limit_exceeded'' else ''upstream_error'')"

text \<open>The error object of a body that has been read: the body is at most one byte over the limit here.\<close>

definition body_error :: "string \<Rightarrow> raw" where
  "body_error body =
     (if length body \<le> 1048576 then json_field (usageObject (parse_json body)) ''error'' else None)"

definition nativeResponsesHTTPError :: "int \<Rightarrow> string \<Rightarrow> public_error" where
  "nativeResponsesHTTPError status0 body =
     (let status = native_status status0;
          safe = SanitizeResponsesError (body_error body);
          full = (if json_field (Some safe) ''type'' = None then safe @ [(''type'', JStr ''api_error'')] else safe)
      in (GatewayError status (native_code status), Some (JObj [(''error'', JObj full)])))"

definition nativeMessagesHTTPError :: "int \<Rightarrow> string \<Rightarrow> public_error" where
  "nativeMessagesHTTPError status0 body =
     (let status = native_status status0 in
      (GatewayError status (native_code status),
       Some (JObj [(''type'', JStr ''error''), (''error'', JObj (SanitizeMessagesError (body_error body)))])))"

definition nativeGeminiHTTPError :: "int \<Rightarrow> string \<Rightarrow> public_error" where
  "nativeGeminiHTTPError status0 body =
     (let status = native_status status0 in
      (GatewayError status (native_code status),
       Some (JObj [(''error'', JObj (SanitizeGeminiError (body_error body) status))])))"

section \<open>Reading a failed answer\<close>

type_synonym body = "string \<times> bool"

record response =
  resp_StatusCode :: int
  resp_Body :: "body option"
  resp_ContentType :: string

text \<open>\<open>io.ReadAll\<close> of a reader limited to n bytes; \<open>None\<close> where reading fails before the limit.\<close>

definition read_limited :: "nat \<Rightarrow> body \<Rightarrow> string option" where
  "read_limited n b = (if snd b \<and> length (fst b) < n then None else Some (take n (fst b)))"

definition readGatewayHTTPFailure :: "response \<Rightarrow> string \<Rightarrow> classification \<times> public_error" where
  "readGatewayHTTPFailure response proto =
     (case resp_Body response of
        None \<Rightarrow> (unclassified\<lparr>cl_EvidenceCode := ''transport_ambiguous''\<rparr>, GatewayError 502 ''upstream_error'', None)
      | Some b \<Rightarrow>
          (let body = (case read_limited (gatewayRetryBodyLimit + 1) b of
                         None \<Rightarrow> [] | Some t \<Rightarrow> if length t > gatewayRetryBodyLimit then [] else t);
               status = resp_StatusCode response
           in (classifyGatewayHTTPFailure proto status body,
               if proto = ProtocolGeminiGenerateContent then nativeGeminiHTTPError status body
               else if proto = ProtocolAnthropicMessages then nativeMessagesHTTPError status body
               else if proto = ProtocolOpenAIResponses then nativeResponsesHTTPError status body
               else (if status = 429 then GatewayError 429 ''rate_limit_exceeded''
                     else if status = 408 \<or> status = 504 then GatewayError 504 ''upstream_timeout''
                     else GatewayError 502 ''upstream_error'', None))))"

section \<open>What a rejection proves\<close>

lemma unclassified_simps [simp]:
  "out_Work (cl_Outcome unclassified) = Unknown" "out_Failure (cl_Outcome unclassified) = PermanentFailure"
  "\<not> replay_safe (cl_Outcome unclassified)"
  by (simp_all add: unclassified_def plain_outcome_def replay_safe_def Unknown_def NotSent_def RejectedWithoutWork_def)

lemma retryable_simps [simp]:
  "cl_Outcome (retryableGatewayRejection f e) = plain_outcome f RejectedWithoutWork"
  "cl_EvidenceCode (retryableGatewayRejection f e) = e"
  by (simp_all add: retryableGatewayRejection_def)

lemma map_of_rev_distinct: "distinct (map fst ms) \<Longrightarrow> map_of (rev ms) k = map_of ms k"
  by (rule fun_cong[OF map_of_inject_set[THEN iffD2]]) (simp_all add: rev_map[symmetric])

lemma json_field_distinct: "distinct (map fst ms) \<Longrightarrow> json_field (Some ms) k = map_of ms k"
  by (simp add: json_field_def map_of_rev_distinct)

lemma gatewayRejectionObject_distinct: "gatewayRejectionObject s = Some ms \<Longrightarrow> distinct (map fst ms)"
  by (auto simp: gatewayRejectionObject_def split: if_splits option.splits)

lemma rejection_object_Some: "rejection_object r = Some ms \<longleftrightarrow> r = Some (JObj ms) \<and> distinct (map fst ms)"
  by (auto simp: rejection_object_def split: option.splits json.splits if_splits)

text \<open>A body that is nothing but a rejection: one object with one error object, no member that any
  reader could take for a field of an answer, and no two readings of a name.\<close>

definition error_only :: "string \<Rightarrow> string \<Rightarrow> (string \<times> json) list \<Rightarrow> bool" where
  "error_only proto body errs \<longleftrightarrow>
     (\<exists>ms names. gatewayRejectionObject body = Some ms \<and> distinct (map fst ms) \<and> work_fields proto = Some names \<and>
        map_of ms ''error'' = Some (JObj errs) \<and> distinct (map fst errs) \<and>
        (\<forall>key \<in> fst ` set ms. (\<forall>f \<in> set names. \<not> equal_fold key f) \<and> (equal_fold key ''error'' \<longrightarrow> key = ''error'')) \<and>
        (\<forall>key \<in> fst ` set errs. \<forall>f \<in> set [''code'', ''type'', ''status'']. equal_fold key f \<longrightarrow> key = f))"

lemma gatewayNativeRejectionError_Some:
  assumes "gatewayNativeRejectionError proto status body = Some errs"
  shows "error_only proto body errs" "gatewayRejectionDiscriminatorsAgree proto status (Some errs)"
proof -
  obtain ms where ms: "gatewayRejectionObject body = Some ms" using assms
    by (cases "gatewayRejectionObject body") (auto simp: gatewayNativeRejectionError_def)
  obtain names where names: "work_fields proto = Some names" using assms ms
    by (cases "work_fields proto") (auto simp: gatewayNativeRejectionError_def)
  have keys: "list_all (envelope_key proto names) (json_keys (Some ms))"
    and errs: "rejection_object (json_field (Some ms) ''error'') = Some errs" "list_all error_key (json_keys (Some errs))"
    and agree: "gatewayRejectionDiscriminatorsAgree proto status (Some errs)"
    using assms ms names by (auto simp: gatewayNativeRejectionError_def Let_def simp del: list_all_iff split: if_splits)
  note d = gatewayRejectionObject_distinct[OF ms]
  have e: "map_of ms ''error'' = Some (JObj errs)" "distinct (map fst errs)"
    using errs(1) unfolding rejection_object_Some json_field_distinct[OF d] by simp_all
  have k: "(\<forall>f \<in> set names. \<not> equal_fold key f) \<and> (equal_fold key ''error'' \<longrightarrow> key = ''error'')" if "key \<in> fst ` set ms" for key
  proof -
    have "envelope_key proto names key" using keys that by (auto simp: list_all_iff json_keys_def)
    then show ?thesis unfolding envelope_key_def list_ex_iff by blast
  qed
  have x: "\<forall>f \<in> set [''code'', ''type'', ''status'']. equal_fold key f \<longrightarrow> key = f" if "key \<in> fst ` set errs" for key
  proof -
    have "error_key key" using errs(2) that by (auto simp: list_all_iff json_keys_def)
    then show ?thesis unfolding error_key_def list_ex_iff by blast
  qed
  show "error_only proto body errs" unfolding error_only_def using ms d names e k x by blast
  show "gatewayRejectionDiscriminatorsAgree proto status (Some errs)" by (rule agree)
qed

text \<open>With the names of the discriminators unambiguous, the struct the code decodes into has what the
  map has.\<close>

lemma struct_string_skip:
  "\<forall>key \<in> fst ` set ms. \<not> equal_fold key name \<Longrightarrow> struct_string name ms acc = acc"
  by (induction ms arbitrary: acc) (auto split: prod.splits)

lemma struct_string_exact:
  assumes "\<forall>key \<in> fst ` set ms. equal_fold key name \<longrightarrow> key = name" "distinct (map fst ms)"
    "struct_string name ms (True, []) = (True, t)" "t \<noteq> []"
  shows "map_of ms name = Some (JStr t)"
  using assms
proof (induction ms)
  case (Cons m ms)
  obtain k v where m: "m = (k, v)" by (cases m)
  show ?case
  proof (cases "equal_fold k name")
    case False
    then have "k \<noteq> name" by (auto simp: equal_fold_def)
    then show ?thesis using Cons m False by simp
  next
    case True
    then have k: "k = name" using Cons.prems(1) m by auto
    have "\<forall>key \<in> fst ` set ms. \<not> equal_fold key name" using Cons.prems(1,2) m k by auto
    then have "struct_string name ms acc = acc" for acc by (rule struct_string_skip)
    then show ?thesis using Cons.prems(3,4) m k by (auto simp: equal_fold_def split: json.splits)
  qed
qed simp

definition auth_texts :: "string list" where
  "auth_texts = [''invalid_api_key'', ''authentication_error'', ''UNAUTHENTICATED'']"

definition rate_texts :: "string list" where
  "rate_texts = [''rate_limit_exceeded'', ''rate_limit_error'', ''RESOURCE_EXHAUSTED'']"

text \<open>The error object names the rejection its status stands for, in a field of the protocol, and no
  discriminator names the other one.\<close>

definition names_rejection :: "string \<Rightarrow> int \<Rightarrow> (string \<times> json) list \<Rightarrow> bool" where
  "names_rejection proto status errs \<longleftrightarrow>
     (\<exists>(name, auth, rate) \<in> set (rejection_fields proto).
        map_of errs name = Some (JStr (if status = 401 then auth else rate))) \<and>
     (\<forall>name \<in> set [''code'', ''type'', ''status'']. \<forall>t. map_of errs name = Some (JStr t) \<longrightarrow>
        t \<notin> set (if status = 401 then rate_texts else auth_texts))"

lemma discriminators_not_contrary:
  assumes "gatewayRejectionDiscriminatorsAgree proto status (Some errs)" "distinct (map fst errs)"
    "name \<in> set [''code'', ''type'', ''status'']" "map_of errs name = Some (JStr t)"
  shows "t \<notin> set (if status = 401 then rate_texts else auth_texts)"
proof -
  have ok: "optional_text (Some (JStr t)) P \<Longrightarrow> t = [] \<or> P t" for P
    by (simp add: optional_text_def gatewayRejectionOptionalString_def to_string_def)
  consider "name = ''code''" | "name = ''type''" | "name = ''status''" using assms(3) by auto
  then show ?thesis
  proof cases
    case 1
    then have j: "json_field (Some errs) ''code'' = Some (JStr t)" using assms(2,4) json_field_distinct by simp
    then have "t = [] \<or> t = (if status = 401 then ''invalid_api_key'' else ''rate_limit_exceeded'')"
      using assms(1) ok by (auto simp: gatewayRejectionDiscriminatorsAgree_def Let_def to_int64_def split: if_splits)
    then show ?thesis by (auto simp: auth_texts_def rate_texts_def)
  next
    case 2
    then have j: "json_field (Some errs) ''type'' = Some (JStr t)" using assms(2,4) json_field_distinct by simp
    then have "t = [] \<or> t = (if status = 401 then ''authentication_error'' else ''rate_limit_error'') \<or> t = ''invalid_request_error''"
      using assms(1) ok unfolding gatewayRejectionDiscriminatorsAgree_def Let_def by fastforce
    then show ?thesis by (auto simp: auth_texts_def rate_texts_def)
  next
    case 3
    then have j: "json_field (Some errs) ''status'' = Some (JStr t)" using assms(2,4) json_field_distinct by simp
    then have "t = [] \<or> t = (if status = 401 then ''UNAUTHENTICATED'' else ''RESOURCE_EXHAUSTED'')"
      using assms(1) ok unfolding gatewayRejectionDiscriminatorsAgree_def Let_def by fastforce
    then show ?thesis by (auto simp: auth_texts_def rate_texts_def)
  qed
qed

lemma rejection_fields_known:
  "(name, auth, rate) \<in> set (rejection_fields proto) \<Longrightarrow>
     name \<in> set [''code'', ''type'', ''status''] \<and> auth \<noteq> [] \<and> rate \<noteq> []"
  by (auto simp: rejection_fields_def split: if_splits)

lemma rejection_field_read:
  assumes "error_only proto body errs" "(name, auth, rate) \<in> set (rejection_fields proto)"
    "fst (to_struct_string name (Some (JObj errs)))" "snd (to_struct_string name (Some (JObj errs))) = t" "t \<noteq> []"
  shows "map_of errs name = Some (JStr t)"
proof (rule struct_string_exact)
  show "\<forall>key \<in> fst ` set errs. equal_fold key name \<longrightarrow> key = name" "distinct (map fst errs)"
    using assms(1) rejection_fields_known[OF assms(2)] unfolding error_only_def by blast+
  show "struct_string name errs (True, []) = (True, t)" using assms(3,4) by (auto simp: to_struct_string_def prod_eq_iff)
qed (rule assms(5))

lemma classify_cases:
  obtains (none) "classifyGatewayHTTPFailure proto status body = unclassified"
  | (auth) errs where "classifyGatewayHTTPFailure proto status body = retryableGatewayRejection CredentialRejected ''native_auth_rejection''"
      "status = 401" "error_only proto body errs" "names_rejection proto status errs" "body \<noteq> []" "length body \<le> gatewayRetryBodyLimit"
  | (rate) errs where "classifyGatewayHTTPFailure proto status body = retryableGatewayRejection RateLimited ''native_rate_rejection''"
      "status = 429" "error_only proto body errs" "names_rejection proto status errs" "body \<noteq> []" "length body \<le> gatewayRetryBodyLimit"
proof (cases "body = [] \<or> length body > gatewayRetryBodyLimit \<or> status \<noteq> 401 \<and> status \<noteq> 429")
  case True
  then show ?thesis by (intro none) (simp add: classifyGatewayHTTPFailure_def)
next
  case guard: False
  show ?thesis
  proof (cases "gatewayNativeRejectionError proto status body")
    case None
    then show ?thesis using guard by (intro none) (simp add: classifyGatewayHTTPFailure_def)
  next
    case (Some errs)
    note e = gatewayNativeRejectionError_Some[OF Some]
    have d: "distinct (map fst errs)" using e(1) by (auto simp: error_only_def)
    let ?read = "\<lambda>name. to_struct_string name (Some (JObj errs))"
    let ?fields = "rejection_fields proto"
    have eq: "classifyGatewayHTTPFailure proto status body =
        (if \<not> list_all (\<lambda>(name, _). fst (?read name)) ?fields then unclassified
         else if status = 401 \<and> list_ex (\<lambda>(name, auth, _). snd (?read name) = auth) ?fields
         then retryableGatewayRejection CredentialRejected ''native_auth_rejection''
         else if status = 429 \<and> list_ex (\<lambda>(name, _, rate). snd (?read name) = rate) ?fields
         then retryableGatewayRejection RateLimited ''native_rate_rejection'' else unclassified)"
      using guard Some by (simp only: classifyGatewayHTTPFailure_def Let_def if_False option.case)
    have names: "names_rejection proto status errs"
      if "list_all (\<lambda>(name, _). fst (?read name)) ?fields" "(name, a, r) \<in> set ?fields"
        "snd (?read name) = (if status = 401 then a else r)" for name a r
    proof -
      have "fst (?read name)" using that(1,2) by (auto simp: list_all_iff)
      then have "map_of errs name = Some (JStr (if status = 401 then a else r))"
        using rejection_field_read[OF e(1) that(2)] that(3) rejection_fields_known[OF that(2)] by auto
      then show ?thesis
        using that(2) discriminators_not_contrary[OF e(2) d] unfolding names_rejection_def by blast
    qed
    show ?thesis
    proof (cases "list_all (\<lambda>(name, _). fst (?read name)) ?fields")
      case False
      then show ?thesis by (intro none) (simp only: eq if_True if_False not_False_eq_True)
    next
      case all: True
      consider (a) "status = 401 \<and> list_ex (\<lambda>(name, auth, _). snd (?read name) = auth) ?fields"
        | (r) "status = 429 \<and> list_ex (\<lambda>(name, _, rate). snd (?read name) = rate) ?fields"
        | (n) "\<not> (status = 401 \<and> list_ex (\<lambda>(name, auth, _). snd (?read name) = auth) ?fields)"
            "\<not> (status = 429 \<and> list_ex (\<lambda>(name, _, rate). snd (?read name) = rate) ?fields)" by blast
      then show ?thesis
      proof cases
        case a
        then obtain name x y where "(name, x, y) \<in> set ?fields" "snd (?read name) = x" by (auto simp: list_ex_iff)
        then have "names_rejection proto status errs" using names[OF all] a by simp
        then show ?thesis using auth[of errs] eq all a e(1) guard by simp
      next
        case r
        then obtain name x y where "(name, x, y) \<in> set ?fields" "snd (?read name) = y" by (auto simp: list_ex_iff)
        then have "names_rejection proto status errs" using names[OF all] r by simp
        then show ?thesis using rate[of errs] eq all r e(1) guard by simp
      next
        case n
        show ?thesis by (rule none) (simp only: eq all n not_True_eq_False if_False)
      qed
    qed
  qed
qed

lemma readGatewayHTTPFailure_proves:
  assumes "replay_safe (cl_Outcome (fst (readGatewayHTTPFailure resp proto)))"
  shows "\<exists>body errs. resp_Body resp = Some (body, False) \<and> length body \<le> 1048576 \<and> error_only proto body errs \<and>
     names_rejection proto (resp_StatusCode resp) errs \<and>
     (resp_StatusCode resp = 401 \<and>
        cl_Outcome (fst (readGatewayHTTPFailure resp proto)) = plain_outcome CredentialRejected RejectedWithoutWork \<or>
      resp_StatusCode resp = 429 \<and>
        cl_Outcome (fst (readGatewayHTTPFailure resp proto)) = plain_outcome RateLimited RejectedWithoutWork)"
proof (cases "resp_Body resp")
  case None
  then show ?thesis using assms
    by (simp add: readGatewayHTTPFailure_def unclassified_def plain_outcome_def replay_safe_def Unknown_def NotSent_def RejectedWithoutWork_def)
next
  case (Some b)
  define body where "body = (case read_limited (gatewayRetryBodyLimit + 1) b of
      None \<Rightarrow> [] | Some t \<Rightarrow> if length t > gatewayRetryBodyLimit then [] else t)"
  have fst: "fst (readGatewayHTTPFailure resp proto) = classifyGatewayHTTPFailure proto (resp_StatusCode resp) body"
    using Some by (simp add: readGatewayHTTPFailure_def Let_def body_def)
  have whole: "b = (body, False)" if "body \<noteq> []"
    using that by (cases b) (auto simp: body_def read_limited_def split: if_splits)
  show ?thesis
  proof (cases rule: classify_cases[of proto "resp_StatusCode resp" body])
    case none
    then show ?thesis using assms fst by simp
  next
    case (auth errs)
    then show ?thesis using fst whole Some by (auto simp: gatewayRetryBodyLimit_def)
  next
    case (rate errs)
    then show ?thesis using fst whole Some by (auto simp: gatewayRetryBodyLimit_def)
  qed
qed


definition demo_body :: string where
  \<open>demo_body = ''{"type":"error","error":{"type":"rate_limit_error"}}''\<close>

definition demo_rejection :: response where
  "demo_rejection = \<lparr>resp_StatusCode = 429, resp_Body = Some (demo_body, False), resp_ContentType = ''application/json''\<rparr>"

text \<open>On ASCII texts, case folding is that of the letters.\<close>

definition ascii_text :: "string \<Rightarrow> bool" where
  "ascii_text s \<longleftrightarrow> list_all (\<lambda>c. \<not> digit7 c) s"

lemma fold_starts: "digit7 (char_of (197 :: nat))" "digit7 (char_of (226 :: nat))"
  by code_simp+

lemma fold_text_ascii: "ascii_text s \<Longrightarrow> fold_text s = map lower_char s"
proof (induction s)
  case Nil
  then show ?case by (subst fold_text.simps) simp
next
  case (Cons c s)
  have "\<not> digit7 c" "ascii_text s" using Cons.prems by (simp_all add: ascii_text_def)
  moreover from this(1) have "strip_text (bytes_text [197, 191]) (c # s) = None" "strip_text (bytes_text [226, 132, 170]) (c # s) = None"
    using fold_starts by (auto simp: strip_text_def bytes_text_def)
  ultimately show ?case using Cons.IH by (subst fold_text.simps) simp
qed

lemma equal_fold_code [code]:
  "equal_fold a b =
     (if ascii_text a \<and> ascii_text b then length a = length b \<and> map lower_char a = map lower_char b
      else fold_text a = fold_text b)"
  by (auto simp: equal_fold_def fold_text_ascii dest: map_eq_imp_length_eq)

lemma classify_native:
  "body \<noteq> [] \<Longrightarrow> length body \<le> gatewayRetryBodyLimit \<Longrightarrow> status = 401 \<or> status = 429 \<Longrightarrow>
   gatewayNativeRejectionError proto status body = Some ms \<Longrightarrow>
   classifyGatewayHTTPFailure proto status body =
     (let read = (\<lambda>name. to_struct_string name (Some (JObj ms))); names = rejection_fields proto in
      if \<not> list_all (\<lambda>(name, _). fst (read name)) names then unclassified
      else if status = 401 \<and> list_ex (\<lambda>(name, auth, _). snd (read name) = auth) names
      then retryableGatewayRejection CredentialRejected ''native_auth_rejection''
      else if status = 429 \<and> list_ex (\<lambda>(name, _, rate). snd (read name) = rate) names
      then retryableGatewayRejection RateLimited ''native_rate_rejection''
      else unclassified)"
  by (auto simp: classifyGatewayHTTPFailure_def)

lemma read_whole:
  "resp_Body resp = Some (body, False) \<Longrightarrow> length body \<le> gatewayRetryBodyLimit \<Longrightarrow>
   fst (readGatewayHTTPFailure resp proto) = classifyGatewayHTTPFailure proto (resp_StatusCode resp) body"
  by (simp add: readGatewayHTTPFailure_def read_limited_def Let_def)

lemma demo_rejection_classified:
  "fst (readGatewayHTTPFailure demo_rejection ProtocolAnthropicMessages) =
     retryableGatewayRejection RateLimited ''native_rate_rejection''"
proof -
  have e: "gatewayNativeRejectionError ProtocolAnthropicMessages 429 demo_body = Some [(''type'', JStr ''rate_limit_error'')]"
    by code_simp
  have f: "list_all (\<lambda>(name, _). fst (to_struct_string name (Some (JObj [(''type'', JStr ''rate_limit_error'')]))))
      (rejection_fields ProtocolAnthropicMessages)"
    "list_ex (\<lambda>(name, _, rate). snd (to_struct_string name (Some (JObj [(''type'', JStr ''rate_limit_error'')]))) = rate)
      (rejection_fields ProtocolAnthropicMessages)" by code_simp+
  have l: "length demo_body \<le> gatewayRetryBodyLimit" "demo_body \<noteq> []" by (simp_all add: demo_body_def gatewayRetryBodyLimit_def)
  have b: "resp_Body demo_rejection = Some (demo_body, False)" "resp_StatusCode demo_rejection = 429"
    by (simp_all add: demo_rejection_def)
  show ?thesis
    unfolding read_whole[OF b(1) l(1)] b(2) classify_native[OF l(2,1) disjI2[OF refl] e] Let_def using f by simp
qed


end
