(* ===== verification/Source_Holders.thy ===== *)
theory Source_Holders
  imports Prelude "HOL-Library.AList"
begin

text \<open>
  The registry of credential sources in use, \<open>internal/routex/service/credential_source_holders.go\<close> and
  \<open>credential_source_process.go\<close>: a call takes a holder of the physical object its credential is read
  from, and a cleanup closes the object and waits until no holder is left. The states and holders are
  objects that are shared by pointer, so they live in lists and a pointer is an index; a channel is
  whether it has been closed, and closing it twice panics, which is the result \<open>None\<close>. The registry is
  used by many goroutines at once: what one of them does under the mutexes is one step here, and
  \<open>release\<close>, which gives the mutex of the holder back in between, is two.
\<close>

section \<open>The objects\<close>

datatype source_error = VaultUnavailable | ContextDone

record source_key =
  sk_CredentialID :: string
  sk_CredentialBirth :: string
  sk_ReferenceID :: string
  sk_IntegrationID :: string
  sk_IntegrationBirth :: string
  sk_RevisionID :: string
  sk_ReaderGeneration :: string
  sk_ReaderMethod :: string
  sk_Descriptor :: string
  sk_Proof :: string
  sk_PhysicalObject :: string
  sk_Marker :: string

definition no_key :: source_key where
  "no_key = \<lparr>sk_CredentialID = '''', sk_CredentialBirth = '''', sk_ReferenceID = '''', sk_IntegrationID = '''',
     sk_IntegrationBirth = '''', sk_RevisionID = '''', sk_ReaderGeneration = '''', sk_ReaderMethod = '''',
     sk_Descriptor = '''', sk_Proof = '''', sk_PhysicalObject = '''', sk_Marker = ''''\<rparr>"

definition object_key :: "string \<Rightarrow> source_key" where
  "object_key object = no_key\<lparr>sk_PhysicalObject := object\<rparr>"

definition physicalHolderKey :: "source_key \<Rightarrow> source_key" where
  "physicalHolderKey key = object_key (sk_PhysicalObject key)"

record source_state =
  ss_closed :: bool
  ss_poisoned :: bool
  ss_holders :: int
  ss_drained :: bool

definition fresh_state :: source_state where
  "fresh_state = \<lparr>ss_closed = False, ss_poisoned = False, ss_holders = 0, ss_drained = False\<rparr>"

text \<open>\<open>hd_pending\<close> holds between the two critical sections of \<open>release\<close>.\<close>

record holder =
  hd_key :: source_key
  hd_state :: nat
  hd_released :: bool
  hd_transferred :: bool
  hd_pending :: bool

record ticket =
  tk_claimed :: bool
  tk_released :: bool

record registry =
  rg_states :: "(source_key \<times> nat) list"
  rg_heap :: "source_state list"
  rg_holders :: "holder list"
  rg_tickets :: "ticket list"
  rg_processClosed :: bool
  rg_processPoisoned :: bool
  rg_processDrainClosed :: bool
  rg_processHolders :: int
  rg_processDrained :: "bool option"

definition new_registry :: registry where
  "new_registry = \<lparr>rg_states = [], rg_heap = [], rg_holders = [], rg_tickets = [], rg_processClosed = False,
     rg_processPoisoned = False, rg_processDrainClosed = False, rg_processHolders = 0, rg_processDrained = None\<rparr>"

definition set_state :: "nat \<Rightarrow> source_state \<Rightarrow> registry \<Rightarrow> registry" where
  "set_state a s r = r\<lparr>rg_heap := (rg_heap r)[a := s]\<rparr>"

definition set_holder :: "nat \<Rightarrow> holder \<Rightarrow> registry \<Rightarrow> registry" where
  "set_holder h x r = r\<lparr>rg_holders := (rg_holders r)[h := x]\<rparr>"

section \<open>The registry\<close>

definition personalModelETag :: "string \<Rightarrow> bool" where
  "personalModelETag s \<longleftrightarrow>
     length s = 64 \<and> list_all (\<lambda>c. is_digit c \<or> 97 \<le> (of_char c :: nat) \<and> (of_char c :: nat) \<le> 102) s"

definition sourceCapacity :: nat where "sourceCapacity = 5000"

definition stateLocked :: "source_key \<Rightarrow> registry \<Rightarrow> (source_error + nat) \<times> registry" where
  "stateLocked key r =
     (if \<not> personalModelETag (sk_PhysicalObject key) then (Inl VaultUnavailable, r)
      else case map_of (rg_states r) (physicalHolderKey key) of
          Some a \<Rightarrow> (Inr a, r)
        | None \<Rightarrow>
            if length (rg_states r) \<ge> sourceCapacity then (Inl VaultUnavailable, r)
            else (Inr (length (rg_heap r)),
                  r\<lparr>rg_heap := rg_heap r @ [fresh_state],
                    rg_states := (physicalHolderKey key, length (rg_heap r)) # rg_states r\<rparr>))"

definition acquire :: "source_key \<Rightarrow> registry \<Rightarrow> (source_error + nat option) \<times> registry" where
  "acquire key r =
     (if key = no_key then (Inr None, r)
      else if rg_processClosed r then (Inl VaultUnavailable, r)
      else case stateLocked key r of
          (Inl e, r1) \<Rightarrow> (Inl e, r1)
        | (Inr a, r1) \<Rightarrow>
            let s = rg_heap r1 ! a in
            if ss_closed s then (Inl VaultUnavailable, r1)
            else (Inr (Some (length (rg_holders r1))),
                  (set_state a (s\<lparr>ss_holders := ss_holders s + 1\<rparr>) r1)
                    \<lparr>rg_processHolders := rg_processHolders r1 + 1,
                     rg_holders := rg_holders r1 @
                       [\<lparr>hd_key = key, hd_state = a, hd_released = False, hd_transferred = False, hd_pending = False\<rparr>]\<rparr>))"

text \<open>\<open>close\<close> of a channel.\<close>

definition close_channel :: "bool \<Rightarrow> bool option" where
  "close_channel closed = (if closed then None else Some True)"

definition close_drained :: "nat \<Rightarrow> registry \<Rightarrow> registry option" where
  "close_drained a r =
     (let s = rg_heap r ! a in map_option (\<lambda>c. set_state a (s\<lparr>ss_drained := c\<rparr>) r) (close_channel (ss_drained s)))"

text \<open>What closes a state, in \<open>closeOnly\<close> and \<open>closeAndWait\<close>.\<close>

definition close_state :: "nat \<Rightarrow> registry \<Rightarrow> registry option" where
  "close_state a r =
     (let s = rg_heap r ! a in
      if ss_closed s then Some r
      else let r1 = set_state a (s\<lparr>ss_closed := True\<rparr>) r in
        if ss_holders s = 0 then close_drained a r1 else Some r1)"

definition closeOnly :: "string \<Rightarrow> registry \<Rightarrow> (bool \<times> registry) option" where
  "closeOnly object r =
     (case stateLocked (object_key object) r of
        (Inl _, r1) \<Rightarrow> Some (False, r1)
      | (Inr a, r1) \<Rightarrow>
          map_option (\<lambda>r2. (ss_holders (rg_heap r2 ! a) = 0 \<and> \<not> ss_poisoned (rg_heap r2 ! a), r2)) (close_state a r1))"

definition joined :: "string \<Rightarrow> registry \<Rightarrow> bool" where
  "joined object r =
     (case map_of (rg_states r) (object_key object) of
        None \<Rightarrow> False
      | Some a \<Rightarrow> let s = rg_heap r ! a in ss_closed s \<and> ss_holders s = 0 \<and> \<not> ss_poisoned s)"

text \<open>\<open>closeAndWait\<close>: it closes the state, waits, and reads what it finds; \<open>None\<close> in the second part is to
  wait on.\<close>

definition closeAndWait_close :: "source_key \<Rightarrow> registry \<Rightarrow> ((source_error + nat) \<times> registry) option" where
  "closeAndWait_close key r =
     (if key = no_key then Some (Inl VaultUnavailable, r)
      else case stateLocked key r of
          (Inl e, r1) \<Rightarrow> Some (Inl e, r1)
        | (Inr a, r1) \<Rightarrow> map_option (\<lambda>r2. (Inr a, r2)) (close_state a r1))"

definition closeAndWait_wait :: "nat \<Rightarrow> bool \<Rightarrow> registry \<Rightarrow> (source_error + unit) option" where
  "closeAndWait_wait a cancelled r =
     (let s = rg_heap r ! a in
      if ss_drained s then Some (if ss_poisoned s then Inl VaultUnavailable else Inr ())
      else if cancelled then Some (Inl ContextDone) else None)"

section \<open>The process\<close>

definition processDrainedLocked :: "registry \<Rightarrow> registry option" where
  "processDrainedLocked r =
     (if rg_processClosed r \<and> rg_processHolders r = 0 \<and> \<not> rg_processDrainClosed r
      then (case rg_processDrained r of
              None \<Rightarrow> None
            | Some c \<Rightarrow> map_option (\<lambda>c'. r\<lparr>rg_processDrainClosed := True, rg_processDrained := Some c'\<rparr>) (close_channel c))
      else Some r)"

definition processAcquire :: "registry \<Rightarrow> (source_error + nat) \<times> registry" where
  "processAcquire r =
     (if rg_processClosed r then (Inl VaultUnavailable, r)
      else (Inr (length (rg_tickets r)),
            r\<lparr>rg_processHolders := rg_processHolders r + 1,
              rg_tickets := rg_tickets r @ [\<lparr>tk_claimed = False, tk_released = False\<rparr>]\<rparr>))"

definition closeProcessAdmission :: "registry \<Rightarrow> registry option" where
  "closeProcessAdmission r =
     processDrainedLocked
      (if rg_processClosed r then r else r\<lparr>rg_processClosed := True, rg_processDrained := Some False\<rparr>)"

definition processJoined :: "registry \<Rightarrow> bool" where
  "processJoined r \<longleftrightarrow> rg_processClosed r \<and> rg_processHolders r = 0 \<and> \<not> rg_processPoisoned r"

text \<open>The end of \<open>joinProcess\<close>, after \<open>closeProcessAdmission\<close>.\<close>

definition joinProcess_wait :: "bool \<Rightarrow> registry \<Rightarrow> (source_error + unit) option" where
  "joinProcess_wait cancelled r =
     (if rg_processDrained r = Some True
      then Some (if cancelled then Inl ContextDone else if processJoined r then Inr () else Inl VaultUnavailable)
      else if cancelled then Some (Inl ContextDone) else None)"

definition ticket_claim :: "nat \<Rightarrow> registry \<Rightarrow> bool \<times> registry" where
  "ticket_claim t r =
     (let x = rg_tickets r ! t in
      if tk_claimed x \<or> tk_released x then (False, r)
      else (True, r\<lparr>rg_tickets := (rg_tickets r)[t := x\<lparr>tk_claimed := True\<rparr>]\<rparr>))"

definition ticket_poison :: "registry \<Rightarrow> registry" where
  "ticket_poison r = r\<lparr>rg_processPoisoned := True\<rparr>"

definition ticket_release :: "nat \<Rightarrow> registry \<Rightarrow> registry option" where
  "ticket_release t r =
     (let x = rg_tickets r ! t in
      if tk_released x then Some r
      else processDrainedLocked
        (r\<lparr>rg_tickets := (rg_tickets r)[t := x\<lparr>tk_released := True\<rparr>], rg_processHolders := rg_processHolders r - 1\<rparr>))"

section \<open>Holders\<close>

definition release_mark :: "nat \<Rightarrow> registry \<Rightarrow> registry" where
  "release_mark h r =
     (let x = rg_holders r ! h in
      if hd_released x then r else set_holder h (x\<lparr>hd_released := True, hd_pending := True\<rparr>) r)"

definition remove_key :: "source_key \<Rightarrow> registry \<Rightarrow> registry" where
  "remove_key key r = r\<lparr>rg_states := filter (\<lambda>(k, _). k \<noteq> key) (rg_states r)\<rparr>"

definition release_drop :: "nat \<Rightarrow> registry \<Rightarrow> registry option" where
  "release_drop h r =
     (let x = rg_holders r ! h;
          a = hd_state x;
          s = (rg_heap r ! a)\<lparr>ss_holders := ss_holders (rg_heap r ! a) - 1\<rparr>;
          r1 = (set_state a s (set_holder h (x\<lparr>hd_pending := False\<rparr>) r))\<lparr>rg_processHolders := rg_processHolders r - 1\<rparr>
      in case processDrainedLocked r1 of
           None \<Rightarrow> None
         | Some r2 \<Rightarrow>
             if ss_holders s = 0 then
               (if ss_closed s then close_drained a r2
                else if \<not> ss_poisoned s then Some (remove_key (physicalHolderKey (hd_key x)) r2) else Some r2)
             else Some r2)"

text \<open>\<open>release\<close> and \<open>releasePlan\<close> where no other goroutine interferes.\<close>

definition release :: "nat \<Rightarrow> registry \<Rightarrow> registry option" where
  "release h r = (if hd_released (rg_holders r ! h) then Some r else release_drop h (release_mark h r))"

definition releasePlan :: "nat \<Rightarrow> registry \<Rightarrow> registry option" where
  "releasePlan h r = (if hd_transferred (rg_holders r ! h) then Some r else release h r)"

definition poison :: "nat \<Rightarrow> registry \<Rightarrow> registry" where
  "poison h r =
     (let x = rg_holders r ! h; s = rg_heap r ! hd_state x in
      if hd_released x then r
      else (set_state (hd_state x) (s\<lparr>ss_poisoned := True\<rparr>) r)\<lparr>rg_processPoisoned := True\<rparr>)"

definition admitUse :: "nat option \<Rightarrow> registry \<Rightarrow> bool" where
  "admitUse holder r =
     (case holder of
        None \<Rightarrow> True
      | Some h \<Rightarrow>
          \<not> hd_released (rg_holders r ! h) \<and> \<not> ss_closed (rg_heap r ! hd_state (rg_holders r ! h)) \<and> \<not> rg_processClosed r)"

definition transfer_body :: "nat \<Rightarrow> registry \<Rightarrow> registry" where
  "transfer_body h r = set_holder h ((rg_holders r ! h)\<lparr>hd_transferred := True\<rparr>) r"

text \<open>The once of \<open>credentialHeldBody.Close\<close>, where no other goroutine interferes.\<close>

definition close_body :: "nat \<Rightarrow> bool \<Rightarrow> registry \<Rightarrow> registry option" where
  "close_body h failed r = release h (if failed then poison h r else r)"

end
