(* ===== verification/Source_Claims.thy ===== *)
theory Source_Claims
  imports Source_Holders
begin

text \<open>
  The registry of credential sources under any interleaving of its users: the counters are the holders
  that have not let go, every pointer to a state in use is the one the registry finds, no channel is
  closed twice, and a source that was found joined stays so.
\<close>

section \<open>Steps\<close>

datatype source_op =
  Acquire source_key | CloseOnly string | CloseAndWait source_key | ReleaseMark nat | ReleaseDrop nat | Poison nat |
  TransferBody nat | ProcessAcquire | TicketClaim nat | TicketPoison | TicketRelease nat | CloseProcess

text \<open>An operation is called on a holder or a ticket that exists, and the second part of \<open>release\<close> follows
  its first.\<close>

definition callable :: "source_op \<Rightarrow> registry \<Rightarrow> bool" where
  "callable op r =
     (case op of
        ReleaseMark h \<Rightarrow> h < length (rg_holders r)
      | ReleaseDrop h \<Rightarrow> h < length (rg_holders r) \<and> hd_pending (rg_holders r ! h)
      | Poison h \<Rightarrow> h < length (rg_holders r)
      | TransferBody h \<Rightarrow> h < length (rg_holders r)
      | TicketClaim t \<Rightarrow> t < length (rg_tickets r)
      | TicketRelease t \<Rightarrow> t < length (rg_tickets r)
      | _ \<Rightarrow> True)"

definition run_source :: "source_op \<Rightarrow> registry \<Rightarrow> registry option" where
  "run_source op r =
     (case op of
        Acquire key \<Rightarrow> Some (snd (acquire key r))
      | CloseOnly object \<Rightarrow> map_option snd (closeOnly object r)
      | CloseAndWait key \<Rightarrow> map_option snd (closeAndWait_close key r)
      | ReleaseMark h \<Rightarrow> Some (release_mark h r)
      | ReleaseDrop h \<Rightarrow> release_drop h r
      | Poison h \<Rightarrow> Some (poison h r)
      | TransferBody h \<Rightarrow> Some (transfer_body h r)
      | ProcessAcquire \<Rightarrow> Some (snd (processAcquire r))
      | TicketClaim t \<Rightarrow> Some (snd (ticket_claim t r))
      | TicketPoison \<Rightarrow> Some (ticket_poison r)
      | TicketRelease t \<Rightarrow> ticket_release t r
      | CloseProcess \<Rightarrow> closeProcessAdmission r)"

inductive source_steps :: "registry \<Rightarrow> registry \<Rightarrow> bool" where
  source_none: "source_steps r r"
| source_step: "source_steps r s \<Longrightarrow> callable op s \<Longrightarrow> run_source op s = Some t \<Longrightarrow> source_steps r t"

section \<open>The invariant\<close>

definition owns :: "holder \<Rightarrow> bool" where
  "owns x \<longleftrightarrow> \<not> hd_released x \<or> hd_pending x"

definition owners :: "nat \<Rightarrow> registry \<Rightarrow> nat" where
  "owners a r = length (filter (\<lambda>x. owns x \<and> hd_state x = a) (rg_holders r))"

definition all_owners :: "registry \<Rightarrow> nat" where
  "all_owners r = length (filter owns (rg_holders r)) + length (filter (\<lambda>x. \<not> tk_released x) (rg_tickets r))"

definition states_ok :: "registry \<Rightarrow> bool" where
  "states_ok r \<longleftrightarrow>
     distinct (map fst (rg_states r)) \<and> distinct (map snd (rg_states r)) \<and> length (rg_states r) \<le> sourceCapacity \<and>
     (\<forall>(k, a) \<in> set (rg_states r). a < length (rg_heap r) \<and> k = physicalHolderKey k \<and> personalModelETag (sk_PhysicalObject k))"

definition pointers_ok :: "registry \<Rightarrow> bool" where
  "pointers_ok r \<longleftrightarrow>
     (\<forall>x \<in> set (rg_holders r). (hd_pending x \<longrightarrow> hd_released x) \<and> hd_state x < length (rg_heap r) \<and>
        (owns x \<longrightarrow> (physicalHolderKey (hd_key x), hd_state x) \<in> set (rg_states r)))"

definition state_ok :: "nat \<Rightarrow> source_state \<Rightarrow> bool" where
  "state_ok n s \<longleftrightarrow> ss_holders s = int n \<and> (ss_drained s \<longleftrightarrow> ss_closed s \<and> n = 0)"

definition counts_ok :: "registry \<Rightarrow> bool" where
  "counts_ok r \<longleftrightarrow> (\<forall>(k, a) \<in> set (rg_states r). state_ok (owners a r) (rg_heap r ! a))"

definition process_ok :: "registry \<Rightarrow> bool" where
  "process_ok r \<longleftrightarrow>
     rg_processHolders r = int (all_owners r) \<and>
     (rg_processDrainClosed r \<longleftrightarrow> rg_processClosed r \<and> rg_processHolders r = 0) \<and>
     rg_processDrained r = (if rg_processClosed r then Some (rg_processDrainClosed r) else None)"

definition registry_ok :: "registry \<Rightarrow> bool" where
  "registry_ok r \<longleftrightarrow> states_ok r \<and> pointers_ok r \<and> counts_ok r \<and> process_ok r"

section \<open>Counting\<close>

lemma count_update:
  "i < length xs \<Longrightarrow>
   length (filter P (xs[i := y])) + (if P (xs ! i) then 1 else 0) = length (filter P xs) + (if P y then 1 else 0)"
proof (induction xs arbitrary: i)
  case (Cons x xs)
  then show ?case by (cases i) auto
qed simp

lemma owners_simps [simp]:
  "owners a (set_state b s r) = owners a r"
  "owners a (r\<lparr>rg_processHolders := n\<rparr>) = owners a r"
  "owners a (r\<lparr>rg_processPoisoned := p\<rparr>) = owners a r"
  "owners a (r\<lparr>rg_processClosed := p\<rparr>) = owners a r"
  "owners a (r\<lparr>rg_processDrainClosed := p\<rparr>) = owners a r"
  "owners a (r\<lparr>rg_processDrained := c\<rparr>) = owners a r"
  "owners a (r\<lparr>rg_tickets := ts\<rparr>) = owners a r"
  "owners a (r\<lparr>rg_states := ms\<rparr>) = owners a r"
  "owners a (r\<lparr>rg_heap := ss\<rparr>) = owners a r"
  by (simp_all add: owners_def set_state_def)

lemma set_state_simps [simp]:
  "rg_states (set_state a s r) = rg_states r" "rg_holders (set_state a s r) = rg_holders r"
  "rg_tickets (set_state a s r) = rg_tickets r" "rg_processClosed (set_state a s r) = rg_processClosed r"
  "rg_processHolders (set_state a s r) = rg_processHolders r" "rg_processPoisoned (set_state a s r) = rg_processPoisoned r"
  "rg_processDrainClosed (set_state a s r) = rg_processDrainClosed r"
  "rg_processDrained (set_state a s r) = rg_processDrained r"
  "length (rg_heap (set_state a s r)) = length (rg_heap r)"
  by (simp_all add: set_state_def)

lemma set_state_heap [simp]:
  "a < length (rg_heap r) \<Longrightarrow> rg_heap (set_state b s r) ! a = (if a = b then s else rg_heap r ! a)"
  by (auto simp: set_state_def)

lemma registry_okI:
  assumes "states_ok r" "pointers_ok r" "counts_ok r" "process_ok r"
  shows "registry_ok r"
  using assms by (simp add: registry_ok_def)

lemma state_of_key:
  assumes "states_ok r" "map_of (rg_states r) k = Some a"
  shows "(k, a) \<in> set (rg_states r)" "a < length (rg_heap r)"
  using assms map_of_SomeD[OF assms(2)] by (auto simp: states_ok_def)

lemma key_of_state: "states_ok r \<Longrightarrow> (k, a) \<in> set (rg_states r) \<Longrightarrow> map_of (rg_states r) k = Some a"
  by (auto simp: states_ok_def)

text \<open>A state is rewritten under the count of its holders.\<close>

lemma set_state_ok:
  assumes "registry_ok r" "(k, a) \<in> set (rg_states r)" "state_ok (owners a r) s"
  shows "registry_ok (set_state a s r)"
  using assms
  by (auto simp: registry_ok_def states_ok_def pointers_ok_def counts_ok_def process_ok_def all_owners_def split: prod.splits)

section \<open>Operations keep the invariant\<close>

lemma personalModelETag_nonempty: "personalModelETag s \<Longrightarrow> s \<noteq> []"
  by (auto simp: personalModelETag_def)

lemma physicalHolderKey_idem [simp]: "physicalHolderKey (physicalHolderKey k) = physicalHolderKey k"
  by (simp add: physicalHolderKey_def object_key_def)

lemma physicalHolderKey_object [simp]: "physicalHolderKey (object_key s) = object_key s" "sk_PhysicalObject (object_key s) = s"
  by (simp_all add: physicalHolderKey_def object_key_def)

lemma object_key_inject [simp]: "object_key s = object_key t \<longleftrightarrow> s = t"
  by (metis physicalHolderKey_object(2))

lemma stateLocked_ok:
  assumes "registry_ok r" "stateLocked key r = (x, t)"
  shows "registry_ok t" "x = Inr a \<Longrightarrow> (physicalHolderKey key, a) \<in> set (rg_states t)"
    "rg_holders t = rg_holders r" "rg_tickets t = rg_tickets r" "rg_processClosed t = rg_processClosed r"
    "rg_processHolders t = rg_processHolders r"
    "map_of (rg_states r) k = Some b \<Longrightarrow> map_of (rg_states t) k = Some b \<and> rg_heap t ! b = rg_heap r ! b"
proof -
  have so: "states_ok r" using assms(1) by (simp add: registry_ok_def)
  consider (same) "t = r" "\<forall>a. x = Inr a \<longrightarrow> map_of (rg_states r) (physicalHolderKey key) = Some a"
    | (fresh) "map_of (rg_states r) (physicalHolderKey key) = None" "x = Inr (length (rg_heap r))"
        "t = r\<lparr>rg_heap := rg_heap r @ [fresh_state], rg_states := (physicalHolderKey key, length (rg_heap r)) # rg_states r\<rparr>"
        "length (rg_states r) < sourceCapacity" "personalModelETag (sk_PhysicalObject key)"
    using assms(2) by (auto simp: stateLocked_def split: if_splits option.splits)
  then have "registry_ok t \<and> (x = Inr a \<longrightarrow> (physicalHolderKey key, a) \<in> set (rg_states t)) \<and> rg_holders t = rg_holders r \<and>
      rg_tickets t = rg_tickets r \<and> rg_processClosed t = rg_processClosed r \<and> rg_processHolders t = rg_processHolders r \<and>
      (map_of (rg_states r) k = Some b \<longrightarrow> map_of (rg_states t) k = Some b \<and> rg_heap t ! b = rg_heap r ! b)"
  proof cases
    case same
    then show ?thesis using assms(1) state_of_key(1)[OF so] by auto
  next
    case fresh
    have out: "physicalHolderKey key \<notin> fst ` set (rg_states r)" using fresh(1) by (simp add: map_of_eq_None_iff)
    have none: "owners (length (rg_heap r)) r = 0"
      using assms(1) by (auto simp: registry_ok_def pointers_ok_def owners_def filter_empty_conv)
    have "states_ok t"
      using so out fresh(3-5) by (auto simp: states_ok_def physicalHolderKey_def split: prod.splits)
    moreover have "pointers_ok t" using assms(1) fresh(3) by (auto simp: registry_ok_def pointers_ok_def)
    moreover have "counts_ok t"
      using assms(1) so fresh(3) none
      by (fastforce simp: registry_ok_def counts_ok_def states_ok_def nth_append state_ok_def fresh_state_def)
    moreover have "process_ok t" using assms(1) fresh(3) by (simp add: registry_ok_def process_ok_def all_owners_def)
    moreover have "map_of (rg_states r) k = Some b \<Longrightarrow> map_of (rg_states t) k = Some b \<and> rg_heap t ! b = rg_heap r ! b"
      using fresh(1,3) state_of_key(2)[OF so] by (auto simp: nth_append)
    ultimately show ?thesis using fresh(2,3) registry_okI by auto
  qed
  then show "registry_ok t" "x = Inr a \<Longrightarrow> (physicalHolderKey key, a) \<in> set (rg_states t)"
    "rg_holders t = rg_holders r" "rg_tickets t = rg_tickets r" "rg_processClosed t = rg_processClosed r"
    "rg_processHolders t = rg_processHolders r"
    "map_of (rg_states r) k = Some b \<Longrightarrow> map_of (rg_states t) k = Some b \<and> rg_heap t ! b = rg_heap r ! b" by blast+
qed

lemma state_found: "registry_ok r \<Longrightarrow> (k, a) \<in> set (rg_states r) \<Longrightarrow> a < length (rg_heap r) \<and> state_ok (owners a r) (rg_heap r ! a)"
  by (auto simp: registry_ok_def states_ok_def counts_ok_def)

lemma close_state_ok:
  assumes "registry_ok r" "(k, a) \<in> set (rg_states r)"
  obtains t where "close_state a r = Some t" "registry_ok t" "rg_states t = rg_states r" "rg_holders t = rg_holders r"
    "ss_closed (rg_heap t ! a)" "ss_poisoned (rg_heap t ! a) = ss_poisoned (rg_heap r ! a)"
    "ss_holders (rg_heap t ! a) = ss_holders (rg_heap r ! a)" "\<And>b. b \<noteq> a \<Longrightarrow> b < length (rg_heap r) \<Longrightarrow> rg_heap t ! b = rg_heap r ! b"
proof -
  define s where "s = rg_heap r ! a"
  have a: "a < length (rg_heap r)" "state_ok (owners a r) s" using state_found[OF assms] by (simp_all add: s_def)
  show thesis
  proof (cases "ss_closed s")
    case True
    then show thesis using that[of r] assms(1) by (auto simp: close_state_def s_def)
  next
    case False
    define s' where "s' = (if ss_holders s = 0 then s\<lparr>ss_closed := True, ss_drained := True\<rparr> else s\<lparr>ss_closed := True\<rparr>)"
    have "close_state a r = Some (set_state a s' r)"
      using False a by (auto simp: close_state_def s'_def close_drained_def close_channel_def Let_def s_def state_ok_def set_state_def)
    moreover have "state_ok (owners a r) s'" using a(2) False by (auto simp: s'_def state_ok_def)
    ultimately show thesis using that[of "set_state a s' r"] set_state_ok[OF assms] a(1) by (auto simp: s'_def s_def)
  qed
qed

lemma acquire_ok:
  assumes "registry_ok r" "acquire key r = (x, t)"
  shows "registry_ok t"
proof (cases "key = no_key \<or> rg_processClosed r")
  case True
  then show ?thesis using assms by (auto simp: acquire_def split: if_splits)
next
  case False
  obtain y u where y: "stateLocked key r = (y, u)" by fastforce
  note L = stateLocked_ok[OF assms(1) y]
  show ?thesis
  proof (cases "\<exists>a. y = Inr a \<and> \<not> ss_closed (rg_heap u ! a)")
    case no: False
    then have "t = u" using assms(2) False y by (auto simp: acquire_def Let_def split: sum.splits if_splits)
    then show ?thesis using L(1) by simp
  next
    case True
    then obtain a where a: "y = Inr a" "\<not> ss_closed (rg_heap u ! a)" by blast
    define s where "s = rg_heap u ! a"
    define x1 where "x1 = \<lparr>hd_key = key, hd_state = a, hd_released = False, hd_transferred = False, hd_pending = False\<rparr>"
    have t: "t = (set_state a (s\<lparr>ss_holders := ss_holders s + 1\<rparr>) u)
        \<lparr>rg_processHolders := rg_processHolders u + 1, rg_holders := rg_holders u @ [x1]\<rparr>"
      using assms(2) False y a by (auto simp: acquire_def Let_def s_def x1_def)
    have k: "(physicalHolderKey key, a) \<in> set (rg_states u)" using L(2) a(1) by simp
    note f = state_found[OF L(1) k]
    have own: "owners b t = owners b u + (if b = a then 1 else 0)" for b
      by (simp add: t owners_def x1_def owns_def)
    have "states_ok t" using L(1) by (simp add: registry_ok_def states_ok_def t)
    moreover have "pointers_ok t"
      using L(1) k f by (auto simp: registry_ok_def pointers_ok_def t x1_def)
    moreover have "counts_ok t"
    proof -
      have "state_ok (owners b t) (rg_heap t ! b)" if "(k', b) \<in> set (rg_states u)" for k' b
      proof -
        have b: "b < length (rg_heap u)" "state_ok (owners b u) (rg_heap u ! b)" using state_found[OF L(1) that] by simp_all
        have "rg_heap t ! b = (if b = a then s\<lparr>ss_holders := ss_holders s + 1\<rparr> else rg_heap u ! b)"
          using b(1) by (simp add: t)
        then show ?thesis using b f a(2) unfolding own[of b] by (auto simp: state_ok_def s_def)
      qed
      then show ?thesis by (auto simp: counts_ok_def t)
    qed
    moreover have "process_ok t"
      using L(1) False L(5) by (auto simp: registry_ok_def process_ok_def all_owners_def t x1_def owns_def)
    ultimately show ?thesis by (rule registry_okI)
  qed
qed

lemma closeOnly_ok:
  assumes "registry_ok r"
  obtains b t where "closeOnly object r = Some (b, t)" "registry_ok t" "rg_holders t = rg_holders r"
    "\<And>k a. map_of (rg_states r) k = Some a \<Longrightarrow> ss_closed (rg_heap r ! a) \<Longrightarrow>
       map_of (rg_states t) k = Some a \<and> rg_heap t ! a = rg_heap r ! a"
    "b \<Longrightarrow> joined object t"
proof -
  obtain y u where y: "stateLocked (object_key object) r = (y, u)" by fastforce
  note L = stateLocked_ok[OF assms y]
  show thesis
  proof (cases y)
    case (Inl e)
    then show thesis using that[of False u] y L by (simp add: closeOnly_def)
  next
    case (Inr a)
    then have k: "(object_key object, a) \<in> set (rg_states u)" using L(2)[OF Inr] by simp
    obtain t where t: "close_state a u = Some t" "registry_ok t" "rg_states t = rg_states u" "rg_holders t = rg_holders u"
        "ss_closed (rg_heap t ! a)" "ss_poisoned (rg_heap t ! a) = ss_poisoned (rg_heap u ! a)"
        "ss_holders (rg_heap t ! a) = ss_holders (rg_heap u ! a)"
        "\<And>b. b \<noteq> a \<Longrightarrow> b < length (rg_heap u) \<Longrightarrow> rg_heap t ! b = rg_heap u ! b"
      by (rule close_state_ok[OF L(1) k]) blast
    have st: "states_ok u" using L(1) by (simp add: registry_ok_def)
    have keep: "map_of (rg_states t) k' = Some b \<and> rg_heap t ! b = rg_heap r ! b"
      if "map_of (rg_states r) k' = Some b" "ss_closed (rg_heap r ! b)" for k' b
    proof -
      have b: "map_of (rg_states u) k' = Some b" "rg_heap u ! b = rg_heap r ! b" using L(7)[OF that(1)] by simp_all
      have "rg_heap t ! b = rg_heap u ! b"
      proof (cases "b = a")
        case True
        then have "close_state a u = Some u" using b(2) that(2) by (simp add: close_state_def)
        then show ?thesis using t(1) by simp
      next
        case False
        then show ?thesis using t(8) state_of_key(2)[OF st b(1)] by simp
      qed
      then show ?thesis using b t(3) by simp
    qed
    have eq: "closeOnly object r = Some (ss_holders (rg_heap t ! a) = 0 \<and> \<not> ss_poisoned (rg_heap t ! a), t)"
      using y Inr t(1) by (simp add: closeOnly_def)
    have "joined object t" if "ss_holders (rg_heap t ! a) = 0 \<and> \<not> ss_poisoned (rg_heap t ! a)"
      using that t(3,5) key_of_state[OF st k] by (simp add: joined_def)
    then show thesis using that[OF eq t(2)] t(4) L(3) keep by simp
  qed
qed

lemma closeAndWait_ok:
  assumes "registry_ok r"
  obtains x t where "closeAndWait_close key r = Some (x, t)" "registry_ok t" "rg_holders t = rg_holders r"
    "\<And>k a. map_of (rg_states r) k = Some a \<Longrightarrow> ss_closed (rg_heap r ! a) \<Longrightarrow>
       map_of (rg_states t) k = Some a \<and> rg_heap t ! a = rg_heap r ! a"
proof (cases "key = no_key")
  case True
  then show thesis using that[of "Inl VaultUnavailable" r] assms by (simp add: closeAndWait_close_def)
next
  case False
  obtain y u where y: "stateLocked key r = (y, u)" by fastforce
  have same: "stateLocked (object_key (sk_PhysicalObject key)) r = stateLocked key r"
    unfolding stateLocked_def physicalHolderKey_object physicalHolderKey_def[of key] by (rule refl)
  obtain b t where t: "closeOnly (sk_PhysicalObject key) r = Some (b, t)" "registry_ok t" "rg_holders t = rg_holders r"
    "\<And>k a. map_of (rg_states r) k = Some a \<Longrightarrow> ss_closed (rg_heap r ! a) \<Longrightarrow>
       map_of (rg_states t) k = Some a \<and> rg_heap t ! a = rg_heap r ! a"
    by (rule closeOnly_ok[OF assms, of "sk_PhysicalObject key"]) blast
  show thesis
  proof (cases y)
    case (Inl e)
    then have "closeAndWait_close key r = Some (Inl e, t)"
      using False y t(1) by (simp add: closeAndWait_close_def closeOnly_def same)
    then show thesis using that t(2-4) by simp
  next
    case (Inr a)
    then have "closeAndWait_close key r = Some (Inr a, t)"
      using False y t(1) by (auto simp: closeAndWait_close_def closeOnly_def same)
    then show thesis using that t(2-4) by simp
  qed
qed

section \<open>Releasing\<close>

lemma set_holder_simps [simp]:
  "rg_states (set_holder h x r) = rg_states r" "rg_heap (set_holder h x r) = rg_heap r"
  "rg_tickets (set_holder h x r) = rg_tickets r" "rg_processClosed (set_holder h x r) = rg_processClosed r"
  "rg_processHolders (set_holder h x r) = rg_processHolders r" "rg_processPoisoned (set_holder h x r) = rg_processPoisoned r"
  "rg_processDrainClosed (set_holder h x r) = rg_processDrainClosed r"
  "rg_processDrained (set_holder h x r) = rg_processDrained r"
  "rg_holders (set_holder h x r) = (rg_holders r)[h := x]"
  by (simp_all add: set_holder_def)

text \<open>A holder is rewritten without a change of what it owns.\<close>

lemma set_holder_ok:
  assumes "registry_ok r" "h < length (rg_holders r)" "owns x = owns (rg_holders r ! h)"
    "hd_state x = hd_state (rg_holders r ! h)" "hd_key x = hd_key (rg_holders r ! h)" "hd_pending x \<longrightarrow> hd_released x"
  shows "registry_ok (set_holder h x r)" "owners a (set_holder h x r) = owners a r"
proof -
  have own: "owners a (set_holder h x r) = owners a r" for a
    using count_update[OF assms(2), of "\<lambda>x. owns x \<and> hd_state x = a" x] assms(3,4) by (auto simp: owners_def split: if_splits)
  then show "owners a (set_holder h x r) = owners a r" .
  have all: "all_owners (set_holder h x r) = all_owners r"
    using count_update[OF assms(2), of owns x] assms(3) by (auto simp: all_owners_def split: if_splits)
  have "pointers_ok (set_holder h x r)"
    using assms nth_mem[OF assms(2)] by (fastforce simp: registry_ok_def pointers_ok_def dest!: set_update_subset_insert[THEN subsetD])
  then show "registry_ok (set_holder h x r)"
    using assms(1) own all by (simp add: registry_ok_def states_ok_def counts_ok_def process_ok_def)
qed

lemma release_mark_ok:
  assumes "registry_ok r" "h < length (rg_holders r)"
  shows "registry_ok (release_mark h r)"
proof (cases "hd_released (rg_holders r ! h)")
  case True
  then show ?thesis using assms(1) by (simp add: release_mark_def)
next
  case False
  then show ?thesis using set_holder_ok(1)[OF assms] by (simp add: release_mark_def Let_def owns_def)
qed

lemma transfer_body_ok: "registry_ok r \<Longrightarrow> h < length (rg_holders r) \<Longrightarrow> registry_ok (transfer_body h r)"
  unfolding transfer_body_def
proof (rule set_holder_ok(1))
  assume "registry_ok r" "h < length (rg_holders r)"
  then have "hd_pending (rg_holders r ! h) \<longrightarrow> hd_released (rg_holders r ! h)" by (simp add: registry_ok_def pointers_ok_def)
  then show "hd_pending ((rg_holders r ! h)\<lparr>hd_transferred := True\<rparr>) \<longrightarrow> hd_released ((rg_holders r ! h)\<lparr>hd_transferred := True\<rparr>)"
    by simp
qed (simp_all add: owns_def)

lemma poison_ok:
  assumes "registry_ok r" "h < length (rg_holders r)"
  shows "registry_ok (poison h r)"
proof (cases "hd_released (rg_holders r ! h)")
  case True
  then show ?thesis using assms(1) by (simp add: poison_def)
next
  case False
  define a where "a = hd_state (rg_holders r ! h)"
  have k: "(physicalHolderKey (hd_key (rg_holders r ! h)), a) \<in> set (rg_states r)"
    using assms False nth_mem[OF assms(2)] by (auto simp: registry_ok_def pointers_ok_def owns_def a_def)
  have "registry_ok (set_state a ((rg_heap r ! a)\<lparr>ss_poisoned := True\<rparr>) r)"
    using set_state_ok[OF assms(1) k] state_found[OF assms(1) k] by (simp add: state_ok_def)
  then show ?thesis using False
    by (simp add: poison_def Let_def a_def registry_ok_def states_ok_def pointers_ok_def counts_ok_def process_ok_def all_owners_def)
qed

lemma processDrained_ok:
  assumes "rg_processHolders r = int (all_owners r)" "rg_processDrainClosed r \<Longrightarrow> rg_processClosed r \<and> rg_processHolders r = 0"
    "rg_processDrained r = (if rg_processClosed r then Some (rg_processDrainClosed r) else None)"
  obtains t where "processDrainedLocked r = Some t" "process_ok t" "rg_states t = rg_states r" "rg_heap t = rg_heap r"
    "rg_holders t = rg_holders r" "rg_tickets t = rg_tickets r"
proof (cases "rg_processClosed r \<and> rg_processHolders r = 0 \<and> \<not> rg_processDrainClosed r")
  case True
  define t where "t = r\<lparr>rg_processDrainClosed := True, rg_processDrained := Some True\<rparr>"
  have "processDrainedLocked r = Some t" using True assms(3) by (simp add: processDrainedLocked_def close_channel_def t_def)
  moreover have "process_ok t" using True assms(1) by (simp add: process_ok_def all_owners_def t_def)
  ultimately show thesis using that by (simp add: t_def)
next
  case False
  then have "processDrainedLocked r = Some r" by (auto simp: processDrainedLocked_def)
  moreover have "process_ok r" using False assms unfolding process_ok_def by blast
  ultimately show thesis using that by simp
qed

lemma process_frame:
  "rg_states t = rg_states r \<Longrightarrow> rg_heap t = rg_heap r \<Longrightarrow> rg_holders t = rg_holders r \<Longrightarrow> registry_ok r \<Longrightarrow> process_ok t \<Longrightarrow>
   registry_ok t"
  by (simp add: registry_ok_def states_ok_def pointers_ok_def counts_ok_def owners_def)

lemma closeProcessAdmission_ok:
  assumes "registry_ok r"
  obtains t where "closeProcessAdmission r = Some t" "registry_ok t" "rg_states t = rg_states r" "rg_heap t = rg_heap r"
    "rg_holders t = rg_holders r"
proof -
  define s where "s = (if rg_processClosed r then r else r\<lparr>rg_processClosed := True, rg_processDrained := Some False\<rparr>)"
  have s: "rg_states s = rg_states r" "rg_heap s = rg_heap r" "rg_holders s = rg_holders r" "all_owners s = all_owners r"
    by (simp_all add: s_def all_owners_def)
  have p: "process_ok r" using assms by (simp add: registry_ok_def)
  obtain t where "processDrainedLocked s = Some t" "process_ok t" "rg_states t = rg_states s" "rg_heap t = rg_heap s"
      "rg_holders t = rg_holders s" "rg_tickets t = rg_tickets s"
    by (rule processDrained_ok[of s]) (use p s in \<open>auto simp: process_ok_def s_def split: if_splits\<close>)
  then show thesis using that process_frame[OF _ _ _ assms] s by (simp add: closeProcessAdmission_def s_def)
qed

lemma ticket_release_ok:
  assumes "registry_ok r" "i < length (rg_tickets r)"
  obtains t where "ticket_release i r = Some t" "registry_ok t" "rg_states t = rg_states r" "rg_heap t = rg_heap r"
    "rg_holders t = rg_holders r"
proof (cases "tk_released (rg_tickets r ! i)")
  case True
  then show thesis using that[of r] assms(1) by (simp add: ticket_release_def)
next
  case False
  define s where "s = r\<lparr>rg_tickets := (rg_tickets r)[i := (rg_tickets r ! i)\<lparr>tk_released := True\<rparr>],
    rg_processHolders := rg_processHolders r - 1\<rparr>"
  have all: "all_owners s + 1 = all_owners r"
    using count_update[OF assms(2), of "\<lambda>x. \<not> tk_released x" "(rg_tickets r ! i)\<lparr>tk_released := True\<rparr>"] False
    by (simp add: all_owners_def s_def)
  have p: "process_ok r" using assms by (simp add: registry_ok_def)
  obtain t where "processDrainedLocked s = Some t" "process_ok t" "rg_states t = rg_states s" "rg_heap t = rg_heap s"
      "rg_holders t = rg_holders s" "rg_tickets t = rg_tickets s"
    by (rule processDrained_ok[of s]) (use p all in \<open>auto simp: process_ok_def s_def\<close>)
  then show thesis using that process_frame[OF _ _ _ assms(1)] False by (simp add: ticket_release_def s_def)
qed

lemma processAcquire_ok: "registry_ok r \<Longrightarrow> registry_ok (snd (processAcquire r))"
  by (auto simp: processAcquire_def registry_ok_def states_ok_def pointers_ok_def counts_ok_def process_ok_def all_owners_def owners_def)

lemma ticket_claim_ok:
  assumes "registry_ok r" "i < length (rg_tickets r)"
  shows "registry_ok (snd (ticket_claim i r))"
proof (cases "tk_claimed (rg_tickets r ! i) \<or> tk_released (rg_tickets r ! i)")
  case True
  then show ?thesis using assms(1) by (simp add: ticket_claim_def)
next
  case False
  then have "all_owners (snd (ticket_claim i r)) = all_owners r"
    using count_update[OF assms(2), of "\<lambda>x. \<not> tk_released x" "(rg_tickets r ! i)\<lparr>tk_claimed := True\<rparr>"]
    by (simp add: all_owners_def ticket_claim_def Let_def)
  then have p: "process_ok (snd (ticket_claim i r))"
    using assms(1) False by (simp add: registry_ok_def process_ok_def ticket_claim_def Let_def)
  show ?thesis by (rule process_frame[OF _ _ _ assms(1) p]) (use False in \<open>simp_all add: ticket_claim_def Let_def\<close>)
qed

lemma pair_unique:
  assumes "distinct (map fst xs)" "distinct (map snd xs)" "(K, a) \<in> set xs" "(k, b) \<in> set xs"
  shows "k = K \<longleftrightarrow> b = a"
proof -
  have "inj_on fst (set xs)" "inj_on snd (set xs)" using assms(1,2) by (simp_all add: distinct_map)
  then show ?thesis using inj_onD[OF _ _ assms(4,3), of fst] inj_onD[OF _ _ assms(4,3), of snd] by auto
qed

lemma map_of_filter_key: "k \<noteq> K \<Longrightarrow> map_of (filter (\<lambda>(k, _). k \<noteq> K) xs) k = map_of xs k"
  by (induction xs) auto

text \<open>The second part of \<open>release\<close>.\<close>

lemma release_drop_ok:
  assumes "registry_ok r" "h < length (rg_holders r)" "hd_pending (rg_holders r ! h)"
  obtains t where "release_drop h r = Some t" "registry_ok t"
    "\<And>k a. map_of (rg_states r) k = Some a \<Longrightarrow> ss_closed (rg_heap r ! a) \<Longrightarrow> ss_holders (rg_heap r ! a) = 0 \<Longrightarrow>
       map_of (rg_states t) k = Some a \<and> rg_heap t ! a = rg_heap r ! a"
proof -
  define x where "x = rg_holders r ! h"
  define a where "a = hd_state x"
  define K where "K = physicalHolderKey (hd_key x)"
  define y where "y = x\<lparr>hd_pending := False\<rparr>"
  define s where "s = (rg_heap r ! a)\<lparr>ss_holders := ss_holders (rg_heap r ! a) - 1\<rparr>"
  define r1 where "r1 = (set_state a s (set_holder h y r))\<lparr>rg_processHolders := rg_processHolders r - 1\<rparr>"
  have x: "x \<in> set (rg_holders r)" "hd_pending x" using assms(2,3) by (simp_all add: x_def)
  have px: "hd_released x" "owns x" "\<not> owns y" "(K, a) \<in> set (rg_states r)"
    using assms(1) x by (auto simp: registry_ok_def pointers_ok_def owns_def K_def a_def y_def)
  have so: "states_ok r" using assms(1) by (simp add: registry_ok_def)
  note A = state_found[OF assms(1) px(4)]
  have hold: "rg_holders r1 = (rg_holders r)[h := y]" by (simp add: r1_def)
  have own: "owners b r1 + (if b = a then 1 else 0) = owners b r" for b
    using count_update[OF assms(2), of "\<lambda>x. owns x \<and> hd_state x = b" y] px x_def
    by (auto simp: owners_def hold a_def)
  have all: "all_owners r1 + 1 = all_owners r"
    using count_update[OF assms(2), of owns y] px x_def by (auto simp: all_owners_def hold r1_def)
  have p: "process_ok r" using assms(1) by (simp add: registry_ok_def)
  obtain r2 where r2: "processDrainedLocked r1 = Some r2" "process_ok r2" "rg_states r2 = rg_states r1" "rg_heap r2 = rg_heap r1"
      "rg_holders r2 = rg_holders r1" "rg_tickets r2 = rg_tickets r1"
    by (rule processDrained_ok[of r1]) (use p all in \<open>auto simp: process_ok_def r1_def\<close>)
  have st2: "rg_states r2 = rg_states r" using r2(3) by (simp add: r1_def)
  have heap: "rg_heap r2 ! b = (if b = a then s else rg_heap r ! b)" if "b < length (rg_heap r)" for b
    using that r2(4) by (simp add: r1_def)
  have len: "length (rg_heap r2) = length (rg_heap r)" using r2(4) by (simp add: r1_def)
  have own2: "owners b r2 + (if b = a then 1 else 0) = owners b r" for b
    using own[of b] r2(5) by (simp add: owners_def)
  have inset: "z \<in> set (rg_holders r) \<or> z = y" if "z \<in> set (rg_holders r2)" for z
    using that r2(5) hold by (auto dest: set_update_subset_insert[THEN subsetD])
  have ptr2: "pointers_ok r2"
    using assms(1) inset px x len by (fastforce simp: registry_ok_def pointers_ok_def st2 y_def a_def)
  have so2: "states_ok r2" using so len by (simp add: states_ok_def st2)
  have others: "state_ok (owners b r2) (rg_heap r2 ! b)" if "(k, b) \<in> set (rg_states r)" "b \<noteq> a" for k b
    using state_found[OF assms(1) that(1)] own2[of b] heap[of b] that(2) by simp
  have closed_other: "b \<noteq> a" if "ss_holders (rg_heap r ! b) = 0" for b
    using that A own2[of a] by (auto simp: state_ok_def)
  have hs: "ss_holders s = int (owners a r2)" using A own2[of a] by (simp add: s_def state_ok_def)
  have keep: "map_of (rg_states r2) k = Some b \<and> rg_heap r2 ! b = rg_heap r ! b"
    if "map_of (rg_states r) k = Some b" "ss_holders (rg_heap r ! b) = 0" for k b
    using that closed_other[OF that(2)] heap[OF state_of_key(2)[OF so that(1)]] st2 by simp
  have ctr: "rg_heap r2 ! a = s" using heap A by simp
  consider (drained) "ss_holders s = 0" "ss_closed s" | (gone) "ss_holders s = 0" "\<not> ss_closed s" "\<not> ss_poisoned s"
    | (stay) "ss_holders s \<noteq> 0 \<or> \<not> ss_closed s \<and> ss_poisoned s" by blast
  then show thesis
  proof cases
    case drained
    define t where "t = set_state a (s\<lparr>ss_drained := True\<rparr>) r2"
    have nd: "\<not> ss_drained s" using A own2[of a] by (simp add: s_def state_ok_def)
    have eq: "release_drop h r = Some t"
      using r2(1) drained nd ctr
      by (simp add: release_drop_def Let_def x_def[symmetric] a_def[symmetric] s_def[symmetric] y_def[symmetric] r1_def[symmetric]
          close_drained_def close_channel_def t_def)
    have "state_ok (owners b t) (rg_heap t ! b)" if "(k, b) \<in> set (rg_states r)" for k b
    proof (cases "b = a")
      case True
      then show ?thesis using A hs drained len by (simp add: t_def state_ok_def)
    next
      case False
      then show ?thesis using others[OF that] state_found[OF assms(1) that] len by (simp add: t_def)
    qed
    then have "counts_ok t" by (auto simp: counts_ok_def t_def st2)
    moreover have "states_ok t" "pointers_ok t" "process_ok t"
      using so2 ptr2 r2(2) by (simp_all add: t_def states_ok_def pointers_ok_def process_ok_def all_owners_def)
    ultimately have "registry_ok t" by (simp add: registry_ok_def)
    moreover have "map_of (rg_states t) k = Some b \<and> rg_heap t ! b = rg_heap r ! b"
      if "map_of (rg_states r) k = Some b" "ss_holders (rg_heap r ! b) = 0" for k b
      using keep[OF that] closed_other[OF that(2)] state_of_key(2)[OF so that(1)] len by (simp add: t_def)
    ultimately show thesis using that[OF eq] by blast
  next
    case gone
    define t where "t = remove_key K r2"
    have eq: "release_drop h r = Some t"
      using r2(1) gone
      by (simp add: release_drop_def Let_def x_def[symmetric] a_def[symmetric] s_def[symmetric] y_def[symmetric] r1_def[symmetric]
          K_def[symmetric] t_def)
    have T: "rg_states t = filter (\<lambda>(k, _). k \<noteq> K) (rg_states r)" "rg_heap t = rg_heap r2" "rg_holders t = rg_holders r2"
      by (simp_all add: t_def remove_key_def st2)
    have own_t: "owners b t = owners b r2" for b by (simp add: owners_def T)
    have zero: "owners a r2 = 0" using hs gone(1) by simp
    have Ka: "(k, b) \<in> set (rg_states r) \<Longrightarrow> k = K \<longleftrightarrow> b = a" for k b
      using pair_unique[OF _ _ px(4)] so unfolding states_ok_def by blast
    have "states_ok t"
      using so len unfolding states_ok_def T by (auto simp: distinct_map_filter intro: le_trans[OF length_filter_le])
    moreover have "counts_ok t" using others Ka by (auto simp: counts_ok_def T own_t)
    moreover have "pointers_ok t"
      unfolding pointers_ok_def T
    proof (intro ballI conjI impI)
      fix z assume z: "z \<in> set (rg_holders r2)"
      show "hd_pending z \<Longrightarrow> hd_released z" "hd_state z < length (rg_heap r2)" using z ptr2 by (auto simp: pointers_ok_def)
      assume o: "owns z"
      then have "hd_state z \<noteq> a" using zero z by (auto simp: owners_def filter_empty_conv)
      moreover have "(physicalHolderKey (hd_key z), hd_state z) \<in> set (rg_states r)" using o z ptr2 st2 by (auto simp: pointers_ok_def)
      ultimately show "(physicalHolderKey (hd_key z), hd_state z) \<in> set (filter (\<lambda>(k, _). k \<noteq> K) (rg_states r))"
        using Ka by auto
    qed
    moreover have "process_ok t" using r2(2) by (simp add: t_def remove_key_def process_ok_def all_owners_def)
    ultimately have "registry_ok t" by (simp add: registry_ok_def)
    moreover have "map_of (rg_states t) k = Some b \<and> rg_heap t ! b = rg_heap r ! b"
      if "map_of (rg_states r) k = Some b" "ss_holders (rg_heap r ! b) = 0" for k b
    proof -
      have "k \<noteq> K" using Ka state_of_key(1)[OF so that(1)] closed_other[OF that(2)] by blast
      then have "map_of (rg_states t) k = map_of (rg_states r) k"
        unfolding T(1) by (rule map_of_filter_key)
      then show ?thesis using that keep[OF that] T(2) by simp
    qed
    ultimately show thesis using that[OF eq] by blast
  next
    case stay
    have eq: "release_drop h r = Some r2"
      using r2(1) stay
      by (auto simp: release_drop_def Let_def x_def[symmetric] a_def[symmetric] s_def[symmetric] y_def[symmetric] r1_def[symmetric])
    have "state_ok (owners a r2) s" using A hs stay own2[of a] by (auto simp: state_ok_def s_def)
    then have "counts_ok r2" using others ctr by (auto simp: counts_ok_def st2)
    then have "registry_ok r2" using so2 ptr2 r2(2) by (simp add: registry_ok_def)
    then show thesis using that[OF eq] keep by blast
  qed
qed

section \<open>Reachable registries\<close>

lemma new_registry_ok: "registry_ok new_registry"
  by (simp add: registry_ok_def states_ok_def pointers_ok_def counts_ok_def process_ok_def new_registry_def all_owners_def)

lemma run_source_ok:
  assumes "registry_ok r" "callable op r"
  obtains t where "run_source op r = Some t" "registry_ok t"
proof (cases op)
  case (Acquire key)
  have "registry_ok (snd (acquire key r))" by (rule acquire_ok[OF assms(1), of key "fst (acquire key r)"]) simp
  then show thesis using that Acquire by (simp add: run_source_def)
next
  case (CloseOnly object)
  obtain b t where "closeOnly object r = Some (b, t)" "registry_ok t" by (rule closeOnly_ok[OF assms(1), of object]) blast
  then show thesis using that CloseOnly by (simp add: run_source_def)
next
  case (CloseAndWait key)
  obtain x t where "closeAndWait_close key r = Some (x, t)" "registry_ok t" by (rule closeAndWait_ok[OF assms(1), of key]) blast
  then show thesis using that CloseAndWait by (simp add: run_source_def)
next
  case (ReleaseMark h)
  then show thesis using that release_mark_ok[OF assms(1)] assms(2) by (simp add: run_source_def callable_def)
next
  case (ReleaseDrop h)
  then have h: "h < length (rg_holders r)" "hd_pending (rg_holders r ! h)" using assms(2) by (simp_all add: callable_def)
  obtain t where "release_drop h r = Some t" "registry_ok t" by (rule release_drop_ok[OF assms(1) h]) blast
  then show thesis using that ReleaseDrop by (simp add: run_source_def)
next
  case (Poison h)
  then show thesis using that poison_ok[OF assms(1)] assms(2) by (simp add: run_source_def callable_def)
next
  case (TransferBody h)
  then show thesis using that transfer_body_ok[OF assms(1)] assms(2) by (simp add: run_source_def callable_def)
next
  case ProcessAcquire
  then show thesis using that processAcquire_ok[OF assms(1)] by (simp add: run_source_def)
next
  case (TicketClaim i)
  then show thesis using that ticket_claim_ok[OF assms(1)] assms(2) by (simp add: run_source_def callable_def)
next
  case TicketPoison
  have "registry_ok (ticket_poison r)"
    using assms(1) by (simp add: ticket_poison_def registry_ok_def states_ok_def pointers_ok_def counts_ok_def process_ok_def all_owners_def)
  then show thesis using that TicketPoison by (simp add: run_source_def)
next
  case (TicketRelease i)
  then have i: "i < length (rg_tickets r)" using assms(2) by (simp add: callable_def)
  obtain t where "ticket_release i r = Some t" "registry_ok t" by (rule ticket_release_ok[OF assms(1) i]) blast
  then show thesis using that TicketRelease by (simp add: run_source_def)
next
  case CloseProcess
  obtain t where "closeProcessAdmission r = Some t" "registry_ok t" by (rule closeProcessAdmission_ok[OF assms(1)]) blast
  then show thesis using that CloseProcess by (simp add: run_source_def)
qed

lemma source_steps_ok: "source_steps r t \<Longrightarrow> registry_ok r \<Longrightarrow> registry_ok t"
proof (induction rule: source_steps.induct)
  case (source_step r s op t)
  then show ?case using run_source_ok[of s op] by (metis option.inject)
qed

lemma source_steps_trans: "source_steps s t \<Longrightarrow> source_steps r s \<Longrightarrow> source_steps r t"
  by (induction rule: source_steps.induct) (auto intro: source_step)

text \<open>A state that is closed and has no holder is not written again.\<close>

definition idle_at :: "source_key \<Rightarrow> nat \<Rightarrow> registry \<Rightarrow> bool" where
  "idle_at k a r \<longleftrightarrow> map_of (rg_states r) k = Some a \<and> ss_closed (rg_heap r ! a) \<and> ss_holders (rg_heap r ! a) = 0"

lemma idle_unowned:
  assumes "registry_ok r" "idle_at k a r" "x \<in> set (rg_holders r)" "physicalHolderKey (hd_key x) = k"
  shows "\<not> owns x"
proof
  assume o: "owns x"
  have so: "states_ok r" using assms(1) by (simp add: registry_ok_def)
  have "(k, hd_state x) \<in> set (rg_states r)" using assms(1,3,4) o by (auto simp: registry_ok_def pointers_ok_def)
  then have "hd_state x = a" using key_of_state[OF so] assms(2) by (auto simp: idle_at_def)
  moreover have "owners a r = 0"
    using state_found[OF assms(1) state_of_key(1)[OF so]] assms(2) by (auto simp: idle_at_def state_ok_def)
  ultimately show False using o assms(3) by (auto simp: owners_def filter_empty_conv)
qed

lemma idle_step:
  assumes "registry_ok r" "callable op r" "run_source op r = Some t" "idle_at k a r"
  shows "idle_at k a t \<and> rg_heap t ! a = rg_heap r ! a"
proof -
  have so: "states_ok r" using assms(1) by (simp add: registry_ok_def)
  have i: "map_of (rg_states r) k = Some a" "ss_closed (rg_heap r ! a)" "ss_holders (rg_heap r ! a) = 0"
    using assms(4) by (simp_all add: idle_at_def)
  note ka = state_of_key[OF so i(1)]
  have "map_of (rg_states t) k = Some a \<and> rg_heap t ! a = rg_heap r ! a"
  proof (cases op)
    case (Acquire key)
    obtain x u where x: "stateLocked key r = (x, u)" by fastforce
    note L = stateLocked_ok[OF assms(1) x]
    have u: "map_of (rg_states u) k = Some a" "rg_heap u ! a = rg_heap r ! a" using L(7)[OF i(1)] by simp_all
    have sou: "states_ok u" using L(1) by (simp add: registry_ok_def)
    have len: "a < length (rg_heap u)" by (rule state_of_key(2)[OF sou u(1)])
    have "t = snd (acquire key r)" using assms(3) Acquire by (simp add: run_source_def)
    then have "t = r \<or> t = u \<or> (\<exists>b. x = Inr b \<and> \<not> ss_closed (rg_heap u ! b) \<and> rg_states t = rg_states u \<and>
        rg_heap t = (rg_heap u)[b := (rg_heap u ! b)\<lparr>ss_holders := ss_holders (rg_heap u ! b) + 1\<rparr>])"
      using x by (auto simp: acquire_def Let_def set_state_def split: sum.splits if_splits)
    then consider "t = r" | "t = u" | b where "\<not> ss_closed (rg_heap u ! b)" "rg_states t = rg_states u"
        "rg_heap t = (rg_heap u)[b := (rg_heap u ! b)\<lparr>ss_holders := ss_holders (rg_heap u ! b) + 1\<rparr>]" by blast
    then show ?thesis
    proof cases
      case (3 b)
      then have "b \<noteq> a" using u i by auto
      then show ?thesis using 3 u by simp
    qed (use i u in simp_all)
  next
    case (CloseOnly object)
    obtain b t' where c: "closeOnly object r = Some (b, t')"
        "\<And>k a. map_of (rg_states r) k = Some a \<Longrightarrow> ss_closed (rg_heap r ! a) \<Longrightarrow>
           map_of (rg_states t') k = Some a \<and> rg_heap t' ! a = rg_heap r ! a"
      by (rule closeOnly_ok[OF assms(1), of object]) blast
    then have "t = t'" using assms(3) CloseOnly by (simp add: run_source_def)
    then show ?thesis using c(2) i by blast
  next
    case (CloseAndWait key)
    obtain x t' where c: "closeAndWait_close key r = Some (x, t')"
        "\<And>k a. map_of (rg_states r) k = Some a \<Longrightarrow> ss_closed (rg_heap r ! a) \<Longrightarrow>
           map_of (rg_states t') k = Some a \<and> rg_heap t' ! a = rg_heap r ! a"
      by (rule closeAndWait_ok[OF assms(1), of key]) blast
    then have "t = t'" using assms(3) CloseAndWait by (simp add: run_source_def)
    then show ?thesis using c(2) i by blast
  next
    case (ReleaseMark h)
    then show ?thesis using assms(3) i by (auto simp: run_source_def release_mark_def Let_def)
  next
    case (ReleaseDrop h)
    then have h: "h < length (rg_holders r)" "hd_pending (rg_holders r ! h)" using assms(2) by (simp_all add: callable_def)
    obtain t' where c: "release_drop h r = Some t'"
        "\<And>k a. map_of (rg_states r) k = Some a \<Longrightarrow> ss_closed (rg_heap r ! a) \<Longrightarrow> ss_holders (rg_heap r ! a) = 0 \<Longrightarrow>
           map_of (rg_states t') k = Some a \<and> rg_heap t' ! a = rg_heap r ! a"
      by (rule release_drop_ok[OF assms(1) h]) blast
    then have "t = t'" using assms(3) ReleaseDrop by (simp add: run_source_def)
    then show ?thesis using c(2) i by blast
  next
    case (Poison h)
    show ?thesis
    proof (cases "hd_released (rg_holders r ! h)")
      case True
      then show ?thesis using assms(3) Poison i by (simp add: run_source_def poison_def)
    next
      case False
      have h: "rg_holders r ! h \<in> set (rg_holders r)" using assms(2) Poison by (simp add: callable_def)
      have o: "owns (rg_holders r ! h)" using False by (simp add: owns_def)
      have "hd_state (rg_holders r ! h) \<noteq> a"
      proof
        assume "hd_state (rg_holders r ! h) = a"
        then have "(physicalHolderKey (hd_key (rg_holders r ! h)), a) \<in> set (rg_states r)"
          using assms(1) h o by (auto simp: registry_ok_def pointers_ok_def)
        then have "physicalHolderKey (hd_key (rg_holders r ! h)) = k"
          using pair_unique[OF _ _ ka(1)] so unfolding states_ok_def by blast
        then show False using idle_unowned[OF assms(1,4) h] o by blast
      qed
      then show ?thesis using assms(3) Poison i False by (auto simp: run_source_def poison_def Let_def set_state_def)
    qed
  next
    case (TransferBody h)
    then show ?thesis using assms(3) i by (auto simp: run_source_def transfer_body_def)
  next
    case ProcessAcquire
    then show ?thesis using assms(3) i by (auto simp: run_source_def processAcquire_def)
  next
    case (TicketClaim h)
    then show ?thesis using assms(3) i by (auto simp: run_source_def ticket_claim_def Let_def)
  next
    case TicketPoison
    then show ?thesis using assms(3) i by (auto simp: run_source_def ticket_poison_def)
  next
    case (TicketRelease h)
    then have h: "h < length (rg_tickets r)" using assms(2) by (simp add: callable_def)
    obtain t' where c: "ticket_release h r = Some t'" "rg_states t' = rg_states r" "rg_heap t' = rg_heap r"
      by (rule ticket_release_ok[OF assms(1) h]) blast
    then have "t = t'" using assms(3) TicketRelease by (simp add: run_source_def)
    then show ?thesis using c(2,3) i by simp
  next
    case CloseProcess
    obtain t' where c: "closeProcessAdmission r = Some t'" "rg_states t' = rg_states r" "rg_heap t' = rg_heap r"
      by (rule closeProcessAdmission_ok[OF assms(1)]) blast
    then have "t = t'" using assms(3) CloseProcess by (simp add: run_source_def)
    then show ?thesis using c(2,3) i by simp
  qed
  then show ?thesis using i by (simp add: idle_at_def)
qed

lemma idle_steps:
  "source_steps r t \<Longrightarrow> registry_ok r \<Longrightarrow> idle_at k a r \<Longrightarrow> idle_at k a t \<and> rg_heap t ! a = rg_heap r ! a"
proof (induction rule: source_steps.induct)
  case (source_step r s op t)
  then show ?case using idle_step[OF source_steps_ok[OF source_step(1)] source_step(2,3)] by auto
qed simp

lemma joined_idle: "joined object r \<longleftrightarrow> (\<exists>a. idle_at (object_key object) a r \<and> \<not> ss_poisoned (rg_heap r ! a))"
  by (auto simp: joined_def idle_at_def Let_def split: option.splits)

section \<open>What the registry promises\<close>

text \<open>C39. Whatever its users do, and however their steps interleave, the registry is exact. No operation
  that can be called panics on a channel. A source is drained exactly when it has been closed and no
  holder of it is left that has not let go, so that a waiter is woken once and not early; the process is
  drained exactly when its admission has been closed and no holder and no ticket is left. A holder that
  has not let go keeps its source in the registry.\<close>

theorem source_registry_exact:
  assumes "source_steps new_registry r"
  shows "(\<forall>op. callable op r \<longrightarrow> run_source op r \<noteq> None) \<and>
    (\<forall>object a. map_of (rg_states r) (object_key object) = Some a \<longrightarrow>
       (ss_drained (rg_heap r ! a) \<longleftrightarrow>
        ss_closed (rg_heap r ! a) \<and> (\<forall>x \<in> set (rg_holders r). owns x \<longrightarrow> sk_PhysicalObject (hd_key x) \<noteq> object))) \<and>
    (rg_processDrained r = Some True \<longleftrightarrow>
       rg_processClosed r \<and> (\<forall>x \<in> set (rg_holders r). \<not> owns x) \<and> (\<forall>x \<in> set (rg_tickets r). tk_released x)) \<and>
    (\<forall>x \<in> set (rg_holders r). owns x \<longrightarrow> map_of (rg_states r) (physicalHolderKey (hd_key x)) = Some (hd_state x))"
proof -
  have ok: "registry_ok r" by (rule source_steps_ok[OF assms new_registry_ok])
  then have so: "states_ok r" and po: "pointers_ok r" and pr: "process_ok r" by (simp_all add: registry_ok_def)
  have find: "map_of (rg_states r) (physicalHolderKey (hd_key x)) = Some (hd_state x)" if "x \<in> set (rg_holders r)" "owns x" for x
    using po that key_of_state[OF so] by (auto simp: pointers_ok_def)
  have drained: "ss_drained (rg_heap r ! a) \<longleftrightarrow>
      ss_closed (rg_heap r ! a) \<and> (\<forall>x \<in> set (rg_holders r). owns x \<longrightarrow> sk_PhysicalObject (hd_key x) \<noteq> object)"
    if m: "map_of (rg_states r) (object_key object) = Some a" for object a
  proof -
    have ka: "(object_key object, a) \<in> set (rg_states r)" by (rule state_of_key(1)[OF so m])
    have "owners a r = 0 \<longleftrightarrow> (\<forall>x \<in> set (rg_holders r). owns x \<longrightarrow> hd_state x \<noteq> a)"
      by (auto simp: owners_def filter_empty_conv)
    moreover have "hd_state x = a \<longleftrightarrow> sk_PhysicalObject (hd_key x) = object" if "x \<in> set (rg_holders r)" "owns x" for x
    proof -
      have "(physicalHolderKey (hd_key x), hd_state x) \<in> set (rg_states r)" using po that by (auto simp: pointers_ok_def)
      then have "physicalHolderKey (hd_key x) = object_key object \<longleftrightarrow> hd_state x = a"
        using pair_unique[OF _ _ ka] so unfolding states_ok_def by blast
      then show ?thesis by (auto simp: physicalHolderKey_def)
    qed
    ultimately show ?thesis using state_found[OF ok ka] by (auto simp: state_ok_def)
  qed
  have none: "all_owners r = 0 \<longleftrightarrow> (\<forall>x \<in> set (rg_holders r). \<not> owns x) \<and> (\<forall>x \<in> set (rg_tickets r). tk_released x)"
    by (auto simp: all_owners_def filter_empty_conv)
  have process: "rg_processDrained r = Some True \<longleftrightarrow> rg_processClosed r \<and> all_owners r = 0"
    using pr by (auto simp: process_ok_def)
  have run: "run_source op r \<noteq> None" if "callable op r" for op
    by (rule run_source_ok[OF ok that]) simp
  show ?thesis using run drained find process[unfolded none] by (intro conjI allI impI ballI) simp_all
qed

text \<open>C40. What a cleanup relies on. Once a source has been found joined, nobody uses it and nobody will:
  in every later state, through whatever steps, it is still joined, no holder of it admits a use, every
  holder of it has let go, and no new holder of it can be taken.\<close>

theorem joined_is_final:
  assumes "source_steps new_registry r" "joined object r" "source_steps r t"
  shows "joined object t \<and>
    (\<forall>h < length (rg_holders t). sk_PhysicalObject (hd_key (rg_holders t ! h)) = object \<longrightarrow>
       hd_released (rg_holders t ! h) \<and> \<not> admitUse (Some h) t) \<and>
    (\<forall>key. sk_PhysicalObject key = object \<longrightarrow> fst (acquire key t) = Inl VaultUnavailable)"
proof -
  have ok: "registry_ok r" by (rule source_steps_ok[OF assms(1) new_registry_ok])
  have okt: "registry_ok t" by (rule source_steps_ok[OF assms(3) ok])
  then have so: "states_ok t" by (simp add: registry_ok_def)
  obtain a where a: "idle_at (object_key object) a r" "\<not> ss_poisoned (rg_heap r ! a)" using assms(2) joined_idle by blast
  have t: "idle_at (object_key object) a t" "\<not> ss_poisoned (rg_heap t ! a)" using idle_steps[OF assms(3) ok a(1)] a(2) by simp_all
  have "hd_released (rg_holders t ! h)"
    if "h < length (rg_holders t)" "sk_PhysicalObject (hd_key (rg_holders t ! h)) = object" for h
    using idle_unowned[OF okt t(1) nth_mem[OF that(1)]] that(2) by (simp add: physicalHolderKey_def owns_def)
  moreover have "fst (acquire key t) = Inl VaultUnavailable" if k: "sk_PhysicalObject key = object" for key
  proof -
    have m: "map_of (rg_states t) (object_key object) = Some a" "ss_closed (rg_heap t ! a)" using t(1) by (simp_all add: idle_at_def)
    have e: "personalModelETag object" using state_of_key(1)[OF so m(1)] so by (auto simp: states_ok_def)
    then have "key \<noteq> no_key" using k personalModelETag_nonempty[OF e] by (auto simp: no_key_def)
    moreover have "stateLocked key t = (Inr a, t)" using e k m(1) by (simp add: stateLocked_def physicalHolderKey_def)
    ultimately show ?thesis using m(2) by (simp add: acquire_def)
  qed
  ultimately show ?thesis using t joined_idle[of object t] by (auto simp: admitUse_def)
qed

section \<open>A use and a cleanup\<close>

definition demo_object :: string where "demo_object = replicate 64 CHR ''a''"

text \<open>A call takes the source and hands it to the body of its answer; the cleanup closes the source while
  the call still runs; the body is closed, and the source is joined.\<close>

definition demo_ops :: "source_op list" where
  "demo_ops = [Acquire (object_key demo_object), TransferBody 0, CloseOnly demo_object, ReleaseMark 0, ReleaseDrop 0]"

fun run_ops :: "source_op list \<Rightarrow> registry \<Rightarrow> registry option" where
  "run_ops [] r = Some r"
| "run_ops (op # ops) r = (if callable op r then (case run_source op r of None \<Rightarrow> None | Some t \<Rightarrow> run_ops ops t) else None)"

lemma run_ops_steps: "run_ops ops r = Some t \<Longrightarrow> source_steps s r \<Longrightarrow> source_steps s t"
  by (induction ops arbitrary: r) (auto split: if_splits option.splits intro: source_step)

definition demo_registry :: registry where
  "demo_registry =
     \<lparr>rg_states = [(object_key demo_object, 0)],
      rg_heap = [\<lparr>ss_closed = True, ss_poisoned = False, ss_holders = 0, ss_drained = True\<rparr>],
      rg_holders = [\<lparr>hd_key = object_key demo_object, hd_state = 0, hd_released = True, hd_transferred = True, hd_pending = False\<rparr>],
      rg_tickets = [], rg_processClosed = False, rg_processPoisoned = False, rg_processDrainClosed = False,
      rg_processHolders = 0, rg_processDrained = None\<rparr>"

lemma demo_etag [simp]: "personalModelETag demo_object"
  by (simp add: personalModelETag_def demo_object_def list_all_iff)

lemma demo_key [simp]: "object_key demo_object \<noteq> no_key"
  by (simp add: object_key_def no_key_def demo_object_def)

lemma demo_run: "run_ops demo_ops new_registry = Some demo_registry"
  by (simp add: demo_ops_def run_source_def callable_def new_registry_def demo_registry_def acquire_def stateLocked_def
      transfer_body_def closeOnly_def close_state_def close_drained_def close_channel_def release_mark_def release_drop_def
      set_state_def set_holder_def fresh_state_def processDrainedLocked_def sourceCapacity_def)

lemma demo_steps: "source_steps new_registry demo_registry"
  by (rule run_ops_steps[OF demo_run source_none])

theorem source_registry_exact_witness:
  "ss_drained (rg_heap demo_registry ! 0) \<and> run_source (CloseOnly demo_object) demo_registry \<noteq> None"
  using source_registry_exact[OF demo_steps] by (simp add: demo_registry_def callable_def)

theorem joined_is_final_witness: "joined demo_object demo_registry \<and> fst (acquire (object_key demo_object) demo_registry) = Inl VaultUnavailable"
proof -
  have "joined demo_object demo_registry" by (simp add: joined_def demo_registry_def)
  from joined_is_final[OF demo_steps this source_none] show ?thesis by simp
qed

end
