(* ===== verification/Runtime_Rows.thy ===== *)
theory Runtime_Rows
  imports Call_Facts Source_Holders
begin

text \<open>
  The rows of the primary database that the runtime snapshots are built from
  (\<open>internal/routex/entity\<close>), with the columns the snapshots read, and what the service derives from a
  single row: whether a user is admitted (\<open>registration_admission.go\<close>), whether a verification or a
  capability is that of the current transport (\<open>connection_transport.go\<close>), the proof of a credential's
  source (\<open>credential_storage_sources.go\<close>, \<open>credential_source_holders.go\<close>), the deployments of an Azure
  credential (\<open>azure_deployment_coverage.go\<close>) and the egress of a connection (\<open>egress_runtime.go\<close>). A
  time is in nanoseconds since 1970, the zero time is \<open>None\<close>. The digests of JSON texts and the text of a
  time are parameters.
\<close>

section \<open>Rows\<close>

record application_row =
  ap_ID :: string
  ap_UserID :: string
  ap_UserCreatedAt :: "int option"
  ap_CreatedAt :: "int option"
  ap_State :: string
  ap_Revision :: string
  ap_DecidedAt :: "int option option"
  ap_DecisionActorID :: "string option"
  ap_DecisionReason :: "string option"

record user_row =
  us_ApprovalApplicationID :: "string option"
  us_PersonalGrantRevision :: string
  us_ID :: string
  us_Disabled :: bool
  us_OffboardedAt :: "int option"
  us_CreatedAt :: "int option"

record key_row =
  ky_ID :: string
  ky_UserID :: string
  ky_TokenHash :: string
  ky_Status :: string
  ky_ExpiresAt :: "int option"

record project_key_row =
  pk_ID :: string
  pk_ProjectID :: string
  pk_TokenHash :: string
  pk_Status :: string
  pk_ExpiresAt :: "int option"

record project_row =
  pr_ID :: string
  pr_Status :: string

record grant_row =
  gn_UserID :: string
  gn_ModelID :: string
  gn_SourceRequestID :: "string option"

record model_row =
  md_ID :: string
  md_Status :: string
  md_CreatedAt :: "int option"

record name_row =
  nm_Name :: string
  nm_ModelID :: string
  nm_CurrentModelID :: "string option"
  nm_ExpiresAt :: "int option"

record provider_row =
  pv_Enabled :: bool
  pv_ETag :: string
  pv_ID :: string
  pv_Name :: string
  pv_CreatedAt :: "int option"

record connection_row =
  cn_TransportGeneration :: string
  cn_Adapter :: string
  cn_APIVersion :: "string option"
  cn_Enabled :: bool
  cn_EgressMode :: string
  cn_EgressID :: "string option"
  cn_ETag :: string
  cn_ID :: string
  cn_ProviderID :: string
  cn_Name :: string
  cn_BaseURL :: string
  cn_Protocol :: string
  cn_CreatedAt :: "int option"

record vault_reference =
  vr_PhysicalObject :: string
  vr_ReaderMethod :: string
  vr_ReaderCiphertext :: string
  vr_SourceContext :: string
  vr_CredentialID :: string
  vr_CredentialBirth :: "int option"
  vr_ReferenceID :: string
  vr_ExpectedMarkerSHA256 :: string
  vr_DescriptorSHA256 :: string
  vr_IntegrationID :: string
  vr_IntegrationBirth :: "int option"
  vr_RevisionID :: string
  vr_ReaderGeneration :: string

record credential_row =
  cr_VerifiedTransportGeneration :: string
  cr_StorageSource :: string
  cr_VaultReference :: "vault_reference option"
  cr_ID :: string
  cr_ConnectionID :: string
  cr_Ciphertext :: string
  cr_Priority :: int
  cr_Enabled :: bool
  cr_VerificationStatus :: string
  cr_CreatedAt :: "int option"

record provider_model_row =
  pm_CapabilityTransportGeneration :: string
  pm_ID :: string
  pm_ConnectionID :: string
  pm_UpstreamName :: string
  pm_Disabled :: bool
  pm_SupportsImageInput :: bool
  pm_SupportsPDFInput :: bool
  pm_ETag :: string
  pm_CreatedAt :: "int option"

record binding_row =
  bd_ID :: string
  bd_ModelID :: string
  bd_ProviderModelID :: string
  bd_Weight :: int

record attestation_row =
  at_CredentialID :: string
  at_ProviderModelID :: string
  at_Identity :: string

record egress_row =
  eg_ID :: string
  eg_Enabled :: bool
  eg_ETag :: string

record egress_setting =
  es_DefaultEgressID :: "string option"
  es_ETag :: string

text \<open>Digests of rows, and the text of a time.\<close>

record digests =
  dg_bearer :: "string \<Rightarrow> string" \<comment> \<open>\<open>secret.SHA256Hex\<close>\<close>
  dg_source :: "credential_row \<Rightarrow> string"
  dg_identity :: "credential_row \<Rightarrow> connection_row \<Rightarrow> provider_model_row \<Rightarrow> string"
  dg_egress :: "connection_row \<Rightarrow> egress_setting \<Rightarrow> egress_row option \<Rightarrow> string"
  dg_time :: "int option \<Rightarrow> string"
  dg_date :: "string \<Rightarrow> bool" \<comment> \<open>a date that \<open>time.Parse\<close> reads and \<open>Format\<close> prints back\<close>

text \<open>Go maps keyed by an identifier: the last row of an identifier counts.\<close>

definition index_by :: "('a \<Rightarrow> string) \<Rightarrow> 'a list \<Rightarrow> string \<Rightarrow> 'a option" where
  "index_by key rows = fold (\<lambda>x m. m(key x \<mapsto> x)) rows (\<lambda>_. None)"

section \<open>Identifiers and times\<close>

definition ulid_char :: "char \<Rightarrow> bool" where
  "ulid_char c \<longleftrightarrow> is_digit c \<or> (is_lower c \<and> c \<notin> set ''ilou'')"

text \<open>The patterns of a prefix, an octal digit and 25 digits of base 32.\<close>

definition ulid_text :: "string \<Rightarrow> string \<Rightarrow> bool" where
  "ulid_text pre s \<longleftrightarrow>
     take (length pre) s = pre \<and>
     (case drop (length pre) s of
        [] \<Rightarrow> False
      | c # cs \<Rightarrow> c \<in> set ''01234567'' \<and> length cs = 25 \<and> list_all ulid_char cs)"

definition safeTeamSessionID :: "string \<Rightarrow> bool" where
  "safeTeamSessionID s \<longleftrightarrow> length s \<le> 30 \<and> safeCallID s"

definition modelCreationID :: "string \<Rightarrow> string \<Rightarrow> bool" where
  "modelCreationID s pre \<longleftrightarrow> take (length pre + 1) s = pre @ ''_'' \<and> safeTeamSessionID s"

definition validTransportGeneration :: "string \<Rightarrow> bool" where
  "validTransportGeneration s \<longleftrightarrow> s = ''0'' \<or> ulid_text ''rev_'' s"

text \<open>A time whose year is from 1 to 9999.\<close>

definition connectionMetadataBirth :: "int option \<Rightarrow> bool" where
  "connectionMetadataBirth t \<longleftrightarrow>
     (case t of None \<Rightarrow> False | Some n \<Rightarrow> - 62135596800000000000 \<le> n \<and> n < 253402300800000000000)"

section \<open>Admission of users\<close>

definition validCredentialMetadataReason :: "string \<Rightarrow> bool" where
  "validCredentialMetadataReason reason \<longleftrightarrow>
     reason \<noteq> '''' \<and> length reason \<le> 1024 \<and>
     (case utf8_runes reason of None \<Rightarrow> False | Some rs \<Rightarrow> \<not> list_ex control_rune rs)"

definition validRegistrationReason :: "string \<Rightarrow> bool" where
  "validRegistrationReason s \<longleftrightarrow> validCredentialMetadataReason s \<and> trim_space s = s"

definition registrationApplicationValid :: "user_row \<Rightarrow> application_row \<Rightarrow> bool" where
  "registrationApplicationValid u a \<longleftrightarrow>
     (case us_ApprovalApplicationID u of
        None \<Rightarrow> False
      | Some aid \<Rightarrow>
          ulid_text ''raa_'' aid \<and> ap_ID a = aid \<and> ap_UserID a = us_ID u \<and> us_CreatedAt u \<noteq> None \<and>
          ap_UserCreatedAt a = us_CreatedAt u \<and> ap_CreatedAt a \<noteq> None \<and> personalModelETag (ap_Revision a) \<and>
          (if ap_State a = ''pending'' then ap_DecidedAt a = None \<and> ap_DecisionActorID a = None \<and> ap_DecisionReason a = None
           else if ap_State a = ''approved'' \<or> ap_State a = ''rejected'' then
             (case (ap_DecidedAt a, ap_DecisionActorID a, ap_DecisionReason a) of
                (Some (Some _), Some actor, Some reason) \<Rightarrow>
                  safeTeamSessionID actor \<and> validRegistrationReason reason \<and> reason \<noteq> ''''
              | _ \<Rightarrow> False)
           else False))"

record admission_proof =
  ad_CreatedAt :: "int option"
  ad_ApplicationID :: string
  ad_ApplicationCreatedAt :: "int option"
  ad_Revision :: string
  ad_State :: string
  ad_Eligible :: bool

definition active_user :: "user_row \<Rightarrow> bool" where
  "active_user u \<longleftrightarrow> \<not> us_Disabled u \<and> us_OffboardedAt u = None"

text \<open>The proof of \<open>registrationAdmission\<close>; the summary beside it is for the console.\<close>

definition registrationAdmission :: "user_row \<Rightarrow> (string \<Rightarrow> application_row option) \<Rightarrow> admission_proof" where
  "registrationAdmission u applications =
     (let p = \<lparr>ad_CreatedAt = us_CreatedAt u, ad_ApplicationID = '''', ad_ApplicationCreatedAt = None, ad_Revision = '''',
               ad_State = '''', ad_Eligible = False\<rparr>
      in if \<not> safeTeamSessionID (us_ID u) \<or> us_CreatedAt u = None then p
         else case us_ApprovalApplicationID u of
             None \<Rightarrow> p\<lparr>ad_State := ''not_required'', ad_Eligible := active_user u\<rparr>
           | Some aid \<Rightarrow>
               let p1 = p\<lparr>ad_ApplicationID := aid\<rparr> in
               (case applications aid of
                  None \<Rightarrow> p1
                | Some a \<Rightarrow>
                    if \<not> registrationApplicationValid u a then p1
                    else p1\<lparr>ad_ApplicationCreatedAt := ap_CreatedAt a, ad_Revision := ap_Revision a, ad_State := ap_State a,
                            ad_Eligible := (active_user u \<and> ap_State a = ''approved'')\<rparr>))"

definition runtimeRegistrationAdmissions ::
  "application_row list \<Rightarrow> user_row list \<Rightarrow> string \<Rightarrow> admission_proof option" where
  "runtimeRegistrationAdmissions applications users =
     map_option (\<lambda>u. registrationAdmission u (index_by ap_ID applications)) \<circ> index_by us_ID users"

section \<open>Transport\<close>

definition AdapterNative :: string where "AdapterNative = ''native''"
definition AdapterAzureOpenAIClassic :: string where "AdapterAzureOpenAIClassic = ''azure_openai_classic''"

definition ConnectionAdapter :: "connection_row \<Rightarrow> string" where
  "ConnectionAdapter c = (if cn_Adapter c = '''' then AdapterNative else cn_Adapter c)"

definition no_connection :: connection_row where
  "no_connection = \<lparr>cn_TransportGeneration = '''', cn_Adapter = '''', cn_APIVersion = None, cn_Enabled = False,
     cn_EgressMode = '''', cn_EgressID = None, cn_ETag = '''', cn_ID = '''', cn_ProviderID = '''', cn_Name = '''',
     cn_BaseURL = '''', cn_Protocol = '''', cn_CreatedAt = None\<rparr>"

text \<open>The connection of an identifier, the zero value where there is none.\<close>

definition connection_of :: "(string \<Rightarrow> connection_row option) \<Rightarrow> string \<Rightarrow> connection_row" where
  "connection_of conns cid = (case conns cid of None \<Rightarrow> no_connection | Some c \<Rightarrow> c)"

definition verifiedTransportCurrent :: "credential_row \<Rightarrow> connection_row \<Rightarrow> bool" where
  "verifiedTransportCurrent c connection \<longleftrightarrow>
     cr_ConnectionID c = cn_ID connection \<and> cn_ID connection \<noteq> '''' \<and> connectionMetadataBirth (cr_CreatedAt c) \<and>
     connectionMetadataBirth (cn_CreatedAt connection) \<and> cr_VerificationStatus c = ''verified'' \<and>
     validTransportGeneration (cn_TransportGeneration connection) \<and>
     validTransportGeneration (cr_VerifiedTransportGeneration c) \<and>
     cr_VerifiedTransportGeneration c = cn_TransportGeneration connection"

definition capabilityTransportCurrent :: "provider_model_row \<Rightarrow> connection_row \<Rightarrow> bool" where
  "capabilityTransportCurrent pm c \<longleftrightarrow>
     pm_ConnectionID pm = cn_ID c \<and> cn_ID c \<noteq> '''' \<and> connectionMetadataBirth (pm_CreatedAt pm) \<and>
     connectionMetadataBirth (cn_CreatedAt c) \<and> validTransportGeneration (cn_TransportGeneration c) \<and>
     validTransportGeneration (pm_CapabilityTransportGeneration pm) \<and>
     pm_CapabilityTransportGeneration pm = cn_TransportGeneration c"

section \<open>Sources of credentials\<close>

definition rootSafeIdentity :: "string \<Rightarrow> nat \<Rightarrow> bool" where
  "rootSafeIdentity s maximum \<longleftrightarrow>
     s \<noteq> '''' \<and> length s \<le> maximum \<and>
     list_all (\<lambda>c. 33 \<le> (of_char c :: nat) \<and> (of_char c :: nat) \<le> 126 \<and> c \<noteq> CHR '':'') s"

definition hex_text :: "nat \<Rightarrow> string \<Rightarrow> bool" where
  "hex_text n s \<longleftrightarrow> length s = n \<and> list_all (\<lambda>c. is_digit c \<or> 97 \<le> (of_char c :: nat) \<and> (of_char c :: nat) \<le> 102) s"

definition credentialVaultReferenceShape :: "credential_row \<Rightarrow> vault_reference \<Rightarrow> bool" where
  "credentialVaultReferenceShape c r \<longleftrightarrow>
     vr_CredentialID r = cr_ID c \<and> vr_CredentialBirth r = cr_CreatedAt c \<and> connectionMetadataBirth (cr_CreatedAt c) \<and>
     hex_text 32 (vr_ReferenceID r) \<and> personalModelETag (vr_ExpectedMarkerSHA256 r) \<and>
     personalModelETag (vr_DescriptorSHA256 r) \<and> ulid_text ''vlt_'' (vr_IntegrationID r) \<and>
     ulid_text ''vlr_'' (vr_RevisionID r) \<and> rootSafeIdentity (vr_ReaderGeneration r) 30 \<and>
     connectionMetadataBirth (vr_IntegrationBirth r)"

definition inline_source :: "credential_row \<Rightarrow> bool" where
  "inline_source c \<longleftrightarrow> cr_StorageSource c = '''' \<or> cr_StorageSource c = ''inline''"

definition credentialSourceProof :: "digests \<Rightarrow> credential_row \<Rightarrow> string" where
  "credentialSourceProof D c =
     (if inline_source c then
        (if cr_VaultReference c \<noteq> None \<or> cr_Ciphertext c = '''' then '''' else dg_source D c)
      else if cr_StorageSource c \<noteq> ''vault'' \<or> cr_Ciphertext c \<noteq> '''' then ''''
      else case cr_VaultReference c of
          None \<Rightarrow> ''''
        | Some r \<Rightarrow>
            if vr_SourceContext r = '''' \<or> \<not> credentialVaultReferenceShape c r then '''' else dg_source D c)"

definition vaultStoredMethod :: "string \<Rightarrow> bool" where
  "vaultStoredMethod m \<longleftrightarrow> m = ''token'' \<or> m = ''approle'' \<or> m = ''certificate''"

definition credentialHolderKey :: "digests \<Rightarrow> credential_row \<Rightarrow> source_error + source_key" where
  "credentialHolderKey D c =
     (if inline_source c then Inr no_key
      else case cr_VaultReference c of
          None \<Rightarrow> Inl VaultUnavailable
        | Some r \<Rightarrow>
            if credentialSourceProof D c = '''' \<or> \<not> vaultStoredMethod (vr_ReaderMethod r) \<or> \<not> personalModelETag (vr_PhysicalObject r)
            then Inl VaultUnavailable
            else Inr \<lparr>sk_CredentialID = cr_ID c, sk_CredentialBirth = dg_time D (cr_CreatedAt c),
                      sk_ReferenceID = vr_ReferenceID r, sk_IntegrationID = vr_IntegrationID r,
                      sk_IntegrationBirth = dg_time D (vr_IntegrationBirth r), sk_RevisionID = vr_RevisionID r,
                      sk_ReaderGeneration = vr_ReaderGeneration r, sk_ReaderMethod = vr_ReaderMethod r,
                      sk_Descriptor = vr_DescriptorSHA256 r, sk_Proof = credentialSourceProof D c,
                      sk_PhysicalObject = vr_PhysicalObject r, sk_Marker = vr_ExpectedMarkerSHA256 r\<rparr>)"

section \<open>Deployments\<close>

definition ValidAzureDeployment :: "string \<Rightarrow> bool" where
  "ValidAzureDeployment s \<longleftrightarrow>
     s \<noteq> [] \<and> length s \<le> 255 \<and> s \<noteq> ''.'' \<and> s \<noteq> ''..'' \<and>
     list_all (\<lambda>c. c \<in> set ''_-.'' \<or> is_lower c \<or> is_upper c \<or> is_digit c) s"

definition trim_preview :: "string \<Rightarrow> string" where
  "trim_preview s = (if drop (length s - 8) s = ''-preview'' then take (length s - 8) s else s)"

definition ValidAzureAPIVersion :: "digests \<Rightarrow> string \<Rightarrow> bool" where
  "ValidAzureAPIVersion D s \<longleftrightarrow> length (trim_preview s) = 10 \<and> length s \<le> 18 \<and> dg_date D (trim_preview s)"

definition deploymentAttestationIdentity ::
  "digests \<Rightarrow> credential_row \<Rightarrow> connection_row \<Rightarrow> provider_model_row \<Rightarrow> string" where
  "deploymentAttestationIdentity D c connection pm =
     (if cr_ID c = '''' \<or> cr_ConnectionID c \<noteq> cn_ID connection \<or> pm_ConnectionID pm \<noteq> cn_ID connection \<or>
         \<not> connectionMetadataBirth (cr_CreatedAt c) \<or> \<not> connectionMetadataBirth (cn_CreatedAt connection) \<or>
         \<not> connectionMetadataBirth (pm_CreatedAt pm) \<or> ConnectionAdapter connection \<noteq> AdapterAzureOpenAIClassic \<or>
         (case cn_APIVersion connection of None \<Rightarrow> True | Some v \<Rightarrow> \<not> ValidAzureAPIVersion D v) \<or>
         \<not> ValidAzureDeployment (pm_UpstreamName pm)
      then ''''
      else if cr_StorageSource c = ''vault'' \<and>
              (case cr_VaultReference c of None \<Rightarrow> True | Some r \<Rightarrow> \<not> credentialVaultReferenceShape c r)
      then ''''
      else if cr_StorageSource c \<noteq> ''vault'' \<and> (\<not> inline_source c \<or> cr_VaultReference c \<noteq> None) then ''''
      else if \<not> validTransportGeneration (cn_TransportGeneration connection) then ''''
      else dg_identity D c connection pm)"

definition access_of_attestation ::
  "digests \<Rightarrow> (string \<Rightarrow> credential_row option) \<Rightarrow> (string \<Rightarrow> connection_row option) \<Rightarrow>
   (string \<Rightarrow> provider_model_row option) \<Rightarrow> attestation_row \<Rightarrow> bool" where
  "access_of_attestation D creds cs pms a \<longleftrightarrow>
     (case (creds (at_CredentialID a), pms (at_ProviderModelID a)) of
        (Some c, Some m) \<Rightarrow>
          (case cs (cr_ConnectionID c) of
             None \<Rightarrow> False
           | Some connection \<Rightarrow>
               verifiedTransportCurrent c connection \<and> at_Identity a \<noteq> '''' \<and>
               at_Identity a = deploymentAttestationIdentity D c connection m)
      | _ \<Rightarrow> False)"

definition access_of_discovery ::
  "(string \<Rightarrow> credential_row option) \<Rightarrow> (string \<Rightarrow> connection_row option) \<Rightarrow> (string \<Rightarrow> provider_model_row option) \<Rightarrow>
   string \<times> string \<Rightarrow> bool" where
  "access_of_discovery creds cs pms a \<longleftrightarrow>
     (case (creds (fst a), pms (snd a)) of
        (Some c, Some pm) \<Rightarrow>
          let connection = connection_of cs (cr_ConnectionID c) in
          verifiedTransportCurrent c connection \<and> pm_ConnectionID pm = cn_ID connection \<and>
          ConnectionAdapter connection \<noteq> AdapterAzureOpenAIClassic
      | _ \<Rightarrow> False)"

text \<open>The pairs of a credential and a provider model it may be used for, sorted, each once.\<close>

definition deploymentCoverageProjection ::
  "digests \<Rightarrow> credential_row list \<Rightarrow> connection_row list \<Rightarrow> provider_model_row list \<Rightarrow> (string \<times> string) list \<Rightarrow>
   attestation_row list \<Rightarrow> (string \<times> string) list" where
  "deploymentCoverageProjection D crs conns models discovered attestations =
     (let creds = index_by cr_ID crs; cs = index_by cn_ID conns; pms = index_by pm_ID models in
      sort_key fst (sort_key snd (remdups
        (filter (access_of_discovery creds cs pms) discovered @
         map (\<lambda>a. (at_CredentialID a, at_ProviderModelID a)) (filter (access_of_attestation D creds cs pms) attestations)))))"

section \<open>Egress\<close>

text \<open>The egress row, the revision and whether it is enabled.\<close>

definition runtimeEgressSelection ::
  "digests \<Rightarrow> egress_row list \<Rightarrow> egress_setting \<Rightarrow> connection_row \<Rightarrow> egress_row option \<times> string \<times> bool" where
  "runtimeEgressSelection D egresses setting c =
     (let mode = cn_EgressMode c;
          selected = (if mode = '''' \<or> mode = ''default'' then Inr (es_DefaultEgressID setting)
                      else if mode = ''direct'' then (if cn_EgressID c \<noteq> None then Inl () else Inr None)
                      else if mode = ''proxy'' then (if cn_EgressID c = None then Inl () else Inr (cn_EgressID c))
                      else Inl ())
      in case selected of
           Inl _ \<Rightarrow> (None, '''', False)
         | Inr None \<Rightarrow> (None, dg_egress D c setting None, True)
         | Inr (Some eid) \<Rightarrow>
             (case find (\<lambda>e. eg_ID e = eid) egresses of
                None \<Rightarrow> (None, '''', False)
              | Some e \<Rightarrow> (Some e, dg_egress D c setting (Some e), eg_Enabled e)))"

end
