(* ===== verification/Runtime_Auth.thy ===== *)
theory Runtime_Auth
  imports Runtime_Rows
begin

text \<open>
  The authorization snapshot of a process and the revocations it has not seen yet,
  \<open>internal/routex/service/runtime.go\<close> with \<open>runtime_project_keys.go\<close>, \<open>runtime_member_models.go\<close>,
  \<open>connection_status_runtime.go\<close> and \<open>provider_status_runtime.go\<close>: how the snapshot is built from the rows
  of one database transaction, how a key is authenticated and a model found on it, the tombstones that
  deny at once what a snapshot still allows, and the publication of a new snapshot. Sessions, creation
  states, limits and quota of the snapshot are read by code that is not modelled here.
\<close>

section \<open>Data\<close>

record project_data =
  pd_Projects :: "project_row list"
  pd_Managers :: "(string \<times> string) list" \<comment> \<open>project and user\<close>
  pd_Keys :: "project_key_row list"
  pd_Scopes :: "(string \<times> string) list" \<comment> \<open>key and model\<close>
  pd_Grants :: "(string \<times> string) list" \<comment> \<open>project and model\<close>

record runtime_data =
  rd_ApprovalApplications :: "application_row list"
  rd_Egresses :: "egress_row list"
  rd_EgressSetting :: egress_setting
  rd_EgressGeneration :: nat
  rd_ProjectData :: "project_data option"
  rd_Users :: "user_row list"
  rd_Keys :: "key_row list"
  rd_Scopes :: "(string \<times> string) list"
  rd_Grants :: "grant_row list"
  rd_Models :: "model_row list"
  rd_Names :: "name_row list"
  rd_Providers :: "provider_row list"
  rd_Connections :: "connection_row list"
  rd_Credentials :: "credential_row list"
  rd_ProviderModels :: "provider_model_row list"
  rd_Access :: "(string \<times> string) list"
  rd_Attestations :: "attestation_row list"
  rd_Bindings :: "binding_row list"

record runtime_key =
  rk_Key :: key_row
  rk_ProjectID :: string
  rk_Models :: "string list"

record connection_proof =
  cp_TransportGeneration :: string
  cp_ProviderID :: string
  cp_Birth :: "int option"
  cp_Enabled :: bool

record provider_proof =
  pp_Birth :: "int option"
  pp_Enabled :: bool
  pp_Revision :: string

record grant_state =
  gs_CreatedAt :: "int option"
  gs_Enabled :: bool
  gs_Revision :: string

record runtime_authorization =
  ra_Connections :: "string \<Rightarrow> connection_proof option"
  ra_Providers :: "string \<Rightarrow> provider_proof option"
  ra_PersonalGrantStates :: "string \<Rightarrow> grant_state option"
  ra_PersonalModels :: "string \<Rightarrow> string \<Rightarrow> bool"
  ra_UserAdmissions :: "string \<Rightarrow> admission_proof option"
  ra_ProviderModelRevisions :: "string \<Rightarrow> string"
  ra_ConnectionRevisions :: "string \<Rightarrow> string"
  ra_ValidUntil :: int
  ra_Keys :: "(string \<times> runtime_key) list"
  ra_KeysByID :: "string \<Rightarrow> runtime_key option"
  ra_Names :: "string \<Rightarrow> name_row option"
  ra_Models :: "string \<Rightarrow> bool"
  ra_Credentials :: "string \<Rightarrow> bool"
  ra_ProviderModels :: "string \<Rightarrow> bool"
  ra_CredentialAccess :: "string \<Rightarrow> string \<Rightarrow> bool"
  ra_publicationEpoch :: nat

section \<open>Building the snapshot\<close>

definition KeyActive :: string where "KeyActive = ''active''"
definition ResourceActive :: string where "ResourceActive = ''active''"

definition runtimeConnectionProofs :: "runtime_data \<Rightarrow> string \<Rightarrow> connection_proof option" where
  "runtimeConnectionProofs data =
     map_option (\<lambda>c. \<lparr>cp_TransportGeneration = cn_TransportGeneration c, cp_ProviderID = cn_ProviderID c,
                       cp_Birth = cn_CreatedAt c, cp_Enabled = cn_Enabled c\<rparr>) \<circ>
     index_by cn_ID (filter (\<lambda>c. modelCreationID (cn_ID c) ''con'' \<and> connectionMetadataBirth (cn_CreatedAt c) \<and>
                                validTransportGeneration (cn_TransportGeneration c)) (rd_Connections data))"

definition runtimeProviderProofs :: "runtime_data \<Rightarrow> string \<Rightarrow> provider_proof option" where
  "runtimeProviderProofs data =
     map_option (\<lambda>p. \<lparr>pp_Birth = pv_CreatedAt p, pp_Enabled = pv_Enabled p, pp_Revision = pv_ETag p\<rparr>) \<circ>
     index_by pv_ID (filter (\<lambda>p. modelCreationID (pv_ID p) ''prv'' \<and> connectionMetadataBirth (pv_CreatedAt p) \<and>
                                pv_ETag p \<noteq> '''') (rd_Providers data))"

definition eligible_user :: "(string \<Rightarrow> admission_proof option) \<Rightarrow> string \<Rightarrow> bool" where
  "eligible_user admissions u = (case admissions u of None \<Rightarrow> False | Some p \<Rightarrow> ad_Eligible p)"

definition runtimePersonalGrantStates :: "runtime_data \<Rightarrow> string \<Rightarrow> grant_state option" where
  "runtimePersonalGrantStates data =
     map_option (\<lambda>u. \<lparr>gs_CreatedAt = us_CreatedAt u,
                       gs_Enabled = eligible_user (runtimeRegistrationAdmissions (rd_ApprovalApplications data) (rd_Users data)) (us_ID u),
                       gs_Revision = us_PersonalGrantRevision u\<rparr>) \<circ> index_by us_ID (rd_Users data)"

definition runtimeConnectionRevisions :: "digests \<Rightarrow> runtime_data \<Rightarrow> string \<Rightarrow> string" where
  "runtimeConnectionRevisions D data =
     fold (\<lambda>c m. case runtimeEgressSelection D (rd_Egresses data) (rd_EgressSetting data) c of
                   (_, revision, enabled) \<Rightarrow> if enabled then m(cn_ID c := revision) else m)
       (rd_Connections data) (\<lambda>_. [])"

definition active_models :: "model_row list \<Rightarrow> string \<Rightarrow> bool" where
  "active_models models m = (case index_by md_ID models m of None \<Rightarrow> False | Some r \<Rightarrow> md_Status r = ''active'')"

text \<open>The models of a key: those in its scopes, in order, that are active and granted; sorted.\<close>

definition allowed_models :: "(string \<times> string) list \<Rightarrow> (string \<Rightarrow> bool) \<Rightarrow> (string \<Rightarrow> bool) \<Rightarrow> string \<Rightarrow> string list" where
  "allowed_models scopes active granted key_id =
     sort (filter (\<lambda>m. active m \<and> granted m) (map snd (filter (\<lambda>s. fst s = key_id) scopes)))"

definition personal_key ::
  "runtime_data \<Rightarrow> (string \<Rightarrow> bool) \<Rightarrow> (string \<Rightarrow> bool) \<Rightarrow> (string \<Rightarrow> string \<Rightarrow> bool) \<Rightarrow> key_row \<Rightarrow>
   (string \<times> runtime_key) list \<Rightarrow> (string \<times> runtime_key) list" where
  "personal_key data users models grants key ks =
     (if ky_Status key \<noteq> KeyActive \<or> \<not> users (ky_UserID key) then ks
      else AList.update (ky_TokenHash key)
        \<lparr>rk_Key = key, rk_ProjectID = '''',
         rk_Models = allowed_models (rd_Scopes data) models (grants (ky_UserID key)) (ky_ID key)\<rparr> ks)"

definition commonProjectKeyMetadata :: "project_key_row \<Rightarrow> key_row" where
  "commonProjectKeyMetadata k =
     \<lparr>ky_ID = pk_ID k, ky_UserID = '''', ky_TokenHash = pk_TokenHash k, ky_Status = pk_Status k, ky_ExpiresAt = pk_ExpiresAt k\<rparr>"

definition active_projects :: "project_data \<Rightarrow> (string \<Rightarrow> bool) \<Rightarrow> string \<Rightarrow> bool" where
  "active_projects pd users p =
     (case index_by pr_ID (pd_Projects pd) p of
        None \<Rightarrow> False
      | Some r \<Rightarrow> pr_Status r = ResourceActive \<and> list_ex (\<lambda>m. fst m = p \<and> users (snd m)) (pd_Managers pd))"

definition project_key ::
  "project_data \<Rightarrow> (string \<Rightarrow> bool) \<Rightarrow> (string \<Rightarrow> bool) \<Rightarrow> project_key_row \<Rightarrow>
   (string \<times> runtime_key) list \<Rightarrow> (string \<times> runtime_key) list" where
  "project_key pd users models key ks =
     (if pk_Status key \<noteq> KeyActive \<or> \<not> active_projects pd users (pk_ProjectID key) then ks
      else AList.update (pk_TokenHash key)
        \<lparr>rk_Key = commonProjectKeyMetadata key, rk_ProjectID = pk_ProjectID key,
         rk_Models = allowed_models (pd_Scopes pd) models (\<lambda>m. (pk_ProjectID key, m) \<in> set (pd_Grants pd)) (pk_ID key)\<rparr> ks)"

definition addProjectRuntimeAuthorization ::
  "project_data option \<Rightarrow> (string \<Rightarrow> bool) \<Rightarrow> (string \<Rightarrow> bool) \<Rightarrow> (string \<times> runtime_key) list \<Rightarrow> (string \<times> runtime_key) list" where
  "addProjectRuntimeAuthorization project users models ks =
     (case project of None \<Rightarrow> ks | Some pd \<Rightarrow> fold (project_key pd users models) (pd_Keys pd) ks)"

definition buildRuntimeAuthorization :: "digests \<Rightarrow> runtime_data \<Rightarrow> int \<Rightarrow> runtime_authorization" where
  "buildRuntimeAuthorization D data until =
     (let admissions = runtimeRegistrationAdmissions (rd_ApprovalApplications data) (rd_Users data);
          users = eligible_user admissions;
          models = active_models (rd_Models data);
          grants = (\<lambda>u m. list_ex (\<lambda>g. gn_UserID g = u \<and> gn_ModelID g = m) (rd_Grants data));
          ks = addProjectRuntimeAuthorization (rd_ProjectData data) users models
                 (fold (personal_key data users models grants) (rd_Keys data) []);
          conns = index_by cn_ID (rd_Connections data);
          access = deploymentCoverageProjection D (rd_Credentials data) (rd_Connections data) (rd_ProviderModels data)
                     (rd_Access data) (rd_Attestations data)
      in \<lparr>ra_Connections = runtimeConnectionProofs data,
          ra_Providers = runtimeProviderProofs data,
          ra_PersonalGrantStates = runtimePersonalGrantStates data,
          ra_PersonalModels = grants,
          ra_UserAdmissions = admissions,
          ra_ProviderModelRevisions =
            (\<lambda>m. case index_by pm_ID (rd_ProviderModels data) m of None \<Rightarrow> '''' | Some pm \<Rightarrow> pm_ETag pm),
          ra_ConnectionRevisions = runtimeConnectionRevisions D data,
          ra_ValidUntil = until,
          ra_Keys = ks,
          ra_KeysByID = index_by (\<lambda>k. ky_ID (rk_Key k)) (map snd ks),
          ra_Names = index_by nm_Name (rd_Names data),
          ra_Models = models,
          ra_Credentials =
            (\<lambda>cid. case index_by cr_ID (rd_Credentials data) cid of
                     None \<Rightarrow> False
                   | Some c \<Rightarrow> cr_Enabled c \<and> verifiedTransportCurrent c (connection_of conns (cr_ConnectionID c)) \<and>
                              credentialSourceProof D c \<noteq> ''''),
          ra_ProviderModels =
            (\<lambda>m. case index_by pm_ID (rd_ProviderModels data) m of
                   None \<Rightarrow> False
                 | Some pm \<Rightarrow> \<not> pm_Disabled pm \<and> capabilityTransportCurrent pm (connection_of conns (pm_ConnectionID pm))),
          ra_CredentialAccess = (\<lambda>c m. (c, m) \<in> set access),
          ra_publicationEpoch = 0\<rparr>)"

section \<open>Tombstones\<close>

datatype deny_kind =
  DenyKeys | DenyLimits | DenyUsers | DenyPersonalGrants | DenyProjects | DenyModels | DenyCredentials | DenyConnections |
  DenyProviders | DenyProviderModels | DenySessions | DenyOIDCPolicies | DenyOIDCBindings | DenyOAuthPolicies |
  DenyOAuthBindings | DenySAMLPolicies | DenyNamedIdentityPolicies | DenyNamedIdentityBindings | DenySAMLBindings |
  DenyLDAPPolicies | DenyLDAPBindings | DenySessionUsers | DenyTeams | DenyTeamMembers

text \<open>The maps in the order in which a refresh clears them.\<close>

definition cleared_kinds :: "deny_kind list" where
  "cleared_kinds =
     [DenyKeys, DenyLimits, DenyUsers, DenyPersonalGrants, DenyProjects, DenyModels, DenyCredentials, DenyConnections,
      DenyProviders, DenyProviderModels, DenySessions, DenyOIDCPolicies, DenyOIDCBindings, DenyOAuthPolicies,
      DenyOAuthBindings, DenySAMLPolicies, DenyNamedIdentityPolicies, DenyNamedIdentityBindings, DenySAMLBindings,
      DenyLDAPPolicies, DenyLDAPBindings, DenySessionUsers, DenyTeams, DenyTeamMembers]"

type_synonym tombstones = "string \<Rightarrow> nat option"

definition clearRuntimeTombstones :: "tombstones \<Rightarrow> nat \<Rightarrow> tombstones" where
  "clearRuntimeTombstones m generation =
     (\<lambda>k. case m k of None \<Rightarrow> None | Some g \<Rightarrow> if g \<le> generation then None else Some g)"

text \<open>The part of \<open>gatewayRuntime\<close> modelled here; \<open>'r\<close> are the published routes.\<close>

record 'r runtime =
  rn_auth :: "runtime_authorization option"
  rn_routes :: "'r option"
  rn_epoch :: nat
  rn_denied :: "deny_kind \<Rightarrow> tombstones"

definition runtimeDenied :: "'r runtime \<Rightarrow> deny_kind \<Rightarrow> string \<Rightarrow> bool" where
  "runtimeDenied rn kind key \<longleftrightarrow> rn_denied rn kind key \<noteq> None"

text \<open>\<open>InvalidateRuntimeKey\<close> and its likes: advance the epoch, then store it as the tombstone.\<close>

definition advance_epoch :: "'r runtime \<Rightarrow> nat \<times> 'r runtime" where
  "advance_epoch rn = (rn_epoch rn + 1, rn\<lparr>rn_epoch := rn_epoch rn + 1\<rparr>)"

definition store_tombstone :: "deny_kind \<Rightarrow> string \<Rightarrow> nat \<Rightarrow> 'r runtime \<Rightarrow> 'r runtime" where
  "store_tombstone kind key n rn = rn\<lparr>rn_denied := (rn_denied rn)(kind := (rn_denied rn kind)(key \<mapsto> n))\<rparr>"

definition InvalidateRuntime :: "deny_kind \<Rightarrow> string \<Rightarrow> 'r runtime \<Rightarrow> 'r runtime" where
  "InvalidateRuntime kind key rn = (case advance_epoch rn of (n, rn1) \<Rightarrow> store_tombstone kind key n rn1)"

definition clear_kind :: "nat \<Rightarrow> deny_kind \<Rightarrow> 'r runtime \<Rightarrow> 'r runtime" where
  "clear_kind generation kind rn =
     rn\<lparr>rn_denied := (rn_denied rn)(kind := clearRuntimeTombstones (rn_denied rn kind) generation)\<rparr>"

definition publish_auth :: "digests \<Rightarrow> runtime_data \<Rightarrow> int \<Rightarrow> nat \<Rightarrow> 'r runtime \<Rightarrow> 'r runtime" where
  "publish_auth D data until generation rn =
     rn\<lparr>rn_auth := Some ((buildRuntimeAuthorization D data until)\<lparr>ra_publicationEpoch := generation\<rparr>)\<rparr>"

text \<open>The effects of a refresh with which nothing interferes: the snapshot, then the maps one after the other.\<close>

definition refresh_effects :: "digests \<Rightarrow> runtime_data \<Rightarrow> int \<Rightarrow> nat \<Rightarrow> 'r runtime \<Rightarrow> 'r runtime" where
  "refresh_effects D data until generation rn =
     fold (clear_kind generation) cleared_kinds (publish_auth D data until generation rn)"

section \<open>Reading the snapshot\<close>

definition valid_auth :: "'r runtime \<Rightarrow> int \<Rightarrow> runtime_authorization option" where
  "valid_auth rn now = (case rn_auth rn of None \<Rightarrow> None | Some auth \<Rightarrow> if now < ra_ValidUntil auth then Some auth else None)"

datatype auth_error = RuntimeNotAvailable | Unauthorized

record key_record =
  kr_Key :: key_row
  kr_ProjectID :: string
  kr_ModelIDs :: "string list"

text \<open>
  The function in its two reads: the snapshot is loaded once, the tombstones are consulted afterwards
  (\<open>admitted_key\<close>, on the snapshot loaded).
\<close>

definition admitted_key ::
  "digests \<Rightarrow> runtime_authorization \<Rightarrow> 'r runtime \<Rightarrow> int \<Rightarrow> string \<Rightarrow> auth_error + key_record" where
  "admitted_key D auth rn now bearer =
     (let personal = (length bearer = 46 \<and> take 3 bearer = ''rx_'');
          project = (length bearer = 47 \<and> take 4 bearer = ''rxp_'')
      in if \<not> personal \<and> \<not> project then Inl Unauthorized
         else case map_of (ra_Keys auth) (dg_bearer D bearer) of
             None \<Rightarrow> Inl Unauthorized
           | Some key \<Rightarrow>
               if project \<noteq> (rk_ProjectID key \<noteq> []) \<or> runtimeDenied rn DenyKeys (ky_ID (rk_Key key)) \<or>
                  (case ky_ExpiresAt (rk_Key key) of None \<Rightarrow> False | Some t \<Rightarrow> \<not> now < t)
               then Inl Unauthorized
               else if project \<and> runtimeDenied rn DenyProjects (rk_ProjectID key) \<or>
                       personal \<and> (runtimeDenied rn DenyUsers (ky_UserID (rk_Key key)) \<or>
                                   runtimeDenied rn DenyPersonalGrants (ky_UserID (rk_Key key)))
               then Inl Unauthorized
               else Inr \<lparr>kr_Key = rk_Key key, kr_ProjectID = rk_ProjectID key,
                         kr_ModelIDs = filter (\<lambda>m. \<not> runtimeDenied rn DenyModels m) (rk_Models key)\<rparr>)"

definition authenticateRuntimeKey :: "digests \<Rightarrow> 'r runtime \<Rightarrow> int \<Rightarrow> string \<Rightarrow> auth_error + key_record" where
  "authenticateRuntimeKey D rn now bearer =
     (case valid_auth rn now of
        None \<Rightarrow> Inl RuntimeNotAvailable
      | Some auth \<Rightarrow> admitted_key D auth rn now bearer)"

definition runtimeModelName :: "'r runtime \<Rightarrow> int \<Rightarrow> string \<Rightarrow> name_row option" where
  "runtimeModelName rn now name =
     (case valid_auth rn now of
        None \<Rightarrow> None
      | Some auth \<Rightarrow>
          (case ra_Names auth name of
             None \<Rightarrow> None
           | Some model \<Rightarrow>
               if \<not> ra_Models auth (nm_ModelID model) \<or> runtimeDenied rn DenyModels (nm_ModelID model) then None
               else if nm_CurrentModelID model = None \<and>
                       (case nm_ExpiresAt model of None \<Rightarrow> True | Some t \<Rightarrow> \<not> now < t) then None
               else Some model))"

definition personalPreparedGrantAllowed ::
  "'r runtime \<Rightarrow> runtime_authorization \<Rightarrow> string \<Rightarrow> string \<Rightarrow> string \<Rightarrow> string \<Rightarrow> bool" where
  "personalPreparedGrantAllowed rn auth user key_id model revision \<longleftrightarrow>
     \<not> runtimeDenied rn DenyPersonalGrants user \<and>
     (case (ra_KeysByID auth key_id, ra_PersonalGrantStates auth user) of
        (Some key, Some state) \<Rightarrow>
          gs_Enabled state \<and> rk_ProjectID key = '''' \<and> ky_UserID (rk_Key key) = user \<and> model \<in> set (rk_Models key) \<and>
          (revision = '''' \<or> gs_Revision state = revision)
      | _ \<Rightarrow> False)"

end
