(* ===== verification/Runtime_Claims.thy ===== *)
theory Runtime_Claims
  imports Runtime_Auth
begin

text \<open>
  Revocations against the refresh of the runtime snapshot, \<open>refreshRuntime\<close> and the \<open>InvalidateRuntime\<close>
  functions of \<open>internal/routex/service/runtime.go\<close>, as a transition system. Its atomic steps are the ones
  the code has: a commit of the primary database, the increment of the epoch, the store of a tombstone,
  the load of the epoch by a refresh, its repeatable-read transaction, the publication of the snapshot
  and the removal of single tombstones; they interleave freely. There is one refresh at a time
  (\<open>refreshMu\<close>), and a mutation that holds the publication gate runs while no refresh does.
\<close>

section \<open>What a snapshot admits\<close>

type_synonym subject = "deny_kind \<times> string"

definition admits :: "subject \<Rightarrow> runtime_authorization \<Rightarrow> bool" where
  "admits s auth =
     (case s of (kind, x) \<Rightarrow>
        (case kind of
           DenyKeys \<Rightarrow> list_ex (\<lambda>e. ky_ID (rk_Key (snd e)) = x) (ra_Keys auth)
         | DenyUsers \<Rightarrow> list_ex (\<lambda>e. rk_ProjectID (snd e) = [] \<and> ky_UserID (rk_Key (snd e)) = x) (ra_Keys auth)
         | DenyProjects \<Rightarrow> list_ex (\<lambda>e. rk_ProjectID (snd e) \<noteq> [] \<and> rk_ProjectID (snd e) = x) (ra_Keys auth)
         | DenyModels \<Rightarrow> ra_Models auth x
         | DenyCredentials \<Rightarrow> ra_Credentials auth x
         | DenyProviderModels \<Rightarrow> ra_ProviderModels auth x
         | _ \<Rightarrow> False))"

definition db_admits :: "digests \<Rightarrow> subject \<Rightarrow> runtime_data \<Rightarrow> bool" where
  "db_admits D s data = admits s (buildRuntimeAuthorization D data 0)"

lemma admits_published:
  "admits s ((buildRuntimeAuthorization D data until)\<lparr>ra_publicationEpoch := g\<rparr>) \<longleftrightarrow> db_admits D s data"
  by (auto simp: admits_def db_admits_def buildRuntimeAuthorization_def Let_def split: prod.splits deny_kind.splits)

section \<open>Transitions\<close>

text \<open>Where the refresh is: the generation it loaded, the data it read, the tombstones it is clearing.\<close>

datatype refresh_pc = Idle | Loaded nat | Read nat runtime_data | Clearing nat

text \<open>
  The primary database, the runtime of the process, its refresh, the revocations between their commit and
  the store of their tombstone (with the epoch, once it is taken), the subjects revoked for good, and those
  whose revocation has returned.
\<close>

record 'r installation =
  in_db :: runtime_data
  in_runtime :: "'r runtime"
  in_refresh :: refresh_pc
  in_open :: "(subject \<times> nat option) list"
  in_revoked :: "subject set"
  in_done :: "subject set"

definition initial :: "runtime_data \<Rightarrow> 'r installation" where
  "initial data =
     \<lparr>in_db = data, in_runtime = \<lparr>rn_auth = None, rn_routes = None, rn_epoch = 0, rn_denied = (\<lambda>_ _. None)\<rparr>,
      in_refresh = Idle, in_open = [], in_revoked = {}, in_done = {}\<rparr>"

text \<open>One removal by \<open>clearRuntimeTombstones\<close>.\<close>

definition clear_one :: "nat \<Rightarrow> subject \<Rightarrow> 'r runtime \<Rightarrow> 'r runtime" where
  "clear_one generation s rn =
     (case s of (kind, x) \<Rightarrow>
        rn\<lparr>rn_denied := (rn_denied rn)
             (kind := (rn_denied rn kind)(x := clearRuntimeTombstones (rn_denied rn kind) generation x))\<rparr>)"

inductive step :: "digests \<Rightarrow> 'r installation \<Rightarrow> 'r installation \<Rightarrow> bool" for D where
  commit: "\<forall>s \<in> in_revoked c. \<not> db_admits D s data \<Longrightarrow> step D c (c\<lparr>in_db := data\<rparr>)"
| gated: "in_refresh c = Idle \<Longrightarrow> \<forall>s \<in> in_revoked c. \<not> db_admits D s data \<Longrightarrow>
    step D c (c\<lparr>in_db := data, in_runtime := InvalidateRuntime kind x (in_runtime c)\<rparr>)"
| revoke: "\<forall>s \<in> insert (kind, x) (in_revoked c). \<not> db_admits D s data \<Longrightarrow>
    step D c (c\<lparr>in_db := data, in_open := ((kind, x), None) # in_open c, in_revoked := insert (kind, x) (in_revoked c)\<rparr>)"
| advance: "in_open c = ps @ (s, None) # qs \<Longrightarrow> advance_epoch (in_runtime c) = (n, rn) \<Longrightarrow>
    step D c (c\<lparr>in_runtime := rn, in_open := ps @ (s, Some n) # qs\<rparr>)"
| store: "in_open c = ps @ ((kind, x), Some n) # qs \<Longrightarrow>
    step D c (c\<lparr>in_runtime := store_tombstone kind x n (in_runtime c), in_open := ps @ qs, in_done := insert (kind, x) (in_done c)\<rparr>)"
| load: "in_refresh c = Idle \<Longrightarrow> step D c (c\<lparr>in_refresh := Loaded (rn_epoch (in_runtime c))\<rparr>)"
| read_rows: "in_refresh c = Loaded g \<Longrightarrow> step D c (c\<lparr>in_refresh := Read g (in_db c)\<rparr>)"
| publish: "in_refresh c = Read g data \<Longrightarrow>
    step D c (c\<lparr>in_refresh := Clearing g, in_runtime := publish_auth D data until g (in_runtime c)\<rparr>)"
| clear: "in_refresh c = Clearing g \<Longrightarrow> step D c (c\<lparr>in_runtime := clear_one g s (in_runtime c)\<rparr>)"
| routes: "in_refresh c = Clearing g \<Longrightarrow> step D c (c\<lparr>in_runtime := (in_runtime c)\<lparr>rn_routes := Some r\<rparr>\<rparr>)"
| leave: "step D c (c\<lparr>in_refresh := Idle\<rparr>)"

inductive reachable :: "digests \<Rightarrow> 'r installation \<Rightarrow> bool" for D where
  start: "reachable D (initial data)"
| further: "reachable D c \<Longrightarrow> step D c c' \<Longrightarrow> reachable D c'"

section \<open>The invariant\<close>

definition tombstone :: "'r installation \<Rightarrow> subject \<Rightarrow> nat option" where
  "tombstone c s = (case s of (kind, x) \<Rightarrow> rn_denied (in_runtime c) kind x)"

definition snapshot_admits :: "'r installation \<Rightarrow> subject \<Rightarrow> bool" where
  "snapshot_admits c s \<longleftrightarrow> (case rn_auth (in_runtime c) of None \<Rightarrow> False | Some auth \<Rightarrow> admits s auth)"

text \<open>A revocation that a refresh of generation \<open>g\<close> has not seen outlives it.\<close>

definition outlives :: "nat \<Rightarrow> 'r installation \<Rightarrow> subject \<Rightarrow> bool" where
  "outlives g c s \<longleftrightarrow>
     (\<forall>n. (s, Some n) \<in> set (in_open c) \<longrightarrow> g < n) \<and>
     (s \<in> in_done c \<longrightarrow> (\<exists>n>g. tombstone c s = Some n))"

definition refresh_ok :: "digests \<Rightarrow> 'r installation \<Rightarrow> bool" where
  "refresh_ok D c \<longleftrightarrow>
     (case in_refresh c of
        Idle \<Rightarrow> True
      | Loaded g \<Rightarrow> g \<le> rn_epoch (in_runtime c)
      | Read g data \<Rightarrow> g \<le> rn_epoch (in_runtime c) \<and> (\<forall>s \<in> in_revoked c. db_admits D s data \<longrightarrow> outlives g c s)
      | Clearing g \<Rightarrow> g \<le> rn_epoch (in_runtime c) \<and> (\<forall>s \<in> in_revoked c. snapshot_admits c s \<longrightarrow> outlives g c s))"

definition consistent :: "digests \<Rightarrow> 'r installation \<Rightarrow> bool" where
  "consistent D c \<longleftrightarrow>
     in_done c \<subseteq> in_revoked c \<and> fst ` set (in_open c) \<subseteq> in_revoked c \<and>
     (\<forall>s \<in> in_revoked c. \<not> db_admits D s (in_db c)) \<and>
     (\<forall>s \<in> in_done c. snapshot_admits c s \<longrightarrow> tombstone c s \<noteq> None) \<and>
     refresh_ok D c"

lemma initial_consistent: "consistent D (initial data)"
  by (simp add: consistent_def initial_def refresh_ok_def)

lemmas state_defs = consistent_def refresh_ok_def outlives_def snapshot_admits_def tombstone_def

lemma store_tombstone_simps [simp]:
  "rn_auth (store_tombstone kind x n rn) = rn_auth rn"
  "rn_epoch (store_tombstone kind x n rn) = rn_epoch rn"
  "rn_denied (store_tombstone kind x n rn) k y = (if k = kind \<and> y = x then Some n else rn_denied rn k y)"
  by (auto simp: store_tombstone_def)

lemma InvalidateRuntime_simps [simp]:
  "rn_auth (InvalidateRuntime kind x rn) = rn_auth rn"
  "rn_epoch (InvalidateRuntime kind x rn) = rn_epoch rn + 1"
  "rn_denied (InvalidateRuntime kind x rn) k y = (if k = kind \<and> y = x then Some (rn_epoch rn + 1) else rn_denied rn k y)"
  by (auto simp: InvalidateRuntime_def advance_epoch_def)

lemma clear_one_simps [simp]:
  "rn_auth (clear_one g s rn) = rn_auth rn"
  "rn_epoch (clear_one g s rn) = rn_epoch rn"
  "rn_denied (clear_one g s rn) k y =
     (if s = (k, y) then (case rn_denied rn k y of None \<Rightarrow> None | Some n \<Rightarrow> if n \<le> g then None else Some n) else rn_denied rn k y)"
  by (auto simp: clear_one_def clearRuntimeTombstones_def split: prod.splits)

lemma publish_auth_simps [simp]:
  "rn_epoch (publish_auth D data until g rn) = rn_epoch rn"
  "rn_denied (publish_auth D data until g rn) = rn_denied rn"
  "rn_auth (publish_auth D data until g rn) = Some ((buildRuntimeAuthorization D data until)\<lparr>ra_publicationEpoch := g\<rparr>)"
  by (simp_all add: publish_auth_def)

section \<open>Every step keeps it\<close>

lemma commit_consistent:
  assumes "consistent D c" "\<forall>s \<in> in_revoked c. \<not> db_admits D s data"
  shows "consistent D (c\<lparr>in_db := data\<rparr>)"
  using assms by (auto simp: state_defs split: refresh_pc.splits)

lemma gated_consistent:
  assumes "consistent D c" "in_refresh c = Idle" "\<forall>s \<in> in_revoked c. \<not> db_admits D s data"
  shows "consistent D (c\<lparr>in_db := data, in_runtime := InvalidateRuntime kind x (in_runtime c)\<rparr>)"
  using assms by (auto simp: state_defs split: option.splits)

lemma revoke_consistent:
  assumes "consistent D c" "\<forall>s \<in> insert (kind, x) (in_revoked c). \<not> db_admits D s data"
  shows "consistent D (c\<lparr>in_db := data, in_open := ((kind, x), None) # in_open c,
                        in_revoked := insert (kind, x) (in_revoked c)\<rparr>)"
  using assms by (auto simp: state_defs image_subset_iff split: refresh_pc.splits)

lemma advance_consistent:
  assumes "consistent D c" "in_open c = ps @ (s, None) # qs" "advance_epoch (in_runtime c) = (n, rn)"
  shows "consistent D (c\<lparr>in_runtime := rn, in_open := ps @ (s, Some n) # qs\<rparr>)"
  using assms by (auto simp: state_defs advance_epoch_def split: refresh_pc.splits)

lemma store_consistent:
  assumes "consistent D c" "in_open c = ps @ ((kind, x), Some n) # qs"
  shows "consistent D (c\<lparr>in_runtime := store_tombstone kind x n (in_runtime c), in_open := ps @ qs,
                        in_done := insert (kind, x) (in_done c)\<rparr>)"
  using assms by (auto simp: state_defs split: refresh_pc.splits)

lemma load_consistent:
  assumes "consistent D c"
  shows "consistent D (c\<lparr>in_refresh := Loaded (rn_epoch (in_runtime c))\<rparr>)"
  using assms by (simp add: state_defs)

lemma read_consistent:
  assumes "consistent D c" "in_refresh c = Loaded g"
  shows "consistent D (c\<lparr>in_refresh := Read g (in_db c)\<rparr>)"
  using assms by (simp add: state_defs)

lemma publish_consistent:
  assumes "consistent D c" "in_refresh c = Read g data"
  shows "consistent D (c\<lparr>in_refresh := Clearing g, in_runtime := publish_auth D data until g (in_runtime c)\<rparr>)"
proof -
  let ?c = "c\<lparr>in_refresh := Clearing g, in_runtime := publish_auth D data until g (in_runtime c)\<rparr>"
  have same: "tombstone ?c s = tombstone c s" "outlives g ?c s = outlives g c s" "snapshot_admits ?c s = db_admits D s data" for s
    by (simp_all add: tombstone_def outlives_def snapshot_admits_def admits_published)
  have kept: "\<forall>s \<in> in_revoked c. db_admits D s data \<longrightarrow> outlives g c s" "g \<le> rn_epoch (in_runtime c)"
    "in_done c \<subseteq> in_revoked c" "fst ` set (in_open c) \<subseteq> in_revoked c" "\<forall>s \<in> in_revoked c. \<not> db_admits D s (in_db c)"
    using assms by (simp_all add: consistent_def refresh_ok_def)
  then have "\<forall>s \<in> in_done c. db_admits D s data \<longrightarrow> tombstone c s \<noteq> None"
    unfolding outlives_def by blast
  with kept show ?thesis by (simp add: consistent_def refresh_ok_def same)
qed

lemma clear_consistent:
  assumes "consistent D c" "in_refresh c = Clearing g"
  shows "consistent D (c\<lparr>in_runtime := clear_one g s (in_runtime c)\<rparr>)"
proof -
  let ?c = "c\<lparr>in_runtime := clear_one g s (in_runtime c)\<rparr>"
  have same: "snapshot_admits ?c s' = snapshot_admits c s'"
    and kept: "tombstone c s' = Some n \<Longrightarrow> g < n \<Longrightarrow> tombstone ?c s' = Some n" for s' n
    by (auto simp: tombstone_def snapshot_admits_def split: prod.splits)
  have outlives: "outlives g ?c s'" if old: "outlives g c s'" for s'
  proof -
    from old have "s' \<in> in_done c \<Longrightarrow> \<exists>n>g. tombstone ?c s' = Some n"
      unfolding outlives_def using kept by blast
    with old show ?thesis by (simp add: outlives_def)
  qed
  from assms have later: "\<forall>s' \<in> in_revoked c. snapshot_admits c s' \<longrightarrow> outlives g c s'"
    and epoch: "g \<le> rn_epoch (in_runtime c)"
    and rest: "in_done c \<subseteq> in_revoked c" "fst ` set (in_open c) \<subseteq> in_revoked c"
      "\<forall>s' \<in> in_revoked c. \<not> db_admits D s' (in_db c)"
    by (simp_all add: consistent_def refresh_ok_def)
  have "\<forall>s' \<in> in_done c. snapshot_admits c s' \<longrightarrow> tombstone ?c s' \<noteq> None"
    using later rest(1) outlives by (force simp: outlives_def)
  with later epoch rest outlives assms(2) show ?thesis by (simp add: consistent_def refresh_ok_def same)
qed

lemma step_consistent: "step D c c' \<Longrightarrow> consistent D c \<Longrightarrow> consistent D c'"
proof (induction rule: step.induct)
  case (routes c g r)
  then show ?case by (auto simp: state_defs)
next
  case (leave c)
  then show ?case by (simp add: state_defs)
qed (simp_all add: commit_consistent gated_consistent revoke_consistent advance_consistent store_consistent
       load_consistent read_consistent publish_consistent clear_consistent)

lemma reachable_consistent: "reachable D c \<Longrightarrow> consistent D c"
  by (induction rule: reachable.induct) (auto intro: initial_consistent step_consistent)

section \<open>What is published\<close>

lemma reachable_published:
  "reachable D c \<Longrightarrow> rn_auth (in_runtime c) = Some auth \<Longrightarrow>
   \<exists>data until g. auth = (buildRuntimeAuthorization D data until)\<lparr>ra_publicationEpoch := g\<rparr>"
proof (induction arbitrary: auth rule: reachable.induct)
  case (start data)
  then show ?case by (simp add: initial_def)
next
  case (further c c')
  from further.hyps(2) further.prems further.IH show ?case
    by (cases rule: step.cases) (auto simp: advance_epoch_def)
qed

text \<open>The models of every key of a snapshot are active in it.\<close>

definition keys_ok :: "(string \<Rightarrow> bool) \<Rightarrow> (string \<times> runtime_key) list \<Rightarrow> bool" where
  "keys_ok models ks \<longleftrightarrow> (\<forall>e \<in> set ks. \<forall>m \<in> set (rk_Models (snd e)). models m)"

lemma set_update: "set (AList.update k v ks) \<subseteq> insert (k, v) (set ks)"
  by (induction ks) auto

lemma keys_ok_update:
  assumes "keys_ok models ks" "\<forall>m \<in> set (rk_Models key). models m"
  shows "keys_ok models (AList.update h key ks)"
  unfolding keys_ok_def
proof
  fix e
  assume "e \<in> set (AList.update h key ks)"
  then have "e \<in> insert (h, key) (set ks)" by (rule subsetD[OF set_update])
  then have "e = (h, key) \<or> e \<in> set ks" by simp
  then show "\<forall>m \<in> set (rk_Models (snd e)). models m"
    using assms unfolding keys_ok_def by (elim disjE) simp_all
qed

lemma allowed_models_active: "m \<in> set (allowed_models scopes active granted kid) \<Longrightarrow> active m"
  by (simp add: allowed_models_def)

lemma personal_key_ok: "keys_ok models ks \<Longrightarrow> keys_ok models (personal_key data users models grants key ks)"
  unfolding personal_key_def by (auto intro!: keys_ok_update dest: allowed_models_active)

lemma project_key_ok: "keys_ok models ks \<Longrightarrow> keys_ok models (project_key pd users models key ks)"
  unfolding project_key_def by (auto intro!: keys_ok_update dest: allowed_models_active)

lemma fold_keys_ok:
  assumes "\<And>key ks. keys_ok models ks \<Longrightarrow> keys_ok models (f key ks)" "keys_ok models ks"
  shows "keys_ok models (fold f keys ks)"
  using assms(2) by (induction keys arbitrary: ks) (simp_all add: assms(1))

lemma built_keys_ok:
  "keys_ok (ra_Models (buildRuntimeAuthorization D data until)) (ra_Keys (buildRuntimeAuthorization D data until))"
proof -
  have "keys_ok models []" for models by (simp add: keys_ok_def)
  then show ?thesis
    unfolding buildRuntimeAuthorization_def Let_def addProjectRuntimeAuthorization_def
    by (auto intro!: fold_keys_ok personal_key_ok project_key_ok split: option.splits)
qed

lemma map_of_list_ex: "map_of ks h = Some v \<Longrightarrow> P (h, v) \<Longrightarrow> list_ex P ks"
  unfolding list_ex_iff by (blast dest: map_of_SomeD)

text \<open>Every map is cleared: what an undisturbed refresh leaves are the tombstones newer than its generation.\<close>

lemma cleared_kinds_all: "kind \<in> set cleared_kinds"
  by (cases kind) (simp_all add: cleared_kinds_def)

lemma clear_kinds_denied:
  "rn_denied (fold (clear_kind g) kinds rn) kind =
     (if kind \<in> set kinds then clearRuntimeTombstones (rn_denied rn kind) g else rn_denied rn kind)"
proof (induction kinds arbitrary: rn)
  case (Cons k kinds)
  have "clearRuntimeTombstones (clearRuntimeTombstones m g) g = clearRuntimeTombstones m g" for m
    by (auto simp: clearRuntimeTombstones_def fun_eq_iff split: option.splits)
  then show ?case by (simp add: Cons.IH) (simp add: clear_kind_def)
qed simp

lemma refresh_effects_denied:
  "rn_denied (refresh_effects D data until g rn) kind x =
     (case rn_denied rn kind x of None \<Rightarrow> None | Some n \<Rightarrow> if n \<le> g then None else Some n)"
  by (simp add: refresh_effects_def clear_kinds_denied cleared_kinds_all clearRuntimeTombstones_def)

section \<open>Revocations hold\<close>

text \<open>A revocation that has returned is denied as long as a snapshot admits its subject.\<close>

lemma done_denied:
  assumes "reachable D c" "(kind, x) \<in> in_done c" "valid_auth (in_runtime c) now = Some auth" "admits (kind, x) auth"
  shows "runtimeDenied (in_runtime c) kind x"
proof -
  from assms(3) have "rn_auth (in_runtime c) = Some auth"
    by (simp add: valid_auth_def split: option.splits if_splits)
  with assms(4) have "snapshot_admits c (kind, x)" by (simp add: snapshot_admits_def)
  with reachable_consistent[OF assms(1)] assms(2) have "tombstone c (kind, x) \<noteq> None"
    unfolding consistent_def by blast
  then show ?thesis by (simp add: tombstone_def runtimeDenied_def)
qed

lemma valid_models:
  assumes "reachable D c" "valid_auth (in_runtime c) now = Some auth"
  shows "keys_ok (ra_Models auth) (ra_Keys auth)"
proof -
  from assms(2) have "rn_auth (in_runtime c) = Some auth"
    by (simp add: valid_auth_def split: option.splits if_splits)
  with reachable_published[OF assms(1)] built_keys_ok show ?thesis by fastforce
qed

lemma guards_Inr:
  "(if a then Inl e else if b then Inl e else if c then Inl e else Inr x) = Inr r \<Longrightarrow> \<not> a \<and> \<not> b \<and> \<not> c \<and> r = x"
  by (simp split: if_splits)

lemma admitted_key_Inr:
  assumes "admitted_key D auth rn now bearer = Inr r"
  obtains h key where "map_of (ra_Keys auth) h = Some key" "kr_Key r = rk_Key key" "kr_ProjectID r = rk_ProjectID key"
    "\<not> runtimeDenied rn DenyKeys (ky_ID (rk_Key key))"
    "rk_ProjectID key \<noteq> [] \<Longrightarrow> \<not> runtimeDenied rn DenyProjects (rk_ProjectID key)"
    "rk_ProjectID key = [] \<Longrightarrow> \<not> runtimeDenied rn DenyUsers (ky_UserID (rk_Key key))"
    "set (kr_ModelIDs r) = {m \<in> set (rk_Models key). \<not> runtimeDenied rn DenyModels m}"
proof -
  let ?project = "length bearer = 47 \<and> take 4 bearer = ''rxp_''"
  and ?personal = "length bearer = 46 \<and> take 3 bearer = ''rx_''"
  from assms obtain key where key: "map_of (ra_Keys auth) (dg_bearer D bearer) = Some key"
    unfolding admitted_key_def Let_def by (simp split: if_splits option.splits)
  have "\<not> (\<not> ?personal \<and> \<not> ?project) \<and>
      \<not> (?project \<noteq> (rk_ProjectID key \<noteq> []) \<or> runtimeDenied rn DenyKeys (ky_ID (rk_Key key)) \<or>
         (case ky_ExpiresAt (rk_Key key) of None \<Rightarrow> False | Some t \<Rightarrow> \<not> now < t)) \<and>
      \<not> (?project \<and> runtimeDenied rn DenyProjects (rk_ProjectID key) \<or>
         ?personal \<and> (runtimeDenied rn DenyUsers (ky_UserID (rk_Key key)) \<or>
                       runtimeDenied rn DenyPersonalGrants (ky_UserID (rk_Key key)))) \<and>
      r = \<lparr>kr_Key = rk_Key key, kr_ProjectID = rk_ProjectID key,
           kr_ModelIDs = filter (\<lambda>m. \<not> runtimeDenied rn DenyModels m) (rk_Models key)\<rparr>"
    by (rule guards_Inr) (use assms in \<open>unfold admitted_key_def Let_def key option.case\<close>)
  then have some: "?personal \<or> ?project" and rest: "?project = (rk_ProjectID key \<noteq> [])"
      "\<not> runtimeDenied rn DenyKeys (ky_ID (rk_Key key))"
      "?project \<Longrightarrow> \<not> runtimeDenied rn DenyProjects (rk_ProjectID key)"
      "?personal \<Longrightarrow> \<not> runtimeDenied rn DenyUsers (ky_UserID (rk_Key key))"
      "r = \<lparr>kr_Key = rk_Key key, kr_ProjectID = rk_ProjectID key,
            kr_ModelIDs = filter (\<lambda>m. \<not> runtimeDenied rn DenyModels m) (rk_Models key)\<rparr>"
    by (blast, blast, blast, blast, blast, blast)
  show ?thesis
  proof (rule that[OF key])
    show "kr_Key r = rk_Key key" "kr_ProjectID r = rk_ProjectID key"
      "set (kr_ModelIDs r) = {m \<in> set (rk_Models key). \<not> runtimeDenied rn DenyModels m}"
      using rest(5) by simp_all
    show "\<not> runtimeDenied rn DenyKeys (ky_ID (rk_Key key))" by (rule rest(2))
    show "\<not> runtimeDenied rn DenyProjects (rk_ProjectID key)" if "rk_ProjectID key \<noteq> []"
      by (rule rest(3)) (use that rest(1) in blast)
    show "\<not> runtimeDenied rn DenyUsers (ky_UserID (rk_Key key))" if "rk_ProjectID key = []"
      by (rule rest(4)) (use that rest(1) some in blast)
  qed
qed


section \<open>A concrete installation\<close>

text \<open>One user with two keys; the second database is the first without the active status of the first key.\<close>

definition demo_digests :: digests where
  "demo_digests = \<lparr>dg_bearer = (\<lambda>b. b), dg_source = (\<lambda>_. ''s''), dg_identity = (\<lambda>_ _ _. ''i''),
     dg_egress = (\<lambda>_ _ _. ''e''), dg_time = (\<lambda>_. ''t''), dg_date = (\<lambda>_. True)\<rparr>"

definition demo_user :: string where "demo_user = ''usr_01jabcdefghijkmnpqrstvwxyz''"

definition first_bearer :: string where "first_bearer = ''rx_'' @ replicate 43 CHR ''a''"
definition second_bearer :: string where "second_bearer = ''rx_'' @ replicate 43 CHR ''b''"

definition first_key :: "string \<Rightarrow> key_row" where
  "first_key status = \<lparr>ky_ID = ''key1'', ky_UserID = demo_user, ky_TokenHash = first_bearer, ky_Status = status, ky_ExpiresAt = None\<rparr>"

definition second_key :: key_row where
  "second_key = \<lparr>ky_ID = ''key2'', ky_UserID = demo_user, ky_TokenHash = second_bearer, ky_Status = ''active'', ky_ExpiresAt = None\<rparr>"

definition demo_data :: "string \<Rightarrow> runtime_data" where
  "demo_data status =
     \<lparr>rd_ApprovalApplications = [], rd_Egresses = [], rd_EgressSetting = \<lparr>es_DefaultEgressID = None, es_ETag = []\<rparr>,
      rd_EgressGeneration = 0, rd_ProjectData = None,
      rd_Users = [\<lparr>us_ApprovalApplicationID = None, us_PersonalGrantRevision = [], us_ID = demo_user, us_Disabled = False,
                   us_OffboardedAt = None, us_CreatedAt = Some 1\<rparr>],
      rd_Keys = [first_key status, second_key], rd_Scopes = [], rd_Grants = [], rd_Models = [], rd_Names = [],
      rd_Providers = [], rd_Connections = [], rd_Credentials = [], rd_ProviderModels = [], rd_Access = [],
      rd_Attestations = [], rd_Bindings = []\<rparr>"

lemma active_keys: "ra_Keys (buildRuntimeAuthorization demo_digests (demo_data ''active'') until) =
  [(first_bearer, \<lparr>rk_Key = first_key ''active'', rk_ProjectID = [], rk_Models = []\<rparr>),
   (second_bearer, \<lparr>rk_Key = second_key, rk_ProjectID = [], rk_Models = []\<rparr>)]"
  by code_simp

lemma revoked_keys: "ra_Keys (buildRuntimeAuthorization demo_digests (demo_data ''revoked'') until) =
  [(second_bearer, \<lparr>rk_Key = second_key, rk_ProjectID = [], rk_Models = []\<rparr>)]"
  by code_simp

text \<open>The first snapshot is published; then the first key is revoked; then a refresh sees it.\<close>

definition served_auth :: runtime_authorization where
  "served_auth = (buildRuntimeAuthorization demo_digests (demo_data ''active'') 100)\<lparr>ra_publicationEpoch := 0\<rparr>"

definition served :: "unit installation" where
  "served = (initial (demo_data ''active''))
     \<lparr>in_runtime := \<lparr>rn_auth = Some served_auth, rn_routes = None, rn_epoch = 0, rn_denied = (\<lambda>_ _. None)\<rparr>\<rparr>"

definition revoked :: "unit installation" where
  "revoked = served\<lparr>in_db := demo_data ''revoked'', in_runtime := InvalidateRuntime DenyKeys ''key1'' (in_runtime served),
     in_revoked := {(DenyKeys, ''key1'')}, in_done := {(DenyKeys, ''key1'')}\<rparr>"

definition refreshed :: "unit installation" where
  "refreshed = revoked\<lparr>in_refresh := Clearing 1, in_runtime := clear_one 1 (DenyKeys, ''key1'')
     (publish_auth demo_digests (demo_data ''revoked'') 200 1 (in_runtime revoked))\<rparr>"

lemma served_reachable: "reachable demo_digests served"
proof -
  let ?c = "initial (demo_data ''active'') :: unit installation"
  have "reachable demo_digests ?c" by (rule start)
  from further[OF this load] have "reachable demo_digests (?c\<lparr>in_refresh := Loaded 0\<rparr>)" by (simp add: initial_def)
  from further[OF this read_rows] have "reachable demo_digests (?c\<lparr>in_refresh := Read 0 (demo_data ''active'')\<rparr>)"
    by (simp add: initial_def)
  from further[OF this publish[where until = 100]]
  have "reachable demo_digests (served\<lparr>in_refresh := Clearing 0\<rparr>)"
    by (simp add: initial_def served_def served_auth_def publish_auth_def)
  from further[OF this leave] show ?thesis by (simp add: served_def initial_def)
qed

lemma key1_revoked: "\<not> db_admits demo_digests (DenyKeys, ''key1'') (demo_data ''revoked'')"
  by (simp add: db_admits_def admits_def revoked_keys second_key_def)

lemma revoked_reachable: "reachable demo_digests revoked"
proof -
  let ?s = "(DenyKeys, ''key1'')"
  let ?open = "\<lambda>n. served\<lparr>in_db := demo_data ''revoked'', in_runtime := (in_runtime served)\<lparr>rn_epoch := case n of None \<Rightarrow> 0 | Some e \<Rightarrow> e\<rparr>,
                              in_open := [(?s, n)], in_revoked := {?s}\<rparr>"
  note fields = served_def initial_def
  have "step demo_digests served (?open None)"
    using revoke[of DenyKeys "''key1''" served demo_digests "demo_data ''revoked''"] key1_revoked by (simp add: fields)
  from further[OF served_reachable this] have "reachable demo_digests (?open None)" .
  from further[OF this advance[where ps = "[]" and qs = "[]"]] have "reachable demo_digests (?open (Some 1))"
    by (simp add: advance_epoch_def fields)
  from further[OF this store[where ps = "[]" and qs = "[]"]]
  show ?thesis by (simp add: revoked_def InvalidateRuntime_def advance_epoch_def fields)
qed

lemma refreshed_later: "(step demo_digests)\<^sup>*\<^sup>* revoked refreshed"
proof -
  have fields: "in_refresh revoked = Idle" "in_db revoked = demo_data ''revoked''" "rn_epoch (in_runtime revoked) = 1"
    by (simp_all add: revoked_def served_def initial_def)
  let ?rn = "publish_auth demo_digests (demo_data ''revoked'') 200 1 (in_runtime revoked)"
  have "step demo_digests revoked (revoked\<lparr>in_refresh := Loaded 1\<rparr>)"
    using load[OF fields(1)] by (simp add: fields)
  moreover have "step demo_digests (revoked\<lparr>in_refresh := Loaded 1\<rparr>) (revoked\<lparr>in_refresh := Read 1 (demo_data ''revoked'')\<rparr>)"
    using read_rows[of "revoked\<lparr>in_refresh := Loaded 1\<rparr>" 1] by (simp add: fields)
  moreover have "step demo_digests (revoked\<lparr>in_refresh := Read 1 (demo_data ''revoked'')\<rparr>)
      (revoked\<lparr>in_refresh := Clearing 1, in_runtime := ?rn\<rparr>)"
    using publish[of "revoked\<lparr>in_refresh := Read 1 (demo_data ''revoked'')\<rparr>" 1 "demo_data ''revoked''" demo_digests 200] by simp
  moreover have "step demo_digests (revoked\<lparr>in_refresh := Clearing 1, in_runtime := ?rn\<rparr>) refreshed"
    using clear[of "revoked\<lparr>in_refresh := Clearing 1, in_runtime := ?rn\<rparr>" 1 demo_digests "(DenyKeys, ''key1'')"]
    by (simp add: refreshed_def)
  ultimately show ?thesis by (meson converse_rtranclp_into_rtranclp rtranclp.rtrancl_refl)
qed

lemma second_accepted:
  "authenticateRuntimeKey demo_digests (in_runtime revoked) 50 second_bearer =
     Inr \<lparr>kr_Key = second_key, kr_ProjectID = [], kr_ModelIDs = []\<rparr>"
proof -
  have auth: "valid_auth (in_runtime revoked) 50 = Some served_auth"
    by (simp add: valid_auth_def revoked_def served_def served_auth_def buildRuntimeAuthorization_def Let_def)
  have keys: "ra_Keys served_auth = [(first_bearer, \<lparr>rk_Key = first_key ''active'', rk_ProjectID = [], rk_Models = []\<rparr>),
      (second_bearer, \<lparr>rk_Key = second_key, rk_ProjectID = [], rk_Models = []\<rparr>)]"
    by (simp add: served_auth_def active_keys)
  have bearers: "length second_bearer = 46" "take 3 second_bearer = ''rx_''" "first_bearer \<noteq> second_bearer"
    by code_simp+
  have denied: "runtimeDenied (in_runtime revoked) k x \<longleftrightarrow> k = DenyKeys \<and> x = ''key1''" for k x
    by (simp add: runtimeDenied_def revoked_def served_def)
  show ?thesis
    by (simp add: authenticateRuntimeKey_def admitted_key_def auth keys bearers bearers(3)[symmetric] denied demo_digests_def Let_def second_key_def)
qed


text \<open>C37. The two reads of \<open>authenticateRuntimeKey\<close> are not one. There is a reachable moment at which the
  revocation of a key has returned, and a request which loads the snapshot then and consults the
  tombstones only after further steps, among them the next refresh with its publication and clearing,
  is accepted with the revoked key.\<close>

theorem stale_reader_accepts_revoked_key:
  "\<exists>(c :: unit installation) c' auth r.
     reachable demo_digests c \<and> (DenyKeys, ky_ID (kr_Key r)) \<in> in_done c \<and> valid_auth (in_runtime c) 50 = Some auth \<and>
     (step demo_digests)\<^sup>*\<^sup>* c c' \<and> admitted_key demo_digests auth (in_runtime c') 50 first_bearer = Inr r"
proof -
  have auth: "valid_auth (in_runtime revoked) 50 = Some served_auth"
    by (simp add: valid_auth_def revoked_def served_def served_auth_def buildRuntimeAuthorization_def Let_def)
  have keys: "ra_Keys served_auth = [(first_bearer, \<lparr>rk_Key = first_key ''active'', rk_ProjectID = [], rk_Models = []\<rparr>),
      (second_bearer, \<lparr>rk_Key = second_key, rk_ProjectID = [], rk_Models = []\<rparr>)]"
    by (simp add: served_auth_def active_keys)
  have bearers: "length first_bearer = 46" "take 3 first_bearer = ''rx_''" by code_simp+
  have "\<not> runtimeDenied (in_runtime refreshed) k x" for k x
    by (simp add: runtimeDenied_def refreshed_def revoked_def served_def)
  then have "admitted_key demo_digests served_auth (in_runtime refreshed) 50 first_bearer =
      Inr \<lparr>kr_Key = first_key ''active'', kr_ProjectID = [], kr_ModelIDs = []\<rparr>"
    by (simp add: admitted_key_def keys bearers demo_digests_def Let_def first_key_def)
  moreover have "(DenyKeys, ky_ID (first_key ''active'')) \<in> in_done revoked"
    by (simp add: revoked_def first_key_def)
  ultimately show ?thesis
    using revoked_reachable refreshed_later auth by (intro exI[of _ revoked] exI[of _ refreshed]) auto
qed

end
