(* ===== verification/Gateway_Routes.thy ===== *)
theory Gateway_Routes
  imports Runtime_Auth Gateway_Quota Attempt_Health
begin

text \<open>
  The routes of a runtime snapshot and the attempt plans made of them: \<open>buildRuntimeRoutes\<close> of
  \<open>internal/routex/service/runtime.go\<close>, \<open>runtimePriceBasis\<close> of \<open>pricing_runtime.go\<close>,
  \<open>gateway_attempt_plan.go\<close>, the checks of a prepared route in \<open>connection_status_runtime.go\<close>,
  \<open>provider_status_runtime.go\<close> and \<open>runtime_model_alias_retirement.go\<close>, and the choice of a route by
  weight in \<open>gateway.go\<close>. The registry of credential sources is threaded through the operations; \<open>None\<close>
  instead of a registry is a panic on a closed channel. An HTTP client is whether there is one.
\<close>

section \<open>Data\<close>

record runtime_credential =
  rc_StorageSource :: string
  rc_SourceKey :: source_key
  rc_ID :: string
  rc_CipherHash :: string
  rc_Plaintext :: string
  rc_Priority :: int
  rc_CreatedAt :: "int option"

record runtime_route =
  rr_Route :: gateway_route
  rr_Credentials :: "runtime_credential list"

record runtime_routes =
  ro_ID :: string
  ro_Digest :: string
  ro_Models :: "string \<Rightarrow> runtime_route list"

type_synonym gateway_runtime = "runtime_routes runtime"

record price_row =
  mp_ID :: string
  mp_ProviderModelID :: string
  mp_ContextThreshold :: int

record rate_row =
  pt_ID :: string
  pt_ModelPriceID :: string
  pt_Metric :: string
  pt_Tier :: string
  pt_Unit :: string
  pt_Currency :: string
  pt_Amount :: string
  pt_Enabled :: bool

record pricing_data =
  pc_ETag :: string
  pc_PlatformCurrency :: string
  pc_FX :: "(string \<times> string) list"
  pc_Prices :: "price_row list"
  pc_Rates :: "rate_row list"

text \<open>
  What the construction of routes calls outside this model: the clients of the connections (\<open>None\<close> where
  one cannot be made), the check of a base URL and of an Azure origin, whether there is a secret store, and
  the value of a credential (\<open>None\<close> where it cannot be read).
\<close>

record route_env =
  re_clients :: "(string \<Rightarrow> bool) option"
  re_url :: "string \<Rightarrow> bool"
  re_azure :: "string \<Rightarrow> bool"
  re_secrets :: bool
  re_value :: "credential_row \<Rightarrow> string option"

section \<open>Routes\<close>

definition runtimePriceBasis :: "pricing_data option \<Rightarrow> string \<Rightarrow> string \<Rightarrow> price_basis option" where
  "runtimePriceBasis pricing provider_model proto =
     (case pricing of
        None \<Rightarrow> None
      | Some d \<Rightarrow>
          let price = find (\<lambda>p. mp_ProviderModelID p = provider_model) (pc_Prices d);
              pid = (case price of None \<Rightarrow> '''' | Some p \<Rightarrow> mp_ID p);
              sched = \<lparr>price_id = pid, provider_model_id = provider_model, protocol = proto,
                       context_threshold = (case price of None \<Rightarrow> 0 | Some p \<Rightarrow> mp_ContextThreshold p),
                       schedule_rates =
                         map (\<lambda>t. \<lparr>rate_id = pt_ID t, rate_metric = pt_Metric t, rate_tier = pt_Tier t, rate_unit = pt_Unit t,
                                   rate_currency = pt_Currency t, rate_amount = pt_Amount t, rate_enabled = pt_Enabled t\<rparr>)
                           (filter (\<lambda>t. pt_ModelPriceID t = pid) (pc_Rates d))\<rparr>
          in Some \<lparr>basis_Adapter = ScheduleAdapter sched, basis_ETag = pc_ETag d, basis_Schedule = sched,
                   basis_Currency = \<lparr>platform_currency = pc_PlatformCurrency d,
                                     fx_rates = fold (\<lambda>(c, x) m. AList.update c x m) (pc_FX d) [(pc_PlatformCurrency d, ''1'')]\<rparr>\<rparr>)"

definition validateConnectionAdapter :: "digests \<Rightarrow> route_env \<Rightarrow> connection_row \<Rightarrow> bool" where
  "validateConnectionAdapter D env c \<longleftrightarrow>
     (if ConnectionAdapter c = AdapterNative then cn_APIVersion c = None
      else if ConnectionAdapter c = AdapterAzureOpenAIClassic then
        cn_Protocol c = ''openai_chat'' \<and>
        (case cn_APIVersion c of None \<Rightarrow> False | Some v \<Rightarrow> ValidAzureAPIVersion D v) \<and> re_azure env (cn_BaseURL c)
      else False)"

definition route_connections :: "digests \<Rightarrow> route_env \<Rightarrow> connection_row list \<Rightarrow> connection_row list" where
  "route_connections D env = filter (\<lambda>c. SupportedNativeProtocol (cn_Protocol c) \<and> validateConnectionAdapter D env c)"

definition acquireCredentialSource ::
  "digests \<Rightarrow> credential_row \<Rightarrow> registry \<Rightarrow> (source_error + nat option) \<times> registry" where
  "acquireCredentialSource D c r =
     (case credentialHolderKey D c of Inl e \<Rightarrow> (Inl e, r) | Inr key \<Rightarrow> acquire key r)"

definition runtime_credential_of :: "digests \<Rightarrow> credential_row \<Rightarrow> source_key \<Rightarrow> string \<Rightarrow> runtime_credential" where
  "runtime_credential_of D c key plaintext =
     \<lparr>rc_StorageSource = cr_StorageSource c, rc_SourceKey = key, rc_ID = cr_ID c, rc_CipherHash = credentialSourceProof D c,
      rc_Plaintext = plaintext, rc_Priority = cr_Priority c, rc_CreatedAt = cr_CreatedAt c\<rparr>"

text \<open>
  The usable credentials with their connections. Each holder that is taken is released when the whole
  construction returns (\<open>defer\<close>), so the holders are collected.
\<close>

fun route_credentials ::
  "digests \<Rightarrow> route_env \<Rightarrow> (string \<Rightarrow> connection_row option) \<Rightarrow> credential_row list \<Rightarrow>
   (string \<times> runtime_credential) list \<Rightarrow> nat option list \<Rightarrow> registry \<Rightarrow>
   (service_error + (string \<times> runtime_credential) list) \<times> nat option list \<times> registry" where
  "route_credentials D env conns [] found held r = (Inr found, held, r)"
| "route_credentials D env conns (c # cs) found held r =
     (if \<not> cr_Enabled c \<or> \<not> verifiedTransportCurrent c (connection_of conns (cr_ConnectionID c))
      then route_credentials D env conns cs found held r
      else if \<not> re_secrets env then (Inl RuntimeUnavailable, held, r)
      else case acquireCredentialSource D c r of
          (Inl _, r1) \<Rightarrow> route_credentials D env conns cs found held r1
        | (Inr h, r1) \<Rightarrow>
            (case re_value env c of
               None \<Rightarrow>
                 if cr_StorageSource c = ''vault'' then route_credentials D env conns cs found (held @ [h]) r1
                 else (Inl RuntimeUnavailable, held @ [h], r1)
             | Some plaintext \<Rightarrow>
                 if \<not> admitUse h r1 then route_credentials D env conns cs found (held @ [h]) r1
                 else (case credentialHolderKey D c of
                     Inl _ \<Rightarrow> route_credentials D env conns cs found (held @ [h]) r1
                   | Inr key \<Rightarrow>
                       route_credentials D env conns cs
                         (found @ [(cr_ConnectionID c, runtime_credential_of D c key plaintext)]) (held @ [h]) r1)))"

fun release_holders :: "nat option list \<Rightarrow> registry \<Rightarrow> registry option" where
  "release_holders [] r = Some r"
| "release_holders (None # hs) r = release_holders hs r"
| "release_holders (Some h # hs) r = (case release h r of None \<Rightarrow> None | Some r1 \<Rightarrow> release_holders hs r1)"

text \<open>By priority, then birth, then identifier; the zero time comes before every other.\<close>

definition birth_order :: "int option \<Rightarrow> bool \<times> int" where
  "birth_order t = (case t of None \<Rightarrow> (False, 0) | Some n \<Rightarrow> (True, n))"

definition credentials_of :: "string \<Rightarrow> (string \<times> runtime_credential) list \<Rightarrow> runtime_credential list" where
  "credentials_of connection found =
     sort_key (\<lambda>c. (rc_Priority c, birth_order (rc_CreatedAt c), rc_ID c))
       (map snd (filter (\<lambda>x. fst x = connection) found))"

definition route_of ::
  "digests \<Rightarrow> (string \<Rightarrow> bool) \<Rightarrow> runtime_data \<Rightarrow> pricing_data option \<Rightarrow> provider_row \<Rightarrow> connection_row \<Rightarrow>
   provider_model_row \<Rightarrow> binding_row \<Rightarrow> gateway_route" where
  "route_of D clients data pricing provider connection pm binding =
     \<lparr>rt_ProviderModelBirth = pm_CreatedAt pm, rt_CapabilityTransportGeneration = pm_CapabilityTransportGeneration pm,
      rt_ProviderModelRevision = pm_ETag pm, rt_ConnectionTransportGeneration = cn_TransportGeneration connection,
      rt_CapabilitiesTransportCurrent = capabilityTransportCurrent pm connection, rt_Adapter = ConnectionAdapter connection,
      rt_APIVersion = cn_APIVersion connection, rt_Client = clients (cn_ID connection),
      rt_EgressGeneration = rd_EgressGeneration data,
      rt_EgressRevision = fst (snd (runtimeEgressSelection D (rd_Egresses data) (rd_EgressSetting data) connection)),
      rt_Protocol = cn_Protocol connection, rt_Disabled = pm_Disabled pm,
      rt_PriceBasis = runtimePriceBasis pricing (pm_ID pm) (cn_Protocol connection), rt_SnapshotID = '''',
      rt_BindingID = bd_ID binding, rt_Weight = bd_Weight binding, rt_ProviderID = cn_ProviderID connection,
      rt_ProviderBirth = pv_CreatedAt provider, rt_ProviderEnabled = pv_Enabled provider, rt_ProviderRevision = pv_ETag provider,
      rt_ProviderName = pv_Name provider, rt_ProviderModelID = pm_ID pm, rt_ConnectionBirth = cn_CreatedAt connection,
      rt_ConnectionEnabled = cn_Enabled connection, rt_ConnectionID = cn_ID connection, rt_ConnectionName = cn_Name connection,
      rt_CredentialID = '''', rt_UpstreamName = pm_UpstreamName pm, rt_BaseURL = cn_BaseURL connection,
      rt_SupportsImageInput = pm_SupportsImageInput pm, rt_SupportsPDFInput = pm_SupportsPDFInput pm\<rparr>"

definition binding_step ::
  "digests \<Rightarrow> (string \<Rightarrow> bool) \<Rightarrow> runtime_data \<Rightarrow> pricing_data option \<Rightarrow> (string \<Rightarrow> connection_row option) \<Rightarrow>
   (string \<times> runtime_credential) list \<Rightarrow> (string \<times> string) list \<Rightarrow> binding_row \<Rightarrow> (string \<times> runtime_route) list \<Rightarrow>
   service_error + (string \<times> runtime_route) list" where
  "binding_step D clients data pricing conns found access binding rs =
     (case index_by pm_ID (rd_ProviderModels data) (bd_ProviderModelID binding) of
        None \<Rightarrow> Inl RuntimeUnavailable
      | Some pm \<Rightarrow>
          (case conns (pm_ConnectionID pm) of
             None \<Rightarrow> Inr rs
           | Some connection \<Rightarrow>
               (case index_by pv_ID (rd_Providers data) (cn_ProviderID connection) of
                  None \<Rightarrow> Inl RuntimeUnavailable
                | Some provider \<Rightarrow>
                    if bd_Weight binding < 0 \<or> bd_Weight binding > 100 then Inl RuntimeUnavailable
                    else Inr (rs @ [(bd_ModelID binding,
                      \<lparr>rr_Route = route_of D clients data pricing provider connection pm binding,
                       rr_Credentials = filter (\<lambda>c. (rc_ID c, pm_ID pm) \<in> set access)
                                          (credentials_of (cn_ID connection) found)\<rparr>)]))))"

definition model_routes :: "(string \<times> runtime_route) list \<Rightarrow> string \<Rightarrow> runtime_route list" where
  "model_routes rs m = map snd (filter (\<lambda>x. fst x = m) rs)"

definition protocol_total :: "runtime_route list \<Rightarrow> string \<Rightarrow> int" where
  "protocol_total candidates proto =
     sum_list (map (\<lambda>c. rt_Weight (rr_Route c)) (filter (\<lambda>c. rt_Protocol (rr_Route c) = proto) candidates))"

text \<open>The weights of every protocol of a model are 100 together, or 0 where it is switched off.\<close>

definition totals_ok :: "(string \<times> runtime_route) list \<Rightarrow> bool" where
  "totals_ok rs \<longleftrightarrow>
     list_all (\<lambda>(m, c). protocol_total (model_routes rs m) (rt_Protocol (rr_Route c)) = 0 \<or>
                        protocol_total (model_routes rs m) (rt_Protocol (rr_Route c)) = 100) rs"

definition published_routes :: "(string \<times> runtime_route) list \<Rightarrow> string \<Rightarrow> runtime_route list" where
  "published_routes rs m =
     filter (\<lambda>c. protocol_total (model_routes rs m) (rt_Protocol (rr_Route c)) > 0) (model_routes rs m)"

definition buildRuntimeRoutes ::
  "digests \<Rightarrow> route_env \<Rightarrow> runtime_data \<Rightarrow> pricing_data option \<Rightarrow> registry \<Rightarrow>
   (service_error + (string \<Rightarrow> runtime_route list)) \<times> registry option" where
  "buildRuntimeRoutes D env data pricing r =
     (case re_clients env of
        None \<Rightarrow> (Inl RuntimeUnavailable, Some r)
      | Some clients \<Rightarrow>
          let usable = route_connections D env (rd_Connections data) in
          if \<not> list_all (\<lambda>c. re_url env (cn_BaseURL c)) usable then (Inl RuntimeUnavailable, Some r)
          else
            let conns = index_by cn_ID usable;
                access = deploymentCoverageProjection D (rd_Credentials data) (rd_Connections data) (rd_ProviderModels data)
                           (rd_Access data) (rd_Attestations data)
            in (case route_credentials D env conns (rd_Credentials data) [] [] r of
                  (Inl e, held, r1) \<Rightarrow> (Inl e, release_holders (rev held) r1)
                | (Inr found, held, r1) \<Rightarrow>
                    (case foldE (binding_step D clients data pricing conns found access) (rd_Bindings data) [] of
                       Inl e \<Rightarrow> (Inl e, release_holders (rev held) r1)
                     | Inr rs \<Rightarrow>
                         (if totals_ok rs then Inr (published_routes rs) else Inl RuntimeUnavailable,
                          release_holders (rev held) r1))))"

section \<open>A route and the snapshot\<close>

definition runtimeProviderMatches :: "gateway_runtime \<Rightarrow> runtime_authorization \<Rightarrow> gateway_route \<Rightarrow> bool" where
  "runtimeProviderMatches rn auth route \<longleftrightarrow>
     (case ra_Providers auth (rt_ProviderID route) of
        None \<Rightarrow> False
      | Some proof \<Rightarrow>
          pp_Enabled proof = rt_ProviderEnabled route \<and> pp_Birth proof = rt_ProviderBirth route \<and>
          pp_Revision proof = rt_ProviderRevision route \<and> \<not> runtimeDenied rn DenyProviders (rt_ProviderID route))"

definition runtimeProviderAllowed :: "gateway_runtime \<Rightarrow> runtime_authorization \<Rightarrow> gateway_route \<Rightarrow> bool" where
  "runtimeProviderAllowed rn auth route \<longleftrightarrow> runtimeProviderMatches rn auth route \<and> rt_ProviderEnabled route"

definition runtimeConnectionAllowed :: "gateway_runtime \<Rightarrow> runtime_authorization \<Rightarrow> gateway_route \<Rightarrow> bool" where
  "runtimeConnectionAllowed rn auth route \<longleftrightarrow>
     runtimeProviderAllowed rn auth route \<and>
     (case ra_Connections auth (rt_ConnectionID route) of
        None \<Rightarrow> False
      | Some proof \<Rightarrow>
          cp_Enabled proof \<and> validTransportGeneration (rt_ConnectionTransportGeneration route) \<and>
          cp_TransportGeneration proof = rt_ConnectionTransportGeneration route \<and> cp_ProviderID proof = rt_ProviderID route \<and>
          cp_Birth proof = rt_ConnectionBirth route \<and> \<not> runtimeDenied rn DenyConnections (rt_ConnectionID route))"

text \<open>\<open>pinConnectionDispatch\<close>: whether the dispatch is admitted; the gate itself only excludes writers.\<close>

definition pinConnectionDispatch :: "gateway_runtime \<Rightarrow> int \<Rightarrow> gateway_route \<Rightarrow> bool" where
  "pinConnectionDispatch rn now route \<longleftrightarrow>
     (case (valid_auth rn now, rn_routes rn) of
        (Some auth, Some routes) \<Rightarrow>
          ro_ID routes = rt_SnapshotID route \<and> runtimeConnectionAllowed rn auth route \<and>
          rt_CapabilitiesTransportCurrent route \<and>
          ra_ProviderModelRevisions auth (rt_ProviderModelID route) = rt_ProviderModelRevision route \<and>
          ra_ProviderModels auth (rt_ProviderModelID route) \<and>
          \<not> runtimeDenied rn DenyProviderModels (rt_ProviderModelID route)
      | _ \<Rightarrow> False)"

section \<open>Attempt plans\<close>

definition unbound :: "gateway_route \<Rightarrow> string \<Rightarrow> string \<Rightarrow> gateway_route" where
  "unbound route credential snapshot =
     route\<lparr>rt_PriceBasis := clonePriceBasis (rt_PriceBasis route), rt_CredentialID := credential, rt_SnapshotID := snapshot\<rparr>"

definition plan_attempt :: "string \<Rightarrow> gateway_route \<Rightarrow> string \<Rightarrow> attempt" where
  "plan_attempt proto route credential =
     \<lparr>att_Number = 0, att_TargetID = rt_BindingID route, att_ConnectionID = rt_ConnectionID route,
      att_CredentialID = credential, att_Protocol = proto\<rparr>"

definition plan_candidate ::
  "string \<Rightarrow> string \<Rightarrow> gateway_route \<Rightarrow> runtime_credential \<Rightarrow> nat option \<Rightarrow> gateway_candidate" where
  "plan_candidate proto snapshot route c h =
     \<lparr>gc_attempt = plan_attempt proto route (rc_ID c), gc_route = unbound route (rc_ID c) snapshot,
      gc_credential = rc_Plaintext c, gc_priority = rc_Priority c, gc_holder = h\<rparr>"

definition source_matches :: "digests \<Rightarrow> runtime_credential \<Rightarrow> bool" where
  "source_matches D c \<longleftrightarrow>
     sk_CredentialID (rc_SourceKey c) = rc_ID c \<and> sk_CredentialBirth (rc_SourceKey c) = dg_time D (rc_CreatedAt c) \<and>
     sk_Proof (rc_SourceKey c) \<noteq> '''' \<and> sk_Proof (rc_SourceKey c) = rc_CipherHash c"

fun plan_credentials ::
  "digests \<Rightarrow> string \<Rightarrow> string \<Rightarrow> gateway_route \<Rightarrow> runtime_credential list \<Rightarrow> registry \<Rightarrow> gateway_candidate list \<times> registry" where
  "plan_credentials D proto snapshot route [] r = ([], r)"
| "plan_credentials D proto snapshot route (c # cs) r =
     (if rc_StorageSource c = ''vault'' then
        (if \<not> source_matches D c then plan_credentials D proto snapshot route cs r
         else case acquire (rc_SourceKey c) r of
             (Inl _, r1) \<Rightarrow> plan_credentials D proto snapshot route cs r1
           | (Inr h, r1) \<Rightarrow>
               (case plan_credentials D proto snapshot route cs r1 of
                  (gs, r2) \<Rightarrow> (plan_candidate proto snapshot route c h # gs, r2)))
      else case plan_credentials D proto snapshot route cs r of
          (gs, r1) \<Rightarrow> (plan_candidate proto snapshot route c None # gs, r1))"

definition plan_target :: "string \<Rightarrow> gateway_route \<Rightarrow> gateway_candidate list \<Rightarrow> target" where
  "plan_target proto route gs =
     \<lparr>tgt_ID = rt_BindingID route, tgt_ConnectionID = rt_ConnectionID route, tgt_Protocol = proto, tgt_Weight = rt_Weight route,
      tgt_Credentials = map (\<lambda>g. \<lparr>cred_ID = att_CredentialID (gc_attempt g), cred_Priority = gc_priority g\<rparr>) gs\<rparr>"

fun plan_routes ::
  "digests \<Rightarrow> string \<Rightarrow> string \<Rightarrow> runtime_route list \<Rightarrow> registry \<Rightarrow> (target list \<times> gateway_candidate list) \<times> registry" where
  "plan_routes D proto snapshot [] r = (([], []), r)"
| "plan_routes D proto snapshot (c # cs) r =
     (if rt_Protocol (rr_Route c) \<noteq> proto \<or> rt_Weight (rr_Route c) = 0 then plan_routes D proto snapshot cs r
      else case plan_credentials D proto snapshot (rr_Route c) (rr_Credentials c) r of
          (gs, r1) \<Rightarrow>
            (case plan_routes D proto snapshot cs r1 of
               ((targets, detached), r2) \<Rightarrow> ((plan_target proto (rr_Route c) gs # targets, gs @ detached), r2)))"

fun releasePlans :: "nat option list \<Rightarrow> registry \<Rightarrow> registry option" where
  "releasePlans [] r = Some r"
| "releasePlans (None # hs) r = releasePlans hs r"
| "releasePlans (Some h # hs) r = (case releasePlan h r of None \<Rightarrow> None | Some r1 \<Rightarrow> releasePlans hs r1)"

definition releaseSources :: "gateway_candidate list \<Rightarrow> registry \<Rightarrow> registry option" where
  "releaseSources gs = releasePlans (map gc_holder gs)"

definition gatewayAttemptPlanWithDraw ::
  "digests \<Rightarrow> 'w draw \<Rightarrow> gateway_runtime \<Rightarrow> int \<Rightarrow> string \<Rightarrow> string \<Rightarrow> 'w draw option \<Rightarrow> registry \<Rightarrow>
   (service_error + 'w gateway_plan) \<times> registry option" where
  "gatewayAttemptPlanWithDraw D crypto rn now model proto draw r =
     (case (valid_auth rn now, rn_routes rn) of
        (Some auth, Some routes) \<Rightarrow>
          if \<not> ra_Models auth model \<or> runtimeDenied rn DenyModels model then (Inl RuntimeUnavailable, Some r)
          else (case plan_routes D proto (ro_ID routes) (ro_Models routes model) r of
              ((targets, detached), r1) \<Rightarrow>
                if detached = [] then (Inl (GatewayError 503 ''upstream_unavailable''), Some r1)
                else (case New crypto proto targets \<lparr>opt_MaxAttempts = MaxAttempts, opt_Draw = draw\<rparr> of
                    Inl _ \<Rightarrow> (Inl RuntimeUnavailable, releaseSources detached r1)
                  | Inr plan \<Rightarrow>
                      (Inr \<lparr>gp_personalGrantRevision = '''', gp_Plan = plan, gp_modelID = model, gp_protocol = proto,
                            gp_snapshotID = ro_ID routes, gp_userID = '''', gp_projectID = '''', gp_keyID = '''', gp_team = False,
                            gp_personal = False, gp_candidates = detached, gp_draw = draw, gp_allowed = None\<rparr>, Some r1)))
      | _ \<Rightarrow> (Inl RuntimeUnavailable, Some r))"

definition sourceHolder :: "'w gateway_plan \<Rightarrow> attempt \<Rightarrow> nat option" where
  "sourceHolder p a =
     (case find (\<lambda>g. gc_attempt g = a\<lparr>att_Number := 0\<rparr>) (gp_candidates p) of None \<Rightarrow> None | Some g \<Rightarrow> gc_holder g)"

section \<open>Eligibility\<close>

text \<open>
  What \<open>ReauthorizePersonalSession\<close> and \<open>ReauthorizeTeamSession\<close> say for a model: an error or nil.
\<close>

record session_checks =
  sc_personal :: "string \<Rightarrow> service_error option"
  sc_team :: "string \<Rightarrow> service_error option"

definition session_error :: "bool \<Rightarrow> (string \<Rightarrow> service_error option) \<Rightarrow> string \<Rightarrow> service_error option" where
  "session_error present check model = (if present then check model else None)"

definition key_eligible :: "gateway_runtime \<Rightarrow> runtime_authorization \<Rightarrow> int \<Rightarrow> 'w gateway_plan \<Rightarrow> bool" where
  "key_eligible rn auth now p \<longleftrightarrow>
     (case ra_KeysByID auth (gp_keyID p) of
        None \<Rightarrow> False
      | Some key \<Rightarrow>
          ky_UserID (rk_Key key) = gp_userID p \<and> rk_ProjectID key = gp_projectID p \<and>
          \<not> runtimeDenied rn DenyKeys (gp_keyID p) \<and>
          (case ky_ExpiresAt (rk_Key key) of None \<Rightarrow> True | Some t \<Rightarrow> now < t) \<and>
          (if gp_projectID p \<noteq> '''' then \<not> runtimeDenied rn DenyProjects (gp_projectID p)
           else \<not> runtimeDenied rn DenyUsers (gp_userID p) \<and>
                personalPreparedGrantAllowed rn auth (gp_userID p) (gp_keyID p) (gp_modelID p) (gp_personalGrantRevision p)) \<and>
          gp_modelID p \<in> set (rk_Models key))"

definition route_eligible ::
  "gateway_runtime \<Rightarrow> runtime_authorization \<Rightarrow> nat \<Rightarrow> 'w gateway_plan \<Rightarrow> gateway_route \<Rightarrow> attempt \<Rightarrow> bool" where
  "route_eligible rn auth egress p route a \<longleftrightarrow>
     rt_SnapshotID route = gp_snapshotID p \<and> rt_Protocol route = gp_protocol p \<and> rt_BindingID route = att_TargetID a \<and>
     rt_ConnectionID route = att_ConnectionID a \<and> rt_CredentialID route = att_CredentialID a \<and>
     rt_CapabilitiesTransportCurrent route \<and>
     ra_ProviderModelRevisions auth (rt_ProviderModelID route) = rt_ProviderModelRevision route \<and>
     runtimeConnectionAllowed rn auth route \<and> ra_Models auth (gp_modelID p) \<and> \<not> runtimeDenied rn DenyModels (gp_modelID p) \<and>
     ra_ProviderModels auth (rt_ProviderModelID route) \<and> \<not> runtimeDenied rn DenyProviderModels (rt_ProviderModelID route) \<and>
     ra_Credentials auth (att_CredentialID a) \<and> \<not> runtimeDenied rn DenyCredentials (att_CredentialID a) \<and>
     ra_CredentialAccess auth (att_CredentialID a) (rt_ProviderModelID route) \<and>
     rt_EgressRevision route \<noteq> '''' \<and> rt_EgressGeneration route = egress \<and>
     ra_ConnectionRevisions auth (rt_ConnectionID route) = rt_EgressRevision route"

definition context_service_error :: "context_error \<Rightarrow> service_error" where
  "context_service_error e = (case e of ContextCanceled \<Rightarrow> ErrCanceled | DeadlineExceeded \<Rightarrow> ErrDeadline)"

definition gatewayAttemptEligible ::
  "session_checks \<Rightarrow> context_error option \<Rightarrow> int \<Rightarrow> nat \<Rightarrow> gateway_runtime \<Rightarrow> registry \<Rightarrow> 'w gateway_plan \<Rightarrow> attempt \<Rightarrow>
   attempt_health \<Rightarrow> (service_error + bool) \<times> attempt_health" where
  "gatewayAttemptEligible sc ctx now egress rn r p a h =
     (case ctx of
        Some e \<Rightarrow> (Inl (context_service_error e), h)
      | None \<Rightarrow>
          if \<not> admitUse (sourceHolder p a) r then (Inr False, h)
          else case Candidate p a of
              None \<Rightarrow> (Inr False, h)
            | Some (route, _) \<Rightarrow>
                if (case gp_allowed p of None \<Rightarrow> False | Some allowed \<Rightarrow> gatewayAttemptKey a \<notin> set allowed) then (Inr False, h)
                else (case (valid_auth rn now, rn_routes rn) of
                    (Some auth, Some routes) \<Rightarrow>
                      (case session_error (gp_personal p) (sc_personal sc) (gp_modelID p) of
                         Some e \<Rightarrow> (Inl e, h)
                       | None \<Rightarrow>
                           (case session_error (gp_team p) (sc_team sc) (gp_modelID p) of
                              Some e \<Rightarrow> (Inl e, h)
                            | None \<Rightarrow>
                                if gp_keyID p \<noteq> '''' \<and> \<not> key_eligible rn auth now p then (Inr False, h)
                                else if ro_ID routes \<noteq> gp_snapshotID p \<or> \<not> route_eligible rn auth egress p route a
                                then (Inr False, h)
                                else (case gatewayAttemptHealthy (rt_ConnectionID route) (att_CredentialID a) now h of
                                    (ok, h1) \<Rightarrow> (Inr ok, h1))))
                  | _ \<Rightarrow> (Inl RuntimeUnavailable, h)))"

section \<open>The public name\<close>

fun gatewayPublicAttemptError :: "service_error \<Rightarrow> service_error" where
  "gatewayPublicAttemptError (GatewayError status code) = GatewayError status code"
| "gatewayPublicAttemptError ErrDeadline = GatewayError 504 ''upstream_timeout''"
| "gatewayPublicAttemptError ErrCanceled = GatewayError 502 ''canceled''"
| "gatewayPublicAttemptError _ = GatewayError 503 ''upstream_unavailable''"

definition model_not_found :: service_error where "model_not_found = GatewayError 404 ''model_not_found''"

definition reauthorizeGatewayPublicName ::
  "session_checks \<Rightarrow> int \<Rightarrow> gateway_runtime \<Rightarrow> gateway_result \<Rightarrow> service_error option" where
  "reauthorizeGatewayPublicName sc now rn r =
     (if gr_personal r \<and> gr_ModelID r \<noteq> gr_selectedModelID r then Some model_not_found
      else case session_error (gr_personal r) (sc_personal sc) (gr_ModelID r) of
          Some e \<Rightarrow> Some e
        | None \<Rightarrow>
            (case session_error (gr_team r) (sc_team sc) (gr_ModelID r) of
               Some e \<Rightarrow> Some e
             | None \<Rightarrow>
                 (case valid_auth rn now of
                    None \<Rightarrow> Some (gatewayPublicAttemptError RuntimeUnavailable)
                  | Some auth \<Rightarrow>
                      if gr_key r \<and> gr_ProjectID r = '''' \<and>
                         \<not> personalPreparedGrantAllowed rn auth (gr_UserID r) (gr_KeyID r) (gr_ModelID r) (gr_personalGrantRevision r)
                      then Some (GatewayError 403 ''model_forbidden'')
                      else (case runtimeModelName rn now (gr_ModelName r) of
                          None \<Rightarrow> Some model_not_found
                        | Some name \<Rightarrow>
                            if nm_Name name \<noteq> gr_ModelName r \<or> nm_ModelID name \<noteq> gr_ModelID r then Some model_not_found
                            else None))))"

section \<open>The choice by weight\<close>

definition route_unavailable :: service_error where "route_unavailable = GatewayError 503 ''upstream_unavailable''"

fun position_of :: "nat \<Rightarrow> (int \<times> bool) list \<Rightarrow> int \<Rightarrow> nat option" where
  "position_of i [] position = None"
| "position_of i ((weight, ok) # rest) position =
     (if \<not> ok then position_of (Suc i) rest position
      else if position < weight then Some i
      else position_of (Suc i) rest (position - weight))"

text \<open>\<open>draw n\<close> is \<open>rand.Int\<close> below \<open>n\<close>, or its error.\<close>

definition chooseAvailableGatewayRoute :: "(int \<Rightarrow> int option) \<Rightarrow> int list \<Rightarrow> bool list \<Rightarrow> service_error + nat" where
  "chooseAvailableGatewayRoute draw weights available =
     (if length weights \<noteq> length available \<or> list_ex (\<lambda>w. w < 0 \<or> w > 100) weights \<or> sum_list weights \<noteq> 100
      then Inl route_unavailable
      else
        let eligible = sum_list (map fst (filter snd (zip weights available))) in
        if eligible = 0 then Inl route_unavailable
        else case draw eligible of
            None \<Rightarrow> Inl route_unavailable
          | Some n \<Rightarrow>
              (case position_of 0 (zip weights available) n of None \<Rightarrow> Inl route_unavailable | Some i \<Rightarrow> Inr i))"

definition runtimeProtocolRoute ::
  "(int \<Rightarrow> int option) \<Rightarrow> gateway_runtime \<Rightarrow> int \<Rightarrow> nat \<Rightarrow> string \<Rightarrow> string \<Rightarrow> service_error + gateway_route \<times> string" where
  "runtimeProtocolRoute draw rn now egress model proto =
     (case (valid_auth rn now, rn_routes rn) of
        (Some auth, Some routes) \<Rightarrow>
          let candidates = filter (\<lambda>c. rt_Protocol (rr_Route c) = proto) (ro_Models routes model);
              available = map (\<lambda>c.
                runtimeConnectionAllowed rn auth (rr_Route c) \<and> ra_ProviderModels auth (rt_ProviderModelID (rr_Route c)) \<and>
                \<not> runtimeDenied rn DenyProviderModels (rt_ProviderModelID (rr_Route c)) \<and> rt_EgressRevision (rr_Route c) \<noteq> '''' \<and>
                ra_ConnectionRevisions auth (rt_ConnectionID (rr_Route c)) = rt_EgressRevision (rr_Route c) \<and>
                rt_EgressGeneration (rr_Route c) = egress) candidates
          in bindE (chooseAvailableGatewayRoute draw (map (\<lambda>c. rt_Weight (rr_Route c)) candidates) available) (\<lambda>i.
               let c = candidates ! i in
               case find (\<lambda>k. ra_Credentials auth (rc_ID k) \<and> ra_CredentialAccess auth (rc_ID k) (rt_ProviderModelID (rr_Route c)) \<and>
                              \<not> runtimeDenied rn DenyCredentials (rc_ID k)) (rr_Credentials c) of
                 None \<Rightarrow> Inl route_unavailable
               | Some k \<Rightarrow> Inr ((rr_Route c)\<lparr>rt_CredentialID := rc_ID k, rt_SnapshotID := ro_ID routes\<rparr>, rc_Plaintext k))
      | _ \<Rightarrow> Inl RuntimeUnavailable)"

end
