(* ===== verification/Gateway_Execute.thy ===== *)
theory Gateway_Execute
  imports Gateway_Routes Rejection Native_Parsers Call_Recorder
begin

text \<open>
  The execution of a gateway call, \<open>internal/routex/service/gateway_attempt_execute.go\<close>: the plan of a call,
  its quota state, the hooks of \<open>Plan.Run\<close> and one attempt with its checkpoints, over the journal, the
  registry of credential sources and the health of the routes. The rest of the process and the network
  are the record \<open>site\<close>. Between two steps of the call other goroutines run: \<open>si_others\<close> may change
  whatever is shared. A step reads the runtime snapshot at one instant.
\<close>

section \<open>The outside\<close>

record http_request =
  hq_URL :: string
  hq_Headers :: "(string \<times> string) list"
  hq_Body :: object
  hq_untimed :: bool \<comment> \<open>the client has no timeout of its own\<close>

datatype transport_error = PreRequestFailure | TransportTimeout | TransportFailure

text \<open>What \<open>client.Do\<close> returns; the last component is whether closing the body fails.\<close>

datatype http_answer = Answered response bool | Failed transport_error "response option" bool

text \<open>The attachments of a request: whether there are any, the detached payload, the routes that support
  them, and the payload after they were resolved and rewritten.\<close>

record 'u attachments =
  am_any :: bool
  am_detached :: "object option"
  am_route :: "gateway_route \<Rightarrow> bool"
  am_resolve :: "gateway_result \<Rightarrow> 'u \<Rightarrow> (service_error + object) \<times> 'u"

record ('s, 'u) site =
  si_env :: env
  si_queue :: queue
  si_bolt :: "'s bolt"
  si_codec :: codec
  si_digests :: digests
  si_rows :: "digest_row list \<Rightarrow> string"
  si_recorder :: bool
  si_intent :: "string \<Rightarrow> bool"
  si_others :: "'s \<times> registry \<times> attempt_health \<times> 'u \<Rightarrow> 's \<times> registry \<times> attempt_health \<times> 'u"
  si_now :: "'u \<Rightarrow> int"
  si_ctx :: "'u \<Rightarrow> context_error option"
  si_runtime :: "'u \<Rightarrow> gateway_runtime"
  si_egress :: "'u \<Rightarrow> nat"
  si_sessions :: "'u \<Rightarrow> session_checks"
  si_policies :: "gateway_result \<Rightarrow> 'u \<Rightarrow> service_error + limit list \<times> quota_limit list \<times> quota_data"
  si_random :: "int \<Rightarrow> 'u \<Rightarrow> int option \<times> 'u"
  si_id :: "'u \<Rightarrow> string \<times> 'u" \<comment> \<open>\<open>id.NewPrefixed\<close>, empty where it fails\<close>
  si_do :: "http_request \<Rightarrow> 'u \<Rightarrow> http_answer \<times> 'u"
  si_media :: "string \<Rightarrow> string option" \<comment> \<open>\<open>mime.ParseMediaType\<close>\<close>
  si_base :: "string \<Rightarrow> string option" \<comment> \<open>\<open>upstream.ValidateBaseURL\<close>\<close>
  si_azure :: "string \<Rightarrow> string \<Rightarrow> string \<Rightarrow> string \<Rightarrow> object \<Rightarrow> http_request option" \<comment> \<open>\<open>upstream.NewAzureChatRequest\<close>\<close>

section \<open>The state of a call\<close>

record prepared =
  ga_route :: gateway_route
  ga_credential :: string
  ga_request :: http_request
  ga_holder :: "nat option"

text \<open>A request that was sent, with the journal at that moment and the answer.\<close>

record 's dispatch =
  ds_attempt :: attempt
  ds_request :: http_request
  ds_ID :: string
  ds_store :: 's
  ds_answer :: http_answer

record ('s, 'u) world =
  w_store :: 's
  w_sources :: registry
  w_health :: attempt_health
  w_out :: 'u
  w_result :: gateway_result
  w_response :: "response option"
  w_current :: "prepared option"
  w_hookErr :: "service_error option"
  w_lastPublic :: "public_error option"
  w_panicked :: bool
  w_sent :: "'s dispatch list"

definition others :: "('s, 'u) site \<Rightarrow> ('s, 'u) world \<Rightarrow> ('s, 'u) world" where
  "others site w =
     (case si_others site (w_store w, w_sources w, w_health w, w_out w) of
        (s, r, h, u) \<Rightarrow> w\<lparr>w_store := s, w_sources := r, w_health := h, w_out := u\<rparr>)"

definition on_sources :: "(registry \<Rightarrow> registry option) \<Rightarrow> ('s, 'u) world \<Rightarrow> ('s, 'u) world" where
  "on_sources f w = (case f (w_sources w) of None \<Rightarrow> w\<lparr>w_panicked := True\<rparr> | Some r \<Rightarrow> w\<lparr>w_sources := r\<rparr>)"

definition on_result :: "(gateway_result \<Rightarrow> gateway_result) \<Rightarrow> ('s, 'u) world \<Rightarrow> ('s, 'u) world" where
  "on_result f w = w\<lparr>w_result := f (w_result w)\<rparr>"

section \<open>Checks\<close>

definition gateway_eligible ::
  "('s, 'u) site \<Rightarrow> 'w gateway_plan \<Rightarrow> attempt \<Rightarrow> ('s, 'u) world \<Rightarrow> (service_error + bool) \<times> ('s, 'u) world" where
  "gateway_eligible site p a w0 =
     (let w = others site w0; u = w_out w in
      case gatewayAttemptEligible (si_sessions site u) (si_ctx site u) (si_now site u) (si_egress site u) (si_runtime site u)
             (w_sources w) p a (w_health w) of
        (res, h) \<Rightarrow> (res, w\<lparr>w_health := h\<rparr>))"

definition reauthorize_public :: "('s, 'u) site \<Rightarrow> ('s, 'u) world \<Rightarrow> service_error option \<times> ('s, 'u) world" where
  "reauthorize_public site w0 =
     (let w = others site w0; u = w_out w in
      (reauthorizeGatewayPublicName (si_sessions site u) (si_now site u) (si_runtime site u) (w_result w), w))"

definition reauthorizePreparedGatewayAttempt ::
  "('s, 'u) site \<Rightarrow> 'w gateway_plan \<Rightarrow> attempt \<Rightarrow> ('s, 'u) world \<Rightarrow> service_error option \<times> ('s, 'u) world" where
  "reauthorizePreparedGatewayAttempt site p a w =
     (case gateway_eligible site p a w of
        (Inl e, w1) \<Rightarrow> (Some e, w1)
      | (Inr ok, w1) \<Rightarrow> if \<not> ok then (Some RuntimeUnavailable, w1) else reauthorize_public site w1)"

section \<open>The quota state of a call\<close>

text \<open>What is eligible now, for the bound of a plan; the pruning of old cooldowns is not observable.\<close>

definition eligible_at :: "('s, 'u) site \<Rightarrow> 'w gateway_plan \<Rightarrow> ('s, 'u) world \<Rightarrow> attempt \<Rightarrow> service_error + bool" where
  "eligible_at site p w a =
     (let u = w_out w in
      fst (gatewayAttemptEligible (si_sessions site u) (si_ctx site u) (si_now site u) (si_egress site u) (si_runtime site u)
             (w_sources w) p a (w_health w)))"

definition world_random :: "('s, 'u) site \<Rightarrow> ('s, 'u) world draw" where
  "world_random site n w = (case si_random site n (w_out w) of (v, u) \<Rightarrow> (v, w\<lparr>w_out := u\<rparr>))"

definition admission_state ::
  "('s, 'u) site \<Rightarrow> ('s, 'u) world gateway_plan \<Rightarrow> limit list \<times> quota_limit list \<times> quota_data \<Rightarrow> quota_bound \<Rightarrow>
   gateway_result \<Rightarrow> gateway_result" where
  "admission_state site p pol bound r =
     (case pol of (limits, policies, data) \<Rightarrow>
        r\<lparr>gr_admissionLimits := limits, gr_admissionQuota := policies, gr_quotaBound := bound, gr_quotaTimeZone := qd_TimeZone data,
          gr_attemptEvidence := gatewayAttemptEvidence (si_codec site) p r policies data,
          gr_admissionAllowed := (case gp_allowed p of None \<Rightarrow> [] | Some ks \<Rightarrow> ks)\<rparr>)"

definition prepareGatewayAttemptQuotaState ::
  "('s, 'u) site \<Rightarrow> ('s, 'u) world gateway_plan \<Rightarrow> ('s, 'u) world \<Rightarrow>
   (service_error + ('s, 'u) world gateway_plan) \<times> ('s, 'u) world" where
  "prepareGatewayAttemptQuotaState site p w0 =
     (let w = others site w0 in
      case si_policies site (w_result w) (w_out w) of
        Inl e \<Rightarrow> (Inl e, w)
      | Inr pol \<Rightarrow>
          (case prepareGatewayAttemptQuotaBound (si_codec site) (si_rows site) (world_random site) (eligible_at site p w) p
                  (w_result w) (fst (snd pol)) (snd (snd pol)) of
             Inl e \<Rightarrow> (Inl e, w)
           | Inr (kept, bound) \<Rightarrow> (Inr kept, on_result (admission_state site kept pol bound) w)))"

definition needs_journal :: "quota_limit \<Rightarrow> bool" where
  "needs_journal p \<longleftrightarrow>
     has_token_quota p \<or> ql_MoneyMonth p \<noteq> None \<or> lim_RPM (ql_Limit p) \<noteq> None \<or> lim_Concurrency (ql_Limit p) \<noteq> None"

definition preflightPreparedGatewayAttempt ::
  "('s, 'u) site \<Rightarrow> string \<Rightarrow> ('s, 'u) world \<Rightarrow> service_error option \<times> ('s, 'u) world" where
  "preflightPreparedGatewayAttempt site rid w0 =
     (let w = others site w0; r = w_result w in
      if \<not> si_recorder site then
        (if list_ex needs_journal (gr_admissionQuota r) then Some callQueueUnavailable else None, w)
      else case PreflightWithQuota (si_env site) (si_queue site) (si_bolt site) rid (gr_admissionQuota r) (gr_quotaBound r)
                  (gr_quotaTimeZone r) (si_now site (w_out w)) (w_store w) of
          (Inl e, s) \<Rightarrow> (Some (quotaGatewayError e), w\<lparr>w_store := s\<rparr>)
        | (Inr _, s) \<Rightarrow> (None, w\<lparr>w_store := s\<rparr>))"

definition route_current :: "('s, 'u) site \<Rightarrow> ('s, 'u) world \<Rightarrow> gateway_route \<Rightarrow> bool" where
  "route_current site w route \<longleftrightarrow>
     (let u = w_out w in
      rt_EgressGeneration route = si_egress site u \<and>
      (case valid_auth (si_runtime site u) (si_now site u) of
         None \<Rightarrow> False
       | Some auth \<Rightarrow> ra_ConnectionRevisions auth (rt_ConnectionID route) = rt_EgressRevision route))"

definition admitPreparedGatewayAttempt ::
  "('s, 'u) site \<Rightarrow> string \<Rightarrow> ('s, 'u) world gateway_plan \<Rightarrow> attempt \<Rightarrow> ('s, 'u) world \<Rightarrow> service_error option \<times> ('s, 'u) world" where
  "admitPreparedGatewayAttempt site rid p a w0 =
     (case gateway_eligible site p a w0 of
        (Inl e, w) \<Rightarrow> (Some e, w)
      | (Inr ok, w) \<Rightarrow>
          if \<not> ok then (Some RuntimeUnavailable, w)
          else case Candidate p a of
              None \<Rightarrow> (Some RuntimeUnavailable, w)
            | Some (route, _) \<Rightarrow>
                if \<not> route_current site w route then (Some RuntimeUnavailable, w)
                else (case si_policies site (w_result w) (w_out w) of
                    Inl e \<Rightarrow> (Some e, w)
                  | Inr pol \<Rightarrow>
                      (case prepareGatewayAttemptQuotaBound (si_codec site) (si_rows site) (world_random site) (eligible_at site p w) p
                              (w_result w) (fst (snd pol)) (snd (snd pol)) of
                         Inl e \<Rightarrow> (Some e, w)
                       | Inr (kept, bound) \<Rightarrow>
                           if (case gp_allowed kept of None \<Rightarrow> True | Some ks \<Rightarrow> gatewayAttemptKey a \<notin> set ks)
                           then (Some RuntimeUnavailable, w)
                           else
                             let w1 = others site (on_result (admission_state site kept pol bound) w) in
                             (case AdmitGatewayCall (si_env site) (si_queue site) (si_bolt site) (si_codec site) (si_intent site)
                                     (si_recorder site) rid (Some (w_result w1)) (si_now site (w_out w1)) (w_store w1) of
                                (Inl e, s) \<Rightarrow> (Some e, w1\<lparr>w_store := s\<rparr>)
                              | (Inr _, s) \<Rightarrow> (None, w1\<lparr>w_store := s\<rparr>)))))"

definition zero_evidence :: bound_evidence where
  "zero_evidence = \<lparr>ev_TargetID = '''', ev_ProviderModel = '''', ev_BoundRevision = '''', ev_InputTokens = 0, ev_OutputTokens = 0,
     ev_PriceRevision = '''', ev_PriceDigest = '''', ev_ReservedAmount = '''', ev_PriceCurrency = ''''\<rparr>"

definition validateGatewayRetryEvidence ::
  "('s, 'u) site \<Rightarrow> ('s, 'u) world gateway_plan \<Rightarrow> attempt \<Rightarrow> ('s, 'u) world \<Rightarrow> service_error option \<times> ('s, 'u) world" where
  "validateGatewayRetryEvidence site p a w0 =
     (if gatewayAttemptKey a \<notin> set (gr_admissionAllowed (w_result w0)) then (Some RuntimeUnavailable, w0)
      else case gateway_eligible site p a w0 of
          (Inl e, w) \<Rightarrow> (Some e, w)
        | (Inr ok, w) \<Rightarrow>
            if \<not> ok then (Some RuntimeUnavailable, w)
            else case Candidate p a of
                None \<Rightarrow> (Some RuntimeUnavailable, w)
              | Some (route, _) \<Rightarrow>
                  if \<not> route_current site w route then (Some RuntimeUnavailable, w)
                  else (case si_policies site (w_result w) (w_out w) of
                      Inl e \<Rightarrow> (Some e, w)
                    | Inr (limits, policies, data) \<Rightarrow>
                        let r = w_result w; key = gatewayAttemptKey a in
                        if qd_TimeZone data \<noteq> gr_quotaTimeZone r \<or> limits \<noteq> gr_admissionLimits r \<or>
                           policies \<noteq> gr_admissionQuota r
                        then (Some RuntimeUnavailable, w)
                        else (case gatewayAttemptCandidateFor p a of
                            None \<Rightarrow> (Some RuntimeUnavailable, w)
                          | Some g \<Rightarrow>
                              (case gatewayQuotaDimensions policies of (tokenC, moneyC) \<Rightarrow>
                               (case gatewayCandidateBoundEvidence (si_codec site) g r data tokenC moneyC of (ev, usable) \<Rightarrow>
                                  (if \<not> usable \<or>
                                      ev \<noteq> (case map_of (gr_attemptEvidence r) key of None \<Rightarrow> zero_evidence | Some e \<Rightarrow> e)
                                   then Some RuntimeUnavailable else None, w))))))"

section \<open>The request\<close>

definition trim_slashes :: "string \<Rightarrow> string" where
  "trim_slashes s = rev (dropWhile (\<lambda>c. c = CHR ''/'') (rev s))"

definition native_suffix :: "gateway_result \<Rightarrow> gateway_route \<Rightarrow> string" where
  "native_suffix r route =
     (if NativeProtocol r = ProtocolOpenAIResponses then ''/responses''
      else if NativeProtocol r = ProtocolAnthropicMessages then ''/messages''
      else if NativeProtocol r = ProtocolGeminiGenerateContent then
        ''/models/'' @ rt_UpstreamName route @ (if gr_Stream r then '':streamGenerateContent?alt=sse'' else '':generateContent'')
      else ''/chat/completions'')"

definition native_headers :: "gateway_result \<Rightarrow> string \<Rightarrow> messages_headers option \<Rightarrow> (string \<times> string) list" where
  "native_headers r credential opts =
     (''Content-Type'', ''application/json'') #
     (if NativeProtocol r = ProtocolAnthropicMessages then
        (''x-api-key'', credential) #
        (case opts of
           None \<Rightarrow> []
         | Some h \<Rightarrow> (''anthropic-version'', mh_Version h) # (if mh_Beta h \<noteq> '''' then [(''anthropic-beta'', mh_Beta h)] else []))
      else if NativeProtocol r = ProtocolGeminiGenerateContent then [(''x-goog-api-key'', credential)]
      else [(''Authorization'', ''Bearer '' @ credential)])"

definition finish_request :: "string \<Rightarrow> gateway_result \<Rightarrow> http_request \<Rightarrow> http_request" where
  "finish_request rid r q =
     q\<lparr>hq_Headers := AList.update ''Accept'' (if gr_Stream r then ''text/event-stream'' else ''application/json'')
                       (AList.update ''X-Request-ID'' rid (hq_Headers q)),
       hq_untimed := gr_Stream r\<rparr>"

definition no_upstream :: service_error where "no_upstream = GatewayError 503 ''upstream_unavailable''"

definition prepareGatewayHTTPRequest ::
  "('s, 'u) site \<Rightarrow> string \<Rightarrow> gateway_result \<Rightarrow> object \<Rightarrow> gateway_route \<Rightarrow> string \<Rightarrow> messages_headers option \<Rightarrow>
   service_error + prepared" where
  "prepareGatewayHTTPRequest site rid r payload route credential opts =
     (if \<not> rt_Client route then Inl no_upstream
      else case si_base site (rt_BaseURL route) of
          None \<Rightarrow> Inl no_upstream
        | Some base \<Rightarrow>
            if NativeProtocol r = ProtocolGeminiGenerateContent \<and> \<not> geminiModelSegment (rt_UpstreamName route)
            then Inl no_upstream
            else if NativeProtocol r = ProtocolAnthropicMessages \<and> opts = None then Inl InvalidRequest
            else
              let body = (if NativeProtocol r = ProtocolGeminiGenerateContent then payload
                          else set_members [(''model'', JStr (rt_UpstreamName route))] payload);
                  native = \<lparr>hq_URL = trim_slashes base @ native_suffix r route, hq_Headers = native_headers r credential opts,
                            hq_Body = body, hq_untimed = False\<rparr>;
                  chosen = (if rt_Adapter route = AdapterAzureOpenAIClassic then
                              (if NativeProtocol r \<noteq> ProtocolOpenAIChat then None
                               else case rt_APIVersion route of
                                   None \<Rightarrow> None
                                 | Some v \<Rightarrow> si_azure site (rt_BaseURL route) (rt_UpstreamName route) v credential payload)
                            else Some native)
              in (case chosen of
                    None \<Rightarrow> Inl no_upstream
                  | Some q \<Rightarrow> Inr \<lparr>ga_route = route, ga_credential = credential, ga_request = finish_request rid r q, ga_holder = None\<rparr>))"

section \<open>One attempt\<close>

definition applyGatewayAttemptRoute :: "gateway_route \<Rightarrow> gateway_result \<Rightarrow> gateway_result" where
  "applyGatewayAttemptRoute route r =
     r\<lparr>gr_SnapshotID := rt_SnapshotID route, gr_ProviderID := rt_ProviderID route, gr_ProviderName := rt_ProviderName route,
       gr_ProviderModelID := rt_ProviderModelID route, gr_ConnectionID := rt_ConnectionID route,
       gr_ConnectionName := rt_ConnectionName route, gr_UpstreamModelName := rt_UpstreamName route,
       gr_CredentialID := rt_CredentialID route, gr_PriceBasis := clonePriceBasis (rt_PriceBasis route)\<rparr>"

definition checkpoint ::
  "('s, 'u) site \<Rightarrow> string \<Rightarrow> ('s, 'u) world \<Rightarrow> service_error option \<times> ('s, 'u) world" where
  "checkpoint site rid w0 =
     (let w = others site w0 in
      case CheckpointGatewayCall (si_queue site) (si_bolt site) (si_codec site) (si_recorder site) rid (w_result w)
             (si_now site (w_out w)) (w_store w) of
        (Inl e, s) \<Rightarrow> (Some e, w\<lparr>w_store := s\<rparr>)
      | (Inr _, s) \<Rightarrow> (None, w\<lparr>w_store := s\<rparr>))"

text \<open>The outcome of an attempt, its public error and whether its error is not nil.\<close>

type_synonym execution = "outcome \<times> public_error option \<times> bool"

definition refused :: "service_error \<Rightarrow> ('s, 'u) world \<Rightarrow> execution \<times> ('s, 'u) world" where
  "refused e w = ((plain_outcome PermanentFailure NotSent, Some (e, None), True), w)"

definition safe_errors :: "string list" where
  "safe_errors =
     [''invalid_session'', ''session_access_denied'', ''unsupported_input'', ''quota_exceeded'', ''quota_history_incomplete'',
      ''quota_usage_unknown'', ''quota_currency_mismatch'', ''quota_bound_unavailable'', ''quota_price_unavailable'',
      ''quota_request_unsupported'', '''', ''process_interrupted'', ''event_buffer_unavailable'', ''invalid_request'',
      ''invalid_request_error'', ''invalid_api_key'', ''rate_limit_exceeded'', ''concurrency_limit_exceeded'', ''ip_not_allowed'',
      ''service_unavailable'', ''unauthorized'', ''forbidden'', ''model_not_found'', ''no_route'', ''upstream_error'',
      ''upstream_timeout'', ''upstream_unavailable'', ''invalid_upstream_response'', ''canceled'', ''internal_error'',
      ''invalid_attachment_reference'', ''unsupported_attachment_reference'', ''attachment_limit_exceeded'',
      ''project_attachment_unsupported'', ''attachment_type_unsupported'', ''attachment_not_found'',
      ''attachment_storage_unavailable'', ''attachment_storage_timeout'']"

definition safeCallError :: "string \<Rightarrow> string" where
  "safeCallError code = (if code \<in> set safe_errors then code else ''upstream_error'')"

definition gatewayErrorCode :: "public_error \<Rightarrow> string" where
  "gatewayErrorCode e = (case fst e of GatewayError _ code \<Rightarrow> code | _ \<Rightarrow> ''upstream_error'')"

definition gatewayContextError :: "context_error \<Rightarrow> service_error" where
  "gatewayContextError e =
     (case e of DeadlineExceeded \<Rightarrow> GatewayError 504 ''upstream_timeout'' | ContextCanceled \<Rightarrow> GatewayError 502 ''canceled'')"

definition failed_attempt :: "gateway_result \<Rightarrow> attempt \<Rightarrow> outcome \<Rightarrow> string \<Rightarrow> int \<Rightarrow> string \<Rightarrow> int \<Rightarrow> call_attempt" where
  "failed_attempt r a oc evidence status code now =
     \<lparr>ca_CredentialID = gr_CredentialID r, ca_SnapshotID = gr_SnapshotID r, ca_ID = gr_AttemptID r,
      ca_ProviderID = gr_ProviderID r, ca_ProviderName = gr_ProviderName r, ca_ProviderModelID = gr_ProviderModelID r,
      ca_ConnectionID = gr_ConnectionID r, ca_ConnectionName = gr_ConnectionName r,
      ca_UpstreamModelName = gr_UpstreamModelName r, ca_AttemptNumber = att_Number a, ca_Status = ''error'',
      ca_FailureClass = out_Failure oc, ca_WorkEvidence = out_Work oc, ca_OutputStarted = out_OutputStarted oc,
      ca_FinalUsageKnown = out_FinalUsageKnown oc, ca_NativeCompletionEvidence = '''', ca_EvidenceCode = evidence,
      ca_StartedAt = gr_AttemptStartedAt r, ca_CompletedAt = Some now, ca_HTTPStatus = status, ca_ErrorCode = safeCallError code\<rparr>"

definition finishGatewayFailedAttempt ::
  "('s, 'u) site \<Rightarrow> string \<Rightarrow> attempt \<Rightarrow> outcome \<Rightarrow> public_error \<Rightarrow> string \<Rightarrow> int \<Rightarrow> string \<Rightarrow> ('s, 'u) world \<Rightarrow>
   execution \<times> ('s, 'u) world" where
  "finishGatewayFailedAttempt site rid a oc public evidence status code w =
     (let now = si_now site (w_out w);
          w1 = (on_result (\<lambda>r. r\<lparr>gr_Attempts := gr_Attempts r @ [failed_attempt r a oc evidence status code now],
                                 gr_AttemptID := '''', gr_AttemptStartedAt := None\<rparr>) w)\<lparr>w_response := None\<rparr>
      in case checkpoint site rid w1 of (err, w2) \<Rightarrow> ((oc, Some public, err \<noteq> None), w2))"

text \<open>Closing the body of a response, which a holder owns where there is one; a nil body panics.\<close>

definition close_response :: "nat option \<Rightarrow> response \<Rightarrow> bool \<Rightarrow> ('s, 'u) world \<Rightarrow> ('s, 'u) world" where
  "close_response holder resp fails w =
     (if resp_Body resp = None then w\<lparr>w_panicked := True\<rparr>
      else case holder of None \<Rightarrow> w | Some h \<Rightarrow> on_sources (close_body h fails) w)"

definition body_of :: "http_answer \<Rightarrow> bool" where
  "body_of answer =
     (case answer of
        Answered resp _ \<Rightarrow> resp_Body resp \<noteq> None
      | Failed _ resp _ \<Rightarrow> (case resp of None \<Rightarrow> False | Some x \<Rightarrow> resp_Body x \<noteq> None))"

definition transport_failed ::
  "('s, 'u) site \<Rightarrow> string \<Rightarrow> attempt \<Rightarrow> transport_error \<Rightarrow> ('s, 'u) world \<Rightarrow> execution \<times> ('s, 'u) world" where
  "transport_failed site rid a err w =
     (let ambiguous = plain_outcome PermanentFailure Unknown; now = si_now site (w_out w) in
      case si_ctx site (w_out w) of
        Some e \<Rightarrow>
          let public = (gatewayContextError e, None) in
          finishGatewayFailedAttempt site rid a ambiguous public ''transport_ambiguous'' 0 (gatewayErrorCode public) w
      | None \<Rightarrow>
          if err = PreRequestFailure then
            finishGatewayFailedAttempt site rid a (plain_outcome ConnectionFailure NotSent) (GatewayError 502 ''upstream_error'', None)
              ''pre_request_connection'' 0 ''upstream_error''
              (w\<lparr>w_health := markGatewayConnectionFailure (att_ConnectionID a) now (w_health w)\<rparr>)
          else
            let public = (if err = TransportTimeout then GatewayError 504 ''upstream_timeout'' else GatewayError 502 ''upstream_error'', None) in
            finishGatewayFailedAttempt site rid a ambiguous public ''transport_ambiguous'' 0 (gatewayErrorCode public) w)"

definition answered ::
  "('s, 'u) site \<Rightarrow> string \<Rightarrow> attempt \<Rightarrow> prepared \<Rightarrow> response \<Rightarrow> bool \<Rightarrow> ('s, 'u) world \<Rightarrow> execution \<times> ('s, 'u) world" where
  "answered site rid a prep resp fails w =
     (let status = resp_StatusCode resp; stream = gr_Stream (w_result w) in
      if status < 200 \<or> status \<ge> 300 then
        (case readGatewayHTTPFailure resp (NativeProtocol (w_result w)) of (cl, public) \<Rightarrow>
           let w1 = (close_response (ga_holder prep) resp fails w)\<lparr>w_response := None\<rparr>;
               w2 = (if out_Failure (cl_Outcome cl) = CredentialRejected
                     then w1\<lparr>w_health := markGatewayCredentialRejected (att_CredentialID a) (si_now site (w_out w1)) (w_health w1)\<rparr>
                     else w1)
           in finishGatewayFailedAttempt site rid a (cl_Outcome cl) public (cl_EvidenceCode cl) status (gatewayErrorCode public) w2)
      else if si_media site (resp_ContentType resp) \<noteq>
                Some (if stream then ''text/event-stream'' else ''application/json'') then
        finishGatewayFailedAttempt site rid a (plain_outcome PermanentFailure Unknown)
          (GatewayError 502 ''invalid_upstream_response'', None) ''upstream_response'' status ''invalid_upstream_response''
          ((close_response (ga_holder prep) resp fails w)\<lparr>w_response := None\<rparr>)
      else ((plain_outcome Success Completed, None, False),
            w\<lparr>w_health := markGatewayAttemptSuccess (att_ConnectionID a) (att_CredentialID a) (si_now site (w_out w)) (w_health w)\<rparr>))"

text \<open>The request is sent; the body of an answer takes the holder over.\<close>

definition send_request ::
  "('s, 'u) site \<Rightarrow> attempt \<Rightarrow> prepared \<Rightarrow> ('s, 'u) world \<Rightarrow> http_answer \<times> ('s, 'u) world" where
  "send_request site a prep w0 =
     (let w = others site w0 in
      case si_do site (ga_request prep) (w_out w) of (answer, u) \<Rightarrow>
        let w1 = w\<lparr>w_out := u,
                   w_sent := w_sent w @ [\<lparr>ds_attempt = a, ds_request = ga_request prep, ds_ID = gr_AttemptID (w_result w),
                                          ds_store = w_store w, ds_answer = answer\<rparr>]\<rparr>;
            w2 = (case ga_holder prep of
                    None \<Rightarrow> w1
                  | Some h \<Rightarrow> if body_of answer then w1\<lparr>w_sources := transfer_body h (w_sources w1)\<rparr> else w1)
        in (answer, w2))"

definition dispatch_attempt ::
  "('s, 'u) site \<Rightarrow> string \<Rightarrow> attempt \<Rightarrow> prepared \<Rightarrow> ('s, 'u) world \<Rightarrow> execution \<times> ('s, 'u) world" where
  "dispatch_attempt site rid a prep w =
     (case send_request site a prep w of (answer, w1) \<Rightarrow>
        (case answer of
           Answered resp fails \<Rightarrow> answered site rid a prep resp fails (w1\<lparr>w_response := Some resp\<rparr>)
         | Failed err resp fails \<Rightarrow>
             let w2 = w1\<lparr>w_response := resp\<rparr>;
                 w3 = (case resp of
                         None \<Rightarrow> w2
                       | Some x \<Rightarrow> if resp_Body x = None then w2 else close_response (ga_holder prep) x fails w2)
             in transport_failed site rid a err w3))"

text \<open>The attempt gets its identity, is checkpointed, checked once more, and sent.\<close>

definition start_attempt ::
  "('s, 'u) site \<Rightarrow> string \<Rightarrow> ('s, 'u) world gateway_plan \<Rightarrow> attempt \<Rightarrow> prepared \<Rightarrow> ('s, 'u) world \<Rightarrow>
   execution \<times> ('s, 'u) world" where
  "start_attempt site rid p a prep w =
     (case si_id site (w_out w) of (aid, u) \<Rightarrow>
        let w1 = on_result (\<lambda>r. r\<lparr>gr_AttemptID := aid\<rparr>) (w\<lparr>w_out := u\<rparr>) in
        if aid = '''' then refused (GatewayError 500 ''internal_error'') w1
        else
          let w2 = on_result (\<lambda>r. (applyGatewayAttemptRoute (ga_route prep) r)\<lparr>gr_AttemptStartedAt := Some (si_now site u)\<rparr>) w1 in
          (case checkpoint site rid w2 of
             (Some e, w3) \<Rightarrow> refused e w3
           | (None, w3) \<Rightarrow>
               (case reauthorizePreparedGatewayAttempt site p a w3 of
                  (None, w4) \<Rightarrow> dispatch_attempt site rid a prep w4
                | (Some e, w4) \<Rightarrow>
                    (case checkpoint site rid (on_result (\<lambda>r. r\<lparr>gr_AttemptID := '''', gr_AttemptStartedAt := None\<rparr>) w4) of
                       (Some c, w5) \<Rightarrow> refused c w5
                     | (None, w5) \<Rightarrow> refused e w5))))"

definition executeGatewayAttempt ::
  "('s, 'u) site \<Rightarrow> string \<Rightarrow> ('s, 'u) world gateway_plan \<Rightarrow> attempt \<Rightarrow> prepared \<Rightarrow> ('s, 'u) world \<Rightarrow>
   execution \<times> ('s, 'u) world" where
  "executeGatewayAttempt site rid p a prep w =
     (case reauthorize_public site w of
        (Some e, w1) \<Rightarrow> refused e w1
      | (None, w1) \<Rightarrow>
          let w2 = others site w1 in
          if \<not> pinConnectionDispatch (si_runtime site (w_out w2)) (si_now site (w_out w2)) (ga_route prep)
          then refused RuntimeUnavailable w2
          else case reauthorizePreparedGatewayAttempt site p a w2 of
              (Some e, w3) \<Rightarrow> refused e w3
            | (None, w3) \<Rightarrow>
                let w4 = others site w3 in
                if \<not> admitUse (ga_holder prep) (w_sources w4) then refused RuntimeUnavailable w4
                else (case start_attempt site rid p a prep w4 of
                    (res, w5) \<Rightarrow> (res, on_sources (releasePlans [ga_holder prep]) w5)))"

section \<open>The hooks of the run\<close>

definition hook_fails :: "service_error \<Rightarrow> ('s, 'u) world \<Rightarrow> bool \<times> ('s, 'u) world" where
  "hook_fails e w = (False, w\<lparr>w_hookErr := Some e\<rparr>)"

definition eligible_hook :: "('s, 'u) site \<Rightarrow> ('s, 'u) world gateway_plan \<Rightarrow> ('s, 'u) world eligibility" where
  "eligible_hook site p a w =
     (case gateway_eligible site p a w of (Inl _, w1) \<Rightarrow> (Inl (), w1) | (Inr ok, w1) \<Rightarrow> (Inr ok, w1))"

definition prepare_hook ::
  "('s, 'u) site \<Rightarrow> string \<Rightarrow> ('s, 'u) world gateway_plan \<Rightarrow> object \<Rightarrow> messages_headers option \<Rightarrow> attempt \<Rightarrow> ('s, 'u) world \<Rightarrow>
   bool \<times> ('s, 'u) world" where
  "prepare_hook site rid p payload opts a w =
     (case gateway_eligible site p a w of
        (Inl e, w1) \<Rightarrow> hook_fails e w1
      | (Inr ok, w1) \<Rightarrow>
          if \<not> ok then hook_fails RuntimeUnavailable w1
          else case Candidate p a of
              None \<Rightarrow> hook_fails RuntimeUnavailable w1
            | Some (route, credential) \<Rightarrow>
                (case (if att_Number a > 1 then validateGatewayRetryEvidence site p a w1 else (None, w1)) of
                   (Some e, w2) \<Rightarrow> hook_fails e w2
                 | (None, w2) \<Rightarrow>
                     (case prepareGatewayHTTPRequest site rid (w_result w2) payload route credential opts of
                        Inl e \<Rightarrow> hook_fails e w2
                      | Inr prep \<Rightarrow> (True, w2\<lparr>w_current := Some (prep\<lparr>ga_holder := sourceHolder p a\<rparr>)\<rparr>))))"

definition admit_hook ::
  "('s, 'u) site \<Rightarrow> string \<Rightarrow> ('s, 'u) world gateway_plan \<Rightarrow> attempt \<Rightarrow> ('s, 'u) world \<Rightarrow> bool \<times> ('s, 'u) world" where
  "admit_hook site rid p a w =
     (case reauthorize_public site w of
        (Some e, w1) \<Rightarrow> hook_fails e w1
      | (None, w1) \<Rightarrow>
          (case admitPreparedGatewayAttempt site rid p a w1 of
             (Some e, w2) \<Rightarrow> hook_fails e w2
           | (None, w2) \<Rightarrow> (True, on_result (\<lambda>r. r\<lparr>gr_Admitted := True\<rparr>) w2)))"

definition execute_hook ::
  "('s, 'u) site \<Rightarrow> string \<Rightarrow> ('s, 'u) world gateway_plan \<Rightarrow> attempt \<Rightarrow> ('s, 'u) world \<Rightarrow> (outcome \<times> bool) \<times> ('s, 'u) world" where
  "execute_hook site rid p a w =
     (case w_current w of
        None \<Rightarrow> ((plain_outcome PermanentFailure Unknown, True), w)
      | Some prep \<Rightarrow>
          (case executeGatewayAttempt site rid p a prep w of
             ((oc, public, err), w1) \<Rightarrow> ((oc, err), w1\<lparr>w_lastPublic := public, w_current := None\<rparr>)))"

definition world_poll :: "('s, 'u) site \<Rightarrow> ('s, 'u) world poll" where
  "world_poll site w0 = (let w = others site w0 in (si_ctx site (w_out w), w))"

definition gateway_hooks ::
  "('s, 'u) site \<Rightarrow> string \<Rightarrow> ('s, 'u) world gateway_plan \<Rightarrow> object \<Rightarrow> messages_headers option \<Rightarrow> ('s, 'u) world hooks" where
  "gateway_hooks site rid p payload opts =
     \<lparr>hook_Eligible = Some (eligible_hook site p), hook_Prepare = Some (prepare_hook site rid p payload opts),
      hook_Admit = Some (admit_hook site rid p), hook_Execute = Some (execute_hook site rid p)\<rparr>"

section \<open>The call\<close>

definition gatewayAttachmentAttemptPlan ::
  "('s, 'u) site \<Rightarrow> ('s, 'u) world gateway_plan \<Rightarrow> 'u attachments \<Rightarrow> service_error + ('s, 'u) world gateway_plan" where
  "gatewayAttachmentAttemptPlan site p am =
     (if \<not> am_any am then Inr p
      else
        let kept = filter (\<lambda>g. am_route am (gc_route g)) (gp_candidates p) in
        if kept = [] then Inl (GatewayError 400 ''attachment_type_unsupported'')
        else case filtered (world_random site) p kept of Inl _ \<Rightarrow> Inl RuntimeUnavailable | Inr q \<Rightarrow> Inr q)"

definition stop_text :: "stop_reason \<Rightarrow> string" where
  "stop_text s =
     (case s of
        NotStopped \<Rightarrow> '''' | Succeeded \<Rightarrow> ''succeeded'' | UnsafeToReplay \<Rightarrow> ''unsafe_to_replay''
      | Permanent \<Rightarrow> ''permanent_failure'' | Exhausted \<Rightarrow> ''attempt_budget_exhausted''
      | NoCandidates \<Rightarrow> ''no_candidates'' | stop_reason.Canceled \<Rightarrow> ''canceled'' | Blocked \<Rightarrow> ''blocked'')"

text \<open>The classification of the request.\<close>

definition classified :: "object \<Rightarrow> 'u attachments \<Rightarrow> messages_headers option \<Rightarrow> gateway_result \<Rightarrow> gateway_result" where
  "classified payload am opts r =
     (let rq = inspectQuotaRequest (NativeProtocol r) payload (if am_any am then am_detached am else None);
          plain = (case opts of None \<Rightarrow> False | Some h \<Rightarrow> mh_Version h = ''2023-06-01'' \<and> mh_Beta h = '''');
          dims = gatewayPricingDimensions (NativeProtocol r)
                   (if am_any am then (case am_detached am of None \<Rightarrow> payload | Some d \<Rightarrow> d) else payload)
      in r\<lparr>gr_quotaRequest := (if NativeProtocol r = ProtocolAnthropicMessages \<and> \<not> plain then rq\<lparr>rq_Supported := False\<rparr> else rq),
           gr_PricingDimensions := dims, gr_PricingUnsupported := (dims \<noteq> [])\<rparr>)"

text \<open>The identity of the call on the plan, and the revision of the grants it is prepared under.\<close>

definition identified :: "gateway_runtime \<Rightarrow> gateway_result \<Rightarrow> 'w gateway_plan \<Rightarrow> gateway_result \<times> 'w gateway_plan" where
  "identified rn r p =
     (let q = p\<lparr>gp_userID := gr_UserID r, gp_projectID := gr_ProjectID r, gp_keyID := gr_KeyID r,
                gp_team := gr_team r, gp_personal := gr_personal r\<rparr>
      in if gr_key r \<and> gr_ProjectID r = '''' then
           (case rn_auth rn of
              None \<Rightarrow> (r, q)
            | Some auth \<Rightarrow>
                let revision = (case ra_PersonalGrantStates auth (gr_UserID r) of None \<Rightarrow> '''' | Some g \<Rightarrow> gs_Revision g) in
                (r\<lparr>gr_personalGrantRevision := revision\<rparr>, q\<lparr>gp_personalGrantRevision := revision\<rparr>))
         else (r, q))"

text \<open>The part before the run: the payload to send, where the call is not refused.\<close>

definition attach ::
  "('s, 'u) site \<Rightarrow> string \<Rightarrow> object \<Rightarrow> 'u attachments \<Rightarrow> ('s, 'u) world \<Rightarrow> (service_error + object) \<times> ('s, 'u) world" where
  "attach site rid payload am w =
     (if \<not> am_any am then (Inr payload, w)
      else case preflightPreparedGatewayAttempt site rid w of
          (Some e, w1) \<Rightarrow> (Inl e, w1)
        | (None, w1) \<Rightarrow>
            let w2 = others site w1 in
            (case am_resolve am (w_result w2) (w_out w2) of (res, u) \<Rightarrow> (res, w2\<lparr>w_out := u\<rparr>)))"

text \<open>What the run means for the caller.\<close>

definition run_answer :: "('s, 'u) site \<Rightarrow> run_end \<Rightarrow> ('s, 'u) world \<Rightarrow> public_error option \<times> ('s, 'u) world" where
  "run_answer site end w =
     (case end of (run, err) \<Rightarrow>
        let w1 = on_result (\<lambda>r. r\<lparr>gr_Admitted := (gr_Admitted r \<or> run_Admitted run), gr_RouteStopReason := stop_text (run_Stop run)\<rparr>) w in
        (if err \<noteq> None then
           (case w_hookErr w1 of
              Some e \<Rightarrow> Some (gatewayPublicAttemptError e, None)
            | None \<Rightarrow>
                (case si_ctx site (w_out w1) of
                   Some e \<Rightarrow> Some (gatewayContextError e, None)
                 | None \<Rightarrow>
                     (case w_lastPublic w1 of
                        Some e \<Rightarrow> Some e
                      | None \<Rightarrow> Some (GatewayError 502 ''upstream_error'', None))))
         else if run_Stop run = Succeeded \<and> w_response w1 \<noteq> None then None
         else (case w_lastPublic w1 of Some e \<Rightarrow> Some e | None \<Rightarrow> Some (no_upstream, None)), w1))"

definition run_call ::
  "('s, 'u) site \<Rightarrow> string \<Rightarrow> object \<Rightarrow> 'u attachments \<Rightarrow> messages_headers option \<Rightarrow> ('s, 'u) world gateway_plan \<Rightarrow>
   ('s, 'u) world \<Rightarrow> public_error option \<times> ('s, 'u) world" where
  "run_call site rid payload am opts p w =
     (case gatewayAttachmentAttemptPlan site p am of
        Inl e \<Rightarrow> (Some (e, None), w)
      | Inr p1 \<Rightarrow>
          (case prepareGatewayAttemptQuotaState site p1 w of
             (Inl e, w1) \<Rightarrow> (Some (gatewayPublicAttemptError e, None), w1)
           | (Inr p2, w1) \<Rightarrow>
               (case attach site rid payload am w1 of
                  (Inl e, w2) \<Rightarrow> (Some (e, None), w2)
                | (Inr payload1, w2) \<Rightarrow>
                    (case Run (Some (gp_Plan p2)) (Some (world_poll site)) (gateway_hooks site rid p2 payload1 opts) w2 of
                       (end, w3) \<Rightarrow> run_answer site end w3))))"

definition gatewayNativeAttempts ::
  "('s, 'u) site \<Rightarrow> string \<Rightarrow> object \<Rightarrow> 'u attachments \<Rightarrow> messages_headers option \<Rightarrow> ('s, 'u) world \<Rightarrow>
   public_error option \<times> ('s, 'u) world" where
  "gatewayNativeAttempts site rid payload am opts w0 =
     (let w = others site (on_result (classified payload am opts) w0); r = w_result w; rn = si_runtime site (w_out w) in
      case gatewayAttemptPlanWithDraw (si_digests site) (world_random site) rn (si_now site (w_out w)) (gr_ModelID r)
             (NativeProtocol r) None (w_sources w) of
        (_, None) \<Rightarrow> (None, w\<lparr>w_panicked := True\<rparr>)
      | (Inl e, Some sources) \<Rightarrow> (Some (gatewayPublicAttemptError e, None), w\<lparr>w_sources := sources\<rparr>)
      | (Inr p0, Some sources) \<Rightarrow>
          (case identified (si_runtime site (w_out w)) r p0 of (r1, p) \<Rightarrow>
             (case run_call site rid payload am opts p (w\<lparr>w_sources := sources, w_result := r1\<rparr>) of
                (answer, w1) \<Rightarrow> (answer, on_sources (releaseSources (gp_candidates p0)) w1))))"

section \<open>The result\<close>

definition NoUpstreamWork :: "gateway_result \<Rightarrow> bool" where
  "NoUpstreamWork r \<longleftrightarrow> gr_Admitted r \<and> gr_AttemptID r = '''' \<and> callAttemptsProveNoWork (gr_Attempts r)"

end
