(* ===== verification/Run_Contract.thy ===== *)
theory Run_Contract
  imports Route_Run
begin

text \<open>
  The contract between \<open>Plan.Run\<close> and its hooks, as a locale: \<open>open_at\<close> holds between two attempts,
  \<open>ready\<close> from the preparation of an attempt to its execution, \<open>over\<close> when the run has ended. Hooks that
  keep them one by one keep them over the whole run, however many attempts it makes: an execution has to
  establish \<open>open_at\<close> again only where the loop may go on, after an outcome that is safe to replay.
\<close>

locale attempt_run =
  fixes p :: "'w plan" and c :: "'w calls"
    and open_at :: "'w \<Rightarrow> bool" and ready :: "attempt \<Rightarrow> 'w \<Rightarrow> bool" and over :: "'w \<Rightarrow> bool"
  assumes poll_open: "open_at w \<Longrightarrow> open_at (snd (c_poll c w))"
    and poll_ready: "ready a w \<Longrightarrow> ready a (snd (c_poll c w))"
    and poll_over: "over w \<Longrightarrow> over (snd (c_poll c w))"
    and draw_open: "open_at w \<Longrightarrow> open_at (snd (plan_draw p n w))"
    and eligible_open: "open_at w \<Longrightarrow> open_at (snd (c_eligible c a w))"
    and prepare: "open_at w \<Longrightarrow> c_prepare c a w = (ok, w') \<Longrightarrow> if ok then ready a w' else over w'"
    and admit: "ready a w \<Longrightarrow> c_admit c a w = (ok, w') \<Longrightarrow> if ok then ready a w' else over w'"
    and execute: "ready a w \<Longrightarrow> c_execute c a w = ((oc, err), w') \<Longrightarrow> over w' \<and> (\<not> err \<and> replay_safe oc \<longrightarrow> open_at w')"
    and open_over: "open_at w \<Longrightarrow> over w"
    and ready_over: "ready a w \<Longrightarrow> over w"
begin

lemma poll_Some: "c_poll c w = (x, w') \<Longrightarrow> (open_at w \<longrightarrow> open_at w') \<and> (ready a w \<longrightarrow> ready a w') \<and> (over w \<longrightarrow> over w')"
  using poll_open[of w] poll_ready[of a w] poll_over[of w] by simp

lemma scan_one: "first_eligible p (c_poll c) (c_eligible c) st number t cs w = (r, w') \<Longrightarrow> open_at w \<Longrightarrow> open_at w'"
proof (induction cs arbitrary: w)
  case (Cons x cs)
  let ?a = "candidate_attempt p number t x"
  obtain e1 w1 where 1: "c_poll c w = (e1, w1)" by fastforce
  obtain e2 w2 where 2: "c_eligible c ?a w1 = (e2, w2)" by fastforce
  obtain e3 w3 where 3: "c_poll c w2 = (e3, w3)" by fastforce
  have "open_at w1" "open_at w2" "open_at w3"
    using Cons.prems(2) poll_open[of w] eligible_open[of w1 ?a] poll_open[of w2] 1 2 3 by simp_all
  with Cons.prems Cons.IH[of w] Cons.IH[of w2] 1 2 3 show ?case
    by (auto simp: Let_def split: if_splits option.splits sum.splits)
qed simp

lemma scan_all: "scan_targets p (c_poll c) (c_eligible c) st number ts cs w = (r, w') \<Longrightarrow> open_at w \<Longrightarrow> open_at w'"
proof (induction ts arbitrary: cs w)
  case (Cons t ts)
  obtain x w1 where 1: "first_eligible p (c_poll c) (c_eligible c) st number t (tgt_Credentials t) w = (x, w1)" by fastforce
  have "open_at w1" by (rule scan_one[OF 1 Cons.prems(2)])
  with Cons.prems 1 Cons.IH show ?case by (auto split: if_splits option.splits sum.splits)
qed simp

lemma select_open:
  assumes "selectAttempt p (c_poll c) (c_eligible c) st number w = (r, w')" "open_at w"
  shows "open_at w'"
proof -
  obtain x w1 where 1: "scan_targets p (c_poll c) (c_eligible c) st number (plan_targets p) [] w = (x, w1)" by fastforce
  obtain e w2 where 2: "c_poll c w1 = (e, w2)" by fastforce
  have w1: "open_at w1" by (rule scan_all[OF 1 assms(2)])
  have w2: "open_at w2" using poll_open[OF w1] 2 by simp
  have w3: "open_at (snd (plan_draw p n w2))" for n by (rule draw_open[OF w2])
  show ?thesis
    using assms(1) 1 2 w1 w2 w3
    by (auto simp: selectAttempt_def Let_def split: sum.splits option.splits if_splits prod.splits) (metis snd_conv)+
qed

text \<open>What an iteration leaves: an end of the run, or a state for the next attempt.\<close>

definition leaves :: "(run_end + progress \<times> run_result) \<times> 'w \<Rightarrow> bool" where
  "leaves res \<longleftrightarrow> (case fst res of Inl _ \<Rightarrow> over (snd res) | Inr _ \<Rightarrow> open_at (snd res))"

lemma leaves_simps [simp]: "leaves (Inl e, w) = over w" "leaves (Inr x, w) = open_at w"
  by (simp_all add: leaves_def)

lemma blocked_leaves: "over w \<Longrightarrow> blockedResult c r err w = (e, w') \<Longrightarrow> over w'"
  using poll_over[of w] by (auto simp: blockedResult_def split: prod.splits option.splits)

lemma execute_leaves:
  assumes "ready a w"
  shows "leaves (run_execute p c st r a w)"
proof -
  obtain oc err w1 where 1: "c_execute c a w = ((oc, err), w1)" by (metis surj_pair)
  obtain e w2 where 2: "c_poll c w1 = (e, w2)" by fastforce
  note after = execute[OF assms 1]
  have over: "over w2" using poll_over[of w1] after 2 by simp
  have opens: "open_at w2" if "\<not> err" "replay_safe oc" using poll_open[of w1] after 2 that by simp
  show ?thesis
  proof (cases e)
    case (Some x)
    then show ?thesis using 1 2 over by (simp add: run_execute_def Let_def)
  next
    case None
    define oc1 where "oc1 = (if validOutcome oc then oc else
      \<lparr>out_Failure = PermanentFailure, out_Work = Unknown, out_OutputStarted = out_OutputStarted oc,
       out_FinalUsageKnown = out_FinalUsageKnown oc\<rparr>)"
    define failed where "failed = (if validOutcome oc then err else True)"
    obtain st1 r1 where run: "run_execute p c st r a w = (judge p st1 r1 a oc1 failed, w2)"
      using 1 2 None by (auto simp: run_execute_def Let_def oc1_def failed_def)
    show ?thesis
    proof (cases "judge p st1 r1 a oc1 failed")
      case (Inl x)
      then show ?thesis using run over by simp
    next
      case (Inr x)
      then have "\<not> failed" by (cases failed) (auto simp: judge_def)
      then have "validOutcome oc" "\<not> err" by (simp_all add: failed_def split: if_splits)
      moreover from this have "replay_safe oc" using Inr judge_Inr(1)[of p st1 r1 a oc1 failed] by (cases x) (simp add: oc1_def)
      ultimately show ?thesis using run Inr opens by simp
    qed
  qed
qed

lemma admit_leaves:
  assumes "ready a w"
  shows "leaves (run_admit p c st r a w)"
proof -
  have finish: "leaves (case c_poll c w1 of (Some e, w2) \<Rightarrow> (Inl (x, y e), w2) | (None, w2) \<Rightarrow> run_execute p c st r1 a w2)"
    if "ready a w1" for w1 r1 x y
    using poll_ready[OF that] execute_leaves ready_over by (auto split: prod.splits option.splits)
  obtain ok w1 where 1: "c_admit c a w = (ok, w1)" by fastforce
  obtain e w2 where 2: "blockedResult c r ErrAdmission w1 = (e, w2)" by fastforce
  show ?thesis
  proof (cases "run_Admitted r")
    case True
    then show ?thesis using finish[OF assms] by (simp add: run_admit_def)
  next
    case False
    with admit[OF assms 1] 1 2 finish[of w1] blocked_leaves[OF _ 2] show ?thesis
      by (cases ok) (simp_all add: run_admit_def)
  qed
qed

lemma prepare_leaves:
  assumes "open_at w"
  shows "leaves (run_prepare p c st r a w)"
proof -
  obtain ok w1 where 1: "c_prepare c a w = (ok, w1)" by fastforce
  obtain e w2 where 2: "blockedResult c r ErrPrepare w1 = (e, w2)" by fastforce
  obtain x w3 where 3: "c_poll c w1 = (x, w3)" by fastforce
  note after = prepare[OF assms 1]
  show ?thesis
  proof (cases ok)
    case False
    then show ?thesis using 1 2 after blocked_leaves[OF _ 2] by (simp add: run_prepare_def)
  next
    case True
    then have "ready a w3" using after poll_ready[of a w1] 3 by simp
    then show ?thesis using True 1 3 admit_leaves ready_over by (cases x) (auto simp: run_prepare_def)
  qed
qed

lemma step_leaves:
  assumes "open_at w"
  shows "leaves (run_step p c st r w)"
proof -
  obtain x w1 where 1: "c_poll c w = (x, w1)" by fastforce
  obtain s w2 where 2: "selectAttempt p (c_poll c) (c_eligible c) st (int (length (run_Attempts r)) + 1) w1 = (s, w2)" by fastforce
  obtain y w3 where 3: "c_poll c w2 = (y, w3)" by fastforce
  have w1: "open_at w1" using poll_open[OF assms] 1 by simp
  have w2: "open_at w2" by (rule select_open[OF 2 w1])
  have w3: "over w3" using poll_over[OF open_over[OF w2]] 3 by simp
  show ?thesis
  proof (cases x)
    case (Some e)
    then show ?thesis using 1 w1 open_over by (simp add: run_step_def)
  next
    case None
    then show ?thesis
      using 1 2 3 w2 w3 open_over prepare_leaves[OF w2] by (auto simp: run_step_def split: sum.splits option.splits)
  qed
qed

lemma run_loop_over: "open_at w \<Longrightarrow> run_loop p c st r w = (e, w') \<Longrightarrow> over w'"
proof (induction "nat (plan_maxAttempts p - int (length (run_Attempts r)))" arbitrary: st r w rule: less_induct)
  case less
  obtain res w1 where step: "run_step p c st r w = (res, w1)" by fastforce
  note after = step_leaves[OF less.prems(1), of st r]
  show ?case
  proof (cases res)
    case (Inl x)
    then show ?thesis using less.prems(2) step after by (auto simp: run_loop.simps)
  next
    case (Inr x)
    then obtain st1 r1 where res: "res = Inr (st1, r1)" by (cases x) auto
    have "nat (plan_maxAttempts p - int (length (run_Attempts r1))) < nat (plan_maxAttempts p - int (length (run_Attempts r)))"
      using run_step_Inr_length[OF step[unfolded res]] by linarith
    then show ?thesis using less.hyps less.prems(2) step after res by (auto simp: run_loop.simps)
  qed
qed

end

end
