(* ===== verification/Gateway_Dispatch.thy ===== *)
theory Gateway_Dispatch
  imports Gateway_Execute Gateway_Claims Run_Contract
begin

text \<open>
  What a gateway call guarantees about the requests it sends, whatever the upstreams answer and other
  goroutines do: each is in the journal before it goes out, each is accounted for in the result, a result
  that claims no upstream work has proofs for it, and a success is an accepted answer. The invariant is
  stated once for the three moments of \<open>attempt_run\<close>, and the hooks of the call are its interpretation.
\<close>

section \<open>The process\<close>

text \<open>
  The parts the call relies on: the journal, its encoding of settings, a clock within its range, and
  goroutines that reach the journal through its operations and leave the fact of this request alone.
\<close>

definition site_ok :: "('s, 'u) site \<Rightarrow> string \<Rightarrow> bool" where
  "site_ok site rid \<longleftrightarrow>
     bolt (si_bolt site) \<and> env_ok (si_env site) \<and> si_recorder site \<and> (\<forall>u. int64_range (si_now site u)) \<and>
     (\<forall>x. reachable (si_env site) (si_queue site) (si_bolt site) (fst x) \<longrightarrow>
        reachable (si_env site) (si_queue site) (si_bolt site) (fst (si_others site x)) \<and>
        facts (si_bolt site) (fst (si_others site x)) rid = facts (si_bolt site) (fst x) rid)"

abbreviation live :: "('s, 'u) site \<Rightarrow> ('s, 'u) world \<Rightarrow> bool" where
  "live site w \<equiv> reachable (si_env site) (si_queue site) (si_bolt site) (w_store w)"

abbreviation fact_of :: "('s, 'u) site \<Rightarrow> string \<Rightarrow> ('s, 'u) world \<Rightarrow> fact_state option" where
  "fact_of site rid w \<equiv> facts (si_bolt site) (w_store w) rid"

section \<open>Steps that send nothing\<close>

text \<open>What the guarantees depend on, and the steps that do not change it; \<open>still\<close> steps also leave the
  fact of the request as it is.\<close>

definition aspects ::
  "('s, 'u) world \<Rightarrow> (string \<times> call_attempt list \<times> string \<times> bool) \<times> 's dispatch list \<times> response option \<times> prepared option" where
  "aspects w =
     ((gr_AttemptID (w_result w), gr_Attempts (w_result w), gr_Protocol (w_result w), gr_Stream (w_result w)),
      w_sent w, w_response w, w_current w)"

definition quiet :: "('s, 'u) site \<Rightarrow> string \<Rightarrow> ('s, 'u) world \<Rightarrow> ('s, 'u) world \<Rightarrow> bool" where
  "quiet site rid w w' \<longleftrightarrow> aspects w' = aspects w \<and> (site_ok site rid \<longrightarrow> live site w \<longrightarrow> live site w')"

definition still :: "('s, 'u) site \<Rightarrow> string \<Rightarrow> ('s, 'u) world \<Rightarrow> ('s, 'u) world \<Rightarrow> bool" where
  "still site rid w w' \<longleftrightarrow>
     w_result w' = w_result w \<and> quiet site rid w w' \<and> (site_ok site rid \<longrightarrow> live site w \<longrightarrow> fact_of site rid w' = fact_of site rid w)"

lemma quiet_refl [simp]: "quiet site rid w w"
  by (simp add: quiet_def)

lemma quiet_trans: "quiet site rid u v \<Longrightarrow> quiet site rid v w \<Longrightarrow> quiet site rid u w"
  by (simp add: quiet_def)

lemma still_refl [simp]: "still site rid w w"
  by (simp add: still_def)

lemma still_trans: "still site rid u v \<Longrightarrow> still site rid v w \<Longrightarrow> still site rid u w"
  by (auto simp: still_def quiet_def)

lemma still_quiet: "still site rid w w' \<Longrightarrow> quiet site rid w w'"
  by (simp add: still_def)

text \<open>Changes of the other fields.\<close>

lemma still_fields:
  "w_store w' = w_store w \<Longrightarrow> w_result w' = w_result w \<Longrightarrow> w_sent w' = w_sent w \<Longrightarrow> w_response w' = w_response w \<Longrightarrow>
   w_current w' = w_current w \<Longrightarrow> still site rid w w'"
  by (simp add: still_def quiet_def aspects_def)

lemma quiet_fields:
  "w_store w' = w_store w \<Longrightarrow> aspects w' = aspects w \<Longrightarrow> quiet site rid w w'"
  by (simp add: quiet_def)

lemma quiet_store:
  "site_ok site rid \<longrightarrow> live site w \<longrightarrow> reachable (si_env site) (si_queue site) (si_bolt site) s \<Longrightarrow>
   quiet site rid w (w\<lparr>w_store := s\<rparr>)"
  by (simp add: quiet_def aspects_def)

lemma on_result_quiet:
  "(\<And>r. (gr_AttemptID (f r), gr_Attempts (f r), gr_Protocol (f r), gr_Stream (f r)) =
        (gr_AttemptID r, gr_Attempts r, gr_Protocol r, gr_Stream r)) \<Longrightarrow> quiet site rid w (on_result f w)"
  by (rule quiet_fields) (simp_all add: on_result_def aspects_def)

lemma on_sources_still: "still site rid w (on_sources f w)"
  by (rule still_fields) (simp_all add: on_sources_def split: option.splits)

lemma others_store: "w_store (others site w) = fst (si_others site (w_store w, w_sources w, w_health w, w_out w))"
  by (simp add: others_def split: prod.splits)

lemma others_fields [simp]:
  "w_result (others site w) = w_result w" "w_sent (others site w) = w_sent w" "w_response (others site w) = w_response w"
  "w_current (others site w) = w_current w" "w_hookErr (others site w) = w_hookErr w" "w_lastPublic (others site w) = w_lastPublic w"
  by (simp_all add: others_def split: prod.splits)

lemma others_still: "still site rid w (others site w)"
  by (simp add: still_def quiet_def aspects_def site_ok_def others_store)

lemmas others_quiet = others_still[THEN still_quiet]

lemma gateway_eligible_still: "gateway_eligible site p a w = (res, w') \<Longrightarrow> still site rid w w'"
proof -
  assume g: "gateway_eligible site p a w = (res, w')"
  then obtain h where "w' = (others site w)\<lparr>w_health := h\<rparr>"
    by (auto simp: gateway_eligible_def Let_def split: prod.splits)
  then have "still site rid (others site w) w'" by (auto intro!: still_fields)
  with others_still show "still site rid w w'" by (rule still_trans)
qed

lemma reauthorize_public_still: "reauthorize_public site w = (res, w') \<Longrightarrow> still site rid w w'"
  using others_still by (auto simp: reauthorize_public_def Let_def)

lemma reauthorizePrepared_still: "reauthorizePreparedGatewayAttempt site p a w = (res, w') \<Longrightarrow> still site rid w w'"
  by (auto simp: reauthorizePreparedGatewayAttempt_def split: prod.splits sum.splits if_splits
           intro: gateway_eligible_still reauthorize_public_still still_trans)

lemma validateGatewayRetryEvidence_still: "validateGatewayRetryEvidence site p a w = (res, w') \<Longrightarrow> still site rid w w'"
  by (auto simp: validateGatewayRetryEvidence_def Let_def split: prod.splits sum.splits if_splits option.splits
           intro: gateway_eligible_still)

lemma world_random_still: "still site rid w (snd (world_random site n w))"
  by (rule still_fields) (simp_all add: world_random_def split: prod.splits)

lemma world_poll_still: "still site rid w (snd (world_poll site w))"
  using others_still by (simp add: world_poll_def Let_def)

section \<open>Steps on the journal\<close>

lemma prepareGatewayAttemptQuotaState_quiet:
  assumes "prepareGatewayAttemptQuotaState site p w = (res, w')"
  shows "quiet site rid w w'"
proof -
  have "quiet site rid v (on_result (admission_state site kept pol bound) v)" for v kept pol bound
    by (rule on_result_quiet) (simp add: admission_state_def split: prod.splits)
  with assms show ?thesis
    by (auto simp: prepareGatewayAttemptQuotaState_def Let_def split: sum.splits prod.splits
             intro: others_quiet quiet_trans)
qed

lemma preflight_quiet:
  assumes "preflightPreparedGatewayAttempt site rid w = (res, w')"
  shows "quiet site rid w w'"
proof -
  let ?v = "others site w"
  have store: "quiet site rid ?v (?v\<lparr>w_store := t\<rparr>)"
    if "PreflightWithQuota (si_env site) (si_queue site) (si_bolt site) rid ps b zone (si_now site u) (w_store ?v) = (r, t)" for ps b zone u r t
  proof (rule quiet_store, intro impI)
    assume ok: "site_ok site rid" "live site ?v"
    let ?op = "OpPreflight rid ps b zone (si_now site u)"
    have op: "run_op (si_env site) (si_queue site) (si_bolt site) ?op (w_store ?v) = reported (r, t)" using that by simp
    have "int64_range (op_time ?op)" using ok(1) by (simp add: site_ok_def)
    then show "reachable (si_env site) (si_queue site) (si_bolt site) t"
      using bolt.op_effect(1)[OF _ ok(2) _ _ op] ok(1) by (simp add: site_ok_def)
  qed
  show ?thesis using assms store
    by (auto simp: preflightPreparedGatewayAttempt_def Let_def split: if_splits sum.splits prod.splits
             intro: others_quiet quiet_trans[OF others_quiet])
qed

lemma attach_quiet:
  assumes "attach site rid payload am w = (res, w')"
  shows "quiet site rid w w'"
proof (cases "am_any am")
  case False
  then show ?thesis using assms by (simp add: attach_def)
next
  case True
  obtain x w1 where 1: "preflightPreparedGatewayAttempt site rid w = (x, w1)" by fastforce
  note q = preflight_quiet[OF 1]
  have out: "quiet site rid v (v\<lparr>w_out := u\<rparr>)" for v u by (rule quiet_fields) (simp_all add: aspects_def)
  show ?thesis
  proof (cases x)
    case (Some e)
    then show ?thesis using assms True 1 q by (simp add: attach_def)
  next
    case None
    then obtain u where "w' = (others site w1)\<lparr>w_out := u\<rparr>"
      using assms True 1 by (auto simp: attach_def Let_def split: prod.splits)
    then show ?thesis using q out others_quiet quiet_trans by metis
  qed
qed

lemma AdmitGatewayCall_live:
  assumes "AdmitGatewayCall (si_env site) (si_queue site) (si_bolt site) (si_codec site) intent (si_recorder site) rid (Some r) (si_now site u) s = (res, t)"
    "site_ok site rid" "reachable (si_env site) (si_queue site) (si_bolt site) s"
  shows "reachable (si_env site) (si_queue site) (si_bolt site) t"
  using AdmitGatewayCall_effect[of "si_bolt site" "si_env site" "si_queue site" s "si_now site u" "si_codec site" intent rid "Some r"] assms
  by (simp add: site_ok_def)

lemma admitPrepared_quiet:
  assumes "admitPreparedGatewayAttempt site rid p a w = (res, w')"
  shows "quiet site rid w w'"
proof -
  obtain x w1 where 1: "gateway_eligible site p a w = (x, w1)" by fastforce
  have q1: "quiet site rid w w1" by (rule still_quiet[OF gateway_eligible_still[OF 1]])
  have state: "quiet site rid v (on_result (admission_state site kept pol bound) v)" for v kept pol bound
    by (rule on_result_quiet) (simp add: admission_state_def split: prod.splits)
  have store: "quiet site rid v (v\<lparr>w_store := t\<rparr>)"
    if "AdmitGatewayCall (si_env site) (si_queue site) (si_bolt site) (si_codec site) (si_intent site) (si_recorder site) rid
          (Some (w_result v)) (si_now site u) (w_store v) = (r, t)" for v u r t
    by (rule quiet_store) (use AdmitGatewayCall_live[OF that] in blast)
  have "w' = w1 \<or> (\<exists>kept pol bound u r t. w' = (others site (on_result (admission_state site kept pol bound) w1))\<lparr>w_store := t\<rparr> \<and>
      AdmitGatewayCall (si_env site) (si_queue site) (si_bolt site) (si_codec site) (si_intent site) (si_recorder site) rid
          (Some (w_result (others site (on_result (admission_state site kept pol bound) w1)))) (si_now site u)
          (w_store (others site (on_result (admission_state site kept pol bound) w1))) = (r, t))"
    using assms 1 unfolding admitPreparedGatewayAttempt_def Let_def
    by (auto split: if_splits sum.splits option.splits prod.splits)
  then show ?thesis
  proof
    assume "w' = w1"
    then show ?thesis using q1 by simp
  next
    assume "\<exists>kept pol bound u r t. w' = (others site (on_result (admission_state site kept pol bound) w1))\<lparr>w_store := t\<rparr> \<and>
      AdmitGatewayCall (si_env site) (si_queue site) (si_bolt site) (si_codec site) (si_intent site) (si_recorder site) rid
          (Some (w_result (others site (on_result (admission_state site kept pol bound) w1)))) (si_now site u)
          (w_store (others site (on_result (admission_state site kept pol bound) w1))) = (r, t)"
    then show ?thesis using q1 state others_quiet store quiet_trans by metis
  qed
qed

text \<open>A checkpoint that succeeds leaves the encoded fallback fact in the journal.\<close>

definition held_fallback :: "('s, 'u) site \<Rightarrow> string \<Rightarrow> ('s, 'u) world \<Rightarrow> bool" where
  "held_fallback site rid w \<longleftrightarrow>
     (\<exists>now payload. gatewayFallbackPayload (si_codec site) rid (w_result w) now = Inr payload \<and> fact_of site rid w = Some (Held payload))"

lemma held_fallback_still: "still site rid w w' \<Longrightarrow> site_ok site rid \<Longrightarrow> live site w \<Longrightarrow> held_fallback site rid w \<Longrightarrow> held_fallback site rid w'"
  by (simp add: held_fallback_def still_def)

lemma revised_Held: "fact_step (Revised rid payload) F = Some G \<Longrightarrow> G rid = Some (Held payload)"
  by (auto split: option.splits fact_state.splits)

lemma CheckpointGatewayCall_effect:
  assumes "CheckpointGatewayCall q B C True rid r now s = (res, t)" "bolt B" "env_ok E" "reachable E q B s"
  shows "reachable E q B t \<and>
    (res = Inr () \<longrightarrow> (\<exists>payload. gatewayFallbackPayload C rid r (Some now) = Inr payload \<and> facts B t rid = Some (Held payload)))"
proof (cases "gatewayFallbackPayload C rid r (Some now)")
  case (Inl e)
  then show ?thesis using assms(1,4) by (auto simp: CheckpointGatewayCall_def)
next
  case (Inr payload)
  define op where "op = (if gr_admissionQuota r \<noteq> [] then OpUpdatePendingQuota rid payload (gatewayInterruptedSettlement r)
      else OpUpdatePending rid payload)"
  obtain x t1 where x: "(if gr_admissionQuota r \<noteq> [] then UpdatePendingQuota q B rid payload (gatewayInterruptedSettlement r) s
      else UpdatePending q B rid payload s) = (x, t1)" by fastforce
  have res: "t = t1" "res = Inr () \<longleftrightarrow> (\<exists>a. x = Inr a)"
    using assms(1) Inr x by (auto simp: CheckpointGatewayCall_def split: sum.splits)
  have op: "run_op E q B op s = reported (x, t1)" "int64_range (op_time op)" "log_event op = Revised rid payload"
    using x by (auto simp: op_def demo_times split: if_splits)
  show ?thesis
    by (rule bolt.op_effectE[OF assms(2,4,3) op(2,1)])
      (use res assms(4) Inr op(3) revised_Held[of rid payload "facts B s" "facts B t1"] in auto)
qed

lemma checkpoint_effect:
  assumes "checkpoint site rid w = (res, w')"
  shows "quiet site rid w w'" "w_result w' = w_result w"
    "res = None \<Longrightarrow> site_ok site rid \<Longrightarrow> live site w \<Longrightarrow> held_fallback site rid w'"
proof -
  let ?v = "others site w"
  obtain x t where c: "CheckpointGatewayCall (si_queue site) (si_bolt site) (si_codec site) (si_recorder site) rid (w_result ?v)
      (si_now site (w_out ?v)) (w_store ?v) = (x, t)" by fastforce
  have w': "w' = ?v\<lparr>w_store := t\<rparr>" "res = None \<longleftrightarrow> x = Inr ()"
    using assms c by (auto simp: checkpoint_def Let_def split: sum.splits)
  have effect: "reachable (si_env site) (si_queue site) (si_bolt site) t \<and>
      (x = Inr () \<longrightarrow> (\<exists>payload. gatewayFallbackPayload (si_codec site) rid (w_result ?v) (Some (si_now site (w_out ?v))) = Inr payload \<and>
         facts (si_bolt site) t rid = Some (Held payload)))" if "site_ok site rid" "live site ?v"
    by (rule CheckpointGatewayCall_effect) (use c that in \<open>auto simp: site_ok_def\<close>)
  have "quiet site rid ?v w'" unfolding w'(1) by (rule quiet_store) (use effect in blast)
  then show "quiet site rid w w'" using others_quiet quiet_trans by metis
  show "w_result w' = w_result w" by (simp add: w')
  show "res = None \<Longrightarrow> site_ok site rid \<Longrightarrow> live site w \<Longrightarrow> held_fallback site rid w'"
    using effect w' others_still[of site rid w] by (auto simp: held_fallback_def still_def quiet_def)
qed

section \<open>Accounts\<close>

text \<open>At the moment a request was sent, the journal held a fact of the call whose last attempt is this one,
  with unknown work.\<close>

definition noted :: "('s, 'u) site \<Rightarrow> string \<Rightarrow> 's dispatch \<Rightarrow> bool" where
  "noted site rid d \<longleftrightarrow> ds_ID d \<noteq> '''' \<and>
     (\<exists>payload cf past a. facts (si_bolt site) (ds_store d) rid = Some (Held payload) \<and> cd_fact (si_codec site) cf = Some payload \<and>
        cf_RequestID cf = rid \<and> \<not> cf_NoWork cf \<and> cf_Attempts cf = past @ [a] \<and> ca_ID a = ds_ID d \<and> ca_WorkEvidence a = Unknown \<and>
        ca_CredentialID a = att_CredentialID (ds_attempt d))"

text \<open>An answer that proves that the upstream has done no work: no request reached it, or its answer is a
  rejection and nothing else.\<close>

definition no_work_answer :: "string \<Rightarrow> http_answer \<Rightarrow> bool" where
  "no_work_answer proto answer \<longleftrightarrow>
     (\<exists>resp fails. answer = Failed PreRequestFailure resp fails) \<or>
     (\<exists>resp fails body errs. answer = Answered resp fails \<and> resp_StatusCode resp \<in> {401, 429} \<and>
        resp_Body resp = Some (body, False) \<and> error_only proto body errs \<and> names_rejection proto (resp_StatusCode resp) errs)"

text \<open>The attempt of the result that records a request, and the claim it may make.\<close>

definition settles :: "string \<Rightarrow> 's dispatch \<Rightarrow> call_attempt \<Rightarrow> bool" where
  "settles proto d c \<longleftrightarrow>
     ca_ID c = ds_ID d \<and> (ca_WorkEvidence c = NotSent \<or> ca_WorkEvidence c = RejectedWithoutWork \<longrightarrow> no_work_answer proto (ds_answer d))"

definition settled :: "('s, 'u) world \<Rightarrow> bool" where
  "settled w \<longleftrightarrow> list_all2 (settles (NativeProtocol (w_result w))) (w_sent w) (gr_Attempts (w_result w))"

text \<open>The last request was answered, and the answer is the response of the call.\<close>

definition accepted :: "('s, 'u) site \<Rightarrow> ('s, 'u) world \<Rightarrow> bool" where
  "accepted site w \<longleftrightarrow>
     (\<exists>ds d resp fails. w_sent w = ds @ [d] \<and>
        list_all2 (settles (NativeProtocol (w_result w))) ds (gr_Attempts (w_result w)) \<and>
        ds_ID d = gr_AttemptID (w_result w) \<and> ds_ID d \<noteq> '''' \<and>
        ds_answer d = Answered resp fails \<and> w_response w = Some resp \<and> 200 \<le> resp_StatusCode resp \<and> resp_StatusCode resp < 300 \<and>
        si_media site (resp_ContentType resp) = Some (if gr_Stream (w_result w) then ''text/event-stream'' else ''application/json''))"

definition sound :: "('s, 'u) site \<Rightarrow> string \<Rightarrow> ('s, 'u) world \<Rightarrow> bool" where
  "sound site rid w \<longleftrightarrow> site_ok site rid \<and> live site w \<and> (\<forall>d \<in> set (w_sent w). noted site rid d)"

definition between :: "('s, 'u) site \<Rightarrow> string \<Rightarrow> ('s, 'u) world \<Rightarrow> bool" where
  "between site rid w \<longleftrightarrow> sound site rid w \<and> settled w \<and> gr_AttemptID (w_result w) = '''' \<and> w_response w = None"

definition finished :: "('s, 'u) site \<Rightarrow> string \<Rightarrow> ('s, 'u) world \<Rightarrow> bool" where
  "finished site rid w \<longleftrightarrow> sound site rid w \<and> (settled w \<and> w_response w = None \<or> accepted site w)"

definition chosen :: "('s, 'u) site \<Rightarrow> string \<Rightarrow> ('s, 'u) world gateway_plan \<Rightarrow> attempt \<Rightarrow> ('s, 'u) world \<Rightarrow> bool" where
  "chosen site rid p a w \<longleftrightarrow>
     between site rid w \<and> (\<exists>prep credential. w_current w = Some prep \<and> Candidate p a = Some (ga_route prep, credential))"

lemma between_finished: "between site rid w \<Longrightarrow> finished site rid w"
  by (simp add: between_def finished_def)

lemma chosen_between: "chosen site rid p a w \<Longrightarrow> between site rid w"
  by (simp add: chosen_def)

lemma quiet_sound: "quiet site rid w w' \<Longrightarrow> sound site rid w \<Longrightarrow> sound site rid w'"
  by (simp add: quiet_def sound_def aspects_def)

lemma quiet_settled: "quiet site rid w w' \<Longrightarrow> settled w' = settled w"
  by (simp add: quiet_def settled_def aspects_def NativeProtocol_def)

lemma quiet_accepted: "quiet site rid w w' \<Longrightarrow> accepted site w' = accepted site w"
  by (simp add: quiet_def accepted_def aspects_def NativeProtocol_def)

lemma quiet_moments:
  assumes "quiet site rid w w'"
  shows "between site rid w \<Longrightarrow> between site rid w'" "finished site rid w \<Longrightarrow> finished site rid w'"
    "chosen site rid p a w \<Longrightarrow> chosen site rid p a w'"
  using quiet_sound[OF assms] quiet_settled[OF assms] quiet_accepted[OF assms] assms
  by (auto simp: between_def finished_def chosen_def quiet_def aspects_def)

lemmas still_keeps = quiet_moments[OF still_quiet]

section \<open>One attempt\<close>

lemma fallback_in_flight:
  assumes "gatewayFallbackPayload C rid r now = Inr payload" "gr_AttemptID r \<noteq> ''''"
  shows "\<exists>cf past a. cd_fact C cf = Some payload \<and> cf_RequestID cf = rid \<and> \<not> cf_NoWork cf \<and> cf_Attempts cf = past @ [a] \<and>
    ca_ID a = gr_AttemptID r \<and> ca_WorkEvidence a = Unknown \<and> ca_CredentialID a = gr_CredentialID r"
proof -
  let ?f = "fallback_fact rid r now"
  have f: "cf_RequestID (finalizeCallPricing C f) = cf_RequestID f" "cf_NoWork (finalizeCallPricing C f) = cf_NoWork f"
    "cf_Attempts (finalizeCallPricing C f) = cf_Attempts f" for f
    by (simp_all add: finalizeCallPricing_def Let_def split: option.splits prod.splits)
  have "cd_fact C (finalizeCallPricing C ?f) = Some payload"
    using assms(1) by (auto simp: gatewayFallbackPayload_def Let_def bindE_def orE_def split: sum.splits option.splits)
  moreover have "cf_Attempts ?f = gr_Attempts r @ [interrupted_attempt r (int (length (gr_Attempts r)) + 1) now]"
    using assms(2) by (simp add: fallback_fact_def fallback_attempts_def Let_def)
  moreover have "cf_RequestID ?f = rid" "\<not> cf_NoWork ?f" using assms(2) by (simp_all add: fallback_fact_def Let_def)
  ultimately show ?thesis
    by (intro exI[of _ "finalizeCallPricing C ?f"] exI[of _ "gr_Attempts r"]
          exI[of _ "interrupted_attempt r (int (length (gr_Attempts r)) + 1) now"])
      (simp add: f interrupted_attempt_def Unknown_def)
qed

text \<open>The moments within an attempt: it has no request yet, its request may go out, and it is in flight.\<close>

definition pending :: "('s, 'u) site \<Rightarrow> string \<Rightarrow> ('s, 'u) world \<Rightarrow> bool" where
  "pending site rid w \<longleftrightarrow> sound site rid w \<and> settled w \<and> w_response w = None"

definition cleared :: "('s, 'u) site \<Rightarrow> string \<Rightarrow> attempt \<Rightarrow> ('s, 'u) world \<Rightarrow> bool" where
  "cleared site rid a w \<longleftrightarrow> pending site rid w \<and> held_fallback site rid w \<and> gr_AttemptID (w_result w) \<noteq> '''' \<and>
     gr_CredentialID (w_result w) = att_CredentialID a"

definition in_flight :: "('s, 'u) site \<Rightarrow> string \<Rightarrow> http_answer \<Rightarrow> ('s, 'u) world \<Rightarrow> bool" where
  "in_flight site rid answer w \<longleftrightarrow> sound site rid w \<and> gr_AttemptID (w_result w) \<noteq> '''' \<and>
     (\<exists>ds d. w_sent w = ds @ [d] \<and> list_all2 (settles (NativeProtocol (w_result w))) ds (gr_Attempts (w_result w)) \<and>
        ds_ID d = gr_AttemptID (w_result w) \<and> ds_answer d = answer)"

text \<open>What an execution has to leave.\<close>

definition concludes :: "('s, 'u) site \<Rightarrow> string \<Rightarrow> execution \<times> ('s, 'u) world \<Rightarrow> bool" where
  "concludes site rid res \<longleftrightarrow>
     (case res of ((oc, _, err), w) \<Rightarrow> finished site rid w \<and> (\<not> err \<and> replay_safe oc \<longrightarrow> between site rid w))"

lemma between_pending: "between site rid w \<Longrightarrow> pending site rid w"
  by (simp add: between_def pending_def)

lemma pending_finished: "pending site rid w \<Longrightarrow> finished site rid w"
  by (simp add: pending_def finished_def)

lemma quiet_pending: "quiet site rid w w' \<Longrightarrow> pending site rid w \<Longrightarrow> pending site rid w'"
  using quiet_sound[of site rid w w'] quiet_settled[of site rid w w'] by (simp add: pending_def) (simp add: quiet_def aspects_def)

lemma refused_concludes: "pending site rid w \<Longrightarrow> concludes site rid (refused e w)"
  by (simp add: concludes_def refused_def pending_finished)

lemma between_concludes: "between site rid w \<Longrightarrow> concludes site rid ((oc, public, err), w)"
  by (simp add: concludes_def between_finished)

lemma in_flight_fields:
  "in_flight site rid answer w \<Longrightarrow> w_store w' = w_store w \<Longrightarrow> w_result w' = w_result w \<Longrightarrow> w_sent w' = w_sent w \<Longrightarrow>
   in_flight site rid answer w'"
  by (simp add: in_flight_def sound_def)

lemma close_response_fields [simp]:
  "w_store (close_response h resp fails w) = w_store w" "w_result (close_response h resp fails w) = w_result w"
  "w_sent (close_response h resp fails w) = w_sent w"
  by (simp_all add: close_response_def on_sources_def split: option.splits)

lemma send_request_in_flight:
  assumes "cleared site rid a w" "send_request site a prep w = (answer, w')"
  shows "in_flight site rid answer w'"
proof -
  let ?v = "others site w"
  have still: "still site rid w ?v" by (rule others_still)
  have p: "pending site rid ?v" "held_fallback site rid ?v"
    using assms(1) quiet_pending[OF still_quiet[OF still]] held_fallback_still[OF still]
    by (auto simp: cleared_def pending_def sound_def)
  define d where "d = \<lparr>ds_attempt = a, ds_request = ga_request prep, ds_ID = gr_AttemptID (w_result w), ds_store = w_store ?v, ds_answer = answer\<rparr>"
  have w': "w_store w' = w_store ?v" "w_result w' = w_result w" "w_sent w' = w_sent w @ [d]"
    using assms(2) by (auto simp: send_request_def Let_def d_def split: prod.splits option.splits if_splits)
  obtain now payload where h: "gatewayFallbackPayload (si_codec site) rid (w_result w) now = Inr payload"
    "facts (si_bolt site) (w_store ?v) rid = Some (Held payload)" using p(2) by (auto simp: held_fallback_def)
  have id: "gr_AttemptID (w_result w) \<noteq> ''''" "gr_CredentialID (w_result w) = att_CredentialID a" using assms(1) by (simp_all add: cleared_def)
  have "noted site rid d" using fallback_in_flight[OF h(1) id(1)] h(2) id by (auto simp: noted_def d_def)
  then show ?thesis using p(1) w' id(1) by (auto simp: in_flight_def pending_def sound_def settled_def d_def)
qed

lemma finish_between:
  assumes "in_flight site rid answer w"
    "out_Work oc = NotSent \<or> out_Work oc = RejectedWithoutWork \<Longrightarrow> no_work_answer (NativeProtocol (w_result w)) answer"
    "finishGatewayFailedAttempt site rid a oc public evidence status code w = (res, w')"
  shows "between site rid w'"
proof -
  let ?c = "failed_attempt (w_result w) a oc evidence status code (si_now site (w_out w))"
  define w1 where "w1 = (on_result (\<lambda>r. r\<lparr>gr_Attempts := gr_Attempts r @ [?c], gr_AttemptID := '''', gr_AttemptStartedAt := None\<rparr>) w)\<lparr>w_response := None\<rparr>"
  obtain err where c: "checkpoint site rid w1 = (err, w')"
    using assms(3) by (auto simp: finishGatewayFailedAttempt_def Let_def failed_attempt_def on_result_def w1_def split: prod.splits)
  obtain ds d where f: "w_sent w = ds @ [d]" "list_all2 (settles (NativeProtocol (w_result w))) ds (gr_Attempts (w_result w))"
    "ds_ID d = gr_AttemptID (w_result w)" "ds_answer d = answer" "sound site rid w"
    using assms(1) by (auto simp: in_flight_def)
  have "settles (NativeProtocol (w_result w)) d ?c" using assms(2) f(3,4) by (auto simp: settles_def failed_attempt_def)
  then have "between site rid w1"
    using f by (auto simp: between_def sound_def settled_def w1_def on_result_def NativeProtocol_def list_all2_appendI)
  then show ?thesis using quiet_moments(1)[OF checkpoint_effect(1)[OF c]] by blast
qed

text \<open>The classification of a failed answer claims that no work was done only with its proof.\<close>

lemma readGatewayHTTPFailure_work:
  assumes "out_Work (cl_Outcome (fst (readGatewayHTTPFailure resp proto))) = NotSent \<or>
      out_Work (cl_Outcome (fst (readGatewayHTTPFailure resp proto))) = RejectedWithoutWork"
  shows "no_work_answer proto (Answered resp fails)"
proof -
  have "replay_safe (cl_Outcome (classifyGatewayHTTPFailure proto status body))"
    if "out_Work (cl_Outcome (classifyGatewayHTTPFailure proto status body)) = NotSent \<or>
        out_Work (cl_Outcome (classifyGatewayHTTPFailure proto status body)) = RejectedWithoutWork" for status body
    using that
    by (cases rule: classify_cases[of proto status body])
      (simp_all add: unclassified_def plain_outcome_def retryableGatewayRejection_def replay_safe_def Unknown_def NotSent_def RejectedWithoutWork_def)
  then have "replay_safe (cl_Outcome (fst (readGatewayHTTPFailure resp proto)))"
    using assms
    by (cases "resp_Body resp")
      (simp_all add: readGatewayHTTPFailure_def Let_def unclassified_def plain_outcome_def Unknown_def NotSent_def RejectedWithoutWork_def)
  from readGatewayHTTPFailure_proves[OF this] show ?thesis
    unfolding no_work_answer_def by blast
qed

lemma unknown_work: "out_Work (plain_outcome f Unknown) \<noteq> NotSent" "out_Work (plain_outcome f Unknown) \<noteq> RejectedWithoutWork"
  by (simp_all add: plain_outcome_def Unknown_def NotSent_def RejectedWithoutWork_def)

lemma transport_failed_between:
  assumes "in_flight site rid (Failed err resp fails) w" "transport_failed site rid a err w = (res, w')"
  shows "between site rid w'"
proof -
  have h: "in_flight site rid (Failed err resp fails) (w\<lparr>w_health := h\<rparr>)" for h
    by (rule in_flight_fields[OF assms(1)]) simp_all
  have p: "no_work_answer proto (Failed PreRequestFailure resp fails)" for proto
    unfolding no_work_answer_def by blast
  show ?thesis
  proof (cases "si_ctx site (w_out w) = None \<and> err = PreRequestFailure")
    case True
    then show ?thesis
      using assms(2) finish_between[OF h, of "plain_outcome ConnectionFailure NotSent"] p
      unfolding transport_failed_def Let_def by simp
  next
    case False
    then obtain public code where
      "finishGatewayFailedAttempt site rid a (plain_outcome PermanentFailure Unknown) public ''transport_ambiguous'' 0 code w = (res, w')"
      using assms(2) unfolding transport_failed_def Let_def by (cases "si_ctx site (w_out w)") auto
    from finish_between[OF assms(1) _ this] show ?thesis by (simp add: unknown_work)
  qed
qed

lemma answered_concludes:
  assumes "in_flight site rid (Answered resp fails) w" "w_response w = Some resp"
  shows "concludes site rid (answered site rid a prep resp fails w)"
proof -
  define w1 where "w1 = (close_response (ga_holder prep) resp fails w)\<lparr>w_response := None\<rparr>"
  have f: "in_flight site rid (Answered resp fails) w1"
    by (rule in_flight_fields[OF assms(1)]) (simp_all add: w1_def)
  have same: "NativeProtocol (w_result w1) = NativeProtocol (w_result w)" by (simp add: w1_def)
  have finish: "concludes site rid (finishGatewayFailedAttempt site rid a oc public evidence status code v)"
    if "in_flight site rid (Answered resp fails) v"
      "out_Work oc = NotSent \<or> out_Work oc = RejectedWithoutWork \<Longrightarrow> no_work_answer (NativeProtocol (w_result v)) (Answered resp fails)"
    for oc public evidence status code v
    using finish_between[OF that] between_concludes
    by (cases "finishGatewayFailedAttempt site rid a oc public evidence status code v") (auto simp: concludes_def between_finished)
  let ?status = "resp_StatusCode resp"
  let ?media = "si_media site (resp_ContentType resp) = Some (if gr_Stream (w_result w) then ''text/event-stream'' else ''application/json'')"
  consider (failed) "?status < 200 \<or> ?status \<ge> 300" | (media) "\<not> (?status < 200 \<or> ?status \<ge> 300)" "\<not> ?media"
    | (works) "\<not> (?status < 200 \<or> ?status \<ge> 300)" ?media by blast
  then show ?thesis
  proof cases
    case failed
    obtain cl public where cl: "readGatewayHTTPFailure resp (NativeProtocol (w_result w)) = (cl, public)" by (metis surj_pair)
    have work: "out_Work (cl_Outcome cl) = NotSent \<or> out_Work (cl_Outcome cl) = RejectedWithoutWork \<Longrightarrow>
        no_work_answer (NativeProtocol (w_result w)) (Answered resp fails)"
      using readGatewayHTTPFailure_work[of resp "NativeProtocol (w_result w)" fails] cl by simp
    define w2 where "w2 = (if out_Failure (cl_Outcome cl) = CredentialRejected
        then w1\<lparr>w_health := markGatewayCredentialRejected (att_CredentialID a) (si_now site (w_out w1)) (w_health w1)\<rparr> else w1)"
    have "in_flight site rid (Answered resp fails) w2" by (rule in_flight_fields[OF f]) (simp_all add: w2_def)
    moreover have "NativeProtocol (w_result w2) = NativeProtocol (w_result w)" by (simp add: w2_def same)
    ultimately have "concludes site rid (finishGatewayFailedAttempt site rid a (cl_Outcome cl) public (cl_EvidenceCode cl) ?status (gatewayErrorCode public) w2)"
      using work by (intro finish) simp_all
    moreover have "answered site rid a prep resp fails w =
        finishGatewayFailedAttempt site rid a (cl_Outcome cl) public (cl_EvidenceCode cl) ?status (gatewayErrorCode public) w2"
      unfolding w2_def w1_def answered_def Let_def using failed cl by simp
    ultimately show ?thesis by simp
  next
    case media
    have "concludes site rid (finishGatewayFailedAttempt site rid a (plain_outcome PermanentFailure Unknown)
          (GatewayError 502 ''invalid_upstream_response'', None) ''upstream_response'' ?status ''invalid_upstream_response'' w1)"
      by (rule finish[OF f]) (simp add: unknown_work)
    then show ?thesis using media unfolding answered_def Let_def w1_def by simp
  next
    case works
    obtain ds d where d: "w_sent w = ds @ [d]" "list_all2 (settles (NativeProtocol (w_result w))) ds (gr_Attempts (w_result w))"
      "ds_ID d = gr_AttemptID (w_result w)" "ds_answer d = Answered resp fails" "sound site rid w" "gr_AttemptID (w_result w) \<noteq> ''''"
      using assms(1) by (auto simp: in_flight_def)
    have "accepted site (w\<lparr>w_health := h\<rparr>)" for h
      unfolding accepted_def
      by (intro exI[of _ ds] exI[of _ d] exI[of _ resp] exI[of _ fails]) (use d assms(2) works in simp)
    moreover have "sound site rid (w\<lparr>w_health := h\<rparr>)" for h using d(5) by (simp add: sound_def)
    moreover have "\<not> replay_safe (plain_outcome Success Completed)" by (simp add: replay_safe_def plain_outcome_def)
    ultimately show ?thesis using works by (simp add: answered_def Let_def concludes_def finished_def)
  qed
qed

lemma dispatch_concludes:
  assumes "cleared site rid a w"
  shows "concludes site rid (dispatch_attempt site rid a prep w)"
proof -
  obtain answer w1 where s: "send_request site a prep w = (answer, w1)" by fastforce
  note f = send_request_in_flight[OF assms s]
  show ?thesis
  proof (cases answer)
    case (Answered resp fails)
    have "in_flight site rid (Answered resp fails) (w1\<lparr>w_response := Some resp\<rparr>)"
      by (rule in_flight_fields[OF f[unfolded Answered]]) simp_all
    from answered_concludes[OF this] show ?thesis using s Answered by (simp add: dispatch_attempt_def)
  next
    case (Failed err resp fails)
    define w2 where "w2 = (case resp of None \<Rightarrow> w1\<lparr>w_response := resp\<rparr>
      | Some x \<Rightarrow> if resp_Body x = None then w1\<lparr>w_response := resp\<rparr> else close_response (ga_holder prep) x fails (w1\<lparr>w_response := resp\<rparr>))"
    have "in_flight site rid (Failed err resp fails) w2"
      by (rule in_flight_fields[OF f[unfolded Failed]]) (simp_all add: w2_def split: option.splits)
    moreover obtain res w3 where t: "transport_failed site rid a err w2 = (res, w3)" by fastforce
    ultimately have "between site rid w3" by (rule transport_failed_between)
    moreover have "dispatch_attempt site rid a prep w = (res, w3)"
      using s Failed t by (simp add: dispatch_attempt_def w2_def Let_def)
    ultimately show ?thesis using between_concludes by (cases res) auto
  qed
qed

text \<open>An attempt that is found eligible is the one of its route.\<close>

lemma gateway_eligible_route:
  assumes "gateway_eligible site p a w = (Inr True, w')" "Candidate p a = Some (route, credential)"
  shows "rt_CredentialID route = att_CredentialID a"
  using assms
  by (auto simp: gateway_eligible_def gatewayAttemptEligible_def route_eligible_def Let_def
           split: prod.splits option.splits if_splits)

lemma reauthorizePrepared_route:
  assumes "reauthorizePreparedGatewayAttempt site p a w = (None, w')" "Candidate p a = Some (route, credential)"
  shows "rt_CredentialID route = att_CredentialID a"
proof -
  obtain w1 where "gateway_eligible site p a w = (Inr True, w1)"
    using assms(1) by (auto simp: reauthorizePreparedGatewayAttempt_def split: prod.splits sum.splits if_splits)
  then show ?thesis using assms(2) by (rule gateway_eligible_route)
qed

lemma start_concludes:
  assumes "between site rid w" "rt_CredentialID (ga_route prep) = att_CredentialID a"
  shows "concludes site rid (start_attempt site rid p a prep w)"
proof -
  obtain aid u where n: "si_id site (w_out w) = (aid, u)" by fastforce
  define w1 where "w1 = on_result (\<lambda>r. r\<lparr>gr_AttemptID := aid\<rparr>) (w\<lparr>w_out := u\<rparr>)"
  define w2 where "w2 = on_result (\<lambda>r. (applyGatewayAttemptRoute (ga_route prep) r)\<lparr>gr_AttemptStartedAt := Some (si_now site u)\<rparr>) w1"
  have p1: "pending site rid w1" "pending site rid w2"
    using assms(1)
    by (cases "gr_Protocol (w_result w) = []";
        simp add: between_def pending_def sound_def settled_def w1_def w2_def on_result_def NativeProtocol_def applyGatewayAttemptRoute_def)+
  show ?thesis
  proof (cases "aid = ''''")
    case True
    then show ?thesis using n p1(1) refused_concludes by (simp add: start_attempt_def w1_def Let_def)
  next
    case False
    obtain x w3 where c: "checkpoint site rid w2 = (x, w3)" by fastforce
    obtain y w4 where r: "reauthorizePreparedGatewayAttempt site p a w3 = (y, w4)" by fastforce
    define w5 where "w5 = on_result (\<lambda>r. r\<lparr>gr_AttemptID := '''', gr_AttemptStartedAt := None\<rparr>) w4"
    obtain z w6 where c2: "checkpoint site rid w5 = (z, w6)" by fastforce
    have start: "start_attempt site rid p a prep w =
        (case x of Some e \<Rightarrow> refused e w3
         | None \<Rightarrow> (case y of None \<Rightarrow> dispatch_attempt site rid a prep w4
            | Some e \<Rightarrow> (case z of Some c \<Rightarrow> refused c w6 | None \<Rightarrow> refused e w6)))"
      using n False c r c2 by (simp add: start_attempt_def Let_def w1_def w2_def w5_def split: option.splits)
    have p3: "pending site rid w3" by (rule quiet_pending[OF checkpoint_effect(1)[OF c] p1(2)])
    have s4: "still site rid w3 w4" by (rule reauthorizePrepared_still[OF r])
    have p4: "pending site rid w4" by (rule quiet_pending[OF still_quiet[OF s4] p3])
    have "pending site rid w5"
      using p4 by (cases "gr_Protocol (w_result w4) = []")
        (simp_all add: pending_def sound_def settled_def w5_def on_result_def NativeProtocol_def)
    then have p6: "pending site rid w6" by (rule quiet_pending[OF checkpoint_effect(1)[OF c2]])
    show ?thesis
    proof (cases x)
      case (Some e)
      then show ?thesis using start refused_concludes[OF p3] by simp
    next
      case None
      have ok: "site_ok site rid" "live site w2" "live site w3" using p1(2) p3 by (simp_all add: pending_def sound_def)
      have "held_fallback site rid w4"
        using held_fallback_still[OF s4 ok(1,3)] checkpoint_effect(3)[OF c None ok(1,2)] .
      moreover have "gr_AttemptID (w_result w4) = aid" "gr_CredentialID (w_result w4) = att_CredentialID a"
        using s4 checkpoint_effect(2)[OF c] assms(2) by (simp_all add: still_def w2_def w1_def on_result_def applyGatewayAttemptRoute_def)
      ultimately have "cleared site rid a w4" using p4 False by (simp add: cleared_def)
      then show ?thesis using start None dispatch_concludes refused_concludes[OF p6] by (simp split: option.splits)
    qed
  qed
qed

lemma concludes_still:
  assumes "concludes site rid (res, w)" "still site rid w w'"
  shows "concludes site rid (res, w')"
  using assms still_keeps[OF assms(2)] by (auto simp: concludes_def split: prod.splits)

lemma execute_concludes:
  assumes "chosen site rid p a w" "w_current w = Some prep"
  shows "concludes site rid (executeGatewayAttempt site rid p a prep w)"
proof -
  obtain credential where cand: "Candidate p a = Some (ga_route prep, credential)" using assms by (auto simp: chosen_def)
  obtain x w1 where 1: "reauthorize_public site w = (x, w1)" by fastforce
  define w2 where "w2 = others site w1"
  obtain y w3 where 3: "reauthorizePreparedGatewayAttempt site p a w2 = (y, w3)" by fastforce
  define w4 where "w4 = others site w3"
  obtain res w5 where 5: "start_attempt site rid p a prep w4 = (res, w5)" by fastforce
  have b1: "between site rid w1" by (rule still_keeps(1)[OF reauthorize_public_still[OF 1] chosen_between[OF assms(1)]])
  have b2: "between site rid w2" unfolding w2_def by (rule still_keeps(1)[OF others_still b1])
  have b3: "between site rid w3" by (rule still_keeps(1)[OF reauthorizePrepared_still[OF 3] b2])
  have b4: "between site rid w4" unfolding w4_def by (rule still_keeps(1)[OF others_still b3])
  note refused = refused_concludes[OF between_pending]
  have run: "executeGatewayAttempt site rid p a prep w =
      (case x of Some e \<Rightarrow> refused e w1
       | None \<Rightarrow> if \<not> pinConnectionDispatch (si_runtime site (w_out w2)) (si_now site (w_out w2)) (ga_route prep)
          then refused RuntimeUnavailable w2
          else (case y of Some e \<Rightarrow> refused e w3
            | None \<Rightarrow> if \<not> admitUse (ga_holder prep) (w_sources w4) then refused RuntimeUnavailable w4
                else (res, on_sources (releasePlans [ga_holder prep]) w5)))"
    using 1 3 5 by (simp add: executeGatewayAttempt_def Let_def w2_def w4_def split: option.splits)
  have "concludes site rid (res, on_sources (releasePlans [ga_holder prep]) w5)" if "y = None"
  proof (rule concludes_still[OF _ on_sources_still])
    show "concludes site rid (res, w5)"
      using start_concludes[OF b4 reauthorizePrepared_route[OF 3[unfolded that] cand], of p] 5 by simp
  qed
  then show ?thesis using run refused[OF b1] refused[OF b2] refused[OF b3] refused[OF b4] by (simp split: option.splits)
qed

section \<open>The hooks\<close>

lemma hook_fails_quiet: "hook_fails e w = (ok, w') \<Longrightarrow> \<not> ok \<and> quiet site rid w w'"
  by (auto simp: hook_fails_def aspects_def intro!: quiet_fields)

lemma prepare_hook_chosen:
  assumes "between site rid w" "prepare_hook site rid p payload opts a w = (ok, w')"
  shows "if ok then chosen site rid p a w' else finished site rid w'"
proof -
  obtain x w1 where 1: "gateway_eligible site p a w = (x, w1)" by fastforce
  have b1: "between site rid w1" by (rule still_keeps(1)[OF gateway_eligible_still[OF 1] assms(1)])
  have fails: "if ok then chosen site rid p a w' else finished site rid w'"
    if "hook_fails e v = (ok, w')" "between site rid v" for e v
    using hook_fails_quiet[OF that(1), of site rid] quiet_moments(2)[of site rid v w'] between_finished[OF that(2)] by auto
  show ?thesis
  proof (cases "x = Inr True \<and> Candidate p a \<noteq> None")
    case False
    then obtain e where "hook_fails e w1 = (ok, w')"
      using assms(2) 1 by (auto simp: prepare_hook_def split: sum.splits if_splits option.splits)
    then show ?thesis by (rule fails) (rule b1)
  next
    case True
    then obtain route credential where c: "Candidate p a = Some (route, credential)" by auto
    obtain y w2 where 2: "(if att_Number a > 1 then validateGatewayRetryEvidence site p a w1 else (None, w1)) = (y, w2)" by fastforce
    have "still site rid w1 w2" using 2 validateGatewayRetryEvidence_still by (auto split: if_splits)
    then have b2: "between site rid w2" using b1 by (rule still_keeps(1))
    show ?thesis
    proof (cases "\<exists>prep. y = None \<and> prepareGatewayHTTPRequest site rid (w_result w2) payload route credential opts = Inr prep")
      case False
      then obtain e where "hook_fails e w2 = (ok, w')"
        using assms(2) 1 2 c True by (cases y) (auto simp: prepare_hook_def split: sum.splits)
      then show ?thesis by (rule fails) (rule b2)
    next
      case True2: True
      then obtain prep where p: "y = None" "prepareGatewayHTTPRequest site rid (w_result w2) payload route credential opts = Inr prep" by blast
      then have w': "ok" "w' = w2\<lparr>w_current := Some (prep\<lparr>ga_holder := sourceHolder p a\<rparr>)\<rparr>"
        using assms(2) 1 2 c True by (auto simp: prepare_hook_def)
      have "ga_route prep = route"
        using p(2) unfolding prepareGatewayHTTPRequest_def Let_def by (auto split: if_splits option.splits)
      then show ?thesis using w' c b2 by (simp add: chosen_def between_def sound_def settled_def)
    qed
  qed
qed

lemma admit_hook_keeps:
  assumes "admit_hook site rid p a w = (ok, w')"
  shows "quiet site rid w w'"
proof -
  obtain x w1 where 1: "reauthorize_public site w = (x, w1)" by fastforce
  obtain y w2 where 2: "admitPreparedGatewayAttempt site rid p a w1 = (y, w2)" by fastforce
  have q1: "quiet site rid w w1" by (rule still_quiet[OF reauthorize_public_still[OF 1]])
  have q2: "quiet site rid w w2" by (rule quiet_trans[OF q1 admitPrepared_quiet[OF 2]])
  have q3: "quiet site rid w2 (on_result (\<lambda>r. r\<lparr>gr_Admitted := True\<rparr>) w2)" by (rule on_result_quiet) simp
  have fails: "quiet site rid w w'" if "hook_fails e v = (ok, w')" "quiet site rid w v" for e v
    using hook_fails_quiet[OF that(1), of site rid] quiet_trans[OF that(2)] by blast
  show ?thesis
    using assms 1 2 fails[OF _ q1] fails[OF _ q2] quiet_trans[OF q2 q3]
    by (cases x; cases y) (auto simp: admit_hook_def)
qed

lemma execute_hook_concludes:
  assumes "chosen site rid p a w" "execute_hook site rid p a w = ((oc, err), w')"
  shows "finished site rid w' \<and> (\<not> err \<and> replay_safe oc \<longrightarrow> between site rid w')"
proof -
  obtain prep where c: "w_current w = Some prep" using assms(1) by (auto simp: chosen_def)
  obtain oc1 public err1 w1 where e: "executeGatewayAttempt site rid p a prep w = ((oc1, public, err1), w1)" by (metis surj_pair)
  have w': "w' = w1\<lparr>w_lastPublic := public, w_current := None\<rparr>" "oc = oc1" "err = err1"
    using assms(2) c e by (auto simp: execute_hook_def)
  have "finished site rid w' = finished site rid w1" "between site rid w' = between site rid w1"
    by (simp_all add: w' finished_def between_def sound_def settled_def accepted_def)
  then show ?thesis using execute_concludes[OF assms(1) c] e w' by (simp add: concludes_def)
qed

section \<open>The run\<close>

definition gateway_calls ::
  "('s, 'u) site \<Rightarrow> string \<Rightarrow> ('s, 'u) world gateway_plan \<Rightarrow> object \<Rightarrow> messages_headers option \<Rightarrow> ('s, 'u) world calls" where
  "gateway_calls site rid p payload opts =
     \<lparr>c_poll = world_poll site, c_eligible = eligible_hook site p, c_prepare = prepare_hook site rid p payload opts,
      c_admit = admit_hook site rid p, c_execute = execute_hook site rid p\<rparr>"

lemma Run_gateway:
  "Run (Some plan) (Some (world_poll site)) (gateway_hooks site rid p payload opts) w =
     run_loop plan (gateway_calls site rid p payload opts) no_progress no_result w"
  by (simp add: Run_def gateway_hooks_def gateway_calls_def)

text \<open>The plan draws from the site.\<close>

definition drawn :: "('s, 'u) site \<Rightarrow> ('s, 'u) world gateway_plan \<Rightarrow> bool" where
  "drawn site p \<longleftrightarrow> plan_draw (gp_Plan p) = world_random site"

lemma eligible_hook_still: "still site rid w (snd (eligible_hook site p a w))"
proof -
  obtain x w1 where "gateway_eligible site p a w = (x, w1)" by fastforce
  then show ?thesis using gateway_eligible_still by (auto simp: eligible_hook_def split: sum.splits)
qed

interpretation gateway: attempt_run "gp_Plan p" "gateway_calls site rid p payload opts"
    "\<lambda>w. drawn site p \<and> between site rid w" "\<lambda>a w. drawn site p \<and> chosen site rid p a w" "finished site rid"
  for site :: "('s, 'u) site" and rid and p :: "('s, 'u) world gateway_plan" and payload and opts
proof (unfold_locales, goal_cases)
  case (4 w n)
  then have "plan_draw (gp_Plan p) n w = world_random site n w" by (simp add: drawn_def)
  then show ?case using 4 still_keeps(1)[OF world_random_still, of site rid w n] by simp
next
  case (6 w a ok w')
  then show ?case using prepare_hook_chosen[of site rid w p payload opts a ok w'] by (simp add: gateway_calls_def)
next
  case (7 a w ok w')
  then show ?case
    using quiet_moments[OF admit_hook_keeps, of site rid p a w ok w'] between_finished[of site rid w] chosen_between[of site rid p a w]
    by (simp add: gateway_calls_def)
next
  case (8 a w oc err w')
  then show ?case using execute_hook_concludes[of site rid p a w oc err w'] by (auto simp: gateway_calls_def)
qed (auto simp: gateway_calls_def still_keeps[OF world_poll_still] still_keeps[OF eligible_hook_still]
        intro: between_finished chosen_between)

section \<open>The call\<close>

lemma New_drawn: "New crypto proto targets \<lparr>opt_MaxAttempts = n, opt_Draw = None\<rparr> = Inr plan \<Longrightarrow> plan_draw plan = crypto"
  by (auto simp: New_def bindE_def split: if_splits sum.splits prod.splits)

lemma filtered_drawn: "filtered crypto p gs = Inr q \<Longrightarrow> gp_draw p = None \<Longrightarrow> plan_draw (gp_Plan q) = crypto \<and> gp_draw q = None"
  using New_drawn by (fastforce simp: filtered_def bindE_def split: sum.splits)

lemma quota_state_drawn:
  "prepareGatewayAttemptQuotaState site p w = (Inr q, w') \<Longrightarrow> gp_draw p = None \<Longrightarrow> drawn site q"
  using filtered_drawn
  by (fastforce simp: drawn_def prepareGatewayAttemptQuotaState_def prepareGatewayAttemptQuotaBound_def Let_def bindE_def
                split: sum.splits prod.splits if_splits)

lemma attachment_plan_draw: "gatewayAttachmentAttemptPlan site p am = Inr q \<Longrightarrow> gp_draw p = None \<Longrightarrow> gp_draw q = None"
  using filtered_drawn by (fastforce simp: gatewayAttachmentAttemptPlan_def Let_def split: sum.splits if_splits)

lemma run_answer_finished:
  assumes "finished site rid w" "run_answer site end w = (answer, w')"
  shows "finished site rid w' \<and> (answer = None \<longrightarrow> w_response w' \<noteq> None)"
proof -
  obtain run err where r: "end = (run, err)" by (cases "end")
  define w1 where "w1 = on_result (\<lambda>r. r\<lparr>gr_Admitted := (gr_Admitted r \<or> run_Admitted run), gr_RouteStopReason := stop_text (run_Stop run)\<rparr>) w"
  have "quiet site rid w w1" unfolding w1_def by (rule on_result_quiet) simp
  then have f: "finished site rid w1" using assms(1) by (rule quiet_moments(2))
  have w': "w' = w1" using assms(2) r by (simp add: run_answer_def Let_def w1_def)
  have "w_response w1 \<noteq> None" if "answer = None"
    using assms(2) that unfolding r run_answer_def prod.case Let_def w1_def[symmetric] Pair_inject
    by (auto split: if_splits option.splits)
  then show ?thesis using f w' by simp
qed

lemma run_call_finished:
  assumes "run_call site rid payload am opts p w = (answer, w')" "between site rid w" "gp_draw p = None"
  shows "finished site rid w' \<and> (answer = None \<longrightarrow> w_response w' \<noteq> None)"
proof (cases "gatewayAttachmentAttemptPlan site p am")
  case (Inl e)
  then show ?thesis using assms between_finished by (auto simp: run_call_def)
next
  case (Inr p1)
  have d1: "gp_draw p1 = None" by (rule attachment_plan_draw[OF Inr assms(3)])
  obtain x w1 where 1: "prepareGatewayAttemptQuotaState site p1 w = (x, w1)" by fastforce
  have b1: "between site rid w1" by (rule quiet_moments(1)[OF prepareGatewayAttemptQuotaState_quiet[OF 1] assms(2)])
  show ?thesis
  proof (cases x)
    case (Inl e)
    then show ?thesis using assms(1) Inr 1 between_finished[OF b1] by (auto simp: run_call_def)
  next
    case x: (Inr p2)
    have d2: "drawn site p2" by (rule quota_state_drawn[OF 1[unfolded x] d1])
    obtain y w2 where 2: "attach site rid payload am w1 = (y, w2)" by fastforce
    have b2: "between site rid w2" by (rule quiet_moments(1)[OF attach_quiet[OF 2] b1])
    show ?thesis
    proof (cases y)
      case (Inl e)
      then show ?thesis using assms(1) Inr 1 x 2 between_finished[OF b2] by (auto simp: run_call_def)
    next
      case y: (Inr payload1)
      obtain e w3 where 3: "run_loop (gp_Plan p2) (gateway_calls site rid p2 payload1 opts) no_progress no_result w2 = (e, w3)" by fastforce
      have "finished site rid w3" using gateway.run_loop_over[OF _ 3] d2 b2 by blast
      then show ?thesis using assms(1) Inr 1 x 2 y 3 run_answer_finished[of site rid w3 e answer w'] by (simp add: run_call_def Run_gateway)
    qed
  qed
qed

text \<open>The whole call.\<close>

lemma call_finished:
  assumes "between site rid w" "gatewayNativeAttempts site rid payload am opts w = (answer, w')"
  shows "finished site rid w'" "answer = None \<Longrightarrow> \<not> w_panicked w' \<Longrightarrow> w_response w' \<noteq> None"
proof -
  define v where "v = others site (on_result (classified payload am opts) w)"
  have "quiet site rid w (on_result (classified payload am opts) w)"
    by (rule on_result_quiet) (simp add: classified_def Let_def)
  then have v: "between site rid v" unfolding v_def using quiet_moments(1) others_quiet assms(1) by blast
  obtain x reg where plan: "gatewayAttemptPlanWithDraw (si_digests site) (world_random site) (si_runtime site (w_out v)) (si_now site (w_out v))
      (gr_ModelID (w_result v)) (NativeProtocol (w_result v)) None (w_sources v) = (x, reg)" by fastforce
  have sources: "finished site rid (v\<lparr>w_sources := s\<rparr>)" "finished site rid (v\<lparr>w_panicked := b\<rparr>)" for s b
    using quiet_moments(2)[OF still_quiet[OF still_fields], of "v\<lparr>w_sources := s\<rparr>" v]
      quiet_moments(2)[OF still_quiet[OF still_fields], of "v\<lparr>w_panicked := b\<rparr>" v] between_finished[OF v] by simp_all
  have "finished site rid w' \<and> (answer = None \<longrightarrow> \<not> w_panicked w' \<longrightarrow> w_response w' \<noteq> None)"
  proof (cases "\<exists>p0 s. x = Inr p0 \<and> reg = Some s")
    case False
    then show ?thesis
      using assms(2) plan sources
      by (cases reg; cases x) (auto simp: gatewayNativeAttempts_def Let_def v_def[symmetric])
  next
    case True
    then obtain p0 s where p0: "x = Inr p0" "reg = Some s" by blast
    have draw: "gp_draw p0 = None"
      using plan p0 unfolding gatewayAttemptPlanWithDraw_def
      by (auto split: option.splits if_splits prod.splits sum.splits)
    obtain r1 p where i: "identified (si_runtime site (w_out v)) (w_result v) p0 = (r1, p)" by fastforce
    have same: "gp_draw p = gp_draw p0" "(gr_AttemptID r1, gr_Attempts r1, gr_Protocol r1, gr_Stream r1) =
        (gr_AttemptID (w_result v), gr_Attempts (w_result v), gr_Protocol (w_result v), gr_Stream (w_result v))"
      using i by (auto simp: identified_def Let_def split: if_splits option.splits)
    have "quiet site rid v (v\<lparr>w_sources := s, w_result := r1\<rparr>)"
      by (rule quiet_fields) (use same(2) in \<open>simp_all add: aspects_def\<close>)
    then have b: "between site rid (v\<lparr>w_sources := s, w_result := r1\<rparr>)" using v by (rule quiet_moments(1))
    obtain ans w1 where c: "run_call site rid payload am opts p (v\<lparr>w_sources := s, w_result := r1\<rparr>) = (ans, w1)" by fastforce
    have f: "finished site rid w1" "ans = None \<longrightarrow> w_response w1 \<noteq> None"
      using run_call_finished[OF c b] same(1) draw by simp_all
    have w': "answer = ans" "w' = on_sources (releaseSources (gp_candidates p0)) w1"
      using assms(2) plan p0 i c by (simp_all add: gatewayNativeAttempts_def Let_def v_def[symmetric])
    have "w_response w' = w_response w1" by (simp add: w' on_sources_def split: option.splits)
    moreover have "finished site rid w'" unfolding w' by (rule still_keeps(2)[OF on_sources_still f(1)])
    ultimately show ?thesis using f(2) w'(1) by simp
  qed
  then show "finished site rid w'" "answer = None \<Longrightarrow> \<not> w_panicked w' \<Longrightarrow> w_response w' \<noteq> None" by blast+
qed

end
