(* ===== verification/Call_Demo.thy ===== *)
theory Call_Demo
  imports Gateway_Dispatch Runtime_Claims
begin

text \<open>
  A concrete gateway call on the journal in memory, with which the properties of \<open>Call_Claims\<close> are tried:
  one route with one credential on Anthropic Messages, no limits or quotas, and a network that gives a
  fixed answer. The first steps of the call are evaluated here: its plan, the checks, the bound and the
  facts it writes.
\<close>

section \<open>A concrete call\<close>

definition call_route :: "string \<Rightarrow> int \<Rightarrow> gateway_route" where
  "call_route n weight =
     \<lparr>rt_ProviderModelBirth = Some 1, rt_CapabilityTransportGeneration = [], rt_ProviderModelRevision = ''r'',
      rt_ConnectionTransportGeneration = ''0'', rt_CapabilitiesTransportCurrent = True, rt_Adapter = AdapterNative,
      rt_APIVersion = None, rt_Client = True, rt_EgressGeneration = 0, rt_EgressRevision = ''e'', rt_Protocol = ProtocolAnthropicMessages,
      rt_Disabled = False, rt_PriceBasis = None, rt_SnapshotID = [], rt_BindingID = ''bnd'' @ n, rt_Weight = weight,
      rt_ProviderID = [], rt_ProviderBirth = Some 1, rt_ProviderEnabled = True, rt_ProviderRevision = ''r'',
      rt_ProviderName = [], rt_ProviderModelID = ''pm'' @ n, rt_ConnectionBirth = Some 1, rt_ConnectionEnabled = True,
      rt_ConnectionID = ''con'' @ n, rt_ConnectionName = [], rt_CredentialID = [], rt_UpstreamName = [],
      rt_BaseURL = ''https://'' @ n, rt_SupportsImageInput = False, rt_SupportsPDFInput = False\<rparr>"

definition call_credential :: "string \<Rightarrow> runtime_credential" where
  "call_credential n =
     \<lparr>rc_StorageSource = ''database'', rc_SourceKey = no_key, rc_ID = ''cred'' @ n, rc_CipherHash = [], rc_Plaintext = ''secret'' @ n,
      rc_Priority = 0, rc_CreatedAt = Some 1\<rparr>"

definition call_auth :: runtime_authorization where
  "call_auth =
     \<lparr>ra_Connections = (\<lambda>_. Some \<lparr>cp_TransportGeneration = ''0'', cp_ProviderID = [], cp_Birth = Some 1, cp_Enabled = True\<rparr>),
      ra_Providers = (\<lambda>_. Some \<lparr>pp_Birth = Some 1, pp_Enabled = True, pp_Revision = ''r''\<rparr>),
      ra_PersonalGrantStates = (\<lambda>_. None), ra_PersonalModels = (\<lambda>_ _. True), ra_UserAdmissions = (\<lambda>_. None),
      ra_ProviderModelRevisions = (\<lambda>_. ''r''), ra_ConnectionRevisions = (\<lambda>_. ''e''), ra_ValidUntil = now0 + 1,
      ra_Keys = [], ra_KeysByID = (\<lambda>_. None),
      ra_Names = (\<lambda>n. Some \<lparr>nm_Name = n, nm_ModelID = n, nm_CurrentModelID = Some n, nm_ExpiresAt = None\<rparr>),
      ra_Models = (\<lambda>_. True), ra_Credentials = (\<lambda>_. True), ra_ProviderModels = (\<lambda>_. True), ra_CredentialAccess = (\<lambda>_ _. True),
      ra_publicationEpoch = 0\<rparr>"

definition call_runtime :: gateway_runtime where
  "call_runtime =
     \<lparr>rn_auth = Some call_auth,
      rn_routes = Some \<lparr>ro_ID = ''snap'', ro_Digest = ''d'',
        ro_Models = (\<lambda>_. map (\<lambda>(n, weight). \<lparr>rr_Route = call_route n weight, rr_Credentials = [call_credential n]\<rparr>) [(''1'', 100)])\<rparr>,
      rn_epoch = 0, rn_denied = (\<lambda>_ _. None)\<rparr>"

definition call_site :: "http_answer \<Rightarrow> (mem, nat) site" where
  "call_site answer =
     \<lparr>si_env = demo_env, si_queue = demo_queue, si_bolt = mem_bolt, si_codec = demo_codec, si_digests = demo_digests,
      si_rows = (\<lambda>_. ''rows''), si_recorder = True, si_intent = (\<lambda>_. True), si_others = (\<lambda>x. x), si_now = (\<lambda>_. now0),
      si_ctx = (\<lambda>_. None), si_runtime = (\<lambda>_. call_runtime), si_egress = (\<lambda>_. 0),
      si_sessions = (\<lambda>_. \<lparr>sc_personal = (\<lambda>_. None), sc_team = (\<lambda>_. None)\<rparr>),
      si_policies = (\<lambda>_ _. Inr ([], [], \<lparr>qd_TimeZone = ''UTC'', qd_Bounds = [], qd_Currency = []\<rparr>)),
      si_random = (\<lambda>n u. (Some 0, u)), si_id = (\<lambda>u. (''att1'', u)), si_do = (\<lambda>q u. (answer, u)),
      si_media = Some, si_base = Some, si_azure = (\<lambda>_ _ _ _ _. None)\<rparr>"

definition call_start :: "(mem, nat) world" where
  "call_start =
     \<lparr>w_store = demo_start, w_sources = new_registry, w_health = \<lparr>h_connections = [], h_credentials = []\<rparr>, w_out = 0,
      w_result = demo_result\<lparr>gr_Protocol := ProtocolAnthropicMessages, gr_key := False, gr_admissionQuota := [], gr_KeyID := []\<rparr>,
      w_response = None, w_current = None, w_hookErr = None, w_lastPublic = None, w_panicked = False, w_sent = []\<rparr>"

definition call_attachments :: "nat attachments" where
  "call_attachments = \<lparr>am_any = False, am_detached = None, am_route = (\<lambda>_. True), am_resolve = (\<lambda>_ u. (Inl ErrInternal, u))\<rparr>"

definition call_headers :: messages_headers where "call_headers = \<lparr>mh_Version = ''2023-06-01'', mh_Beta = []\<rparr>"

definition call_made :: "http_answer \<Rightarrow> public_error option \<times> (mem, nat) world" where
  "call_made answer = gatewayNativeAttempts (call_site answer) ''req1'' (Some []) call_attachments (Some call_headers) call_start"

section \<open>The call, step by step\<close>

lemma call_site_simps [simp]:
  "si_env (call_site a) = demo_env" "si_queue (call_site a) = demo_queue" "si_bolt (call_site a) = mem_bolt"
  "si_codec (call_site a) = demo_codec" "si_digests (call_site a) = demo_digests" "si_recorder (call_site a)"
  "si_intent (call_site a) z" "si_others (call_site a) x = x" "si_now (call_site a) u = now0" "si_ctx (call_site a) u = None"
  "si_runtime (call_site a) u = call_runtime" "si_egress (call_site a) u = 0"
  "si_sessions (call_site a) u = \<lparr>sc_personal = (\<lambda>_. None), sc_team = (\<lambda>_. None)\<rparr>"
  "si_policies (call_site a) r u = Inr ([], [], \<lparr>qd_TimeZone = ''UTC'', qd_Bounds = [], qd_Currency = []\<rparr>)"
  "si_random (call_site a) n u = (Some 0, u)" "si_id (call_site a) u = (''att1'', u)" "si_do (call_site a) q u = (a, u)"
  "si_media (call_site a) m = Some m" "si_base (call_site a) m = Some m"
  by (simp_all add: call_site_def)

lemma call_others [simp]: "others (call_site a) w = w"
  by (simp add: others_def)

lemma call_site_ok: "site_ok (call_site a) rid"
  by (simp add: site_ok_def mem.bolt_axioms demo_env_ok demo_times)

lemma call_runtime_simps [simp]:
  "valid_auth call_runtime now0 = Some call_auth" "\<not> runtimeDenied call_runtime kind x"
  "rn_routes call_runtime = Some \<lparr>ro_ID = ''snap'', ro_Digest = ''d'',
     ro_Models = (\<lambda>_. [\<lparr>rr_Route = call_route ''1'' 100, rr_Credentials = [call_credential ''1'']\<rparr>])\<rparr>"
  by (simp_all add: call_runtime_def call_auth_def valid_auth_def runtimeDenied_def)

definition call_candidate :: gateway_candidate where
  "call_candidate = plan_candidate ProtocolAnthropicMessages ''snap'' (call_route ''1'' 100) (call_credential ''1'') None"

definition call_target :: target where
  "call_target = plan_target ProtocolAnthropicMessages (call_route ''1'' 100) [call_candidate]"

definition call_tried :: "int \<Rightarrow> attempt" where
  "call_tried n = (gc_attempt call_candidate)\<lparr>att_Number := n\<rparr>"

definition call_plan :: "http_answer \<Rightarrow> string list option \<Rightarrow> (mem, nat) world gateway_plan" where
  "call_plan a allowed =
     \<lparr>gp_personalGrantRevision = [],
      gp_Plan = \<lparr>plan_protocol = ProtocolAnthropicMessages,
                 plan_targets = [call_target],
                 plan_maxAttempts = MaxAttempts, plan_draw = world_random (call_site a)\<rparr>,
      gp_modelID = ''model'', gp_protocol = ProtocolAnthropicMessages, gp_snapshotID = ''snap'', gp_userID = [],
      gp_projectID = ''proj'', gp_keyID = [], gp_team = False, gp_personal = False, gp_candidates = [call_candidate],
      gp_draw = None, gp_allowed = allowed\<rparr>"

lemma call_target_kept:
  "case foldE (target_step ProtocolAnthropicMessages) [call_target] ([], [], []) of Inl _ \<Rightarrow> False | Inr (_, _, kept) \<Rightarrow> kept = [call_target]"
  by code_simp

lemma call_New:
  "New crypto ProtocolAnthropicMessages [call_target]
     \<lparr>opt_MaxAttempts = MaxAttempts, opt_Draw = None\<rparr> =
   Inr \<lparr>plan_protocol = ProtocolAnthropicMessages,
        plan_targets = [call_target],
        plan_maxAttempts = MaxAttempts, plan_draw = crypto\<rparr>"
  using call_target_kept
  by (auto simp: New_def bindE_def ProtocolAnthropicMessages_def MaxAttempts_def maxTargets_def split: sum.splits)

lemma call_plan_made:
  "gatewayAttemptPlanWithDraw demo_digests (world_random (call_site a)) call_runtime now0 ''model'' ProtocolAnthropicMessages None r =
     (Inr ((call_plan a None)\<lparr>gp_projectID := []\<rparr>), Some r)"
  using call_New[of "world_random (call_site a)"]
  by (simp add: gatewayAttemptPlanWithDraw_def call_auth_def call_route_def call_credential_def call_candidate_def call_plan_def call_target_def)

text \<open>The checks succeed on every world of the call.\<close>

lemma call_candidate_of [simp]:
  "gatewayAttemptCandidateFor (call_plan a allowed) (call_tried n) = Some call_candidate"
  "Candidate (call_plan a allowed) (call_tried n) = Some (gc_route call_candidate, ''secret1'')"
  "sourceHolder (call_plan a allowed) (call_tried n) = None"
  by (simp_all add: gatewayAttemptCandidateFor_def Candidate_def sourceHolder_def call_plan_def call_tried_def call_candidate_def
        plan_candidate_def plan_attempt_def gatewayAttemptKey_def call_credential_def)

lemma call_route_eligible: "route_eligible call_runtime call_auth 0 (call_plan a allowed) (gc_route call_candidate) (call_tried n)"
  by (simp add: route_eligible_def call_plan_def call_candidate_def plan_candidate_def plan_attempt_def unbound_def call_tried_def
        call_route_def call_credential_def call_auth_def runtimeConnectionAllowed_def runtimeProviderAllowed_def
        runtimeProviderMatches_def validTransportGeneration_def)

definition call_key :: string where "call_key = gatewayAttemptKey (gc_attempt call_candidate)"

lemma call_key_of [simp]: "gatewayAttemptKey (call_tried n) = call_key" "attemptKey (call_tried n) = call_key"
  by (simp_all add: call_key_def call_tried_def gatewayAttemptKey_def attemptKey_def)

lemma call_eligible:
  assumes "allowed = None \<or> allowed = Some [call_key]" "w_health w = \<lparr>h_connections = [], h_credentials = []\<rparr>"
  shows "gateway_eligible (call_site a) (call_plan a allowed) (call_tried n) w = (Inr True, w)"
proof -
  have "gp_allowed (call_plan a allowed) = allowed" "\<not> gp_personal (call_plan a allowed)" "\<not> gp_team (call_plan a allowed)"
    "gp_keyID (call_plan a allowed) = []" "gp_snapshotID (call_plan a allowed) = ''snap''"
    by (simp_all add: call_plan_def)
  moreover have "gatewayAttemptHealthy x y now0 \<lparr>h_connections = [], h_credentials = []\<rparr> = (True, \<lparr>h_connections = [], h_credentials = []\<rparr>)" for x y
    by (simp add: gatewayAttemptHealthy_def pruneGatewayAttemptHealth_def prune_cooldowns_def)
  ultimately show ?thesis
    using assms call_route_eligible[of a allowed n]
    by (cases w) (auto simp: gateway_eligible_def gatewayAttemptEligible_def admitUse_def session_error_def)
qed

lemma call_public:
  assumes "\<not> gr_personal (w_result w)" "\<not> gr_team (w_result w)" "\<not> gr_key (w_result w)"
    "gr_ModelName (w_result w) = ''model''" "gr_ModelID (w_result w) = ''model''"
  shows "reauthorize_public (call_site a) w = (None, w)"
  using assms
  by (simp add: reauthorize_public_def reauthorizeGatewayPublicName_def session_error_def runtimeModelName_def call_auth_def)

text \<open>The results of the call in the order in which it makes them: classified, with its bound, admitted, in
  flight, and after a failure that sent nothing.\<close>

definition call_classified :: gateway_result where
  "call_classified = classified (Some []) call_attachments (Some call_headers) (w_result call_start)"

definition call_bounded :: gateway_result where
  "call_bounded = call_classified\<lparr>gr_admissionLimits := [], gr_admissionQuota := [],
     gr_quotaBound := \<lparr>qb_Tokens = None, qb_Money = None, qb_Currency = [], qb_Revision = [], qb_PriceRevision = [], qb_BasisDigest = []\<rparr>,
     gr_quotaTimeZone := ''UTC'', gr_attemptEvidence := [(call_key, no_evidence call_candidate)], gr_admissionAllowed := [call_key]\<rparr>"

definition call_sending :: gateway_result where
  "call_sending = (applyGatewayAttemptRoute (gc_route call_candidate) (call_bounded\<lparr>gr_Admitted := True, gr_AttemptID := ''att1''\<rparr>))
     \<lparr>gr_AttemptStartedAt := Some now0\<rparr>"

definition call_failed :: gateway_result where
  "call_failed = call_sending\<lparr>gr_Attempts := [failed_attempt call_sending (call_tried 1) (plain_outcome ConnectionFailure NotSent)
       ''pre_request_connection'' 0 ''upstream_error'' now0], gr_AttemptID := [], gr_AttemptStartedAt := None\<rparr>"

definition noted_in :: "gateway_result \<Rightarrow> bool" where
  "noted_in r \<longleftrightarrow> (case gatewayFallbackPayload demo_codec ''req1'' r (Some now0) of Inl _ \<Rightarrow> False | Inr p \<Rightarrow> p = ''req1'')"

lemma call_bounded_noted: "noted_in call_bounded"
  by code_simp

lemma call_sending_noted: "noted_in call_sending"
  by code_simp

lemma call_failed_noted: "noted_in call_failed"
  by code_simp

definition call_reserved :: mem where
  "call_reserved = snd (ReserveWithLimits demo_queue mem_bolt ''req1'' ''req1'' [] now0 demo_start)"

definition call_updated :: "mem \<Rightarrow> mem" where
  "call_updated s = snd (UpdatePending demo_queue mem_bolt ''req1'' ''req1'' s)"

lemma call_reserves: "fst (ReserveWithLimits demo_queue mem_bolt ''req1'' ''req1'' [] now0 demo_start) = Inr ()"
  by code_simp

lemma call_updates: "fst (UpdatePending demo_queue mem_bolt ''req1'' ''req1'' call_reserved) = Inr ()"
  by code_simp

lemma call_updates_again: "fst (UpdatePending demo_queue mem_bolt ''req1'' ''req1'' (call_updated call_reserved)) = Inr ()"
  by code_simp

lemma noted_payload: "noted_in r \<Longrightarrow> gatewayFallbackPayload demo_codec ''req1'' r (Some now0) = Inr ''req1''"
  by (simp add: noted_in_def split: sum.splits)

lemma call_checkpoint:
  assumes "noted_in (w_result w)" "gr_admissionQuota (w_result w) = []"
    "fst (UpdatePending demo_queue mem_bolt ''req1'' ''req1'' (w_store w)) = Inr ()"
  shows "checkpoint (call_site a) ''req1'' w = (None, w\<lparr>w_store := call_updated (w_store w)\<rparr>)"
  using assms noted_payload[OF assms(1)]
  by (cases "UpdatePending demo_queue mem_bolt ''req1'' ''req1'' (w_store w)")
    (auto simp: checkpoint_def CheckpointGatewayCall_def call_updated_def)

lemma no_dimensions [simp]: "gatewayQuotaDimensions [] = (False, False)"
  by (simp add: gatewayQuotaDimensions_def)

lemma call_quota_bound:
  assumes "eligible (call_tried 0) = Inr True" "\<not> gr_PricingUnsupported r" "gatewayQuotaDimensions policies = (False, False)"
  shows "prepareGatewayAttemptQuotaBound demo_codec rows (world_random (call_site a)) eligible (call_plan a allowed) r policies
      \<lparr>qd_TimeZone = ''UTC'', qd_Bounds = [], qd_Currency = []\<rparr> =
    Inr (call_plan a (Some [call_key]), \<lparr>qb_Tokens = None, qb_Money = None, qb_Currency = [], qb_Revision = [], qb_PriceRevision = [], qb_BasisDigest = []\<rparr>)"
proof -
  have g: "gc_attempt call_candidate = call_tried 0"
    by (simp add: call_tried_def call_candidate_def plan_candidate_def plan_attempt_def)
  have t: "fold group_step [call_candidate] [] = [call_target]"
    by (simp add: group_step_def call_target_def plan_target_def call_candidate_def plan_candidate_def plan_attempt_def unbound_def
          call_route_def call_credential_def)
  have plan: "gp_candidates (call_plan a allowed) = [call_candidate]" "gp_protocol (call_plan a allowed) = ProtocolAnthropicMessages"
    "gp_draw (call_plan a allowed) = None" by (simp_all add: call_plan_def)
  have scan: "foldE (scan_candidate demo_codec r d eligible False False) [call_candidate] scan_start =
      Inr \<lparr>bs_retained = [call_candidate], bs_evidence = [(att_TargetID (call_tried 0), no_evidence call_candidate)], bs_maxTokens = 0,
           bs_maxMoney = 0, bs_maxMoneyText = [], bs_currency = [], bs_eligible = 1\<rparr>" for d
    using assms(1) by (simp add: scan_candidate_def g bindE_def scan_start_def gatewayCandidateBoundEvidence_def scan_tokens_def retain_def Let_def)
  have f: "filtered (world_random (call_site a)) (call_plan a allowed) [call_candidate] = Inr (call_plan a (Some [call_key]))"
    using call_New[of "world_random (call_site a)"] t
    by (simp add: filtered_def plan g bindE_def) (simp add: call_plan_def)
  show ?thesis unfolding prepareGatewayAttemptQuotaBound_def assms(3) plan prod.case bindE_def
    by (simp add: scan f plan_bound_def Let_def del: foldE.simps)
qed

end
