(* ===== verification/Call_Claims.thy ===== *)
theory Call_Claims
  imports Call_Demo
begin

text \<open>
  The guarantees of a gateway call as properties of \<open>gatewayNativeAttempts\<close>, and the concrete call of
  \<open>Call_Demo\<close> run to its end: once with an upstream that cannot be reached, once with one that answers.
\<close>

section \<open>Preparation and admission\<close>

definition call_headers_sent :: "(string \<times> string) list" where
  "call_headers_sent = native_headers call_bounded ''secret1'' (Some call_headers)"

definition call_prepared :: prepared where
  "call_prepared = \<lparr>ga_route = gc_route call_candidate, ga_credential = ''secret1'',
     ga_request = finish_request ''req1'' call_bounded
       \<lparr>hq_URL = trim_slashes ''https://1'' @ native_suffix call_bounded (gc_route call_candidate), hq_Headers = call_headers_sent,
        hq_Body = set_members [(''model'', JStr [])] (Some []), hq_untimed = False\<rparr>, ga_holder = None\<rparr>"

definition idle :: "('s, 'u) world \<Rightarrow> bool" where
  "idle w \<longleftrightarrow> w_health w = \<lparr>h_connections = [], h_credentials = []\<rparr>"

lemma call_result_fields [simp]:
  "\<not> gr_personal call_bounded" "\<not> gr_team call_bounded" "\<not> gr_key call_bounded" "gr_ModelName call_bounded = ''model''"
  "gr_ModelID call_bounded = ''model''" "gr_Protocol call_bounded = ProtocolAnthropicMessages" "gr_admissionQuota call_bounded = []"
  "gr_admissionLimits call_bounded = []" "gr_admissionAllowed call_bounded = [call_key]"
  "gr_AttemptID call_bounded = []" "gr_Attempts call_bounded = []" "\<not> gr_Stream call_bounded"
  by (simp_all add: call_bounded_def call_classified_def classified_def Let_def call_start_def demo_result_def)

lemma call_priced [simp]: "\<not> gr_PricingUnsupported call_classified" "\<not> gr_PricingUnsupported call_bounded"
  by code_simp+

lemma call_pinned [simp]: "pinConnectionDispatch call_runtime now0 (gc_route call_candidate)"
  by (simp add: pinConnectionDispatch_def runtimeConnectionAllowed_def runtimeProviderAllowed_def runtimeProviderMatches_def
        call_auth_def call_candidate_def plan_candidate_def unbound_def call_route_def validTransportGeneration_def)

lemma call_route_fields [simp]:
  "rt_Client (gc_route call_candidate)" "rt_BaseURL (gc_route call_candidate) = ''https://1''"
  "rt_UpstreamName (gc_route call_candidate) = []" "rt_Adapter (gc_route call_candidate) = AdapterNative"
  "rt_EgressGeneration (gc_route call_candidate) = 0" "rt_EgressRevision (gc_route call_candidate) = ''e''"
  "rt_CredentialID (gc_route call_candidate) = ''cred1''"
  by (simp_all add: call_candidate_def plan_candidate_def unbound_def call_route_def call_credential_def)

lemma call_prepares:
  assumes "idle w" "w_result w = call_bounded"
  shows "prepare_hook (call_site a) ''req1'' (call_plan a (Some [call_key])) (Some []) (Some call_headers) (call_tried 1) w =
    (True, w\<lparr>w_current := Some call_prepared\<rparr>)"
proof -
  have e: "gateway_eligible (call_site a) (call_plan a (Some [call_key])) (call_tried 1) w = (Inr True, w)"
    by (rule call_eligible) (use assms(1) in \<open>simp_all add: idle_def\<close>)
  have n: "\<not> att_Number (call_tried 1) > 1" by (simp add: call_tried_def)
  have np: "NativeProtocol call_bounded = ProtocolAnthropicMessages" "ProtocolAnthropicMessages \<noteq> ProtocolGeminiGenerateContent"
    "AdapterNative \<noteq> AdapterAzureOpenAIClassic"
    by (simp_all add: NativeProtocol_def ProtocolAnthropicMessages_def ProtocolGeminiGenerateContent_def AdapterNative_def AdapterAzureOpenAIClassic_def)
  have p: "prepareGatewayHTTPRequest (call_site a) ''req1'' call_bounded (Some []) (gc_route call_candidate) ''secret1'' (Some call_headers) =
      Inr call_prepared"
    by (simp add: prepareGatewayHTTPRequest_def np call_prepared_def call_headers_sent_def Let_def)
  show ?thesis
    by (simp add: prepare_hook_def e n assms(2) p) (simp add: call_prepared_def)
qed

lemma call_current [simp]: "route_current (call_site a) w (gc_route call_candidate)"
  by (simp add: route_current_def call_auth_def)

lemma call_state:
  "admission_state (call_site a) (call_plan a (Some [call_key])) ([], [], \<lparr>qd_TimeZone = ''UTC'', qd_Bounds = [], qd_Currency = []\<rparr>)
     \<lparr>qb_Tokens = None, qb_Money = None, qb_Currency = [], qb_Revision = [], qb_PriceRevision = [], qb_BasisDigest = []\<rparr> r =
   r\<lparr>gr_admissionLimits := [], gr_admissionQuota := [],
     gr_quotaBound := \<lparr>qb_Tokens = None, qb_Money = None, qb_Currency = [], qb_Revision = [], qb_PriceRevision = [], qb_BasisDigest = []\<rparr>,
     gr_quotaTimeZone := ''UTC'', gr_attemptEvidence := [(call_key, no_evidence call_candidate)], gr_admissionAllowed := [call_key]\<rparr>"
  by (simp add: admission_state_def gatewayAttemptEvidence_def gatewayQuotaDimensions_def evidence_step_def
        gatewayCandidateBoundEvidence_def call_plan_def call_key_def)

lemma call_bound_kept:
  "call_bounded\<lparr>gr_admissionLimits := [], gr_admissionQuota := [],
     gr_quotaBound := \<lparr>qb_Tokens = None, qb_Money = None, qb_Currency = [], qb_Revision = [], qb_PriceRevision = [], qb_BasisDigest = []\<rparr>,
     gr_quotaTimeZone := ''UTC'', gr_attemptEvidence := [(call_key, no_evidence call_candidate)], gr_admissionAllowed := [call_key]\<rparr> = call_bounded"
  by (simp add: call_bounded_def)

lemma call_eligible_at:
  assumes "allowed = None \<or> allowed = Some [call_key]" "idle w"
  shows "eligible_at (call_site a) (call_plan a allowed) w (call_tried n) = Inr True"
  using call_eligible[OF assms(1), of w a n] assms(2)
  by (simp add: idle_def eligible_at_def gateway_eligible_def Let_def split: prod.splits)

lemma call_admits:
  assumes "idle w" "w_result w = call_bounded" "w_store w = demo_start"
  shows "admit_hook (call_site a) ''req1'' (call_plan a (Some [call_key])) (call_tried 1) w =
    (True, w\<lparr>w_store := call_reserved, w_result := call_bounded\<lparr>gr_Admitted := True\<rparr>\<rparr>)"
proof -
  have e: "gateway_eligible (call_site a) (call_plan a (Some [call_key])) (call_tried 1) w = (Inr True, w)"
    by (rule call_eligible) (use assms(1) in \<open>simp_all add: idle_def\<close>)
  have p: "reauthorize_public (call_site a) w = (None, w)" by (rule call_public) (simp_all add: assms(2))
  have b: "prepareGatewayAttemptQuotaBound demo_codec (si_rows (call_site a)) (world_random (call_site a))
      (eligible_at (call_site a) (call_plan a (Some [call_key])) w) (call_plan a (Some [call_key])) call_bounded []
      \<lparr>qd_TimeZone = ''UTC'', qd_Bounds = [], qd_Currency = []\<rparr> =
      Inr (call_plan a (Some [call_key]), \<lparr>qb_Tokens = None, qb_Money = None, qb_Currency = [], qb_Revision = [], qb_PriceRevision = [], qb_BasisDigest = []\<rparr>)"
    by (rule call_quota_bound) (simp_all add: call_eligible_at assms(1))
  have g: "gp_allowed (call_plan a (Some [call_key])) = Some [call_key]" by (simp add: call_plan_def)
  have s: "on_result (admission_state (call_site a) (call_plan a (Some [call_key])) ([], [], \<lparr>qd_TimeZone = ''UTC'', qd_Bounds = [], qd_Currency = []\<rparr>)
      \<lparr>qb_Tokens = None, qb_Money = None, qb_Currency = [], qb_Revision = [], qb_PriceRevision = [], qb_BasisDigest = []\<rparr>) w = w"
    by (cases w) (use assms(2) in \<open>simp add: on_result_def call_state call_bound_kept\<close>)
  have r: "ReserveWithLimits demo_queue mem_bolt ''req1'' ''req1'' [] now0 demo_start = (Inr (), call_reserved)"
    using call_reserves by (simp add: call_reserved_def prod_eq_iff)
  have a: "AdmitGatewayCall demo_env demo_queue mem_bolt demo_codec intent True ''req1'' (Some call_bounded) now0 demo_start = (Inr (), call_reserved)" for intent
    using noted_payload[OF call_bounded_noted] by (simp add: AdmitGatewayCall_def r)
  show ?thesis
    by (simp add: admit_hook_def p admitPreparedGatewayAttempt_def e assms(2,3) b g s a) (simp add: on_result_def assms(2))
qed

section \<open>The execution\<close>

text \<open>The world when the request goes out, and the record of it.\<close>

definition call_out :: "(mem, nat) world \<Rightarrow> (mem, nat) world" where
  "call_out w = w\<lparr>w_store := call_updated call_reserved, w_result := call_sending\<rparr>"

definition call_dispatch :: "http_answer \<Rightarrow> mem dispatch" where
  "call_dispatch a = \<lparr>ds_attempt = call_tried 1, ds_request = ga_request call_prepared, ds_ID = ''att1'',
     ds_store = call_updated call_reserved, ds_answer = a\<rparr>"

lemma call_sending_fields [simp]:
  "\<not> gr_personal call_sending" "\<not> gr_team call_sending" "\<not> gr_key call_sending" "gr_ModelName call_sending = ''model''"
  "gr_ModelID call_sending = ''model''" "gr_admissionQuota call_sending = []" "gr_AttemptID call_sending = ''att1''"
  "gr_Attempts call_sending = []" "\<not> gr_Stream call_sending"
  by (simp_all add: call_sending_def applyGatewayAttemptRoute_def)

lemma call_starts:
  assumes "idle w" "w_result w = call_bounded\<lparr>gr_Admitted := True\<rparr>" "w_store w = call_reserved"
  shows "start_attempt (call_site a) ''req1'' (call_plan a (Some [call_key])) (call_tried 1) call_prepared w =
    dispatch_attempt (call_site a) ''req1'' (call_tried 1) call_prepared (call_out w)"
proof -
  let ?S = "call_site a" and ?p = "call_plan a (Some [call_key])"
  define w2 where "w2 = w\<lparr>w_result := call_sending\<rparr>"
  have w2: "on_result (\<lambda>r. (applyGatewayAttemptRoute (ga_route call_prepared) r)\<lparr>gr_AttemptStartedAt := Some now0\<rparr>)
      (on_result (\<lambda>r. r\<lparr>gr_AttemptID := ''att1''\<rparr>) w) = w2"
    using assms(2) by (simp add: on_result_def w2_def call_sending_def call_prepared_def applyGatewayAttemptRoute_def)
  have c: "checkpoint ?S ''req1'' w2 = (None, call_out w)"
    using call_checkpoint[of w2 a] call_sending_noted call_updates assms(3) by (simp add: w2_def call_out_def)
  have "idle (call_out w)" using assms(1) by (simp add: idle_def call_out_def)
  then have e: "gateway_eligible ?S ?p (call_tried 1) (call_out w) = (Inr True, call_out w)"
    by (intro call_eligible) (simp_all add: idle_def)
  have p: "reauthorize_public ?S (call_out w) = (None, call_out w)"
    by (rule call_public) (simp_all add: call_out_def)
  have o: "w\<lparr>w_out := w_out w\<rparr> = w" by simp
  show ?thesis by (simp add: start_attempt_def o w2 c reauthorizePreparedGatewayAttempt_def e p)
qed

lemma call_sends:
  "send_request (call_site a) (call_tried 1) call_prepared (call_out w) =
     (a, (call_out w)\<lparr>w_sent := w_sent w @ [call_dispatch a]\<rparr>)"
  by (simp add: send_request_def call_prepared_def call_dispatch_def call_out_def)

lemma call_executes:
  assumes "idle w" "w_result w = call_bounded\<lparr>gr_Admitted := True\<rparr>" "w_store w = call_reserved" "w_current w = Some call_prepared"
  shows "execute_hook (call_site a) ''req1'' (call_plan a (Some [call_key])) (call_tried 1) w =
    (case dispatch_attempt (call_site a) ''req1'' (call_tried 1) call_prepared (call_out w) of
       ((oc, public, err), w1) \<Rightarrow> ((oc, err), w1\<lparr>w_lastPublic := public, w_current := None\<rparr>))"
proof -
  let ?S = "call_site a" and ?p = "call_plan a (Some [call_key])"
  have e: "gateway_eligible ?S ?p (call_tried 1) w = (Inr True, w)"
    by (rule call_eligible) (use assms(1) in \<open>simp_all add: idle_def\<close>)
  have p: "reauthorize_public ?S w = (None, w)" by (rule call_public) (simp_all add: assms(2))
  have h: "ga_route call_prepared = gc_route call_candidate" "ga_holder call_prepared = None" by (simp_all add: call_prepared_def)
  have s: "on_sources (releasePlans [None]) v = v" for v :: "(mem, nat) world" by (simp add: on_sources_def)
  show ?thesis
    by (simp add: execute_hook_def assms(4) executeGatewayAttempt_def p h reauthorizePreparedGatewayAttempt_def e admitUse_def
          call_starts[OF assms(1-3)] s split: prod.splits)
qed

text \<open>A request that could not be sent, and one that was answered.\<close>

definition call_unreached :: http_answer where "call_unreached = Failed PreRequestFailure None False"

definition call_reached :: http_answer where
  "call_reached = Answered \<lparr>resp_StatusCode = 200, resp_Body = Some ([], False), resp_ContentType = ''application/json''\<rparr> False"

definition call_after :: "(mem, nat) world \<Rightarrow> (mem, nat) world" where
  "call_after w = w\<lparr>w_store := call_updated (call_updated call_reserved), w_result := call_failed,
     w_health := markGatewayConnectionFailure (att_ConnectionID (call_tried 1)) now0 (w_health w), w_response := None,
     w_sent := w_sent w @ [call_dispatch call_unreached]\<rparr>"

lemma call_fails:
  "dispatch_attempt (call_site call_unreached) ''req1'' (call_tried 1) call_prepared (call_out w) =
    ((plain_outcome ConnectionFailure NotSent, Some (GatewayError 502 ''upstream_error'', None), False), call_after w)"
proof -
  define w1 where "w1 = (call_out w)\<lparr>w_sent := w_sent w @ [call_dispatch call_unreached], w_response := None,
    w_health := markGatewayConnectionFailure (att_ConnectionID (call_tried 1)) now0 (w_health w)\<rparr>"
  define w2 where "w2 = (on_result (\<lambda>r. r\<lparr>gr_Attempts := gr_Attempts r @ [failed_attempt r (call_tried 1)
      (plain_outcome ConnectionFailure NotSent) ''pre_request_connection'' 0 ''upstream_error'' now0],
      gr_AttemptID := [], gr_AttemptStartedAt := None\<rparr>) w1)\<lparr>w_response := None\<rparr>"
  have r: "w_result w2 = call_failed" by (simp add: w2_def w1_def on_result_def call_out_def call_failed_def)
  have "checkpoint (call_site call_unreached) ''req1'' w2 = (None, w2\<lparr>w_store := call_updated (w_store w2)\<rparr>)"
  proof (rule call_checkpoint)
    show "noted_in (w_result w2)" by (simp add: r call_failed_noted)
    show "gr_admissionQuota (w_result w2) = []" by (simp add: r) (simp add: call_failed_def)
    show "fst (UpdatePending demo_queue mem_bolt ''req1'' ''req1'' (w_store w2)) = Inr ()"
      using call_updates_again by (simp add: w2_def w1_def on_result_def call_out_def)
  qed
  moreover have "w2\<lparr>w_store := call_updated (w_store w2)\<rparr> = call_after w"
    using r by (simp add: w2_def w1_def on_result_def call_out_def call_after_def)
  ultimately have f: "checkpoint (call_site call_unreached) ''req1'' w2 = (None, call_after w)" by simp
  have d: "dispatch_attempt (call_site call_unreached) ''req1'' (call_tried 1) call_prepared (call_out w) =
      finishGatewayFailedAttempt (call_site call_unreached) ''req1'' (call_tried 1) (plain_outcome ConnectionFailure NotSent)
        (GatewayError 502 ''upstream_error'', None) ''pre_request_connection'' 0 ''upstream_error'' w1"
    using call_sends[of call_unreached w]
    by (simp add: dispatch_attempt_def call_unreached_def transport_failed_def Let_def w1_def call_out_def)
  show ?thesis using d f by (simp add: finishGatewayFailedAttempt_def Let_def w2_def)
qed

lemma call_succeeds:
  "dispatch_attempt (call_site call_reached) ''req1'' (call_tried 1) call_prepared (call_out w) =
    ((plain_outcome Success Completed, None, False),
     (call_out w)\<lparr>w_sent := w_sent w @ [call_dispatch call_reached],
        w_response := Some \<lparr>resp_StatusCode = 200, resp_Body = Some ([], False), resp_ContentType = ''application/json''\<rparr>,
        w_health := markGatewayAttemptSuccess (att_ConnectionID (call_tried 1)) (att_CredentialID (call_tried 1)) now0 (w_health w)\<rparr>)"
  using call_sends[of call_reached w]
  by (simp add: dispatch_attempt_def call_reached_def answered_def Let_def call_out_def)

section \<open>The run\<close>

definition call_bounded_world :: "(mem, nat) world" where
  "call_bounded_world = call_start\<lparr>w_result := call_bounded\<rparr>"

definition call_admitted_world :: "(mem, nat) world" where
  "call_admitted_world = call_bounded_world\<lparr>w_current := Some call_prepared, w_store := call_reserved,
     w_result := call_bounded\<lparr>gr_Admitted := True\<rparr>\<rparr>"

abbreviation call_calls :: "http_answer \<Rightarrow> (mem, nat) world calls" where
  "call_calls a \<equiv> gateway_calls (call_site a) ''req1'' (call_plan a (Some [call_key])) (Some []) (Some call_headers)"

lemma call_poll [simp]: "world_poll (call_site a) w = (None, w)"
  by (simp add: world_poll_def)

lemma call_plan_fields [simp]:
  "plan_targets (gp_Plan (call_plan a k)) = [call_target]" "plan_maxAttempts (gp_Plan (call_plan a k)) = MaxAttempts"
  "plan_draw (gp_Plan (call_plan a k)) n w = (Some 0, w)" "tgt_Credentials call_target = [\<lparr>cred_ID = ''cred1'', cred_Priority = 0\<rparr>]"
  "candidate_attempt (gp_Plan (call_plan a k)) n call_target \<lparr>cred_ID = ''cred1'', cred_Priority = 0\<rparr> = call_tried n"
  "tgt_Weight call_target = 100" "tgt_ID call_target = ''bnd1''" "tgt_ConnectionID call_target = ''con1''"
  "att_TargetID (call_tried n) = ''bnd1''" "att_ConnectionID (call_tried n) = ''con1''" "att_CredentialID (call_tried n) = ''cred1''"
  by (simp_all add: call_plan_def world_random_def call_target_def plan_target_def call_candidate_def plan_candidate_def
        plan_attempt_def unbound_def call_route_def call_credential_def candidate_attempt_def call_tried_def)

lemma call_selects:
  assumes "idle w"
  shows "selectAttempt (gp_Plan (call_plan a (Some [call_key]))) (world_poll (call_site a)) (eligible_hook (call_site a) (call_plan a (Some [call_key])))
    no_progress 1 w = (Inr (Some (call_tried 1)), w)"
proof -
  have e: "gateway_eligible (call_site a) (call_plan a (Some [call_key])) (call_tried 1) w = (Inr True, w)"
    by (rule call_eligible) (use assms in \<open>simp_all add: idle_def\<close>)
  then have h: "eligible_hook (call_site a) (call_plan a (Some [call_key])) (call_tried 1) w = (Inr True, w)"
    by (simp add: eligible_hook_def)
  show ?thesis by (simp add: selectAttempt_def no_progress_def h)
qed

lemma call_no_more:
  assumes "connections st = {''con1''}" "preferred st = []"
  shows "selectAttempt (gp_Plan (call_plan a k)) poll eligible st n w = (Inr None, w)"
  using assms by (simp add: selectAttempt_def)

lemma call_world_fields [simp]:
  "idle call_bounded_world" "w_result call_bounded_world = call_bounded" "w_store call_bounded_world = demo_start"
  "w_sent call_bounded_world = []" "idle call_admitted_world" "w_result call_admitted_world = call_bounded\<lparr>gr_Admitted := True\<rparr>"
  "w_store call_admitted_world = call_reserved" "w_current call_admitted_world = Some call_prepared" "w_sent call_admitted_world = []"
  by (simp_all add: call_bounded_world_def call_admitted_world_def call_start_def idle_def)

lemma call_first_step:
  "run_step (gp_Plan (call_plan a (Some [call_key]))) (call_calls a) no_progress no_result call_bounded_world =
     run_execute (gp_Plan (call_plan a (Some [call_key]))) (call_calls a) no_progress (no_result\<lparr>run_Admitted := True\<rparr>) (call_tried 1)
       call_admitted_world"
proof -
  let ?w = "call_bounded_world\<lparr>w_current := Some call_prepared\<rparr>"
  have s: "selectAttempt (gp_Plan (call_plan a (Some [call_key]))) (world_poll (call_site a)) (eligible_hook (call_site a) (call_plan a (Some [call_key])))
      no_progress 1 call_bounded_world = (Inr (Some (call_tried 1)), call_bounded_world)" by (rule call_selects) simp
  have p: "prepare_hook (call_site a) ''req1'' (call_plan a (Some [call_key])) (Some []) (Some call_headers) (call_tried 1) call_bounded_world = (True, ?w)"
    by (rule call_prepares) simp_all
  have i: "idle ?w" "w_result ?w = call_bounded" "w_store ?w = demo_start"
    by (simp_all add: call_bounded_world_def call_start_def idle_def)
  have d: "admit_hook (call_site a) ''req1'' (call_plan a (Some [call_key])) (call_tried 1) ?w = (True, call_admitted_world)"
    using call_admits[OF i] by (simp add: call_admitted_world_def)
  show ?thesis
    by (simp add: run_step_def gateway_calls_def no_result_def s run_prepare_def p run_admit_def d Let_def)
qed

lemma call_run_unreached:
  "run_loop (gp_Plan (call_plan call_unreached (Some [call_key]))) (call_calls call_unreached) no_progress no_result call_bounded_world =
     ((\<lparr>run_Admitted = True, run_Attempts = [\<lparr>res_Attempt = call_tried 1, res_Outcome = plain_outcome ConnectionFailure NotSent\<rparr>],
        run_Stop = NoCandidates\<rparr>, None),
      (call_after call_admitted_world)\<lparr>w_lastPublic := Some (GatewayError 502 ''upstream_error'', None), w_current := None\<rparr>)"
proof -
  let ?p = "gp_Plan (call_plan call_unreached (Some [call_key]))" and ?C = "call_calls call_unreached"
  let ?w = "(call_after call_admitted_world)\<lparr>w_lastPublic := Some (GatewayError 502 ''upstream_error'', None), w_current := None\<rparr>"
  let ?st = "\<lparr>attempted = {call_key}, credentials = {}, connections = {''con1''}, preferred = []\<rparr>"
  let ?r = "\<lparr>run_Admitted = True, run_Attempts = [\<lparr>res_Attempt = call_tried 1, res_Outcome = plain_outcome ConnectionFailure NotSent\<rparr>],
    run_Stop = NotStopped\<rparr>"
  have x: "execute_hook (call_site call_unreached) ''req1'' (call_plan call_unreached (Some [call_key])) (call_tried 1) call_admitted_world =
      ((plain_outcome ConnectionFailure NotSent, False), ?w)"
    by (subst call_executes) (simp_all add: call_fails)
  have v: "validOutcome (plain_outcome ConnectionFailure NotSent)" by (simp add: validOutcome_def plain_outcome_def)
  have "run_step ?p ?C no_progress no_result call_bounded_world = (Inr (?st, ?r), ?w)"
    unfolding call_first_step
    by (simp add: run_execute_def gateway_calls_def x v Let_def no_result_def no_progress_def judge_def)
      (simp add: plain_outcome_def within_budget_def MaxAttempts_def)
  moreover have "run_step ?p ?C ?st ?r ?w = (Inl (?r\<lparr>run_Stop := NoCandidates\<rparr>, None), ?w)"
    by (simp add: run_step_def gateway_calls_def call_no_more)
  ultimately show ?thesis by (simp add: run_loop.simps)
qed

lemma call_run_reached:
  "\<exists>run w. run_loop (gp_Plan (call_plan call_reached (Some [call_key]))) (call_calls call_reached) no_progress no_result call_bounded_world =
     ((run, None), w) \<and> run_Stop run = Succeeded \<and> \<not> w_panicked w \<and> w_sent w = [call_dispatch call_reached] \<and>
     w_hookErr w = None \<and> w_response w \<noteq> None"
proof -
  let ?p = "gp_Plan (call_plan call_reached (Some [call_key]))" and ?C = "call_calls call_reached"
  define w where "w = (snd (dispatch_attempt (call_site call_reached) ''req1'' (call_tried 1) call_prepared (call_out call_admitted_world)))
    \<lparr>w_lastPublic := None, w_current := None\<rparr>"
  have e: "execute_hook (call_site call_reached) ''req1'' (call_plan call_reached (Some [call_key])) (call_tried 1) call_admitted_world =
      (case dispatch_attempt (call_site call_reached) ''req1'' (call_tried 1) call_prepared (call_out call_admitted_world) of
         ((oc, public, err), w1) \<Rightarrow> ((oc, err), w1\<lparr>w_lastPublic := public, w_current := None\<rparr>))"
    by (rule call_executes) simp_all
  have x: "execute_hook (call_site call_reached) ''req1'' (call_plan call_reached (Some [call_key])) (call_tried 1) call_admitted_world =
      ((plain_outcome Success Completed, False), w)"
    by (simp add: e call_succeeds w_def)
  have f: "\<not> w_panicked w" "w_sent w = [call_dispatch call_reached]" "w_hookErr w = None" "w_response w \<noteq> None"
    unfolding w_def call_succeeds
    by (simp_all add: call_out_def call_admitted_world_def call_bounded_world_def call_start_def)
  have v: "validOutcome (plain_outcome Success Completed)" by (simp add: validOutcome_def plain_outcome_def)
  have "run_step ?p ?C no_progress no_result call_bounded_world =
      (Inl (\<lparr>run_Admitted = True, run_Attempts = [\<lparr>res_Attempt = call_tried 1, res_Outcome = plain_outcome Success Completed\<rparr>],
        run_Stop = Succeeded\<rparr>, None), w)"
    unfolding call_first_step
    by (simp add: run_execute_def gateway_calls_def x v Let_def no_result_def no_progress_def judge_def) (simp add: plain_outcome_def)
  then show ?thesis using f by (simp add: run_loop.simps)
qed

section \<open>The whole call\<close>

lemma call_start_fields [simp]:
  "w_store call_start = demo_start" "w_sources call_start = new_registry" "w_sent call_start = []" "w_response call_start = None"
  "gr_AttemptID (w_result call_start) = []" "gr_Attempts (w_result call_start) = []"
  by (simp_all add: call_start_def demo_result_def)

lemma call_classified_fields [simp]:
  "gr_ModelID call_classified = ''model''" "NativeProtocol call_classified = ProtocolAnthropicMessages"
  "gr_UserID call_classified = []" "gr_ProjectID call_classified = ''proj''" "gr_KeyID call_classified = []"
  "\<not> gr_team call_classified" "\<not> gr_personal call_classified" "\<not> gr_key call_classified"
  by (simp_all add: call_classified_def classified_def Let_def call_start_def demo_result_def NativeProtocol_def ProtocolAnthropicMessages_def)

lemma call_made_run:
  "call_made a =
    (case run_loop (gp_Plan (call_plan a (Some [call_key]))) (call_calls a) no_progress no_result call_bounded_world of
       (end, w) \<Rightarrow> (case run_answer (call_site a) end w of (answer, w1) \<Rightarrow> (answer, on_sources (releaseSources [call_candidate]) w1)))"
proof -
  let ?w = "call_start\<lparr>w_result := call_classified\<rparr>"
  have c: "on_result (classified (Some []) call_attachments (Some call_headers)) call_start = ?w"
    by (simp add: on_result_def call_classified_def)
  have sources: "call_start\<lparr>w_sources := new_registry, w_result := call_classified\<rparr> = ?w" by (simp add: call_start_def)
  have i: "identified call_runtime call_classified ((call_plan a None)\<lparr>gp_projectID := []\<rparr>) = (call_classified, call_plan a None)"
    by (simp add: identified_def call_plan_def)
  have am: "gatewayAttachmentAttemptPlan (call_site a) (call_plan a None) call_attachments = Inr (call_plan a None)"
    "attach (call_site a) ''req1'' (Some []) call_attachments w = (Inr (Some []), w)" for w
    by (simp_all add: gatewayAttachmentAttemptPlan_def attach_def call_attachments_def)
  have b: "prepareGatewayAttemptQuotaBound demo_codec (si_rows (call_site a)) (world_random (call_site a))
      (eligible_at (call_site a) (call_plan a None) ?w) (call_plan a None) call_classified []
      \<lparr>qd_TimeZone = ''UTC'', qd_Bounds = [], qd_Currency = []\<rparr> =
      Inr (call_plan a (Some [call_key]), \<lparr>qb_Tokens = None, qb_Money = None, qb_Currency = [], qb_Revision = [], qb_PriceRevision = [], qb_BasisDigest = []\<rparr>)"
    by (rule call_quota_bound) (simp_all add: call_eligible_at idle_def call_start_def)
  have q: "prepareGatewayAttemptQuotaState (call_site a) (call_plan a None) ?w = (Inr (call_plan a (Some [call_key])), call_bounded_world)"
    by (simp add: prepareGatewayAttemptQuotaState_def b on_result_def call_state)
      (simp add: call_bounded_world_def call_bounded_def)
  have gp: "gp_candidates ((call_plan a None)\<lparr>gp_projectID := []\<rparr>) = [call_candidate]" by (simp add: call_plan_def)
  show ?thesis
    unfolding call_made_def gatewayNativeAttempts_def Let_def c
    by (simp add: call_plan_made i sources run_call_def am q Run_gateway gp split: prod.splits)
qed

lemma call_holders: "on_sources (releaseSources [call_candidate]) w = w"
  by (simp add: on_sources_def releaseSources_def call_candidate_def plan_candidate_def)

lemma call_made_unreached:
  "NoUpstreamWork (w_result (snd (call_made call_unreached)))" "w_sent (snd (call_made call_unreached)) = [call_dispatch call_unreached]"
proof -
  have r: "gr_AttemptID call_failed = []" "callAttemptsProveNoWork (gr_Attempts call_failed)"
    by (simp_all add: call_failed_def callAttemptsProveNoWork_def failed_attempt_def plain_outcome_def)
  show "NoUpstreamWork (w_result (snd (call_made call_unreached)))"
    by (simp add: call_made_run call_run_unreached run_answer_def call_holders NoUpstreamWork_def on_result_def call_after_def r)
  show "w_sent (snd (call_made call_unreached)) = [call_dispatch call_unreached]"
    by (simp add: call_made_run call_run_unreached run_answer_def call_holders on_result_def call_after_def)
qed

lemma call_made_reached:
  "fst (call_made call_reached) = None" "\<not> w_panicked (snd (call_made call_reached))" "w_sent (snd (call_made call_reached)) = [call_dispatch call_reached]"
proof -
  obtain run w where r: "run_loop (gp_Plan (call_plan call_reached (Some [call_key]))) (call_calls call_reached) no_progress no_result call_bounded_world =
     ((run, None), w)" "run_Stop run = Succeeded" "\<not> w_panicked w" "w_sent w = [call_dispatch call_reached]" "w_response w \<noteq> None"
    using call_run_reached by blast
  show "fst (call_made call_reached) = None" "\<not> w_panicked (snd (call_made call_reached))" "w_sent (snd (call_made call_reached)) = [call_dispatch call_reached]"
    using r(2-5) by (simp_all add: call_made_run r(1) run_answer_def call_holders on_result_def)
qed

lemma call_start_between: "between (call_site a) ''req1'' call_start"
  using demo_reachable[of "[]"] by (simp add: between_def sound_def settled_def call_site_ok demo_def exec_def)

section \<open>The properties\<close>

text \<open>C1. No request of a gateway call goes to an upstream before it is in the journal. At the moment a request
  is sent, the journal holds a fact of the call that is not final, does not claim that no work was done,
  and whose last attempt is this request, on the credential it was selected for, with unknown work: a
  process that dies at any later moment settles the call as work that may have been done. It holds for
  every sequence of attempts, whatever the upstreams answer, the clock, the snapshots and the policies
  say, and other goroutines do, provided that these leave the fact of the call alone.\<close>

theorem dispatch_checkpointed:
  assumes "site_ok site rid" "live site w" "w_sent w = []" "gr_Attempts (w_result w) = []" "gr_AttemptID (w_result w) = ''''"
    "w_response w = None" "gatewayNativeAttempts site rid payload am opts w = (answer, w')" "d \<in> set (w_sent w')"
  shows "\<exists>entry cf past a. facts (si_bolt site) (ds_store d) rid = Some (Held entry) \<and> cd_fact (si_codec site) cf = Some entry \<and>
    cf_RequestID cf = rid \<and> \<not> cf_NoWork cf \<and> cf_Attempts cf = past @ [a] \<and> ca_ID a = ds_ID d \<and> ds_ID d \<noteq> '''' \<and>
    ca_WorkEvidence a = Unknown \<and> ca_CredentialID a = att_CredentialID (ds_attempt d)"
proof -
  have "between site rid w" using assms(1-6) by (simp add: between_def sound_def settled_def)
  from call_finished(1)[OF this assms(7)] have "noted site rid d" using assms(8) by (auto simp: finished_def sound_def)
  then show ?thesis unfolding noted_def by blast
qed

theorem dispatch_checkpointed_witness:
  "\<exists>d (cf :: call_fact) past a. w_sent (snd (call_made call_reached)) = [d] \<and> facts mem_bolt (ds_store d) ''req1'' = Some (Held ''req1'') \<and>
     \<not> cf_NoWork cf \<and> cf_Attempts cf = past @ [a] \<and> ca_CredentialID a = ''cred1''"
proof -
  have d: "call_dispatch call_reached \<in> set (w_sent (snd (call_made call_reached)))" by (simp add: call_made_reached)
  have c: "gatewayNativeAttempts (call_site call_reached) ''req1'' (Some []) call_attachments (Some call_headers) call_start =
      (fst (call_made call_reached), snd (call_made call_reached))" by (simp add: call_made_def)
  have live: "live (call_site call_reached) call_start" using call_start_between by (simp add: between_def sound_def)
  obtain bytes cf past a where "facts mem_bolt (ds_store (call_dispatch call_reached)) ''req1'' = Some (Held bytes)"
    "cd_fact demo_codec cf = Some bytes" "cf_RequestID cf = ''req1''" "\<not> cf_NoWork cf" "cf_Attempts cf = past @ [a]"
    "ca_CredentialID a = att_CredentialID (ds_attempt (call_dispatch call_reached))"
    using dispatch_checkpointed[OF call_site_ok live _ _ _ _ c d] by auto
  then show ?thesis
    by (intro exI[of _ "call_dispatch call_reached"] exI[of _ cf] exI[of _ past] exI[of _ a])
      (simp add: call_made_reached demo_codec_def call_dispatch_def)
qed

text \<open>C2. A result that says that no upstream work was done is right. Where \<open>NoUpstreamWork\<close> holds of the
  result of a gateway call, then for every request that was sent, in the order of the attempts the
  result records, either the transport reports that the request never reached the upstream, or the
  upstream answered with status 401 or 429 and a body that is read completely and is an error object
  and nothing else, which names the rejection of that status.\<close>

theorem no_work_sound:
  assumes "site_ok site rid" "live site w" "w_sent w = []" "gr_Attempts (w_result w) = []" "gr_AttemptID (w_result w) = ''''"
    "w_response w = None" "gatewayNativeAttempts site rid payload am opts w = (answer, w')" "NoUpstreamWork (w_result w')"
  shows "map ds_ID (w_sent w') = map ca_ID (gr_Attempts (w_result w')) \<and>
    (\<forall>d. d \<in> set (w_sent w') \<longrightarrow>
      (\<exists>resp fails. ds_answer d = Failed PreRequestFailure resp fails) \<or>
      (\<exists>resp fails body errs. ds_answer d = Answered resp fails \<and> resp_StatusCode resp \<in> {401, 429} \<and>
         resp_Body resp = Some (body, False) \<and> error_only (NativeProtocol (w_result w')) body errs \<and>
         names_rejection (NativeProtocol (w_result w')) (resp_StatusCode resp) errs))"
proof -
  have "between site rid w" using assms(1-6) by (simp add: between_def sound_def settled_def)
  from call_finished(1)[OF this assms(7)] have "settled w'"
    using assms(8) by (auto simp: finished_def accepted_def NoUpstreamWork_def)
  then have all: "list_all2 (settles (NativeProtocol (w_result w'))) (w_sent w') (gr_Attempts (w_result w'))"
    by (simp add: settled_def)
  have ids: "map ds_ID (w_sent w') = map ca_ID (gr_Attempts (w_result w'))"
    using all by (induction rule: list_all2_induct) (simp_all add: settles_def)
  have "no_work_answer (NativeProtocol (w_result w')) (ds_answer d)" if d: "d \<in> set (w_sent w')" for d
  proof -
    obtain c where "c \<in> set (gr_Attempts (w_result w'))" "settles (NativeProtocol (w_result w')) d c"
      using all d by (auto simp: list_all2_conv_all_nth in_set_conv_nth) (metis nth_mem)
    then show ?thesis using assms(8) by (auto simp: settles_def NoUpstreamWork_def callAttemptsProveNoWork_def list_all_iff)
  qed
  then show ?thesis using ids unfolding no_work_answer_def by blast
qed

theorem no_work_sound_witness:
  "length (w_sent (snd (call_made call_unreached))) = 1 \<and> NoUpstreamWork (w_result (snd (call_made call_unreached))) \<and>
   map ca_ID (gr_Attempts (w_result (snd (call_made call_unreached)))) = [''att1'']"
proof -
  have c: "gatewayNativeAttempts (call_site call_unreached) ''req1'' (Some []) call_attachments (Some call_headers) call_start =
      (fst (call_made call_unreached), snd (call_made call_unreached))" by (simp add: call_made_def)
  have live: "live (call_site call_unreached) call_start" using call_start_between by (simp add: between_def sound_def)
  from no_work_sound[OF call_site_ok live _ _ _ _ c call_made_unreached(1)]
  have "map ds_ID (w_sent (snd (call_made call_unreached))) = map ca_ID (gr_Attempts (w_result (snd (call_made call_unreached))))" by simp
  then show ?thesis using call_made_unreached by (simp add: call_dispatch_def)
qed

text \<open>C7. A gateway call that returns no error has an accepted answer. Where \<open>gatewayNativeAttempts\<close> returns
  without an error and without a panic, the last request that was sent was answered with a status from
  200 to 299 and the media type that the request asked for, that answer is the response of the result
  and its attempt is the one in flight; and every earlier request is a recorded attempt.\<close>

theorem success_is_accepted:
  assumes "site_ok site rid" "live site w" "w_sent w = []" "gr_Attempts (w_result w) = []" "gr_AttemptID (w_result w) = ''''"
    "w_response w = None" "gatewayNativeAttempts site rid payload am opts w = (None, w')" "\<not> w_panicked w'"
  shows "\<exists>ds d resp fails. w_sent w' = ds @ [d] \<and> ds_answer d = Answered resp fails \<and> w_response w' = Some resp \<and>
    200 \<le> resp_StatusCode resp \<and> resp_StatusCode resp < 300 \<and>
    si_media site (resp_ContentType resp) = Some (if gr_Stream (w_result w') then ''text/event-stream'' else ''application/json'') \<and>
    ds_ID d = gr_AttemptID (w_result w') \<and> map ds_ID ds = map ca_ID (gr_Attempts (w_result w'))"
proof -
  have b: "between site rid w" using assms(1-6) by (simp add: between_def sound_def settled_def)
  have "w_response w' \<noteq> None" by (rule call_finished(2)[OF b assms(7) refl assms(8)])
  then have "accepted site w'" using call_finished(1)[OF b assms(7)] by (auto simp: finished_def)
  moreover have "map ds_ID ds = map ca_ID cs" if "list_all2 (settles proto) ds cs" for proto and ds :: "'s dispatch list" and cs
    using that by (induction rule: list_all2_induct) (simp_all add: settles_def)
  ultimately show ?thesis unfolding accepted_def by blast
qed

theorem success_is_accepted_witness:
  "w_response (snd (call_made call_reached)) = Some \<lparr>resp_StatusCode = 200, resp_Body = Some ([], False), resp_ContentType = ''application/json''\<rparr>"
proof -
  have c: "gatewayNativeAttempts (call_site call_reached) ''req1'' (Some []) call_attachments (Some call_headers) call_start =
      (None, snd (call_made call_reached))" using call_made_reached(1) by (simp add: call_made_def prod_eq_iff)
  have live: "live (call_site call_reached) call_start" using call_start_between by (simp add: between_def sound_def)
  from success_is_accepted[OF call_site_ok live _ _ _ _ c call_made_reached(2)]
  show ?thesis using call_made_reached(3) by (auto simp: call_dispatch_def call_reached_def)
qed

end
