(* ===== verification/Limit_Roots.thy ===== *)
theory Limit_Roots
  imports Limits_Policy
begin

text \<open>
  Rotation chains of keys, \<open>rotationRoots\<close> of \<open>internal/routex/service/resource_limits_runtime.go\<close>. A
  key that replaces another names it as its parent; the limits of the whole chain are those of its
  first key, its root. The code searches every chain depth first with a memo of the roots found and a
  set of the keys being visited; \<open>rooted\<close> is what it has to compute, and \<open>rotationRoots_exact\<close> says
  that it does, for every order in which Go may walk the map.
\<close>

section \<open>The code\<close>

record rotation_node =
  node_owner :: string
  node_parent :: string

type_synonym root_memo = "string \<Rightarrow> string option"

text \<open>The text at a pointer or under a key of a map: the empty string where there is none.\<close>

definition text_or :: "string option \<Rightarrow> string" where
  "text_or v = (case v of None \<Rightarrow> '''' | Some s \<Rightarrow> s)"

lemma map_of_key: "map_of nodes key = Some node \<Longrightarrow> key \<in> fst ` set nodes"
  by (metis image_eqI fst_conv map_of_SomeD)

text \<open>
  The closure \<open>visit\<close> with the two maps it captures. A memo entry counts when the root in it is not the
  empty string; \<open>visiting\<close> holds the keys whose entry in the Go map is true.
  Every call marks one more of the finitely many keys.
\<close>

function visit :: "(string \<times> rotation_node) list \<Rightarrow> root_memo \<Rightarrow> string set \<Rightarrow> string \<Rightarrow>
    policy_error + string \<times> root_memo \<times> string set" where
  "visit nodes roots visiting key =
     (if text_or (roots key) \<noteq> '''' then Inr (text_or (roots key), roots, visiting)
      else case map_of nodes key of
          None \<Rightarrow> Inl PolicyInvalid
        | Some node \<Rightarrow>
            if key \<in> visiting then Inl PolicyInvalid
            else if node_parent node = '''' then Inr (key, roots(key \<mapsto> key), insert key visiting - {key})
            else (case map_of nodes (node_parent node) of
                None \<Rightarrow> Inl PolicyInvalid
              | Some parent \<Rightarrow>
                  if node_owner parent \<noteq> node_owner node then Inl PolicyInvalid
                  else (case visit nodes roots (insert key visiting) (node_parent node) of
                      Inl e \<Rightarrow> Inl e
                    | Inr (first, roots1, visiting1) \<Rightarrow> Inr (first, roots1(key \<mapsto> first), visiting1 - {key}))))"
  by pat_completeness auto

termination
proof (relation "measure (\<lambda>(nodes, _, visiting, _). card (fst ` set nodes - visiting))", goal_cases)
  case 1
  then show ?case by simp
next
  case (2 nodes roots visiting key node parent)
  have "fst ` set nodes - insert key visiting \<subset> fst ` set nodes - visiting"
    using map_of_key[OF 2(2)] 2(3) by blast
  then show ?case by (simp add: psubset_card_mono)
qed

declare visit.simps [simp del]

text \<open>The loop over the map, in the order \<open>ks\<close> in which Go happens to walk it.\<close>

definition visit_key :: "(string \<times> rotation_node) list \<Rightarrow> string \<Rightarrow> root_memo \<times> string set \<Rightarrow>
    policy_error + root_memo \<times> string set" where
  "visit_key nodes key m = (case visit nodes (fst m) (snd m) key of Inl e \<Rightarrow> Inl e | Inr (_, m1) \<Rightarrow> Inr m1)"

definition rotationRoots :: "string list \<Rightarrow> (string \<times> rotation_node) list \<Rightarrow> policy_error + root_memo" where
  "rotationRoots ks nodes = (case foldE (visit_key nodes) ks (\<lambda>_. None, {}) of Inl e \<Rightarrow> Inl e | Inr m \<Rightarrow> Inr (fst m))"

section \<open>What it computes\<close>

text \<open>The root of a key: the key itself, or the root of the key of the same owner that it replaces.\<close>

inductive rooted :: "(string \<times> rotation_node) list \<Rightarrow> string \<Rightarrow> string \<Rightarrow> bool" for nodes where
  rooted_first: "map_of nodes key = Some node \<Longrightarrow> node_parent node = '''' \<Longrightarrow> rooted nodes key key"
| rooted_next: "map_of nodes key = Some node \<Longrightarrow> node_parent node \<noteq> '''' \<Longrightarrow>
    map_of nodes (node_parent node) = Some parent \<Longrightarrow> node_owner parent = node_owner node \<Longrightarrow>
    rooted nodes (node_parent node) first \<Longrightarrow> rooted nodes key first"

inductive_simps rooted_iff: "rooted nodes key first"

lemma rooted_no_node: "map_of nodes key = None \<Longrightarrow> \<not> rooted nodes key first"
  by (subst rooted_iff) simp

lemma rooted_leaf: "map_of nodes key = Some node \<Longrightarrow> node_parent node = '''' \<Longrightarrow> rooted nodes key first \<longleftrightarrow> first = key"
  by (subst rooted_iff) auto

lemma rooted_up:
  "map_of nodes key = Some node \<Longrightarrow> node_parent node \<noteq> '''' \<Longrightarrow> rooted nodes key first \<longleftrightarrow>
   (\<exists>parent. map_of nodes (node_parent node) = Some parent \<and> node_owner parent = node_owner node \<and>
      rooted nodes (node_parent node) first)"
  by (subst rooted_iff) auto

lemmas rooted_simps = rooted_no_node rooted_leaf rooted_up

lemma rooted_root: "rooted nodes key first \<Longrightarrow> \<exists>node. map_of nodes first = Some node \<and> node_parent node = ''''"
  by (induction rule: rooted.induct) auto

lemma rooted_owner:
  assumes "rooted nodes key first" "map_of nodes key = Some a" "map_of nodes first = Some b"
  shows "node_owner a = node_owner b"
  using assms
proof (induction arbitrary: a rule: rooted.induct)
  case (rooted_first key node)
  then show ?case by (metis option.inject)
next
  case (rooted_next key node parent first)
  then show ?case by (metis option.inject)
qed

lemma rooted_unique: "rooted nodes key r \<Longrightarrow> rooted nodes key r' \<Longrightarrow> r = r'"
proof (induction rule: rooted.induct)
  case (rooted_first key node)
  then show ?case by (metis rooted_leaf)
next
  case (rooted_next key node parent first)
  then show ?case by (metis rooted_up)
qed

lemma rooted_own: "rooted nodes key first \<Longrightarrow> rooted nodes first first"
  using rooted_root rooted_first by blast

text \<open>One step up a chain; a chain with a root does not come back.\<close>

definition replaces :: "(string \<times> rotation_node) list \<Rightarrow> (string \<times> string) set" where
  "replaces nodes = {(k, p). p \<noteq> '''' \<and> (\<exists>node. map_of nodes k = Some node \<and> node_parent node = p)}"

lemma rooted_acyclic: "rooted nodes key first \<Longrightarrow> (key, key) \<notin> (replaces nodes)\<^sup>+"
proof (induction rule: rooted.induct)
  case (rooted_first key node)
  then show ?case by (auto simp: replaces_def dest: tranclD)
next
  case (rooted_next key node parent first)
  show ?case
  proof
    assume "(key, key) \<in> (replaces nodes)\<^sup>+"
    then obtain z where z: "(key, z) \<in> replaces nodes" "(z, key) \<in> (replaces nodes)\<^sup>*" by (blast dest: tranclD)
    then have "z = node_parent node" using rooted_next(1) by (simp add: replaces_def)
    then have "(node_parent node, node_parent node) \<in> (replaces nodes)\<^sup>+"
      using z by (metis rtrancl_into_trancl1)
    then show False using rooted_next.IH by blast
  qed
qed

section \<open>The search is exact\<close>

definition memo_sound :: "(string \<times> rotation_node) list \<Rightarrow> root_memo \<Rightarrow> bool" where
  "memo_sound nodes roots \<longleftrightarrow> (\<forall>k r. roots k = Some r \<longrightarrow> rooted nodes k r)"

lemma memo_soundD: "memo_sound nodes roots \<Longrightarrow> roots k = Some r \<Longrightarrow> rooted nodes k r"
  by (simp add: memo_sound_def)

lemma memo_sound_upd: "memo_sound nodes roots \<Longrightarrow> rooted nodes k r \<Longrightarrow> memo_sound nodes (roots(k \<mapsto> r))"
  by (simp add: memo_sound_def)

text \<open>
  A call finds the root of its key and leaves the set of visited keys as it was; it fails only where
  there is none, since all the keys being visited lead to the key of the call.
\<close>

lemma visit_exact:
  assumes "memo_sound nodes roots" "\<forall>k \<in> visiting. (k, key) \<in> (replaces nodes)\<^sup>+"
  shows "case visit nodes roots visiting key of
      Inl e \<Rightarrow> \<not> (\<exists>first. rooted nodes key first)
    | Inr (first, roots1, visiting1) \<Rightarrow>
        rooted nodes key first \<and> memo_sound nodes roots1 \<and> visiting1 = visiting \<and>
        roots1 key = Some first \<and> (\<forall>k. roots k \<noteq> None \<longrightarrow> roots1 k \<noteq> None)"
  using assms
proof (induction nodes roots visiting key rule: visit.induct)
  case (1 nodes roots visiting key)
  show ?case
  proof (cases "text_or (roots key) \<noteq> ''''")
    case True
    then obtain first where "roots key = Some first" by (auto simp: text_or_def split: option.splits)
    then show ?thesis using True "1.prems"(1)
      by (auto simp: visit.simps[of nodes roots visiting key] text_or_def dest: memo_soundD)
  next
    case fresh: False
    show ?thesis
    proof (cases "map_of nodes key")
      case None
      then show ?thesis using fresh by (simp add: visit.simps[of nodes roots visiting key] rooted_no_node)
    next
      case node: (Some node)
      show ?thesis
      proof (cases "key \<in> visiting")
        case True
        then have "\<not> (\<exists>first. rooted nodes key first)" using "1.prems"(2) rooted_acyclic by blast
        then show ?thesis using fresh node True by (simp add: visit.simps[of nodes roots visiting key])
      next
        case unseen: False
        show ?thesis
        proof (cases "node_parent node = ''''")
          case True
          then have "rooted nodes key key" using node by (rule rooted_first[rotated])
          then show ?thesis using fresh node unseen True "1.prems"(1)
            by (auto simp: visit.simps[of nodes roots visiting key] memo_sound_upd)
        next
          case par: False
          show ?thesis
          proof (cases "map_of nodes (node_parent node)")
            case None
            then show ?thesis using fresh node unseen par
              by (simp add: visit.simps[of nodes roots visiting key] rooted_up)
          next
            case parent: (Some parent)
            show ?thesis
            proof (cases "node_owner parent = node_owner node")
              case False
              then show ?thesis using fresh node unseen par parent
                by (simp add: visit.simps[of nodes roots visiting key] rooted_up)
            next
              case owner: True
              have step: "(key, node_parent node) \<in> replaces nodes" using node par by (simp add: replaces_def)
              have up: "\<forall>k \<in> insert key visiting. (k, node_parent node) \<in> (replaces nodes)\<^sup>+"
                using step "1.prems"(2) by (auto intro: trancl_into_trancl)
              have next_root: "rooted nodes key r \<longleftrightarrow> rooted nodes (node_parent node) r" for r
                using node par parent owner by (simp add: rooted_up)
              from "1.IH"[OF fresh node unseen par parent _ "1.prems"(1) up] owner
              have "case visit nodes roots (insert key visiting) (node_parent node) of
                  Inl e \<Rightarrow> \<not> (\<exists>first. rooted nodes key first)
                | Inr (first, roots1, visiting1) \<Rightarrow> rooted nodes key first \<and> memo_sound nodes roots1 \<and>
                    visiting1 = insert key visiting \<and> (\<forall>k. roots k \<noteq> None \<longrightarrow> roots1 k \<noteq> None)"
                by (auto simp: next_root split: sum.splits)
              then show ?thesis using fresh node unseen par parent owner
                by (auto simp: visit.simps[of nodes roots visiting key] memo_sound_upd split: sum.splits)
            qed
          qed
        qed
      qed
    qed
  qed
qed

lemma rotationRoots_fold:
  assumes "memo_sound nodes roots"
  shows "case foldE (visit_key nodes) ks (roots, {}) of
      Inl e \<Rightarrow> \<exists>k \<in> set ks. \<not> (\<exists>first. rooted nodes k first)
    | Inr (roots1, visiting1) \<Rightarrow> memo_sound nodes roots1 \<and> visiting1 = {} \<and>
        (\<forall>k. roots k \<noteq> None \<or> k \<in> set ks \<longrightarrow> roots1 k \<noteq> None)"
  using assms
proof (induction ks arbitrary: roots)
  case Nil
  then show ?case by simp
next
  case (Cons k ks)
  show ?case
  proof (cases "visit nodes roots {} k")
    case (Inl e)
    then show ?thesis using visit_exact[OF Cons.prems, of "{}" k] by (simp add: visit_key_def)
  next
    case (Inr m)
    obtain first roots1 visiting1 where m: "m = (first, roots1, visiting1)" by (cases m)
    have v: "memo_sound nodes roots1" "visiting1 = {}" "roots1 k = Some first" "\<forall>k. roots k \<noteq> None \<longrightarrow> roots1 k \<noteq> None"
      using visit_exact[OF Cons.prems, of "{}" k] Inr m by simp_all
    have "foldE (visit_key nodes) (k # ks) (roots, {}) = foldE (visit_key nodes) ks (roots1, {})"
      using Inr m v(2) by (simp add: visit_key_def)
    then show ?thesis using Cons.IH[OF v(1)] v(3,4) by (auto split: sum.splits)
  qed
qed

lemma rotationRoots_exact:
  assumes "set ks = fst ` set nodes"
  shows "case rotationRoots ks nodes of
      Inl e \<Rightarrow> \<exists>k \<in> set ks. \<not> (\<exists>first. rooted nodes k first)
    | Inr roots \<Rightarrow> (\<forall>k \<in> set ks. \<exists>first. rooted nodes k first) \<and> (\<forall>k first. roots k = Some first \<longleftrightarrow> rooted nodes k first)"
proof -
  have sound: "memo_sound nodes (\<lambda>_. None)" by (simp add: memo_sound_def)
  have known: "k \<in> set ks" if "rooted nodes k first" for k first
    using that assms by (metis map_of_eq_None_iff rooted_no_node)
  show ?thesis
  proof (cases "foldE (visit_key nodes) ks (\<lambda>_. None, {})")
    case (Inl e)
    then show ?thesis using rotationRoots_fold[OF sound, of ks] by (simp add: rotationRoots_def)
  next
    case (Inr m)
    then have r: "rotationRoots ks nodes = Inr (fst m)" by (simp add: rotationRoots_def)
    have m: "memo_sound nodes (fst m)" "\<forall>k \<in> set ks. fst m k \<noteq> None"
      using rotationRoots_fold[OF sound, of ks] Inr by (auto split: prod.splits)
    have "fst m k = Some first" if "rooted nodes k first" for k first
      using m known[OF that] rooted_unique[OF that] by (metis memo_soundD not_Some_eq)
    then have "\<forall>k first. fst m k = Some first \<longleftrightarrow> rooted nodes k first" using m(1) by (auto dest: memo_soundD)
    moreover have "\<forall>k \<in> set ks. \<exists>first. rooted nodes k first" using m by (metis memo_soundD not_Some_eq)
    ultimately show ?thesis using r by simp
  qed
qed

text \<open>So the order does not matter: there is one error, and one map with these entries.\<close>

lemma map_eqI: "(\<And>k v. m k = Some v \<longleftrightarrow> m' k = Some v) \<Longrightarrow> m = m'"
  by (rule ext) (metis not_Some_eq)

lemma rotationRoots_order:
  assumes "set ks = fst ` set nodes" "set ks' = set ks"
  shows "rotationRoots ks' nodes = rotationRoots ks nodes"
proof -
  note exact = rotationRoots_exact[OF assms(1)] rotationRoots_exact[of ks' nodes, unfolded assms(2), OF assms(1)]
  show ?thesis
  proof (cases "rotationRoots ks nodes")
    case (Inl e)
    then obtain e' where "rotationRoots ks' nodes = Inl e'" using exact by (cases "rotationRoots ks' nodes") auto
    then show ?thesis using Inl by (metis policy_error.exhaust)
  next
    case (Inr roots)
    then obtain roots' where r: "rotationRoots ks' nodes = Inr roots'" using exact by (cases "rotationRoots ks' nodes") auto
    have "roots' = roots" using exact Inr r by (intro map_eqI) simp
    then show ?thesis using Inr r by simp
  qed
qed

end
