(* ===== verification/Limit_Scopes.thy ===== *)
theory Limit_Scopes
  imports Limit_Roots Limits_Policy_Facts Json_Text Runtime_Auth
begin

text \<open>
  The limits of a snapshot, \<open>resource_limits_runtime.go\<close> with \<open>resource_limits.go\<close>,
  \<open>team_resource_limits.go\<close> and the monthly behaviours of keys, projects and members
  (\<open>personal_key_monthly_behavior.go\<close>, \<open>project_key_monthly_behavior.go\<close>,
  \<open>project_key_quota_warnings_proof.go\<close>, \<open>project_monthly_behavior.go\<close>,
  \<open>team_member_monthly_behavior.go\<close>, all under \<open>internal/routex/service\<close>): a stored row becomes a policy
  only where its scope can carry it, and the policies of a snapshot are indexed by the account they charge.
  The rows have the fields that are read here. Go walks a map in any order: the parameter \<open>walk\<close> is an
  order. \<open>strings.ToLower\<close> and the digest of a Team member pair are parameters.
\<close>

section \<open>Rows\<close>

record chain_key = key_row +
  ck_ReplacesKeyID :: "string option"
  ck_CreatedAt :: "int option"

record chain_project_key = project_key_row +
  cpk_ReplacesKeyID :: "string option"
  cpk_CreatedAt :: "int option"

record born_project = project_row +
  bp_CreatedAt :: "int option"

record team_row =
  tm_ID :: string
  tm_Status :: string
  tm_CreatedAt :: "int option"

record membership_row =
  mb_ID :: string
  mb_TeamID :: string
  mb_UserID :: string
  mb_Status :: string
  mb_Role :: string

record limit_row =
  lr_ScopeKind :: string
  lr_ScopeID :: string
  lr_ETag :: string
  lr_Tokens5H :: "int option"
  lr_Tokens7D :: "int option"
  lr_TokensMonthBehavior :: string
  lr_MoneyMonthBehavior :: string
  lr_TokensMonth :: "int option"
  lr_TPM :: "int option"
  lr_MoneyMonth :: "string option"
  lr_Currency :: string
  lr_RPM :: "int option"
  lr_Concurrency :: "int option"
  lr_IPMode :: string
  lr_IPRangesJSON :: string

record limit_data =
  ld_Users :: "user_row list"
  ld_Keys :: "chain_key list"
  ld_ProjectData :: "(born_project list \<times> chain_project_key list) option"
  ld_TeamData :: "(team_row list \<times> membership_row list) option"
  ld_Limits :: "limit_row list"

record limit_env =
  le_texts :: texts
  le_lower :: "string \<Rightarrow> string" \<comment> \<open>\<open>strings.ToLower\<close>\<close>
  le_pair :: "string \<Rightarrow> string \<Rightarrow> string" \<comment> \<open>SHA-256 of the JSON array of the two\<close>
  le_walk :: "(string \<times> rotation_node) list \<Rightarrow> string list" \<comment> \<open>the order of a loop over a map\<close>

section \<open>Accounts\<close>

text \<open>\<open>base32.StdEncoding\<close> without padding: five bits to a letter, the last ones filled with zeros.\<close>

definition base32_alphabet :: string where
  "base32_alphabet = ''ABCDEFGHIJKLMNOPQRSTUVWXYZ234567''"

definition byte_bits :: "char \<Rightarrow> bool list" where
  "byte_bits c = map (\<lambda>i. odd (of_char c div 2 ^ (7 - i) :: nat)) [0..<8]"

definition bits_value :: "bool list \<Rightarrow> nat" where
  "bits_value bs = foldl (\<lambda>n b. 2 * n + of_bool b) 0 bs"

definition base32_letter :: "bool list \<Rightarrow> char" where
  "base32_letter bs = base32_alphabet ! bits_value (take 5 (bs @ replicate 4 False))"

fun base32_bits :: "bool list \<Rightarrow> string" where
  "base32_bits [] = []"
| "base32_bits (b # bs) = base32_letter (b # take 4 bs) # base32_bits (drop 4 bs)"

definition base32 :: "string \<Rightarrow> string" where
  "base32 raw = base32_bits (concat (map byte_bits raw))"

definition limitAccount :: "string \<Rightarrow> string \<Rightarrow> string" where
  "limitAccount kind scope = kind @ ''_'' @ scope"

definition teamMemberLimitAccount :: "limit_env \<Rightarrow> string \<Rightarrow> string \<Rightarrow> string" where
  "teamMemberLimitAccount L team user = ''team_member_'' @ base32 (le_pair L team user)"

text \<open>
  \<open>canonicalTeamMemberScopeID\<close>: the text of 32 bytes, printed back the same. Its 52 letters hold 260 bits, of
  which the last four have to be zero.
\<close>

definition canonicalTeamMemberScopeID :: "string \<Rightarrow> bool" where
  "canonicalTeamMemberScopeID s \<longleftrightarrow>
     length s = 52 \<and> set s \<subseteq> set base32_alphabet \<and> last s \<in> {CHR ''A'', CHR ''Q''}"

definition projectMonthlyID :: "string \<Rightarrow> bool" where
  "projectMonthlyID s \<longleftrightarrow> take 4 s = ''prj_'' \<and> length s > 4 \<and> safeTeamSessionID s"

definition projectWarningKeyID :: "string \<Rightarrow> bool" where
  "projectWarningKeyID s \<longleftrightarrow> safeTeamSessionID s \<and> take 4 s = ''pky_''"

section \<open>Rows as policies\<close>

definition row_policy :: "limit_row \<Rightarrow> string list \<Rightarrow> policy" where
  "row_policy row ranges =
     \<lparr>p_Tokens5H = lr_Tokens5H row, p_Tokens7D = lr_Tokens7D row, p_TokensMonthBehavior = lr_TokensMonthBehavior row,
      p_MoneyMonthBehavior = lr_MoneyMonthBehavior row, p_TokensMonth = lr_TokensMonth row, p_TPM = lr_TPM row,
      p_MoneyMonth = lr_MoneyMonth row, p_Currency = lr_Currency row, p_RPM = lr_RPM row,
      p_Concurrency = lr_Concurrency row, p_IPMode = lr_IPMode row, p_IPRanges = ranges\<rparr>"

definition soft :: "policy \<Rightarrow> bool" where
  "soft p \<longleftrightarrow> p_TokensMonthBehavior p \<noteq> '''' \<or> p_MoneyMonthBehavior p \<noteq> ''''"

definition decodeLimitPolicy :: "limit_env \<Rightarrow> limit_row \<Rightarrow> bool \<Rightarrow> policy_error + policy" where
  "decodeLimitPolicy L row provedKey =
     bindE (if lr_IPRangesJSON row = '''' then Inr [] else orE (to_strings (parse_json (lr_IPRangesJSON row))) PolicyInvalid) (\<lambda>ranges.
     bindE (Normalize (le_texts L) (row_policy row ranges)) (\<lambda>normalized.
       let kind = lr_ScopeKind row in
       if kind \<noteq> ''user'' \<and> kind \<noteq> ''team'' \<and> kind \<noteq> ''project'' \<and> kind \<noteq> ''team_member'' \<and>
          (\<not> provedKey \<or> kind \<noteq> ''key'') \<and> soft normalized
       then Inl PolicyInvalid
       else if kind = ''team_member'' \<and> soft normalized \<and> \<not> canonicalTeamMemberScopeID (lr_ScopeID row) then Inl PolicyInvalid
       else if kind = ''project'' \<and> soft normalized \<and> \<not> projectMonthlyID (lr_ScopeID row) then Inl PolicyInvalid
       else Inr normalized))"

definition policyFromRow :: "limit_env \<Rightarrow> limit_row \<Rightarrow> policy_error + policy" where
  "policyFromRow L row = decodeLimitPolicy L row False"

definition personalKeyPolicyFromRow :: "limit_env \<Rightarrow> limit_row \<Rightarrow> chain_key \<Rightarrow> string \<Rightarrow> policy_error + policy" where
  "personalKeyPolicyFromRow L row first owner =
     (if lr_ScopeKind row \<noteq> ''key'' \<or> lr_ScopeID row \<noteq> ky_ID first \<or> ky_ID first = '''' \<or> owner = '''' \<or>
         ky_UserID first \<noteq> owner \<or> ck_ReplacesKeyID first \<noteq> None
      then Inl PolicyInvalid else decodeLimitPolicy L row True)"

definition projectKeyPolicyFromRow ::
  "limit_env \<Rightarrow> limit_row \<Rightarrow> chain_project_key \<Rightarrow> born_project \<Rightarrow> policy_error + policy" where
  "projectKeyPolicyFromRow L row first project =
     (if lr_ScopeKind row \<noteq> ''key'' \<or> lr_ScopeID row \<noteq> pk_ID first \<or> \<not> projectWarningKeyID (pk_ID first) \<or>
         \<not> projectMonthlyID (pr_ID project) \<or> pk_ProjectID first \<noteq> pr_ID project \<or> cpk_ReplacesKeyID first \<noteq> None \<or>
         bp_CreatedAt project = None \<or> cpk_CreatedAt first = None \<or> time_before (cpk_CreatedAt first) (bp_CreatedAt project)
      then Inl PolicyInvalid else decodeLimitPolicy L row True)"

definition validateTeamLimitPolicy :: "string \<Rightarrow> policy \<Rightarrow> policy_error + unit" where
  "validateTeamLimitPolicy kind p =
     (if kind \<noteq> ''team'' \<and> kind \<noteq> ''team_member'' \<or> p_IPMode p \<noteq> '''' \<and> p_IPMode p \<noteq> ''none'' \<or> p_IPRanges p \<noteq> []
      then Inl PolicyInvalid
      else if kind = ''team_member'' \<and> (p_Tokens5H p \<noteq> None \<or> p_Tokens7D p \<noteq> None) then Inl PolicyInvalid
      else Inr ())"

section \<open>Chains of keys\<close>

text \<open>A Go map filled by a loop: the last row of an identifier counts.\<close>

definition personal_nodes :: "chain_key list \<Rightarrow> (string \<times> rotation_node) list" where
  "personal_nodes keys =
     rev (map (\<lambda>k. (ky_ID k, \<lparr>node_owner = ky_UserID k, node_parent = text_or (ck_ReplacesKeyID k)\<rparr>)) keys)"

definition project_nodes :: "chain_project_key list \<Rightarrow> (string \<times> rotation_node) list" where
  "project_nodes keys =
     rev (map (\<lambda>k. (pk_ID k, \<lparr>node_owner = pk_ProjectID k, node_parent = text_or (cpk_ReplacesKeyID k)\<rparr>)) keys)"

definition walk_roots :: "limit_env \<Rightarrow> (string \<times> rotation_node) list \<Rightarrow> policy_error + root_memo" where
  "walk_roots L nodes = rotationRoots (le_walk L nodes) nodes"

definition personalLimitRoots :: "limit_env \<Rightarrow> chain_key list \<Rightarrow> policy_error + root_memo" where
  "personalLimitRoots L keys = walk_roots L (personal_nodes keys)"

definition projectLimitRoots :: "limit_env \<Rightarrow> chain_project_key list \<Rightarrow> policy_error + root_memo" where
  "projectLimitRoots L keys = walk_roots L (project_nodes keys)"

definition occurrences :: "('a \<Rightarrow> string) \<Rightarrow> 'a list \<Rightarrow> string \<Rightarrow> nat" where
  "occurrences f xs s = length (filter (\<lambda>x. f x = s) xs)"

definition project_keys :: "limit_data \<Rightarrow> chain_project_key list" where
  "project_keys data = (case ld_ProjectData data of None \<Rightarrow> [] | Some d \<Rightarrow> snd d)"

definition runtimePersonalKeyRoots :: "limit_data \<Rightarrow> string \<Rightarrow> chain_key option" where
  "runtimePersonalKeyRoots data key =
     (case index_by ky_ID (filter (\<lambda>k. ck_ReplacesKeyID k = None \<and> ky_ID k \<noteq> '''' \<and> ky_UserID k \<noteq> '''' \<and>
                                       occurrences us_ID (ld_Users data) (ky_UserID k) = 1) (ld_Keys data)) key of
        None \<Rightarrow> None
      | Some k \<Rightarrow>
          if occurrences pk_ID (project_keys data) key + occurrences ky_ID (ld_Keys data) key = 1 then Some k else None)"

definition runtimePersonalLimitOwners :: "limit_data \<Rightarrow> string \<Rightarrow> string option" where
  "runtimePersonalLimitOwners data = map_option ky_UserID \<circ> runtimePersonalKeyRoots data"

definition projectKeyWarningChainLimit :: nat where
  "projectKeyWarningChainLimit = 10000"

fun warning_keys :: "limit_env \<Rightarrow> born_project \<Rightarrow> chain_project_key list \<Rightarrow> string list \<Rightarrow> bool" where
  "warning_keys L project [] seen = True"
| "warning_keys L project (key # keys) seen =
     (let folded = le_lower L (pk_ID key) in
      if \<not> projectWarningKeyID (pk_ID key) \<or> pk_ProjectID key \<noteq> pr_ID project \<or> cpk_CreatedAt key = None \<or>
         time_before (cpk_CreatedAt key) (bp_CreatedAt project) \<or> folded \<in> set seen
      then False
      else if pk_Status key \<notin> set [''pending'', ''active'', ''disabled'', ''revoked''] then False
      else if (case cpk_ReplacesKeyID key of None \<Rightarrow> False | Some p \<Rightarrow> \<not> projectWarningKeyID p) then False
      else warning_keys L project keys (folded # seen))"

definition projectKeyWarningRoots :: "limit_env \<Rightarrow> chain_project_key list \<Rightarrow> born_project \<Rightarrow> root_memo option" where
  "projectKeyWarningRoots L keys project =
     (if \<not> safeTeamSessionID (pr_ID project) \<or> bp_CreatedAt project = None \<or> keys = [] \<or>
         length keys > projectKeyWarningChainLimit \<or> \<not> warning_keys L project keys []
      then None
      else case projectLimitRoots L keys of Inl _ \<Rightarrow> None | Inr roots \<Rightarrow> Some roots)"

type_synonym key_identities = "string \<Rightarrow> (chain_project_key \<times> born_project) option"

definition project_identities ::
  "limit_env \<Rightarrow> limit_data \<Rightarrow> born_project list \<Rightarrow> chain_project_key list \<Rightarrow> born_project \<Rightarrow> key_identities \<Rightarrow> key_identities" where
  "project_identities L data projects all_keys project m =
     (if occurrences (le_lower L \<circ> pr_ID) projects (le_lower L (pr_ID project)) \<noteq> 1 \<or> \<not> projectMonthlyID (pr_ID project) then m
      else let keys = filter (\<lambda>k. pk_ProjectID k = pr_ID project) all_keys;
               disjoint = list_all (\<lambda>k. occurrences (le_lower L \<circ> ky_ID) (ld_Keys data) (le_lower L (pk_ID k)) +
                                        occurrences (le_lower L \<circ> pk_ID) all_keys (le_lower L (pk_ID k)) = 1) keys
           in case projectKeyWarningRoots L keys project of
                None \<Rightarrow> m
              | Some roots \<Rightarrow>
                  if \<not> disjoint then m
                  else fold (\<lambda>k m. if text_or (roots (pk_ID k)) = pk_ID k then m(pk_ID k \<mapsto> (k, project)) else m) keys m)"

definition runtimeProjectKeyRoots :: "limit_env \<Rightarrow> limit_data \<Rightarrow> key_identities" where
  "runtimeProjectKeyRoots L data =
     (case ld_ProjectData data of
        None \<Rightarrow> (\<lambda>_. None)
      | Some (projects, keys) \<Rightarrow> fold (project_identities L data projects keys) projects (\<lambda>_. None))"

definition runtimeProjectMonthlyIdentity :: "limit_data \<Rightarrow> string \<Rightarrow> bool" where
  "runtimeProjectMonthlyIdentity data target \<longleftrightarrow>
     projectMonthlyID target \<and>
     (case ld_ProjectData data of
        None \<Rightarrow> False
      | Some (projects, _) \<Rightarrow>
          list_all (\<lambda>p. pr_ID p = target \<longrightarrow> bp_CreatedAt p \<noteq> None) projects \<and> occurrences pr_ID projects target = 1)"

section \<open>Current Team accounts\<close>

definition team_users :: "limit_data \<Rightarrow> string \<Rightarrow> bool" where
  "team_users data u \<longleftrightarrow>
     list_ex (\<lambda>r. us_ID r = u \<and> safeTeamSessionID (us_ID r) \<and> active_user r) (ld_Users data)"

definition live_teams :: "team_row list \<Rightarrow> string \<Rightarrow> team_row option" where
  "live_teams teams = index_by tm_ID (filter (\<lambda>t. safeTeamSessionID (tm_ID t) \<and> tm_Status t = ResourceActive) teams)"

type_synonym births = "string \<Rightarrow> int option option"

definition team_account :: "team_row \<Rightarrow> births \<Rightarrow> births" where
  "team_account t m =
     (if safeTeamSessionID (tm_ID t) \<and> tm_Status t = ResourceActive
      then m(limitAccount ''team'' (tm_ID t) \<mapsto> tm_CreatedAt t) else m)"

definition member_account :: "limit_env \<Rightarrow> limit_data \<Rightarrow> team_row list \<Rightarrow> membership_row \<Rightarrow> births \<Rightarrow> births" where
  "member_account L data teams member m =
     (case live_teams teams (mb_TeamID member) of
        None \<Rightarrow> m
      | Some t \<Rightarrow>
          if team_users data (mb_UserID member) \<and> safeTeamSessionID (mb_ID member) \<and> mb_Status member = ResourceActive \<and>
             (mb_Role member = ''owner'' \<or> mb_Role member = ''member'')
          then m(teamMemberLimitAccount L (mb_TeamID member) (mb_UserID member) \<mapsto> tm_CreatedAt t) else m)"

definition runtimeTeamLimitAccounts :: "limit_env \<Rightarrow> limit_data \<Rightarrow> births" where
  "runtimeTeamLimitAccounts L data =
     (case ld_TeamData data of
        None \<Rightarrow> (\<lambda>_. None)
      | Some (teams, members) \<Rightarrow>
          fold (member_account L data teams) members (fold team_account teams (\<lambda>_. None)))"

section \<open>The policies of a snapshot\<close>

definition row_proved :: "limit_env \<Rightarrow> limit_data \<Rightarrow> limit_row \<Rightarrow> policy_error + policy" where
  "row_proved L data row =
     (case policyFromRow L row of
        Inr p \<Rightarrow> Inr p
      | Inl e \<Rightarrow>
          if lr_ScopeKind row = ''key'' then
            (case runtimePersonalKeyRoots data (lr_ScopeID row) of
               Some first \<Rightarrow> personalKeyPolicyFromRow L row first (ky_UserID first)
             | None \<Rightarrow>
                 (case runtimeProjectKeyRoots L data (lr_ScopeID row) of
                    Some (first, project) \<Rightarrow> projectKeyPolicyFromRow L row first project
                  | None \<Rightarrow> Inl e))
          else Inl e)"

definition limit_kinds :: "string list" where
  "limit_kinds = [''user'', ''project'', ''key'', ''team'', ''team_member'']"

definition compile_row ::
  "limit_env \<Rightarrow> limit_data \<Rightarrow> limit_row \<Rightarrow> (string \<Rightarrow> policy option) \<Rightarrow> policy_error + (string \<Rightarrow> policy option)" where
  "compile_row L data row policies =
     (if lr_ScopeKind row \<notin> set limit_kinds then Inl PolicyInvalid
      else bindE (row_proved L data row) (\<lambda>policy.
        if lr_ScopeKind row = ''project'' \<and> soft policy \<and> \<not> runtimeProjectMonthlyIdentity data (lr_ScopeID row)
        then Inl PolicyInvalid
        else let account = limitAccount (lr_ScopeKind row) (lr_ScopeID row) in
          if lr_ScopeKind row = ''team'' \<or> lr_ScopeKind row = ''team_member'' then
            bindE (validateTeamLimitPolicy (lr_ScopeKind row) policy) (\<lambda>_.
              if runtimeTeamLimitAccounts L data account = None then Inr policies else Inr (policies(account \<mapsto> policy)))
          else Inr (policies(account \<mapsto> policy))))"

record compiled_limits =
  cl_Policies :: "string \<Rightarrow> policy option"
  cl_Roots :: root_memo

definition compileRuntimeLimits :: "limit_env \<Rightarrow> limit_data \<Rightarrow> policy_error + compiled_limits" where
  "compileRuntimeLimits L data =
     bindE (foldE (compile_row L data) (ld_Limits data) (\<lambda>_. None)) (\<lambda>policies.
     bindE (personalLimitRoots L (ld_Keys data)) (\<lambda>roots.
       case ld_ProjectData data of
         None \<Rightarrow> Inr \<lparr>cl_Policies = policies, cl_Roots = roots\<rparr>
       | Some (_, keys) \<Rightarrow>
           bindE (projectLimitRoots L keys) (\<lambda>projects.
             Inr \<lparr>cl_Policies = policies, cl_Roots = roots ++ projects\<rparr>)))"

section \<open>The accounts of members\<close>

text \<open>The account of a pair carries a scope that is canonical, since a digest has 32 bytes.\<close>

lemma bits_value_bound: "bits_value bs < 2 ^ length bs"
proof (induction bs rule: rev_induct)
  case (snoc b bs)
  then show ?case by (cases b) (simp_all add: bits_value_def)
qed (simp add: bits_value_def)

lemma base32_letter_in: "base32_letter bs \<in> set base32_alphabet"
proof -
  have "bits_value (take 5 (bs @ replicate 4 False)) < 2 ^ 5"
    using bits_value_bound[of "take 5 (bs @ replicate 4 False)"] by (rule less_le_trans) (intro power_increasing, auto)
  then show ?thesis unfolding base32_letter_def by (intro nth_mem) (simp add: base32_alphabet_def)
qed

lemma base32_letters: "set (base32_bits bs) \<subseteq> set base32_alphabet"
  by (induction bs rule: base32_bits.induct) (simp_all add: base32_letter_in)

lemma base32_length: "length (base32_bits bs) = (length bs + 4) div 5"
proof (induction bs rule: base32_bits.induct)
  case (2 b bs)
  then show ?case by (cases "length bs \<le> 4") auto
qed simp

lemma base32_letter_bit: "base32_letter [True] = CHR ''Q''" "base32_letter [False] = CHR ''A''"
  by code_simp+

text \<open>Where one bit is left for the last letter, the other four are zero.\<close>

lemma base32_last: "length bs mod 5 = 1 \<Longrightarrow> last (base32_bits bs) \<in> {CHR ''A'', CHR ''Q''}"
proof (induction bs rule: base32_bits.induct)
  case (2 b bs)
  show ?case
  proof (cases "length bs < 5")
    case True
    have "Suc (length bs) mod 5 = 1" using 2(2) by simp
    then have "length bs = 0" using True by presburger
    then have "bs = []" by simp
    then show ?thesis by (cases b) (simp_all add: base32_letter_bit)
  next
    case False
    define k where "k = length bs - 4"
    then have "length bs = k + 4" using False by simp
    then have "(k + 5) mod 5 = 1" using 2(2) by (simp add: add.commute)
    then have "length (drop 4 bs) mod 5 = 1" by (simp add: k_def)
    moreover have "base32_bits (drop 4 bs) \<noteq> []" using False by (cases "drop 4 bs") simp_all
    ultimately show ?thesis using 2(1) by simp
  qed
qed simp

lemma base32_canonical:
  assumes "length raw = 32"
  shows "canonicalTeamMemberScopeID (base32 raw)"
proof -
  have "length (concat (map byte_bits raw)) = 256"
    using assms by (simp add: length_concat o_def byte_bits_def sum_list_triv)
  then show ?thesis using base32_last[of "concat (map byte_bits raw)"]
    by (simp add: canonicalTeamMemberScopeID_def base32_def base32_length base32_letters)
qed

end
