(* ===== verification/Call_Limits.thy ===== *)
theory Call_Limits
  imports Limit_Scopes Call_Recorder Gateway_Routes
begin

text \<open>
  The limits and quotas a call is admitted under: \<open>gatewayLimits\<close> and \<open>admitLimitedGatewayCall\<close> of
  \<open>resource_limits_runtime.go\<close>, \<open>loadRuntimeQuota\<close> and \<open>gatewayQuotaPolicies\<close> of \<open>quota_runtime.go\<close>, and the
  proofs that let a policy be soft (\<open>personal_key_monthly_behavior.go\<close>, \<open>project_key_monthly_behavior.go\<close>,
  \<open>team_member_monthly_behavior.go\<close>), all under \<open>internal/routex/service\<close>. The model is of a service with a
  runtime; the branches that read the database instead (\<open>s.runtime == nil\<close>, a service without a publisher)
  are not modelled. A snapshot is published whole: \<open>limit_snapshot\<close> has the fields of
  \<open>runtimeAuthorization\<close> that these functions read, beside those of \<open>runtime_authorization\<close>. Whether a
  session is still authorized is a parameter, as in \<open>Gateway_Routes\<close>.
\<close>

section \<open>The quota data of a snapshot\<close>

record bound_row = reservation_bound +
  br_TransportGeneration :: string
  br_ProviderModelID :: string

record runtime_quota =
  nq_TimeZone :: string
  nq_Bounds :: "(string \<times> bound_row) list"
  nq_Created :: births
  nq_Revisions :: "string \<Rightarrow> string option"
  nq_Currency :: string

definition capacityTransportCurrent :: "bound_row \<Rightarrow> provider_model_row \<Rightarrow> connection_row \<Rightarrow> bool" where
  "capacityTransportCurrent b pm c \<longleftrightarrow>
     br_ProviderModelID b = pm_ID pm \<and> pm_ConnectionID pm = cn_ID c \<and> rb_Protocol b = cn_Protocol c \<and>
     connectionMetadataBirth (pm_CreatedAt pm) \<and> connectionMetadataBirth (cn_CreatedAt c) \<and>
     validTransportGeneration (br_TransportGeneration b) \<and> validTransportGeneration (cn_TransportGeneration c) \<and>
     br_TransportGeneration b = cn_TransportGeneration c"

definition capacity_step ::
  "provider_model_row list \<Rightarrow> connection_row list \<Rightarrow> bound_row \<Rightarrow> (string \<times> bound_row) list \<Rightarrow>
   policy_error + (string \<times> bound_row) list" where
  "capacity_step pms conns row bounds =
     (if rb_MaxInputTokens row \<le> 0 \<or> rb_MaxInputTokens row > MaxInteger \<or> rb_MaxOutputTokens row \<le> 0 \<or>
         rb_MaxOutputTokens row > MaxInteger \<or> rb_ETag row = '''' \<or> \<not> SupportedNativeProtocol (rb_Protocol row)
      then Inl PolicyInvalid
      else if list_ex (\<lambda>pm. pm_ID pm = br_ProviderModelID row \<and> list_ex (capacityTransportCurrent row pm) conns) pms
      then Inr (AList.update (br_ProviderModelID row) row bounds) else Inr bounds)"

definition set_births :: "('a \<Rightarrow> string) \<Rightarrow> ('a \<Rightarrow> int option) \<Rightarrow> 'a list \<Rightarrow> births \<Rightarrow> births" where
  "set_births account created rows m = fold (\<lambda>x m. m(account x \<mapsto> created x)) rows m"

definition account_births :: "limit_env \<Rightarrow> limit_data \<Rightarrow> births" where
  "account_births L data =
     (let own = set_births (\<lambda>k. limitAccount ''key'' (ky_ID k)) ck_CreatedAt (ld_Keys data)
                  (set_births (\<lambda>u. limitAccount ''user'' (us_ID u)) us_CreatedAt (ld_Users data) (\<lambda>_. None));
          shared = (case ld_ProjectData data of
                      None \<Rightarrow> own
                    | Some (projects, keys) \<Rightarrow>
                        set_births (\<lambda>k. limitAccount ''key'' (pk_ID k)) cpk_CreatedAt keys
                          (set_births (\<lambda>p. limitAccount ''project'' (pr_ID p)) bp_CreatedAt projects own))
      in shared ++ runtimeTeamLimitAccounts L data)"

text \<open>
  The reads of the transaction succeed; \<open>zone\<close> is the time zone of the one setting, \<open>known\<close> whether
  \<open>time.LoadLocation\<close> knows it, \<open>currency\<close> the platform currency where there is pricing.
\<close>

definition loadRuntimeQuota ::
  "limit_env \<Rightarrow> (string \<Rightarrow> bool) \<Rightarrow> string \<Rightarrow> bound_row list \<Rightarrow> provider_model_row list \<Rightarrow> connection_row list \<Rightarrow> limit_data \<Rightarrow>
   string option \<Rightarrow> policy_error + runtime_quota" where
  "loadRuntimeQuota L known zone rows pms conns data currency =
     (if zone = '''' \<or> \<not> known zone then Inl PolicyInvalid
      else bindE (foldE (capacity_step pms conns) rows []) (\<lambda>bounds.
        Inr \<lparr>nq_TimeZone = zone, nq_Bounds = bounds, nq_Created = account_births L data,
             nq_Revisions = fold (\<lambda>r m. m(limitAccount (lr_ScopeKind r) (lr_ScopeID r) \<mapsto> lr_ETag r)) (ld_Limits data) (\<lambda>_. None),
             nq_Currency = text_or currency\<rparr>))"

section \<open>The snapshot\<close>

record runtime_team =
  te_CreatedAt :: "int option"
  te_Members :: "string \<Rightarrow> string option"

record limit_snapshot =
  ls_Policies :: "string \<Rightarrow> policy option"
  ls_Roots :: root_memo
  ls_PersonalOwners :: "string \<Rightarrow> string option"
  ls_ProjectOwners :: key_identities
  ls_UserEnabled :: "string \<Rightarrow> bool"
  ls_Projects :: "string \<Rightarrow> born_project option"
  ls_KeyCreated :: "string \<Rightarrow> int option"
  ls_Teams :: "string \<Rightarrow> runtime_team option"
  ls_Quota :: "runtime_quota option"

definition team_members :: "limit_data \<Rightarrow> (string \<Rightarrow> bool) \<Rightarrow> membership_row list \<Rightarrow> string \<Rightarrow> string \<Rightarrow> string option" where
  "team_members data eligible members team =
     map_option mb_ID \<circ>
     index_by mb_UserID (filter (\<lambda>m. mb_TeamID m = team \<and> safeTeamSessionID (mb_ID m) \<and>
       list_ex (\<lambda>u. us_ID u = mb_UserID m \<and> safeTeamSessionID (us_ID u) \<and> eligible (us_ID u)) (ld_Users data) \<and>
       mb_Status m = ResourceActive \<and> (mb_Role m = ''owner'' \<or> mb_Role m = ''member'')) members)"

text \<open>
  The fields as \<open>buildRuntimeAuthorization\<close> fills them; \<open>eligible\<close> is \<open>UserAdmissions[id].Eligible\<close>. A key
  of \<open>KeysByID\<close> keeps the creation time of its row.
\<close>

definition limitSnapshot ::
  "limit_env \<Rightarrow> limit_data \<Rightarrow> (string \<Rightarrow> bool) \<Rightarrow> compiled_limits \<Rightarrow> runtime_quota option \<Rightarrow> limit_snapshot" where
  "limitSnapshot L data eligible c quota =
     \<lparr>ls_Policies = cl_Policies c, ls_Roots = cl_Roots c, ls_PersonalOwners = runtimePersonalLimitOwners data,
      ls_ProjectOwners = runtimeProjectKeyRoots L data,
      ls_UserEnabled = (\<lambda>u. case index_by us_ID (ld_Users data) u of None \<Rightarrow> False | Some r \<Rightarrow> active_user r),
      ls_Projects = (case ld_ProjectData data of None \<Rightarrow> (\<lambda>_. None) | Some (projects, _) \<Rightarrow> index_by pr_ID projects),
      ls_KeyCreated = (\<lambda>k. case index_by pk_ID (project_keys data) k of
                             Some r \<Rightarrow> cpk_CreatedAt r
                           | None \<Rightarrow> (case index_by ky_ID (ld_Keys data) k of Some r \<Rightarrow> ck_CreatedAt r | None \<Rightarrow> None)),
      ls_Teams = (case ld_TeamData data of
                    None \<Rightarrow> (\<lambda>_. None)
                  | Some (teams, members) \<Rightarrow> (\<lambda>t. map_option (\<lambda>row. \<lparr>te_CreatedAt = tm_CreatedAt row,
                        te_Members = team_members data eligible members t\<rparr>) (live_teams teams t))),
      ls_Quota = quota\<rparr>"

section \<open>The limits of a call\<close>

text \<open>The subject of a session, request-local: the fields read of \<open>result.identity\<close>.\<close>

record session_subject =
  ss_PersonalUserID :: string
  ss_TeamUserID :: string
  ss_TeamID :: string
  ss_TeamMembershipID :: string
  ss_teamCreatedAt :: "int option"

definition no_policy :: policy where
  "no_policy = \<lparr>p_Tokens5H = None, p_Tokens7D = None, p_TokensMonthBehavior = '''', p_MoneyMonthBehavior = '''',
     p_TokensMonth = None, p_TPM = None, p_MoneyMonth = None, p_Currency = '''', p_RPM = None, p_Concurrency = None,
     p_IPMode = '''', p_IPRanges = []\<rparr>"

definition policy_at :: "(string \<Rightarrow> policy option) \<Rightarrow> string \<Rightarrow> policy" where
  "policy_at policies account = (case policies account of None \<Rightarrow> no_policy | Some p \<Rightarrow> p)"

definition limit_for :: "(string \<Rightarrow> policy option) \<Rightarrow> string \<Rightarrow> limit" where
  "limit_for policies account =
     \<lparr>lim_Account = account, lim_RPM = p_RPM (policy_at policies account), lim_Concurrency = p_Concurrency (policy_at policies account)\<rparr>"

definition IPNotAllowed :: service_error where
  "IPNotAllowed = GatewayError 403 ''ip_not_allowed''"

text \<open>The loop over the accounts; the address is consulted except for a Team.\<close>

fun charge :: "texts \<Rightarrow> 'r runtime \<Rightarrow> (string \<Rightarrow> policy option) \<Rightarrow> addr option \<Rightarrow> string list \<Rightarrow> service_error + limit list" where
  "charge T rn policies ip [] = Inr []"
| "charge T rn policies ip (account # accounts) =
     (if runtimeDenied rn DenyLimits account then Inl RuntimeUnavailable
      else if (case ip of None \<Rightarrow> False | Some a \<Rightarrow> \<not> Allows T (policy_at policies account) a) then Inl IPNotAllowed
      else bindE (charge T rn policies ip accounts) (\<lambda>ls. Inr (limit_for policies account # ls)))"

definition personal_limits ::
  "session_checks \<Rightarrow> texts \<Rightarrow> 'r runtime \<Rightarrow> limit_snapshot \<Rightarrow> int \<Rightarrow> addr \<Rightarrow> session_subject \<Rightarrow> gateway_result \<Rightarrow>
   service_error + limit list" where
  "personal_limits sc T rn snap now ip sub r =
     (if gr_selectedModelID r = '''' \<or> gr_ModelID r \<noteq> gr_selectedModelID r \<or> gr_key r \<or> gr_team r \<or>
         gr_UserID r \<noteq> ss_PersonalUserID sub \<or> gr_KeyID r \<noteq> '''' \<or> gr_TeamID r \<noteq> '''' \<or> gr_TeamMembershipID r \<noteq> '''' \<or>
         gr_ProjectID r \<noteq> ''''
      then Inl RuntimeUnavailable
      else case sc_personal sc (gr_ModelID r) of
          Some e \<Rightarrow> Inl e
        | None \<Rightarrow>
            if valid_auth rn now = None then Inl RuntimeUnavailable
            else charge T rn (ls_Policies snap) (Some ip) [limitAccount ''user'' (gr_UserID r)])"

definition team_limits ::
  "session_checks \<Rightarrow> limit_env \<Rightarrow> 'r runtime \<Rightarrow> limit_snapshot \<Rightarrow> int \<Rightarrow> session_subject \<Rightarrow> gateway_result \<Rightarrow>
   service_error + limit list" where
  "team_limits sc L rn snap now sub r =
     (if \<not> gr_team r \<or> gr_UserID r \<noteq> ss_TeamUserID sub \<or> gr_TeamID r \<noteq> ss_TeamID sub \<or>
         gr_TeamMembershipID r \<noteq> ss_TeamMembershipID sub \<or> gr_KeyID r \<noteq> '''' \<or> gr_ProjectID r \<noteq> ''''
      then Inl RuntimeUnavailable
      else case sc_team sc (gr_ModelID r) of
          Some e \<Rightarrow> Inl e
        | None \<Rightarrow>
            if valid_auth rn now = None then Inl RuntimeUnavailable
            else charge (le_texts L) rn (ls_Policies snap) None
                   [limitAccount ''team'' (gr_TeamID r), teamMemberLimitAccount L (gr_TeamID r) (gr_UserID r)])"

definition parent_account :: "gateway_result \<Rightarrow> string" where
  "parent_account r =
     (if gr_ProjectID r \<noteq> '''' then limitAccount ''project'' (gr_ProjectID r) else limitAccount ''user'' (gr_UserID r))"

definition key_limits ::
  "texts \<Rightarrow> 'r runtime \<Rightarrow> limit_snapshot \<Rightarrow> int \<Rightarrow> addr \<Rightarrow> gateway_result \<Rightarrow> service_error + limit list" where
  "key_limits T rn snap now ip r =
     (if valid_auth rn now = None then Inl RuntimeUnavailable
      else let chain = text_or (ls_Roots snap (gr_KeyID r)) in
        if chain = '''' then Inl RuntimeUnavailable
        else charge T rn (ls_Policies snap) (Some ip) [parent_account r, limitAccount ''key'' chain])"

definition gatewayLimits ::
  "session_checks \<Rightarrow> limit_env \<Rightarrow> 'r runtime \<Rightarrow> limit_snapshot \<Rightarrow> int \<Rightarrow> addr \<Rightarrow> session_subject \<Rightarrow> gateway_result \<Rightarrow>
   service_error + limit list" where
  "gatewayLimits sc L rn snap now ip sub r =
     (if gr_personal r then personal_limits sc (le_texts L) rn snap now ip sub r
      else if gr_TeamID r \<noteq> '''' then team_limits sc L rn snap now sub r
      else key_limits (le_texts L) rn snap now ip r)"

section \<open>The quota policies of a call\<close>

definition birth :: "births \<Rightarrow> string \<Rightarrow> int option" where
  "birth m account = (case m account of None \<Rightarrow> None | Some t \<Rightarrow> t)"

definition personalKeyQuotaProof :: "runtime_authorization \<Rightarrow> limit_snapshot \<Rightarrow> gateway_result \<Rightarrow> string \<Rightarrow> bool" where
  "personalKeyQuotaProof auth snap r account \<longleftrightarrow>
     gr_ProjectID r = '''' \<and> gr_TeamID r = '''' \<and> gr_UserID r \<noteq> '''' \<and> gr_KeyID r \<noteq> '''' \<and>
     (case ra_KeysByID auth (gr_KeyID r) of
        None \<Rightarrow> False
      | Some current \<Rightarrow>
          let chain = text_or (ls_Roots snap (gr_KeyID r)) in
          rk_ProjectID current = '''' \<and> ky_ID (rk_Key current) = gr_KeyID r \<and> ky_UserID (rk_Key current) = gr_UserID r \<and>
          chain \<noteq> '''' \<and> text_or (ls_PersonalOwners snap chain) = gr_UserID r \<and> ls_UserEnabled snap (gr_UserID r) \<and>
          account = limitAccount ''key'' chain)"

definition projectKeyQuotaProof :: "runtime_authorization \<Rightarrow> limit_snapshot \<Rightarrow> gateway_result \<Rightarrow> string \<Rightarrow> bool" where
  "projectKeyQuotaProof auth snap r account \<longleftrightarrow>
     gr_ProjectID r \<noteq> '''' \<and> gr_UserID r = '''' \<and> gr_TeamID r = '''' \<and> gr_KeyID r \<noteq> '''' \<and>
     (let chain = text_or (ls_Roots snap (gr_KeyID r)) in
      case (ls_Quota snap, ls_ProjectOwners snap chain, ra_KeysByID auth (gr_KeyID r), ls_Projects snap (gr_ProjectID r)) of
        (Some quota, Some (first, project), Some current, Some state) \<Rightarrow>
          pr_ID state = gr_ProjectID r \<and> pr_Status state = ResourceActive \<and> bp_CreatedAt state = bp_CreatedAt project \<and>
          bp_CreatedAt project \<noteq> None \<and> pr_ID project = gr_ProjectID r \<and> pk_ProjectID first = gr_ProjectID r \<and>
          pk_ID first = chain \<and> cpk_ReplacesKeyID first = None \<and> cpk_CreatedAt first \<noteq> None \<and>
          birth (nq_Created quota) (limitAccount ''key'' chain) = cpk_CreatedAt first \<and>
          rk_ProjectID current = gr_ProjectID r \<and> ky_UserID (rk_Key current) = '''' \<and> ky_ID (rk_Key current) = gr_KeyID r \<and>
          ky_Status (rk_Key current) = KeyActive \<and> ls_KeyCreated snap (gr_KeyID r) \<noteq> None \<and>
          birth (nq_Created quota) (limitAccount ''key'' (gr_KeyID r)) = ls_KeyCreated snap (gr_KeyID r) \<and>
          account = limitAccount ''key'' chain
      | _ \<Rightarrow> False)"

definition teamMemberQuotaProof ::
  "limit_env \<Rightarrow> runtime_authorization \<Rightarrow> limit_snapshot \<Rightarrow> session_subject \<Rightarrow> gateway_result \<Rightarrow> string \<Rightarrow> bool" where
  "teamMemberQuotaProof L auth snap sub r account \<longleftrightarrow>
     gr_team r \<and> gr_ProjectID r = '''' \<and> gr_KeyID r = '''' \<and> safeTeamSessionID (gr_TeamID r) \<and> safeTeamSessionID (gr_UserID r) \<and>
     safeTeamSessionID (gr_TeamMembershipID r) \<and> ss_TeamID sub = gr_TeamID r \<and> ss_TeamUserID sub = gr_UserID r \<and>
     ss_TeamMembershipID sub = gr_TeamMembershipID r \<and> ss_teamCreatedAt sub \<noteq> None \<and>
     (case (ls_Quota snap, ls_Teams snap (gr_TeamID r)) of
        (Some quota, Some team) \<Rightarrow>
          text_or (te_Members team (gr_UserID r)) = gr_TeamMembershipID r \<and> eligible_user (ra_UserAdmissions auth) (gr_UserID r) \<and>
          te_CreatedAt team = ss_teamCreatedAt sub \<and>
          birth (nq_Created quota) (teamMemberLimitAccount L (gr_TeamID r) (gr_UserID r)) = te_CreatedAt team \<and>
          account = teamMemberLimitAccount L (gr_TeamID r) (gr_UserID r)
      | _ \<Rightarrow> False)"

definition quota_policy ::
  "limit_env \<Rightarrow> runtime_authorization \<Rightarrow> limit_snapshot \<Rightarrow> runtime_quota \<Rightarrow> session_subject \<Rightarrow> gateway_result \<Rightarrow> limit \<Rightarrow>
   quota_limit" where
  "quota_policy L auth snap quota sub r item =
     (let account = lim_Account item; p = policy_at (ls_Policies snap) account;
          revision = text_or (nq_Revisions quota account)
      in \<lparr>ql_Limit = item, ql_Revision = (if revision = '''' then ''0'' else revision),
          ql_PersonalKey = personalKeyQuotaProof auth snap r account,
          ql_ProjectKey = projectKeyQuotaProof auth snap r account,
          ql_TeamMember = teamMemberQuotaProof L auth snap sub r account,
          ql_CreatedAt = (if gr_TeamID r \<noteq> '''' then ss_teamCreatedAt sub else birth (nq_Created quota) account),
          ql_Tokens5H = p_Tokens5H p, ql_Tokens7D = p_Tokens7D p, ql_TokensMonth = p_TokensMonth p, ql_TPM = p_TPM p,
          ql_MoneyMonth = p_MoneyMonth p, ql_Currency = p_Currency p, ql_TokensMonthBehavior = p_TokensMonthBehavior p,
          ql_MoneyMonthBehavior = p_MoneyMonthBehavior p\<rparr>)"

definition quota_view :: "runtime_quota \<Rightarrow> quota_data" where
  "quota_view quota =
     \<lparr>qd_TimeZone = nq_TimeZone quota, qd_Bounds = map (\<lambda>(k, b). (k, reservation_bound.truncate b)) (nq_Bounds quota),
      qd_Currency = nq_Currency quota\<rparr>"

definition gatewayQuotaPolicies ::
  "limit_env \<Rightarrow> 'r runtime \<Rightarrow> limit_snapshot \<Rightarrow> int \<Rightarrow> session_subject \<Rightarrow> gateway_result \<Rightarrow> limit list \<Rightarrow>
   service_error + quota_limit list \<times> quota_data" where
  "gatewayQuotaPolicies L rn snap now sub r base =
     (case (valid_auth rn now, ls_Quota snap) of
        (Some auth, Some quota) \<Rightarrow>
          if runtimeDenied rn DenyLimits ''quota_settings'' then Inl RuntimeUnavailable
          else if gr_TeamID r \<noteq> '''' \<and> \<not> gr_team r \<and> base \<noteq> [] then Inl RuntimeUnavailable
          else Inr (map (quota_policy L auth snap quota sub r) base, quota_view quota)
      | _ \<Rightarrow> Inl RuntimeUnavailable)"

text \<open>
  The policies a call is admitted under, as its preflight, its preparation, its admission and its retries
  read them. The two functions each load the snapshot; between them a new one may be published.
\<close>

definition limited_result :: "gateway_result \<Rightarrow> limit list \<Rightarrow> quota_limit list \<Rightarrow> quota_bound \<Rightarrow> string \<Rightarrow> gateway_result" where
  "limited_result r limits policies bound zone =
     r\<lparr>gr_admissionLimits := limits, gr_admissionQuota := policies, gr_quotaBound := bound, gr_quotaTimeZone := zone\<rparr>"

definition current_policies ::
  "session_checks \<Rightarrow> limit_env \<Rightarrow> 'r runtime \<Rightarrow> limit_snapshot \<Rightarrow> 'r runtime \<Rightarrow> limit_snapshot \<Rightarrow> int \<Rightarrow> addr \<Rightarrow>
   session_subject \<Rightarrow> gateway_result \<Rightarrow> service_error + limit list \<times> quota_limit list \<times> quota_data" where
  "current_policies sc L rn snap rn' snap' now ip sub r =
     bindE (gatewayLimits sc L rn snap now ip sub r) (\<lambda>limits.
     bindE (gatewayQuotaPolicies L rn' snap' now sub r limits) (\<lambda>(policies, data). Inr (limits, policies, data)))"

definition admitLimitedGatewayCall ::
  "env \<Rightarrow> queue \<Rightarrow> 's bolt \<Rightarrow> codec \<Rightarrow> (string \<Rightarrow> bool) \<Rightarrow> bool \<Rightarrow> session_checks \<Rightarrow> limit_env \<Rightarrow> 'r runtime \<Rightarrow> limit_snapshot \<Rightarrow>
   'r runtime \<Rightarrow> limit_snapshot \<Rightarrow> int \<Rightarrow> addr \<Rightarrow> session_subject \<Rightarrow> string \<Rightarrow> gateway_result \<Rightarrow> 's \<Rightarrow>
   (service_error + unit) \<times> 's" where
  "admitLimitedGatewayCall E q B C intent recorder sc L rn snap rn' snap' now ip sub rid r s =
     (case current_policies sc L rn snap rn' snap' now ip sub r of
        Inl e \<Rightarrow> (Inl e, s)
      | Inr (limits, policies, data) \<Rightarrow>
          (case prepareQuotaBound C r policies data of
             Inl e \<Rightarrow> (Inl e, s)
           | Inr bound \<Rightarrow>
               AdmitGatewayCall E q B C intent recorder rid
                 (Some (limited_result r limits policies bound (qd_TimeZone data))) now s))"

end
