(* ===== verification/Limit_Claims.thy ===== *)
theory Limit_Claims
  imports Call_Limits Call_Claims
begin

text \<open>
  What the limits of a snapshot guarantee: a rotation chain has one root, found in every order of the
  search; every key of a chain is charged to the same accounts, so replacing a key neither resets nor
  multiplies what it may use; a call admitted under them is leased on every account it is charged to and
  within the ceilings of each; and a policy that only alerts is published only where its identity is proved.
\<close>

section \<open>Chains\<close>

text \<open>The order in which Go walks a map is some order of its keys.\<close>

definition walk_ok :: "limit_env \<Rightarrow> bool" where
  "walk_ok L \<longleftrightarrow> (\<forall>nodes. set (le_walk L nodes) = fst ` set nodes)"

lemma walk_roots_exact:
  assumes "walk_ok L" "walk_roots L nodes = Inr roots"
  shows "roots k = Some chain \<longleftrightarrow> rooted nodes k chain"
  using rotationRoots_exact[of "le_walk L nodes" nodes] assms by (simp add: walk_ok_def walk_roots_def)

text \<open>The chain of a key: the project keys of the snapshot come before the personal keys.\<close>

definition key_chain :: "limit_data \<Rightarrow> string \<Rightarrow> string \<Rightarrow> bool" where
  "key_chain data k chain \<longleftrightarrow>
     rooted (project_nodes (project_keys data)) k chain \<or>
     (\<forall>t. \<not> rooted (project_nodes (project_keys data)) k t) \<and> rooted (personal_nodes (ld_Keys data)) k chain"

lemma compiled_roots:
  assumes "walk_ok L" "compileRuntimeLimits L data = Inr c"
  shows "cl_Roots c k = Some chain \<longleftrightarrow> key_chain data k chain"
proof -
  obtain roots where own: "personalLimitRoots L (ld_Keys data) = Inr roots"
    using assms(2) by (auto simp: compileRuntimeLimits_def bindE_Inr_iff)
  note personal = walk_roots_exact[OF assms(1) own[unfolded personalLimitRoots_def]]
  show ?thesis
  proof (cases "ld_ProjectData data")
    case None
    have "\<not> rooted [] k' t" for k' t by (rule rooted_no_node) simp
    then show ?thesis using assms(2) own None personal
      by (auto simp: compileRuntimeLimits_def bindE_Inr_iff key_chain_def project_keys_def project_nodes_def)
  next
    case (Some d)
    then obtain projects where shared: "projectLimitRoots L (snd d) = Inr projects" "cl_Roots c = roots ++ projects"
      using assms(2) own by (cases d) (auto simp: compileRuntimeLimits_def bindE_Inr_iff)
    note project = walk_roots_exact[OF assms(1) shared(1)[unfolded projectLimitRoots_def]]
    have "(roots ++ projects) k = Some chain \<longleftrightarrow>
        projects k = Some chain \<or> (\<forall>t. projects k \<noteq> Some t) \<and> roots k = Some chain"
      by (cases "projects k") (simp_all add: map_add_def)
    then show ?thesis using Some shared(2) by (simp add: personal project key_chain_def project_keys_def)
  qed
qed

section \<open>The accounts of a call\<close>

lemma charge_Inr:
  "charge T rn policies ip accounts = Inr ls \<longleftrightarrow>
   ls = map (limit_for policies) accounts \<and>
   (\<forall>a \<in> set accounts. \<not> runtimeDenied rn DenyLimits a \<and> (\<forall>i. ip = Some i \<longrightarrow> Allows T (policy_at policies a) i))"
  by (induction accounts arbitrary: ls) (auto simp: bindE_Inr_iff split: option.splits)

definition charged_accounts :: "limit_env \<Rightarrow> limit_snapshot \<Rightarrow> gateway_result \<Rightarrow> string list" where
  "charged_accounts L snap r =
     (if gr_personal r then [limitAccount ''user'' (gr_UserID r)]
      else if gr_TeamID r \<noteq> '''' then [limitAccount ''team'' (gr_TeamID r), teamMemberLimitAccount L (gr_TeamID r) (gr_UserID r)]
      else [parent_account r, limitAccount ''key'' (text_or (ls_Roots snap (gr_KeyID r)))])"

lemma gatewayLimits_Inr:
  assumes "gatewayLimits sc L rn snap now ip sub r = Inr ls"
  shows "ls = map (limit_for (ls_Policies snap)) (charged_accounts L snap r)"
    and "\<forall>a \<in> set (charged_accounts L snap r). \<not> runtimeDenied rn DenyLimits a \<and>
      (gr_personal r \<or> gr_TeamID r = '''' \<longrightarrow> Allows (le_texts L) (policy_at (ls_Policies snap) a) ip)"
  using assms
  by (auto simp: gatewayLimits_def personal_limits_def team_limits_def key_limits_def charged_accounts_def charge_Inr Let_def
      split: if_splits option.splits)

lemma gatewayQuotaPolicies_Inr:
  assumes "gatewayQuotaPolicies L rn snap now sub r base = Inr (policies, data)"
  shows "map ql_Limit policies = base"
  using assms
  by (auto simp: gatewayQuotaPolicies_def quota_policy_def Let_def o_def split: option.splits if_splits)

section \<open>The policies of a snapshot\<close>

text \<open>What a published policy rests on.\<close>

definition carried :: "limit_env \<Rightarrow> limit_data \<Rightarrow> limit_row \<Rightarrow> policy \<Rightarrow> bool" where
  "carried L data row p \<longleftrightarrow>
     lr_ScopeKind row \<in> set limit_kinds \<and> row_proved L data row = Inr p \<and>
     (lr_ScopeKind row = ''project'' \<and> soft p \<longrightarrow> runtimeProjectMonthlyIdentity data (lr_ScopeID row)) \<and>
     (lr_ScopeKind row = ''team'' \<or> lr_ScopeKind row = ''team_member'' \<longrightarrow>
        validateTeamLimitPolicy (lr_ScopeKind row) p = Inr () \<and>
        runtimeTeamLimitAccounts L data (limitAccount (lr_ScopeKind row) (lr_ScopeID row)) \<noteq> None)"

lemma compile_row_Inr:
  assumes "compile_row L data row ps = Inr ps'"
  obtains "ps' = ps" | p where "ps' = ps(limitAccount (lr_ScopeKind row) (lr_ScopeID row) \<mapsto> p)" "carried L data row p"
proof -
  let ?account = "limitAccount (lr_ScopeKind row) (lr_ScopeID row)"
  obtain p where p: "lr_ScopeKind row \<in> set limit_kinds" "row_proved L data row = Inr p"
    "\<not> (lr_ScopeKind row = ''project'' \<and> soft p \<and> \<not> runtimeProjectMonthlyIdentity data (lr_ScopeID row))"
    and rest: "(if lr_ScopeKind row = ''team'' \<or> lr_ScopeKind row = ''team_member'' then
            bindE (validateTeamLimitPolicy (lr_ScopeKind row) p) (\<lambda>_.
              if runtimeTeamLimitAccounts L data ?account = None then Inr ps else Inr (ps(?account \<mapsto> p)))
          else Inr (ps(?account \<mapsto> p))) = Inr ps'"
    using assms unfolding compile_row_def Let_def by (auto simp: bindE_Inr_iff simp del: set_simps)
  show thesis
  proof (cases "lr_ScopeKind row = ''team'' \<or> lr_ScopeKind row = ''team_member''")
    case True
    then have v: "validateTeamLimitPolicy (lr_ScopeKind row) p = Inr ()"
      "(if runtimeTeamLimitAccounts L data ?account = None then Inr ps else Inr (ps(?account \<mapsto> p))) = (Inr ps' :: policy_error + _)"
      using rest by (auto simp: bindE_Inr_iff)
    show thesis
    proof (cases "runtimeTeamLimitAccounts L data ?account = None")
      case True
      then show thesis using that(1) v(2) by simp
    next
      case current: False
      then have c: "carried L data row p" unfolding carried_def using p v(1) by blast
      show thesis by (rule that(2)[OF _ c]) (use v(2) current in simp)
    qed
  next
    case False
    then have c: "carried L data row p" unfolding carried_def using p by blast
    show thesis by (rule that(2)[OF _ c]) (use rest False in simp)
  qed
qed

lemma compiled_policy_carried:
  assumes "compileRuntimeLimits L data = Inr c" "cl_Policies c account = Some p"
  obtains row where "row \<in> set (ld_Limits data)" "account = limitAccount (lr_ScopeKind row) (lr_ScopeID row)" "carried L data row p"
proof -
  have folded: "foldE (compile_row L data) (ld_Limits data) (\<lambda>_. None) = Inr (cl_Policies c)"
    using assms(1) by (auto simp: compileRuntimeLimits_def bindE_Inr_iff split: option.splits)
  define P where "P ps \<longleftrightarrow> (\<forall>a p. ps a = Some p \<longrightarrow> (\<exists>row \<in> set (ld_Limits data).
    a = limitAccount (lr_ScopeKind row) (lr_ScopeID row) \<and> carried L data row p))" for ps
  have "P (cl_Policies c)"
  proof (rule foldE_invariant[OF folded])
    show "P (\<lambda>_. None)" by (simp add: P_def)
  next
    fix row ps ps'
    assume row: "row \<in> set (ld_Limits data)" and ps: "P ps" and step: "compile_row L data row ps = Inr ps'"
    show "P ps'" using step
    proof (cases rule: compile_row_Inr)
      case 1
      then show ?thesis using ps by simp
    next
      case (2 p)
      then show ?thesis using ps row by (auto simp: P_def)
    qed
  qed
  then show thesis using that assms(2) by (auto simp: P_def)
qed

lemma decodeLimitPolicy_Inr:
  assumes "decodeLimitPolicy L row proved = Inr p"
  obtains ranges where "Normalize (le_texts L) (row_policy row ranges) = Inr p"
    "lr_ScopeKind row = ''key'' \<longrightarrow> soft p \<longrightarrow> proved"
    "lr_ScopeKind row = ''team_member'' \<longrightarrow> soft p \<longrightarrow> canonicalTeamMemberScopeID (lr_ScopeID row)"
  using assms unfolding decodeLimitPolicy_def Let_def by (auto simp: bindE_Inr_iff split: if_splits)

text \<open>A key whose monthly policy may only alert: the first of its chain, under an identifier of its own.\<close>

definition proved_root :: "limit_env \<Rightarrow> limit_data \<Rightarrow> string \<Rightarrow> bool" where
  "proved_root L data k \<longleftrightarrow>
     (\<exists>key. runtimePersonalKeyRoots data k = Some key) \<or> (\<exists>key project. runtimeProjectKeyRoots L data k = Some (key, project))"

lemma row_proved_Inr:
  assumes "row_proved L data row = Inr p"
  obtains provedKey where "decodeLimitPolicy L row provedKey = Inr p"
    "provedKey \<longrightarrow> lr_ScopeKind row = ''key'' \<and> proved_root L data (lr_ScopeID row)"
proof (cases "policyFromRow L row")
  case (Inr p')
  then show thesis using that[of False] assms by (simp add: row_proved_def policyFromRow_def)
next
  case (Inl e)
  then have k: "lr_ScopeKind row = ''key''" using assms by (simp add: row_proved_def split: if_splits)
  show thesis
  proof (cases "runtimePersonalKeyRoots data (lr_ScopeID row)")
    case (Some key)
    then have "personalKeyPolicyFromRow L row key (ky_UserID key) = Inr p" using assms Inl k by (simp add: row_proved_def)
    then have "decodeLimitPolicy L row True = Inr p" by (simp add: personalKeyPolicyFromRow_def split: if_splits)
    then show thesis using that[of True] k Some by (simp add: proved_root_def)
  next
    case None
    then obtain key project where pr: "runtimeProjectKeyRoots L data (lr_ScopeID row) = Some (key, project)"
      "projectKeyPolicyFromRow L row key project = Inr p"
      using assms Inl k by (auto simp: row_proved_def split: option.splits prod.splits)
    then have "decodeLimitPolicy L row True = Inr p" by (simp add: projectKeyPolicyFromRow_def split: if_splits)
    then show thesis using that[of True] k pr(1) by (auto simp: proved_root_def)
  qed
qed

lemma validateTeamLimitPolicy_Inr: "validateTeamLimitPolicy kind p = Inr () \<Longrightarrow> p_IPRanges p = []"
  by (auto simp: validateTeamLimitPolicy_def split: if_splits)


section \<open>Rotation and admission\<close>

lemma key_chain_unique: "key_chain data k a \<Longrightarrow> key_chain data k b \<Longrightarrow> a = b"
  by (auto simp: key_chain_def dest: rooted_unique)


lemma current_policies_Inr:
  assumes "current_policies sc L rn snap rn' snap' now ip sub r = Inr (limits, policies, data)"
    and "a \<in> set (charged_accounts L snap r)"
  shows "\<exists>pol \<in> set policies. ql_Limit pol = limit_for (ls_Policies snap) a" "\<not> runtimeDenied rn DenyLimits a"
proof -
  have l: "gatewayLimits sc L rn snap now ip sub r = Inr limits"
    and p: "gatewayQuotaPolicies L rn' snap' now sub r limits = Inr (policies, data)"
    using assms(1) by (auto simp: current_policies_def bindE_Inr_iff split: prod.splits)
  note limits = gatewayLimits_Inr[OF l] and policies = gatewayQuotaPolicies_Inr[OF p]
  show "\<exists>pol \<in> set policies. ql_Limit pol = limit_for (ls_Policies snap) a"
    using assms(2) limits(1) policies by (metis (no_types, lifting) image_eqI image_iff list.set_map)
  show "\<not> runtimeDenied rn DenyLimits a" using limits(2) assms(2) by blast
qed

lemma AdmitGatewayCall_within:
  assumes "bolt B" "env_ok E" "Journal_Steps.reachable E q B s" "int64_range now"
    and "AdmitGatewayCall E q B C intent True rid (Some r) now s = (Inr u, t)" "pol \<in> set (gr_admissionQuota r)"
  shows "rid \<in> leases_of B t (lim_Account (ql_Limit pol))" "stays_within B t (ql_Limit pol)"
proof -
  have "gr_admissionQuota r \<noteq> []" using assms(6) by auto
  then obtain payload s1 where s1: "ensureQuotaActive E B intent (gr_quotaTimeZone r) now s = (Inr (), s1)"
    and res: "ReserveWithQuotaRecovery E q B rid payload (gr_admissionQuota r) (gr_quotaBound r)
        (zeroQuotaSettlement (gr_quotaBound r)) now s1 = (Inr (), t)"
    using assms(5) by (auto simp: AdmitGatewayCall_def split: sum.splits prod.splits if_splits)
  have ok: "system_ok q B s1"
    using bolt.ensureQuotaActive_effect[OF assms(1) s1 assms(3,2,4)] bolt.reachable_ok[OF assms(1) _ assms(2)] by blast
  show "stays_within B t (ql_Limit pol)"
    using bolt.ReserveWithQuotaRecovery_ok[OF assms(1) res ok assms(2,4)] assms(6) by simp
  show "rid \<in> leases_of B t (lim_Account (ql_Limit pol))"
    by (rule bolt.ReserveWithQuotaRecovery_leases[OF assms(1) res ok assms(2,4,6)])
qed

text \<open>What an admission leaves an account in.\<close>

definition admitted_on :: "'s bolt \<Rightarrow> 's \<Rightarrow> string \<Rightarrow> limit_snapshot \<Rightarrow> string \<Rightarrow> bool" where
  "admitted_on B t rid snap a \<longleftrightarrow> rid \<in> leases_of B t a \<and> stays_within B t (limit_for (ls_Policies snap) a)"

lemma admitted_onI:
  "rid \<in> leases_of B t (lim_Account l) \<Longrightarrow> stays_within B t l \<Longrightarrow> l = limit_for (ls_Policies snap) a \<Longrightarrow> admitted_on B t rid snap a"
  by (simp add: admitted_on_def limit_for_def)

lemma admitLimitedGatewayCall_within:
  assumes "bolt B" "env_ok E" "Journal_Steps.reachable E q B s" "int64_range now"
    and "admitLimitedGatewayCall E q B C intent True sc L rn snap rn' snap' now ip sub rid r s = (Inr u, t)"
    and "a \<in> set (charged_accounts L snap r)"
  shows "admitted_on B t rid snap a"
proof -
  obtain limits policies data bound where p: "current_policies sc L rn snap rn' snap' now ip sub r = Inr (limits, policies, data)"
    and adm: "AdmitGatewayCall E q B C intent True rid
      (Some (limited_result r limits policies bound (qd_TimeZone data))) now s = (Inr u, t)"
    using assms(5) by (auto simp: admitLimitedGatewayCall_def split: sum.splits)
  obtain pol where pol: "pol \<in> set policies" "ql_Limit pol = limit_for (ls_Policies snap) a"
    using current_policies_Inr(1)[OF p assms(6)] by blast
  have "pol \<in> set (gr_admissionQuota (limited_result r limits policies bound (qd_TimeZone data)))"
    using pol(1) by (simp add: limited_result_def)
  from AdmitGatewayCall_within[OF assms(1-4) adm this] pol(2) show ?thesis by (rule admitted_onI)
qed

text \<open>A site whose policies are those of the snapshots published in it.\<close>

definition site_limits ::
  "limit_env \<Rightarrow> ('u \<Rightarrow> limit_snapshot) \<Rightarrow> ('u \<Rightarrow> gateway_runtime) \<Rightarrow> ('u \<Rightarrow> limit_snapshot) \<Rightarrow> ('u \<Rightarrow> addr) \<Rightarrow>
   ('u \<Rightarrow> session_subject) \<Rightarrow> gateway_result \<Rightarrow> 'u \<Rightarrow> ('s, 'u) site \<Rightarrow> service_error + limit list \<times> quota_limit list \<times> quota_data" where
  "site_limits L snap rn' snap' ip sub r u site =
     current_policies (si_sessions site u) L (si_runtime site u) (snap u) (rn' u) (snap' u) (si_now site u) (ip u) (sub u) r"


section \<open>A chain of two keys\<close>

text \<open>A key that replaces another of the same user, and the policy of the chain.\<close>

definition chain_env :: limit_env where
  "chain_env = \<lparr>le_texts = plain_texts, le_lower = id, le_pair = (\<lambda>_ _. replicate 32 (CHR ''A'')), le_walk = map fst\<rparr>"

definition chain_row :: "string \<Rightarrow> string option \<Rightarrow> chain_key" where
  "chain_row key replaced = \<lparr>ky_ID = key, ky_UserID = ''usr'', ky_TokenHash = key, ky_Status = ''active'', ky_ExpiresAt = None,
     ck_ReplacesKeyID = replaced, ck_CreatedAt = Some 1\<rparr>"

definition chain_policy :: "string \<Rightarrow> limit_row" where
  "chain_policy behavior = \<lparr>lr_ScopeKind = ''key'', lr_ScopeID = ''old'', lr_ETag = ''e1'', lr_Tokens5H = None, lr_Tokens7D = None,
     lr_TokensMonthBehavior = behavior, lr_MoneyMonthBehavior = [], lr_TokensMonth = None, lr_TPM = None, lr_MoneyMonth = None,
     lr_Currency = [], lr_RPM = Some 10, lr_Concurrency = Some 2, lr_IPMode = [], lr_IPRangesJSON = []\<rparr>"

definition chain_data :: "string \<Rightarrow> limit_data" where
  "chain_data behavior =
     \<lparr>ld_Users = [\<lparr>us_ApprovalApplicationID = None, us_PersonalGrantRevision = [], us_ID = ''usr'', us_Disabled = False,
                   us_OffboardedAt = None, us_CreatedAt = Some 1\<rparr>],
      ld_Keys = [chain_row ''new'' (Some ''old''), chain_row ''old'' None], ld_ProjectData = None, ld_TeamData = None,
      ld_Limits = [chain_policy behavior]\<rparr>"

definition compiled_probe :: "string \<Rightarrow> (policy option \<times> string option \<times> string option) option" where
  "compiled_probe behavior = (case compileRuntimeLimits chain_env (chain_data behavior) of
     Inl _ \<Rightarrow> None | Inr c \<Rightarrow> Some (cl_Policies c ''key_old'', cl_Roots c ''new'', cl_Roots c ''old''))"

definition chain_ceilings :: "string \<Rightarrow> policy" where
  "chain_ceilings behavior = no_policy\<lparr>p_TokensMonthBehavior := behavior, p_RPM := Some 10, p_Concurrency := Some 2, p_IPMode := ''none''\<rparr>"

lemma chain_compiled:
  "compiled_probe ''alert_only'' = Some (Some (chain_ceilings ''alert_only''), Some ''old'', Some ''old'')"
  "compiled_probe [] = Some (Some (chain_ceilings []), Some ''old'', Some ''old'')"
  by code_simp+

lemma chain_env_ok: "walk_ok chain_env"
  by (simp add: walk_ok_def chain_env_def)

definition chain_limits :: "string \<Rightarrow> compiled_limits" where
  "chain_limits behavior = (case compileRuntimeLimits chain_env (chain_data behavior) of
     Inl _ \<Rightarrow> \<lparr>cl_Policies = (\<lambda>_. None), cl_Roots = (\<lambda>_. None)\<rparr> | Inr c \<Rightarrow> c)"

lemma chain_limits:
  assumes "compiled_probe behavior = Some (p, a, b)"
  shows "compileRuntimeLimits chain_env (chain_data behavior) = Inr (chain_limits behavior)"
    "cl_Policies (chain_limits behavior) ''key_old'' = p" "cl_Roots (chain_limits behavior) ''new'' = a"
    "cl_Roots (chain_limits behavior) ''old'' = b"
  using assms by (auto simp: compiled_probe_def chain_limits_def split: sum.splits)

text \<open>C10. The search for the roots of rotation chains is exact, whatever the order in which Go walks its map and
  whatever the chains: it fails exactly if some key has no root (its chain is broken, crosses an owner or comes
  back to itself), and otherwise maps every key to its root and no other key. In particular the order does not
  matter.\<close>

theorem rotation_search_exact:
  assumes "set ks = fst ` set nodes"
  shows "(case rotationRoots ks nodes of
      Inl e \<Rightarrow> \<exists>k \<in> set ks. \<forall>first. \<not> rooted nodes k first
    | Inr roots \<Rightarrow> (\<forall>k \<in> set ks. \<exists>first. rooted nodes k first) \<and> (\<forall>k first. roots k = Some first \<longleftrightarrow> rooted nodes k first)) \<and>
    (\<forall>ks'. set ks' = set ks \<longrightarrow> rotationRoots ks' nodes = rotationRoots ks nodes)"
proof (intro conjI allI impI)
  show "case rotationRoots ks nodes of
      Inl e \<Rightarrow> \<exists>k \<in> set ks. \<forall>first. \<not> rooted nodes k first
    | Inr roots \<Rightarrow> (\<forall>k \<in> set ks. \<exists>first. rooted nodes k first) \<and> (\<forall>k first. roots k = Some first \<longleftrightarrow> rooted nodes k first)"
    using rotationRoots_exact[OF assms] by (cases "rotationRoots ks nodes") simp_all
qed (rule rotationRoots_order[OF assms])

definition two_keys :: "(string \<times> rotation_node) list" where
  "two_keys = personal_nodes [chain_row ''new'' (Some ''old''), chain_row ''old'' None]"

lemma two_keys_found:
  "(case rotationRoots [''new'', ''old''] two_keys of Inl _ \<Rightarrow> None | Inr roots \<Rightarrow> roots ''new'') = Some ''old''"
  by code_simp

theorem rotation_search_exact_witness:
  "rooted two_keys ''new'' ''old'' \<and> rotationRoots [''old'', ''new''] two_keys = rotationRoots [''new'', ''old''] two_keys"
proof -
  have ks: "set [''new'', ''old''] = fst ` set two_keys" by (auto simp: two_keys_def personal_nodes_def chain_row_def)
  show ?thesis using rotation_search_exact[OF ks] two_keys_found
    by (cases "rotationRoots [''new'', ''old''] two_keys") (simp_all add: insert_commute)
qed


text \<open>A call with the newer key.\<close>

definition chain_call :: gateway_result where
  "chain_call = (w_result call_start)\<lparr>gr_ProjectID := [], gr_UserID := ''usr'', gr_KeyID := ''new''\<rparr>"

definition chain_quota :: "runtime_quota option" where
  "chain_quota = (case loadRuntimeQuota chain_env (\<lambda>z. z = ''UTC'') ''UTC'' [] [] [] (chain_data []) None of
     Inl _ \<Rightarrow> None | Inr d \<Rightarrow> Some d)"

definition chain_snapshot :: limit_snapshot where
  "chain_snapshot = limitSnapshot chain_env (chain_data []) (\<lambda>_. True) (chain_limits []) chain_quota"

definition chain_subject :: session_subject where
  "chain_subject = \<lparr>ss_PersonalUserID = [], ss_TeamUserID = [], ss_TeamID = [], ss_TeamMembershipID = [], ss_teamCreatedAt = None\<rparr>"

lemma chain_call_fields [simp]:
  "\<not> gr_personal chain_call" "gr_TeamID chain_call = []" "gr_ProjectID chain_call = []" "gr_UserID chain_call = ''usr''"
  "gr_KeyID chain_call = ''new''" "\<not> gr_team chain_call"
  by (simp_all add: chain_call_def call_start_def demo_result_def)

lemma chain_snapshot_fields [simp]:
  "ls_Roots chain_snapshot ''new'' = Some ''old''" "ls_Policies chain_snapshot ''key_old'' = Some (chain_ceilings [])"
  "ls_Quota chain_snapshot = chain_quota"
  using chain_limits[OF chain_compiled(2)] by (simp_all add: chain_snapshot_def limitSnapshot_def)

lemma chain_of: "key_chain (chain_data []) ''new'' ''old''" "key_chain (chain_data []) ''old'' ''old''"
  using compiled_roots[OF chain_env_ok chain_limits(1)[OF chain_compiled(2)]] chain_limits(3,4)[OF chain_compiled(2)] by simp_all

definition open_sessions :: session_checks where
  "open_sessions = \<lparr>sc_personal = (\<lambda>_. None), sc_team = (\<lambda>_. None)\<rparr>"


text \<open>Its policies and its admission, evaluated.\<close>

definition chain_limit :: limit where
  "chain_limit = \<lparr>lim_Account = ''key_old'', lim_RPM = Some 10, lim_Concurrency = Some 2\<rparr>"

definition owner_limit :: limit where
  "owner_limit = \<lparr>lim_Account = ''user_usr'', lim_RPM = None, lim_Concurrency = None\<rparr>"

definition plain_quota :: "limit \<Rightarrow> string \<Rightarrow> quota_limit" where
  "plain_quota l revision =
     \<lparr>ql_Limit = l, ql_Revision = revision, ql_PersonalKey = False, ql_ProjectKey = False, ql_TeamMember = False,
      ql_CreatedAt = Some 1, ql_Tokens5H = None, ql_Tokens7D = None, ql_TokensMonth = None, ql_TPM = None, ql_MoneyMonth = None,
      ql_Currency = [], ql_TokensMonthBehavior = [], ql_MoneyMonthBehavior = []\<rparr>"

definition chain_quotas :: "quota_limit list" where
  "chain_quotas = [plain_quota owner_limit ''0'', plain_quota chain_limit ''e1'']"

lemma chain_owner: "ls_Policies chain_snapshot ''user_usr'' = None"
proof -
  have "(case compileRuntimeLimits chain_env (chain_data []) of Inl _ \<Rightarrow> None | Inr c \<Rightarrow> cl_Policies c ''user_usr'') = None"
    by code_simp
  then show ?thesis by (auto simp: chain_snapshot_def limitSnapshot_def chain_limits_def split: sum.splits)
qed

definition quota_probe :: "(string \<times> (string \<times> bound_row) list \<times> int option \<times> int option \<times> string option \<times> string option \<times> string) option" where
  "quota_probe = (case chain_quota of None \<Rightarrow> None | Some d \<Rightarrow>
     Some (nq_TimeZone d, nq_Bounds d, birth (nq_Created d) ''user_usr'', birth (nq_Created d) ''key_old'',
       nq_Revisions d ''user_usr'', nq_Revisions d ''key_old'', nq_Currency d))"

lemma chain_quota_probe: "quota_probe = Some (''UTC'', [], Some 1, Some 1, None, Some ''e1'', [])"
  by code_simp

lemma chain_policies:
  "current_policies open_sessions chain_env call_runtime chain_snapshot call_runtime chain_snapshot now0 (V4 9) chain_subject chain_call =
   Inr ([owner_limit, chain_limit], chain_quotas, \<lparr>qd_TimeZone = ''UTC'', qd_Bounds = [], qd_Currency = []\<rparr>)"
proof -
  obtain d where d: "chain_quota = Some d" "nq_TimeZone d = ''UTC''" "nq_Bounds d = []" "birth (nq_Created d) ''user_usr'' = Some 1"
    "birth (nq_Created d) ''key_old'' = Some 1" "nq_Revisions d ''user_usr'' = None" "nq_Revisions d ''key_old'' = Some ''e1''"
    "nq_Currency d = []"
    using chain_quota_probe by (auto simp: quota_probe_def split: option.splits)
  have l: "gatewayLimits open_sessions chain_env call_runtime chain_snapshot now0 (V4 9) chain_subject chain_call =
      Inr [owner_limit, chain_limit]"
    by (simp add: gatewayLimits_def key_limits_def parent_account_def limitAccount_def text_or_def limit_for_def policy_at_def
          chain_owner no_policy_def chain_ceilings_def Allows_def owner_limit_def chain_limit_def)
  have p: "\<not> personalKeyQuotaProof call_auth chain_snapshot chain_call a" "\<not> projectKeyQuotaProof call_auth chain_snapshot chain_call a"
    "\<not> teamMemberQuotaProof chain_env call_auth chain_snapshot chain_subject chain_call a" for a
    by (simp_all add: personalKeyQuotaProof_def projectKeyQuotaProof_def teamMemberQuotaProof_def call_auth_def)
  show ?thesis
    by (simp add: current_policies_def l gatewayQuotaPolicies_def d quota_policy_def p text_or_def policy_at_def chain_owner quota_view_def
          owner_limit_def chain_limit_def no_policy_def chain_ceilings_def chain_quotas_def plain_quota_def)
qed

definition chain_site :: "(mem, nat) site" where
  "chain_site = (call_site call_unreached)\<lparr>si_policies :=
     (\<lambda>r u. site_limits chain_env (\<lambda>_. chain_snapshot) (\<lambda>_. call_runtime) (\<lambda>_. chain_snapshot) (\<lambda>_. V4 9) (\<lambda>_. chain_subject) r u
       (call_site call_unreached))\<rparr>"

definition chain_world :: "(mem, nat) world" where
  "chain_world = call_start\<lparr>w_result := chain_call\<rparr>"

abbreviation chain_plan :: "string list option \<Rightarrow> (mem, nat) world gateway_plan" where
  "chain_plan \<equiv> call_plan call_unreached"

text \<open>Another source of policies is the only difference to the site of \<open>Call_Demo\<close>.\<close>

lemma chain_site_same:
  "others chain_site w = others (call_site call_unreached) w" "world_random chain_site = world_random (call_site call_unreached)"
  "gateway_eligible chain_site p a w = gateway_eligible (call_site call_unreached) p a w"
  "eligible_at chain_site p w = eligible_at (call_site call_unreached) p w"
  "route_current chain_site w route = route_current (call_site call_unreached) w route"
  by (simp_all add: chain_site_def others_def world_random_def gateway_eligible_def eligible_at_def route_current_def fun_eq_iff)

lemma chain_site_fields [simp]:
  "si_env chain_site = demo_env" "si_queue chain_site = demo_queue" "si_bolt chain_site = mem_bolt" "si_codec chain_site = demo_codec"
  "si_recorder chain_site" "si_now chain_site u = now0" "si_sessions chain_site u = open_sessions" "si_runtime chain_site u = call_runtime"
  by (simp_all add: chain_site_def open_sessions_def)

lemma chain_site_ok: "site_ok chain_site rid"
  using call_site_ok[of call_unreached rid] by (simp add: site_ok_def chain_site_def)

lemma chain_site_policies:
  "si_policies chain_site r u = site_limits chain_env (\<lambda>_. chain_snapshot) (\<lambda>_. call_runtime) (\<lambda>_. chain_snapshot) (\<lambda>_. V4 9) (\<lambda>_. chain_subject) r u chain_site"
  by (simp add: site_limits_def) (simp add: chain_site_def site_limits_def open_sessions_def)

definition empty_bound :: quota_bound where
  "empty_bound = \<lparr>qb_Tokens = None, qb_Money = None, qb_Currency = [], qb_Revision = [], qb_PriceRevision = [], qb_BasisDigest = []\<rparr>"

definition chain_admitted :: gateway_result where
  "chain_admitted = chain_call\<lparr>gr_admissionLimits := [owner_limit, chain_limit], gr_admissionQuota := chain_quotas, gr_quotaBound := empty_bound,
     gr_quotaTimeZone := ''UTC'', gr_attemptEvidence := [(call_key, no_evidence call_candidate)], gr_admissionAllowed := [call_key]\<rparr>"

lemma chain_dimensions: "gatewayQuotaDimensions chain_quotas = (False, False)"
  by code_simp

lemma chain_state:
  "admission_state chain_site (chain_plan (Some [call_key])) ([owner_limit, chain_limit], chain_quotas, \<lparr>qd_TimeZone = ''UTC'', qd_Bounds = [], qd_Currency = []\<rparr>)
     empty_bound chain_call = chain_admitted"
  by (simp add: admission_state_def gatewayAttemptEvidence_def chain_dimensions evidence_step_def
        gatewayCandidateBoundEvidence_def call_plan_def call_key_def chain_admitted_def)

lemma chain_noted: "noted_in chain_admitted"
  by code_simp

definition chain_reserved :: "(queue_error + unit) \<times> mem" where
  "chain_reserved = (case ensureQuotaActive demo_env mem_bolt (\<lambda>_. True) ''UTC'' now0 demo_start of
     (Inl _, s) \<Rightarrow> (Inl ErrInvalid, s)
   | (Inr _, s) \<Rightarrow> ReserveWithQuotaRecovery demo_env demo_queue mem_bolt ''req1'' ''req1'' chain_quotas empty_bound
       (zeroQuotaSettlement empty_bound) now0 s)"

lemma chain_reserves: "fst chain_reserved = Inr ()"
  by code_simp

lemma chain_admits:
  "AdmitGatewayCall demo_env demo_queue mem_bolt demo_codec (si_intent chain_site) True ''req1'' (Some chain_admitted) now0 demo_start =
   (Inr (), snd chain_reserved)"
proof -
  have i: "si_intent chain_site = (\<lambda>_. True)" by (simp add: chain_site_def fun_eq_iff)
  have f: "gr_admissionQuota chain_admitted = chain_quotas" "chain_quotas \<noteq> []" "gr_quotaTimeZone chain_admitted = ''UTC''"
    "gr_quotaBound chain_admitted = empty_bound" by (simp_all add: chain_admitted_def chain_quotas_def)
  show ?thesis
    using chain_reserves noted_payload[OF chain_noted]
    by (auto simp: AdmitGatewayCall_def f i chain_reserved_def split: prod.splits sum.splits)
qed

lemma chain_attempt_admitted:
  "admitPreparedGatewayAttempt chain_site ''req1'' (chain_plan None) (call_tried 1) chain_world =
   (None, chain_world\<lparr>w_store := snd chain_reserved, w_result := chain_admitted\<rparr>)"
proof -
  have idle: "idle chain_world" by (simp add: idle_def chain_world_def call_start_def)
  have e: "gateway_eligible chain_site (chain_plan None) (call_tried 1) chain_world = (Inr True, chain_world)"
    unfolding chain_site_same by (rule call_eligible) (use idle in \<open>simp_all add: idle_def\<close>)
  have r: "w_result chain_world = chain_call" "w_store chain_world = demo_start" by (simp_all add: chain_world_def call_start_def)
  have pol: "si_policies chain_site chain_call u = Inr ([owner_limit, chain_limit], chain_quotas, \<lparr>qd_TimeZone = ''UTC'', qd_Bounds = [], qd_Currency = []\<rparr>)" for u
    by (simp add: chain_site_policies site_limits_def chain_policies)
  have priced: "\<not> gr_PricingUnsupported chain_call" by (simp add: chain_call_def call_start_def demo_result_def)
  have b: "prepareGatewayAttemptQuotaBound demo_codec (si_rows chain_site) (world_random chain_site)
      (eligible_at chain_site (chain_plan None) chain_world) (chain_plan None) chain_call chain_quotas
      \<lparr>qd_TimeZone = ''UTC'', qd_Bounds = [], qd_Currency = []\<rparr> = Inr (chain_plan (Some [call_key]), empty_bound)"
    unfolding chain_site_same empty_bound_def
    by (rule call_quota_bound) (simp_all add: call_eligible_at idle priced chain_dimensions)
  have g: "gp_allowed (chain_plan (Some [call_key])) = Some [call_key]" by (simp add: call_plan_def)
  have s: "on_result (admission_state chain_site (chain_plan (Some [call_key]))
      ([owner_limit, chain_limit], chain_quotas, \<lparr>qd_TimeZone = ''UTC'', qd_Bounds = [], qd_Currency = []\<rparr>) empty_bound) chain_world =
      chain_world\<lparr>w_result := chain_admitted\<rparr>"
    by (simp add: on_result_def r chain_state)
  show ?thesis
    by (simp add: admitPreparedGatewayAttempt_def e chain_site_same(1,5) r pol b g s chain_admits)
qed


end
