(* ===== verification/Spec2Isabelle.thy ===== *)
theory Spec2Isabelle
  imports Pricing_Bound Decimal_Facts Route_Order Limits_Policy_Facts Attempt_Health Gateway_Claims Native_Claims Rejection
    Source_Claims Runtime_Claims Call_Claims Limit_Claims
begin

text \<open>
  A verification library for routex, a gateway between the clients of an organisation and the providers of
  AI models, written in Go. A call arrives with a key; the gateway authenticates it on a snapshot of the
  control plane's database, selects a route to a provider by weight, admits the call under the limits and
  quotas of its accounts, sends it, retries on another route where that cannot repeat work, meters what the
  provider reports, prices it, and delivers one durable fact per call to the database. The library models
  this path from the parser of the request to the fact, with the pure packages it uses.

  \<^bold>\<open>Parts, theories and sources.\<close>

  \<^item> Foundations. \<open>Prelude\<close>: results with an early return, 64-bit wrap-around, the texts of \<open>strings\<close> and
    \<open>strconv\<close>. Used by every theory.
  \<^item> Exact prices, \<open>pkg/pricing\<close>. \<open>Decimals\<close> (\<open>decimal.go\<close>), \<open>Pricing\<close> (\<open>pricing.go\<close>), \<open>Pricing_Bound\<close>
    (\<open>bound.go\<close>), with \<open>Decimal_Facts\<close> and \<open>Pricing_Facts\<close>. The state is none; \<open>big.Rat\<close> is \<open>rat\<close>.
  \<^item> Attempts, \<open>pkg/routeattempt\<close>. \<open>Route_Plan\<close> (\<open>New\<close>, \<open>selectAttempt\<close>), \<open>Route_Run\<close> (\<open>Run\<close>), \<open>Route_Order\<close> (the
    trace of its hooks) and \<open>Run_Contract\<close>, the locale \<open>attempt_run\<close> between the loop and its hooks. What the
    hooks change is a type variable.
  \<^item> Policies, \<open>pkg/limits\<close>. \<open>Limits_Policy\<close>, \<open>Limits_Policy_Facts\<close>; addresses are words.
  \<^item> The journal, \<open>pkg/eventqueue\<close>. \<open>Queue_Types\<close>, \<open>Queue_Store\<close> (transactions over the locale \<open>bolt\<close>),
    \<open>Rate_Limits\<close> (\<open>limits.go\<close>), \<open>Quota_Counters\<close>, \<open>Journal\<close> (\<open>queue.go\<close>), \<open>Quota\<close>, \<open>Quota_Recovery\<close> and
    \<open>Quota_Usage\<close> (\<open>quota*.go\<close>). Invariants: \<open>Tx_Frames\<close>, \<open>Limits_Inv\<close>, \<open>Journal_Inv\<close>, \<open>Quota_Sums\<close>,
    \<open>Quota_Ledger\<close>, \<open>Quota_Inv\<close>, \<open>Quota_Ops\<close>, \<open>Quota_Check\<close>, \<open>Quota_Admit\<close>, \<open>Journal_Open\<close>,
    \<open>Journal_Restart\<close>, \<open>Journal_Reads\<close>; \<open>Journal_Steps\<close> has the operations as one step relation and their
    refinement of the abstract log of \<open>Fact_Log\<close>; \<open>Journal_Live\<close> and \<open>Journal_Claims\<close> the properties.
  \<^item> Calls, \<open>internal/routex/service\<close>. \<open>Call_Facts\<close> (\<open>call.go\<close>, \<open>pricing_call.go\<close>), \<open>Gateway_Quota\<close>
    (\<open>quota_admission.go\<close>), \<open>Call_Recorder\<close> (\<open>call_recorder.go\<close>), \<open>Gateway_Claims\<close>.
  \<^item> Native protocols, \<open>internal/routex/service\<close>. \<open>Json_Text\<close> (what is used of \<open>encoding/json\<close>),
    \<open>Native_Usage\<close> (\<open>pricing_usage.go\<close> and its siblings), \<open>Native_Requests\<close>, \<open>Native_Parsers\<close> (the parsers
    and the inspection for quotas), \<open>Native_Facts\<close>, \<open>Native_Claims\<close>; \<open>Rejection\<close> (what a failed answer proves).
  \<^item> Snapshot, \<open>internal/routex/service\<close>. \<open>Runtime_Rows\<close> (rows and what is derived from one), \<open>Runtime_Auth\<close>
    (\<open>runtime.go\<close>: the authorization snapshot and the tombstones), \<open>Runtime_Claims\<close> (its publication against
    commits and revocations), \<open>Source_Holders\<close> and \<open>Source_Claims\<close> (the registry of credential sources),
    \<open>Attempt_Health\<close> (cooldowns), \<open>Gateway_Routes\<close> (\<open>buildRuntimeRoutes\<close>, \<open>gateway_attempt_plan.go\<close>).
  \<^item> The call as a whole, \<open>gateway_attempt_execute.go\<close>. \<open>Gateway_Execute\<close> composes the parts above into
    \<open>gatewayNativeAttempts\<close>; \<open>Gateway_Dispatch\<close> has its invariant and the interpretation of \<open>attempt_run\<close> on
    its hooks; \<open>Call_Demo\<close> and \<open>Call_Claims\<close> a concrete call and the properties.
  \<^item> The limits a call is admitted under. \<open>Limit_Roots\<close> (\<open>rotationRoots\<close>: chains of keys that replace each other),
    \<open>Limit_Scopes\<close> (\<open>resource_limits_runtime.go\<close>, \<open>resource_limits.go\<close> and the monthly behaviours of keys, projects
    and members: stored rows as the policies of a snapshot), \<open>Call_Limits\<close> (\<open>gatewayLimits\<close>, \<open>quota_runtime.go\<close>),
    \<open>Limit_Claims\<close>. They fill the parameter \<open>si_policies\<close> of a call (\<open>site_limits\<close>).

  \<^bold>\<open>How the parts interact.\<close> \<open>gatewayNativeAttempts\<close> makes a plan from the snapshot's routes, taking a holder of
  each credential source; computes the bound of the request over the candidates; and runs the loop. Its hooks
  check the snapshot, the registry and the cooldowns, admit the call in the journal with a fallback fact, write
  a checkpoint before and after each dispatch, and classify what comes back. The end of the call turns the fact
  into the final one (\<open>PersistGatewayCall\<close>), and the delivery loop hands final facts to the database. A process
  that dies leaves the last checkpoint, which opening the journal makes final. The record \<open>site\<close> holds what a
  call finds around it, and \<open>si_others\<close> what other goroutines do between its steps.

  \<^bold>\<open>What is shown.\<close> A price bound dominates every price within the capacity; decimals keep their value. A run of
  attempts is bounded, never repeats a pair and retries only after an outcome that is safe to replay. The
  journal keeps its invariant through any history with restarts, implements the log of facts, and never admits
  over a limit or a quota. A gateway call sends no request that is not in the journal as work in flight, and
  claims that no work was done only with proofs for every request it sent. A Messages stream is counted as one
  answer; an accepted request refers to nothing a provider keeps; a request that passes the inspection can be
  priced. A revocation that has returned denies the next authentication, in every interleaving with refreshes;
  the registry of sources counts exactly, and a source that was joined is not used again. All keys of a rotation
  chain are charged to the account of its first key, found in every order of the search; a policy that only
  alerts is published only for an identity that is proved; an admitted attempt is leased on, and within the
  ceilings of, every account it is charged to.

  \<^bold>\<open>Bounds and fuel.\<close> The loop of attempts ends by its budget (\<open>MaxAttempts\<close> = 4), which is its termination
  measure. The reader of JSON texts takes fuel, twice the length of the text and two: each call of a nested
  reader consumes a character, and \<open>Native_Claims\<close> shows that more fuel does not change an answer; its depth is
  that of Go, 10000. The capacities of the code are kept: 5000 credential sources, 1024 cooldowns, 128
  targets with 32 credentials, the configured size of the journal, 1 MiB of a failed answer. Counts of 64 bits
  are integers with the range checks of the code, or wrap where it does not check.

  \<^bold>\<open>What is assumed.\<close> Code outside the repository is a parameter with its documented behaviour: bbolt as the
  locale \<open>bolt\<close> (a cursor reads the entries of a bucket in key order), JSON encodings and SHA-256 as \<open>codec\<close>,
  \<open>digests\<close> and \<open>env\<close>, the texts of addresses as the locale of \<open>Limits_Policy\<close>. A check of a call reads the
  snapshot at one instant; \<open>Runtime_Claims\<close> has the finer steps for authentication. The publication epoch is a
  natural number and not an unsigned 64-bit one. The concrete instances are the database in memory
  \<open>mem_bolt\<close>, on which \<open>bolt\<close> is interpreted, and the installations of the witnesses.

  \<^bold>\<open>What modelling showed.\<close> Authentication reads the snapshot and then the tombstones. A refresh between the two
  reads can make a request pass with a key whose revocation has already returned: the last theorem of
  \<open>Runtime_Claims\<close> is that interleaving, and the one before it is about requests that read both at one instant. Two comments differ from the code: \<open>gateway.go\<close> says that \<open>GatewayChat\<close> never retries,
  and \<open>quota_native.go\<close> that the pricing classifier does not see cache control at the top level.

  \<^bold>\<open>Not modelled.\<close> The control plane (creation, change and listing of resources, audit, notifications): gorm
  transactions whose meaning is that of the database, and of which the modelled parts see the rows. Handlers,
  configuration and start-up: glue. Clients of OAuth, OIDC, SAML, LDAP, SMTP, vault and object stores: the other
  side and the libraries are not here. Sessions and the resolution of attachments: parameters of a call (\<open>si_sessions\<close>,
  \<open>am_resolve\<close>), since they read the database; so do limits and quotas in a service without a runtime, and only
  those of a service with one are modelled. The binding of a journal to its database, the background goroutines around the delivery loop, the
  capture of configurations, the delivery controller and the web console.
\<close>

end
